(* ===== verification/Prelude.thy ===== *)
theory Prelude
  imports Main "HOL-Library.Word"
begin

text \<open>
  Shared vocabulary of the development: machine-integer types, little-endian
  byte images of words, byte slices and the effect of \<^verbatim>\<open>memcpy\<close> on a buffer,
  and the contract \<open>wire_struct\<close> that every packed C++ structure of
  \<^verbatim>\<open>protocol/types.hpp\<close> satisfies: it has a fixed size, its byte image has exactly
  that size, and copying the image back gives the same value.
\<close>

type_synonym byte = "8 word"
type_synonym u8 = "8 word"
type_synonym u16 = "16 word"
type_synonym u32 = "32 word"
type_synonym u64 = "64 word"

named_theorems wire_len "lengths of byte images"
named_theorems wire_rt "reading back a byte image"

subsection \<open>Slices and copies\<close>

definition slice :: "nat \<Rightarrow> nat \<Rightarrow> 'a list \<Rightarrow> 'a list" where
  "slice off n xs = take n (drop off xs)"

definition memcpy :: "'a list \<Rightarrow> nat \<Rightarrow> 'a list \<Rightarrow> 'a list" where
  "memcpy dst off src = take off dst @ src @ drop (off + length src) dst"

lemma length_slice [simp]: "length (slice off n xs) = min n (length xs - off)"
  by (simp add: slice_def)

lemma slice_all: "slice 0 (length xs) xs = xs"
  by (simp add: slice_def)

lemma slice_join:
  assumes "b = a + n"
  shows "slice a n xs @ slice b m xs = slice a (n + m) xs"
  using assms by (simp add: slice_def take_add drop_drop add.commute [of n a])

lemma slice_join3:
  assumes "b = a + n"
  shows "slice a n xs @ slice b m xs @ ys = slice a (n + m) xs @ ys"
  using slice_join [OF assms, of xs m] by (metis append.assoc)

lemma slice_append_right:
  "length xs \<le> off \<Longrightarrow> slice off n (xs @ ys) = slice (off - length xs) n ys"
  by (simp add: slice_def)

lemma slice_append_left:
  "off + n \<le> length xs \<Longrightarrow> slice off n (xs @ ys) = slice off n xs"
  by (simp add: slice_def)

lemma slice_prefix: "length xs = n \<Longrightarrow> slice 0 n (xs @ ys) = xs"
  by (simp add: slice_def)

lemma slice_whole: "length xs = n \<Longrightarrow> slice 0 n xs = xs"
  by (simp add: slice_def)

lemma length_memcpy [simp]:
  "off + length src \<le> length dst \<Longrightarrow> length (memcpy dst off src) = length dst"
  by (simp add: memcpy_def)

lemma take_memcpy:
  "off \<le> length dst \<Longrightarrow> take (off + length src) (memcpy dst off src) = take off dst @ src"
  by (simp add: memcpy_def)

lemma take_memcpy_0: "take (length src) (memcpy dst 0 src) = src"
  by (simp add: memcpy_def)

lemma memcpy_memcpy:
  assumes "length a \<le> length dst"
  shows "memcpy (memcpy dst 0 a) (length a) b = memcpy dst 0 (a @ b)"
  by (simp add: memcpy_def ac_simps)

lemma memcpy_Nil [simp]: "memcpy dst off [] = dst"
  by (simp add: memcpy_def)

lemma slice_memcpy_same:
  "off + length src \<le> length dst \<Longrightarrow> slice off (length src) (memcpy dst off src) = src"
  by (simp add: slice_def memcpy_def)

lemma slice_memcpy_before:
  "a + n \<le> off \<Longrightarrow> off \<le> length dst \<Longrightarrow> slice a n (memcpy dst off src) = slice a n dst"
  by (rule nth_equalityI) (auto simp: slice_def memcpy_def nth_append)

lemma slice_memcpy_after:
  assumes "off + length src \<le> a" and "off + length src \<le> length dst"
  shows "slice a n (memcpy dst off src) = slice a n dst"
  using assms by (simp add: slice_def memcpy_def)

lemma nth_memcpy:
  assumes "off \<le> i" and "i < off + length src" and "off + length src \<le> length dst"
  shows "memcpy dst off src ! i = src ! (i - off)"
  using assms by (auto simp: memcpy_def nth_append)

subsection \<open>Little-endian byte images\<close>

fun le_nat :: "byte list \<Rightarrow> nat" where
  "le_nat [] = 0"
| "le_nat (b # bs) = unat b + 256 * le_nat bs"

fun nat_le :: "nat \<Rightarrow> nat \<Rightarrow> byte list" where
  "nat_le 0 x = []"
| "nat_le (Suc n) x = word_of_nat (x mod 256) # nat_le n (x div 256)"

lemma length_nat_le [simp]: "length (nat_le n x) = n"
  by (induction n arbitrary: x) simp_all

lemma unat_byte_bound: "unat (b :: byte) < 256"
  using unsigned_less [of b] by simp

lemma unat_u16_bound: "unat (x :: u16) < 65536"
  using unsigned_less [of x] by simp

lemma unat_u32_bound: "unat (x :: u32) < 4294967296"
  using unsigned_less [of x] by simp

lemma unat_u64_bound: "unat (x :: u64) < 18446744073709551616"
  using unsigned_less [of x] by simp

lemma unat_u16_u32 [simp]: "unat (ucast (x :: u16) :: u32) = unat x"
  using unat_u16_bound [of x] by (simp add: unsigned_ucast_eq take_bit_nat_eq_self)

lemma unat_u8_u32 [simp]: "unat (ucast (x :: u8) :: u32) = unat x"
  using unat_byte_bound [of x] by (simp add: unsigned_ucast_eq take_bit_nat_eq_self)

lemma unat_u32_u64 [simp]: "unat (ucast (x :: u32) :: u64) = unat x"
  using unat_u32_bound [of x] by (simp add: unsigned_ucast_eq take_bit_nat_eq_self)

lemma unat_mult_u32: "unat (a :: u32) * unat b < 4294967296 \<Longrightarrow> unat (a * b) = unat a * unat b"
  by (simp add: unat_word_ariths)

lemma le_nat_bound: "le_nat bs < 256 ^ length bs"
proof (induction bs)
  case Nil
  then show ?case by simp
next
  case (Cons b bs)
  have "unat b + 256 * le_nat bs < 256 * (le_nat bs + 1)"
    using unat_byte_bound [of b] by simp
  also have "\<dots> \<le> 256 * 256 ^ length bs"
    using Cons.IH by simp
  finally show ?case by simp
qed

lemma unat_word_of_nat_byte: "unat (word_of_nat (x mod 256) :: byte) = x mod 256"
  by (simp add: unat_of_nat)

lemma le_nat_nat_le: "le_nat (nat_le n x) = x mod 256 ^ n"
proof (induction n arbitrary: x)
  case 0
  then show ?case by simp
next
  case (Suc n)
  have "x mod 256 + 256 * (x div 256 mod 256 ^ n) = x mod (256 * 256 ^ n)"
    by (simp add: mod_mult2_eq)
  then show ?case
    by (simp add: Suc.IH unat_word_of_nat_byte)
qed

lemma nat_le_le_nat: "nat_le (length bs) (le_nat bs) = bs"
proof (induction bs)
  case Nil
  then show ?case by simp
next
  case (Cons b bs)
  have "(unat b + 256 * le_nat bs) mod 256 = unat b"
    and "(unat b + 256 * le_nat bs) div 256 = le_nat bs"
    using unat_byte_bound [of b] by simp_all
  then show ?case
    using Cons.IH by simp
qed

text \<open>The image of a word of \<open>n\<close> bytes, as \<^verbatim>\<open>memcpy\<close> of the field writes it.\<close>

definition le_bytes :: "nat \<Rightarrow> 'a::len word \<Rightarrow> byte list" where
  "le_bytes n w = nat_le n (unat w)"

definition le_word :: "byte list \<Rightarrow> 'a::len word" where
  "le_word bs = word_of_nat (le_nat bs)"

lemma length_le_bytes [simp]: "length (le_bytes n w) = n"
  by (simp add: le_bytes_def)

lemma le_word_le_bytes:
  fixes w :: "'a::len word"
  assumes "8 * n = LENGTH('a)"
  shows "le_word (le_bytes n w) = w"
proof -
  have "(256::nat) ^ n = (2 ^ 8) ^ n"
    by simp
  also have "\<dots> = 2 ^ LENGTH('a)"
    by (simp only: power_mult [symmetric] assms)
  finally have "(256::nat) ^ n = 2 ^ LENGTH('a)" .
  moreover have "unat w < 2 ^ LENGTH('a)"
    by (rule unsigned_less)
  ultimately show ?thesis
    by (simp add: le_word_def le_bytes_def le_nat_nat_le)
qed

lemma le_bytes_le_word:
  assumes "8 * length bs = LENGTH('a::len)"
  shows "le_bytes (length bs) (le_word bs :: 'a word) = bs"
proof -
  have "(256::nat) ^ length bs = (2 ^ 8) ^ length bs"
    by simp
  also have "\<dots> = 2 ^ LENGTH('a)"
    by (simp only: power_mult [symmetric] assms)
  finally have "le_nat bs < 2 ^ LENGTH('a)"
    using le_nat_bound [of bs] by simp
  then have "unat (le_word bs :: 'a word) = le_nat bs"
    by (simp add: le_word_def unat_of_nat)
  then show ?thesis
    by (simp add: le_bytes_def nat_le_le_nat)
qed

subsection \<open>The contract of a packed structure\<close>

text \<open>
  \<open>wf\<close> carries what the C++ type fixes and the HOL type does not: the lengths of
  array members. \<open>to_bytes\<close> is the object representation that \<^verbatim>\<open>memcpy\<close> reads,
  \<open>of_bytes\<close> the object it writes.
\<close>

locale wire_struct =
  fixes sizeof :: nat
    and wf :: "'a \<Rightarrow> bool"
    and to_bytes :: "'a \<Rightarrow> byte list"
    and of_bytes :: "byte list \<Rightarrow> 'a"
  assumes len_to: "wf x \<Longrightarrow> length (to_bytes x) = sizeof"
    and of_to: "wf x \<Longrightarrow> of_bytes (to_bytes x) = x"
    and wf_of: "length bs = sizeof \<Longrightarrow> wf (of_bytes bs)"
    and to_of: "length bs = sizeof \<Longrightarrow> to_bytes (of_bytes bs) = bs"
begin

lemma to_bytes_inj: "wf x \<Longrightarrow> wf y \<Longrightarrow> to_bytes x = to_bytes y \<Longrightarrow> x = y"
  using of_to by metis

lemma of_slice_to:
  "wf x \<Longrightarrow> of_bytes (slice off sizeof (pre @ to_bytes x @ post)) = x" if "length pre = off"
  using that by (simp add: slice_append_right slice_prefix len_to of_to)

end

text \<open>Arrays of structures: the images one after the other.\<close>

definition array_to :: "('a \<Rightarrow> byte list) \<Rightarrow> 'a list \<Rightarrow> byte list" where
  "array_to to_bytes xs = concat (map to_bytes xs)"

fun array_of :: "nat \<Rightarrow> (byte list \<Rightarrow> 'a) \<Rightarrow> nat \<Rightarrow> byte list \<Rightarrow> 'a list" where
  "array_of sz of_bytes 0 bs = []"
| "array_of sz of_bytes (Suc n) bs = of_bytes (take sz bs) # array_of sz of_bytes n (drop sz bs)"

definition array_wf :: "nat \<Rightarrow> ('a \<Rightarrow> bool) \<Rightarrow> 'a list \<Rightarrow> bool" where
  "array_wf n P xs \<longleftrightarrow> length xs = n \<and> list_all P xs"

lemma length_array_of [simp]: "length (array_of sz g n bs) = n"
  by (induction n arbitrary: bs) simp_all

context wire_struct
begin

lemma array_len_to: "list_all wf xs \<Longrightarrow> length (array_to to_bytes xs) = length xs * sizeof"
  by (induction xs) (simp_all add: array_to_def len_to)

lemma array_of_to: "list_all wf xs \<Longrightarrow> array_of sizeof of_bytes (length xs) (array_to to_bytes xs) = xs"
  by (induction xs) (simp_all add: array_to_def len_to of_to)

lemma array_wf_of: "length bs = n * sizeof \<Longrightarrow> list_all wf (array_of sizeof of_bytes n bs)"
  by (induction n arbitrary: bs) (simp_all add: wf_of)

lemma array_to_of:
  "length bs = n * sizeof \<Longrightarrow> array_to to_bytes (array_of sizeof of_bytes n bs) = bs"
  by (induction n arbitrary: bs) (simp_all add: array_to_def to_of)

lemma array_wire_struct:
  "wire_struct (n * sizeof) (array_wf n wf) (array_to to_bytes) (array_of sizeof of_bytes n)"
  by unfold_locales (auto simp: array_wf_def array_len_to array_of_to array_wf_of array_to_of)

end

subsection \<open>Scalars and byte arrays\<close>

definition put8 :: "u8 \<Rightarrow> byte list" where "put8 = le_bytes 1"
definition put16 :: "u16 \<Rightarrow> byte list" where "put16 = le_bytes 2"
definition put32 :: "u32 \<Rightarrow> byte list" where "put32 = le_bytes 4"
definition put64 :: "u64 \<Rightarrow> byte list" where "put64 = le_bytes 8"
definition get8 :: "byte list \<Rightarrow> u8" where "get8 = le_word"
definition get16 :: "byte list \<Rightarrow> u16" where "get16 = le_word"
definition get32 :: "byte list \<Rightarrow> u32" where "get32 = le_word"
definition get64 :: "byte list \<Rightarrow> u64" where "get64 = le_word"

definition any_value :: "'a \<Rightarrow> bool" where [simp]: "any_value x \<longleftrightarrow> True"
definition bytes_wf :: "nat \<Rightarrow> byte list \<Rightarrow> bool" where "bytes_wf n bs \<longleftrightarrow> length bs = n"

lemma length_puts [simp]:
  "length (put8 a) = 1" "length (put16 b) = 2" "length (put32 c) = 4" "length (put64 d) = 8"
  by (simp_all add: put8_def put16_def put32_def put64_def)

lemma le_bytes_le_word_len:
  "length bs = n \<Longrightarrow> 8 * n = LENGTH('a::len) \<Longrightarrow> le_bytes n (le_word bs :: 'a word) = bs"
  using le_bytes_le_word [of bs, where 'a = 'a] by blast

interpretation u8: wire_struct 1 any_value put8 get8
  by unfold_locales (simp_all add: put8_def get8_def le_word_le_bytes le_bytes_le_word_len)

interpretation u16: wire_struct 2 any_value put16 get16
  by unfold_locales (simp_all add: put16_def get16_def le_word_le_bytes le_bytes_le_word_len)

interpretation u32: wire_struct 4 any_value put32 get32
  by unfold_locales (simp_all add: put32_def get32_def le_word_le_bytes le_bytes_le_word_len)

interpretation u64: wire_struct 8 any_value put64 get64
  by unfold_locales (simp_all add: put64_def get64_def le_word_le_bytes le_bytes_le_word_len)

lemma bytes_wire_struct: "wire_struct n (bytes_wf n) id id"
  by unfold_locales (simp_all add: bytes_wf_def)

end
