(* ===== verification/Protocol_Types.thy ===== *)
theory Protocol_Types
  imports Prelude
begin

text \<open>
  The wire structures of \<^verbatim>\<open>protocol/types.hpp\<close>. Every packed struct is a record with the
  source's members in the source's order (the record's short name is the prefix of its
  selectors), its well-formedness (array members have the declared length), its object
  representation \<open>S_to_bytes\<close> and the object \<open>S_of_bytes\<close> that
  \<^verbatim>\<open>memcpy\<close> into the struct yields, with the member offsets written out. Each struct is
  an instance of \<open>wire_struct\<close> at the size its \<^verbatim>\<open>static_assert\<close> fixes. Signed members
  are kept as words and read with \<open>sint\<close>.
\<close>

definition PROTOCOL_MAGIC :: u32 where "PROTOCOL_MAGIC = 0x4E444C52"
definition PROTOCOL_VERSION :: u8 where "PROTOCOL_VERSION = 1"
definition MAX_PACKET_SIZE :: nat where "MAX_PACKET_SIZE = 131072"
definition MAX_NODES :: nat where "MAX_NODES = 8"

text \<open>
  The enumerators of \<^verbatim>\<open>enum class PacketId : uint8_t\<close>. A cast from a byte that is no
  enumerator keeps the byte: \<open>PacketId.Other\<close>.
\<close>

datatype PacketId =
    Initialize
  | Passphrase
  | CreateAccessPoint
  | CreateAccessPointPrivate
  | ExternalProxy
  | ExternalProxyToken
  | ExternalProxyState
  | SyncNetwork
  | Reject
  | RejectReply
  | Scan
  | ScanReply
  | ScanReplyEnd
  | Connect
  | ConnectPrivate
  | Connected
  | Disconnect
  | ProxyConfig
  | ProxyConnect
  | ProxyConnectReply
  | ProxyData
  | ProxyDisconnect
  | SetAcceptPolicy
  | SetAdvertiseData
  | Ping
  | NetworkError
  | Other u8

fun packet_id_byte :: "PacketId \<Rightarrow> u8" where
  "packet_id_byte PacketId.Initialize = 0"
| "packet_id_byte PacketId.Passphrase = 1"
| "packet_id_byte PacketId.CreateAccessPoint = 2"
| "packet_id_byte PacketId.CreateAccessPointPrivate = 3"
| "packet_id_byte PacketId.ExternalProxy = 4"
| "packet_id_byte PacketId.ExternalProxyToken = 5"
| "packet_id_byte PacketId.ExternalProxyState = 6"
| "packet_id_byte PacketId.SyncNetwork = 7"
| "packet_id_byte PacketId.Reject = 8"
| "packet_id_byte PacketId.RejectReply = 9"
| "packet_id_byte PacketId.Scan = 10"
| "packet_id_byte PacketId.ScanReply = 11"
| "packet_id_byte PacketId.ScanReplyEnd = 12"
| "packet_id_byte PacketId.Connect = 13"
| "packet_id_byte PacketId.ConnectPrivate = 14"
| "packet_id_byte PacketId.Connected = 15"
| "packet_id_byte PacketId.Disconnect = 16"
| "packet_id_byte PacketId.ProxyConfig = 17"
| "packet_id_byte PacketId.ProxyConnect = 18"
| "packet_id_byte PacketId.ProxyConnectReply = 19"
| "packet_id_byte PacketId.ProxyData = 20"
| "packet_id_byte PacketId.ProxyDisconnect = 21"
| "packet_id_byte PacketId.SetAcceptPolicy = 22"
| "packet_id_byte PacketId.SetAdvertiseData = 23"
| "packet_id_byte PacketId.Ping = 254"
| "packet_id_byte PacketId.NetworkError = 255"
| "packet_id_byte (PacketId.Other b) = b"

definition packet_id_cast :: "u8 \<Rightarrow> PacketId" where
  "packet_id_cast b =
    (if b = 0 then PacketId.Initialize
     else if b = 1 then PacketId.Passphrase
     else if b = 2 then PacketId.CreateAccessPoint
     else if b = 3 then PacketId.CreateAccessPointPrivate
     else if b = 4 then PacketId.ExternalProxy
     else if b = 5 then PacketId.ExternalProxyToken
     else if b = 6 then PacketId.ExternalProxyState
     else if b = 7 then PacketId.SyncNetwork
     else if b = 8 then PacketId.Reject
     else if b = 9 then PacketId.RejectReply
     else if b = 10 then PacketId.Scan
     else if b = 11 then PacketId.ScanReply
     else if b = 12 then PacketId.ScanReplyEnd
     else if b = 13 then PacketId.Connect
     else if b = 14 then PacketId.ConnectPrivate
     else if b = 15 then PacketId.Connected
     else if b = 16 then PacketId.Disconnect
     else if b = 17 then PacketId.ProxyConfig
     else if b = 18 then PacketId.ProxyConnect
     else if b = 19 then PacketId.ProxyConnectReply
     else if b = 20 then PacketId.ProxyData
     else if b = 21 then PacketId.ProxyDisconnect
     else if b = 22 then PacketId.SetAcceptPolicy
     else if b = 23 then PacketId.SetAdvertiseData
     else if b = 254 then PacketId.Ping
     else if b = 255 then PacketId.NetworkError
     else PacketId.Other b)"

lemma packet_id_byte_cast: "packet_id_byte (packet_id_cast b) = b"
  by (simp add: packet_id_cast_def)

definition packet_id_enumerator :: "PacketId \<Rightarrow> bool" where
  "packet_id_enumerator i \<longleftrightarrow> (case i of PacketId.Other b \<Rightarrow> False | _ \<Rightarrow> True)"

lemma packet_id_cast_byte: "packet_id_enumerator i \<Longrightarrow> packet_id_cast (packet_id_byte i) = i"
  by (cases i) (simp_all add: packet_id_cast_def packet_id_enumerator_def)

subsection \<open>The structures\<close>

named_theorems wire_wf "structures read from enough bytes are well formed"
named_theorems wire_inv "writing back a structure that was read"

declare u8.of_to [wire_rt] and u16.of_to [wire_rt] and u32.of_to [wire_rt] and u64.of_to [wire_rt]
declare u8.to_of [wire_inv] and u16.to_of [wire_inv] and u32.to_of [wire_inv] and u64.to_of [wire_inv]

lemmas slice_cut = slice_append_right slice_prefix slice_whole
lemmas slice_glue = slice_join slice_whole

record LdnHeader =
  hdr_magic :: u32
  hdr_type :: u8
  hdr_version :: u8
  hdr_reserved :: u16
  hdr_data_size :: u32

definition wf_LdnHeader :: "LdnHeader \<Rightarrow> bool" where
  "wf_LdnHeader x \<longleftrightarrow> any_value x"

definition LdnHeader_to_bytes :: "LdnHeader \<Rightarrow> byte list" where
  "LdnHeader_to_bytes x =
     put32 (hdr_magic x) @
     put8 (hdr_type x) @
     put8 (hdr_version x) @
     put16 (hdr_reserved x) @
     put32 (hdr_data_size x)"

definition LdnHeader_of_bytes :: "byte list \<Rightarrow> LdnHeader" where
  "LdnHeader_of_bytes bs =
     \<lparr>hdr_magic = get32 (slice 0 4 bs),
      hdr_type = get8 (slice 4 1 bs),
      hdr_version = get8 (slice 5 1 bs),
      hdr_reserved = get16 (slice 6 2 bs),
      hdr_data_size = get32 (slice 8 4 bs)\<rparr>"

lemmas LdnHeader_layout = wf_LdnHeader_def LdnHeader_to_bytes_def LdnHeader_of_bytes_def bytes_wf_def

interpretation LdnHeader_wire: wire_struct 12 wf_LdnHeader LdnHeader_to_bytes LdnHeader_of_bytes
proof unfold_locales
  fix x :: LdnHeader
  show "wf_LdnHeader x \<Longrightarrow> length (LdnHeader_to_bytes x) = 12"
    by (simp add: LdnHeader_layout wire_len)
  show "wf_LdnHeader x \<Longrightarrow> LdnHeader_of_bytes (LdnHeader_to_bytes x) = x"
    by (cases x) (simp add: LdnHeader_layout wire_len wire_rt slice_cut)
next
  fix bs :: "byte list"
  show "length bs = 12 \<Longrightarrow> wf_LdnHeader (LdnHeader_of_bytes bs)"
    by (simp add: LdnHeader_layout wire_wf)
  show "length bs = 12 \<Longrightarrow> LdnHeader_to_bytes (LdnHeader_of_bytes bs) = bs"
    by (simp add: LdnHeader_layout wire_inv slice_glue)
qed

declare LdnHeader_wire.len_to [wire_len] and LdnHeader_wire.of_to [wire_rt]
  and LdnHeader_wire.wf_of [wire_wf] and LdnHeader_wire.to_of [wire_inv]

record MacAddress =
  mac_data :: "byte list"

definition wf_MacAddress :: "MacAddress \<Rightarrow> bool" where
  "wf_MacAddress x \<longleftrightarrow> bytes_wf 6 (mac_data x)"

definition MacAddress_to_bytes :: "MacAddress \<Rightarrow> byte list" where
  "MacAddress_to_bytes x =
     mac_data x"

definition MacAddress_of_bytes :: "byte list \<Rightarrow> MacAddress" where
  "MacAddress_of_bytes bs =
     \<lparr>mac_data = slice 0 6 bs\<rparr>"

lemmas MacAddress_layout = wf_MacAddress_def MacAddress_to_bytes_def MacAddress_of_bytes_def bytes_wf_def

interpretation MacAddress_wire: wire_struct 6 wf_MacAddress MacAddress_to_bytes MacAddress_of_bytes
proof unfold_locales
  fix x :: MacAddress
  show "wf_MacAddress x \<Longrightarrow> length (MacAddress_to_bytes x) = 6"
    by (simp add: MacAddress_layout wire_len)
  show "wf_MacAddress x \<Longrightarrow> MacAddress_of_bytes (MacAddress_to_bytes x) = x"
    by (cases x) (simp add: MacAddress_layout wire_len wire_rt slice_cut)
next
  fix bs :: "byte list"
  show "length bs = 6 \<Longrightarrow> wf_MacAddress (MacAddress_of_bytes bs)"
    by (simp add: MacAddress_layout wire_wf)
  show "length bs = 6 \<Longrightarrow> MacAddress_to_bytes (MacAddress_of_bytes bs) = bs"
    by (simp add: MacAddress_layout wire_inv slice_glue)
qed

declare MacAddress_wire.len_to [wire_len] and MacAddress_wire.of_to [wire_rt]
  and MacAddress_wire.wf_of [wire_wf] and MacAddress_wire.to_of [wire_inv]

record SessionId =
  sid_data :: "byte list"

definition wf_SessionId :: "SessionId \<Rightarrow> bool" where
  "wf_SessionId x \<longleftrightarrow> bytes_wf 16 (sid_data x)"

definition SessionId_to_bytes :: "SessionId \<Rightarrow> byte list" where
  "SessionId_to_bytes x =
     sid_data x"

definition SessionId_of_bytes :: "byte list \<Rightarrow> SessionId" where
  "SessionId_of_bytes bs =
     \<lparr>sid_data = slice 0 16 bs\<rparr>"

lemmas SessionId_layout = wf_SessionId_def SessionId_to_bytes_def SessionId_of_bytes_def bytes_wf_def

interpretation SessionId_wire: wire_struct 16 wf_SessionId SessionId_to_bytes SessionId_of_bytes
proof unfold_locales
  fix x :: SessionId
  show "wf_SessionId x \<Longrightarrow> length (SessionId_to_bytes x) = 16"
    by (simp add: SessionId_layout wire_len)
  show "wf_SessionId x \<Longrightarrow> SessionId_of_bytes (SessionId_to_bytes x) = x"
    by (cases x) (simp add: SessionId_layout wire_len wire_rt slice_cut)
next
  fix bs :: "byte list"
  show "length bs = 16 \<Longrightarrow> wf_SessionId (SessionId_of_bytes bs)"
    by (simp add: SessionId_layout wire_wf)
  show "length bs = 16 \<Longrightarrow> SessionId_to_bytes (SessionId_of_bytes bs) = bs"
    by (simp add: SessionId_layout wire_inv slice_glue)
qed

declare SessionId_wire.len_to [wire_len] and SessionId_wire.of_to [wire_rt]
  and SessionId_wire.wf_of [wire_wf] and SessionId_wire.to_of [wire_inv]

record IntentId =
  intent_local_communication_id :: u64
  intent_reserved1 :: u16
  intent_scene_id :: u16
  intent_reserved2 :: u32

definition wf_IntentId :: "IntentId \<Rightarrow> bool" where
  "wf_IntentId x \<longleftrightarrow> any_value x"

definition IntentId_to_bytes :: "IntentId \<Rightarrow> byte list" where
  "IntentId_to_bytes x =
     put64 (intent_local_communication_id x) @
     put16 (intent_reserved1 x) @
     put16 (intent_scene_id x) @
     put32 (intent_reserved2 x)"

definition IntentId_of_bytes :: "byte list \<Rightarrow> IntentId" where
  "IntentId_of_bytes bs =
     \<lparr>intent_local_communication_id = get64 (slice 0 8 bs),
      intent_reserved1 = get16 (slice 8 2 bs),
      intent_scene_id = get16 (slice 10 2 bs),
      intent_reserved2 = get32 (slice 12 4 bs)\<rparr>"

lemmas IntentId_layout = wf_IntentId_def IntentId_to_bytes_def IntentId_of_bytes_def bytes_wf_def

interpretation IntentId_wire: wire_struct 16 wf_IntentId IntentId_to_bytes IntentId_of_bytes
proof unfold_locales
  fix x :: IntentId
  show "wf_IntentId x \<Longrightarrow> length (IntentId_to_bytes x) = 16"
    by (simp add: IntentId_layout wire_len)
  show "wf_IntentId x \<Longrightarrow> IntentId_of_bytes (IntentId_to_bytes x) = x"
    by (cases x) (simp add: IntentId_layout wire_len wire_rt slice_cut)
next
  fix bs :: "byte list"
  show "length bs = 16 \<Longrightarrow> wf_IntentId (IntentId_of_bytes bs)"
    by (simp add: IntentId_layout wire_wf)
  show "length bs = 16 \<Longrightarrow> IntentId_to_bytes (IntentId_of_bytes bs) = bs"
    by (simp add: IntentId_layout wire_inv slice_glue)
qed

declare IntentId_wire.len_to [wire_len] and IntentId_wire.of_to [wire_rt]
  and IntentId_wire.wf_of [wire_wf] and IntentId_wire.to_of [wire_inv]

record NetworkId =
  nwid_intent_id :: IntentId
  nwid_session_id :: SessionId

definition wf_NetworkId :: "NetworkId \<Rightarrow> bool" where
  "wf_NetworkId x \<longleftrightarrow> wf_IntentId (nwid_intent_id x) \<and>
     wf_SessionId (nwid_session_id x)"

definition NetworkId_to_bytes :: "NetworkId \<Rightarrow> byte list" where
  "NetworkId_to_bytes x =
     IntentId_to_bytes (nwid_intent_id x) @
     SessionId_to_bytes (nwid_session_id x)"

definition NetworkId_of_bytes :: "byte list \<Rightarrow> NetworkId" where
  "NetworkId_of_bytes bs =
     \<lparr>nwid_intent_id = IntentId_of_bytes (slice 0 16 bs),
      nwid_session_id = SessionId_of_bytes (slice 16 16 bs)\<rparr>"

lemmas NetworkId_layout = wf_NetworkId_def NetworkId_to_bytes_def NetworkId_of_bytes_def bytes_wf_def

interpretation NetworkId_wire: wire_struct 32 wf_NetworkId NetworkId_to_bytes NetworkId_of_bytes
proof unfold_locales
  fix x :: NetworkId
  show "wf_NetworkId x \<Longrightarrow> length (NetworkId_to_bytes x) = 32"
    by (simp add: NetworkId_layout wire_len)
  show "wf_NetworkId x \<Longrightarrow> NetworkId_of_bytes (NetworkId_to_bytes x) = x"
    by (cases x) (simp add: NetworkId_layout wire_len wire_rt slice_cut)
next
  fix bs :: "byte list"
  show "length bs = 32 \<Longrightarrow> wf_NetworkId (NetworkId_of_bytes bs)"
    by (simp add: NetworkId_layout wire_wf)
  show "length bs = 32 \<Longrightarrow> NetworkId_to_bytes (NetworkId_of_bytes bs) = bs"
    by (simp add: NetworkId_layout wire_inv slice_glue)
qed

declare NetworkId_wire.len_to [wire_len] and NetworkId_wire.of_to [wire_rt]
  and NetworkId_wire.wf_of [wire_wf] and NetworkId_wire.to_of [wire_inv]

record Ssid =
  ssid_length :: u8
  ssid_name :: "byte list"

definition wf_Ssid :: "Ssid \<Rightarrow> bool" where
  "wf_Ssid x \<longleftrightarrow> bytes_wf 33 (ssid_name x)"

definition Ssid_to_bytes :: "Ssid \<Rightarrow> byte list" where
  "Ssid_to_bytes x =
     put8 (ssid_length x) @
     ssid_name x"

definition Ssid_of_bytes :: "byte list \<Rightarrow> Ssid" where
  "Ssid_of_bytes bs =
     \<lparr>ssid_length = get8 (slice 0 1 bs),
      ssid_name = slice 1 33 bs\<rparr>"

lemmas Ssid_layout = wf_Ssid_def Ssid_to_bytes_def Ssid_of_bytes_def bytes_wf_def

interpretation Ssid_wire: wire_struct 34 wf_Ssid Ssid_to_bytes Ssid_of_bytes
proof unfold_locales
  fix x :: Ssid
  show "wf_Ssid x \<Longrightarrow> length (Ssid_to_bytes x) = 34"
    by (simp add: Ssid_layout wire_len)
  show "wf_Ssid x \<Longrightarrow> Ssid_of_bytes (Ssid_to_bytes x) = x"
    by (cases x) (simp add: Ssid_layout wire_len wire_rt slice_cut)
next
  fix bs :: "byte list"
  show "length bs = 34 \<Longrightarrow> wf_Ssid (Ssid_of_bytes bs)"
    by (simp add: Ssid_layout wire_wf)
  show "length bs = 34 \<Longrightarrow> Ssid_to_bytes (Ssid_of_bytes bs) = bs"
    by (simp add: Ssid_layout wire_inv slice_glue)
qed

declare Ssid_wire.len_to [wire_len] and Ssid_wire.of_to [wire_rt]
  and Ssid_wire.wf_of [wire_wf] and Ssid_wire.to_of [wire_inv]

record NodeInfo =
  node_ipv4_address :: u32
  node_mac_address :: MacAddress
  node_node_id :: u8
  node_is_connected :: u8
  node_user_name :: "byte list"
  node_reserved1 :: u8
  node_local_communication_version :: u16
  node_reserved2 :: "byte list"

definition wf_NodeInfo :: "NodeInfo \<Rightarrow> bool" where
  "wf_NodeInfo x \<longleftrightarrow> wf_MacAddress (node_mac_address x) \<and>
     bytes_wf 33 (node_user_name x) \<and>
     bytes_wf 16 (node_reserved2 x)"

definition NodeInfo_to_bytes :: "NodeInfo \<Rightarrow> byte list" where
  "NodeInfo_to_bytes x =
     put32 (node_ipv4_address x) @
     MacAddress_to_bytes (node_mac_address x) @
     put8 (node_node_id x) @
     put8 (node_is_connected x) @
     node_user_name x @
     put8 (node_reserved1 x) @
     put16 (node_local_communication_version x) @
     node_reserved2 x"

definition NodeInfo_of_bytes :: "byte list \<Rightarrow> NodeInfo" where
  "NodeInfo_of_bytes bs =
     \<lparr>node_ipv4_address = get32 (slice 0 4 bs),
      node_mac_address = MacAddress_of_bytes (slice 4 6 bs),
      node_node_id = get8 (slice 10 1 bs),
      node_is_connected = get8 (slice 11 1 bs),
      node_user_name = slice 12 33 bs,
      node_reserved1 = get8 (slice 45 1 bs),
      node_local_communication_version = get16 (slice 46 2 bs),
      node_reserved2 = slice 48 16 bs\<rparr>"

lemmas NodeInfo_layout = wf_NodeInfo_def NodeInfo_to_bytes_def NodeInfo_of_bytes_def bytes_wf_def

interpretation NodeInfo_wire: wire_struct 64 wf_NodeInfo NodeInfo_to_bytes NodeInfo_of_bytes
proof unfold_locales
  fix x :: NodeInfo
  show "wf_NodeInfo x \<Longrightarrow> length (NodeInfo_to_bytes x) = 64"
    by (simp add: NodeInfo_layout wire_len)
  show "wf_NodeInfo x \<Longrightarrow> NodeInfo_of_bytes (NodeInfo_to_bytes x) = x"
    by (cases x) (simp add: NodeInfo_layout wire_len wire_rt slice_cut)
next
  fix bs :: "byte list"
  show "length bs = 64 \<Longrightarrow> wf_NodeInfo (NodeInfo_of_bytes bs)"
    by (simp add: NodeInfo_layout wire_wf)
  show "length bs = 64 \<Longrightarrow> NodeInfo_to_bytes (NodeInfo_of_bytes bs) = bs"
    by (simp add: NodeInfo_layout wire_inv slice_glue)
qed

declare NodeInfo_wire.len_to [wire_len] and NodeInfo_wire.of_to [wire_rt]
  and NodeInfo_wire.wf_of [wire_wf] and NodeInfo_wire.to_of [wire_inv]

interpretation NodeInfo_array: wire_struct 512 "array_wf 8 wf_NodeInfo" "array_to NodeInfo_to_bytes"
  "array_of 64 NodeInfo_of_bytes 8"
  using NodeInfo_wire.array_wire_struct [of 8] by simp

declare NodeInfo_array.len_to [wire_len] and NodeInfo_array.of_to [wire_rt]
  and NodeInfo_array.wf_of [wire_wf] and NodeInfo_array.to_of [wire_inv]

record CommonNetworkInfo =
  cmn_mac_address :: MacAddress
  cmn_ssid :: Ssid
  cmn_channel :: u16
  cmn_link_level :: u8
  cmn_network_type :: u8
  cmn_reserved :: u32

definition wf_CommonNetworkInfo :: "CommonNetworkInfo \<Rightarrow> bool" where
  "wf_CommonNetworkInfo x \<longleftrightarrow> wf_MacAddress (cmn_mac_address x) \<and>
     wf_Ssid (cmn_ssid x)"

definition CommonNetworkInfo_to_bytes :: "CommonNetworkInfo \<Rightarrow> byte list" where
  "CommonNetworkInfo_to_bytes x =
     MacAddress_to_bytes (cmn_mac_address x) @
     Ssid_to_bytes (cmn_ssid x) @
     put16 (cmn_channel x) @
     put8 (cmn_link_level x) @
     put8 (cmn_network_type x) @
     put32 (cmn_reserved x)"

definition CommonNetworkInfo_of_bytes :: "byte list \<Rightarrow> CommonNetworkInfo" where
  "CommonNetworkInfo_of_bytes bs =
     \<lparr>cmn_mac_address = MacAddress_of_bytes (slice 0 6 bs),
      cmn_ssid = Ssid_of_bytes (slice 6 34 bs),
      cmn_channel = get16 (slice 40 2 bs),
      cmn_link_level = get8 (slice 42 1 bs),
      cmn_network_type = get8 (slice 43 1 bs),
      cmn_reserved = get32 (slice 44 4 bs)\<rparr>"

lemmas CommonNetworkInfo_layout = wf_CommonNetworkInfo_def CommonNetworkInfo_to_bytes_def CommonNetworkInfo_of_bytes_def bytes_wf_def

interpretation CommonNetworkInfo_wire: wire_struct 48 wf_CommonNetworkInfo CommonNetworkInfo_to_bytes CommonNetworkInfo_of_bytes
proof unfold_locales
  fix x :: CommonNetworkInfo
  show "wf_CommonNetworkInfo x \<Longrightarrow> length (CommonNetworkInfo_to_bytes x) = 48"
    by (simp add: CommonNetworkInfo_layout wire_len)
  show "wf_CommonNetworkInfo x \<Longrightarrow> CommonNetworkInfo_of_bytes (CommonNetworkInfo_to_bytes x) = x"
    by (cases x) (simp add: CommonNetworkInfo_layout wire_len wire_rt slice_cut)
next
  fix bs :: "byte list"
  show "length bs = 48 \<Longrightarrow> wf_CommonNetworkInfo (CommonNetworkInfo_of_bytes bs)"
    by (simp add: CommonNetworkInfo_layout wire_wf)
  show "length bs = 48 \<Longrightarrow> CommonNetworkInfo_to_bytes (CommonNetworkInfo_of_bytes bs) = bs"
    by (simp add: CommonNetworkInfo_layout wire_inv slice_glue)
qed

declare CommonNetworkInfo_wire.len_to [wire_len] and CommonNetworkInfo_wire.of_to [wire_rt]
  and CommonNetworkInfo_wire.wf_of [wire_wf] and CommonNetworkInfo_wire.to_of [wire_inv]

record LdnNetworkInfo =
  ldn_security_parameter :: "byte list"
  ldn_security_mode :: u16
  ldn_station_accept_policy :: u8
  ldn_unknown1 :: u8
  ldn_reserved1 :: u16
  ldn_node_count_max :: u8
  ldn_node_count :: u8
  ldn_nodes :: "NodeInfo list"
  ldn_reserved2 :: u16
  ldn_advertise_data_size :: u16
  ldn_advertise_data :: "byte list"
  ldn_unknown2 :: "byte list"
  ldn_authentication_id :: u64

definition wf_LdnNetworkInfo :: "LdnNetworkInfo \<Rightarrow> bool" where
  "wf_LdnNetworkInfo x \<longleftrightarrow> bytes_wf 16 (ldn_security_parameter x) \<and>
     array_wf 8 wf_NodeInfo (ldn_nodes x) \<and>
     bytes_wf 384 (ldn_advertise_data x) \<and>
     bytes_wf 140 (ldn_unknown2 x)"

definition LdnNetworkInfo_to_bytes :: "LdnNetworkInfo \<Rightarrow> byte list" where
  "LdnNetworkInfo_to_bytes x =
     ldn_security_parameter x @
     put16 (ldn_security_mode x) @
     put8 (ldn_station_accept_policy x) @
     put8 (ldn_unknown1 x) @
     put16 (ldn_reserved1 x) @
     put8 (ldn_node_count_max x) @
     put8 (ldn_node_count x) @
     array_to NodeInfo_to_bytes (ldn_nodes x) @
     put16 (ldn_reserved2 x) @
     put16 (ldn_advertise_data_size x) @
     ldn_advertise_data x @
     ldn_unknown2 x @
     put64 (ldn_authentication_id x)"

definition LdnNetworkInfo_of_bytes :: "byte list \<Rightarrow> LdnNetworkInfo" where
  "LdnNetworkInfo_of_bytes bs =
     \<lparr>ldn_security_parameter = slice 0 16 bs,
      ldn_security_mode = get16 (slice 16 2 bs),
      ldn_station_accept_policy = get8 (slice 18 1 bs),
      ldn_unknown1 = get8 (slice 19 1 bs),
      ldn_reserved1 = get16 (slice 20 2 bs),
      ldn_node_count_max = get8 (slice 22 1 bs),
      ldn_node_count = get8 (slice 23 1 bs),
      ldn_nodes = array_of 64 NodeInfo_of_bytes 8 (slice 24 512 bs),
      ldn_reserved2 = get16 (slice 536 2 bs),
      ldn_advertise_data_size = get16 (slice 538 2 bs),
      ldn_advertise_data = slice 540 384 bs,
      ldn_unknown2 = slice 924 140 bs,
      ldn_authentication_id = get64 (slice 1064 8 bs)\<rparr>"

lemmas LdnNetworkInfo_layout = wf_LdnNetworkInfo_def LdnNetworkInfo_to_bytes_def LdnNetworkInfo_of_bytes_def bytes_wf_def

interpretation LdnNetworkInfo_wire: wire_struct 1072 wf_LdnNetworkInfo LdnNetworkInfo_to_bytes LdnNetworkInfo_of_bytes
proof unfold_locales
  fix x :: LdnNetworkInfo
  show "wf_LdnNetworkInfo x \<Longrightarrow> length (LdnNetworkInfo_to_bytes x) = 1072"
    by (simp add: LdnNetworkInfo_layout wire_len)
  show "wf_LdnNetworkInfo x \<Longrightarrow> LdnNetworkInfo_of_bytes (LdnNetworkInfo_to_bytes x) = x"
    by (cases x) (simp add: LdnNetworkInfo_layout wire_len wire_rt slice_cut)
next
  fix bs :: "byte list"
  show "length bs = 1072 \<Longrightarrow> wf_LdnNetworkInfo (LdnNetworkInfo_of_bytes bs)"
    by (simp add: LdnNetworkInfo_layout wire_wf)
  show "length bs = 1072 \<Longrightarrow> LdnNetworkInfo_to_bytes (LdnNetworkInfo_of_bytes bs) = bs"
    by (simp add: LdnNetworkInfo_layout wire_inv slice_glue)
qed

declare LdnNetworkInfo_wire.len_to [wire_len] and LdnNetworkInfo_wire.of_to [wire_rt]
  and LdnNetworkInfo_wire.wf_of [wire_wf] and LdnNetworkInfo_wire.to_of [wire_inv]

record NetworkInfo =
  nwi_network_id :: NetworkId
  nwi_common :: CommonNetworkInfo
  nwi_ldn :: LdnNetworkInfo

definition wf_NetworkInfo :: "NetworkInfo \<Rightarrow> bool" where
  "wf_NetworkInfo x \<longleftrightarrow> wf_NetworkId (nwi_network_id x) \<and>
     wf_CommonNetworkInfo (nwi_common x) \<and>
     wf_LdnNetworkInfo (nwi_ldn x)"

definition NetworkInfo_to_bytes :: "NetworkInfo \<Rightarrow> byte list" where
  "NetworkInfo_to_bytes x =
     NetworkId_to_bytes (nwi_network_id x) @
     CommonNetworkInfo_to_bytes (nwi_common x) @
     LdnNetworkInfo_to_bytes (nwi_ldn x)"

definition NetworkInfo_of_bytes :: "byte list \<Rightarrow> NetworkInfo" where
  "NetworkInfo_of_bytes bs =
     \<lparr>nwi_network_id = NetworkId_of_bytes (slice 0 32 bs),
      nwi_common = CommonNetworkInfo_of_bytes (slice 32 48 bs),
      nwi_ldn = LdnNetworkInfo_of_bytes (slice 80 1072 bs)\<rparr>"

lemmas NetworkInfo_layout = wf_NetworkInfo_def NetworkInfo_to_bytes_def NetworkInfo_of_bytes_def bytes_wf_def

interpretation NetworkInfo_wire: wire_struct 1152 wf_NetworkInfo NetworkInfo_to_bytes NetworkInfo_of_bytes
proof unfold_locales
  fix x :: NetworkInfo
  show "wf_NetworkInfo x \<Longrightarrow> length (NetworkInfo_to_bytes x) = 1152"
    by (simp add: NetworkInfo_layout wire_len)
  show "wf_NetworkInfo x \<Longrightarrow> NetworkInfo_of_bytes (NetworkInfo_to_bytes x) = x"
    by (cases x) (simp add: NetworkInfo_layout wire_len wire_rt slice_cut)
next
  fix bs :: "byte list"
  show "length bs = 1152 \<Longrightarrow> wf_NetworkInfo (NetworkInfo_of_bytes bs)"
    by (simp add: NetworkInfo_layout wire_wf)
  show "length bs = 1152 \<Longrightarrow> NetworkInfo_to_bytes (NetworkInfo_of_bytes bs) = bs"
    by (simp add: NetworkInfo_layout wire_inv slice_glue)
qed

declare NetworkInfo_wire.len_to [wire_len] and NetworkInfo_wire.of_to [wire_rt]
  and NetworkInfo_wire.wf_of [wire_wf] and NetworkInfo_wire.to_of [wire_inv]

record InitializeMessage =
  init_id :: SessionId
  init_mac_address :: MacAddress

definition wf_InitializeMessage :: "InitializeMessage \<Rightarrow> bool" where
  "wf_InitializeMessage x \<longleftrightarrow> wf_SessionId (init_id x) \<and>
     wf_MacAddress (init_mac_address x)"

definition InitializeMessage_to_bytes :: "InitializeMessage \<Rightarrow> byte list" where
  "InitializeMessage_to_bytes x =
     SessionId_to_bytes (init_id x) @
     MacAddress_to_bytes (init_mac_address x)"

definition InitializeMessage_of_bytes :: "byte list \<Rightarrow> InitializeMessage" where
  "InitializeMessage_of_bytes bs =
     \<lparr>init_id = SessionId_of_bytes (slice 0 16 bs),
      init_mac_address = MacAddress_of_bytes (slice 16 6 bs)\<rparr>"

lemmas InitializeMessage_layout = wf_InitializeMessage_def InitializeMessage_to_bytes_def InitializeMessage_of_bytes_def bytes_wf_def

interpretation InitializeMessage_wire: wire_struct 22 wf_InitializeMessage InitializeMessage_to_bytes InitializeMessage_of_bytes
proof unfold_locales
  fix x :: InitializeMessage
  show "wf_InitializeMessage x \<Longrightarrow> length (InitializeMessage_to_bytes x) = 22"
    by (simp add: InitializeMessage_layout wire_len)
  show "wf_InitializeMessage x \<Longrightarrow> InitializeMessage_of_bytes (InitializeMessage_to_bytes x) = x"
    by (cases x) (simp add: InitializeMessage_layout wire_len wire_rt slice_cut)
next
  fix bs :: "byte list"
  show "length bs = 22 \<Longrightarrow> wf_InitializeMessage (InitializeMessage_of_bytes bs)"
    by (simp add: InitializeMessage_layout wire_wf)
  show "length bs = 22 \<Longrightarrow> InitializeMessage_to_bytes (InitializeMessage_of_bytes bs) = bs"
    by (simp add: InitializeMessage_layout wire_inv slice_glue)
qed

declare InitializeMessage_wire.len_to [wire_len] and InitializeMessage_wire.of_to [wire_rt]
  and InitializeMessage_wire.wf_of [wire_wf] and InitializeMessage_wire.to_of [wire_inv]

record PassphraseMessage =
  pass_passphrase :: "byte list"

definition wf_PassphraseMessage :: "PassphraseMessage \<Rightarrow> bool" where
  "wf_PassphraseMessage x \<longleftrightarrow> bytes_wf 128 (pass_passphrase x)"

definition PassphraseMessage_to_bytes :: "PassphraseMessage \<Rightarrow> byte list" where
  "PassphraseMessage_to_bytes x =
     pass_passphrase x"

definition PassphraseMessage_of_bytes :: "byte list \<Rightarrow> PassphraseMessage" where
  "PassphraseMessage_of_bytes bs =
     \<lparr>pass_passphrase = slice 0 128 bs\<rparr>"

lemmas PassphraseMessage_layout = wf_PassphraseMessage_def PassphraseMessage_to_bytes_def PassphraseMessage_of_bytes_def bytes_wf_def

interpretation PassphraseMessage_wire: wire_struct 128 wf_PassphraseMessage PassphraseMessage_to_bytes PassphraseMessage_of_bytes
proof unfold_locales
  fix x :: PassphraseMessage
  show "wf_PassphraseMessage x \<Longrightarrow> length (PassphraseMessage_to_bytes x) = 128"
    by (simp add: PassphraseMessage_layout wire_len)
  show "wf_PassphraseMessage x \<Longrightarrow> PassphraseMessage_of_bytes (PassphraseMessage_to_bytes x) = x"
    by (cases x) (simp add: PassphraseMessage_layout wire_len wire_rt slice_cut)
next
  fix bs :: "byte list"
  show "length bs = 128 \<Longrightarrow> wf_PassphraseMessage (PassphraseMessage_of_bytes bs)"
    by (simp add: PassphraseMessage_layout wire_wf)
  show "length bs = 128 \<Longrightarrow> PassphraseMessage_to_bytes (PassphraseMessage_of_bytes bs) = bs"
    by (simp add: PassphraseMessage_layout wire_inv slice_glue)
qed

declare PassphraseMessage_wire.len_to [wire_len] and PassphraseMessage_wire.of_to [wire_rt]
  and PassphraseMessage_wire.wf_of [wire_wf] and PassphraseMessage_wire.to_of [wire_inv]

record PingMessage =
  ping_requester :: u8
  ping_id :: u8

definition wf_PingMessage :: "PingMessage \<Rightarrow> bool" where
  "wf_PingMessage x \<longleftrightarrow> any_value x"

definition PingMessage_to_bytes :: "PingMessage \<Rightarrow> byte list" where
  "PingMessage_to_bytes x =
     put8 (ping_requester x) @
     put8 (ping_id x)"

definition PingMessage_of_bytes :: "byte list \<Rightarrow> PingMessage" where
  "PingMessage_of_bytes bs =
     \<lparr>ping_requester = get8 (slice 0 1 bs),
      ping_id = get8 (slice 1 1 bs)\<rparr>"

lemmas PingMessage_layout = wf_PingMessage_def PingMessage_to_bytes_def PingMessage_of_bytes_def bytes_wf_def

interpretation PingMessage_wire: wire_struct 2 wf_PingMessage PingMessage_to_bytes PingMessage_of_bytes
proof unfold_locales
  fix x :: PingMessage
  show "wf_PingMessage x \<Longrightarrow> length (PingMessage_to_bytes x) = 2"
    by (simp add: PingMessage_layout wire_len)
  show "wf_PingMessage x \<Longrightarrow> PingMessage_of_bytes (PingMessage_to_bytes x) = x"
    by (cases x) (simp add: PingMessage_layout wire_len wire_rt slice_cut)
next
  fix bs :: "byte list"
  show "length bs = 2 \<Longrightarrow> wf_PingMessage (PingMessage_of_bytes bs)"
    by (simp add: PingMessage_layout wire_wf)
  show "length bs = 2 \<Longrightarrow> PingMessage_to_bytes (PingMessage_of_bytes bs) = bs"
    by (simp add: PingMessage_layout wire_inv slice_glue)
qed

declare PingMessage_wire.len_to [wire_len] and PingMessage_wire.of_to [wire_rt]
  and PingMessage_wire.wf_of [wire_wf] and PingMessage_wire.to_of [wire_inv]

record DisconnectMessage =
  disc_disconnect_ip :: u32

definition wf_DisconnectMessage :: "DisconnectMessage \<Rightarrow> bool" where
  "wf_DisconnectMessage x \<longleftrightarrow> any_value x"

definition DisconnectMessage_to_bytes :: "DisconnectMessage \<Rightarrow> byte list" where
  "DisconnectMessage_to_bytes x =
     put32 (disc_disconnect_ip x)"

definition DisconnectMessage_of_bytes :: "byte list \<Rightarrow> DisconnectMessage" where
  "DisconnectMessage_of_bytes bs =
     \<lparr>disc_disconnect_ip = get32 (slice 0 4 bs)\<rparr>"

lemmas DisconnectMessage_layout = wf_DisconnectMessage_def DisconnectMessage_to_bytes_def DisconnectMessage_of_bytes_def bytes_wf_def

interpretation DisconnectMessage_wire: wire_struct 4 wf_DisconnectMessage DisconnectMessage_to_bytes DisconnectMessage_of_bytes
proof unfold_locales
  fix x :: DisconnectMessage
  show "wf_DisconnectMessage x \<Longrightarrow> length (DisconnectMessage_to_bytes x) = 4"
    by (simp add: DisconnectMessage_layout wire_len)
  show "wf_DisconnectMessage x \<Longrightarrow> DisconnectMessage_of_bytes (DisconnectMessage_to_bytes x) = x"
    by (cases x) (simp add: DisconnectMessage_layout wire_len wire_rt slice_cut)
next
  fix bs :: "byte list"
  show "length bs = 4 \<Longrightarrow> wf_DisconnectMessage (DisconnectMessage_of_bytes bs)"
    by (simp add: DisconnectMessage_layout wire_wf)
  show "length bs = 4 \<Longrightarrow> DisconnectMessage_to_bytes (DisconnectMessage_of_bytes bs) = bs"
    by (simp add: DisconnectMessage_layout wire_inv slice_glue)
qed

declare DisconnectMessage_wire.len_to [wire_len] and DisconnectMessage_wire.of_to [wire_rt]
  and DisconnectMessage_wire.wf_of [wire_wf] and DisconnectMessage_wire.to_of [wire_inv]

record NetworkErrorMessage =
  nerr_error_code :: u32

definition wf_NetworkErrorMessage :: "NetworkErrorMessage \<Rightarrow> bool" where
  "wf_NetworkErrorMessage x \<longleftrightarrow> any_value x"

definition NetworkErrorMessage_to_bytes :: "NetworkErrorMessage \<Rightarrow> byte list" where
  "NetworkErrorMessage_to_bytes x =
     put32 (nerr_error_code x)"

definition NetworkErrorMessage_of_bytes :: "byte list \<Rightarrow> NetworkErrorMessage" where
  "NetworkErrorMessage_of_bytes bs =
     \<lparr>nerr_error_code = get32 (slice 0 4 bs)\<rparr>"

lemmas NetworkErrorMessage_layout = wf_NetworkErrorMessage_def NetworkErrorMessage_to_bytes_def NetworkErrorMessage_of_bytes_def bytes_wf_def

interpretation NetworkErrorMessage_wire: wire_struct 4 wf_NetworkErrorMessage NetworkErrorMessage_to_bytes NetworkErrorMessage_of_bytes
proof unfold_locales
  fix x :: NetworkErrorMessage
  show "wf_NetworkErrorMessage x \<Longrightarrow> length (NetworkErrorMessage_to_bytes x) = 4"
    by (simp add: NetworkErrorMessage_layout wire_len)
  show "wf_NetworkErrorMessage x \<Longrightarrow> NetworkErrorMessage_of_bytes (NetworkErrorMessage_to_bytes x) = x"
    by (cases x) (simp add: NetworkErrorMessage_layout wire_len wire_rt slice_cut)
next
  fix bs :: "byte list"
  show "length bs = 4 \<Longrightarrow> wf_NetworkErrorMessage (NetworkErrorMessage_of_bytes bs)"
    by (simp add: NetworkErrorMessage_layout wire_wf)
  show "length bs = 4 \<Longrightarrow> NetworkErrorMessage_to_bytes (NetworkErrorMessage_of_bytes bs) = bs"
    by (simp add: NetworkErrorMessage_layout wire_inv slice_glue)
qed

declare NetworkErrorMessage_wire.len_to [wire_len] and NetworkErrorMessage_wire.of_to [wire_rt]
  and NetworkErrorMessage_wire.wf_of [wire_wf] and NetworkErrorMessage_wire.to_of [wire_inv]

record ScanFilter =
  scanf_network_id :: NetworkId
  scanf_flag :: u32

definition wf_ScanFilter :: "ScanFilter \<Rightarrow> bool" where
  "wf_ScanFilter x \<longleftrightarrow> wf_NetworkId (scanf_network_id x)"

definition ScanFilter_to_bytes :: "ScanFilter \<Rightarrow> byte list" where
  "ScanFilter_to_bytes x =
     NetworkId_to_bytes (scanf_network_id x) @
     put32 (scanf_flag x)"

definition ScanFilter_of_bytes :: "byte list \<Rightarrow> ScanFilter" where
  "ScanFilter_of_bytes bs =
     \<lparr>scanf_network_id = NetworkId_of_bytes (slice 0 32 bs),
      scanf_flag = get32 (slice 32 4 bs)\<rparr>"

lemmas ScanFilter_layout = wf_ScanFilter_def ScanFilter_to_bytes_def ScanFilter_of_bytes_def bytes_wf_def

interpretation ScanFilter_wire: wire_struct 36 wf_ScanFilter ScanFilter_to_bytes ScanFilter_of_bytes
proof unfold_locales
  fix x :: ScanFilter
  show "wf_ScanFilter x \<Longrightarrow> length (ScanFilter_to_bytes x) = 36"
    by (simp add: ScanFilter_layout wire_len)
  show "wf_ScanFilter x \<Longrightarrow> ScanFilter_of_bytes (ScanFilter_to_bytes x) = x"
    by (cases x) (simp add: ScanFilter_layout wire_len wire_rt slice_cut)
next
  fix bs :: "byte list"
  show "length bs = 36 \<Longrightarrow> wf_ScanFilter (ScanFilter_of_bytes bs)"
    by (simp add: ScanFilter_layout wire_wf)
  show "length bs = 36 \<Longrightarrow> ScanFilter_to_bytes (ScanFilter_of_bytes bs) = bs"
    by (simp add: ScanFilter_layout wire_inv slice_glue)
qed

declare ScanFilter_wire.len_to [wire_len] and ScanFilter_wire.of_to [wire_rt]
  and ScanFilter_wire.wf_of [wire_wf] and ScanFilter_wire.to_of [wire_inv]

record ProxyInfo =
  pinfo_source_ipv4 :: u32
  pinfo_source_port :: u16
  pinfo_dest_ipv4 :: u32
  pinfo_dest_port :: u16
  pinfo_protocol :: u32

definition wf_ProxyInfo :: "ProxyInfo \<Rightarrow> bool" where
  "wf_ProxyInfo x \<longleftrightarrow> any_value x"

definition ProxyInfo_to_bytes :: "ProxyInfo \<Rightarrow> byte list" where
  "ProxyInfo_to_bytes x =
     put32 (pinfo_source_ipv4 x) @
     put16 (pinfo_source_port x) @
     put32 (pinfo_dest_ipv4 x) @
     put16 (pinfo_dest_port x) @
     put32 (pinfo_protocol x)"

definition ProxyInfo_of_bytes :: "byte list \<Rightarrow> ProxyInfo" where
  "ProxyInfo_of_bytes bs =
     \<lparr>pinfo_source_ipv4 = get32 (slice 0 4 bs),
      pinfo_source_port = get16 (slice 4 2 bs),
      pinfo_dest_ipv4 = get32 (slice 6 4 bs),
      pinfo_dest_port = get16 (slice 10 2 bs),
      pinfo_protocol = get32 (slice 12 4 bs)\<rparr>"

lemmas ProxyInfo_layout = wf_ProxyInfo_def ProxyInfo_to_bytes_def ProxyInfo_of_bytes_def bytes_wf_def

interpretation ProxyInfo_wire: wire_struct 16 wf_ProxyInfo ProxyInfo_to_bytes ProxyInfo_of_bytes
proof unfold_locales
  fix x :: ProxyInfo
  show "wf_ProxyInfo x \<Longrightarrow> length (ProxyInfo_to_bytes x) = 16"
    by (simp add: ProxyInfo_layout wire_len)
  show "wf_ProxyInfo x \<Longrightarrow> ProxyInfo_of_bytes (ProxyInfo_to_bytes x) = x"
    by (cases x) (simp add: ProxyInfo_layout wire_len wire_rt slice_cut)
next
  fix bs :: "byte list"
  show "length bs = 16 \<Longrightarrow> wf_ProxyInfo (ProxyInfo_of_bytes bs)"
    by (simp add: ProxyInfo_layout wire_wf)
  show "length bs = 16 \<Longrightarrow> ProxyInfo_to_bytes (ProxyInfo_of_bytes bs) = bs"
    by (simp add: ProxyInfo_layout wire_inv slice_glue)
qed

declare ProxyInfo_wire.len_to [wire_len] and ProxyInfo_wire.of_to [wire_rt]
  and ProxyInfo_wire.wf_of [wire_wf] and ProxyInfo_wire.to_of [wire_inv]

record ProxyDataHeader =
  pdh_info :: ProxyInfo
  pdh_data_length :: u32

definition wf_ProxyDataHeader :: "ProxyDataHeader \<Rightarrow> bool" where
  "wf_ProxyDataHeader x \<longleftrightarrow> wf_ProxyInfo (pdh_info x)"

definition ProxyDataHeader_to_bytes :: "ProxyDataHeader \<Rightarrow> byte list" where
  "ProxyDataHeader_to_bytes x =
     ProxyInfo_to_bytes (pdh_info x) @
     put32 (pdh_data_length x)"

definition ProxyDataHeader_of_bytes :: "byte list \<Rightarrow> ProxyDataHeader" where
  "ProxyDataHeader_of_bytes bs =
     \<lparr>pdh_info = ProxyInfo_of_bytes (slice 0 16 bs),
      pdh_data_length = get32 (slice 16 4 bs)\<rparr>"

lemmas ProxyDataHeader_layout = wf_ProxyDataHeader_def ProxyDataHeader_to_bytes_def ProxyDataHeader_of_bytes_def bytes_wf_def

interpretation ProxyDataHeader_wire: wire_struct 20 wf_ProxyDataHeader ProxyDataHeader_to_bytes ProxyDataHeader_of_bytes
proof unfold_locales
  fix x :: ProxyDataHeader
  show "wf_ProxyDataHeader x \<Longrightarrow> length (ProxyDataHeader_to_bytes x) = 20"
    by (simp add: ProxyDataHeader_layout wire_len)
  show "wf_ProxyDataHeader x \<Longrightarrow> ProxyDataHeader_of_bytes (ProxyDataHeader_to_bytes x) = x"
    by (cases x) (simp add: ProxyDataHeader_layout wire_len wire_rt slice_cut)
next
  fix bs :: "byte list"
  show "length bs = 20 \<Longrightarrow> wf_ProxyDataHeader (ProxyDataHeader_of_bytes bs)"
    by (simp add: ProxyDataHeader_layout wire_wf)
  show "length bs = 20 \<Longrightarrow> ProxyDataHeader_to_bytes (ProxyDataHeader_of_bytes bs) = bs"
    by (simp add: ProxyDataHeader_layout wire_inv slice_glue)
qed

declare ProxyDataHeader_wire.len_to [wire_len] and ProxyDataHeader_wire.of_to [wire_rt]
  and ProxyDataHeader_wire.wf_of [wire_wf] and ProxyDataHeader_wire.to_of [wire_inv]

record ProxyConfig =
  pcfg_proxy_ip :: u32
  pcfg_proxy_subnet_mask :: u32

definition wf_ProxyConfig :: "ProxyConfig \<Rightarrow> bool" where
  "wf_ProxyConfig x \<longleftrightarrow> any_value x"

definition ProxyConfig_to_bytes :: "ProxyConfig \<Rightarrow> byte list" where
  "ProxyConfig_to_bytes x =
     put32 (pcfg_proxy_ip x) @
     put32 (pcfg_proxy_subnet_mask x)"

definition ProxyConfig_of_bytes :: "byte list \<Rightarrow> ProxyConfig" where
  "ProxyConfig_of_bytes bs =
     \<lparr>pcfg_proxy_ip = get32 (slice 0 4 bs),
      pcfg_proxy_subnet_mask = get32 (slice 4 4 bs)\<rparr>"

lemmas ProxyConfig_layout = wf_ProxyConfig_def ProxyConfig_to_bytes_def ProxyConfig_of_bytes_def bytes_wf_def

interpretation ProxyConfig_wire: wire_struct 8 wf_ProxyConfig ProxyConfig_to_bytes ProxyConfig_of_bytes
proof unfold_locales
  fix x :: ProxyConfig
  show "wf_ProxyConfig x \<Longrightarrow> length (ProxyConfig_to_bytes x) = 8"
    by (simp add: ProxyConfig_layout wire_len)
  show "wf_ProxyConfig x \<Longrightarrow> ProxyConfig_of_bytes (ProxyConfig_to_bytes x) = x"
    by (cases x) (simp add: ProxyConfig_layout wire_len wire_rt slice_cut)
next
  fix bs :: "byte list"
  show "length bs = 8 \<Longrightarrow> wf_ProxyConfig (ProxyConfig_of_bytes bs)"
    by (simp add: ProxyConfig_layout wire_wf)
  show "length bs = 8 \<Longrightarrow> ProxyConfig_to_bytes (ProxyConfig_of_bytes bs) = bs"
    by (simp add: ProxyConfig_layout wire_inv slice_glue)
qed

declare ProxyConfig_wire.len_to [wire_len] and ProxyConfig_wire.of_to [wire_rt]
  and ProxyConfig_wire.wf_of [wire_wf] and ProxyConfig_wire.to_of [wire_inv]

record ProxyConnectRequest =
  pcreq_info :: ProxyInfo

definition wf_ProxyConnectRequest :: "ProxyConnectRequest \<Rightarrow> bool" where
  "wf_ProxyConnectRequest x \<longleftrightarrow> wf_ProxyInfo (pcreq_info x)"

definition ProxyConnectRequest_to_bytes :: "ProxyConnectRequest \<Rightarrow> byte list" where
  "ProxyConnectRequest_to_bytes x =
     ProxyInfo_to_bytes (pcreq_info x)"

definition ProxyConnectRequest_of_bytes :: "byte list \<Rightarrow> ProxyConnectRequest" where
  "ProxyConnectRequest_of_bytes bs =
     \<lparr>pcreq_info = ProxyInfo_of_bytes (slice 0 16 bs)\<rparr>"

lemmas ProxyConnectRequest_layout = wf_ProxyConnectRequest_def ProxyConnectRequest_to_bytes_def ProxyConnectRequest_of_bytes_def bytes_wf_def

interpretation ProxyConnectRequest_wire: wire_struct 16 wf_ProxyConnectRequest ProxyConnectRequest_to_bytes ProxyConnectRequest_of_bytes
proof unfold_locales
  fix x :: ProxyConnectRequest
  show "wf_ProxyConnectRequest x \<Longrightarrow> length (ProxyConnectRequest_to_bytes x) = 16"
    by (simp add: ProxyConnectRequest_layout wire_len)
  show "wf_ProxyConnectRequest x \<Longrightarrow> ProxyConnectRequest_of_bytes (ProxyConnectRequest_to_bytes x) = x"
    by (cases x) (simp add: ProxyConnectRequest_layout wire_len wire_rt slice_cut)
next
  fix bs :: "byte list"
  show "length bs = 16 \<Longrightarrow> wf_ProxyConnectRequest (ProxyConnectRequest_of_bytes bs)"
    by (simp add: ProxyConnectRequest_layout wire_wf)
  show "length bs = 16 \<Longrightarrow> ProxyConnectRequest_to_bytes (ProxyConnectRequest_of_bytes bs) = bs"
    by (simp add: ProxyConnectRequest_layout wire_inv slice_glue)
qed

declare ProxyConnectRequest_wire.len_to [wire_len] and ProxyConnectRequest_wire.of_to [wire_rt]
  and ProxyConnectRequest_wire.wf_of [wire_wf] and ProxyConnectRequest_wire.to_of [wire_inv]

record ProxyConnectResponse =
  pcres_info :: ProxyInfo

definition wf_ProxyConnectResponse :: "ProxyConnectResponse \<Rightarrow> bool" where
  "wf_ProxyConnectResponse x \<longleftrightarrow> wf_ProxyInfo (pcres_info x)"

definition ProxyConnectResponse_to_bytes :: "ProxyConnectResponse \<Rightarrow> byte list" where
  "ProxyConnectResponse_to_bytes x =
     ProxyInfo_to_bytes (pcres_info x)"

definition ProxyConnectResponse_of_bytes :: "byte list \<Rightarrow> ProxyConnectResponse" where
  "ProxyConnectResponse_of_bytes bs =
     \<lparr>pcres_info = ProxyInfo_of_bytes (slice 0 16 bs)\<rparr>"

lemmas ProxyConnectResponse_layout = wf_ProxyConnectResponse_def ProxyConnectResponse_to_bytes_def ProxyConnectResponse_of_bytes_def bytes_wf_def

interpretation ProxyConnectResponse_wire: wire_struct 16 wf_ProxyConnectResponse ProxyConnectResponse_to_bytes ProxyConnectResponse_of_bytes
proof unfold_locales
  fix x :: ProxyConnectResponse
  show "wf_ProxyConnectResponse x \<Longrightarrow> length (ProxyConnectResponse_to_bytes x) = 16"
    by (simp add: ProxyConnectResponse_layout wire_len)
  show "wf_ProxyConnectResponse x \<Longrightarrow> ProxyConnectResponse_of_bytes (ProxyConnectResponse_to_bytes x) = x"
    by (cases x) (simp add: ProxyConnectResponse_layout wire_len wire_rt slice_cut)
next
  fix bs :: "byte list"
  show "length bs = 16 \<Longrightarrow> wf_ProxyConnectResponse (ProxyConnectResponse_of_bytes bs)"
    by (simp add: ProxyConnectResponse_layout wire_wf)
  show "length bs = 16 \<Longrightarrow> ProxyConnectResponse_to_bytes (ProxyConnectResponse_of_bytes bs) = bs"
    by (simp add: ProxyConnectResponse_layout wire_inv slice_glue)
qed

declare ProxyConnectResponse_wire.len_to [wire_len] and ProxyConnectResponse_wire.of_to [wire_rt]
  and ProxyConnectResponse_wire.wf_of [wire_wf] and ProxyConnectResponse_wire.to_of [wire_inv]

record ProxyDisconnectMessage =
  pdisc_info :: ProxyInfo
  pdisc_disconnect_reason :: u32

definition wf_ProxyDisconnectMessage :: "ProxyDisconnectMessage \<Rightarrow> bool" where
  "wf_ProxyDisconnectMessage x \<longleftrightarrow> wf_ProxyInfo (pdisc_info x)"

definition ProxyDisconnectMessage_to_bytes :: "ProxyDisconnectMessage \<Rightarrow> byte list" where
  "ProxyDisconnectMessage_to_bytes x =
     ProxyInfo_to_bytes (pdisc_info x) @
     put32 (pdisc_disconnect_reason x)"

definition ProxyDisconnectMessage_of_bytes :: "byte list \<Rightarrow> ProxyDisconnectMessage" where
  "ProxyDisconnectMessage_of_bytes bs =
     \<lparr>pdisc_info = ProxyInfo_of_bytes (slice 0 16 bs),
      pdisc_disconnect_reason = get32 (slice 16 4 bs)\<rparr>"

lemmas ProxyDisconnectMessage_layout = wf_ProxyDisconnectMessage_def ProxyDisconnectMessage_to_bytes_def ProxyDisconnectMessage_of_bytes_def bytes_wf_def

interpretation ProxyDisconnectMessage_wire: wire_struct 20 wf_ProxyDisconnectMessage ProxyDisconnectMessage_to_bytes ProxyDisconnectMessage_of_bytes
proof unfold_locales
  fix x :: ProxyDisconnectMessage
  show "wf_ProxyDisconnectMessage x \<Longrightarrow> length (ProxyDisconnectMessage_to_bytes x) = 20"
    by (simp add: ProxyDisconnectMessage_layout wire_len)
  show "wf_ProxyDisconnectMessage x \<Longrightarrow> ProxyDisconnectMessage_of_bytes (ProxyDisconnectMessage_to_bytes x) = x"
    by (cases x) (simp add: ProxyDisconnectMessage_layout wire_len wire_rt slice_cut)
next
  fix bs :: "byte list"
  show "length bs = 20 \<Longrightarrow> wf_ProxyDisconnectMessage (ProxyDisconnectMessage_of_bytes bs)"
    by (simp add: ProxyDisconnectMessage_layout wire_wf)
  show "length bs = 20 \<Longrightarrow> ProxyDisconnectMessage_to_bytes (ProxyDisconnectMessage_of_bytes bs) = bs"
    by (simp add: ProxyDisconnectMessage_layout wire_inv slice_glue)
qed

declare ProxyDisconnectMessage_wire.len_to [wire_len] and ProxyDisconnectMessage_wire.of_to [wire_rt]
  and ProxyDisconnectMessage_wire.wf_of [wire_wf] and ProxyDisconnectMessage_wire.to_of [wire_inv]

record ExternalProxyConfig =
  epc_proxy_ip :: "byte list"
  epc_address_family :: u32
  epc_proxy_port :: u16
  epc_token :: "byte list"

definition wf_ExternalProxyConfig :: "ExternalProxyConfig \<Rightarrow> bool" where
  "wf_ExternalProxyConfig x \<longleftrightarrow> bytes_wf 16 (epc_proxy_ip x) \<and>
     bytes_wf 16 (epc_token x)"

definition ExternalProxyConfig_to_bytes :: "ExternalProxyConfig \<Rightarrow> byte list" where
  "ExternalProxyConfig_to_bytes x =
     epc_proxy_ip x @
     put32 (epc_address_family x) @
     put16 (epc_proxy_port x) @
     epc_token x"

definition ExternalProxyConfig_of_bytes :: "byte list \<Rightarrow> ExternalProxyConfig" where
  "ExternalProxyConfig_of_bytes bs =
     \<lparr>epc_proxy_ip = slice 0 16 bs,
      epc_address_family = get32 (slice 16 4 bs),
      epc_proxy_port = get16 (slice 20 2 bs),
      epc_token = slice 22 16 bs\<rparr>"

lemmas ExternalProxyConfig_layout = wf_ExternalProxyConfig_def ExternalProxyConfig_to_bytes_def ExternalProxyConfig_of_bytes_def bytes_wf_def

interpretation ExternalProxyConfig_wire: wire_struct 38 wf_ExternalProxyConfig ExternalProxyConfig_to_bytes ExternalProxyConfig_of_bytes
proof unfold_locales
  fix x :: ExternalProxyConfig
  show "wf_ExternalProxyConfig x \<Longrightarrow> length (ExternalProxyConfig_to_bytes x) = 38"
    by (simp add: ExternalProxyConfig_layout wire_len)
  show "wf_ExternalProxyConfig x \<Longrightarrow> ExternalProxyConfig_of_bytes (ExternalProxyConfig_to_bytes x) = x"
    by (cases x) (simp add: ExternalProxyConfig_layout wire_len wire_rt slice_cut)
next
  fix bs :: "byte list"
  show "length bs = 38 \<Longrightarrow> wf_ExternalProxyConfig (ExternalProxyConfig_of_bytes bs)"
    by (simp add: ExternalProxyConfig_layout wire_wf)
  show "length bs = 38 \<Longrightarrow> ExternalProxyConfig_to_bytes (ExternalProxyConfig_of_bytes bs) = bs"
    by (simp add: ExternalProxyConfig_layout wire_inv slice_glue)
qed

declare ExternalProxyConfig_wire.len_to [wire_len] and ExternalProxyConfig_wire.of_to [wire_rt]
  and ExternalProxyConfig_wire.wf_of [wire_wf] and ExternalProxyConfig_wire.to_of [wire_inv]

record ExternalProxyToken =
  ept_virtual_ip :: u32
  ept_token :: "byte list"
  ept_physical_ip :: "byte list"
  ept_address_family :: u32

definition wf_ExternalProxyToken :: "ExternalProxyToken \<Rightarrow> bool" where
  "wf_ExternalProxyToken x \<longleftrightarrow> bytes_wf 16 (ept_token x) \<and>
     bytes_wf 16 (ept_physical_ip x)"

definition ExternalProxyToken_to_bytes :: "ExternalProxyToken \<Rightarrow> byte list" where
  "ExternalProxyToken_to_bytes x =
     put32 (ept_virtual_ip x) @
     ept_token x @
     ept_physical_ip x @
     put32 (ept_address_family x)"

definition ExternalProxyToken_of_bytes :: "byte list \<Rightarrow> ExternalProxyToken" where
  "ExternalProxyToken_of_bytes bs =
     \<lparr>ept_virtual_ip = get32 (slice 0 4 bs),
      ept_token = slice 4 16 bs,
      ept_physical_ip = slice 20 16 bs,
      ept_address_family = get32 (slice 36 4 bs)\<rparr>"

lemmas ExternalProxyToken_layout = wf_ExternalProxyToken_def ExternalProxyToken_to_bytes_def ExternalProxyToken_of_bytes_def bytes_wf_def

interpretation ExternalProxyToken_wire: wire_struct 40 wf_ExternalProxyToken ExternalProxyToken_to_bytes ExternalProxyToken_of_bytes
proof unfold_locales
  fix x :: ExternalProxyToken
  show "wf_ExternalProxyToken x \<Longrightarrow> length (ExternalProxyToken_to_bytes x) = 40"
    by (simp add: ExternalProxyToken_layout wire_len)
  show "wf_ExternalProxyToken x \<Longrightarrow> ExternalProxyToken_of_bytes (ExternalProxyToken_to_bytes x) = x"
    by (cases x) (simp add: ExternalProxyToken_layout wire_len wire_rt slice_cut)
next
  fix bs :: "byte list"
  show "length bs = 40 \<Longrightarrow> wf_ExternalProxyToken (ExternalProxyToken_of_bytes bs)"
    by (simp add: ExternalProxyToken_layout wire_wf)
  show "length bs = 40 \<Longrightarrow> ExternalProxyToken_to_bytes (ExternalProxyToken_of_bytes bs) = bs"
    by (simp add: ExternalProxyToken_layout wire_inv slice_glue)
qed

declare ExternalProxyToken_wire.len_to [wire_len] and ExternalProxyToken_wire.of_to [wire_rt]
  and ExternalProxyToken_wire.wf_of [wire_wf] and ExternalProxyToken_wire.to_of [wire_inv]

record ExternalProxyConnectionState =
  epcs_ip_address :: u32
  epcs_connected :: u8
  epcs_pad :: "byte list"

definition wf_ExternalProxyConnectionState :: "ExternalProxyConnectionState \<Rightarrow> bool" where
  "wf_ExternalProxyConnectionState x \<longleftrightarrow> bytes_wf 3 (epcs_pad x)"

definition ExternalProxyConnectionState_to_bytes :: "ExternalProxyConnectionState \<Rightarrow> byte list" where
  "ExternalProxyConnectionState_to_bytes x =
     put32 (epcs_ip_address x) @
     put8 (epcs_connected x) @
     epcs_pad x"

definition ExternalProxyConnectionState_of_bytes :: "byte list \<Rightarrow> ExternalProxyConnectionState" where
  "ExternalProxyConnectionState_of_bytes bs =
     \<lparr>epcs_ip_address = get32 (slice 0 4 bs),
      epcs_connected = get8 (slice 4 1 bs),
      epcs_pad = slice 5 3 bs\<rparr>"

lemmas ExternalProxyConnectionState_layout = wf_ExternalProxyConnectionState_def ExternalProxyConnectionState_to_bytes_def ExternalProxyConnectionState_of_bytes_def bytes_wf_def

interpretation ExternalProxyConnectionState_wire: wire_struct 8 wf_ExternalProxyConnectionState ExternalProxyConnectionState_to_bytes ExternalProxyConnectionState_of_bytes
proof unfold_locales
  fix x :: ExternalProxyConnectionState
  show "wf_ExternalProxyConnectionState x \<Longrightarrow> length (ExternalProxyConnectionState_to_bytes x) = 8"
    by (simp add: ExternalProxyConnectionState_layout wire_len)
  show "wf_ExternalProxyConnectionState x \<Longrightarrow> ExternalProxyConnectionState_of_bytes (ExternalProxyConnectionState_to_bytes x) = x"
    by (cases x) (simp add: ExternalProxyConnectionState_layout wire_len wire_rt slice_cut)
next
  fix bs :: "byte list"
  show "length bs = 8 \<Longrightarrow> wf_ExternalProxyConnectionState (ExternalProxyConnectionState_of_bytes bs)"
    by (simp add: ExternalProxyConnectionState_layout wire_wf)
  show "length bs = 8 \<Longrightarrow> ExternalProxyConnectionState_to_bytes (ExternalProxyConnectionState_of_bytes bs) = bs"
    by (simp add: ExternalProxyConnectionState_layout wire_inv slice_glue)
qed

declare ExternalProxyConnectionState_wire.len_to [wire_len] and ExternalProxyConnectionState_wire.of_to [wire_rt]
  and ExternalProxyConnectionState_wire.wf_of [wire_wf] and ExternalProxyConnectionState_wire.to_of [wire_inv]

record SecurityConfig =
  secc_security_mode :: u16
  secc_passphrase_size :: u16
  secc_passphrase :: "byte list"

definition wf_SecurityConfig :: "SecurityConfig \<Rightarrow> bool" where
  "wf_SecurityConfig x \<longleftrightarrow> bytes_wf 64 (secc_passphrase x)"

definition SecurityConfig_to_bytes :: "SecurityConfig \<Rightarrow> byte list" where
  "SecurityConfig_to_bytes x =
     put16 (secc_security_mode x) @
     put16 (secc_passphrase_size x) @
     secc_passphrase x"

definition SecurityConfig_of_bytes :: "byte list \<Rightarrow> SecurityConfig" where
  "SecurityConfig_of_bytes bs =
     \<lparr>secc_security_mode = get16 (slice 0 2 bs),
      secc_passphrase_size = get16 (slice 2 2 bs),
      secc_passphrase = slice 4 64 bs\<rparr>"

lemmas SecurityConfig_layout = wf_SecurityConfig_def SecurityConfig_to_bytes_def SecurityConfig_of_bytes_def bytes_wf_def

interpretation SecurityConfig_wire: wire_struct 68 wf_SecurityConfig SecurityConfig_to_bytes SecurityConfig_of_bytes
proof unfold_locales
  fix x :: SecurityConfig
  show "wf_SecurityConfig x \<Longrightarrow> length (SecurityConfig_to_bytes x) = 68"
    by (simp add: SecurityConfig_layout wire_len)
  show "wf_SecurityConfig x \<Longrightarrow> SecurityConfig_of_bytes (SecurityConfig_to_bytes x) = x"
    by (cases x) (simp add: SecurityConfig_layout wire_len wire_rt slice_cut)
next
  fix bs :: "byte list"
  show "length bs = 68 \<Longrightarrow> wf_SecurityConfig (SecurityConfig_of_bytes bs)"
    by (simp add: SecurityConfig_layout wire_wf)
  show "length bs = 68 \<Longrightarrow> SecurityConfig_to_bytes (SecurityConfig_of_bytes bs) = bs"
    by (simp add: SecurityConfig_layout wire_inv slice_glue)
qed

declare SecurityConfig_wire.len_to [wire_len] and SecurityConfig_wire.of_to [wire_rt]
  and SecurityConfig_wire.wf_of [wire_wf] and SecurityConfig_wire.to_of [wire_inv]

record SecurityParameter =
  secp_data :: "byte list"
  secp_session_id :: "byte list"

definition wf_SecurityParameter :: "SecurityParameter \<Rightarrow> bool" where
  "wf_SecurityParameter x \<longleftrightarrow> bytes_wf 16 (secp_data x) \<and>
     bytes_wf 16 (secp_session_id x)"

definition SecurityParameter_to_bytes :: "SecurityParameter \<Rightarrow> byte list" where
  "SecurityParameter_to_bytes x =
     secp_data x @
     secp_session_id x"

definition SecurityParameter_of_bytes :: "byte list \<Rightarrow> SecurityParameter" where
  "SecurityParameter_of_bytes bs =
     \<lparr>secp_data = slice 0 16 bs,
      secp_session_id = slice 16 16 bs\<rparr>"

lemmas SecurityParameter_layout = wf_SecurityParameter_def SecurityParameter_to_bytes_def SecurityParameter_of_bytes_def bytes_wf_def

interpretation SecurityParameter_wire: wire_struct 32 wf_SecurityParameter SecurityParameter_to_bytes SecurityParameter_of_bytes
proof unfold_locales
  fix x :: SecurityParameter
  show "wf_SecurityParameter x \<Longrightarrow> length (SecurityParameter_to_bytes x) = 32"
    by (simp add: SecurityParameter_layout wire_len)
  show "wf_SecurityParameter x \<Longrightarrow> SecurityParameter_of_bytes (SecurityParameter_to_bytes x) = x"
    by (cases x) (simp add: SecurityParameter_layout wire_len wire_rt slice_cut)
next
  fix bs :: "byte list"
  show "length bs = 32 \<Longrightarrow> wf_SecurityParameter (SecurityParameter_of_bytes bs)"
    by (simp add: SecurityParameter_layout wire_wf)
  show "length bs = 32 \<Longrightarrow> SecurityParameter_to_bytes (SecurityParameter_of_bytes bs) = bs"
    by (simp add: SecurityParameter_layout wire_inv slice_glue)
qed

declare SecurityParameter_wire.len_to [wire_len] and SecurityParameter_wire.of_to [wire_rt]
  and SecurityParameter_wire.wf_of [wire_wf] and SecurityParameter_wire.to_of [wire_inv]

record AddressEntry =
  addr_ipv4_address :: u32
  addr_mac_address :: MacAddress
  addr_reserved :: u16

definition wf_AddressEntry :: "AddressEntry \<Rightarrow> bool" where
  "wf_AddressEntry x \<longleftrightarrow> wf_MacAddress (addr_mac_address x)"

definition AddressEntry_to_bytes :: "AddressEntry \<Rightarrow> byte list" where
  "AddressEntry_to_bytes x =
     put32 (addr_ipv4_address x) @
     MacAddress_to_bytes (addr_mac_address x) @
     put16 (addr_reserved x)"

definition AddressEntry_of_bytes :: "byte list \<Rightarrow> AddressEntry" where
  "AddressEntry_of_bytes bs =
     \<lparr>addr_ipv4_address = get32 (slice 0 4 bs),
      addr_mac_address = MacAddress_of_bytes (slice 4 6 bs),
      addr_reserved = get16 (slice 10 2 bs)\<rparr>"

lemmas AddressEntry_layout = wf_AddressEntry_def AddressEntry_to_bytes_def AddressEntry_of_bytes_def bytes_wf_def

interpretation AddressEntry_wire: wire_struct 12 wf_AddressEntry AddressEntry_to_bytes AddressEntry_of_bytes
proof unfold_locales
  fix x :: AddressEntry
  show "wf_AddressEntry x \<Longrightarrow> length (AddressEntry_to_bytes x) = 12"
    by (simp add: AddressEntry_layout wire_len)
  show "wf_AddressEntry x \<Longrightarrow> AddressEntry_of_bytes (AddressEntry_to_bytes x) = x"
    by (cases x) (simp add: AddressEntry_layout wire_len wire_rt slice_cut)
next
  fix bs :: "byte list"
  show "length bs = 12 \<Longrightarrow> wf_AddressEntry (AddressEntry_of_bytes bs)"
    by (simp add: AddressEntry_layout wire_wf)
  show "length bs = 12 \<Longrightarrow> AddressEntry_to_bytes (AddressEntry_of_bytes bs) = bs"
    by (simp add: AddressEntry_layout wire_inv slice_glue)
qed

declare AddressEntry_wire.len_to [wire_len] and AddressEntry_wire.of_to [wire_rt]
  and AddressEntry_wire.wf_of [wire_wf] and AddressEntry_wire.to_of [wire_inv]

interpretation AddressEntry_array: wire_struct 96 "array_wf 8 wf_AddressEntry" "array_to AddressEntry_to_bytes"
  "array_of 12 AddressEntry_of_bytes 8"
  using AddressEntry_wire.array_wire_struct [of 8] by simp

declare AddressEntry_array.len_to [wire_len] and AddressEntry_array.of_to [wire_rt]
  and AddressEntry_array.wf_of [wire_wf] and AddressEntry_array.to_of [wire_inv]

record AddressList =
  addrs_addresses :: "AddressEntry list"

definition wf_AddressList :: "AddressList \<Rightarrow> bool" where
  "wf_AddressList x \<longleftrightarrow> array_wf 8 wf_AddressEntry (addrs_addresses x)"

definition AddressList_to_bytes :: "AddressList \<Rightarrow> byte list" where
  "AddressList_to_bytes x =
     array_to AddressEntry_to_bytes (addrs_addresses x)"

definition AddressList_of_bytes :: "byte list \<Rightarrow> AddressList" where
  "AddressList_of_bytes bs =
     \<lparr>addrs_addresses = array_of 12 AddressEntry_of_bytes 8 (slice 0 96 bs)\<rparr>"

lemmas AddressList_layout = wf_AddressList_def AddressList_to_bytes_def AddressList_of_bytes_def bytes_wf_def

interpretation AddressList_wire: wire_struct 96 wf_AddressList AddressList_to_bytes AddressList_of_bytes
proof unfold_locales
  fix x :: AddressList
  show "wf_AddressList x \<Longrightarrow> length (AddressList_to_bytes x) = 96"
    by (simp add: AddressList_layout wire_len)
  show "wf_AddressList x \<Longrightarrow> AddressList_of_bytes (AddressList_to_bytes x) = x"
    by (cases x) (simp add: AddressList_layout wire_len wire_rt slice_cut)
next
  fix bs :: "byte list"
  show "length bs = 96 \<Longrightarrow> wf_AddressList (AddressList_of_bytes bs)"
    by (simp add: AddressList_layout wire_wf)
  show "length bs = 96 \<Longrightarrow> AddressList_to_bytes (AddressList_of_bytes bs) = bs"
    by (simp add: AddressList_layout wire_inv slice_glue)
qed

declare AddressList_wire.len_to [wire_len] and AddressList_wire.of_to [wire_rt]
  and AddressList_wire.wf_of [wire_wf] and AddressList_wire.to_of [wire_inv]

record UserConfig =
  userc_user_name :: "byte list"
  userc_unknown1 :: "byte list"

definition wf_UserConfig :: "UserConfig \<Rightarrow> bool" where
  "wf_UserConfig x \<longleftrightarrow> bytes_wf 33 (userc_user_name x) \<and>
     bytes_wf 15 (userc_unknown1 x)"

definition UserConfig_to_bytes :: "UserConfig \<Rightarrow> byte list" where
  "UserConfig_to_bytes x =
     userc_user_name x @
     userc_unknown1 x"

definition UserConfig_of_bytes :: "byte list \<Rightarrow> UserConfig" where
  "UserConfig_of_bytes bs =
     \<lparr>userc_user_name = slice 0 33 bs,
      userc_unknown1 = slice 33 15 bs\<rparr>"

lemmas UserConfig_layout = wf_UserConfig_def UserConfig_to_bytes_def UserConfig_of_bytes_def bytes_wf_def

interpretation UserConfig_wire: wire_struct 48 wf_UserConfig UserConfig_to_bytes UserConfig_of_bytes
proof unfold_locales
  fix x :: UserConfig
  show "wf_UserConfig x \<Longrightarrow> length (UserConfig_to_bytes x) = 48"
    by (simp add: UserConfig_layout wire_len)
  show "wf_UserConfig x \<Longrightarrow> UserConfig_of_bytes (UserConfig_to_bytes x) = x"
    by (cases x) (simp add: UserConfig_layout wire_len wire_rt slice_cut)
next
  fix bs :: "byte list"
  show "length bs = 48 \<Longrightarrow> wf_UserConfig (UserConfig_of_bytes bs)"
    by (simp add: UserConfig_layout wire_wf)
  show "length bs = 48 \<Longrightarrow> UserConfig_to_bytes (UserConfig_of_bytes bs) = bs"
    by (simp add: UserConfig_layout wire_inv slice_glue)
qed

declare UserConfig_wire.len_to [wire_len] and UserConfig_wire.of_to [wire_rt]
  and UserConfig_wire.wf_of [wire_wf] and UserConfig_wire.to_of [wire_inv]

record NetworkConfig =
  netc_intent_id :: IntentId
  netc_channel :: u16
  netc_node_count_max :: u8
  netc_reserved1 :: u8
  netc_local_communication_version :: u16
  netc_reserved2 :: "byte list"

definition wf_NetworkConfig :: "NetworkConfig \<Rightarrow> bool" where
  "wf_NetworkConfig x \<longleftrightarrow> wf_IntentId (netc_intent_id x) \<and>
     bytes_wf 10 (netc_reserved2 x)"

definition NetworkConfig_to_bytes :: "NetworkConfig \<Rightarrow> byte list" where
  "NetworkConfig_to_bytes x =
     IntentId_to_bytes (netc_intent_id x) @
     put16 (netc_channel x) @
     put8 (netc_node_count_max x) @
     put8 (netc_reserved1 x) @
     put16 (netc_local_communication_version x) @
     netc_reserved2 x"

definition NetworkConfig_of_bytes :: "byte list \<Rightarrow> NetworkConfig" where
  "NetworkConfig_of_bytes bs =
     \<lparr>netc_intent_id = IntentId_of_bytes (slice 0 16 bs),
      netc_channel = get16 (slice 16 2 bs),
      netc_node_count_max = get8 (slice 18 1 bs),
      netc_reserved1 = get8 (slice 19 1 bs),
      netc_local_communication_version = get16 (slice 20 2 bs),
      netc_reserved2 = slice 22 10 bs\<rparr>"

lemmas NetworkConfig_layout = wf_NetworkConfig_def NetworkConfig_to_bytes_def NetworkConfig_of_bytes_def bytes_wf_def

interpretation NetworkConfig_wire: wire_struct 32 wf_NetworkConfig NetworkConfig_to_bytes NetworkConfig_of_bytes
proof unfold_locales
  fix x :: NetworkConfig
  show "wf_NetworkConfig x \<Longrightarrow> length (NetworkConfig_to_bytes x) = 32"
    by (simp add: NetworkConfig_layout wire_len)
  show "wf_NetworkConfig x \<Longrightarrow> NetworkConfig_of_bytes (NetworkConfig_to_bytes x) = x"
    by (cases x) (simp add: NetworkConfig_layout wire_len wire_rt slice_cut)
next
  fix bs :: "byte list"
  show "length bs = 32 \<Longrightarrow> wf_NetworkConfig (NetworkConfig_of_bytes bs)"
    by (simp add: NetworkConfig_layout wire_wf)
  show "length bs = 32 \<Longrightarrow> NetworkConfig_to_bytes (NetworkConfig_of_bytes bs) = bs"
    by (simp add: NetworkConfig_layout wire_inv slice_glue)
qed

declare NetworkConfig_wire.len_to [wire_len] and NetworkConfig_wire.of_to [wire_rt]
  and NetworkConfig_wire.wf_of [wire_wf] and NetworkConfig_wire.to_of [wire_inv]

record RyuNetworkConfig =
  ryuc_game_version :: "byte list"
  ryuc_private_ip :: "byte list"
  ryuc_address_family :: u32
  ryuc_external_proxy_port :: u16
  ryuc_internal_proxy_port :: u16

definition wf_RyuNetworkConfig :: "RyuNetworkConfig \<Rightarrow> bool" where
  "wf_RyuNetworkConfig x \<longleftrightarrow> bytes_wf 16 (ryuc_game_version x) \<and>
     bytes_wf 16 (ryuc_private_ip x)"

definition RyuNetworkConfig_to_bytes :: "RyuNetworkConfig \<Rightarrow> byte list" where
  "RyuNetworkConfig_to_bytes x =
     ryuc_game_version x @
     ryuc_private_ip x @
     put32 (ryuc_address_family x) @
     put16 (ryuc_external_proxy_port x) @
     put16 (ryuc_internal_proxy_port x)"

definition RyuNetworkConfig_of_bytes :: "byte list \<Rightarrow> RyuNetworkConfig" where
  "RyuNetworkConfig_of_bytes bs =
     \<lparr>ryuc_game_version = slice 0 16 bs,
      ryuc_private_ip = slice 16 16 bs,
      ryuc_address_family = get32 (slice 32 4 bs),
      ryuc_external_proxy_port = get16 (slice 36 2 bs),
      ryuc_internal_proxy_port = get16 (slice 38 2 bs)\<rparr>"

lemmas RyuNetworkConfig_layout = wf_RyuNetworkConfig_def RyuNetworkConfig_to_bytes_def RyuNetworkConfig_of_bytes_def bytes_wf_def

interpretation RyuNetworkConfig_wire: wire_struct 40 wf_RyuNetworkConfig RyuNetworkConfig_to_bytes RyuNetworkConfig_of_bytes
proof unfold_locales
  fix x :: RyuNetworkConfig
  show "wf_RyuNetworkConfig x \<Longrightarrow> length (RyuNetworkConfig_to_bytes x) = 40"
    by (simp add: RyuNetworkConfig_layout wire_len)
  show "wf_RyuNetworkConfig x \<Longrightarrow> RyuNetworkConfig_of_bytes (RyuNetworkConfig_to_bytes x) = x"
    by (cases x) (simp add: RyuNetworkConfig_layout wire_len wire_rt slice_cut)
next
  fix bs :: "byte list"
  show "length bs = 40 \<Longrightarrow> wf_RyuNetworkConfig (RyuNetworkConfig_of_bytes bs)"
    by (simp add: RyuNetworkConfig_layout wire_wf)
  show "length bs = 40 \<Longrightarrow> RyuNetworkConfig_to_bytes (RyuNetworkConfig_of_bytes bs) = bs"
    by (simp add: RyuNetworkConfig_layout wire_inv slice_glue)
qed

declare RyuNetworkConfig_wire.len_to [wire_len] and RyuNetworkConfig_wire.of_to [wire_rt]
  and RyuNetworkConfig_wire.wf_of [wire_wf] and RyuNetworkConfig_wire.to_of [wire_inv]

record CreateAccessPointRequest =
  capr_security_config :: SecurityConfig
  capr_user_config :: UserConfig
  capr_network_config :: NetworkConfig
  capr_ryu_network_config :: RyuNetworkConfig

definition wf_CreateAccessPointRequest :: "CreateAccessPointRequest \<Rightarrow> bool" where
  "wf_CreateAccessPointRequest x \<longleftrightarrow> wf_SecurityConfig (capr_security_config x) \<and>
     wf_UserConfig (capr_user_config x) \<and>
     wf_NetworkConfig (capr_network_config x) \<and>
     wf_RyuNetworkConfig (capr_ryu_network_config x)"

definition CreateAccessPointRequest_to_bytes :: "CreateAccessPointRequest \<Rightarrow> byte list" where
  "CreateAccessPointRequest_to_bytes x =
     SecurityConfig_to_bytes (capr_security_config x) @
     UserConfig_to_bytes (capr_user_config x) @
     NetworkConfig_to_bytes (capr_network_config x) @
     RyuNetworkConfig_to_bytes (capr_ryu_network_config x)"

definition CreateAccessPointRequest_of_bytes :: "byte list \<Rightarrow> CreateAccessPointRequest" where
  "CreateAccessPointRequest_of_bytes bs =
     \<lparr>capr_security_config = SecurityConfig_of_bytes (slice 0 68 bs),
      capr_user_config = UserConfig_of_bytes (slice 68 48 bs),
      capr_network_config = NetworkConfig_of_bytes (slice 116 32 bs),
      capr_ryu_network_config = RyuNetworkConfig_of_bytes (slice 148 40 bs)\<rparr>"

lemmas CreateAccessPointRequest_layout = wf_CreateAccessPointRequest_def CreateAccessPointRequest_to_bytes_def CreateAccessPointRequest_of_bytes_def bytes_wf_def

interpretation CreateAccessPointRequest_wire: wire_struct 188 wf_CreateAccessPointRequest CreateAccessPointRequest_to_bytes CreateAccessPointRequest_of_bytes
proof unfold_locales
  fix x :: CreateAccessPointRequest
  show "wf_CreateAccessPointRequest x \<Longrightarrow> length (CreateAccessPointRequest_to_bytes x) = 188"
    by (simp add: CreateAccessPointRequest_layout wire_len)
  show "wf_CreateAccessPointRequest x \<Longrightarrow> CreateAccessPointRequest_of_bytes (CreateAccessPointRequest_to_bytes x) = x"
    by (cases x) (simp add: CreateAccessPointRequest_layout wire_len wire_rt slice_cut)
next
  fix bs :: "byte list"
  show "length bs = 188 \<Longrightarrow> wf_CreateAccessPointRequest (CreateAccessPointRequest_of_bytes bs)"
    by (simp add: CreateAccessPointRequest_layout wire_wf)
  show "length bs = 188 \<Longrightarrow> CreateAccessPointRequest_to_bytes (CreateAccessPointRequest_of_bytes bs) = bs"
    by (simp add: CreateAccessPointRequest_layout wire_inv slice_glue)
qed

declare CreateAccessPointRequest_wire.len_to [wire_len] and CreateAccessPointRequest_wire.of_to [wire_rt]
  and CreateAccessPointRequest_wire.wf_of [wire_wf] and CreateAccessPointRequest_wire.to_of [wire_inv]

record CreateAccessPointPrivateRequest =
  cappr_security_config :: SecurityConfig
  cappr_security_parameter :: SecurityParameter
  cappr_user_config :: UserConfig
  cappr_network_config :: NetworkConfig
  cappr_address_list :: AddressList
  cappr_ryu_network_config :: RyuNetworkConfig

definition wf_CreateAccessPointPrivateRequest :: "CreateAccessPointPrivateRequest \<Rightarrow> bool" where
  "wf_CreateAccessPointPrivateRequest x \<longleftrightarrow> wf_SecurityConfig (cappr_security_config x) \<and>
     wf_SecurityParameter (cappr_security_parameter x) \<and>
     wf_UserConfig (cappr_user_config x) \<and>
     wf_NetworkConfig (cappr_network_config x) \<and>
     wf_AddressList (cappr_address_list x) \<and>
     wf_RyuNetworkConfig (cappr_ryu_network_config x)"

definition CreateAccessPointPrivateRequest_to_bytes :: "CreateAccessPointPrivateRequest \<Rightarrow> byte list" where
  "CreateAccessPointPrivateRequest_to_bytes x =
     SecurityConfig_to_bytes (cappr_security_config x) @
     SecurityParameter_to_bytes (cappr_security_parameter x) @
     UserConfig_to_bytes (cappr_user_config x) @
     NetworkConfig_to_bytes (cappr_network_config x) @
     AddressList_to_bytes (cappr_address_list x) @
     RyuNetworkConfig_to_bytes (cappr_ryu_network_config x)"

definition CreateAccessPointPrivateRequest_of_bytes :: "byte list \<Rightarrow> CreateAccessPointPrivateRequest" where
  "CreateAccessPointPrivateRequest_of_bytes bs =
     \<lparr>cappr_security_config = SecurityConfig_of_bytes (slice 0 68 bs),
      cappr_security_parameter = SecurityParameter_of_bytes (slice 68 32 bs),
      cappr_user_config = UserConfig_of_bytes (slice 100 48 bs),
      cappr_network_config = NetworkConfig_of_bytes (slice 148 32 bs),
      cappr_address_list = AddressList_of_bytes (slice 180 96 bs),
      cappr_ryu_network_config = RyuNetworkConfig_of_bytes (slice 276 40 bs)\<rparr>"

lemmas CreateAccessPointPrivateRequest_layout = wf_CreateAccessPointPrivateRequest_def CreateAccessPointPrivateRequest_to_bytes_def CreateAccessPointPrivateRequest_of_bytes_def bytes_wf_def

interpretation CreateAccessPointPrivateRequest_wire: wire_struct 316 wf_CreateAccessPointPrivateRequest CreateAccessPointPrivateRequest_to_bytes CreateAccessPointPrivateRequest_of_bytes
proof unfold_locales
  fix x :: CreateAccessPointPrivateRequest
  show "wf_CreateAccessPointPrivateRequest x \<Longrightarrow> length (CreateAccessPointPrivateRequest_to_bytes x) = 316"
    by (simp add: CreateAccessPointPrivateRequest_layout wire_len)
  show "wf_CreateAccessPointPrivateRequest x \<Longrightarrow> CreateAccessPointPrivateRequest_of_bytes (CreateAccessPointPrivateRequest_to_bytes x) = x"
    by (cases x) (simp add: CreateAccessPointPrivateRequest_layout wire_len wire_rt slice_cut)
next
  fix bs :: "byte list"
  show "length bs = 316 \<Longrightarrow> wf_CreateAccessPointPrivateRequest (CreateAccessPointPrivateRequest_of_bytes bs)"
    by (simp add: CreateAccessPointPrivateRequest_layout wire_wf)
  show "length bs = 316 \<Longrightarrow> CreateAccessPointPrivateRequest_to_bytes (CreateAccessPointPrivateRequest_of_bytes bs) = bs"
    by (simp add: CreateAccessPointPrivateRequest_layout wire_inv slice_glue)
qed

declare CreateAccessPointPrivateRequest_wire.len_to [wire_len] and CreateAccessPointPrivateRequest_wire.of_to [wire_rt]
  and CreateAccessPointPrivateRequest_wire.wf_of [wire_wf] and CreateAccessPointPrivateRequest_wire.to_of [wire_inv]

record ConnectPrivateRequest =
  cpr_security_config :: SecurityConfig
  cpr_security_parameter :: SecurityParameter
  cpr_user_config :: UserConfig
  cpr_local_communication_version :: u32
  cpr_option_unknown :: u32
  cpr_network_config :: NetworkConfig

definition wf_ConnectPrivateRequest :: "ConnectPrivateRequest \<Rightarrow> bool" where
  "wf_ConnectPrivateRequest x \<longleftrightarrow> wf_SecurityConfig (cpr_security_config x) \<and>
     wf_SecurityParameter (cpr_security_parameter x) \<and>
     wf_UserConfig (cpr_user_config x) \<and>
     wf_NetworkConfig (cpr_network_config x)"

definition ConnectPrivateRequest_to_bytes :: "ConnectPrivateRequest \<Rightarrow> byte list" where
  "ConnectPrivateRequest_to_bytes x =
     SecurityConfig_to_bytes (cpr_security_config x) @
     SecurityParameter_to_bytes (cpr_security_parameter x) @
     UserConfig_to_bytes (cpr_user_config x) @
     put32 (cpr_local_communication_version x) @
     put32 (cpr_option_unknown x) @
     NetworkConfig_to_bytes (cpr_network_config x)"

definition ConnectPrivateRequest_of_bytes :: "byte list \<Rightarrow> ConnectPrivateRequest" where
  "ConnectPrivateRequest_of_bytes bs =
     \<lparr>cpr_security_config = SecurityConfig_of_bytes (slice 0 68 bs),
      cpr_security_parameter = SecurityParameter_of_bytes (slice 68 32 bs),
      cpr_user_config = UserConfig_of_bytes (slice 100 48 bs),
      cpr_local_communication_version = get32 (slice 148 4 bs),
      cpr_option_unknown = get32 (slice 152 4 bs),
      cpr_network_config = NetworkConfig_of_bytes (slice 156 32 bs)\<rparr>"

lemmas ConnectPrivateRequest_layout = wf_ConnectPrivateRequest_def ConnectPrivateRequest_to_bytes_def ConnectPrivateRequest_of_bytes_def bytes_wf_def

interpretation ConnectPrivateRequest_wire: wire_struct 188 wf_ConnectPrivateRequest ConnectPrivateRequest_to_bytes ConnectPrivateRequest_of_bytes
proof unfold_locales
  fix x :: ConnectPrivateRequest
  show "wf_ConnectPrivateRequest x \<Longrightarrow> length (ConnectPrivateRequest_to_bytes x) = 188"
    by (simp add: ConnectPrivateRequest_layout wire_len)
  show "wf_ConnectPrivateRequest x \<Longrightarrow> ConnectPrivateRequest_of_bytes (ConnectPrivateRequest_to_bytes x) = x"
    by (cases x) (simp add: ConnectPrivateRequest_layout wire_len wire_rt slice_cut)
next
  fix bs :: "byte list"
  show "length bs = 188 \<Longrightarrow> wf_ConnectPrivateRequest (ConnectPrivateRequest_of_bytes bs)"
    by (simp add: ConnectPrivateRequest_layout wire_wf)
  show "length bs = 188 \<Longrightarrow> ConnectPrivateRequest_to_bytes (ConnectPrivateRequest_of_bytes bs) = bs"
    by (simp add: ConnectPrivateRequest_layout wire_inv slice_glue)
qed

declare ConnectPrivateRequest_wire.len_to [wire_len] and ConnectPrivateRequest_wire.of_to [wire_rt]
  and ConnectPrivateRequest_wire.wf_of [wire_wf] and ConnectPrivateRequest_wire.to_of [wire_inv]

record ScanFilterFull =
  scan_network_id :: NetworkId
  scan_network_type :: u32
  scan_mac_address :: MacAddress
  scan_ssid :: Ssid
  scan_reserved :: "byte list"
  scan_flag :: u32

definition wf_ScanFilterFull :: "ScanFilterFull \<Rightarrow> bool" where
  "wf_ScanFilterFull x \<longleftrightarrow> wf_NetworkId (scan_network_id x) \<and>
     wf_MacAddress (scan_mac_address x) \<and>
     wf_Ssid (scan_ssid x) \<and>
     bytes_wf 16 (scan_reserved x)"

definition ScanFilterFull_to_bytes :: "ScanFilterFull \<Rightarrow> byte list" where
  "ScanFilterFull_to_bytes x =
     NetworkId_to_bytes (scan_network_id x) @
     put32 (scan_network_type x) @
     MacAddress_to_bytes (scan_mac_address x) @
     Ssid_to_bytes (scan_ssid x) @
     scan_reserved x @
     put32 (scan_flag x)"

definition ScanFilterFull_of_bytes :: "byte list \<Rightarrow> ScanFilterFull" where
  "ScanFilterFull_of_bytes bs =
     \<lparr>scan_network_id = NetworkId_of_bytes (slice 0 32 bs),
      scan_network_type = get32 (slice 32 4 bs),
      scan_mac_address = MacAddress_of_bytes (slice 36 6 bs),
      scan_ssid = Ssid_of_bytes (slice 42 34 bs),
      scan_reserved = slice 76 16 bs,
      scan_flag = get32 (slice 92 4 bs)\<rparr>"

lemmas ScanFilterFull_layout = wf_ScanFilterFull_def ScanFilterFull_to_bytes_def ScanFilterFull_of_bytes_def bytes_wf_def

interpretation ScanFilterFull_wire: wire_struct 96 wf_ScanFilterFull ScanFilterFull_to_bytes ScanFilterFull_of_bytes
proof unfold_locales
  fix x :: ScanFilterFull
  show "wf_ScanFilterFull x \<Longrightarrow> length (ScanFilterFull_to_bytes x) = 96"
    by (simp add: ScanFilterFull_layout wire_len)
  show "wf_ScanFilterFull x \<Longrightarrow> ScanFilterFull_of_bytes (ScanFilterFull_to_bytes x) = x"
    by (cases x) (simp add: ScanFilterFull_layout wire_len wire_rt slice_cut)
next
  fix bs :: "byte list"
  show "length bs = 96 \<Longrightarrow> wf_ScanFilterFull (ScanFilterFull_of_bytes bs)"
    by (simp add: ScanFilterFull_layout wire_wf)
  show "length bs = 96 \<Longrightarrow> ScanFilterFull_to_bytes (ScanFilterFull_of_bytes bs) = bs"
    by (simp add: ScanFilterFull_layout wire_inv slice_glue)
qed

declare ScanFilterFull_wire.len_to [wire_len] and ScanFilterFull_wire.of_to [wire_rt]
  and ScanFilterFull_wire.wf_of [wire_wf] and ScanFilterFull_wire.to_of [wire_inv]

record ConnectRequest =
  creq_security_config :: SecurityConfig
  creq_user_config :: UserConfig
  creq_local_communication_version :: u32
  creq_option_unknown :: u32
  creq_padding :: u32
  creq_network_info :: NetworkInfo

definition wf_ConnectRequest :: "ConnectRequest \<Rightarrow> bool" where
  "wf_ConnectRequest x \<longleftrightarrow> wf_SecurityConfig (creq_security_config x) \<and>
     wf_UserConfig (creq_user_config x) \<and>
     wf_NetworkInfo (creq_network_info x)"

definition ConnectRequest_to_bytes :: "ConnectRequest \<Rightarrow> byte list" where
  "ConnectRequest_to_bytes x =
     SecurityConfig_to_bytes (creq_security_config x) @
     UserConfig_to_bytes (creq_user_config x) @
     put32 (creq_local_communication_version x) @
     put32 (creq_option_unknown x) @
     put32 (creq_padding x) @
     NetworkInfo_to_bytes (creq_network_info x)"

definition ConnectRequest_of_bytes :: "byte list \<Rightarrow> ConnectRequest" where
  "ConnectRequest_of_bytes bs =
     \<lparr>creq_security_config = SecurityConfig_of_bytes (slice 0 68 bs),
      creq_user_config = UserConfig_of_bytes (slice 68 48 bs),
      creq_local_communication_version = get32 (slice 116 4 bs),
      creq_option_unknown = get32 (slice 120 4 bs),
      creq_padding = get32 (slice 124 4 bs),
      creq_network_info = NetworkInfo_of_bytes (slice 128 1152 bs)\<rparr>"

lemmas ConnectRequest_layout = wf_ConnectRequest_def ConnectRequest_to_bytes_def ConnectRequest_of_bytes_def bytes_wf_def

interpretation ConnectRequest_wire: wire_struct 1280 wf_ConnectRequest ConnectRequest_to_bytes ConnectRequest_of_bytes
proof unfold_locales
  fix x :: ConnectRequest
  show "wf_ConnectRequest x \<Longrightarrow> length (ConnectRequest_to_bytes x) = 1280"
    by (simp add: ConnectRequest_layout wire_len)
  show "wf_ConnectRequest x \<Longrightarrow> ConnectRequest_of_bytes (ConnectRequest_to_bytes x) = x"
    by (cases x) (simp add: ConnectRequest_layout wire_len wire_rt slice_cut)
next
  fix bs :: "byte list"
  show "length bs = 1280 \<Longrightarrow> wf_ConnectRequest (ConnectRequest_of_bytes bs)"
    by (simp add: ConnectRequest_layout wire_wf)
  show "length bs = 1280 \<Longrightarrow> ConnectRequest_to_bytes (ConnectRequest_of_bytes bs) = bs"
    by (simp add: ConnectRequest_layout wire_inv slice_glue)
qed

declare ConnectRequest_wire.len_to [wire_len] and ConnectRequest_wire.of_to [wire_rt]
  and ConnectRequest_wire.wf_of [wire_wf] and ConnectRequest_wire.to_of [wire_inv]

record SetAcceptPolicyRequest =
  sapr_accept_policy :: u8

definition wf_SetAcceptPolicyRequest :: "SetAcceptPolicyRequest \<Rightarrow> bool" where
  "wf_SetAcceptPolicyRequest x \<longleftrightarrow> any_value x"

definition SetAcceptPolicyRequest_to_bytes :: "SetAcceptPolicyRequest \<Rightarrow> byte list" where
  "SetAcceptPolicyRequest_to_bytes x =
     put8 (sapr_accept_policy x)"

definition SetAcceptPolicyRequest_of_bytes :: "byte list \<Rightarrow> SetAcceptPolicyRequest" where
  "SetAcceptPolicyRequest_of_bytes bs =
     \<lparr>sapr_accept_policy = get8 (slice 0 1 bs)\<rparr>"

lemmas SetAcceptPolicyRequest_layout = wf_SetAcceptPolicyRequest_def SetAcceptPolicyRequest_to_bytes_def SetAcceptPolicyRequest_of_bytes_def bytes_wf_def

interpretation SetAcceptPolicyRequest_wire: wire_struct 1 wf_SetAcceptPolicyRequest SetAcceptPolicyRequest_to_bytes SetAcceptPolicyRequest_of_bytes
proof unfold_locales
  fix x :: SetAcceptPolicyRequest
  show "wf_SetAcceptPolicyRequest x \<Longrightarrow> length (SetAcceptPolicyRequest_to_bytes x) = 1"
    by (simp add: SetAcceptPolicyRequest_layout wire_len)
  show "wf_SetAcceptPolicyRequest x \<Longrightarrow> SetAcceptPolicyRequest_of_bytes (SetAcceptPolicyRequest_to_bytes x) = x"
    by (cases x) (simp add: SetAcceptPolicyRequest_layout wire_len wire_rt slice_cut)
next
  fix bs :: "byte list"
  show "length bs = 1 \<Longrightarrow> wf_SetAcceptPolicyRequest (SetAcceptPolicyRequest_of_bytes bs)"
    by (simp add: SetAcceptPolicyRequest_layout wire_wf)
  show "length bs = 1 \<Longrightarrow> SetAcceptPolicyRequest_to_bytes (SetAcceptPolicyRequest_of_bytes bs) = bs"
    by (simp add: SetAcceptPolicyRequest_layout wire_inv slice_glue)
qed

declare SetAcceptPolicyRequest_wire.len_to [wire_len] and SetAcceptPolicyRequest_wire.of_to [wire_rt]
  and SetAcceptPolicyRequest_wire.wf_of [wire_wf] and SetAcceptPolicyRequest_wire.to_of [wire_inv]

record RejectRequest =
  rejr_node_id :: u32
  rejr_disconnect_reason :: u32

definition wf_RejectRequest :: "RejectRequest \<Rightarrow> bool" where
  "wf_RejectRequest x \<longleftrightarrow> any_value x"

definition RejectRequest_to_bytes :: "RejectRequest \<Rightarrow> byte list" where
  "RejectRequest_to_bytes x =
     put32 (rejr_node_id x) @
     put32 (rejr_disconnect_reason x)"

definition RejectRequest_of_bytes :: "byte list \<Rightarrow> RejectRequest" where
  "RejectRequest_of_bytes bs =
     \<lparr>rejr_node_id = get32 (slice 0 4 bs),
      rejr_disconnect_reason = get32 (slice 4 4 bs)\<rparr>"

lemmas RejectRequest_layout = wf_RejectRequest_def RejectRequest_to_bytes_def RejectRequest_of_bytes_def bytes_wf_def

interpretation RejectRequest_wire: wire_struct 8 wf_RejectRequest RejectRequest_to_bytes RejectRequest_of_bytes
proof unfold_locales
  fix x :: RejectRequest
  show "wf_RejectRequest x \<Longrightarrow> length (RejectRequest_to_bytes x) = 8"
    by (simp add: RejectRequest_layout wire_len)
  show "wf_RejectRequest x \<Longrightarrow> RejectRequest_of_bytes (RejectRequest_to_bytes x) = x"
    by (cases x) (simp add: RejectRequest_layout wire_len wire_rt slice_cut)
next
  fix bs :: "byte list"
  show "length bs = 8 \<Longrightarrow> wf_RejectRequest (RejectRequest_of_bytes bs)"
    by (simp add: RejectRequest_layout wire_wf)
  show "length bs = 8 \<Longrightarrow> RejectRequest_to_bytes (RejectRequest_of_bytes bs) = bs"
    by (simp add: RejectRequest_layout wire_inv slice_glue)
qed

declare RejectRequest_wire.len_to [wire_len] and RejectRequest_wire.of_to [wire_rt]
  and RejectRequest_wire.wf_of [wire_wf] and RejectRequest_wire.to_of [wire_inv]

subsection \<open>Member functions\<close>

definition MacAddress_is_zero :: "MacAddress \<Rightarrow> bool" where
  "MacAddress_is_zero m \<longleftrightarrow> list_all (\<lambda>b. b = 0) (mac_data m)"

definition SessionId_is_zero :: "SessionId \<Rightarrow> bool" where
  "SessionId_is_zero s \<longleftrightarrow> list_all (\<lambda>b. b = 0) (sid_data s)"

definition MacAddress_eq :: "MacAddress \<Rightarrow> MacAddress \<Rightarrow> bool" where
  "MacAddress_eq a b \<longleftrightarrow> take 6 (mac_data a) = take 6 (mac_data b)"

lemma MacAddress_eq_iff: "wf_MacAddress a \<Longrightarrow> wf_MacAddress b \<Longrightarrow> MacAddress_eq a b \<longleftrightarrow> a = b"
  by (cases a, cases b) (simp add: MacAddress_eq_def wf_MacAddress_def bytes_wf_def)

end
