(* ===== verification/Ryu_Protocol.thy ===== *)
theory Ryu_Protocol
  imports Protocol_Types
begin

text \<open>
  The encoder and decoder of \<^verbatim>\<open>protocol/ryu_protocol.hpp\<close>. An output buffer is the byte
  list of its current contents, whose length is the \<^verbatim>\<open>buffer_size\<close> argument; an encoder
  returns its result code, the buffer afterwards and \<^verbatim>\<open>out_size\<close>. A template parameter
  \<^verbatim>\<open>T\<close> is the pair of its size and its byte image. Pointers that may be null are
  options. Out-parameters a decoder leaves untouched are \<open>None\<close>.
\<close>

datatype EncodeResult = Success | BufferTooSmall | InvalidPacketId

datatype DecodeResult =
  Success | BufferTooSmall | InvalidMagic | InvalidVersion | PacketTooLarge | IncompletePacket

type_synonym encoded = "EncodeResult \<times> byte list \<times> nat"

subsection \<open>Encoder\<close>

definition get_packet_size :: "nat \<Rightarrow> nat" where
  "get_packet_size payload_size = 12 + payload_size"

definition make_header :: "PacketId \<Rightarrow> u32 \<Rightarrow> LdnHeader" where
  "make_header ty data_size =
     \<lparr>hdr_magic = PROTOCOL_MAGIC, hdr_type = packet_id_byte ty, hdr_version = PROTOCOL_VERSION,
      hdr_reserved = 0, hdr_data_size = data_size\<rparr>"

definition encode_header :: "byte list \<Rightarrow> PacketId \<Rightarrow> u32 \<Rightarrow> byte list \<times> nat" where
  "encode_header buffer ty data_size =
     (memcpy buffer 0 (LdnHeader_to_bytes (make_header ty data_size)), 12)"

definition encode_empty :: "byte list \<Rightarrow> PacketId \<Rightarrow> encoded" where
  "encode_empty buffer ty =
     (if length buffer < 12 then (EncodeResult.BufferTooSmall, buffer, 0)
      else case encode_header buffer ty 0 of (b, n) \<Rightarrow> (EncodeResult.Success, b, n))"

definition encode :: "nat \<Rightarrow> ('t \<Rightarrow> byte list) \<Rightarrow> byte list \<Rightarrow> PacketId \<Rightarrow> 't \<Rightarrow> encoded" where
  "encode sizeof_T to_bytes buffer ty payload =
     (let required = get_packet_size sizeof_T in
      if length buffer < required then (EncodeResult.BufferTooSmall, buffer, 0)
      else case encode_header buffer ty (word_of_nat sizeof_T) of (b, offset) \<Rightarrow>
        (EncodeResult.Success, memcpy b offset (to_bytes payload), required))"

definition encode_with_data ::
  "nat \<Rightarrow> ('t \<Rightarrow> byte list) \<Rightarrow> byte list \<Rightarrow> PacketId \<Rightarrow> 't \<Rightarrow> byte list option \<Rightarrow> nat \<Rightarrow> encoded" where
  "encode_with_data sizeof_T to_bytes buffer ty payload extra_data extra_size =
     (let required = 12 + sizeof_T + extra_size in
      if length buffer < required then (EncodeResult.BufferTooSmall, buffer, 0)
      else case encode_header buffer ty (word_of_nat (sizeof_T + extra_size)) of (b, offset) \<Rightarrow>
        (let b = memcpy b offset (to_bytes payload); offset = offset + sizeof_T in
         case extra_data of
           Some d \<Rightarrow> (EncodeResult.Success,
              (if 0 < extra_size then memcpy b offset (take extra_size d) else b), required)
         | None \<Rightarrow> (EncodeResult.Success, b, required)))"

definition encode_raw :: "byte list \<Rightarrow> PacketId \<Rightarrow> byte list option \<Rightarrow> nat \<Rightarrow> encoded" where
  "encode_raw buffer ty data data_size =
     (let required = 12 + data_size in
      if length buffer < required then (EncodeResult.BufferTooSmall, buffer, 0)
      else case encode_header buffer ty (word_of_nat data_size) of (b, offset) \<Rightarrow>
        (case data of
           Some d \<Rightarrow> (EncodeResult.Success,
              (if 0 < data_size then memcpy b offset (take data_size d) else b), required)
         | None \<Rightarrow> (EncodeResult.Success, b, required)))"

subsection \<open>Convenience encoders\<close>

definition encode_initialize :: "byte list \<Rightarrow> SessionId \<Rightarrow> MacAddress \<Rightarrow> encoded" where
  "encode_initialize buffer sid mac =
     encode 22 InitializeMessage_to_bytes buffer PacketId.Initialize
       \<lparr>init_id = sid, init_mac_address = mac\<rparr>"

definition make_passphrase :: "byte list option \<Rightarrow> nat \<Rightarrow> PassphraseMessage" where
  "make_passphrase passphrase passphrase_len =
     (case passphrase of
        Some p \<Rightarrow>
          (if 0 < passphrase_len
           then let copy_len = (if passphrase_len < 128 then passphrase_len else 128)
                in \<lparr>pass_passphrase = memcpy (replicate 128 0) 0 (take copy_len p)\<rparr>
           else \<lparr>pass_passphrase = replicate 128 0\<rparr>)
      | None \<Rightarrow> \<lparr>pass_passphrase = replicate 128 0\<rparr>)"

definition encode_passphrase :: "byte list \<Rightarrow> byte list option \<Rightarrow> nat \<Rightarrow> encoded" where
  "encode_passphrase buffer passphrase passphrase_len =
     encode 128 PassphraseMessage_to_bytes buffer PacketId.Passphrase
       (make_passphrase passphrase passphrase_len)"

definition encode_ping :: "byte list \<Rightarrow> u8 \<Rightarrow> u8 \<Rightarrow> encoded" where
  "encode_ping buffer requester ident =
     encode 2 PingMessage_to_bytes buffer PacketId.Ping \<lparr>ping_requester = requester, ping_id = ident\<rparr>"

definition encode_disconnect :: "byte list \<Rightarrow> u32 \<Rightarrow> encoded" where
  "encode_disconnect buffer disconnect_ip =
     encode 4 DisconnectMessage_to_bytes buffer PacketId.Disconnect \<lparr>disc_disconnect_ip = disconnect_ip\<rparr>"

definition encode_scan :: "byte list \<Rightarrow> ScanFilterFull \<Rightarrow> encoded" where
  "encode_scan buffer flt = encode 96 ScanFilterFull_to_bytes buffer PacketId.Scan flt"

definition encode_connect :: "byte list \<Rightarrow> ConnectRequest \<Rightarrow> encoded" where
  "encode_connect buffer request = encode 1280 ConnectRequest_to_bytes buffer PacketId.Connect request"

definition encode_create_access_point ::
  "byte list \<Rightarrow> CreateAccessPointRequest \<Rightarrow> byte list option \<Rightarrow> nat \<Rightarrow> encoded" where
  "encode_create_access_point buffer request advertise_data advertise_size =
     encode_with_data 188 CreateAccessPointRequest_to_bytes buffer PacketId.CreateAccessPoint
       request advertise_data advertise_size"

definition encode_set_accept_policy :: "byte list \<Rightarrow> u8 \<Rightarrow> encoded" where
  "encode_set_accept_policy buffer policy =
     encode 1 SetAcceptPolicyRequest_to_bytes buffer PacketId.SetAcceptPolicy \<lparr>sapr_accept_policy = policy\<rparr>"

definition encode_set_advertise_data :: "byte list \<Rightarrow> byte list option \<Rightarrow> nat \<Rightarrow> encoded" where
  "encode_set_advertise_data buffer data data_size =
     encode_raw buffer PacketId.SetAdvertiseData data data_size"

definition encode_proxy_data :: "byte list \<Rightarrow> ProxyInfo \<Rightarrow> byte list option \<Rightarrow> nat \<Rightarrow> encoded" where
  "encode_proxy_data buffer info data data_size =
     encode_with_data 20 ProxyDataHeader_to_bytes buffer PacketId.ProxyData
       \<lparr>pdh_info = info, pdh_data_length = word_of_nat data_size\<rparr> data data_size"

definition encode_scan_reply_end :: "byte list \<Rightarrow> encoded" where
  "encode_scan_reply_end buffer = encode_empty buffer PacketId.ScanReplyEnd"

definition encode_reject_reply :: "byte list \<Rightarrow> encoded" where
  "encode_reject_reply buffer = encode_empty buffer PacketId.RejectReply"

definition encode_network_info :: "byte list \<Rightarrow> PacketId \<Rightarrow> NetworkInfo \<Rightarrow> encoded" where
  "encode_network_info buffer ty info = encode 1152 NetworkInfo_to_bytes buffer ty info"

subsection \<open>Decoder\<close>

definition has_header :: "nat \<Rightarrow> bool" where
  "has_header buffer_size \<longleftrightarrow> buffer_size \<ge> 12"

definition decode_header :: "byte list \<Rightarrow> DecodeResult \<times> LdnHeader option" where
  "decode_header buffer =
     (if length buffer < 12 then (DecodeResult.BufferTooSmall, None)
      else let header = LdnHeader_of_bytes (take 12 buffer) in
        if hdr_magic header \<noteq> PROTOCOL_MAGIC then (DecodeResult.InvalidMagic, Some header)
        else if hdr_version header \<noteq> PROTOCOL_VERSION then (DecodeResult.InvalidVersion, Some header)
        else if sint (hdr_data_size header) < 0 \<or> nat (sint (hdr_data_size header)) > MAX_PACKET_SIZE
          then (DecodeResult.PacketTooLarge, Some header)
        else (DecodeResult.Success, Some header))"

definition check_complete_packet :: "byte list \<Rightarrow> DecodeResult \<times> nat" where
  "check_complete_packet buffer =
     (case decode_header buffer of
        (DecodeResult.Success, Some header) \<Rightarrow>
          (let packet_size = 12 + nat (sint (hdr_data_size header)) in
           if length buffer < packet_size then (DecodeResult.IncompletePacket, packet_size)
           else (DecodeResult.Success, packet_size))
      | (result, _) \<Rightarrow> (result, 0))"

definition get_packet_type :: "byte list \<Rightarrow> PacketId" where
  "get_packet_type buffer = packet_id_cast (hdr_type (LdnHeader_of_bytes (take 12 buffer)))"

definition get_payload_size :: "byte list \<Rightarrow> int" where
  "get_payload_size buffer = sint (hdr_data_size (LdnHeader_of_bytes (take 12 buffer)))"

definition get_payload_ptr :: "byte list \<Rightarrow> byte list" where
  "get_payload_ptr buffer = drop 12 buffer"

definition decode ::
  "nat \<Rightarrow> (byte list \<Rightarrow> 't) \<Rightarrow> byte list \<Rightarrow> DecodeResult \<times> LdnHeader option \<times> 't option" where
  "decode sizeof_T of_bytes buffer =
     (case decode_header buffer of
        (DecodeResult.Success, header) \<Rightarrow>
          (if length buffer < 12 + sizeof_T then (DecodeResult.BufferTooSmall, header, None)
           else (DecodeResult.Success, header, Some (of_bytes (slice 12 sizeof_T buffer))))
      | (result, header) \<Rightarrow> (result, header, None))"

definition decode_with_data ::
  "nat \<Rightarrow> (byte list \<Rightarrow> 't) \<Rightarrow> byte list \<Rightarrow>
    DecodeResult \<times> LdnHeader option \<times> 't option \<times> byte list option \<times> nat" where
  "decode_with_data sizeof_T of_bytes buffer =
     (case decode_header buffer of
        (DecodeResult.Success, Some header) \<Rightarrow>
          (if length buffer < 12 + sizeof_T then (DecodeResult.BufferTooSmall, Some header, None, None, 0)
           else
             let payload = of_bytes (slice 12 sizeof_T buffer);
                 total_payload = nat (sint (hdr_data_size header))
             in if total_payload > sizeof_T
                then if length buffer < 12 + total_payload
                     then (DecodeResult.IncompletePacket, Some header, Some payload, None, 0)
                     else (DecodeResult.Success, Some header, Some payload,
                           Some (slice (12 + sizeof_T) (total_payload - sizeof_T) buffer),
                           total_payload - sizeof_T)
                else (DecodeResult.Success, Some header, Some payload, None, 0))
      | (result, header) \<Rightarrow> (result, header, None, None, 0))"

definition decode_raw ::
  "byte list \<Rightarrow> DecodeResult \<times> LdnHeader option \<times> byte list option \<times> nat" where
  "decode_raw buffer =
     (case decode_header buffer of
        (DecodeResult.Success, Some header) \<Rightarrow>
          (let data_size = nat (sint (hdr_data_size header)) in
           if length buffer < 12 + data_size then (DecodeResult.IncompletePacket, Some header, None, 0)
           else (DecodeResult.Success, Some header,
                 (if data_size > 0 then Some (slice 12 data_size buffer) else None), data_size))
      | (result, header) \<Rightarrow> (result, header, None, 0))"

subsection \<open>Convenience decoders\<close>

definition decode_initialize where
  "decode_initialize = decode 22 InitializeMessage_of_bytes"
definition decode_passphrase where
  "decode_passphrase = decode 128 PassphraseMessage_of_bytes"
definition decode_ping where
  "decode_ping = decode 2 PingMessage_of_bytes"
definition decode_disconnect where
  "decode_disconnect = decode 4 DisconnectMessage_of_bytes"
definition decode_network_info where
  "decode_network_info = decode 1152 NetworkInfo_of_bytes"
definition decode_scan where
  "decode_scan = decode 96 ScanFilterFull_of_bytes"
definition decode_connect where
  "decode_connect = decode 1280 ConnectRequest_of_bytes"
definition decode_create_access_point where
  "decode_create_access_point = decode_with_data 188 CreateAccessPointRequest_of_bytes"
definition decode_set_accept_policy where
  "decode_set_accept_policy = decode 1 SetAcceptPolicyRequest_of_bytes"
definition decode_set_advertise_data where
  "decode_set_advertise_data = decode_raw"
definition decode_proxy_data where
  "decode_proxy_data = decode_with_data 20 ProxyDataHeader_of_bytes"
definition decode_proxy_connect where
  "decode_proxy_connect = decode 16 ProxyConnectRequest_of_bytes"
definition decode_proxy_connect_reply where
  "decode_proxy_connect_reply = decode 16 ProxyConnectResponse_of_bytes"
definition decode_proxy_disconnect where
  "decode_proxy_disconnect = decode 20 ProxyDisconnectMessage_of_bytes"
definition decode_reject where
  "decode_reject = decode 8 RejectRequest_of_bytes"

subsection \<open>The wire format of a packet\<close>

text \<open>
  The specification the encoders refine: a packet is its header followed by its payload.
\<close>

definition packet :: "PacketId \<Rightarrow> byte list \<Rightarrow> byte list" where
  "packet ty payload = LdnHeader_to_bytes (make_header ty (word_of_nat (length payload))) @ payload"

lemma length_header [simp]: "length (LdnHeader_to_bytes h) = 12"
  by (rule LdnHeader_wire.len_to) (simp add: wf_LdnHeader_def)

lemma header_of_to [simp]: "LdnHeader_of_bytes (LdnHeader_to_bytes h) = h"
  by (rule LdnHeader_wire.of_to) (simp add: wf_LdnHeader_def)

lemma length_packet [simp]: "length (packet ty d) = 12 + length d"
  by (simp add: packet_def)

lemma drop_packet: "drop 12 (packet ty d @ rest) = d @ rest"
  by (simp add: packet_def)

lemma sint_small: "n < 2147483648 \<Longrightarrow> sint (word_of_nat n :: u32) = int n"
  by (simp add: signed_of_nat signed_take_bit_int_eq_self)

lemma memcpy_header:
  "12 \<le> length buffer \<Longrightarrow>
    memcpy (memcpy buffer 0 (LdnHeader_to_bytes h)) 12 xs = memcpy buffer 0 (LdnHeader_to_bytes h @ xs)"
  using memcpy_memcpy [of "LdnHeader_to_bytes h" buffer xs] by simp

lemma memcpy_extend:
  assumes "length a \<le> length buffer" and "length a = n"
  shows "memcpy (memcpy buffer 0 a) n b = memcpy buffer 0 (a @ b)"
  using memcpy_memcpy [of a buffer b] assms by simp

lemma encode_empty_ok:
  "12 \<le> length buffer \<Longrightarrow>
    encode_empty buffer ty = (EncodeResult.Success, memcpy buffer 0 (packet ty []), 12)"
  by (simp add: encode_empty_def encode_header_def packet_def)

lemma encode_raw_ok:
  "12 + length d \<le> length buffer \<Longrightarrow>
    encode_raw buffer ty (Some d) (length d) =
      (EncodeResult.Success, memcpy buffer 0 (packet ty d), 12 + length d)"
  by (simp add: encode_raw_def encode_header_def Let_def memcpy_header packet_def)

lemma encode_ok:
  "length (to_b x) = n \<Longrightarrow> 12 + n \<le> length buffer \<Longrightarrow>
    encode n to_b buffer ty x = (EncodeResult.Success, memcpy buffer 0 (packet ty (to_b x)), 12 + n)"
  by (simp add: encode_def encode_header_def get_packet_size_def Let_def memcpy_header packet_def)

lemma encode_with_data_ok:
  assumes "length (to_b x) = n" and "12 + n + length d \<le> length buffer"
  shows "encode_with_data n to_b buffer ty x (Some d) (length d) =
      (EncodeResult.Success, memcpy buffer 0 (packet ty (to_b x @ d)), 12 + n + length d)"
proof -
  let ?h = "LdnHeader_to_bytes (make_header ty (word_of_nat (n + length d)))"
  have "memcpy (memcpy buffer 0 (?h @ to_b x)) (12 + n) d = memcpy buffer 0 ((?h @ to_b x) @ d)"
    using assms by (intro memcpy_extend) simp_all
  then show ?thesis
    using assms by (auto simp: encode_with_data_def encode_header_def Let_def memcpy_header packet_def)
qed

lemmas encoders_ok = encode_empty_ok encode_raw_ok encode_ok encode_with_data_ok

text \<open>What each decoder sees on a well-formed packet, whatever follows it in the buffer.\<close>

lemma decode_header_packet:
  assumes "length d \<le> MAX_PACKET_SIZE"
  shows "decode_header (packet ty d @ rest) =
    (DecodeResult.Success, Some (make_header ty (word_of_nat (length d))))"
  using assms by (simp add: decode_header_def packet_def make_header_def MAX_PACKET_SIZE_def sint_small Let_def)

lemma payload_size_packet:
  "length d \<le> MAX_PACKET_SIZE \<Longrightarrow>
    nat (sint (hdr_data_size (make_header ty (word_of_nat (length d))))) = length d"
  by (simp add: make_header_def MAX_PACKET_SIZE_def sint_small)

lemma check_complete_packet_packet:
  "length d \<le> MAX_PACKET_SIZE \<Longrightarrow>
    check_complete_packet (packet ty d @ rest) = (DecodeResult.Success, 12 + length d)"
  by (simp add: check_complete_packet_def decode_header_packet payload_size_packet Let_def)

lemma get_packet_type_packet: "get_packet_type (packet ty d @ rest) = packet_id_cast (packet_id_byte ty)"
  by (simp add: get_packet_type_def packet_def make_header_def)

lemma slice_packet: "slice 12 n (packet ty d @ rest) = take n (d @ rest)"
  by (simp add: slice_def packet_def)

lemma slice_packet_tail: "slice (12 + k) n (packet ty d @ rest) = slice k n (d @ rest)"
  by (simp add: slice_def packet_def)

lemma decode_raw_packet:
  assumes "length d \<le> MAX_PACKET_SIZE"
  shows "decode_raw (packet ty d @ rest) =
    (DecodeResult.Success, Some (make_header ty (word_of_nat (length d))),
     (if d = [] then None else Some d), length d)"
  using assms
  by (simp add: decode_raw_def decode_header_packet payload_size_packet Let_def slice_packet)

text \<open>A prefix of a packet that holds the header already decides the packet's size.\<close>

lemma decode_header_take:
  assumes "12 \<le> length b"
  shows "decode_header (b @ c) = decode_header b"
  using assms by (simp add: decode_header_def)

lemma check_complete_prefix:
  assumes "length d \<le> MAX_PACKET_SIZE" and "packet ty d = b @ c" and "c \<noteq> []"
  shows "fst (check_complete_packet b) \<noteq> DecodeResult.Success"
proof (cases "12 \<le> length b")
  case True
  have len: "12 + length d = length b + length c"
    using assms(2) length_packet [of ty d] by simp
  have "decode_header b = (DecodeResult.Success, Some (make_header ty (word_of_nat (length d))))"
    using decode_header_take [OF True, of c] decode_header_packet [OF assms(1), of ty "[]"] assms(2)
    by simp
  moreover have "length b < 12 + length d"
    using len assms(3) by (cases c) auto
  ultimately show ?thesis
    using assms(1) by (simp add: check_complete_packet_def payload_size_packet Let_def)
next
  case False
  then show ?thesis
    by (simp add: check_complete_packet_def decode_header_def)
qed

context wire_struct
begin

lemma decode_packet:
  assumes "wf x" and "sizeof \<le> MAX_PACKET_SIZE"
  shows "decode sizeof of_bytes (packet ty (to_bytes x) @ rest) =
    (DecodeResult.Success, Some (make_header ty (word_of_nat sizeof)), Some x)"
proof -
  have "decode_header (packet ty (to_bytes x) @ rest) =
      (DecodeResult.Success, Some (make_header ty (word_of_nat sizeof)))"
    using decode_header_packet [of "to_bytes x" ty rest] assms len_to by simp
  then show ?thesis
    using assms by (simp add: decode_def len_to of_to slice_packet)
qed

lemma decode_with_data_packet:
  assumes "wf x" and "sizeof + length d \<le> MAX_PACKET_SIZE"
  shows "decode_with_data sizeof of_bytes (packet ty (to_bytes x @ d) @ rest) =
    (DecodeResult.Success, Some (make_header ty (word_of_nat (sizeof + length d))), Some x,
     (if d = [] then None else Some d), length d)"
proof -
  have dh: "decode_header (packet ty (to_bytes x @ d) @ rest) =
      (DecodeResult.Success, Some (make_header ty (word_of_nat (sizeof + length d))))"
    using decode_header_packet [of "to_bytes x @ d" ty rest] assms len_to by simp
  moreover have "nat (sint (hdr_data_size (make_header ty (word_of_nat (sizeof + length d))))) = sizeof + length d"
    using payload_size_packet [of "to_bytes x @ d" ty] assms len_to by simp
  moreover have "slice (12 + sizeof) (length d) (packet ty (to_bytes x @ d) @ rest) = d"
    using assms by (simp add: slice_packet_tail len_to slice_append_right slice_prefix)
  moreover have "slice 12 sizeof (packet ty (to_bytes x @ d) @ rest) = to_bytes x"
    using assms by (simp add: slice_packet len_to)
  ultimately show ?thesis
    using assms by (simp add: decode_with_data_def len_to of_to)
qed

end

subsection \<open>Properties\<close>

text \<open>The struct an encoder was given is what the decoder returns, from the bytes it wrote.\<close>

definition decodes_to ::
  "encoded \<Rightarrow> (byte list \<Rightarrow> DecodeResult \<times> LdnHeader option \<times> 't option) \<Rightarrow> 't \<Rightarrow> bool" where
  "decodes_to enc dec x \<longleftrightarrow>
     (case enc of (r, b, n) \<Rightarrow> r = EncodeResult.Success \<and>
        (case dec (take n b) of (r', h, y) \<Rightarrow> r' = DecodeResult.Success \<and> h \<noteq> None \<and> y = Some x))"

lemma take_memcpy_packet: "take (12 + length d) (memcpy buffer 0 (packet ty d)) = packet ty d"
  using take_memcpy_0 [of "packet ty d" buffer] by simp

context wire_struct
begin

lemma encode_decodes_to:
  assumes "wf x" and "sizeof \<le> MAX_PACKET_SIZE" and "12 + sizeof \<le> length buffer"
  shows "decodes_to (encode sizeof to_bytes buffer ty x) (decode sizeof of_bytes) x"
  using decode_packet [OF assms(1,2), of ty "[]"] take_memcpy_packet [of "to_bytes x" buffer ty]
    encode_ok [of to_bytes x sizeof buffer ty] len_to [OF assms(1)] assms(3)
  by (simp add: decodes_to_def)

end

text \<open>
  A network description that was encoded successfully, with whatever follows it in the
  receive buffer, decodes to the same description and to the header that announces 1152 bytes.
\<close>

theorem network_info_roundtrip:
  assumes "wf_NetworkInfo info" and "encode_network_info buffer ty info = (EncodeResult.Success, b, n)"
  shows "decode_network_info (take n b @ rest) =
    (DecodeResult.Success, Some (make_header ty 1152), Some info)"
proof -
  have fits: "12 + 1152 \<le> length buffer"
    using assms(2) by (auto simp: encode_network_info_def encode_def get_packet_size_def Let_def split: if_splits)
  have len: "length (NetworkInfo_to_bytes info) = 1152"
    by (rule NetworkInfo_wire.len_to [OF assms(1)])
  have "take n b = packet ty (NetworkInfo_to_bytes info)"
    using assms(2) fits len take_memcpy_packet [of "NetworkInfo_to_bytes info" buffer ty]
    by (simp add: encode_network_info_def encode_ok)
  then show ?thesis
    using NetworkInfo_wire.decode_packet [OF assms(1), of ty rest]
    by (simp add: decode_network_info_def MAX_PACKET_SIZE_def)
qed

theorem network_info_roundtrip_witness:
  "let info = NetworkInfo_of_bytes (replicate 1152 7);
       (r, b, n) = encode_network_info (replicate 2048 0) PacketId.SyncNetwork info
   in r = EncodeResult.Success \<and> n = 1164 \<and>
      decode_network_info (take n b @ [1, 2, 3]) =
        (DecodeResult.Success, Some (make_header PacketId.SyncNetwork 1152), Some info)"
proof -
  let ?i = "NetworkInfo_of_bytes (replicate 1152 7)"
  have wf: "wf_NetworkInfo ?i"
    by (rule NetworkInfo_wire.wf_of) simp
  have e: "encode_network_info (replicate 2048 0) PacketId.SyncNetwork ?i =
      (EncodeResult.Success, memcpy (replicate 2048 0) 0 (packet PacketId.SyncNetwork (NetworkInfo_to_bytes ?i)), 1164)"
    using NetworkInfo_wire.len_to [OF wf] by (simp add: encode_network_info_def encode_ok)
  show ?thesis
    using network_info_roundtrip [OF wf e, of "[1, 2, 3]"] e by simp
qed

text \<open>
  Game traffic survives the proxy framing: the decoder returns the address block, the
  length field and exactly the payload bytes that were encoded.
\<close>

theorem proxy_data_roundtrip:
  assumes "encode_proxy_data buffer info (Some d) (length d) = (EncodeResult.Success, b, n)"
    and "20 + length d \<le> MAX_PACKET_SIZE"
  shows "decode_proxy_data (take n b @ rest) =
    (DecodeResult.Success, Some (make_header PacketId.ProxyData (word_of_nat (20 + length d))),
     Some \<lparr>pdh_info = info, pdh_data_length = word_of_nat (length d)\<rparr>,
     (if d = [] then None else Some d), length d)"
proof -
  let ?h = "\<lparr>pdh_info = info, pdh_data_length = word_of_nat (length d)\<rparr>"
  have wf: "wf_ProxyDataHeader ?h"
    by (simp add: wf_ProxyDataHeader_def wf_ProxyInfo_def)
  note len = ProxyDataHeader_wire.len_to [OF wf]
  have fits: "12 + 20 + length d \<le> length buffer"
    using assms(1) by (auto simp: encode_proxy_data_def encode_with_data_def Let_def split: if_splits)
  have "take n b = packet PacketId.ProxyData (ProxyDataHeader_to_bytes ?h @ d)"
    using assms(1) encode_with_data_ok [where to_b = ProxyDataHeader_to_bytes, OF len fits, of PacketId.ProxyData]
      take_memcpy_packet [of "ProxyDataHeader_to_bytes ?h @ d" buffer PacketId.ProxyData] len
    by (auto simp: encode_proxy_data_def)
  then show ?thesis
    using ProxyDataHeader_wire.decode_with_data_packet [OF wf assms(2), of PacketId.ProxyData rest]
    by (simp add: decode_proxy_data_def)
qed

theorem proxy_data_roundtrip_witness:
  "let info = ProxyInfo_of_bytes (replicate 16 9);
       (r, b, n) = encode_proxy_data (replicate 64 0) info (Some [10, 20, 30]) 3
   in r = EncodeResult.Success \<and> n = 35 \<and>
      decode_proxy_data (take n b @ [77]) =
        (DecodeResult.Success, Some (make_header PacketId.ProxyData 23),
         Some \<lparr>pdh_info = info, pdh_data_length = 3\<rparr>, Some [10, 20, 30], 3)"
proof -
  let ?i = "ProxyInfo_of_bytes (replicate 16 9)"
  let ?h = "\<lparr>pdh_info = ?i, pdh_data_length = 3\<rparr>"
  have len: "length (ProxyDataHeader_to_bytes ?h) = 20"
    by (rule ProxyDataHeader_wire.len_to) (simp add: wf_ProxyDataHeader_def wf_ProxyInfo_def)
  obtain b where e: "encode_proxy_data (replicate 64 0) ?i (Some [10, 20, 30]) (length [10, 20, 30 :: byte]) =
      (EncodeResult.Success, b, 35)"
    using encode_with_data_ok [where to_b = ProxyDataHeader_to_bytes, OF len, of "[10, 20, 30]" "replicate 64 0" PacketId.ProxyData]
    by (simp add: encode_proxy_data_def)
  show ?thesis
    using proxy_data_roundtrip [OF e, of "[77]"] e by (simp add: MAX_PACKET_SIZE_def numeral_3_eq_3)
qed

text \<open>
  the control messages of a session (initialize, passphrase, ping, disconnect, scan, connect,
  accept policy) all fit the 2048-byte send buffer and decode to what was encoded.
\<close>

theorem control_messages_roundtrip:
  assumes "2048 \<le> length buffer" and "wf_SessionId sid" and "wf_MacAddress mac"
    and "wf_ScanFilterFull flt" and "wf_ConnectRequest request" and "n \<le> length pass"
  shows "decodes_to (encode_initialize buffer sid mac) decode_initialize \<lparr>init_id = sid, init_mac_address = mac\<rparr> \<and>
    decodes_to (encode_passphrase buffer (Some pass) n) decode_passphrase (make_passphrase (Some pass) n) \<and>
    decodes_to (encode_ping buffer requester ident) decode_ping \<lparr>ping_requester = requester, ping_id = ident\<rparr> \<and>
    decodes_to (encode_disconnect buffer ip) decode_disconnect \<lparr>disc_disconnect_ip = ip\<rparr> \<and>
    decodes_to (encode_scan buffer flt) decode_scan flt \<and>
    decodes_to (encode_connect buffer request) decode_connect request \<and>
    decodes_to (encode_set_accept_policy buffer policy) decode_set_accept_policy \<lparr>sapr_accept_policy = policy\<rparr>"
proof -
  have "wf_PassphraseMessage (make_passphrase (Some pass) n)"
    using assms(6) by (simp add: make_passphrase_def wf_PassphraseMessage_def bytes_wf_def Let_def)
  then show ?thesis
    using assms
      InitializeMessage_wire.encode_decodes_to [of "\<lparr>init_id = sid, init_mac_address = mac\<rparr>" buffer]
      PassphraseMessage_wire.encode_decodes_to [of "make_passphrase (Some pass) n" buffer]
      PingMessage_wire.encode_decodes_to [of "\<lparr>ping_requester = requester, ping_id = ident\<rparr>" buffer]
      DisconnectMessage_wire.encode_decodes_to [of "\<lparr>disc_disconnect_ip = ip\<rparr>" buffer]
      ScanFilterFull_wire.encode_decodes_to [of flt buffer]
      ConnectRequest_wire.encode_decodes_to [of request buffer]
      SetAcceptPolicyRequest_wire.encode_decodes_to [of "\<lparr>sapr_accept_policy = policy\<rparr>" buffer]
    by (simp add: encode_initialize_def decode_initialize_def encode_passphrase_def decode_passphrase_def
        encode_ping_def decode_ping_def encode_disconnect_def decode_disconnect_def encode_scan_def
        decode_scan_def encode_connect_def decode_connect_def encode_set_accept_policy_def
        decode_set_accept_policy_def MAX_PACKET_SIZE_def wf_InitializeMessage_def wf_PingMessage_def
        wf_DisconnectMessage_def wf_SetAcceptPolicyRequest_def)
qed

theorem control_messages_roundtrip_witness:
  "let buffer = replicate 2048 0 :: byte list; sid = SessionId_of_bytes (replicate 16 1);
       mac = MacAddress_of_bytes (replicate 6 2); flt = ScanFilterFull_of_bytes (replicate 96 3);
       request = ConnectRequest_of_bytes (replicate 1280 4)
   in decodes_to (encode_initialize buffer sid mac) decode_initialize \<lparr>init_id = sid, init_mac_address = mac\<rparr> \<and>
      decodes_to (encode_scan buffer flt) decode_scan flt \<and>
      decodes_to (encode_connect buffer request) decode_connect request"
proof -
  have "wf_SessionId (SessionId_of_bytes (replicate 16 1))" "wf_MacAddress (MacAddress_of_bytes (replicate 6 2))"
    "wf_ScanFilterFull (ScanFilterFull_of_bytes (replicate 96 3))"
    "wf_ConnectRequest (ConnectRequest_of_bytes (replicate 1280 4))"
    by (simp_all add: SessionId_wire.wf_of MacAddress_wire.wf_of ScanFilterFull_wire.wf_of ConnectRequest_wire.wf_of)
  then show ?thesis
    using control_messages_roundtrip [of "replicate 2048 0" "SessionId_of_bytes (replicate 16 1)"
        "MacAddress_of_bytes (replicate 6 2)" "ScanFilterFull_of_bytes (replicate 96 3)"
        "ConnectRequest_of_bytes (replicate 1280 4)" 1 "[65]" 1 2 3 0]
    by (simp add: Let_def)
qed

text \<open>
  The header decoder accepts exactly the byte strings that begin with the image of a header
  with the protocol's magic number and version and a size in range.
\<close>

theorem decode_header_accepts:
  "decode_header b = (DecodeResult.Success, Some h) \<longleftrightarrow>
     (\<exists>rest. b = LdnHeader_to_bytes h @ rest) \<and> hdr_magic h = PROTOCOL_MAGIC \<and>
     hdr_version h = PROTOCOL_VERSION \<and> 0 \<le> sint (hdr_data_size h) \<and>
     sint (hdr_data_size h) \<le> int MAX_PACKET_SIZE"
proof -
  have image: "(\<exists>rest. b = LdnHeader_to_bytes h @ rest) \<longleftrightarrow> 12 \<le> length b \<and> LdnHeader_of_bytes (take 12 b) = h"
  proof
    assume "12 \<le> length b \<and> LdnHeader_of_bytes (take 12 b) = h"
    then have "LdnHeader_to_bytes h = take 12 b"
      using LdnHeader_wire.to_of [of "take 12 b"] by simp
    then show "\<exists>rest. b = LdnHeader_to_bytes h @ rest"
      by (metis append_take_drop_id)
  qed auto
  show ?thesis
    unfolding image by (auto simp: decode_header_def Let_def split: if_splits)
qed

end
