(* ===== verification/Packet_Buffer.thy ===== *)
theory Packet_Buffer
  imports Ryu_Protocol
begin

text \<open>
  The TCP reassembly buffer of \<^verbatim>\<open>protocol/packet_buffer.hpp\<close>: a fixed array and a write
  position. \<open>m_buffer\<close> is the array (its length is the template argument
  \<^verbatim>\<open>BufferSize\<close>), \<open>pb_contents\<close> the bytes received and not yet consumed. The contract
  \<open>stream_buffer\<close> says the buffer is a bounded byte queue.
\<close>

datatype BufferResult = Success | BufferFull | NoCompletePacket | PacketTooLarge | InvalidPacket

record PacketBuffer =
  m_buffer :: "byte list"
  m_write_pos :: nat

definition pb_new :: "byte list \<Rightarrow> PacketBuffer" where
  "pb_new uninitialized = \<lparr>m_buffer = uninitialized, m_write_pos = 0\<rparr>"

definition pb_reset :: "PacketBuffer \<Rightarrow> PacketBuffer" where
  "pb_reset b = b\<lparr>m_write_pos := 0\<rparr>"

definition pb_size :: "PacketBuffer \<Rightarrow> nat" where
  "pb_size b = m_write_pos b"

definition pb_empty :: "PacketBuffer \<Rightarrow> bool" where
  "pb_empty b \<longleftrightarrow> m_write_pos b = 0"

definition pb_capacity :: "PacketBuffer \<Rightarrow> nat" where
  "pb_capacity b = length (m_buffer b)"

definition pb_available :: "PacketBuffer \<Rightarrow> nat" where
  "pb_available b = pb_capacity b - m_write_pos b"

text \<open>What a pair of \<^verbatim>\<open>m_buffer\<close> and \<^verbatim>\<open>m_write_pos\<close> passed to the decoder denotes.\<close>

definition pb_contents :: "PacketBuffer \<Rightarrow> byte list" where
  "pb_contents b = take (m_write_pos b) (m_buffer b)"

definition pb_append :: "PacketBuffer \<Rightarrow> byte list \<Rightarrow> BufferResult \<times> PacketBuffer" where
  "pb_append b data =
     (if length data = 0 then (BufferResult.Success, b)
      else if length data > pb_available b then (BufferResult.BufferFull, b)
      else (BufferResult.Success,
            b\<lparr>m_buffer := memcpy (m_buffer b) (m_write_pos b) data,
              m_write_pos := m_write_pos b + length data\<rparr>))"

definition pb_has_complete_packet :: "PacketBuffer \<Rightarrow> bool" where
  "pb_has_complete_packet b \<longleftrightarrow>
     (if m_write_pos b < 12 then False
      else fst (check_complete_packet (pb_contents b)) = DecodeResult.Success)"

definition pb_peek_packet_info :: "PacketBuffer \<Rightarrow> BufferResult \<times> nat" where
  "pb_peek_packet_info b =
     (if m_write_pos b < 12 then (BufferResult.NoCompletePacket, 0)
      else case check_complete_packet (pb_contents b) of (result, packet_size) \<Rightarrow>
        (case result of
           DecodeResult.Success \<Rightarrow> (BufferResult.Success, packet_size)
         | DecodeResult.IncompletePacket \<Rightarrow> (BufferResult.NoCompletePacket, packet_size)
         | DecodeResult.BufferTooSmall \<Rightarrow> (BufferResult.NoCompletePacket, packet_size)
         | DecodeResult.PacketTooLarge \<Rightarrow> (BufferResult.PacketTooLarge, packet_size)
         | DecodeResult.InvalidMagic \<Rightarrow> (BufferResult.InvalidPacket, packet_size)
         | DecodeResult.InvalidVersion \<Rightarrow> (BufferResult.InvalidPacket, packet_size)))"

definition pb_peek_packet :: "PacketBuffer \<Rightarrow> byte list option \<times> nat" where
  "pb_peek_packet b =
     (case pb_peek_packet_info b of
        (BufferResult.Success, packet_size) \<Rightarrow> (Some (m_buffer b), packet_size)
      | _ \<Rightarrow> (None, 0))"

definition pb_peek_packet_type :: "PacketBuffer \<Rightarrow> PacketId" where
  "pb_peek_packet_type b =
     (if m_write_pos b < 12 then PacketId.Initialize
      else case decode_header (pb_contents b) of
        (DecodeResult.Success, Some header) \<Rightarrow> packet_id_cast (hdr_type header)
      | _ \<Rightarrow> PacketId.Initialize)"

definition pb_consume :: "PacketBuffer \<Rightarrow> nat \<Rightarrow> PacketBuffer" where
  "pb_consume b n =
     (if n = 0 then b
      else if n \<ge> m_write_pos b then b\<lparr>m_write_pos := 0\<rparr>
      else let remaining = m_write_pos b - n in
        b\<lparr>m_buffer := memcpy (m_buffer b) 0 (slice n remaining (m_buffer b)),
          m_write_pos := remaining\<rparr>)"

definition pb_extract_packet ::
  "PacketBuffer \<Rightarrow> byte list \<Rightarrow> BufferResult \<times> byte list \<times> nat \<times> PacketBuffer" where
  "pb_extract_packet b out_buffer =
     (case pb_peek_packet_info b of
        (BufferResult.Success, packet_size) \<Rightarrow>
          (if length out_buffer < packet_size then (BufferResult.BufferFull, out_buffer, packet_size, b)
           else (BufferResult.Success, memcpy out_buffer 0 (take packet_size (m_buffer b)),
                 packet_size, pb_consume b packet_size))
      | (result, packet_size) \<Rightarrow> (result, out_buffer, packet_size, b))"

function pb_discard_until_valid :: "PacketBuffer \<Rightarrow> nat \<Rightarrow> nat \<times> PacketBuffer" where
  "pb_discard_until_valid b discarded =
     (if m_write_pos b \<ge> 12 then
        (let result = fst (decode_header (pb_contents b)) in
         if result = DecodeResult.Success \<or> result = DecodeResult.IncompletePacket
         then (discarded, b)
         else pb_discard_until_valid (pb_consume b 1) (discarded + 1))
      else (discarded, b))"
  by pat_completeness auto
termination
  by (relation "measure (\<lambda>(b, d). m_write_pos b)") (auto simp: pb_consume_def Let_def)

declare pb_discard_until_valid.simps [simp del]

text \<open>
  \<^verbatim>\<open>advance_write\<close> adds two \<^verbatim>\<open>size_t\<close> values before it compares, so the sum is taken
  modulo \<open>2 ^ 64\<close>. \<open>pb_recv_direct\<close> is the documented use: write at \<^verbatim>\<open>write_ptr\<close>, then
  advance.
\<close>

definition pb_advance_write :: "PacketBuffer \<Rightarrow> nat \<Rightarrow> PacketBuffer" where
  "pb_advance_write b n =
     (let pos = (m_write_pos b + n) mod 2 ^ 64 in
      if pos \<le> pb_capacity b then b\<lparr>m_write_pos := pos\<rparr> else b)"

definition pb_recv_direct :: "PacketBuffer \<Rightarrow> byte list \<Rightarrow> PacketBuffer" where
  "pb_recv_direct b data =
     pb_advance_write (b\<lparr>m_buffer := memcpy (m_buffer b) (m_write_pos b) data\<rparr>) (length data)"

subsection \<open>The invariant and the abstraction\<close>

definition pb_inv :: "PacketBuffer \<Rightarrow> bool" where
  "pb_inv b \<longleftrightarrow> m_write_pos b \<le> pb_capacity b"

lemma length_contents: "pb_inv b \<Longrightarrow> length (pb_contents b) = m_write_pos b"
  by (simp add: pb_inv_def pb_contents_def pb_capacity_def)

lemma pb_new_inv: "pb_inv (pb_new u)"
  by (simp add: pb_new_def pb_inv_def)

lemma pb_new_contents [simp]: "pb_contents (pb_new u) = []"
  by (simp add: pb_new_def pb_contents_def)

lemma pb_reset_simps [simp]:
  "pb_contents (pb_reset b) = []" "pb_inv (pb_reset b)" "pb_capacity (pb_reset b) = pb_capacity b"
  by (simp_all add: pb_reset_def pb_contents_def pb_inv_def pb_capacity_def)

lemma pb_append_ok:
  assumes "pb_inv b" and "length (pb_contents b) + length d \<le> pb_capacity b"
  shows "\<exists>b'. pb_append b d = (BufferResult.Success, b') \<and> pb_inv b' \<and>
    pb_contents b' = pb_contents b @ d \<and> pb_capacity b' = pb_capacity b"
proof (cases "d = []")
  case True
  then show ?thesis
    using assms by (simp add: pb_append_def)
next
  case False
  have fits: "m_write_pos b + length d \<le> length (m_buffer b)"
    using assms by (simp add: length_contents pb_capacity_def)
  let ?b' = "b\<lparr>m_buffer := memcpy (m_buffer b) (m_write_pos b) d, m_write_pos := m_write_pos b + length d\<rparr>"
  have "pb_append b d = (BufferResult.Success, ?b')"
    using False fits by (simp add: pb_append_def pb_available_def pb_capacity_def)
  moreover have "pb_contents ?b' = pb_contents b @ d"
    using fits by (simp add: pb_contents_def take_memcpy)
  ultimately show ?thesis
    using fits by (simp add: pb_inv_def pb_capacity_def)
qed

lemma pb_append_full:
  assumes "pb_inv b" and "pb_capacity b < length (pb_contents b) + length d"
  shows "pb_append b d = (BufferResult.BufferFull, b)"
  using assms by (simp add: pb_append_def pb_available_def length_contents)
    (auto simp: pb_inv_def)

lemma pb_consume_contents:
  assumes "pb_inv b"
  shows "pb_contents (pb_consume b n) = drop n (pb_contents b)"
proof (cases "0 < n \<and> n < m_write_pos b")
  case True
  then show ?thesis
    using assms
    by (simp add: pb_consume_def Let_def pb_contents_def pb_inv_def pb_capacity_def memcpy_def
        slice_def take_drop min_def)
next
  case False
  then show ?thesis
    using assms length_contents [OF assms] by (auto simp: pb_consume_def pb_contents_def)
qed

lemma pb_consume_inv: "pb_inv b \<Longrightarrow> pb_inv (pb_consume b n)"
  by (auto simp: pb_inv_def pb_consume_def pb_capacity_def Let_def memcpy_def)

lemma pb_consume_capacity: "pb_inv b \<Longrightarrow> pb_capacity (pb_consume b n) = pb_capacity b"
  by (simp add: pb_inv_def pb_consume_def pb_capacity_def Let_def memcpy_def)

lemma pb_advance_write_inv: "pb_inv b \<Longrightarrow> pb_inv (pb_advance_write b n)"
  by (simp add: pb_inv_def pb_advance_write_def pb_capacity_def Let_def)

subsection \<open>The contract: a bounded byte queue\<close>

locale stream_buffer =
  fixes contents :: "'b \<Rightarrow> byte list"
    and inv :: "'b \<Rightarrow> bool"
    and capacity :: "'b \<Rightarrow> nat"
    and append :: "'b \<Rightarrow> byte list \<Rightarrow> BufferResult \<times> 'b"
    and consume :: "'b \<Rightarrow> nat \<Rightarrow> 'b"
  assumes append_fits: "inv b \<Longrightarrow> length (contents b) + length d \<le> capacity b \<Longrightarrow>
      \<exists>b'. append b d = (BufferResult.Success, b') \<and> inv b' \<and>
        contents b' = contents b @ d \<and> capacity b' = capacity b"
    and append_overflow: "inv b \<Longrightarrow> capacity b < length (contents b) + length d \<Longrightarrow>
      append b d = (BufferResult.BufferFull, b)"
    and consume_contents: "inv b \<Longrightarrow> contents (consume b n) = drop n (contents b)"
    and consume_inv: "inv b \<Longrightarrow> inv (consume b n)"
    and consume_capacity: "inv b \<Longrightarrow> capacity (consume b n) = capacity b"
begin

lemma append_inv: "inv b \<Longrightarrow> inv (snd (append b d))"
  using append_fits [of b d] append_overflow [of b d]
  by (cases "length (contents b) + length d \<le> capacity b") auto

lemma append_capacity: "inv b \<Longrightarrow> capacity (snd (append b d)) = capacity b"
  using append_fits [of b d] append_overflow [of b d]
  by (cases "length (contents b) + length d \<le> capacity b") auto

lemma append_contents:
  "inv b \<Longrightarrow> contents (snd (append b d)) =
     (if length (contents b) + length d \<le> capacity b then contents b @ d else contents b)"
  using append_fits [of b d] append_overflow [of b d] by auto

lemma append_result:
  "inv b \<Longrightarrow> fst (append b d) = (if length (contents b) + length d \<le> capacity b
     then BufferResult.Success else BufferResult.BufferFull)"
  using append_fits [of b d] append_overflow [of b d] by auto

lemma append_then_consume:
  assumes "inv b" and "contents b = p @ q" and "length (contents b) + length d \<le> capacity b"
  shows "contents (consume (snd (append b d)) (length p)) = q @ d"
  using assms by (simp add: consume_contents append_inv append_contents)

end

interpretation pb: stream_buffer pb_contents pb_inv pb_capacity pb_append pb_consume
  by unfold_locales
    (simp_all add: pb_append_ok pb_append_full pb_consume_contents pb_consume_inv pb_consume_capacity)

subsection \<open>Runs of operations refine the byte queue\<close>

datatype pb_op = Append "byte list" | Consume nat | Reset | DiscardUntilValid

fun pb_step :: "PacketBuffer \<Rightarrow> pb_op \<Rightarrow> PacketBuffer" where
  "pb_step b (Append d) = snd (pb_append b d)"
| "pb_step b (Consume n) = pb_consume b n"
| "pb_step b Reset = pb_reset b"
| "pb_step b DiscardUntilValid = snd (pb_discard_until_valid b 0)"

text \<open>The specification: bytes before the first position that holds a valid header go.\<close>

fun resync :: "byte list \<Rightarrow> byte list" where
  "resync [] = []"
| "resync (x # xs) =
     (if length (x # xs) < 12 \<or> fst (decode_header (x # xs)) = DecodeResult.Success
      then x # xs else resync xs)"

fun queue_step :: "nat \<Rightarrow> byte list \<Rightarrow> pb_op \<Rightarrow> byte list" where
  "queue_step cap q (Append d) = (if length q + length d \<le> cap then q @ d else q)"
| "queue_step cap q (Consume n) = drop n q"
| "queue_step cap q Reset = []"
| "queue_step cap q DiscardUntilValid = resync q"

lemma decode_header_not_incomplete: "fst (decode_header b) \<noteq> DecodeResult.IncompletePacket"
  by (simp add: decode_header_def Let_def)

lemma pb_consume_write_pos: "pb_inv b \<Longrightarrow> m_write_pos (pb_consume b n) = m_write_pos b - n"
  by (simp add: pb_consume_def Let_def)

lemma discard_spec:
  "pb_inv b \<Longrightarrow>
    (let (n, b') = pb_discard_until_valid b k in
      pb_inv b' \<and> pb_capacity b' = pb_capacity b \<and> pb_contents b' = resync (pb_contents b) \<and>
      n = k + (length (pb_contents b) - length (pb_contents b')))"
proof (induction b k rule: pb_discard_until_valid.induct)
  case (1 b k)
  note len = length_contents [OF "1.prems"]
  show ?case
  proof (cases "m_write_pos b \<ge> 12 \<and> fst (decode_header (pb_contents b)) \<noteq> DecodeResult.Success")
    case True
    then obtain x xs where c: "pb_contents b = x # xs"
      using len by (cases "pb_contents b") auto
    have inv': "pb_inv (pb_consume b 1)"
      by (rule pb_consume_inv [OF "1.prems"])
    have "pb_contents (pb_consume b 1) = xs"
      using pb_consume_contents [OF "1.prems", of 1] c by simp
    moreover have "length (resync xs) \<le> length xs"
      by (induction xs) auto
    moreover have "resync (pb_contents b) = resync xs"
      using True c len by simp
    ultimately show ?thesis
      using "1.IH" [OF _ refl _ inv'] True c len pb_consume_capacity [OF "1.prems"]
      by (subst pb_discard_until_valid.simps)
        (simp add: Let_def decode_header_not_incomplete case_prod_beta)
  next
    case False
    then have "resync (pb_contents b) = pb_contents b"
      using len by (cases "pb_contents b") auto
    then show ?thesis
      using False "1.prems"
      by (subst pb_discard_until_valid.simps) (auto simp: Let_def case_prod_beta)
  qed
qed

lemma discard_facts:
  assumes "pb_inv b"
  shows "pb_inv (snd (pb_discard_until_valid b 0))"
    and "pb_capacity (snd (pb_discard_until_valid b 0)) = pb_capacity b"
    and "pb_contents (snd (pb_discard_until_valid b 0)) = resync (pb_contents b)"
  using discard_spec [OF assms, of 0] by (simp_all add: Let_def case_prod_beta)

lemma pb_step_refines:
  assumes "pb_inv b"
  shows "pb_inv (pb_step b op) \<and> pb_capacity (pb_step b op) = pb_capacity b \<and>
    pb_contents (pb_step b op) = queue_step (pb_capacity b) (pb_contents b) op"
  using assms
  by (cases op)
    (simp_all add: pb.append_inv pb.append_capacity pb.append_contents pb_consume_inv
      pb_consume_capacity pb_consume_contents discard_facts)

lemma pb_run_refines:
  "pb_inv b \<Longrightarrow> pb_inv (foldl pb_step b ops) \<and> pb_capacity (foldl pb_step b ops) = pb_capacity b \<and>
    pb_contents (foldl pb_step b ops) = foldl (queue_step (pb_capacity b)) (pb_contents b) ops"
proof (induction ops arbitrary: b)
  case Nil
  then show ?case by simp
next
  case (Cons op ops)
  then show ?case
    using pb_step_refines [of b op] by simp
qed

lemma resync_valid:
  "length (resync q) < 12 \<or> fst (decode_header (resync q)) = DecodeResult.Success"
  by (induction q rule: resync.induct) auto

lemma resync_suffix: "\<exists>k. resync q = drop k q \<and>
    (\<forall>j<k. fst (decode_header (drop j q)) \<noteq> DecodeResult.Success)"
proof (induction q)
  case Nil
  then show ?case by (intro exI [of _ 0]) simp
next
  case (Cons x xs)
  show ?case
  proof (cases "length (x # xs) < 12 \<or> fst (decode_header (x # xs)) = DecodeResult.Success")
    case True
    then show ?thesis by (intro exI [of _ 0]) auto
  next
    case False
    obtain k where k: "resync xs = drop k xs"
      "\<forall>j<k. fst (decode_header (drop j xs)) \<noteq> DecodeResult.Success"
      using Cons.IH by blast
    have "fst (decode_header (drop j (x # xs))) \<noteq> DecodeResult.Success" if "j < Suc k" for j
      using that False k(2) by (cases j) auto
    then show ?thesis
      using False k(1) by (intro exI [of _ "Suc k"]) auto
  qed
qed

subsection \<open>Packets at the front of the buffer\<close>

lemma has_complete_packet_iff:
  "pb_inv b \<Longrightarrow> pb_has_complete_packet b \<longleftrightarrow>
    fst (check_complete_packet (pb_contents b)) = DecodeResult.Success"
  by (simp add: pb_has_complete_packet_def length_contents check_complete_packet_def decode_header_def)

lemma front_packet:
  assumes "pb_inv b" and "pb_contents b = packet ty d @ rest" and "length d \<le> MAX_PACKET_SIZE"
  shows "pb_has_complete_packet b"
    and "pb_peek_packet_info b = (BufferResult.Success, 12 + length d)"
    and "decode_header (pb_contents b) =
      (DecodeResult.Success, Some (make_header ty (word_of_nat (length d))))"
proof -
  have "m_write_pos b \<ge> 12"
    using length_contents [OF assms(1)] assms(2) by simp
  then show "pb_has_complete_packet b"
    and "pb_peek_packet_info b = (BufferResult.Success, 12 + length d)"
    using assms by (simp_all add: pb_has_complete_packet_def pb_peek_packet_info_def
        check_complete_packet_packet)
  show "decode_header (pb_contents b) =
      (DecodeResult.Success, Some (make_header ty (word_of_nat (length d))))"
    using assms by (simp add: decode_header_packet)
qed

lemma front_incomplete:
  assumes "pb_inv b" and "packet ty d = pb_contents b @ c" and "c \<noteq> []" and "length d \<le> MAX_PACKET_SIZE"
  shows "\<not> pb_has_complete_packet b"
  using assms check_complete_prefix [OF assms(4,2,3)] by (simp add: has_complete_packet_iff)

subsection \<open>Properties\<close>

text \<open>
  C20: whatever sequence of appends, consumes, resets and resynchronisations is applied to a new
  buffer, its contents are those of a byte queue bounded by the buffer's capacity, the write
  position never passes the end of the array, and the array keeps its size.
\<close>

theorem buffer_refines_queue:
  "pb_contents (foldl pb_step (pb_new mem) ops) = foldl (queue_step (length mem)) [] ops \<and>
   pb_inv (foldl pb_step (pb_new mem) ops) \<and>
   pb_capacity (foldl pb_step (pb_new mem) ops) = length mem"
proof -
  have "pb_capacity (pb_new mem) = length mem"
    by (simp add: pb_new_def pb_capacity_def)
  then show ?thesis
    using pb_run_refines [OF pb_new_inv, of mem ops] by simp
qed

text \<open>
  When a complete packet is at the front of the buffer, extraction returns exactly that
  packet and leaves exactly what followed it.
\<close>

theorem extract_first_packet:
  assumes "pb_inv b" and "pb_contents b = packet ty d @ rest" and "length d \<le> MAX_PACKET_SIZE"
    and "12 + length d \<le> length out"
  shows "\<exists>b'. pb_extract_packet b out =
      (BufferResult.Success, memcpy out 0 (packet ty d), 12 + length d, b') \<and>
    pb_contents b' = rest \<and> pb_inv b'"
proof -
  have "12 + length d \<le> m_write_pos b"
    using length_contents [OF assms(1)] assms(2) by simp
  then have "take (12 + length d) (m_buffer b) = take (12 + length d) (pb_contents b)"
    by (simp add: pb_contents_def min_def)
  then have "take (12 + length d) (m_buffer b) = packet ty d"
    using assms(2) by simp
  then show ?thesis
    using front_packet(2) [OF assms(1-3)] assms(1,2,4) pb_consume_inv [OF assms(1)]
      pb_consume_contents [OF assms(1), of "12 + length d"]
    by (simp add: pb_extract_packet_def)
qed

theorem extract_first_packet_witness:
  "\<exists>b'. pb_extract_packet \<lparr>m_buffer = packet PacketId.Ping [0, 5] @ [1, 2, 3], m_write_pos = 17\<rparr> (replicate 20 0) =
      (BufferResult.Success, memcpy (replicate 20 0) 0 (packet PacketId.Ping [0, 5]), 14, b') \<and>
    pb_contents b' = [1, 2, 3] \<and> pb_inv b'"
  using extract_first_packet [of "\<lparr>m_buffer = packet PacketId.Ping [0, 5] @ [1, 2, 3], m_write_pos = 17\<rparr>"
      PacketId.Ping "[0, 5]" "[1, 2, 3]" "replicate 20 0"]
  by (simp add: pb_inv_def pb_capacity_def pb_contents_def MAX_PACKET_SIZE_def)

text \<open>
  Resynchronisation drops the bytes before the first position that holds a valid header (or
  before the last 11 bytes, when there is none), reports how many it dropped, and never
  drops a byte at which a valid header begins.
\<close>

theorem discard_resynchronises:
  assumes "pb_inv b" and "pb_discard_until_valid b 0 = (n, b')"
  shows "pb_contents b' = drop n (pb_contents b) \<and>
    (length (pb_contents b') < 12 \<or> fst (decode_header (pb_contents b')) = DecodeResult.Success) \<and>
    (\<forall>j. j < n \<longrightarrow> fst (decode_header (drop j (pb_contents b))) \<noteq> DecodeResult.Success)"
proof -
  obtain k where k: "resync (pb_contents b) = drop k (pb_contents b)"
    "\<forall>j<k. fst (decode_header (drop j (pb_contents b))) \<noteq> DecodeResult.Success"
    using resync_suffix [of "pb_contents b"] by blast
  have c: "pb_contents b' = resync (pb_contents b)" "n = length (pb_contents b) - length (pb_contents b')"
    using discard_spec [OF assms(1), of 0] assms(2) by simp_all
  then have n: "n = min k (length (pb_contents b))"
    using k(1) by simp
  then show ?thesis
    using c(1) k resync_valid [of "pb_contents b"] by (auto simp: min_def)
qed

theorem discard_resynchronises_witness:
  "let b = \<lparr>m_buffer = [9, 9] @ packet PacketId.Ping [0, 5], m_write_pos = 16\<rparr>
   in pb_contents (snd (pb_discard_until_valid b 0)) = drop (fst (pb_discard_until_valid b 0)) (pb_contents b)"
  using discard_resynchronises [of "\<lparr>m_buffer = [9, 9] @ packet PacketId.Ping [0, 5], m_write_pos = 16\<rparr>"
      "fst (pb_discard_until_valid \<lparr>m_buffer = [9, 9] @ packet PacketId.Ping [0, 5], m_write_pos = 16\<rparr> 0)"
      "snd (pb_discard_until_valid \<lparr>m_buffer = [9, 9] @ packet PacketId.Ping [0, 5], m_write_pos = 16\<rparr> 0)"]
  by (simp add: pb_inv_def pb_capacity_def Let_def)

end
