(* ===== verification/Socket.thy ===== *)
theory Socket
  imports Prelude
begin

text \<open>
  The TCP socket wrapper of \<^verbatim>\<open>network/socket.hpp\<close> and \<^verbatim>\<open>.cpp\<close>. The operating system and
  the TLS library are the environment: \<open>os\<close> holds, for every kind of call, the outcomes
  the system will give, in order; an exhausted list means a system that stays silent (a
  send or receive would block, a poll times out, a connection attempt fails).
  \<open>sk_wire\<close> records every byte handed to the system for transmission. What is modelled of
  sending and receiving is the plain TCP branch; of TLS, the result of its handshake.
\<close>

datatype SocketResult =
  Success | WouldBlock | Timeout | ConnectionRefused | ConnectionReset | HostUnreachable
  | NetworkDown | NotConnected | AlreadyConnected | InvalidAddress | SocketError
  | NotInitialized | Closed

datatype errno =
  EAGAIN | EINPROGRESS | ECONNREFUSED | ECONNRESET | EPIPE | ECONNABORTED | EHOSTUNREACH
  | ENETUNREACH | ENETDOWN | ENOTCONN | EISCONN | ETIMEDOUT | EOTHER

text \<open>\<^verbatim>\<open>EWOULDBLOCK\<close> equals \<^verbatim>\<open>EAGAIN\<close> on the platforms of the build.\<close>

fun errno_to_result :: "errno \<Rightarrow> SocketResult" where
  "errno_to_result EAGAIN = SocketResult.WouldBlock"
| "errno_to_result ECONNREFUSED = SocketResult.ConnectionRefused"
| "errno_to_result ECONNRESET = SocketResult.ConnectionReset"
| "errno_to_result EPIPE = SocketResult.ConnectionReset"
| "errno_to_result ECONNABORTED = SocketResult.ConnectionReset"
| "errno_to_result EHOSTUNREACH = SocketResult.HostUnreachable"
| "errno_to_result ENETUNREACH = SocketResult.HostUnreachable"
| "errno_to_result ENETDOWN = SocketResult.NetworkDown"
| "errno_to_result ENOTCONN = SocketResult.NotConnected"
| "errno_to_result EISCONN = SocketResult.AlreadyConnected"
| "errno_to_result ETIMEDOUT = SocketResult.Timeout"
| "errno_to_result _ = SocketResult.SocketError"

lemma errno_not_success [simp]: "errno_to_result e \<noteq> SocketResult.Success"
  by (cases e) simp_all

subsection \<open>The environment\<close>

datatype send_outcome = Sent nat | SendErrno errno
datatype recv_outcome = Data "byte list" | RecvErrno errno
datatype poll_outcome = PollReady | PollTimeout | PollHangUp | PollErrno errno

record connect_outcome =
  co_create :: "errno option"
  co_resolved :: bool
  co_nonblock :: "errno option"
  co_connect :: "errno option"
  co_getsockopt :: "errno option"
  co_so_error :: "errno option"
  co_tls :: bool

record os =
  os_initialized :: bool
  os_connect :: "connect_outcome list"
  os_send :: "send_outcome list"
  os_recv :: "recv_outcome list"
  os_poll :: "poll_outcome list"
  os_thread :: "bool list"

record Socket =
  sk_fd :: bool
  sk_connected :: bool
  sk_use_tls :: bool
  sk_wire :: "byte list"
  sk_os :: os

definition sk_new :: "os \<Rightarrow> Socket" where
  "sk_new w = \<lparr>sk_fd = False, sk_connected = False, sk_use_tls = False, sk_wire = [], sk_os = w\<rparr>"

text \<open>The subsystem flag of the source is a file-level variable; it is part of \<open>os\<close> here.\<close>

definition socket_init :: "Socket \<Rightarrow> SocketResult \<times> Socket" where
  "socket_init s =
     (if os_initialized (sk_os s) then (SocketResult.Success, s)
      else (SocketResult.Success, s\<lparr>sk_os := (sk_os s)\<lparr>os_initialized := True\<rparr>\<rparr>))"

definition sk_is_connected :: "Socket \<Rightarrow> bool" where
  "sk_is_connected s \<longleftrightarrow> sk_connected s"

definition sk_close :: "Socket \<Rightarrow> Socket" where
  "sk_close s = (if sk_fd s then s\<lparr>sk_use_tls := False, sk_fd := False, sk_connected := False\<rparr>
                 else s\<lparr>sk_connected := False\<rparr>)"

definition sk_wait_ready :: "Socket \<Rightarrow> SocketResult \<times> Socket" where
  "sk_wait_ready s =
     (case os_poll (sk_os s) of
        [] \<Rightarrow> (SocketResult.Timeout, s)
      | p # ps \<Rightarrow>
          (let s = s\<lparr>sk_os := (sk_os s)\<lparr>os_poll := ps\<rparr>\<rparr> in
           case p of
             PollErrno e \<Rightarrow> (errno_to_result e, s)
           | PollTimeout \<Rightarrow> (SocketResult.Timeout, s)
           | PollHangUp \<Rightarrow> (SocketResult.ConnectionReset, s\<lparr>sk_connected := False\<rparr>)
           | PollReady \<Rightarrow> (SocketResult.Success, s)))"

text \<open>A connection attempt that reached \<^verbatim>\<open>::connect\<close>, up to the TLS handshake.\<close>

definition sk_establish :: "Socket \<Rightarrow> connect_outcome \<Rightarrow> bool \<Rightarrow> SocketResult \<times> Socket" where
  "sk_establish s c use_tls =
     (let s = s\<lparr>sk_connected := True, sk_use_tls := use_tls\<rparr> in
      if use_tls \<and> \<not> co_tls c then (SocketResult.SocketError, sk_close s)
      else (SocketResult.Success, s))"

definition sk_connect :: "Socket \<Rightarrow> byte list option \<Rightarrow> u16 \<Rightarrow> u32 \<Rightarrow> bool \<Rightarrow> SocketResult \<times> Socket" where
  "sk_connect s host port timeout_ms use_tls =
     (if \<not> os_initialized (sk_os s) then (SocketResult.NotInitialized, s)
      else if host = None \<or> host = Some [] then (SocketResult.InvalidAddress, s)
      else if sk_connected s then (SocketResult.AlreadyConnected, s)
      else
        let s = (if sk_fd s then sk_close s else s) in
        case os_connect (sk_os s) of
          [] \<Rightarrow> (SocketResult.NetworkDown, s)
        | c # cs \<Rightarrow>
          let s = s\<lparr>sk_os := (sk_os s)\<lparr>os_connect := cs\<rparr>\<rparr> in
          (case co_create c of
             Some e \<Rightarrow> (errno_to_result e, s)
           | None \<Rightarrow>
             let s = s\<lparr>sk_fd := True\<rparr>; use_timeout = (timeout_ms > 0) in
             if \<not> co_resolved c then (SocketResult.InvalidAddress, sk_close s)
             else (case (if use_timeout then co_nonblock c else None) of
               Some e \<Rightarrow> (errno_to_result e, sk_close s)
             | None \<Rightarrow>
               (case co_connect c of
                  None \<Rightarrow> sk_establish s c use_tls
                | Some e \<Rightarrow>
                  (if use_timeout \<and> (e = EINPROGRESS \<or> e = EAGAIN)
                   then (case sk_wait_ready s of (result, s) \<Rightarrow>
                     if result \<noteq> SocketResult.Success then (result, sk_close s)
                     else (case co_getsockopt c of
                        Some e' \<Rightarrow> (errno_to_result e', sk_close s)
                      | None \<Rightarrow>
                        (case co_so_error c of
                           Some e' \<Rightarrow> (errno_to_result e', sk_close s)
                         | None \<Rightarrow> sk_establish s c use_tls)))
                   else (errno_to_result e, sk_close s))))))"

definition sk_send :: "Socket \<Rightarrow> byte list \<Rightarrow> SocketResult \<times> nat \<times> Socket" where
  "sk_send s data =
     (if \<not> sk_connected s then (SocketResult.NotConnected, 0, s)
      else case os_send (sk_os s) of
        [] \<Rightarrow> (SocketResult.WouldBlock, 0, s)
      | r # rs \<Rightarrow>
        (let s = s\<lparr>sk_os := (sk_os s)\<lparr>os_send := rs\<rparr>\<rparr> in
         case r of
           SendErrno e \<Rightarrow>
             (if e = EAGAIN then (SocketResult.WouldBlock, 0, s)
              else (errno_to_result e, 0, s\<lparr>sk_connected := False\<rparr>))
         | Sent k \<Rightarrow>
             (let n = min k (length data) in
              if n = 0 then (SocketResult.Closed, 0, s\<lparr>sk_connected := False\<rparr>)
              else (SocketResult.Success, n, s\<lparr>sk_wire := sk_wire s @ take n data\<rparr>))))"

lemma sk_send_os:
  "sk_send s data = (r, n, s') \<Longrightarrow>
    length (os_send (sk_os s')) = length (os_send (sk_os s)) - 1 \<and> os_poll (sk_os s') = os_poll (sk_os s)
    \<or> (r \<noteq> SocketResult.Success \<and> s' = s)"
  by (auto simp: sk_send_def Let_def split: if_splits list.splits send_outcome.splits)

lemma sk_send_progress:
  "sk_send s data = (SocketResult.Success, n, s') \<Longrightarrow>
    length (os_send (sk_os s')) < length (os_send (sk_os s)) \<and> os_poll (sk_os s') = os_poll (sk_os s)"
  by (auto simp: sk_send_def Let_def split: if_splits list.splits send_outcome.splits)

lemma sk_send_blocked:
  "sk_send s data = (SocketResult.WouldBlock, n, s') \<Longrightarrow>
    length (os_send (sk_os s')) \<le> length (os_send (sk_os s)) \<and> os_poll (sk_os s') = os_poll (sk_os s)"
  by (auto simp: sk_send_def Let_def split: if_splits list.splits send_outcome.splits)

lemma sk_wait_ready_progress:
  "sk_wait_ready s = (SocketResult.Success, s') \<Longrightarrow>
    length (os_poll (sk_os s')) < length (os_poll (sk_os s)) \<and> os_send (sk_os s') = os_send (sk_os s)"
  by (auto simp: sk_wait_ready_def Let_def split: list.splits poll_outcome.splits)

text \<open>
  \<^verbatim>\<open>send_all\<close>: the callers leave \<^verbatim>\<open>timeout_ms\<close> at its default, so the early return for
  a zero timeout is written out but the wait is the same for every other value. The loop
  ends because every round uses up an outcome of the system.
\<close>

function sk_send_all_loop :: "Socket \<Rightarrow> byte list \<Rightarrow> nat \<Rightarrow> bool \<Rightarrow> SocketResult \<times> Socket" where
  "sk_send_all_loop s data total_sent zero_timeout =
     (if total_sent < length data then
        (case sk_send s (drop total_sent data) of (result, sent, s') \<Rightarrow>
           if result = SocketResult.WouldBlock then
             (if zero_timeout \<and> total_sent = 0 then (SocketResult.WouldBlock, s')
              else (case sk_wait_ready s' of (w, s'') \<Rightarrow>
                if w \<noteq> SocketResult.Success then (w, s'')
                else sk_send_all_loop s'' data total_sent zero_timeout))
           else if result \<noteq> SocketResult.Success then (result, s')
           else sk_send_all_loop s' data (total_sent + sent) zero_timeout)
      else (SocketResult.Success, s))"
  by pat_completeness auto
termination
proof (relation "measure (\<lambda>(s, data, n, z). length (os_send (sk_os s)) + length (os_poll (sk_os s)))", goal_cases)
  case 1
  then show ?case by simp
next
  case (2 s data n z r p sent s' w s'')
  then show ?case
    using sk_send_blocked [of s "drop n data" sent s'] sk_wait_ready_progress [of s' s''] by auto
next
  case (3 s data n z r p sent s')
  then show ?case
    using sk_send_progress [of s "drop n data" sent s'] by auto
qed

declare sk_send_all_loop.simps [simp del]

definition sk_send_all :: "Socket \<Rightarrow> byte list \<Rightarrow> SocketResult \<times> Socket" where
  "sk_send_all s data = sk_send_all_loop s data 0 False"

text \<open>
  \<^verbatim>\<open>recv\<close> with a positive, zero or negative timeout. The non-blocking branch differs
  from the blocking one only in the descriptor flags it sets and restores.
\<close>

definition sk_recv_now :: "Socket \<Rightarrow> nat \<Rightarrow> SocketResult \<times> byte list \<times> Socket" where
  "sk_recv_now s buffer_size =
     (case os_recv (sk_os s) of
        [] \<Rightarrow> (SocketResult.WouldBlock, [], s)
      | r # rs \<Rightarrow>
        (case r of
           RecvErrno e \<Rightarrow>
             (let s = s\<lparr>sk_os := (sk_os s)\<lparr>os_recv := rs\<rparr>\<rparr> in
              if e = EAGAIN then (SocketResult.WouldBlock, [], s)
              else (errno_to_result e, [], s\<lparr>sk_connected := False\<rparr>))
         | Data d \<Rightarrow>
             (if d = [] then (SocketResult.Closed, [], s\<lparr>sk_os := (sk_os s)\<lparr>os_recv := rs\<rparr>, sk_connected := False\<rparr>)
              else (SocketResult.Success, take buffer_size d,
                    s\<lparr>sk_os := (sk_os s)\<lparr>os_recv :=
                        (if length d \<le> buffer_size then rs else Data (drop buffer_size d) # rs)\<rparr>\<rparr>))))"

definition sk_recv :: "Socket \<Rightarrow> nat \<Rightarrow> int \<Rightarrow> SocketResult \<times> byte list \<times> Socket" where
  "sk_recv s buffer_size timeout_ms =
     (if \<not> sk_connected s then (SocketResult.NotConnected, [], s)
      else if timeout_ms > 0 then
        (case sk_wait_ready s of (result, s') \<Rightarrow>
           if result \<noteq> SocketResult.Success then (result, [], s') else sk_recv_now s' buffer_size)
      else sk_recv_now s buffer_size)"

subsection \<open>What reaches the wire\<close>

lemma sk_send_wire:
  "sk_send s data = (r, n, s') \<Longrightarrow>
    n \<le> length data \<and> sk_wire s' = sk_wire s @ take n data \<and> (r \<noteq> SocketResult.Success \<longrightarrow> n = 0)"
  by (auto simp: sk_send_def Let_def split: if_splits list.splits send_outcome.splits)

lemma sk_wait_ready_wire [simp]: "sk_wait_ready s = (r, s') \<Longrightarrow> sk_wire s' = sk_wire s"
  by (auto simp: sk_wait_ready_def Let_def split: list.splits poll_outcome.splits)

lemma sk_send_all_loop_wire:
  "sk_send_all_loop s data n z = (r, s') \<Longrightarrow> n \<le> length data \<Longrightarrow>
    \<exists>k\<le>length data. n \<le> k \<and> sk_wire s' = sk_wire s @ take (k - n) (drop n data) \<and>
      (r = SocketResult.Success \<longrightarrow> k = length data)"
proof (induction s data n z arbitrary: r s' rule: sk_send_all_loop.induct)
  case (1 s data n z)
  obtain r1 sent s1 where snd1: "sk_send s (drop n data) = (r1, sent, s1)"
    by (metis prod_cases3)
  note w1 = sk_send_wire [OF snd1]
  note unf = "1.prems"(1) [unfolded sk_send_all_loop.simps [of s data n z] snd1 prod.case]
  consider (finished) "\<not> n < length data"
    | (blocked) "n < length data" "r1 = SocketResult.WouldBlock"
    | (failed) "n < length data" "r1 \<noteq> SocketResult.WouldBlock" "r1 \<noteq> SocketResult.Success"
    | (sent) "n < length data" "r1 = SocketResult.Success"
    by blast
  then show ?case
  proof cases
    case finished
    then have "r = SocketResult.Success \<and> s' = s"
      using unf by simp
    then show ?thesis
      using finished "1.prems"(2) by (intro exI [of _ n]) auto
  next
    case blocked
    obtain w s2 where wr: "sk_wait_ready s1 = (w, s2)"
      by (metis surj_pair)
    have wire: "sk_wire s1 = sk_wire s" "sk_wire s2 = sk_wire s"
      using w1 blocked sk_wait_ready_wire [OF wr] by auto
    show ?thesis
    proof (cases "(z \<and> n = 0) \<or> w \<noteq> SocketResult.Success")
      case True
      then have "r \<noteq> SocketResult.Success \<and> sk_wire s' = sk_wire s"
        using unf blocked wr wire by (auto split: if_splits)
      then show ?thesis
        using "1.prems" by (intro exI [of _ n]) auto
    next
      case False
      then have "sk_send_all_loop s2 data n z = (r, s')"
        using unf blocked wr by (auto split: if_splits)
      then show ?thesis
        using "1.IH"(1) [OF blocked(1) snd1 [symmetric] refl blocked(2) _ wr [symmetric]] False
          "1.prems"(2) wire by auto
    qed
  next
    case failed
    then have "r \<noteq> SocketResult.Success \<and> sk_wire s' = sk_wire s"
      using unf w1 by simp
    then show ?thesis
      using "1.prems"(2) by (intro exI [of _ n]) auto
  next
    case sent
    then have rec: "sk_send_all_loop s1 data (n + sent) z = (r, s')"
      using unf by simp
    have le: "n + sent \<le> length data"
      using w1 [THEN conjunct1] sent(1) by simp
    obtain k where k: "k \<le> length data" "n + sent \<le> k"
      "sk_wire s' = sk_wire s1 @ take (k - (n + sent)) (drop (n + sent) data)"
      "r = SocketResult.Success \<longrightarrow> k = length data"
      using "1.IH"(2) [OF sent(1) snd1 [symmetric] refl _ _ rec le] sent(2) by blast
    have "take sent (drop n data) @ take (k - (n + sent)) (drop (n + sent) data) = take (k - n) (drop n data)"
      using k(2) take_add [of sent "k - (n + sent)" "drop n data"] by (simp add: add.commute)
    then have "sk_wire s' = sk_wire s @ take (k - n) (drop n data)"
      using k(3) w1 by simp
    then show ?thesis
      using k by (intro exI [of _ k]) simp
  qed
qed

lemma sk_send_all_wire:
  assumes "sk_send_all s data = (r, s')"
  shows "\<exists>k\<le>length data. sk_wire s' = sk_wire s @ take k data \<and> (r = SocketResult.Success \<longrightarrow> k = length data)"
  using sk_send_all_loop_wire [OF assms [unfolded sk_send_all_def]] by auto

subsection \<open>What is received\<close>

text \<open>The bytes the system still has to deliver.\<close>

fun recv_stream :: "recv_outcome list \<Rightarrow> byte list" where
  "recv_stream [] = []"
| "recv_stream (Data d # rs) = d @ recv_stream rs"
| "recv_stream (RecvErrno e # rs) = recv_stream rs"

definition sk_pending :: "Socket \<Rightarrow> byte list" where
  "sk_pending s = recv_stream (os_recv (sk_os s))"

lemma sk_wait_ready_pending: "sk_wait_ready s = (r, s') \<Longrightarrow> os_recv (sk_os s') = os_recv (sk_os s)"
  by (auto simp: sk_wait_ready_def Let_def split: list.splits poll_outcome.splits)

lemma sk_recv_now_pending:
  "sk_recv_now s n = (r, d, s') \<Longrightarrow> sk_pending s = d @ sk_pending s' \<and> length d \<le> n"
  by (auto simp: sk_recv_now_def sk_pending_def Let_def split: list.splits recv_outcome.splits if_splits)

lemma sk_recv_pending:
  assumes "sk_recv s n t = (r, d, s')"
  shows "sk_pending s = d @ sk_pending s' \<and> length d \<le> n"
proof (cases "sk_connected s \<and> t > 0")
  case True
  obtain w s1 where w: "sk_wait_ready s = (w, s1)"
    by (metis surj_pair)
  have "sk_pending s1 = sk_pending s"
    using sk_wait_ready_pending [OF w] by (simp add: sk_pending_def)
  then show ?thesis
    using assms True w sk_recv_now_pending [of s1 n r d s']
    by (auto simp: sk_recv_def split: if_splits)
next
  case False
  then show ?thesis
    using assms sk_recv_now_pending [of s n r d s'] by (auto simp: sk_recv_def split: if_splits)
qed

lemma sk_recv_nonempty:
  assumes "sk_recv s n t = (SocketResult.Success, d, s')" and "0 < n"
  shows "d \<noteq> []"
proof -
  have "sk_recv_now s1 n = (SocketResult.Success, d, s') \<Longrightarrow> d \<noteq> []" for s1
    using assms(2)
    by (auto simp: sk_recv_now_def Let_def split: list.splits recv_outcome.splits if_splits errno.splits)
  then show ?thesis
    using assms(1) by (auto simp: sk_recv_def split: if_splits prod.splits)
qed

subsection \<open>Properties\<close>

text \<open>An example environment: partial sends, a full socket buffer, split receives.\<close>

definition busy_os :: os where
  "busy_os = \<lparr>os_initialized = True, os_connect = [], os_send = [Sent 2, SendErrno EAGAIN, Sent 9],
     os_recv = [Data [1, 2, 3], Data [4, 5]], os_poll = [PollReady, PollReady], os_thread = []\<rparr>"

definition busy_socket :: Socket where
  "busy_socket = (sk_new busy_os)\<lparr>sk_fd := True, sk_connected := True\<rparr>"

text \<open>
  \<^verbatim>\<open>send_all\<close> appends a prefix of its data to the byte stream, whatever the system does, and
  the whole of it when it reports success: nothing is sent twice, skipped or reordered.
\<close>

theorem send_all_prefix:
  assumes "sk_send_all s data = (r, s')"
  shows "\<exists>k. k \<le> length data \<and> sk_wire s' = sk_wire s @ take k data \<and>
    (r = SocketResult.Success \<longrightarrow> k = length data)"
  using sk_send_all_wire [OF assms] by blast

theorem send_all_prefix_witness:
  "sk_wire (snd (sk_send_all busy_socket [10, 20, 30, 40, 50])) = [10, 20, 30, 40, 50]"
proof -
  have ok: "fst (sk_send_all busy_socket [10, 20, 30, 40, 50]) = SocketResult.Success"
    by code_simp
  obtain s' where s': "sk_send_all busy_socket [10, 20, 30, 40, 50] = (SocketResult.Success, s')"
    using ok by (metis prod.collapse)
  show ?thesis
    using send_all_prefix [OF s'] s' by (auto simp: busy_socket_def sk_new_def)
qed

text \<open>
  Every receive hands over exactly the next bytes of the stream, at most as many as asked
  for, and leaves the rest for the next call, on every outcome.
\<close>

theorem recv_takes_next_bytes:
  assumes "sk_recv s n t = (r, d, s')"
  shows "sk_pending s = d @ sk_pending s' \<and> length d \<le> n"
  by (rule sk_recv_pending [OF assms])

theorem recv_takes_next_bytes_witness:
  "sk_pending busy_socket = [1, 2] @ sk_pending (snd (snd (sk_recv busy_socket 2 20)))"
proof -
  have d: "fst (snd (sk_recv busy_socket 2 20)) = [1, 2]"
    by code_simp
  obtain r s' where s': "sk_recv busy_socket 2 20 = (r, [1, 2], s')"
    using d by (metis prod.collapse)
  show ?thesis
    using recv_takes_next_bytes [OF s'] s' by simp
qed

end
