(* ===== verification/Tcp_Client.thy ===== *)
theory Tcp_Client
  imports Packet_Buffer Socket
begin

text \<open>
  The packet-level client of \<^verbatim>\<open>network/tcp_client.hpp\<close> and \<^verbatim>\<open>.cpp\<close>: encoded sends under
  the send mutex, reassembly under the receive mutex, and the queue of proxy data that a
  background thread drains. The mutexes make each operation below one atomic step; the
  thread's loop, whose steps other operations can come between, is in
  \<open>Send_Queue\<close>.
\<close>

datatype ClientResult =
  Success | NotConnected | AlreadyConnected | ConnectionFailed | ConnectionLost | Timeout
  | InvalidPacket | ProtocolError | BufferTooSmall | EncodingError | NotInitialized | InternalError

record QueuedPacket =
  qp_timestamp_ms :: u64
  qp_data :: "byte list"

record TcpClient =
  tc_socket :: Socket
  tc_recv_buffer :: PacketBuffer
  tc_send_buffer :: "byte list"
  tc_send_queue :: "QueuedPacket list"
  tc_send_queue_size :: nat
  tc_thread_running :: bool
  tc_thread_started :: bool

definition kMaxSendQueueSize :: nat where "kMaxSendQueueSize = 256 * 1024"
definition kMaxQueuedPacketAgeMs :: u64 where "kMaxQueuedPacketAgeMs = 2000"
definition kRecvBufferSize :: nat where "kRecvBufferSize = 0x2000"
definition kSendBufferSize :: nat where "kSendBufferSize = 2048"
definition kRecvChunk :: nat where "kRecvChunk = 4096"

definition tcp_new :: "os \<Rightarrow> TcpClient" where
  "tcp_new w =
     \<lparr>tc_socket = sk_new w, tc_recv_buffer = pb_new (replicate kRecvBufferSize 0),
      tc_send_buffer = replicate kSendBufferSize 0, tc_send_queue = [], tc_send_queue_size = 0,
      tc_thread_running = False, tc_thread_started = False\<rparr>"

fun socket_to_client_result :: "SocketResult \<Rightarrow> ClientResult" where
  "socket_to_client_result SocketResult.Success = ClientResult.Success"
| "socket_to_client_result SocketResult.WouldBlock = ClientResult.Success"
| "socket_to_client_result SocketResult.Timeout = ClientResult.Timeout"
| "socket_to_client_result SocketResult.NotConnected = ClientResult.NotConnected"
| "socket_to_client_result SocketResult.AlreadyConnected = ClientResult.AlreadyConnected"
| "socket_to_client_result SocketResult.NotInitialized = ClientResult.NotInitialized"
| "socket_to_client_result SocketResult.Closed = ClientResult.ConnectionLost"
| "socket_to_client_result SocketResult.ConnectionReset = ClientResult.ConnectionLost"
| "socket_to_client_result SocketResult.ConnectionRefused = ClientResult.ConnectionFailed"
| "socket_to_client_result SocketResult.HostUnreachable = ClientResult.ConnectionFailed"
| "socket_to_client_result SocketResult.NetworkDown = ClientResult.ConnectionFailed"
| "socket_to_client_result SocketResult.InvalidAddress = ClientResult.ConnectionFailed"
| "socket_to_client_result SocketResult.SocketError = ClientResult.InternalError"

definition tcp_is_connected :: "TcpClient \<Rightarrow> bool" where
  "tcp_is_connected c \<longleftrightarrow> sk_is_connected (tc_socket c)"

definition tcp_initialize :: "TcpClient \<Rightarrow> bool \<times> TcpClient" where
  "tcp_initialize c = (case socket_init (tc_socket c) of (result, s) \<Rightarrow>
     (result = SocketResult.Success, c\<lparr>tc_socket := s\<rparr>))"

subsection \<open>Connection management\<close>

definition tcp_disconnect :: "TcpClient \<Rightarrow> TcpClient" where
  "tcp_disconnect c =
     (let c = (if tc_thread_running c \<or> tc_thread_started c
               then c\<lparr>tc_thread_running := False, tc_thread_started := False,
                      tc_send_queue := [], tc_send_queue_size := 0\<rparr>
               else c);
          c = (if sk_is_connected (tc_socket c) then c\<lparr>tc_socket := sk_close (tc_socket c)\<rparr> else c)
      in c\<lparr>tc_recv_buffer := pb_reset (tc_recv_buffer c)\<rparr>)"

definition tcp_connect :: "TcpClient \<Rightarrow> byte list option \<Rightarrow> u16 \<Rightarrow> u32 \<Rightarrow> bool \<Rightarrow> ClientResult \<times> TcpClient" where
  "tcp_connect c host port timeout_ms use_tls =
     (if sk_is_connected (tc_socket c) then (ClientResult.AlreadyConnected, c)
      else
        let c = tcp_disconnect c in
        case sk_connect (tc_socket c) host port timeout_ms use_tls of (result, s) \<Rightarrow>
        let c = c\<lparr>tc_socket := s\<rparr> in
        if result \<noteq> SocketResult.Success then (socket_to_client_result result, c)
        else
          let c = c\<lparr>tc_recv_buffer := pb_reset (tc_recv_buffer c), tc_thread_running := True,
                    tc_send_queue := [], tc_send_queue_size := 0\<rparr>
          in case os_thread (sk_os s) of
               False # ts \<Rightarrow>
                 (ClientResult.ConnectionLost,
                  c\<lparr>tc_thread_running := False, tc_thread_started := False,
                    tc_socket := sk_close (s\<lparr>sk_os := (sk_os s)\<lparr>os_thread := ts\<rparr>\<rparr>)\<rparr>)
             | ts \<Rightarrow> (ClientResult.Success,
                  c\<lparr>tc_thread_started := True,
                    tc_socket := s\<lparr>sk_os := (sk_os s)\<lparr>os_thread := tl ts\<rparr>\<rparr>\<rparr>))"

subsection \<open>Sending\<close>

text \<open>\<^verbatim>\<open>send_all\<close> of the first bytes of the send buffer, with the result converted.\<close>

definition tcp_send_bytes :: "TcpClient \<Rightarrow> byte list \<Rightarrow> ClientResult \<times> TcpClient" where
  "tcp_send_bytes c data =
     (case sk_send_all (tc_socket c) data of (result, s) \<Rightarrow>
        (socket_to_client_result result, c\<lparr>tc_socket := s\<rparr>))"

text \<open>The body that the single-message senders share: encode into the send buffer, then send.\<close>

definition tcp_send_encoded :: "TcpClient \<Rightarrow> (byte list \<Rightarrow> encoded) \<Rightarrow> ClientResult \<times> TcpClient" where
  "tcp_send_encoded c enc =
     (if \<not> tcp_is_connected c then (ClientResult.NotConnected, c)
      else case enc (tc_send_buffer c) of (result, buffer, encoded_size) \<Rightarrow>
        let c = c\<lparr>tc_send_buffer := buffer\<rparr> in
        if result \<noteq> EncodeResult.Success then (ClientResult.EncodingError, c)
        else tcp_send_bytes c (take encoded_size buffer))"

definition tcp_send_packet :: "TcpClient \<Rightarrow> PacketId \<Rightarrow> byte list option \<Rightarrow> nat \<Rightarrow> ClientResult \<times> TcpClient" where
  "tcp_send_packet c ty payload payload_size =
     tcp_send_encoded c (\<lambda>b. encode_raw b ty payload payload_size)"

definition tcp_send_raw :: "TcpClient \<Rightarrow> byte list option \<Rightarrow> nat \<Rightarrow> ClientResult \<times> TcpClient" where
  "tcp_send_raw c data data_size =
     (if \<not> tcp_is_connected c then (ClientResult.NotConnected, c)
      else case data of
        None \<Rightarrow> (ClientResult.EncodingError, c)
      | Some d \<Rightarrow> (if data_size = 0 then (ClientResult.EncodingError, c)
                  else tcp_send_bytes c (take data_size d)))"

definition tcp_send_initialize where
  "tcp_send_initialize c msg =
     tcp_send_encoded c (\<lambda>b. encode 22 InitializeMessage_to_bytes b PacketId.Initialize msg)"

definition tcp_send_passphrase_msg where
  "tcp_send_passphrase_msg c msg =
     tcp_send_encoded c (\<lambda>b. encode 128 PassphraseMessage_to_bytes b PacketId.Passphrase msg)"

text \<open>The C string overload; a C string is its bytes before the terminator.\<close>

definition passphrase_msg :: "byte list option \<Rightarrow> PassphraseMessage" where
  "passphrase_msg passphrase =
     (case passphrase of
        None \<Rightarrow> \<lparr>pass_passphrase = replicate 128 0\<rparr>
      | Some p \<Rightarrow> (let len = (if length p > 127 then 127 else length p)
                  in \<lparr>pass_passphrase = memcpy (replicate 128 0) 0 (take len p)\<rparr>))"

definition tcp_send_passphrase where
  "tcp_send_passphrase c passphrase = tcp_send_passphrase_msg c (passphrase_msg passphrase)"

definition tcp_send_ping where
  "tcp_send_ping c msg = tcp_send_encoded c (\<lambda>b. encode 2 PingMessage_to_bytes b PacketId.Ping msg)"

definition tcp_send_disconnect where
  "tcp_send_disconnect c msg =
     tcp_send_encoded c (\<lambda>b. encode 4 DisconnectMessage_to_bytes b PacketId.Disconnect msg)"

text \<open>
  The access point senders write the header, the request and the advertise data by hand.
  With a null pointer and a non-zero size the header announces bytes that are not sent.
\<close>

definition tcp_send_with_advertise ::
  "nat \<Rightarrow> ('t \<Rightarrow> byte list) \<Rightarrow> PacketId \<Rightarrow> TcpClient \<Rightarrow> 't \<Rightarrow> byte list option \<Rightarrow> nat \<Rightarrow>
    ClientResult \<times> TcpClient" where
  "tcp_send_with_advertise sizeof_request to_bytes ty c request advertise_data advertise_size =
     (if \<not> tcp_is_connected c then (ClientResult.NotConnected, c)
      else
        let total_payload_size = sizeof_request + advertise_size in
        if total_payload_size > length (tc_send_buffer c) - 12 then (ClientResult.BufferTooSmall, c)
        else
          let header = make_header ty (word_of_nat total_payload_size);
              b = memcpy (tc_send_buffer c) 0 (LdnHeader_to_bytes header);
              b = memcpy b 12 (to_bytes request);
              offset = 12 + sizeof_request;
              (b, offset) =
                (case advertise_data of
                   Some d \<Rightarrow> (if advertise_size > 0
                              then (memcpy b offset (take advertise_size d), offset + advertise_size)
                              else (b, offset))
                 | None \<Rightarrow> (b, offset))
          in tcp_send_bytes (c\<lparr>tc_send_buffer := b\<rparr>) (take offset b))"

definition tcp_send_create_access_point where
  "tcp_send_create_access_point =
     tcp_send_with_advertise 188 CreateAccessPointRequest_to_bytes PacketId.CreateAccessPoint"

definition tcp_send_create_access_point_private where
  "tcp_send_create_access_point_private =
     tcp_send_with_advertise 316 CreateAccessPointPrivateRequest_to_bytes PacketId.CreateAccessPointPrivate"

definition tcp_send_connect where
  "tcp_send_connect c request =
     tcp_send_encoded c (\<lambda>b. encode 1280 ConnectRequest_to_bytes b PacketId.Connect request)"

definition tcp_send_connect_private where
  "tcp_send_connect_private c request =
     tcp_send_encoded c (\<lambda>b. encode 188 ConnectPrivateRequest_to_bytes b PacketId.ConnectPrivate request)"

definition tcp_send_scan where
  "tcp_send_scan c flt =
     tcp_send_encoded c (\<lambda>b. encode 96 ScanFilterFull_to_bytes b PacketId.Scan flt)"

definition tcp_send_set_accept_policy where
  "tcp_send_set_accept_policy c request =
     tcp_send_encoded c (\<lambda>b. encode 1 SetAcceptPolicyRequest_to_bytes b PacketId.SetAcceptPolicy request)"

definition tcp_send_set_advertise_data :: "TcpClient \<Rightarrow> byte list option \<Rightarrow> nat \<Rightarrow> ClientResult \<times> TcpClient" where
  "tcp_send_set_advertise_data c data data_size =
     (if \<not> tcp_is_connected c then (ClientResult.NotConnected, c)
      else
        let n = (if data_size > 384 then 384 else data_size);
            b = memcpy (tc_send_buffer c) 0
                  (LdnHeader_to_bytes (make_header PacketId.SetAdvertiseData (word_of_nat n)));
            b = (case data of Some d \<Rightarrow> (if n > 0 then memcpy b 12 (take n d) else b) | None \<Rightarrow> b)
        in tcp_send_bytes (c\<lparr>tc_send_buffer := b\<rparr>) (take (12 + n) b))"

definition tcp_send_reject where
  "tcp_send_reject c request =
     tcp_send_encoded c (\<lambda>b. encode 8 RejectRequest_to_bytes b PacketId.Reject request)"

subsection \<open>The proxy data queue\<close>

fun drop_oldest :: "nat \<Rightarrow> QueuedPacket list \<Rightarrow> nat \<Rightarrow> QueuedPacket list \<times> nat" where
  "drop_oldest encoded_size [] queue_size = ([], queue_size)"
| "drop_oldest encoded_size (p # ps) queue_size =
     (if queue_size + encoded_size > kMaxSendQueueSize
      then drop_oldest encoded_size ps (queue_size - length (qp_data p))
      else (p # ps, queue_size))"

definition tcp_send_proxy_data ::
  "TcpClient \<Rightarrow> ProxyDataHeader \<Rightarrow> byte list option \<Rightarrow> nat \<Rightarrow> u64 \<Rightarrow> ClientResult \<times> TcpClient" where
  "tcp_send_proxy_data c header data data_size now_ms =
     (if \<not> tcp_is_connected c then (ClientResult.NotConnected, c)
      else case encode_proxy_data (tc_send_buffer c) (pdh_info header) data data_size of
        (result, buffer, encoded_size) \<Rightarrow>
          let c = c\<lparr>tc_send_buffer := buffer\<rparr> in
          if result \<noteq> EncodeResult.Success then (ClientResult.EncodingError, c)
          else (case drop_oldest encoded_size (tc_send_queue c) (tc_send_queue_size c) of (q, n) \<Rightarrow>
            (ClientResult.Success,
             c\<lparr>tc_send_queue := q @ [\<lparr>qp_timestamp_ms = now_ms, qp_data = take encoded_size buffer\<rparr>],
               tc_send_queue_size := n + encoded_size\<rparr>)))"

subsection \<open>Receiving\<close>

definition receive_into_buffer :: "TcpClient \<Rightarrow> int \<Rightarrow> ClientResult \<times> TcpClient" where
  "receive_into_buffer c timeout_ms =
     (case sk_recv (tc_socket c) kRecvChunk timeout_ms of (recv_result, received, s) \<Rightarrow>
        let c = c\<lparr>tc_socket := s\<rparr> in
        if recv_result = SocketResult.WouldBlock then (ClientResult.Timeout, c)
        else if recv_result = SocketResult.Timeout then (ClientResult.Timeout, c)
        else if recv_result = SocketResult.Closed then (ClientResult.ConnectionLost, c)
        else if recv_result \<noteq> SocketResult.Success then (socket_to_client_result recv_result, c)
        else if received = [] then (ClientResult.ConnectionLost, c)
        else (case pb_append (tc_recv_buffer c) received of (append_result, b) \<Rightarrow>
          let c = c\<lparr>tc_recv_buffer := b\<rparr> in
          if append_result \<noteq> BufferResult.Success then (ClientResult.InvalidPacket, c)
          else (ClientResult.Success, c)))"

text \<open>Each round of the loop that goes on has used up a receive outcome or a part of one.\<close>

fun recv_measure :: "recv_outcome list \<Rightarrow> nat" where
  "recv_measure [] = 0"
| "recv_measure (Data d # rs) = Suc (length d) + recv_measure rs"
| "recv_measure (RecvErrno e # rs) = Suc (recv_measure rs)"

lemma sk_recv_now_measure:
  "sk_recv_now s n = (SocketResult.Success, d, s') \<Longrightarrow> 0 < n \<Longrightarrow>
    recv_measure (os_recv (sk_os s')) < recv_measure (os_recv (sk_os s))"
  by (auto simp: sk_recv_now_def Let_def split: list.splits recv_outcome.splits if_splits)

lemma sk_recv_measure:
  assumes "sk_recv s n t = (SocketResult.Success, d, s')" and "0 < n"
  shows "recv_measure (os_recv (sk_os s')) < recv_measure (os_recv (sk_os s))"
proof -
  obtain w s1 where w: "sk_wait_ready s = (w, s1)"
    by (metis surj_pair)
  show ?thesis
    using assms sk_recv_now_measure [of s n d s'] sk_recv_now_measure [of s1 n d s']
      sk_wait_ready_pending [OF w] w
    by (auto simp: sk_recv_def split: if_splits)
qed

lemma receive_into_buffer_measure:
  assumes "receive_into_buffer c t = (ClientResult.Success, c')"
  shows "recv_measure (os_recv (sk_os (tc_socket c'))) < recv_measure (os_recv (sk_os (tc_socket c)))"
proof -
  obtain r d s where r: "sk_recv (tc_socket c) kRecvChunk t = (r, d, s)"
    by (metis prod_cases3)
  have "socket_to_client_result r = ClientResult.Success \<Longrightarrow>
      r = SocketResult.Success \<or> r = SocketResult.WouldBlock"
    by (cases r) simp_all
  then have "r = SocketResult.Success" "tc_socket c' = s"
    using assms r by (auto simp: receive_into_buffer_def Let_def split: if_splits prod.splits)
  then show ?thesis
    using sk_recv_measure [of "tc_socket c" kRecvChunk t d s] r by (simp add: kRecvChunk_def)
qed

function recv_until_complete :: "TcpClient \<Rightarrow> int \<Rightarrow> ClientResult \<times> TcpClient" where
  "recv_until_complete c timeout_ms =
     (if pb_has_complete_packet (tc_recv_buffer c) then (ClientResult.Success, c)
      else (case receive_into_buffer c timeout_ms of (result, c') \<Rightarrow>
        if result \<noteq> ClientResult.Success then (result, c')
        else recv_until_complete c' timeout_ms))"
  by pat_completeness auto
termination
proof (relation "measure (\<lambda>(c, t). recv_measure (os_recv (sk_os (tc_socket c))))", goal_cases)
  case 1
  then show ?case by simp
next
  case (2 c t r c')
  then show ?case
    using receive_into_buffer_measure [of c t c'] by auto
qed

declare recv_until_complete.simps [simp del]

record received =
  rx_type :: PacketId
  rx_payload :: "byte list"

text \<open>
  The out-parameters: \<^verbatim>\<open>payload_size\<close> is set whenever a packet was found, the type and
  payload only on success.
\<close>

definition receive_packet ::
  "TcpClient \<Rightarrow> nat \<Rightarrow> int \<Rightarrow> ClientResult \<times> nat \<times> received option \<times> TcpClient" where
  "receive_packet c payload_buffer_size timeout_ms =
     (if \<not> tcp_is_connected c then (ClientResult.NotConnected, 0, None, c)
      else (case recv_until_complete c timeout_ms of (recv_result, c) \<Rightarrow>
        if recv_result \<noteq> ClientResult.Success then (recv_result, 0, None, c)
        else (case pb_peek_packet_info (tc_recv_buffer c) of (peek_result, packet_size) \<Rightarrow>
          if peek_result \<noteq> BufferResult.Success then (ClientResult.InvalidPacket, 0, None, c)
          else (case decode_header (pb_contents (tc_recv_buffer c)) of
            (DecodeResult.Success, Some header) \<Rightarrow>
              (let n = nat (sint (hdr_data_size header)) in
               if n > payload_buffer_size then (ClientResult.BufferTooSmall, n, None, c)
               else (ClientResult.Success, n,
                     Some \<lparr>rx_type = packet_id_cast (hdr_type header),
                           rx_payload = slice 12 n (m_buffer (tc_recv_buffer c))\<rparr>,
                     c\<lparr>tc_recv_buffer := pb_consume (tc_recv_buffer c) packet_size\<rparr>))
          | _ \<Rightarrow> (ClientResult.InvalidPacket, 0, None, c)))))"

definition tcp_has_packet_available :: "TcpClient \<Rightarrow> bool" where
  "tcp_has_packet_available c \<longleftrightarrow> pb_has_complete_packet (tc_recv_buffer c)"

subsection \<open>Invariant of the client\<close>

definition queue_bytes :: "QueuedPacket list \<Rightarrow> nat" where
  "queue_bytes q = sum_list (map (\<lambda>p. length (qp_data p)) q)"

definition tcp_inv :: "TcpClient \<Rightarrow> bool" where
  "tcp_inv c \<longleftrightarrow> pb_inv (tc_recv_buffer c) \<and> pb_capacity (tc_recv_buffer c) = kRecvBufferSize \<and>
     length (tc_send_buffer c) = kSendBufferSize \<and>
     tc_send_queue_size c = queue_bytes (tc_send_queue c) \<and> tc_send_queue_size c \<le> kMaxSendQueueSize"

lemma queue_bytes_simps [simp]:
  "queue_bytes [] = 0"
  "queue_bytes (p # q) = length (qp_data p) + queue_bytes q"
  "queue_bytes (q @ q') = queue_bytes q + queue_bytes q'"
  by (simp_all add: queue_bytes_def)

lemma tcp_new_inv: "tcp_inv (tcp_new w)"
  by (simp add: tcp_inv_def tcp_new_def pb_new_inv, simp add: pb_new_def pb_capacity_def)

lemma tcp_disconnect_inv: "tcp_inv c \<Longrightarrow> tcp_inv (tcp_disconnect c)"
  by (simp add: tcp_inv_def tcp_disconnect_def Let_def)

lemma tcp_inv_updates [simp]:
  "tcp_inv (c\<lparr>tc_socket := s\<rparr>) = tcp_inv c"
  "tcp_inv (c\<lparr>tc_thread_running := r\<rparr>) = tcp_inv c"
  "tcp_inv (c\<lparr>tc_thread_started := r\<rparr>) = tcp_inv c"
  by (simp_all add: tcp_inv_def)

lemma tcp_connect_inv:
  assumes "tcp_inv c"
  shows "tcp_inv (snd (tcp_connect c host port t tls))"
proof -
  define c1 where "c1 = tcp_disconnect c"
  obtain r s where con: "sk_connect (tc_socket c1) host port t tls = (r, s)"
    by (metis surj_pair)
  have inv: "tcp_inv c1"
    using tcp_disconnect_inv [OF assms] by (simp add: c1_def)
  then have "tcp_inv (c1\<lparr>tc_recv_buffer := pb_reset (tc_recv_buffer c1), tc_thread_running := True,
      tc_send_queue := [], tc_send_queue_size := 0\<rparr>)"
    and "tcp_inv (c1\<lparr>tc_recv_buffer := pb_reset (tc_recv_buffer c1),
      tc_send_queue := [], tc_send_queue_size := 0\<rparr>)"
    by (simp_all add: tcp_inv_def)
  then show ?thesis
    using assms inv
    by (cases "os_thread (sk_os s)")
      (simp_all add: tcp_connect_def c1_def [symmetric] con Let_def split: bool.split)
qed

lemma drop_oldest_spec:
  assumes "drop_oldest n q k = (q', k')" and "k = queue_bytes q"
  shows "k' = queue_bytes q' \<and> (\<exists>d. q = d @ q') \<and> (k' + n \<le> kMaxSendQueueSize \<or> q' = [])"
  using assms
proof (induction n q k rule: drop_oldest.induct)
  case (2 n p ps k)
  show ?case
  proof (cases "k + n > kMaxSendQueueSize")
    case True
    then have "drop_oldest n ps (k - length (qp_data p)) = (q', k')"
      and "k - length (qp_data p) = queue_bytes ps"
      using "2.prems" by simp_all
    from "2.IH" [OF True this] show ?thesis
      by (metis append_Cons)
  next
    case False
    then show ?thesis
      using "2.prems" by (intro conjI exI [of _ "[]"]) auto
  qed
qed auto

lemma encode_proxy_data_length:
  assumes "encode_proxy_data b info data n = (r, b', k)" and "\<And>d. data = Some d \<Longrightarrow> n \<le> length d"
  shows "length b' = length b \<and> k \<le> length b"
proof -
  have "length (ProxyDataHeader_to_bytes \<lparr>pdh_info = info, pdh_data_length = m\<rparr>) = 20" for m
    by (rule ProxyDataHeader_wire.len_to) (simp add: wf_ProxyDataHeader_def wf_ProxyInfo_def)
  then show ?thesis
    using assms
    by (cases data; cases "length b < 32 + n"; cases "n = 0")
      (auto simp: encode_proxy_data_def encode_with_data_def encode_header_def Let_def)
qed

lemma tcp_send_proxy_data_inv:
  assumes "tcp_inv c" and "\<And>d. data = Some d \<Longrightarrow> n \<le> length d"
  shows "tcp_inv (snd (tcp_send_proxy_data c h data n now))"
proof -
  obtain r b k where e: "encode_proxy_data (tc_send_buffer c) (pdh_info h) data n = (r, b, k)"
    by (metis prod_cases3)
  obtain q m where d: "drop_oldest k (tc_send_queue c) (tc_send_queue_size c) = (q, m)"
    by (metis surj_pair)
  have b: "length b = kSendBufferSize" "k \<le> kSendBufferSize"
    using encode_proxy_data_length [OF e assms(2)] assms(1) by (simp_all add: tcp_inv_def)
  have "m = queue_bytes q" "m + k \<le> kMaxSendQueueSize"
    using drop_oldest_spec [OF d] assms(1) b
    by (auto simp: tcp_inv_def kMaxSendQueueSize_def kSendBufferSize_def)
  then show ?thesis
    using assms(1) b d by (simp add: tcp_send_proxy_data_def e Let_def tcp_inv_def min_def)
qed

subsection \<open>What a send puts on the wire\<close>

definition tc_wire :: "TcpClient \<Rightarrow> byte list" where
  "tc_wire c = sk_wire (tc_socket c)"

lemma socket_to_client_success:
  "socket_to_client_result r = ClientResult.Success \<longleftrightarrow>
    r = SocketResult.Success \<or> r = SocketResult.WouldBlock"
  by (cases r) simp_all

text \<open>
  A blocking \<^verbatim>\<open>send_all\<close> reports \<^verbatim>\<open>WouldBlock\<close> only when \<^verbatim>\<open>poll\<close> fails with
  \<^verbatim>\<open>EAGAIN\<close>, which the system does not do; \<open>poll_sane\<close> names that.
\<close>

definition poll_sane :: "Socket \<Rightarrow> bool" where
  "poll_sane s \<longleftrightarrow> PollErrno EAGAIN \<notin> set (os_poll (sk_os s))"

lemma sk_wait_ready_sane:
  "sk_wait_ready s = (r, s') \<Longrightarrow> poll_sane s \<Longrightarrow> poll_sane s' \<and> r \<noteq> SocketResult.WouldBlock"
  by (auto simp: sk_wait_ready_def poll_sane_def Let_def split: list.splits poll_outcome.splits
      elim: errno_to_result.elims)

lemma sk_send_sane: "sk_send s d = (r, n, s') \<Longrightarrow> poll_sane s' = poll_sane s"
  by (auto simp: sk_send_def poll_sane_def Let_def split: if_splits list.splits send_outcome.splits)

lemma sk_send_all_loop_sane:
  "sk_send_all_loop s data n z = (r, s') \<Longrightarrow> \<not> z \<Longrightarrow> poll_sane s \<Longrightarrow> r \<noteq> SocketResult.WouldBlock"
proof (induction s data n z arbitrary: r s' rule: sk_send_all_loop.induct)
  case (1 s data n z)
  obtain r1 sent s1 where snd1: "sk_send s (drop n data) = (r1, sent, s1)"
    by (metis prod_cases3)
  obtain w s2 where wr: "sk_wait_ready s1 = (w, s2)"
    by (metis surj_pair)
  note unf = "1.prems"(1) [unfolded sk_send_all_loop.simps [of s data n z] snd1 prod.case wr]
  have sane: "poll_sane s1" "poll_sane s2" "w \<noteq> SocketResult.WouldBlock"
    using sk_send_sane [OF snd1] sk_wait_ready_sane [OF wr] "1.prems"(3) by auto
  show ?case
    using unf "1.prems"(2) "1.IH"(1) [OF _ snd1 [symmetric] refl _ _ wr [symmetric], of r s']
      "1.IH"(2) [OF _ snd1 [symmetric] refl, of r s'] sane
    by (auto split: if_splits)
qed

lemma tcp_send_bytes_wire:
  assumes "tcp_send_bytes c d = (r, c')"
  shows "\<exists>k\<le>length d. tc_wire c' = tc_wire c @ take k d \<and>
    (r = ClientResult.Success \<longrightarrow> poll_sane (tc_socket c) \<longrightarrow> k = length d)"
proof -
  obtain sr s where s: "sk_send_all (tc_socket c) d = (sr, s)"
    by (metis surj_pair)
  have r: "r = socket_to_client_result sr" "c' = c\<lparr>tc_socket := s\<rparr>"
    using assms s by (simp_all add: tcp_send_bytes_def)
  have "poll_sane (tc_socket c) \<Longrightarrow> sr \<noteq> SocketResult.WouldBlock"
    using sk_send_all_loop_sane [OF s [unfolded sk_send_all_def]] by simp
  then show ?thesis
    using sk_send_all_wire [OF s] r by (auto simp: tc_wire_def socket_to_client_success)
qed

text \<open>
  Every sender that encodes a packet into the send buffer either puts exactly that packet on
  the wire and succeeds, or leaves a prefix of it there and reports an error.
\<close>

lemma tcp_send_encoded_wire:
  assumes "tcp_send_encoded c enc = (r, c')"
    and "enc (tc_send_buffer c) = (EncodeResult.Success, memcpy (tc_send_buffer c) 0 p, length p)"
  shows "\<exists>k\<le>length p. tc_wire c' = tc_wire c @ take k p \<and>
    (r = ClientResult.Success \<longrightarrow> poll_sane (tc_socket c) \<longrightarrow> k = length p)"
proof (cases "tcp_is_connected c")
  case True
  let ?c = "c\<lparr>tc_send_buffer := memcpy (tc_send_buffer c) 0 p\<rparr>"
  have "tcp_send_bytes ?c p = (r, c')"
    using assms True by (simp add: tcp_send_encoded_def take_memcpy_0)
  then show ?thesis
    using tcp_send_bytes_wire [of ?c p r c'] by (simp add: tc_wire_def)
next
  case False
  then show ?thesis
    using assms(1) by (intro exI [of _ 0]) (simp add: tcp_send_encoded_def)
qed

subsection \<open>What a receive delivers\<close>

text \<open>
  A message is a packet type and a payload. \<open>tc_stream\<close> is what the server has sent and the
  client has not consumed: the reassembly buffer, then what the system still holds. A message
  fits when a buffer with an incomplete one still takes a whole receive chunk.
\<close>

type_synonym message = "PacketId \<times> byte list"

definition packets :: "message list \<Rightarrow> byte list" where
  "packets ms = concat (map (\<lambda>(ty, d). packet ty d) ms)"

definition message_fits :: "message \<Rightarrow> bool" where
  "message_fits m \<longleftrightarrow> packet_id_enumerator (fst m) \<and> length (snd m) \<le> kRecvBufferSize - kRecvChunk - 11"

definition tc_stream :: "TcpClient \<Rightarrow> byte list" where
  "tc_stream c = pb_contents (tc_recv_buffer c) @ sk_pending (tc_socket c)"

lemma packets_simps [simp]:
  "packets [] = []"
  "packets ((ty, d) # ms) = packet ty d @ packets ms"
  by (simp_all add: packets_def)

lemma fits_max: "message_fits (ty, d) \<Longrightarrow> length d \<le> MAX_PACKET_SIZE \<and> length d \<le> 4085"
  by (simp add: message_fits_def kRecvBufferSize_def kRecvChunk_def MAX_PACKET_SIZE_def)

lemma incomplete_front:
  assumes "pb_inv b" and "\<not> pb_has_complete_packet b" and "length d \<le> MAX_PACKET_SIZE"
    and "pb_contents b @ x = packet ty d @ y"
  shows "length (pb_contents b) < 12 + length d"
proof (rule ccontr)
  assume "\<not> ?thesis"
  then have "take (length (packet ty d)) (pb_contents b) = packet ty d"
    using arg_cong [OF assms(4), of "take (length (packet ty d))"] by simp
  then have "pb_contents b = packet ty d @ drop (12 + length d) (pb_contents b)"
    by (metis append_take_drop_id length_packet)
  then show False
    using front_packet(1) [OF assms(1) _ assms(3)] assms(2) by blast
qed

lemma complete_front:
  assumes "pb_inv b" and "pb_has_complete_packet b" and "length d \<le> MAX_PACKET_SIZE"
    and "pb_contents b @ x = packet ty d @ y"
  shows "\<exists>rest. pb_contents b = packet ty d @ rest \<and> rest @ x = y"
proof -
  consider (short) us where "packet ty d = pb_contents b @ us" "us \<noteq> []"
    | (full) us where "pb_contents b = packet ty d @ us" "us @ x = y"
    using assms(4) by (auto simp: append_eq_append_conv2) (metis append_Nil2)
  then show ?thesis
  proof cases
    case short
    then show ?thesis
      using front_incomplete [OF assms(1) short(1,2) assms(3)] assms(2) by blast
  qed blast
qed

lemma room_for_chunk:
  assumes "tcp_inv c" and "\<not> pb_has_complete_packet (tc_recv_buffer c)" and "list_all message_fits ms"
    and "tc_stream c @ rest = packets ms" and "length d \<le> kRecvChunk"
    and "sk_pending (tc_socket c) = d @ p"
  shows "length (pb_contents (tc_recv_buffer c)) + length d \<le> kRecvBufferSize"
proof (cases ms)
  case Nil
  then show ?thesis
    using assms(4,6) by (simp add: tc_stream_def)
next
  case (Cons m ms')
  obtain ty payload where m: "m = (ty, payload)"
    by (metis surj_pair)
  have fit: "length payload \<le> MAX_PACKET_SIZE \<and> length payload \<le> 4085"
    using assms(3) Cons m fits_max by auto
  have "length (pb_contents (tc_recv_buffer c)) < 12 + length payload"
    using assms(1,2,4) fit Cons m
    by (intro incomplete_front [of _ _ "sk_pending (tc_socket c) @ rest" ty "packets ms'"])
      (simp_all add: tcp_inv_def tc_stream_def)
  then show ?thesis
    using fit assms(5) by (simp add: kRecvChunk_def kRecvBufferSize_def)
qed

lemma socket_to_client_not_packet [simp]:
  "socket_to_client_result r \<noteq> ClientResult.InvalidPacket"
  "socket_to_client_result r \<noteq> ClientResult.BufferTooSmall"
  by (cases r; simp)+

lemma receive_into_buffer_stream:
  assumes "receive_into_buffer c t = (r, c')" and "tcp_inv c"
    and "\<not> pb_has_complete_packet (tc_recv_buffer c)" and "list_all message_fits ms"
    and "tc_stream c @ rest = packets ms"
  shows "tcp_inv c' \<and> tc_stream c' = tc_stream c \<and> r \<noteq> ClientResult.InvalidPacket \<and>
    r \<noteq> ClientResult.BufferTooSmall"
proof -
  obtain sr d s where rcv: "sk_recv (tc_socket c) kRecvChunk t = (sr, d, s)"
    by (metis prod_cases3)
  note pend = sk_recv_pending [OF rcv]
  have fits: "length (pb_contents (tc_recv_buffer c)) + length d \<le> pb_capacity (tc_recv_buffer c)"
    using room_for_chunk [OF assms(2-5), of d "sk_pending s"] pend assms(2) by (simp add: tcp_inv_def)
  obtain b where b: "pb_append (tc_recv_buffer c) d = (BufferResult.Success, b)" "pb_inv b"
    "pb_contents b = pb_contents (tc_recv_buffer c) @ d" "pb_capacity b = pb_capacity (tc_recv_buffer c)"
    using pb.append_fits [OF _ fits] assms(2) by (auto simp: tcp_inv_def)
  have d: "sr \<noteq> SocketResult.Success \<Longrightarrow> d = []"
    using rcv by (auto simp: sk_recv_def sk_recv_now_def Let_def split: if_splits prod.splits list.splits recv_outcome.splits)
  show ?thesis
  proof (cases "sr = SocketResult.Success \<and> d \<noteq> []")
    case True
    then have "r = ClientResult.Success" "c' = c\<lparr>tc_socket := s, tc_recv_buffer := b\<rparr>"
      using assms(1) rcv b by (auto simp: receive_into_buffer_def Let_def)
    then show ?thesis
      using assms(2) b pend by (simp add: tcp_inv_def tc_stream_def)
  next
    case False
    then have "c' = c\<lparr>tc_socket := s\<rparr>" "r \<noteq> ClientResult.InvalidPacket" "r \<noteq> ClientResult.BufferTooSmall"
      using assms(1) rcv by (auto simp: receive_into_buffer_def Let_def split: if_splits)
    then show ?thesis
      using assms(2) False d pend by (auto simp: tc_stream_def)
  qed
qed

lemma recv_until_complete_stream:
  assumes "list_all message_fits ms"
  shows "recv_until_complete c t = (r, c') \<Longrightarrow> tcp_inv c \<Longrightarrow> tc_stream c @ rest = packets ms \<Longrightarrow>
    tcp_inv c' \<and> tc_stream c' = tc_stream c \<and> r \<noteq> ClientResult.InvalidPacket \<and>
    r \<noteq> ClientResult.BufferTooSmall \<and>
    (r = ClientResult.Success \<longrightarrow> pb_has_complete_packet (tc_recv_buffer c'))"
proof (induction c t arbitrary: r c' rule: recv_until_complete.induct)
  case (1 c t)
  obtain r1 c1 where r1: "receive_into_buffer c t = (r1, c1)"
    by (metis surj_pair)
  note unf = "1.prems"(1) [unfolded recv_until_complete.simps [of c t] r1 prod.case]
  show ?case
  proof (cases "pb_has_complete_packet (tc_recv_buffer c)")
    case True
    then show ?thesis
      using unf "1.prems" by auto
  next
    case False
    note step = receive_into_buffer_stream [OF r1 "1.prems"(2) False assms "1.prems"(3)]
    show ?thesis
      using unf False step "1.IH" [OF False r1 [symmetric], of r c'] "1.prems"(3)
      by (auto split: if_splits)
  qed
qed

lemma slice_contents:
  "off + n \<le> m_write_pos b \<Longrightarrow> slice off n (m_buffer b) = slice off n (pb_contents b)"
  by (simp add: slice_def pb_contents_def drop_take min_def)

lemma packets_nonempty:
  assumes "pb_inv b" and "pb_has_complete_packet b" and "pb_contents b @ x = packets ms"
  obtains ty d ms' where "ms = (ty, d) # ms'"
proof (cases ms)
  case Nil
  then show ?thesis
    using assms by (simp add: pb_has_complete_packet_def length_contents [symmetric])
next
  case (Cons m ms')
  then show ?thesis
    using that by (metis surj_pair)
qed

text \<open>The first packet of the stream, once it is complete in the buffer, is the one extracted.\<close>

lemma receive_complete:
  assumes "tcp_inv c" and "pb_has_complete_packet (tc_recv_buffer c)" and "list_all message_fits ms"
    and "tc_stream c @ rest = packets ms" and "tcp_is_connected c"
    and "list_all (\<lambda>m. length (snd m) \<le> n) ms"
  shows "\<exists>ty d ms' c'. ms = (ty, d) # ms' \<and>
    receive_packet c n t = (ClientResult.Success, length d, Some \<lparr>rx_type = ty, rx_payload = d\<rparr>, c') \<and>
    tcp_inv c' \<and> tc_stream c' @ rest = packets ms' \<and> tc_socket c' = tc_socket c"
proof -
  let ?b = "tc_recv_buffer c"
  have inv: "pb_inv ?b"
    using assms(1) by (simp add: tcp_inv_def)
  have str: "pb_contents ?b @ sk_pending (tc_socket c) @ rest = packets ms"
    using assms(4) by (simp add: tc_stream_def)
  obtain ty d ms' where ms: "ms = (ty, d) # ms'"
    using packets_nonempty [OF inv assms(2) str] .
  have d: "length d \<le> MAX_PACKET_SIZE" "packet_id_enumerator ty" "length d \<le> n"
    using assms(3,6) ms fits_max [of ty d] by (auto simp: message_fits_def)
  obtain tail where tail: "pb_contents ?b = packet ty d @ tail"
    "tail @ sk_pending (tc_socket c) @ rest = packets ms'"
    using complete_front [OF inv assms(2) d(1), of "sk_pending (tc_socket c) @ rest" ty "packets ms'"] str ms
    by auto
  note front = front_packet [OF inv tail(1) d(1)]
  have "slice 12 (length d) (m_buffer ?b) = d"
    using length_contents [OF inv] tail(1) slice_contents [of 12 "length d" ?b]
      slice_packet [of "length d" ty d tail] by simp
  then have "receive_packet c n t = (ClientResult.Success, length d, Some \<lparr>rx_type = ty, rx_payload = d\<rparr>,
      c\<lparr>tc_recv_buffer := pb_consume ?b (12 + length d)\<rparr>)"
    using assms(2,5) front d payload_size_packet [OF d(1), of ty]
    by (simp add: receive_packet_def recv_until_complete.simps [of c t] packet_id_cast_byte make_header_def)
  moreover have "tcp_inv (c\<lparr>tc_recv_buffer := pb_consume ?b (12 + length d)\<rparr>)"
    using assms(1) by (simp add: tcp_inv_def pb_consume_inv pb_consume_capacity)
  moreover have "tc_stream (c\<lparr>tc_recv_buffer := pb_consume ?b (12 + length d)\<rparr>) @ rest = packets ms'"
    using tail inv by (simp add: tc_stream_def pb_consume_contents)
  ultimately show ?thesis
    using ms by auto
qed

lemma receive_packet_via:
  assumes "recv_until_complete c t = (ClientResult.Success, c1)" and "tcp_is_connected c"
    and "tcp_is_connected c1" and "pb_has_complete_packet (tc_recv_buffer c1)"
  shows "receive_packet c n t = receive_packet c1 n t"
  using assms by (simp add: receive_packet_def recv_until_complete.simps [of c1 t])

lemma sk_recv_success_connected:
  assumes "sk_recv s n t = (SocketResult.Success, d, s')"
  shows "sk_connected s'"
proof -
  have "sk_wait_ready s = (SocketResult.Success, s1) \<Longrightarrow> sk_connected s1 = sk_connected s" for s1
    by (auto simp: sk_wait_ready_def Let_def split: list.splits poll_outcome.splits)
  moreover have "sk_recv_now s1 n = (SocketResult.Success, d, s') \<Longrightarrow> sk_connected s' = sk_connected s1" for s1
    by (auto simp: sk_recv_now_def Let_def split: list.splits recv_outcome.splits if_splits)
  ultimately show ?thesis
    using assms by (auto simp: sk_recv_def split: if_splits prod.splits)
qed

lemma recv_until_complete_connected:
  "recv_until_complete c t = (ClientResult.Success, c') \<Longrightarrow> tcp_is_connected c \<Longrightarrow> tcp_is_connected c'"
proof (induction c t arbitrary: c' rule: recv_until_complete.induct)
  case (1 c t)
  obtain r1 c1 where r1: "receive_into_buffer c t = (r1, c1)"
    by (metis surj_pair)
  note unf = "1.prems"(1) [unfolded recv_until_complete.simps [of c t] r1 prod.case]
  have "r1 = ClientResult.Success \<Longrightarrow> tcp_is_connected c1"
    using r1 sk_recv_success_connected [of "tc_socket c" kRecvChunk t]
    by (auto simp: receive_into_buffer_def tcp_is_connected_def sk_is_connected_def Let_def
        socket_to_client_success split: if_splits prod.splits)
  then show ?case
    using unf "1.IH" [OF _ r1 [symmetric], of c'] "1.prems"(2) by (auto split: if_splits)
qed

text \<open>
  In-order delivery: a receive returns the first message of the stream, or reports a timeout
  or the loss of the connection and consumes nothing.
\<close>

lemma receive_packet_stream:
  assumes "receive_packet c n t = (r, k, rx, c')" and "tcp_inv c" and "list_all message_fits ms"
    and "list_all (\<lambda>m. length (snd m) \<le> n) ms" and "tc_stream c @ rest = packets ms"
  shows "tcp_inv c' \<and> r \<noteq> ClientResult.InvalidPacket \<and> r \<noteq> ClientResult.BufferTooSmall \<and>
    (case rx of
       Some p \<Rightarrow> r = ClientResult.Success \<and> k = length (rx_payload p) \<and>
         (\<exists>ms'. ms = (rx_type p, rx_payload p) # ms' \<and> tc_stream c' @ rest = packets ms')
     | None \<Rightarrow> r \<noteq> ClientResult.Success \<and> tc_stream c' = tc_stream c)"
proof (cases "tcp_is_connected c")
  case False
  then show ?thesis
    using assms by (auto simp: receive_packet_def)
next
  case True
  obtain r1 c1 where r1: "recv_until_complete c t = (r1, c1)"
    by (metis surj_pair)
  note str = recv_until_complete_stream [OF assms(3) r1 assms(2,5)]
  show ?thesis
  proof (cases "r1 = ClientResult.Success")
    case False
    then show ?thesis
      using assms(1) True r1 str by (auto simp: receive_packet_def)
  next
    case ok: True
    have con: "tcp_is_connected c1"
      using recv_until_complete_connected r1 ok True by blast
    have "receive_packet c1 n t = (r, k, rx, c')"
      using assms(1) receive_packet_via [of c t c1 n] r1 ok True con str by simp
    then show ?thesis
      using receive_complete [of c1 ms rest n t] str ok con assms by auto
  qed
qed

subsection \<open>A receive returns\<close>

text \<open>
  A system that delivers: the socket is connected, what it holds is data, and, when the
  receive has a timeout, \<^verbatim>\<open>poll\<close> reports readiness as long as data is left.
\<close>

fun is_data :: "recv_outcome \<Rightarrow> bool" where
  "is_data (Data d) \<longleftrightarrow> d \<noteq> []"
| "is_data (RecvErrno e) \<longleftrightarrow> False"

definition delivering :: "Socket \<Rightarrow> int \<Rightarrow> bool" where
  "delivering s t \<longleftrightarrow> sk_connected s \<and> list_all is_data (os_recv (sk_os s)) \<and>
     (t \<le> 0 \<or> recv_measure (os_recv (sk_os s)) \<le> length (takeWhile (\<lambda>p. p = PollReady) (os_poll (sk_os s))))"

lemma recv_now_delivers:
  assumes "list_all is_data (os_recv (sk_os s))" and "sk_pending s \<noteq> []" and "0 < n"
  shows "\<exists>d s'. sk_recv_now s n = (SocketResult.Success, d, s') \<and> sk_connected s' = sk_connected s \<and>
    list_all is_data (os_recv (sk_os s')) \<and> os_poll (sk_os s') = os_poll (sk_os s)"
  using assms
  by (auto simp: sk_recv_now_def sk_pending_def split: list.splits recv_outcome.splits)

lemma delivering_recv:
  assumes "delivering s t" and "sk_pending s \<noteq> []" and "0 < n"
  shows "\<exists>d s'. sk_recv s n t = (SocketResult.Success, d, s') \<and> delivering s' t"
proof (cases "t > 0")
  case False
  then show ?thesis
    using recv_now_delivers [OF _ assms(2,3)] assms(1) by (auto simp: delivering_def sk_recv_def)
next
  case True
  have "0 < recv_measure (os_recv (sk_os s))"
    using assms(2) by (cases "os_recv (sk_os s)" rule: recv_measure.cases) (auto simp: sk_pending_def)
  then obtain ps where ps: "os_poll (sk_os s) = PollReady # ps"
    "recv_measure (os_recv (sk_os s)) \<le> Suc (length (takeWhile (\<lambda>p. p = PollReady) ps))"
    using assms(1) True by (cases "os_poll (sk_os s)") (auto simp: delivering_def split: if_splits)
  let ?s = "s\<lparr>sk_os := (sk_os s)\<lparr>os_poll := ps\<rparr>\<rparr>"
  obtain d s' where rcv: "sk_recv_now ?s n = (SocketResult.Success, d, s')" "sk_connected s' = sk_connected s"
    "list_all is_data (os_recv (sk_os s'))" "os_poll (sk_os s') = ps"
    using recv_now_delivers [of ?s n] assms by (auto simp: delivering_def sk_pending_def)
  have "sk_recv s n t = (SocketResult.Success, d, s')"
    using assms(1) True ps rcv(1) by (simp add: sk_recv_def sk_wait_ready_def delivering_def)
  then show ?thesis
    using sk_recv_now_measure [OF rcv(1) assms(3)] rcv ps assms(1) by (auto simp: delivering_def)
qed

lemma recv_until_complete_live:
  assumes "list_all message_fits ((ty, d) # ms)"
  shows "tcp_inv c \<Longrightarrow> tc_stream c @ rest = packets ((ty, d) # ms) \<Longrightarrow>
    12 + length d \<le> length (tc_stream c) \<Longrightarrow> delivering (tc_socket c) t \<Longrightarrow>
    \<exists>c'. recv_until_complete c t = (ClientResult.Success, c') \<and> delivering (tc_socket c') t"
proof (induction c t rule: recv_until_complete.induct)
  case (1 c t)
  show ?case
  proof (cases "pb_has_complete_packet (tc_recv_buffer c)")
    case True
    then show ?thesis
      using "1.prems"(4) by (simp add: recv_until_complete.simps [of c t])
  next
    case False
    have "length (pb_contents (tc_recv_buffer c)) < 12 + length d"
      using "1.prems"(1,2) False assms fits_max [of ty d]
      by (intro incomplete_front [of _ _ "sk_pending (tc_socket c) @ rest" ty "packets ms"])
        (simp_all add: tcp_inv_def tc_stream_def)
    then have "sk_pending (tc_socket c) \<noteq> []"
      using "1.prems"(3) by (auto simp: tc_stream_def)
    then obtain x s where rcv: "sk_recv (tc_socket c) kRecvChunk t = (SocketResult.Success, x, s)" "delivering s t"
      using delivering_recv [OF "1.prems"(4), of kRecvChunk] by (auto simp: kRecvChunk_def)
    obtain r1 c1 where r1: "receive_into_buffer c t = (r1, c1)"
      by (metis surj_pair)
    note str = receive_into_buffer_stream [OF r1 "1.prems"(1) False assms "1.prems"(2)]
    have "x \<noteq> []"
      using sk_recv_nonempty [OF rcv(1)] by (simp add: kRecvChunk_def)
    then have ok: "r1 = ClientResult.Success" "tc_socket c1 = s"
      using r1 rcv(1) str by (auto simp: receive_into_buffer_def Let_def split: prod.splits if_splits)
    have "\<exists>c'. recv_until_complete c1 t = (ClientResult.Success, c') \<and> delivering (tc_socket c') t"
      using "1.IH" [OF False r1 [symmetric]] ok str "1.prems" rcv(2) by auto
    then show ?thesis
      using False r1 ok by (simp add: recv_until_complete.simps [of c t])
  qed
qed

lemma receive_packet_live:
  assumes "tcp_inv c" and "list_all message_fits ((ty, d) # ms)"
    and "list_all (\<lambda>m. length (snd m) \<le> n) ((ty, d) # ms)"
    and "tc_stream c @ rest = packets ((ty, d) # ms)" and "12 + length d \<le> length (tc_stream c)"
    and "delivering (tc_socket c) t"
  shows "\<exists>c'. receive_packet c n t = (ClientResult.Success, length d, Some \<lparr>rx_type = ty, rx_payload = d\<rparr>, c') \<and>
    tcp_inv c' \<and> tc_stream c' @ rest = packets ms \<and> delivering (tc_socket c') t"
proof -
  obtain c1 where c1: "recv_until_complete c t = (ClientResult.Success, c1)" "delivering (tc_socket c1) t"
    using recv_until_complete_live [OF assms(2,1,4,5,6)] by blast
  note str = recv_until_complete_stream [OF assms(2) c1(1) assms(1,4)]
  have con: "tcp_is_connected c" "tcp_is_connected c1"
    using assms(6) recv_until_complete_connected [OF c1(1)]
    by (simp_all add: delivering_def tcp_is_connected_def sk_is_connected_def)
  show ?thesis
    using receive_complete [of c1 "(ty, d) # ms" rest n t] receive_packet_via [OF c1(1) con, of n] str con assms c1(2)
    by auto
qed

text \<open>
  A system that delivers sooner or later: besides data there may be receives that would block and polls that time out. Each of these
  hesitations ends one receive without a packet; the bytes that have come stay in the buffer for the next.
\<close>

definition patient :: "Socket \<Rightarrow> int \<Rightarrow> bool" where
  "patient s t \<longleftrightarrow> sk_connected s \<and> list_all (\<lambda>r. is_data r \<or> r = RecvErrno EAGAIN) (os_recv (sk_os s)) \<and>
     (t \<le> 0 \<or> list_all (\<lambda>p. p = PollReady \<or> p = PollTimeout) (os_poll (sk_os s)) \<and>
        recv_measure (os_recv (sk_os s)) \<le> length (filter (\<lambda>p. p = PollReady) (os_poll (sk_os s))))"

definition hesitations :: "os \<Rightarrow> nat" where
  "hesitations w = length (filter (\<lambda>r. r = RecvErrno EAGAIN) (os_recv w)) + length (filter (\<lambda>p. p = PollTimeout) (os_poll w))"

lemma patient_recv_now:
  assumes "list_all (\<lambda>r. is_data r \<or> r = RecvErrno EAGAIN) (os_recv (sk_os s))" and "sk_pending s \<noteq> []" and "0 < n"
  shows "\<exists>r d s'. sk_recv_now s n = (r, d, s') \<and> sk_connected s' = sk_connected s \<and> os_poll (sk_os s') = os_poll (sk_os s) \<and>
    list_all (\<lambda>r. is_data r \<or> r = RecvErrno EAGAIN) (os_recv (sk_os s')) \<and>
    recv_measure (os_recv (sk_os s')) < recv_measure (os_recv (sk_os s)) \<and>
    (r = SocketResult.Success \<and> hesitations (sk_os s') = hesitations (sk_os s) \<or>
     r = SocketResult.WouldBlock \<and> hesitations (sk_os s') < hesitations (sk_os s))"
  using assms
  by (auto simp: sk_recv_now_def sk_pending_def hesitations_def split: list.splits recv_outcome.splits)

lemma patient_recv:
  assumes "patient s t" and "sk_pending s \<noteq> []" and "0 < n"
  shows "\<exists>r d s'. sk_recv s n t = (r, d, s') \<and> patient s' t \<and>
    (r = SocketResult.Success \<and> hesitations (sk_os s') = hesitations (sk_os s) \<or>
     (r = SocketResult.WouldBlock \<or> r = SocketResult.Timeout) \<and> hesitations (sk_os s') < hesitations (sk_os s))"
proof (cases "t > 0")
  case False
  then show ?thesis
    using patient_recv_now [OF _ assms(2,3)] assms(1) by (auto simp: patient_def sk_recv_def)
next
  case True
  have "0 < recv_measure (os_recv (sk_os s))"
    using assms(2) by (cases "os_recv (sk_os s)" rule: recv_measure.cases) (auto simp: sk_pending_def)
  then obtain p ps where ps: "os_poll (sk_os s) = p # ps" "p = PollReady \<or> p = PollTimeout"
    using assms(1) True by (cases "os_poll (sk_os s)") (auto simp: patient_def)
  let ?s = "s\<lparr>sk_os := (sk_os s)\<lparr>os_poll := ps\<rparr>\<rparr>"
  show ?thesis
  proof (cases "p = PollReady")
    case False
    then have "sk_recv s n t = (SocketResult.Timeout, [], ?s)"
      using assms(1) True ps by (auto simp: sk_recv_def sk_wait_ready_def patient_def)
    moreover have "patient ?s t" "hesitations (sk_os ?s) < hesitations (sk_os s)"
      using assms(1) ps False by (auto simp: patient_def hesitations_def)
    ultimately show ?thesis by blast
  next
    case ready: True
    have pend: "sk_pending ?s \<noteq> []"
      using assms(2) by (simp add: sk_pending_def)
    obtain r d s' where rcv: "sk_recv_now ?s n = (r, d, s')" "sk_connected s' = sk_connected s" "os_poll (sk_os s') = ps"
      "list_all (\<lambda>r. is_data r \<or> r = RecvErrno EAGAIN) (os_recv (sk_os s'))"
      "recv_measure (os_recv (sk_os s')) < recv_measure (os_recv (sk_os s))"
      "r = SocketResult.Success \<and> hesitations (sk_os s') = hesitations (sk_os ?s) \<or>
       r = SocketResult.WouldBlock \<and> hesitations (sk_os s') < hesitations (sk_os ?s)"
      using patient_recv_now [OF _ pend assms(3)] assms(1) by (auto simp: patient_def)
    have "hesitations (sk_os ?s) = hesitations (sk_os s)"
      using ps ready by (simp add: hesitations_def)
    moreover have "sk_recv s n t = (r, d, s')"
      using assms(1) True ps ready rcv(1) by (simp add: sk_recv_def sk_wait_ready_def patient_def)
    ultimately show ?thesis
      using rcv ps ready assms(1) True by (auto simp: patient_def)
  qed
qed

lemma recv_until_complete_patient:
  assumes "list_all message_fits ((ty, d) # ms)"
  shows "tcp_inv c \<Longrightarrow> tc_stream c @ rest = packets ((ty, d) # ms) \<Longrightarrow>
    12 + length d \<le> length (tc_stream c) \<Longrightarrow> patient (tc_socket c) t \<Longrightarrow>
    \<exists>r c'. recv_until_complete c t = (r, c') \<and> patient (tc_socket c') t \<and>
      (r = ClientResult.Success \<or>
       r = ClientResult.Timeout \<and> hesitations (sk_os (tc_socket c')) < hesitations (sk_os (tc_socket c)))"
proof (induction c t rule: recv_until_complete.induct)
  case (1 c t)
  show ?case
  proof (cases "pb_has_complete_packet (tc_recv_buffer c)")
    case True
    then show ?thesis
      using "1.prems"(4) by (simp add: recv_until_complete.simps [of c t])
  next
    case False
    have "length (pb_contents (tc_recv_buffer c)) < 12 + length d"
      using "1.prems"(1,2) False assms fits_max [of ty d]
      by (intro incomplete_front [of _ _ "sk_pending (tc_socket c) @ rest" ty "packets ms"])
        (simp_all add: tcp_inv_def tc_stream_def)
    then have "sk_pending (tc_socket c) \<noteq> []"
      using "1.prems"(3) by (auto simp: tc_stream_def)
    then obtain r x s where rcv: "sk_recv (tc_socket c) kRecvChunk t = (r, x, s)" "patient s t"
      "r = SocketResult.Success \<and> hesitations (sk_os s) = hesitations (sk_os (tc_socket c)) \<or>
       (r = SocketResult.WouldBlock \<or> r = SocketResult.Timeout) \<and> hesitations (sk_os s) < hesitations (sk_os (tc_socket c))"
      using patient_recv [OF "1.prems"(4), of kRecvChunk] by (auto simp: kRecvChunk_def)
    obtain r1 c1 where r1: "receive_into_buffer c t = (r1, c1)"
      by (metis surj_pair)
    note str = receive_into_buffer_stream [OF r1 "1.prems"(1) False assms "1.prems"(2)]
    show ?thesis
    proof (cases "r = SocketResult.Success")
      case blocked: False
      then have "r1 = ClientResult.Timeout" "tc_socket c1 = s"
        using r1 rcv(1,3) by (auto simp: receive_into_buffer_def)
      then show ?thesis
        using rcv(2,3) blocked False r1 by (auto simp: recv_until_complete.simps [of c t])
    next
      case True
      have "x \<noteq> []"
        using sk_recv_nonempty [of "tc_socket c" kRecvChunk t x s] rcv(1) True by (simp add: kRecvChunk_def)
      then have ok: "r1 = ClientResult.Success" "tc_socket c1 = s"
        using r1 rcv(1) True str by (auto simp: receive_into_buffer_def Let_def split: prod.splits if_splits)
      have "hesitations (sk_os s) = hesitations (sk_os (tc_socket c))"
        using rcv(3) True by simp
      then show ?thesis
        using "1.IH" [OF False r1 [symmetric]] ok str "1.prems" rcv(2) False r1
        by (simp add: recv_until_complete.simps [of c t])
    qed
  qed
qed

text \<open>A receive from such a system returns the first packet, or times out having used up a hesitation.\<close>

lemma receive_packet_patient:
  assumes "tcp_inv c" and "list_all message_fits ((ty, d) # ms)"
    and "list_all (\<lambda>m. length (snd m) \<le> n) ((ty, d) # ms)"
    and "tc_stream c = packets ((ty, d) # ms)" and "patient (tc_socket c) t"
  shows "(\<exists>c'. receive_packet c n t = (ClientResult.Success, length d, Some \<lparr>rx_type = ty, rx_payload = d\<rparr>, c')) \<or>
    (\<exists>c'. receive_packet c n t = (ClientResult.Timeout, 0, None, c') \<and> tcp_inv c' \<and> tc_stream c' = tc_stream c \<and>
       patient (tc_socket c') t \<and> hesitations (sk_os (tc_socket c')) < hesitations (sk_os (tc_socket c)))"
proof -
  have str: "tc_stream c @ [] = packets ((ty, d) # ms)" "12 + length d \<le> length (tc_stream c)"
    using assms(4) by simp_all
  obtain r c1 where c1: "recv_until_complete c t = (r, c1)" "patient (tc_socket c1) t"
      "r = ClientResult.Success \<or> r = ClientResult.Timeout \<and> hesitations (sk_os (tc_socket c1)) < hesitations (sk_os (tc_socket c))"
    using recv_until_complete_patient [OF assms(2,1) str assms(5)] by blast
  note s1 = recv_until_complete_stream [OF assms(2) c1(1) assms(1) str(1)]
  have con: "tcp_is_connected c" "tcp_is_connected c1"
    using assms(5) c1(2) by (simp_all add: patient_def tcp_is_connected_def sk_is_connected_def)
  show ?thesis
  proof (cases "r = ClientResult.Success")
    case True
    have "\<exists>c'. receive_packet c1 n t = (ClientResult.Success, length d, Some \<lparr>rx_type = ty, rx_payload = d\<rparr>, c')"
      using receive_complete [of c1 "(ty, d) # ms" "[]" n t] s1 con True str(1) assms(2,3) by auto
    then show ?thesis
      using receive_packet_via [of c t c1 n] c1(1) con True s1 by auto
  next
    case False
    then show ?thesis
      using c1 s1 con(1) by (auto simp: receive_packet_def)
  qed
qed

subsection \<open>Progress of a receive\<close>

text \<open>
  What is left to process: receive outcomes and buffered bytes. A receive that returns a packet
  makes it smaller, a send does not change it, so the loops that drain packets end.
\<close>

definition tc_work :: "TcpClient \<Rightarrow> nat" where
  "tc_work c = recv_measure (os_recv (sk_os (tc_socket c))) + m_write_pos (tc_recv_buffer c)"

lemma sk_recv_now_work:
  "sk_recv_now s n = (r, d, s') \<Longrightarrow>
    recv_measure (os_recv (sk_os s')) + length d \<le> recv_measure (os_recv (sk_os s))"
  by (auto simp: sk_recv_now_def Let_def split: list.splits recv_outcome.splits if_splits)

lemma sk_recv_work:
  assumes "sk_recv s n t = (r, d, s')"
  shows "recv_measure (os_recv (sk_os s')) + length d \<le> recv_measure (os_recv (sk_os s))"
proof -
  obtain w s1 where w: "sk_wait_ready s = (w, s1)"
    by (metis surj_pair)
  show ?thesis
    using assms sk_recv_now_work [of s n r d s'] sk_recv_now_work [of s1 n r d s']
      sk_wait_ready_pending [OF w] w
    by (auto simp: sk_recv_def split: if_splits)
qed

lemma pb_append_pos: "m_write_pos (snd (pb_append b d)) \<le> m_write_pos b + length d"
  by (simp add: pb_append_def)

lemma receive_into_buffer_work:
  assumes "receive_into_buffer c t = (r, c')"
  shows "tc_work c' \<le> tc_work c"
proof -
  obtain sr d s where rcv: "sk_recv (tc_socket c) kRecvChunk t = (sr, d, s)"
    by (metis prod_cases3)
  have "tc_socket c' = s \<and> m_write_pos (tc_recv_buffer c') \<le> m_write_pos (tc_recv_buffer c) + length d"
    using assms rcv pb_append_pos [of "tc_recv_buffer c" d]
    by (auto simp: receive_into_buffer_def Let_def split: if_splits prod.splits)
  then show ?thesis
    using sk_recv_work [OF rcv] by (simp add: tc_work_def)
qed

lemma recv_until_complete_work:
  "recv_until_complete c t = (r, c') \<Longrightarrow> tc_work c' \<le> tc_work c \<and>
    (r = ClientResult.Success \<longrightarrow> pb_has_complete_packet (tc_recv_buffer c'))"
proof (induction c t arbitrary: r c' rule: recv_until_complete.induct)
  case (1 c t)
  obtain r1 c1 where r1: "receive_into_buffer c t = (r1, c1)"
    by (metis surj_pair)
  note unf = "1.prems"(1) [unfolded recv_until_complete.simps [of c t] r1 prod.case]
  show ?case
    using unf receive_into_buffer_work [OF r1] "1.IH" [OF _ r1 [symmetric], of r c']
    by (auto split: if_splits)
qed

lemma decode_header_some: "decode_header b \<noteq> (DecodeResult.Success, None)"
  by (simp add: decode_header_def Let_def)

lemma peek_size: "pb_peek_packet_info b = (BufferResult.Success, n) \<Longrightarrow> 12 \<le> n"
  by (auto simp: pb_peek_packet_info_def check_complete_packet_def Let_def decode_header_some
      split: if_splits prod.splits DecodeResult.splits option.splits)

lemma consume_pos: "12 \<le> n \<Longrightarrow> 12 \<le> m_write_pos b \<Longrightarrow> m_write_pos (pb_consume b n) < m_write_pos b"
  by (simp add: pb_consume_def Let_def)

lemma receive_packet_work:
  assumes "receive_packet c n t = (r, k, rx, c')"
  shows "tc_work c' \<le> tc_work c \<and> (r = ClientResult.Success \<longrightarrow> tc_work c' < tc_work c \<and> rx \<noteq> None) \<and>
    (r \<noteq> ClientResult.Success \<longrightarrow> rx = None)"
proof (cases "tcp_is_connected c")
  case False
  then show ?thesis
    using assms by (simp add: receive_packet_def)
next
  case True
  obtain r1 c1 where r1: "recv_until_complete c t = (r1, c1)"
    by (metis surj_pair)
  obtain p m where p: "pb_peek_packet_info (tc_recv_buffer c1) = (p, m)"
    by (metis surj_pair)
  note w = recv_until_complete_work [OF r1]
  note unf = assms [unfolded receive_packet_def r1 prod.case p]
  have less: "tc_work (c1\<lparr>tc_recv_buffer := pb_consume (tc_recv_buffer c1) m\<rparr>) < tc_work c1"
    if "r1 = ClientResult.Success" "p = BufferResult.Success"
    using w that consume_pos [OF peek_size, of "tc_recv_buffer c1" m] p
    by (simp add: tc_work_def pb_has_complete_packet_def split: if_splits)
  show ?thesis
    using unf True w less
    by (auto simp: Let_def split: if_splits prod.splits DecodeResult.splits option.splits)
qed

lemma sk_send_all_loop_recv:
  "sk_send_all_loop s data n z = (r, s') \<Longrightarrow> os_recv (sk_os s') = os_recv (sk_os s)"
proof (induction s data n z arbitrary: r s' rule: sk_send_all_loop.induct)
  case (1 s data n z)
  obtain r1 sent s1 where snd1: "sk_send s (drop n data) = (r1, sent, s1)"
    by (metis prod_cases3)
  obtain w s2 where wr: "sk_wait_ready s1 = (w, s2)"
    by (metis surj_pair)
  note unf = "1.prems"(1) [unfolded sk_send_all_loop.simps [of s data n z] snd1 prod.case wr]
  have "os_recv (sk_os s1) = os_recv (sk_os s)"
    using snd1 by (auto simp: sk_send_def Let_def split: if_splits list.splits send_outcome.splits)
  moreover have "os_recv (sk_os s2) = os_recv (sk_os s1)"
    by (rule sk_wait_ready_pending [OF wr])
  ultimately show ?case
    using unf "1.IH"(1) [OF _ snd1 [symmetric] refl _ _ wr [symmetric], of r s']
      "1.IH"(2) [OF _ snd1 [symmetric] refl, of r s']
    by (auto split: if_splits)
qed

text \<open>The senders leave everything on the receiving side as it is.\<close>

lemma tcp_send_bytes_recv:
  "tcp_send_bytes c d = (r, c') \<Longrightarrow>
    os_recv (sk_os (tc_socket c')) = os_recv (sk_os (tc_socket c)) \<and> tc_recv_buffer c' = tc_recv_buffer c"
  using sk_send_all_loop_recv [of "tc_socket c" d 0 False]
  by (auto simp: tcp_send_bytes_def sk_send_all_def split: prod.splits)

lemma tcp_send_encoded_recv:
  "tcp_send_encoded c enc = (r, c') \<Longrightarrow>
    os_recv (sk_os (tc_socket c')) = os_recv (sk_os (tc_socket c)) \<and> tc_recv_buffer c' = tc_recv_buffer c"
  using tcp_send_bytes_recv
  by (fastforce simp: tcp_send_encoded_def Let_def split: if_splits prod.splits)

lemma tcp_send_encoded_work: "tc_work (snd (tcp_send_encoded c enc)) = tc_work c"
  using tcp_send_encoded_recv [of c enc] by (cases "tcp_send_encoded c enc") (simp add: tc_work_def)

subsection \<open>The interface the high-level client relies on\<close>

text \<open>
  \<^verbatim>\<open>ITcpClient\<close>, as far as its user depends on it: a connected client refuses to connect and
  stays as it is, a disconnect closes, receives deliver the pending messages in order and lose
  none. \<open>pending c ms\<close> says that the messages \<open>ms\<close> are what is still to be received.
\<close>

locale itcp_client =
  fixes connect :: "'c \<Rightarrow> byte list option \<Rightarrow> u16 \<Rightarrow> u32 \<Rightarrow> bool \<Rightarrow> ClientResult \<times> 'c"
    and disconnect :: "'c \<Rightarrow> 'c"
    and is_connected :: "'c \<Rightarrow> bool"
    and receive :: "'c \<Rightarrow> int \<Rightarrow> ClientResult \<times> nat \<times> received option \<times> 'c"
    and pending :: "'c \<Rightarrow> message list \<Rightarrow> bool"
  assumes connect_refused: "is_connected c \<Longrightarrow> connect c host port wait tls = (ClientResult.AlreadyConnected, c)"
    and disconnect_closes: "\<not> is_connected (disconnect c)"
    and receive_some: "pending c ms \<Longrightarrow> receive c t = (r, k, Some p, c') \<Longrightarrow>
      \<exists>ms'. ms = (rx_type p, rx_payload p) # ms' \<and> pending c' ms'"
    and receive_none: "pending c ms \<Longrightarrow> receive c t = (r, k, None, c') \<Longrightarrow>
      pending c' ms \<and> r \<noteq> ClientResult.InvalidPacket \<and> r \<noteq> ClientResult.BufferTooSmall"

text \<open>At most \<open>n\<close> receives, stopping at the first that returns no packet.\<close>

fun receive_many ::
  "('c \<Rightarrow> int \<Rightarrow> ClientResult \<times> nat \<times> received option \<times> 'c) \<Rightarrow> int \<Rightarrow> nat \<Rightarrow> 'c \<Rightarrow> message list \<times> 'c" where
  "receive_many receive t 0 c = ([], c)"
| "receive_many receive t (Suc n) c =
     (case receive c t of
        (r, k, Some p, c') \<Rightarrow>
          (case receive_many receive t n c' of (ms, c'') \<Rightarrow> ((rx_type p, rx_payload p) # ms, c''))
      | (r, k, None, c') \<Rightarrow> ([], c'))"

context itcp_client
begin

lemma receive_many_prefix:
  "pending c ms \<Longrightarrow> receive_many receive t n c = (got, c') \<Longrightarrow>
    \<exists>todo. ms = got @ todo \<and> pending c' todo"
proof (induction n arbitrary: c ms got)
  case (Suc n)
  obtain r k rx c1 where rcv: "receive c t = (r, k, rx, c1)"
    by (metis prod_cases4)
  show ?case
  proof (cases rx)
    case None
    then show ?thesis
      using Suc.prems rcv receive_none [of c ms t r k c1] by auto
  next
    case (Some p)
    obtain ms' where ms': "ms = (rx_type p, rx_payload p) # ms'" "pending c1 ms'"
      using receive_some [OF Suc.prems(1)] rcv Some by blast
    then show ?thesis
      using Suc.prems(2) Suc.IH [OF ms'(2)] rcv Some by (auto split: prod.splits)
  qed
qed auto

end

definition tc_pending :: "nat \<Rightarrow> byte list \<Rightarrow> TcpClient \<Rightarrow> message list \<Rightarrow> bool" where
  "tc_pending n rest c ms \<longleftrightarrow> tcp_inv c \<and> list_all message_fits ms \<and>
     list_all (\<lambda>m. length (snd m) \<le> n) ms \<and> tc_stream c @ rest = packets ms"

lemma tc_pending_none:
  "tc_pending n rest c ms \<Longrightarrow> receive_packet c n t = (r, k, None, c') \<Longrightarrow>
    tc_pending n rest c' ms \<and> r \<noteq> ClientResult.InvalidPacket \<and> r \<noteq> ClientResult.BufferTooSmall"
  using receive_packet_stream [of c n t r k None c' ms rest] by (simp add: tc_pending_def)

lemma tc_pending_some:
  "tc_pending n rest c ms \<Longrightarrow> receive_packet c n t = (r, k, Some p, c') \<Longrightarrow>
    \<exists>ms'. ms = (rx_type p, rx_payload p) # ms' \<and> tc_pending n rest c' ms'"
  using receive_packet_stream [of c n t r k "Some p" c' ms rest] by (auto simp: tc_pending_def)

lemma sk_close_disconnected: "\<not> sk_is_connected (sk_close s)"
  by (simp add: sk_close_def sk_is_connected_def)

lemma tcp_disconnect_closed: "\<not> tcp_is_connected (tcp_disconnect c)"
  using sk_close_disconnected by (simp add: tcp_is_connected_def tcp_disconnect_def Let_def)

lemma tcp_connect_refused:
  "tcp_is_connected c \<Longrightarrow> tcp_connect c host port wait tls = (ClientResult.AlreadyConnected, c)"
  by (simp add: tcp_is_connected_def tcp_connect_def)

interpretation tcp: itcp_client tcp_connect tcp_disconnect tcp_is_connected
    "\<lambda>c. receive_packet c n" "tc_pending n rest" for n rest
  by unfold_locales (auto simp: tcp_connect_refused tcp_disconnect_closed dest: tc_pending_none tc_pending_some)

subsection \<open>Sends the system accepts whole\<close>

lemma sk_send_all_accepts:
  assumes "sk_connected s" and "os_send (sk_os s) = Sent k # rs" and "length data \<le> k" and "data \<noteq> []"
  shows "sk_send_all s data =
    (SocketResult.Success, s\<lparr>sk_os := (sk_os s)\<lparr>os_send := rs\<rparr>, sk_wire := sk_wire s @ data\<rparr>)"
  using assms
  by (simp add: sk_send_all_def sk_send_all_loop.simps [of _ _ 0]
      sk_send_all_loop.simps [of _ _ "length data"] sk_send_def min_def)

text \<open>
  Sends in pieces: what a number of bytes takes from the outcomes of the system, how many waits for a full socket buffer and which
  outcomes are left; none if the system refuses or the outcomes do not suffice.
\<close>

fun sending :: "nat \<Rightarrow> send_outcome list \<Rightarrow> (nat \<times> send_outcome list) option" where
  "sending 0 rs = Some (0, rs)"
| "sending (Suc n) [] = None"
| "sending (Suc n) (Sent k # rs) = (if k = 0 then None else sending (Suc n - k) rs)"
| "sending (Suc n) (SendErrno e # rs) = (if e = EAGAIN then map_option (apfst Suc) (sending (Suc n) rs) else None)"

lemma sending_positive:
  "0 < n \<Longrightarrow> sending n (Sent k # rs) = (if k = 0 then None else sending (n - k) rs)"
  "0 < n \<Longrightarrow> sending n (SendErrno e # rs) = (if e = EAGAIN then map_option (apfst Suc) (sending n rs) else None)"
  by (cases n; simp)+

lemma send_loop_in_pieces:
  "sending m (os_send (sk_os s)) = Some (k, rs) \<Longrightarrow> m = length data - i \<Longrightarrow> i \<le> length data \<Longrightarrow> sk_connected s \<Longrightarrow>
    os_poll (sk_os s) = replicate k PollReady @ ps \<Longrightarrow>
    sk_send_all_loop s data i False = (SocketResult.Success,
      s\<lparr>sk_os := (sk_os s)\<lparr>os_send := rs, os_poll := ps\<rparr>, sk_wire := sk_wire s @ drop i data\<rparr>)"
proof (induction m "os_send (sk_os s)" arbitrary: s k i rule: sending.induct)
  case 1
  then show ?case
    by (simp add: sk_send_all_loop.simps [of _ _ i])
next
  case (2 n)
  then show ?case
    by (metis option.distinct(1) sending.simps(2))
next
  case (3 n l rs')
  let ?j = "min l (length data - i)"
  let ?s = "s\<lparr>sk_os := (sk_os s)\<lparr>os_send := rs'\<rparr>, sk_wire := sk_wire s @ take ?j (drop i data)\<rparr>"
  have l: "0 < l" "sending (Suc n - l) rs' = Some (k, rs)"
    using "3.prems"(1) unfolding "3.hyps"(2) [symmetric] by (simp_all split: if_splits)
  have i: "i < length data" "Suc n = length data - i"
    using "3.prems"(2) by simp_all
  have "sk_send s (drop i data) = (SocketResult.Success, ?j, ?s)"
    using "3.prems"(4) "3.hyps"(2) [symmetric] l(1) i(1) by (simp add: sk_send_def Let_def min_def)
  moreover have "sk_send_all_loop ?s data (i + ?j) False = (SocketResult.Success,
      ?s\<lparr>sk_os := (sk_os ?s)\<lparr>os_send := rs, os_poll := ps\<rparr>, sk_wire := sk_wire ?s @ drop (i + ?j) data\<rparr>)"
    using l i(1) "3.prems"(2-5) by (intro "3.hyps"(1)) (auto simp: min_def)
  moreover have "take ?j (drop i data) @ drop (i + ?j) data = drop i data"
    by (metis add.commute append_take_drop_id drop_drop)
  ultimately show ?case
    using i(1) by (simp add: sk_send_all_loop.simps [of s data i])
next
  case (4 n e rs')
  let ?s = "s\<lparr>sk_os := (sk_os s)\<lparr>os_send := rs'\<rparr>\<rparr>"
  obtain k' where e: "e = EAGAIN" "sending (Suc n) rs' = Some (k', rs)" "k = Suc k'"
    using "4.prems"(1) unfolding "4.hyps"(2) [symmetric] by (auto split: if_splits)
  have i: "i < length data"
    using "4.prems"(2) by simp
  let ?s' = "s\<lparr>sk_os := (sk_os s)\<lparr>os_send := rs', os_poll := replicate k' PollReady @ ps\<rparr>\<rparr>"
  have "sk_send s (drop i data) = (SocketResult.WouldBlock, 0, ?s)"
    using "4.prems"(4) "4.hyps"(2) [symmetric] e(1) by (simp add: sk_send_def)
  moreover have "sk_wait_ready ?s = (SocketResult.Success, ?s')"
    using "4.prems"(5) e(3) by (simp add: sk_wait_ready_def)
  moreover have "sk_send_all_loop ?s' data i False = (SocketResult.Success,
      ?s'\<lparr>sk_os := (sk_os ?s')\<lparr>os_send := rs, os_poll := ps\<rparr>, sk_wire := sk_wire ?s' @ drop i data\<rparr>)"
    using e "4.prems" by (intro "4.hyps"(1)) auto
  ultimately show ?case
    using i by (simp add: sk_send_all_loop.simps [of s data i])
qed

lemma sk_send_all_in_pieces:
  assumes "sending (length data) (os_send (sk_os s)) = Some (k, rs)" and "sk_connected s" and "os_poll (sk_os s) = replicate k PollReady @ ps"
  shows "sk_send_all s data = (SocketResult.Success,
    s\<lparr>sk_os := (sk_os s)\<lparr>os_send := rs, os_poll := ps\<rparr>, sk_wire := sk_wire s @ data\<rparr>)"
  using send_loop_in_pieces [OF assms(1), of data 0 ps] assms(2,3) by (simp add: sk_send_all_def)

lemma packet_not_Nil [simp]: "packet ty d \<noteq> []"
  by (metis length_packet list.size(3) add_is_0 zero_neq_numeral)

subsection \<open>Properties\<close>

text \<open>An example client: connected, with a system that splits one packet over two receives.\<close>

definition split_os :: "byte list \<Rightarrow> nat \<Rightarrow> os" where
  "split_os stream k = \<lparr>os_initialized = True, os_connect = [], os_send = [Sent 4096, Sent 4096],
     os_recv = [Data (take k stream), Data (drop k stream)], os_poll = replicate 100 PollReady, os_thread = []\<rparr>"

definition example_client :: "byte list \<Rightarrow> nat \<Rightarrow> TcpClient" where
  "example_client stream k = (tcp_new (split_os stream k))\<lparr>tc_socket := (sk_new (split_os stream k))
     \<lparr>sk_fd := True, sk_connected := True\<rparr>\<rparr>"

lemma example_client_inv: "tcp_inv (example_client stream k)"
  using tcp_new_inv [of "split_os stream k"] by (simp add: example_client_def)

lemma example_client_facts:
  "poll_sane (tc_socket (example_client stream k))"
  "tcp_is_connected (example_client stream k)"
  "tc_stream (example_client stream k) = stream" "tc_wire (example_client stream k) = []"
  "tc_send_queue (example_client stream k) = []" "tc_send_queue_size (example_client stream k) = 0"
  by (simp_all add: example_client_def poll_sane_def tcp_new_def sk_new_def split_os_def tcp_is_connected_def
      sk_is_connected_def tc_stream_def sk_pending_def tc_wire_def)

lemma example_client_delivering:
  "0 < k \<Longrightarrow> k < length stream \<Longrightarrow> length stream < 90 \<Longrightarrow> delivering (tc_socket (example_client stream k)) t"
  by (simp add: delivering_def example_client_def sk_new_def split_os_def)
    (auto simp: takeWhile_replicate)

text \<open>
  A packet send either puts exactly the framed packet on the wire and succeeds, or leaves a
  prefix of it there and reports an error.
\<close>

theorem send_packet_framed:
  assumes "tcp_send_packet c ty (Some d) (length d) = (r, c')" and "tcp_inv c"
    and "12 + length d \<le> kSendBufferSize" and "poll_sane (tc_socket c)"
  shows "\<exists>k. k \<le> 12 + length d \<and> tc_wire c' = tc_wire c @ take k (packet ty d) \<and>
    (r = ClientResult.Success \<longrightarrow> k = 12 + length d)"
proof -
  have "length (tc_send_buffer c) = kSendBufferSize"
    using assms(2) by (simp add: tcp_inv_def)
  then have "encode_raw (tc_send_buffer c) ty (Some d) (length d) =
      (EncodeResult.Success, memcpy (tc_send_buffer c) 0 (packet ty d), length (packet ty d))"
    using assms(3) by (simp add: encode_raw_ok)
  from tcp_send_encoded_wire [OF assms(1) [unfolded tcp_send_packet_def] this] show ?thesis
    using assms(4) by auto
qed

theorem send_packet_framed_witness:
  "tc_wire (snd (tcp_send_packet (example_client [] 0) PacketId.Ping (Some [0, 7]) 2)) =
     packet PacketId.Ping [0, 7]"
proof -
  let ?c = "example_client [] 0"
  have "tc_socket ?c = (sk_new (split_os [] 0))\<lparr>sk_fd := True, sk_connected := True\<rparr>"
    by (simp add: example_client_def)
  moreover have "fst (sk_send_all ((sk_new (split_os [] 0))\<lparr>sk_fd := True, sk_connected := True\<rparr>)
      (packet PacketId.Ping [0, 7])) = SocketResult.Success"
    using sk_send_all_accepts [of "(sk_new (split_os [] 0))\<lparr>sk_fd := True, sk_connected := True\<rparr>" 4096 "[Sent 4096]"
        "packet PacketId.Ping [0, 7]"]
    by (simp add: sk_new_def split_os_def)
  ultimately have sent: "fst (tcp_send_bytes (?c\<lparr>tc_send_buffer := b\<rparr>) (packet PacketId.Ping [0, 7])) = ClientResult.Success" for b
    by (simp add: tcp_send_bytes_def case_prod_beta)
  have "encode_raw (tc_send_buffer ?c) PacketId.Ping (Some [0, 7]) (length [0, 7 :: byte]) =
      (EncodeResult.Success, memcpy (tc_send_buffer ?c) 0 (packet PacketId.Ping [0, 7]), 12 + length [0, 7 :: byte])"
    using example_client_inv [of "[]" 0] by (intro encode_raw_ok) (simp add: tcp_inv_def kSendBufferSize_def)
  then have ok: "fst (tcp_send_packet ?c PacketId.Ping (Some [0, 7]) (length [0, 7 :: byte])) = ClientResult.Success"
    using sent take_memcpy_packet [of "[0, 7]" "tc_send_buffer ?c" PacketId.Ping]
    by (simp add: tcp_send_packet_def tcp_send_encoded_def example_client_facts)
  obtain c' where c': "tcp_send_packet (example_client [] 0) PacketId.Ping (Some [0, 7]) (length [0, 7 :: byte]) =
      (ClientResult.Success, c')"
    using ok by (metis prod.collapse)
  show ?thesis
    using send_packet_framed [OF c'] c' by (auto simp: example_client_inv example_client_facts kSendBufferSize_def numeral_2_eq_2)
qed

text \<open>
  Over any sequence of queued proxy sends the byte counter of the send queue is exact and the
  queue never holds more than 256 KiB, however many packets arrive.
\<close>

theorem send_queue_bounded:
  assumes "tcp_inv c"
  shows "let c' = foldl (\<lambda>c (h, d, now). snd (tcp_send_proxy_data c h (Some d) (length d) now)) c sends
    in tc_send_queue_size c' = queue_bytes (tc_send_queue c') \<and> tc_send_queue_size c' \<le> kMaxSendQueueSize"
proof -
  have "tcp_inv c \<Longrightarrow> tcp_inv (foldl (\<lambda>c (h, d, now). snd (tcp_send_proxy_data c h (Some d) (length d) now)) c sends)"
  proof (induction sends arbitrary: c)
    case (Cons m sends)
    obtain h d now where m: "m = (h, d, now)"
      by (metis prod_cases3)
    have "tcp_inv (snd (tcp_send_proxy_data c h (Some d) (length d) now))"
      using Cons.prems by (intro tcp_send_proxy_data_inv) simp_all
    then show ?case
      using Cons.IH m by simp
  qed simp
  then show ?thesis
    using assms by (simp add: Let_def tcp_inv_def)
qed

theorem send_queue_bounded_witness:
  "let c' = foldl (\<lambda>c (h, d, now). snd (tcp_send_proxy_data c h (Some d) (length d) now)) (example_client [] 0)
       [(ProxyDataHeader_of_bytes (replicate 20 0), [1, 2, 3], 5)]
   in tc_send_queue_size c' = queue_bytes (tc_send_queue c') \<and> tc_send_queue_size c' \<le> kMaxSendQueueSize"
  by (rule send_queue_bounded [OF example_client_inv])

text \<open>
  C8: reassembly is exact: if what the server sent and the client has not consumed is a prefix
  of a sequence of packets that fit the buffers, then any number of receives returns
  the messages of that sequence from the front, in order, unchanged, and leaves the others pending.
\<close>

theorem receive_in_order:
  assumes "tcp_inv c" and "list_all message_fits ms" and "list_all (\<lambda>m. length (snd m) \<le> n) ms"
    and "tc_stream c @ rest = packets ms"
    and "receive_many (\<lambda>c. receive_packet c n) t k c = (got, c')"
  shows "\<exists>todo. ms = got @ todo \<and> tc_stream c' @ rest = packets todo \<and> tcp_inv c'"
  using tcp.receive_many_prefix [of n rest c ms t k got c'] assms by (auto simp: tc_pending_def)

theorem receive_in_order_witness:
  "let c = example_client (packets [(PacketId.Ping, [0, 5]), (PacketId.Reject, [1])]) 7
   in \<exists>todo. [(PacketId.Ping, [0, 5]), (PacketId.Reject, [1])] =
        fst (receive_many (\<lambda>c. receive_packet c 16) 20 2 c) @ todo \<and>
      tc_stream (snd (receive_many (\<lambda>c. receive_packet c 16) 20 2 c)) = packets todo"
  using receive_in_order [of "example_client (packets [(PacketId.Ping, [0, 5]), (PacketId.Reject, [1])]) 7"
      "[(PacketId.Ping, [0, 5]), (PacketId.Reject, [1])]" 16 "[]" 20 2]
  by (simp add: Let_def example_client_inv example_client_facts message_fits_def packet_id_enumerator_def kRecvBufferSize_def
      kRecvChunk_def)
    (metis prod.collapse)

text \<open>
  C27: a receive returns: when the first packet has arrived in full and the system delivers it, in
  pieces of any size, \<^verbatim>\<open>receive_packet\<close> succeeds with that packet's type and payload.
\<close>

theorem receive_returns:
  assumes "tcp_inv c" and "list_all message_fits ((ty, d) # ms)"
    and "list_all (\<lambda>m. length (snd m) \<le> n) ((ty, d) # ms)"
    and "tc_stream c @ rest = packets ((ty, d) # ms)" and "12 + length d \<le> length (tc_stream c)"
    and "delivering (tc_socket c) t"
  shows "\<exists>c'. receive_packet c n t =
      (ClientResult.Success, length d, Some \<lparr>rx_type = ty, rx_payload = d\<rparr>, c') \<and>
    tc_stream c' @ rest = packets ms"
  using receive_packet_live [OF assms] by blast

theorem receive_returns_witness:
  "\<exists>c'. receive_packet (example_client (packets [(PacketId.Ping, [0, 5])]) 7) 16 20 =
      (ClientResult.Success, 2, Some \<lparr>rx_type = PacketId.Ping, rx_payload = [0, 5]\<rparr>, c') \<and>
    tc_stream c' = []"
  using receive_returns [of "example_client (packets [(PacketId.Ping, [0, 5])]) 7" PacketId.Ping "[0, 5]" "[]" 16 "[]" 20]
  by (simp add: example_client_inv example_client_facts example_client_delivering message_fits_def packet_id_enumerator_def
      kRecvBufferSize_def kRecvChunk_def numeral_2_eq_2)

end
