(* ===== verification/Connection_State.thy ===== *)
theory Connection_State
  imports Prelude
begin

text \<open>
  The connection state machine of \<^verbatim>\<open>network/connection_state.hpp\<close> and \<^verbatim>\<open>.cpp\<close>. The
  transition table is the source's, row by row. The registered callback is a flag, and
  the call it would receive is part of the result of an operation.
\<close>

datatype ConnectionState =
  Disconnected
  | Connecting
  | Connected
  | Handshaking
  | Ready
  | Backoff
  | Retrying
  | Disconnecting
  | Error

datatype ConnectionEvent =
  Connect
  | ConnectSuccess
  | ConnectFailed
  | HandshakeStarted
  | HandshakeSuccess
  | HandshakeFailed
  | Disconnect
  | ConnectionLost
  | BackoffExpired
  | RetryRequested
  | FatalError

datatype TransitionResult = Success | InvalidTransition | AlreadyInState

type_synonym state_change = "ConnectionState \<times> ConnectionState \<times> ConnectionEvent"

record ConnectionStateMachine =
  csm_state :: ConnectionState
  csm_callback :: bool
  csm_retry_count :: u32

definition csm_new :: ConnectionStateMachine where
  "csm_new = \<lparr>csm_state = Disconnected, csm_callback = False, csm_retry_count = 0\<rparr>"

definition csm_is_connected :: "ConnectionStateMachine \<Rightarrow> bool" where
  "csm_is_connected m \<longleftrightarrow>
     (case csm_state m of Connected \<Rightarrow> True | Handshaking \<Rightarrow> True | Ready \<Rightarrow> True | _ \<Rightarrow> False)"

definition csm_is_ready :: "ConnectionStateMachine \<Rightarrow> bool" where
  "csm_is_ready m \<longleftrightarrow> csm_state m = Ready"

definition csm_is_transitioning :: "ConnectionStateMachine \<Rightarrow> bool" where
  "csm_is_transitioning m \<longleftrightarrow>
     (case csm_state m of Connecting \<Rightarrow> True | Handshaking \<Rightarrow> True | Retrying \<Rightarrow> True
      | Disconnecting \<Rightarrow> True | Backoff \<Rightarrow> True | _ \<Rightarrow> False)"

text \<open>The enumerators' values, which index the table.\<close>

primrec state_index :: "ConnectionState \<Rightarrow> nat" where
  "state_index Disconnected = 0"
| "state_index Connecting = 1"
| "state_index Connected = 2"
| "state_index Handshaking = 3"
| "state_index Ready = 4"
| "state_index Backoff = 5"
| "state_index Retrying = 6"
| "state_index Disconnecting = 7"
| "state_index Error = 8"

primrec event_index :: "ConnectionEvent \<Rightarrow> nat" where
  "event_index Connect = 0"
| "event_index ConnectSuccess = 1"
| "event_index ConnectFailed = 2"
| "event_index HandshakeStarted = 3"
| "event_index HandshakeSuccess = 4"
| "event_index HandshakeFailed = 5"
| "event_index Disconnect = 6"
| "event_index ConnectionLost = 7"
| "event_index BackoffExpired = 8"
| "event_index RetryRequested = 9"
| "event_index FatalError = 10"

definition transition_table :: "(ConnectionState \<times> bool) list list" where
  "transition_table = [
     [(Connecting, True),
      (Disconnected, False),
      (Disconnected, False),
      (Disconnected, False),
      (Disconnected, False),
      (Disconnected, False),
      (Disconnected, False),
      (Disconnected, False),
      (Disconnected, False),
      (Connecting, True),
      (Disconnected, False)],
     [(Disconnected, False),
      (Connected, True),
      (Backoff, True),
      (Disconnected, False),
      (Disconnected, False),
      (Disconnected, False),
      (Disconnected, True),
      (Disconnected, False),
      (Disconnected, False),
      (Disconnected, False),
      (Error, True)],
     [(Disconnected, False),
      (Disconnected, False),
      (Disconnected, False),
      (Handshaking, True),
      (Ready, True),
      (Backoff, True),
      (Disconnecting, True),
      (Backoff, True),
      (Disconnected, False),
      (Disconnected, False),
      (Error, True)],
     [(Disconnected, False),
      (Disconnected, False),
      (Disconnected, False),
      (Disconnected, False),
      (Ready, True),
      (Backoff, True),
      (Disconnecting, True),
      (Backoff, True),
      (Disconnected, False),
      (Disconnected, False),
      (Error, True)],
     [(Disconnected, False),
      (Disconnected, False),
      (Disconnected, False),
      (Disconnected, False),
      (Disconnected, False),
      (Disconnected, False),
      (Disconnecting, True),
      (Backoff, True),
      (Disconnected, False),
      (Disconnected, False),
      (Error, True)],
     [(Disconnected, False),
      (Disconnected, False),
      (Disconnected, False),
      (Disconnected, False),
      (Disconnected, False),
      (Disconnected, False),
      (Disconnected, True),
      (Disconnected, False),
      (Retrying, True),
      (Retrying, True),
      (Error, True)],
     [(Disconnected, False),
      (Connected, True),
      (Backoff, True),
      (Disconnected, False),
      (Disconnected, False),
      (Disconnected, False),
      (Disconnected, True),
      (Disconnected, False),
      (Disconnected, False),
      (Disconnected, False),
      (Error, True)],
     [(Disconnected, False),
      (Disconnected, True),
      (Disconnected, True),
      (Disconnected, False),
      (Disconnected, False),
      (Disconnected, False),
      (Disconnected, False),
      (Disconnected, True),
      (Disconnected, False),
      (Disconnected, False),
      (Disconnected, True)],
     [(Disconnected, False),
      (Disconnected, False),
      (Disconnected, False),
      (Disconnected, False),
      (Disconnected, False),
      (Disconnected, False),
      (Disconnected, True),
      (Disconnected, False),
      (Disconnected, False),
      (Connecting, True),
      (Disconnected, False)]]"

definition is_valid_transition :: "ConnectionState \<Rightarrow> ConnectionEvent \<Rightarrow> ConnectionState option" where
  "is_valid_transition from event =
     (let si = state_index from; ei = event_index event in
      if si \<ge> 9 \<or> ei \<ge> 11 then None
      else let entry = transition_table ! si ! ei in
        if snd entry then Some (fst entry) else None)"

definition transition_to ::
  "ConnectionStateMachine \<Rightarrow> ConnectionState \<Rightarrow> ConnectionEvent \<Rightarrow>
    ConnectionStateMachine \<times> state_change option" where
  "transition_to m new_state event =
     (let old_state = csm_state m;
          m = m\<lparr>csm_state := new_state\<rparr>;
          m = (if (new_state = Retrying \<or> new_state = Connecting) \<and>
                  (old_state = Backoff \<or> old_state = Retrying)
               then m\<lparr>csm_retry_count := csm_retry_count m + 1\<rparr> else m);
          m = (if new_state = Ready then m\<lparr>csm_retry_count := 0\<rparr> else m)
      in (m, (if csm_callback m then Some (old_state, new_state, event) else None)))"

definition process_event ::
  "ConnectionStateMachine \<Rightarrow> ConnectionEvent \<Rightarrow>
    TransitionResult \<times> ConnectionStateMachine \<times> state_change option" where
  "process_event m event =
     (if csm_state m = Disconnected \<and> event = Disconnect then (AlreadyInState, m, None)
      else if csm_state m = Ready \<and> event = ConnectSuccess then (AlreadyInState, m, None)
      else case is_valid_transition (csm_state m) event of
        Some target \<Rightarrow> (case transition_to m target event of (m', n) \<Rightarrow> (TransitionResult.Success, m', n))
      | None \<Rightarrow> (InvalidTransition, m, None))"

definition set_state_change_callback :: "ConnectionStateMachine \<Rightarrow> bool \<Rightarrow> ConnectionStateMachine" where
  "set_state_change_callback m registered = m\<lparr>csm_callback := registered\<rparr>"

definition reset_retry_count :: "ConnectionStateMachine \<Rightarrow> ConnectionStateMachine" where
  "reset_retry_count m = m\<lparr>csm_retry_count := 0\<rparr>"

definition force_state :: "ConnectionStateMachine \<Rightarrow> ConnectionState \<Rightarrow> ConnectionStateMachine" where
  "force_state m state = m\<lparr>csm_state := state\<rparr>"

subsection \<open>The machine as a step relation\<close>

text \<open>The valid transitions, one rule each.\<close>

inductive conn_step :: "ConnectionState \<Rightarrow> ConnectionEvent \<Rightarrow> ConnectionState \<Rightarrow> bool" where
  disconnected_Connect: "conn_step Disconnected Connect Connecting"
| disconnected_RetryRequested: "conn_step Disconnected RetryRequested Connecting"
| connecting_ConnectSuccess: "conn_step Connecting ConnectSuccess Connected"
| connecting_ConnectFailed: "conn_step Connecting ConnectFailed Backoff"
| connecting_Disconnect: "conn_step Connecting Disconnect Disconnected"
| connecting_FatalError: "conn_step Connecting FatalError Error"
| connected_HandshakeStarted: "conn_step Connected HandshakeStarted Handshaking"
| connected_HandshakeSuccess: "conn_step Connected HandshakeSuccess Ready"
| connected_HandshakeFailed: "conn_step Connected HandshakeFailed Backoff"
| connected_Disconnect: "conn_step Connected Disconnect Disconnecting"
| connected_ConnectionLost: "conn_step Connected ConnectionLost Backoff"
| connected_FatalError: "conn_step Connected FatalError Error"
| handshaking_HandshakeSuccess: "conn_step Handshaking HandshakeSuccess Ready"
| handshaking_HandshakeFailed: "conn_step Handshaking HandshakeFailed Backoff"
| handshaking_Disconnect: "conn_step Handshaking Disconnect Disconnecting"
| handshaking_ConnectionLost: "conn_step Handshaking ConnectionLost Backoff"
| handshaking_FatalError: "conn_step Handshaking FatalError Error"
| ready_Disconnect: "conn_step Ready Disconnect Disconnecting"
| ready_ConnectionLost: "conn_step Ready ConnectionLost Backoff"
| ready_FatalError: "conn_step Ready FatalError Error"
| backoff_Disconnect: "conn_step Backoff Disconnect Disconnected"
| backoff_BackoffExpired: "conn_step Backoff BackoffExpired Retrying"
| backoff_RetryRequested: "conn_step Backoff RetryRequested Retrying"
| backoff_FatalError: "conn_step Backoff FatalError Error"
| retrying_ConnectSuccess: "conn_step Retrying ConnectSuccess Connected"
| retrying_ConnectFailed: "conn_step Retrying ConnectFailed Backoff"
| retrying_Disconnect: "conn_step Retrying Disconnect Disconnected"
| retrying_FatalError: "conn_step Retrying FatalError Error"
| disconnecting_ConnectSuccess: "conn_step Disconnecting ConnectSuccess Disconnected"
| disconnecting_ConnectFailed: "conn_step Disconnecting ConnectFailed Disconnected"
| disconnecting_ConnectionLost: "conn_step Disconnecting ConnectionLost Disconnected"
| disconnecting_FatalError: "conn_step Disconnecting FatalError Disconnected"
| error_Disconnect: "conn_step Error Disconnect Disconnected"
| error_RetryRequested: "conn_step Error RetryRequested Connecting"

inductive_cases conn_step_to_Ready: "conn_step s e Ready"
inductive_cases conn_step_to_Retrying: "conn_step s e Retrying"
inductive_cases conn_step_to_Connecting: "conn_step s e Connecting"

lemma valid_transition_iff: "is_valid_transition s e = Some t \<longleftrightarrow> conn_step s e t"
  by (cases s; cases e)
    (auto simp: is_valid_transition_def transition_table_def Let_def
      intro: conn_step.intros elim: conn_step.cases)

lemma process_event_step:
  assumes "conn_step (csm_state m) e t"
  shows "fst (process_event m e) = TransitionResult.Success \<and> csm_state (fst (snd (process_event m e))) = t"
proof -
  have "is_valid_transition (csm_state m) e = Some t"
    using assms by (simp add: valid_transition_iff)
  moreover have "\<not> (csm_state m = Disconnected \<and> e = Disconnect)"
    and "\<not> (csm_state m = Ready \<and> e = ConnectSuccess)"
    using assms by (auto elim: conn_step.cases)
  ultimately show ?thesis
    by (auto simp: process_event_def transition_to_def Let_def)
qed

lemma process_event_stuck:
  assumes "\<nexists>t. conn_step (csm_state m) e t"
  shows "fst (process_event m e) \<noteq> TransitionResult.Success \<and> snd (process_event m e) = (m, None)"
proof -
  have "is_valid_transition (csm_state m) e = None"
    using assms by (cases "is_valid_transition (csm_state m) e") (auto simp: valid_transition_iff)
  then show ?thesis
    by (auto simp: process_event_def)
qed

lemma process_event_cases:
  obtains (step) t where "conn_step (csm_state m) e t" and
      "fst (process_event m e) = TransitionResult.Success"
      "csm_state (fst (snd (process_event m e))) = t"
    | (stuck) "\<nexists>t. conn_step (csm_state m) e t" "fst (process_event m e) \<noteq> TransitionResult.Success"
      "fst (snd (process_event m e)) = m"
  using process_event_step process_event_stuck by (metis fst_conv)

definition csm_fire :: "ConnectionStateMachine \<Rightarrow> ConnectionEvent \<Rightarrow> ConnectionStateMachine" where
  "csm_fire m e = fst (snd (process_event m e))"

lemma csm_fire_state:
  "csm_state (csm_fire m e) = (case is_valid_transition (csm_state m) e of Some t \<Rightarrow> t | None \<Rightarrow> csm_state m)"
  by (auto simp: csm_fire_def process_event_def transition_to_def Let_def is_valid_transition_def
      transition_table_def)

lemma csm_fire_callback [simp]: "csm_callback (csm_fire m e) = csm_callback m"
  by (auto simp: csm_fire_def process_event_def transition_to_def Let_def split: option.split)

lemmas fire_simps = csm_fire_state is_valid_transition_def transition_table_def

lemma csm_fire_retry:
  "csm_retry_count (csm_fire m e) =
     (if csm_state (csm_fire m e) = csm_state m then csm_retry_count m
      else if csm_state (csm_fire m e) = Ready then 0
      else if csm_state (csm_fire m e) = Retrying then csm_retry_count m + 1
      else csm_retry_count m)"
  by (cases "csm_state m"; cases e)
    (simp_all add: csm_fire_def process_event_def is_valid_transition_def transition_table_def
      transition_to_def Let_def)

subsection \<open>Histories\<close>

text \<open>The states a run visits: one entry per transition taken.\<close>

fun csm_history :: "ConnectionStateMachine \<Rightarrow> ConnectionEvent list \<Rightarrow> ConnectionState list" where
  "csm_history m [] = []"
| "csm_history m (e # es) =
     (if fst (process_event m e) = TransitionResult.Success
      then csm_state (csm_fire m e) # csm_history (csm_fire m e) es
      else csm_history (csm_fire m e) es)"

fun retries_since_ready :: "nat \<Rightarrow> ConnectionState list \<Rightarrow> nat" where
  "retries_since_ready n [] = n"
| "retries_since_ready n (s # ss) =
     retries_since_ready (if s = Ready then 0 else if s = Retrying then n + 1 else n) ss"

lemma step_changes_state: "conn_step s e t \<Longrightarrow> t \<noteq> s"
  by (auto elim: conn_step.cases)

lemma fire_unchanged: "fst (process_event m e) \<noteq> TransitionResult.Success \<Longrightarrow> csm_fire m e = m"
  by (rule process_event_cases [of m e]) (auto simp: csm_fire_def)

lemma fire_changed: "fst (process_event m e) = TransitionResult.Success \<Longrightarrow> csm_state (csm_fire m e) \<noteq> csm_state m"
  by (rule process_event_cases [of m e]) (auto simp: csm_fire_def dest: step_changes_state)

lemma retry_count_history:
  "csm_retry_count m = word_of_nat n \<Longrightarrow>
    csm_retry_count (foldl csm_fire m es) = word_of_nat (retries_since_ready n (csm_history m es))"
proof (induction es arbitrary: m n)
  case Nil
  then show ?case by simp
next
  case (Cons e es)
  show ?case
  proof (cases "fst (process_event m e) = TransitionResult.Success")
    case True
    let ?s = "csm_state (csm_fire m e)"
    have "csm_retry_count (csm_fire m e) =
        word_of_nat (if ?s = Ready then 0 else if ?s = Retrying then n + 1 else n)"
      using fire_changed [OF True] Cons.prems by (simp add: csm_fire_retry)
    from Cons.IH [OF this] show ?thesis
      using True by simp
  next
    case False
    then show ?thesis
      using Cons.IH [OF Cons.prems] by (simp add: fire_unchanged)
  qed
qed

text \<open>What the registered callback is told, one call per transition.\<close>

fun csm_notices :: "ConnectionStateMachine \<Rightarrow> ConnectionEvent list \<Rightarrow> state_change list" where
  "csm_notices m [] = []"
| "csm_notices m (e # es) =
     (case snd (snd (process_event m e)) of Some n \<Rightarrow> n # csm_notices (csm_fire m e) es | None \<Rightarrow> csm_notices (csm_fire m e) es)"

lemma fire_notice:
  assumes "csm_callback m"
  shows "snd (snd (process_event m e)) =
    (if fst (process_event m e) = TransitionResult.Success then Some (csm_state m, csm_state (csm_fire m e), e) else None)"
  using assms by (auto simp: csm_fire_def process_event_def transition_to_def Let_def split: option.split)

lemma notices_history:
  "csm_callback m \<Longrightarrow> map (\<lambda>(old, new, e). new) (csm_notices m es) = csm_history m es \<and>
    map fst (csm_notices m es) = take (length (csm_history m es)) (csm_state m # csm_history m es)"
  by (induction es arbitrary: m) (auto simp: fire_notice fire_unchanged)

text \<open>
  The state after the first events of a list. A connected state means that a connection was made and not left since; Ready means that a
  handshake followed it, and that neither was left since.
\<close>

definition csm_after :: "ConnectionStateMachine \<Rightarrow> ConnectionEvent list \<Rightarrow> nat \<Rightarrow> ConnectionState" where
  "csm_after m es n = csm_state (foldl csm_fire m (take n es))"

definition connected_since :: "ConnectionStateMachine \<Rightarrow> ConnectionEvent list \<Rightarrow> nat \<Rightarrow> nat \<Rightarrow> bool" where
  "connected_since m es i j \<longleftrightarrow> i < j \<and> es ! i = ConnectSuccess \<and> (\<forall>n. i < n \<and> n \<le> j \<longrightarrow> csm_after m es n \<in> {Connected, Handshaking})"

definition ready_since :: "ConnectionStateMachine \<Rightarrow> ConnectionEvent list \<Rightarrow> nat \<Rightarrow> bool" where
  "ready_since m es j \<longleftrightarrow> j < length es \<and> es ! j = HandshakeSuccess \<and> (\<forall>n. j < n \<and> n \<le> length es \<longrightarrow> csm_after m es n = Ready)"

lemma csm_after_append [simp]: "n \<le> length es \<Longrightarrow> csm_after m (es @ es') n = csm_after m es n"
  by (simp add: csm_after_def)

lemma csm_after_Suc [simp]: "csm_after m (es @ [e]) (Suc (length es)) = csm_state (csm_fire (foldl csm_fire m es) e)"
  by (simp add: csm_after_def)

lemma connected_since_append: "connected_since m es i j \<Longrightarrow> j \<le> length es \<Longrightarrow> connected_since m (es @ [e]) i j"
  by (auto simp: connected_since_def nth_append)

lemma connected_since_extend:
  "connected_since m es i (length es) \<Longrightarrow> csm_state (csm_fire (foldl csm_fire m es) e) \<in> {Connected, Handshaking} \<Longrightarrow>
    connected_since m (es @ [e]) i (Suc (length es))"
  by (auto simp: connected_since_def nth_append le_Suc_eq)

lemma ready_since_extend:
  "ready_since m es j \<Longrightarrow> csm_state (csm_fire (foldl csm_fire m es) e) = Ready \<Longrightarrow> ready_since m (es @ [e]) j"
  by (auto simp: ready_since_def nth_append le_Suc_eq)

lemma entering:
  "csm_state (csm_fire m e) \<in> {Connected, Handshaking} \<Longrightarrow>
    csm_state m \<in> {Connected, Handshaking} \<or> e = ConnectSuccess"
  "csm_state (csm_fire m e) = Ready \<Longrightarrow> csm_state m = Ready \<or> csm_state m \<in> {Connected, Handshaking} \<and> e = HandshakeSuccess"
  by (cases "csm_state m"; cases e; simp add: fire_simps)+

lemma connected_history:
  assumes "csm_state m = Disconnected"
  shows "(csm_state (foldl csm_fire m es) \<in> {Connected, Handshaking} \<longrightarrow> (\<exists>i. connected_since m es i (length es))) \<and>
    (csm_state (foldl csm_fire m es) = Ready \<longrightarrow> (\<exists>i j. connected_since m es i j \<and> ready_since m es j))"
proof (induction es rule: rev_induct)
  case Nil
  then show ?case using assms by simp
next
  case (snoc e es)
  let ?m = "foldl csm_fire m es"
  have made: "connected_since m (es @ [e]) (length es) (Suc (length es))"
    if "e = ConnectSuccess" "csm_state (csm_fire ?m e) \<in> {Connected, Handshaking}"
    using that by (auto simp: connected_since_def le_Suc_eq)
  have fin: "ready_since m (es @ [e]) (length es)" if "e = HandshakeSuccess" "csm_state (csm_fire ?m e) = Ready"
    using that by (auto simp: ready_since_def le_Suc_eq)
  show ?case
  proof (intro conjI impI)
    assume "csm_state (foldl csm_fire m (es @ [e])) \<in> {Connected, Handshaking}"
    then show "\<exists>i. connected_since m (es @ [e]) i (length (es @ [e]))"
      using entering(1) [of ?m e] snoc.IH made connected_since_extend [of m es _ e] by auto
  next
    assume "csm_state (foldl csm_fire m (es @ [e])) = Ready"
    then have new: "csm_state (csm_fire ?m e) = Ready"
      by simp
    from entering(2) [OF this] show "\<exists>i j. connected_since m (es @ [e]) i j \<and> ready_since m (es @ [e]) j"
    proof
      assume "csm_state ?m = Ready"
      then obtain i j where ij: "connected_since m es i j" "ready_since m es j"
        using snoc.IH by blast
      then have "j \<le> length es"
        by (simp add: ready_since_def)
      then show ?thesis
        using connected_since_append [OF ij(1)] ready_since_extend [OF ij(2) new] by blast
    next
      assume "csm_state ?m \<in> {Connected, Handshaking} \<and> e = HandshakeSuccess"
      then show ?thesis
        using snoc.IH fin [OF _ new] connected_since_append [of m es _ "length es" e] by blast
    qed
  qed
qed

subsection \<open>Properties\<close>

text \<open>
  C22: what a state of the machine says of the events before it. From a new machine with a callback, after any events, valid or not: the machine is ready
  only if some ConnectSuccess was followed by some HandshakeSuccess, the machine was in a connected state all the time from the one to the other, and
  has been ready ever since; the retry counter is the number of times the machine entered the retrying state since it was last ready, as a 32-bit
  number; and the callback was told every transition, in order, each starting in the state in which the one before ended. (A retry that succeeds
  goes from the retrying state straight to the connected one, where the diagram of the header passes through the connecting state.)
\<close>

theorem machine_history:
  assumes "csm_callback m" and "csm_state m = Disconnected" and "csm_retry_count m = 0"
  shows "(csm_state (foldl csm_fire m es) = Ready \<longrightarrow>
      (\<exists>i j. i < j \<and> j < length es \<and> es ! i = ConnectSuccess \<and> es ! j = HandshakeSuccess \<and>
        (\<forall>n. i < n \<and> n \<le> j \<longrightarrow> csm_after m es n \<in> {Connected, Handshaking}) \<and>
        (\<forall>n. j < n \<and> n \<le> length es \<longrightarrow> csm_after m es n = Ready))) \<and>
    csm_retry_count (foldl csm_fire m es) = word_of_nat (retries_since_ready 0 (csm_history m es)) \<and>
    map (\<lambda>(old, new, e). new) (csm_notices m es) = csm_history m es \<and>
    map fst (csm_notices m es) = take (length (csm_history m es)) (csm_state m # csm_history m es)"
proof -
  have "csm_retry_count (foldl csm_fire m es) = word_of_nat (retries_since_ready 0 (csm_history m es))"
    using assms(3) by (intro retry_count_history) simp
  moreover have "csm_state (foldl csm_fire m es) = Ready \<longrightarrow> (\<exists>i j. connected_since m es i j \<and> ready_since m es j)"
    using connected_history [OF assms(2)] by blast
  ultimately show ?thesis
    using notices_history [OF assms(1), of es] unfolding connected_since_def ready_since_def by blast
qed

theorem machine_history_witness:
  "\<exists>i j. i < j \<and> [Connect, ConnectFailed, BackoffExpired, ConnectSuccess, HandshakeStarted, HandshakeSuccess] ! i = ConnectSuccess \<and>
     [Connect, ConnectFailed, BackoffExpired, ConnectSuccess, HandshakeStarted, HandshakeSuccess] ! j = HandshakeSuccess"
proof -
  let ?m = "set_state_change_callback csm_new True"
  let ?es = "[Connect, ConnectFailed, BackoffExpired, ConnectSuccess, HandshakeStarted, HandshakeSuccess]"
  have "csm_state (foldl csm_fire ?m ?es) = Ready"
    by (simp add: fire_simps set_state_change_callback_def csm_new_def)
  then show ?thesis
    using machine_history [of ?m ?es] unfolding set_state_change_callback_def csm_new_def by auto
qed

text \<open>The machine has no trap state: from every state some events lead back to ready.\<close>

theorem ready_always_reachable: "\<exists>es. csm_state (foldl csm_fire m es) = Ready"
proof -
  let ?up = "[Connect, ConnectSuccess, HandshakeSuccess]"
  have d: "csm_state n = Disconnected \<Longrightarrow> csm_state (foldl csm_fire n ?up) = Ready" for n
    by (simp add: fire_simps)
  have "csm_state (foldl csm_fire m [Disconnect, ConnectionLost]) = Disconnected"
    by (cases "csm_state m") (simp_all add: fire_simps)
  then have "csm_state (foldl csm_fire m ([Disconnect, ConnectionLost] @ ?up)) = Ready"
    using d [of "foldl csm_fire m [Disconnect, ConnectionLost]"] by simp
  then show ?thesis
    by blast
qed

end
