(* ===== verification/Reconnect.thy ===== *)
theory Reconnect
  imports Prelude
begin

unbundle bit_operations_syntax

text \<open>
  The reconnection manager of \<^verbatim>\<open>network/reconnect.hpp\<close> and \<^verbatim>\<open>.cpp\<close>: exponential backoff
  in 32-bit arithmetic, jitter from a xorshift hash, and the retry limit. The source
  divides by \<^verbatim>\<open>multiplier_percent\<close>, which C++ leaves undefined for 0 (HOL's word
  division then gives 0); \<open>delay_defined\<close> says when that division is not reached with 0.
\<close>

record ReconnectConfig =
  initial_delay_ms :: u32
  max_delay_ms :: u32
  multiplier_percent :: u16
  jitter_percent :: u8
  max_retries :: u16
  fast_retries :: u8
  fast_delay_ms :: u32

definition default_reconnect_config :: ReconnectConfig where
  "default_reconnect_config =
     \<lparr>initial_delay_ms = 1000, max_delay_ms = 30000, multiplier_percent = 200, jitter_percent = 10,
      max_retries = 0, fast_retries = 1, fast_delay_ms = 200\<rparr>"

datatype RetryResult = ShouldRetry | MaxRetriesReached

record ReconnectManager =
  rm_config :: ReconnectConfig
  rm_retry_count :: u32
  rm_current_delay_ms :: u32

text \<open>The body of the loop runs \<open>n\<close> more times from delay \<open>d\<close>.\<close>

fun backoff_loop :: "nat \<Rightarrow> ReconnectConfig \<Rightarrow> u32 \<Rightarrow> u32" where
  "backoff_loop 0 cfg d = d"
| "backoff_loop (Suc n) cfg d =
     (let safe_threshold = (max_delay_ms cfg * 100) div ucast (multiplier_percent cfg) in
      if d \<ge> safe_threshold then max_delay_ms cfg
      else let d' = (d * ucast (multiplier_percent cfg)) div 100 in
        if d' > max_delay_ms cfg then max_delay_ms cfg
        else backoff_loop n cfg d')"

definition delay_for :: "ReconnectConfig \<Rightarrow> u32 \<Rightarrow> u32" where
  "delay_for cfg retry_count =
     (if retry_count < ucast (fast_retries cfg) then fast_delay_ms cfg
      else let exponential_count = retry_count - ucast (fast_retries cfg)
           in backoff_loop (unat exponential_count) cfg (initial_delay_ms cfg))"

definition delay_defined :: "ReconnectConfig \<Rightarrow> u32 \<Rightarrow> bool" where
  "delay_defined cfg retry_count \<longleftrightarrow>
     multiplier_percent cfg \<noteq> 0 \<or> retry_count \<le> ucast (fast_retries cfg)"

definition calculate_delay :: "ReconnectManager \<Rightarrow> ReconnectManager" where
  "calculate_delay m = m\<lparr>rm_current_delay_ms := delay_for (rm_config m) (rm_retry_count m)\<rparr>"

definition rm_new :: "ReconnectConfig \<Rightarrow> ReconnectManager" where
  "rm_new cfg = calculate_delay \<lparr>rm_config = cfg, rm_retry_count = 0, rm_current_delay_ms = 0\<rparr>"

definition get_next_delay_ms :: "ReconnectManager \<Rightarrow> u32" where
  "get_next_delay_ms m = rm_current_delay_ms m"

definition xorshift :: "u32 \<Rightarrow> u32" where
  "xorshift seed =
     (let hash = seed XOR push_bit 13 seed;
          hash = hash XOR drop_bit 17 hash
      in hash XOR push_bit 5 hash)"

text \<open>C++ integer division truncates towards zero.\<close>

definition cdiv :: "int \<Rightarrow> int \<Rightarrow> int" where
  "cdiv a b = sgn a * sgn b * (\<bar>a\<bar> div \<bar>b\<bar>)"

definition get_next_delay_ms_with_jitter :: "ReconnectManager \<Rightarrow> u32 \<Rightarrow> u32" where
  "get_next_delay_ms_with_jitter m seed =
     (if jitter_percent (rm_config m) = 0 then rm_current_delay_ms m
      else
        let jitter = uint (jitter_percent (rm_config m));
            jitter_range = 2 * jitter + 1;
            jitter_offset = uint (xorshift seed) mod jitter_range - jitter;
            adjusted = cdiv (uint (rm_current_delay_ms m) * (100 + jitter_offset)) 100;
            adjusted = (if adjusted < 1 then 1 else adjusted);
            adjusted = (if adjusted > uint (max_delay_ms (rm_config m))
                        then uint (max_delay_ms (rm_config m)) else adjusted)
        in word_of_int adjusted)"

definition should_retry :: "ReconnectManager \<Rightarrow> RetryResult" where
  "should_retry m =
     (if max_retries (rm_config m) = 0 then ShouldRetry
      else if rm_retry_count m \<ge> ucast (max_retries (rm_config m)) then MaxRetriesReached
      else ShouldRetry)"

definition record_failure :: "ReconnectManager \<Rightarrow> ReconnectManager" where
  "record_failure m =
     calculate_delay (if rm_retry_count m < 0xFFFFFFFF
                      then m\<lparr>rm_retry_count := rm_retry_count m + 1\<rparr> else m)"

definition rm_reset :: "ReconnectManager \<Rightarrow> ReconnectManager" where
  "rm_reset m = calculate_delay (m\<lparr>rm_retry_count := 0\<rparr>)"

definition rm_set_config :: "ReconnectManager \<Rightarrow> ReconnectConfig \<Rightarrow> ReconnectManager" where
  "rm_set_config m cfg = calculate_delay (m\<lparr>rm_config := cfg\<rparr>)"

subsection \<open>Bounds of the loop\<close>

lemma unat_le_div:
  fixes x m :: u32
  assumes "d < x div m"
  shows "unat d * unat m < unat x"
proof -
  have "unat d < unat x div unat m"
    using assms by (simp add: word_less_nat_alt unat_div)
  then have "unat d * unat m < (unat x div unat m) * unat m"
    by (cases "unat m = 0") auto
  also have "\<dots> \<le> unat x"
    by simp
  finally show ?thesis .
qed

text \<open>
  The guard before the multiplication makes the 32-bit product exact: it is below the
  (possibly wrapped) \<^verbatim>\<open>max_delay_ms * 100\<close>.
\<close>

lemma product_exact:
  fixes d m x :: u32
  assumes "d < x div m"
  shows "unat (d * m) = unat d * unat m"
proof -
  have "unat d * unat m < 4294967296"
    using unat_le_div [OF assms] unat_u32_bound [of x] by simp
  then show ?thesis
    by (rule unat_mult_u32)
qed

lemma backoff_loop_le: "d \<le> max_delay_ms cfg \<Longrightarrow> backoff_loop n cfg d \<le> max_delay_ms cfg"
  by (induction n arbitrary: d) (auto simp: Let_def not_less)

lemma backoff_loop_Suc_le: "backoff_loop (Suc n) cfg d \<le> max_delay_ms cfg"
  by (auto simp: Let_def not_less intro: backoff_loop_le)

lemma unat_next_delay:
  assumes "d < (max_delay_ms cfg * 100) div ucast (multiplier_percent cfg)"
  shows "unat ((d * ucast (multiplier_percent cfg)) div 100) = unat d * unat (multiplier_percent cfg) div 100"
  using product_exact [OF assms] by (simp add: unat_div)

lemma backoff_loop_ge:
  assumes "100 \<le> multiplier_percent cfg" and "d \<le> max_delay_ms cfg"
  shows "d \<le> backoff_loop (Suc 0) cfg d"
proof -
  have "(100::nat) \<le> unat (multiplier_percent cfg)"
    using assms(1) by (simp add: word_le_nat_alt)
  then have "unat d * 100 \<le> unat d * unat (multiplier_percent cfg)"
    by (rule mult_le_mono2)
  then have "unat d \<le> unat d * unat (multiplier_percent cfg) div 100"
    by linarith
  then have "d < (max_delay_ms cfg * 100) div ucast (multiplier_percent cfg) \<Longrightarrow>
      d \<le> (d * ucast (multiplier_percent cfg)) div 100"
    using unat_next_delay [of d cfg] by (simp add: word_le_nat_alt)
  then show ?thesis
    using assms(2) by (auto simp: Let_def not_le)
qed

lemma backoff_loop_mono_step:
  assumes "100 \<le> multiplier_percent cfg"
  shows "d \<le> max_delay_ms cfg \<Longrightarrow> backoff_loop n cfg d \<le> backoff_loop (Suc n) cfg d"
proof (induction n arbitrary: d)
  case 0
  then show ?case
    using backoff_loop_ge [OF assms] by simp
next
  case (Suc n)
  let ?d' = "(d * ucast (multiplier_percent cfg)) div 100"
  show ?case
  proof (cases "d \<ge> (max_delay_ms cfg * 100) div ucast (multiplier_percent cfg) \<or> ?d' > max_delay_ms cfg")
    case True
    then show ?thesis by (auto simp: Let_def)
  next
    case False
    then have "backoff_loop n cfg ?d' \<le> backoff_loop (Suc n) cfg ?d'"
      by (intro Suc.IH) (simp add: not_less)
    with False show ?thesis
      by (simp only: backoff_loop.simps(2) [of n cfg d] backoff_loop.simps(2) [of "Suc n" cfg d] Let_def) auto
  qed
qed

lemma backoff_loop_mono:
  assumes "100 \<le> multiplier_percent cfg" and "d \<le> max_delay_ms cfg" and "m \<le> n"
  shows "backoff_loop m cfg d \<le> backoff_loop n cfg d"
  using assms(3) backoff_loop_mono_step [OF assms(1,2)]
  by (induction rule: dec_induct) (auto intro: order_trans simp del: backoff_loop.simps)

text \<open>Doubling: the documented formula, when twice a delay is never odd at the cap.\<close>

lemma backoff_loop_double:
  assumes "multiplier_percent cfg = 200" and "even (unat (max_delay_ms cfg))"
    and "unat (max_delay_ms cfg) * 100 < 2 ^ 32"
  shows "d \<le> max_delay_ms cfg \<Longrightarrow> 0 < d \<Longrightarrow>
    unat (backoff_loop n cfg d) = min (unat (max_delay_ms cfg)) (unat d * 2 ^ n)"
proof (induction n arbitrary: d)
  case 0
  then show ?case by (simp add: word_le_nat_alt min_def)
next
  case (Suc n)
  let ?M = "unat (max_delay_ms cfg)"
  have thr: "unat ((max_delay_ms cfg * 100) div 200) = ?M div 2"
    using unat_mult_u32 [of "max_delay_ms cfg" 100] assms(3) by (simp add: unat_div)
  show ?case
  proof (cases "d \<ge> (max_delay_ms cfg * 100) div 200")
    case True
    then have "?M div 2 \<le> unat d"
      by (simp add: word_le_nat_alt thr)
    then have "?M \<le> unat d * 2"
      using assms(2) by presburger
    also have "\<dots> \<le> unat d * 2 * 2 ^ n"
      by simp
    finally have "?M \<le> unat d * 2 ^ Suc n"
      by (simp add: mult.assoc)
    then show ?thesis
      using True assms(1) by (simp add: Let_def)
  next
    case False
    then have lt: "d < (max_delay_ms cfg * 100) div ucast (multiplier_percent cfg)"
      using assms(1) by simp
    let ?d' = "(d * 200) div 100"
    have d': "unat ?d' = 2 * unat d"
      using unat_next_delay [OF lt] assms(1) by simp
    have "unat d < ?M div 2"
      using False by (simp add: word_le_nat_alt thr)
    then have le: "?d' \<le> max_delay_ms cfg" and pos: "0 < ?d'"
      using d' Suc.prems(2) by (auto simp: word_le_nat_alt word_less_nat_alt)
    have "backoff_loop (Suc n) cfg d = backoff_loop n cfg ?d'"
      using False leD [OF le] assms(1) by (simp add: Let_def)
    then have "unat (backoff_loop (Suc n) cfg d) = min ?M (2 * unat d * 2 ^ n)"
      by (simp only: Suc.IH [OF le pos] d')
    then show ?thesis
      by (simp only: power_Suc mult.assoc mult.left_commute [of 2])
  qed
qed

subsection \<open>The manager\<close>

definition rm_consistent :: "ReconnectManager \<Rightarrow> bool" where
  "rm_consistent m \<longleftrightarrow> rm_current_delay_ms m = delay_for (rm_config m) (rm_retry_count m)"

lemma calculate_delay_simps [simp]:
  "rm_config (calculate_delay m) = rm_config m"
  "rm_retry_count (calculate_delay m) = rm_retry_count m"
  "rm_consistent (calculate_delay m)"
  by (simp_all add: calculate_delay_def rm_consistent_def)

lemma rm_ops_consistent [simp]:
  "rm_consistent (rm_new cfg)" "rm_consistent (record_failure m)"
  "rm_consistent (rm_reset m)" "rm_consistent (rm_set_config m cfg)"
  by (simp_all add: rm_new_def record_failure_def rm_reset_def rm_set_config_def)

lemma rm_ops_config [simp]:
  "rm_config (rm_new cfg) = cfg" "rm_config (record_failure m) = rm_config m"
  "rm_config (rm_reset m) = rm_config m" "rm_config (rm_set_config m cfg) = cfg"
  by (simp_all add: rm_new_def record_failure_def rm_reset_def rm_set_config_def)

lemma unat_record_failure:
  "unat (rm_retry_count (record_failure m)) = min (unat (rm_retry_count m) + 1) (2 ^ 32 - 1)"
proof (cases "rm_retry_count m < 0xFFFFFFFF")
  case True
  then have "unat (rm_retry_count m) < 4294967295"
    by (simp add: word_less_nat_alt)
  then show ?thesis
    using True by (simp add: record_failure_def unat_word_ariths)
next
  case False
  then have "unat (rm_retry_count m) \<ge> 4294967295"
    by (simp add: word_less_nat_alt)
  then show ?thesis
    using False unat_u32_bound [of "rm_retry_count m"] by (simp add: record_failure_def)
qed

lemma unat_failures:
  "unat (rm_retry_count ((record_failure ^^ k) m)) = min (unat (rm_retry_count m) + k) (2 ^ 32 - 1)"
proof (induction k)
  case 0
  then show ?case
    using unat_u32_bound [of "rm_retry_count m"] by simp
next
  case (Suc k)
  then show ?case by (simp add: unat_record_failure)
qed

lemma failures_config [simp]: "rm_config ((record_failure ^^ k) m) = rm_config m"
  by (induction k) simp_all

lemma delay_for_le:
  assumes "initial_delay_ms cfg \<le> max_delay_ms cfg" and "fast_delay_ms cfg \<le> max_delay_ms cfg"
  shows "delay_for cfg r \<le> max_delay_ms cfg"
  using assms by (simp add: delay_for_def Let_def backoff_loop_le)

subsection \<open>Jitter\<close>

lemma cdiv_nonneg: "0 \<le> a \<Longrightarrow> 0 < b \<Longrightarrow> cdiv a b = a div b"
  by (cases "a = 0") (simp_all add: cdiv_def)

lemma uint_u32_of_int: "0 \<le> y \<Longrightarrow> y < 2 ^ 32 \<Longrightarrow> uint (word_of_int y :: u32) = y"
  by (simp add: uint_word_of_int_eq take_bit_int_eq_self)

lemma jitter_offset_range:
  fixes h :: int
  assumes "0 \<le> j"
  shows "- j \<le> h mod (2 * j + 1) - j" and "h mod (2 * j + 1) - j \<le> j"
  using assms pos_mod_bound [of "2 * j + 1" h] pos_mod_sign [of "2 * j + 1" h] by auto

lemma jitter_clamped:
  assumes "0 < max_delay_ms (rm_config m)" and "0 < jitter_percent (rm_config m)"
  shows "1 \<le> uint (get_next_delay_ms_with_jitter m seed) \<and>
    uint (get_next_delay_ms_with_jitter m seed) \<le> uint (max_delay_ms (rm_config m))"
proof -
  define M where "M = uint (max_delay_ms (rm_config m))"
  define a where "a = cdiv (uint (rm_current_delay_ms m) * (100 + (uint (xorshift seed)
      mod (2 * uint (jitter_percent (rm_config m)) + 1) - uint (jitter_percent (rm_config m))))) 100"
  have "get_next_delay_ms_with_jitter m seed =
      word_of_int (if M < (if a < 1 then 1 else a) then M else if a < 1 then 1 else a)"
    using assms(2) by (auto simp: get_next_delay_ms_with_jitter_def Let_def M_def a_def)
  moreover have "1 \<le> M" "M < 2 ^ 32"
    using assms(1) uint_lt2p [of "max_delay_ms (rm_config m)"] by (simp_all add: M_def word_less_def)
  ultimately show ?thesis
    using uint_u32_of_int [of "if M < (if a < 1 then 1 else a) then M else if a < 1 then 1 else a"]
    by (auto simp: M_def [symmetric])
qed

subsection \<open>Properties\<close>

text \<open>
  After any number of failures the next delay does not exceed the configured maximum, provided
  the initial and the fast delay do not, and for a multiplier of at least 100 percent it never
  decreases from one failure to a later one once the fast retries are used up.
\<close>

theorem backoff_bounded_and_monotone:
  assumes "initial_delay_ms cfg \<le> max_delay_ms cfg" and "fast_delay_ms cfg \<le> max_delay_ms cfg"
    and "100 \<le> multiplier_percent cfg" and "k < 2 ^ 32"
  shows "get_next_delay_ms ((record_failure ^^ k) (rm_new cfg)) \<le> max_delay_ms cfg \<and>
    (unat (fast_retries cfg) \<le> j \<and> j \<le> k \<longrightarrow>
      get_next_delay_ms ((record_failure ^^ j) (rm_new cfg)) \<le> get_next_delay_ms ((record_failure ^^ k) (rm_new cfg)))"
proof -
  have cur: "get_next_delay_ms ((record_failure ^^ n) (rm_new cfg)) =
      delay_for cfg (rm_retry_count ((record_failure ^^ n) (rm_new cfg)))" for n
  proof -
    have "rm_consistent ((record_failure ^^ n) (rm_new cfg))"
      by (cases n) simp_all
    then show ?thesis
      by (simp add: get_next_delay_ms_def rm_consistent_def)
  qed
  have zero: "rm_retry_count (rm_new cfg) = 0"
    by (simp add: rm_new_def)
  have count: "unat (rm_retry_count ((record_failure ^^ n) (rm_new cfg))) = n" if "n < 2 ^ 32" for n
    using unat_failures [of n "rm_new cfg"] that zero by simp
  have loop: "delay_for cfg r = backoff_loop (unat r - unat (fast_retries cfg)) cfg (initial_delay_ms cfg)"
    if "unat (fast_retries cfg) \<le> unat r" for r
  proof -
    have le: "ucast (fast_retries cfg) \<le> r"
      using that by (simp add: word_le_nat_alt)
    then have "unat (r - ucast (fast_retries cfg)) = unat r - unat (fast_retries cfg)"
      by (simp add: unat_sub)
    then show ?thesis
      using leD [OF le] by (simp add: delay_for_def)
  qed
  show ?thesis
    using delay_for_le [OF assms(1,2), of "rm_retry_count ((record_failure ^^ k) (rm_new cfg))"] assms(4)
      backoff_loop_mono [OF assms(3,1), of "j - unat (fast_retries cfg)" "k - unat (fast_retries cfg)"]
    by (auto simp: cur loop count diff_le_mono)
qed

theorem backoff_bounded_and_monotone_witness:
  "get_next_delay_ms ((record_failure ^^ 9) (rm_new default_reconnect_config)) \<le> 30000 \<and>
   get_next_delay_ms ((record_failure ^^ 2) (rm_new default_reconnect_config)) \<le>
   get_next_delay_ms ((record_failure ^^ 9) (rm_new default_reconnect_config))"
  using backoff_bounded_and_monotone [of default_reconnect_config 9 2]
  by (simp add: default_reconnect_config_def del: funpow.simps)

text \<open>
  With the documented doubling, the delay after \<open>k\<close> failures is
  \<open>initial * 2 ^ (k - fast_retries)\<close>, capped at the maximum.
\<close>

theorem backoff_doubles:
  assumes "multiplier_percent cfg = 200" and "even (unat (max_delay_ms cfg))"
    and "unat (max_delay_ms cfg) * 100 < 2 ^ 32" and "initial_delay_ms cfg \<le> max_delay_ms cfg"
    and "0 < initial_delay_ms cfg" and "ucast (fast_retries cfg) \<le> r"
  shows "unat (delay_for cfg r) =
    min (unat (max_delay_ms cfg)) (unat (initial_delay_ms cfg) * 2 ^ (unat r - unat (fast_retries cfg)))"
proof -
  have "unat (r - ucast (fast_retries cfg)) = unat r - unat (fast_retries cfg)"
    using assms(6) by (simp add: unat_sub)
  then show ?thesis
    using backoff_loop_double [OF assms(1-5), of "unat r - unat (fast_retries cfg)"] leD [OF assms(6)]
    by (simp add: delay_for_def)
qed

theorem backoff_doubles_witness:
  "unat (delay_for default_reconnect_config 4) = min 30000 (1000 * 2 ^ 3)"
  using backoff_doubles [of default_reconnect_config 4] by (simp add: default_reconnect_config_def)

text \<open>
  The jittered delay stays within the configured percentage around the current delay
  (rounded down, at least 1 ms) and below the maximum, for every seed.
\<close>

theorem jitter_within_bounds:
  assumes "rm_current_delay_ms m \<le> max_delay_ms (rm_config m)" and "0 < max_delay_ms (rm_config m)"
    and "jitter_percent (rm_config m) \<le> 100" and "0 < jitter_percent (rm_config m)"
  shows "let d = uint (rm_current_delay_ms m); j = uint (jitter_percent (rm_config m));
             x = uint (get_next_delay_ms_with_jitter m seed)
    in 1 \<le> x \<and> x \<le> uint (max_delay_ms (rm_config m)) \<and>
       d * (100 - j) div 100 \<le> x \<and> x \<le> max 1 (d * (100 + j) div 100)"
proof -
  define d where "d = uint (rm_current_delay_ms m)"
  define j where "j = uint (jitter_percent (rm_config m))"
  define M where "M = uint (max_delay_ms (rm_config m))"
  define o' where "o' = uint (xorshift seed) mod (2 * j + 1) - j"
  have j: "0 < j" "j \<le> 100"
    using assms(3,4) by (simp_all add: j_def word_le_def word_less_def)
  have dm: "0 \<le> d" "d \<le> M" "0 < M" "M < 2 ^ 32"
    using assms(1,2) uint_lt2p [of "max_delay_ms (rm_config m)"]
    by (simp_all add: d_def M_def word_le_def word_less_def)
  have o: "- j \<le> o'" "o' \<le> j"
    using jitter_offset_range [of j "uint (xorshift seed)"] j(1) by (simp_all add: o'_def)
  define a where "a = d * (100 + o') div 100"
  have "cdiv (d * (100 + o')) 100 = a"
    using cdiv_nonneg [of "d * (100 + o')" 100] dm(1) o j by (simp add: a_def)
  then have "get_next_delay_ms_with_jitter m seed =
      word_of_int (if M < (if a < 1 then 1 else a) then M else if a < 1 then 1 else a)"
    using assms(4)
    by (auto simp: get_next_delay_ms_with_jitter_def Let_def d_def j_def M_def o'_def)
  also have "(if M < (if a < 1 then 1 else a) then M else if a < 1 then 1 else a) = min M (max 1 a)"
    by auto
  finally have "get_next_delay_ms_with_jitter m seed = word_of_int (min M (max 1 a))" .
  moreover have "0 \<le> min M (max 1 a)" "min M (max 1 a) < 2 ^ 32"
    using dm by auto
  ultimately have x: "uint (get_next_delay_ms_with_jitter m seed) = min M (max 1 a)"
    by (simp add: uint_u32_of_int)
  have "d * (100 - j) \<le> d * (100 + o')" "d * (100 + o') \<le> d * (100 + j)"
    using o dm(1) by (auto intro: mult_left_mono)
  then have bounds: "d * (100 - j) div 100 \<le> a" "a \<le> d * (100 + j) div 100"
    by (simp_all add: a_def zdiv_mono1)
  have "d * (100 - j) \<le> d * 100"
    using dm(1) j(1) by (intro mult_left_mono) auto
  then have "d * (100 - j) div 100 \<le> d"
    using zdiv_mono1 [of "d * (100 - j)" "d * 100" 100] by simp
  then have "d * (100 - j) div 100 \<le> min M (max 1 a)" "min M (max 1 a) \<le> max 1 (d * (100 + j) div 100)"
    using bounds dm by linarith+
  then show ?thesis
    using x dm by (simp add: Let_def d_def [symmetric] j_def [symmetric] M_def [symmetric])
qed

theorem jitter_within_bounds_witness:
  "let x = uint (get_next_delay_ms_with_jitter ((record_failure ^^ 2) (rm_new default_reconnect_config)) 12345)
   in 1800 \<le> x \<and> x \<le> 2200"
proof -
  define m where "m = (record_failure ^^ 2) (rm_new default_reconnect_config)"
  have m: "rm_current_delay_ms m = 2000" "rm_config m = default_reconnect_config"
    unfolding m_def by code_simp+
  show ?thesis
    using jitter_within_bounds [of m 12345, unfolded m]
    by (auto simp: m_def [symmetric] Let_def) (simp_all add: default_reconnect_config_def)
qed

text \<open>
  A new manager with a retry limit allows exactly that many failures; with limit 0 it always
  allows another attempt.
\<close>

theorem retry_limit_exact:
  assumes "k < 2 ^ 32"
  shows "should_retry ((record_failure ^^ k) (rm_new cfg)) =
    (if max_retries cfg = 0 \<or> k < unat (max_retries cfg) then ShouldRetry else MaxRetriesReached)"
proof -
  have "unat (rm_retry_count ((record_failure ^^ k) (rm_new cfg))) = k"
    using unat_failures [of k "rm_new cfg"] assms by (simp add: rm_new_def)
  then show ?thesis
    by (simp add: should_retry_def word_le_nat_alt del: funpow.simps)
qed

theorem retry_limit_exact_witness:
  "should_retry ((record_failure ^^ 3) (rm_new (default_reconnect_config\<lparr>max_retries := 3\<rparr>))) = MaxRetriesReached"
  using retry_limit_exact [of 3 "default_reconnect_config\<lparr>max_retries := 3\<rparr>"] by simp

end
