(* ===== verification/Config_File.thy ===== *)
theory Config_File
  imports Prelude "HOL-Library.Sublist"
begin

text \<open>
  The settings and their file, \<^verbatim>\<open>config/config.hpp\<close> and \<^verbatim>\<open>config.cpp\<close>: the record of settings, the
  line parser of the console build (\<^verbatim>\<open>parse_config_content\<close>), the writer (\<^verbatim>\<open>format_config_content\<close>) and loading
  and saving over the results of the file system. A character array that holds a C string is the
  string before its terminator; \<open>cstring\<close> cuts at the first zero character.
\<close>

subsection \<open>Constants and structures\<close>

definition MAX_HOST_LENGTH :: nat where "MAX_HOST_LENGTH = 128"
definition MAX_PASSPHRASE_LENGTH :: nat where "MAX_PASSPHRASE_LENGTH = 64"
definition MAX_INTERFACE_LENGTH :: nat where "MAX_INTERFACE_LENGTH = 32"

definition DEFAULT_HOST :: string where "DEFAULT_HOST = ''ldn.ryujinx.app''"
definition DEFAULT_PORT :: u16 where "DEFAULT_PORT = 30456"
definition DEFAULT_USE_TLS :: bool where "DEFAULT_USE_TLS = False"
definition DEFAULT_CONNECT_TIMEOUT_MS :: u32 where "DEFAULT_CONNECT_TIMEOUT_MS = 5000"
definition DEFAULT_PING_INTERVAL_MS :: u32 where "DEFAULT_PING_INTERVAL_MS = 10000"
definition DEFAULT_RECONNECT_DELAY_MS :: u32 where "DEFAULT_RECONNECT_DELAY_MS = 3000"
definition DEFAULT_MAX_RECONNECT_ATTEMPTS :: u32 where "DEFAULT_MAX_RECONNECT_ATTEMPTS = 5"
definition DEFAULT_LDN_ENABLED :: bool where "DEFAULT_LDN_ENABLED = True"
definition DEFAULT_DISABLE_P2P :: bool where "DEFAULT_DISABLE_P2P = True"
definition DEFAULT_DEBUG_ENABLED :: bool where "DEFAULT_DEBUG_ENABLED = True"
definition DEFAULT_DEBUG_LEVEL :: u32 where "DEFAULT_DEBUG_LEVEL = 3"
definition DEFAULT_LOG_TO_FILE :: bool where "DEFAULT_LOG_TO_FILE = True"

datatype ConfigResult = Success | FileNotFound | ParseError | IoError

record ServerConfig =
  sv_host :: string
  sv_port :: u16
  sv_use_tls :: bool

record NetworkConfig =
  nw_connect_timeout_ms :: u32
  nw_ping_interval_ms :: u32
  nw_reconnect_delay_ms :: u32
  nw_max_reconnect_attempts :: u32

record LdnConfig =
  ld_enabled :: bool
  ld_passphrase :: string
  ld_interface_name :: string
  ld_disable_p2p :: bool

record DebugConfig =
  db_enabled :: bool
  db_level :: u32
  db_log_to_file :: bool

record Config =
  cf_server :: ServerConfig
  cf_network :: NetworkConfig
  cf_ldn :: LdnConfig
  cf_debug :: DebugConfig

subsection \<open>Strings\<close>

definition cstring :: "char list \<Rightarrow> string" where
  "cstring a = takeWhile (\<lambda>c. c \<noteq> CHR 0x00) a"

definition is_blank :: "char \<Rightarrow> bool" where
  "is_blank c \<longleftrightarrow> c = CHR '' '' \<or> c = CHR 0x09"

definition is_end_blank :: "char \<Rightarrow> bool" where
  "is_end_blank c \<longleftrightarrow> is_blank c \<or> c = CHR 0x0A \<or> c = CHR 0x0D"

definition trim_start :: "string \<Rightarrow> string" where
  "trim_start s = dropWhile is_blank s"

definition trim_end :: "string \<Rightarrow> string" where
  "trim_end s = rev (dropWhile is_end_blank (rev s))"

definition safe_strcpy :: "string \<Rightarrow> nat \<Rightarrow> string" where
  "safe_strcpy src max_len = take max_len (cstring src)"

definition parse_bool :: "string \<Rightarrow> bool" where
  "parse_bool value =
     (case value of c # _ \<Rightarrow> \<not> (c = CHR ''0'' \<or> c = CHR ''f'' \<or> c = CHR ''F'' \<or> c = CHR ''n'' \<or> c = CHR ''N'') | [] \<Rightarrow> True)"

definition is_digit :: "char \<Rightarrow> bool" where
  "is_digit c \<longleftrightarrow> 48 \<le> (of_char c :: nat) \<and> (of_char c :: nat) \<le> 57"

definition digit_value :: "char \<Rightarrow> nat" where
  "digit_value c = of_char c - 48"

definition is_space :: "char \<Rightarrow> bool" where
  "is_space c \<longleftrightarrow> c \<in> set [CHR '' '', CHR 0x09, CHR 0x0A, CHR 0x0B, CHR 0x0C, CHR 0x0D]"

text \<open>\<^verbatim>\<open>strtoul\<close> to base ten with a 64-bit \<^verbatim>\<open>unsigned long\<close>: blanks, an optional sign, digits; it saturates.\<close>

definition strtoul :: "string \<Rightarrow> nat" where
  "strtoul value =
     (let s = dropWhile is_space value;
          neg = (case s of c # _ \<Rightarrow> c = CHR ''-'' | [] \<Rightarrow> False);
          s = (case s of c # r \<Rightarrow> if c = CHR ''-'' \<or> c = CHR ''+'' then r else s | [] \<Rightarrow> s);
          v = foldl (\<lambda>v c. 10 * v + digit_value c) 0 (takeWhile is_digit s)
      in if v \<ge> 2 ^ 64 then 2 ^ 64 - 1 else if neg then (2 ^ 64 - v) mod 2 ^ 64 else v)"

definition parse_uint32 :: "string \<Rightarrow> u32" where "parse_uint32 value = word_of_nat (strtoul value)"
definition parse_uint16 :: "string \<Rightarrow> u16" where "parse_uint16 value = word_of_nat (strtoul value)"

subsection \<open>The parser\<close>

datatype Section = Section_None | Section_Server | Section_Network | Section_Ldn | Section_Debug | Section_Unknown

definition parse_section :: "string \<Rightarrow> Section" where
  "parse_section line =
     (if line = ''[server]'' then Section_Server
      else if line = ''[network]'' then Section_Network
      else if line = ''[ldn]'' then Section_Ldn
      else if line = ''[debug]'' then Section_Debug
      else if line \<noteq> [] \<and> hd line = CHR ''['' then Section_Unknown
      else Section_None)"

definition process_server_key :: "string \<Rightarrow> string \<Rightarrow> ServerConfig \<Rightarrow> ServerConfig" where
  "process_server_key key value config =
     (if key = ''host'' then config\<lparr>sv_host := safe_strcpy value MAX_HOST_LENGTH\<rparr>
      else if key = ''port'' then config\<lparr>sv_port := parse_uint16 value\<rparr>
      else if key = ''use_tls'' then config\<lparr>sv_use_tls := parse_bool value\<rparr>
      else config)"

definition process_network_key :: "string \<Rightarrow> string \<Rightarrow> NetworkConfig \<Rightarrow> NetworkConfig" where
  "process_network_key key value config =
     (if key = ''connect_timeout'' then config\<lparr>nw_connect_timeout_ms := parse_uint32 value\<rparr>
      else if key = ''ping_interval'' then config\<lparr>nw_ping_interval_ms := parse_uint32 value\<rparr>
      else if key = ''reconnect_delay'' then config\<lparr>nw_reconnect_delay_ms := parse_uint32 value\<rparr>
      else if key = ''max_reconnect_attempts'' then config\<lparr>nw_max_reconnect_attempts := parse_uint32 value\<rparr>
      else config)"

definition process_ldn_key :: "string \<Rightarrow> string \<Rightarrow> LdnConfig \<Rightarrow> LdnConfig" where
  "process_ldn_key key value config =
     (if key = ''enabled'' then config\<lparr>ld_enabled := parse_bool value\<rparr>
      else if key = ''passphrase'' then config\<lparr>ld_passphrase := safe_strcpy value MAX_PASSPHRASE_LENGTH\<rparr>
      else if key = ''interface'' then config\<lparr>ld_interface_name := safe_strcpy value MAX_INTERFACE_LENGTH\<rparr>
      else if key = ''disable_p2p'' then config\<lparr>ld_disable_p2p := parse_bool value\<rparr>
      else config)"

definition process_debug_key :: "string \<Rightarrow> string \<Rightarrow> DebugConfig \<Rightarrow> DebugConfig" where
  "process_debug_key key value config =
     (if key = ''enabled'' then config\<lparr>db_enabled := parse_bool value\<rparr>
      else if key = ''level'' then config\<lparr>db_level := parse_uint32 value\<rparr>
      else if key = ''log_to_file'' then config\<lparr>db_log_to_file := parse_bool value\<rparr>
      else config)"

definition process_key :: "Section \<Rightarrow> string \<Rightarrow> string \<Rightarrow> Config \<Rightarrow> Config" where
  "process_key section key value config =
     (case section of
        Section_Server \<Rightarrow> config\<lparr>cf_server := process_server_key key value (cf_server config)\<rparr>
      | Section_Network \<Rightarrow> config\<lparr>cf_network := process_network_key key value (cf_network config)\<rparr>
      | Section_Ldn \<Rightarrow> config\<lparr>cf_ldn := process_ldn_key key value (cf_ldn config)\<rparr>
      | Section_Debug \<Rightarrow> config\<lparr>cf_debug := process_debug_key key value (cf_debug config)\<rparr>
      | _ \<Rightarrow> config)"

text \<open>The key=value part of a line; the key goes through a buffer of 64 characters.\<close>

definition process_pair :: "Section \<Rightarrow> string \<Rightarrow> Config \<Rightarrow> Config" where
  "process_pair section line config =
     (if CHR ''='' \<in> set line then
        let key = takeWhile (\<lambda>c. c \<noteq> CHR ''='') line;
            value = tl (dropWhile (\<lambda>c. c \<noteq> CHR ''='') line);
            trimmed_key = trim_end (trim_start key);
            trimmed_value = trim_end (trim_start value);
            key_buf = trim_end (safe_strcpy trimmed_key 63)
        in process_key section key_buf trimmed_value config
      else config)"

definition process_line :: "char list \<Rightarrow> Section \<times> Config \<Rightarrow> Section \<times> Config" where
  "process_line buffer sc =
     (if buffer = [] then sc
      else let line = trim_end (cstring buffer); trimmed = trim_start line in
        if trimmed = [] then sc
        else if hd trimmed = CHR '';'' \<or> hd trimmed = CHR ''#'' then sc
        else let new_section = parse_section trimmed in
          if new_section \<noteq> Section_None then (new_section, snd sc)
          else if fst sc \<noteq> Section_None \<and> fst sc \<noteq> Section_Unknown
          then (fst sc, process_pair (fst sc) line (snd sc))
          else sc)"

text \<open>The scan: lines end at \<^verbatim>\<open>LF\<close>, \<^verbatim>\<open>CR\<close> or both; a line keeps its first 511 characters.\<close>

function parse_scan :: "char list \<Rightarrow> char list \<Rightarrow> Section \<times> Config \<Rightarrow> Section \<times> Config" where
  "parse_scan [] line sc = process_line line sc"
| "parse_scan (c # cs) line sc =
     (if c = CHR 0x0A \<or> c = CHR 0x0D
      then parse_scan (if c = CHR 0x0D \<and> cs \<noteq> [] \<and> hd cs = CHR 0x0A then tl cs else cs) [] (process_line line sc)
      else parse_scan cs (if length line < 511 then line @ [c] else line) sc)"
  by pat_completeness auto
termination
  by (relation "measure (\<lambda>(cs, _, _). length cs)") auto

definition parse_config_content :: "char list \<Rightarrow> Config \<Rightarrow> Config" where
  "parse_config_content content config = snd (parse_scan content [] (Section_None, config))"

subsection \<open>The writer\<close>

text \<open>\<^verbatim>\<open>%u\<close> and \<^verbatim>\<open>%d\<close> of small values.\<close>

fun decimal :: "nat \<Rightarrow> string" where
  "decimal n = (if n < 10 then [char_of (48 + n)] else decimal (n div 10) @ [char_of (48 + n mod 10)])"

declare decimal.simps [simp del]

definition flag :: "bool \<Rightarrow> string" where "flag b = (if b then ''1'' else ''0'')"

text \<open>\<^verbatim>\<open>WRITE_LINE\<close>: a line that does not fit is left out.\<close>

definition write_line :: "nat \<Rightarrow> string \<Rightarrow> string \<Rightarrow> string" where
  "write_line buffer_size text out =
     (let written = text @ [CHR 0x0A] in if length out + length written < buffer_size then out @ written else out)"

definition config_lines :: "Config \<Rightarrow> string list" where
  "config_lines config =
     [''; ryu_ldn_nx Configuration'',
      ''; Auto-generated on first boot'',
      ''; Edit this file to customize settings'',
      '''',
      ''[server]'',
      ''; Server hostname or IP address'',
      ''host = '' @ sv_host (cf_server config),
      ''; Server port'',
      ''port = '' @ decimal (unat (sv_port (cf_server config))),
      ''; Use TLS encryption (0/1)'',
      ''use_tls = '' @ flag (sv_use_tls (cf_server config)),
      '''',
      ''[network]'',
      ''; Connection timeout in milliseconds'',
      ''connect_timeout = '' @ decimal (unat (nw_connect_timeout_ms (cf_network config))),
      ''; Ping interval in milliseconds'',
      ''ping_interval = '' @ decimal (unat (nw_ping_interval_ms (cf_network config))),
      ''; Reconnect delay in milliseconds'',
      ''reconnect_delay = '' @ decimal (unat (nw_reconnect_delay_ms (cf_network config))),
      ''; Max reconnect attempts (0 = disable auto-reconnect)'',
      ''max_reconnect_attempts = '' @ decimal (unat (nw_max_reconnect_attempts (cf_network config))),
      '''',
      ''[ldn]'',
      ''; Enable LDN emulation (0/1)'',
      ''enabled = '' @ flag (ld_enabled (cf_ldn config)),
      ''; Room passphrase (empty = public)'',
      ''passphrase = '' @ ld_passphrase (cf_ldn config),
      ''; Network interface (empty = auto)'',
      ''interface = '' @ ld_interface_name (cf_ldn config),
      ''; Disable P2P proxy (0/1) - like Ryujinx MultiplayerDisableP2p'',
      ''disable_p2p = '' @ flag (ld_disable_p2p (cf_ldn config)),
      '''',
      ''[debug]'',
      ''; Enable debug logging (0/1)'',
      ''enabled = '' @ flag (db_enabled (cf_debug config)),
      ''; Log level (0=errors, 1=warnings, 2=info, 3=verbose)'',
      ''level = '' @ decimal (unat (db_level (cf_debug config))),
      ''; Log to file (0/1)'',
      ''log_to_file = '' @ flag (db_log_to_file (cf_debug config))]"

definition format_config_content :: "nat \<Rightarrow> Config \<Rightarrow> string" where
  "format_config_content buffer_size config = foldl (\<lambda>out text. write_line buffer_size text out) [] (config_lines config)"

definition get_default_config :: Config where
  "get_default_config =
     \<lparr>cf_server = \<lparr>sv_host = safe_strcpy DEFAULT_HOST MAX_HOST_LENGTH, sv_port = DEFAULT_PORT, sv_use_tls = DEFAULT_USE_TLS\<rparr>,
      cf_network = \<lparr>nw_connect_timeout_ms = DEFAULT_CONNECT_TIMEOUT_MS, nw_ping_interval_ms = DEFAULT_PING_INTERVAL_MS,
        nw_reconnect_delay_ms = DEFAULT_RECONNECT_DELAY_MS, nw_max_reconnect_attempts = DEFAULT_MAX_RECONNECT_ATTEMPTS\<rparr>,
      cf_ldn = \<lparr>ld_enabled = DEFAULT_LDN_ENABLED, ld_passphrase = [], ld_interface_name = [], ld_disable_p2p = DEFAULT_DISABLE_P2P\<rparr>,
      cf_debug = \<lparr>db_enabled = DEFAULT_DEBUG_ENABLED, db_level = DEFAULT_DEBUG_LEVEL, db_log_to_file = DEFAULT_LOG_TO_FILE\<rparr>\<rparr>"

subsection \<open>Loading and saving\<close>

text \<open>
  The file system's answers to the calls of \<^verbatim>\<open>load_config\<close>: the entry type (\<^verbatim>\<open>None\<close>: no entry, else whether it is a file),
  opening, the size, the allocation of the buffer and the bytes read.
\<close>

record file_read =
  fr_entry :: "bool option"
  fr_open :: bool
  fr_size :: "int option"
  fr_alloc :: bool
  fr_content :: "char list option"

definition load_config :: "file_read \<Rightarrow> Config \<Rightarrow> ConfigResult \<times> Config" where
  "load_config f config =
     (case fr_entry f of
        None \<Rightarrow> (ConfigResult.FileNotFound, config)
      | Some is_file \<Rightarrow>
          if \<not> is_file then (ConfigResult.FileNotFound, config)
          else if \<not> fr_open f then (ConfigResult.IoError, config)
          else case fr_size f of
            None \<Rightarrow> (ConfigResult.IoError, config)
          | Some file_size \<Rightarrow>
              if file_size \<le> 0 \<or> file_size > 65536
              then (if file_size = 0 then (ConfigResult.FileNotFound, config) else (ConfigResult.ParseError, config))
              else if \<not> fr_alloc f then (ConfigResult.IoError, config)
              else case fr_content f of
                None \<Rightarrow> (ConfigResult.IoError, config)
              | Some content \<Rightarrow> (ConfigResult.Success, parse_config_content content config))"

text \<open>The answers to the calls of \<^verbatim>\<open>save_config\<close>, and what it leaves on the card.\<close>

record file_write =
  fw_alloc :: bool
  fw_create :: bool
  fw_open :: bool
  fw_write :: bool

datatype file_effect = Untouched | Removed | Created | Written string

definition save_config :: "file_write \<Rightarrow> Config \<Rightarrow> ConfigResult \<times> file_effect" where
  "save_config f config =
     (if \<not> fw_alloc f then (ConfigResult.IoError, Untouched)
      else let content = format_config_content 4096 config in
        if \<not> fw_create f then (ConfigResult.IoError, Removed)
        else if \<not> fw_open f then (ConfigResult.IoError, Created)
        else if \<not> fw_write f then (ConfigResult.IoError, Created)
        else (ConfigResult.Success, Written content))"

definition ensure_config_exists :: "bool option \<Rightarrow> file_write \<Rightarrow> ConfigResult \<times> file_effect" where
  "ensure_config_exists entry f =
     (if entry = Some True then (ConfigResult.Success, Untouched) else save_config f get_default_config)"

text \<open>The card after a successful save, as the next load finds it.\<close>

definition readable_file :: "string \<Rightarrow> file_read" where
  "readable_file content = \<lparr>fr_entry = Some True, fr_open = True, fr_size = Some (int (length content)), fr_alloc = True,
     fr_content = Some content\<rparr>"

subsection \<open>Numbers\<close>

lemma of_digit: "d < 10 \<Longrightarrow> of_char (char_of (48 + d) :: char) = 48 + (d :: nat)"
  by simp

lemma decimal_rec: "10 \<le> n \<Longrightarrow> decimal n = decimal (n div 10) @ [char_of (48 + n mod 10)]" "n < 10 \<Longrightarrow> decimal n = [char_of (48 + n)]"
  by (simp_all add: decimal.simps [of n])

lemma decimal_digits: "c \<in> set (decimal n) \<Longrightarrow> is_digit c"
proof (induction n arbitrary: c rule: decimal.induct)
  case (1 n)
  show ?case
  proof (cases "n < 10")
    case True
    then show ?thesis
      using 1(2) by (auto simp: decimal_rec is_digit_def)
  next
    case False
    then have "c \<in> set (decimal (n div 10)) \<or> c = char_of (48 + n mod 10)"
      using 1(2) by (auto simp: decimal_rec)
    then show ?thesis
      using 1(1) [OF False, of c] by (auto simp: is_digit_def)
  qed
qed

lemma decimal_value: "foldl (\<lambda>v c. 10 * v + digit_value c) 0 (decimal n) = n"
proof (induction n rule: decimal.induct)
  case (1 n)
  show ?case
  proof (cases "n < 10")
    case True
    then show ?thesis
      by (simp add: decimal_rec digit_value_def)
  next
    case False
    then show ?thesis
      using 1(1) by (simp add: decimal_rec digit_value_def)
  qed
qed

lemma decimal_not_Nil [simp]: "decimal n \<noteq> []"
  by (cases "n < 10") (simp_all add: decimal_rec)

lemma length_decimal: "n < 10 ^ k \<Longrightarrow> 0 < k \<Longrightarrow> length (decimal n) \<le> k"
proof (induction n arbitrary: k rule: decimal.induct)
  case (1 n)
  show ?case
  proof (cases "n < 10")
    case True
    then show ?thesis
      using 1(3) by (simp add: decimal_rec)
  next
    case False
    then have k: "n div 10 < 10 ^ (k - 1)" "0 < k - 1"
      using 1(2,3) by (cases k; simp add: less_mult_imp_div_less mult.commute; fail)
        (use False 1(2,3) in \<open>cases k; cases "k - 1"; simp\<close>)
    then show ?thesis
      using 1(1) [OF False k] False by (simp add: decimal_rec)
  qed
qed

lemma digit_plain:
  assumes "is_digit c"
  shows "\<not> is_space c" "c \<noteq> CHR ''-''" "c \<noteq> CHR ''+''" "\<not> is_blank c" "\<not> is_end_blank c" "c \<noteq> CHR 0x00" "c \<noteq> CHR ''=''"
    "c \<noteq> CHR 0x0A" "c \<noteq> CHR 0x0D"
  using assms by (auto simp: is_digit_def is_space_def is_blank_def is_end_blank_def)

lemma takeWhile_all: "\<forall>x \<in> set xs. P x \<Longrightarrow> takeWhile P xs = xs"
  by (induction xs) auto

lemma strtoul_decimal:
  assumes "n < 2 ^ 64"
  shows "strtoul (decimal n) = n"
proof -
  obtain c cs where d: "decimal n = c # cs"
    using decimal_not_Nil by (cases "decimal n") auto
  have digits: "takeWhile is_digit (decimal n) = decimal n" "is_digit c"
    using decimal_digits [of _ n] d by (auto simp: takeWhile_eq_all_conv)
  then show ?thesis
    using assms decimal_value [of n] digit_plain [OF digits(2)] unfolding d
    by (simp add: strtoul_def Let_def takeWhile_all)
qed

lemma parse_decimal [simp]: "parse_uint32 (decimal (unat w)) = w" "parse_uint16 (decimal (unat v)) = v"
proof -
  have "unat w < 2 ^ 64" "unat v < 2 ^ 64"
    using unsigned_less [of w, where ?'a = nat] unsigned_less [of v, where ?'a = nat] by simp_all
  then show "parse_uint32 (decimal (unat w)) = w" "parse_uint16 (decimal (unat v)) = v"
    by (simp_all add: parse_uint32_def parse_uint16_def strtoul_decimal)
qed

lemma parse_flag [simp]: "parse_bool (flag b) = b"
  by (simp add: parse_bool_def flag_def)

subsection \<open>Lines\<close>

lemma trim_end_append: "v \<noteq> [] \<Longrightarrow> \<not> is_end_blank (last v) \<Longrightarrow> trim_end (k @ v) = k @ v"
  by (cases v rule: rev_cases) (simp_all add: trim_end_def)

lemma trim_end_id: "v = [] \<or> \<not> is_end_blank (last v) \<Longrightarrow> trim_end v = v"
  using trim_end_append [of v "[]"] by (cases "v = []") (simp_all add: trim_end_def)

lemma trim_end_blank: "is_end_blank c \<Longrightarrow> trim_end (k @ [c]) = trim_end k"
  by (simp add: trim_end_def)

lemma trim_start_id: "v = [] \<or> \<not> is_blank (hd v) \<Longrightarrow> trim_start v = v"
  by (cases v) (auto simp: trim_start_def)

lemma cstring_id: "CHR 0x00 \<notin> set s \<Longrightarrow> cstring s = s"
  by (auto simp: cstring_def takeWhile_eq_all_conv)

lemma is_end_blank_cases [simp]:
  "is_end_blank (CHR '' '')" "\<not> is_end_blank (CHR ''='')" "is_blank (CHR '' '')" "\<not> is_blank (CHR ''='')"
  "is_blank c \<Longrightarrow> is_end_blank c"
  by (simp_all add: is_end_blank_def is_blank_def)

text \<open>Values that a line can carry: no line end, no zero character, no blank at either end.\<close>

definition clean_value :: "string \<Rightarrow> bool" where
  "clean_value v \<longleftrightarrow> list_all (\<lambda>c. c \<noteq> CHR 0x00 \<and> c \<noteq> CHR 0x0A \<and> c \<noteq> CHR 0x0D) v \<and>
     (v = [] \<or> \<not> is_blank (hd v) \<and> \<not> is_blank (last v))"

definition clean_key :: "string \<Rightarrow> bool" where
  "clean_key k \<longleftrightarrow> k \<noteq> [] \<and> list_all (\<lambda>c. \<not> is_end_blank c \<and> c \<noteq> CHR ''='' \<and> c \<noteq> CHR 0x00) k \<and>
     hd k \<noteq> CHR '';'' \<and> hd k \<noteq> CHR ''#'' \<and> hd k \<noteq> CHR ''['' \<and> length k \<le> 63"

lemma clean_value_last: "clean_value v \<Longrightarrow> v \<noteq> [] \<Longrightarrow> \<not> is_end_blank (last v)"
  by (auto simp: clean_value_def is_end_blank_def list_all_iff)

lemma section_of_key: "k \<noteq> [] \<Longrightarrow> hd k \<noteq> CHR ''['' \<Longrightarrow> parse_section k = Section_None"
  by (cases k) (simp_all add: parse_section_def)

lemma clean_key_facts:
  assumes "clean_key k"
  shows "k \<noteq> []" "\<not> is_blank (hd k)" "\<not> is_end_blank (last k)" "CHR 0x00 \<notin> set k" "length k \<le> 63"
  using assms is_end_blank_cases(5) [of "hd k"] by (auto simp: clean_key_def list_all_iff simp del: is_end_blank_cases(5))

lemma process_pair_clean:
  assumes k: "clean_key k" and v: "clean_value v" and line: "line = k @ '' ='' @ (if v = [] then [] else CHR '' '' # v)"
  shows "process_pair sec line cfg = process_key sec k v cfg"
proof -
  have no_eq: "\<forall>c \<in> set (k @ '' ''). c \<noteq> CHR ''=''"
    using k by (auto simp: clean_key_def list_all_iff)
  have split: "line = (k @ '' '') @ CHR ''='' # (if v = [] then [] else CHR '' '' # v)"
    using line by simp
  have key: "takeWhile (\<lambda>c. c \<noteq> CHR ''='') line = k @ '' ''" "dropWhile (\<lambda>c. c \<noteq> CHR ''='') line = CHR ''='' # (if v = [] then [] else CHR '' '' # v)"
    unfolding split using takeWhile_append2 [of "k @ '' ''"] dropWhile_append2 [of "k @ '' ''"] no_eq by simp_all
  note facts = clean_key_facts [OF k]
  have k': "trim_start (k @ '' '') = k @ '' ''" "trim_end (k @ '' '') = k" "trim_end k = k" "safe_strcpy k 63 = k"
    using facts trim_start_id [of "k @ '' ''"] trim_end_blank [of "CHR '' ''" k] trim_end_id [of k] cstring_id [of k]
    by (simp_all add: safe_strcpy_def)
  have v': "trim_end (trim_start (if v = [] then [] else CHR '' '' # v)) = v"
    using v clean_value_last [OF v] trim_start_id [of v] trim_end_id [of v]
    by (auto simp: trim_start_def clean_value_def)
  show ?thesis
    using key k' v' by (simp add: process_pair_def line)
qed

lemma process_line_clean:
  assumes k: "clean_key k" and v: "clean_value v" and sec: "sec \<noteq> Section_None" "sec \<noteq> Section_Unknown"
  shows "process_line (k @ '' = '' @ v) (sec, cfg) = (sec, process_key sec k v cfg)"
proof -
  let ?line = "k @ '' ='' @ (if v = [] then [] else CHR '' '' # v)"
  have c: "cstring (k @ '' = '' @ v) = k @ '' = '' @ v"
    using k v by (intro cstring_id) (auto simp: clean_key_def clean_value_def list_all_iff)
  have "trim_end (k @ '' = '' @ v) = ?line"
  proof (cases "v = []")
    case True
    then show ?thesis
      using trim_end_blank [of "CHR '' ''" "k @ '' =''"] trim_end_append [of "'' =''" k] by simp
  next
    case False
    then show ?thesis
      using trim_end_append [of v "k @ '' = ''"] clean_value_last [OF v] by simp
  qed
  moreover have hd: "hd ?line = hd k" "?line \<noteq> []"
    using clean_key_facts(1) [OF k] by simp_all
  moreover have "trim_start ?line = ?line"
    using clean_key_facts(2) [OF k] hd by (intro trim_start_id) simp
  ultimately show ?thesis
    using k sec process_pair_clean [OF k v refl, of sec cfg] section_of_key [OF hd(2)] c clean_key_facts(1) [OF k]
    unfolding process_line_def Let_def clean_key_def by simp
qed

lemma process_line_comment: "process_line (CHR '';'' # s) sc = sc"
proof -
  have "trim_end (cstring (CHR '';'' # s)) = CHR '';'' # trim_end (cstring s)" for s
  proof -
    have "\<not> is_end_blank (CHR '';'')"
      by (simp add: is_end_blank_def is_blank_def)
    then show ?thesis
      by (simp add: trim_end_def cstring_def dropWhile_append)
  qed
  then show ?thesis
    by (simp add: process_line_def trim_start_def is_blank_def)
qed

subsection \<open>Whole files\<close>

definition plain_line :: "string \<Rightarrow> bool" where
  "plain_line l \<longleftrightarrow> list_all (\<lambda>c. c \<noteq> CHR 0x0A \<and> c \<noteq> CHR 0x0D) l \<and> length l \<le> 511"

lemma parse_scan_line:
  "list_all (\<lambda>c. c \<noteq> CHR 0x0A \<and> c \<noteq> CHR 0x0D) l \<Longrightarrow> length acc + length l \<le> 511 \<Longrightarrow>
   parse_scan (l @ CHR 0x0A # rest) acc sc = parse_scan rest [] (process_line (acc @ l) sc)"
  by (induction l arbitrary: acc) simp_all

definition file_of :: "string list \<Rightarrow> string" where
  "file_of lines = concat (map (\<lambda>l. l @ [CHR 0x0A]) lines)"

lemma parse_scan_file:
  "list_all plain_line lines \<Longrightarrow> parse_scan (file_of lines) [] sc = foldl (\<lambda>sc l. process_line l sc) sc lines"
proof (induction lines arbitrary: sc)
  case Nil
  then show ?case
    by (simp add: file_of_def process_line_def)
next
  case (Cons l lines)
  then show ?case
    using parse_scan_line [of l "[]" "file_of lines" sc] by (simp add: file_of_def plain_line_def)
qed

lemma format_file:
  "length out + length (file_of lines) < n \<Longrightarrow> foldl (\<lambda>out text. write_line n text out) out lines = out @ file_of lines"
  by (induction lines arbitrary: out) (simp_all add: file_of_def write_line_def)

definition config_clean :: "Config \<Rightarrow> bool" where
  "config_clean c \<longleftrightarrow>
     clean_value (sv_host (cf_server c)) \<and> length (sv_host (cf_server c)) \<le> MAX_HOST_LENGTH \<and>
     clean_value (ld_passphrase (cf_ldn c)) \<and> length (ld_passphrase (cf_ldn c)) \<le> MAX_PASSPHRASE_LENGTH \<and>
     clean_value (ld_interface_name (cf_ldn c)) \<and> length (ld_interface_name (cf_ldn c)) \<le> MAX_INTERFACE_LENGTH"

lemma decimal_u32: "length (decimal (unat (w :: u32))) \<le> 10"
  using unsigned_less [of w, where ?'a = nat] by (intro length_decimal) simp_all

lemma decimal_u16: "length (decimal (unat (v :: u16))) \<le> 5"
  using unsigned_less [of v, where ?'a = nat] by (intro length_decimal) simp_all

lemma clean_decimal [simp]: "clean_value (decimal n)"
proof -
  have "is_digit (hd (decimal n))" "is_digit (last (decimal n))"
    using decimal_digits [of _ n] by simp_all
  then show ?thesis
    using decimal_digits [of _ n] digit_plain by (auto simp: clean_value_def list_all_iff)
qed

lemma clean_flag [simp]: "clean_value (flag b)" "length (flag b) = 1"
  by (simp_all add: flag_def clean_value_def is_blank_def)

lemma clean_plain: "clean_value v \<Longrightarrow> list_all (\<lambda>c. c \<noteq> CHR 0x0A \<and> c \<noteq> CHR 0x0D) v"
  by (auto simp: clean_value_def list_all_iff)

lemma clean_no_zero: "clean_value v \<Longrightarrow> CHR 0x00 \<notin> set v"
  unfolding clean_value_def list_all_iff by blast

lemma safe_strcpy_clean: "clean_value v \<Longrightarrow> length v \<le> n \<Longrightarrow> safe_strcpy v n = v"
  using cstring_id [OF clean_no_zero, of v] by (simp add: safe_strcpy_def)

lemma plain_append: "list_all (\<lambda>c. c \<noteq> CHR 0x0A \<and> c \<noteq> CHR 0x0D) k \<Longrightarrow> clean_value v \<Longrightarrow> length k + length v \<le> 511 \<Longrightarrow> plain_line (k @ v)"
  using clean_plain [of v] by (simp add: plain_line_def)

lemma config_lines_plain:
  assumes "config_clean c"
  shows "list_all plain_line (config_lines c)" "length (file_of (config_lines c)) < 4096"
proof -
  note small = decimal_u16 [of "sv_port (cf_server c)"] decimal_u32 [of "nw_connect_timeout_ms (cf_network c)"]
    decimal_u32 [of "nw_ping_interval_ms (cf_network c)"] decimal_u32 [of "nw_reconnect_delay_ms (cf_network c)"]
    decimal_u32 [of "nw_max_reconnect_attempts (cf_network c)"] decimal_u32 [of "db_level (cf_debug c)"]
  have strs: "clean_value (sv_host (cf_server c))" "length (sv_host (cf_server c)) \<le> 128"
    "clean_value (ld_passphrase (cf_ldn c))" "length (ld_passphrase (cf_ldn c)) \<le> 64"
    "clean_value (ld_interface_name (cf_ldn c))" "length (ld_interface_name (cf_ldn c)) \<le> 32"
    using assms by (simp_all add: config_clean_def MAX_HOST_LENGTH_def MAX_PASSPHRASE_LENGTH_def MAX_INTERFACE_LENGTH_def)
  show "list_all plain_line (config_lines c)"
    unfolding config_lines_def list.pred_inject
    by (intro conjI TrueI; (rule plain_append)?) (use small strs in \<open>simp_all add: plain_line_def\<close>)
  show "length (file_of (config_lines c)) < 4096"
    using small strs unfolding config_lines_def file_of_def by simp
qed

lemma key_line:
  assumes "clean_value v" and "clean_key k" and "sec \<noteq> Section_None" and "sec \<noteq> Section_Unknown" and "l = k @ '' = ''"
  shows "process_line (l @ v) (sec, cfg) = (sec, process_key sec k v cfg)"
  using process_line_clean [OF assms(2,1,3,4)] assms(5) by simp

lemma clean_keys:
  "clean_key ''host''" "clean_key ''port''" "clean_key ''use_tls''" "clean_key ''connect_timeout''" "clean_key ''ping_interval''" "clean_key ''reconnect_delay''" "clean_key ''max_reconnect_attempts''" "clean_key ''enabled''" "clean_key ''passphrase''" "clean_key ''interface''" "clean_key ''disable_p2p''" "clean_key ''level''" "clean_key ''log_to_file''"
  by (simp_all add: clean_key_def is_end_blank_def is_blank_def)

lemma key_lines:
  assumes "clean_value v"
  shows
    "process_line (''host = '' @ v) (Section_Server, cfg) = (Section_Server, process_key Section_Server ''host'' v cfg)"
    "process_line (''port = '' @ v) (Section_Server, cfg) = (Section_Server, process_key Section_Server ''port'' v cfg)"
    "process_line (''use_tls = '' @ v) (Section_Server, cfg) = (Section_Server, process_key Section_Server ''use_tls'' v cfg)"
    "process_line (''connect_timeout = '' @ v) (Section_Network, cfg) = (Section_Network, process_key Section_Network ''connect_timeout'' v cfg)"
    "process_line (''ping_interval = '' @ v) (Section_Network, cfg) = (Section_Network, process_key Section_Network ''ping_interval'' v cfg)"
    "process_line (''reconnect_delay = '' @ v) (Section_Network, cfg) = (Section_Network, process_key Section_Network ''reconnect_delay'' v cfg)"
    "process_line (''max_reconnect_attempts = '' @ v) (Section_Network, cfg) = (Section_Network, process_key Section_Network ''max_reconnect_attempts'' v cfg)"
    "process_line (''enabled = '' @ v) (Section_Ldn, cfg) = (Section_Ldn, process_key Section_Ldn ''enabled'' v cfg)"
    "process_line (''passphrase = '' @ v) (Section_Ldn, cfg) = (Section_Ldn, process_key Section_Ldn ''passphrase'' v cfg)"
    "process_line (''interface = '' @ v) (Section_Ldn, cfg) = (Section_Ldn, process_key Section_Ldn ''interface'' v cfg)"
    "process_line (''disable_p2p = '' @ v) (Section_Ldn, cfg) = (Section_Ldn, process_key Section_Ldn ''disable_p2p'' v cfg)"
    "process_line (''enabled = '' @ v) (Section_Debug, cfg) = (Section_Debug, process_key Section_Debug ''enabled'' v cfg)"
    "process_line (''level = '' @ v) (Section_Debug, cfg) = (Section_Debug, process_key Section_Debug ''level'' v cfg)"
    "process_line (''log_to_file = '' @ v) (Section_Debug, cfg) = (Section_Debug, process_key Section_Debug ''log_to_file'' v cfg)"
  by (rule key_line [OF assms], simp_all only: clean_keys Section.distinct simp_thms, simp)+

lemma section_lines:
  "process_line ''[server]'' sc = (Section_Server, snd sc)"
  "process_line ''[network]'' sc = (Section_Network, snd sc)"
  "process_line ''[ldn]'' sc = (Section_Ldn, snd sc)"
  "process_line ''[debug]'' sc = (Section_Debug, snd sc)"
  "process_line [] sc = sc"
  by (simp_all add: process_line_def cstring_def trim_end_def trim_start_def is_end_blank_def is_blank_def parse_section_def)

lemmas config_strings = MAX_HOST_LENGTH_def MAX_PASSPHRASE_LENGTH_def MAX_INTERFACE_LENGTH_def

lemma fold_config_lines:
  assumes "config_clean c"
  shows "snd (foldl (\<lambda>sc l. process_line l sc) (Section_None, base) (config_lines c)) = c"
proof -
  have strs: "clean_value (sv_host (cf_server c))" "clean_value (ld_passphrase (cf_ldn c))" "clean_value (ld_interface_name (cf_ldn c))"
    using assms by (simp_all add: config_clean_def)
  have copies: "safe_strcpy (sv_host (cf_server c)) MAX_HOST_LENGTH = sv_host (cf_server c)"
    "safe_strcpy (ld_passphrase (cf_ldn c)) MAX_PASSPHRASE_LENGTH = ld_passphrase (cf_ldn c)"
    "safe_strcpy (ld_interface_name (cf_ldn c)) MAX_INTERFACE_LENGTH = ld_interface_name (cf_ldn c)"
    using assms safe_strcpy_clean by (simp_all add: config_clean_def)
  have "snd (foldl (\<lambda>sc l. process_line l sc) (Section_None, base) (config_lines c)) =
    base\<lparr>cf_server := \<lparr>sv_host = sv_host (cf_server c), sv_port = sv_port (cf_server c), sv_use_tls = sv_use_tls (cf_server c)\<rparr>,
      cf_network := cf_network c, cf_ldn := cf_ldn c, cf_debug := cf_debug c\<rparr>"
    unfolding config_lines_def foldl_Cons foldl_Nil
    by (simp only: process_line_comment section_lines key_lines [OF strs(1)] key_lines [OF strs(2)] key_lines [OF strs(3)]
        key_lines [OF clean_decimal] key_lines [OF clean_flag(1)] fst_conv snd_conv)
      (simp add: process_key_def process_server_key_def process_network_key_def process_ldn_key_def process_debug_key_def copies)
  then show ?thesis
    by simp
qed

text \<open>
  C24: saved settings come back unchanged: whatever settings were loaded before, parsing the text that
  \<^verbatim>\<open>format_config_content\<close> writes into its 4096-byte buffer gives exactly the settings that were written, as long as
  host, passphrase and interface fit their arrays and have no line end, zero character or blank at an end.
\<close>

theorem config_file_roundtrip:
  assumes "config_clean c"
  shows "parse_config_content (format_config_content 4096 c) base = c"
proof -
  have "format_config_content 4096 c = file_of (config_lines c)"
    using format_file [of "[]" "config_lines c" 4096] config_lines_plain(2) [OF assms] by (simp add: format_config_content_def)
  then show ?thesis
    using parse_scan_file [OF config_lines_plain(1) [OF assms]] fold_config_lines [OF assms]
    by (simp add: parse_config_content_def)
qed

theorem config_file_roundtrip_witness:
  "parse_config_content (format_config_content 4096 get_default_config)
     (get_default_config\<lparr>cf_debug := \<lparr>db_enabled = False, db_level = 0, db_log_to_file = False\<rparr>\<rparr>) = get_default_config"
  by (rule config_file_roundtrip)
    (simp add: config_clean_def get_default_config_def clean_value_def is_blank_def safe_strcpy_def cstring_def DEFAULT_HOST_def
      config_strings)

subsection \<open>Arrays\<close>

text \<open>The strings of the settings fit their arrays with the terminator.\<close>

definition config_fits :: "Config \<Rightarrow> bool" where
  "config_fits c \<longleftrightarrow>
     length (sv_host (cf_server c)) \<le> MAX_HOST_LENGTH \<and> CHR 0x00 \<notin> set (sv_host (cf_server c)) \<and>
     length (ld_passphrase (cf_ldn c)) \<le> MAX_PASSPHRASE_LENGTH \<and> CHR 0x00 \<notin> set (ld_passphrase (cf_ldn c)) \<and>
     length (ld_interface_name (cf_ldn c)) \<le> MAX_INTERFACE_LENGTH \<and> CHR 0x00 \<notin> set (ld_interface_name (cf_ldn c))"

lemma safe_strcpy_fits: "length (safe_strcpy s n) \<le> n" "CHR 0x00 \<notin> set (safe_strcpy s n)"
  by (auto simp: safe_strcpy_def cstring_def dest: in_set_takeD set_takeWhileD)

lemma process_key_fits: "config_fits c \<Longrightarrow> config_fits (process_key sec k v c)"
  unfolding config_fits_def process_key_def process_server_key_def process_network_key_def process_ldn_key_def process_debug_key_def
  by (simp add: safe_strcpy_fits split: Section.split)

lemma process_line_fits: "config_fits (snd sc) \<Longrightarrow> config_fits (snd (process_line l sc))"
  by (simp add: process_line_def process_pair_def process_key_fits Let_def)

lemma parse_scan_fits: "config_fits (snd sc) \<Longrightarrow> config_fits (snd (parse_scan cs l sc))"
  by (induction cs l sc rule: parse_scan.induct) (simp_all add: process_line_fits)

text \<open>
  C36: no settings file, however malformed, overflows a settings array: after loading any content, host, passphrase and
  interface name fit their arrays with their terminator, and a load that does not succeed leaves the settings as
  they were.
\<close>

theorem load_config_safe:
  assumes "config_fits c"
  shows "config_fits (snd (load_config f c)) \<and> (fst (load_config f c) \<noteq> ConfigResult.Success \<longrightarrow> snd (load_config f c) = c)"
  using assms parse_scan_fits [of "(Section_None, c)"]
  by (simp add: load_config_def parse_config_content_def split: option.split)

lemma default_fits: "config_fits get_default_config"
  using safe_strcpy_fits by (simp add: config_fits_def get_default_config_def)

theorem load_config_safe_witness:
  "let long = ''[server]'' @ [CHR 0x0A] @ ''host = '' @ replicate 1000 CHR ''a'' @ [CHR 0x0A] @ ''[ldn]'' @ [CHR 0x0A] @ ''passphrase = '' @ replicate 1000 CHR ''b''
   in config_fits (snd (load_config (readable_file long) get_default_config)) \<and>
     load_config ((readable_file long)\<lparr>fr_alloc := False\<rparr>) get_default_config = (ConfigResult.IoError, get_default_config)"
  using load_config_safe [OF default_fits] by (simp add: Let_def) (simp add: load_config_def readable_file_def)

end
