(* ===== verification/Ldn_Client.thy ===== *)
theory Ldn_Client
  imports Tcp_Client Connection_State Reconnect Config_File
begin

text \<open>
  The high-level client of \<^verbatim>\<open>network/client.hpp\<close> and \<^verbatim>\<open>.cpp\<close>: it drives the connection
  state machine, the reconnection manager and the packet client from \<^verbatim>\<open>update\<close>. The two
  user callbacks are flags; the calls they receive are recorded in \<open>rc_events\<close>, in order.
  \<^verbatim>\<open>std::rand\<close> is the function \<open>rc_rand\<close> of the number of calls made so far; the static
  counter of \<^verbatim>\<open>start_backoff\<close> is \<open>rc_backoff_counter\<close>. The state machine's own callback
  is never registered by the client, so \<^const>\<open>csm_fire\<close> models its \<^verbatim>\<open>process_event\<close> calls.
\<close>

datatype ClientOpResult =
  Success | NotConnected | NotReady | AlreadyConnected | ConnectionFailed | SendFailed
  | InvalidState | Timeout | ProtocolError | InternalError

text \<open>C strings in fixed arrays: the text before the first zero byte, and \<^verbatim>\<open>strncpy\<close>.\<close>

definition c_str :: "byte list \<Rightarrow> byte list" where
  "c_str a = takeWhile (\<lambda>b. b \<noteq> 0) a"

definition strncpy_term :: "nat \<Rightarrow> byte list \<Rightarrow> byte list" where
  "strncpy_term n src = take n (c_str src @ replicate n 0) @ [0]"

record AppConfig =
  app_host :: "byte list"
  app_port :: u16
  app_use_tls :: bool
  app_connect_timeout_ms :: u32
  app_ping_interval_ms :: u32
  app_reconnect_delay_ms :: u32
  app_max_reconnect_attempts :: u32
  app_passphrase :: "byte list"

record RyuLdnClientConfig =
  cc_host :: "byte list"
  cc_port :: u16
  cc_connect_timeout_ms :: u32
  cc_recv_timeout_ms :: u32
  cc_ping_interval_ms :: u32
  cc_reconnect :: ReconnectConfig
  cc_auto_reconnect :: bool
  cc_passphrase :: "byte list"
  cc_use_tls :: bool

text \<open>The default host is \<^verbatim>\<open>127.0.0.1\<close>.\<close>

definition default_client_config :: RyuLdnClientConfig where
  "default_client_config =
     \<lparr>cc_host = strncpy_term MAX_HOST_LENGTH [49, 50, 55, 46, 48, 46, 48, 46, 49], cc_port = 30456,
      cc_connect_timeout_ms = 5000, cc_recv_timeout_ms = 20, cc_ping_interval_ms = 0,
      cc_reconnect = default_reconnect_config, cc_auto_reconnect = True,
      cc_passphrase = replicate (MAX_PASSPHRASE_LENGTH + 1) 0, cc_use_tls = False\<rparr>"

definition client_config_of :: "AppConfig \<Rightarrow> RyuLdnClientConfig" where
  "client_config_of cfg =
     \<lparr>cc_host = memcpy (replicate (MAX_HOST_LENGTH + 1) 0) 0 (take MAX_HOST_LENGTH (app_host cfg)),
      cc_port = app_port cfg, cc_connect_timeout_ms = app_connect_timeout_ms cfg,
      cc_recv_timeout_ms = 20, cc_ping_interval_ms = 0,
      cc_reconnect = default_reconnect_config
        \<lparr>initial_delay_ms := app_reconnect_delay_ms cfg,
         max_delay_ms := app_reconnect_delay_ms cfg * 10,
         multiplier_percent := 200, jitter_percent := 10,
         max_retries := ucast (app_max_reconnect_attempts cfg)\<rparr>,
      cc_auto_reconnect = (app_max_reconnect_attempts cfg \<noteq> 0),
      cc_passphrase =
        memcpy (replicate (MAX_PASSPHRASE_LENGTH + 1) 0) 0 (take MAX_PASSPHRASE_LENGTH (app_passphrase cfg)),
      cc_use_tls = app_use_tls cfg\<rparr>"

text \<open>\<^verbatim>\<open>protocol::NetworkErrorCode\<close>, a cast of the received 32-bit value.\<close>

type_synonym NetworkErrorCode = u32

definition error_None :: NetworkErrorCode where "error_None = 0"
definition error_VersionMismatch :: NetworkErrorCode where "error_VersionMismatch = 1"
definition error_InvalidSessionId :: NetworkErrorCode where "error_InvalidSessionId = 3"
definition error_HandshakeTimeout :: NetworkErrorCode where "error_HandshakeTimeout = 4"
definition error_ConnectionRejected :: NetworkErrorCode where "error_ConnectionRejected = 202"
definition error_InternalError :: NetworkErrorCode where "error_InternalError = 900"

datatype client_event =
  StateChanged ConnectionState ConnectionState
  | PacketDelivered PacketId "byte list"

record RyuLdnClient =
  rc_config :: RyuLdnClientConfig
  rc_tcp :: TcpClient
  rc_machine :: ConnectionStateMachine
  rc_reconnect :: ReconnectManager
  rc_state_callback :: bool
  rc_packet_callback :: bool
  rc_last_ping_time_ms :: u64
  rc_backoff_start_time_ms :: u64
  rc_current_backoff_delay_ms :: u32
  rc_last_update_time_ms :: u64
  rc_session_id :: SessionId
  rc_mac_address :: MacAddress
  rc_handshake_sent :: bool
  rc_initialized :: bool
  rc_handshake_start_time_ms :: u64
  rc_handshake_timeout_ms :: u32
  rc_last_error_code :: NetworkErrorCode
  rc_last_pong_time_ms :: u64
  rc_ping_timeout_ms :: u32
  rc_pending_ping_count :: u32
  rc_last_rtt_ms :: u64
  rc_ping_id :: u8
  rc_backoff_counter :: u32
  rc_rand :: "nat \<Rightarrow> u32"
  rc_rand_calls :: nat
  rc_events :: "client_event list"

subsection \<open>Helpers\<close>

definition rc_state :: "RyuLdnClient \<Rightarrow> ConnectionState" where
  "rc_state c = csm_state (rc_machine c)"

definition rc_fire :: "RyuLdnClient \<Rightarrow> ConnectionEvent \<Rightarrow> RyuLdnClient" where
  "rc_fire c e = c\<lparr>rc_machine := csm_fire (rc_machine c) e\<rparr>"

text \<open>The two shapes of the callback: always, and only when the state differs.\<close>

definition rc_notify :: "RyuLdnClient \<Rightarrow> ConnectionState \<Rightarrow> RyuLdnClient" where
  "rc_notify c before =
     (if rc_state_callback c
      then c\<lparr>rc_events := rc_events c @ [StateChanged before (rc_state c)]\<rparr> else c)"

definition rc_notify_changed :: "RyuLdnClient \<Rightarrow> ConnectionState \<Rightarrow> RyuLdnClient" where
  "rc_notify_changed c before = (if before \<noteq> rc_state c then rc_notify c before else c)"

definition generate_session_id :: "RyuLdnClient \<Rightarrow> RyuLdnClient" where
  "generate_session_id c =
     c\<lparr>rc_session_id := \<lparr>sid_data = map (\<lambda>i. ucast (rc_rand c (rc_rand_calls c + i))) [0..<16]\<rparr>,
       rc_rand_calls := rc_rand_calls c + 16\<rparr>"

definition generate_mac_address :: "RyuLdnClient \<Rightarrow> RyuLdnClient" where
  "generate_mac_address c = c\<lparr>rc_mac_address := \<lparr>mac_data = [0x02, 0x00, 0x5e, 0x00, 0x53, 0x01]\<rparr>\<rparr>"

definition ryu_client_new :: "RyuLdnClientConfig \<Rightarrow> os \<Rightarrow> (nat \<Rightarrow> u32) \<Rightarrow> RyuLdnClient" where
  "ryu_client_new cfg w rnd =
     generate_mac_address (generate_session_id
       \<lparr>rc_config = cfg, rc_tcp = tcp_new w, rc_machine = csm_new, rc_reconnect = rm_new (cc_reconnect cfg),
        rc_state_callback = False, rc_packet_callback = False, rc_last_ping_time_ms = 0,
        rc_backoff_start_time_ms = 0, rc_current_backoff_delay_ms = 0, rc_last_update_time_ms = 0,
        rc_session_id = \<lparr>sid_data = replicate 16 0\<rparr>, rc_mac_address = \<lparr>mac_data = replicate 6 0\<rparr>,
        rc_handshake_sent = False, rc_initialized = False, rc_handshake_start_time_ms = 0,
        rc_handshake_timeout_ms = 5000, rc_last_error_code = error_None, rc_last_pong_time_ms = 0,
        rc_ping_timeout_ms = 10000, rc_pending_ping_count = 0, rc_last_rtt_ms = 0, rc_ping_id = 0,
        rc_backoff_counter = 0, rc_rand = rnd, rc_rand_calls = 0, rc_events = []\<rparr>)"

definition rc_set_config :: "RyuLdnClient \<Rightarrow> RyuLdnClientConfig \<Rightarrow> RyuLdnClient" where
  "rc_set_config c cfg =
     c\<lparr>rc_config := cfg, rc_reconnect := rm_set_config (rc_reconnect c) (cc_reconnect cfg)\<rparr>"

definition set_state_callback :: "RyuLdnClient \<Rightarrow> bool \<Rightarrow> RyuLdnClient" where
  "set_state_callback c registered = c\<lparr>rc_state_callback := registered\<rparr>"

definition set_packet_callback :: "RyuLdnClient \<Rightarrow> bool \<Rightarrow> RyuLdnClient" where
  "set_packet_callback c registered = c\<lparr>rc_packet_callback := registered\<rparr>"

definition rc_is_ready :: "RyuLdnClient \<Rightarrow> bool" where
  "rc_is_ready c \<longleftrightarrow> csm_is_ready (rc_machine c)"

subsection \<open>Backoff and handshake timers\<close>

definition start_backoff :: "RyuLdnClient \<Rightarrow> RyuLdnClient" where
  "start_backoff c =
     (let counter = rc_backoff_counter c + 1;
          seed = (rm_retry_count (rc_reconnect c) + 1) * 2654435761 + counter * 40503
      in c\<lparr>rc_backoff_start_time_ms := rc_last_update_time_ms c, rc_backoff_counter := counter,
           rc_current_backoff_delay_ms := get_next_delay_ms_with_jitter (rc_reconnect c) seed\<rparr>)"

definition auto_backoff :: "RyuLdnClient \<Rightarrow> RyuLdnClient" where
  "auto_backoff c = (if cc_auto_reconnect (rc_config c) then start_backoff c else c)"

definition is_backoff_expired :: "RyuLdnClient \<Rightarrow> u64 \<Rightarrow> bool \<times> RyuLdnClient" where
  "is_backoff_expired c now =
     (if rc_backoff_start_time_ms c = 0 then (False, c\<lparr>rc_backoff_start_time_ms := now\<rparr>)
      else (now - rc_backoff_start_time_ms c \<ge> ucast (rc_current_backoff_delay_ms c), c))"

definition is_handshake_timeout :: "RyuLdnClient \<Rightarrow> u64 \<Rightarrow> bool" where
  "is_handshake_timeout c now \<longleftrightarrow>
     (if rc_handshake_start_time_ms c = 0 then False
      else now - rc_handshake_start_time_ms c \<ge> ucast (rc_handshake_timeout_ms c))"

subsection \<open>Connecting and disconnecting\<close>

definition try_connect :: "RyuLdnClient \<Rightarrow> RyuLdnClient" where
  "try_connect c =
     (let cfg = rc_config c in
      case tcp_connect (rc_tcp c) (Some (c_str (cc_host cfg))) (cc_port cfg)
             (cc_connect_timeout_ms cfg) (cc_use_tls cfg) of (result, t) \<Rightarrow>
        let c = c\<lparr>rc_tcp := t\<rparr>; before = rc_state c in
        if result = ClientResult.Success
        then let c = rc_fire c ConnectionEvent.ConnectSuccess;
                 c = c\<lparr>rc_reconnect := rm_reset (rc_reconnect c)\<rparr>
             in rc_notify c before
        else let c = rc_fire c ConnectionEvent.ConnectFailed;
                 c = c\<lparr>rc_reconnect := record_failure (rc_reconnect c)\<rparr>
             in rc_notify (auto_backoff c) before)"

definition ryu_connect :: "RyuLdnClient \<Rightarrow> byte list option \<Rightarrow> u16 \<Rightarrow> ClientOpResult \<times> RyuLdnClient" where
  "ryu_connect c host port =
     (if (csm_is_connected (rc_machine c) \<or> csm_is_transitioning (rc_machine c)) \<and>
         rc_state c \<noteq> ConnectionState.Backoff
      then (ClientOpResult.AlreadyConnected, c)
      else
        let cfg = (case host of
                     Some h \<Rightarrow> (rc_config c)\<lparr>cc_host := strncpy_term MAX_HOST_LENGTH h\<rparr>
                   | None \<Rightarrow> rc_config c);
            c = c\<lparr>rc_config := cfg\<lparr>cc_port := port\<rparr>\<rparr>;
            (ok, c) = (if rc_initialized c then (True, c)
                       else case tcp_initialize (rc_tcp c) of (r, t) \<Rightarrow>
                         (r, c\<lparr>rc_tcp := t, rc_initialized := r\<rparr>))
        in if \<not> ok then (ClientOpResult.InternalError, c)
           else
             let c = c\<lparr>rc_handshake_sent := False\<rparr> in
             case process_event (rc_machine c) ConnectionEvent.Connect of (result, m, _) \<Rightarrow>
               let c = c\<lparr>rc_machine := m\<rparr> in
               if result \<noteq> TransitionResult.Success then (ClientOpResult.InvalidState, c)
               else (ClientOpResult.Success, rc_notify (try_connect c) ConnectionState.Disconnected))"

definition ryu_connect_default :: "RyuLdnClient \<Rightarrow> ClientOpResult \<times> RyuLdnClient" where
  "ryu_connect_default c = ryu_connect c (Some (c_str (cc_host (rc_config c)))) (cc_port (rc_config c))"

definition ryu_disconnect :: "RyuLdnClient \<Rightarrow> RyuLdnClient" where
  "ryu_disconnect c =
     (let t = (if csm_is_ready (rc_machine c)
               then snd (tcp_send_disconnect (rc_tcp c) \<lparr>disc_disconnect_ip = 0\<rparr>) else rc_tcp c);
          c = c\<lparr>rc_tcp := tcp_disconnect t\<rparr>;
          prev_state = rc_state c;
          c = rc_fire c ConnectionEvent.Disconnect;
          c = (if rc_state c = ConnectionState.Disconnecting
               then rc_fire c ConnectionEvent.ConnectionLost else c);
          c = c\<lparr>rc_reconnect := rm_reset (rc_reconnect c), rc_handshake_sent := False\<rparr>
      in rc_notify c prev_state)"

subsection \<open>Sending\<close>

text \<open>
  The body shared by the senders: refused unless ready; a failed send is reported, and one that
  lost the connection also moves the state machine.
\<close>

definition rc_lost :: "RyuLdnClient \<Rightarrow> RyuLdnClient" where
  "rc_lost c = rc_notify_changed (rc_fire c ConnectionEvent.ConnectionLost) (rc_state c)"

definition rc_send :: "(ClientResult \<Rightarrow> bool) \<Rightarrow> RyuLdnClient \<Rightarrow> (TcpClient \<Rightarrow> ClientResult \<times> TcpClient) \<Rightarrow>
    ClientOpResult \<times> RyuLdnClient" where
  "rc_send lost c send =
     (if \<not> rc_is_ready c then (ClientOpResult.NotReady, c)
      else case send (rc_tcp c) of (result, t) \<Rightarrow>
        let c = c\<lparr>rc_tcp := t\<rparr> in
        if result \<noteq> ClientResult.Success
        then (ClientOpResult.SendFailed, if lost result then rc_lost c else c)
        else (ClientOpResult.Success, c))"

definition is_lost :: "ClientResult \<Rightarrow> bool" where
  "is_lost r \<longleftrightarrow> r = ClientResult.ConnectionLost"

definition ryu_send_scan where
  "ryu_send_scan c flt = rc_send is_lost c (\<lambda>t. tcp_send_scan t flt)"

definition ryu_send_create_access_point where
  "ryu_send_create_access_point c request advertise_data advertise_size =
     rc_send is_lost c (\<lambda>t. tcp_send_create_access_point t request advertise_data advertise_size)"

definition ryu_send_connect where
  "ryu_send_connect c request = rc_send is_lost c (\<lambda>t. tcp_send_connect t request)"

definition ryu_send_create_access_point_private where
  "ryu_send_create_access_point_private c request =
     rc_send is_lost c (\<lambda>t. tcp_send_create_access_point_private t request None 0)"

definition ryu_send_connect_private where
  "ryu_send_connect_private c request = rc_send is_lost c (\<lambda>t. tcp_send_connect_private t request)"

text \<open>The proxy data sender also treats \<^verbatim>\<open>NotConnected\<close> as a lost connection; \<open>now\<close> is the
  time stamp the packet client takes.\<close>

definition ryu_send_proxy_data where
  "ryu_send_proxy_data c header data data_size now =
     rc_send (\<lambda>r. r = ClientResult.ConnectionLost \<or> r = ClientResult.NotConnected) c
       (\<lambda>t. tcp_send_proxy_data t header data data_size now)"

definition ryu_send_ping :: "RyuLdnClient \<Rightarrow> ClientOpResult \<times> RyuLdnClient" where
  "ryu_send_ping c =
     (if \<not> rc_is_ready c then (ClientOpResult.NotReady, c)
      else let msg = \<lparr>ping_requester = 1, ping_id = rc_ping_id c\<rparr> in
        rc_send is_lost (c\<lparr>rc_ping_id := rc_ping_id c + 1\<rparr>) (\<lambda>t. tcp_send_ping t msg))"

definition ryu_send_ping_response :: "RyuLdnClient \<Rightarrow> u8 \<Rightarrow> ClientOpResult \<times> RyuLdnClient" where
  "ryu_send_ping_response c ident =
     rc_send is_lost c (\<lambda>t. tcp_send_ping t \<lparr>ping_requester = 0, ping_id = ident\<rparr>)"

definition ryu_send_disconnect_network :: "RyuLdnClient \<Rightarrow> ClientOpResult \<times> RyuLdnClient" where
  "ryu_send_disconnect_network c =
     rc_send is_lost c (\<lambda>t. tcp_send_disconnect t \<lparr>disc_disconnect_ip = 0\<rparr>)"

definition ryu_send_set_accept_policy :: "RyuLdnClient \<Rightarrow> u8 \<Rightarrow> ClientOpResult \<times> RyuLdnClient" where
  "ryu_send_set_accept_policy c policy =
     rc_send is_lost c (\<lambda>t. tcp_send_set_accept_policy t \<lparr>sapr_accept_policy = policy\<rparr>)"

definition ryu_send_set_advertise_data :: "RyuLdnClient \<Rightarrow> byte list option \<Rightarrow> nat \<Rightarrow> ClientOpResult \<times> RyuLdnClient" where
  "ryu_send_set_advertise_data c data data_size =
     rc_send is_lost c (\<lambda>t. tcp_send_set_advertise_data t data data_size)"

definition ryu_send_reject :: "RyuLdnClient \<Rightarrow> u32 \<Rightarrow> u32 \<Rightarrow> ClientOpResult \<times> RyuLdnClient" where
  "ryu_send_reject c node_id reason =
     rc_send is_lost c (\<lambda>t. tcp_send_reject t \<lparr>rejr_node_id = node_id, rejr_disconnect_reason = reason\<rparr>)"

definition ryu_send_raw_packet :: "RyuLdnClient \<Rightarrow> byte list option \<Rightarrow> nat \<Rightarrow> ClientOpResult \<times> RyuLdnClient" where
  "ryu_send_raw_packet c data data_size = rc_send is_lost c (\<lambda>t. tcp_send_raw t data data_size)"

subsection \<open>The handshake\<close>

definition rc_lost_backoff :: "RyuLdnClient \<Rightarrow> RyuLdnClient" where
  "rc_lost_backoff c =
     rc_notify_changed (auto_backoff (rc_fire c ConnectionEvent.ConnectionLost)) (rc_state c)"

definition send_initialize :: "RyuLdnClient \<Rightarrow> ClientOpResult \<times> RyuLdnClient" where
  "send_initialize c =
     (case tcp_send_passphrase (rc_tcp c) (Some (c_str (cc_passphrase (rc_config c)))) of
        (passphrase_result, t) \<Rightarrow>
          let c = c\<lparr>rc_tcp := t\<rparr> in
          if passphrase_result = ClientResult.ConnectionLost then (ClientOpResult.SendFailed, rc_lost_backoff c)
          else if passphrase_result \<noteq> ClientResult.Success then (ClientOpResult.SendFailed, c)
          else (case tcp_send_initialize (rc_tcp c)
                       \<lparr>init_id = rc_session_id c, init_mac_address = rc_mac_address c\<rparr> of
            (result, t) \<Rightarrow>
              let c = c\<lparr>rc_tcp := t\<rparr> in
              if result = ClientResult.ConnectionLost then (ClientOpResult.SendFailed, rc_lost_backoff c)
              else if result \<noteq> ClientResult.Success then (ClientOpResult.SendFailed, c)
              else (ClientOpResult.Success, c)))"

definition rc_deliver :: "RyuLdnClient \<Rightarrow> PacketId \<Rightarrow> byte list \<Rightarrow> RyuLdnClient" where
  "rc_deliver c ty data =
     (if rc_packet_callback c then c\<lparr>rc_events := rc_events c @ [PacketDelivered ty data]\<rparr> else c)"

definition rc_handshake_failed :: "RyuLdnClient \<Rightarrow> RyuLdnClient" where
  "rc_handshake_failed c =
     rc_notify (auto_backoff (rc_fire c ConnectionEvent.HandshakeFailed)) (rc_state c)"

definition process_handshake_response :: "RyuLdnClient \<Rightarrow> PacketId \<Rightarrow> byte list \<Rightarrow> bool \<times> RyuLdnClient" where
  "process_handshake_response c ty data =
     (case ty of
        PacketId.Initialize \<Rightarrow>
          (let c = (if length data \<ge> 22
                    then let msg = InitializeMessage_of_bytes (take 22 data)
                         in c\<lparr>rc_session_id := init_id msg, rc_mac_address := init_mac_address msg\<rparr>
                    else c);
               c = c\<lparr>rc_last_error_code := error_None\<rparr>
           in (True, rc_notify (rc_fire c ConnectionEvent.HandshakeSuccess) (rc_state c)))
      | PacketId.NetworkError \<Rightarrow>
          (let code = (if length data \<ge> 4
                       then nerr_error_code (NetworkErrorMessage_of_bytes (take 4 data))
                       else error_InternalError);
               c = c\<lparr>rc_last_error_code := code\<rparr>
           in if code = error_VersionMismatch
              then (True, rc_notify (rc_fire c ConnectionEvent.FatalError) (rc_state c))
              else
                let c = (if code = error_InvalidSessionId then generate_session_id c else c)
                in (True, rc_handshake_failed c))
      | PacketId.SyncNetwork \<Rightarrow>
          (let c = c\<lparr>rc_last_error_code := error_None\<rparr>
           in (True, rc_notify (rc_fire c ConnectionEvent.HandshakeSuccess) (rc_state c)))
      | PacketId.Disconnect \<Rightarrow>
          (True, rc_handshake_failed (c\<lparr>rc_last_error_code := error_ConnectionRejected\<rparr>))
      | _ \<Rightarrow> (False, rc_deliver c ty data))"

definition handle_handshaking_state :: "RyuLdnClient \<Rightarrow> u64 \<Rightarrow> RyuLdnClient" where
  "handle_handshaking_state c now =
     (if is_handshake_timeout c now
      then let c = c\<lparr>rc_last_error_code := error_HandshakeTimeout\<rparr>
           in rc_notify_changed (auto_backoff (rc_fire c ConnectionEvent.HandshakeFailed)) (rc_state c)
      else case receive_packet (rc_tcp c) 2048 (sint (cc_recv_timeout_ms (rc_config c))) of
        (result, recv_size, rx, t) \<Rightarrow>
          let c = c\<lparr>rc_tcp := t\<rparr>; before = rc_state c in
          (case (result, rx) of
             (ClientResult.Success, Some p) \<Rightarrow>
               (case process_handshake_response c (rx_type p) (rx_payload p) of (completed, c') \<Rightarrow>
                  if completed then rc_notify_changed c' before else c')
           | (ClientResult.ConnectionLost, _) \<Rightarrow>
               rc_notify (auto_backoff (rc_fire c ConnectionEvent.ConnectionLost)) before
           | _ \<Rightarrow> c))"

subsection \<open>Packets in the ready state\<close>

definition handle_packet :: "RyuLdnClient \<Rightarrow> PacketId \<Rightarrow> byte list \<Rightarrow> RyuLdnClient" where
  "handle_packet c ty data =
     (case ty of
        PacketId.Ping \<Rightarrow>
          (if length data \<ge> 2
           then let msg = PingMessage_of_bytes (take 2 data) in
             if ping_requester msg = 0 then c\<lparr>rc_tcp := snd (tcp_send_ping (rc_tcp c) msg)\<rparr>
             else (c\<lparr>rc_pending_ping_count := (if rc_pending_ping_count c > 0 then 0 else rc_pending_ping_count c),
                    rc_last_pong_time_ms := rc_last_ping_time_ms c\<rparr>)
           else c)
      | PacketId.Disconnect \<Rightarrow> rc_fire c ConnectionEvent.Disconnect
      | _ \<Rightarrow> rc_deliver c ty data)"

lemma handle_packet_work: "tc_work (rc_tcp (handle_packet c ty d)) = tc_work (rc_tcp c)"
  by (cases ty) (simp_all add: handle_packet_def Let_def rc_fire_def rc_deliver_def tcp_send_ping_def
      tcp_send_encoded_work)

function process_packets_loop :: "RyuLdnClient \<Rightarrow> RyuLdnClient" where
  "process_packets_loop c =
     (case receive_packet (rc_tcp c) 2048 (sint (cc_recv_timeout_ms (rc_config c))) of
        (result, recv_size, rx, t) \<Rightarrow>
          let c' = c\<lparr>rc_tcp := t\<rparr> in
          if result = ClientResult.Timeout then c'
          else if result = ClientResult.ConnectionLost \<or> result = ClientResult.NotConnected
          then rc_lost_backoff c'
          else if result \<noteq> ClientResult.Success then c'
          else (case rx of
                  Some p \<Rightarrow> process_packets_loop (handle_packet c' (rx_type p) (rx_payload p))
                | None \<Rightarrow> c'))"
  by pat_completeness auto
termination
proof (relation "measure (\<lambda>c. tc_work (rc_tcp c))", goal_cases)
  case 1
  then show ?case by simp
next
  case (2 c r k p rx t c' q)
  then show ?case
    by (auto simp: handle_packet_work dest!: receive_packet_work [OF sym])
qed

declare process_packets_loop.simps [simp del]

definition process_packets :: "RyuLdnClient \<Rightarrow> RyuLdnClient" where
  "process_packets c = (if \<not> tcp_is_connected (rc_tcp c) then c else process_packets_loop c)"

definition handle_ready_state :: "RyuLdnClient \<Rightarrow> u64 \<Rightarrow> RyuLdnClient" where
  "handle_ready_state c now =
     (let c = process_packets c in
      if rc_pending_ping_count c > 0 \<and> rc_ping_timeout_ms c > 0 \<and>
         now - rc_last_ping_time_ms c \<ge> ucast (rc_ping_timeout_ms c)
      then rc_notify (auto_backoff (rc_fire c ConnectionEvent.ConnectionLost)) (rc_state c)
      else if cc_ping_interval_ms (rc_config c) > 0 \<and>
              now - rc_last_ping_time_ms c \<ge> ucast (cc_ping_interval_ms (rc_config c))
      then (case ryu_send_ping c of (ping_result, c) \<Rightarrow>
              if ping_result = ClientOpResult.Success
              then c\<lparr>rc_last_ping_time_ms := now, rc_pending_ping_count := rc_pending_ping_count c + 1\<rparr>
              else c)
      else c)"

subsection \<open>The update step\<close>

definition update :: "RyuLdnClient \<Rightarrow> u64 \<Rightarrow> RyuLdnClient" where
  "update c now =
     (let c = c\<lparr>rc_last_update_time_ms := now\<rparr> in
      case rc_state c of
        ConnectionState.Disconnected \<Rightarrow> c
      | ConnectionState.Connecting \<Rightarrow> c
      | ConnectionState.Retrying \<Rightarrow> c
      | ConnectionState.Connected \<Rightarrow>
          (if \<not> rc_handshake_sent c
           then (case send_initialize c of (result, c) \<Rightarrow>
             if result = ClientOpResult.Success
             then let c = c\<lparr>rc_handshake_sent := True, rc_handshake_start_time_ms := now\<rparr>;
                      c = rc_fire c ConnectionEvent.HandshakeStarted
                  in (if rc_state_callback c
                      then c\<lparr>rc_events := rc_events c @
                               [StateChanged ConnectionState.Connected ConnectionState.Handshaking]\<rparr>
                      else c)
             else rc_notify_changed (auto_backoff (rc_fire c ConnectionEvent.HandshakeFailed)) (rc_state c))
           else c)
      | ConnectionState.Handshaking \<Rightarrow> handle_handshaking_state c now
      | ConnectionState.Ready \<Rightarrow> handle_ready_state c now
      | ConnectionState.Backoff \<Rightarrow>
          (case is_backoff_expired c now of (expired, c) \<Rightarrow>
             if expired
             then let c = rc_fire c ConnectionEvent.BackoffExpired;
                      before = rc_state c
                  in rc_notify_changed (try_connect c) before
             else c)
      | ConnectionState.Disconnecting \<Rightarrow>
          rc_notify (rc_fire c ConnectionEvent.ConnectionLost) (rc_state c)
      | ConnectionState.Error \<Rightarrow> c)"

subsection \<open>Frame facts\<close>

definition next_state :: "ConnectionState \<Rightarrow> ConnectionEvent \<Rightarrow> ConnectionState" where
  "next_state s e = (case is_valid_transition s e of Some t \<Rightarrow> t | None \<Rightarrow> s)"

lemmas next_state_eval = next_state_def is_valid_transition_def transition_table_def

lemma rc_fire_state [simp]: "rc_state (rc_fire c e) = next_state (rc_state c) e"
  by (simp add: rc_fire_def rc_state_def next_state_def csm_fire_state)

lemma rc_machine_simps [simp]:
  "rc_machine (rc_notify c b) = rc_machine c"
  "rc_machine (rc_notify_changed c b) = rc_machine c"
  "rc_machine (auto_backoff c) = rc_machine c"
  "rc_machine (rc_deliver c ty d) = rc_machine c"
  "rc_machine (generate_session_id c) = rc_machine c"
  by (simp_all add: rc_notify_def rc_notify_changed_def auto_backoff_def start_backoff_def Let_def
      rc_deliver_def generate_session_id_def)

lemma rc_state_simps [simp]:
  "rc_state (rc_notify c b) = rc_state c"
  "rc_state (rc_notify_changed c b) = rc_state c"
  "rc_state (auto_backoff c) = rc_state c"
  "rc_state (rc_deliver c ty d) = rc_state c"
  "rc_state (generate_session_id c) = rc_state c"
  by (simp_all add: rc_state_def)

lemma rc_tcp_simps [simp]:
  "rc_tcp (rc_fire c e) = rc_tcp c"
  "rc_tcp (rc_notify c b) = rc_tcp c"
  "rc_tcp (rc_notify_changed c b) = rc_tcp c"
  "rc_tcp (auto_backoff c) = rc_tcp c"
  "rc_tcp (rc_deliver c ty d) = rc_tcp c"
  "rc_tcp (generate_session_id c) = rc_tcp c"
  by (simp_all add: rc_fire_def rc_notify_def rc_notify_changed_def auto_backoff_def start_backoff_def
      Let_def rc_deliver_def generate_session_id_def)

lemma rc_sent_simps [simp]:
  "rc_handshake_sent (rc_fire c e) = rc_handshake_sent c"
  "rc_handshake_sent (rc_notify c b) = rc_handshake_sent c"
  "rc_handshake_sent (rc_notify_changed c b) = rc_handshake_sent c"
  "rc_handshake_sent (auto_backoff c) = rc_handshake_sent c"
  by (simp_all add: rc_fire_def rc_notify_def rc_notify_changed_def auto_backoff_def start_backoff_def Let_def)

lemma rc_reconnect_simps [simp]:
  "rc_reconnect (rc_fire c e) = rc_reconnect c"
  "rc_reconnect (rc_notify c b) = rc_reconnect c"
  "rc_reconnect (rc_notify_changed c b) = rc_reconnect c"
  "rc_reconnect (auto_backoff c) = rc_reconnect c"
  by (simp_all add: rc_fire_def rc_notify_def rc_notify_changed_def auto_backoff_def start_backoff_def Let_def)

lemma rc_config_simps [simp]:
  "rc_config (rc_fire c e) = rc_config c"
  "rc_config (rc_notify c b) = rc_config c"
  "rc_config (rc_notify_changed c b) = rc_config c"
  by (simp_all add: rc_fire_def rc_notify_def rc_notify_changed_def)

lemma rc_state_updates [simp]:
  "rc_state (c\<lparr>rc_tcp := t\<rparr>) = rc_state c"
  "rc_state (c\<lparr>rc_reconnect := m\<rparr>) = rc_state c"
  "rc_state (c\<lparr>rc_handshake_sent := b\<rparr>) = rc_state c"
  "rc_state (c\<lparr>rc_last_update_time_ms := now\<rparr>) = rc_state c"
  "rc_state (c\<lparr>rc_backoff_start_time_ms := now\<rparr>) = rc_state c"
  "rc_state (c\<lparr>rc_last_error_code := code\<rparr>) = rc_state c"
  "rc_state (c\<lparr>rc_handshake_start_time_ms := now\<rparr>) = rc_state c"
  "rc_state (c\<lparr>rc_events := es\<rparr>) = rc_state c"
  "rc_state (c\<lparr>rc_session_id := sid\<rparr>) = rc_state c"
  "rc_state (c\<lparr>rc_mac_address := mac\<rparr>) = rc_state c"
  by (simp_all add: rc_state_def)

subsection \<open>Disconnecting\<close>

lemma ryu_disconnect_disconnected:
  "rc_state (ryu_disconnect c) = ConnectionState.Disconnected \<and>
   \<not> tcp_is_connected (rc_tcp (ryu_disconnect c)) \<and>
   pb_contents (tc_recv_buffer (rc_tcp (ryu_disconnect c))) = [] \<and>
   rm_retry_count (rc_reconnect (ryu_disconnect c)) = 0 \<and> \<not> rc_handshake_sent (ryu_disconnect c)"
proof -
  define t where "t = (if csm_is_ready (rc_machine c)
    then snd (tcp_send_disconnect (rc_tcp c) \<lparr>disc_disconnect_ip = 0\<rparr>) else rc_tcp c)"
  define c1 where "c1 = rc_fire (c\<lparr>rc_tcp := tcp_disconnect t\<rparr>) ConnectionEvent.Disconnect"
  define c2 where "c2 = (if rc_state c1 = ConnectionState.Disconnecting
    then rc_fire c1 ConnectionEvent.ConnectionLost else c1)"
  have dis: "ryu_disconnect c = rc_notify (c2\<lparr>rc_reconnect := rm_reset (rc_reconnect c2),
      rc_handshake_sent := False\<rparr>) (rc_state c)"
    by (simp add: ryu_disconnect_def t_def c1_def c2_def Let_def)
  have "rc_state c2 = ConnectionState.Disconnected" "rc_tcp c2 = tcp_disconnect t"
    by (cases "rc_state c"; simp add: c1_def c2_def next_state_eval)+
  moreover have "pb_contents (tc_recv_buffer (tcp_disconnect t)) = []"
    by (simp add: tcp_disconnect_def Let_def)
  ultimately show ?thesis
    using tcp.disconnect_closes
    by (simp add: dis rm_reset_def calculate_delay_def)
qed

subsection \<open>A connection that survives a failed handshake\<close>

text \<open>
  In \<^verbatim>\<open>Backoff\<close> with the TCP connection still open every retry is refused with
  \<^verbatim>\<open>AlreadyConnected\<close>, and the client returns to \<^verbatim>\<open>Backoff\<close> with the connection open.
\<close>

lemma try_connect_refused:
  assumes "tcp_is_connected (rc_tcp c)" and "rc_state c = ConnectionState.Retrying"
  shows "rc_state (try_connect c) = ConnectionState.Backoff \<and> rc_tcp (try_connect c) = rc_tcp c"
  using assms tcp.connect_refused [OF assms(1)]
  by (simp add: try_connect_def Let_def next_state_eval)

lemma backoff_with_open_connection:
  assumes "rc_state c = ConnectionState.Backoff" and "tcp_is_connected (rc_tcp c)"
  shows "rc_state (update c now) = ConnectionState.Backoff \<and> tcp_is_connected (rc_tcp (update c now))"
proof -
  let ?c = "c\<lparr>rc_last_update_time_ms := now\<rparr>"
  obtain e c1 where e: "is_backoff_expired ?c now = (e, c1)"
    by (metis surj_pair)
  have c1: "rc_state c1 = ConnectionState.Backoff" "rc_tcp c1 = rc_tcp c"
    using e assms(1) by (auto simp: is_backoff_expired_def split: if_splits)
  let ?f = "rc_fire c1 ConnectionEvent.BackoffExpired"
  have "rc_state ?f = ConnectionState.Retrying" "tcp_is_connected (rc_tcp ?f)"
    using c1 assms(2) by (simp_all add: next_state_eval)
  note refused = try_connect_refused [OF this(2,1)]
  show ?thesis
    using assms e c1 refused by (simp add: update_def Let_def)
qed

lemma backoff_run_with_open_connection:
  "rc_state c = ConnectionState.Backoff \<Longrightarrow> tcp_is_connected (rc_tcp c) \<Longrightarrow>
    rc_state (foldl update c ticks) = ConnectionState.Backoff \<and> tcp_is_connected (rc_tcp (foldl update c ticks))"
  by (induction ticks arbitrary: c) (simp_all add: backoff_with_open_connection)

lemma handshake_timeout_keeps_connection:
  assumes "rc_state c = ConnectionState.Handshaking" and "tcp_is_connected (rc_tcp c)"
    and "is_handshake_timeout c now"
  shows "rc_state (update c now) = ConnectionState.Backoff \<and> rc_tcp (update c now) = rc_tcp c"
proof -
  have "is_handshake_timeout (c\<lparr>rc_last_update_time_ms := now\<rparr>) now"
    using assms(3) by (simp add: is_handshake_timeout_def split: if_splits)
  then show ?thesis
    using assms(1) by (simp add: update_def handle_handshaking_state_def next_state_eval)
qed

subsection \<open>The handshake is sent once\<close>

text \<open>
  \<^verbatim>\<open>m_handshake_sent\<close> is cleared by \<^verbatim>\<open>connect\<close> and \<^verbatim>\<open>disconnect\<close> only, so a client that lost
  an established session and reconnects by itself never sends the handshake again.
\<close>

definition reconnecting :: "ConnectionState \<Rightarrow> bool" where
  "reconnecting s \<longleftrightarrow> s = ConnectionState.Backoff \<or> s = ConnectionState.Connected"

lemma try_connect_state:
  "rc_state c = ConnectionState.Retrying \<or> rc_state c = ConnectionState.Connecting \<Longrightarrow>
    reconnecting (rc_state (try_connect c)) \<and> rc_handshake_sent (try_connect c) = rc_handshake_sent c"
  by (auto simp: try_connect_def Let_def next_state_eval reconnecting_def split: prod.split)

lemma update_reconnecting:
  assumes "reconnecting (rc_state c)" and "rc_handshake_sent c"
  shows "reconnecting (rc_state (update c now)) \<and> rc_handshake_sent (update c now)"
proof (cases "rc_state c = ConnectionState.Backoff")
  case True
  let ?c = "c\<lparr>rc_last_update_time_ms := now\<rparr>"
  obtain e c1 where e: "is_backoff_expired ?c now = (e, c1)"
    by (metis surj_pair)
  have c1: "rc_state c1 = ConnectionState.Backoff" "rc_handshake_sent c1"
    using e True assms(2) by (auto simp: is_backoff_expired_def split: if_splits)
  let ?f = "rc_fire c1 ConnectionEvent.BackoffExpired"
  have "rc_state ?f = ConnectionState.Retrying"
    using c1 by (simp add: next_state_eval)
  then show ?thesis
    using try_connect_state [of ?f] True e c1
    by (auto simp: update_def Let_def reconnecting_def)
next
  case False
  then show ?thesis
    using assms by (auto simp: reconnecting_def update_def)
qed

lemma update_run_reconnecting:
  "reconnecting (rc_state c) \<Longrightarrow> rc_handshake_sent c \<Longrightarrow>
    reconnecting (rc_state (foldl update c ticks)) \<and> rc_handshake_sent (foldl update c ticks)"
  by (induction ticks arbitrary: c) (simp_all add: update_reconnecting)

subsection \<open>What the handshake puts on the wire\<close>

definition wf_identity :: "RyuLdnClient \<Rightarrow> bool" where
  "wf_identity c \<longleftrightarrow> wf_SessionId (rc_session_id c) \<and> wf_MacAddress (rc_mac_address c)"

lemma poll_sane_send_all_loop:
  "sk_send_all_loop s data n z = (r, s') \<Longrightarrow> poll_sane s \<Longrightarrow> poll_sane s'"
proof (induction s data n z arbitrary: r s' rule: sk_send_all_loop.induct)
  case (1 s data n z)
  obtain r1 sent s1 where snd1: "sk_send s (drop n data) = (r1, sent, s1)"
    by (metis prod_cases3)
  obtain w s2 where wr: "sk_wait_ready s1 = (w, s2)"
    by (metis surj_pair)
  note unf = "1.prems"(1) [unfolded sk_send_all_loop.simps [of s data n z] snd1 prod.case wr]
  have "poll_sane s1" "poll_sane s2"
    using sk_send_sane [OF snd1] sk_wait_ready_sane [OF wr] "1.prems"(2) by auto
  then show ?case
    using unf "1.IH"(1) [OF _ snd1 [symmetric] refl _ _ wr [symmetric], of r s']
      "1.IH"(2) [OF _ snd1 [symmetric] refl, of r s'] "1.prems"(2)
    by (auto split: if_splits)
qed

lemma poll_sane_send_encoded:
  "tcp_send_encoded c enc = (r, c') \<Longrightarrow> poll_sane (tc_socket c) \<Longrightarrow> poll_sane (tc_socket c')"
  using poll_sane_send_all_loop [of "tc_socket c"]
  by (auto simp: tcp_send_encoded_def tcp_send_bytes_def sk_send_all_def Let_def split: if_splits prod.splits)

lemma tcp_send_encoded_buffer:
  assumes "tcp_send_encoded c enc = (r, c')" and "enc (tc_send_buffer c) = (er, b, n)"
  shows "tc_send_buffer c' = (if tcp_is_connected c then b else tc_send_buffer c) \<and>
    tc_send_queue c' = tc_send_queue c \<and> tc_send_queue_size c' = tc_send_queue_size c"
  using assms by (auto simp: tcp_send_encoded_def tcp_send_bytes_def Let_def split: if_splits prod.splits)

text \<open>A sender of one struct, on a client whose send buffer has its size.\<close>

lemma tcp_send_struct:
  assumes "tcp_send_encoded c (\<lambda>b. encode n to_b b ty x) = (r, c')"
    and "length (to_b x) = n" and "12 + n \<le> kSendBufferSize" and "tcp_inv c" and "poll_sane (tc_socket c)"
  shows "tcp_inv c' \<and> poll_sane (tc_socket c') \<and> tc_stream c' = tc_stream c \<and>
    (r = ClientResult.Success \<longrightarrow> tc_wire c' = tc_wire c @ packet ty (to_b x))"
proof -
  have len: "length (tc_send_buffer c) = kSendBufferSize"
    using assms(4) by (simp add: tcp_inv_def)
  have enc: "encode n to_b (tc_send_buffer c) ty x =
      (EncodeResult.Success, memcpy (tc_send_buffer c) 0 (packet ty (to_b x)), length (packet ty (to_b x)))"
    using assms(2,3) len by (simp add: encode_ok)
  have "length (memcpy (tc_send_buffer c) 0 (packet ty (to_b x))) = kSendBufferSize"
    using assms(2,3) len by simp
  then have "tcp_inv c'"
    using tcp_send_encoded_buffer [OF assms(1) enc] tcp_send_encoded_recv [OF assms(1)] assms(4)
    by (simp add: tcp_inv_def)
  moreover have "tc_stream c' = tc_stream c"
    using tcp_send_encoded_recv [OF assms(1)] by (simp add: tc_stream_def sk_pending_def)
  moreover have "r = ClientResult.Success \<Longrightarrow> tc_wire c' = tc_wire c @ packet ty (to_b x)"
    using tcp_send_encoded_wire [OF assms(1) enc] assms(5) by auto
  ultimately show ?thesis
    using poll_sane_send_encoded [OF assms(1,5)] by blast
qed

lemma wf_passphrase_msg: "wf_PassphraseMessage (passphrase_msg p)"
  by (auto simp: passphrase_msg_def wf_PassphraseMessage_def bytes_wf_def Let_def split: option.split)

lemma send_initialize_wire:
  assumes "send_initialize c = (ClientOpResult.Success, c')" and "wf_identity c"
    and "tcp_inv (rc_tcp c)" and "poll_sane (tc_socket (rc_tcp c))"
  shows "tc_wire (rc_tcp c') = tc_wire (rc_tcp c) @
      packet PacketId.Passphrase
        (PassphraseMessage_to_bytes (passphrase_msg (Some (c_str (cc_passphrase (rc_config c)))))) @
      packet PacketId.Initialize
        (InitializeMessage_to_bytes \<lparr>init_id = rc_session_id c, init_mac_address = rc_mac_address c\<rparr>) \<and>
    tcp_inv (rc_tcp c') \<and> rc_state c' = rc_state c"
proof -
  let ?p = "passphrase_msg (Some (c_str (cc_passphrase (rc_config c))))"
  let ?m = "\<lparr>init_id = rc_session_id c, init_mac_address = rc_mac_address c\<rparr>"
  obtain r1 t1 where s1: "tcp_send_passphrase_msg (rc_tcp c) ?p = (r1, t1)"
    by (metis surj_pair)
  obtain r2 t2 where s2: "tcp_send_initialize t1 ?m = (r2, t2)"
    by (metis surj_pair)
  have ok: "r1 = ClientResult.Success" "r2 = ClientResult.Success" "rc_tcp c' = t2" "rc_state c' = rc_state c"
    using assms(1) s1 s2
    by (auto simp: send_initialize_def tcp_send_passphrase_def Let_def split: if_splits)
  have "length (PassphraseMessage_to_bytes ?p) = 128"
    by (rule PassphraseMessage_wire.len_to [OF wf_passphrase_msg])
  then have 1: "tcp_inv t1 \<and> poll_sane (tc_socket t1) \<and>
      tc_wire t1 = tc_wire (rc_tcp c) @ packet PacketId.Passphrase (PassphraseMessage_to_bytes ?p)"
    using tcp_send_struct [OF s1 [unfolded tcp_send_passphrase_msg_def] _ _ assms(3,4)] ok(1)
    by (simp add: kSendBufferSize_def)
  have "length (InitializeMessage_to_bytes ?m) = 22"
    using assms(2) by (intro InitializeMessage_wire.len_to) (simp add: wf_identity_def wf_InitializeMessage_def)
  then have "tcp_inv t2 \<and> tc_wire t2 = tc_wire t1 @ packet PacketId.Initialize (InitializeMessage_to_bytes ?m)"
    using tcp_send_struct [OF s2 [unfolded tcp_send_initialize_def]] 1 ok(2)
    by (simp add: kSendBufferSize_def)
  then show ?thesis
    using 1 ok by simp
qed

subsection \<open>Packets reach the application in order\<close>

definition app_message :: "message \<Rightarrow> bool" where
  "app_message m \<longleftrightarrow> fst m \<noteq> PacketId.Ping \<and> fst m \<noteq> PacketId.Disconnect"

definition delivered :: "client_event list \<Rightarrow> message list" where
  "delivered es = concat (map (\<lambda>e. case e of PacketDelivered ty d \<Rightarrow> [(ty, d)] | _ \<Rightarrow> []) es)"

lemma delivered_simps [simp]:
  "delivered [] = []"
  "delivered (es @ fs) = delivered es @ delivered fs"
  "delivered [PacketDelivered ty d] = [(ty, d)]"
  "delivered [StateChanged a b] = []"
  by (simp_all add: delivered_def)

definition rc_pending :: "byte list \<Rightarrow> RyuLdnClient \<Rightarrow> message list \<Rightarrow> bool" where
  "rc_pending rest c ms \<longleftrightarrow> tc_pending 2048 rest (rc_tcp c) ms \<and> poll_sane (tc_socket (rc_tcp c)) \<and>
     rc_packet_callback c"

lemma rc_lost_backoff_simps [simp]:
  "rc_tcp (rc_lost_backoff c) = rc_tcp c"
  "rc_packet_callback (rc_lost_backoff c) = rc_packet_callback c"
  "delivered (rc_events (rc_lost_backoff c)) = delivered (rc_events c)"
  by (simp_all add: rc_lost_backoff_def rc_notify_changed_def rc_notify_def auto_backoff_def
      start_backoff_def rc_fire_def Let_def)

lemma handle_packet_pending:
  assumes "rc_pending rest c ms"
  shows "rc_pending rest (handle_packet c ty d) ms \<and>
    delivered (rc_events (handle_packet c ty d)) =
      delivered (rc_events c) @ (if app_message (ty, d) then [(ty, d)] else [])"
proof (cases "ty = PacketId.Ping")
  case True
  obtain r t where t: "tcp_send_ping (rc_tcp c) (PingMessage_of_bytes (take 2 d)) = (r, t)"
    by (metis surj_pair)
  have "length (PingMessage_to_bytes m) = 2" for m
    by (rule PingMessage_wire.len_to) (simp add: wf_PingMessage_def)
  then have "tcp_inv t \<and> poll_sane (tc_socket t) \<and> tc_stream t = tc_stream (rc_tcp c)"
    using tcp_send_struct [OF t [unfolded tcp_send_ping_def]] assms
    by (simp add: kSendBufferSize_def rc_pending_def tc_pending_def)
  then show ?thesis
    using True assms t
    by (auto simp: handle_packet_def Let_def rc_pending_def tc_pending_def app_message_def)
next
  case False
  then show ?thesis
    using assms
    by (cases ty) (simp_all add: handle_packet_def rc_deliver_def rc_fire_def rc_pending_def app_message_def)
qed

lemma sk_recv_sane:
  assumes "sk_recv s n t = (r, d, s')" and "poll_sane s"
  shows "poll_sane s'"
proof -
  have now: "sk_recv_now s1 n = (r, d, s') \<Longrightarrow> poll_sane s1 \<Longrightarrow> poll_sane s'" for s1
    by (auto simp: sk_recv_now_def poll_sane_def Let_def split: list.splits recv_outcome.splits if_splits)
  obtain w s1 where w: "sk_wait_ready s = (w, s1)"
    by (metis surj_pair)
  show ?thesis
    using assms now [of s] now [of s1] sk_wait_ready_sane [OF w] w
    by (auto simp: sk_recv_def split: if_splits)
qed

lemma recv_until_complete_sane:
  "recv_until_complete c t = (r, c') \<Longrightarrow> poll_sane (tc_socket c) \<Longrightarrow> poll_sane (tc_socket c')"
proof (induction c t arbitrary: r c' rule: recv_until_complete.induct)
  case (1 c t)
  obtain r1 c1 where r1: "receive_into_buffer c t = (r1, c1)"
    by (metis surj_pair)
  note unf = "1.prems"(1) [unfolded recv_until_complete.simps [of c t] r1 prod.case]
  have "poll_sane (tc_socket c1)"
    using r1 sk_recv_sane [of "tc_socket c" kRecvChunk t] "1.prems"(2)
    by (auto simp: receive_into_buffer_def Let_def split: if_splits prod.splits)
  then show ?case
    using unf "1.IH" [OF _ r1 [symmetric], of r c'] "1.prems"(2) by (auto split: if_splits)
qed

lemma receive_packet_sane:
  assumes "receive_packet c n t = (r, k, rx, c')" and "poll_sane (tc_socket c)"
  shows "poll_sane (tc_socket c')"
proof -
  obtain r1 c1 where r1: "recv_until_complete c t = (r1, c1)"
    by (metis surj_pair)
  show ?thesis
    using assms recv_until_complete_sane [OF r1 assms(2)] r1
    by (auto simp: receive_packet_def Let_def split: if_splits prod.splits DecodeResult.splits option.splits)
qed

lemma process_packets_loop_delivers:
  "rc_pending rest c ms \<Longrightarrow>
    \<exists>got todo. ms = got @ todo \<and> rc_pending rest (process_packets_loop c) todo \<and>
      delivered (rc_events (process_packets_loop c)) = delivered (rc_events c) @ filter app_message got"
proof (induction c arbitrary: ms rule: process_packets_loop.induct)
  case (1 c)
  let ?t = "sint (cc_recv_timeout_ms (rc_config c))"
  obtain r k rx t where rcv: "receive_packet (rc_tcp c) 2048 ?t = (r, k, rx, t)"
    by (metis prod_cases4)
  let ?c = "c\<lparr>rc_tcp := t\<rparr>"
  have sane: "poll_sane (tc_socket t)"
    using receive_packet_sane [OF rcv] "1.prems" by (simp add: rc_pending_def)
  note unf = process_packets_loop.simps [of c, unfolded rcv prod.case Let_def]
  show ?case
  proof (cases rx)
    case None
    then have "r \<noteq> ClientResult.Success"
      using receive_packet_work [OF rcv] by auto
    moreover have "rc_pending rest ?c ms"
      using tc_pending_none [of 2048 rest "rc_tcp c" ms ?t r k t] rcv None "1.prems" sane
      by (simp add: rc_pending_def)
    ultimately show ?thesis
      using None by (intro exI [of _ "[]"] exI [of _ ms]) (simp add: unf rc_pending_def)
  next
    case (Some p)
    then have ok: "r = ClientResult.Success"
      using receive_packet_work [OF rcv] by auto
    obtain ms' where ms: "ms = (rx_type p, rx_payload p) # ms'" "rc_pending rest ?c ms'"
      using tc_pending_some [of 2048 rest "rc_tcp c" ms ?t r k p t] rcv Some "1.prems" sane
      by (auto simp: rc_pending_def)
    note hp = handle_packet_pending [OF ms(2), of "rx_type p" "rx_payload p"]
    let ?h = "handle_packet ?c (rx_type p) (rx_payload p)"
    obtain got todo where ih: "ms' = got @ todo" "rc_pending rest (process_packets_loop ?h) todo"
      "delivered (rc_events (process_packets_loop ?h)) = delivered (rc_events ?h) @ filter app_message got"
      using "1.IH" [OF rcv [symmetric] refl refl refl _ _ _ Some, of ms'] ok hp by auto
    have "process_packets_loop c = process_packets_loop ?h"
      using ok Some by (simp add: unf)
    then show ?thesis
      using ih hp ms(1) by (intro exI [of _ "(rx_type p, rx_payload p) # got"] exI [of _ todo]) simp
  qed
qed

text \<open>With a system that delivers, one call drains the whole stream.\<close>

lemma handle_packet_config: "rc_config (handle_packet c ty d) = rc_config c"
  by (cases ty) (simp_all add: handle_packet_def Let_def rc_fire_def rc_deliver_def)

lemma handle_packet_tcp: "ty \<noteq> PacketId.Ping \<Longrightarrow> rc_tcp (handle_packet c ty d) = rc_tcp c"
  by (cases ty) (simp_all add: handle_packet_def)

lemma process_packets_loop_drains:
  assumes "rc_pending [] c ms" and "delivering (tc_socket (rc_tcp c)) (sint (cc_recv_timeout_ms (rc_config c)))"
    and "list_all (\<lambda>m. fst m \<noteq> PacketId.Ping) ms"
  shows "tc_stream (rc_tcp (process_packets_loop c)) = [] \<and>
    delivered (rc_events (process_packets_loop c)) = delivered (rc_events c) @ filter app_message ms"
  using assms
proof (induction ms arbitrary: c)
  case Nil
  then show ?case
    using process_packets_loop_delivers [of "[]" c "[]"] by (auto simp: rc_pending_def tc_pending_def)
next
  case (Cons m ms)
  obtain ty d where m: "m = (ty, d)"
    by (metis surj_pair)
  let ?t = "sint (cc_recv_timeout_ms (rc_config c))"
  have pend: "tc_pending 2048 [] (rc_tcp c) ((ty, d) # ms)"
    using Cons.prems(1) m by (simp add: rc_pending_def)
  obtain t where rcv: "receive_packet (rc_tcp c) 2048 ?t =
      (ClientResult.Success, length d, Some \<lparr>rx_type = ty, rx_payload = d\<rparr>, t)" "delivering (tc_socket t) ?t"
    using receive_packet_live [of "rc_tcp c" ty d ms 2048 "[]" ?t] pend Cons.prems(2)
    by (auto simp: tc_pending_def)
  let ?h = "handle_packet (c\<lparr>rc_tcp := t\<rparr>) ty d"
  have "rc_pending [] (c\<lparr>rc_tcp := t\<rparr>) ms"
    using tc_pending_some [OF pend rcv(1)] receive_packet_sane [OF rcv(1)] Cons.prems(1)
    by (auto simp: rc_pending_def)
  note hp = handle_packet_pending [OF this, of ty d]
  have "process_packets_loop c = process_packets_loop ?h"
    by (simp add: process_packets_loop.simps [of c] rcv(1))
  moreover have "tc_stream (rc_tcp (process_packets_loop ?h)) = [] \<and>
      delivered (rc_events (process_packets_loop ?h)) = delivered (rc_events ?h) @ filter app_message ms"
    using Cons.IH [of ?h] hp rcv(2) Cons.prems(3) m by (simp add: handle_packet_config handle_packet_tcp)
  ultimately show ?case
    using hp m by simp
qed

subsection \<open>When the client becomes ready\<close>

lemma handle_packet_not_ready:
  "rc_state (handle_packet c ty d) = ConnectionState.Ready \<Longrightarrow> rc_state c = ConnectionState.Ready"
proof (cases ty)
  case Disconnect
  then show "rc_state (handle_packet c ty d) = ConnectionState.Ready \<Longrightarrow> ?thesis"
    by (cases "rc_state c") (simp_all add: handle_packet_def next_state_eval)
qed (auto simp: handle_packet_def Let_def rc_state_def rc_deliver_def split: if_splits)

lemma not_to_ready:
  "e \<noteq> ConnectionEvent.HandshakeSuccess \<Longrightarrow> next_state s e = ConnectionState.Ready \<Longrightarrow> s = ConnectionState.Ready"
  by (cases s; cases e) (simp_all add: next_state_eval)

lemma rc_lost_backoff_state: "rc_state (rc_lost_backoff c) = next_state (rc_state c) ConnectionEvent.ConnectionLost"
  by (simp add: rc_lost_backoff_def)

lemma send_initialize_ready:
  assumes "rc_state (snd (send_initialize c)) = ConnectionState.Ready"
  shows "rc_state c = ConnectionState.Ready"
  using assms not_to_ready [of ConnectionEvent.ConnectionLost "rc_state c"]
  by (auto simp: send_initialize_def Let_def rc_lost_backoff_state split: prod.splits if_splits)

lemma handshake_response_ready:
  assumes "process_handshake_response c ty d = (b, c')" and "rc_state c' = ConnectionState.Ready"
    and "rc_state c = ConnectionState.Handshaking"
  shows "ty = PacketId.Initialize \<or> ty = PacketId.SyncNetwork"
  using assms
  by (cases ty) (auto simp: process_handshake_response_def Let_def rc_handshake_failed_def next_state_eval
      split: if_splits)

lemma try_connect_not_ready: "rc_state (try_connect c) = ConnectionState.Ready \<Longrightarrow> rc_state c = ConnectionState.Ready"
  using not_to_ready [of ConnectionEvent.ConnectSuccess "rc_state c"]
    not_to_ready [of ConnectionEvent.ConnectFailed "rc_state c"]
  by (auto simp: try_connect_def Let_def split: prod.splits if_splits)

lemma update_ready:
  assumes "rc_state (update c now) = ConnectionState.Ready" and "rc_state c \<noteq> ConnectionState.Ready"
  shows "rc_state c = ConnectionState.Handshaking \<and> \<not> is_handshake_timeout c now \<and>
    (\<exists>p k t. receive_packet (rc_tcp c) 2048 (sint (cc_recv_timeout_ms (rc_config c))) =
       (ClientResult.Success, k, Some p, t) \<and>
       (rx_type p = PacketId.Initialize \<or> rx_type p = PacketId.SyncNetwork))"
proof (cases "rc_state c")
  case Connected
  obtain r c1 where c1: "send_initialize (c\<lparr>rc_last_update_time_ms := now\<rparr>) = (r, c1)"
    by (metis surj_pair)
  have "rc_state c1 \<noteq> ConnectionState.Ready"
    using send_initialize_ready [of "c\<lparr>rc_last_update_time_ms := now\<rparr>"] c1 Connected by auto
  then have "next_state (rc_state c1) e \<noteq> ConnectionState.Ready" if "e \<noteq> ConnectionEvent.HandshakeSuccess" for e
    using not_to_ready [OF that] by blast
  then show ?thesis
    using assms Connected c1 by (simp add: update_def Let_def split: if_splits)
next
  case Handshaking
  let ?c = "c\<lparr>rc_last_update_time_ms := now\<rparr>"
  have to: "is_handshake_timeout ?c now = is_handshake_timeout c now"
    by (simp add: is_handshake_timeout_def)
  obtain r k rx t where rcv: "receive_packet (rc_tcp c) 2048 (sint (cc_recv_timeout_ms (rc_config c))) = (r, k, rx, t)"
    by (metis prod_cases4)
  have hs: "rc_state (handle_handshaking_state ?c now) = ConnectionState.Ready"
    using assms(1) Handshaking by (simp add: update_def Let_def)
  have nt: "\<not> is_handshake_timeout c now"
    using hs Handshaking to by (auto simp: handle_handshaking_state_def next_state_eval)
  have "r = ClientResult.Success \<and> (\<exists>p. rx = Some p \<and> (rx_type p = PacketId.Initialize \<or> rx_type p = PacketId.SyncNetwork))"
    using hs nt to Handshaking rcv receive_packet_work [OF rcv]
    by (cases r; cases rx)
      (auto simp: handle_handshaking_state_def Let_def next_state_eval split: prod.splits if_splits
        dest: handshake_response_ready)
  then show ?thesis
    using Handshaking nt rcv by blast
next
  case Backoff
  obtain e c1 where e: "is_backoff_expired (c\<lparr>rc_last_update_time_ms := now\<rparr>) now = (e, c1)"
    by (metis surj_pair)
  have "rc_state c1 = ConnectionState.Backoff"
    using e Backoff by (auto simp: is_backoff_expired_def split: if_splits)
  then show ?thesis
    using assms Backoff e try_connect_not_ready [of "rc_fire c1 ConnectionEvent.BackoffExpired"]
    by (auto simp: update_def Let_def next_state_eval split: if_splits)
qed (use assms in \<open>auto simp: update_def next_state_eval\<close>)

subsection \<open>Waiting and retrying in the backoff state\<close>

lemma backoff_waits:
  assumes "rc_state c = ConnectionState.Backoff" and "rc_backoff_start_time_ms c \<noteq> 0"
    and "now - rc_backoff_start_time_ms c < ucast (rc_current_backoff_delay_ms c)"
  shows "update c now = c\<lparr>rc_last_update_time_ms := now\<rparr>"
proof -
  have "\<not> ucast (rc_current_backoff_delay_ms c) \<le> now - rc_backoff_start_time_ms c"
    using assms(3) by (simp only: not_le)
  then show ?thesis
    using assms(1,2) by (simp add: update_def is_backoff_expired_def)
qed

lemma backoff_first_tick:
  assumes "rc_state c = ConnectionState.Backoff" and "rc_backoff_start_time_ms c = 0"
  shows "update c now = c\<lparr>rc_last_update_time_ms := now, rc_backoff_start_time_ms := now\<rparr>"
  using assms by (simp add: update_def is_backoff_expired_def)

lemma backoff_retry:
  assumes "rc_state c = ConnectionState.Backoff" and "rc_backoff_start_time_ms c \<noteq> 0"
    and "ucast (rc_current_backoff_delay_ms c) \<le> now - rc_backoff_start_time_ms c"
    and "tcp_connect (rc_tcp c) (Some (c_str (cc_host (rc_config c)))) (cc_port (rc_config c))
      (cc_connect_timeout_ms (rc_config c)) (cc_use_tls (rc_config c)) = (r, t)"
  shows "rc_tcp (update c now) = t \<and>
    (if r = ClientResult.Success
     then rc_state (update c now) = ConnectionState.Connected \<and>
       rc_reconnect (update c now) = rm_reset (rc_reconnect c)
     else rc_state (update c now) = ConnectionState.Backoff \<and>
       rc_reconnect (update c now) = record_failure (rc_reconnect c))"
  using assms
  by (simp add: update_def is_backoff_expired_def try_connect_def Let_def next_state_eval)

subsection \<open>A session is established\<close>

text \<open>An environment that cooperates: sends are accepted whole and the system has no errors.\<close>

lemma tcp_send_struct_accepts:
  assumes "tcp_is_connected c" and "os_send (sk_os (tc_socket c)) = Sent k # rs" and "12 + n \<le> k"
    and "length (to_b x) = n" and "12 + n \<le> kSendBufferSize" and "length (tc_send_buffer c) = kSendBufferSize"
  shows "\<exists>b. tcp_send_encoded c (\<lambda>b. encode n to_b b ty x) =
    (ClientResult.Success, c\<lparr>tc_send_buffer := b,
       tc_socket := (tc_socket c)\<lparr>sk_os := (sk_os (tc_socket c))\<lparr>os_send := rs\<rparr>,
         sk_wire := sk_wire (tc_socket c) @ packet ty (to_b x)\<rparr>\<rparr>) \<and> length b = kSendBufferSize"
proof -
  let ?b = "memcpy (tc_send_buffer c) 0 (packet ty (to_b x))"
  have "encode n to_b (tc_send_buffer c) ty x = (EncodeResult.Success, ?b, 12 + n)"
    using assms(4-6) by (simp add: encode_ok)
  moreover have "take (12 + n) ?b = packet ty (to_b x)"
    using take_memcpy_0 [of "packet ty (to_b x)" "tc_send_buffer c"] assms(4) by simp
  moreover have "length ?b = kSendBufferSize"
    using assms(4-6) by simp
  ultimately show ?thesis
    using assms sk_send_all_accepts [of "tc_socket c" k rs "packet ty (to_b x)"]
    by (auto simp: tcp_send_encoded_def tcp_send_bytes_def tcp_is_connected_def sk_is_connected_def)
qed

text \<open>
  A server that accepts and answers. The connection is made at once or, when the attempt has a timeout, while \<^verbatim>\<open>connect\<close> waits; the
  140 and 34 bytes of the handshake are taken in pieces of any size, with waits for a full socket buffer in between; the stream of the
  server begins with the reply and goes on with any messages, in pieces of any size, with any number of hesitations before and between them.
\<close>

definition accepting :: "u32 \<Rightarrow> connect_outcome \<Rightarrow> bool" where
  "accepting wait oc \<longleftrightarrow> co_create oc = None \<and> co_resolved oc \<and> co_nonblock oc = None \<and> co_getsockopt oc = None \<and> co_so_error oc = None \<and> co_tls oc \<and>
     (co_connect oc = None \<or> 0 < wait \<and> (co_connect oc = Some EINPROGRESS \<or> co_connect oc = Some EAGAIN))"

definition connect_waits :: "connect_outcome \<Rightarrow> nat" where
  "connect_waits oc = (if co_connect oc = None then 0 else 1)"

definition reply_message :: "InitializeMessage \<Rightarrow> message" where
  "reply_message reply = (PacketId.Initialize, InitializeMessage_to_bytes reply)"

text \<open>The handshake goes out and the answer can be read, from the outcomes left of sends, receives and polls.\<close>

definition answering :: "InitializeMessage \<Rightarrow> message list \<Rightarrow> nat \<Rightarrow> os \<Rightarrow> bool" where
  "answering reply ms waits w \<longleftrightarrow>
     (\<exists>k1 k2 rs1 rs2 pl. sending 140 (os_send w) = Some (k1, rs1) \<and> sending 34 rs1 = Some (k2, rs2) \<and>
        os_poll w = replicate (waits + k1 + k2) PollReady @ pl \<and> list_all (\<lambda>p. p = PollReady \<or> p = PollTimeout) pl \<and>
        recv_measure (os_recv w) \<le> length (filter (\<lambda>p. p = PollReady) pl)) \<and>
     list_all (\<lambda>r. is_data r \<or> r = RecvErrno EAGAIN) (os_recv w) \<and> recv_stream (os_recv w) = packets (reply_message reply # ms)"

definition good_server :: "InitializeMessage \<Rightarrow> message list \<Rightarrow> u32 \<Rightarrow> os \<Rightarrow> bool" where
  "good_server reply ms wait w \<longleftrightarrow>
     (\<exists>oc cs ts. os_connect w = oc # cs \<and> accepting wait oc \<and> os_thread w = True # ts \<and> answering reply ms (connect_waits oc) w)"

lemma sk_connect_accepted:
  assumes "os_initialized (sk_os s)" and "\<not> sk_connected s" and "host \<noteq> None" and "host \<noteq> Some []"
    and "os_connect (sk_os s) = oc # cs" and "accepting wait oc" and "os_poll (sk_os s) = replicate (connect_waits oc) PollReady @ ps"
  shows "\<exists>s'. sk_connect s host port wait tls = (SocketResult.Success, s') \<and> sk_connected s' \<and>
    sk_os s' = (sk_os s)\<lparr>os_connect := cs, os_poll := ps\<rparr> \<and> sk_wire s' = sk_wire s"
  using assms
  by (auto simp: sk_connect_def sk_establish_def accepting_def connect_waits_def sk_wait_ready_def sk_close_def Let_def)

lemma tcp_connect_accepted:
  assumes "\<not> tcp_is_connected c" and "os_initialized (sk_os (tc_socket c))"
    and "os_connect (sk_os (tc_socket c)) = oc # cs" and "os_thread (sk_os (tc_socket c)) = True # ts"
    and "host \<noteq> None" and "host \<noteq> Some []" and "accepting wait oc"
    and "os_poll (sk_os (tc_socket c)) = replicate (connect_waits oc) PollReady @ ps"
  shows "\<exists>c'. tcp_connect c host port wait tls = (ClientResult.Success, c') \<and> tcp_is_connected c' \<and>
    sk_os (tc_socket c') = (sk_os (tc_socket c))\<lparr>os_connect := cs, os_poll := ps, os_thread := ts\<rparr> \<and> tc_wire c' = tc_wire c \<and>
    pb_contents (tc_recv_buffer c') = []"
proof -
  define c1 where "c1 = tcp_disconnect c"
  have c1: "tc_socket c1 = tc_socket c"
    using assms(1) by (simp add: c1_def tcp_disconnect_def tcp_is_connected_def sk_is_connected_def Let_def)
  have "\<not> sk_connected (tc_socket c)"
    using assms(1) by (simp add: tcp_is_connected_def sk_is_connected_def)
  then obtain s where s: "sk_connect (tc_socket c1) host port wait tls = (SocketResult.Success, s)" "sk_connected s"
    "sk_os s = (sk_os (tc_socket c))\<lparr>os_connect := cs, os_poll := ps\<rparr>" "sk_wire s = sk_wire (tc_socket c)"
    using sk_connect_accepted [OF assms(2) _ assms(5,6,3,7,8)] c1 by force
  then show ?thesis
    using assms(1,4)
    by (simp add: tcp_connect_def tcp_is_connected_def sk_is_connected_def tc_wire_def c1_def [symmetric] Let_def)
qed

text \<open>The three steps: \<^verbatim>\<open>connect\<close>, the \<^verbatim>\<open>update\<close> that sends the handshake, those that wait for the reply.\<close>

definition fresh_client :: "InitializeMessage \<Rightarrow> message list \<Rightarrow> RyuLdnClient \<Rightarrow> bool" where
  "fresh_client reply ms c \<longleftrightarrow> rc_state c = ConnectionState.Disconnected \<and> \<not> tcp_is_connected (rc_tcp c) \<and>
     (rc_initialized c \<longrightarrow> os_initialized (sk_os (tc_socket (rc_tcp c)))) \<and> tcp_inv (rc_tcp c) \<and> wf_identity c \<and>
     good_server reply ms (cc_connect_timeout_ms (rc_config c)) (sk_os (tc_socket (rc_tcp c)))"

definition awaiting_handshake :: "RyuLdnClient \<Rightarrow> InitializeMessage \<Rightarrow> message list \<Rightarrow> RyuLdnClient \<Rightarrow> bool" where
  "awaiting_handshake c0 reply ms c \<longleftrightarrow> rc_state c = ConnectionState.Connected \<and> \<not> rc_handshake_sent c \<and>
     tcp_is_connected (rc_tcp c) \<and> tcp_inv (rc_tcp c) \<and> pb_contents (tc_recv_buffer (rc_tcp c)) = [] \<and>
     tc_wire (rc_tcp c) = tc_wire (rc_tcp c0) \<and>
     rc_session_id c = rc_session_id c0 \<and> rc_mac_address c = rc_mac_address c0 \<and>
     rc_handshake_timeout_ms c = rc_handshake_timeout_ms c0 \<and>
     cc_passphrase (rc_config c) = cc_passphrase (rc_config c0) \<and>
     hesitations (sk_os (tc_socket (rc_tcp c))) = hesitations (sk_os (tc_socket (rc_tcp c0))) \<and>
     answering reply ms 0 (sk_os (tc_socket (rc_tcp c)))"

lemma c_str_strncpy:
  assumes "c_str h \<noteq> []"
  shows "c_str (strncpy_term MAX_HOST_LENGTH h) \<noteq> []"
proof -
  obtain b bs where "c_str h = b # bs" "b \<noteq> 0"
    using assms by (cases h) (auto simp: c_str_def split: if_splits)
  then show ?thesis
    by (simp add: strncpy_term_def MAX_HOST_LENGTH_def) (simp add: c_str_def)
qed

lemma tcp_initialize_facts:
  "fst (tcp_initialize t)" "os_initialized (sk_os (tc_socket (snd (tcp_initialize t))))"
  "tcp_is_connected (snd (tcp_initialize t)) = tcp_is_connected t"
  "tcp_inv (snd (tcp_initialize t)) = tcp_inv t" "tc_wire (snd (tcp_initialize t)) = tc_wire t"
  "good_server reply ms wait (sk_os (tc_socket (snd (tcp_initialize t)))) = good_server reply ms wait (sk_os (tc_socket t))"
  "hesitations (sk_os (tc_socket (snd (tcp_initialize t)))) = hesitations (sk_os (tc_socket t))"
  by (simp_all add: tcp_initialize_def socket_init_def tcp_is_connected_def sk_is_connected_def tc_wire_def
      good_server_def answering_def hesitations_def)

lemma try_connect_accepted:
  assumes "rc_state c = ConnectionState.Connecting" and "\<not> tcp_is_connected (rc_tcp c)"
    and "os_initialized (sk_os (tc_socket (rc_tcp c)))" and "tcp_inv (rc_tcp c)"
    and "good_server reply ms (cc_connect_timeout_ms (rc_config c)) (sk_os (tc_socket (rc_tcp c)))" and "c_str (cc_host (rc_config c)) \<noteq> []"
    and "\<not> rc_handshake_sent c"
  shows "awaiting_handshake c reply ms (try_connect c)"
proof -
  let ?w = "sk_os (tc_socket (rc_tcp c))"
  let ?con = "tcp_connect (rc_tcp c) (Some (c_str (cc_host (rc_config c)))) (cc_port (rc_config c))
      (cc_connect_timeout_ms (rc_config c)) (cc_use_tls (rc_config c))"
  obtain oc cs ts where w: "os_connect ?w = oc # cs" "os_thread ?w = True # ts" "accepting (cc_connect_timeout_ms (rc_config c)) oc"
      and ans: "answering reply ms (connect_waits oc) ?w"
    using assms(5) unfolding good_server_def by blast
  obtain k1 k2 rs1 rs2 pl where ready: "sending 140 (os_send ?w) = Some (k1, rs1)" "sending 34 rs1 = Some (k2, rs2)"
      "os_poll ?w = replicate (connect_waits oc) PollReady @ replicate (k1 + k2) PollReady @ pl"
      "list_all (\<lambda>p. p = PollReady \<or> p = PollTimeout) pl" "recv_measure (os_recv ?w) \<le> length (filter (\<lambda>p. p = PollReady) pl)"
    using ans by (auto simp: answering_def replicate_add add.assoc)
  obtain t where t: "?con = (ClientResult.Success, t)" "tcp_is_connected t" "tc_wire t = tc_wire (rc_tcp c)" "pb_contents (tc_recv_buffer t) = []"
      "sk_os (tc_socket t) = ?w\<lparr>os_connect := cs, os_poll := replicate (k1 + k2) PollReady @ pl, os_thread := ts\<rparr>"
    using tcp_connect_accepted [OF assms(2,3) w(1,2) _ _ w(3) ready(3)] assms(6) by blast
  have "answering reply ms 0 (sk_os (tc_socket t))" "hesitations (sk_os (tc_socket t)) = hesitations ?w"
    using ans ready t(5) by (auto simp: answering_def hesitations_def)
  moreover have "tcp_inv t"
    using tcp_connect_inv [OF assms(4)] t(1) by (metis snd_conv)
  ultimately show ?thesis
    using assms(1,7) t
    by (simp add: awaiting_handshake_def try_connect_def Let_def next_state_eval)
      (auto simp: rc_notify_def rc_fire_def)
qed

lemma awaiting_handshake_notify [simp]:
  "awaiting_handshake c0 reply ms (rc_notify c b) = awaiting_handshake c0 reply ms c"
  by (simp add: awaiting_handshake_def rc_notify_def)

lemma awaiting_handshake_base:
  "awaiting_handshake c1 reply ms c \<Longrightarrow> tc_wire (rc_tcp c1) = tc_wire (rc_tcp c0) \<Longrightarrow>
    rc_session_id c1 = rc_session_id c0 \<Longrightarrow> rc_mac_address c1 = rc_mac_address c0 \<Longrightarrow>
    rc_handshake_timeout_ms c1 = rc_handshake_timeout_ms c0 \<Longrightarrow>
    hesitations (sk_os (tc_socket (rc_tcp c1))) = hesitations (sk_os (tc_socket (rc_tcp c0))) \<Longrightarrow>
    cc_passphrase (rc_config c1) = cc_passphrase (rc_config c0) \<Longrightarrow> awaiting_handshake c0 reply ms c"
  by (simp add: awaiting_handshake_def)

lemma session_connect:
  assumes "fresh_client reply ms c" and "c_str h \<noteq> []"
  shows "fst (ryu_connect c (Some h) port) = ClientOpResult.Success \<and>
    awaiting_handshake c reply ms (snd (ryu_connect c (Some h) port))"
proof -
  have st: "csm_state (rc_machine c) = ConnectionState.Disconnected"
    using assms(1) by (simp add: fresh_client_def rc_state_def)
  obtain m where m: "process_event (rc_machine c) ConnectionEvent.Connect = (TransitionResult.Success, m, None) \<or>
      process_event (rc_machine c) ConnectionEvent.Connect = (TransitionResult.Success, m, Some (ConnectionState.Disconnected, ConnectionState.Connecting, ConnectionEvent.Connect))"
    "csm_state m = ConnectionState.Connecting"
    using st by (auto simp: process_event_def is_valid_transition_def transition_table_def transition_to_def Let_def)
  let ?c = "c\<lparr>rc_config := (rc_config c)\<lparr>cc_host := strncpy_term MAX_HOST_LENGTH h, cc_port := port\<rparr>\<rparr>"
  define c1 where "c1 = (if rc_initialized c then ?c
      else ?c\<lparr>rc_tcp := snd (tcp_initialize (rc_tcp c)), rc_initialized := True\<rparr>)
      \<lparr>rc_handshake_sent := False, rc_machine := m\<rparr>"
  have con: "ryu_connect c (Some h) port =
      (ClientOpResult.Success, rc_notify (try_connect c1) ConnectionState.Disconnected)"
    using st m(1) tcp_initialize_facts(1) [of "rc_tcp c"]
    by (cases "rc_initialized c")
      (auto simp: ryu_connect_def c1_def rc_state_def csm_is_connected_def csm_is_transitioning_def
        Let_def case_prod_beta)
  have "awaiting_handshake c1 reply ms (try_connect c1)"
    using assms m(2) c_str_strncpy [OF assms(2)]
    by (intro try_connect_accepted) (auto simp: c1_def rc_state_def fresh_client_def tcp_initialize_facts)
  then show ?thesis
    using con tcp_initialize_facts(5,7) [of "rc_tcp c"]
    by (auto simp: c1_def elim!: awaiting_handshake_base)
qed

definition handshake_bytes :: "RyuLdnClient \<Rightarrow> byte list" where
  "handshake_bytes c =
     packet PacketId.Passphrase
       (PassphraseMessage_to_bytes (passphrase_msg (Some (c_str (cc_passphrase (rc_config c)))))) @
     packet PacketId.Initialize
       (InitializeMessage_to_bytes \<lparr>init_id = rc_session_id c, init_mac_address = rc_mac_address c\<rparr>)"

definition awaiting_reply :: "RyuLdnClient \<Rightarrow> InitializeMessage \<Rightarrow> message list \<Rightarrow> u64 \<Rightarrow> RyuLdnClient \<Rightarrow> bool" where
  "awaiting_reply c0 reply ms start c \<longleftrightarrow> rc_state c = ConnectionState.Handshaking \<and>
     rc_handshake_start_time_ms c = start \<and> rc_handshake_timeout_ms c = rc_handshake_timeout_ms c0 \<and>
     tcp_inv (rc_tcp c) \<and> tc_wire (rc_tcp c) = tc_wire (rc_tcp c0) @ handshake_bytes c0 \<and>
     tc_stream (rc_tcp c) = packets (reply_message reply # ms) \<and> patient (tc_socket (rc_tcp c)) (sint (cc_recv_timeout_ms (rc_config c)))"

lemma length_initialize: "wf_InitializeMessage m \<Longrightarrow> length (InitializeMessage_to_bytes m) = 22"
  by (rule InitializeMessage_wire.len_to)

lemma tcp_send_struct_pieces:
  assumes "tcp_is_connected c" and "tcp_inv c" and "length (to_b x) = n" and "12 + n \<le> kSendBufferSize"
    and "sending (12 + n) (os_send (sk_os (tc_socket c))) = Some (k, rs)" and "os_poll (sk_os (tc_socket c)) = replicate k PollReady @ ps"
  shows "\<exists>c'. tcp_send_encoded c (\<lambda>b. encode n to_b b ty x) = (ClientResult.Success, c') \<and>
    tcp_is_connected c' \<and> tcp_inv c' \<and> tc_wire c' = tc_wire c @ packet ty (to_b x) \<and>
    sk_os (tc_socket c') = (sk_os (tc_socket c))\<lparr>os_send := rs, os_poll := ps\<rparr> \<and> tc_recv_buffer c' = tc_recv_buffer c"
proof -
  let ?b = "memcpy (tc_send_buffer c) 0 (packet ty (to_b x))"
  have sb: "length (tc_send_buffer c) = kSendBufferSize"
    using assms(2) by (simp add: tcp_inv_def)
  have "encode n to_b (tc_send_buffer c) ty x = (EncodeResult.Success, ?b, 12 + n)"
    using assms(3,4) sb by (simp add: encode_ok)
  moreover have "take (12 + n) ?b = packet ty (to_b x)"
    using take_memcpy_0 [of "packet ty (to_b x)" "tc_send_buffer c"] assms(3) by simp
  moreover have "length ?b = kSendBufferSize"
    using assms(3,4) sb by simp
  ultimately show ?thesis
    using assms sk_send_all_in_pieces [of "packet ty (to_b x)" "tc_socket c" k rs ps]
    by (auto simp: tcp_send_encoded_def tcp_send_bytes_def tcp_is_connected_def sk_is_connected_def tcp_inv_def tc_wire_def)
qed

lemma send_initialize_pieces:
  assumes "tcp_is_connected (rc_tcp c)" and "tcp_inv (rc_tcp c)" and "wf_identity c"
    and "sending 140 (os_send (sk_os (tc_socket (rc_tcp c)))) = Some (k1, rs1)" and "sending 34 rs1 = Some (k2, rs2)"
    and "os_poll (sk_os (tc_socket (rc_tcp c))) = replicate (k1 + k2) PollReady @ pl"
  shows "\<exists>t. send_initialize c = (ClientOpResult.Success, c\<lparr>rc_tcp := t\<rparr>) \<and> tcp_is_connected t \<and> tcp_inv t \<and>
    tc_wire t = tc_wire (rc_tcp c) @ handshake_bytes c \<and>
    sk_os (tc_socket t) = (sk_os (tc_socket (rc_tcp c)))\<lparr>os_send := rs2, os_poll := pl\<rparr> \<and>
    tc_recv_buffer t = tc_recv_buffer (rc_tcp c)"
proof -
  let ?p = "passphrase_msg (Some (c_str (cc_passphrase (rc_config c))))"
  let ?m = "\<lparr>init_id = rc_session_id c, init_mac_address = rc_mac_address c\<rparr>"
  have len1: "length (PassphraseMessage_to_bytes ?p) = 128"
    by (rule PassphraseMessage_wire.len_to [OF wf_passphrase_msg])
  have len2: "length (InitializeMessage_to_bytes ?m) = 22"
    using assms(3) by (intro length_initialize) (simp add: wf_identity_def wf_InitializeMessage_def)
  obtain t1 where t1: "tcp_send_passphrase_msg (rc_tcp c) ?p = (ClientResult.Success, t1)"
    "tcp_is_connected t1" "tcp_inv t1"
    "tc_wire t1 = tc_wire (rc_tcp c) @ packet PacketId.Passphrase (PassphraseMessage_to_bytes ?p)"
    "sk_os (tc_socket t1) = (sk_os (tc_socket (rc_tcp c)))\<lparr>os_send := rs1, os_poll := replicate k2 PollReady @ pl\<rparr>"
    "tc_recv_buffer t1 = tc_recv_buffer (rc_tcp c)"
    using tcp_send_struct_pieces [where to_b = PassphraseMessage_to_bytes and x = ?p and n = 128 and k = k1 and rs = rs1
        and ps = "replicate k2 PollReady @ pl" and ty = PacketId.Passphrase, OF assms(1,2) len1] assms(4,6)
    by (auto simp: tcp_send_passphrase_msg_def kSendBufferSize_def replicate_add)
  obtain t2 where t2: "tcp_send_initialize t1 ?m = (ClientResult.Success, t2)"
    "tcp_is_connected t2" "tcp_inv t2"
    "tc_wire t2 = tc_wire t1 @ packet PacketId.Initialize (InitializeMessage_to_bytes ?m)"
    "sk_os (tc_socket t2) = (sk_os (tc_socket t1))\<lparr>os_send := rs2, os_poll := pl\<rparr>" "tc_recv_buffer t2 = tc_recv_buffer t1"
    using tcp_send_struct_pieces [where to_b = InitializeMessage_to_bytes and x = ?m and n = 22 and k = k2 and rs = rs2
        and ps = pl and ty = PacketId.Initialize, OF t1(2,3) len2] assms(5) t1(5)
    by (auto simp: tcp_send_initialize_def kSendBufferSize_def)
  have "send_initialize c = (ClientOpResult.Success, c\<lparr>rc_tcp := t2\<rparr>)"
    by (simp add: send_initialize_def tcp_send_passphrase_def t1(1) t2(1))
  then show ?thesis
    using t1 t2 by (intro exI [of _ t2]) (simp add: handshake_bytes_def)
qed

lemma session_handshake:
  assumes "awaiting_handshake c0 reply ms c" and "wf_identity c0"
  shows "awaiting_reply c0 reply ms now (update c now) \<and>
    hesitations (sk_os (tc_socket (rc_tcp (update c now)))) = hesitations (sk_os (tc_socket (rc_tcp c0)))"
proof -
  let ?c = "c\<lparr>rc_last_update_time_ms := now\<rparr>" and ?w = "sk_os (tc_socket (rc_tcp c))"
  obtain k1 k2 rs1 rs2 pl where env: "sending 140 (os_send ?w) = Some (k1, rs1)" "sending 34 rs1 = Some (k2, rs2)"
      "os_poll ?w = replicate (k1 + k2) PollReady @ pl" "list_all (\<lambda>p. p = PollReady \<or> p = PollTimeout) pl"
      "recv_measure (os_recv ?w) \<le> length (filter (\<lambda>p. p = PollReady) pl)"
      "list_all (\<lambda>r. is_data r \<or> r = RecvErrno EAGAIN) (os_recv ?w)" "recv_stream (os_recv ?w) = packets (reply_message reply # ms)"
    using assms(1) unfolding awaiting_handshake_def answering_def by auto
  have wf: "wf_identity ?c" and hb: "handshake_bytes ?c = handshake_bytes c0"
    using assms(1,2) by (simp_all add: wf_identity_def handshake_bytes_def awaiting_handshake_def)
  obtain t where si: "send_initialize ?c = (ClientOpResult.Success, ?c\<lparr>rc_tcp := t\<rparr>)"
    and t: "tcp_is_connected t" "tcp_inv t" "tc_wire t = tc_wire (rc_tcp c) @ handshake_bytes c0"
      "sk_os (tc_socket t) = ?w\<lparr>os_send := rs2, os_poll := pl\<rparr>" "tc_recv_buffer t = tc_recv_buffer (rc_tcp c)"
    using send_initialize_pieces [of ?c k1 rs1 k2 rs2 pl] env(1-3) wf hb assms(1) by (auto simp: awaiting_handshake_def)
  have up: "rc_tcp (update c now) = t" "rc_state (update c now) = ConnectionState.Handshaking"
      "rc_handshake_start_time_ms (update c now) = now"
      "rc_handshake_timeout_ms (update c now) = rc_handshake_timeout_ms c"
    using assms(1) si
    by (simp_all add: update_def awaiting_handshake_def Let_def next_state_eval) (simp_all add: rc_fire_def)
  have "tc_stream t = packets (reply_message reply # ms)"
    using assms(1) env(7) t(4,5) by (simp add: tc_stream_def sk_pending_def awaiting_handshake_def)
  moreover have "patient (tc_socket t) i" for i
    using t(1,4) env(4-6) by (simp add: patient_def tcp_is_connected_def sk_is_connected_def)
  moreover have "hesitations (sk_os (tc_socket t)) = hesitations (sk_os (tc_socket (rc_tcp c0)))"
    using assms(1) t(4) env(3) by (simp add: awaiting_handshake_def hesitations_def)
  ultimately show ?thesis
    using up t assms(1) by (simp add: awaiting_reply_def awaiting_handshake_def)
qed

text \<open>Receiving does not write.\<close>

lemma sk_recv_wire: "sk_recv s n t = (r, d, s') \<Longrightarrow> sk_wire s' = sk_wire s"
  using sk_wait_ready_wire [of s]
  by (auto simp: sk_recv_def sk_recv_now_def Let_def split: if_splits prod.splits list.splits recv_outcome.splits)

lemma recv_until_complete_wire: "recv_until_complete c t = (r, c') \<Longrightarrow> tc_wire c' = tc_wire c"
proof (induction c t arbitrary: r c' rule: recv_until_complete.induct)
  case (1 c t)
  obtain r1 c1 where r1: "receive_into_buffer c t = (r1, c1)"
    by (metis surj_pair)
  note unf = "1.prems"(1) [unfolded recv_until_complete.simps [of c t] r1 prod.case]
  have "tc_wire c1 = tc_wire c"
    using r1 sk_recv_wire [of "tc_socket c" kRecvChunk t]
    by (auto simp: receive_into_buffer_def tc_wire_def Let_def split: if_splits prod.splits)
  then show ?case
    using unf "1.IH" [OF _ r1 [symmetric], of r c'] by (auto split: if_splits)
qed

lemma receive_packet_wire:
  assumes "receive_packet c n t = (r, k, rx, c')"
  shows "tc_wire c' = tc_wire c"
proof -
  obtain r1 c1 where r1: "recv_until_complete c t = (r1, c1)"
    by (metis surj_pair)
  show ?thesis
    using assms recv_until_complete_wire [OF r1] r1
    by (auto simp: receive_packet_def tc_wire_def Let_def
        split: if_splits prod.splits DecodeResult.splits option.splits)
qed

text \<open>One \<^verbatim>\<open>update\<close> in time either completes the handshake or goes on waiting, with a hesitation less to come.\<close>

definition ready_as :: "RyuLdnClient \<Rightarrow> InitializeMessage \<Rightarrow> RyuLdnClient \<Rightarrow> bool" where
  "ready_as c0 reply c \<longleftrightarrow> rc_state c = ConnectionState.Ready \<and> rc_session_id c = init_id reply \<and> rc_mac_address c = init_mac_address reply \<and>
     tc_wire (rc_tcp c) = tc_wire (rc_tcp c0) @ handshake_bytes c0"

lemma session_waits:
  assumes "awaiting_reply c0 reply ms start c" and "wf_InitializeMessage reply" and "now - start < ucast (rc_handshake_timeout_ms c0)"
    and "list_all message_fits ms" and "list_all (\<lambda>m. length (snd m) \<le> 2048) ms"
  shows "ready_as c0 reply (update c now) \<or> awaiting_reply c0 reply ms start (update c now) \<and>
    hesitations (sk_os (tc_socket (rc_tcp (update c now)))) < hesitations (sk_os (tc_socket (rc_tcp c)))"
proof -
  let ?d = "InitializeMessage_to_bytes reply"
  let ?t = "sint (cc_recv_timeout_ms (rc_config c))"
  have d: "length ?d = 22"
    by (rule length_initialize [OF assms(2)])
  have nt: "\<not> is_handshake_timeout (c\<lparr>rc_last_update_time_ms := now\<rparr>) now"
    using assms(1,3) by (auto simp: is_handshake_timeout_def awaiting_reply_def not_le)
  have bytes: "InitializeMessage_of_bytes ?d = reply" "take 22 ?d = ?d"
    using InitializeMessage_wire.of_to [OF assms(2)] d by simp_all
  consider (packet) t where "receive_packet (rc_tcp c) 2048 ?t = (ClientResult.Success, 22, Some \<lparr>rx_type = PacketId.Initialize, rx_payload = ?d\<rparr>, t)"
    | (timeout) t where "receive_packet (rc_tcp c) 2048 ?t = (ClientResult.Timeout, 0, None, t)" "tcp_inv t"
        "tc_stream t = tc_stream (rc_tcp c)" "patient (tc_socket t) ?t" "hesitations (sk_os (tc_socket t)) < hesitations (sk_os (tc_socket (rc_tcp c)))"
    using receive_packet_patient [of "rc_tcp c" PacketId.Initialize ?d ms 2048 ?t] assms(1,4,5) d
    by (auto simp: awaiting_reply_def reply_message_def message_fits_def packet_id_enumerator_def kRecvBufferSize_def kRecvChunk_def)
  then show ?thesis
  proof cases
    case packet
    then have "ready_as c0 reply (update c now)"
      using assms(1) nt d bytes receive_packet_wire [OF packet]
      by (simp add: update_def handle_handshaking_state_def process_handshake_response_def awaiting_reply_def ready_as_def
          next_state_eval Let_def)
        (simp add: rc_notify_def rc_notify_changed_def rc_fire_def)
    then show ?thesis ..
  next
    case timeout
    have up: "update c now = c\<lparr>rc_last_update_time_ms := now, rc_tcp := t\<rparr>"
      using assms(1) nt timeout(1) by (simp add: update_def handle_handshaking_state_def awaiting_reply_def)
    then show ?thesis
      using assms(1) timeout receive_packet_wire [OF timeout(1)] by (simp add: awaiting_reply_def)
  qed
qed

text \<open>Calls of \<^verbatim>\<open>update\<close> one after another.\<close>

definition updates :: "RyuLdnClient \<Rightarrow> u64 list \<Rightarrow> RyuLdnClient" where
  "updates c nows = foldl update c nows"

lemma session_becomes_ready:
  assumes "awaiting_reply c0 reply ms start c" and "wf_InitializeMessage reply"
    and "list_all message_fits ms" and "list_all (\<lambda>m. length (snd m) \<le> 2048) ms"
    and "\<forall>now\<in>set nows. now - start < ucast (rc_handshake_timeout_ms c0)"
    and "hesitations (sk_os (tc_socket (rc_tcp c))) < length nows"
  shows "\<exists>k\<le>length nows. ready_as c0 reply (updates c (take k nows))"
  using assms(1,5,6)
proof (induction nows arbitrary: c)
  case (Cons now nows)
  have "ready_as c0 reply (update c now) \<or> awaiting_reply c0 reply ms start (update c now) \<and>
      hesitations (sk_os (tc_socket (rc_tcp (update c now)))) < hesitations (sk_os (tc_socket (rc_tcp c)))"
    using session_waits [OF Cons.prems(1) assms(2) _ assms(3,4)] Cons.prems(2) by simp
  then show ?case
  proof
    assume "ready_as c0 reply (update c now)"
    then show ?thesis
      by (intro exI [of _ 1]) (simp add: updates_def)
  next
    assume "awaiting_reply c0 reply ms start (update c now) \<and>
      hesitations (sk_os (tc_socket (rc_tcp (update c now)))) < hesitations (sk_os (tc_socket (rc_tcp c)))"
    then obtain k where "k \<le> length nows" "ready_as c0 reply (updates (update c now) (take k nows))"
      using Cons.IH [of "update c now"] Cons.prems(2,3) by auto
    then show ?thesis
      by (intro exI [of _ "Suc k"]) (simp add: updates_def)
  qed
qed simp

lemma session_established:
  assumes "fresh_client reply ms c" and "wf_InitializeMessage reply" and "c_str h \<noteq> []"
    and "list_all message_fits ms" and "list_all (\<lambda>m. length (snd m) \<le> 2048) ms"
    and "\<forall>now\<in>set nows. now - start < ucast (rc_handshake_timeout_ms c)"
    and "hesitations (sk_os (tc_socket (rc_tcp c))) < length nows"
  shows "\<exists>k\<le>length nows. ready_as c reply (updates (snd (ryu_connect c (Some h) port)) (start # take k nows))"
proof -
  have wf: "wf_identity c"
    using assms(1) by (simp add: fresh_client_def)
  have "awaiting_handshake c reply ms (snd (ryu_connect c (Some h) port))"
    using session_connect [OF assms(1,3)] by blast
  from session_handshake [OF this wf, of start]
  have 2: "awaiting_reply c reply ms start (update (snd (ryu_connect c (Some h) port)) start)"
      "hesitations (sk_os (tc_socket (rc_tcp (update (snd (ryu_connect c (Some h) port)) start)))) < length nows"
    using assms(7) by auto
  show ?thesis
    using session_becomes_ready [OF 2(1) assms(2,4,5,6) 2(2)] by (simp add: updates_def)
qed

subsection \<open>Properties\<close>

text \<open>Example clients: a new one whose server answers, and one with a stream of packets pending.\<close>

definition server_os :: "InitializeMessage \<Rightarrow> os" where
  "server_os reply = (let d = packet PacketId.Initialize (InitializeMessage_to_bytes reply) in
     \<lparr>os_initialized = False,
      os_connect = [\<lparr>co_create = None, co_resolved = True, co_nonblock = None, co_connect = Some EINPROGRESS, co_getsockopt = None, co_so_error = None, co_tls = True\<rparr>],
      os_send = [Sent 100, SendErrno EAGAIN, Sent 40, Sent 4096],
      os_recv = [Data (take 5 d), RecvErrno EAGAIN, Data (drop 5 d)],
      os_poll = [PollReady, PollReady, PollTimeout] @ replicate 40 PollReady, os_thread = [True]\<rparr>)"

definition new_client :: "os \<Rightarrow> RyuLdnClient" where
  "new_client w = ryu_client_new default_client_config w (\<lambda>i. word_of_nat i)"

definition busy_client :: "ConnectionState \<Rightarrow> message list \<Rightarrow> nat \<Rightarrow> RyuLdnClient" where
  "busy_client st ms k = (new_client (split_os [] 0))
     \<lparr>rc_tcp := example_client (packets ms) k, rc_packet_callback := True,
      rc_machine := \<lparr>csm_state = st, csm_callback = False, csm_retry_count = 0\<rparr>,
      rc_handshake_sent := True, rc_handshake_start_time_ms := 100\<rparr>"

lemma answeringI:
  "sending 140 (os_send w) = Some (k1, rs1) \<Longrightarrow> sending 34 rs1 = Some (k2, rs2) \<Longrightarrow>
    os_poll w = replicate (waits + k1 + k2) PollReady @ pl \<Longrightarrow> list_all (\<lambda>p. p = PollReady \<or> p = PollTimeout) pl \<Longrightarrow>
    recv_measure (os_recv w) \<le> length (filter (\<lambda>p. p = PollReady) pl) \<Longrightarrow>
    list_all (\<lambda>r. is_data r \<or> r = RecvErrno EAGAIN) (os_recv w) \<Longrightarrow> recv_stream (os_recv w) = packets (reply_message reply # ms) \<Longrightarrow>
    answering reply ms waits w"
  unfolding answering_def by blast

lemma server_answers:
  assumes "wf_InitializeMessage reply"
  shows "good_server reply [] 5000 (server_os reply)"
proof -
  let ?d = "packet PacketId.Initialize (InitializeMessage_to_bytes reply)"
  have len: "length ?d = 34"
    using length_initialize [OF assms] by simp
  have env: "sending 140 (os_send (server_os reply)) = Some (1, [Sent 4096])" "sending 34 [Sent 4096] = Some (0, [])"
      "os_poll (server_os reply) = replicate (1 + 1 + 0) PollReady @ PollTimeout # replicate 40 PollReady"
      "recv_stream (os_recv (server_os reply)) = packets [reply_message reply]"
    by (simp_all add: server_os_def Let_def sending_positive reply_message_def)
  have "recv_measure (os_recv (server_os reply)) \<le> 40" "list_all (\<lambda>r. is_data r \<or> r = RecvErrno EAGAIN) (os_recv (server_os reply))"
    using len by (auto simp: server_os_def Let_def)
  then have "answering reply [] 1 (server_os reply)"
    by (intro answeringI [OF env(1-3) _ _ _ env(4)]) (simp_all add: list_all_iff)
  then show ?thesis
    by (simp add: good_server_def server_os_def Let_def accepting_def connect_waits_def)
qed

lemma new_client_fresh:
  assumes "wf_InitializeMessage reply"
  shows "fresh_client reply [] (new_client (server_os reply))"
proof -
  have "tcp_inv (rc_tcp (new_client (server_os reply)))"
    by (simp add: new_client_def ryu_client_new_def generate_mac_address_def generate_session_id_def tcp_new_inv)
  then show ?thesis
    using server_answers [OF assms]
    by (simp add: fresh_client_def new_client_def ryu_client_new_def generate_mac_address_def default_client_config_def
        generate_session_id_def rc_state_def csm_new_def tcp_is_connected_def sk_is_connected_def tcp_new_def
        sk_new_def wf_identity_def wf_SessionId_def wf_MacAddress_def bytes_wf_def)
qed

lemma busy_client_facts:
  "rc_state (busy_client st ms k) = st" "rc_tcp (busy_client st ms k) = example_client (packets ms) k"
  "rc_packet_callback (busy_client st ms k)" "rc_events (busy_client st ms k) = []"
  "rc_handshake_sent (busy_client st ms k)" "cc_recv_timeout_ms (rc_config (busy_client st ms k)) = 20"
  "rc_handshake_start_time_ms (busy_client st ms k) = 100" "rc_handshake_timeout_ms (busy_client st ms k) = 5000"
  by (simp_all add: busy_client_def new_client_def ryu_client_new_def generate_mac_address_def
      generate_session_id_def rc_state_def default_client_config_def)

lemma busy_client_pending:
  "list_all message_fits ms \<Longrightarrow> list_all (\<lambda>m. length (snd m) \<le> 2048) ms \<Longrightarrow> rc_pending [] (busy_client st ms k) ms"
  by (simp add: rc_pending_def tc_pending_def busy_client_facts example_client_inv example_client_facts)

text \<open>
  C1: a session is established. The server accepts the connection, at once or while \<^verbatim>\<open>connect\<close> waits for it; it takes the 140 and 34 bytes of
  the handshake in pieces of any size, with waits for a full socket buffer in between; its stream is the reply and possibly further messages of at most 2048
  bytes, cut into pieces in any way, and there may be any finite number of hesitations, polls that time out and receives that would block. Then a disconnected client that
  connects and goes on calling \<^verbatim>\<open>update\<close>, the first time at \<open>start\<close> and then before the handshake timeout has passed since, is ready at the latest
  one call after as many as there are hesitations; when it becomes ready it has sent the passphrase and its identity, in that order and nothing else, and
  has taken over the identity the server assigned. The thread that sends queued packets can be started, and with TLS its handshake succeeds.
\<close>

theorem session_is_established:
  assumes "fresh_client reply ms c" and "wf_InitializeMessage reply" and "c_str h \<noteq> []"
    and "list_all message_fits ms" and "list_all (\<lambda>m. length (snd m) \<le> 2048) ms"
    and "\<forall>now\<in>set nows. now - start < ucast (rc_handshake_timeout_ms c)"
    and "hesitations (sk_os (tc_socket (rc_tcp c))) < length nows"
  shows "\<exists>k\<le>length nows. let c' = updates (snd (ryu_connect c (Some h) port)) (start # take k nows)
    in rc_state c' = ConnectionState.Ready \<and> rc_session_id c' = init_id reply \<and> rc_mac_address c' = init_mac_address reply \<and>
      tc_wire (rc_tcp c') = tc_wire (rc_tcp c) @ handshake_bytes c"
  using session_established [OF assms] by (simp add: ready_as_def Let_def)

theorem session_is_established_witness:
  "let reply = InitializeMessage_of_bytes (replicate 22 7); c1 = snd (ryu_connect (new_client (server_os reply)) (Some [104]) 30456)
   in \<exists>k\<le>3. rc_state (updates c1 (1000 # take k [1020, 1040, 1060])) = ConnectionState.Ready \<and>
     rc_session_id (updates c1 (1000 # take k [1020, 1040, 1060])) = init_id reply"
proof -
  let ?reply = "InitializeMessage_of_bytes (replicate 22 7)" and ?times = "[1020, 1040, 1060] :: u64 list"
  let ?c = "new_client (server_os ?reply)"
  have wf: "wf_InitializeMessage ?reply"
    by (rule InitializeMessage_wire.wf_of) simp
  have "rc_handshake_timeout_ms ?c = 5000"
    by (simp add: new_client_def ryu_client_new_def generate_mac_address_def generate_session_id_def)
  then have nows: "\<forall>now\<in>set ?times. now - 1000 < ucast (rc_handshake_timeout_ms ?c)"
    by simp
  have "hesitations (sk_os (tc_socket (rc_tcp ?c))) = 2"
    by (simp add: hesitations_def new_client_def ryu_client_new_def generate_mac_address_def generate_session_id_def tcp_new_def sk_new_def
        server_os_def Let_def)
  then have "\<exists>k\<le>length ?times. let c' = updates (snd (ryu_connect ?c (Some [104]) 30456)) (1000 # take k ?times)
      in rc_state c' = ConnectionState.Ready \<and> rc_session_id c' = init_id ?reply \<and> rc_mac_address c' = init_mac_address ?reply \<and>
        tc_wire (rc_tcp c') = tc_wire (rc_tcp ?c) @ handshake_bytes ?c"
    by (intro session_is_established [OF new_client_fresh [OF wf] wf _ _ _ nows]) (simp_all add: c_str_def)
  then obtain k where "k \<le> length ?times" "rc_state (updates (snd (ryu_connect ?c (Some [104]) 30456)) (1000 # take k ?times)) = ConnectionState.Ready"
      "rc_session_id (updates (snd (ryu_connect ?c (Some [104]) 30456)) (1000 # take k ?times)) = init_id ?reply"
    unfolding Let_def by blast
  then show ?thesis
    unfolding Let_def by (intro exI [of _ k]) simp
qed

text \<open>
  C34: an \<^verbatim>\<open>update\<close> makes the client ready only from the handshaking state, before the timeout,
  and only when the packet it received is an Initialize or SyncNetwork reply.
\<close>

theorem ready_only_after_reply:
  assumes "rc_state (update c now) = ConnectionState.Ready" and "rc_state c \<noteq> ConnectionState.Ready"
  shows "rc_state c = ConnectionState.Handshaking \<and> \<not> is_handshake_timeout c now \<and>
    (\<exists>p k t. receive_packet (rc_tcp c) 2048 (sint (cc_recv_timeout_ms (rc_config c))) =
       (ClientResult.Success, k, Some p, t) \<and>
       (rx_type p = PacketId.Initialize \<or> rx_type p = PacketId.SyncNetwork))"
  by (rule update_ready [OF assms])

theorem ready_only_after_reply_witness:
  "let c = busy_client ConnectionState.Handshaking [(PacketId.SyncNetwork, [])] 7
   in rc_state (update c 200) = ConnectionState.Ready \<and> \<not> is_handshake_timeout c 200"
proof -
  let ?c = "busy_client ConnectionState.Handshaking [(PacketId.SyncNetwork, [])] 7"
  obtain t where t: "receive_packet (rc_tcp ?c) 2048 20 =
      (ClientResult.Success, 0, Some \<lparr>rx_type = PacketId.SyncNetwork, rx_payload = []\<rparr>, t)"
    using receive_packet_live [of "rc_tcp ?c" PacketId.SyncNetwork "[]" "[]" 2048 "[]" 20]
    by (auto simp: busy_client_facts example_client_inv example_client_facts example_client_delivering
        message_fits_def packet_id_enumerator_def)
  have "rc_state (update ?c 200) = ConnectionState.Ready"
    using t by (simp add: update_def handle_handshaking_state_def is_handshake_timeout_def busy_client_facts
        process_handshake_response_def next_state_eval)
  then show ?thesis
    using ready_only_after_reply [of ?c 200] by (simp add: Let_def busy_client_facts)
qed

text \<open>
  C7: the packets of the stream reach the application's callback in order and unchanged: one call
  of \<^verbatim>\<open>process_packets\<close> takes some messages from the front of the stream and delivers those that
  are not ping or disconnect, each exactly once.
\<close>

theorem packets_delivered_in_order:
  assumes "rc_pending rest c ms"
  shows "\<exists>got todo. ms = got @ todo \<and> tc_stream (rc_tcp (process_packets c)) @ rest = packets todo \<and>
    delivered (rc_events (process_packets c)) = delivered (rc_events c) @ filter app_message got"
proof (cases "tcp_is_connected (rc_tcp c)")
  case True
  then show ?thesis
    using process_packets_loop_delivers [OF assms]
    by (simp add: process_packets_def rc_pending_def tc_pending_def) blast
next
  case False
  then show ?thesis
    using assms
    by (intro exI [of _ "[]"] exI [of _ ms]) (simp add: process_packets_def rc_pending_def tc_pending_def)
qed

theorem packets_delivered_in_order_witness:
  "let ms = [(PacketId.ProxyConfig, [1, 2]), (PacketId.Ping, [0, 9])];
       c = busy_client ConnectionState.Ready ms 5
   in \<exists>got todo. ms = got @ todo \<and> tc_stream (rc_tcp (process_packets c)) = packets todo \<and>
        delivered (rc_events (process_packets c)) = filter app_message got"
  using packets_delivered_in_order [OF busy_client_pending, of "[(PacketId.ProxyConfig, [1, 2]), (PacketId.Ping, [0, 9])]"
      ConnectionState.Ready 5]
  by (simp add: Let_def busy_client_facts message_fits_def packet_id_enumerator_def kRecvBufferSize_def kRecvChunk_def)

text \<open>
  Nothing is left behind: with a system that delivers, one call of \<^verbatim>\<open>process_packets\<close> on a
  stream of complete packets without pings delivers every application message and empties the
  stream.
\<close>

theorem packets_all_delivered:
  assumes "rc_pending [] c ms"
    and "delivering (tc_socket (rc_tcp c)) (sint (cc_recv_timeout_ms (rc_config c)))"
    and "list_all (\<lambda>m. fst m \<noteq> PacketId.Ping) ms"
  shows "tc_stream (rc_tcp (process_packets c)) = [] \<and>
    delivered (rc_events (process_packets c)) = delivered (rc_events c) @ filter app_message ms"
  using process_packets_loop_drains [OF assms] assms(2)
  by (simp add: process_packets_def delivering_def tcp_is_connected_def sk_is_connected_def)

theorem packets_all_delivered_witness:
  "let c = busy_client ConnectionState.Ready [(PacketId.ProxyConfig, [1, 2]), (PacketId.Reject, [3])] 5
   in delivered (rc_events (process_packets c)) = [(PacketId.ProxyConfig, [1, 2]), (PacketId.Reject, [3])]"
  using packets_all_delivered [OF busy_client_pending, of "[(PacketId.ProxyConfig, [1, 2]), (PacketId.Reject, [3])]"
      ConnectionState.Ready 5]
  by (simp add: Let_def busy_client_facts example_client_delivering message_fits_def packet_id_enumerator_def
      kRecvBufferSize_def kRecvChunk_def app_message_def)

text \<open>
  \<^verbatim>\<open>disconnect\<close> works from every state: afterwards the machine is disconnected, the socket is
  closed, no received bytes are left and the retry count and handshake flag are reset.
\<close>

theorem disconnect_resets:
  "rc_state (ryu_disconnect c) = ConnectionState.Disconnected \<and>
   \<not> tcp_is_connected (rc_tcp (ryu_disconnect c)) \<and>
   pb_contents (tc_recv_buffer (rc_tcp (ryu_disconnect c))) = [] \<and>
   rm_retry_count (rc_reconnect (ryu_disconnect c)) = 0 \<and> \<not> rc_handshake_sent (ryu_disconnect c)"
  by (rule ryu_disconnect_disconnected)

text \<open>
  The backoff timer is respected: before the delay has elapsed an \<^verbatim>\<open>update\<close> makes no
  connection attempt and changes nothing but its own time stamp; after it, exactly one attempt is made,
  with the configured address, and it leads to the connected state with the failure count reset or
  back to backoff with the failure recorded.
\<close>

theorem backoff_timer_respected:
  assumes "rc_state c = ConnectionState.Backoff" and "rc_backoff_start_time_ms c \<noteq> 0"
    and "tcp_connect (rc_tcp c) (Some (c_str (cc_host (rc_config c)))) (cc_port (rc_config c))
      (cc_connect_timeout_ms (rc_config c)) (cc_use_tls (rc_config c)) = (r, t)"
  shows "if now - rc_backoff_start_time_ms c < ucast (rc_current_backoff_delay_ms c)
    then update c now = c\<lparr>rc_last_update_time_ms := now\<rparr>
    else rc_tcp (update c now) = t \<and>
      (if r = ClientResult.Success
       then rc_state (update c now) = ConnectionState.Connected \<and>
         rc_reconnect (update c now) = rm_reset (rc_reconnect c)
       else rc_state (update c now) = ConnectionState.Backoff \<and>
         rc_reconnect (update c now) = record_failure (rc_reconnect c))"
  using backoff_waits [OF assms(1,2)] backoff_retry [OF assms(1,2) _ assms(3), of now] by auto

theorem backoff_timer_respected_witness:
  "let c = (busy_client ConnectionState.Backoff [] 0)
       \<lparr>rc_tcp := tcp_new (split_os [] 0), rc_backoff_start_time_ms := 1000, rc_current_backoff_delay_ms := 200\<rparr>
   in update c 1100 = c\<lparr>rc_last_update_time_ms := 1100\<rparr> \<and>
      rc_state (update c 1300) = ConnectionState.Backoff \<and>
      rc_reconnect (update c 1300) = record_failure (rc_reconnect c)"
proof -
  define c where "c = (busy_client ConnectionState.Backoff [] 0)
       \<lparr>rc_tcp := tcp_new (split_os [] 0), rc_backoff_start_time_ms := 1000, rc_current_backoff_delay_ms := 200\<rparr>"
  have st: "rc_state c = ConnectionState.Backoff" "rc_backoff_start_time_ms c = 1000"
    "rc_current_backoff_delay_ms c = 200" "rc_tcp c = tcp_new (split_os [] 0)"
    using busy_client_facts(1) [of ConnectionState.Backoff "[]" 0] by (simp_all add: c_def rc_state_def)
  let ?con = "tcp_connect (rc_tcp c) (Some (c_str (cc_host (rc_config c)))) (cc_port (rc_config c))
      (cc_connect_timeout_ms (rc_config c)) (cc_use_tls (rc_config c))"
  obtain r t where con: "?con = (r, t)"
    by (metis surj_pair)
  have "r \<noteq> ClientResult.Success"
    using con
    by (auto simp: st tcp_connect_def tcp_disconnect_def tcp_new_def sk_new_def sk_is_connected_def sk_connect_def
        split_os_def Let_def split: if_splits)
  then show ?thesis
    using backoff_timer_respected [OF st(1) _ con, of 1100] backoff_timer_respected [OF st(1) _ con, of 1300]
    by (simp add: st Let_def c_def [symmetric])
qed

text \<open>
  A request is sent only in the ready state. A refused request changes nothing; an
  accepted one has put exactly the scan packet on the wire.
\<close>

theorem scan_sent_only_when_ready:
  assumes "ryu_send_scan c flt = (r, c')" and "wf_ScanFilterFull flt"
    and "tcp_inv (rc_tcp c)" and "poll_sane (tc_socket (rc_tcp c))"
  shows "if rc_state c = ConnectionState.Ready
    then r = ClientOpResult.Success \<longrightarrow>
      tc_wire (rc_tcp c') = tc_wire (rc_tcp c) @ packet PacketId.Scan (ScanFilterFull_to_bytes flt) \<and>
      rc_state c' = ConnectionState.Ready
    else r = ClientOpResult.NotReady \<and> c' = c"
proof -
  obtain tr t where t: "tcp_send_scan (rc_tcp c) flt = (tr, t)"
    by (metis surj_pair)
  have len: "length (ScanFilterFull_to_bytes flt) = 96"
    by (rule ScanFilterFull_wire.len_to [OF assms(2)])
  have "tr = ClientResult.Success \<longrightarrow>
      tc_wire t = tc_wire (rc_tcp c) @ packet PacketId.Scan (ScanFilterFull_to_bytes flt)"
    using tcp_send_struct [OF t [unfolded tcp_send_scan_def] len _ assms(3,4)] by (simp add: kSendBufferSize_def)
  then show ?thesis
    using assms(1) t
    by (auto simp: ryu_send_scan_def rc_send_def rc_is_ready_def csm_is_ready_def rc_state_def Let_def split: if_splits)
qed

theorem scan_sent_only_when_ready_witness:
  "ryu_send_scan (busy_client ConnectionState.Backoff [] 0) (ScanFilterFull_of_bytes (replicate 96 0)) =
     (ClientOpResult.NotReady, busy_client ConnectionState.Backoff [] 0)"
proof -
  obtain r c' where c': "ryu_send_scan (busy_client ConnectionState.Backoff [] 0)
      (ScanFilterFull_of_bytes (replicate 96 0)) = (r, c')"
    by (metis surj_pair)
  have "wf_ScanFilterFull (ScanFilterFull_of_bytes (replicate 96 0))"
    by (rule ScanFilterFull_wire.wf_of) simp
  then show ?thesis
    using scan_sent_only_when_ready [OF c'] c' by (simp add: busy_client_facts example_client_inv example_client_facts)
qed

text \<open>
  C39: a handshake that times out leaves the TCP connection open, and from then on no number of
  \<^verbatim>\<open>update\<close> calls leaves the backoff state: every retry is refused because the socket is still
  connected.
\<close>

theorem timed_out_handshake_never_recovers:
  assumes "rc_state c = ConnectionState.Handshaking" and "tcp_is_connected (rc_tcp c)"
    and "is_handshake_timeout c now"
  shows "rc_state (foldl update (update c now) ticks) = ConnectionState.Backoff \<and>
    tcp_is_connected (rc_tcp (foldl update (update c now) ticks))"
  using handshake_timeout_keeps_connection [OF assms] assms(2)
  by (intro backoff_run_with_open_connection) simp_all

theorem timed_out_handshake_never_recovers_witness:
  "rc_state (foldl update (update (busy_client ConnectionState.Handshaking [] 0) 6000) [7000, 9000, 90000]) =
     ConnectionState.Backoff"
  using timed_out_handshake_never_recovers [of "busy_client ConnectionState.Handshaking [] 0" 6000 "[7000, 9000, 90000]"]
  by (simp add: busy_client_facts example_client_facts is_handshake_timeout_def)

text \<open>
  The handshake is not repeated after an automatic reconnect: a client in backoff that had
  sent its handshake in an earlier connection never reaches the handshaking or ready state again
  by \<^verbatim>\<open>update\<close> alone, whatever the network does.
\<close>

theorem reconnect_skips_handshake:
  assumes "rc_state c = ConnectionState.Backoff" and "rc_handshake_sent c"
  shows "rc_state (foldl update c ticks) = ConnectionState.Backoff \<or>
    rc_state (foldl update c ticks) = ConnectionState.Connected"
  using update_run_reconnecting [of c ticks] assms by (simp add: reconnecting_def)

theorem reconnect_skips_handshake_witness:
  "rc_state (foldl update (busy_client ConnectionState.Backoff [] 0) [500, 9000]) \<noteq> ConnectionState.Ready"
  using reconnect_skips_handshake [of "busy_client ConnectionState.Backoff [] 0" "[500, 9000]"]
  by (auto simp: busy_client_facts)

end
