(* ===== verification/Send_Queue.thy ===== *)
theory Send_Queue
  imports Tcp_Client "HOL-Library.Sublist"
begin

text \<open>
  The background sender of \<^verbatim>\<open>network/tcp_client.cpp\<close> (\<^verbatim>\<open>SendThreadLoop\<close>) and the
  operations that run beside it. The thread's local variables and program point are
  explicit; a step is one critical section of the loop, so that other threads' operations
  can come between any two of them. \<open>sq_enqueued\<close> is the history of everything
  \<^verbatim>\<open>send_proxy_data\<close> has queued; the code does not keep it.
\<close>

datatype send_pc =
  Top | Fetch | TrySend "byte list" | PopSent "byte list" | Stopped | OutOfBounds

record SendThread =
  sq_client :: TcpClient
  sq_pc :: send_pc
  send_offset :: nat
  sq_enqueued :: "QueuedPacket list"

definition pop_front :: "TcpClient \<Rightarrow> TcpClient" where
  "pop_front c =
     (case tc_send_queue c of
        [] \<Rightarrow> c
      | p # q \<Rightarrow> c\<lparr>tc_send_queue := q, tc_send_queue_size := tc_send_queue_size c - length (qp_data p)\<rparr>)"

definition is_stale :: "QueuedPacket \<Rightarrow> u64 \<Rightarrow> bool" where
  "is_stale p now_ms \<longleftrightarrow> now_ms > qp_timestamp_ms p \<and> now_ms - qp_timestamp_ms p > kMaxQueuedPacketAgeMs"

text \<open>
  One critical section. At \<open>Top\<close> with an empty queue the thread waits on the condition
  variable, so nothing changes. In step 3 of the loop an offset beyond the packet makes the
  unsigned \<^verbatim>\<open>to_send\<close> wrap and the call read past the vector: \<open>OutOfBounds\<close>.
\<close>

definition thread_step :: "u64 \<Rightarrow> SendThread \<Rightarrow> SendThread" where
  "thread_step now_ms s =
     (let c = sq_client s in
      case sq_pc s of
        Top \<Rightarrow>
          (if \<not> tc_thread_running c then s\<lparr>sq_pc := Stopped\<rparr>
           else if send_offset s = 0 then
             (case tc_send_queue c of
                [] \<Rightarrow> s
              | p # q \<Rightarrow> (if is_stale p now_ms then s\<lparr>sq_client := pop_front c\<rparr> else s\<lparr>sq_pc := Fetch\<rparr>))
           else s\<lparr>sq_pc := Fetch\<rparr>)
      | Fetch \<Rightarrow>
          (case tc_send_queue c of
             [] \<Rightarrow> s\<lparr>send_offset := 0, sq_pc := Top\<rparr>
           | p # q \<Rightarrow>
               (if send_offset s = 0 \<and> is_stale p now_ms then s\<lparr>sq_client := pop_front c, sq_pc := Top\<rparr>
                else s\<lparr>sq_pc := TrySend (qp_data p)\<rparr>))
      | TrySend temp_data \<Rightarrow>
          (if send_offset s > length temp_data then s\<lparr>sq_pc := OutOfBounds\<rparr>
           else case sk_send (tc_socket c) (drop (send_offset s) temp_data) of (res, sent, sock) \<Rightarrow>
             let s = s\<lparr>sq_client := c\<lparr>tc_socket := sock\<rparr>\<rparr> in
             if res = SocketResult.Success then
               (let s = s\<lparr>send_offset := send_offset s + sent\<rparr> in
                s\<lparr>sq_pc := (if send_offset s \<ge> length temp_data then PopSent temp_data else Top)\<rparr>)
             else if res = SocketResult.WouldBlock then s\<lparr>sq_pc := Top\<rparr>
             else s\<lparr>sq_pc := Stopped\<rparr>)
      | PopSent temp_data \<Rightarrow> s\<lparr>sq_client := pop_front c, send_offset := 0, sq_pc := Top\<rparr>
      | Stopped \<Rightarrow> s
      | OutOfBounds \<Rightarrow> s)"

text \<open>Another thread's \<^verbatim>\<open>send_proxy_data\<close> and its direct sends.\<close>

definition producer_step :: "u64 \<Rightarrow> ProxyDataHeader \<Rightarrow> byte list \<Rightarrow> SendThread \<Rightarrow> SendThread" where
  "producer_step now_ms h data s =
     (case tcp_send_proxy_data (sq_client s) h (Some data) (length data) now_ms of (r, c) \<Rightarrow>
        s\<lparr>sq_client := c,
          sq_enqueued := (if r = ClientResult.Success then sq_enqueued s @ [last (tc_send_queue c)]
                          else sq_enqueued s)\<rparr>)"

definition direct_step :: "byte list \<Rightarrow> SendThread \<Rightarrow> SendThread" where
  "direct_step data s =
     s\<lparr>sq_client := snd (tcp_send_raw (sq_client s) (Some data) (length data))\<rparr>"

text \<open>
  The interleavings without interference: a producer that has to drop packets does so only
  while none is partly sent or about to be, and nothing is sent directly. In between are as many
  steps of the thread as the scheduler takes.
\<close>

definition sending :: "SendThread \<Rightarrow> bool" where
  "sending s \<longleftrightarrow> send_offset s \<noteq> 0 \<or> (case sq_pc s of TrySend d \<Rightarrow> True | PopSent d \<Rightarrow> True | _ \<Rightarrow> False)"

inductive quiet_step :: "SendThread \<Rightarrow> SendThread \<Rightarrow> bool" where
  thread: "quiet_step s (thread_step now_ms s)"
| produce: "\<not> sending s \<or> tc_send_queue_size (sq_client s) + 32 + length data \<le> kMaxSendQueueSize \<Longrightarrow>
    quiet_step s (producer_step now_ms h data s)"

inductive quiet_run :: "SendThread \<Rightarrow> SendThread \<Rightarrow> bool" where
  refl: "quiet_run s s"
| step: "quiet_run s s' \<Longrightarrow> quiet_step s' s'' \<Longrightarrow> quiet_run s s''"

definition sender_start :: "TcpClient \<Rightarrow> SendThread" where
  "sender_start c = \<lparr>sq_client = c, sq_pc = Top, send_offset = 0, sq_enqueued = tc_send_queue c\<rparr>"

subsection \<open>What is on the wire\<close>

definition front_data :: "QueuedPacket list \<Rightarrow> byte list" where
  "front_data q = (case q of [] \<Rightarrow> [] | p # _ \<Rightarrow> qp_data p)"

fun pc_ok :: "send_pc \<Rightarrow> nat \<Rightarrow> QueuedPacket list \<Rightarrow> bool" where
  "pc_ok (TrySend d) off q \<longleftrightarrow> q \<noteq> [] \<and> d = front_data q \<and> off < length d"
| "pc_ok (PopSent d) off q \<longleftrightarrow> q \<noteq> [] \<and> d = front_data q \<and> off = length d"
| "pc_ok Stopped off q \<longleftrightarrow> True"
| "pc_ok OutOfBounds off q \<longleftrightarrow> False"
| "pc_ok _ off q \<longleftrightarrow> off = 0 \<or> off < length (front_data q)"

definition sq_inv :: "SendThread \<Rightarrow> bool" where
  "sq_inv s \<longleftrightarrow> tcp_inv (sq_client s) \<and> list_all (\<lambda>p. qp_data p \<noteq> []) (tc_send_queue (sq_client s)) \<and>
     send_offset s \<le> length (front_data (tc_send_queue (sq_client s))) \<and>
     pc_ok (sq_pc s) (send_offset s) (tc_send_queue (sq_client s))"

definition framed :: "byte list \<Rightarrow> SendThread \<Rightarrow> bool" where
  "framed base s \<longleftrightarrow>
     (\<exists>whole. tc_wire (sq_client s) = base @ concat (map qp_data whole) @
          take (send_offset s) (front_data (tc_send_queue (sq_client s))) \<and>
        subseq (whole @ tc_send_queue (sq_client s)) (sq_enqueued s))"

lemma pop_front_facts:
  "tc_send_queue (pop_front c) = tl (tc_send_queue c)"
  "tc_wire (pop_front c) = tc_wire c"
  "tcp_inv c \<Longrightarrow> tcp_inv (pop_front c)"
  by (cases "tc_send_queue c"; simp add: pop_front_def tc_wire_def tcp_inv_def)+

lemma front_data_simps [simp]: "front_data [] = []" "front_data (p # q) = qp_data p"
  by (simp_all add: front_data_def)

lemma framed_skip:
  assumes "framed base s" and "send_offset s = 0" and "tc_send_queue (sq_client s) = p # q"
  shows "framed base (s\<lparr>sq_client := pop_front (sq_client s)\<rparr>)"
proof -
  have "subseq (w @ p # q) e \<Longrightarrow> subseq (w @ q) e" for w e
    using subseq_order.order_trans [of "w @ q" "w @ p # q" e] by (simp add: subseq_append' list_emb_Cons)
  then show ?thesis
    using assms by (auto simp: framed_def pop_front_facts)
qed

lemma framed_pop:
  assumes "framed base s" and "tc_send_queue (sq_client s) = p # q" and "send_offset s = length (qp_data p)"
  shows "framed base (s\<lparr>sq_client := pop_front (sq_client s), send_offset := 0, sq_pc := pc\<rparr>)"
proof -
  obtain w where w: "tc_wire (sq_client s) = base @ concat (map qp_data w) @ qp_data p"
    "subseq (w @ p # q) (sq_enqueued s)"
    using assms by (auto simp: framed_def)
  then show ?thesis
    using assms(2) by (auto simp: framed_def pop_front_facts intro!: exI [of _ "w @ [p]"])
qed

lemma framed_send:
  assumes "framed base s" and "sk_send (tc_socket (sq_client s)) (drop (send_offset s) d) = (r, n, sock)"
    and "d = front_data (tc_send_queue (sq_client s))"
  shows "framed base (s\<lparr>sq_client := (sq_client s)\<lparr>tc_socket := sock\<rparr>, send_offset := send_offset s + n, sq_pc := pc\<rparr>)"
proof -
  have "sk_wire sock = sk_wire (tc_socket (sq_client s)) @ take n (drop (send_offset s) d)"
    using sk_send_wire [OF assms(2)] by blast
  then show ?thesis
    using assms(1,3) by (auto simp: framed_def tc_wire_def take_add)
qed

lemma framed_pc [simp]: "framed base (s\<lparr>sq_pc := pc\<rparr>) = framed base s"
  by (simp add: framed_def)

lemma sq_inv_idle:
  "sq_pc s = Top \<or> sq_pc s = Fetch \<Longrightarrow> sq_inv s \<longleftrightarrow> tcp_inv (sq_client s) \<and>
     list_all (\<lambda>p. qp_data p \<noteq> []) (tc_send_queue (sq_client s)) \<and>
     (send_offset s = 0 \<or> send_offset s < length (front_data (tc_send_queue (sq_client s))))"
  by (auto simp: sq_inv_def)

lemma sq_inv_stop: "sq_inv s \<Longrightarrow> sq_inv (s\<lparr>sq_pc := Stopped\<rparr>)"
  by (simp add: sq_inv_def)

lemma thread_step_try_send:
  assumes "sq_inv s" and "framed base s" and "sq_pc s = TrySend d"
  shows "sq_inv (thread_step now_ms s) \<and> framed base (thread_step now_ms s)"
proof -
  obtain r n sock where snd: "sk_send (tc_socket (sq_client s)) (drop (send_offset s) d) = (r, n, sock)"
    by (metis prod_cases3)
  have inv: "tcp_inv (sq_client s)" "tc_send_queue (sq_client s) \<noteq> []"
    "d = front_data (tc_send_queue (sq_client s))" "send_offset s < length d"
    "list_all (\<lambda>p. qp_data p \<noteq> []) (tc_send_queue (sq_client s))"
    using assms(1,3) by (auto simp: sq_inv_def)
  have n: "n \<le> length d - send_offset s" "r \<noteq> SocketResult.Success \<Longrightarrow> n = 0"
    using sk_send_wire [OF snd] by auto
  let ?c = "(sq_client s)\<lparr>tc_socket := sock\<rparr>"
  define pc where "pc = (if r = SocketResult.Success
      then if send_offset s + n \<ge> length d then PopSent d else Top
      else if r = SocketResult.WouldBlock then Top else Stopped)"
  have st: "thread_step now_ms s = s\<lparr>sq_client := ?c, send_offset := send_offset s + n, sq_pc := pc\<rparr>"
    using assms(3) inv(4) snd n(2) by (auto simp: thread_step_def pc_def Let_def)
  have "sq_inv (thread_step now_ms s)"
    using inv n by (auto simp: st sq_inv_def pc_def)
  then show ?thesis
    using framed_send [OF assms(2) snd inv(3), of pc] st by simp
qed

lemma thread_step_safe:
  assumes "sq_inv s" and "framed base s"
  shows "sq_inv (thread_step now_ms s) \<and> framed base (thread_step now_ms s)"
proof (cases "sq_pc s")
  case (TrySend d)
  then show ?thesis
    by (rule thread_step_try_send [OF assms])
next
  case (PopSent d)
  then obtain p q where q: "tc_send_queue (sq_client s) = p # q" "send_offset s = length (qp_data p)"
    using assms(1) by (cases "tc_send_queue (sq_client s)") (auto simp: sq_inv_def)
  have "tcp_inv (sq_client s)" "list_all (\<lambda>p. qp_data p \<noteq> []) q"
    using assms(1) q(1) by (simp_all add: sq_inv_def)
  then show ?thesis
    using framed_pop [OF assms(2) q, of Top] q(1) PopSent
    by (simp add: thread_step_def sq_inv_idle pop_front_facts)
next
  case Top
  consider (stop) "\<not> tc_thread_running (sq_client s)"
    | (wait) "tc_thread_running (sq_client s)" "send_offset s = 0" "tc_send_queue (sq_client s) = []"
    | (stale) p q where "tc_thread_running (sq_client s)" "send_offset s = 0"
        "tc_send_queue (sq_client s) = p # q" "is_stale p now_ms"
    | (go) "tc_thread_running (sq_client s)"
        "send_offset s \<noteq> 0 \<or> (\<exists>p q. tc_send_queue (sq_client s) = p # q \<and> \<not> is_stale p now_ms)"
    by (cases "tc_send_queue (sq_client s)") auto
  then show ?thesis
  proof cases
    case stale
    then show ?thesis
      using Top assms framed_skip [OF assms(2) stale(2,3)]
      by (simp add: thread_step_def sq_inv_idle pop_front_facts)
  next
    case go
    then have "thread_step now_ms s = s\<lparr>sq_pc := Fetch\<rparr>"
      using Top by (auto simp: thread_step_def Let_def)
    then show ?thesis
      using Top assms by (simp add: sq_inv_idle)
  qed (use Top assms sq_inv_stop in \<open>simp_all add: thread_step_def\<close>)
next
  case Fetch
  consider (gone) "tc_send_queue (sq_client s) = []"
    | (stale) p q where "send_offset s = 0" "tc_send_queue (sq_client s) = p # q" "is_stale p now_ms"
    | (go) p q where "tc_send_queue (sq_client s) = p # q" "\<not> (send_offset s = 0 \<and> is_stale p now_ms)"
    by (cases "tc_send_queue (sq_client s)") auto
  then show ?thesis
  proof cases
    case gone
    then show ?thesis
      using Fetch assms by (simp add: thread_step_def sq_inv_idle framed_def)
  next
    case stale
    then show ?thesis
      using Fetch assms framed_skip [OF assms(2) stale(1,2)]
      by (simp add: thread_step_def sq_inv_idle pop_front_facts)
  next
    case go
    then have "thread_step now_ms s = s\<lparr>sq_pc := TrySend (qp_data p)\<rparr>"
      using Fetch by (auto simp: thread_step_def Let_def)
    then show ?thesis
      using Fetch assms go(1) by (auto simp: sq_inv_def)
  qed
qed (use assms in \<open>auto simp: thread_step_def sq_inv_def framed_def\<close>)

text \<open>What a queueing send does to the queue: it drops a prefix and appends one packet.\<close>

lemma encode_proxy_data_size:
  "encode_proxy_data b info d n = (EncodeResult.Success, b', k) \<Longrightarrow> k = 32 + n \<and> k \<le> length b"
  by (auto simp: encode_proxy_data_def encode_with_data_def encode_header_def Let_def split: if_splits option.splits)

lemma send_proxy_data_queue:
  assumes "tcp_send_proxy_data c h (Some data) (length data) now_ms = (r, c')" and "tcp_inv c"
  shows "(r \<noteq> ClientResult.Success \<and> tc_send_queue c' = tc_send_queue c) \<or>
    (r = ClientResult.Success \<and> (\<exists>dropped kept p. tc_send_queue c = dropped @ kept \<and>
       tc_send_queue c' = kept @ [p] \<and> qp_data p \<noteq> [] \<and> qp_timestamp_ms p = now_ms \<and>
       (tc_send_queue_size c + 32 + length data \<le> kMaxSendQueueSize \<longrightarrow> dropped = [])))"
proof -
  obtain er b k where e: "encode_proxy_data (tc_send_buffer c) (pdh_info h) (Some data) (length data) = (er, b, k)"
    by (metis prod_cases3)
  obtain q m where d: "drop_oldest k (tc_send_queue c) (tc_send_queue_size c) = (q, m)"
    by (metis surj_pair)
  have size: "tc_send_queue_size c = queue_bytes (tc_send_queue c)"
    using assms(2) by (simp add: tcp_inv_def)
  show ?thesis
  proof (cases "tcp_is_connected c \<and> er = EncodeResult.Success")
    case False
    then show ?thesis
      using assms(1) e by (auto simp: tcp_send_proxy_data_def Let_def split: if_splits)
  next
    case True
    then have k: "k = 32 + length data" "k \<le> length (tc_send_buffer c)"
      using encode_proxy_data_size [of "tc_send_buffer c" "pdh_info h" "Some data" "length data" b k] e by auto
    have b: "length b = length (tc_send_buffer c)"
      using encode_proxy_data_length [OF e] by simp
    obtain dropped where q: "tc_send_queue c = dropped @ q"
      using drop_oldest_spec [OF d size] by blast
    have keep: "q = tc_send_queue c" if "tc_send_queue_size c + 32 + length data \<le> kMaxSendQueueSize"
      using d that k by (cases "tc_send_queue c") auto
    have c': "r = ClientResult.Success" "tc_send_queue c' = q @ [\<lparr>qp_timestamp_ms = now_ms, qp_data = take k b\<rparr>]"
      using assms(1) True e d by (auto simp: tcp_send_proxy_data_def Let_def)
    have ne: "take k b \<noteq> []"
      using k b by auto
    show ?thesis
      using c' q keep ne by auto
  qed
qed

lemma send_proxy_data_wire:
  "tc_wire (snd (tcp_send_proxy_data c h data n now_ms)) = tc_wire c"
  by (auto simp: tcp_send_proxy_data_def tc_wire_def Let_def split: prod.split)

lemma subseq_snoc_kept:
  assumes "subseq (whole @ dropped @ kept) e"
  shows "subseq (whole @ kept @ [p]) (e @ [p])"
proof -
  have "subseq (whole @ kept) (whole @ dropped @ kept)"
    by (simp add: subseq_append' list_emb_append2)
  then have "subseq (whole @ kept) e"
    using assms by (rule subseq_order.order_trans)
  then have "subseq ((whole @ kept) @ [p]) (e @ [p])"
    by (intro list_emb_append_mono) auto
  then show ?thesis
    by simp
qed

lemma not_sending_inv:
  "sq_inv s \<Longrightarrow> \<not> sending s \<Longrightarrow> send_offset s = 0 \<and> (sq_pc s = Top \<or> sq_pc s = Fetch \<or> sq_pc s = Stopped)"
  by (cases "sq_pc s") (auto simp: sending_def sq_inv_def)

lemma front_data_append: "q \<noteq> [] \<Longrightarrow> front_data (q @ r) = front_data q"
  by (cases q) simp_all

lemma producer_step_safe:
  assumes "sq_inv s" and "framed base s"
    and "\<not> sending s \<or> tc_send_queue_size (sq_client s) + 32 + length data \<le> kMaxSendQueueSize"
  shows "sq_inv (producer_step now_ms h data s) \<and> framed base (producer_step now_ms h data s)"
proof -
  obtain r c where rc: "tcp_send_proxy_data (sq_client s) h (Some data) (length data) now_ms = (r, c)"
    by (metis surj_pair)
  have inv: "tcp_inv (sq_client s)"
    using assms(1) by (simp add: sq_inv_def)
  have ci: "tcp_inv c"
    using tcp_send_proxy_data_inv [OF inv, of "Some data" "length data" h now_ms] rc by simp
  have cw: "tc_wire c = tc_wire (sq_client s)"
    using send_proxy_data_wire [of "sq_client s" h "Some data" "length data" now_ms] rc by simp
  consider (failed) "r \<noteq> ClientResult.Success" "tc_send_queue c = tc_send_queue (sq_client s)"
    | (queued) dropped kept p where "r = ClientResult.Success" "tc_send_queue (sq_client s) = dropped @ kept"
        "tc_send_queue c = kept @ [p]" "qp_data p \<noteq> []"
        "tc_send_queue_size (sq_client s) + 32 + length data \<le> kMaxSendQueueSize \<longrightarrow> dropped = []"
    using send_proxy_data_queue [OF rc inv] by blast
  then show ?thesis
  proof cases
    case failed
    then show ?thesis
      using assms ci cw by (simp add: producer_step_def rc sq_inv_def framed_def)
  next
    case queued
    obtain whole where w: "tc_wire (sq_client s) = base @ concat (map qp_data whole) @
        take (send_offset s) (front_data (tc_send_queue (sq_client s)))"
      "subseq (whole @ dropped @ kept) (sq_enqueued s)"
      using assms(2) queued(2) by (auto simp: framed_def)
    have sub: "subseq (whole @ kept @ [p]) (sq_enqueued s @ [p])"
      by (rule subseq_snoc_kept [OF w(2)])
    have front: "send_offset s = 0 \<or> (kept \<noteq> [] \<and> dropped = [])"
      using assms(1,3) queued(2,5) not_sending_inv [OF assms(1)] by (auto simp: sq_inv_def)
    then have fd: "take (send_offset s) (front_data (kept @ [p])) =
        take (send_offset s) (front_data (tc_send_queue (sq_client s)))"
      using queued(2) by (auto simp: front_data_append)
    have "framed base (producer_step now_ms h data s)"
      using w(1) sub cw queued(1,3) fd by (auto simp: producer_step_def rc framed_def)
    moreover have "pc_ok (sq_pc s) (send_offset s) (kept @ [p])"
      using assms(1,3) queued(2,5) not_sending_inv [OF assms(1)] front
      by (cases "sq_pc s"; cases "sending s") (auto simp: sq_inv_def front_data_append)
    moreover have "send_offset s \<le> length (front_data (kept @ [p]))"
      using front assms(1) queued(2) by (auto simp: sq_inv_def front_data_append)
    moreover have "list_all (\<lambda>p. qp_data p \<noteq> []) (kept @ [p])"
      using assms(1) queued(2,4) by (simp add: sq_inv_def)
    ultimately show ?thesis
      using ci queued(1,3) by (simp add: producer_step_def rc sq_inv_def)
  qed
qed

lemma quiet_run_safe:
  "quiet_run s s' \<Longrightarrow> sq_inv s \<Longrightarrow> framed base s \<Longrightarrow> sq_inv s' \<and> framed base s'"
proof (induction rule: quiet_run.induct)
  case (step s s' s'')
  then show ?case
    by (auto elim!: quiet_step.cases simp: thread_step_safe producer_step_safe)
qed simp

lemma sender_start_safe:
  "tcp_inv c \<Longrightarrow> tc_send_queue c = [] \<Longrightarrow> sq_inv (sender_start c) \<and> framed (tc_wire c) (sender_start c)"
  by (auto simp: sender_start_def sq_inv_def framed_def intro: exI [of _ "[]"])

subsection \<open>Interference\<close>

text \<open>
  A producer that finds the queue full pops the packet the thread is in the middle of sending.
  The thread then goes on at its old offset inside the next packet: the bytes on the wire are
  the beginning of one packet followed by the rest of another.
\<close>

lemma full_queue_drops_head:
  assumes "tcp_inv c" and "tcp_is_connected c" and "tc_send_queue c = p # q # rest"
    and "32 + length data \<le> kSendBufferSize"
    and "kMaxSendQueueSize < tc_send_queue_size c + 32 + length data"
    and "tc_send_queue_size c - length (qp_data p) + 32 + length data \<le> kMaxSendQueueSize"
  shows "\<exists>c' r. tcp_send_proxy_data c h (Some data) (length data) t = (ClientResult.Success, c') \<and>
    tc_send_queue c' = q # r \<and> tc_thread_running c' = tc_thread_running c \<and> tc_socket c' = tc_socket c"
proof -
  have "length (ProxyDataHeader_to_bytes x) = 20" for x
    by (rule ProxyDataHeader_wire.len_to) (simp add: wf_ProxyDataHeader_def wf_ProxyInfo_def)
  then obtain b where "encode_proxy_data (tc_send_buffer c) (pdh_info h) (Some data) (length data) =
      (EncodeResult.Success, b, 32 + length data)"
    using assms(1,4) encode_with_data_ok [of ProxyDataHeader_to_bytes _ 20 data "tc_send_buffer c"]
    by (auto simp: encode_proxy_data_def tcp_inv_def)
  then show ?thesis
    using assms by (simp add: tcp_send_proxy_data_def Let_def)
qed

lemma head_drop_tears_packet:
  assumes "tcp_inv (sq_client s)" and "tcp_is_connected (sq_client s)" and "sq_pc s = Top"
    and "tc_thread_running (sq_client s)" and "0 < send_offset s"
    and "tc_send_queue (sq_client s) = p # q # rest" and "send_offset s + n \<le> length (qp_data q)"
    and "32 + length data \<le> kSendBufferSize"
    and "kMaxSendQueueSize < tc_send_queue_size (sq_client s) + 32 + length data"
    and "tc_send_queue_size (sq_client s) - length (qp_data p) + 32 + length data \<le> kMaxSendQueueSize"
    and "os_send (sk_os (tc_socket (sq_client s))) = Sent n # rs" and "0 < n"
  shows "tc_wire (sq_client (thread_step t3 (thread_step t2 (thread_step t1 (producer_step t h data s))))) =
    tc_wire (sq_client s) @ slice (send_offset s) n (qp_data q)"
proof -
  obtain c r where c: "tcp_send_proxy_data (sq_client s) h (Some data) (length data) t = (ClientResult.Success, c)"
    "tc_send_queue c = q # r" "tc_thread_running c" "tc_socket c = tc_socket (sq_client s)"
    using full_queue_drops_head [OF assms(1,2,6,8-10)] assms(4) by blast
  define s1 where "s1 = producer_step t h data s"
  have s1: "sq_pc s1 = Top" "sq_client s1 = c" "send_offset s1 = send_offset s"
    using assms(3) c(1) by (simp_all add: s1_def producer_step_def)
  have fetched: "thread_step t2 (thread_step t1 s1) = s1\<lparr>sq_pc := TrySend (qp_data q)\<rparr>"
    using s1 c(2,3) assms(5) by (simp add: thread_step_def)
  have mn: "min n (length (qp_data q) - send_offset s) = n"
    using assms(7) by simp
  have con: "sk_connected (tc_socket (sq_client s))"
    using assms(2) by (simp add: tcp_is_connected_def sk_is_connected_def)
  have "sk_send (tc_socket c) (drop (send_offset s) (qp_data q)) = (SocketResult.Success, n,
      (tc_socket c)\<lparr>sk_os := (sk_os (tc_socket c))\<lparr>os_send := rs\<rparr>,
        sk_wire := sk_wire (tc_socket c) @ slice (send_offset s) n (qp_data q)\<rparr>)"
    using mn con assms(11,12) c(4) by (simp add: sk_send_def slice_def)
  then have "tc_wire (sq_client (thread_step t3 (s1\<lparr>sq_pc := TrySend (qp_data q)\<rparr>))) =
      sk_wire (tc_socket c) @ slice (send_offset s) n (qp_data q)"
    using s1 assms(7) by (auto simp: thread_step_def Let_def tc_wire_def)
  then show ?thesis
    using fetched c(4) by (simp add: s1_def [symmetric] tc_wire_def)
qed

subsection \<open>Properties\<close>

text \<open>
  C35: in every interleaving of the sender thread with producers that do not drop the packet being
  sent, the wire holds complete queued packets in the order they were queued, followed by at
  most a beginning of the packet at the front of the queue; the thread never reads
  outside a packet.
\<close>

theorem sender_keeps_framing:
  assumes "tcp_inv c" and "tc_send_queue c = []" and "quiet_run (sender_start c) s"
  shows "\<exists>whole. tc_wire (sq_client s) = tc_wire c @ concat (map qp_data whole) @
        take (send_offset s) (front_data (tc_send_queue (sq_client s))) \<and>
      subseq (whole @ tc_send_queue (sq_client s)) (sq_enqueued s) \<and> sq_pc s \<noteq> OutOfBounds"
proof -
  have "sq_inv s \<and> framed (tc_wire c) s"
    using quiet_run_safe [OF assms(3)] sender_start_safe [OF assms(1,2)] by blast
  then show ?thesis
    by (auto simp: framed_def sq_inv_def)
qed

theorem sender_keeps_framing_witness:
  "let s = thread_step 7 (producer_step 5 (ProxyDataHeader_of_bytes (replicate 20 0)) [1, 2, 3]
             (sender_start (example_client [] 0)))
   in \<exists>whole. tc_wire (sq_client s) = concat (map qp_data whole) @
        take (send_offset s) (front_data (tc_send_queue (sq_client s))) \<and>
      subseq (whole @ tc_send_queue (sq_client s)) (sq_enqueued s)"
proof -
  let ?s0 = "sender_start (example_client [] 0)"
  let ?s1 = "producer_step 5 (ProxyDataHeader_of_bytes (replicate 20 0)) [1, 2, 3] ?s0"
  have "quiet_step ?s0 ?s1"
    by (rule quiet_step.produce) (simp add: sender_start_def example_client_facts kMaxSendQueueSize_def)
  then have "quiet_run ?s0 (thread_step 7 ?s1)"
    by (meson quiet_run.refl quiet_run.step quiet_step.thread)
  from sender_keeps_framing [OF example_client_inv example_client_facts(5) this] show ?thesis
    by (auto simp: Let_def example_client_facts)
qed

text \<open>
  The head-drop of a full queue can tear a packet: when a producer makes room while the
  thread has sent the first bytes of the front packet, the next bytes on the wire come from the
  middle of the packet behind it.
\<close>

theorem head_drop_tears_front_packet:
  assumes "tcp_inv (sq_client s)" and "tcp_is_connected (sq_client s)" and "sq_pc s = Top"
    and "tc_thread_running (sq_client s)" and "0 < send_offset s"
    and "tc_send_queue (sq_client s) = p # q # rest" and "send_offset s + n \<le> length (qp_data q)"
    and "32 + length data \<le> kSendBufferSize"
    and "kMaxSendQueueSize < tc_send_queue_size (sq_client s) + 32 + length data"
    and "tc_send_queue_size (sq_client s) - length (qp_data p) + 32 + length data \<le> kMaxSendQueueSize"
    and "os_send (sk_os (tc_socket (sq_client s))) = Sent n # rs" and "0 < n"
  shows "tc_wire (sq_client (thread_step t3 (thread_step t2 (thread_step t1 (producer_step t h data s))))) =
    tc_wire (sq_client s) @ slice (send_offset s) n (qp_data q)"
  by (rule head_drop_tears_packet [OF assms])

definition full_queue_sender :: SendThread where
  "full_queue_sender = \<lparr>sq_client = (example_client [] 0)
       \<lparr>tc_send_queue := replicate 128 \<lparr>qp_timestamp_ms = 0, qp_data = replicate 2048 7\<rparr>,
        tc_send_queue_size := 128 * 2048, tc_thread_running := True,
        tc_socket := (tc_socket (example_client [] 0))\<lparr>sk_os := (split_os [] 0)\<lparr>os_send := [Sent 500]\<rparr>\<rparr>\<rparr>,
     sq_pc = Top, send_offset = 1000, sq_enqueued = []\<rparr>"

theorem head_drop_tears_front_packet_witness:
  "tc_wire (sq_client (thread_step 0 (thread_step 0 (thread_step 0
     (producer_step 0 (ProxyDataHeader_of_bytes (replicate 20 0)) [1] full_queue_sender))))) =
   slice 1000 500 (replicate 2048 7)"
proof -
  let ?p = "\<lparr>qp_timestamp_ms = 0, qp_data = replicate 2048 (7 :: byte)\<rparr>"
  have split: "replicate 128 ?p = ?p # ?p # replicate 126 ?p"
    by (simp add: numeral_eq_Suc)
  have "queue_bytes (replicate m ?p) = m * 2048" for m
    by (induction m) simp_all
  then have inv: "tcp_inv (sq_client full_queue_sender)"
    using example_client_inv [of "[]" 0]
    by (simp add: full_queue_sender_def tcp_inv_def kMaxSendQueueSize_def)
  have "tc_wire (sq_client full_queue_sender) = []"
    using example_client_facts(4) [of "[]" 0] by (simp add: full_queue_sender_def tc_wire_def)
  moreover have "tcp_is_connected (sq_client full_queue_sender)"
    using example_client_facts(2) [of "[]" 0]
    by (simp add: full_queue_sender_def tcp_is_connected_def sk_is_connected_def)
  ultimately show ?thesis
    using head_drop_tears_front_packet [of full_queue_sender ?p ?p "replicate 126 ?p" 500 "[1]" "[]" 0 0 0 0
        "ProxyDataHeader_of_bytes (replicate 20 0)"] inv
    by (simp add: full_queue_sender_def kSendBufferSize_def kMaxSendQueueSize_def split)
qed

end
