(* ===== verification/Ldn_State_Machine.thy ===== *)
theory Ldn_State_Machine
  imports Prelude "HOL-Library.Sublist"
begin

text \<open>
  The communication state machine of the LDN service, \<^verbatim>\<open>ldn/ldn_state_machine.hpp\<close> and \<^verbatim>\<open>.cpp\<close>. The
  mutex makes every method atomic, so each is a function on the state: the communication
  state, whether the change event is signalled, and the calls of the callback so far. Every method is given as
  the code writes it; \<open>ldn_step\<close> is the diagram of the header as a relation, and the lemmas compare the
  two and the private transition check of the class.
\<close>

datatype CommState = CommNone | Initialized | AccessPoint | AccessPointCreated | Station | StationConnected | CommError

datatype StateTransitionResult = Success | InvalidTransition | AlreadyInState

record LdnStateMachine =
  lsm_state :: CommState
  lsm_event :: bool
  lsm_callback :: bool
  lsm_calls :: "(CommState \<times> CommState) list"

definition lsm_new :: LdnStateMachine where
  "lsm_new = \<lparr>lsm_state = CommNone, lsm_event = False, lsm_callback = False, lsm_calls = []\<rparr>"

definition lsm_SetStateCallback :: "LdnStateMachine \<Rightarrow> bool \<Rightarrow> LdnStateMachine" where
  "lsm_SetStateCallback m cb = m\<lparr>lsm_callback := cb\<rparr>"

definition lsm_IsInState :: "LdnStateMachine \<Rightarrow> CommState \<Rightarrow> bool" where
  "lsm_IsInState m s \<longleftrightarrow> lsm_state m = s"

definition lsm_IsInitialized :: "LdnStateMachine \<Rightarrow> bool" where
  "lsm_IsInitialized m \<longleftrightarrow> lsm_state m \<noteq> CommNone \<and> lsm_state m \<noteq> CommError"

definition lsm_IsNetworkActive :: "LdnStateMachine \<Rightarrow> bool" where
  "lsm_IsNetworkActive m \<longleftrightarrow> lsm_state m = AccessPointCreated \<or> lsm_state m = StationConnected"

definition lsm_SignalStateChange :: "LdnStateMachine \<Rightarrow> LdnStateMachine" where
  "lsm_SignalStateChange m = m\<lparr>lsm_event := True\<rparr>"

text \<open>The common tail of the methods: set the state, signal, call back.\<close>

definition lsm_enter :: "LdnStateMachine \<Rightarrow> CommState \<Rightarrow> LdnStateMachine" where
  "lsm_enter m new_state =
     (let old_state = lsm_state m; m = lsm_SignalStateChange (m\<lparr>lsm_state := new_state\<rparr>)
      in if lsm_callback m then m\<lparr>lsm_calls := lsm_calls m @ [(old_state, new_state)]\<rparr> else m)"

definition lsm_Initialize :: "LdnStateMachine \<Rightarrow> StateTransitionResult \<times> LdnStateMachine" where
  "lsm_Initialize m =
     (if lsm_state m = Initialized then (AlreadyInState, m)
      else if lsm_state m \<noteq> CommNone then (InvalidTransition, m)
      else (Success, lsm_enter m Initialized))"

definition lsm_Finalize :: "LdnStateMachine \<Rightarrow> StateTransitionResult \<times> LdnStateMachine" where
  "lsm_Finalize m =
     (if lsm_state m = CommNone then (AlreadyInState, m) else (Success, lsm_enter m CommNone))"

definition lsm_OpenAccessPoint :: "LdnStateMachine \<Rightarrow> StateTransitionResult \<times> LdnStateMachine" where
  "lsm_OpenAccessPoint m =
     (if lsm_state m = AccessPoint then (AlreadyInState, m)
      else if lsm_state m \<noteq> Initialized then (InvalidTransition, m)
      else (Success, lsm_enter m AccessPoint))"

definition lsm_CloseAccessPoint :: "LdnStateMachine \<Rightarrow> StateTransitionResult \<times> LdnStateMachine" where
  "lsm_CloseAccessPoint m =
     (if lsm_state m = Initialized then (AlreadyInState, m)
      else if lsm_state m \<noteq> AccessPoint \<and> lsm_state m \<noteq> AccessPointCreated then (InvalidTransition, m)
      else (Success, lsm_enter m Initialized))"

definition lsm_CreateNetwork :: "LdnStateMachine \<Rightarrow> StateTransitionResult \<times> LdnStateMachine" where
  "lsm_CreateNetwork m =
     (if lsm_state m = AccessPointCreated then (AlreadyInState, m)
      else if lsm_state m \<noteq> AccessPoint then (InvalidTransition, m)
      else (Success, lsm_enter m AccessPointCreated))"

definition lsm_DestroyNetwork :: "LdnStateMachine \<Rightarrow> StateTransitionResult \<times> LdnStateMachine" where
  "lsm_DestroyNetwork m =
     (if lsm_state m = AccessPoint then (AlreadyInState, m)
      else if lsm_state m \<noteq> AccessPointCreated then (InvalidTransition, m)
      else (Success, lsm_enter m AccessPoint))"

definition lsm_OpenStation :: "LdnStateMachine \<Rightarrow> StateTransitionResult \<times> LdnStateMachine" where
  "lsm_OpenStation m =
     (if lsm_state m = Station then (AlreadyInState, m)
      else if lsm_state m \<noteq> Initialized then (InvalidTransition, m)
      else (Success, lsm_enter m Station))"

definition lsm_CloseStation :: "LdnStateMachine \<Rightarrow> StateTransitionResult \<times> LdnStateMachine" where
  "lsm_CloseStation m =
     (if lsm_state m = Initialized then (AlreadyInState, m)
      else if lsm_state m \<noteq> Station \<and> lsm_state m \<noteq> StationConnected then (InvalidTransition, m)
      else (Success, lsm_enter m Initialized))"

definition lsm_Connect :: "LdnStateMachine \<Rightarrow> StateTransitionResult \<times> LdnStateMachine" where
  "lsm_Connect m =
     (if lsm_state m = StationConnected then (AlreadyInState, m)
      else if lsm_state m \<noteq> Station then (InvalidTransition, m)
      else (Success, lsm_enter m StationConnected))"

definition lsm_Disconnect :: "LdnStateMachine \<Rightarrow> StateTransitionResult \<times> LdnStateMachine" where
  "lsm_Disconnect m =
     (if lsm_state m = Station then (AlreadyInState, m)
      else if lsm_state m \<noteq> StationConnected then (InvalidTransition, m)
      else (Success, lsm_enter m Station))"

definition lsm_SetError :: "LdnStateMachine \<Rightarrow> StateTransitionResult \<times> LdnStateMachine" where
  "lsm_SetError m =
     (if lsm_state m = CommError then (AlreadyInState, m) else (Success, lsm_enter m CommError))"

definition lsm_IsValidTransition :: "CommState \<Rightarrow> CommState \<Rightarrow> bool" where
  "lsm_IsValidTransition from to \<longleftrightarrow>
     (if to = CommError \<or> to = CommNone then True
      else case from of
        CommNone \<Rightarrow> to = Initialized
      | Initialized \<Rightarrow> to = AccessPoint \<or> to = Station
      | AccessPoint \<Rightarrow> to = AccessPointCreated \<or> to = Initialized
      | AccessPointCreated \<Rightarrow> to = AccessPoint \<or> to = Initialized
      | Station \<Rightarrow> to = StationConnected \<or> to = Initialized
      | StationConnected \<Rightarrow> to = Station \<or> to = Initialized
      | CommError \<Rightarrow> to = Initialized)"

definition lsm_TransitionTo :: "LdnStateMachine \<Rightarrow> CommState \<Rightarrow> StateTransitionResult \<times> LdnStateMachine" where
  "lsm_TransitionTo m new_state =
     (if lsm_state m = new_state then (AlreadyInState, m)
      else if \<not> lsm_IsValidTransition (lsm_state m) new_state then (InvalidTransition, m)
      else (Success, lsm_enter m new_state))"

subsection \<open>The diagram\<close>

datatype ldn_op = OpInitialize | OpFinalize | OpOpenAccessPoint | OpCloseAccessPoint | OpCreateNetwork
  | OpDestroyNetwork | OpOpenStation | OpCloseStation | OpConnect | OpDisconnect | OpSetError

fun lsm_apply :: "LdnStateMachine \<Rightarrow> ldn_op \<Rightarrow> StateTransitionResult \<times> LdnStateMachine" where
  "lsm_apply m OpInitialize = lsm_Initialize m"
| "lsm_apply m OpFinalize = lsm_Finalize m"
| "lsm_apply m OpOpenAccessPoint = lsm_OpenAccessPoint m"
| "lsm_apply m OpCloseAccessPoint = lsm_CloseAccessPoint m"
| "lsm_apply m OpCreateNetwork = lsm_CreateNetwork m"
| "lsm_apply m OpDestroyNetwork = lsm_DestroyNetwork m"
| "lsm_apply m OpOpenStation = lsm_OpenStation m"
| "lsm_apply m OpCloseStation = lsm_CloseStation m"
| "lsm_apply m OpConnect = lsm_Connect m"
| "lsm_apply m OpDisconnect = lsm_Disconnect m"
| "lsm_apply m OpSetError = lsm_SetError m"

inductive ldn_step :: "CommState \<Rightarrow> ldn_op \<Rightarrow> CommState \<Rightarrow> bool" where
  "ldn_step CommNone OpInitialize Initialized"
| "s \<noteq> CommNone \<Longrightarrow> ldn_step s OpFinalize CommNone"
| "ldn_step Initialized OpOpenAccessPoint AccessPoint"
| "s \<in> {AccessPoint, AccessPointCreated} \<Longrightarrow> ldn_step s OpCloseAccessPoint Initialized"
| "ldn_step AccessPoint OpCreateNetwork AccessPointCreated"
| "ldn_step AccessPointCreated OpDestroyNetwork AccessPoint"
| "ldn_step Initialized OpOpenStation Station"
| "s \<in> {Station, StationConnected} \<Longrightarrow> ldn_step s OpCloseStation Initialized"
| "ldn_step Station OpConnect StationConnected"
| "ldn_step StationConnected OpDisconnect Station"
| "s \<noteq> CommError \<Longrightarrow> ldn_step s OpSetError CommError"

inductive_simps ldn_step_simps:
  "ldn_step s OpInitialize t" "ldn_step s OpFinalize t" "ldn_step s OpOpenAccessPoint t"
  "ldn_step s OpCloseAccessPoint t" "ldn_step s OpCreateNetwork t" "ldn_step s OpDestroyNetwork t"
  "ldn_step s OpOpenStation t" "ldn_step s OpCloseStation t" "ldn_step s OpConnect t"
  "ldn_step s OpDisconnect t" "ldn_step s OpSetError t"

lemmas lsm_defs = lsm_Initialize_def lsm_Finalize_def lsm_OpenAccessPoint_def lsm_CloseAccessPoint_def
  lsm_CreateNetwork_def lsm_DestroyNetwork_def lsm_OpenStation_def lsm_CloseStation_def lsm_Connect_def
  lsm_Disconnect_def lsm_SetError_def

lemma lsm_enter_fields [simp]:
  "lsm_state (lsm_enter m s) = s" "lsm_event (lsm_enter m s)" "lsm_callback (lsm_enter m s) = lsm_callback m"
  "lsm_calls (lsm_enter m s) = (if lsm_callback m then lsm_calls m @ [(lsm_state m, s)] else lsm_calls m)"
  by (simp_all add: lsm_enter_def lsm_SignalStateChange_def Let_def)

text \<open>Every method either enters the state its step leads to or changes nothing.\<close>

lemma lsm_apply_step:
  "(\<exists>t. ldn_step (lsm_state m) a t \<and> lsm_apply m a = (Success, lsm_enter m t)) \<or>
   (\<nexists>t. ldn_step (lsm_state m) a t) \<and> fst (lsm_apply m a) \<noteq> Success \<and> snd (lsm_apply m a) = m"
  by (cases a; cases "lsm_state m") (simp_all add: lsm_defs ldn_step_simps)

lemma ldn_step_functional: "ldn_step s a t \<Longrightarrow> ldn_step s a u \<Longrightarrow> t = u"
  by (cases a) (auto simp: ldn_step_simps)

lemma ldn_step_valid: "ldn_step s a t \<Longrightarrow> s \<noteq> t \<and> lsm_IsValidTransition s t"
  by (cases a; cases s) (auto simp: ldn_step_simps lsm_IsValidTransition_def)

lemma step_TransitionTo: "ldn_step (lsm_state m) a t \<Longrightarrow> lsm_TransitionTo m t = (Success, lsm_enter m t)"
  by (auto simp: lsm_TransitionTo_def dest: ldn_step_valid)

definition lsm_run :: "LdnStateMachine \<Rightarrow> ldn_op list \<Rightarrow> LdnStateMachine" where
  "lsm_run = foldl (\<lambda>m a. snd (lsm_apply m a))"

lemma lsm_run_simps [simp]:
  "lsm_run m [] = m" "lsm_run m (a # as) = lsm_run (snd (lsm_apply m a)) as"
  "lsm_run m (as @ [a]) = snd (lsm_apply (lsm_run m as) a)"
  by (simp_all add: lsm_run_def)

text \<open>The state tells which operations a run has performed, in which order.\<close>

fun ldn_trail :: "CommState \<Rightarrow> ldn_op list" where
  "ldn_trail CommNone = []"
| "ldn_trail Initialized = [OpInitialize]"
| "ldn_trail AccessPoint = [OpInitialize, OpOpenAccessPoint]"
| "ldn_trail AccessPointCreated = [OpInitialize, OpOpenAccessPoint, OpCreateNetwork]"
| "ldn_trail Station = [OpInitialize, OpOpenStation]"
| "ldn_trail StationConnected = [OpInitialize, OpOpenStation, OpConnect]"
| "ldn_trail CommError = [OpSetError]"

lemma subseq_trail_step:
  assumes "subseq (ldn_trail s) as" and "ldn_step s a t"
  shows "subseq (ldn_trail t) (as @ [a])"
proof -
  have ext: "subseq xs as \<Longrightarrow> subseq xs (as @ [a])" and snoc: "subseq xs as \<Longrightarrow> subseq (xs @ [a]) (as @ [a])" for xs
    by (simp_all add: list_emb_prefix list_emb_append_mono)
  have drop: "subseq (xs @ ys) as \<Longrightarrow> subseq xs as" for xs ys
    using list_emb_prefix [of "(=)" xs xs ys] by (meson subseq_order.order_refl subseq_order.order_trans)
  from assms(2) show ?thesis
    using assms(1)
  proof cases
    case 1
    then show ?thesis using snoc [of "[]"] by simp
  next
    case 3
    then show ?thesis using snoc assms(1) by fastforce
  next
    case 4
    then show ?thesis using ext drop [of "[OpInitialize]"] assms(1) by auto
  next
    case 5
    then show ?thesis using snoc assms(1) by fastforce
  next
    case 6
    then show ?thesis using ext drop [of "[OpInitialize, OpOpenAccessPoint]" "[OpCreateNetwork]"] assms(1) by auto
  next
    case 7
    then show ?thesis using snoc assms(1) by fastforce
  next
    case 8
    then show ?thesis using ext drop [of "[OpInitialize]"] assms(1) by auto
  next
    case 9
    then show ?thesis using snoc assms(1) by fastforce
  next
    case 10
    then show ?thesis using ext drop [of "[OpInitialize, OpOpenStation]" "[OpConnect]"] assms(1) by auto
  next
    case 11
    then show ?thesis using snoc [of "[]"] by simp
  qed simp
qed


lemma lsm_run_trail: "subseq (ldn_trail (lsm_state (lsm_run lsm_new as))) as"
proof (induction as rule: rev_induct)
  case Nil
  then show ?case by (simp add: lsm_new_def)
next
  case (snoc a as)
  from lsm_apply_step [of "lsm_run lsm_new as" a] show ?case
    using subseq_trail_step [OF snoc] list_emb_prefix [OF snoc] by auto
qed

text \<open>The calls of the callback form a path through the diagram.\<close>

fun comm_path :: "CommState \<Rightarrow> (CommState \<times> CommState) list \<Rightarrow> CommState \<Rightarrow> bool" where
  "comm_path s [] t \<longleftrightarrow> s = t"
| "comm_path s ((a, b) # cs) t \<longleftrightarrow> a = s \<and> (\<exists>x. ldn_step a x b) \<and> comm_path b cs t"

lemma comm_path_snoc: "comm_path s cs t \<Longrightarrow> ldn_step t x u \<Longrightarrow> comm_path s (cs @ [(t, u)]) u"
  by (induction s cs t rule: comm_path.induct) auto

lemma lsm_run_callback [simp]: "lsm_callback (lsm_run m as) = lsm_callback m"
proof (induction as rule: rev_induct)
  case (snoc a as)
  then show ?case
    using lsm_apply_step [of "lsm_run m as" a] by auto
qed simp

lemma lsm_run_path:
  assumes "lsm_callback m" and "comm_path s (lsm_calls m) (lsm_state m)"
  shows "comm_path s (lsm_calls (lsm_run m as)) (lsm_state (lsm_run m as))"
proof (induction as rule: rev_induct)
  case (snoc a as)
  from lsm_apply_step [of "lsm_run m as" a] show ?case
    using snoc assms(1) comm_path_snoc by auto
qed (use assms in simp)

subsection \<open>Properties\<close>

text \<open>
  C29: every method of the LDN state machine does exactly the steps of its diagram: it succeeds iff
  the diagram has a step for it in the current state, then it enters that state, signals
  the event and is one of the transitions the class itself allows; otherwise nothing changes.
\<close>

theorem ldn_operations_follow_diagram:
  "(fst (lsm_apply m a) = Success \<longleftrightarrow> (\<exists>t. ldn_step (lsm_state m) a t)) \<and>
   (if fst (lsm_apply m a) = Success
    then ldn_step (lsm_state m) a (lsm_state (snd (lsm_apply m a))) \<and> lsm_event (snd (lsm_apply m a)) \<and>
      lsm_apply m a = lsm_TransitionTo m (lsm_state (snd (lsm_apply m a)))
    else snd (lsm_apply m a) = m)"
  using lsm_apply_step [of m a]
proof (elim disjE exE conjE)
  fix t
  assume "ldn_step (lsm_state m) a t" and "lsm_apply m a = (Success, lsm_enter m t)"
  then show ?thesis
    using step_TransitionTo by auto
qed auto

text \<open>
  a network is active only after the service was initialised, opened in the matching mode and
  the network created or joined, in this order; and the calls of the state callback form a
  connected path of the diagram from the start to the current state.
\<close>

theorem network_active_only_in_order:
  "(lsm_IsNetworkActive (lsm_run lsm_new as) \<longrightarrow>
      subseq [OpInitialize, OpOpenAccessPoint, OpCreateNetwork] as \<or> subseq [OpInitialize, OpOpenStation, OpConnect] as) \<and>
   (let m = lsm_run (lsm_SetStateCallback lsm_new True) as in comm_path CommNone (lsm_calls m) (lsm_state m))"
proof -
  have "comm_path CommNone (lsm_calls (lsm_SetStateCallback lsm_new True)) (lsm_state (lsm_SetStateCallback lsm_new True))"
    by (simp add: lsm_SetStateCallback_def lsm_new_def)
  then show ?thesis
    using lsm_run_trail [of as] lsm_run_path [of "lsm_SetStateCallback lsm_new True" CommNone as]
    by (auto simp: lsm_IsNetworkActive_def lsm_SetStateCallback_def)
qed

theorem network_active_only_in_order_witness:
  "subseq [OpInitialize, OpOpenStation, OpConnect] [OpInitialize, OpOpenStation, OpCreateNetwork, OpConnect] \<and>
   lsm_IsNetworkActive (lsm_run lsm_new [OpInitialize, OpOpenStation, OpCreateNetwork, OpConnect])"
proof -
  have "lsm_IsNetworkActive (lsm_run lsm_new [OpInitialize, OpOpenStation, OpCreateNetwork, OpConnect])"
    by (simp add: lsm_defs lsm_new_def lsm_IsNetworkActive_def)
  then show ?thesis
    using network_active_only_in_order [of "[OpInitialize, OpOpenStation, OpCreateNetwork, OpConnect]"] by simp
qed

end
