(* ===== verification/Node_Mapper.thy ===== *)
theory Node_Mapper
  imports Protocol_Types
begin

text \<open>
  The table from LDN node numbers to addresses of \<^verbatim>\<open>ldn/ldn_node_mapper.hpp\<close> and \<^verbatim>\<open>.cpp\<close>, used to route
  proxy traffic. The table is an array of eight entries indexed by node number. The network
  description has the layout of \<open>NetworkInfo\<close>; its node numbers are signed bytes, and the update
  indexes the table with them unchecked: an index outside the array is the result \<^verbatim>\<open>None\<close> of the model.
\<close>

definition MaxNodes :: nat where "MaxNodes = 8"
definition BroadcastNodeId :: u32 where "BroadcastNodeId = 0xFFFFFFFF"

record NodeEntry =
  ne_node_id :: u32
  ne_ipv4_address :: u32
  ne_is_connected :: bool

record LdnNodeMapper =
  nm_nodes :: "NodeEntry list"
  nm_local_node_id :: u8

definition nm_new :: LdnNodeMapper where
  "nm_new = \<lparr>nm_nodes = map (\<lambda>i. \<lparr>ne_node_id = word_of_nat i, ne_ipv4_address = 0, ne_is_connected = False\<rparr>) [0..<MaxNodes],
     nm_local_node_id = 0xFF\<rparr>"

definition nm_AddNode :: "LdnNodeMapper \<Rightarrow> u32 \<Rightarrow> u32 \<Rightarrow> LdnNodeMapper" where
  "nm_AddNode m node_id ipv4 =
     (if unat node_id \<ge> MaxNodes then m
      else m\<lparr>nm_nodes := (nm_nodes m)[unat node_id :=
        (nm_nodes m ! unat node_id)\<lparr>ne_ipv4_address := ipv4, ne_is_connected := True\<rparr>]\<rparr>)"

definition nm_RemoveNode :: "LdnNodeMapper \<Rightarrow> u32 \<Rightarrow> LdnNodeMapper" where
  "nm_RemoveNode m node_id =
     (if unat node_id \<ge> MaxNodes then m
      else m\<lparr>nm_nodes := (nm_nodes m)[unat node_id := (nm_nodes m ! unat node_id)\<lparr>ne_is_connected := False\<rparr>]\<rparr>)"

definition nm_IsNodeConnected :: "LdnNodeMapper \<Rightarrow> u32 \<Rightarrow> bool" where
  "nm_IsNodeConnected m node_id =
     (if unat node_id \<ge> MaxNodes then False else ne_is_connected (nm_nodes m ! unat node_id))"

definition nm_GetNodeIp :: "LdnNodeMapper \<Rightarrow> u32 \<Rightarrow> u32" where
  "nm_GetNodeIp m node_id =
     (if unat node_id \<ge> MaxNodes then 0 else ne_ipv4_address (nm_nodes m ! unat node_id))"

definition nm_GetConnectedCount :: "LdnNodeMapper \<Rightarrow> nat" where
  "nm_GetConnectedCount m =
     foldl (\<lambda>count i. if ne_is_connected (nm_nodes m ! i) then count + 1 else count) 0 [0..<MaxNodes]"

definition nm_clear_nodes :: "LdnNodeMapper \<Rightarrow> LdnNodeMapper" where
  "nm_clear_nodes m = m\<lparr>nm_nodes := map (\<lambda>e. e\<lparr>ne_ipv4_address := 0, ne_is_connected := False\<rparr>) (nm_nodes m)\<rparr>"

definition nm_Clear :: "LdnNodeMapper \<Rightarrow> LdnNodeMapper" where
  "nm_Clear m = (nm_clear_nodes m)\<lparr>nm_local_node_id := 0xFF\<rparr>"

definition nm_SetLocalNodeId :: "LdnNodeMapper \<Rightarrow> u8 \<Rightarrow> LdnNodeMapper" where
  "nm_SetLocalNodeId m node_id = m\<lparr>nm_local_node_id := node_id\<rparr>"

text \<open>One round of the update loop; the index is the signed node number of the description.\<close>

definition nm_put :: "LdnNodeMapper \<Rightarrow> NodeInfo \<Rightarrow> LdnNodeMapper option" where
  "nm_put m node =
     (if node_is_connected node = 0 then Some m
      else let i = sint (node_node_id node) in
        if 0 \<le> i \<and> nat i < MaxNodes
        then Some (m\<lparr>nm_nodes := (nm_nodes m)[nat i :=
          (nm_nodes m ! nat i)\<lparr>ne_ipv4_address := node_ipv4_address node, ne_is_connected := True\<rparr>]\<rparr>)
        else None)"

fun nm_put_all :: "LdnNodeMapper \<Rightarrow> NodeInfo list \<Rightarrow> LdnNodeMapper option" where
  "nm_put_all m [] = Some m"
| "nm_put_all m (node # nodes) = (case nm_put m node of Some m' \<Rightarrow> nm_put_all m' nodes | None \<Rightarrow> None)"

definition nm_UpdateFromNetworkInfo :: "LdnNodeMapper \<Rightarrow> NetworkInfo \<Rightarrow> LdnNodeMapper option" where
  "nm_UpdateFromNetworkInfo m info =
     nm_put_all (nm_clear_nodes m)
       (take (min (unat (ldn_node_count (nwi_ldn info))) MaxNodes) (ldn_nodes (nwi_ldn info)))"

definition nm_ShouldRouteToNode :: "LdnNodeMapper \<Rightarrow> u32 \<Rightarrow> u32 \<Rightarrow> u32 \<Rightarrow> bool" where
  "nm_ShouldRouteToNode m dest_node_id source_node_id target_node_id =
     (if unat target_node_id \<ge> MaxNodes then False
      else if \<not> ne_is_connected (nm_nodes m ! unat target_node_id) then False
      else if dest_node_id = BroadcastNodeId then target_node_id \<noteq> source_node_id
      else dest_node_id = target_node_id)"

subsection \<open>The table as a map\<close>

text \<open>What the table means: the address of every connected node.\<close>

definition nm_inv :: "LdnNodeMapper \<Rightarrow> bool" where
  "nm_inv m \<longleftrightarrow> length (nm_nodes m) = MaxNodes"

definition nm_map :: "LdnNodeMapper \<Rightarrow> nat \<Rightarrow> u32 option" where
  "nm_map m i = (if i < MaxNodes \<and> ne_is_connected (nm_nodes m ! i) then Some (ne_ipv4_address (nm_nodes m ! i)) else None)"

lemma nm_new_map [simp]: "nm_inv nm_new" "nm_map nm_new = Map.empty"
  by (auto simp: nm_inv_def nm_new_def nm_map_def fun_eq_iff)

lemma nm_AddNode_map [simp]:
  assumes "nm_inv m"
  shows "nm_inv (nm_AddNode m i ip)"
    "nm_map (nm_AddNode m i ip) = (if unat i < MaxNodes then (nm_map m)(unat i \<mapsto> ip) else nm_map m)"
  using assms by (auto simp: nm_inv_def nm_AddNode_def nm_map_def fun_eq_iff nth_list_update)

lemma nm_RemoveNode_map [simp]:
  assumes "nm_inv m"
  shows "nm_inv (nm_RemoveNode m i)" "nm_map (nm_RemoveNode m i) = (nm_map m)(unat i := None)"
  using assms by (auto simp: nm_inv_def nm_RemoveNode_def nm_map_def fun_eq_iff nth_list_update)

lemma nm_clear_map [simp]:
  assumes "nm_inv m"
  shows "nm_inv (nm_clear_nodes m)" "nm_map (nm_clear_nodes m) = Map.empty"
  using assms by (auto simp: nm_inv_def nm_clear_nodes_def nm_map_def fun_eq_iff)

lemma nm_IsNodeConnected_map: "nm_IsNodeConnected m i \<longleftrightarrow> nm_map m (unat i) \<noteq> None"
  by (simp add: nm_IsNodeConnected_def nm_map_def)

lemma nm_GetNodeIp_map: "nm_map m (unat i) = Some ip \<Longrightarrow> nm_GetNodeIp m i = ip"
  by (simp add: nm_GetNodeIp_def nm_map_def split: if_splits)

lemma foldl_count: "foldl (\<lambda>c x. if P x then c + 1 else c) n xs = n + length (filter P xs)"
  by (induction xs arbitrary: n) auto

lemma nm_GetConnectedCount_map: "nm_GetConnectedCount m = card (dom (nm_map m))"
proof -
  have "nm_GetConnectedCount m = length (filter (\<lambda>i. ne_is_connected (nm_nodes m ! i)) [0..<MaxNodes])"
    unfolding nm_GetConnectedCount_def by (simp add: foldl_count [where P = "\<lambda>i. ne_is_connected (nm_nodes m ! i)"])
  also have "\<dots> = card (set (filter (\<lambda>i. ne_is_connected (nm_nodes m ! i)) [0..<MaxNodes]))"
    by (simp only: distinct_card [OF distinct_filter [OF distinct_upt]])
  also have "set (filter (\<lambda>i. ne_is_connected (nm_nodes m ! i)) [0..<MaxNodes]) = dom (nm_map m)"
    by (auto simp: nm_map_def dom_def split: if_splits)
  finally show ?thesis .
qed

text \<open>The connected nodes of a list, the last entry of a number winning.\<close>

definition node_ok :: "NodeInfo \<Rightarrow> bool" where
  "node_ok node \<longleftrightarrow> node_is_connected node = 0 \<or> 0 \<le> sint (node_node_id node) \<and> nat (sint (node_node_id node)) < MaxNodes"

definition node_bindings :: "NodeInfo list \<Rightarrow> (nat \<times> u32) list" where
  "node_bindings nodes = map (\<lambda>n. (nat (sint (node_node_id n)), node_ipv4_address n)) (filter (\<lambda>n. node_is_connected n \<noteq> 0) nodes)"

lemma nm_put_map:
  assumes "nm_inv m" and "node_ok node"
  obtains m' where "nm_put m node = Some m'" "nm_inv m'" "nm_map m' = nm_map m ++ map_of (node_bindings [node])"
    "nm_local_node_id m' = nm_local_node_id m"
proof (cases "node_is_connected node = 0")
  case True
  then show ?thesis
    using that [of m] assms(1) by (simp add: nm_put_def node_bindings_def)
next
  case False
  define i where "i = nat (sint (node_node_id node))"
  define m' where "m' = m\<lparr>nm_nodes := (nm_nodes m)[i :=
      (nm_nodes m ! i)\<lparr>ne_ipv4_address := node_ipv4_address node, ne_is_connected := True\<rparr>]\<rparr>"
  have i: "i < MaxNodes" "0 \<le> sint (node_node_id node)"
    using assms(2) False by (simp_all add: node_ok_def i_def)
  show ?thesis
  proof (rule that [of m'])
    show "nm_put m node = Some m'"
      using False i by (simp add: nm_put_def i_def m'_def Let_def)
    show "nm_inv m'" "nm_local_node_id m' = nm_local_node_id m"
      using assms(1) by (simp_all add: m'_def nm_inv_def)
    show "nm_map m' = nm_map m ++ map_of (node_bindings [node])"
      using assms(1) i False
      by (auto simp: nm_map_def m'_def nm_inv_def node_bindings_def fun_eq_iff i_def [symmetric])
  qed
qed

lemma nm_put_all_map:
  "nm_inv m \<Longrightarrow> list_all node_ok nodes \<Longrightarrow>
   \<exists>m'. nm_put_all m nodes = Some m' \<and> nm_inv m' \<and> nm_map m' = nm_map m ++ map_of (rev (node_bindings nodes))"
proof (induction nodes arbitrary: m)
  case (Cons node nodes)
  obtain m1 where m1: "nm_put m node = Some m1" "nm_inv m1" "nm_map m1 = nm_map m ++ map_of (node_bindings [node])"
    using nm_put_map [OF Cons.prems(1)] Cons.prems(2) by auto
  have "node_bindings (node # nodes) = node_bindings [node] @ node_bindings nodes"
    by (simp add: node_bindings_def)
  then show ?case
    using Cons.IH [OF m1(2)] Cons.prems(2) m1(1,3) by (auto simp: node_bindings_def)
qed (simp add: node_bindings_def)

lemma nm_put_all_out_of_range:
  "nm_inv m \<Longrightarrow> \<not> list_all node_ok nodes \<Longrightarrow> nm_put_all m nodes = None"
proof (induction nodes arbitrary: m)
  case (Cons node nodes)
  show ?case
  proof (cases "node_ok node")
    case True
    then show ?thesis
      using nm_put_map [OF Cons.prems(1) True] Cons.IH Cons.prems(2) by fastforce
  next
    case False
    then have "nm_put m node = None"
      by (auto simp: nm_put_def node_ok_def Let_def)
    then show ?thesis by simp
  qed
qed simp

subsection \<open>Properties\<close>

text \<open>
  An update from a network description replaces the table by exactly the connected nodes the
  description lists among its first \<open>min nodeCount 8\<close> entries; it writes outside the table iff one of
  these entries is connected and has a node number outside 0 to 7.
\<close>

theorem node_table_follows_network_info:
  assumes "nm_inv m"
  shows "let nodes = take (min (unat (ldn_node_count (nwi_ldn info))) MaxNodes) (ldn_nodes (nwi_ldn info))
    in case nm_UpdateFromNetworkInfo m info of
         Some m' \<Rightarrow> list_all node_ok nodes \<and> nm_map m' = map_of (rev (node_bindings nodes)) \<and> nm_inv m' \<and>
           nm_GetConnectedCount m' = card (set (map fst (node_bindings nodes)))
       | None \<Rightarrow> \<not> list_all node_ok nodes"
proof -
  let ?nodes = "take (min (unat (ldn_node_count (nwi_ldn info))) MaxNodes) (ldn_nodes (nwi_ldn info))"
  show ?thesis
  proof (cases "list_all node_ok ?nodes")
    case True
    obtain m' where "nm_put_all (nm_clear_nodes m) ?nodes = Some m'" "nm_inv m'" "nm_map m' = map_of (rev (node_bindings ?nodes))"
      using nm_put_all_map [of "nm_clear_nodes m" ?nodes] assms True by auto
    moreover have "dom (map_of (rev (node_bindings ?nodes))) = set (map fst (node_bindings ?nodes))"
      by (simp add: dom_map_of_conv_image_fst)
    ultimately show ?thesis
      using True by (simp add: nm_UpdateFromNetworkInfo_def nm_GetConnectedCount_map)
  next
    case False
    then show ?thesis
      using nm_put_all_out_of_range [of "nm_clear_nodes m" ?nodes] assms by (simp add: nm_UpdateFromNetworkInfo_def)
  qed
qed

definition two_node_info :: NetworkInfo where
  "two_node_info = (let blank = NetworkInfo_of_bytes (replicate 1152 0); node = NodeInfo_of_bytes (replicate 64 0) in
     blank\<lparr>nwi_ldn := (nwi_ldn blank)\<lparr>ldn_node_count := 2, ldn_nodes :=
       [node\<lparr>node_node_id := 0, node_is_connected := 1, node_ipv4_address := 0x0A720001\<rparr>,
        node\<lparr>node_node_id := 3, node_is_connected := 1, node_ipv4_address := 0x0A720002\<rparr>]\<rparr>\<rparr>)"

theorem node_table_follows_network_info_witness:
  "case nm_UpdateFromNetworkInfo nm_new two_node_info of
     Some m' \<Rightarrow> nm_map m' = [0 \<mapsto> 0x0A720001, 3 \<mapsto> 0x0A720002] \<and> nm_GetConnectedCount m' = 2
   | None \<Rightarrow> False"
proof -
  let ?nodes = "take (min (unat (ldn_node_count (nwi_ldn two_node_info))) MaxNodes) (ldn_nodes (nwi_ldn two_node_info))"
  have nodes: "?nodes = ldn_nodes (nwi_ldn two_node_info)"
    by (simp add: two_node_info_def MaxNodes_def Let_def)
  have ok: "list_all node_ok ?nodes" and b: "node_bindings ?nodes = [(0, 0x0A720001), (3, 0x0A720002)]"
    unfolding nodes by (simp_all add: two_node_info_def node_ok_def node_bindings_def MaxNodes_def Let_def)
  have inv: "nm_inv nm_new"
    by simp
  have "card {0 :: nat, 3} = 2"
    by simp
  then show ?thesis
    using node_table_follows_network_info [OF inv, of two_node_info] ok b
    by (auto simp: Let_def split: option.splits)
qed

text \<open>
  routing follows the table: a broadcast goes to every connected node but its source, a packet
  for one node goes to that node if it is connected and to no other.
\<close>

theorem routing_follows_table:
  "{t. nm_ShouldRouteToNode m BroadcastNodeId source t} = {t. nm_map m (unat t) \<noteq> None} - {source} \<and>
   (dest \<noteq> BroadcastNodeId \<longrightarrow>
    {t. nm_ShouldRouteToNode m dest source t} = (if nm_map m (unat dest) = None then {} else {dest}))"
  by (auto simp: nm_ShouldRouteToNode_def nm_map_def)

theorem routing_follows_table_witness:
  "{t. nm_ShouldRouteToNode (nm_AddNode nm_new 5 7) 5 1 t} = {5}"
  using routing_follows_table [of "nm_AddNode nm_new 5 7" 1 5] by (simp add: BroadcastNodeId_def MaxNodes_def)

end
