(* ===== verification/Ring.thy ===== *)
theory Ring
  imports Prelude "HOL-Library.Sublist"
begin

text \<open>
  Ring queues over a fixed array, as the packet queues of the proxy use them: an array of \<open>n\<close>
  slots, the index of the oldest element and the number of elements. \<open>ring_list\<close> is the queue such
  a ring stands for; the lemmas say what pushing, popping and the in-place compaction loop
  do to it.
\<close>

definition ring_list :: "nat \<Rightarrow> 'a list \<Rightarrow> nat \<Rightarrow> nat \<Rightarrow> 'a list" where
  "ring_list n arr head count = map (\<lambda>i. arr ! ((head + i) mod n)) [0..<count]"

lemma length_ring_list [simp]: "length (ring_list n arr head count) = count"
  by (simp add: ring_list_def)

lemma ring_list_0 [simp]: "ring_list n arr head 0 = []"
  by (simp add: ring_list_def)

lemma nth_ring_list: "i < count \<Longrightarrow> ring_list n arr head count ! i = arr ! ((head + i) mod n)"
  by (simp add: ring_list_def)

lemma ring_index_eq:
  assumes "i < n" and "j < n" and "(r + i) mod n = (r + j) mod (n :: nat)"
  shows "i = j"
proof -
  have less: "k = l" if "k \<le> l" "l < n" "(r + k) mod n = (r + l) mod n" for k l
  proof -
    have "n dvd (r + l) - (r + k)"
      using that mod_eq_dvd_iff_nat [of "r + k" "r + l" n] by simp
    then have "n dvd l - k"
      by simp
    then show ?thesis
      using that(1,2) nat_dvd_not_less [of "l - k" n] by linarith
  qed
  show ?thesis
    using less [of i j] less [of j i] assms by linarith
qed

lemma ring_push:
  assumes "count < n" and "n \<le> length arr" and "tail = (head + count) mod n"
  shows "ring_list n (arr[tail := x]) head (Suc count) = ring_list n arr head count @ [x]"
proof -
  have "tail \<noteq> (head + i) mod n" if "i < count" for i
    using ring_index_eq [of count n i head] that assms(1,3) by auto
  moreover have "tail < length arr"
    using assms by (metis mod_less_divisor not_less_zero gr0I order_less_le_trans)
  ultimately show ?thesis
    by (intro nth_equalityI) (auto simp: ring_list_def nth_append less_Suc_eq assms(3))
qed

lemma ring_pop:
  assumes "0 < count" and "head < n"
  shows "ring_list n arr head count = arr ! head # ring_list n arr ((head + 1) mod n) (count - 1)"
proof -
  obtain k where k: "count = Suc k"
    using assms(1) gr0_implies_Suc by blast
  have "[0..<Suc k] = 0 # map Suc [0..<k]"
    by (simp add: upt_conv_Cons map_Suc_upt)
  then show ?thesis
    using assms(2) k by (simp add: ring_list_def mod_simps)
qed

lemma ring_pop_tail:
  assumes "0 < count"
  shows "((head + 1) mod n + (count - 1)) mod n = (head + count) mod (n :: nat)"
  using assms by (simp only: mod_add_left_eq) simp

subsection \<open>In-place compaction\<close>

text \<open>
  The loop that visits every element once from the oldest on, and moves those to keep to the front: \<open>step\<close>
  says whether an element is kept and updates a state on the way.
\<close>

fun ring_sweep :: "nat \<Rightarrow> ('a \<Rightarrow> 's \<Rightarrow> bool \<times> 's) \<Rightarrow> 'a list \<Rightarrow> nat \<Rightarrow> nat \<Rightarrow> nat \<Rightarrow> nat \<Rightarrow> 's \<Rightarrow> 'a list \<times> nat \<times> nat \<times> 's" where
  "ring_sweep n step arr read_idx write_idx 0 kept s = (arr, write_idx, kept, s)"
| "ring_sweep n step arr read_idx write_idx (Suc remaining) kept s =
     (let pkt = arr ! read_idx; (keep, s') = step pkt s in
      if keep
      then ring_sweep n step (if write_idx \<noteq> read_idx then arr[write_idx := pkt] else arr)
        ((read_idx + 1) mod n) ((write_idx + 1) mod n) remaining (kept + 1) s'
      else ring_sweep n step arr ((read_idx + 1) mod n) write_idx remaining kept s')"

lemma ring_list_update_outside:
  assumes "kept \<le> i" and "i + k < n"
  shows "ring_list n (arr[(h + kept) mod n := x]) ((h + Suc i) mod n) k = ring_list n arr ((h + Suc i) mod n) k"
proof (rule nth_equalityI)
  fix j
  assume "j < length (ring_list n (arr[(h + kept) mod n := x]) ((h + Suc i) mod n) k)"
  then have j: "j < k"
    by simp
  have "(h + kept) mod n \<noteq> (h + (Suc i + j)) mod n"
    using ring_index_eq [of kept n "Suc i + j" h] assms j by auto
  then show "ring_list n (arr[(h + kept) mod n := x]) ((h + Suc i) mod n) k ! j = ring_list n arr ((h + Suc i) mod n) k ! j"
    using j by (simp add: nth_ring_list mod_simps ac_simps)
qed simp

lemma ring_sweep_filter:
  assumes "\<And>x s. I s \<Longrightarrow> fst (step x s) = keep x" and "\<And>x s. I s \<Longrightarrow> I (snd (step x s))"
  shows "I s \<Longrightarrow> ring_sweep n step arr ((h + i) mod n) ((h + kept) mod n) k kept s = (arr', w', kept', s') \<Longrightarrow>
    kept \<le> i \<Longrightarrow> i + k \<le> n \<Longrightarrow> length arr = n \<Longrightarrow> set arr \<subseteq> A \<Longrightarrow> I s' \<and> set arr' \<subseteq> A \<and>
    ring_list n arr' h kept' = ring_list n arr h kept @ filter keep (ring_list n arr ((h + i) mod n) k) \<and>
    w' = (h + kept') mod n \<and> kept' \<le> kept + k \<and> length arr' = n \<and>
    s' = foldl (\<lambda>s x. snd (step x s)) s (ring_list n arr ((h + i) mod n) k)"
proof (induction k arbitrary: i kept arr s)
  case (Suc k)
  define pkt where "pkt = arr ! ((h + i) mod n)"
  have n: "0 < n" "(h + i) mod n < n"
    using Suc.prems(4) by simp_all
  have pop: "ring_list n arr ((h + i) mod n) (Suc k) = pkt # ring_list n arr ((h + Suc i) mod n) k"
    using ring_pop [of "Suc k" "(h + i) mod n" n arr] n(2) by (simp add: pkt_def mod_simps)
  obtain s1 where step: "step pkt s = (keep pkt, s1)"
    using assms(1) [OF Suc.prems(1), of pkt] by (cases "step pkt s") simp
  have inv: "I s1"
    using assms(2) [OF Suc.prems(1), of pkt] step by simp
  have mem: "pkt \<in> A"
    using Suc.prems(5,6) nth_mem [of "(h + i) mod n" arr] n(2) unfolding pkt_def by blast
  have idx: "((h + i) mod n + 1) mod n = (h + Suc i) mod n" "((h + kept) mod n + 1) mod n = (h + Suc kept) mod n"
    by (simp_all add: mod_simps)
  show ?case
  proof (cases "keep pkt")
    case True
    let ?arr = "arr[(h + kept) mod n := pkt]"
    have arr: "(if (h + kept) mod n \<noteq> (h + i) mod n then ?arr else arr) = ?arr"
      by (auto simp: pkt_def intro: list_update_id [symmetric])
    have run: "ring_sweep n step ?arr ((h + Suc i) mod n) ((h + Suc kept) mod n) k (Suc kept) s1 = (arr', w', kept', s')"
      using Suc.prems(2) True step idx arr unfolding ring_sweep.simps pkt_def [symmetric] Let_def step
      by (simp only: prod.case if_True Suc_eq_plus1)
    have push: "ring_list n ?arr h (Suc kept) = ring_list n arr h kept @ [pkt]"
      using ring_push [of kept n arr "(h + kept) mod n" h pkt] Suc.prems(3-5) by simp
    have rest: "ring_list n ?arr ((h + Suc i) mod n) k = ring_list n arr ((h + Suc i) mod n) k"
      using ring_list_update_outside [of kept i k n arr h pkt] Suc.prems(3,4) by simp
    have sub: "set ?arr \<subseteq> A"
      using set_update_subset_insert [of arr "(h + kept) mod n" pkt] mem Suc.prems(6) by auto
    show ?thesis
      using Suc.IH [OF inv run _ _ _ sub] Suc.prems(3-5) True step by (auto simp: pop push rest [simplified])
  next
    case False
    have run: "ring_sweep n step arr ((h + Suc i) mod n) ((h + kept) mod n) k kept s1 = (arr', w', kept', s')"
      using Suc.prems(2) False step idx by (simp add: pkt_def [symmetric])
    show ?thesis
      using Suc.IH [OF inv run] Suc.prems(3-6) False step by (auto simp: pop)
  qed
qed simp

subsection \<open>Queues that drop the oldest element\<close>

datatype 'm lossy_op = Arrive 'm | Take

fun arrivals :: "'m lossy_op list \<Rightarrow> 'm list" where
  "arrivals [] = []"
| "arrivals (Arrive m # ops) = m # arrivals ops"
| "arrivals (Take # ops) = arrivals ops"

text \<open>A run returns the messages taken and the final state.\<close>

fun lossy_run :: "('s \<Rightarrow> 'm \<Rightarrow> 's) \<Rightarrow> ('s \<Rightarrow> 'm option \<times> 's) \<Rightarrow> 's \<Rightarrow> 'm lossy_op list \<Rightarrow> 'm list \<times> 's" where
  "lossy_run put get s [] = ([], s)"
| "lossy_run put get s (Arrive m # ops) = lossy_run put get (put s m) ops"
| "lossy_run put get s (Take # ops) =
     (let (x, s1) = get s; (taken, s2) = lossy_run put get s1 ops
      in (case x of Some m \<Rightarrow> m # taken | None \<Rightarrow> taken, s2))"

text \<open>What a bounded buffer promises that makes room by dropping its oldest element.\<close>

locale lossy_buffer =
  fixes cap :: nat and queue :: "'s \<Rightarrow> 'm list" and ok :: "'s \<Rightarrow> bool" and clip :: "'m \<Rightarrow> 'm" and put :: "'s \<Rightarrow> 'm \<Rightarrow> 's"
  assumes put_ok: "ok s \<Longrightarrow> ok (put s m)"
    and put_law: "ok s \<Longrightarrow> queue (put s m) = (if length (queue s) < cap then queue s else tl (queue s)) @ [clip m]"
begin

lemma put_many:
  "ok s \<Longrightarrow> length (queue s) \<le> cap \<Longrightarrow> 0 < cap \<Longrightarrow> ok (foldl put s ms) \<and>
   queue (foldl put s ms) = drop (length (queue s) + length ms - cap) (queue s @ map clip ms)"
proof (induction ms arbitrary: s)
  case (Cons m ms)
  show ?case
  proof (cases "length (queue s) < cap")
    case True
    then show ?thesis
      using Cons.IH [of "put s m"] Cons.prems put_ok [of s m] put_law [of s m] by simp
  next
    case False
    then obtain x xs where q: "queue s = x # xs" "length xs + 1 = cap"
      using Cons.prems by (cases "queue s") auto
    then show ?thesis
      using Cons.IH [of "put s m"] Cons.prems put_ok [of s m] put_law [of s m] by simp
  qed
qed simp

end

text \<open>Such a buffer with a reader that takes the oldest element is a queue.\<close>

locale lossy_queue = lossy_buffer cap queue ok clip put
  for cap :: nat and queue :: "'s \<Rightarrow> 'm list" and ok :: "'s \<Rightarrow> bool" and clip :: "'m \<Rightarrow> 'm" and put :: "'s \<Rightarrow> 'm \<Rightarrow> 's" +
  fixes get :: "'s \<Rightarrow> 'm option \<times> 's"
  assumes get_empty: "ok s \<Longrightarrow> queue s = [] \<Longrightarrow> get s = (None, s)"
    and get_front: "ok s \<Longrightarrow> queue s = m # ms \<Longrightarrow> \<exists>s'. get s = (Some m, s') \<and> ok s' \<and> queue s' = ms"
begin

lemma get_cases:
  assumes "ok s" and "get s = (x, s')"
  shows "ok s' \<and> queue s = (case x of Some m \<Rightarrow> [m] | None \<Rightarrow> []) @ queue s'"
  using assms get_empty [of s] get_front [of s] by (cases "queue s") fastforce+

lemma lossy_run_subseq:
  "ok s \<Longrightarrow> lossy_run put get s ops = (taken, s') \<Longrightarrow>
   ok s' \<and> subseq (taken @ queue s') (queue s @ map clip (arrivals ops))"
proof (induction ops arbitrary: s taken)
  case (Cons a ops)
  show ?case
  proof (cases a)
    case (Arrive m)
    have q: "subseq (queue (put s m)) (queue s @ [clip m])"
      using put_law [OF Cons.prems(1), of m] by (cases "queue s") (auto intro: list_emb_append_mono)
    from Cons.IH [of "put s m" taken] have "ok s'" "subseq (taken @ queue s') (queue (put s m) @ map clip (arrivals ops))"
      using Cons.prems Arrive put_ok by auto
    moreover have "subseq (queue (put s m) @ map clip (arrivals ops)) ((queue s @ [clip m]) @ map clip (arrivals ops))"
      using q by (intro list_emb_append_mono) auto
    ultimately show ?thesis
      using Arrive by (auto intro: subseq_order.order_trans)
  next
    case Take
    obtain x s1 where x: "get s = (x, s1)"
      by fastforce
    obtain tk where tk: "lossy_run put get s1 ops = (tk, s')" "taken = (case x of Some m \<Rightarrow> m # tk | None \<Rightarrow> tk)"
      using Cons.prems(2) Take x by (auto split: prod.splits)
    show ?thesis
      using Cons.IH [OF _ tk(1)] get_cases [OF Cons.prems(1) x] tk(2) Take by (auto split: option.splits)
  qed
qed simp

lemma lossy_run_lossless:
  "ok s \<Longrightarrow> lossy_run put get s ops = (taken, s') \<Longrightarrow> length (queue s) + length (arrivals ops) \<le> cap \<Longrightarrow>
   taken @ queue s' = queue s @ map clip (arrivals ops)"
proof (induction ops arbitrary: s taken)
  case (Cons a ops)
  show ?case
  proof (cases a)
    case (Arrive m)
    have q: "queue (put s m) = queue s @ [clip m]"
      using put_law [OF Cons.prems(1), of m] Cons.prems(3) Arrive by simp
    then show ?thesis
      using Cons.IH [of "put s m" taken] Cons.prems Arrive put_ok by simp
  next
    case Take
    obtain x s1 where x: "get s = (x, s1)"
      by fastforce
    obtain tk where tk: "lossy_run put get s1 ops = (tk, s')" "taken = (case x of Some m \<Rightarrow> m # tk | None \<Rightarrow> tk)"
      using Cons.prems(2) Take x by (auto split: prod.splits)
    show ?thesis
      using Cons.IH [OF _ tk(1)] get_cases [OF Cons.prems(1) x] tk(2) Take Cons.prems(3) by (auto split: option.splits)
  qed
qed simp

end

end
