(* ===== verification/Proxy_Buffer.thy ===== *)
theory Proxy_Buffer
  imports Protocol_Types Ring
begin

text \<open>
  The queue of received game packets of \<^verbatim>\<open>ldn/ldn_proxy_buffer.hpp\<close> and \<^verbatim>\<open>.cpp\<close>: a ring of 16
  packet entries over one array of payload bytes. The mutex makes every operation atomic, so each
  is a function of the state. A data pointer is an optional byte list, \<^verbatim>\<open>None\<close> for null.
  The contract is a bounded first-in-first-out queue (locale \<open>packet_fifo\<close>); it holds as long as no
  write is accepted that reaches the unread bytes behind the wrapped write position
  (\<open>px_room\<close>), a condition the code does not test.
\<close>

definition MaxPacketDataSize :: nat where "MaxPacketDataSize = 2048"
definition BufferSize :: nat where "BufferSize = MaxPacketDataSize * 4 + 256"
definition MaxQueuedPackets :: nat where "MaxQueuedPackets = 16"

record PacketEntry =
  pe_header :: ProxyDataHeader
  pe_data_size :: nat
  pe_data_offset :: nat

record LdnProxyBuffer =
  px_packets :: "PacketEntry list"
  px_packet_read_idx :: nat
  px_packet_write_idx :: nat
  px_packet_count :: nat
  px_data_buffer :: "byte list"
  px_data_read_pos :: nat
  px_data_write_pos :: nat

definition px_new :: LdnProxyBuffer where
  "px_new = \<lparr>px_packets = replicate MaxQueuedPackets
       \<lparr>pe_header = ProxyDataHeader_of_bytes (replicate 20 0), pe_data_size = 0, pe_data_offset = 0\<rparr>,
     px_packet_read_idx = 0, px_packet_write_idx = 0, px_packet_count = 0,
     px_data_buffer = replicate BufferSize 0, px_data_read_pos = 0, px_data_write_pos = 0\<rparr>"

text \<open>The part of \<^verbatim>\<open>Write\<close> after the write position is fixed: entry, copy, indices.\<close>

definition px_store :: "LdnProxyBuffer \<Rightarrow> ProxyDataHeader \<Rightarrow> byte list option \<Rightarrow> nat \<Rightarrow> nat \<Rightarrow> LdnProxyBuffer" where
  "px_store b header data n pos =
     b\<lparr>px_packets := (px_packets b)[px_packet_write_idx b :=
         \<lparr>pe_header = header, pe_data_size = n, pe_data_offset = pos\<rparr>],
       px_data_buffer := (case data of
           Some d \<Rightarrow> if n > 0 then memcpy (px_data_buffer b) pos (take n d) else px_data_buffer b
         | None \<Rightarrow> px_data_buffer b),
       px_data_write_pos := pos + n,
       px_packet_write_idx := (px_packet_write_idx b + 1) mod MaxQueuedPackets,
       px_packet_count := px_packet_count b + 1\<rparr>"

definition px_Write ::
  "LdnProxyBuffer \<Rightarrow> ProxyDataHeader \<Rightarrow> byte list option \<Rightarrow> nat \<Rightarrow> bool \<times> LdnProxyBuffer" where
  "px_Write b header data n =
     (if n > MaxPacketDataSize then (False, b)
      else if px_packet_count b \<ge> MaxQueuedPackets then (False, b)
      else let available = BufferSize - px_data_write_pos b in
        if available < n then
          (if px_data_read_pos b > n then (True, px_store b header data n 0) else (False, b))
        else (True, px_store b header data n (px_data_write_pos b)))"

text \<open>The oldest entry.\<close>

definition px_front :: "LdnProxyBuffer \<Rightarrow> PacketEntry" where
  "px_front b = px_packets b ! px_packet_read_idx b"

definition px_Read ::
  "LdnProxyBuffer \<Rightarrow> byte list option \<Rightarrow> nat \<Rightarrow> (ProxyDataHeader \<times> byte list option \<times> nat) option \<times> LdnProxyBuffer" where
  "px_Read b data max_size =
     (if px_packet_count b = 0 then (None, b)
      else let entry = px_front b;
               n = (if pe_data_size entry \<le> max_size then pe_data_size entry else max_size);
               data' = map_option (\<lambda>d. if n > 0 then memcpy d 0 (slice (pe_data_offset entry) n (px_data_buffer b)) else d) data;
               b = b\<lparr>px_data_read_pos := pe_data_offset entry + pe_data_size entry,
                     px_packet_read_idx := (px_packet_read_idx b + 1) mod MaxQueuedPackets,
                     px_packet_count := px_packet_count b - 1\<rparr>
        in (Some (pe_header entry, data', n),
            if px_packet_count b = 0 then b\<lparr>px_data_read_pos := 0, px_data_write_pos := 0\<rparr> else b))"

definition px_Peek :: "LdnProxyBuffer \<Rightarrow> (ProxyDataHeader \<times> nat) option" where
  "px_Peek b = (if px_packet_count b = 0 then None else Some (pe_header (px_front b), pe_data_size (px_front b)))"

definition px_GetPendingCount :: "LdnProxyBuffer \<Rightarrow> nat" where
  "px_GetPendingCount b = px_packet_count b"

definition px_IsEmpty :: "LdnProxyBuffer \<Rightarrow> bool" where
  "px_IsEmpty b \<longleftrightarrow> px_packet_count b = 0"

definition px_Reset :: "LdnProxyBuffer \<Rightarrow> LdnProxyBuffer" where
  "px_Reset b = b\<lparr>px_packet_read_idx := 0, px_packet_write_idx := 0, px_packet_count := 0,
     px_data_read_pos := 0, px_data_write_pos := 0\<rparr>"

definition px_GetUsedBytes :: "LdnProxyBuffer \<Rightarrow> nat" where
  "px_GetUsedBytes b =
     (if px_data_write_pos b \<ge> px_data_read_pos b then px_data_write_pos b - px_data_read_pos b
      else BufferSize - px_data_read_pos b + px_data_write_pos b)"

subsection \<open>Layout of the pending packets\<close>

definition px_pending :: "LdnProxyBuffer \<Rightarrow> PacketEntry list" where
  "px_pending b = ring_list MaxQueuedPackets (px_packets b) (px_packet_read_idx b) (px_packet_count b)"

definition pe_content :: "byte list \<Rightarrow> PacketEntry \<Rightarrow> ProxyDataHeader \<times> byte list" where
  "pe_content mem e = (pe_header e, slice (pe_data_offset e) (pe_data_size e) mem)"

definition px_queue :: "LdnProxyBuffer \<Rightarrow> (ProxyDataHeader \<times> byte list) list" where
  "px_queue b = map (pe_content (px_data_buffer b)) (px_pending b)"

fun contiguous :: "nat \<Rightarrow> PacketEntry list \<Rightarrow> nat \<Rightarrow> bool" where
  "contiguous p [] q \<longleftrightarrow> p = q"
| "contiguous p (e # es) q \<longleftrightarrow> pe_data_offset e = p \<and> contiguous (p + pe_data_size e) es q"

definition px_layout :: "LdnProxyBuffer \<Rightarrow> bool" where
  "px_layout b \<longleftrightarrow>
     (if px_data_read_pos b \<le> px_data_write_pos b
      then contiguous (px_data_read_pos b) (px_pending b) (px_data_write_pos b)
      else \<exists>t h q. px_pending b = t @ h \<and> contiguous (px_data_read_pos b) t q \<and> q \<le> BufferSize \<and>
        contiguous 0 h (px_data_write_pos b))"

definition px_inv :: "LdnProxyBuffer \<Rightarrow> bool" where
  "px_inv b \<longleftrightarrow> length (px_packets b) = MaxQueuedPackets \<and> length (px_data_buffer b) = BufferSize \<and>
     px_packet_read_idx b < MaxQueuedPackets \<and> px_packet_count b \<le> MaxQueuedPackets \<and>
     px_packet_write_idx b = (px_packet_read_idx b + px_packet_count b) mod MaxQueuedPackets \<and>
     px_data_write_pos b \<le> BufferSize \<and> px_data_read_pos b \<le> BufferSize \<and>
     (px_packet_count b = 0 \<longrightarrow> px_data_read_pos b = 0 \<and> px_data_write_pos b = 0)"

text \<open>No unread byte lies between the write position and the end of a write of \<open>n\<close> bytes.\<close>

definition px_room :: "LdnProxyBuffer \<Rightarrow> nat \<Rightarrow> bool" where
  "px_room b n \<longleftrightarrow> px_data_read_pos b \<le> px_data_write_pos b \<or> px_data_write_pos b + n < px_data_read_pos b"

lemmas px_consts = MaxPacketDataSize_def BufferSize_def MaxQueuedPackets_def

lemma contiguous_append: "contiguous p (xs @ ys) q \<longleftrightarrow> (\<exists>m. contiguous p xs m \<and> contiguous m ys q)"
  by (induction xs arbitrary: p) auto

lemma contiguous_le: "contiguous p es q \<Longrightarrow> p \<le> q"
  by (induction es arbitrary: p) fastforce+

lemma contiguous_range:
  "contiguous p es q \<Longrightarrow> e \<in> set es \<Longrightarrow> p \<le> pe_data_offset e \<and> pe_data_offset e + pe_data_size e \<le> q"
proof (induction es arbitrary: p)
  case (Cons x es)
  then show ?case
    using contiguous_le [of "p + pe_data_size x" es q] by fastforce
qed simp

lemma pending_store:
  assumes "px_inv b" and "px_packet_count b < MaxQueuedPackets"
  shows "px_pending (px_store b h data n pos) =
    px_pending b @ [\<lparr>pe_header = h, pe_data_size = n, pe_data_offset = pos\<rparr>]"
  using assms ring_push [of "px_packet_count b" MaxQueuedPackets "px_packets b"]
  by (simp add: px_pending_def px_store_def px_inv_def)

lemma pe_content_frame:
  assumes "pos + length d \<le> length mem"
    and "pe_data_offset e + pe_data_size e \<le> pos \<or> pos + length d \<le> pe_data_offset e"
  shows "pe_content (memcpy mem pos d) e = pe_content mem e"
  using assms slice_memcpy_before [of "pe_data_offset e" "pe_data_size e" pos mem d]
    slice_memcpy_after [of pos d "pe_data_offset e" mem "pe_data_size e"]
  by (auto simp: pe_content_def)

subsection \<open>Memory safety\<close>

definition readable :: "byte list option \<Rightarrow> nat \<Rightarrow> bool" where
  "readable data n \<longleftrightarrow> (case data of Some d \<Rightarrow> n \<le> length d | None \<Rightarrow> True)"

text \<open>Every operation keeps the indices and positions inside the arrays.\<close>

lemma px_new_inv: "px_inv px_new"
  by (simp add: px_inv_def px_new_def px_consts)

lemma px_store_inv:
  assumes "px_inv b" and "px_packet_count b < MaxQueuedPackets" and "pos + n \<le> BufferSize"
    and "readable data n"
  shows "px_inv (px_store b h data n pos)"
  using assms by (auto simp: px_inv_def px_store_def readable_def mod_simps split: option.splits)

lemma px_Write_cases:
  assumes "px_inv b" and "px_Write b h data n = (r, b')"
  obtains "\<not> r" "b' = b"
  | "r" "n \<le> MaxPacketDataSize" "px_packet_count b < MaxQueuedPackets" "px_data_write_pos b + n \<le> BufferSize"
    "b' = px_store b h data n (px_data_write_pos b)"
  | "r" "n \<le> MaxPacketDataSize" "px_packet_count b < MaxQueuedPackets" "BufferSize < px_data_write_pos b + n"
    "n < px_data_read_pos b" "b' = px_store b h data n 0"
proof -
  have "px_data_write_pos b \<le> BufferSize"
    using assms(1) by (simp add: px_inv_def)
  then have "\<not> r \<and> b' = b \<or>
      r \<and> n \<le> MaxPacketDataSize \<and> px_packet_count b < MaxQueuedPackets \<and> px_data_write_pos b + n \<le> BufferSize \<and>
        b' = px_store b h data n (px_data_write_pos b) \<or>
      r \<and> n \<le> MaxPacketDataSize \<and> px_packet_count b < MaxQueuedPackets \<and> BufferSize < px_data_write_pos b + n \<and> n < px_data_read_pos b \<and>
        b' = px_store b h data n 0"
    using assms(2) unfolding px_Write_def Let_def by (simp split: if_splits) linarith+
  then show ?thesis
    using that by blast
qed

lemma px_Write_inv:
  assumes "px_inv b" and "readable data n" and "px_Write b h data n = (r, b')"
  shows "px_inv b'"
proof (cases rule: px_Write_cases [OF assms(1,3)])
  case 3
  then have "0 + n \<le> BufferSize"
    using assms(1) by (simp add: px_inv_def)
  then show ?thesis
    using px_store_inv assms(1,2) 3 by blast
qed (use px_store_inv assms(1,2) in auto)

text \<open>The state after a read, and what the read returns.\<close>

definition px_pop :: "LdnProxyBuffer \<Rightarrow> LdnProxyBuffer" where
  "px_pop b = snd (px_Read b None 0)"

lemma px_Read_nonempty:
  assumes "0 < px_packet_count b"
  shows "px_Read b (Some d) m = (Some (pe_header (px_front b),
      Some (memcpy d 0 (take m (snd (pe_content (px_data_buffer b) (px_front b))))),
      min (pe_data_size (px_front b)) m), px_pop b)"
  using assms by (simp add: px_Read_def px_pop_def Let_def pe_content_def slice_def min_def memcpy_def)

lemma px_pop_fields:
  assumes "0 < px_packet_count b"
  shows "px_packets (px_pop b) = px_packets b" "px_data_buffer (px_pop b) = px_data_buffer b"
    "px_packet_count (px_pop b) = px_packet_count b - 1" "px_packet_write_idx (px_pop b) = px_packet_write_idx b"
    "px_packet_read_idx (px_pop b) = (px_packet_read_idx b + 1) mod MaxQueuedPackets"
    "px_packet_count b = 1 \<Longrightarrow> px_data_read_pos (px_pop b) = 0 \<and> px_data_write_pos (px_pop b) = 0"
    "px_packet_count b \<noteq> 1 \<Longrightarrow> px_data_read_pos (px_pop b) = pe_data_offset (px_front b) + pe_data_size (px_front b) \<and>
       px_data_write_pos (px_pop b) = px_data_write_pos b"
  using assms by (auto simp: px_pop_def px_Read_def Let_def)

lemma pending_pop:
  assumes "px_inv b" and "0 < px_packet_count b"
  shows "px_pending b = px_front b # px_pending (px_pop b)"
  using ring_pop [OF assms(2), of "px_packet_read_idx b" MaxQueuedPackets "px_packets b"]
    px_pop_fields [OF assms(2)] assms(1)
  by (simp add: px_inv_def px_pending_def px_front_def)

lemma px_pop_inv:
  assumes "px_inv b" and "0 < px_packet_count b"
    and "pe_data_offset (px_front b) + pe_data_size (px_front b) \<le> BufferSize"
  shows "px_inv (px_pop b)"
proof -
  have "((px_packet_read_idx b + 1) mod MaxQueuedPackets + (px_packet_count b - 1)) mod MaxQueuedPackets =
      (px_packet_read_idx b + px_packet_count b) mod MaxQueuedPackets"
    by (rule ring_pop_tail [OF assms(2)])
  moreover have "(px_packet_read_idx b + 1) mod MaxQueuedPackets < MaxQueuedPackets"
    by (simp add: MaxQueuedPackets_def)
  ultimately show ?thesis
    using px_pop_fields [OF assms(2)] assms by (cases "px_packet_count b = 1") (auto simp: px_inv_def)
qed

subsection \<open>First in, first out\<close>

lemma layout_straight:
  "contiguous (px_data_read_pos b) (px_pending b) (px_data_write_pos b) \<Longrightarrow> px_layout b"
  using contiguous_le by (simp add: px_layout_def)

lemma layout_wrapped:
  "px_pending b = t @ h \<Longrightarrow> contiguous (px_data_read_pos b) t q \<Longrightarrow> q \<le> BufferSize \<Longrightarrow>
   contiguous 0 h (px_data_write_pos b) \<Longrightarrow> px_data_write_pos b < px_data_read_pos b \<Longrightarrow> px_layout b"
  by (auto simp: px_layout_def)

lemma layout_range:
  assumes "px_layout b" and "px_inv b" and "e \<in> set (px_pending b)"
  shows "pe_data_offset e + pe_data_size e \<le> BufferSize"
proof (cases "px_data_read_pos b \<le> px_data_write_pos b")
  case True
  then show ?thesis
    using assms contiguous_range [of "px_data_read_pos b" "px_pending b" "px_data_write_pos b" e]
    by (simp add: px_layout_def px_inv_def)
next
  case False
  then obtain t h q where "px_pending b = t @ h" "contiguous (px_data_read_pos b) t q" "q \<le> BufferSize"
      "contiguous 0 h (px_data_write_pos b)"
    using assms(1) by (auto simp: px_layout_def)
  then show ?thesis
    using assms(2,3) contiguous_range [of "px_data_read_pos b" t q e] contiguous_range [of 0 h "px_data_write_pos b" e]
    by (auto simp: px_inv_def)
qed

lemma contiguous_snoc:
  "contiguous p es q \<Longrightarrow> contiguous p (es @ [\<lparr>pe_header = h, pe_data_size = n, pe_data_offset = q\<rparr>]) (q + n)"
  by (auto simp: contiguous_append)

text \<open>A write with room touches no pending byte and keeps the layout.\<close>

lemma room_disjoint:
  assumes "px_layout b" and "px_room b n" and "e \<in> set (px_pending b)"
    and "(pos = px_data_write_pos b) \<or> (pos = 0 \<and> n < px_data_read_pos b \<and> px_data_read_pos b \<le> px_data_write_pos b)"
  shows "pe_data_offset e + pe_data_size e \<le> pos \<or> pos + n \<le> pe_data_offset e"
proof (cases "px_data_read_pos b \<le> px_data_write_pos b")
  case True
  then show ?thesis
    using assms contiguous_range [of "px_data_read_pos b" "px_pending b" "px_data_write_pos b" e]
    by (auto simp: px_layout_def)
next
  case False
  then obtain t h q where "px_pending b = t @ h" "contiguous (px_data_read_pos b) t q"
      "contiguous 0 h (px_data_write_pos b)"
    using assms(1) by (auto simp: px_layout_def)
  then show ?thesis
    using assms(2-4) False contiguous_range [of "px_data_read_pos b" t q e] contiguous_range [of 0 h "px_data_write_pos b" e]
    by (auto simp: px_room_def)
qed

lemma store_layout:
  assumes "px_layout b" and "px_inv b" and "px_room b n" and "px_packet_count b < MaxQueuedPackets"
    and "(pos = px_data_write_pos b) \<or> (pos = 0 \<and> n < px_data_read_pos b \<and> px_data_read_pos b \<le> px_data_write_pos b)"
  shows "px_layout (px_store b h data n pos)"
proof -
  note pend = pending_store [OF assms(2,4), of h data n pos]
  have fields: "px_data_read_pos (px_store b h data n pos) = px_data_read_pos b"
    "px_data_write_pos (px_store b h data n pos) = pos + n"
    by (simp_all add: px_store_def)
  have bound: "px_data_write_pos b \<le> BufferSize"
    using assms(2) by (simp add: px_inv_def)
  consider (append) "pos = px_data_write_pos b" "px_data_read_pos b \<le> px_data_write_pos b"
    | (wrapped) "pos = px_data_write_pos b" "px_data_write_pos b + n < px_data_read_pos b"
    | (wrap) "pos = 0" "n < px_data_read_pos b" "px_data_read_pos b \<le> px_data_write_pos b"
    using assms(3,5) by (auto simp: px_room_def)
  then show ?thesis
  proof cases
    case append
    then have "contiguous (px_data_read_pos b) (px_pending b) pos"
      using assms(1) by (simp add: px_layout_def)
    from contiguous_snoc [OF this, of h n] show ?thesis
      by (intro layout_straight) (simp only: pend fields)
  next
    case wrapped
    then obtain t u q where u: "px_pending b = t @ u" "contiguous (px_data_read_pos b) t q" "q \<le> BufferSize"
        "contiguous 0 u pos"
      using assms(1) by (auto simp: px_layout_def)
    have "pos + n < px_data_read_pos b"
      using wrapped by simp
    with u(2,3) contiguous_snoc [OF u(4), of h n] show ?thesis
      by (intro layout_wrapped [of _ t "u @ [\<lparr>pe_header = h, pe_data_size = n, pe_data_offset = pos\<rparr>]" q])
        (simp_all only: pend fields u(1) append_assoc)
  next
    case wrap
    then have c: "contiguous (px_data_read_pos b) (px_pending b) (px_data_write_pos b)" "pos + n < px_data_read_pos b"
      using assms(1) by (simp_all add: px_layout_def)
    have "contiguous 0 [\<lparr>pe_header = h, pe_data_size = n, pe_data_offset = pos\<rparr>] (pos + n)"
      using wrap(1) by simp
    with c bound show ?thesis
      by (intro layout_wrapped [of _ "px_pending b" "[\<lparr>pe_header = h, pe_data_size = n, pe_data_offset = pos\<rparr>]"
            "px_data_write_pos b"])
        (simp_all only: pend fields)
  qed
qed

lemma store_queue:
  assumes "px_layout b" and "px_inv b" and "px_room b n" and "px_packet_count b < MaxQueuedPackets"
    and "(pos = px_data_write_pos b) \<or> (pos = 0 \<and> n < px_data_read_pos b \<and> px_data_read_pos b \<le> px_data_write_pos b)"
    and "pos + n \<le> BufferSize" and "length d = n"
  shows "px_queue (px_store b h (Some d) n pos) = px_queue b @ [(h, d)]"
proof -
  have mem: "px_data_buffer (px_store b h (Some d) n pos) = memcpy (px_data_buffer b) pos d"
    using assms(7) by (auto simp: px_store_def)
  have len: "pos + length d \<le> length (px_data_buffer b)"
    using assms(2,6,7) by (simp add: px_inv_def)
  have "pe_content (memcpy (px_data_buffer b) pos d) e = pe_content (px_data_buffer b) e"
    if "e \<in> set (px_pending b)" for e
    using pe_content_frame [OF len] room_disjoint [OF assms(1,3) that assms(5)] assms(7) by simp
  then show ?thesis
    using slice_memcpy_same [OF len] assms(7)
    by (simp add: px_queue_def mem pending_store [OF assms(2,4)] pe_content_def)
qed

lemma pop_layout:
  assumes "px_layout b" and "px_inv b" and "0 < px_packet_count b"
  shows "px_layout (px_pop b)"
proof (cases "px_packet_count b = 1")
  case True
  then have "px_pending (px_pop b) = []"
    using px_pop_fields(3) [OF assms(3)] by (simp add: px_pending_def)
  then show ?thesis
    using True px_pop_fields(6) [OF assms(3)] by (intro layout_straight) simp
next
  case False
  note pend = pending_pop [OF assms(2,3)]
  note pos = px_pop_fields(7) [OF assms(3) False]
  consider (straight) "contiguous (pe_data_offset (px_front b) + pe_data_size (px_front b)) (px_pending (px_pop b)) (px_data_write_pos b)"
    | (wrapped) t h q where "px_pending (px_pop b) = t @ h" "q \<le> BufferSize" "contiguous 0 h (px_data_write_pos b)"
      "contiguous (pe_data_offset (px_front b) + pe_data_size (px_front b)) t q"
      "px_data_write_pos b < pe_data_offset (px_front b)"
  proof (cases "px_data_read_pos b \<le> px_data_write_pos b")
    case True
    then show ?thesis
      using assms(1) pend straight by (simp add: px_layout_def)
  next
    case False
    then obtain t h q where t: "px_pending b = t @ h" "contiguous (px_data_read_pos b) t q" "q \<le> BufferSize"
        "contiguous 0 h (px_data_write_pos b)"
      using assms(1) by (auto simp: px_layout_def)
    then show ?thesis
      using pend False straight wrapped by (cases t) auto
  qed
  then show ?thesis
  proof cases
    case straight
    then show ?thesis
      using pos by (intro layout_straight) simp
  next
    case wrapped
    then show ?thesis
      using pos by (intro layout_wrapped [of _ t h q]) simp_all
  qed
qed

subsection \<open>The contract of a packet queue\<close>

datatype 'm fifo_op = Put 'm | Get

text \<open>A run returns the messages that were accepted, those that were taken, and the final state.\<close>

fun fifo_run :: "('s \<Rightarrow> 'm \<Rightarrow> bool \<times> 's) \<Rightarrow> ('s \<Rightarrow> 'm option \<times> 's) \<Rightarrow> 's \<Rightarrow> 'm fifo_op list \<Rightarrow> 'm list \<times> 'm list \<times> 's" where
  "fifo_run put get s [] = ([], [], s)"
| "fifo_run put get s (Put m # ops) =
     (let (r, s') = put s m; (accepted, taken, s'') = fifo_run put get s' ops
      in (if r then m # accepted else accepted, taken, s''))"
| "fifo_run put get s (Get # ops) =
     (let (x, s') = get s; (accepted, taken, s'') = fifo_run put get s' ops
      in (accepted, case x of Some m \<Rightarrow> m # taken | None \<Rightarrow> taken, s''))"

fun fifo_roomy :: "('s \<Rightarrow> 'm \<Rightarrow> bool) \<Rightarrow> ('s \<Rightarrow> 'm \<Rightarrow> bool \<times> 's) \<Rightarrow> ('s \<Rightarrow> 'm option \<times> 's) \<Rightarrow> 's \<Rightarrow> 'm fifo_op list \<Rightarrow> bool" where
  "fifo_roomy room put get s [] \<longleftrightarrow> True"
| "fifo_roomy room put get s (Put m # ops) \<longleftrightarrow> room s m \<and> fifo_roomy room put get (snd (put s m)) ops"
| "fifo_roomy room put get s (Get # ops) \<longleftrightarrow> fifo_roomy room put get (snd (get s)) ops"

locale packet_fifo =
  fixes queue :: "'s \<Rightarrow> 'm list" and ok :: "'s \<Rightarrow> bool" and room :: "'s \<Rightarrow> 'm \<Rightarrow> bool"
    and put :: "'s \<Rightarrow> 'm \<Rightarrow> bool \<times> 's" and get :: "'s \<Rightarrow> 'm option \<times> 's"
  assumes put_accepted: "ok s \<Longrightarrow> room s m \<Longrightarrow> put s m = (True, s') \<Longrightarrow> ok s' \<and> queue s' = queue s @ [m]"
    and put_refused: "ok s \<Longrightarrow> put s m = (False, s') \<Longrightarrow> s' = s"
    and get_empty: "ok s \<Longrightarrow> queue s = [] \<Longrightarrow> get s = (None, s)"
    and get_front: "ok s \<Longrightarrow> queue s = m # ms \<Longrightarrow> \<exists>s'. get s = (Some m, s') \<and> ok s' \<and> queue s' = ms"
begin

lemma run_is_fifo:
  "ok s \<Longrightarrow> fifo_roomy room put get s ops \<Longrightarrow> fifo_run put get s ops = (accepted, taken, s') \<Longrightarrow>
   ok s' \<and> queue s @ accepted = taken @ queue s'"
proof (induction ops arbitrary: s accepted taken)
  case (Cons a ops)
  show ?case
  proof (cases a)
    case (Put m)
    obtain r s1 where s1: "put s m = (r, s1)"
      by fastforce
    obtain ac tk where run: "fifo_run put get s1 ops = (ac, tk, s')" "accepted = (if r then m # ac else ac)" "taken = tk"
      using Cons.prems(3) Put s1 by (auto split: prod.splits)
    have "ok s1 \<and> queue s1 = queue s @ (if r then [m] else [])"
      using Cons.prems(1,2) Put s1 put_accepted [of s m s1] put_refused [of s m s1] by (cases r) auto
    then show ?thesis
      using Cons.IH [of s1 ac tk] Cons.prems(2) Put s1 run by (auto split: if_splits)
  next
    case Get
    obtain x s1 where s1: "get s = (x, s1)"
      by fastforce
    obtain ac tk where run: "fifo_run put get s1 ops = (ac, tk, s')" "accepted = ac"
        "taken = (case x of Some m \<Rightarrow> m # tk | None \<Rightarrow> tk)"
      using Cons.prems(3) Get s1 by (auto split: prod.splits)
    have "ok s1 \<and> queue s = (case x of Some m \<Rightarrow> [m] | None \<Rightarrow> []) @ queue s1"
      using Cons.prems(1) s1 get_empty [of s] get_front [of s] by (cases "queue s") fastforce+
    then show ?thesis
      using Cons.IH [of s1 ac tk] Cons.prems(2) Get s1 run by (auto split: option.splits)
  qed
qed simp

end

text \<open>The buffer as the receive path uses it: whole packets in, whole packets out.\<close>

definition px_put :: "LdnProxyBuffer \<Rightarrow> ProxyDataHeader \<times> byte list \<Rightarrow> bool \<times> LdnProxyBuffer" where
  "px_put b m = px_Write b (fst m) (Some (snd m)) (length (snd m))"

definition px_get :: "LdnProxyBuffer \<Rightarrow> (ProxyDataHeader \<times> byte list) option \<times> LdnProxyBuffer" where
  "px_get b = (case px_Read b (Some (replicate MaxPacketDataSize 0)) MaxPacketDataSize of
     (Some (h, Some out, n), b') \<Rightarrow> (Some (h, take n out), b')
   | (_, b') \<Rightarrow> (None, b'))"

definition px_ok :: "LdnProxyBuffer \<Rightarrow> bool" where
  "px_ok b \<longleftrightarrow> px_inv b \<and> px_layout b \<and> list_all (\<lambda>e. pe_data_size e \<le> MaxPacketDataSize) (px_pending b)"

lemma px_get_nonempty:
  assumes "0 < px_packet_count b" and "pe_data_size (px_front b) \<le> MaxPacketDataSize"
    and "pe_data_offset (px_front b) + pe_data_size (px_front b) \<le> length (px_data_buffer b)"
  shows "px_get b = (Some (pe_content (px_data_buffer b) (px_front b)), px_pop b)"
  using assms by (simp add: px_get_def px_Read_nonempty pe_content_def take_memcpy_0 slice_def)
    (simp add: memcpy_def)

lemma px_put_accepted:
  assumes "px_ok b" and "px_room b (length (snd m))" and "px_put b m = (True, b')"
  shows "px_ok b' \<and> px_queue b' = px_queue b @ [m]"
proof -
  have b: "px_inv b" "px_layout b"
    using assms(1) by (simp_all add: px_ok_def)
  obtain pos where pos: "b' = px_store b (fst m) (Some (snd m)) (length (snd m)) pos"
      "(pos = px_data_write_pos b) \<or> (pos = 0 \<and> length (snd m) < px_data_read_pos b \<and> px_data_read_pos b \<le> px_data_write_pos b)"
      "pos + length (snd m) \<le> BufferSize" "px_packet_count b < MaxQueuedPackets" "length (snd m) \<le> MaxPacketDataSize"
  proof (cases rule: px_Write_cases [OF b(1) assms(3) [unfolded px_put_def]])
    case 3
    have "px_data_read_pos b \<le> BufferSize"
      using b(1) by (simp add: px_inv_def)
    then have "px_data_read_pos b \<le> px_data_write_pos b" "0 + length (snd m) \<le> BufferSize"
      using 3 assms(2) by (auto simp: px_room_def)
    then show ?thesis
      using 3 that [of 0] by blast
  qed (use that in auto)
  have "px_inv b'"
    using px_Write_inv [OF b(1) _ assms(3) [unfolded px_put_def]] by (simp add: readable_def)
  moreover have "px_layout b'"
    using store_layout [OF b(2,1) assms(2) pos(4,2)] pos(1) by simp
  ultimately show ?thesis
    using store_queue [OF b(2,1) assms(2) pos(4,2,3)] pos assms(1)
    by (simp add: px_ok_def pending_store [OF b(1) pos(4)])
qed

lemma px_queue_empty: "px_queue b = [] \<longleftrightarrow> px_packet_count b = 0"
  unfolding px_queue_def px_pending_def by (simp flip: length_0_conv)

lemma px_get_front:
  assumes "px_ok b" and "px_queue b = m # ms"
  shows "\<exists>b'. px_get b = (Some m, b') \<and> px_ok b' \<and> px_queue b' = ms"
proof -
  have b: "px_inv b" "px_layout b"
    using assms(1) by (simp_all add: px_ok_def)
  have pos: "0 < px_packet_count b"
    using assms(2) px_queue_empty [of b] by simp
  note pend = pending_pop [OF b(1) pos]
  have range: "pe_data_offset (px_front b) + pe_data_size (px_front b) \<le> BufferSize"
    using layout_range [OF b(2,1), of "px_front b"] pend by simp
  have "px_get b = (Some (pe_content (px_data_buffer b) (px_front b)), px_pop b)"
    using px_get_nonempty [OF pos] assms(1) pend range b(1) by (simp add: px_ok_def px_inv_def)
  moreover have "px_ok (px_pop b)"
    using px_pop_inv [OF b(1) pos range] pop_layout [OF b(2,1) pos] assms(1) pend by (simp add: px_ok_def)
  ultimately show ?thesis
    using assms(2) pend px_pop_fields(2) [OF pos] by (simp add: px_queue_def)
qed

interpretation px: packet_fifo px_queue px_ok "\<lambda>b m. px_room b (length (snd m))" px_put px_get
proof (unfold_locales, goal_cases)
  case (1 s m s')
  then show ?case by (rule px_put_accepted)
next
  case (2 s m s')
  then show ?case by (auto simp: px_put_def px_Write_def Let_def split: if_splits)
next
  case (3 s)
  then show ?case by (simp add: px_queue_empty px_get_def px_Read_def)
next
  case (4 s m ms)
  then show ?case by (rule px_get_front)
qed

lemma px_new_ok: "px_ok px_new" "px_queue px_new = []"
  using px_new_inv by (simp_all add: px_ok_def px_layout_def px_queue_def px_pending_def px_new_def)

text \<open>
  A session that wraps: four full packets, one read, a short packet at the start of the array.
\<close>

definition some_header :: ProxyDataHeader where
  "some_header = ProxyDataHeader_of_bytes (replicate 20 0)"

definition wrap_ops :: "(ProxyDataHeader \<times> byte list) fifo_op list" where
  "wrap_ops = [Put (some_header, replicate 2048 1), Put (some_header, replicate 2048 2),
     Put (some_header, replicate 2048 3), Put (some_header, replicate 2048 4), Get,
     Put (some_header, replicate 1000 5)]"

definition wrapped_buffer :: LdnProxyBuffer where
  "wrapped_buffer = snd (snd (fifo_run px_put px_get px_new wrap_ops))"

lemmas px_eval = px_put_def px_Write_def px_store_def px_get_def px_Read_def px_front_def px_new_def px_consts
  px_room_def

lemma wrap_ops_roomy:
  "fifo_roomy (\<lambda>b m. px_room b (length (snd m))) px_put px_get px_new wrap_ops"
  by (simp add: wrap_ops_def px_eval)

lemma wrapped_facts:
  "px_data_write_pos wrapped_buffer = 1000" "px_data_read_pos wrapped_buffer = 2048"
  "px_packet_count wrapped_buffer = 4"
  "px_front wrapped_buffer = \<lparr>pe_header = some_header, pe_data_size = 2048, pe_data_offset = 2048\<rparr>"
  by (simp_all add: wrapped_buffer_def wrap_ops_def px_eval)

text \<open>A write into the unread bytes: the front packet changes under the reader.\<close>

lemma front_store: "px_packet_write_idx b \<noteq> px_packet_read_idx b \<Longrightarrow> px_front (px_store b h data n pos) = px_front b"
  by (simp add: px_front_def px_store_def)

lemma inv_write_idx:
  assumes "px_inv b" and "0 < px_packet_count b" and "px_packet_count b < MaxQueuedPackets"
  shows "px_packet_write_idx b \<noteq> px_packet_read_idx b"
  using ring_index_eq [of "px_packet_count b" MaxQueuedPackets 0 "px_packet_read_idx b"] assms by (auto simp: px_inv_def)

subsection \<open>Properties\<close>

text \<open>
  The packet queue is first in, first out: over any sequence of writes and reads of whole
  packets in which every write has room, the packets read, followed by those still
  pending, are exactly the packets accepted, in order and byte for byte, across wrap-arounds of
  both rings.
\<close>

theorem proxy_buffer_fifo:
  assumes "fifo_roomy (\<lambda>b m. px_room b (length (snd m))) px_put px_get px_new ops"
    and "fifo_run px_put px_get px_new ops = (accepted, taken, b)"
  shows "accepted = taken @ px_queue b \<and> px_inv b"
  using px.run_is_fifo [OF px_new_ok(1) assms] by (simp add: px_new_ok(2) px_ok_def)

theorem proxy_buffer_fifo_witness:
  "fst (fifo_run px_put px_get px_new wrap_ops) =
     fst (snd (fifo_run px_put px_get px_new wrap_ops)) @ px_queue wrapped_buffer \<and> px_inv wrapped_buffer"
  using proxy_buffer_fifo [OF wrap_ops_roomy, of "fst (fifo_run px_put px_get px_new wrap_ops)"
      "fst (snd (fifo_run px_put px_get px_new wrap_ops))" wrapped_buffer]
  by (simp add: wrapped_buffer_def)

text \<open>
  A write after the wrap-around is checked against the end of the array only: when it reaches
  the oldest unread packet it is accepted, and the next read returns that packet's header with
  bytes of the new packet.
\<close>

theorem wrapped_write_overwrites_unread:
  assumes "px_inv b" and "0 < px_packet_count b" and "px_packet_count b < MaxQueuedPackets"
    and "pe_data_offset (px_front b) = px_data_read_pos b" and "0 < pe_data_size (px_front b)"
    and "pe_data_size (px_front b) \<le> MaxPacketDataSize"
    and "px_data_read_pos b + pe_data_size (px_front b) \<le> BufferSize"
    and "px_data_write_pos b \<le> px_data_read_pos b" and "px_data_read_pos b < px_data_write_pos b + length d"
    and "length d \<le> MaxPacketDataSize" and "px_data_write_pos b + length d \<le> BufferSize"
  shows "\<exists>b' x. px_put b (h, d) = (True, b') \<and> fst (px_get b') = Some (pe_header (px_front b), x) \<and>
    x ! 0 = d ! (px_data_read_pos b - px_data_write_pos b)"
proof -
  let ?b = "px_store b h (Some d) (length d) (px_data_write_pos b)"
  have put: "px_put b (h, d) = (True, ?b)"
    using assms(3,10,11) by (auto simp: px_put_def px_Write_def Let_def)
  have front: "px_front ?b = px_front b"
    using front_store inv_write_idx [OF assms(1-3)] by simp
  have len: "length (px_data_buffer b) = BufferSize"
    using assms(1) by (simp add: px_inv_def)
  have mem: "px_data_buffer ?b = memcpy (px_data_buffer b) (px_data_write_pos b) d"
    using assms(8,9) by (auto simp: px_store_def)
  have lenb: "length (px_data_buffer ?b) = BufferSize"
    using len assms(11) by (simp add: mem)
  have "px_get ?b = (Some (pe_content (px_data_buffer ?b) (px_front ?b)), px_pop ?b)"
    by (rule px_get_nonempty) (use assms(4,6,7) front lenb in \<open>simp_all add: px_store_def\<close>)
  moreover have "snd (pe_content (px_data_buffer ?b) (px_front ?b)) ! 0 = d ! (px_data_read_pos b - px_data_write_pos b)"
    using assms(4,5,7-9,11) len nth_memcpy [of "px_data_write_pos b" "px_data_read_pos b" d "px_data_buffer b"] lenb
    by (simp add: pe_content_def front slice_def mem)
  ultimately show ?thesis
    using put front by (auto simp: pe_content_def)
qed

theorem wrapped_write_overwrites_unread_witness:
  "\<exists>b' x. px_put wrapped_buffer (some_header, replicate 2048 9) = (True, b') \<and>
     fst (px_get b') = Some (some_header, x) \<and> x ! 0 = 9"
proof -
  have "px_inv wrapped_buffer"
    using px.run_is_fifo [OF px_new_ok(1) wrap_ops_roomy]
    by (metis prod.collapse px_ok_def wrapped_buffer_def)
  then show ?thesis
    using wrapped_write_overwrites_unread [of wrapped_buffer "replicate 2048 9" some_header]
    by (simp add: wrapped_facts px_consts)
qed

end
