(* ===== verification/Network_Timeout.thy ===== *)
theory Network_Timeout
  imports Prelude
begin

text \<open>
  The inactivity timer of \<^verbatim>\<open>ldn/ldn_network_timeout.hpp\<close> and \<^verbatim>\<open>.cpp\<close>. Times are 64-bit milliseconds; the
  system clock that \<^verbatim>\<open>RefreshTimeout\<close> reads is its argument. The state counts the calls of the
  callback, which the code makes with the lock held.
\<close>

record NetworkTimeout =
  nt_idle_timeout_ms :: u64
  nt_callback :: bool
  nt_timeout_start_ms :: u64
  nt_active :: bool
  nt_fired :: nat

definition DEFAULT_IDLE_TIMEOUT_MS :: u64 where "DEFAULT_IDLE_TIMEOUT_MS = 60000"

definition nt_new :: "u64 \<Rightarrow> bool \<Rightarrow> NetworkTimeout" where
  "nt_new idle_timeout_ms callback = \<lparr>nt_idle_timeout_ms = idle_timeout_ms, nt_callback = callback,
     nt_timeout_start_ms = 0, nt_active = False, nt_fired = 0\<rparr>"

definition nt_RefreshTimeout :: "NetworkTimeout \<Rightarrow> u64 \<Rightarrow> bool \<times> NetworkTimeout" where
  "nt_RefreshTimeout n now = (True, n\<lparr>nt_timeout_start_ms := now, nt_active := True\<rparr>)"

definition nt_DisableTimeout :: "NetworkTimeout \<Rightarrow> NetworkTimeout" where
  "nt_DisableTimeout n = n\<lparr>nt_active := False, nt_timeout_start_ms := 0\<rparr>"

definition nt_CheckTimeout :: "NetworkTimeout \<Rightarrow> u64 \<Rightarrow> bool \<times> NetworkTimeout" where
  "nt_CheckTimeout n current_time_ms =
     (if \<not> nt_active n \<or> \<not> nt_callback n then (False, n)
      else if current_time_ms \<ge> nt_timeout_start_ms n + nt_idle_timeout_ms n
      then (True, n\<lparr>nt_active := False, nt_fired := nt_fired n + 1\<rparr>)
      else (False, n))"

definition nt_IsActive :: "NetworkTimeout \<Rightarrow> bool" where
  "nt_IsActive n = nt_active n"

text \<open>A sequence of checks of the update loop, with the result of each.\<close>

fun nt_checks :: "NetworkTimeout \<Rightarrow> u64 list \<Rightarrow> bool list \<times> NetworkTimeout" where
  "nt_checks n [] = ([], n)"
| "nt_checks n (t # ts) =
     (let (r, n1) = nt_CheckTimeout n t; (rs, n2) = nt_checks n1 ts in (r # rs, n2))"

lemma nt_checks_inactive: "\<not> nt_active n \<Longrightarrow> nt_checks n ts = (replicate (length ts) False, n)"
  by (induction ts) (simp_all add: nt_CheckTimeout_def)

lemma nt_checks_early:
  "list_all (\<lambda>t. t < nt_timeout_start_ms n + nt_idle_timeout_ms n) ts \<Longrightarrow>
   nt_checks n ts = (replicate (length ts) False, n)"
  by (induction ts) (auto simp: nt_CheckTimeout_def)

lemma nt_checks_append:
  "nt_checks n (ts @ us) = (let (rs, n1) = nt_checks n ts; (qs, n2) = nt_checks n1 us in (rs @ qs, n2))"
  by (induction ts arbitrary: n) (simp_all split: prod.splits)

lemma unat_deadline:
  "unat (a :: u64) + unat b < 2 ^ 64 \<Longrightarrow> (t < a + b \<longleftrightarrow> unat t < unat a + unat b)"
  by (simp add: word_less_nat_alt unat_word_ariths)

subsection \<open>Properties\<close>

text \<open>
  after a refresh the timer fires exactly once, at the first check that is not before the
  deadline: all earlier checks report nothing and leave it running, that check calls the callback
  and stops it, and no later check reports anything. After \<^verbatim>\<open>DisableTimeout\<close> no check does.
\<close>

theorem timeout_fires_once:
  assumes "nt_callback n" and "unat t0 + unat (nt_idle_timeout_ms n) < 2 ^ 64"
    and "list_all (\<lambda>t. unat t < unat t0 + unat (nt_idle_timeout_ms n)) early"
    and "unat t0 + unat (nt_idle_timeout_ms n) \<le> unat late"
  shows "let n1 = snd (nt_RefreshTimeout n t0) in
    nt_checks n1 early = (replicate (length early) False, n1) \<and>
    fst (nt_checks n1 (early @ late # rest)) = replicate (length early) False @ True # replicate (length rest) False \<and>
    nt_fired (snd (nt_checks n1 (early @ late # rest))) = nt_fired n + 1 \<and>
    \<not> nt_IsActive (snd (nt_checks n1 (early @ late # rest))) \<and>
    nt_checks (nt_DisableTimeout n1) rest = (replicate (length rest) False, nt_DisableTimeout n1)"
proof -
  let ?n = "snd (nt_RefreshTimeout n t0)"
  have dl: "t < nt_timeout_start_ms ?n + nt_idle_timeout_ms ?n \<longleftrightarrow> unat t < unat t0 + unat (nt_idle_timeout_ms n)" for t
    using unat_deadline [OF assms(2), of t] by (simp add: nt_RefreshTimeout_def)
  have early: "nt_checks ?n early = (replicate (length early) False, ?n)"
    by (rule nt_checks_early) (simp only: dl assms(3))
  have "\<not> late < nt_timeout_start_ms ?n + nt_idle_timeout_ms ?n"
    using assms(4) by (simp only: dl not_less)
  then have "nt_CheckTimeout ?n late = (True, ?n\<lparr>nt_active := False, nt_fired := nt_fired n + 1\<rparr>)"
    using assms(1) by (auto simp: nt_CheckTimeout_def nt_RefreshTimeout_def)
  then show ?thesis
    using early nt_checks_inactive
    by (simp add: Let_def nt_checks_append nt_IsActive_def nt_DisableTimeout_def)
qed

theorem timeout_fires_once_witness:
  "fst (nt_checks (snd (nt_RefreshTimeout (nt_new DEFAULT_IDLE_TIMEOUT_MS True) 1000)) ([30000, 60999] @ 61000 # [70000])) =
     [False, False, True, False]"
  using timeout_fires_once [of "nt_new DEFAULT_IDLE_TIMEOUT_MS True" 1000 "[30000, 60999]" 61000 "[70000]"]
  by (simp add: nt_new_def DEFAULT_IDLE_TIMEOUT_MS_def Let_def)

end
