(* ===== verification/Bsd_Types.thy ===== *)
theory Bsd_Types
  imports Protocol_Types
begin

unbundle bit_operations_syntax

text \<open>
  The socket types of \<^verbatim>\<open>bsd/bsd_types.hpp\<close>. Socket types, protocols, options and errors are C++ enumerations
  over 32-bit integers into which the service casts values it received, so they are words with named
  values; an address is a record in the order of its fields, port and address in
  network byte order.
\<close>

definition LDN_NETWORK_BASE :: u32 where "LDN_NETWORK_BASE = 0x0A720000"
definition LDN_NETWORK_MASK :: u32 where "LDN_NETWORK_MASK = 0xFFFF0000"

definition IsLdnAddress :: "u32 \<Rightarrow> bool" where
  "IsLdnAddress ip \<longleftrightarrow> ip AND LDN_NETWORK_MASK = LDN_NETWORK_BASE"

definition AF_Inet :: u8 where "AF_Inet = 2"

type_synonym SocketType = u32

definition Sock_Stream :: SocketType where "Sock_Stream = 1"
definition Sock_Dgram :: SocketType where "Sock_Dgram = 2"

type_synonym ProtocolType = u32

definition Proto_Unspecified :: ProtocolType where "Proto_Unspecified = 0"
definition Proto_Tcp :: ProtocolType where "Proto_Tcp = 6"
definition Proto_Udp :: ProtocolType where "Proto_Udp = 17"

lemma proto_distinct [simp]:
  "Proto_Tcp \<noteq> Proto_Udp" "Proto_Udp \<noteq> Proto_Tcp" "Proto_Tcp \<noteq> Proto_Unspecified" "Proto_Unspecified \<noteq> Proto_Tcp"
  by (simp_all add: Proto_Tcp_def Proto_Udp_def Proto_Unspecified_def)

text \<open>\<^verbatim>\<open>__builtin_bswap16\<close> and \<^verbatim>\<open>__builtin_bswap32\<close>: the byte image reversed.\<close>

definition bswap16 :: "u16 \<Rightarrow> u16" where "bswap16 x = get16 (rev (put16 x))"
definition bswap32 :: "u32 \<Rightarrow> u32" where "bswap32 x = get32 (rev (put32 x))"

lemma bswap16_bswap16 [simp]: "bswap16 (bswap16 x) = x"
proof -
  have "put16 (get16 (rev (put16 x))) = rev (put16 x)"
    by (rule u16.to_of) simp
  then show ?thesis
    using u16.of_to [of x] by (simp add: bswap16_def any_value_def)
qed

lemma bswap32_bswap32 [simp]: "bswap32 (bswap32 x) = x"
proof -
  have "put32 (get32 (rev (put32 x))) = rev (put32 x)"
    by (rule u32.to_of) simp
  then show ?thesis
    using u32.of_to [of x] by (simp add: bswap32_def any_value_def)
qed

record SockAddrIn =
  sin_len :: u8
  sin_family :: u8
  sin_port :: u16
  sin_addr :: u32
  sin_zero :: "byte list"

definition GetPort :: "SockAddrIn \<Rightarrow> u16" where "GetPort a = bswap16 (sin_port a)"
definition GetAddr :: "SockAddrIn \<Rightarrow> u32" where "GetAddr a = bswap32 (sin_addr a)"

text \<open>An address with all bytes zero but length and family, and the address of a peer of the proxy.\<close>

definition inet_any :: SockAddrIn where
  "inet_any = \<lparr>sin_len = 16, sin_family = AF_Inet, sin_port = 0, sin_addr = 0, sin_zero = replicate 8 0\<rparr>"

definition inet_addr :: "u32 \<Rightarrow> u16 \<Rightarrow> SockAddrIn" where
  "inet_addr ip port = inet_any\<lparr>sin_port := bswap16 port, sin_addr := bswap32 ip\<rparr>"

lemma inet_addr_fields [simp]: "GetAddr (inet_addr ip port) = ip" "GetPort (inet_addr ip port) = port"
  by (simp_all add: inet_addr_def GetAddr_def GetPort_def)

lemma nat_le_0: "nat_le n 0 = replicate n 0"
  by (induction n) simp_all

lemma bswap_0 [simp]: "bswap16 0 = 0" "bswap32 0 = 0"
proof -
  have "rev (put16 0) = put16 0" "rev (put32 0) = put32 0"
    by (simp_all add: put16_def put32_def le_bytes_def nat_le_0)
  then show "bswap16 0 = 0" "bswap32 0 = 0"
    using u16.of_to [of 0] u32.of_to [of 0] by (simp_all add: bswap16_def bswap32_def)
qed

lemma inet_any_fields [simp]: "GetAddr inet_any = 0" "GetPort inet_any = 0"
  by (simp_all add: inet_any_def GetAddr_def GetPort_def)

datatype BsdErrno = Again | BadF | Fault | Inval | DestAddrReq | MsgSize | NoProtoOpt | OpNotSupp
  | AfNoSupport | AddrInUse | NoMem | NetUnreach | NotConn | TimedOut | ConnRefused | InProgress

fun errno_value :: "BsdErrno \<Rightarrow> int" where
  "errno_value BadF = 9"
| "errno_value Again = 11"
| "errno_value Fault = 14"
| "errno_value Inval = 22"
| "errno_value DestAddrReq = 89"
| "errno_value MsgSize = 90"
| "errno_value NoProtoOpt = 92"
| "errno_value OpNotSupp = 95"
| "errno_value AfNoSupport = 97"
| "errno_value AddrInUse = 98"
| "errno_value NoMem = 12"
| "errno_value NetUnreach = 101"
| "errno_value NotConn = 107"
| "errno_value TimedOut = 110"
| "errno_value ConnRefused = 111"
| "errno_value InProgress = 115"

datatype ShutdownHow = ShutRead | ShutWrite | ShutBoth | ShutOther

subsection \<open>Structures of the service's buffers\<close>

definition wf_SockAddrIn :: "SockAddrIn \<Rightarrow> bool" where
  "wf_SockAddrIn x \<longleftrightarrow> bytes_wf 8 (sin_zero x)"

definition SockAddrIn_to_bytes :: "SockAddrIn \<Rightarrow> byte list" where
  "SockAddrIn_to_bytes x = put8 (sin_len x) @ put8 (sin_family x) @ put16 (sin_port x) @ put32 (sin_addr x) @ sin_zero x"

definition SockAddrIn_of_bytes :: "byte list \<Rightarrow> SockAddrIn" where
  "SockAddrIn_of_bytes bs =
     \<lparr>sin_len = get8 (slice 0 1 bs), sin_family = get8 (slice 1 1 bs), sin_port = get16 (slice 2 2 bs),
      sin_addr = get32 (slice 4 4 bs), sin_zero = slice 8 8 bs\<rparr>"

lemmas SockAddrIn_layout = wf_SockAddrIn_def SockAddrIn_to_bytes_def SockAddrIn_of_bytes_def bytes_wf_def

interpretation SockAddrIn_wire: wire_struct 16 wf_SockAddrIn SockAddrIn_to_bytes SockAddrIn_of_bytes
proof unfold_locales
  fix x :: SockAddrIn
  show "wf_SockAddrIn x \<Longrightarrow> length (SockAddrIn_to_bytes x) = 16"
    by (simp add: SockAddrIn_layout wire_len)
  show "wf_SockAddrIn x \<Longrightarrow> SockAddrIn_of_bytes (SockAddrIn_to_bytes x) = x"
    by (cases x) (simp add: SockAddrIn_layout wire_len wire_rt slice_cut)
next
  fix bs :: "byte list"
  show "length bs = 16 \<Longrightarrow> wf_SockAddrIn (SockAddrIn_of_bytes bs)"
    by (simp add: SockAddrIn_layout wire_wf)
  show "length bs = 16 \<Longrightarrow> SockAddrIn_to_bytes (SockAddrIn_of_bytes bs) = bs"
    by (simp add: SockAddrIn_layout wire_inv slice_glue)
qed

record PollFd =
  pf_fd :: u32
  pf_events :: u16
  pf_revents :: u16

definition wf_PollFd :: "PollFd \<Rightarrow> bool" where
  "wf_PollFd x \<longleftrightarrow> any_value x"

definition PollFd_to_bytes :: "PollFd \<Rightarrow> byte list" where
  "PollFd_to_bytes x = put32 (pf_fd x) @ put16 (pf_events x) @ put16 (pf_revents x)"

definition PollFd_of_bytes :: "byte list \<Rightarrow> PollFd" where
  "PollFd_of_bytes bs = \<lparr>pf_fd = get32 (slice 0 4 bs), pf_events = get16 (slice 4 2 bs), pf_revents = get16 (slice 6 2 bs)\<rparr>"

lemmas PollFd_layout = wf_PollFd_def PollFd_to_bytes_def PollFd_of_bytes_def bytes_wf_def

interpretation PollFd_wire: wire_struct 8 wf_PollFd PollFd_to_bytes PollFd_of_bytes
proof unfold_locales
  fix x :: PollFd
  show "wf_PollFd x \<Longrightarrow> length (PollFd_to_bytes x) = 8"
    by (simp add: PollFd_layout wire_len)
  show "wf_PollFd x \<Longrightarrow> PollFd_of_bytes (PollFd_to_bytes x) = x"
    by (cases x) (simp add: PollFd_layout wire_len wire_rt slice_cut)
next
  fix bs :: "byte list"
  show "length bs = 8 \<Longrightarrow> wf_PollFd (PollFd_of_bytes bs)"
    by (simp add: PollFd_layout wire_wf)
  show "length bs = 8 \<Longrightarrow> PollFd_to_bytes (PollFd_of_bytes bs) = bs"
    by (simp add: PollFd_layout wire_inv slice_glue)
qed

definition Poll_In :: u16 where "Poll_In = 0x0001"
definition Poll_Out :: u16 where "Poll_Out = 0x0004"
definition Poll_Hup :: u16 where "Poll_Hup = 0x0010"

end
