(* ===== verification/Proxy_Socket.thy ===== *)
theory Proxy_Socket
  imports Bsd_Types Ring "HOL-Library.Sublist"
begin

text \<open>
  The virtual socket of \<^verbatim>\<open>bsd/proxy_socket.hpp\<close> and \<^verbatim>\<open>.cpp\<close>: the state of one game socket whose traffic goes
  through the LDN server. The receive queue is a ring of 64 datagrams that drops the oldest one when full. What
  the socket asks the socket manager to send is an output value; whether the manager
  accepted it is an argument. A call that has to wait on an event that is not signalled is \<^verbatim>\<open>Blocked\<close>;
  the wake-up runs the code after the wait. A negative return value is the error it encodes. An accepted connection waits
  in the accept queue as the data its socket is made of.
\<close>

definition PROXY_SOCKET_MAX_QUEUE_SIZE :: nat where "PROXY_SOCKET_MAX_QUEUE_SIZE = 64"
definition PROXY_SOCKET_MAX_PAYLOAD :: nat where "PROXY_SOCKET_MAX_PAYLOAD = 2000"

datatype ProxySocketState = Created | Bound | Connecting | Connected | Listening | Closed

record ReceivedPacket =
  rp_from :: SockAddrIn
  rp_len :: u16
  rp_data :: "byte list"

text \<open>What a socket hands to the manager: source, destination, protocol and, for data, the payload.\<close>

datatype proxy_out =
    OutData u32 u16 u32 u16 ProtocolType "byte list"
  | OutConnect u32 u16 u32 u16 ProtocolType
  | OutConnectReply u32 u16 u32 u16 ProtocolType
  | OutDisconnect u32 u16 u32 u16 ProtocolType

record AcceptedSocket =
  acc_local_addr :: SockAddrIn
  acc_remote_addr :: SockAddrIn

record ProxySocket =
  ps_type :: SocketType
  ps_protocol :: ProtocolType
  ps_state :: ProxySocketState
  ps_non_blocking :: bool
  ps_shutdown_read :: bool
  ps_shutdown_write :: bool
  ps_local_addr :: SockAddrIn
  ps_remote_addr :: SockAddrIn
  ps_rx_ring :: "ReceivedPacket list"
  ps_rx_head :: nat
  ps_rx_tail :: nat
  ps_rx_count :: nat
  ps_receive_event :: bool
  ps_accept_queue :: "AcceptedSocket list"
  ps_accept_event :: bool
  ps_connect_response_received :: bool
  ps_connect_response :: ProxyConnectResponse
  ps_connect_event :: bool
  ps_broadcast :: bool

text \<open>The ring is not initialised by the constructor: its contents are an argument.\<close>

definition ps_new :: "ReceivedPacket list \<Rightarrow> SocketType \<Rightarrow> ProtocolType \<Rightarrow> ProxySocket" where
  "ps_new ring ty protocol = \<lparr>ps_type = ty, ps_protocol = protocol, ps_state = Created, ps_non_blocking = False,
     ps_shutdown_read = False, ps_shutdown_write = False, ps_local_addr = inet_any, ps_remote_addr = inet_any,
     ps_rx_ring = ring, ps_rx_head = 0, ps_rx_tail = 0, ps_rx_count = 0, ps_receive_event = False,
     ps_accept_queue = [], ps_accept_event = False, ps_connect_response_received = False,
     ps_connect_response = ProxyConnectResponse_of_bytes (replicate 16 0), ps_connect_event = False,
     ps_broadcast = False\<rparr>"

definition ps_SetNonBlocking :: "ProxySocket \<Rightarrow> bool \<Rightarrow> ProxySocket" where
  "ps_SetNonBlocking s non_blocking = s\<lparr>ps_non_blocking := non_blocking\<rparr>"

subsection \<open>Addresses\<close>

definition ps_Bind :: "ProxySocket \<Rightarrow> SockAddrIn \<Rightarrow> (BsdErrno + unit) \<times> ProxySocket" where
  "ps_Bind s addr =
     (if ps_state s \<noteq> Created then (Inl Inval, s)
      else if sin_family addr \<noteq> AF_Inet then (Inl AfNoSupport, s)
      else (Inr (), s\<lparr>ps_local_addr := addr, ps_state := Bound\<rparr>))"

text \<open>
  \<^verbatim>\<open>Connect\<close>: \<open>sent\<close> is the manager's answer to the connect message, \<open>response\<close> the reply that
  arrives within the four seconds of a blocking connect, if any.
\<close>

definition connect_msg :: "ProxySocket \<Rightarrow> SockAddrIn \<Rightarrow> proxy_out" where
  "connect_msg s addr = OutConnect (GetAddr (ps_local_addr s)) (GetPort (ps_local_addr s)) (GetAddr addr) (GetPort addr)
     (ps_protocol s)"

definition ps_HandleConnectResponse :: "ProxySocket \<Rightarrow> ProxyConnectResponse \<Rightarrow> ProxySocket" where
  "ps_HandleConnectResponse s response =
     s\<lparr>ps_connect_response := response, ps_connect_response_received := True, ps_connect_event := True\<rparr>"

definition ps_Connect :: "ProxySocket \<Rightarrow> SockAddrIn \<Rightarrow> bool \<Rightarrow> ProxyConnectResponse option \<Rightarrow>
    (BsdErrno + unit) \<times> proxy_out list \<times> ProxySocket" where
  "ps_Connect s addr sent response =
     (if ps_state s = Closed then (Inl BadF, [], s)
      else if sin_family addr \<noteq> AF_Inet then (Inl AfNoSupport, [], s)
      else let s = s\<lparr>ps_remote_addr := addr\<rparr> in
        if ps_type s = Sock_Stream then
          (let s = s\<lparr>ps_state := Connecting, ps_connect_response_received := False, ps_connect_event := False\<rparr>;
               out = [connect_msg s addr]
           in if \<not> sent then (Inl NetUnreach, out, s\<lparr>ps_state := Bound\<rparr>)
              else if \<not> ps_non_blocking s then
                (case response of
                   None \<Rightarrow> (Inl TimedOut, out, s\<lparr>ps_state := Bound\<rparr>)
                 | Some r \<Rightarrow>
                     let s = ps_HandleConnectResponse s r in
                     if pinfo_protocol (pcres_info r) \<noteq> Proto_Unspecified
                     then (Inl ConnRefused, out, s\<lparr>ps_state := Bound\<rparr>)
                     else (Inr (), out, s\<lparr>ps_state := Connected\<rparr>))
              else (Inl InProgress, out, s))
        else (Inr (), [], s\<lparr>ps_state := Connected\<rparr>))"

text \<open>The output pointer of the name queries is never null in the model.\<close>

definition ps_GetSockName :: "ProxySocket \<Rightarrow> SockAddrIn" where
  "ps_GetSockName s = (if ps_state s = Created then inet_any else ps_local_addr s)"

definition ps_GetPeerName :: "ProxySocket \<Rightarrow> BsdErrno + SockAddrIn" where
  "ps_GetPeerName s = (if ps_state s \<noteq> Connected then Inl NotConn else Inr (ps_remote_addr s))"

subsection \<open>Data transfer\<close>

definition data_msg :: "ProxySocket \<Rightarrow> SockAddrIn \<Rightarrow> byte list \<Rightarrow> proxy_out" where
  "data_msg s dest d = OutData (GetAddr (ps_local_addr s)) (GetPort (ps_local_addr s)) (GetAddr dest) (GetPort dest)
     (ps_protocol s) d"

definition ps_SendTo :: "ProxySocket \<Rightarrow> byte list option \<Rightarrow> nat \<Rightarrow> SockAddrIn \<Rightarrow> bool \<Rightarrow>
    (BsdErrno + nat) \<times> proxy_out list" where
  "ps_SendTo s data len dest sent =
     (if ps_shutdown_write s then (Inl Inval, [])
      else if ps_state s = Closed then (Inl BadF, [])
      else if ps_state s = Created then (Inl DestAddrReq, [])
      else if data = None \<and> len > 0 then (Inl Fault, [])
      else if len > PROXY_SOCKET_MAX_PAYLOAD then (Inl MsgSize, [])
      else let out = [data_msg s dest (case data of Some d \<Rightarrow> take len d | None \<Rightarrow> [])]
        in if \<not> sent then (Inl NetUnreach, out) else (Inr len, out))"

definition ps_Send :: "ProxySocket \<Rightarrow> byte list option \<Rightarrow> nat \<Rightarrow> bool \<Rightarrow> (BsdErrno + nat) \<times> proxy_out list" where
  "ps_Send s data len sent =
     (if ps_state s \<noteq> Connected then (Inl NotConn, []) else ps_SendTo s data len (ps_remote_addr s) sent)"

datatype recv_result = Blocked | Failed BsdErrno | Received "byte list" "SockAddrIn option"

text \<open>\<open>consume_front\<close>, the copy-and-pop of both receive paths.\<close>

definition consume_front :: "ProxySocket \<Rightarrow> nat \<Rightarrow> bool \<Rightarrow> recv_result \<times> ProxySocket" where
  "consume_front s out_len peek =
     (let slot = ps_rx_ring s ! ps_rx_head s;
          copy_len = min out_len (unat (rp_len slot));
          s' = (if \<not> peek
                then s\<lparr>ps_rx_head := (ps_rx_head s + 1) mod PROXY_SOCKET_MAX_QUEUE_SIZE, ps_rx_count := ps_rx_count s - 1\<rparr>
                else s)
      in (Received (take copy_len (rp_data slot)) (Some (rp_from slot)),
          if ps_rx_count s' = 0 then s'\<lparr>ps_receive_event := False\<rparr> else s'))"

text \<open>The code after the wait of a blocking receive.\<close>

definition ps_recv_wakeup :: "ProxySocket \<Rightarrow> nat \<Rightarrow> bool \<Rightarrow> recv_result \<times> ProxySocket" where
  "ps_recv_wakeup s len peek = (if ps_rx_count s > 0 then consume_front s len peek else (Failed Again, s))"

definition ps_RecvFrom :: "ProxySocket \<Rightarrow> bool \<Rightarrow> nat \<Rightarrow> u32 \<Rightarrow> recv_result \<times> ProxySocket" where
  "ps_RecvFrom s buffer_null len flags =
     (if ps_shutdown_read s then (Received [] None, s)
      else if ps_state s = Closed then (Failed BadF, s)
      else if buffer_null \<and> len > 0 then (Failed Fault, s)
      else let peek = flags AND 0x2 \<noteq> 0; dontwait = flags AND 0x80 \<noteq> 0 \<or> ps_non_blocking s
        in if ps_rx_count s = 0 then
             (if dontwait then (Failed Again, s)
              else if \<not> ps_receive_event s then (Blocked, s)
              else ps_recv_wakeup s len peek)
           else consume_front s len peek)"

definition ps_Recv :: "ProxySocket \<Rightarrow> bool \<Rightarrow> nat \<Rightarrow> u32 \<Rightarrow> recv_result \<times> ProxySocket" where
  "ps_Recv s buffer_null len flags =
     (if ps_state s = Connected then ps_RecvFrom s buffer_null len flags else (Failed NotConn, s))"

definition ps_IncomingData :: "ProxySocket \<Rightarrow> byte list option \<Rightarrow> nat \<Rightarrow> SockAddrIn \<Rightarrow> ProxySocket" where
  "ps_IncomingData s data len from =
     (let copy_len = min len PROXY_SOCKET_MAX_PAYLOAD;
          s = (if ps_rx_count s \<ge> PROXY_SOCKET_MAX_QUEUE_SIZE
               then s\<lparr>ps_rx_head := (ps_rx_head s + 1) mod PROXY_SOCKET_MAX_QUEUE_SIZE, ps_rx_count := ps_rx_count s - 1\<rparr>
               else s);
          slot = ps_rx_ring s ! ps_rx_tail s;
          bytes = (case data of Some d \<Rightarrow> if copy_len > 0 then memcpy (rp_data slot) 0 (take copy_len d) else rp_data slot
                   | None \<Rightarrow> rp_data slot)
      in s\<lparr>ps_rx_ring := (ps_rx_ring s)[ps_rx_tail s := \<lparr>rp_from = from, rp_len = word_of_nat copy_len, rp_data = bytes\<rparr>],
           ps_rx_tail := (ps_rx_tail s + 1) mod PROXY_SOCKET_MAX_QUEUE_SIZE,
           ps_rx_count := ps_rx_count s + 1,
           ps_receive_event := True\<rparr>)"

definition ps_PopFrontPacket :: "ProxySocket \<Rightarrow> bool \<Rightarrow> ReceivedPacket option \<times> ProxySocket" where
  "ps_PopFrontPacket s peek =
     (if ps_rx_count s = 0 then (None, s)
      else (Some (ps_rx_ring s ! ps_rx_head s),
            if \<not> peek
            then s\<lparr>ps_rx_head := (ps_rx_head s + 1) mod PROXY_SOCKET_MAX_QUEUE_SIZE, ps_rx_count := ps_rx_count s - 1\<rparr>
            else s))"

definition ps_HasPendingData :: "ProxySocket \<Rightarrow> bool" where
  "ps_HasPendingData s \<longleftrightarrow> ps_rx_count s > 0"

definition ps_GetPendingDataSize :: "ProxySocket \<Rightarrow> nat" where
  "ps_GetPendingDataSize s =
     sum_list (map (\<lambda>i. unat (rp_len (ps_rx_ring s ! ((ps_rx_head s + i) mod PROXY_SOCKET_MAX_QUEUE_SIZE)))) [0..<ps_rx_count s])"

text \<open>\<open>signalled\<close>: whether the event is signalled while waiting.\<close>

definition ps_WaitForData :: "ProxySocket \<Rightarrow> u64 \<Rightarrow> bool \<Rightarrow> bool option" where
  "ps_WaitForData s timeout_ms signalled =
     (if ps_HasPendingData s then Some True
      else if timeout_ms = 0 then (if ps_receive_event s \<or> signalled then Some True else None)
      else Some (ps_receive_event s \<or> signalled))"

subsection \<open>Options\<close>

definition SOL_Socket :: u32 where "SOL_Socket = 0xFFFF"
definition SO_Broadcast :: u32 where "SO_Broadcast = 0x20"
definition SO_Error :: u32 where "SO_Error = 0x1007"
definition SO_Type :: u32 where "SO_Type = 0x1008"

text \<open>The option value is its byte image; \<^verbatim>\<open>None\<close> is a null pointer.\<close>

definition ps_SetSockOpt :: "ProxySocket \<Rightarrow> u32 \<Rightarrow> u32 \<Rightarrow> byte list option \<Rightarrow> (BsdErrno + unit) \<times> ProxySocket" where
  "ps_SetSockOpt s level optname optval =
     (if level = SOL_Socket \<and> optname = SO_Broadcast
      then (case optval of
              Some v \<Rightarrow> if length v \<ge> 4 then (Inr (), s\<lparr>ps_broadcast := (get32 (take 4 v) \<noteq> 0)\<rparr>) else (Inl Inval, s)
            | None \<Rightarrow> (Inl Inval, s))
      else (Inr (), s))"

definition ps_GetSockOpt :: "ProxySocket \<Rightarrow> u32 \<Rightarrow> u32 \<Rightarrow> nat option \<Rightarrow> BsdErrno + u32" where
  "ps_GetSockOpt s level optname optlen =
     (case optlen of
        None \<Rightarrow> Inl Fault
      | Some n \<Rightarrow>
          if level = SOL_Socket \<and> optname = SO_Type \<and> n \<ge> 4 then Inr (ps_type s)
          else if level = SOL_Socket \<and> optname = SO_Error \<and> n \<ge> 4 then Inr 0
          else if level = SOL_Socket \<and> optname = SO_Broadcast \<and> n \<ge> 4 then Inr (if ps_broadcast s then 1 else 0)
          else Inl NoProtoOpt)"

subsection \<open>Connections\<close>

definition ps_Listen :: "ProxySocket \<Rightarrow> (BsdErrno + unit) \<times> ProxySocket" where
  "ps_Listen s =
     (if ps_type s \<noteq> Sock_Stream then (Inl OpNotSupp, s)
      else if ps_state s = Created then (Inl Inval, s)
      else (Inr (), s\<lparr>ps_state := Listening\<rparr>))"

text \<open>\<^verbatim>\<open>IncomingConnection\<close> queues the connection and replies to the peer.\<close>

definition ps_IncomingConnection :: "ProxySocket \<Rightarrow> ProxyConnectRequest \<Rightarrow> proxy_out list \<times> ProxySocket" where
  "ps_IncomingConnection s request =
     (if ps_state s \<noteq> Listening then ([], s)
      else let info = pcreq_info request;
               accepted = \<lparr>acc_local_addr = ps_local_addr s,
                           acc_remote_addr = inet_addr (pinfo_source_ipv4 info) (pinfo_source_port info)\<rparr>
        in ([OutConnectReply (GetAddr (ps_local_addr s)) (GetPort (ps_local_addr s)) (pinfo_source_ipv4 info)
               (pinfo_source_port info) Proto_Tcp],
            s\<lparr>ps_accept_queue := ps_accept_queue s @ [accepted], ps_accept_event := True\<rparr>))"

text \<open>The socket of an accepted connection.\<close>

definition accepted_socket :: "ReceivedPacket list \<Rightarrow> ProxySocket \<Rightarrow> AcceptedSocket \<Rightarrow> ProxySocket" where
  "accepted_socket ring listener a =
     (ps_new ring (ps_type listener) (ps_protocol listener))
       \<lparr>ps_local_addr := acc_local_addr a, ps_remote_addr := acc_remote_addr a, ps_state := Connected\<rparr>"

datatype accept_result = AcceptBlocked | NoConnection | AcceptedConnection ProxySocket SockAddrIn

definition accept_front :: "ReceivedPacket list \<Rightarrow> ProxySocket \<Rightarrow> accept_result \<times> ProxySocket" where
  "accept_front ring s =
     (case ps_accept_queue s of
        [] \<Rightarrow> (NoConnection, s)
      | a # rest \<Rightarrow>
          (AcceptedConnection (accepted_socket ring s a) (acc_remote_addr a),
           (if rest = [] then s\<lparr>ps_accept_event := False\<rparr> else s)\<lparr>ps_accept_queue := rest\<rparr>))"

definition ps_Accept :: "ReceivedPacket list \<Rightarrow> ProxySocket \<Rightarrow> accept_result \<times> ProxySocket" where
  "ps_Accept ring s =
     (if ps_state s \<noteq> Listening then (NoConnection, s)
      else if ps_accept_queue s = [] then
        (if ps_non_blocking s then (NoConnection, s)
         else if \<not> ps_accept_event s then (AcceptBlocked, s)
         else accept_front ring s)
      else accept_front ring s)"

definition ps_HasPendingConnections :: "ProxySocket \<Rightarrow> bool" where
  "ps_HasPendingConnections s \<longleftrightarrow> ps_accept_queue s \<noteq> []"

definition ps_Shutdown :: "ProxySocket \<Rightarrow> ShutdownHow \<Rightarrow> (BsdErrno + unit) \<times> ProxySocket" where
  "ps_Shutdown s how =
     (case how of
        ShutRead \<Rightarrow> (Inr (), s\<lparr>ps_shutdown_read := True, ps_receive_event := True\<rparr>)
      | ShutWrite \<Rightarrow> (Inr (), s\<lparr>ps_shutdown_write := True, ps_receive_event := True\<rparr>)
      | ShutBoth \<Rightarrow> (Inr (), s\<lparr>ps_shutdown_read := True, ps_shutdown_write := True, ps_receive_event := True\<rparr>)
      | ShutOther \<Rightarrow> (Inl Inval, s))"

definition ps_Close :: "ProxySocket \<Rightarrow> proxy_out list \<times> ProxySocket" where
  "ps_Close s =
     (let s = s\<lparr>ps_state := Closed, ps_shutdown_read := True, ps_shutdown_write := True, ps_receive_event := True,
               ps_rx_head := 0, ps_rx_tail := 0, ps_rx_count := 0\<rparr>
      in (if ps_protocol s = Proto_Tcp \<and> GetPort (ps_remote_addr s) \<noteq> 0
          then [OutDisconnect (GetAddr (ps_local_addr s)) (GetPort (ps_local_addr s)) (GetAddr (ps_remote_addr s))
                  (GetPort (ps_remote_addr s)) Proto_Tcp]
          else [], s))"

subsection \<open>The receive queue\<close>

definition ps_inv :: "ProxySocket \<Rightarrow> bool" where
  "ps_inv s \<longleftrightarrow> length (ps_rx_ring s) = PROXY_SOCKET_MAX_QUEUE_SIZE \<and>
     list_all (\<lambda>p. length (rp_data p) = PROXY_SOCKET_MAX_PAYLOAD) (ps_rx_ring s) \<and>
     ps_rx_head s < PROXY_SOCKET_MAX_QUEUE_SIZE \<and> ps_rx_count s \<le> PROXY_SOCKET_MAX_QUEUE_SIZE \<and>
     ps_rx_tail s = (ps_rx_head s + ps_rx_count s) mod PROXY_SOCKET_MAX_QUEUE_SIZE \<and>
     (ps_rx_count s > 0 \<longrightarrow> ps_receive_event s)"

definition rp_content :: "ReceivedPacket \<Rightarrow> SockAddrIn \<times> byte list" where
  "rp_content p = (rp_from p, take (unat (rp_len p)) (rp_data p))"

definition ps_queue :: "ProxySocket \<Rightarrow> (SockAddrIn \<times> byte list) list" where
  "ps_queue s = map rp_content (ring_list PROXY_SOCKET_MAX_QUEUE_SIZE (ps_rx_ring s) (ps_rx_head s) (ps_rx_count s))"

lemma length_ps_queue [simp]: "length (ps_queue s) = ps_rx_count s"
  by (simp add: ps_queue_def)

lemmas ps_consts = PROXY_SOCKET_MAX_QUEUE_SIZE_def PROXY_SOCKET_MAX_PAYLOAD_def

text \<open>Dropping the oldest datagram.\<close>

definition ps_drop :: "ProxySocket \<Rightarrow> ProxySocket" where
  "ps_drop s = s\<lparr>ps_rx_head := (ps_rx_head s + 1) mod PROXY_SOCKET_MAX_QUEUE_SIZE, ps_rx_count := ps_rx_count s - 1\<rparr>"

lemma ps_drop_facts:
  assumes "ps_inv s" and "0 < ps_rx_count s"
  shows "ps_inv (ps_drop s)" "ps_queue s = rp_content (ps_rx_ring s ! ps_rx_head s) # ps_queue (ps_drop s)"
proof -
  have "(ps_rx_head s + 1) mod PROXY_SOCKET_MAX_QUEUE_SIZE < PROXY_SOCKET_MAX_QUEUE_SIZE"
    by (simp add: ps_consts)
  then show "ps_inv (ps_drop s)"
    using assms ring_pop_tail [OF assms(2), of "ps_rx_head s" PROXY_SOCKET_MAX_QUEUE_SIZE]
    by (auto simp: ps_inv_def ps_drop_def)
  show "ps_queue s = rp_content (ps_rx_ring s ! ps_rx_head s) # ps_queue (ps_drop s)"
    using assms ring_pop [OF assms(2), of "ps_rx_head s" PROXY_SOCKET_MAX_QUEUE_SIZE "ps_rx_ring s"]
    by (simp add: ps_queue_def ps_inv_def ps_drop_def)
qed

text \<open>The part of \<^verbatim>\<open>IncomingData\<close> after the drop.\<close>

definition ps_push :: "ProxySocket \<Rightarrow> byte list \<Rightarrow> SockAddrIn \<Rightarrow> ProxySocket" where
  "ps_push s d src =
     s\<lparr>ps_rx_ring := (ps_rx_ring s)[ps_rx_tail s := \<lparr>rp_from = src, rp_len = word_of_nat (length d),
         rp_data = memcpy (rp_data (ps_rx_ring s ! ps_rx_tail s)) 0 d\<rparr>],
       ps_rx_tail := (ps_rx_tail s + 1) mod PROXY_SOCKET_MAX_QUEUE_SIZE,
       ps_rx_count := ps_rx_count s + 1, ps_receive_event := True\<rparr>"

lemma IncomingData_push:
  "ps_IncomingData s (Some d) (length d) src =
     ps_push (if ps_rx_count s \<ge> PROXY_SOCKET_MAX_QUEUE_SIZE then ps_drop s else s) (take PROXY_SOCKET_MAX_PAYLOAD d) src"
proof -
  have len: "length (take PROXY_SOCKET_MAX_PAYLOAD d) = min (length d) PROXY_SOCKET_MAX_PAYLOAD"
    by (simp add: min.commute)
  have "take (min (length d) PROXY_SOCKET_MAX_PAYLOAD) d = take PROXY_SOCKET_MAX_PAYLOAD d"
    by (simp add: min_def)
  then show ?thesis
    by (auto simp: ps_IncomingData_def ps_push_def ps_drop_def Let_def len ps_consts)
qed

lemma ps_push_facts:
  assumes "ps_inv s" and "ps_rx_count s < PROXY_SOCKET_MAX_QUEUE_SIZE" and "length d \<le> PROXY_SOCKET_MAX_PAYLOAD"
  shows "ps_inv (ps_push s d src)" "ps_queue (ps_push s d src) = ps_queue s @ [(src, d)]"
proof -
  have tail: "ps_rx_tail s < length (ps_rx_ring s)"
    using assms(1) by (simp add: ps_inv_def ps_consts)
  then have data: "length (rp_data (ps_rx_ring s ! ps_rx_tail s)) = PROXY_SOCKET_MAX_PAYLOAD"
    using assms(1) by (simp add: ps_inv_def list_all_length)
  have "Suc (ps_rx_tail s) mod PROXY_SOCKET_MAX_QUEUE_SIZE =
      Suc (ps_rx_head s + ps_rx_count s) mod PROXY_SOCKET_MAX_QUEUE_SIZE"
    using assms(1) by (simp add: ps_inv_def mod_Suc_eq)
  then show "ps_inv (ps_push s d src)"
    using assms data by (auto simp: ps_inv_def ps_push_def list_all_length nth_list_update)
  have "unat (word_of_nat (length d) :: u16) = length d"
    using assms(3) by (simp add: ps_consts unat_of_nat take_bit_nat_eq_self)
  then have "rp_content \<lparr>rp_from = src, rp_len = word_of_nat (length d),
      rp_data = memcpy (rp_data (ps_rx_ring s ! ps_rx_tail s)) 0 d\<rparr> = (src, d)"
    by (simp add: rp_content_def take_memcpy_0)
  then show "ps_queue (ps_push s d src) = ps_queue s @ [(src, d)]"
    using ring_push [of "ps_rx_count s" PROXY_SOCKET_MAX_QUEUE_SIZE "ps_rx_ring s" "ps_rx_tail s" "ps_rx_head s"] assms(1,2)
    by (simp add: ps_queue_def ps_push_def ps_inv_def)
qed

lemma IncomingData_facts:
  assumes "ps_inv s"
  shows "ps_inv (ps_IncomingData s (Some d) (length d) src)"
    "ps_queue (ps_IncomingData s (Some d) (length d) src) =
       (if ps_rx_count s < PROXY_SOCKET_MAX_QUEUE_SIZE then ps_queue s else tl (ps_queue s)) @ [(src, take PROXY_SOCKET_MAX_PAYLOAD d)]"
proof -
  let ?s = "if ps_rx_count s \<ge> PROXY_SOCKET_MAX_QUEUE_SIZE then ps_drop s else s"
  have s: "ps_inv ?s" "ps_rx_count ?s < PROXY_SOCKET_MAX_QUEUE_SIZE"
    "ps_queue ?s = (if ps_rx_count s < PROXY_SOCKET_MAX_QUEUE_SIZE then ps_queue s else tl (ps_queue s))"
    using assms ps_drop_facts [OF assms] by (auto simp: ps_drop_def ps_inv_def ps_consts)
  show "ps_inv (ps_IncomingData s (Some d) (length d) src)"
    "ps_queue (ps_IncomingData s (Some d) (length d) src) =
       (if ps_rx_count s < PROXY_SOCKET_MAX_QUEUE_SIZE then ps_queue s else tl (ps_queue s)) @ [(src, take PROXY_SOCKET_MAX_PAYLOAD d)]"
    using ps_push_facts [OF s(1,2), of "take PROXY_SOCKET_MAX_PAYLOAD d" src] s(3) by (simp_all add: IncomingData_push)
qed

lemma consume_front_drop:
  assumes "ps_inv s" and "0 < ps_rx_count s"
  shows "consume_front s n False =
    (Received (take n (snd (hd (ps_queue s)))) (Some (fst (hd (ps_queue s)))),
     if ps_rx_count s = 1 then (ps_drop s)\<lparr>ps_receive_event := False\<rparr> else ps_drop s)"
  using assms ps_drop_facts(2) [OF assms]
  by (auto simp: consume_front_def ps_drop_def Let_def rp_content_def min.commute)

text \<open>The queue as its two threads use it: datagrams in, non-blocking whole reads out.\<close>

definition ps_put :: "ProxySocket \<Rightarrow> SockAddrIn \<times> byte list \<Rightarrow> ProxySocket" where
  "ps_put s m = ps_IncomingData s (Some (snd m)) (length (snd m)) (fst m)"

definition ps_get :: "ProxySocket \<Rightarrow> (SockAddrIn \<times> byte list) option \<times> ProxySocket" where
  "ps_get s = (case ps_RecvFrom s False PROXY_SOCKET_MAX_PAYLOAD 0x80 of
     (Received d (Some a), s') \<Rightarrow> (Some (a, d), s') | (_, s') \<Rightarrow> (None, s'))"

definition ps_clip :: "SockAddrIn \<times> byte list \<Rightarrow> SockAddrIn \<times> byte list" where
  "ps_clip m = (fst m, take PROXY_SOCKET_MAX_PAYLOAD (snd m))"

definition ps_open :: "ProxySocket \<Rightarrow> bool" where
  "ps_open s \<longleftrightarrow> ps_inv s \<and> \<not> ps_shutdown_read s \<and> ps_state s \<noteq> Closed \<and>
     list_all (\<lambda>m. length (snd m) \<le> PROXY_SOCKET_MAX_PAYLOAD) (ps_queue s)"

lemma IncomingData_frame [simp]:
  "ps_shutdown_read (ps_IncomingData s d n a) = ps_shutdown_read s" "ps_state (ps_IncomingData s d n a) = ps_state s"
  "ps_local_addr (ps_IncomingData s d n a) = ps_local_addr s" "ps_protocol (ps_IncomingData s d n a) = ps_protocol s"
  "ps_type (ps_IncomingData s d n a) = ps_type s"
  by (simp_all add: ps_IncomingData_def Let_def)

lemma ps_queue_event [simp]: "ps_queue (s\<lparr>ps_receive_event := v\<rparr>) = ps_queue s"
  by (simp add: ps_queue_def)

lemma list_all_tl: "list_all P xs \<Longrightarrow> list_all P (tl xs)"
  by (cases xs) simp_all

interpretation ps: lossy_queue PROXY_SOCKET_MAX_QUEUE_SIZE ps_queue ps_open ps_clip ps_put ps_get
proof (unfold_locales, goal_cases)
  case (1 s m)
  then show ?case
    using IncomingData_facts [of s "snd m" "fst m"] by (auto simp: ps_open_def ps_put_def list_all_tl)
next
  case (2 s m)
  then show ?case
    using IncomingData_facts(2) [of s "snd m" "fst m"] by (simp add: ps_open_def ps_put_def ps_clip_def)
next
  case (3 s)
  then show ?case
    using length_ps_queue [of s] by (simp add: ps_open_def ps_get_def ps_RecvFrom_def)
next
  case (4 s m ms)
  have inv: "ps_inv s" and pos: "0 < ps_rx_count s"
    using 4 length_ps_queue [of s] by (auto simp: ps_open_def)
  have rest: "ps_queue (ps_drop s) = ms"
    using ps_drop_facts(2) [OF inv pos] 4(2) by simp
  have "ps_get s = (Some m, if ps_rx_count s = 1 then (ps_drop s)\<lparr>ps_receive_event := False\<rparr> else ps_drop s)"
    using 4 consume_front_drop [OF inv pos] pos
    by (simp add: ps_get_def ps_RecvFrom_def ps_open_def Let_def)
  moreover have "ps_open (if ps_rx_count s = 1 then (ps_drop s)\<lparr>ps_receive_event := False\<rparr> else ps_drop s)"
    using ps_drop_facts(1) [OF inv pos] 4 rest by (auto simp: ps_open_def ps_inv_def ps_drop_def)
  ultimately show ?case
    using rest by auto
qed

definition blank_ring :: "ReceivedPacket list" where
  "blank_ring = replicate 64 \<lparr>rp_from = inet_any, rp_len = 0, rp_data = replicate 2000 0\<rparr>"

lemma ps_new_open: "ps_open (ps_new blank_ring ty pr)" "ps_queue (ps_new blank_ring ty pr) = []"
  by (simp_all add: ps_open_def ps_inv_def ps_new_def ps_queue_def blank_ring_def ps_consts list_all_length)

subsection \<open>Properties\<close>

text \<open>
  C23: the receive queue of a game socket never reorders, duplicates or alters: whatever the
  interleaving of arriving datagrams and reads, the datagrams read, followed by those still queued, are a
  subsequence of the datagrams that arrived (each cut at 2000 bytes), and all of them as long as
  no more than 64 have arrived.
\<close>

theorem receive_queue_in_order:
  assumes "ps_open s" and "ps_queue s = []" and "lossy_run ps_put ps_get s ops = (taken, s')"
  shows "subseq (taken @ ps_queue s') (map ps_clip (arrivals ops)) \<and> ps_inv s' \<and>
    (length (arrivals ops) \<le> 64 \<longrightarrow> taken @ ps_queue s' = map ps_clip (arrivals ops))"
  using ps.lossy_run_subseq [OF assms(1,3)] ps.lossy_run_lossless [OF assms(1,3)] assms(2)
  by (simp add: ps_open_def PROXY_SOCKET_MAX_QUEUE_SIZE_def)

theorem receive_queue_in_order_witness:
  "let ops = [Arrive (inet_addr 1 2, [7, 8]), Take, Arrive (inet_addr 3 4, [9]), Arrive (inet_addr 5 6, [])]
   in subseq (fst (lossy_run ps_put ps_get (ps_new blank_ring Sock_Dgram Proto_Udp) ops) @
        ps_queue (snd (lossy_run ps_put ps_get (ps_new blank_ring Sock_Dgram Proto_Udp) ops))) (map ps_clip (arrivals ops))"
  using receive_queue_in_order [OF ps_new_open]
  by (simp add: Let_def del: lossy_run.simps)

text \<open>
  \<^verbatim>\<open>SendTo\<close> sends nothing unless the socket is open, bound and not shut down for writing and the
  payload has at most 2000 bytes; then it hands exactly one data message with the socket's own address as
  source and the payload unchanged to the manager, and reports its length iff the manager accepted it.
\<close>

theorem sendto_guarded:
  "(let (r, out) = ps_SendTo s (Some d) (length d) dest sent in
     (out \<noteq> [] \<longleftrightarrow> \<not> ps_shutdown_write s \<and> ps_state s \<noteq> Closed \<and> ps_state s \<noteq> Created \<and> length d \<le> 2000) \<and>
     (out \<noteq> [] \<longrightarrow> out = [OutData (GetAddr (ps_local_addr s)) (GetPort (ps_local_addr s)) (GetAddr dest) (GetPort dest)
        (ps_protocol s) d]) \<and>
     (r = Inr (length d) \<longleftrightarrow> out \<noteq> [] \<and> sent))"
  by (auto simp: ps_SendTo_def Let_def data_msg_def PROXY_SOCKET_MAX_PAYLOAD_def)

theorem sendto_guarded_witness:
  "snd (ps_SendTo ((ps_new blank_ring Sock_Dgram Proto_Udp)\<lparr>ps_state := Bound\<rparr>) (Some [1, 2]) (length [1, 2 :: byte]) (inet_addr 3 4) True) =
     [OutData 0 0 3 4 Proto_Udp [1, 2]]"
proof -
  let ?s = "(ps_new blank_ring Sock_Dgram Proto_Udp)\<lparr>ps_state := Bound\<rparr>"
  have "\<not> ps_shutdown_write ?s" "ps_state ?s = Bound" "ps_local_addr ?s = inet_any" "ps_protocol ?s = Proto_Udp"
    by (simp_all add: ps_new_def)
  then show ?thesis
    using sendto_guarded [of ?s "[1, 2]" "inet_addr 3 4" True] by (auto split: prod.splits)
qed

text \<open>
  A non-blocking connect of a stream socket never completes: it reports that it is in progress, and no
  number of replies makes the socket connected, so every later send is refused.
\<close>

theorem nonblocking_connect_never_completes:
  assumes "ps_Connect s addr True response = (r, out, s')" and "ps_type s = Sock_Stream" and "ps_non_blocking s"
    and "ps_state s \<noteq> Closed" and "sin_family addr = AF_Inet"
  shows "r = Inl InProgress \<and> ps_state (foldl ps_HandleConnectResponse s' replies) = Connecting \<and>
    ps_Send (foldl ps_HandleConnectResponse s' replies) (Some d) (length d) sent = (Inl NotConn, [])"
proof -
  have s': "r = Inl InProgress" "ps_state s' = Connecting"
    using assms by (auto simp: ps_Connect_def Let_def)
  have "ps_state (foldl ps_HandleConnectResponse t replies) = ps_state t" for t
    by (induction replies arbitrary: t) (simp_all add: ps_HandleConnectResponse_def)
  then show ?thesis
    using s' by (simp add: ps_Send_def)
qed

theorem nonblocking_connect_never_completes_witness:
  "let s = snd (snd (ps_Connect (ps_SetNonBlocking (ps_new blank_ring Sock_Stream Proto_Tcp) True) (inet_addr 1 2) True None))
   in ps_state (ps_HandleConnectResponse s (ProxyConnectResponse_of_bytes (replicate 16 0))) = Connecting"
proof -
  let ?s = "ps_SetNonBlocking (ps_new blank_ring Sock_Stream Proto_Tcp) True"
  obtain r out s' where "ps_Connect ?s (inet_addr 1 2) True None = (r, out, s')"
    by (metis prod_cases3)
  then show ?thesis
    using nonblocking_connect_never_completes [of ?s "inet_addr 1 2" None r out s' "[ProxyConnectResponse_of_bytes (replicate 16 0)]"]
    by (simp add: ps_SetNonBlocking_def ps_new_def inet_addr_def inet_any_def)
qed

text \<open>
  a read takes one whole datagram, whatever the socket type: with a buffer shorter than the
  datagram it returns the first bytes and discards the others, also on a stream socket, where the
  next read should continue with them.
\<close>

theorem short_read_discards_rest:
  assumes "ps_open s" and "ps_queue s = (a, d) # ms" and "flags AND 0x2 = 0"
  shows "\<exists>s'. ps_RecvFrom s False n flags = (Received (take n d) (Some a), s') \<and> ps_queue s' = ms \<and> ps_open s'"
proof -
  have inv: "ps_inv s" and pos: "0 < ps_rx_count s"
    using assms(1,2) length_ps_queue [of s] by (auto simp: ps_open_def)
  have rest: "ps_queue (ps_drop s) = ms"
    using ps_drop_facts(2) [OF inv pos] assms(2) by simp
  have "ps_open (if ps_rx_count s = 1 then (ps_drop s)\<lparr>ps_receive_event := False\<rparr> else ps_drop s)"
    using ps_drop_facts(1) [OF inv pos] assms rest by (auto simp: ps_open_def ps_inv_def ps_drop_def)
  then show ?thesis
    using assms consume_front_drop [OF inv pos, of n] pos rest
    by (auto simp: ps_RecvFrom_def ps_open_def Let_def)
qed

theorem short_read_discards_rest_witness:
  "let s = ps_put (ps_new blank_ring Sock_Stream Proto_Tcp) (inet_addr 1 2, [5, 6, 7])
   in fst (ps_RecvFrom s False 2 0) = Received [5, 6] (Some (inet_addr 1 2)) \<and> ps_queue (snd (ps_RecvFrom s False 2 0)) = []"
proof -
  let ?s = "ps_put (ps_new blank_ring Sock_Stream Proto_Tcp) (inet_addr 1 2, [5, 6, 7])"
  have "ps_open ?s" "ps_queue ?s = [(inet_addr 1 2, [5, 6, 7])]"
    using ps.put_ok [OF ps_new_open(1)] ps.put_law [OF ps_new_open(1)]
    by (simp_all add: ps_new_open(2) ps_clip_def ps_consts)
  from short_read_discards_rest [OF this, of 0 2] show ?thesis
    by auto
qed

end
