(* ===== verification/Port_Pool.thy ===== *)
theory Port_Pool
  imports Bsd_Types
begin

text \<open>
  The allocator of ephemeral ports of \<^verbatim>\<open>bsd/ephemeral_port_pool.hpp\<close> and \<^verbatim>\<open>.cpp\<close>: one bit per port and
  protocol, and a hint where the next search starts. A bitset is a list of 16384 booleans. The locale
  \<open>port_allocator\<close> is the contract its users rely on; the pool is its interpretation.
\<close>

definition EPHEMERAL_PORT_MIN :: nat where "EPHEMERAL_PORT_MIN = 49152"
definition EPHEMERAL_PORT_MAX :: nat where "EPHEMERAL_PORT_MAX = 65535"
definition EPHEMERAL_PORT_COUNT :: nat where "EPHEMERAL_PORT_COUNT = EPHEMERAL_PORT_MAX - EPHEMERAL_PORT_MIN + 1"

record EphemeralPortPool =
  pp_udp_ports :: "bool list"
  pp_tcp_ports :: "bool list"
  pp_udp_hint :: nat
  pp_tcp_hint :: nat

definition pp_new :: EphemeralPortPool where
  "pp_new = \<lparr>pp_udp_ports = replicate EPHEMERAL_PORT_COUNT False, pp_tcp_ports = replicate EPHEMERAL_PORT_COUNT False,
     pp_udp_hint = 0, pp_tcp_hint = 0\<rparr>"

definition PortToIndex :: "u16 \<Rightarrow> nat" where
  "PortToIndex port = (if unat port < EPHEMERAL_PORT_MIN then EPHEMERAL_PORT_COUNT else unat port - EPHEMERAL_PORT_MIN)"

definition IndexToPort :: "nat \<Rightarrow> u16" where
  "IndexToPort index = word_of_nat (EPHEMERAL_PORT_MIN + index)"

text \<open>\<^verbatim>\<open>GetBitset\<close>: the TCP pool for TCP, the UDP pool for everything else.\<close>

definition pp_bits :: "EphemeralPortPool \<Rightarrow> ProtocolType \<Rightarrow> bool list" where
  "pp_bits p protocol = (if protocol = Proto_Tcp then pp_tcp_ports p else pp_udp_ports p)"

definition pp_set_bits :: "EphemeralPortPool \<Rightarrow> ProtocolType \<Rightarrow> bool list \<Rightarrow> EphemeralPortPool" where
  "pp_set_bits p protocol bits =
     (if protocol = Proto_Tcp then p\<lparr>pp_tcp_ports := bits\<rparr> else p\<lparr>pp_udp_ports := bits\<rparr>)"

definition pp_hint :: "EphemeralPortPool \<Rightarrow> ProtocolType \<Rightarrow> nat" where
  "pp_hint p protocol = (if protocol = Proto_Tcp then pp_tcp_hint p else pp_udp_hint p)"

definition pp_set_hint :: "EphemeralPortPool \<Rightarrow> ProtocolType \<Rightarrow> nat \<Rightarrow> EphemeralPortPool" where
  "pp_set_hint p protocol hint =
     (if protocol = Proto_Tcp then p\<lparr>pp_tcp_hint := hint\<rparr> else p\<lparr>pp_udp_hint := hint\<rparr>)"

text \<open>The search loop: round \<open>i\<close>, with \<open>k\<close> rounds left.\<close>

fun port_search :: "bool list \<Rightarrow> nat \<Rightarrow> nat \<Rightarrow> nat \<Rightarrow> nat option" where
  "port_search bits hint i 0 = None"
| "port_search bits hint i (Suc k) =
     (let index = (hint + i) mod EPHEMERAL_PORT_COUNT
      in if \<not> bits ! index then Some index else port_search bits hint (Suc i) k)"

definition pp_AllocatePort :: "EphemeralPortPool \<Rightarrow> ProtocolType \<Rightarrow> u16 \<times> EphemeralPortPool" where
  "pp_AllocatePort p protocol =
     (case port_search (pp_bits p protocol) (pp_hint p protocol) 0 EPHEMERAL_PORT_COUNT of
        Some index \<Rightarrow>
          (IndexToPort index,
           pp_set_hint (pp_set_bits p protocol ((pp_bits p protocol)[index := True])) protocol
             ((index + 1) mod EPHEMERAL_PORT_COUNT))
      | None \<Rightarrow> (0, p))"

definition pp_AllocateSpecificPort :: "EphemeralPortPool \<Rightarrow> u16 \<Rightarrow> ProtocolType \<Rightarrow> bool \<times> EphemeralPortPool" where
  "pp_AllocateSpecificPort p port protocol =
     (let index = PortToIndex port in
      if index \<ge> EPHEMERAL_PORT_COUNT then (True, p)
      else if pp_bits p protocol ! index then (False, p)
      else (True, pp_set_bits p protocol ((pp_bits p protocol)[index := True])))"

definition pp_ReleasePort :: "EphemeralPortPool \<Rightarrow> u16 \<Rightarrow> ProtocolType \<Rightarrow> EphemeralPortPool" where
  "pp_ReleasePort p port protocol =
     (let index = PortToIndex port in
      if index \<ge> EPHEMERAL_PORT_COUNT then p
      else pp_set_bits p protocol ((pp_bits p protocol)[index := False]))"

definition pp_IsPortAllocated :: "EphemeralPortPool \<Rightarrow> u16 \<Rightarrow> ProtocolType \<Rightarrow> bool" where
  "pp_IsPortAllocated p port protocol =
     (let index = PortToIndex port in
      if index \<ge> EPHEMERAL_PORT_COUNT then False else pp_bits p protocol ! index)"

definition pp_GetAvailableCount :: "EphemeralPortPool \<Rightarrow> ProtocolType \<Rightarrow> nat" where
  "pp_GetAvailableCount p protocol = EPHEMERAL_PORT_COUNT - length (filter (\<lambda>b. b) (pp_bits p protocol))"

definition pp_ReleaseAll :: "EphemeralPortPool \<Rightarrow> EphemeralPortPool" where
  "pp_ReleaseAll p = p\<lparr>pp_udp_ports := replicate (length (pp_udp_ports p)) False,
     pp_tcp_ports := replicate (length (pp_tcp_ports p)) False, pp_udp_hint := 0, pp_tcp_hint := 0\<rparr>"

subsection \<open>Ports and indices\<close>

definition pp_inv :: "EphemeralPortPool \<Rightarrow> bool" where
  "pp_inv p \<longleftrightarrow> length (pp_udp_ports p) = EPHEMERAL_PORT_COUNT \<and> length (pp_tcp_ports p) = EPHEMERAL_PORT_COUNT"

text \<open>Two protocols share a pool iff both or neither are TCP.\<close>

definition same_pool :: "ProtocolType \<Rightarrow> ProtocolType \<Rightarrow> bool" where
  "same_pool a b \<longleftrightarrow> (a = Proto_Tcp \<longleftrightarrow> b = Proto_Tcp)"

lemma port_count [simp]: "EPHEMERAL_PORT_COUNT = 16384"
  by (simp add: EPHEMERAL_PORT_COUNT_def EPHEMERAL_PORT_MAX_def EPHEMERAL_PORT_MIN_def)

lemma unat_IndexToPort: "index < 16384 \<Longrightarrow> unat (IndexToPort index) = 49152 + index"
  by (simp only: IndexToPort_def EPHEMERAL_PORT_MIN_def unsigned_of_nat) (simp add: take_bit_nat_eq_self)

lemma PortToIndex_IndexToPort: "index < 16384 \<Longrightarrow> PortToIndex (IndexToPort index) = index"
  by (simp add: PortToIndex_def unat_IndexToPort EPHEMERAL_PORT_MIN_def)

lemma PortToIndex_inj: "PortToIndex a = PortToIndex b \<Longrightarrow> PortToIndex a < 16384 \<Longrightarrow> a = b"
  by (auto simp: PortToIndex_def EPHEMERAL_PORT_MIN_def word_unat_eq_iff split: if_splits)

lemma bits_fields [simp]:
  "pp_bits (pp_set_bits p a bits) b = (if same_pool a b then bits else pp_bits p b)"
  "pp_bits (pp_set_hint p a h) b = pp_bits p b"
  "pp_hint (pp_set_hint p a h) b = (if same_pool a b then h else pp_hint p b)"
  "pp_hint (pp_set_bits p a bits) b = pp_hint p b"
  by (simp_all add: pp_bits_def pp_set_bits_def pp_set_hint_def pp_hint_def same_pool_def)

lemma same_pool_refl [simp]: "same_pool a a"
  by (simp add: same_pool_def)

lemma same_pool_bits: "same_pool a b \<Longrightarrow> pp_bits p a = pp_bits p b"
  by (simp add: same_pool_def pp_bits_def)

lemma pp_inv_bits: "pp_inv p \<longleftrightarrow> (\<forall>a. length (pp_bits p a) = 16384)"
  by (auto simp: pp_inv_def pp_bits_def dest: spec [of _ Proto_Tcp] spec [of _ Proto_Udp])

lemma IsPortAllocated_bits:
  "pp_IsPortAllocated p port a \<longleftrightarrow> PortToIndex port < 16384 \<and> pp_bits p a ! PortToIndex port"
  by (simp add: pp_IsPortAllocated_def Let_def)

text \<open>The search visits every index once.\<close>

lemma port_search_Some:
  "port_search bits hint i k = Some j \<Longrightarrow>
   \<exists>d. d < k \<and> j = (hint + i + d) mod 16384 \<and> \<not> bits ! j \<and> (\<forall>e<d. bits ! ((hint + i + e) mod 16384))"
proof (induction k arbitrary: i)
  case (Suc k)
  show ?case
  proof (cases "bits ! ((hint + i) mod 16384)")
    case True
    then have "port_search bits hint (Suc i) k = Some j"
      using Suc.prems by (simp add: Let_def)
    from Suc.IH [OF this] obtain d where d: "d < k" "j = (hint + Suc i + d) mod 16384" "\<not> bits ! j"
        "\<forall>e<d. bits ! ((hint + Suc i + e) mod 16384)"
      by blast
    have "\<forall>e<Suc d. bits ! ((hint + i + e) mod 16384)"
      using d(4) True by (auto simp: less_Suc_eq_0_disj)
    then show ?thesis
      using d(1-3) by (intro exI [of _ "Suc d"]) simp
  qed (use Suc.prems in \<open>auto simp: Let_def\<close>)
qed simp

lemma port_search_None:
  "port_search bits hint i k = None \<Longrightarrow> \<forall>d<k. bits ! ((hint + i + d) mod 16384)"
proof (induction k arbitrary: i)
  case (Suc k)
  then have "bits ! ((hint + i) mod 16384)" "port_search bits hint (Suc i) k = None"
    by (auto simp: Let_def split: if_splits)
  then show ?case
    using Suc.IH [of "Suc i"] by (auto simp: less_Suc_eq_0_disj)
qed simp

lemma all_indices_visited: "j < 16384 \<Longrightarrow> \<exists>d<16384. (hint + d) mod 16384 = (j :: nat)"
proof -
  assume j: "j < 16384"
  define r where "r = hint mod 16384"
  define d where "d = (if r \<le> j then j - r else j + 16384 - r)"
  have "r < 16384"
    by (simp add: r_def)
  then have "d < 16384" "r + d = j \<or> r + d = j + 16384"
    using j by (auto simp: d_def)
  moreover have "(hint + d) mod 16384 = (r + d) mod 16384"
    by (simp add: r_def mod_add_left_eq)
  ultimately show ?thesis
    using j by (metis mod_add_self2 mod_less)
qed

lemma AllocatePort_cases:
  assumes "pp_inv p"
  obtains (full) "pp_AllocatePort p a = (0, p)" "\<forall>j<16384. pp_bits p a ! j"
  | (port) j where "j < 16384" "\<not> pp_bits p a ! j"
    "pp_AllocatePort p a = (IndexToPort j, pp_set_hint (pp_set_bits p a ((pp_bits p a)[j := True])) a ((j + 1) mod 16384))"
proof (cases "port_search (pp_bits p a) (pp_hint p a) 0 16384")
  case None
  then have "\<forall>j<16384. pp_bits p a ! j"
    using port_search_None [OF None] all_indices_visited [of _ "pp_hint p a"] by auto
  then show ?thesis
    using full None by (simp add: pp_AllocatePort_def)
next
  case (Some j)
  then have "j < 16384" "\<not> pp_bits p a ! j"
    using port_search_Some [OF Some] by auto
  then show ?thesis
    using port [of j] Some by (simp add: pp_AllocatePort_def)
qed

lemma count_set_bit:
  "j < length bits \<Longrightarrow> \<not> bits ! j \<Longrightarrow> length (filter (\<lambda>b. b) (bits[j := True])) = Suc (length (filter (\<lambda>b. b) bits))"
  by (induction bits arbitrary: j) (auto split: nat.splits)

subsection \<open>The contract of an allocator\<close>

text \<open>\<open>n\<close> allocations in a row.\<close>

fun alloc_many :: "('p \<Rightarrow> ProtocolType \<Rightarrow> u16 \<times> 'p) \<Rightarrow> nat \<Rightarrow> 'p \<Rightarrow> ProtocolType \<Rightarrow> u16 list \<times> 'p" where
  "alloc_many allocate 0 p a = ([], p)"
| "alloc_many allocate (Suc n) p a =
     (let (x, p1) = allocate p a; (xs, p2) = alloc_many allocate n p1 a in (x # xs, p2))"

text \<open>
  A pool gives out ports of a range; \<open>allocated\<close> is the set of ports in use for a protocol.
\<close>

locale port_allocator =
  fixes ok :: "'p \<Rightarrow> bool" and allocated :: "'p \<Rightarrow> ProtocolType \<Rightarrow> u16 set" and range :: "u16 set"
    and shared :: "ProtocolType \<Rightarrow> ProtocolType \<Rightarrow> bool"
    and allocate :: "'p \<Rightarrow> ProtocolType \<Rightarrow> u16 \<times> 'p" and release :: "'p \<Rightarrow> u16 \<Rightarrow> ProtocolType \<Rightarrow> 'p"
  assumes null_free: "0 \<notin> range" and shared_refl: "shared a a"
    and allocate_ok: "ok p \<Longrightarrow> ok (snd (allocate p a))"
    and allocate_some: "ok p \<Longrightarrow> fst (allocate p a) \<noteq> 0 \<Longrightarrow>
      fst (allocate p a) \<in> range - allocated p a \<and>
      (\<forall>b. allocated (snd (allocate p a)) b = (if shared a b then insert (fst (allocate p a)) (allocated p b) else allocated p b))"
    and allocate_none: "ok p \<Longrightarrow> fst (allocate p a) = 0 \<Longrightarrow> range \<subseteq> allocated p a \<and> snd (allocate p a) = p"
    and allocated_range: "ok p \<Longrightarrow> allocated p a \<subseteq> range"
    and release_ok: "ok p \<Longrightarrow> ok (release p x a)"
    and release_law: "ok p \<Longrightarrow> allocated (release p x a) b = (if shared a b then allocated p b - {x} else allocated p b)"
begin

lemma allocs_fresh:
  "ok p \<Longrightarrow> n + card (allocated p a) \<le> card range \<Longrightarrow> alloc_many allocate n p a = (xs, p') \<Longrightarrow>
   distinct xs \<and> set xs \<subseteq> range - allocated p a \<and> length xs = n \<and> allocated p' a = allocated p a \<union> set xs \<and> ok p'"
proof (induction n arbitrary: p xs)
  case (Suc n)
  obtain x p1 where x: "allocate p a = (x, p1)"
    by fastforce
  obtain ys where ys: "alloc_many allocate n p1 a = (ys, p')" "xs = x # ys"
    using Suc.prems(3) x by (auto split: prod.splits)
  have fin: "finite range"
    by simp
  have "x \<noteq> 0"
  proof
    assume "x = 0"
    then have "range \<subseteq> allocated p a"
      using allocate_none [OF Suc.prems(1), of a] x by simp
    then have "card range \<le> card (allocated p a)"
      using allocated_range [OF Suc.prems(1), of a] fin by (meson card_mono finite_subset)
    then show False
      using Suc.prems(2) by simp
  qed
  then have p1: "x \<in> range - allocated p a" "allocated p1 a = insert x (allocated p a)" "ok p1"
    using allocate_some [OF Suc.prems(1), of a] allocate_ok [OF Suc.prems(1), of a] x shared_refl by auto
  have "card (allocated p1 a) = Suc (card (allocated p a))"
    using p1(1,2) allocated_range [OF Suc.prems(1), of a] by simp
  then show ?case
    using Suc.IH [OF p1(3) _ ys(1)] Suc.prems(2) p1(1,2) ys(2) by auto
qed simp

end

definition pp_allocated :: "EphemeralPortPool \<Rightarrow> ProtocolType \<Rightarrow> u16 set" where
  "pp_allocated p a = {port. pp_IsPortAllocated p port a}"

definition pp_range :: "u16 set" where
  "pp_range = {port. EPHEMERAL_PORT_MIN \<le> unat port}"

lemma pp_range_index: "port \<in> pp_range \<longleftrightarrow> PortToIndex port < 16384"
  using unat_u16_bound [of port] by (auto simp: pp_range_def PortToIndex_def EPHEMERAL_PORT_MIN_def)

lemma range_IndexToPort: "port \<in> pp_range \<Longrightarrow> IndexToPort (PortToIndex port) = port"
  using PortToIndex_inj [of "IndexToPort (PortToIndex port)" port] PortToIndex_IndexToPort [of "PortToIndex port"]
  by (simp add: pp_range_index)

lemma pp_range_image: "pp_range = IndexToPort ` {0..<16384}"
  using range_IndexToPort by (force simp: pp_range_index PortToIndex_IndexToPort)

lemma card_pp_range: "card pp_range = 16384"
proof -
  have "inj_on IndexToPort {0..<16384}"
    by (rule inj_on_inverseI [of _ PortToIndex]) (simp add: PortToIndex_IndexToPort)
  then show ?thesis
    by (simp add: pp_range_image card_image)
qed

lemma mem_allocated: "port \<in> pp_allocated p a \<longleftrightarrow> port \<in> pp_range \<and> pp_bits p a ! PortToIndex port"
  by (simp add: pp_allocated_def IsPortAllocated_bits pp_range_index)

lemma set_bit_allocated:
  assumes "pp_inv p" and "j < 16384"
  shows "pp_allocated (pp_set_bits p a ((pp_bits p a)[j := v])) b =
    (if same_pool a b then (if v then insert (IndexToPort j) (pp_allocated p b) else pp_allocated p b - {IndexToPort j})
     else pp_allocated p b)"
proof -
  have "j = PortToIndex port \<longleftrightarrow> port = IndexToPort j" if "port \<in> pp_range" for port
    using that range_IndexToPort PortToIndex_IndexToPort [OF assms(2)] by auto
  moreover have "IndexToPort j \<in> pp_range"
    using assms(2) by (simp add: pp_range_image)
  ultimately show ?thesis
    using assms same_pool_bits [of a b p] 
    by (auto simp: mem_allocated pp_inv_bits nth_list_update range_IndexToPort split: if_splits)
qed

lemma set_bits_inv: "pp_inv p \<Longrightarrow> length bits = 16384 \<Longrightarrow> pp_inv (pp_set_bits p a bits)"
  by (simp add: pp_inv_bits)

lemma set_hint_facts [simp]:
  "pp_inv (pp_set_hint p a h) \<longleftrightarrow> pp_inv p" "pp_allocated (pp_set_hint p a h) b = pp_allocated p b"
  by (simp_all add: pp_inv_bits set_eq_iff mem_allocated)

interpretation pp: port_allocator pp_inv pp_allocated pp_range same_pool pp_AllocatePort pp_ReleasePort
proof (unfold_locales, goal_cases)
  case 1
  then show ?case by (simp add: pp_range_def EPHEMERAL_PORT_MIN_def)
next
  case (2 a)
  then show ?case by simp
next
  case (3 p a)
  then show ?case
    by (cases rule: AllocatePort_cases [OF 3, of a]) (simp_all add: set_bits_inv pp_inv_bits [of p])
next
  case (4 p a)
  from 4(1) show ?case
  proof (cases rule: AllocatePort_cases [of p a])
    case (port j)
    then show ?thesis
      using 4(1) set_bit_allocated [OF 4(1) port(1), of a True]
      by (simp add: mem_allocated PortToIndex_IndexToPort pp_range_image)
  qed (use 4(2) in simp)
next
  case (5 p a)
  from 5(1) show ?case
  proof (cases rule: AllocatePort_cases [of p a])
    case full
    then show ?thesis
      by (auto simp: mem_allocated pp_range_index)
  next
    case (port j)
    then show ?thesis
      using 5(2) unat_IndexToPort [OF port(1)] by (metis add_is_0 fst_conv unat_0 zero_neq_numeral)
  qed
next
  case (6 p a)
  then show ?case by (auto simp: mem_allocated)
next
  case (7 p x a)
  then show ?case by (simp add: pp_ReleasePort_def Let_def set_bits_inv pp_inv_bits)
next
  case (8 p x a b)
  show ?case
  proof (cases "PortToIndex x < 16384")
    case True
    then show ?thesis
      using set_bit_allocated [OF 8 True, of a False b] range_IndexToPort [of x]
      by (simp add: pp_ReleasePort_def Let_def pp_range_index)
  next
    case False
    then show ?thesis
      by (auto simp: pp_ReleasePort_def Let_def mem_allocated pp_range_index)
  qed
qed

lemma pp_new_facts [simp]: "pp_inv pp_new" "pp_allocated pp_new a = {}"
proof -
  show "pp_inv pp_new"
    by (simp add: pp_inv_def pp_new_def)
  have "pp_bits pp_new a = replicate 16384 False"
    by (simp add: pp_bits_def pp_new_def)
  then show "pp_allocated pp_new a = {}"
    by (simp add: set_eq_iff mem_allocated pp_range_index)
qed

lemma count_allocated:
  assumes "pp_inv p"
  shows "length (filter (\<lambda>b. b) (pp_bits p a)) = card (pp_allocated p a)"
proof -
  let ?I = "{j. j < 16384 \<and> pp_bits p a ! j}"
  have "pp_allocated p a = IndexToPort ` ?I"
    using range_IndexToPort by (force simp: mem_allocated pp_range_index PortToIndex_IndexToPort)
  moreover have "inj_on IndexToPort ?I"
    by (rule inj_on_inverseI [of _ PortToIndex]) (simp add: PortToIndex_IndexToPort)
  ultimately have "card (pp_allocated p a) = card ?I"
    by (simp add: card_image)
  then show ?thesis
    using length_filter_conv_card [of "\<lambda>b. b" "pp_bits p a"] assms by (simp add: pp_inv_bits)
qed

subsection \<open>Properties\<close>

text \<open>
  Allocation is exact: \<^verbatim>\<open>AllocatePort\<close> returns 0 iff every ephemeral port of the protocol's
  pool is in use, and then changes nothing; otherwise it returns a port of the range 49152 to 65535
  that was free, and afterwards exactly that port is in use in addition, in that pool only. Releasing it
  gives the pool back as it was.
\<close>

theorem allocate_port_exact:
  assumes "pp_inv p" and "pp_AllocatePort p a = (port, p')"
  shows "(port = 0 \<longleftrightarrow> pp_GetAvailableCount p a = 0) \<and> pp_inv p' \<and>
    (if port = 0 then p' = p
     else 49152 \<le> unat port \<and> \<not> pp_IsPortAllocated p port a \<and>
       (\<forall>q b. pp_IsPortAllocated p' q b \<longleftrightarrow> pp_IsPortAllocated p q b \<or> q = port \<and> same_pool a b) \<and>
       (\<forall>b. pp_allocated (pp_ReleasePort p' port a) b = pp_allocated p b))"
proof -
  have avail: "pp_GetAvailableCount p a = 16384 - card (pp_allocated p a)"
    by (simp add: pp_GetAvailableCount_def count_allocated [OF assms(1)])
  have sub: "pp_allocated p a \<subseteq> pp_range"
    by (rule pp.allocated_range [OF assms(1)])
  have full: "pp_GetAvailableCount p a = 0 \<longleftrightarrow> pp_range \<subseteq> pp_allocated p a"
    using avail sub card_pp_range card_mono [of pp_range "pp_allocated p a"] card_subset_eq [of pp_range "pp_allocated p a"]
    by auto
  have inv: "pp_inv p'"
    using pp.allocate_ok [OF assms(1), of a] assms(2) by simp
  show ?thesis
  proof (cases "port = 0")
    case True
    then show ?thesis
      using pp.allocate_none [OF assms(1), of a] assms(2) full inv by simp
  next
    case False
    then have some: "port \<in> pp_range - pp_allocated p a"
      "pp_allocated p' b = (if same_pool a b then insert port (pp_allocated p b) else pp_allocated p b)" for b
      using pp.allocate_some [OF assms(1), of a] assms(2) by auto
    have fresh: "port \<notin> pp_allocated p b" if "same_pool a b" for b
      using some(1) same_pool_bits [OF that, of p] by (simp add: mem_allocated)
    have "pp_IsPortAllocated p' q b \<longleftrightarrow> pp_IsPortAllocated p q b \<or> q = port \<and> same_pool a b" for q b
      using some(2) [of b] unfolding pp_allocated_def by (cases "same_pool a b") auto
    moreover have "pp_allocated (pp_ReleasePort p' port a) b = pp_allocated p b" for b
      using pp.release_law [OF inv, of port a b] some(2) [of b] fresh by auto
    ultimately show ?thesis
      using some(1) full inv False by (auto simp: pp_range_def EPHEMERAL_PORT_MIN_def pp_allocated_def)
  qed
qed

theorem allocate_port_exact_witness:
  "49152 \<le> unat (fst (pp_AllocatePort pp_new Proto_Udp)) \<and> pp_inv (snd (pp_AllocatePort pp_new Proto_Udp))"
proof -
  have "pp_GetAvailableCount pp_new Proto_Udp \<noteq> 0"
    by (simp add: pp_GetAvailableCount_def count_allocated)
  moreover obtain port p' where "pp_AllocatePort pp_new Proto_Udp = (port, p')"
    by fastforce
  ultimately show ?thesis
    using allocate_port_exact [of pp_new Proto_Udp port p'] by (auto split: if_splits)
qed

text \<open>
  No port is given out twice: as many allocations as there are free ports all succeed and return
  pairwise different ports.
\<close>

theorem allocations_distinct:
  assumes "pp_inv p" and "n \<le> pp_GetAvailableCount p a" and "alloc_many pp_AllocatePort n p a = (xs, p')"
  shows "distinct xs \<and> length xs = n \<and> 0 \<notin> set xs \<and> pp_GetAvailableCount p' a = pp_GetAvailableCount p a - n"
proof -
  have card: "card (pp_allocated p a) \<le> 16384"
    using card_mono [of pp_range] pp.allocated_range [OF assms(1), of a] card_pp_range by simp
  have "n + card (pp_allocated p a) \<le> card pp_range"
    using assms(2) card by (simp add: pp_GetAvailableCount_def count_allocated [OF assms(1)] card_pp_range)
  from pp.allocs_fresh [OF assms(1) this assms(3)] have xs: "distinct xs" "set xs \<subseteq> pp_range - pp_allocated p a"
      "length xs = n" "pp_allocated p' a = pp_allocated p a \<union> set xs" "pp_inv p'"
    by auto
  have "card (pp_allocated p' a) = card (pp_allocated p a) + n"
    using xs(1-4) card_Un_disjoint [of "pp_allocated p a" "set xs"] by (auto simp: distinct_card)
  then show ?thesis
    using xs pp.null_free by (auto simp: pp_GetAvailableCount_def count_allocated [OF assms(1)] count_allocated [OF xs(5)])
qed

theorem allocations_distinct_witness:
  "distinct (fst (alloc_many pp_AllocatePort 1000 pp_new Proto_Tcp)) \<and>
   pp_GetAvailableCount (snd (alloc_many pp_AllocatePort 1000 pp_new Proto_Tcp)) Proto_Tcp = 15384"
proof -
  have "pp_GetAvailableCount pp_new Proto_Tcp = 16384"
    by (simp add: pp_GetAvailableCount_def count_allocated)
  then show ?thesis
    using allocations_distinct [of pp_new 1000 Proto_Tcp "fst (alloc_many pp_AllocatePort 1000 pp_new Proto_Tcp)"
        "snd (alloc_many pp_AllocatePort 1000 pp_new Proto_Tcp)"]
    by simp
qed

end
