(* ===== verification/Proxy_Socket_Manager.thy ===== *)
theory Proxy_Socket_Manager
  imports Proxy_Socket Port_Pool
begin

text \<open>
  The registry of proxy sockets, \<^verbatim>\<open>bsd/proxy_socket_manager.hpp\<close> and \<^verbatim>\<open>.cpp\<close>: sockets by file descriptor, the
  port pool, the ring of packets that arrived before their socket was bound, the local address and the four
  send callbacks. The map of sockets is an association list in the order in which the loops visit it, which the
  code leaves open: no property depends on it. A callback is whether it is set; what it answers is an argument
  (\<open>answer\<close>), the clock another one. \<^verbatim>\<open>m_mutex\<close> is created as a non-recursive mutex, so a method that is called back
  into while the calling method holds it never returns: the result \<^verbatim>\<open>Deadlock\<close>.
\<close>

definition MAX_PROXY_SOCKETS :: nat where "MAX_PROXY_SOCKETS = 64"
definition MaxPendingPackets :: nat where "MaxPendingPackets = 32"
definition PendingPayloadMax :: nat where "PendingPayloadMax = 1400"
definition MaxPendingPacketAgeMs :: u64 where "MaxPendingPacketAgeMs = 500"

type_synonym fd = u32

record PendingPacket =
  pk_source_ip :: u32
  pk_source_port :: u16
  pk_dest_ip :: u32
  pk_dest_port :: u16
  pk_len :: u16
  pk_protocol :: ProtocolType
  pk_enqueue_time_ms :: u64
  pk_data :: "byte list"

record ProxySocketManager =
  pm_sockets :: "(fd \<times> ProxySocket) list"
  pm_port_pool :: EphemeralPortPool
  pm_local_ip :: u32
  pm_send_callback :: bool
  pm_connect_callback :: bool
  pm_connect_reply_callback :: bool
  pm_disconnect_callback :: bool
  pm_pending_ring :: "PendingPacket list"
  pm_pending_head :: nat
  pm_pending_tail :: nat
  pm_pending_count :: nat

datatype 'a locked = Done 'a | Deadlock

subsection \<open>Helpers on addresses\<close>

definition IsBroadcastDestinationIp :: "u32 \<Rightarrow> bool" where
  "IsBroadcastDestinationIp ip \<longleftrightarrow> ip AND 0x000000FF = 0x000000FF \<or> ip AND 0x0000FFFF = 0x0000FFFF"

definition PacketMatchesSocketDestination :: "ProxySocket \<Rightarrow> u32 \<Rightarrow> bool" where
  "PacketMatchesSocketDestination s dest_ip =
     (let local_ip = GetAddr (ps_local_addr s) in
      if local_ip = 0 \<or> local_ip = dest_ip then True
      else if IsBroadcastDestinationIp dest_ip then local_ip AND 0xFFFF0000 = dest_ip AND 0xFFFF0000
      else False)"

subsection \<open>Sockets\<close>

text \<open>\<open>ring\<close> is the uninitialised receive ring of a new socket; the result is the socket's descriptor.\<close>

definition pm_CreateProxySocket ::
  "ProxySocketManager \<Rightarrow> ReceivedPacket list \<Rightarrow> fd \<Rightarrow> SocketType \<Rightarrow> ProtocolType \<Rightarrow> fd option \<times> ProxySocketManager" where
  "pm_CreateProxySocket m ring fd ty protocol =
     (if map_of (pm_sockets m) fd \<noteq> None then (Some fd, m)
      else if length (pm_sockets m) \<ge> MAX_PROXY_SOCKETS then (None, m)
      else (Some fd, m\<lparr>pm_sockets := pm_sockets m @ [(fd, ps_new ring ty protocol)]\<rparr>))"

definition pm_GetProxySocket :: "ProxySocketManager \<Rightarrow> fd \<Rightarrow> ProxySocket option" where
  "pm_GetProxySocket m fd = map_of (pm_sockets m) fd"

definition pm_IsProxySocket :: "ProxySocketManager \<Rightarrow> fd \<Rightarrow> bool" where
  "pm_IsProxySocket m fd \<longleftrightarrow> map_of (pm_sockets m) fd \<noteq> None"

text \<open>Calls on a socket through its pointer.\<close>

definition pm_update :: "ProxySocketManager \<Rightarrow> fd \<Rightarrow> (ProxySocket \<Rightarrow> ProxySocket) \<Rightarrow> ProxySocketManager" where
  "pm_update m fd f = m\<lparr>pm_sockets := map (\<lambda>(k, s). (k, if k = fd then f s else s)) (pm_sockets m)\<rparr>"

definition pm_pending :: "ProxySocketManager \<Rightarrow> PendingPacket list" where
  "pm_pending m = ring_list MaxPendingPackets (pm_pending_ring m) (pm_pending_head m) (pm_pending_count m)"

text \<open>The purge of the pending packets of a closed endpoint.\<close>

definition pm_purge :: "ProxySocketManager \<Rightarrow> u16 \<Rightarrow> ProtocolType \<Rightarrow> ProxySocketManager" where
  "pm_purge m port protocol =
     (case ring_sweep MaxPendingPackets (\<lambda>pkt u. (\<not> (pk_protocol pkt = protocol \<and> pk_dest_port pkt = port), u))
        (pm_pending_ring m) (pm_pending_head m) (pm_pending_head m) (pm_pending_count m) 0 () of
        (ring, write_idx, kept, u) \<Rightarrow>
          m\<lparr>pm_pending_ring := ring, pm_pending_tail := write_idx, pm_pending_count := kept\<rparr>)"

definition pm_ReleasePort :: "ProxySocketManager \<Rightarrow> u16 \<Rightarrow> ProtocolType \<Rightarrow> ProxySocketManager" where
  "pm_ReleasePort m port protocol = m\<lparr>pm_port_pool := pp_ReleasePort (pm_port_pool m) port protocol\<rparr>"

text \<open>The end of \<^verbatim>\<open>CloseProxySocket\<close>: the purge when no other socket uses the endpoint, and the removal.\<close>

definition pm_forget :: "ProxySocketManager \<Rightarrow> fd \<Rightarrow> u16 \<Rightarrow> ProtocolType \<Rightarrow> ProxySocketManager" where
  "pm_forget m fd port protocol =
     (let others = list_ex (\<lambda>(k, t). k \<noteq> fd \<and> ps_protocol t = protocol \<and> GetPort (ps_local_addr t) = port) (pm_sockets m);
          m = (if port \<noteq> 0 \<and> pm_pending_count m > 0 \<and> \<not> others then pm_purge m port protocol else m)
      in m\<lparr>pm_sockets := filter (\<lambda>(k, t). k \<noteq> fd) (pm_sockets m)\<rparr>)"

definition pm_CloseProxySocket :: "ProxySocketManager \<Rightarrow> fd \<Rightarrow> (bool \<times> ProxySocketManager) locked" where
  "pm_CloseProxySocket m fd =
     (case map_of (pm_sockets m) fd of
        None \<Rightarrow> Done (False, m)
      | Some s \<Rightarrow>
          let protocol = ps_protocol s;
              port = GetPort (ps_local_addr s);
              m = (if port \<noteq> 0 then pm_ReleasePort m port protocol else m)
          in case ps_Close s of (out, s') \<Rightarrow>
             if out \<noteq> [] then Deadlock else Done (True, pm_forget m fd port protocol))"

definition pm_CloseAllProxySockets :: "ProxySocketManager \<Rightarrow> ProxySocketManager locked" where
  "pm_CloseAllProxySockets m =
     (if list_ex (\<lambda>(k, s). fst (ps_Close s) \<noteq> []) (pm_sockets m) then Deadlock
      else Done (m\<lparr>pm_sockets := [], pm_port_pool := pp_ReleaseAll (pm_port_pool m)\<rparr>))"

definition pm_Reset :: "ProxySocketManager \<Rightarrow> ProxySocketManager locked" where
  "pm_Reset m =
     (if list_ex (\<lambda>(k, s). fst (ps_Close s) \<noteq> []) (pm_sockets m) then Deadlock
      else Done (m\<lparr>pm_sockets := [], pm_port_pool := pp_ReleaseAll (pm_port_pool m), pm_pending_head := 0,
        pm_pending_tail := 0, pm_pending_count := 0, pm_local_ip := 0, pm_send_callback := False,
        pm_connect_callback := False, pm_connect_reply_callback := False, pm_disconnect_callback := False\<rparr>))"

subsection \<open>Ports and callbacks\<close>

definition pm_AllocatePort :: "ProxySocketManager \<Rightarrow> ProtocolType \<Rightarrow> u16 \<times> ProxySocketManager" where
  "pm_AllocatePort m protocol =
     (case pp_AllocatePort (pm_port_pool m) protocol of (port, p) \<Rightarrow> (port, m\<lparr>pm_port_pool := p\<rparr>))"

definition pm_ReservePort :: "ProxySocketManager \<Rightarrow> u16 \<Rightarrow> ProtocolType \<Rightarrow> bool \<times> ProxySocketManager" where
  "pm_ReservePort m port protocol =
     (case pp_AllocateSpecificPort (pm_port_pool m) port protocol of (ok, p) \<Rightarrow> (ok, m\<lparr>pm_port_pool := p\<rparr>))"

text \<open>The four send methods: refused without a callback, else the callback's answer.\<close>

fun pm_Send :: "ProxySocketManager \<Rightarrow> (proxy_out \<Rightarrow> bool) \<Rightarrow> proxy_out \<Rightarrow> bool" where
  "pm_Send m answer (OutData a b c d p x) = (if pm_send_callback m then answer (OutData a b c d p x) else False)"
| "pm_Send m answer (OutConnect a b c d p) = (if pm_connect_callback m then answer (OutConnect a b c d p) else False)"
| "pm_Send m answer (OutConnectReply a b c d p) =
     (if pm_connect_reply_callback m then answer (OutConnectReply a b c d p) else False)"
| "pm_Send m answer (OutDisconnect a b c d p) =
     (if pm_disconnect_callback m then answer (OutDisconnect a b c d p) else False)"

definition pm_SetLocalIp :: "ProxySocketManager \<Rightarrow> u32 \<Rightarrow> ProxySocketManager" where
  "pm_SetLocalIp m ip =
     (let m = (if pm_local_ip m \<noteq> 0 \<and> pm_local_ip m \<noteq> ip \<and> pm_pending_count m > 0
               then m\<lparr>pm_pending_head := 0, pm_pending_tail := 0, pm_pending_count := 0\<rparr> else m)
      in m\<lparr>pm_local_ip := ip\<rparr>)"

subsection \<open>Connection messages\<close>

definition pm_RouteConnectResponse :: "ProxySocketManager \<Rightarrow> ProxyConnectResponse \<Rightarrow> bool \<times> ProxySocketManager" where
  "pm_RouteConnectResponse m response =
     (let info = pcres_info response in
      case find (\<lambda>(k, s). ps_state s = Connecting \<and> GetAddr (ps_local_addr s) = pinfo_source_ipv4 info \<and>
          GetPort (ps_local_addr s) = pinfo_source_port info) (pm_sockets m) of
        Some (k, s) \<Rightarrow> (True, pm_update m k (\<lambda>s. ps_HandleConnectResponse s response))
      | None \<Rightarrow> (False, m))"

text \<open>The listener's reply goes through \<^verbatim>\<open>SendProxyConnectReply\<close>, which takes the lock again.\<close>

definition pm_RouteConnectRequest :: "ProxySocketManager \<Rightarrow> ProxyConnectRequest \<Rightarrow> (bool \<times> ProxySocketManager) locked" where
  "pm_RouteConnectRequest m request =
     (let info = pcreq_info request in
      case find (\<lambda>(k, s). ps_state s = Listening \<and> ps_protocol s = Proto_Tcp \<and>
          GetPort (ps_local_addr s) = pinfo_dest_port info \<and>
          (GetAddr (ps_local_addr s) = 0 \<or> GetAddr (ps_local_addr s) = pinfo_dest_ipv4 info)) (pm_sockets m) of
        Some (k, s) \<Rightarrow>
          (case ps_IncomingConnection s request of (out, s') \<Rightarrow>
             if out \<noteq> [] then Deadlock else Done (True, pm_update m k (\<lambda>_. s')))
      | None \<Rightarrow> Done (False, m))"

subsection \<open>Routing of data\<close>

text \<open>The unicast loop: exact match first, else the first wildcard.\<close>

fun find_unicast :: "u32 \<Rightarrow> u16 \<Rightarrow> ProtocolType \<Rightarrow> fd option \<Rightarrow> (fd \<times> ProxySocket) list \<Rightarrow> fd option" where
  "find_unicast dest_ip dest_port protocol wildcard [] = wildcard"
| "find_unicast dest_ip dest_port protocol wildcard ((k, s) # ss) =
     (if ps_protocol s \<noteq> protocol then find_unicast dest_ip dest_port protocol wildcard ss
      else if GetPort (ps_local_addr s) \<noteq> dest_port then find_unicast dest_ip dest_port protocol wildcard ss
      else if GetAddr (ps_local_addr s) = dest_ip then Some k
      else if GetAddr (ps_local_addr s) = 0
      then find_unicast dest_ip dest_port protocol (case wildcard of None \<Rightarrow> Some k | Some w \<Rightarrow> Some w) ss
      else find_unicast dest_ip dest_port protocol wildcard ss)"

definition is_multicast :: "u32 \<Rightarrow> bool" where
  "is_multicast dest_ip \<longleftrightarrow> dest_ip AND 0xF0000000 = 0xE0000000"

definition is_broadcast :: "u32 \<Rightarrow> bool" where
  "is_broadcast dest_ip \<longleftrightarrow> dest_ip = 0xFFFFFFFF \<or> dest_ip AND 0x000000FF = 0x000000FF \<or>
     dest_ip AND 0x0000FFFF = 0x0000FFFF \<or> is_multicast dest_ip"

definition broadcast_match :: "u32 \<Rightarrow> u16 \<Rightarrow> ProtocolType \<Rightarrow> ProxySocket \<Rightarrow> bool" where
  "broadcast_match dest_ip dest_port protocol s \<longleftrightarrow>
     ps_protocol s = protocol \<and> GetPort (ps_local_addr s) = dest_port \<and>
     (let local_ip = GetAddr (ps_local_addr s) in
      local_ip = 0 \<or> dest_ip = 0xFFFFFFFF \<or> is_multicast dest_ip \<or> local_ip = dest_ip \<or>
      local_ip AND 0xFFFF0000 = dest_ip AND 0xFFFF0000)"

fun find_broadcast :: "u32 \<Rightarrow> u16 \<Rightarrow> ProtocolType \<Rightarrow> nat \<Rightarrow> (fd \<times> ProxySocket) list \<Rightarrow> fd list" where
  "find_broadcast dest_ip dest_port protocol room [] = []"
| "find_broadcast dest_ip dest_port protocol room ((k, s) # ss) =
     (if room = 0 then []
      else if broadcast_match dest_ip dest_port protocol s
      then k # find_broadcast dest_ip dest_port protocol (room - 1) ss
      else find_broadcast dest_ip dest_port protocol room ss)"

definition pm_FindAllSocketsByDestination :: "ProxySocketManager \<Rightarrow> u32 \<Rightarrow> u16 \<Rightarrow> ProtocolType \<Rightarrow> nat \<Rightarrow> fd list" where
  "pm_FindAllSocketsByDestination m dest_ip dest_port protocol max_sockets =
     (if max_sockets = 0 then []
      else if \<not> is_broadcast dest_ip
      then (case find_unicast dest_ip dest_port protocol None (pm_sockets m) of Some k \<Rightarrow> [k] | None \<Rightarrow> [])
      else find_broadcast dest_ip dest_port protocol max_sockets (pm_sockets m))"

text \<open>\<^verbatim>\<open>FindSocketByDestination\<close>, the single-target variant.\<close>

definition pm_FindSocketByDestination :: "ProxySocketManager \<Rightarrow> u32 \<Rightarrow> u16 \<Rightarrow> ProtocolType \<Rightarrow> fd option" where
  "pm_FindSocketByDestination m dest_ip dest_port protocol =
     map_option fst (find (\<lambda>(k, s). ps_protocol s = protocol \<and> GetPort (ps_local_addr s) = dest_port \<and>
       PacketMatchesSocketDestination s dest_ip) (pm_sockets m))"

text \<open>The buffering of a packet without a socket.\<close>

definition pm_buffer :: "ProxySocketManager \<Rightarrow> u64 \<Rightarrow> u32 \<Rightarrow> u16 \<Rightarrow> u32 \<Rightarrow> u16 \<Rightarrow> ProtocolType \<Rightarrow> byte list option \<Rightarrow> nat \<Rightarrow> ProxySocketManager" where
  "pm_buffer m now source_ip source_port dest_ip dest_port protocol data data_len =
     (let m = (if pm_pending_count m \<ge> MaxPendingPackets
               then m\<lparr>pm_pending_head := (pm_pending_head m + 1) mod MaxPendingPackets, pm_pending_count := pm_pending_count m - 1\<rparr>
               else m);
          slot = pm_pending_ring m ! pm_pending_tail m;
          copy_len = min data_len PendingPayloadMax;
          bytes = (case data of Some d \<Rightarrow> if copy_len > 0 then memcpy (pk_data slot) 0 (take copy_len d) else pk_data slot
                   | None \<Rightarrow> pk_data slot)
      in m\<lparr>pm_pending_ring := (pm_pending_ring m)[pm_pending_tail m :=
             \<lparr>pk_source_ip = source_ip, pk_source_port = source_port, pk_dest_ip = dest_ip, pk_dest_port = dest_port,
              pk_len = word_of_nat copy_len, pk_protocol = protocol, pk_enqueue_time_ms = now, pk_data = bytes\<rparr>],
           pm_pending_tail := (pm_pending_tail m + 1) mod MaxPendingPackets,
           pm_pending_count := pm_pending_count m + 1\<rparr>)"

definition pm_RouteIncomingData :: "ProxySocketManager \<Rightarrow> u64 \<Rightarrow> u32 \<Rightarrow> u16 \<Rightarrow> u32 \<Rightarrow> u16 \<Rightarrow> ProtocolType \<Rightarrow> byte list option \<Rightarrow> nat \<Rightarrow> bool \<times> ProxySocketManager" where
  "pm_RouteIncomingData m now source_ip source_port dest_ip dest_port protocol data data_len =
     (if pm_local_ip m \<noteq> 0 \<and> source_ip = pm_local_ip m then (True, m)
      else let targets = pm_FindAllSocketsByDestination m dest_ip dest_port protocol 8 in
        if targets = [] then
          (if protocol = Proto_Udp then (False, m)
           else (False, pm_buffer m now source_ip source_port dest_ip dest_port protocol data data_len))
        else (True, foldl (\<lambda>m k. pm_update m k (\<lambda>s. ps_IncomingData s data data_len (inet_addr source_ip source_port))) m targets))"

subsection \<open>Delivery after bind\<close>

definition pk_stale :: "u64 \<Rightarrow> PendingPacket \<Rightarrow> bool" where
  "pk_stale now pkt \<longleftrightarrow> now > pk_enqueue_time_ms pkt \<and> now - pk_enqueue_time_ms pkt > MaxPendingPacketAgeMs"

definition deliver_step :: "u64 \<Rightarrow> u16 \<Rightarrow> ProtocolType \<Rightarrow> PendingPacket \<Rightarrow> ProxySocket \<Rightarrow> bool \<times> ProxySocket" where
  "deliver_step now port protocol pkt s =
     (if \<not> pk_stale now pkt \<and> pk_protocol pkt = protocol \<and> pk_dest_port pkt = port \<and>
         PacketMatchesSocketDestination s (pk_dest_ip pkt)
      then (False, ps_IncomingData s (Some (pk_data pkt)) (unat (pk_len pkt))
              (inet_addr (pk_source_ip pkt) (pk_source_port pkt)))
      else (\<not> pk_stale now pkt, s))"

definition pm_DeliverPendingPackets :: "ProxySocketManager \<Rightarrow> u64 \<Rightarrow> fd \<Rightarrow> u16 \<Rightarrow> ProtocolType \<Rightarrow> ProxySocketManager" where
  "pm_DeliverPendingPackets m now fd port protocol =
     (case map_of (pm_sockets m) fd of
        None \<Rightarrow> m
      | Some s \<Rightarrow>
          if pm_pending_count m = 0 then m
          else case ring_sweep MaxPendingPackets (deliver_step now port protocol)
            (pm_pending_ring m) (pm_pending_head m) (pm_pending_head m) (pm_pending_count m) 0 s of
            (ring, write_idx, kept, s') \<Rightarrow>
              pm_update (m\<lparr>pm_pending_ring := ring, pm_pending_tail := write_idx, pm_pending_count := kept\<rparr>) fd (\<lambda>_. s'))"

subsection \<open>Invariant\<close>

text \<open>
  Descriptors are unique and at most 64, the ring of pending packets is consistent and its slots have their size, the
  port pool and the receive queue of every socket are consistent.
\<close>

definition pm_inv :: "ProxySocketManager \<Rightarrow> bool" where
  "pm_inv m \<longleftrightarrow> distinct (map fst (pm_sockets m)) \<and> length (pm_sockets m) \<le> MAX_PROXY_SOCKETS \<and>
     list_all (\<lambda>(k, s). ps_inv s) (pm_sockets m) \<and> pp_inv (pm_port_pool m) \<and>
     length (pm_pending_ring m) = MaxPendingPackets \<and>
     set (pm_pending_ring m) \<subseteq> {p. length (pk_data p) = PendingPayloadMax} \<and>
     pm_pending_head m < MaxPendingPackets \<and> pm_pending_count m \<le> MaxPendingPackets \<and>
     pm_pending_tail m = (pm_pending_head m + pm_pending_count m) mod MaxPendingPackets \<and>
     (\<forall>p \<in> set (pm_pending m). unat (pk_len p) \<le> PendingPayloadMax)"

lemmas pm_consts = MAX_PROXY_SOCKETS_def MaxPendingPackets_def PendingPayloadMax_def MaxPendingPacketAgeMs_def

lemma map_of_update:
  "map_of (map (\<lambda>(k, s). (k, if k = fd then f s else s)) xs) x =
     (if x = fd then map_option f (map_of xs x) else map_of xs x)"
  by (induction xs) auto

lemma pm_update_sockets [simp]:
  "map_of (pm_sockets (pm_update m fd f)) x = (if x = fd then map_option f (map_of (pm_sockets m) x) else map_of (pm_sockets m) x)"
  by (simp add: pm_update_def map_of_update)

lemma pm_update_fields [simp]:
  "map fst (pm_sockets (pm_update m fd f)) = map fst (pm_sockets m)"
  "length (pm_sockets (pm_update m fd f)) = length (pm_sockets m)"
  "pm_port_pool (pm_update m fd f) = pm_port_pool m" "pm_pending_ring (pm_update m fd f) = pm_pending_ring m"
  "pm_pending_head (pm_update m fd f) = pm_pending_head m" "pm_pending_tail (pm_update m fd f) = pm_pending_tail m"
  "pm_pending_count (pm_update m fd f) = pm_pending_count m" "pm_local_ip (pm_update m fd f) = pm_local_ip m"
  "pm_pending (pm_update m fd f) = pm_pending m"
  by (simp_all add: pm_update_def pm_pending_def comp_def case_prod_beta)

lemma pm_pending_frame [simp]:
  "pm_pending (m\<lparr>pm_sockets := ss\<rparr>) = pm_pending m" "pm_pending (m\<lparr>pm_port_pool := p\<rparr>) = pm_pending m"
  "pm_pending (m\<lparr>pm_local_ip := ip\<rparr>) = pm_pending m"
  by (simp_all add: pm_pending_def)

lemma pm_update_inv:
  assumes "pm_inv m" and "\<And>s. map_of (pm_sockets m) fd = Some s \<Longrightarrow> ps_inv s \<Longrightarrow> ps_inv (f s)"
  shows "pm_inv (pm_update m fd f)"
proof -
  have "list_all (\<lambda>(k, s). ps_inv s) (pm_sockets (pm_update m fd f))"
    using assms by (fastforce simp: pm_update_def pm_inv_def list_all_iff)
  then show ?thesis
    using assms(1) by (simp add: pm_inv_def)
qed

lemma ps_new_inv: "ps_open (ps_new ring ty pr) \<longleftrightarrow> ps_inv (ps_new ring ty pr)"
  by (auto simp: ps_open_def ps_new_def ps_queue_def)

lemma pm_CreateProxySocket_inv:
  assumes "pm_inv m" and "ps_inv (ps_new ring ty protocol)"
  shows "pm_inv (snd (pm_CreateProxySocket m ring fd ty protocol))"
  using assms by (auto simp: pm_CreateProxySocket_def pm_inv_def map_of_eq_None_iff)

lemma IncomingData_inv_any:
  assumes "ps_inv s"
  shows "ps_inv (ps_IncomingData s data n a)"
proof -
  let ?s = "if ps_rx_count s \<ge> PROXY_SOCKET_MAX_QUEUE_SIZE then ps_drop s else s"
  have inv: "ps_inv ?s" "ps_rx_count ?s < PROXY_SOCKET_MAX_QUEUE_SIZE"
    using assms ps_drop_facts(1) [OF assms] by (auto simp: ps_drop_def ps_inv_def ps_consts)
  have tail: "ps_rx_tail ?s < length (ps_rx_ring ?s)"
    using inv(1) by (simp add: ps_inv_def ps_consts)
  define bytes where "bytes = (case data of
      Some d \<Rightarrow> if min n PROXY_SOCKET_MAX_PAYLOAD > 0
        then memcpy (rp_data (ps_rx_ring ?s ! ps_rx_tail ?s)) 0 (take (min n PROXY_SOCKET_MAX_PAYLOAD) d)
        else rp_data (ps_rx_ring ?s ! ps_rx_tail ?s)
    | None \<Rightarrow> rp_data (ps_rx_ring ?s ! ps_rx_tail ?s))"
  have data: "length (rp_data (ps_rx_ring ?s ! ps_rx_tail ?s)) = PROXY_SOCKET_MAX_PAYLOAD"
    using inv(1) tail by (simp add: ps_inv_def list_all_length)
  have len: "length bytes = PROXY_SOCKET_MAX_PAYLOAD"
    using data unfolding bytes_def by (cases data) (simp_all only: option.case if_split length_memcpy, auto)
  have eq: "ps_IncomingData s data n a =
      ?s\<lparr>ps_rx_ring := (ps_rx_ring ?s)[ps_rx_tail ?s :=
           \<lparr>rp_from = a, rp_len = word_of_nat (min n PROXY_SOCKET_MAX_PAYLOAD), rp_data = bytes\<rparr>],
         ps_rx_tail := (ps_rx_tail ?s + 1) mod PROXY_SOCKET_MAX_QUEUE_SIZE, ps_rx_count := ps_rx_count ?s + 1,
         ps_receive_event := True\<rparr>"
    unfolding ps_IncomingData_def Let_def bytes_def ps_drop_def by simp
  have "Suc (ps_rx_tail ?s) mod PROXY_SOCKET_MAX_QUEUE_SIZE =
      Suc (ps_rx_head ?s + ps_rx_count ?s) mod PROXY_SOCKET_MAX_QUEUE_SIZE"
    using inv(1) by (simp add: ps_inv_def mod_Suc_eq)
  then show ?thesis
    using inv len unfolding eq by (auto simp: ps_inv_def list_all_length nth_list_update)
qed

lemma foldl_inv: "I s \<Longrightarrow> (\<And>s x. I s \<Longrightarrow> I (f s x)) \<Longrightarrow> I (foldl f s xs)"
  by (induction xs arbitrary: s) auto

text \<open>Buffering a packet is a push onto a ring that drops its oldest element.\<close>

definition pm_drop :: "ProxySocketManager \<Rightarrow> ProxySocketManager" where
  "pm_drop m = m\<lparr>pm_pending_head := (pm_pending_head m + 1) mod MaxPendingPackets, pm_pending_count := pm_pending_count m - 1\<rparr>"

lemma in_set_tlD: "x \<in> set (tl xs) \<Longrightarrow> x \<in> set xs"
  by (cases xs) auto

lemma pm_drop_facts:
  assumes "pm_inv m" and "0 < pm_pending_count m"
  shows "pm_inv (pm_drop m)" "pm_pending (pm_drop m) = tl (pm_pending m)"
proof -
  have less: "(pm_pending_head m + 1) mod MaxPendingPackets < MaxPendingPackets"
    by (simp add: MaxPendingPackets_def)
  show tl: "pm_pending (pm_drop m) = tl (pm_pending m)"
    using assms ring_pop [OF assms(2), of "pm_pending_head m" MaxPendingPackets "pm_pending_ring m"]
    by (simp add: pm_pending_def pm_inv_def pm_drop_def)
  show "pm_inv (pm_drop m)"
    using assms less ring_pop_tail [OF assms(2), of "pm_pending_head m" MaxPendingPackets] tl
    by (auto simp: pm_inv_def pm_drop_def dest: in_set_tlD)
qed

lemma pm_buffer_facts:
  assumes "pm_inv m" and "n \<le> length d"
  obtains pkt where "pm_inv (pm_buffer m now sip sport dip dport protocol (Some d) n)"
    "pm_pending (pm_buffer m now sip sport dip dport protocol (Some d) n) =
       (if pm_pending_count m < MaxPendingPackets then pm_pending m else tl (pm_pending m)) @ [pkt]"
    "take (unat (pk_len pkt)) (pk_data pkt) = take PendingPayloadMax (take n d)" "pk_dest_port pkt = dport"
    "pk_protocol pkt = protocol" "pk_dest_ip pkt = dip" "pk_source_ip pkt = sip" "pk_source_port pkt = sport"
    "pk_enqueue_time_ms pkt = now"
    "pm_sockets (pm_buffer m now sip sport dip dport protocol (Some d) n) = pm_sockets m"
proof -
  let ?m = "if pm_pending_count m \<ge> MaxPendingPackets then pm_drop m else m"
  have m: "pm_inv ?m" "pm_pending_count ?m < MaxPendingPackets"
    "pm_pending ?m = (if pm_pending_count m < MaxPendingPackets then pm_pending m else tl (pm_pending m))"
    using assms(1) pm_drop_facts [OF assms(1)] by (auto simp: pm_drop_def pm_inv_def MaxPendingPackets_def)
  let ?c = "take (min n PendingPayloadMax) d"
  have c: "length ?c = min n PendingPayloadMax"
    using assms(2) by simp
  have tail: "pm_pending_tail ?m < length (pm_pending_ring ?m)"
    using m(1) by (simp add: pm_inv_def MaxPendingPackets_def)
  then have slot: "length (pk_data (pm_pending_ring ?m ! pm_pending_tail ?m)) = PendingPayloadMax"
    using m(1) nth_mem [OF tail] unfolding pm_inv_def by blast
  let ?pkt = "\<lparr>pk_source_ip = sip, pk_source_port = sport, pk_dest_ip = dip, pk_dest_port = dport,
      pk_len = word_of_nat (min n PendingPayloadMax), pk_protocol = protocol, pk_enqueue_time_ms = now,
      pk_data = memcpy (pk_data (pm_pending_ring ?m ! pm_pending_tail ?m)) 0 ?c\<rparr>"
  have eq: "pm_buffer m now sip sport dip dport protocol (Some d) n =
      ?m\<lparr>pm_pending_ring := (pm_pending_ring ?m)[pm_pending_tail ?m := ?pkt],
         pm_pending_tail := (pm_pending_tail ?m + 1) mod MaxPendingPackets, pm_pending_count := pm_pending_count ?m + 1\<rparr>"
    unfolding pm_buffer_def Let_def pm_drop_def by (auto simp: PendingPayloadMax_def)
  have len: "length (memcpy (pk_data (pm_pending_ring ?m ! pm_pending_tail ?m)) 0 ?c) = PendingPayloadMax"
    using slot c by simp
  have suc: "Suc (pm_pending_tail ?m) mod MaxPendingPackets = Suc (pm_pending_head ?m + pm_pending_count ?m) mod MaxPendingPackets"
    using m(1) by (simp add: pm_inv_def mod_Suc_eq)
  have set: "set ((pm_pending_ring ?m)[pm_pending_tail ?m := ?pkt]) \<subseteq> {p. length (pk_data p) = PendingPayloadMax}"
    using set_update_subset_insert [of "pm_pending_ring ?m" "pm_pending_tail ?m" ?pkt] m(1) len by (auto simp: pm_inv_def)
  have len16: "unat (word_of_nat (min n PendingPayloadMax) :: u16) = min n PendingPayloadMax"
    by (simp add: PendingPayloadMax_def unat_of_nat take_bit_nat_eq_self min_less_iff_disj)
  have pend: "pm_pending (pm_buffer m now sip sport dip dport protocol (Some d) n) = pm_pending ?m @ [?pkt]"
    using m ring_push [of "pm_pending_count ?m" MaxPendingPackets "pm_pending_ring ?m" "pm_pending_tail ?m" "pm_pending_head ?m" ?pkt]
    unfolding eq by (simp add: pm_pending_def pm_inv_def)
  have small: "\<forall>p \<in> set (pm_pending ?m @ [?pkt]). unat (pk_len p) \<le> PendingPayloadMax"
    using m(1) len16 by (auto simp: pm_inv_def)
  show ?thesis
  proof (rule that [of ?pkt])
    show "pm_inv (pm_buffer m now sip sport dip dport protocol (Some d) n)"
      using m(1,2) set suc small pend unfolding pm_inv_def pend unfolding eq by simp
    show "pm_pending (pm_buffer m now sip sport dip dport protocol (Some d) n) =
       (if pm_pending_count m < MaxPendingPackets then pm_pending m else tl (pm_pending m)) @ [?pkt]"
      using pend m(3) by simp
    show "take (unat (pk_len ?pkt)) (pk_data ?pkt) = take PendingPayloadMax (take n d)"
      using len16 take_memcpy_0 [of ?c] c by (simp add: min.commute)
    show "pm_sockets (pm_buffer m now sip sport dip dport protocol (Some d) n) = pm_sockets m"
      unfolding eq by (simp add: pm_drop_def)
  qed simp_all
qed

text \<open>Every call on a socket keeps its receive ring consistent.\<close>

lemma ps_inv_cong:
  "ps_rx_ring t = ps_rx_ring s \<Longrightarrow> ps_rx_head t = ps_rx_head s \<Longrightarrow> ps_rx_tail t = ps_rx_tail s \<Longrightarrow>
   ps_rx_count t = ps_rx_count s \<Longrightarrow> ps_receive_event s \<longrightarrow> ps_receive_event t \<Longrightarrow> ps_inv s \<Longrightarrow> ps_inv t"
  by (auto simp: ps_inv_def)

lemma consume_front_inv:
  assumes "ps_inv s" and "0 < ps_rx_count s"
  shows "ps_inv (snd (consume_front s n peek))"
proof (cases peek)
  case True
  then show ?thesis
    using assms by (simp add: consume_front_def Let_def)
next
  case False
  then show ?thesis
    using assms consume_front_drop [OF assms, of n] ps_drop_facts(1) [OF assms] by (auto simp: ps_inv_def ps_drop_def)
qed

lemma ps_calls_inv:
  assumes "ps_inv s"
  shows "ps_inv (ps_SetNonBlocking s b)" "ps_inv (snd (ps_Bind s a))" "ps_inv (snd (snd (ps_Connect s a sent response)))"
    "ps_inv (snd (ps_RecvFrom s null n flags))" "ps_inv (snd (ps_Listen s))" "ps_inv (snd (ps_Accept ring s))"
    "ps_inv (snd (ps_Shutdown s how))" "ps_inv (snd (ps_SetSockOpt s level opt val))"
    "ps_inv (ps_HandleConnectResponse s r)" "ps_inv (snd (ps_IncomingConnection s request))"
proof -
  show "ps_inv (snd (ps_RecvFrom s null n flags))"
    using assms consume_front_inv [OF assms] by (auto simp: ps_RecvFrom_def ps_recv_wakeup_def Let_def)
  show "ps_inv (snd (ps_Accept ring s))"
    by (rule ps_inv_cong [OF _ _ _ _ _ assms]) (auto simp: ps_Accept_def accept_front_def split: list.splits)
  show "ps_inv (snd (snd (ps_Connect s a sent response)))"
    by (rule ps_inv_cong [OF _ _ _ _ _ assms]) (auto simp: ps_Connect_def ps_HandleConnectResponse_def Let_def split: option.splits)
  show "ps_inv (snd (ps_SetSockOpt s level opt val))"
    by (rule ps_inv_cong [OF _ _ _ _ _ assms]) (auto simp: ps_SetSockOpt_def split: option.splits)
  show "ps_inv (snd (ps_Shutdown s how))"
    by (rule ps_inv_cong [OF _ _ _ _ _ assms]) (auto simp: ps_Shutdown_def split: ShutdownHow.splits)
  show "ps_inv (snd (ps_Bind s a))"
    by (rule ps_inv_cong [OF _ _ _ _ _ assms]) (auto simp: ps_Bind_def)
  show "ps_inv (ps_SetNonBlocking s b)" "ps_inv (snd (ps_Listen s))"
    "ps_inv (ps_HandleConnectResponse s r)" "ps_inv (snd (ps_IncomingConnection s request))"
    by (rule ps_inv_cong [OF _ _ _ _ _ assms],
        auto simp: ps_SetNonBlocking_def ps_Listen_def ps_HandleConnectResponse_def ps_IncomingConnection_def Let_def)+
qed

text \<open>Compaction of the pending ring keeps the packets that are to be kept, in their order.\<close>

lemma pm_sweep:
  assumes "pm_inv m" and "I s" and "\<And>x t. I t \<Longrightarrow> fst (step x t) = keep x" and "\<And>x t. I t \<Longrightarrow> I (snd (step x t))"
    and "ring_sweep MaxPendingPackets step (pm_pending_ring m) (pm_pending_head m) (pm_pending_head m) (pm_pending_count m) 0 s =
      (ring, w, kept, s')"
  shows "pm_inv (m\<lparr>pm_pending_ring := ring, pm_pending_tail := w, pm_pending_count := kept\<rparr>)"
    "pm_pending (m\<lparr>pm_pending_ring := ring, pm_pending_tail := w, pm_pending_count := kept\<rparr>) = filter keep (pm_pending m)"
    "s' = foldl (\<lambda>t x. snd (step x t)) s (pm_pending m)" "I s'"
proof -
  have run: "ring_sweep MaxPendingPackets step (pm_pending_ring m) ((pm_pending_head m + 0) mod MaxPendingPackets)
      ((pm_pending_head m + 0) mod MaxPendingPackets) (pm_pending_count m) 0 s = (ring, w, kept, s')"
    using assms(1,5) by (simp add: pm_inv_def)
  note sweep = ring_sweep_filter [where I = I and keep = keep, OF assms(3,4) assms(2) run,
      of "{p. length (pk_data p) = PendingPayloadMax}"]
  have "I s' \<and> set ring \<subseteq> {p. length (pk_data p) = PendingPayloadMax} \<and>
      ring_list MaxPendingPackets ring (pm_pending_head m) kept = filter keep (pm_pending m) \<and>
      w = (pm_pending_head m + kept) mod MaxPendingPackets \<and> kept \<le> pm_pending_count m \<and> length ring = MaxPendingPackets \<and>
      s' = foldl (\<lambda>t x. snd (step x t)) s (pm_pending m)"
    using sweep assms(1) by (auto simp: pm_inv_def pm_pending_def)
  then show "pm_inv (m\<lparr>pm_pending_ring := ring, pm_pending_tail := w, pm_pending_count := kept\<rparr>)"
    "pm_pending (m\<lparr>pm_pending_ring := ring, pm_pending_tail := w, pm_pending_count := kept\<rparr>) = filter keep (pm_pending m)"
    "s' = foldl (\<lambda>t x. snd (step x t)) s (pm_pending m)" "I s'"
    using assms(1) by (auto simp: pm_inv_def pm_pending_def)
qed

lemma pm_purge_facts:
  assumes "pm_inv m"
  shows "pm_inv (pm_purge m port protocol)" "pm_sockets (pm_purge m port protocol) = pm_sockets m"
    "pm_pending (pm_purge m port protocol) = filter (\<lambda>pkt. \<not> (pk_protocol pkt = protocol \<and> pk_dest_port pkt = port)) (pm_pending m)"
proof -
  obtain ring w kept u where run: "ring_sweep MaxPendingPackets (\<lambda>pkt u. (\<not> (pk_protocol pkt = protocol \<and> pk_dest_port pkt = port), u))
      (pm_pending_ring m) (pm_pending_head m) (pm_pending_head m) (pm_pending_count m) 0 () = (ring, w, kept, u)"
    using prod_cases4 by blast
  note facts = pm_sweep [OF assms, where I = "\<lambda>_. True", OF _ _ _ run,
      where keep = "\<lambda>pkt. \<not> (pk_protocol pkt = protocol \<and> pk_dest_port pkt = port)"]
  show "pm_inv (pm_purge m port protocol)" "pm_sockets (pm_purge m port protocol) = pm_sockets m"
    "pm_pending (pm_purge m port protocol) = filter (\<lambda>pkt. \<not> (pk_protocol pkt = protocol \<and> pk_dest_port pkt = port)) (pm_pending m)"
    using facts(1,2) unfolding pm_purge_def run by simp_all
qed

lemma deliver_step_inv: "ps_inv t \<Longrightarrow> ps_inv (snd (deliver_step now port protocol pkt t))"
  by (simp add: deliver_step_def IncomingData_inv_any)

lemma deliver_step_frame:
  "ps_local_addr (snd (deliver_step now port protocol pkt t)) = ps_local_addr t"
  "fst (deliver_step now port protocol pkt t) \<longleftrightarrow>
     \<not> pk_stale now pkt \<and> \<not> (pk_protocol pkt = protocol \<and> pk_dest_port pkt = port \<and>
       PacketMatchesSocketDestination t (pk_dest_ip pkt))"
  by (auto simp: deliver_step_def)

subsection \<open>Runs\<close>

text \<open>\<open>ring\<close> is the uninitialised array of pending packets.\<close>

definition pm_new :: "PendingPacket list \<Rightarrow> ProxySocketManager" where
  "pm_new ring = \<lparr>pm_sockets = [], pm_port_pool = pp_new, pm_local_ip = 0, pm_send_callback = False, pm_connect_callback = False,
     pm_connect_reply_callback = False, pm_disconnect_callback = False, pm_pending_ring = ring, pm_pending_head = 0,
     pm_pending_tail = 0, pm_pending_count = 0\<rparr>"

text \<open>One call by the service thread, by the game on a socket of the registry, or by the receive thread.\<close>

inductive pm_step :: "ProxySocketManager \<Rightarrow> ProxySocketManager \<Rightarrow> bool" where
  step_create: "ps_inv (ps_new ring ty protocol) \<Longrightarrow> pm_step m (snd (pm_CreateProxySocket m ring fd ty protocol))"
| step_close: "pm_CloseProxySocket m fd = Done (ok, m') \<Longrightarrow> pm_step m m'"
| step_close_all: "pm_CloseAllProxySockets m = Done m' \<Longrightarrow> pm_step m m'"
| step_reset: "pm_Reset m = Done m' \<Longrightarrow> pm_step m m'"
| step_allocate: "pm_step m (snd (pm_AllocatePort m protocol))"
| step_reserve: "pm_step m (snd (pm_ReservePort m port protocol))"
| step_release: "pm_step m (pm_ReleasePort m port protocol)"
| step_local_ip: "pm_step m (pm_SetLocalIp m ip)"
| step_connect_response: "pm_step m (snd (pm_RouteConnectResponse m response))"
| step_connect_request: "pm_RouteConnectRequest m request = Done (ok, m') \<Longrightarrow> pm_step m m'"
| step_data: "pm_step m (snd (pm_RouteIncomingData m now sip sport dip dport protocol (Some d) (length d)))"
| step_deliver: "pm_step m (pm_DeliverPendingPackets m now fd port protocol)"
| step_nonblocking: "pm_step m (pm_update m fd (\<lambda>s. ps_SetNonBlocking s b))"
| step_bind: "pm_step m (pm_update m fd (\<lambda>s. snd (ps_Bind s a)))"
| step_connect: "pm_step m (pm_update m fd (\<lambda>s. snd (snd (ps_Connect s a sent reply))))"
| step_recv: "pm_step m (pm_update m fd (\<lambda>s. snd (ps_RecvFrom s null n flags)))"
| step_listen: "pm_step m (pm_update m fd (\<lambda>s. snd (ps_Listen s)))"
| step_accept: "pm_step m (pm_update m fd (\<lambda>s. snd (ps_Accept ring s)))"
| step_shutdown: "pm_step m (pm_update m fd (\<lambda>s. snd (ps_Shutdown s how)))"
| step_sockopt: "pm_step m (pm_update m fd (\<lambda>s. snd (ps_SetSockOpt s level opt val)))"

lemma pool_calls_inv:
  assumes "pp_inv p"
  shows "pp_inv (snd (pp_AllocatePort p a))" "pp_inv (snd (pp_AllocateSpecificPort p port a))"
    "pp_inv (pp_ReleasePort p port a)" "pp_inv (pp_ReleaseAll p)"
  using assms
  by (auto simp: pp_AllocatePort_def pp_AllocateSpecificPort_def pp_ReleasePort_def pp_ReleaseAll_def pp_inv_def
      pp_set_bits_def pp_set_hint_def pp_bits_def Let_def split: option.splits)

definition pk_for :: "ProxySocket \<Rightarrow> u16 \<Rightarrow> ProtocolType \<Rightarrow> PendingPacket \<Rightarrow> bool" where
  "pk_for s port protocol pkt \<longleftrightarrow> pk_protocol pkt = protocol \<and> pk_dest_port pkt = port \<and>
     PacketMatchesSocketDestination s (pk_dest_ip pkt)"

lemma DeliverPendingPackets_facts:
  assumes inv: "pm_inv m" and s: "pm_GetProxySocket m fd = Some s"
  shows "pm_inv (pm_DeliverPendingPackets m now fd port protocol)"
    "pm_pending (pm_DeliverPendingPackets m now fd port protocol) = filter (\<lambda>pkt. \<not> pk_stale now pkt \<and> \<not> pk_for s port protocol pkt) (pm_pending m)"
    "pm_GetProxySocket (pm_DeliverPendingPackets m now fd port protocol) k =
       (if k = fd then Some (foldl (\<lambda>t pkt. snd (deliver_step now port protocol pkt t)) s (pm_pending m)) else pm_GetProxySocket m k)"
proof -
  let ?I = "\<lambda>t. ps_inv t \<and> ps_local_addr t = ps_local_addr s"
  let ?keep = "\<lambda>pkt. \<not> pk_stale now pkt \<and> \<not> pk_for s port protocol pkt"
  have s0: "?I s"
    using s inv map_of_SomeD [of "pm_sockets m" fd s] by (auto simp: pm_GetProxySocket_def pm_inv_def list_all_iff)
  have keep: "\<And>x t. ?I t \<Longrightarrow> fst (deliver_step now port protocol x t) = ?keep x"
    by (simp add: deliver_step_frame(2) pk_for_def PacketMatchesSocketDestination_def)
  have step: "\<And>x t. ?I t \<Longrightarrow> ?I (snd (deliver_step now port protocol x t))"
    by (simp add: deliver_step_frame(1) deliver_step_inv)
  obtain ring w kept s' where run: "ring_sweep MaxPendingPackets (deliver_step now port protocol)
      (pm_pending_ring m) (pm_pending_head m) (pm_pending_head m) (pm_pending_count m) 0 s = (ring, w, kept, s')"
    using prod_cases4 by blast
  note facts = pm_sweep [OF inv, where I = ?I, OF s0 keep step run]
  have eq: "pm_DeliverPendingPackets m now fd port protocol = (if pm_pending_count m = 0 then m
      else pm_update (m\<lparr>pm_pending_ring := ring, pm_pending_tail := w, pm_pending_count := kept\<rparr>) fd (\<lambda>_. s'))"
    using s by (simp add: pm_DeliverPendingPackets_def pm_GetProxySocket_def run)
  have "pm_pending_count m = 0 \<Longrightarrow> pm_pending m = []"
    by (simp add: pm_pending_def)
  moreover have "pm_inv (pm_update (m\<lparr>pm_pending_ring := ring, pm_pending_tail := w, pm_pending_count := kept\<rparr>) fd (\<lambda>_. s'))"
    using facts(1,4) by (intro pm_update_inv) simp_all
  ultimately show "pm_inv (pm_DeliverPendingPackets m now fd port protocol)"
    "pm_pending (pm_DeliverPendingPackets m now fd port protocol) = filter ?keep (pm_pending m)"
    "pm_GetProxySocket (pm_DeliverPendingPackets m now fd port protocol) k =
       (if k = fd then Some (foldl (\<lambda>t pkt. snd (deliver_step now port protocol pkt t)) s (pm_pending m)) else pm_GetProxySocket m k)"
    using s inv facts(2,3) unfolding eq pm_GetProxySocket_def by simp_all
qed

lemma ReleasePort_inv: "pm_inv m \<Longrightarrow> pm_inv (pm_ReleasePort m port protocol)"
  by (simp add: pm_inv_def pm_ReleasePort_def pool_calls_inv)

lemma pm_remove_inv:
  assumes "pm_inv m"
  shows "pm_inv (m\<lparr>pm_sockets := filter (\<lambda>(k, t). k \<noteq> fd) (pm_sockets m)\<rparr>)"
proof -
  have "length (filter (\<lambda>(k, t). k \<noteq> fd) (pm_sockets m)) \<le> MAX_PROXY_SOCKETS"
    using assms length_filter_le [of _ "pm_sockets m"] le_trans unfolding pm_inv_def by blast
  then show ?thesis
    using assms by (auto simp: pm_inv_def distinct_map_filter list_all_iff)
qed

lemma pm_forget_inv: "pm_inv m \<Longrightarrow> pm_inv (pm_forget m fd port protocol)"
  using pm_remove_inv [of m fd] pm_remove_inv [of "pm_purge m port protocol" fd] pm_purge_facts(1) [of m port protocol]
  by (simp add: pm_forget_def Let_def)

lemma CloseProxySocket_inv:
  assumes "pm_inv m" and "pm_CloseProxySocket m fd = Done (ok, m')"
  shows "pm_inv m'"
  using assms(2) assms(1) pm_forget_inv [OF assms(1)] pm_forget_inv [OF ReleasePort_inv [OF assms(1)]]
  by (auto simp: pm_CloseProxySocket_def Let_def split: option.splits prod.splits if_splits)

lemma find_SomeD: "find P xs = Some x \<Longrightarrow> P x \<and> x \<in> set xs"
  by (auto simp: find_Some_iff)

text \<open>Whether a socket is a listener that a connect request is for.\<close>

definition listens_for :: "ProxyInfo \<Rightarrow> ProxySocket \<Rightarrow> bool" where
  "listens_for info s \<longleftrightarrow> ps_state s = Listening \<and> ps_protocol s = Proto_Tcp \<and>
     GetPort (ps_local_addr s) = pinfo_dest_port info \<and>
     (GetAddr (ps_local_addr s) = 0 \<or> GetAddr (ps_local_addr s) = pinfo_dest_ipv4 info)"

lemma RouteConnectRequest_eq:
  "pm_RouteConnectRequest m request =
     (if list_ex (\<lambda>(k, s). listens_for (pcreq_info request) s) (pm_sockets m) then Deadlock else Done (False, m))"
proof -
  let ?P = "\<lambda>(k :: fd, s). listens_for (pcreq_info request) s"
  have eq: "pm_RouteConnectRequest m request = (case find ?P (pm_sockets m) of
      Some (k, s) \<Rightarrow> (case ps_IncomingConnection s request of (out, s') \<Rightarrow>
             if out \<noteq> [] then Deadlock else Done (True, pm_update m k (\<lambda>_. s')))
      | None \<Rightarrow> Done (False, m))"
    by (simp add: pm_RouteConnectRequest_def listens_for_def Let_def)
  show ?thesis
  proof (cases "find ?P (pm_sockets m)")
    case None
    then have "\<not> list_ex (\<lambda>(k, s). listens_for (pcreq_info request) s) (pm_sockets m)"
      by (auto simp: find_None_iff list_ex_iff)
    then show ?thesis
      unfolding eq None by simp
  next
    case (Some x)
    obtain k s where x: "x = (k, s)"
      by fastforce
    then have "listens_for (pcreq_info request) s" "(k, s) \<in> set (pm_sockets m)"
      using find_SomeD [OF Some] by auto
    then show ?thesis
      unfolding eq Some x by (auto simp: list_ex_iff ps_IncomingConnection_def listens_for_def Let_def)
  qed
qed

lemma pm_step_inv:
  assumes "pm_step m m'" and "pm_inv m"
  shows "pm_inv m'"
  using assms
proof cases
  case (step_data now sip sport dip dport protocol d)
  have "pm_inv (foldl (\<lambda>m k. pm_update m k (\<lambda>s. ps_IncomingData s (Some d) (length d) (inet_addr sip sport))) m ts)" for ts
    by (rule foldl_inv [where I = pm_inv]) (simp_all add: assms(2) pm_update_inv IncomingData_inv_any)
  moreover have "pm_inv (pm_buffer m now sip sport dip dport protocol (Some d) (length d))"
    by (rule pm_buffer_facts [OF assms(2), of "length d" d now sip sport dip dport protocol]) simp_all
  ultimately show ?thesis
    using step_data assms(2) by (simp add: pm_RouteIncomingData_def Let_def)
next
  case (step_deliver now fd port protocol)
  then show ?thesis
    using assms(2) DeliverPendingPackets_facts(1) [OF assms(2), of fd]
    by (cases "pm_GetProxySocket m fd") (auto simp: pm_DeliverPendingPackets_def pm_GetProxySocket_def)
next
  case (step_connect_response response)
  then show ?thesis
    using assms(2) pm_update_inv [OF assms(2)] ps_calls_inv(9)
    by (auto simp: pm_RouteConnectResponse_def Let_def split: option.splits)
next
  case (step_connect_request request ok)
  then show ?thesis
    using assms(2) by (simp add: RouteConnectRequest_eq split: if_splits)
next
  case (step_local_ip ip)
  then show ?thesis
    using assms(2) by (auto simp: pm_SetLocalIp_def pm_inv_def pm_pending_def MaxPendingPackets_def Let_def)
next
  case (step_reset)
  then show ?thesis
    using assms(2) pool_calls_inv(4) by (auto simp: pm_Reset_def pm_inv_def pm_pending_def MaxPendingPackets_def split: if_splits)
next
  case (step_close_all)
  then show ?thesis
    using assms(2) pool_calls_inv(4) by (auto simp: pm_CloseAllProxySockets_def pm_inv_def pm_pending_def split: if_splits)
next
  case (step_allocate protocol)
  then show ?thesis
    using assms(2) pool_calls_inv(1) [of "pm_port_pool m" protocol] by (auto simp: pm_AllocatePort_def pm_inv_def split: prod.splits)
next
  case (step_reserve port protocol)
  then show ?thesis
    using assms(2) pool_calls_inv(2) [of "pm_port_pool m" port protocol] by (auto simp: pm_ReservePort_def pm_inv_def split: prod.splits)
qed (use assms(2) in \<open>auto intro: pm_CreateProxySocket_inv CloseProxySocket_inv ReleasePort_inv pm_update_inv ps_calls_inv\<close>)

subsection \<open>Routing\<close>

text \<open>The socket \<open>k\<close> is bound to the port with the local address \<open>a\<close>.\<close>

definition bound_to :: "ProxySocketManager \<Rightarrow> ProtocolType \<Rightarrow> u16 \<Rightarrow> u32 \<Rightarrow> fd \<Rightarrow> bool" where
  "bound_to m protocol port a k \<longleftrightarrow> (\<exists>s. (k, s) \<in> set (pm_sockets m) \<and> ps_protocol s = protocol \<and>
     GetPort (ps_local_addr s) = port \<and> GetAddr (ps_local_addr s) = a)"

lemma find_unicast_spec:
  "find_unicast ip port protocol wild ss = r \<Longrightarrow>
   (\<exists>k s. r = Some k \<and> (k, s) \<in> set ss \<and> ps_protocol s = protocol \<and> GetPort (ps_local_addr s) = port \<and> GetAddr (ps_local_addr s) = ip) \<or>
   (\<forall>(k, s) \<in> set ss. \<not> (ps_protocol s = protocol \<and> GetPort (ps_local_addr s) = port \<and> GetAddr (ps_local_addr s) = ip)) \<and>
   (case wild of
      Some w \<Rightarrow> r = Some w
    | None \<Rightarrow> case r of
        Some k \<Rightarrow> \<exists>s. (k, s) \<in> set ss \<and> ps_protocol s = protocol \<and> GetPort (ps_local_addr s) = port \<and> GetAddr (ps_local_addr s) = 0
      | None \<Rightarrow> \<forall>(k, s) \<in> set ss. \<not> (ps_protocol s = protocol \<and> GetPort (ps_local_addr s) = port \<and> GetAddr (ps_local_addr s) = 0))"
proof (induction ss arbitrary: wild)
  case Nil
  then show ?case
    by (cases wild) auto
next
  case (Cons x ss)
  obtain k s where x: "x = (k, s)"
    by fastforce
  consider (exact) "ps_protocol s = protocol" "GetPort (ps_local_addr s) = port" "GetAddr (ps_local_addr s) = ip"
    | (wild) "ps_protocol s = protocol" "GetPort (ps_local_addr s) = port" "GetAddr (ps_local_addr s) \<noteq> ip" "GetAddr (ps_local_addr s) = 0"
    | (skip) "\<not> (ps_protocol s = protocol \<and> GetPort (ps_local_addr s) = port \<and> (GetAddr (ps_local_addr s) = ip \<or> GetAddr (ps_local_addr s) = 0))"
    by blast
  then show ?case
  proof cases
    case exact
    then show ?thesis
      using Cons.prems x by auto
  next
    case wild
    then have "find_unicast ip port protocol (case wild of None \<Rightarrow> Some k | Some w \<Rightarrow> Some w) ss = r"
      using Cons.prems x by simp
    from Cons.IH [OF this] show ?thesis
      using wild by (cases "wild :: fd option") (auto simp: x)
  next
    case skip
    then have "find_unicast ip port protocol wild ss = r"
      using Cons.prems x by (auto split: if_splits)
    from Cons.IH [OF this] show ?thesis
      using skip by (auto simp: x split: option.splits)
  qed
qed

lemma find_broadcast_spec:
  "distinct (map fst ss) \<Longrightarrow> find_broadcast ip port protocol room ss = take room (map fst (filter (\<lambda>(k, s). broadcast_match ip port protocol s) ss))"
proof (induction ss arbitrary: room)
  case (Cons x ss)
  then show ?case
    by (cases x; cases room) auto
qed simp

lemma FindAllSocketsByDestination_spec:
  assumes "pm_inv m" and targets_def: "targets = pm_FindAllSocketsByDestination m ip port protocol 8"
  shows "distinct targets"
    "is_broadcast ip \<Longrightarrow> targets = take 8 (map fst (filter (\<lambda>(k, s). broadcast_match ip port protocol s) (pm_sockets m)))"
    "\<not> is_broadcast ip \<Longrightarrow> case targets of
       [] \<Rightarrow> \<forall>k. \<not> bound_to m protocol port ip k \<and> \<not> bound_to m protocol port 0 k
     | k # ks \<Rightarrow> ks = [] \<and> (bound_to m protocol port ip k \<or> bound_to m protocol port 0 k \<and> (\<forall>k'. \<not> bound_to m protocol port ip k'))"
proof -
  have keys: "distinct (map fst (pm_sockets m))"
    using assms(1) by (simp add: pm_inv_def)
  then show *: "is_broadcast ip \<Longrightarrow> targets = take 8 (map fst (filter (\<lambda>(k, s). broadcast_match ip port protocol s) (pm_sockets m)))"
    by (simp add: targets_def pm_FindAllSocketsByDestination_def find_broadcast_spec)
  show "distinct targets"
  proof (cases "is_broadcast ip")
    case True
    then show ?thesis
      using * keys by (simp add: distinct_map_filter)
  next
    case False
    then show ?thesis
      by (simp add: targets_def pm_FindAllSocketsByDestination_def split: option.splits)
  qed
  show "\<not> is_broadcast ip \<Longrightarrow> case targets of
       [] \<Rightarrow> \<forall>k. \<not> bound_to m protocol port ip k \<and> \<not> bound_to m protocol port 0 k
     | k # ks \<Rightarrow> ks = [] \<and> (bound_to m protocol port ip k \<or> bound_to m protocol port 0 k \<and> (\<forall>k'. \<not> bound_to m protocol port ip k'))"
    using find_unicast_spec [of ip port protocol None "pm_sockets m", OF refl]
    by (cases "find_unicast ip port protocol None (pm_sockets m)")
      (fastforce simp: targets_def pm_FindAllSocketsByDestination_def bound_to_def)+
qed

lemma foldl_update_lookup:
  "distinct ts \<Longrightarrow> map_of (pm_sockets (foldl (\<lambda>m k. pm_update m k f) m ts)) k =
     (if k \<in> set ts then map_option f (map_of (pm_sockets m) k) else map_of (pm_sockets m) k)"
  by (induction ts arbitrary: m) auto

lemma pm_socket_inv: "pm_inv m \<Longrightarrow> pm_GetProxySocket m k = Some s \<Longrightarrow> ps_inv s"
  by (auto simp: pm_inv_def pm_GetProxySocket_def list_all_iff dest!: map_of_SomeD)

lemma IncomingData_queue:
  assumes "ps_inv s" and "length d \<le> 2000"
  shows "ps_queue (ps_IncomingData s (Some d) (length d) src) = drop (ps_rx_count s + 1 - 64) (ps_queue s @ [(src, d)])"
proof -
  have "ps_rx_count s = 64 \<Longrightarrow> tl (ps_queue s) @ [(src, d)] = drop 1 (ps_queue s @ [(src, d)])"
    using length_ps_queue [of s] by (cases "ps_queue s") auto
  then show ?thesis
    using IncomingData_facts(2) [OF assms(1), of d src] assms by (auto simp: ps_consts ps_inv_def)
qed

text \<open>Delivering the pending packets of an endpoint hands each to the socket like an arriving packet.\<close>

definition pk_content :: "PendingPacket \<Rightarrow> SockAddrIn \<times> byte list" where
  "pk_content pkt = (inet_addr (pk_source_ip pkt) (pk_source_port pkt), take (unat (pk_len pkt)) (pk_data pkt))"

lemma IncomingData_take:
  "n \<le> length d \<Longrightarrow> ps_IncomingData s (Some d) n a = ps_put s (a, take n d)"
  by (simp add: ps_IncomingData_def ps_put_def Let_def min_def)

lemma pending_sizes:
  assumes "pm_inv m" and "pkt \<in> set (pm_pending m)"
  shows "length (pk_data pkt) = PendingPayloadMax" "unat (pk_len pkt) \<le> PendingPayloadMax"
proof -
  have "set (pm_pending m) \<subseteq> set (pm_pending_ring m)"
    using assms(1) by (auto simp: pm_pending_def ring_list_def pm_inv_def MaxPendingPackets_def intro!: nth_mem)
  then show "length (pk_data pkt) = PendingPayloadMax" "unat (pk_len pkt) \<le> PendingPayloadMax"
    using assms unfolding pm_inv_def by blast+
qed

lemma deliver_foldl:
  "\<forall>pkt \<in> set pkts. unat (pk_len pkt) \<le> length (pk_data pkt) \<Longrightarrow> ps_local_addr t = ps_local_addr s \<Longrightarrow>
   foldl (\<lambda>t pkt. snd (deliver_step now port protocol pkt t)) t pkts =
   foldl ps_put t (map pk_content (filter (\<lambda>pkt. \<not> pk_stale now pkt \<and> pk_for s port protocol pkt) pkts))"
proof (induction pkts arbitrary: t)
  case (Cons pkt pkts)
  have "PacketMatchesSocketDestination t = PacketMatchesSocketDestination s"
    using Cons.prems(2) by (simp add: PacketMatchesSocketDestination_def fun_eq_iff)
  then have "snd (deliver_step now port protocol pkt t) =
      (if \<not> pk_stale now pkt \<and> pk_for s port protocol pkt then ps_put t (pk_content pkt) else t)"
    using Cons.prems(1) by (simp add: deliver_step_def pk_for_def pk_content_def IncomingData_take)
  moreover have "ps_local_addr (snd (deliver_step now port protocol pkt t)) = ps_local_addr s"
    using Cons.prems(2) by (simp add: deliver_step_frame(1))
  ultimately show ?case
    using Cons.IH [of "snd (deliver_step now port protocol pkt t)"] Cons.prems(1) by auto
qed simp

text \<open>A manager with two bound sockets, for the examples.\<close>

definition sample_socket :: "SocketType \<Rightarrow> ProtocolType \<Rightarrow> u32 \<Rightarrow> u16 \<Rightarrow> ProxySocket" where
  "sample_socket ty protocol ip port = (ps_new blank_ring ty protocol)\<lparr>ps_local_addr := inet_addr ip port, ps_state := Bound\<rparr>"

definition sample_pending :: "PendingPacket list" where
  "sample_pending = replicate 32 \<lparr>pk_source_ip = 9, pk_source_port = 8, pk_dest_ip = 7, pk_dest_port = 6, pk_len = 2,
     pk_protocol = Proto_Tcp, pk_enqueue_time_ms = 100, pk_data = replicate 1400 5\<rparr>"

definition sample_manager :: ProxySocketManager where
  "sample_manager = (pm_new sample_pending)\<lparr>pm_sockets := [(3, sample_socket Sock_Dgram Proto_Udp 0 6),
     (4, sample_socket Sock_Dgram Proto_Udp 7 6), (5, sample_socket Sock_Stream Proto_Tcp 7 6)],
     pm_pending_count := 1, pm_pending_tail := 1\<rparr>"

lemma sample_socket_facts:
  "ps_open (sample_socket ty protocol ip port)" "ps_queue (sample_socket ty protocol ip port) = []"
  using ps_new_open [of ty protocol] by (auto simp: sample_socket_def ps_open_def ps_inv_def ps_queue_def)

lemma sample_socket_fields:
  "ps_protocol (sample_socket ty protocol ip port) = protocol" "ps_local_addr (sample_socket ty protocol ip port) = inet_addr ip port"
  by (simp_all add: sample_socket_def ps_new_def)

lemma sample_manager_inv: "pm_inv sample_manager"
proof -
  have "ps_inv (sample_socket ty protocol ip port)" for ty protocol ip port
    using sample_socket_facts(1) by (simp add: ps_open_def)
  then show ?thesis
    by (simp add: sample_manager_def pm_inv_def pm_new_def pm_consts sample_pending_def pm_pending_def ring_list_def)
qed

subsection \<open>Properties\<close>

text \<open>
  C10: whatever sequence of calls the service, the games and the receive thread make, starting from a new
  manager, the registry stays well formed: descriptors are unique and at most 64, every receive ring,
  the ring of pending packets and the port pool are consistent, and no pending packet claims more bytes than its slot has.
\<close>

theorem manager_stays_consistent:
  assumes "pm_step\<^sup>*\<^sup>* (pm_new ring) m" and "length ring = 32" and "set ring \<subseteq> {p. length (pk_data p) = 1400}"
  shows "pm_inv m"
  using assms(1)
proof (induction rule: rtranclp_induct)
  case base
  then show ?case
    using assms(2,3) by (simp add: pm_new_def pm_inv_def pm_consts pm_pending_def)
next
  case (step m m')
  then show ?case
    using pm_step_inv by blast
qed

text \<open>A packet for a port nobody has bound yet, then a socket that is created, bound to that port and handed the packet.\<close>

theorem manager_stays_consistent_witness:
  "let m1 = pm_SetLocalIp (pm_new sample_pending) 0x0A720001;
       m2 = snd (pm_RouteIncomingData m1 5 0x0A720002 80 0x0A720001 90 Proto_Tcp (Some [1, 2]) (length [1 :: byte, 2]));
       m3 = snd (pm_CreateProxySocket m2 blank_ring 3 Sock_Stream Proto_Tcp);
       m4 = pm_update m3 3 (\<lambda>s. snd (ps_Bind s (inet_addr 0x0A720001 90)));
       m5 = pm_DeliverPendingPackets m4 6 3 90 Proto_Tcp
   in pm_inv m5 \<and> map fst (pm_sockets m4) = [3] \<and> pm_pending_count m2 = 1"
proof -
  define m1 where "m1 = pm_SetLocalIp (pm_new sample_pending) 0x0A720001"
  define m2 where "m2 = snd (pm_RouteIncomingData m1 5 0x0A720002 80 0x0A720001 90 Proto_Tcp (Some [1, 2]) (length [1 :: byte, 2]))"
  define m3 where "m3 = snd (pm_CreateProxySocket m2 blank_ring 3 Sock_Stream Proto_Tcp)"
  define m4 where "m4 = pm_update m3 3 (\<lambda>s. snd (ps_Bind s (inet_addr 0x0A720001 90)))"
  have "ps_inv (ps_new blank_ring Sock_Stream Proto_Tcp)" using ps_new_open(1) by (simp add: ps_open_def)
  then have "pm_step m2 m3" unfolding m3_def by (rule step_create)
  moreover have "pm_step (pm_new sample_pending) m1" "pm_step m1 m2" "pm_step m3 m4"
      "pm_step m4 (pm_DeliverPendingPackets m4 6 3 90 Proto_Tcp)"
    by (simp_all only: m1_def m2_def m4_def step_local_ip step_data step_bind step_deliver)
  ultimately have run: "pm_step\<^sup>*\<^sup>* (pm_new sample_pending) (pm_DeliverPendingPackets m4 6 3 90 Proto_Tcp)"
    by (meson converse_rtranclp_into_rtranclp rtranclp.rtrancl_refl)
  have inv: "pm_inv (pm_DeliverPendingPackets m4 6 3 90 Proto_Tcp)"
    by (rule manager_stays_consistent [OF run]) (simp_all add: sample_pending_def)
  have m1: "pm_sockets m1 = []" "pm_local_ip m1 = 0x0A720001" "pm_pending_count m1 = 0"
    by (simp_all add: m1_def pm_SetLocalIp_def pm_new_def)
  have m2: "pm_sockets m2 = []" "pm_pending_count m2 = 1"
    using m1 by (simp_all add: m2_def pm_RouteIncomingData_def pm_FindAllSocketsByDestination_def pm_buffer_def Let_def)
  have "map fst (pm_sockets m4) = [3]"
    using m2(1) by (simp add: m4_def m3_def pm_CreateProxySocket_def pm_update_def pm_consts)
  then show ?thesis using inv m2(2) by (simp add: Let_def m1_def m2_def m3_def m4_def)
qed

text \<open>
  C9: data from another console reaches exactly the sockets it is meant for. A unicast packet goes to one socket:
  one bound to its address and port if there is any, else one bound to the port on any address; a
  broadcast goes to every matching socket (the first eight). Each target gets the payload once, with the sender's address,
  at the end of its queue, which keeps its newest 64; every other socket is untouched, and the call reports
  whether there was a target.
\<close>

theorem data_routed_to_targets:
  assumes "pm_inv m" and "pm_local_ip m = 0 \<or> sip \<noteq> pm_local_ip m" and "length d \<le> 2000"
    and "pm_RouteIncomingData m now sip sport ip port protocol (Some d) (length d) = (ok, m')"
  shows "\<exists>targets. ok = (targets \<noteq> []) \<and> distinct targets \<and>
    (if is_broadcast ip then targets = take 8 (map fst (filter (\<lambda>(k, s). broadcast_match ip port protocol s) (pm_sockets m)))
     else case targets of
       [] \<Rightarrow> \<forall>k. \<not> bound_to m protocol port ip k \<and> \<not> bound_to m protocol port 0 k
     | k # ks \<Rightarrow> ks = [] \<and> (bound_to m protocol port ip k \<or> bound_to m protocol port 0 k \<and> (\<forall>k'. \<not> bound_to m protocol port ip k'))) \<and>
    (\<forall>k s. pm_GetProxySocket m k = Some s \<longrightarrow> (\<exists>s'. pm_GetProxySocket m' k = Some s' \<and>
       (if k \<in> set targets
        then ps_queue s' = drop (length (ps_queue s) + 1 - 64) (ps_queue s @ [(inet_addr sip sport, d)])
        else s' = s)))"
proof -
  define targets where "targets = pm_FindAllSocketsByDestination m ip port protocol 8"
  let ?f = "\<lambda>s. ps_IncomingData s (Some d) (length d) (inet_addr sip sport)"
  note spec = FindAllSocketsByDestination_spec [OF assms(1) targets_def]
  have buffered: "pm_sockets (pm_buffer m now sip sport ip port protocol (Some d) (length d)) = pm_sockets m"
    by (rule pm_buffer_facts [OF assms(1) order_refl])
  have ok: "ok = (targets \<noteq> [])" and m': "pm_GetProxySocket m' k =
      (if k \<in> set targets then map_option ?f (pm_GetProxySocket m k) else pm_GetProxySocket m k)" for k
    using assms(2,4) spec(1) buffered foldl_update_lookup [OF spec(1), of ?f m k]
    unfolding pm_RouteIncomingData_def targets_def [symmetric]
    by (auto simp: pm_GetProxySocket_def split: if_splits)
  have queues: "\<exists>s'. pm_GetProxySocket m' k = Some s' \<and> (if k \<in> set targets
        then ps_queue s' = drop (length (ps_queue s) + 1 - 64) (ps_queue s @ [(inet_addr sip sport, d)]) else s' = s)"
    if "pm_GetProxySocket m k = Some s" for k s
    using that m' [of k] IncomingData_queue [OF pm_socket_inv [OF assms(1) that] assms(3)] by simp
  show ?thesis
    using ok spec queues by (intro exI [of _ targets] conjI) auto
qed

theorem data_routed_to_targets_witness:
  "\<exists>s'. pm_GetProxySocket (snd (pm_RouteIncomingData sample_manager 0 9 8 7 6 Proto_Udp (Some [1]) (length [1 :: byte]))) 4 = Some s' \<and>
     ps_queue s' = [(inet_addr 9 8, [1])]"
proof -
  let ?r = "pm_RouteIncomingData sample_manager 0 9 8 7 6 Proto_Udp (Some [1]) (length [1 :: byte])"
  obtain ok m' where r: "?r = (ok, m')"
    by fastforce
  have bound: "bound_to sample_manager Proto_Udp 6 7 k \<longleftrightarrow> k = 4" for k
    by (simp add: bound_to_def sample_manager_def sample_socket_fields ex_disj_distrib conj_disj_distribR)
  have get: "pm_GetProxySocket sample_manager 4 = Some (sample_socket Sock_Dgram Proto_Udp 7 6)"
    by (simp add: pm_GetProxySocket_def sample_manager_def)
  have "\<not> is_broadcast 7" "pm_local_ip sample_manager = 0"
    by (simp_all add: is_broadcast_def is_multicast_def sample_manager_def pm_new_def)
  note sample = this
  have "length [1 :: byte] \<le> 2000"
    by simp
  note ex = data_routed_to_targets [OF sample_manager_inv disjI1 [OF sample(2)] this r]
  obtain targets where t: "case targets of
       [] \<Rightarrow> \<forall>k. \<not> bound_to sample_manager Proto_Udp 6 7 k \<and> \<not> bound_to sample_manager Proto_Udp 6 0 k
     | k # ks \<Rightarrow> ks = [] \<and> (bound_to sample_manager Proto_Udp 6 7 k \<or> bound_to sample_manager Proto_Udp 6 0 k \<and>
         (\<forall>k'. \<not> bound_to sample_manager Proto_Udp 6 7 k'))"
    "\<forall>k s. pm_GetProxySocket sample_manager k = Some s \<longrightarrow> (\<exists>s'. pm_GetProxySocket m' k = Some s' \<and>
       (if k \<in> set targets then ps_queue s' = drop (length (ps_queue s) + 1 - 64) (ps_queue s @ [(inet_addr 9 8, [1])])
        else s' = s))"
    using ex unfolding if_not_P [OF sample(1)] by blast
  have "targets = [4]"
    using t(1) bound by (cases targets) auto
  then show ?thesis
    using t(2) [rule_format, OF get] r by (simp add: sample_socket_facts(2) del: length_ps_queue)
qed

text \<open>
  Binding a socket late loses nothing that is still fresh: \<^verbatim>\<open>DeliverPendingPackets\<close> appends exactly the pending
  packets for this endpoint that are at most 500 ms old to the socket's queue, in the order in which they
  arrived and with payload and sender unchanged (the newest 64 if there are more), and the ring keeps exactly the fresh packets for others,
  in order.
\<close>

theorem late_bind_delivers_pending:
  assumes "pm_inv m" and "pm_GetProxySocket m fd = Some s" and "ps_open s"
    and "mine = filter (\<lambda>pkt. \<not> pk_stale now pkt \<and> pk_for s port protocol pkt) (pm_pending m)"
  shows "pm_pending (pm_DeliverPendingPackets m now fd port protocol) =
      filter (\<lambda>pkt. \<not> pk_stale now pkt \<and> \<not> pk_for s port protocol pkt) (pm_pending m) \<and>
    (\<exists>s'. pm_GetProxySocket (pm_DeliverPendingPackets m now fd port protocol) fd = Some s' \<and>
      ps_queue s' = drop (length (ps_queue s) + length mine - 64) (ps_queue s @ map pk_content mine)) \<and>
    (\<forall>k. k \<noteq> fd \<longrightarrow> pm_GetProxySocket (pm_DeliverPendingPackets m now fd port protocol) k = pm_GetProxySocket m k)"
proof -
  have sizes: "\<forall>pkt \<in> set (pm_pending m). unat (pk_len pkt) \<le> length (pk_data pkt)"
    using pending_sizes [OF assms(1)] by auto
  have fold: "foldl (\<lambda>t pkt. snd (deliver_step now port protocol pkt t)) s (pm_pending m) = foldl ps_put s (map pk_content mine)"
    using deliver_foldl [OF sizes refl] assms(4) by simp
  have clip: "map ps_clip (map pk_content mine) = map pk_content mine"
    using pending_sizes [OF assms(1)] unfolding assms(4)
    by (auto simp: ps_clip_def pk_content_def ps_consts PendingPayloadMax_def min_def)
  have "length (ps_queue s) \<le> 64"
    using assms(3) by (simp add: ps_open_def ps_inv_def ps_consts)
  then have "ps_queue (foldl ps_put s (map pk_content mine)) =
      drop (length (ps_queue s) + length mine - 64) (ps_queue s @ map pk_content mine)"
    using ps.put_many [OF assms(3), of "map pk_content mine"] unfolding clip by (simp add: ps_consts)
  then show ?thesis
    using DeliverPendingPackets_facts(2,3) [OF assms(1,2)] fold by simp
qed

theorem late_bind_delivers_pending_witness:
  "pm_pending (pm_DeliverPendingPackets sample_manager 300 5 6 Proto_Tcp) = [] \<and>
   (\<exists>s'. pm_GetProxySocket (pm_DeliverPendingPackets sample_manager 300 5 6 Proto_Tcp) 5 = Some s' \<and>
      ps_queue s' = [(inet_addr 9 8, [5, 5])])"
proof -
  have get: "pm_GetProxySocket sample_manager 5 = Some (sample_socket Sock_Stream Proto_Tcp 7 6)"
    by (simp add: pm_GetProxySocket_def sample_manager_def)
  have pending: "pm_pending sample_manager = [sample_pending ! 0]"
    by (simp add: pm_pending_def sample_manager_def pm_new_def ring_list_def MaxPendingPackets_def)
  have two: "replicate 2 (5 :: byte) = [5, 5]"
    by (simp add: numeral_2_eq_2)
  have "\<not> pk_stale 300 (sample_pending ! 0)" "pk_content (sample_pending ! 0) = (inet_addr 9 8, [5, 5])"
    by (simp_all add: sample_pending_def pk_stale_def pk_content_def MaxPendingPacketAgeMs_def two)
  moreover have "pk_for (sample_socket Sock_Stream Proto_Tcp 7 6) 6 Proto_Tcp (sample_pending ! 0)"
    by (simp add: sample_pending_def pk_for_def PacketMatchesSocketDestination_def sample_socket_def)
  ultimately show ?thesis
    using late_bind_delivers_pending [OF sample_manager_inv get sample_socket_facts(1) refl, of 300 6 Proto_Tcp] pending
    by (simp add: sample_socket_facts(2))
qed

text \<open>
  The manager's lock is not recursive, and three of its methods call back into it while they hold it: closing a TCP
  socket that has a peer, closing or resetting all sockets when there is such a socket, and routing a
  connect request to any listener all wait for themselves for ever.
\<close>

theorem closing_connected_socket_deadlocks:
  assumes "pm_GetProxySocket m fd = Some s" and "ps_protocol s = Proto_Tcp"
  shows "(GetPort (ps_remote_addr s) \<noteq> 0 \<longrightarrow>
      pm_CloseProxySocket m fd = Deadlock \<and> pm_CloseAllProxySockets m = Deadlock \<and> pm_Reset m = Deadlock) \<and>
    (listens_for (pcreq_info request) s \<longrightarrow> pm_RouteConnectRequest m request = Deadlock)"
proof (intro conjI impI)
  have mem: "(fd, s) \<in> set (pm_sockets m)"
    using assms(1) map_of_SomeD by (fastforce simp: pm_GetProxySocket_def)
  {
    assume "GetPort (ps_remote_addr s) \<noteq> 0"
    then have close: "fst (ps_Close s) \<noteq> []"
      using assms(2) by (simp add: ps_Close_def)
    then show "pm_CloseProxySocket m fd = Deadlock"
      using assms(1) by (auto simp: pm_CloseProxySocket_def pm_GetProxySocket_def Let_def split: prod.splits)
    show "pm_CloseAllProxySockets m = Deadlock" "pm_Reset m = Deadlock"
      using close mem by (auto simp: pm_CloseAllProxySockets_def pm_Reset_def list_ex_iff)
  }
  assume "listens_for (pcreq_info request) s"
  then show "pm_RouteConnectRequest m request = Deadlock"
    using mem by (auto simp: RouteConnectRequest_eq list_ex_iff)
qed

theorem closing_connected_socket_deadlocks_witness:
  "pm_CloseProxySocket (pm_update sample_manager 5 (\<lambda>s. s\<lparr>ps_remote_addr := inet_addr 1 2\<rparr>)) 5 = Deadlock"
  using closing_connected_socket_deadlocks [of "pm_update sample_manager 5 (\<lambda>s. s\<lparr>ps_remote_addr := inet_addr 1 2\<rparr>)" 5
      "(sample_socket Sock_Stream Proto_Tcp 7 6)\<lparr>ps_remote_addr := inet_addr 1 2\<rparr>"]
  by (simp add: pm_GetProxySocket_def sample_manager_def sample_socket_def ps_new_def)

end
