(* ===== verification/Config_Manager.thy ===== *)
theory Config_Manager
  imports Config_File
begin

text \<open>
  The two owners of the settings at run time: \<^verbatim>\<open>config/config_manager.cpp\<close>, the manager behind the configuration commands
  of the LDN service, with its dirty flag and change notifications (recorded in \<open>cm_notified\<close>), and
  \<^verbatim>\<open>config/config_ipc_service.cpp\<close>, the stand-alone service of the overlay over \<^verbatim>\<open>g_config\<close>. The answers of the file system are
  arguments, and so are the bytes of \<^verbatim>\<open>std::rand\<close>.
\<close>

subsection \<open>Passphrases\<close>

definition is_hex_lower :: "char \<Rightarrow> bool" where
  "is_hex_lower c \<longleftrightarrow> 97 \<le> (of_char c :: nat) \<and> (of_char c :: nat) \<le> 102"

text \<open>\<^verbatim>\<open>None\<close> is the null pointer.\<close>

definition IsValidPassphrase :: "string option \<Rightarrow> bool" where
  "IsValidPassphrase passphrase =
     (case passphrase of
        None \<Rightarrow> True
      | Some p \<Rightarrow>
          if p = [] then True
          else if length p \<noteq> 16 then False
          else if take 8 p \<noteq> ''Ryujinx-'' then False
          else list_all (\<lambda>c. is_digit c \<or> is_hex_lower c) (drop 8 p))"

definition hex_chars :: string where "hex_chars = ''0123456789abcdef''"

definition GenerateRandomPassphrase :: "nat list \<Rightarrow> nat \<Rightarrow> string option" where
  "GenerateRandomPassphrase rand out_size =
     (if out_size < 17 then (if out_size > 0 then Some [] else None)
      else Some (''Ryujinx-'' @ map (\<lambda>i. hex_chars ! (rand ! i mod 16)) [0..<8]))"

subsection \<open>The manager\<close>

record ConfigManager =
  cm_config :: Config
  cm_config_path :: string
  cm_initialized :: bool
  cm_dirty :: bool
  cm_callback :: bool
  cm_notified :: "string list"

definition CONFIG_PATH :: string where "CONFIG_PATH = ''sdmc:/config/ryu_ldn_nx/config.ini''"

text \<open>The value-initialised settings of a new manager.\<close>

definition zero_config :: Config where
  "zero_config = \<lparr>cf_server = \<lparr>sv_host = [], sv_port = 0, sv_use_tls = False\<rparr>,
     cf_network = \<lparr>nw_connect_timeout_ms = 0, nw_ping_interval_ms = 0, nw_reconnect_delay_ms = 0, nw_max_reconnect_attempts = 0\<rparr>,
     cf_ldn = \<lparr>ld_enabled = False, ld_passphrase = [], ld_interface_name = [], ld_disable_p2p = False\<rparr>,
     cf_debug = \<lparr>db_enabled = False, db_level = 0, db_log_to_file = False\<rparr>\<rparr>"

definition cm_new :: ConfigManager where
  "cm_new = \<lparr>cm_config = zero_config, cm_config_path = [], cm_initialized = False, cm_dirty = False, cm_callback = False,
     cm_notified = []\<rparr>"

definition cm_Initialize :: "ConfigManager \<Rightarrow> string option \<Rightarrow> file_read \<Rightarrow> bool \<times> ConfigManager" where
  "cm_Initialize m config_path f =
     (let path = safe_strcpy (case config_path of Some p \<Rightarrow> p | None \<Rightarrow> CONFIG_PATH) 255;
          (result, config) = load_config f get_default_config;
          ok = (result = ConfigResult.Success \<or> result = ConfigResult.FileNotFound)
      in (ok, m\<lparr>cm_config_path := path, cm_config := config, cm_initialized := ok, cm_dirty := False\<rparr>))"

definition cm_Save :: "ConfigManager \<Rightarrow> file_write \<Rightarrow> ConfigResult \<times> file_effect \<times> ConfigManager" where
  "cm_Save m f =
     (if \<not> cm_initialized m then (ConfigResult.IoError, Untouched, m)
      else let (result, effect) = save_config f (cm_config m) in
        (result, effect, if result = ConfigResult.Success then m\<lparr>cm_dirty := False\<rparr> else m))"

definition cm_Reload :: "ConfigManager \<Rightarrow> file_read \<Rightarrow> ConfigResult \<times> ConfigManager" where
  "cm_Reload m f =
     (if \<not> cm_initialized m then (ConfigResult.IoError, m)
      else let (result, config) = load_config f get_default_config;
               m = m\<lparr>cm_config := config\<rparr>
        in (result, if result = ConfigResult.Success \<or> result = ConfigResult.FileNotFound then m\<lparr>cm_dirty := False\<rparr> else m))"

definition cm_NotifyChange :: "ConfigManager \<Rightarrow> string \<Rightarrow> ConfigManager" where
  "cm_NotifyChange m section = (if cm_callback m then m\<lparr>cm_notified := cm_notified m @ [section]\<rparr> else m)"

definition cm_SetChangeCallback :: "ConfigManager \<Rightarrow> bool \<Rightarrow> ConfigManager" where
  "cm_SetChangeCallback m callback = m\<lparr>cm_callback := callback\<rparr>"

text \<open>Every setter changes a field, marks the settings as dirty and notifies.\<close>

definition cm_server :: "ConfigManager \<Rightarrow> (ServerConfig \<Rightarrow> ServerConfig) \<Rightarrow> ConfigManager" where
  "cm_server m f = cm_NotifyChange (m\<lparr>cm_config := (cm_config m)\<lparr>cf_server := f (cf_server (cm_config m))\<rparr>, cm_dirty := True\<rparr>) ''server''"

definition cm_network :: "ConfigManager \<Rightarrow> (NetworkConfig \<Rightarrow> NetworkConfig) \<Rightarrow> ConfigManager" where
  "cm_network m f = cm_NotifyChange (m\<lparr>cm_config := (cm_config m)\<lparr>cf_network := f (cf_network (cm_config m))\<rparr>, cm_dirty := True\<rparr>) ''network''"

definition cm_ldn :: "ConfigManager \<Rightarrow> (LdnConfig \<Rightarrow> LdnConfig) \<Rightarrow> ConfigManager" where
  "cm_ldn m f = cm_NotifyChange (m\<lparr>cm_config := (cm_config m)\<lparr>cf_ldn := f (cf_ldn (cm_config m))\<rparr>, cm_dirty := True\<rparr>) ''ldn''"

definition cm_debug :: "ConfigManager \<Rightarrow> (DebugConfig \<Rightarrow> DebugConfig) \<Rightarrow> ConfigManager" where
  "cm_debug m f = cm_NotifyChange (m\<lparr>cm_config := (cm_config m)\<lparr>cf_debug := f (cf_debug (cm_config m))\<rparr>, cm_dirty := True\<rparr>) ''debug''"

definition cm_SetServerHost :: "ConfigManager \<Rightarrow> string option \<Rightarrow> ConfigManager" where
  "cm_SetServerHost m host = (case host of None \<Rightarrow> m | Some h \<Rightarrow> cm_server m (\<lambda>s. s\<lparr>sv_host := safe_strcpy h MAX_HOST_LENGTH\<rparr>))"

definition cm_SetServerPort :: "ConfigManager \<Rightarrow> u16 \<Rightarrow> ConfigManager" where
  "cm_SetServerPort m port = cm_server m (\<lambda>s. s\<lparr>sv_port := port\<rparr>)"

definition cm_SetUseTls :: "ConfigManager \<Rightarrow> bool \<Rightarrow> ConfigManager" where
  "cm_SetUseTls m enabled = cm_server m (\<lambda>s. s\<lparr>sv_use_tls := enabled\<rparr>)"

definition cm_SetConnectTimeout :: "ConfigManager \<Rightarrow> u32 \<Rightarrow> ConfigManager" where
  "cm_SetConnectTimeout m timeout_ms = cm_network m (\<lambda>s. s\<lparr>nw_connect_timeout_ms := timeout_ms\<rparr>)"

definition cm_SetPingInterval :: "ConfigManager \<Rightarrow> u32 \<Rightarrow> ConfigManager" where
  "cm_SetPingInterval m interval_ms = cm_network m (\<lambda>s. s\<lparr>nw_ping_interval_ms := interval_ms\<rparr>)"

definition cm_SetReconnectDelay :: "ConfigManager \<Rightarrow> u32 \<Rightarrow> ConfigManager" where
  "cm_SetReconnectDelay m delay_ms = cm_network m (\<lambda>s. s\<lparr>nw_reconnect_delay_ms := delay_ms\<rparr>)"

definition cm_SetMaxReconnectAttempts :: "ConfigManager \<Rightarrow> u32 \<Rightarrow> ConfigManager" where
  "cm_SetMaxReconnectAttempts m attempts = cm_network m (\<lambda>s. s\<lparr>nw_max_reconnect_attempts := attempts\<rparr>)"

definition cm_SetLdnEnabled :: "ConfigManager \<Rightarrow> bool \<Rightarrow> ConfigManager" where
  "cm_SetLdnEnabled m enabled = cm_ldn m (\<lambda>s. s\<lparr>ld_enabled := enabled\<rparr>)"

definition cm_SetPassphrase :: "ConfigManager \<Rightarrow> string option \<Rightarrow> bool \<times> ConfigManager" where
  "cm_SetPassphrase m passphrase =
     (if \<not> IsValidPassphrase passphrase then (False, m)
      else (True, cm_ldn m (\<lambda>s. s\<lparr>ld_passphrase := (case passphrase of None \<Rightarrow> [] | Some p \<Rightarrow> safe_strcpy p MAX_PASSPHRASE_LENGTH)\<rparr>)))"

definition cm_SetInterfaceName :: "ConfigManager \<Rightarrow> string option \<Rightarrow> ConfigManager" where
  "cm_SetInterfaceName m name =
     cm_ldn m (\<lambda>s. s\<lparr>ld_interface_name := (case name of None \<Rightarrow> [] | Some n \<Rightarrow> safe_strcpy n MAX_INTERFACE_LENGTH)\<rparr>)"

definition cm_SetDebugEnabled :: "ConfigManager \<Rightarrow> bool \<Rightarrow> ConfigManager" where
  "cm_SetDebugEnabled m enabled = cm_debug m (\<lambda>s. s\<lparr>db_enabled := enabled\<rparr>)"

definition cm_SetDebugLevel :: "ConfigManager \<Rightarrow> u32 \<Rightarrow> ConfigManager" where
  "cm_SetDebugLevel m level = cm_debug m (\<lambda>s. s\<lparr>db_level := (if level > 3 then 3 else level)\<rparr>)"

definition cm_SetLogToFile :: "ConfigManager \<Rightarrow> bool \<Rightarrow> ConfigManager" where
  "cm_SetLogToFile m enabled = cm_debug m (\<lambda>s. s\<lparr>db_log_to_file := enabled\<rparr>)"

subsection \<open>The configuration service of the overlay\<close>

text \<open>
  Its state is \<^verbatim>\<open>g_config\<close>. The string arguments are the memory from the start of the array on; the string results are
  the arrays, filled up with zero characters.
\<close>

definition char_array :: "nat \<Rightarrow> string \<Rightarrow> char list" where
  "char_array n s = safe_strcpy s (n - 1) @ replicate (n - length (safe_strcpy s (n - 1))) (CHR 0x00)"

definition of_flag :: "bool \<Rightarrow> u32" where "of_flag b = (if b then 1 else 0)"

definition InitializeConfig :: "file_read \<Rightarrow> Config" where
  "InitializeConfig f = snd (load_config f get_default_config)"

definition cs_GetVersion :: "char list" where "cs_GetVersion = char_array 32 ''1.0.0''"

definition cs_GetPassphrase :: "Config \<Rightarrow> char list" where
  "cs_GetPassphrase g = char_array 64 (ld_passphrase (cf_ldn g))"

definition cs_SetPassphrase :: "Config \<Rightarrow> char list \<Rightarrow> Config" where
  "cs_SetPassphrase g passphrase = g\<lparr>cf_ldn := (cf_ldn g)\<lparr>ld_passphrase := safe_strcpy passphrase MAX_PASSPHRASE_LENGTH\<rparr>\<rparr>"

definition cs_GetLdnEnabled :: "Config \<Rightarrow> u32" where "cs_GetLdnEnabled g = of_flag (ld_enabled (cf_ldn g))"

definition cs_SetLdnEnabled :: "Config \<Rightarrow> u32 \<Rightarrow> Config" where
  "cs_SetLdnEnabled g enabled = g\<lparr>cf_ldn := (cf_ldn g)\<lparr>ld_enabled := (enabled \<noteq> 0)\<rparr>\<rparr>"

definition cs_GetServerAddress :: "Config \<Rightarrow> char list \<times> u16" where
  "cs_GetServerAddress g = (char_array 64 (sv_host (cf_server g)), sv_port (cf_server g))"

definition cs_SetServerAddress :: "Config \<Rightarrow> char list \<Rightarrow> u16 \<Rightarrow> Config" where
  "cs_SetServerAddress g host port =
     g\<lparr>cf_server := (cf_server g)\<lparr>sv_host := safe_strcpy host MAX_HOST_LENGTH, sv_port := port\<rparr>\<rparr>"

definition cs_GetUseTls :: "Config \<Rightarrow> u32" where "cs_GetUseTls g = of_flag (sv_use_tls (cf_server g))"

definition cs_SetUseTls :: "Config \<Rightarrow> u32 \<Rightarrow> Config" where
  "cs_SetUseTls g enabled = g\<lparr>cf_server := (cf_server g)\<lparr>sv_use_tls := (enabled \<noteq> 0)\<rparr>\<rparr>"

definition cs_GetDebugEnabled :: "Config \<Rightarrow> u32" where "cs_GetDebugEnabled g = of_flag (db_enabled (cf_debug g))"

definition cs_SetDebugEnabled :: "Config \<Rightarrow> u32 \<Rightarrow> Config" where
  "cs_SetDebugEnabled g enabled = g\<lparr>cf_debug := (cf_debug g)\<lparr>db_enabled := (enabled \<noteq> 0)\<rparr>\<rparr>"

definition cs_GetDebugLevel :: "Config \<Rightarrow> u32" where "cs_GetDebugLevel g = db_level (cf_debug g)"

definition cs_SetDebugLevel :: "Config \<Rightarrow> u32 \<Rightarrow> Config" where
  "cs_SetDebugLevel g level = g\<lparr>cf_debug := (cf_debug g)\<lparr>db_level := level\<rparr>\<rparr>"

definition cs_GetLogToFile :: "Config \<Rightarrow> u32" where "cs_GetLogToFile g = of_flag (db_log_to_file (cf_debug g))"

definition cs_SetLogToFile :: "Config \<Rightarrow> u32 \<Rightarrow> Config" where
  "cs_SetLogToFile g enabled = g\<lparr>cf_debug := (cf_debug g)\<lparr>db_log_to_file := (enabled \<noteq> 0)\<rparr>\<rparr>"

definition cs_GetConnectTimeout :: "Config \<Rightarrow> u32" where "cs_GetConnectTimeout g = nw_connect_timeout_ms (cf_network g)"

definition cs_SetConnectTimeout :: "Config \<Rightarrow> u32 \<Rightarrow> Config" where
  "cs_SetConnectTimeout g timeout_ms = g\<lparr>cf_network := (cf_network g)\<lparr>nw_connect_timeout_ms := timeout_ms\<rparr>\<rparr>"

definition cs_GetPingInterval :: "Config \<Rightarrow> u32" where "cs_GetPingInterval g = nw_ping_interval_ms (cf_network g)"

definition cs_SetPingInterval :: "Config \<Rightarrow> u32 \<Rightarrow> Config" where
  "cs_SetPingInterval g interval_ms = g\<lparr>cf_network := (cf_network g)\<lparr>nw_ping_interval_ms := interval_ms\<rparr>\<rparr>"

definition cs_GetDisableP2p :: "Config \<Rightarrow> u32" where "cs_GetDisableP2p g = of_flag (ld_disable_p2p (cf_ldn g))"

definition cs_SetDisableP2p :: "Config \<Rightarrow> u32 \<Rightarrow> Config" where
  "cs_SetDisableP2p g disabled = g\<lparr>cf_ldn := (cf_ldn g)\<lparr>ld_disable_p2p := (disabled \<noteq> 0)\<rparr>\<rparr>"

definition cs_SaveConfig :: "Config \<Rightarrow> file_write \<Rightarrow> ConfigResult \<times> file_effect" where
  "cs_SaveConfig g f = save_config f g"

definition cs_ReloadConfig :: "Config \<Rightarrow> file_read \<Rightarrow> ConfigResult \<times> Config" where
  "cs_ReloadConfig g f = load_config f get_default_config"

subsection \<open>Laws\<close>

lemma hex_passphrase: "i < 16 \<Longrightarrow> is_digit (hex_chars ! i) \<or> is_hex_lower (hex_chars ! i)"
proof -
  have "list_all (\<lambda>c. is_digit c \<or> is_hex_lower c) hex_chars"
    by (simp add: hex_chars_def is_digit_def is_hex_lower_def)
  moreover assume "i < 16"
  then have "i < length hex_chars"
    by (simp add: hex_chars_def)
  ultimately show ?thesis
    by (simp add: list_all_length)
qed

lemma valid_passphrase_clean:
  assumes "IsValidPassphrase (Some p)"
  shows "clean_value p" "length p \<le> 16"
proof -
  show "length p \<le> 16"
    using assms by (auto simp: IsValidPassphrase_def split: if_splits)
  show "clean_value p"
  proof (cases "p = []")
    case False
    have "take 8 p = ''Ryujinx-''"
      using assms False by (simp add: IsValidPassphrase_def split: if_splits)
    then have split: "p = ''Ryujinx-'' @ drop 8 p"
      using append_take_drop_id [of 8 p] by simp
    have p: "list_all (\<lambda>c. is_digit c \<or> is_hex_lower c) (drop 8 p)" "drop 8 p \<noteq> []"
      using assms False by (simp_all add: IsValidPassphrase_def split: if_splits)
    have hex: "c \<noteq> CHR 0x00 \<and> c \<noteq> CHR 0x0A \<and> c \<noteq> CHR 0x0D \<and> \<not> is_blank c" if "is_digit c \<or> is_hex_lower c" for c
      using that digit_plain [of c] by (auto simp: is_hex_lower_def is_blank_def)
    have clean: "clean_value (''Ryujinx-'' @ q)" if q: "list_all (\<lambda>c. is_digit c \<or> is_hex_lower c) q" "q \<noteq> []" for q
    proof -
      have "list_all (\<lambda>c. c \<noteq> CHR 0x00 \<and> c \<noteq> CHR 0x0A \<and> c \<noteq> CHR 0x0D) q" "\<not> is_blank (last q)"
        using q hex last_in_set [OF q(2)] by (simp_all add: list_all_iff)
      then show ?thesis
        using q(2) by (simp add: clean_value_def is_blank_def)
    qed
    show ?thesis
      using clean [OF p] split by simp
  qed (simp add: clean_value_def)
qed

subsection \<open>The settings file\<close>

text \<open>The card as a load finds it: \<^verbatim>\<open>None\<close> when there is no file.\<close>

definition disk_read :: "string option \<Rightarrow> file_read" where
  "disk_read disk = (case disk of
     None \<Rightarrow> \<lparr>fr_entry = None, fr_open = False, fr_size = None, fr_alloc = True, fr_content = None\<rparr>
   | Some content \<Rightarrow> readable_file content)"

lemma saved_content:
  assumes "config_clean c"
  shows "load_config (readable_file (format_config_content 4096 c)) base = (ConfigResult.Success, c)"
proof -
  have eq: "format_config_content 4096 c = file_of (config_lines c)"
    using format_file [of "[]" "config_lines c" 4096] config_lines_plain(2) [OF assms] by (simp add: format_config_content_def)
  have "file_of (config_lines c) \<noteq> []" "length (file_of (config_lines c)) < 4096"
    using config_lines_plain(2) [OF assms] by (simp_all add: config_lines_def file_of_def)
  moreover have "parse_config_content (file_of (config_lines c)) base = c"
    using parse_scan_file [OF config_lines_plain(1) [OF assms]] fold_config_lines [OF assms] by (simp add: parse_config_content_def)
  ultimately show ?thesis
    by (simp add: load_config_def readable_file_def eq)
qed

text \<open>One call on an initialised manager. A setter may leave the manager as it is when it refuses its argument.\<close>

inductive cm_setter :: "ConfigManager \<Rightarrow> ConfigManager \<Rightarrow> bool" where
  "cm_setter m (cm_SetServerHost m host)"
| "cm_setter m (cm_SetServerPort m port)"
| "cm_setter m (cm_SetUseTls m b)"
| "cm_setter m (cm_SetConnectTimeout m n)"
| "cm_setter m (cm_SetPingInterval m n)"
| "cm_setter m (cm_SetReconnectDelay m n)"
| "cm_setter m (cm_SetMaxReconnectAttempts m n)"
| "cm_setter m (cm_SetLdnEnabled m b)"
| "cm_setter m (snd (cm_SetPassphrase m passphrase))"
| "cm_setter m (cm_SetInterfaceName m name)"
| "cm_setter m (cm_SetDebugEnabled m b)"
| "cm_setter m (cm_SetDebugLevel m n)"
| "cm_setter m (cm_SetLogToFile m b)"
| "cm_setter m (cm_SetChangeCallback m b)"

text \<open>
  A read of the card gives what is there, or fails: opening, size, memory or the read itself. What the file is worth after each access: it is in step with
  the settings loaded or saved last; the last read failed; or a save went wrong after it had removed the old file, or wrote settings that cannot be
  written on a line.
\<close>

definition reads_card :: "string option \<Rightarrow> file_read \<Rightarrow> bool" where
  "reads_card disk f \<longleftrightarrow> f = disk_read disk \<or> fst (load_config f get_default_config) = ConfigResult.IoError"

datatype file_status = InStep | ReadFailed | Unreliable

definition loaded_status :: "file_read \<Rightarrow> file_status" where
  "loaded_status f = (if fst (load_config f get_default_config) = ConfigResult.IoError then ReadFailed else InStep)"

fun apply_effect :: "file_effect \<Rightarrow> string option \<Rightarrow> string option" where
  "apply_effect Untouched disk = disk"
| "apply_effect Removed disk = None"
| "apply_effect file_effect.Created disk = Some []"
| "apply_effect (Written content) disk = Some content"

definition saved_status :: "ConfigResult \<Rightarrow> file_effect \<Rightarrow> Config \<Rightarrow> file_status \<Rightarrow> file_status" where
  "saved_status result effect config st =
     (if effect = Untouched then st else if result = ConfigResult.Success \<and> config_clean config then InStep else Unreliable)"

inductive cm_step :: "ConfigManager \<times> string option \<times> file_status \<Rightarrow> ConfigManager \<times> string option \<times> file_status \<Rightarrow> bool" where
  step_set: "cm_setter m m' \<Longrightarrow> cm_step (m, disk, st) (m', disk, st)"
| step_save: "cm_Save m f = (result, effect, m') \<Longrightarrow> cm_step (m, disk, st) (m', apply_effect effect disk, saved_status result effect (cm_config m) st)"
| step_reload: "cm_Reload m f = (result, m') \<Longrightarrow> reads_card disk f \<Longrightarrow>
    cm_step (m, disk, st) (m', disk, if cm_initialized m then loaded_status f else st)"

lemma cm_notify [simp]:
  "cm_dirty (cm_NotifyChange m s) = cm_dirty m" "cm_initialized (cm_NotifyChange m s) = cm_initialized m"
  "cm_config (cm_NotifyChange m s) = cm_config m"
  by (simp_all add: cm_NotifyChange_def)

lemmas cm_setters = cm_SetServerHost_def cm_SetServerPort_def cm_SetUseTls_def cm_SetConnectTimeout_def cm_SetPingInterval_def
  cm_SetReconnectDelay_def cm_SetMaxReconnectAttempts_def cm_SetLdnEnabled_def cm_SetPassphrase_def cm_SetInterfaceName_def
  cm_SetDebugEnabled_def cm_SetDebugLevel_def cm_SetLogToFile_def cm_SetChangeCallback_def cm_server_def cm_network_def
  cm_ldn_def cm_debug_def

lemma cm_setter_dirty:
  assumes "cm_setter m m'"
  shows "cm_initialized m' = cm_initialized m \<and> (cm_dirty m' \<or> cm_dirty m' = cm_dirty m \<and> cm_config m' = cm_config m)"
  using assms by cases (simp_all add: cm_setters split: option.split)

lemma load_default_eq: "snd (load_config f get_default_config) = c \<Longrightarrow> load_config f get_default_config = (r, c') \<Longrightarrow> c' = c"
  by simp

fun matches_file :: "ConfigManager \<times> string option \<times> file_status \<Rightarrow> bool" where
  "matches_file (m, disk, InStep) \<longleftrightarrow> cm_config m = snd (load_config (disk_read disk) get_default_config)"
| "matches_file (m, disk, ReadFailed) \<longleftrightarrow> cm_config m = get_default_config"
| "matches_file (m, disk, Unreliable) \<longleftrightarrow> True"

definition in_step :: "ConfigManager \<times> string option \<times> file_status \<Rightarrow> bool" where
  "in_step mc \<longleftrightarrow> (\<not> cm_dirty (fst mc) \<longrightarrow> matches_file mc)"

lemma load_failed: "fst (load_config f c) = ConfigResult.IoError \<Longrightarrow> snd (load_config f c) = c"
  by (simp add: load_config_def split: option.splits if_splits)

lemma loaded_matches:
  assumes "reads_card disk f" and "cm_config m = snd (load_config f get_default_config)"
  shows "matches_file (m, disk, loaded_status f)"
  using assms load_failed [of f get_default_config] by (auto simp: reads_card_def loaded_status_def)

lemma matches_cong: "cm_config m' = cm_config m \<Longrightarrow> matches_file (m', disk, st) = matches_file (m, disk, st)"
  by (cases st) simp_all

lemma saved_matches:
  assumes "cm_Save m f = (result, effect, m')" and "in_step (m, disk, st)"
  shows "in_step (m', apply_effect effect disk, saved_status result effect (cm_config m) st)"
proof -
  have same: "cm_config m' = cm_config m" "cm_dirty m' \<or> result = ConfigResult.Success \<or> \<not> cm_dirty m"
      "effect = Untouched \<Longrightarrow> m' = m"
      "result = ConfigResult.Success \<Longrightarrow> effect = Written (format_config_content 4096 (cm_config m))"
    using assms(1) by (auto simp: cm_Save_def save_config_def Let_def split: if_splits prod.splits)
  show ?thesis
  proof (cases "effect = Untouched")
    case True
    then show ?thesis
      using same assms(2) by (simp add: saved_status_def)
  next
    case False
    then show ?thesis
      using same saved_content [of "cm_config m" get_default_config] by (auto simp: in_step_def saved_status_def disk_read_def)
  qed
qed

lemma cm_step_in_step:
  assumes "cm_step mc mc'" and "in_step mc"
  shows "in_step mc'"
  using assms
proof cases
  case (step_set m m' disk st)
  then show ?thesis
    using assms(2) cm_setter_dirty [of m m'] matches_cong [of m' m disk st] by (auto simp: in_step_def)
next
  case (step_save m f result effect m' disk st)
  then show ?thesis
    using assms(2) saved_matches by blast
next
  case (step_reload m f result m' disk st)
  show ?thesis
  proof (cases "cm_initialized m")
    case True
    then have "cm_config m' = snd (load_config f get_default_config)"
      using step_reload(3) by (auto simp: cm_Reload_def Let_def split: prod.splits if_splits)
    then show ?thesis
      using step_reload True loaded_matches by (simp add: in_step_def)
  next
    case False
    then show ?thesis
      using step_reload assms(2) by (simp add: cm_Reload_def)
  qed
qed

subsection \<open>Properties\<close>

text \<open>
  C30: what the unsaved-changes flag is worth: whatever setters, saves and reloads follow the initialisation, and however the accesses to the card end,
  when the flag is off the current settings are exactly what loading the settings file as it is on the card gives, if the last access went well; after a
  reload or an initialisation that could not read the file they are the default settings, whatever the file holds and although the flag is off. Nothing is
  claimed after a save that failed having removed the old file, or that wrote settings with line ends or with blanks at an end, until the next successful access.
\<close>

theorem clean_manager_matches_file:
  assumes "cm_Initialize cm_new path f = (ok, m0)" and "reads_card disk f"
    and "cm_step\<^sup>*\<^sup>* (m0, disk, loaded_status f) (m, disk', st)" and "\<not> cm_dirty m"
  shows "case st of
      InStep \<Rightarrow> cm_config m = snd (load_config (disk_read disk') get_default_config)
    | ReadFailed \<Rightarrow> cm_config m = get_default_config
    | Unreliable \<Rightarrow> True"
proof -
  have "in_step (m0, disk, loaded_status f)"
    using assms(1) loaded_matches [OF assms(2), of m0] by (auto simp: in_step_def cm_Initialize_def Let_def split: prod.splits)
  with assms(3) have "in_step (m, disk', st)"
    by (induction rule: rtranclp_induct) (auto intro: cm_step_in_step)
  then show ?thesis
    using assms(4) by (cases st) (simp_all add: in_step_def)
qed

theorem clean_manager_matches_file_witness:
  "\<exists>m content. cm_step\<^sup>*\<^sup>* (snd (cm_Initialize cm_new None (disk_read None)), None, InStep) (m, Some content, InStep) \<and> \<not> cm_dirty m \<and>
     sv_port (cf_server (cm_config m)) = 7 \<and> cm_config m = snd (load_config (disk_read (Some content)) get_default_config) \<and>
     (\<exists>m'. cm_step (m, Some content, InStep) (m', Some content, ReadFailed) \<and> \<not> cm_dirty m' \<and> cm_config m' = get_default_config)"
proof -
  let ?f = "\<lparr>fw_alloc = True, fw_create = True, fw_open = True, fw_write = True\<rparr>"
  let ?bad = "\<lparr>fr_entry = Some True, fr_open = False, fr_size = None, fr_alloc = True, fr_content = None\<rparr>"
  define m0 where "m0 = snd (cm_Initialize cm_new None (disk_read None))"
  define m1 where "m1 = cm_SetServerPort m0 7"
  define m2 where "m2 = m1\<lparr>cm_dirty := False\<rparr>"
  define m3 where "m3 = snd (cm_Reload m2 ?bad)"
  define content where "content = format_config_content 4096 (cm_config m1)"
  have init: "cm_Initialize cm_new None (disk_read None) = (True, m0)" "cm_initialized m0" "cm_config m0 = get_default_config"
      and first: "loaded_status (disk_read None) = InStep" "reads_card None (disk_read None)"
    by (simp_all add: m0_def cm_Initialize_def disk_read_def load_config_def loaded_status_def reads_card_def)
  have m1: "cm_initialized m1" "cm_config m1 = get_default_config\<lparr>cf_server := (cf_server get_default_config)\<lparr>sv_port := 7\<rparr>\<rparr>"
    using init(2,3) by (simp_all add: m1_def cm_SetServerPort_def cm_server_def)
  have clean: "config_clean (cm_config m1)"
    using m1(2) by (simp add: config_clean_def get_default_config_def clean_value_def is_blank_def safe_strcpy_def cstring_def
        DEFAULT_HOST_def config_strings)
  have "cm_Save m1 ?f = (ConfigResult.Success, Written content, m2)"
    using m1(1) by (simp add: cm_Save_def save_config_def content_def m2_def)
  from step_save [OF this, of None InStep] have "cm_step (m1, None, InStep) (m2, Some content, InStep)"
    using clean by (simp add: saved_status_def)
  moreover have "cm_step (m0, None, InStep) (m1, None, InStep)"
    unfolding m1_def by (intro step_set cm_setter.intros)
  ultimately have run: "cm_step\<^sup>*\<^sup>* (m0, None, InStep) (m2, Some content, InStep)"
    by (meson converse_rtranclp_into_rtranclp r_into_rtranclp)
  have bad: "cm_Reload m2 ?bad = (ConfigResult.IoError, m3)" "reads_card (Some content) ?bad" "loaded_status ?bad = ReadFailed"
      and m2: "cm_initialized m2" "\<not> cm_dirty m2" "\<not> cm_dirty m3"
    using m1(1) by (simp_all add: m3_def m2_def cm_Reload_def load_config_def reads_card_def loaded_status_def)
  have fail: "cm_step (m2, Some content, InStep) (m3, Some content, ReadFailed)"
    using step_reload [OF bad(1,2), of InStep] bad(3) m2(1) by simp
  then have "cm_step\<^sup>*\<^sup>* (m0, None, InStep) (m3, Some content, ReadFailed)"
    using run by simp
  from clean_manager_matches_file [OF init(1) first(2) this [folded first(1)] m2(3)] have "cm_config m3 = get_default_config"
    by simp
  moreover from clean_manager_matches_file [OF init(1) first(2) run [folded first(1)] m2(2)]
  have "cm_config m2 = snd (load_config (disk_read (Some content)) get_default_config)"
    by (simp add: first(1))
  moreover have "sv_port (cf_server (cm_config m2)) = 7"
    using m1(2) by (simp add: m2_def)
  ultimately show ?thesis
    using run fail m2(2,3) unfolding m0_def by blast
qed

text \<open>
  the manager accepts exactly the empty passphrase and \<^verbatim>\<open>Ryujinx-\<close> followed by eight lower-case hexadecimal digits, stores what it accepts
  unchanged and changes nothing when it refuses; every generated passphrase is accepted.
\<close>

theorem passphrases_checked:
  "fst (cm_SetPassphrase m (Some p)) = (p = [] \<or> (\<exists>q. p = ''Ryujinx-'' @ q \<and> length q = 8 \<and> list_all (\<lambda>c. is_digit c \<or> is_hex_lower c) q)) \<and>
   (if fst (cm_SetPassphrase m (Some p)) then ld_passphrase (cf_ldn (cm_config (snd (cm_SetPassphrase m (Some p))))) = p
    else snd (cm_SetPassphrase m (Some p)) = m) \<and>
   IsValidPassphrase (GenerateRandomPassphrase rand n)"
proof (intro conjI)
  have "(\<exists>q. p = ''Ryujinx-'' @ q \<and> length q = 8 \<and> list_all (\<lambda>c. is_digit c \<or> is_hex_lower c) q) \<longleftrightarrow>
      length p = 16 \<and> take 8 p = ''Ryujinx-'' \<and> list_all (\<lambda>c. is_digit c \<or> is_hex_lower c) (drop 8 p)"
  proof
    assume "length p = 16 \<and> take 8 p = ''Ryujinx-'' \<and> list_all (\<lambda>c. is_digit c \<or> is_hex_lower c) (drop 8 p)"
    then show "\<exists>q. p = ''Ryujinx-'' @ q \<and> length q = 8 \<and> list_all (\<lambda>c. is_digit c \<or> is_hex_lower c) q"
      using append_take_drop_id [of 8 p] by (intro exI [of _ "drop 8 p"]) simp
  qed auto
  then show "fst (cm_SetPassphrase m (Some p)) = (p = [] \<or> (\<exists>q. p = ''Ryujinx-'' @ q \<and> length q = 8 \<and> list_all (\<lambda>c. is_digit c \<or> is_hex_lower c) q))"
    by (auto simp: cm_SetPassphrase_def IsValidPassphrase_def)
  show "if fst (cm_SetPassphrase m (Some p)) then ld_passphrase (cf_ldn (cm_config (snd (cm_SetPassphrase m (Some p))))) = p
    else snd (cm_SetPassphrase m (Some p)) = m"
  proof (cases "IsValidPassphrase (Some p)")
    case True
    then have "safe_strcpy p MAX_PASSPHRASE_LENGTH = p"
      using valid_passphrase_clean [OF True] by (intro safe_strcpy_clean) (simp_all add: MAX_PASSPHRASE_LENGTH_def)
    then show ?thesis
      using True by (simp add: cm_SetPassphrase_def cm_ldn_def)
  qed (simp add: cm_SetPassphrase_def)
  show "IsValidPassphrase (GenerateRandomPassphrase rand n)"
    by (simp add: IsValidPassphrase_def GenerateRandomPassphrase_def list_all_iff hex_passphrase)
qed

end
