(* ===== verification/Ldn_Config_Service.thy ===== *)
theory Ldn_Config_Service
  imports Ldn_State_Machine Config_Manager
begin

text \<open>
  The state shared between the services of the module, \<^verbatim>\<open>ldn/ldn_shared_state.cpp\<close> (every method holds its mutex, so
  each is a function), and the configuration commands of the LDN service, \<^verbatim>\<open>ldn/ldn_config_service.cpp\<close>, which
  work on it and on the configuration manager.
\<close>

subsection \<open>Shared state\<close>

record SharedState =
  ss_game_active :: bool
  ss_process_id :: u64
  ss_ldn_pid :: u64
  ss_ldn_state :: CommState
  ss_node_count :: u8
  ss_max_nodes :: u8
  ss_local_node_id :: u8
  ss_is_host :: bool
  ss_last_rtt_ms :: u32
  ss_reconnect_requested :: bool
  ss_ldn_games :: "u64 set"

definition ss_new :: SharedState where
  "ss_new = \<lparr>ss_game_active = False, ss_process_id = 0, ss_ldn_pid = 0, ss_ldn_state = CommNone, ss_node_count = 0, ss_max_nodes = 0,
     ss_local_node_id = 0, ss_is_host = False, ss_last_rtt_ms = 0, ss_reconnect_requested = False, ss_ldn_games = {}\<rparr>"

definition ss_Reset :: "SharedState \<Rightarrow> SharedState" where
  "ss_Reset s = s\<lparr>ss_game_active := False, ss_process_id := 0, ss_ldn_state := CommNone, ss_node_count := 0, ss_max_nodes := 0,
     ss_local_node_id := 0, ss_is_host := False, ss_last_rtt_ms := 0, ss_reconnect_requested := False\<rparr>"

definition ss_SetGameActive :: "SharedState \<Rightarrow> bool \<Rightarrow> u64 \<Rightarrow> SharedState" where
  "ss_SetGameActive s active process_id =
     (let s = s\<lparr>ss_game_active := active, ss_process_id := (if active then process_id else 0)\<rparr>
      in if \<not> active
         then s\<lparr>ss_ldn_state := CommNone, ss_node_count := 0, ss_max_nodes := 0, ss_local_node_id := 0, ss_is_host := False,
           ss_last_rtt_ms := 0\<rparr>
         else s)"

definition ss_SetLdnPid :: "SharedState \<Rightarrow> u64 \<Rightarrow> SharedState" where
  "ss_SetLdnPid s pid = s\<lparr>ss_ldn_pid := pid\<rparr>"

definition ss_IsLdnPid :: "SharedState \<Rightarrow> u64 \<Rightarrow> bool" where
  "ss_IsLdnPid s pid \<longleftrightarrow> ss_ldn_pid s \<noteq> 0 \<and> ss_ldn_pid s = pid"

definition ss_LoadLdnWhitelist :: "SharedState \<Rightarrow> u64 list \<Rightarrow> SharedState" where
  "ss_LoadLdnWhitelist s game_ids = s\<lparr>ss_ldn_games := fold insert game_ids {}\<rparr>"

definition ss_IsLdnGame :: "SharedState \<Rightarrow> u64 \<Rightarrow> bool" where
  "ss_IsLdnGame s program_id \<longleftrightarrow> program_id \<in> ss_ldn_games s"

definition ss_SetLdnState :: "SharedState \<Rightarrow> CommState \<Rightarrow> SharedState" where
  "ss_SetLdnState s state = s\<lparr>ss_ldn_state := state\<rparr>"

definition ss_SetSessionInfo :: "SharedState \<Rightarrow> u8 \<Rightarrow> u8 \<Rightarrow> u8 \<Rightarrow> bool \<Rightarrow> SharedState" where
  "ss_SetSessionInfo s node_count max_nodes local_node_id is_host =
     s\<lparr>ss_node_count := node_count, ss_max_nodes := max_nodes, ss_local_node_id := local_node_id, ss_is_host := is_host\<rparr>"

text \<open>\<^verbatim>\<open>SessionInfo\<close> as its eight bytes.\<close>

definition ss_GetSessionInfoStruct :: "SharedState \<Rightarrow> byte list" where
  "ss_GetSessionInfoStruct s = [ss_node_count s, ss_max_nodes s, ss_local_node_id s, if ss_is_host s then 1 else 0] @ replicate 4 0"

definition ss_SetLastRtt :: "SharedState \<Rightarrow> u32 \<Rightarrow> SharedState" where
  "ss_SetLastRtt s rtt_ms = s\<lparr>ss_last_rtt_ms := rtt_ms\<rparr>"

definition ss_RequestReconnect :: "SharedState \<Rightarrow> SharedState" where
  "ss_RequestReconnect s = s\<lparr>ss_reconnect_requested := True\<rparr>"

definition ss_ConsumeReconnectRequest :: "SharedState \<Rightarrow> bool \<times> SharedState" where
  "ss_ConsumeReconnectRequest s = (ss_reconnect_requested s, s\<lparr>ss_reconnect_requested := False\<rparr>)"

subsection \<open>Configuration commands\<close>

text \<open>The state of the service is the shared state and the configuration manager.\<close>

type_synonym lc_state = "SharedState \<times> ConfigManager"

datatype ConnectionStatus = Disconnected | Connecting | Connected | Ready | Error

fun comm_value :: "CommState \<Rightarrow> u32" where
  "comm_value CommNone = 0"
| "comm_value Initialized = 1"
| "comm_value AccessPoint = 2"
| "comm_value AccessPointCreated = 3"
| "comm_value Station = 4"
| "comm_value StationConnected = 5"
| "comm_value CommError = 6"

text \<open>\<^verbatim>\<open>strncpy\<close> of 63 characters into a zeroed array of 64.\<close>

definition lc_GetVersion :: "string \<Rightarrow> char list" where "lc_GetVersion version = char_array 32 version"

definition lc_GetConnectionStatus :: "lc_state \<Rightarrow> ConnectionStatus" where
  "lc_GetConnectionStatus s =
     (case ss_ldn_state (fst s) of
        AccessPointCreated \<Rightarrow> ConnectionStatus.Ready
      | StationConnected \<Rightarrow> ConnectionStatus.Ready
      | AccessPoint \<Rightarrow> ConnectionStatus.Connected
      | Station \<Rightarrow> ConnectionStatus.Connected
      | Initialized \<Rightarrow> ConnectionStatus.Connecting
      | _ \<Rightarrow> ConnectionStatus.Disconnected)"

definition lc_GetLdnState :: "lc_state \<Rightarrow> u32" where "lc_GetLdnState s = comm_value (ss_ldn_state (fst s))"

definition lc_GetSessionInfo :: "lc_state \<Rightarrow> byte list" where "lc_GetSessionInfo s = ss_GetSessionInfoStruct (fst s)"

definition lc_GetServerAddress :: "lc_state \<Rightarrow> char list \<times> u16" where
  "lc_GetServerAddress s =
     (char_array 64 (sv_host (cf_server (cm_config (snd s)))), sv_port (cf_server (cm_config (snd s))))"

definition lc_SetServerAddress :: "lc_state \<Rightarrow> char list \<Rightarrow> u16 \<Rightarrow> lc_state" where
  "lc_SetServerAddress s host port =
     (let cfg = cm_SetServerPort (cm_SetServerHost (snd s) (Some host)) port;
          state = ss_ldn_state (fst s)
      in (if state \<noteq> CommNone \<and> state \<noteq> Initialized then ss_RequestReconnect (fst s) else fst s, cfg))"

definition lc_ForceReconnect :: "lc_state \<Rightarrow> lc_state" where "lc_ForceReconnect s = (ss_RequestReconnect (fst s), snd s)"

definition lc_GetLastRtt :: "lc_state \<Rightarrow> u32" where "lc_GetLastRtt s = ss_last_rtt_ms (fst s)"

definition lc_GetPassphrase :: "lc_state \<Rightarrow> char list" where
  "lc_GetPassphrase s = char_array 64 (ld_passphrase (cf_ldn (cm_config (snd s))))"

definition lc_SetPassphrase :: "lc_state \<Rightarrow> char list \<Rightarrow> lc_state" where
  "lc_SetPassphrase s passphrase = (fst s, snd (cm_SetPassphrase (snd s) (Some (cstring passphrase))))"

definition lc_GetDebugEnabled :: "lc_state \<Rightarrow> u32" where
  "lc_GetDebugEnabled s = of_flag (db_enabled (cf_debug (cm_config (snd s))))"

definition lc_SetDebugEnabled :: "lc_state \<Rightarrow> u32 \<Rightarrow> lc_state" where
  "lc_SetDebugEnabled s enabled = (fst s, cm_SetDebugEnabled (snd s) (enabled \<noteq> 0))"

definition lc_GetLdnEnabled :: "lc_state \<Rightarrow> u32" where
  "lc_GetLdnEnabled s = of_flag (ld_enabled (cf_ldn (cm_config (snd s))))"

definition lc_SetLdnEnabled :: "lc_state \<Rightarrow> u32 \<Rightarrow> lc_state" where
  "lc_SetLdnEnabled s enabled = (fst s, cm_SetLdnEnabled (snd s) (enabled \<noteq> 0))"

definition lc_GetUseTls :: "lc_state \<Rightarrow> u32" where
  "lc_GetUseTls s = of_flag (sv_use_tls (cf_server (cm_config (snd s))))"

definition lc_SetUseTls :: "lc_state \<Rightarrow> u32 \<Rightarrow> lc_state" where
  "lc_SetUseTls s enabled = (fst s, cm_SetUseTls (snd s) (enabled \<noteq> 0))"

definition lc_GetLogToFile :: "lc_state \<Rightarrow> u32" where
  "lc_GetLogToFile s = of_flag (db_log_to_file (cf_debug (cm_config (snd s))))"

definition lc_SetLogToFile :: "lc_state \<Rightarrow> u32 \<Rightarrow> lc_state" where
  "lc_SetLogToFile s enabled = (fst s, cm_SetLogToFile (snd s) (enabled \<noteq> 0))"

definition lc_GetConnectTimeout :: "lc_state \<Rightarrow> u32" where
  "lc_GetConnectTimeout s = nw_connect_timeout_ms (cf_network (cm_config (snd s)))"

definition lc_SetConnectTimeout :: "lc_state \<Rightarrow> u32 \<Rightarrow> lc_state" where
  "lc_SetConnectTimeout s value = (fst s, cm_SetConnectTimeout (snd s) value)"

definition lc_GetPingInterval :: "lc_state \<Rightarrow> u32" where
  "lc_GetPingInterval s = nw_ping_interval_ms (cf_network (cm_config (snd s)))"

definition lc_SetPingInterval :: "lc_state \<Rightarrow> u32 \<Rightarrow> lc_state" where
  "lc_SetPingInterval s value = (fst s, cm_SetPingInterval (snd s) value)"

definition lc_GetReconnectDelay :: "lc_state \<Rightarrow> u32" where
  "lc_GetReconnectDelay s = nw_reconnect_delay_ms (cf_network (cm_config (snd s)))"

definition lc_SetReconnectDelay :: "lc_state \<Rightarrow> u32 \<Rightarrow> lc_state" where
  "lc_SetReconnectDelay s value = (fst s, cm_SetReconnectDelay (snd s) value)"

definition lc_GetMaxReconnectAttempts :: "lc_state \<Rightarrow> u32" where
  "lc_GetMaxReconnectAttempts s = nw_max_reconnect_attempts (cf_network (cm_config (snd s)))"

definition lc_SetMaxReconnectAttempts :: "lc_state \<Rightarrow> u32 \<Rightarrow> lc_state" where
  "lc_SetMaxReconnectAttempts s value = (fst s, cm_SetMaxReconnectAttempts (snd s) value)"

definition lc_GetDebugLevel :: "lc_state \<Rightarrow> u32" where
  "lc_GetDebugLevel s = db_level (cf_debug (cm_config (snd s)))"

definition lc_SetDebugLevel :: "lc_state \<Rightarrow> u32 \<Rightarrow> lc_state" where
  "lc_SetDebugLevel s value = (fst s, cm_SetDebugLevel (snd s) value)"

definition lc_SaveConfig :: "lc_state \<Rightarrow> file_write \<Rightarrow> ConfigResult \<times> file_effect \<times> lc_state" where
  "lc_SaveConfig s f = (case cm_Save (snd s) f of (result, effect, m) \<Rightarrow> (result, effect, (fst s, m)))"

definition lc_ReloadConfig :: "lc_state \<Rightarrow> file_read \<Rightarrow> ConfigResult \<times> lc_state" where
  "lc_ReloadConfig s f = (case cm_Reload (snd s) f of (result, m) \<Rightarrow> (result, (fst s, m)))"

text \<open>
  The commands of the stand-alone configuration service (\<^verbatim>\<open>config/config_ipc_service.cpp\<close>) that read or change
  the shared state; its other commands are in the theory of the configuration manager.
\<close>

definition cs_GetConnectionStatus :: u32 where "cs_GetConnectionStatus = 0"

definition cs_IsServiceActive :: u32 where "cs_IsServiceActive = 1"

definition cs_IsGameActive :: "SharedState \<Rightarrow> u32" where "cs_IsGameActive s = of_flag (ss_game_active s)"

definition cs_GetLdnState :: "SharedState \<Rightarrow> u32" where "cs_GetLdnState s = comm_value (ss_ldn_state s)"

definition cs_GetSessionInfo :: "SharedState \<Rightarrow> byte list" where
  "cs_GetSessionInfo s = take 4 (ss_GetSessionInfoStruct s) @ replicate 4 0"

definition cs_GetLastRtt :: "SharedState \<Rightarrow> u32" where "cs_GetLastRtt s = ss_last_rtt_ms s"

definition cs_ForceReconnect :: "SharedState \<Rightarrow> SharedState" where "cs_ForceReconnect s = ss_RequestReconnect s"

definition cs_GetActiveProcessId :: "SharedState \<Rightarrow> u64" where "cs_GetActiveProcessId s = ss_process_id s"

subsection \<open>Runs of commands\<close>

inductive lc_step :: "lc_state \<Rightarrow> lc_state \<Rightarrow> bool" where
  "lc_step s (lc_SetServerAddress s host port)"
| "lc_step s (lc_ForceReconnect s)"
| "lc_step s (lc_SetPassphrase s passphrase)"
| "lc_step s (lc_SetDebugEnabled s v)"
| "lc_step s (lc_SetLdnEnabled s v)"
| "lc_step s (lc_SetUseTls s v)"
| "lc_step s (lc_SetLogToFile s v)"
| "lc_step s (lc_SetConnectTimeout s v)"
| "lc_step s (lc_SetPingInterval s v)"
| "lc_step s (lc_SetReconnectDelay s v)"
| "lc_step s (lc_SetMaxReconnectAttempts s v)"
| "lc_step s (lc_SetDebugLevel s v)"
| "lc_SaveConfig s w = (result, effect, s') \<Longrightarrow> lc_step s s'"
| "lc_ReloadConfig s r = (result, s') \<Longrightarrow> lc_step s s'"

lemmas lc_setters = lc_SetServerAddress_def lc_ForceReconnect_def lc_SetPassphrase_def lc_SetDebugEnabled_def lc_SetLdnEnabled_def
  lc_SetUseTls_def lc_SetLogToFile_def lc_SetConnectTimeout_def lc_SetPingInterval_def lc_SetReconnectDelay_def
  lc_SetMaxReconnectAttempts_def lc_SetDebugLevel_def cm_setters

lemma lc_step_uninitialized:
  assumes "lc_step s s'" and "\<not> cm_initialized (snd s)"
  shows "\<not> cm_initialized (snd s')"
  using assms
proof cases
  case (13 w result effect)
  then show ?thesis
    using assms(2) by (auto simp: lc_SaveConfig_def cm_Save_def)
next
  case (14 r result)
  then show ?thesis
    using assms(2) by (auto simp: lc_ReloadConfig_def cm_Reload_def)
qed (use assms(2) in \<open>simp_all add: lc_setters Let_def\<close>)

subsection \<open>Properties\<close>

text \<open>
  The configuration commands of the LDN service never reach the card. Nothing in the module initialises the
  manager they work on, and from the state the program creates it in, no sequence of commands changes that: every save and every reload
  is refused, whatever was set.
\<close>

theorem ldn_config_never_saved:
  assumes "lc_step\<^sup>*\<^sup>* (shared, cm_new) s"
  shows "(\<exists>s'. lc_SaveConfig s w = (ConfigResult.IoError, Untouched, s')) \<and> (\<exists>s'. lc_ReloadConfig s r = (ConfigResult.IoError, s'))"
proof -
  have "\<not> cm_initialized (snd s)"
    using assms by (induction rule: rtranclp_induct) (auto simp: cm_new_def dest: lc_step_uninitialized)
  then show ?thesis
    by (simp add: lc_SaveConfig_def cm_Save_def lc_ReloadConfig_def cm_Reload_def)
qed

theorem ldn_config_never_saved_witness:
  "fst (lc_SaveConfig (lc_SetUseTls (ss_new, cm_new) 1) \<lparr>fw_alloc = True, fw_create = True, fw_open = True, fw_write = True\<rparr>) =
     ConfigResult.IoError"
proof -
  have "lc_step\<^sup>*\<^sup>* (ss_new, cm_new) (lc_SetUseTls (ss_new, cm_new) 1)"
    by (intro r_into_rtranclp lc_step.intros)
  then show ?thesis
    using ldn_config_never_saved [of ss_new "lc_SetUseTls (ss_new, cm_new) 1"] by (metis fst_conv)
qed

end
