(* ===== verification/Game_Whitelist.thy ===== *)
theory Game_Whitelist
  imports Prelude "HOL-Library.Sublist"
begin

text \<open>
  The list of games, \<^verbatim>\<open>config/game_whitelist.cpp\<close>: the file is read in chunks and cut into lines, each line is parsed
  as a hexadecimal title identifier, the identifiers are sorted and looked up by binary search. The results
  of \<^verbatim>\<open>ReadFile\<close> are a list (\<^verbatim>\<open>None\<close>: the read failed); loading returns \<^verbatim>\<open>None\<close> when the list ends before
  the loop does.
\<close>

unbundle bit_operations_syntax

definition BYTES_PER_ENTRY :: nat where "BYTES_PER_ENTRY = 18"
definition CHUNK_SIZE :: nat where "CHUNK_SIZE = 512"
definition LINE_BUF_SIZE :: nat where "LINE_BUF_SIZE = 24"

record whitelist =
  wl_ids :: "u64 list"
  wl_capacity :: nat
  wl_loaded :: bool

definition wl_new :: whitelist where
  "wl_new = \<lparr>wl_ids = [], wl_capacity = 0, wl_loaded = False\<rparr>"

definition hex_digit :: "char \<Rightarrow> nat option" where
  "hex_digit c =
     (let k = of_char c :: nat in
      if 48 \<le> k \<and> k \<le> 57 then Some (k - 48)
      else if 97 \<le> k \<and> k \<le> 102 then Some (10 + (k - 97))
      else if 65 \<le> k \<and> k \<le> 70 then Some (10 + (k - 65))
      else None)"

fun hex_value :: "char list \<Rightarrow> u64 \<Rightarrow> u64" where
  "hex_value [] result = result"
| "hex_value (c # cs) result =
     (case hex_digit c of None \<Rightarrow> result | Some digit \<Rightarrow> hex_value cs (push_bit 4 result OR word_of_nat digit))"

definition ParseHexId :: "char list \<Rightarrow> u64" where
  "ParseHexId str =
     (if length str \<ge> 2 \<and> str ! 0 = CHR ''0'' \<and> (str ! 1 = CHR ''x'' \<or> str ! 1 = CHR ''X'')
      then hex_value (drop 2 str) 0 else hex_value str 0)"

text \<open>One character: \<open>ids\<close> are the identifiers so far, \<open>line\<close> the buffered characters of the line.\<close>

definition add_id :: "char list \<Rightarrow> u64 list \<Rightarrow> u64 list" where
  "add_id line ids = (let i = ParseHexId line in if i \<noteq> 0 then ids @ [i] else ids)"

definition wl_char :: "char \<Rightarrow> u64 list \<times> char list \<Rightarrow> u64 list \<times> char list" where
  "wl_char c st =
     (case st of (ids, line) \<Rightarrow>
        if c = CHR 0x0A \<or> c = CHR 0x0D then (if line \<noteq> [] then (add_id line ids, []) else (ids, line))
        else if length line < LINE_BUF_SIZE - 1 then (ids, line @ [c]) else (ids, line))"

fun wl_chunk :: "nat \<Rightarrow> char list \<Rightarrow> u64 list \<times> char list \<Rightarrow> u64 list \<times> char list" where
  "wl_chunk capacity [] st = st"
| "wl_chunk capacity (c # cs) st = (if length (fst st) < capacity then wl_chunk capacity cs (wl_char c st) else st)"

fun wl_read :: "nat \<Rightarrow> nat \<Rightarrow> nat \<Rightarrow> char list option list \<Rightarrow> u64 list \<times> char list \<Rightarrow> (u64 list \<times> char list) option" where
  "wl_read capacity file_size offset reads st =
     (if offset < file_size \<and> length (fst st) < capacity then
        case reads of
          [] \<Rightarrow> None
        | None # _ \<Rightarrow> Some st
        | Some chunk # rest \<Rightarrow> wl_read capacity file_size (offset + length chunk) rest (wl_chunk capacity chunk st)
      else Some st)"

declare wl_read.simps [simp del]

text \<open>\<open>file_size\<close> is the file size, \<^verbatim>\<open>None\<close> when the file cannot be opened or its size is unknown.\<close>

definition LoadWhitelist :: "whitelist \<Rightarrow> nat option \<Rightarrow> bool \<Rightarrow> char list option list \<Rightarrow> whitelist option" where
  "LoadWhitelist w file_size alloc reads =
     (if wl_loaded w then Some w
      else case file_size of
        None \<Rightarrow> Some (w\<lparr>wl_loaded := True\<rparr>)
      | Some n \<Rightarrow>
          if n = 0 then Some (w\<lparr>wl_loaded := True\<rparr>)
          else let capacity = n div BYTES_PER_ENTRY + 100 in
            if \<not> alloc then Some (w\<lparr>wl_capacity := capacity, wl_loaded := True\<rparr>)
            else case wl_read capacity n 0 reads (wl_ids w, []) of
              None \<Rightarrow> None
            | Some (ids, line) \<Rightarrow>
                let ids = (if line \<noteq> [] \<and> length ids < capacity then add_id line ids else ids);
                    ids = (if length ids > 1 then remdups_adj (sort ids) else ids)
                in Some (w\<lparr>wl_ids := ids, wl_capacity := capacity, wl_loaded := True\<rparr>))"

text \<open>\<^verbatim>\<open>std::binary_search\<close> by \<^verbatim>\<open>std::lower_bound\<close>.\<close>

function lower_bound :: "u64 list \<Rightarrow> u64 \<Rightarrow> nat \<Rightarrow> nat \<Rightarrow> nat" where
  "lower_bound xs v first count =
     (if count = 0 then first
      else let step = count div 2 in
        if xs ! (first + step) < v then lower_bound xs v (first + step + 1) (count - (step + 1))
        else lower_bound xs v first step)"
  by auto
termination
  by (relation "measure (\<lambda>(xs, v, first, count). count)") (auto simp: Let_def)

declare lower_bound.simps [simp del]

definition binary_search :: "u64 list \<Rightarrow> u64 \<Rightarrow> bool" where
  "binary_search xs v = (let i = lower_bound xs v 0 (length xs) in i < length xs \<and> \<not> v < xs ! i)"

definition IsGameInWhitelist :: "whitelist \<Rightarrow> u64 \<Rightarrow> bool" where
  "IsGameInWhitelist w program_id =
     (if \<not> wl_loaded w then False
      else if wl_ids w = [] then program_id \<ge> 0x0100000000000000 \<and> program_id \<noteq> 0x010028600ebda000
      else binary_search (wl_ids w) program_id)"

subsection \<open>Binary search\<close>

lemma lower_bound_spec:
  "sorted xs \<Longrightarrow> first + count \<le> length xs \<Longrightarrow> \<forall>i<first. xs ! i < v \<Longrightarrow> \<forall>i. first + count \<le> i \<and> i < length xs \<longrightarrow> v \<le> xs ! i \<Longrightarrow>
   lower_bound xs v first count \<le> length xs \<and> (\<forall>i<lower_bound xs v first count. xs ! i < v) \<and>
   (\<forall>i. lower_bound xs v first count \<le> i \<and> i < length xs \<longrightarrow> v \<le> xs ! i)"
proof (induction xs v first count rule: lower_bound.induct)
  case (1 xs v first count)
  let ?step = "count div 2"
  show ?case
  proof (cases "count = 0")
    case True
    then show ?thesis
      using 1(3,4,5,6) by (simp add: lower_bound.simps)
  next
    case False
    then have less: "first + ?step < length xs"
      using 1(4) by linarith
    show ?thesis
    proof (cases "xs ! (first + ?step) < v")
      case True
      have "\<forall>i<first + ?step + 1. xs ! i < v"
      proof (intro allI impI)
        fix i
        assume "i < first + ?step + 1"
        then have "xs ! i \<le> xs ! (first + ?step)"
          using sorted_nth_mono [OF 1(3)] less by simp
        then show "xs ! i < v"
          using True by simp
      qed
      then have below: "\<forall>i<first + ?step + 1. xs ! i < v"
        by simp
      have eq: "lower_bound xs v first count = lower_bound xs v (first + ?step + 1) (count - (?step + 1))"
        using False True by (simp add: lower_bound.simps [of xs v first count] Let_def)
      have sum: "first + ?step + 1 + (count - (?step + 1)) = first + count"
        using False by linarith
      show ?thesis
        unfolding eq by (rule 1(1) [OF False refl True 1(3) _ below]) (use 1(4,6) sum in simp_all)
    next
      case False2: False
      have "\<forall>i. first + ?step \<le> i \<and> i < length xs \<longrightarrow> v \<le> xs ! i"
      proof (intro allI impI)
        fix i
        assume "first + ?step \<le> i \<and> i < length xs"
        then have "xs ! (first + ?step) \<le> xs ! i"
          using sorted_nth_mono [OF 1(3)] by simp
        then show "v \<le> xs ! i"
          using False2 by simp
      qed
      then have above: "\<forall>i. first + ?step \<le> i \<and> i < length xs \<longrightarrow> v \<le> xs ! i"
        by simp
      have eq: "lower_bound xs v first count = lower_bound xs v first ?step"
        using False False2 by (simp add: lower_bound.simps [of xs v first count] Let_def)
      show ?thesis
        unfolding eq by (rule 1(2) [OF False refl False2 1(3) _ 1(5) above]) (use less in simp)
    qed
  qed
qed

lemma binary_search_mem:
  assumes "sorted xs"
  shows "binary_search xs v \<longleftrightarrow> v \<in> set xs"
proof -
  let ?i = "lower_bound xs v 0 (length xs)"
  have "\<forall>i. 0 + length xs \<le> i \<and> i < length xs \<longrightarrow> v \<le> xs ! i" "\<forall>i<0. xs ! i < v" "0 + length xs \<le> length xs"
    by auto
  note spec = lower_bound_spec [OF assms this(3,2,1)]
  show ?thesis
  proof
    assume "binary_search xs v"
    then have i: "?i < length xs" "xs ! ?i \<le> v"
      by (auto simp: binary_search_def Let_def)
    then have "v = xs ! ?i"
      using spec by (intro order_antisym) auto
    then show "v \<in> set xs"
      using nth_mem [OF i(1)] by simp
  next
    assume "v \<in> set xs"
    then obtain j where j: "j < length xs" "xs ! j = v"
      by (auto simp: in_set_conv_nth)
    then have "?i \<le> j"
      using spec by (metis leI less_irrefl)
    then have "xs ! ?i \<le> v"
      using sorted_nth_mono [OF assms] j by blast
    then show "binary_search xs v"
      using j \<open>?i \<le> j\<close> by (simp add: binary_search_def)
  qed
qed

subsection \<open>Lines\<close>

text \<open>The reference: the file cut at line ends, the non-empty lines parsed, zero left out.\<close>

fun lines_of :: "char list \<Rightarrow> char list list" where
  "lines_of [] = [[]]"
| "lines_of (c # cs) =
     (if c = CHR 0x0A \<or> c = CHR 0x0D then [] # lines_of cs
      else (c # hd (lines_of cs)) # tl (lines_of cs))"

definition ids_of_lines :: "char list list \<Rightarrow> u64 list" where
  "ids_of_lines ls = filter (\<lambda>i. i \<noteq> 0) (map (\<lambda>l. ParseHexId (take 23 l)) (filter (\<lambda>l. l \<noteq> []) ls))"

definition ids_of :: "char list \<Rightarrow> u64 list" where
  "ids_of content = ids_of_lines (lines_of content)"

definition flush :: "u64 list \<times> char list \<Rightarrow> u64 list" where
  "flush st = (if snd st \<noteq> [] then add_id (snd st) (fst st) else fst st)"

lemma lines_of_not_Nil [simp]: "lines_of cs \<noteq> []"
  by (cases cs) auto

lemma add_id_line: "L \<noteq> [] \<Longrightarrow> add_id (take 23 L) ids = ids @ ids_of_lines [L]" "ids_of_lines (l # ls) = ids_of_lines [l] @ ids_of_lines ls"
  by (simp_all add: add_id_def ids_of_lines_def Let_def)

lemma take_extend: "(if length (take 23 L) < 23 then take 23 L @ [c] else take 23 L) = take 23 (L @ [c])"
  by auto

lemma all_chars:
  "flush (fold wl_char cs (ids, take 23 L)) = ids @ ids_of_lines ((L @ hd (lines_of cs)) # tl (lines_of cs))"
proof (induction cs arbitrary: ids L)
  case Nil
  then show ?case
    by (cases "L = []") (simp_all add: flush_def add_id_line(1), simp add: ids_of_lines_def)
next
  case (Cons c cs)
  show ?case
  proof (cases "c = CHR 0x0A \<or> c = CHR 0x0D")
    case True
    have step: "wl_char c (ids, take 23 L) = (ids @ ids_of_lines [L], take 23 [])"
      using True add_id_line(1) [of L ids] by (auto simp: wl_char_def ids_of_lines_def)
    have "(hd (lines_of cs) # tl (lines_of cs)) = lines_of cs"
      by simp
    then show ?thesis
      using True Cons.IH [of "ids @ ids_of_lines [L]" "[]"] add_id_line(2) [of L "lines_of cs"]
      unfolding fold_simps o_def step by simp
  next
    case False
    then have step: "wl_char c (ids, take 23 L) = (ids, take 23 (L @ [c]))"
      using take_extend [of L c] by (simp add: wl_char_def LINE_BUF_SIZE_def)
    show ?thesis
      using False Cons.IH [of ids "L @ [c]"] unfolding fold_simps o_def step by simp
  qed
qed

lemma wl_char_grows: "prefix (fst st) (fst (wl_char c st))" "length (fst (wl_char c st)) \<le> length (fst st) + 1"
  by (auto simp: wl_char_def add_id_def Let_def split: prod.splits)

lemma flush_grows: "prefix (fst st) (flush (fold wl_char cs st))"
proof (induction cs arbitrary: st)
  case Nil
  then show ?case
    by (simp add: flush_def add_id_def Let_def)
next
  case (Cons c cs)
  then show ?case
    using wl_char_grows(1) [where st = st and c = c] prefix_order.trans by fastforce
qed

text \<open>With a bounded array, the same identifiers up to its capacity.\<close>

lemma wl_chunk_take:
  "length (fst st) \<le> n \<Longrightarrow>
   (let st' = wl_chunk n cs st in if snd st' \<noteq> [] \<and> length (fst st') < n then add_id (snd st') (fst st') else fst st') =
   take n (flush (fold wl_char cs st))"
proof (induction cs arbitrary: st)
  case Nil
  have "length (add_id l ids) \<le> length ids + 1" "prefix ids (add_id l ids)" for l ids
    by (simp_all add: add_id_def Let_def)
  then show ?case
    using Nil by (auto simp: flush_def not_less add_id_def Let_def)
next
  case (Cons c cs)
  show ?case
  proof (cases "length (fst st) < n")
    case True
    then have "length (fst (wl_char c st)) \<le> n"
      using wl_char_grows(2) [where st = st and c = c] by linarith
    from Cons.IH [OF this] show ?thesis
      using True by simp
  next
    case False
    then have "length (fst st) = n" "prefix (fst st) (flush (fold wl_char (c # cs) st))"
      using Cons.prems flush_grows [of st "c # cs"] by simp_all
    then show ?thesis
      using False by (auto simp: prefix_def Let_def)
  qed
qed

lemma wl_chunk_append: "wl_chunk n (a @ b) st = wl_chunk n b (wl_chunk n a st)"
proof (induction a arbitrary: st)
  case (Cons c a)
  have "length (fst st) \<ge> n \<Longrightarrow> wl_chunk n b st = st"
    by (cases b) auto
  then show ?case
    using Cons by auto
qed simp

lemma wl_read_chunks:
  "offset + length (concat chunks) = n \<Longrightarrow> wl_read cap n offset (map Some chunks) st = Some (wl_chunk cap (concat chunks) st)"
proof (induction chunks arbitrary: offset st)
  case Nil
  then show ?case
    by (simp add: wl_read.simps)
next
  case (Cons chunk chunks)
  have full: "length (fst st) \<ge> cap \<Longrightarrow> wl_chunk cap cs st = st" for cs
    by (cases cs) auto
  show ?case
  proof (cases "offset < n \<and> length (fst st) < cap")
    case True
    then show ?thesis
      using Cons.IH [of "offset + length chunk" "wl_chunk cap chunk st"] Cons.prems
        by (simp add: wl_chunk_append wl_read.simps [of cap n offset])
  next
    case False
    then have "concat (chunk # chunks) = [] \<or> length (fst st) \<ge> cap"
      using Cons.prems by auto
    then have "wl_chunk cap (concat (chunk # chunks)) st = st"
      using full [of "concat (chunk # chunks)"] wl_chunk.simps(1) [of cap st] by metis
    then show ?thesis
      using False by (simp only: wl_read.simps [of cap n offset] if_False)
  qed
qed

subsection \<open>Properties\<close>

text \<open>
  C33: the whitelist is the set of the identifiers in the file: however the file is cut into reads, loading it ends, and afterwards a game is
  accepted iff its identifier is one of those on the lines of the file (as many as the array has room for), or, when the
  file has none, iff it is an application other than the album.
\<close>

theorem whitelist_is_the_file:
  assumes "concat chunks = content" and "content \<noteq> []" and "ids = take (length content div 18 + 100) (ids_of content)"
  shows "\<exists>w. LoadWhitelist wl_new (Some (length content)) True (map Some chunks) = Some w \<and>
    (\<forall>p. IsGameInWhitelist w p =
      (if ids = [] then p \<ge> 0x0100000000000000 \<and> p \<noteq> 0x010028600ebda000 else p \<in> set ids))"
proof -
  define cap where "cap = length content div 18 + 100"
  define st where "st = wl_chunk cap content ([], [])"
  have read: "wl_read cap (length content) 0 (map Some chunks) ([], []) = Some st"
    using wl_read_chunks [of 0 chunks "length content" cap "([], [])"] assms(1) by (simp add: st_def)
  have ids: "(if snd st \<noteq> [] \<and> length (fst st) < cap then add_id (snd st) (fst st) else fst st) = ids"
    using wl_chunk_take [of "([], [])" cap content] all_chars [of content "[]" "[]"]
    unfolding assms(3) cap_def [symmetric] st_def [symmetric] Let_def ids_of_def by simp
  define w where "w = \<lparr>wl_ids = (if length ids > 1 then remdups_adj (sort ids) else ids), wl_capacity = cap, wl_loaded = True\<rparr>"
  have load: "LoadWhitelist wl_new (Some (length content)) True (map Some chunks) = Some w"
  proof -
    obtain a b where ab: "st = (a, b)"
      by fastforce
    have ids': "(if b \<noteq> [] \<and> length a < cap then add_id b a else a) = ids"
      using ids unfolding ab fst_conv snd_conv .
    have "LoadWhitelist wl_new (Some (length content)) True (map Some chunks) =
        (case wl_read cap (length content) 0 (map Some chunks) ([], []) of None \<Rightarrow> None
         | Some (ids, line) \<Rightarrow>
             let ids = (if line \<noteq> [] \<and> length ids < cap then add_id line ids else ids);
                 ids = (if length ids > 1 then remdups_adj (sort ids) else ids)
             in Some (wl_new\<lparr>wl_ids := ids, wl_capacity := cap, wl_loaded := True\<rparr>))"
      using assms(2) unfolding LoadWhitelist_def BYTES_PER_ENTRY_def cap_def Let_def by (simp add: wl_new_def)
    then show ?thesis
      unfolding read ab option.case prod.case Let_def ids' w_def by (simp add: wl_new_def)
  qed
  have "sorted ids \<or> length ids > 1"
    by (cases ids) auto
  then have w: "sorted (wl_ids w)" "set (wl_ids w) = set ids" "wl_loaded w"
    by (auto simp: w_def sorted_remdups_adj)
  then have "IsGameInWhitelist w p = (if ids = [] then p \<ge> 0x0100000000000000 \<and> p \<noteq> 0x010028600ebda000 else p \<in> set ids)" for p
    using binary_search_mem [OF w(1), of p] by (cases "ids = []"; cases "wl_ids w = []") (simp_all add: IsGameInWhitelist_def)
  then show ?thesis
    using load by blast
qed

theorem whitelist_is_the_file_witness:
  "\<exists>w. LoadWhitelist wl_new (Some (length ''0x1A_5_'')) True (map Some [''0x1'', ''A'' @ [CHR 0x0A] @ ''5'', [CHR 0x0D]]) = Some w \<and>
    (\<forall>p. IsGameInWhitelist w p = (p \<in> {0x1A, 5}))"
proof -
  have "ids_of (''0x1A'' @ [CHR 0x0A] @ ''5'' @ [CHR 0x0D]) = [0x1A, 5]"
    by (simp add: ids_of_def ids_of_lines_def ParseHexId_def hex_digit_def)
  then show ?thesis
    using whitelist_is_the_file [of "[''0x1'', ''A'' @ [CHR 0x0A] @ ''5'', [CHR 0x0D]]" "''0x1A'' @ [CHR 0x0A] @ ''5'' @ [CHR 0x0D]" "[0x1A, 5]"]
    by simp
qed

end
