(* ===== verification/Packet_Dispatcher.thy ===== *)
theory Packet_Dispatcher
  imports Ryu_Protocol
begin

text \<open>
  The packet dispatcher of \<^verbatim>\<open>ldn/ldn_packet_dispatcher.hpp\<close> and \<^verbatim>\<open>.cpp\<close>. A handler is a plain function
  pointer that works on global state, so it is a function on a state \<open>'w\<close> that the dispatcher only
  threads through; a null pointer is \<open>None\<close>. The template parameter of \<^verbatim>\<open>dispatch_typed\<close> is the size of
  the structure and the function that reads it from its bytes. The buffer is a byte list whose length
  is \<^verbatim>\<open>data_size\<close>.
\<close>

type_synonym ('t, 'w) PacketHandler = "(LdnHeader \<Rightarrow> 't \<Rightarrow> 'w \<Rightarrow> 'w) option"
type_synonym 'w EmptyPacketHandler = "(LdnHeader \<Rightarrow> 'w \<Rightarrow> 'w) option"
type_synonym 'w ProxyDataHandler = "(LdnHeader \<Rightarrow> ProxyDataHeader \<Rightarrow> byte list \<Rightarrow> 'w \<Rightarrow> 'w) option"

record 'w PacketDispatcher =
  pd_initialize_handler :: "(InitializeMessage, 'w) PacketHandler"
  pd_connected_handler :: "(NetworkInfo, 'w) PacketHandler"
  pd_sync_network_handler :: "(NetworkInfo, 'w) PacketHandler"
  pd_scan_reply_handler :: "(NetworkInfo, 'w) PacketHandler"
  pd_scan_reply_end_handler :: "'w EmptyPacketHandler"
  pd_disconnect_handler :: "(DisconnectMessage, 'w) PacketHandler"
  pd_ping_handler :: "(PingMessage, 'w) PacketHandler"
  pd_network_error_handler :: "(NetworkErrorMessage, 'w) PacketHandler"
  pd_proxy_config_handler :: "(ProxyConfig, 'w) PacketHandler"
  pd_proxy_connect_handler :: "(ProxyConnectRequest, 'w) PacketHandler"
  pd_proxy_connect_reply_handler :: "(ProxyConnectResponse, 'w) PacketHandler"
  pd_proxy_data_handler :: "'w ProxyDataHandler"
  pd_proxy_disconnect_handler :: "(ProxyDisconnectMessage, 'w) PacketHandler"
  pd_reject_handler :: "(RejectRequest, 'w) PacketHandler"
  pd_reject_reply_handler :: "'w EmptyPacketHandler"
  pd_accept_policy_handler :: "(SetAcceptPolicyRequest, 'w) PacketHandler"

definition pd_new :: "'w PacketDispatcher" where
  "pd_new = \<lparr>pd_initialize_handler = None, pd_connected_handler = None, pd_sync_network_handler = None,
     pd_scan_reply_handler = None, pd_scan_reply_end_handler = None, pd_disconnect_handler = None,
     pd_ping_handler = None, pd_network_error_handler = None, pd_proxy_config_handler = None,
     pd_proxy_connect_handler = None, pd_proxy_connect_reply_handler = None, pd_proxy_data_handler = None,
     pd_proxy_disconnect_handler = None, pd_reject_handler = None, pd_reject_reply_handler = None,
     pd_accept_policy_handler = None\<rparr>"

subsection \<open>Registration\<close>

definition set_initialize_handler :: "'w PacketDispatcher \<Rightarrow> (InitializeMessage, 'w) PacketHandler \<Rightarrow> 'w PacketDispatcher" where
  "set_initialize_handler d handler = d\<lparr>pd_initialize_handler := handler\<rparr>"

definition set_connected_handler :: "'w PacketDispatcher \<Rightarrow> (NetworkInfo, 'w) PacketHandler \<Rightarrow> 'w PacketDispatcher" where
  "set_connected_handler d handler = d\<lparr>pd_connected_handler := handler\<rparr>"

definition set_sync_network_handler :: "'w PacketDispatcher \<Rightarrow> (NetworkInfo, 'w) PacketHandler \<Rightarrow> 'w PacketDispatcher" where
  "set_sync_network_handler d handler = d\<lparr>pd_sync_network_handler := handler\<rparr>"

definition set_scan_reply_handler :: "'w PacketDispatcher \<Rightarrow> (NetworkInfo, 'w) PacketHandler \<Rightarrow> 'w PacketDispatcher" where
  "set_scan_reply_handler d handler = d\<lparr>pd_scan_reply_handler := handler\<rparr>"

definition set_scan_reply_end_handler :: "'w PacketDispatcher \<Rightarrow> 'w EmptyPacketHandler \<Rightarrow> 'w PacketDispatcher" where
  "set_scan_reply_end_handler d handler = d\<lparr>pd_scan_reply_end_handler := handler\<rparr>"

definition set_disconnect_handler :: "'w PacketDispatcher \<Rightarrow> (DisconnectMessage, 'w) PacketHandler \<Rightarrow> 'w PacketDispatcher" where
  "set_disconnect_handler d handler = d\<lparr>pd_disconnect_handler := handler\<rparr>"

definition set_ping_handler :: "'w PacketDispatcher \<Rightarrow> (PingMessage, 'w) PacketHandler \<Rightarrow> 'w PacketDispatcher" where
  "set_ping_handler d handler = d\<lparr>pd_ping_handler := handler\<rparr>"

definition set_network_error_handler :: "'w PacketDispatcher \<Rightarrow> (NetworkErrorMessage, 'w) PacketHandler \<Rightarrow> 'w PacketDispatcher" where
  "set_network_error_handler d handler = d\<lparr>pd_network_error_handler := handler\<rparr>"

definition set_proxy_config_handler :: "'w PacketDispatcher \<Rightarrow> (ProxyConfig, 'w) PacketHandler \<Rightarrow> 'w PacketDispatcher" where
  "set_proxy_config_handler d handler = d\<lparr>pd_proxy_config_handler := handler\<rparr>"

definition set_proxy_connect_handler :: "'w PacketDispatcher \<Rightarrow> (ProxyConnectRequest, 'w) PacketHandler \<Rightarrow> 'w PacketDispatcher" where
  "set_proxy_connect_handler d handler = d\<lparr>pd_proxy_connect_handler := handler\<rparr>"

definition set_proxy_connect_reply_handler ::
  "'w PacketDispatcher \<Rightarrow> (ProxyConnectResponse, 'w) PacketHandler \<Rightarrow> 'w PacketDispatcher" where
  "set_proxy_connect_reply_handler d handler = d\<lparr>pd_proxy_connect_reply_handler := handler\<rparr>"

definition set_proxy_data_handler :: "'w PacketDispatcher \<Rightarrow> 'w ProxyDataHandler \<Rightarrow> 'w PacketDispatcher" where
  "set_proxy_data_handler d handler = d\<lparr>pd_proxy_data_handler := handler\<rparr>"

definition set_proxy_disconnect_handler ::
  "'w PacketDispatcher \<Rightarrow> (ProxyDisconnectMessage, 'w) PacketHandler \<Rightarrow> 'w PacketDispatcher" where
  "set_proxy_disconnect_handler d handler = d\<lparr>pd_proxy_disconnect_handler := handler\<rparr>"

definition set_reject_handler :: "'w PacketDispatcher \<Rightarrow> (RejectRequest, 'w) PacketHandler \<Rightarrow> 'w PacketDispatcher" where
  "set_reject_handler d handler = d\<lparr>pd_reject_handler := handler\<rparr>"

definition set_reject_reply_handler :: "'w PacketDispatcher \<Rightarrow> 'w EmptyPacketHandler \<Rightarrow> 'w PacketDispatcher" where
  "set_reject_reply_handler d handler = d\<lparr>pd_reject_reply_handler := handler\<rparr>"

definition set_accept_policy_handler :: "'w PacketDispatcher \<Rightarrow> (SetAcceptPolicyRequest, 'w) PacketHandler \<Rightarrow> 'w PacketDispatcher" where
  "set_accept_policy_handler d handler = d\<lparr>pd_accept_policy_handler := handler\<rparr>"

lemmas register_defs = set_initialize_handler_def set_connected_handler_def set_sync_network_handler_def
  set_scan_reply_handler_def set_scan_reply_end_handler_def set_disconnect_handler_def set_ping_handler_def
  set_network_error_handler_def set_proxy_config_handler_def set_proxy_connect_handler_def
  set_proxy_connect_reply_handler_def set_proxy_data_handler_def set_proxy_disconnect_handler_def
  set_reject_handler_def set_reject_reply_handler_def set_accept_policy_handler_def

subsection \<open>Dispatch\<close>

definition dispatch_typed ::
  "nat \<Rightarrow> (byte list \<Rightarrow> 't) \<Rightarrow> LdnHeader \<Rightarrow> byte list \<Rightarrow> ('t, 'w) PacketHandler \<Rightarrow> 'w \<Rightarrow> 'w" where
  "dispatch_typed sizeof_T of_bytes header data handler w =
     (case handler of
        None \<Rightarrow> w
      | Some h \<Rightarrow> (if length data < sizeof_T then w else h header (of_bytes (take sizeof_T data)) w))"

definition dispatch_empty :: "LdnHeader \<Rightarrow> 'w EmptyPacketHandler \<Rightarrow> 'w \<Rightarrow> 'w" where
  "dispatch_empty header handler w = (case handler of None \<Rightarrow> w | Some h \<Rightarrow> h header w)"

definition dispatch_proxy_data :: "LdnHeader \<Rightarrow> byte list \<Rightarrow> 'w ProxyDataHandler \<Rightarrow> 'w \<Rightarrow> 'w" where
  "dispatch_proxy_data header data handler w =
     (case handler of
        None \<Rightarrow> w
      | Some h \<Rightarrow>
          (if length data < 20 then w
           else let proxy_header = ProxyDataHeader_of_bytes (take 20 data);
                    proxy_data = drop 20 data;
                    available_data_size = length data - 20
                in if available_data_size < unat (pdh_data_length proxy_header) then w
                   else h header proxy_header (take (unat (pdh_data_length proxy_header)) proxy_data) w))"

definition dispatch :: "'w PacketDispatcher \<Rightarrow> LdnHeader \<Rightarrow> byte list \<Rightarrow> 'w \<Rightarrow> 'w" where
  "dispatch d header data w =
     (case packet_id_cast (hdr_type header) of
        PacketId.Initialize \<Rightarrow> dispatch_typed 22 InitializeMessage_of_bytes header data (pd_initialize_handler d) w
      | PacketId.Connected \<Rightarrow> dispatch_typed 1152 NetworkInfo_of_bytes header data (pd_connected_handler d) w
      | PacketId.SyncNetwork \<Rightarrow> dispatch_typed 1152 NetworkInfo_of_bytes header data (pd_sync_network_handler d) w
      | PacketId.ScanReply \<Rightarrow> dispatch_typed 1152 NetworkInfo_of_bytes header data (pd_scan_reply_handler d) w
      | PacketId.ScanReplyEnd \<Rightarrow> dispatch_empty header (pd_scan_reply_end_handler d) w
      | PacketId.Disconnect \<Rightarrow> dispatch_typed 4 DisconnectMessage_of_bytes header data (pd_disconnect_handler d) w
      | PacketId.Ping \<Rightarrow> dispatch_typed 2 PingMessage_of_bytes header data (pd_ping_handler d) w
      | PacketId.NetworkError \<Rightarrow> dispatch_typed 4 NetworkErrorMessage_of_bytes header data (pd_network_error_handler d) w
      | PacketId.ProxyConfig \<Rightarrow> dispatch_typed 8 ProxyConfig_of_bytes header data (pd_proxy_config_handler d) w
      | PacketId.ProxyConnect \<Rightarrow> dispatch_typed 16 ProxyConnectRequest_of_bytes header data (pd_proxy_connect_handler d) w
      | PacketId.ProxyConnectReply \<Rightarrow>
          dispatch_typed 16 ProxyConnectResponse_of_bytes header data (pd_proxy_connect_reply_handler d) w
      | PacketId.ProxyData \<Rightarrow> dispatch_proxy_data header data (pd_proxy_data_handler d) w
      | PacketId.ProxyDisconnect \<Rightarrow>
          dispatch_typed 20 ProxyDisconnectMessage_of_bytes header data (pd_proxy_disconnect_handler d) w
      | PacketId.Reject \<Rightarrow> dispatch_typed 8 RejectRequest_of_bytes header data (pd_reject_handler d) w
      | PacketId.RejectReply \<Rightarrow> dispatch_empty header (pd_reject_reply_handler d) w
      | PacketId.SetAcceptPolicy \<Rightarrow> dispatch_typed 1 SetAcceptPolicyRequest_of_bytes header data (pd_accept_policy_handler d) w
      | _ \<Rightarrow> w)"

subsection \<open>Messages\<close>

text \<open>The messages a server sends, with their type byte, their bytes and the handler each belongs to.\<close>

datatype Message =
    InitializeMsg InitializeMessage | ConnectedMsg NetworkInfo | SyncNetworkMsg NetworkInfo | ScanReplyMsg NetworkInfo
  | ScanReplyEndMsg | DisconnectMsg DisconnectMessage | PingMsg PingMessage | NetworkErrorMsg NetworkErrorMessage
  | ProxyConfigMsg ProxyConfig | ProxyConnectMsg ProxyConnectRequest | ProxyConnectReplyMsg ProxyConnectResponse
  | ProxyDataMsg ProxyDataHeader "byte list" | ProxyDisconnectMsg ProxyDisconnectMessage
  | RejectMsg RejectRequest | RejectReplyMsg | SetAcceptPolicyMsg SetAcceptPolicyRequest

fun message_id :: "Message \<Rightarrow> PacketId" where
  "message_id (InitializeMsg m) = PacketId.Initialize"
| "message_id (ConnectedMsg m) = PacketId.Connected"
| "message_id (SyncNetworkMsg m) = PacketId.SyncNetwork"
| "message_id (ScanReplyMsg m) = PacketId.ScanReply"
| "message_id ScanReplyEndMsg = PacketId.ScanReplyEnd"
| "message_id (DisconnectMsg m) = PacketId.Disconnect"
| "message_id (PingMsg m) = PacketId.Ping"
| "message_id (NetworkErrorMsg m) = PacketId.NetworkError"
| "message_id (ProxyConfigMsg m) = PacketId.ProxyConfig"
| "message_id (ProxyConnectMsg m) = PacketId.ProxyConnect"
| "message_id (ProxyConnectReplyMsg m) = PacketId.ProxyConnectReply"
| "message_id (ProxyDataMsg m d) = PacketId.ProxyData"
| "message_id (ProxyDisconnectMsg m) = PacketId.ProxyDisconnect"
| "message_id (RejectMsg m) = PacketId.Reject"
| "message_id RejectReplyMsg = PacketId.RejectReply"
| "message_id (SetAcceptPolicyMsg m) = PacketId.SetAcceptPolicy"

fun message_bytes :: "Message \<Rightarrow> byte list" where
  "message_bytes (InitializeMsg m) = InitializeMessage_to_bytes m"
| "message_bytes (ConnectedMsg m) = NetworkInfo_to_bytes m"
| "message_bytes (SyncNetworkMsg m) = NetworkInfo_to_bytes m"
| "message_bytes (ScanReplyMsg m) = NetworkInfo_to_bytes m"
| "message_bytes ScanReplyEndMsg = []"
| "message_bytes (DisconnectMsg m) = DisconnectMessage_to_bytes m"
| "message_bytes (PingMsg m) = PingMessage_to_bytes m"
| "message_bytes (NetworkErrorMsg m) = NetworkErrorMessage_to_bytes m"
| "message_bytes (ProxyConfigMsg m) = ProxyConfig_to_bytes m"
| "message_bytes (ProxyConnectMsg m) = ProxyConnectRequest_to_bytes m"
| "message_bytes (ProxyConnectReplyMsg m) = ProxyConnectResponse_to_bytes m"
| "message_bytes (ProxyDataMsg m d) = ProxyDataHeader_to_bytes m @ d"
| "message_bytes (ProxyDisconnectMsg m) = ProxyDisconnectMessage_to_bytes m"
| "message_bytes (RejectMsg m) = RejectRequest_to_bytes m"
| "message_bytes RejectReplyMsg = []"
| "message_bytes (SetAcceptPolicyMsg m) = SetAcceptPolicyRequest_to_bytes m"

fun wf_message :: "Message \<Rightarrow> bool" where
  "wf_message (InitializeMsg m) = wf_InitializeMessage m"
| "wf_message (ConnectedMsg m) = wf_NetworkInfo m"
| "wf_message (SyncNetworkMsg m) = wf_NetworkInfo m"
| "wf_message (ScanReplyMsg m) = wf_NetworkInfo m"
| "wf_message (ProxyDataMsg m d) = (length d = unat (pdh_data_length m))"
| "wf_message m = True"

definition run_handler :: "('t, 'w) PacketHandler \<Rightarrow> LdnHeader \<Rightarrow> 't \<Rightarrow> 'w \<Rightarrow> 'w" where
  "run_handler handler header m w = (case handler of None \<Rightarrow> w | Some h \<Rightarrow> h header m w)"

fun handle_message :: "'w PacketDispatcher \<Rightarrow> LdnHeader \<Rightarrow> Message \<Rightarrow> 'w \<Rightarrow> 'w" where
  "handle_message d header (InitializeMsg m) w = run_handler (pd_initialize_handler d) header m w"
| "handle_message d header (ConnectedMsg m) w = run_handler (pd_connected_handler d) header m w"
| "handle_message d header (SyncNetworkMsg m) w = run_handler (pd_sync_network_handler d) header m w"
| "handle_message d header (ScanReplyMsg m) w = run_handler (pd_scan_reply_handler d) header m w"
| "handle_message d header ScanReplyEndMsg w = dispatch_empty header (pd_scan_reply_end_handler d) w"
| "handle_message d header (DisconnectMsg m) w = run_handler (pd_disconnect_handler d) header m w"
| "handle_message d header (PingMsg m) w = run_handler (pd_ping_handler d) header m w"
| "handle_message d header (NetworkErrorMsg m) w = run_handler (pd_network_error_handler d) header m w"
| "handle_message d header (ProxyConfigMsg m) w = run_handler (pd_proxy_config_handler d) header m w"
| "handle_message d header (ProxyConnectMsg m) w = run_handler (pd_proxy_connect_handler d) header m w"
| "handle_message d header (ProxyConnectReplyMsg m) w = run_handler (pd_proxy_connect_reply_handler d) header m w"
| "handle_message d header (ProxyDataMsg m data) w =
     (case pd_proxy_data_handler d of None \<Rightarrow> w | Some h \<Rightarrow> h header m data w)"
| "handle_message d header (ProxyDisconnectMsg m) w = run_handler (pd_proxy_disconnect_handler d) header m w"
| "handle_message d header (RejectMsg m) w = run_handler (pd_reject_handler d) header m w"
| "handle_message d header RejectReplyMsg w = dispatch_empty header (pd_reject_reply_handler d) w"
| "handle_message d header (SetAcceptPolicyMsg m) w = run_handler (pd_accept_policy_handler d) header m w"

text \<open>A packet carries a message when its type byte and the front of its payload are those of the message.\<close>

definition carries :: "LdnHeader \<Rightarrow> byte list \<Rightarrow> Message \<Rightarrow> bool" where
  "carries header data m \<longleftrightarrow>
     wf_message m \<and> hdr_type header = packet_id_byte (message_id m) \<and> take (length (message_bytes m)) data = message_bytes m"

lemma message_id_cast [simp]: "packet_id_cast (packet_id_byte (message_id m)) = message_id m"
  by (rule packet_id_cast_byte) (cases m; simp add: packet_id_enumerator_def)

context wire_struct
begin

lemma dispatch_typed_message:
  assumes "wf m" "take sizeof data = to_bytes m"
  shows "dispatch_typed sizeof of_bytes header data handler w = run_handler handler header m w"
proof -
  have "sizeof \<le> length data"
    using len_to [OF assms(1)] assms(2) by (metis length_take min.cobounded1 nle_le)
  then show ?thesis
    by (simp add: dispatch_typed_def run_handler_def assms(2) of_to [OF assms(1)] split: option.split)
qed

lemma dispatch_typed_cases:
  "dispatch_typed sizeof of_bytes header data handler w = w
    \<or> (let m = of_bytes (take sizeof data) in wf m \<and> take (length (to_bytes m)) data = to_bytes m)"
proof (cases "length data < sizeof")
  case True
  then show ?thesis by (simp add: dispatch_typed_def split: option.split)
next
  case False
  then have "wf (of_bytes (take sizeof data))" "to_bytes (of_bytes (take sizeof data)) = take sizeof data"
    by (simp_all add: wf_of to_of)
  with False show ?thesis by simp
qed

end

lemmas dispatch_typed_message_rules =
  InitializeMessage_wire.dispatch_typed_message NetworkInfo_wire.dispatch_typed_message
  DisconnectMessage_wire.dispatch_typed_message PingMessage_wire.dispatch_typed_message
  NetworkErrorMessage_wire.dispatch_typed_message ProxyConfig_wire.dispatch_typed_message
  ProxyConnectRequest_wire.dispatch_typed_message ProxyConnectResponse_wire.dispatch_typed_message
  ProxyDisconnectMessage_wire.dispatch_typed_message RejectRequest_wire.dispatch_typed_message
  SetAcceptPolicyRequest_wire.dispatch_typed_message

lemma wf_fixed [simp]:
  "wf_DisconnectMessage a" "wf_PingMessage b" "wf_NetworkErrorMessage c" "wf_ProxyConfig d" "wf_ProxyConnectRequest e"
  "wf_ProxyConnectResponse f" "wf_ProxyDisconnectMessage g" "wf_RejectRequest h" "wf_SetAcceptPolicyRequest i"
  "wf_ProxyDataHeader j"
  by (simp_all add: wf_DisconnectMessage_def wf_PingMessage_def wf_NetworkErrorMessage_def wf_ProxyConfig_def
      wf_ProxyConnectRequest_def wf_ProxyConnectResponse_def wf_ProxyDisconnectMessage_def wf_RejectRequest_def
      wf_SetAcceptPolicyRequest_def wf_ProxyDataHeader_def wf_ProxyInfo_def)

lemma dispatch_proxy_data_message:
  assumes "length payload = unat (pdh_data_length m)"
    and "take (20 + length payload) data = ProxyDataHeader_to_bytes m @ payload"
  shows "dispatch_proxy_data header data handler w = (case handler of None \<Rightarrow> w | Some h \<Rightarrow> h header m payload w)"
proof -
  have len: "length (ProxyDataHeader_to_bytes m) = 20"
    by (simp add: wire_len)
  have front: "take 20 data = ProxyDataHeader_to_bytes m"
    using arg_cong [OF assms(2), of "take 20"] by (simp add: len)
  have rest: "take (length payload) (drop 20 data) = payload"
    using arg_cong [OF assms(2), of "drop 20"] by (simp add: len take_drop add.commute)
  have "20 + length payload \<le> length data"
    using arg_cong [OF assms(2), of length] by (simp add: len)
  then show ?thesis
    using assms(1) rest by (auto simp: dispatch_proxy_data_def front wire_rt Let_def split: option.split)
qed

lemma take_min_drop: "take (min (length xs - k) n) (drop k xs) = take n (drop k xs)"
  by (simp add: min_def)

lemma dispatch_proxy_data_cases:
  "dispatch_proxy_data header data handler w = w
    \<or> (\<exists>m payload. length payload = unat (pdh_data_length m)
          \<and> take (20 + length payload) data = ProxyDataHeader_to_bytes m @ payload)"
proof (cases "length data < 20 \<or> length data - 20 < unat (pdh_data_length (ProxyDataHeader_of_bytes (take 20 data)))")
  case True
  then show ?thesis by (auto simp: dispatch_proxy_data_def Let_def split: option.split)
next
  case False
  define m where "m = ProxyDataHeader_of_bytes (take 20 data)"
  define payload where "payload = take (unat (pdh_data_length m)) (drop 20 data)"
  have "length payload = unat (pdh_data_length m)"
    using False by (simp add: payload_def m_def)
  moreover have "ProxyDataHeader_to_bytes m = take 20 data"
    using False by (simp add: m_def wire_inv)
  then have "take (20 + length payload) data = ProxyDataHeader_to_bytes m @ payload"
    by (simp add: take_add payload_def take_min_drop)
  ultimately show ?thesis by blast
qed

lemma dispatch_carried:
  assumes "carries header data m"
  shows "dispatch d header data w = handle_message d header m w"
proof -
  have ty: "packet_id_cast (hdr_type header) = message_id m" and wf: "wf_message m"
    and front: "take (length (message_bytes m)) data = message_bytes m"
    using assms by (simp_all add: carries_def)
  show ?thesis
    using wf front
    by (cases m) (simp_all add: dispatch_def ty wire_len dispatch_typed_message_rules dispatch_proxy_data_message
        del: One_nat_def)
qed

lemma typed_carried:
  assumes "packet_id_cast (hdr_type header) = message_id (C (of_bytes (take n data)))"
    and "dispatch_typed n of_bytes header data handler w = w
      \<or> (let m = of_bytes (take n data) in ok m \<and> take (length (to_bytes m)) data = to_bytes m)"
    and "\<And>m. ok m \<Longrightarrow> wf_message (C m)" "\<And>m. message_bytes (C m) = to_bytes m"
    and "\<nexists>m. carries header data m"
  shows "dispatch_typed n of_bytes header data handler w = w"
proof (rule ccontr)
  let ?m = "of_bytes (take n data)"
  assume "dispatch_typed n of_bytes header data handler w \<noteq> w"
  with assms(2) have "ok ?m" "take (length (to_bytes ?m)) data = to_bytes ?m" by (simp_all add: Let_def)
  moreover have "hdr_type header = packet_id_byte (message_id (C ?m))"
    by (metis assms(1) packet_id_byte_cast)
  ultimately have "carries header data (C ?m)"
    by (simp add: carries_def assms(3,4))
  with assms(5) show False by blast
qed

lemma dispatch_uncarried:
  assumes none: "\<nexists>m. carries header data m"
  shows "dispatch d header data w = w"
proof -
  have ty: "hdr_type header = packet_id_byte (packet_id_cast (hdr_type header))"
    by (simp add: packet_id_byte_cast)
  have empty: "packet_id_cast (hdr_type header) \<noteq> PacketId.ScanReplyEnd" "packet_id_cast (hdr_type header) \<noteq> PacketId.RejectReply"
    using none ty by (auto simp: carries_def dest: spec [of _ ScanReplyEndMsg] spec [of _ RejectReplyMsg])
  have data: "dispatch_proxy_data header data handler w = w" if "packet_id_cast (hdr_type header) = PacketId.ProxyData" for handler
  proof (rule ccontr)
    assume "dispatch_proxy_data header data handler w \<noteq> w"
    then obtain m payload where "length payload = unat (pdh_data_length m)"
      "take (20 + length payload) data = ProxyDataHeader_to_bytes m @ payload"
      using dispatch_proxy_data_cases [of header data handler w] by blast
    then have "carries header data (ProxyDataMsg m payload)"
      using that ty by (simp add: carries_def wire_len)
    with none show False by blast
  qed
  note typed = typed_carried [OF _ _ _ _ none]
  show ?thesis
    using empty data
    by (cases "packet_id_cast (hdr_type header)")
      (simp_all add: dispatch_def
        typed [OF _ InitializeMessage_wire.dispatch_typed_cases, where C = InitializeMsg]
        typed [OF _ NetworkInfo_wire.dispatch_typed_cases, where C = ConnectedMsg]
        typed [OF _ NetworkInfo_wire.dispatch_typed_cases, where C = SyncNetworkMsg]
        typed [OF _ NetworkInfo_wire.dispatch_typed_cases, where C = ScanReplyMsg]
        typed [OF _ DisconnectMessage_wire.dispatch_typed_cases, where C = DisconnectMsg]
        typed [OF _ PingMessage_wire.dispatch_typed_cases, where C = PingMsg]
        typed [OF _ NetworkErrorMessage_wire.dispatch_typed_cases, where C = NetworkErrorMsg]
        typed [OF _ ProxyConfig_wire.dispatch_typed_cases, where C = ProxyConfigMsg]
        typed [OF _ ProxyConnectRequest_wire.dispatch_typed_cases, where C = ProxyConnectMsg]
        typed [OF _ ProxyConnectResponse_wire.dispatch_typed_cases, where C = ProxyConnectReplyMsg]
        typed [OF _ ProxyDisconnectMessage_wire.dispatch_typed_cases, where C = ProxyDisconnectMsg]
        typed [OF _ RejectRequest_wire.dispatch_typed_cases, where C = RejectMsg]
        typed [OF _ SetAcceptPolicyRequest_wire.dispatch_typed_cases, where C = SetAcceptPolicyMsg]
        del: One_nat_def)
qed

text \<open>
  The dispatcher is exact. A packet that carries a well-formed message, with or without trailing
  bytes, runs the one handler registered for its type, on that message and nothing else; a packet that
  carries none (unknown type, payload shorter than its structure, proxy data shorter than announced)
  changes nothing.
\<close>

theorem dispatch_exact:
  "(carries header data m \<longrightarrow> dispatch d header data w = handle_message d header m w)
    \<and> ((\<nexists>m. carries header data m) \<longrightarrow> dispatch d header data w = w)"
  using dispatch_carried dispatch_uncarried by metis

text \<open>A ping with a trailing byte runs the ping handler; a ping of one byte runs nothing.\<close>

definition sample_dispatcher :: "PingMessage list PacketDispatcher" where
  "sample_dispatcher = set_ping_handler pd_new (Some (\<lambda>header m w. m # w))"

theorem dispatch_exact_witness:
  "dispatch sample_dispatcher (make_header PacketId.Ping 3) [0, 7, 9] [] = [\<lparr>ping_requester = 0, ping_id = 7\<rparr>]
    \<and> dispatch sample_dispatcher (make_header PacketId.Ping 1) [0] [] = []"
proof
  have bytes: "PingMessage_to_bytes \<lparr>ping_requester = 0, ping_id = 7\<rparr> = [0, 7]"
    by code_simp
  have "carries (make_header PacketId.Ping 3) [0, 7, 9] (PingMsg \<lparr>ping_requester = 0, ping_id = 7\<rparr>)"
    by (simp add: carries_def make_header_def bytes)
  then show "dispatch sample_dispatcher (make_header PacketId.Ping 3) [0, 7, 9] [] = [\<lparr>ping_requester = 0, ping_id = 7\<rparr>]"
    using dispatch_exact [of "make_header PacketId.Ping 3" "[0, 7, 9]" "PingMsg \<lparr>ping_requester = 0, ping_id = 7\<rparr>"
        sample_dispatcher "[]"]
    by (simp add: sample_dispatcher_def set_ping_handler_def run_handler_def)
next
  have "\<not> carries (make_header PacketId.Ping 1) [0] m" for m
    by (cases m) (auto simp: carries_def make_header_def dest: arg_cong [of _ _ length] simp: wire_len)
  then show "dispatch sample_dispatcher (make_header PacketId.Ping 1) [0] [] = []"
    using dispatch_exact [of "make_header PacketId.Ping 1" "[0]" _ sample_dispatcher "[]"] by blast
qed

end
