(* ===== verification/Ldn_Handlers.thy ===== *)
theory Ldn_Handlers
  imports Packet_Dispatcher
begin

text \<open>
  The consumers of dispatched packets: the session handler of \<^verbatim>\<open>ldn/ldn_session_handler.hpp\<close> and \<^verbatim>\<open>.cpp\<close>
  and the proxy handler of \<^verbatim>\<open>ldn/ldn_proxy_handler.hpp\<close> and \<^verbatim>\<open>.cpp\<close>. Callbacks are flags that say
  whether they are registered; the calls they receive are recorded in order. The unused header
  argument of the handler methods is left out. \<^verbatim>\<open>int8_t\<close> numbers are bytes, so \<open>-1\<close> is \<open>0xFF\<close>.
\<close>

subsection \<open>Session handler\<close>

datatype LdnSessionState =
  SessionNone | Initialized | Station | StationConnected | AccessPoint | AccessPointCreated | SessionError

datatype session_call =
    StateChanged LdnSessionState LdnSessionState
  | NetworkUpdated NetworkInfo
  | ScanResult NetworkInfo
  | ScanCompleted
  | Disconnected u32
  | ErrorReported u32
  | Rejected u32 u32
  | AcceptPolicyChanged u8

record LdnSessionHandler =
  sh_state :: LdnSessionState
  sh_is_host :: bool
  sh_local_node_id :: u8
  sh_last_ping_id :: u8
  sh_session_id :: SessionId
  sh_mac_address :: MacAddress
  sh_network_info :: NetworkInfo
  sh_accept_policy :: u8
  sh_state_callback :: bool
  sh_network_updated_callback :: bool
  sh_scan_result_callback :: bool
  sh_scan_completed_callback :: bool
  sh_disconnected_callback :: bool
  sh_error_callback :: bool
  sh_rejected_callback :: bool
  sh_accept_policy_changed_callback :: bool
  sh_calls :: "session_call list"

definition zero_network_info :: NetworkInfo where "zero_network_info = NetworkInfo_of_bytes (replicate 1152 0)"

definition sh_new :: LdnSessionHandler where
  "sh_new = \<lparr>sh_state = SessionNone, sh_is_host = False, sh_local_node_id = 0xFF, sh_last_ping_id = 0,
     sh_session_id = SessionId_of_bytes (replicate 16 0), sh_mac_address = MacAddress_of_bytes (replicate 6 0),
     sh_network_info = zero_network_info, sh_accept_policy = 0, sh_state_callback = False,
     sh_network_updated_callback = False, sh_scan_result_callback = False, sh_scan_completed_callback = False,
     sh_disconnected_callback = False, sh_error_callback = False, sh_rejected_callback = False,
     sh_accept_policy_changed_callback = False, sh_calls = []\<rparr>"

definition sh_call :: "bool \<Rightarrow> session_call \<Rightarrow> LdnSessionHandler \<Rightarrow> LdnSessionHandler" where
  "sh_call registered c s = (if registered then s\<lparr>sh_calls := sh_calls s @ [c]\<rparr> else s)"

definition sh_set_state_callback :: "LdnSessionHandler \<Rightarrow> bool \<Rightarrow> LdnSessionHandler" where
  "sh_set_state_callback s callback = s\<lparr>sh_state_callback := callback\<rparr>"

definition sh_set_network_updated_callback :: "LdnSessionHandler \<Rightarrow> bool \<Rightarrow> LdnSessionHandler" where
  "sh_set_network_updated_callback s callback = s\<lparr>sh_network_updated_callback := callback\<rparr>"

definition sh_set_scan_result_callback :: "LdnSessionHandler \<Rightarrow> bool \<Rightarrow> LdnSessionHandler" where
  "sh_set_scan_result_callback s callback = s\<lparr>sh_scan_result_callback := callback\<rparr>"

definition sh_set_scan_completed_callback :: "LdnSessionHandler \<Rightarrow> bool \<Rightarrow> LdnSessionHandler" where
  "sh_set_scan_completed_callback s callback = s\<lparr>sh_scan_completed_callback := callback\<rparr>"

definition sh_set_disconnected_callback :: "LdnSessionHandler \<Rightarrow> bool \<Rightarrow> LdnSessionHandler" where
  "sh_set_disconnected_callback s callback = s\<lparr>sh_disconnected_callback := callback\<rparr>"

definition sh_set_error_callback :: "LdnSessionHandler \<Rightarrow> bool \<Rightarrow> LdnSessionHandler" where
  "sh_set_error_callback s callback = s\<lparr>sh_error_callback := callback\<rparr>"

definition sh_set_rejected_callback :: "LdnSessionHandler \<Rightarrow> bool \<Rightarrow> LdnSessionHandler" where
  "sh_set_rejected_callback s callback = s\<lparr>sh_rejected_callback := callback\<rparr>"

definition sh_set_accept_policy_changed_callback :: "LdnSessionHandler \<Rightarrow> bool \<Rightarrow> LdnSessionHandler" where
  "sh_set_accept_policy_changed_callback s callback = s\<lparr>sh_accept_policy_changed_callback := callback\<rparr>"

definition sh_set_state :: "LdnSessionState \<Rightarrow> LdnSessionHandler \<Rightarrow> LdnSessionHandler" where
  "sh_set_state new_state s =
     (if sh_state s = new_state then s
      else sh_call (sh_state_callback s) (StateChanged (sh_state s) new_state) (s\<lparr>sh_state := new_state\<rparr>))"

definition sh_is_in_session :: "LdnSessionHandler \<Rightarrow> bool" where
  "sh_is_in_session s \<longleftrightarrow>
     sh_state s = Station \<or> sh_state s = StationConnected \<or> sh_state s = AccessPoint \<or> sh_state s = AccessPointCreated"

definition sh_get_node_count :: "LdnSessionHandler \<Rightarrow> u8" where
  "sh_get_node_count s = (if \<not> sh_is_in_session s then 0 else ldn_node_count (nwi_ldn (sh_network_info s)))"

definition sh_get_max_nodes :: "LdnSessionHandler \<Rightarrow> u8" where
  "sh_get_max_nodes s = (if \<not> sh_is_in_session s then 0 else ldn_node_count_max (nwi_ldn (sh_network_info s)))"

definition sh_set_local_node_id :: "LdnSessionHandler \<Rightarrow> u8 \<Rightarrow> LdnSessionHandler" where
  "sh_set_local_node_id s node_id =
     (let s = s\<lparr>sh_local_node_id := node_id\<rparr>
      in if node_id = 0 \<and> sh_is_in_session s then s\<lparr>sh_is_host := True\<rparr> else s)"

definition sh_leave_session :: "LdnSessionHandler \<Rightarrow> LdnSessionHandler" where
  "sh_leave_session s =
     (if \<not> sh_is_in_session s \<and> sh_state s \<noteq> Initialized then s
      else sh_set_state Initialized
        (s\<lparr>sh_is_host := False, sh_local_node_id := 0xFF, sh_network_info := zero_network_info\<rparr>))"

definition sh_reset :: "LdnSessionHandler \<Rightarrow> LdnSessionHandler" where
  "sh_reset s = s\<lparr>sh_state := SessionNone, sh_is_host := False, sh_local_node_id := 0xFF, sh_last_ping_id := 0,
     sh_accept_policy := 0, sh_session_id := SessionId_of_bytes (replicate 16 0),
     sh_mac_address := MacAddress_of_bytes (replicate 6 0), sh_network_info := zero_network_info\<rparr>"

definition sh_handle_initialize :: "LdnSessionHandler \<Rightarrow> InitializeMessage \<Rightarrow> LdnSessionHandler" where
  "sh_handle_initialize s msg =
     sh_set_state Initialized (s\<lparr>sh_session_id := init_id msg, sh_mac_address := init_mac_address msg\<rparr>)"

definition sh_notify_network :: "LdnSessionHandler \<Rightarrow> LdnSessionHandler" where
  "sh_notify_network s = sh_call (sh_network_updated_callback s) (NetworkUpdated (sh_network_info s)) s"

definition sh_handle_connected :: "LdnSessionHandler \<Rightarrow> NetworkInfo \<Rightarrow> LdnSessionHandler" where
  "sh_handle_connected s info =
     sh_notify_network (sh_set_state Station (s\<lparr>sh_network_info := info, sh_is_host := False\<rparr>))"

definition sh_handle_sync_network :: "LdnSessionHandler \<Rightarrow> NetworkInfo \<Rightarrow> LdnSessionHandler" where
  "sh_handle_sync_network s info =
     (let s = s\<lparr>sh_network_info := info\<rparr>;
          s = (if sh_local_node_id s = 0
               then (let s = s\<lparr>sh_is_host := True\<rparr>
                     in if sh_state s = Initialized then sh_set_state AccessPoint s else s)
               else s);
          s = (if sh_state s = Initialized \<and> sh_is_host s then sh_set_state AccessPoint s else s)
      in sh_notify_network s)"

definition sh_handle_scan_reply :: "LdnSessionHandler \<Rightarrow> NetworkInfo \<Rightarrow> LdnSessionHandler" where
  "sh_handle_scan_reply s info = sh_call (sh_scan_result_callback s) (ScanResult info) s"

definition sh_handle_scan_reply_end :: "LdnSessionHandler \<Rightarrow> LdnSessionHandler" where
  "sh_handle_scan_reply_end s = sh_call (sh_scan_completed_callback s) ScanCompleted s"

definition sh_handle_ping :: "LdnSessionHandler \<Rightarrow> PingMessage \<Rightarrow> bool \<times> LdnSessionHandler" where
  "sh_handle_ping s msg = (ping_requester msg = 0, s\<lparr>sh_last_ping_id := ping_id msg\<rparr>)"

definition sh_handle_disconnect :: "LdnSessionHandler \<Rightarrow> DisconnectMessage \<Rightarrow> LdnSessionHandler" where
  "sh_handle_disconnect s msg = sh_call (sh_disconnected_callback s) (Disconnected (disc_disconnect_ip msg)) s"

definition sh_handle_network_error :: "LdnSessionHandler \<Rightarrow> NetworkErrorMessage \<Rightarrow> LdnSessionHandler" where
  "sh_handle_network_error s msg = sh_call (sh_error_callback s) (ErrorReported (nerr_error_code msg)) s"

definition sh_handle_reject :: "LdnSessionHandler \<Rightarrow> RejectRequest \<Rightarrow> LdnSessionHandler" where
  "sh_handle_reject s req =
     (let s = sh_call (sh_rejected_callback s) (Rejected (rejr_node_id req) (rejr_disconnect_reason req)) s
      in if (ucast (rejr_node_id req) :: u8) = sh_local_node_id s then sh_leave_session s else s)"

definition sh_handle_reject_reply :: "LdnSessionHandler \<Rightarrow> LdnSessionHandler" where
  "sh_handle_reject_reply s = s"

definition sh_handle_set_accept_policy :: "LdnSessionHandler \<Rightarrow> SetAcceptPolicyRequest \<Rightarrow> LdnSessionHandler" where
  "sh_handle_set_accept_policy s req =
     (let s = s\<lparr>sh_accept_policy := sapr_accept_policy req\<rparr>
      in sh_call (sh_accept_policy_changed_callback s) (AcceptPolicyChanged (sh_accept_policy s)) s)"

subsection \<open>Proxy handler\<close>

record ProxyConnection =
  conn_source_ipv4 :: u32
  conn_source_port :: u16
  conn_dest_ipv4 :: u32
  conn_dest_port :: u16
  conn_protocol :: u32

definition conn_matches :: "ProxyConnection \<Rightarrow> u32 \<Rightarrow> u16 \<Rightarrow> u32 \<Rightarrow> u16 \<Rightarrow> u32 \<Rightarrow> bool" where
  "conn_matches c src_ip src_port dst_ip dst_port proto \<longleftrightarrow>
     conn_source_ipv4 c = src_ip \<and> conn_source_port c = src_port \<and> conn_dest_ipv4 c = dst_ip
       \<and> conn_dest_port c = dst_port \<and> conn_protocol c = proto"

definition conn_matches_info :: "ProxyConnection \<Rightarrow> ProxyInfo \<Rightarrow> bool" where
  "conn_matches_info c info =
     conn_matches c (pinfo_source_ipv4 info) (pinfo_source_port info) (pinfo_dest_ipv4 info) (pinfo_dest_port info)
       (pinfo_protocol info)"

datatype proxy_call =
    ConfigReceived ProxyConfig
  | ConnectRequested ProxyInfo
  | ConnectReplied ProxyInfo
  | DataReceived ProxyInfo "byte list"
  | ConnectionClosed ProxyInfo u32

record LdnProxyHandler =
  ph_configured :: bool
  ph_proxy_ip :: u32
  ph_proxy_subnet_mask :: u32
  ph_connections :: "ProxyConnection list"
  ph_config_callback :: bool
  ph_connect_callback :: bool
  ph_connect_reply_callback :: bool
  ph_data_callback :: bool
  ph_disconnect_callback :: bool
  ph_calls :: "proxy_call list"

definition ph_new :: LdnProxyHandler where
  "ph_new = \<lparr>ph_configured = False, ph_proxy_ip = 0, ph_proxy_subnet_mask = 0, ph_connections = [],
     ph_config_callback = False, ph_connect_callback = False, ph_connect_reply_callback = False,
     ph_data_callback = False, ph_disconnect_callback = False, ph_calls = []\<rparr>"

definition ph_call :: "bool \<Rightarrow> proxy_call \<Rightarrow> LdnProxyHandler \<Rightarrow> LdnProxyHandler" where
  "ph_call registered c p = (if registered then p\<lparr>ph_calls := ph_calls p @ [c]\<rparr> else p)"

definition ph_set_config_callback :: "LdnProxyHandler \<Rightarrow> bool \<Rightarrow> LdnProxyHandler" where
  "ph_set_config_callback p callback = p\<lparr>ph_config_callback := callback\<rparr>"

definition ph_set_connect_callback :: "LdnProxyHandler \<Rightarrow> bool \<Rightarrow> LdnProxyHandler" where
  "ph_set_connect_callback p callback = p\<lparr>ph_connect_callback := callback\<rparr>"

definition ph_set_connect_reply_callback :: "LdnProxyHandler \<Rightarrow> bool \<Rightarrow> LdnProxyHandler" where
  "ph_set_connect_reply_callback p callback = p\<lparr>ph_connect_reply_callback := callback\<rparr>"

definition ph_set_data_callback :: "LdnProxyHandler \<Rightarrow> bool \<Rightarrow> LdnProxyHandler" where
  "ph_set_data_callback p callback = p\<lparr>ph_data_callback := callback\<rparr>"

definition ph_set_disconnect_callback :: "LdnProxyHandler \<Rightarrow> bool \<Rightarrow> LdnProxyHandler" where
  "ph_set_disconnect_callback p callback = p\<lparr>ph_disconnect_callback := callback\<rparr>"

definition ph_add_connection :: "ProxyInfo \<Rightarrow> LdnProxyHandler \<Rightarrow> LdnProxyHandler" where
  "ph_add_connection info p = p\<lparr>ph_connections := ph_connections p @
     [\<lparr>conn_source_ipv4 = pinfo_source_ipv4 info, conn_source_port = pinfo_source_port info,
       conn_dest_ipv4 = pinfo_dest_ipv4 info, conn_dest_port = pinfo_dest_port info,
       conn_protocol = pinfo_protocol info\<rparr>]\<rparr>"

definition ph_remove_connection :: "ProxyInfo \<Rightarrow> LdnProxyHandler \<Rightarrow> LdnProxyHandler" where
  "ph_remove_connection info p =
     p\<lparr>ph_connections := List.filter (\<lambda>conn. \<not> conn_matches_info conn info) (ph_connections p)\<rparr>"

definition ph_has_connection :: "LdnProxyHandler \<Rightarrow> u32 \<Rightarrow> u16 \<Rightarrow> u32 \<Rightarrow> u16 \<Rightarrow> u32 \<Rightarrow> bool" where
  "ph_has_connection p src_ip src_port dest_ip dest_port proto \<longleftrightarrow>
     list_ex (\<lambda>conn. conn_matches conn src_ip src_port dest_ip dest_port proto) (ph_connections p)"

definition ph_get_connection_count :: "LdnProxyHandler \<Rightarrow> nat" where
  "ph_get_connection_count p = length (ph_connections p)"

definition ph_reset :: "LdnProxyHandler \<Rightarrow> LdnProxyHandler" where
  "ph_reset p = p\<lparr>ph_configured := False, ph_proxy_ip := 0, ph_proxy_subnet_mask := 0, ph_connections := []\<rparr>"

definition ph_handle_proxy_config :: "LdnProxyHandler \<Rightarrow> ProxyConfig \<Rightarrow> LdnProxyHandler" where
  "ph_handle_proxy_config p config =
     (let p = p\<lparr>ph_proxy_ip := pcfg_proxy_ip config, ph_proxy_subnet_mask := pcfg_proxy_subnet_mask config,
        ph_configured := True\<rparr>
      in ph_call (ph_config_callback p) (ConfigReceived config) p)"

definition ph_handle_proxy_connect :: "LdnProxyHandler \<Rightarrow> ProxyConnectRequest \<Rightarrow> LdnProxyHandler" where
  "ph_handle_proxy_connect p req =
     (let p = ph_add_connection (pcreq_info req) p
      in ph_call (ph_connect_callback p) (ConnectRequested (pcreq_info req)) p)"

definition ph_handle_proxy_connect_reply :: "LdnProxyHandler \<Rightarrow> ProxyConnectResponse \<Rightarrow> LdnProxyHandler" where
  "ph_handle_proxy_connect_reply p resp = ph_call (ph_connect_reply_callback p) (ConnectReplied (pcres_info resp)) p"

definition ph_handle_proxy_data :: "LdnProxyHandler \<Rightarrow> ProxyDataHeader \<Rightarrow> byte list \<Rightarrow> LdnProxyHandler" where
  "ph_handle_proxy_data p data_header payload =
     ph_call (ph_data_callback p) (DataReceived (pdh_info data_header) payload) p"

definition ph_handle_proxy_disconnect :: "LdnProxyHandler \<Rightarrow> ProxyDisconnectMessage \<Rightarrow> LdnProxyHandler" where
  "ph_handle_proxy_disconnect p msg =
     (let p = ph_remove_connection (pdisc_info msg) p
      in ph_call (ph_disconnect_callback p) (ConnectionClosed (pdisc_info msg) (pdisc_disconnect_reason msg)) p)"

subsection \<open>Wiring\<close>

text \<open>
  The wiring the two headers document: every packet type goes to its handler method. The answer of
  \<^verbatim>\<open>handle_ping\<close>, whether an echo is due, is for the sender and has no effect on the handlers.
\<close>

type_synonym handlers = "LdnSessionHandler \<times> LdnProxyHandler"

definition on_session :: "(LdnSessionHandler \<Rightarrow> LdnSessionHandler) \<Rightarrow> handlers \<Rightarrow> handlers" where
  "on_session f w = (f (fst w), snd w)"

definition on_proxy :: "(LdnProxyHandler \<Rightarrow> LdnProxyHandler) \<Rightarrow> handlers \<Rightarrow> handlers" where
  "on_proxy f w = (fst w, f (snd w))"

definition handler_dispatcher :: "handlers PacketDispatcher" where
  "handler_dispatcher =
     \<lparr>pd_initialize_handler = Some (\<lambda>h m. on_session (\<lambda>s. sh_handle_initialize s m)),
      pd_connected_handler = Some (\<lambda>h m. on_session (\<lambda>s. sh_handle_connected s m)),
      pd_sync_network_handler = Some (\<lambda>h m. on_session (\<lambda>s. sh_handle_sync_network s m)),
      pd_scan_reply_handler = Some (\<lambda>h m. on_session (\<lambda>s. sh_handle_scan_reply s m)),
      pd_scan_reply_end_handler = Some (\<lambda>h. on_session sh_handle_scan_reply_end),
      pd_disconnect_handler = Some (\<lambda>h m. on_session (\<lambda>s. sh_handle_disconnect s m)),
      pd_ping_handler = Some (\<lambda>h m. on_session (\<lambda>s. snd (sh_handle_ping s m))),
      pd_network_error_handler = Some (\<lambda>h m. on_session (\<lambda>s. sh_handle_network_error s m)),
      pd_proxy_config_handler = Some (\<lambda>h m. on_proxy (\<lambda>p. ph_handle_proxy_config p m)),
      pd_proxy_connect_handler = Some (\<lambda>h m. on_proxy (\<lambda>p. ph_handle_proxy_connect p m)),
      pd_proxy_connect_reply_handler = Some (\<lambda>h m. on_proxy (\<lambda>p. ph_handle_proxy_connect_reply p m)),
      pd_proxy_data_handler = Some (\<lambda>h m d. on_proxy (\<lambda>p. ph_handle_proxy_data p m d)),
      pd_proxy_disconnect_handler = Some (\<lambda>h m. on_proxy (\<lambda>p. ph_handle_proxy_disconnect p m)),
      pd_reject_handler = Some (\<lambda>h m. on_session (\<lambda>s. sh_handle_reject s m)),
      pd_reject_reply_handler = Some (\<lambda>h. on_session sh_handle_reject_reply),
      pd_accept_policy_handler = Some (\<lambda>h m. on_session (\<lambda>s. sh_handle_set_accept_policy s m))\<rparr>"

text \<open>What happens to the handlers: a packet arrives, or the application sets the node number or leaves.\<close>

datatype handler_input = Received Message | SetLocalNode u8 | Leave

definition input_step :: "handlers \<Rightarrow> handler_input \<Rightarrow> handlers" where
  "input_step w i =
     (case i of
        Received m \<Rightarrow>
          dispatch handler_dispatcher (make_header (message_id m) (word_of_nat (length (message_bytes m)))) (message_bytes m) w
      | SetLocalNode node_id \<Rightarrow> on_session (\<lambda>s. sh_set_local_node_id s node_id) w
      | Leave \<Rightarrow> on_session sh_leave_session w)"

definition wf_input :: "handler_input \<Rightarrow> bool" where
  "wf_input i \<longleftrightarrow> (case i of Received m \<Rightarrow> wf_message m | _ \<Rightarrow> True)"

lemma input_step_received:
  assumes "wf_message m"
  shows "\<exists>header. input_step w (Received m) = handle_message handler_dispatcher header m w"
proof -
  have "carries (make_header (message_id m) (word_of_nat (length (message_bytes m)))) (message_bytes m) m"
    using assms by (simp add: carries_def make_header_def)
  then show ?thesis
    unfolding input_step_def by (auto dest: dispatch_carried [of _ _ _ handler_dispatcher w])
qed

text \<open>The handler method each message runs.\<close>

fun session_method :: "Message \<Rightarrow> LdnSessionHandler \<Rightarrow> LdnSessionHandler" where
  "session_method (InitializeMsg m) s = sh_handle_initialize s m"
| "session_method (ConnectedMsg m) s = sh_handle_connected s m"
| "session_method (SyncNetworkMsg m) s = sh_handle_sync_network s m"
| "session_method (ScanReplyMsg m) s = sh_handle_scan_reply s m"
| "session_method ScanReplyEndMsg s = sh_handle_scan_reply_end s"
| "session_method (DisconnectMsg m) s = sh_handle_disconnect s m"
| "session_method (PingMsg m) s = snd (sh_handle_ping s m)"
| "session_method (NetworkErrorMsg m) s = sh_handle_network_error s m"
| "session_method (RejectMsg m) s = sh_handle_reject s m"
| "session_method RejectReplyMsg s = sh_handle_reject_reply s"
| "session_method (SetAcceptPolicyMsg m) s = sh_handle_set_accept_policy s m"
| "session_method _ s = s"

fun proxy_method :: "Message \<Rightarrow> LdnProxyHandler \<Rightarrow> LdnProxyHandler" where
  "proxy_method (ProxyConfigMsg m) p = ph_handle_proxy_config p m"
| "proxy_method (ProxyConnectMsg m) p = ph_handle_proxy_connect p m"
| "proxy_method (ProxyConnectReplyMsg m) p = ph_handle_proxy_connect_reply p m"
| "proxy_method (ProxyDataMsg m d) p = ph_handle_proxy_data p m d"
| "proxy_method (ProxyDisconnectMsg m) p = ph_handle_proxy_disconnect p m"
| "proxy_method _ p = p"

lemma handle_message_methods:
  "handle_message handler_dispatcher header m w = (session_method m (fst w), proxy_method m (snd w))"
  by (cases m) (simp_all add: handler_dispatcher_def run_handler_def dispatch_empty_def on_session_def on_proxy_def)

fun session_input :: "handler_input \<Rightarrow> LdnSessionHandler \<Rightarrow> LdnSessionHandler" where
  "session_input (Received m) s = session_method m s"
| "session_input (SetLocalNode node_id) s = sh_set_local_node_id s node_id"
| "session_input Leave s = sh_leave_session s"

fun proxy_input :: "handler_input \<Rightarrow> LdnProxyHandler \<Rightarrow> LdnProxyHandler" where
  "proxy_input (Received m) p = proxy_method m p"
| "proxy_input _ p = p"

lemma input_step_methods:
  assumes "wf_input i"
  shows "input_step w i = (session_input i (fst w), proxy_input i (snd w))"
proof (cases i)
  case (Received m)
  then show ?thesis
    using assms input_step_received [of m w] by (auto simp: wf_input_def handle_message_methods)
qed (simp_all add: input_step_def on_session_def)

lemma inputs_methods:
  "list_all wf_input is \<Longrightarrow>
    foldl input_step w is = (fold session_input is (fst w), fold proxy_input is (snd w))"
  by (induction "is" arbitrary: w) (simp_all add: input_step_methods)

text \<open>Both handlers keep an invariant that each input keeps: the induction the properties share.\<close>

locale input_invariant =
  fixes step :: "'i \<Rightarrow> 's \<Rightarrow> 's" and ok :: "'i \<Rightarrow> bool" and spec :: "'i list \<Rightarrow> 's \<Rightarrow> bool"
  assumes spec_step: "spec is s \<Longrightarrow> ok i \<Longrightarrow> spec (is @ [i]) (step i s)"
begin

lemma spec_fold: "spec is s \<Longrightarrow> list_all ok js \<Longrightarrow> spec (is @ js) (fold step js s)"
proof (induction js arbitrary: "is" s)
  case (Cons j js)
  then have "spec (is @ [j]) (step j s)" by (simp add: spec_step)
  with Cons.IH [of "is @ [j]" "step j s"] Cons.prems(2) show ?case by simp
qed simp

end

subsection \<open>The session follows the server\<close>

text \<open>The network descriptions of a run that concern the session.\<close>

fun input_info :: "handler_input \<Rightarrow> NetworkInfo option" where
  "input_info (Received (ConnectedMsg info)) = Some info"
| "input_info (Received (SyncNetworkMsg info)) = Some info"
| "input_info _ = None"

definition infos :: "handler_input list \<Rightarrow> NetworkInfo list" where
  "infos is = List.map_filter input_info is"

lemma infos_snoc [simp]: "infos (is @ [i]) = infos is @ (case input_info i of None \<Rightarrow> [] | Some x \<Rightarrow> [x])"
  by (simp add: infos_def map_filter_def split: option.split)

definition tracks :: "handler_input list \<Rightarrow> LdnSessionHandler \<Rightarrow> bool" where
  "tracks is s \<longleftrightarrow> (sh_is_in_session s \<longrightarrow> infos is \<noteq> [] \<and> sh_network_info s = last (infos is))"

lemma sh_call_fields [simp]:
  "sh_state (sh_call b c s) = sh_state s" "sh_network_info (sh_call b c s) = sh_network_info s"
  "sh_is_host (sh_call b c s) = sh_is_host s" "sh_local_node_id (sh_call b c s) = sh_local_node_id s"
  "sh_state_callback (sh_call b c s) = sh_state_callback s"
  "sh_calls (sh_call b c s) = (if b then sh_calls s @ [c] else sh_calls s)"
  by (simp_all add: sh_call_def)

lemma sh_is_in_session_call [simp]: "sh_is_in_session (sh_call b c s) = sh_is_in_session s"
  by (simp add: sh_is_in_session_def)

lemma sh_set_state_fields [simp]:
  "sh_state (sh_set_state st s) = st" "sh_network_info (sh_set_state st s) = sh_network_info s"
  "sh_is_host (sh_set_state st s) = sh_is_host s" "sh_local_node_id (sh_set_state st s) = sh_local_node_id s"
  "sh_state_callback (sh_set_state st s) = sh_state_callback s"
  by (simp_all add: sh_set_state_def)

lemma not_in_session [simp]: "sh_state s = Initialized \<Longrightarrow> \<not> sh_is_in_session s"
  by (simp add: sh_is_in_session_def)

lemmas session_defs = sh_handle_initialize_def sh_handle_connected_def sh_handle_sync_network_def sh_handle_scan_reply_def
  sh_handle_scan_reply_end_def sh_handle_ping_def sh_handle_disconnect_def sh_handle_network_error_def sh_handle_reject_def
  sh_handle_reject_reply_def sh_handle_set_accept_policy_def sh_notify_network_def sh_set_local_node_id_def sh_leave_session_def

lemma tracks_method: "tracks is s \<Longrightarrow> tracks (is @ [Received m]) (session_method m s)"
  by (cases m) (auto simp: tracks_def session_defs Let_def sh_is_in_session_def)

interpretation tracking: input_invariant session_input "\<lambda>i. True" tracks
proof
  fix "is" s i
  assume t: "tracks is s"
  show "tracks (is @ [i]) (session_input i s)"
  proof (cases i)
    case (Received m)
    then show ?thesis using t by (simp add: tracks_method)
  qed (use t in \<open>auto simp: tracks_def session_defs Let_def sh_is_in_session_def\<close>)
qed

text \<open>Reported state changes, and the edges they may take.\<close>

fun change_of :: "session_call \<Rightarrow> (LdnSessionState \<times> LdnSessionState) option" where
  "change_of (StateChanged a b) = Some (a, b)"
| "change_of _ = None"

definition changes :: "LdnSessionHandler \<Rightarrow> (LdnSessionState \<times> LdnSessionState) list" where
  "changes s = List.map_filter change_of (sh_calls s)"

fun session_edge :: "LdnSessionState \<times> LdnSessionState \<Rightarrow> bool" where
  "session_edge (a, b) \<longleftrightarrow>
     a \<in> {SessionNone, Initialized, Station, AccessPoint} \<and>
     (b = Initialized \<and> a \<noteq> Initialized \<or> b = Station \<and> a \<noteq> Station \<or> b = AccessPoint \<and> a = Initialized)"

fun edge_path :: "LdnSessionState \<Rightarrow> (LdnSessionState \<times> LdnSessionState) list \<Rightarrow> LdnSessionState \<Rightarrow> bool" where
  "edge_path a [] c \<longleftrightarrow> a = c"
| "edge_path a ((x, b) # es) c \<longleftrightarrow> a = x \<and> session_edge (a, b) \<and> edge_path b es c"

lemma edge_path_snoc: "edge_path a (es @ [(x, b)]) c \<longleftrightarrow> edge_path a es x \<and> session_edge (x, b) \<and> b = c"
  by (induction a es x rule: edge_path.induct) auto

definition reports :: "LdnSessionHandler \<Rightarrow> bool" where
  "reports s \<longleftrightarrow> sh_state_callback s \<and> sh_state s \<in> {SessionNone, Initialized, Station, AccessPoint}
     \<and> edge_path SessionNone (changes s) (sh_state s)"

lemma changes_update [simp]:
  "changes (s\<lparr>sh_state := a\<rparr>) = changes s" "changes (s\<lparr>sh_network_info := b\<rparr>) = changes s"
  "changes (s\<lparr>sh_is_host := c\<rparr>) = changes s" "changes (s\<lparr>sh_local_node_id := d\<rparr>) = changes s"
  "changes (s\<lparr>sh_session_id := e\<rparr>) = changes s" "changes (s\<lparr>sh_mac_address := f\<rparr>) = changes s"
  "changes (s\<lparr>sh_last_ping_id := g\<rparr>) = changes s" "changes (s\<lparr>sh_accept_policy := h\<rparr>) = changes s"
  by (simp_all add: changes_def)

lemma changes_call [simp]:
  "changes (sh_call b c s) = changes s @ (if b then (case change_of c of None \<Rightarrow> [] | Some e \<Rightarrow> [e]) else [])"
  by (simp add: changes_def sh_call_def map_filter_def split: option.split)

lemma reports_set_state:
  assumes "reports s" "session_edge (sh_state s, b) \<or> b = sh_state s"
  shows "reports (sh_set_state b s)"
  using assms by (auto simp: reports_def sh_set_state_def edge_path_snoc)

lemma reports_keep:
  "reports (s\<lparr>sh_network_info := b\<rparr>) = reports s" "reports (s\<lparr>sh_is_host := c\<rparr>) = reports s"
  "reports (s\<lparr>sh_local_node_id := d\<rparr>) = reports s" "reports (s\<lparr>sh_session_id := e\<rparr>) = reports s"
  "reports (s\<lparr>sh_mac_address := f\<rparr>) = reports s" "reports (s\<lparr>sh_last_ping_id := g\<rparr>) = reports s"
  "reports (s\<lparr>sh_accept_policy := h\<rparr>) = reports s"
  "change_of c' = None \<Longrightarrow> reports (sh_call k c' s) = reports s"
  by (simp_all add: reports_def)

lemma reports_states: "reports s \<Longrightarrow> sh_state s \<in> {SessionNone, Initialized, Station, AccessPoint}"
  by (simp add: reports_def)

lemma reports_leave: "reports s \<Longrightarrow> reports (sh_leave_session s)"
  unfolding sh_leave_session_def
  by (auto intro!: reports_set_state simp: reports_keep sh_is_in_session_def dest: reports_states)

lemma reports_connected: "reports s \<Longrightarrow> reports (sh_handle_connected s info)"
  unfolding sh_handle_connected_def sh_notify_network_def
  by (auto intro!: reports_set_state simp: reports_keep dest: reports_states)

lemma reports_sync: "reports s \<Longrightarrow> reports (sh_handle_sync_network s info)"
  unfolding sh_handle_sync_network_def sh_notify_network_def Let_def
  by (auto intro!: reports_set_state simp: reports_keep dest: reports_states)

lemma reports_method: "reports s \<Longrightarrow> reports (session_method m s)"
proof (cases m)
  case (InitializeMsg x)
  assume "reports s"
  with InitializeMsg show ?thesis
    by (auto simp: sh_handle_initialize_def intro!: reports_set_state simp: reports_keep dest: reports_states)
qed (auto simp: reports_connected reports_sync sh_handle_scan_reply_def sh_handle_scan_reply_end_def sh_handle_ping_def
      sh_handle_disconnect_def sh_handle_network_error_def sh_handle_reject_def sh_handle_reject_reply_def
      sh_handle_set_accept_policy_def Let_def reports_keep reports_leave)

interpretation reporting: input_invariant session_input "\<lambda>i. True" "\<lambda>is. reports"
proof
  fix "is" s i
  assume r: "reports s"
  show "reports (session_input i s)"
    using r by (cases i) (auto simp: reports_method reports_leave sh_set_local_node_id_def Let_def reports_keep)
qed

subsection \<open>The proxy table follows the server\<close>

text \<open>The abstract table: the set of open connections, and the data received in order.\<close>

fun open_step :: "ProxyInfo set \<Rightarrow> handler_input \<Rightarrow> ProxyInfo set" where
  "open_step C (Received (ProxyConnectMsg m)) = insert (pcreq_info m) C"
| "open_step C (Received (ProxyDisconnectMsg m)) = C - {pdisc_info m}"
| "open_step C _ = C"

fun input_data :: "handler_input \<Rightarrow> (ProxyInfo \<times> byte list) option" where
  "input_data (Received (ProxyDataMsg m d)) = Some (pdh_info m, d)"
| "input_data _ = None"

fun call_data :: "proxy_call \<Rightarrow> (ProxyInfo \<times> byte list) option" where
  "call_data (DataReceived info d) = Some (info, d)"
| "call_data _ = None"

definition conn_key :: "ProxyConnection \<Rightarrow> ProxyInfo" where
  "conn_key c = \<lparr>pinfo_source_ipv4 = conn_source_ipv4 c, pinfo_source_port = conn_source_port c,
     pinfo_dest_ipv4 = conn_dest_ipv4 c, pinfo_dest_port = conn_dest_port c, pinfo_protocol = conn_protocol c\<rparr>"

definition ph_abs :: "LdnProxyHandler \<Rightarrow> ProxyInfo set" where
  "ph_abs p = conn_key ` set (ph_connections p)"

lemma conn_matches_key: "conn_matches_info c info \<longleftrightarrow> conn_key c = info"
  by (cases info) (auto simp: conn_matches_info_def conn_matches_def conn_key_def)

lemma ph_has_connection_abs:
  "ph_has_connection p (pinfo_source_ipv4 info) (pinfo_source_port info) (pinfo_dest_ipv4 info) (pinfo_dest_port info)
     (pinfo_protocol info) \<longleftrightarrow> info \<in> ph_abs p"
  using conn_matches_key
  by (auto simp: ph_has_connection_def list_ex_iff ph_abs_def conn_matches_info_def [symmetric])

lemma ph_call_fields [simp]:
  "ph_connections (ph_call b c p) = ph_connections p" "ph_data_callback (ph_call b c p) = ph_data_callback p"
  "ph_calls (ph_call b c p) = (if b then ph_calls p @ [c] else ph_calls p)" "ph_abs (ph_call b c p) = ph_abs p"
  by (simp_all add: ph_call_def ph_abs_def)

lemma ph_abs_config [simp]:
  "ph_abs (p\<lparr>ph_proxy_ip := ip, ph_proxy_subnet_mask := subnet, ph_configured := b\<rparr>) = ph_abs p"
  by (simp add: ph_abs_def)

lemma ph_add_connection_fields [simp]:
  "ph_abs (ph_add_connection info p) = insert info (ph_abs p)" "ph_calls (ph_add_connection info p) = ph_calls p"
  "ph_data_callback (ph_add_connection info p) = ph_data_callback p"
  by (cases info; simp add: ph_abs_def ph_add_connection_def conn_key_def)+

lemma ph_remove_connection_fields [simp]:
  "ph_abs (ph_remove_connection info p) = ph_abs p - {info}" "ph_calls (ph_remove_connection info p) = ph_calls p"
  "ph_data_callback (ph_remove_connection info p) = ph_data_callback p"
  by (auto simp: ph_abs_def ph_remove_connection_def conn_matches_key)

definition relays :: "handler_input list \<Rightarrow> LdnProxyHandler \<Rightarrow> bool" where
  "relays is p \<longleftrightarrow> ph_data_callback p \<and> ph_abs p = foldl open_step {} is
     \<and> List.map_filter call_data (ph_calls p) = List.map_filter input_data is"

lemma relays_method: "relays is p \<Longrightarrow> relays (is @ [Received m]) (proxy_method m p)"
  by (cases m) (auto simp: relays_def map_filter_def ph_handle_proxy_config_def ph_handle_proxy_connect_def
      ph_handle_proxy_connect_reply_def ph_handle_proxy_data_def ph_handle_proxy_disconnect_def Let_def)

interpretation relaying: input_invariant proxy_input "\<lambda>i. True" relays
proof
  fix "is" p i
  assume r: "relays is p"
  show "relays (is @ [i]) (proxy_input i p)"
    using r by (cases i) (simp_all add: relays_method, simp_all add: relays_def map_filter_def)
qed

subsection \<open>Properties\<close>

text \<open>
  The session the handlers keep is the one the server described. After any sequence of well-formed
  packets given to the dispatcher and of application calls, a handler that is in a session holds the
  description of the last Connected or SyncNetwork packet, and reports its node count and maximum; out
  of a session both are zero.
\<close>

theorem session_follows_server:
  assumes "list_all wf_input is"
  defines "s \<equiv> fst (foldl input_step (sh_new, ph_new) is)"
  shows "if sh_is_in_session s
    then infos is \<noteq> [] \<and> sh_network_info s = last (infos is)
      \<and> sh_get_node_count s = ldn_node_count (nwi_ldn (last (infos is)))
      \<and> sh_get_max_nodes s = ldn_node_count_max (nwi_ldn (last (infos is)))
    else sh_get_node_count s = 0 \<and> sh_get_max_nodes s = 0"
proof -
  have "tracks [] sh_new" by (simp add: tracks_def sh_is_in_session_def sh_new_def)
  then have "tracks is s"
    using tracking.spec_fold [of "[]" sh_new "is"] assms by (simp add: inputs_methods list_all_iff)
  then show ?thesis by (auto simp: tracks_def sh_get_node_count_def sh_get_max_nodes_def)
qed

definition sample_info :: NetworkInfo where "sample_info = NetworkInfo_of_bytes (replicate 1152 7)"

lemma sample_info_facts [simp]:
  "wf_NetworkInfo sample_info" "ldn_node_count (nwi_ldn sample_info) = 7"
proof -
  show "wf_NetworkInfo sample_info" by (simp add: sample_info_def wire_wf)
  have "get8 [7] = (7 :: u8)" by code_simp
  then show "ldn_node_count (nwi_ldn sample_info) = 7"
    by (simp add: sample_info_def NetworkInfo_of_bytes_def LdnNetworkInfo_of_bytes_def slice_def)
qed

theorem session_follows_server_witness:
  "sh_get_node_count (fst (foldl input_step (sh_new, ph_new) [Received ScanReplyEndMsg, Received (ConnectedMsg sample_info)])) = 7"
proof -
  let ?is = "[Received ScanReplyEndMsg, Received (ConnectedMsg sample_info)]"
  have wf: "list_all wf_input ?is" by (simp add: wf_input_def)
  have "sh_is_in_session (fst (foldl input_step (sh_new, ph_new) ?is))"
    by (simp only: inputs_methods [OF wf]) (simp add: session_defs sh_is_in_session_def)
  with session_follows_server [OF wf] show ?thesis by (simp add: infos_def map_filter_def)
qed

text \<open>
  Every change of the session state is reported, in order: with the state callback registered, the
  reported pairs form a path from the initial state to the present one, along the edges to
  Initialized, to Station, and from Initialized to AccessPoint. The states StationConnected,
  AccessPointCreated and Error are never entered, whatever the server sends.
\<close>

theorem session_changes_reported:
  assumes "list_all wf_input is"
  defines "s \<equiv> fst (foldl input_step (sh_set_state_callback sh_new True, ph_new) is)"
  shows "edge_path SessionNone (changes s) (sh_state s) \<and> sh_state s \<notin> {StationConnected, AccessPointCreated, SessionError}"
proof -
  let ?s = "sh_set_state_callback sh_new True"
  have "reports ?s" by (simp add: reports_def sh_set_state_callback_def sh_new_def changes_def map_filter_def)
  then have "reports s"
    using reporting.spec_fold [of ?s "is"] assms by (simp add: inputs_methods list_all_iff)
  then show ?thesis by (auto simp: reports_def)
qed

theorem session_changes_reported_witness:
  "let s = fst (foldl input_step (sh_set_state_callback sh_new True, ph_new) [Received (ConnectedMsg sample_info), Leave])
   in changes s = [(SessionNone, Station), (Station, Initialized)] \<and> edge_path SessionNone (changes s) (sh_state s)"
proof -
  let ?is = "[Received (ConnectedMsg sample_info), Leave]"
  have wf: "list_all wf_input ?is" by (simp add: wf_input_def)
  have "changes (fst (foldl input_step (sh_set_state_callback sh_new True, ph_new) ?is)) = [(SessionNone, Station), (Station, Initialized)]"
    by (simp only: inputs_methods [OF wf])
      (simp add: session_defs sh_is_in_session_def sh_set_state_def sh_set_state_callback_def sh_new_def changes_def map_filter_def)
  with session_changes_reported [OF wf] show ?thesis by (simp add: Let_def)
qed

text \<open>
  The connection table refines a set of connections. After any sequence of well-formed packets a
  connection is found exactly when a connect packet for it was not followed by a disconnect packet for
  it, and with the data callback registered the application has received exactly the payloads of the
  proxy data packets, each with its connection, in order.
\<close>

theorem proxy_table_refines_set:
  assumes "list_all wf_input is"
  defines "p \<equiv> snd (foldl input_step (sh_new, ph_set_data_callback ph_new True) is)"
  shows "(ph_has_connection p (pinfo_source_ipv4 info) (pinfo_source_port info) (pinfo_dest_ipv4 info)
        (pinfo_dest_port info) (pinfo_protocol info) \<longleftrightarrow> info \<in> foldl open_step {} is)
    \<and> List.map_filter call_data (ph_calls p) = List.map_filter input_data is"
proof -
  let ?p = "ph_set_data_callback ph_new True"
  have "relays [] ?p" by (simp add: relays_def ph_set_data_callback_def ph_new_def ph_abs_def map_filter_def)
  then have "relays is p"
    using relaying.spec_fold [of "[]" ?p "is"] assms by (simp add: inputs_methods list_all_iff)
  then show ?thesis by (simp add: relays_def ph_has_connection_abs)
qed

theorem proxy_table_refines_set_witness:
  "let info = ProxyInfo_of_bytes (replicate 16 1); m = \<lparr>pdh_info = info, pdh_data_length = 2\<rparr>;
     p = snd (foldl input_step (sh_new, ph_set_data_callback ph_new True)
       [Received (ProxyConnectMsg \<lparr>pcreq_info = info\<rparr>), Received (ProxyDataMsg m [5, 6])])
   in ph_has_connection p (pinfo_source_ipv4 info) (pinfo_source_port info) (pinfo_dest_ipv4 info)
        (pinfo_dest_port info) (pinfo_protocol info)
      \<and> List.map_filter call_data (ph_calls p) = [(info, [5, 6])]"
proof -
  let ?info = "ProxyInfo_of_bytes (replicate 16 1)"
  let ?is = "[Received (ProxyConnectMsg \<lparr>pcreq_info = ?info\<rparr>), Received (ProxyDataMsg \<lparr>pdh_info = ?info, pdh_data_length = 2\<rparr> [5, 6])]"
  have wf: "list_all wf_input ?is" by (simp add: wf_input_def)
  show ?thesis using proxy_table_refines_set [OF wf, of ?info] by (simp add: Let_def map_filter_def)
qed


end
