(* ===== verification/Bsd_Mitm.thy ===== *)
theory Bsd_Mitm
  imports Proxy_Socket_Manager Ldn_Config_Service Game_Whitelist "HOL-Library.AList"
begin

text \<open>
  The interception of game sockets, \<^verbatim>\<open>bsd/bsd_mitm_service.hpp\<close> and \<^verbatim>\<open>.cpp\<close>: which sessions are intercepted, the
  table of sockets, and every socket command, which either works on a proxy socket of the manager or
  is forwarded to the console's own service. The maps of the code are association lists. What the real service
  answers, what the server connection answers to a message, the clock, the reply to a blocking
  connect and the uninitialised receive ring of a new socket are the environment of a call. A buffer is the list of its
  bytes, and a buffer that is long enough is not null. The commands of the two poll calls are in another theory.
\<close>

type_synonym Result = u32

record SocketInfo =
  si_type :: SocketType
  si_protocol :: ProtocolType
  si_is_proxy :: bool
  si_broadcast :: bool
  si_session_id :: u32

text \<open>
  A request to the real service: the command, the raw bytes, the buffers in order with their kind (input bytes, or the size of an output),
  the process identifier sent in place of the caller's own, and the handles that are copied.
\<close>

datatype ipc_buffer = InMap "byte list" | OutMap nat | InAuto "byte list" | OutAuto nat

record bsd_request =
  rq_command :: nat
  rq_raw :: "byte list"
  rq_buffers :: "ipc_buffer list"
  rq_pid :: "u64 option"
  rq_handles :: "u32 list"

text \<open>The globals of the service; the last two fields record the forwarded requests, by session, and the messages sent.\<close>

record BsdState =
  bs_socket_info :: "(fd \<times> SocketInfo) list"
  bs_manager :: ProxySocketManager
  bs_mitm_pid_count :: "(u64 \<times> u32) list"
  bs_active_sessions :: "(u64 \<times> u32) list"
  bs_pid_program_ids :: "(u64 \<times> u64) list"
  bs_abandoned :: "(u64 \<times> u32) list"
  bs_next_session_id :: u32
  bs_forwarded :: "(u32 \<times> bsd_request) list"
  bs_sent :: "proxy_out list"

record BsdMitmService =
  ms_client_pid :: u64
  ms_session_id :: u32
  ms_command_count :: u32
  ms_registered :: bool

text \<open>
  The real service's answer: result, errno, second output word, the address length of \<^verbatim>\<open>RecvFrom\<close>, the 64-bit output of a registration,
  output buffers. It may depend on the request.
\<close>

record real_reply =
  rr_rc :: Result
  rr_errno :: u32
  rr_value :: u32
  rr_addrlen :: u32
  rr_pid_out :: u64
  rr_buffers :: "byte list list"

record bsd_env =
  ev_real :: "bsd_request \<Rightarrow> real_reply"
  ev_answer :: "proxy_out \<Rightarrow> bool"
  ev_ring :: "ReceivedPacket list"
  ev_now :: u64
  ev_response :: "ProxyConnectResponse option"

text \<open>
  The answer to the game: result, errno, second output word and output buffers; \<^verbatim>\<open>RecvFrom\<close> answers with the number
  of bytes, the errno and the length of the address, a registration with a 64-bit word. \<open>Waits\<close>: a blocking receive without data; \<open>Hangs\<close>: the call waits for a lock its own caller holds.
\<close>

datatype bsd_reply =
    Reply Result u32 u32 "byte list list"
  | ReplyFrom Result u32 u32 u32 "byte list list"
  | ReplyPid Result u64
  | Waits
  | Hangs

subsection \<open>Sessions\<close>

definition OUR_PROGRAM_ID :: u64 where "OUR_PROGRAM_ID = 0x4200000000000010"

definition count_of :: "(u64 \<times> u32) list \<Rightarrow> u64 \<Rightarrow> u32" where
  "count_of t pid = (case map_of t pid of Some n \<Rightarrow> n | None \<Rightarrow> 0)"

text \<open>The part of \<^verbatim>\<open>ShouldMitm\<close> under the lock: the count of sessions of the process.\<close>

definition count_session :: "BsdState \<Rightarrow> u64 \<Rightarrow> u64 \<Rightarrow> u32 \<times> BsdState" where
  "count_session g pid program_id =
     (let prev_program_id = (case map_of (bs_pid_program_ids g) pid of Some p \<Rightarrow> p | None \<Rightarrow> 0);
          counts = (if prev_program_id \<noteq> 0 \<and> prev_program_id \<noteq> program_id
                    then AList.update pid 0 (bs_mitm_pid_count g) else bs_mitm_pid_count g);
          count = count_of counts pid + 1
      in (count, g\<lparr>bs_pid_program_ids := AList.update pid program_id (bs_pid_program_ids g),
                   bs_mitm_pid_count := AList.update pid count counts\<rparr>))"

definition ShouldMitm :: "BsdState \<Rightarrow> whitelist \<Rightarrow> SharedState \<Rightarrow> u64 \<Rightarrow> u64 \<Rightarrow> bool \<times> BsdState" where
  "ShouldMitm g games shared pid program_id =
     (if program_id = OUR_PROGRAM_ID then (False, g)
      else if program_id < 0x0100000000000000 then (False, g)
      else if program_id = 0x010028600ebda000 then (False, g)
      else let ldn_pid = ss_ldn_pid shared in
        if ldn_pid \<noteq> 0 \<and> ldn_pid \<noteq> pid then (False, g)
        else let is_ldn_active_for_this_pid = (ldn_pid \<noteq> 0 \<and> ldn_pid = pid);
                 is_whitelisted = IsGameInWhitelist games program_id
          in if \<not> is_whitelisted \<and> \<not> is_ldn_active_for_this_pid then (False, g)
             else case count_session g pid program_id of (count, g') \<Rightarrow> (count \<noteq> 1, g'))"

definition bsd_open :: "BsdState \<Rightarrow> u64 \<Rightarrow> BsdMitmService \<times> BsdState" where
  "bsd_open g pid =
     (let session_id = bs_next_session_id g + 1
      in (\<lparr>ms_client_pid = pid, ms_session_id = session_id, ms_command_count = 0, ms_registered = False\<rparr>,
          g\<lparr>bs_next_session_id := session_id,
            bs_active_sessions := AList.update pid (count_of (bs_active_sessions g) pid + 1) (bs_active_sessions g)\<rparr>))"

text \<open>\<^verbatim>\<open>CloseProxySocket\<close> for a list of descriptors.\<close>

fun close_all :: "fd list \<Rightarrow> ProxySocketManager \<Rightarrow> ProxySocketManager locked" where
  "close_all [] m = Done m"
| "close_all (fd # fds) m =
     (case pm_CloseProxySocket m fd of Done (ok, m') \<Rightarrow> close_all fds m' | Deadlock \<Rightarrow> Deadlock)"

definition CleanupAbandonedServices :: "BsdState \<Rightarrow> BsdState" where
  "CleanupAbandonedServices g = g\<lparr>bs_abandoned := []\<rparr>"

definition CleanupAbandonedServicesForPid :: "BsdState \<Rightarrow> u64 \<Rightarrow> BsdState" where
  "CleanupAbandonedServicesForPid g pid = g\<lparr>bs_abandoned := filter (\<lambda>(p, h). p \<noteq> pid) (bs_abandoned g)\<rparr>"

definition bsd_close_session :: "BsdMitmService \<Rightarrow> BsdState \<Rightarrow> BsdState locked" where
  "bsd_close_session se g =
     (let mine = (\<lambda>(fd, i). si_session_id i = ms_session_id se);
          proxy_fds_to_close = map fst (filter (\<lambda>(fd, i). si_session_id i = ms_session_id se \<and> si_is_proxy i) (bs_socket_info g));
          g = g\<lparr>bs_socket_info := filter (\<lambda>x. \<not> mine x) (bs_socket_info g)\<rparr>
      in case close_all proxy_fds_to_close (bs_manager g) of
           Deadlock \<Rightarrow> Deadlock
         | Done m \<Rightarrow>
             let g = g\<lparr>bs_manager := m\<rparr>; pid = ms_client_pid se
             in Done (case map_of (bs_active_sessions g) pid of
                  None \<Rightarrow> g
                | Some n \<Rightarrow>
                    let n = (if n > 0 then n - 1 else n)
                    in if n = 0
                       then CleanupAbandonedServicesForPid
                         (g\<lparr>bs_active_sessions := AList.delete pid (bs_active_sessions g)\<rparr>) pid
                       else g\<lparr>bs_active_sessions := AList.update pid n (bs_active_sessions g)\<rparr>))"

definition ResetProcessMitmState :: "BsdState \<Rightarrow> u64 \<Rightarrow> BsdState locked" where
  "ResetProcessMitmState g pid =
     (let g = g\<lparr>bs_active_sessions := AList.delete pid (bs_active_sessions g),
                bs_mitm_pid_count := AList.delete pid (bs_mitm_pid_count g),
                bs_pid_program_ids := AList.delete pid (bs_pid_program_ids g)\<rparr>;
          proxy_fds_to_close = map fst (filter (\<lambda>(fd, i). si_is_proxy i) (bs_socket_info g));
          g = g\<lparr>bs_socket_info := []\<rparr>
      in case close_all proxy_fds_to_close (bs_manager g) of
           Deadlock \<Rightarrow> Deadlock | Done m \<Rightarrow> Done (g\<lparr>bs_manager := m\<rparr>))"

subsection \<open>Forwarding\<close>

definition count_command :: "BsdMitmService \<Rightarrow> BsdMitmService" where
  "count_command se = se\<lparr>ms_command_count := ms_command_count se + 1\<rparr>"

text \<open>
  The layout of an input struct: its fields in order, each at a multiple of its alignment. The padding is zero, and padding after the last
  field is left off.
\<close>

datatype ipc_arg = S32 u32 | U64 u64 | Packed "byte list"

fun arg_align :: "ipc_arg \<Rightarrow> nat" where
  "arg_align (S32 w) = 4"
| "arg_align (U64 w) = 8"
| "arg_align (Packed bs) = 1"

fun arg_bytes :: "ipc_arg \<Rightarrow> byte list" where
  "arg_bytes (S32 w) = put32 w"
| "arg_bytes (U64 w) = put64 w"
| "arg_bytes (Packed bs) = bs"

fun lay_out :: "nat \<Rightarrow> ipc_arg list \<Rightarrow> byte list" where
  "lay_out offset [] = []"
| "lay_out offset (a # args) =
     (let pad = (arg_align a - offset mod arg_align a) mod arg_align a
      in replicate pad 0 @ arg_bytes a @ lay_out (offset + pad + length (arg_bytes a)) args)"

text \<open>The arguments of a dispatch: the command, the fields of the input struct and the buffers.\<close>

definition ipc_request :: "nat \<Rightarrow> ipc_arg list \<Rightarrow> ipc_buffer list \<Rightarrow> bsd_request" where
  "ipc_request cmd args buffers =
     \<lparr>rq_command = cmd, rq_raw = lay_out 0 args, rq_buffers = buffers, rq_pid = None, rq_handles = []\<rparr>"

definition forward :: "BsdMitmService \<Rightarrow> bsd_request \<Rightarrow> BsdState \<Rightarrow> BsdState" where
  "forward se rq g = g\<lparr>bs_forwarded := bs_forwarded g @ [(ms_session_id se, rq)]\<rparr>"

text \<open>The answer of a command with an errno only, and of one with an errno and a second word.\<close>

definition errno_answer :: "real_reply \<Rightarrow> bsd_reply" where
  "errno_answer r = Reply (rr_rc r) (rr_errno r) 0 (rr_buffers r)"

definition word_answer :: "real_reply \<Rightarrow> bsd_reply" where
  "word_answer r = Reply (rr_rc r) (rr_errno r) (rr_value r) (rr_buffers r)"

definition errno_word :: "BsdErrno \<Rightarrow> u32" where "errno_word e = word_of_int (errno_value e)"

definition ok_reply :: bsd_reply where "ok_reply = Reply 0 0 0 []"

definition error_reply :: "BsdErrno \<Rightarrow> bsd_reply" where "error_reply e = Reply 0 (errno_word e) 0 []"

text \<open>A dispatch to the real service: the request is recorded, and the game gets the real service's answer to it.\<close>

definition bsd_passthrough :: "bsd_request \<Rightarrow> BsdMitmService \<Rightarrow> bsd_env \<Rightarrow> BsdState \<Rightarrow> bsd_reply \<times> BsdState" where
  "bsd_passthrough rq se e g = (word_answer (ev_real e rq), forward se rq g)"

definition bsd_passthrough_errno :: "bsd_request \<Rightarrow> BsdMitmService \<Rightarrow> bsd_env \<Rightarrow> BsdState \<Rightarrow> bsd_reply \<times> BsdState" where
  "bsd_passthrough_errno rq se e g = (errno_answer (ev_real e rq), forward se rq g)"

text \<open>The commands that only forward.\<close>

definition bsd_StartMonitoring :: "BsdMitmService \<Rightarrow> bsd_env \<Rightarrow> u64 \<Rightarrow> BsdState \<Rightarrow> bsd_reply \<times> BsdState" where
  "bsd_StartMonitoring se e pid g = bsd_passthrough_errno (ipc_request 1 [U64 pid] []) se e g"

definition bsd_Open :: "BsdMitmService \<Rightarrow> bsd_env \<Rightarrow> byte list \<Rightarrow> BsdState \<Rightarrow> bsd_reply \<times> BsdState" where
  "bsd_Open se e path g = bsd_passthrough (ipc_request 4 [] [InMap path]) se e g"

definition bsd_Sysctl :: "BsdMitmService \<Rightarrow> bsd_env \<Rightarrow> byte list \<Rightarrow> byte list \<Rightarrow> nat \<Rightarrow> byte list \<Rightarrow> BsdState \<Rightarrow> bsd_reply \<times> BsdState" where
  "bsd_Sysctl se e name old_val_in old_val_out new_val g = bsd_passthrough_errno (ipc_request 7 [] [InMap name, InMap old_val_in, OutMap old_val_out, InMap new_val]) se e g"

definition bsd_Accept :: "BsdMitmService \<Rightarrow> bsd_env \<Rightarrow> fd \<Rightarrow> nat \<Rightarrow> BsdState \<Rightarrow> bsd_reply \<times> BsdState" where
  "bsd_Accept se e fd size_addr g = bsd_passthrough (ipc_request 12 [S32 fd] [OutAuto size_addr]) se e g"

definition bsd_Listen :: "BsdMitmService \<Rightarrow> bsd_env \<Rightarrow> fd \<Rightarrow> u32 \<Rightarrow> BsdState \<Rightarrow> bsd_reply \<times> BsdState" where
  "bsd_Listen se e fd backlog g = bsd_passthrough_errno (ipc_request 18 [S32 fd, S32 backlog] []) se e g"

definition bsd_Shutdown :: "BsdMitmService \<Rightarrow> bsd_env \<Rightarrow> fd \<Rightarrow> u32 \<Rightarrow> BsdState \<Rightarrow> bsd_reply \<times> BsdState" where
  "bsd_Shutdown se e fd how g = bsd_passthrough_errno (ipc_request 22 [S32 fd, S32 how] []) se e g"

definition bsd_ShutdownAllSockets :: "BsdMitmService \<Rightarrow> bsd_env \<Rightarrow> u64 \<Rightarrow> u32 \<Rightarrow> BsdState \<Rightarrow> bsd_reply \<times> BsdState" where
  "bsd_ShutdownAllSockets se e pid how g = bsd_passthrough_errno (ipc_request 23 [U64 pid, S32 how] []) se e g"

definition bsd_DuplicateSocket :: "BsdMitmService \<Rightarrow> bsd_env \<Rightarrow> fd \<Rightarrow> u64 \<Rightarrow> BsdState \<Rightarrow> bsd_reply \<times> BsdState" where
  "bsd_DuplicateSocket se e fd target_pid g = bsd_passthrough (ipc_request 27 [S32 fd, S32 0, U64 target_pid] []) se e g"

definition bsd_GetResourceStatistics :: "BsdMitmService \<Rightarrow> bsd_env \<Rightarrow> nat \<Rightarrow> u64 \<Rightarrow> BsdState \<Rightarrow> bsd_reply \<times> BsdState" where
  "bsd_GetResourceStatistics se e size_out pid g = bsd_passthrough_errno (ipc_request 28 [U64 pid] [OutMap size_out]) se e g"

definition bsd_RecvMMsg :: "BsdMitmService \<Rightarrow> bsd_env \<Rightarrow> fd \<Rightarrow> u32 \<Rightarrow> u32 \<Rightarrow> u32 \<Rightarrow> nat \<Rightarrow> BsdState \<Rightarrow> bsd_reply \<times> BsdState" where
  "bsd_RecvMMsg se e fd vlen flags timeout size_out g = bsd_passthrough (ipc_request 29 [S32 fd, S32 vlen, S32 flags, S32 timeout] [OutAuto size_out]) se e g"

definition bsd_SendMMsg :: "BsdMitmService \<Rightarrow> bsd_env \<Rightarrow> fd \<Rightarrow> u32 \<Rightarrow> u32 \<Rightarrow> byte list \<Rightarrow> BsdState \<Rightarrow> bsd_reply \<times> BsdState" where
  "bsd_SendMMsg se e fd vlen flags in_data g = bsd_passthrough (ipc_request 30 [S32 fd, S32 vlen, S32 flags] [InAuto in_data]) se e g"

definition bsd_EventFd :: "BsdMitmService \<Rightarrow> bsd_env \<Rightarrow> u64 \<Rightarrow> u32 \<Rightarrow> BsdState \<Rightarrow> bsd_reply \<times> BsdState" where
  "bsd_EventFd se e initval flags g = bsd_passthrough (ipc_request 31 [U64 initval, S32 flags, S32 0] []) se e g"

definition bsd_RegisterResourceStatisticsName :: "BsdMitmService \<Rightarrow> bsd_env \<Rightarrow> u64 \<Rightarrow> byte list \<Rightarrow> BsdState \<Rightarrow> bsd_reply \<times> BsdState" where
  "bsd_RegisterResourceStatisticsName se e pid name g = bsd_passthrough_errno (ipc_request 32 [U64 pid] [InMap name]) se e g"

text \<open>
  The common body of \<^verbatim>\<open>RegisterClient\<close> (command 0) and \<^verbatim>\<open>RegisterClientShared\<close> (command 33): the configuration, a placeholder and the size of
  the transfer memory, sent under the identifier of the game's process.
\<close>

definition register_request :: "nat \<Rightarrow> u32 list \<Rightarrow> BsdMitmService \<Rightarrow> byte list \<Rightarrow> u64 \<Rightarrow> bsd_request" where
  "register_request cmd handles se config tmem_size =
     (ipc_request cmd [Packed config, U64 0, U64 tmem_size] [])\<lparr>rq_pid := Some (ms_client_pid se), rq_handles := handles\<rparr>"

definition register_session :: "bsd_request \<Rightarrow> BsdMitmService \<Rightarrow> bsd_env \<Rightarrow> BsdState \<Rightarrow> bsd_reply \<times> BsdMitmService \<times> BsdState" where
  "register_session rq se e g =
     (let g = forward se rq g;
          se = (if rr_rc (ev_real e rq) = 0 then se\<lparr>ms_registered := True\<rparr> else se)
      in (ReplyPid (rr_rc (ev_real e rq)) (rr_pid_out (ev_real e rq)), se, g))"

definition RegisterClient ::
  "BsdMitmService \<Rightarrow> bsd_env \<Rightarrow> byte list \<Rightarrow> u64 \<Rightarrow> u32 \<Rightarrow> BsdState \<Rightarrow> bsd_reply \<times> BsdMitmService \<times> BsdState" where
  "RegisterClient se e config tmem_size tmem_handle g = register_session (register_request 0 [tmem_handle] se config tmem_size) se e g"

definition RegisterClientShared ::
  "BsdMitmService \<Rightarrow> bsd_env \<Rightarrow> byte list \<Rightarrow> u64 \<Rightarrow> BsdState \<Rightarrow> bsd_reply \<times> BsdMitmService \<times> BsdState" where
  "RegisterClientShared se e config tmem_size g = register_session (register_request 33 [] se config tmem_size) se e g"

subsection \<open>Socket table\<close>

definition socket_protocol :: "u32 \<Rightarrow> u32 \<Rightarrow> ProtocolType" where
  "socket_protocol ty protocol =
     (if protocol = 0
      then if ty = Sock_Stream then Proto_Tcp else if ty = Sock_Dgram then Proto_Udp else protocol
      else protocol)"

text \<open>The common body of \<^verbatim>\<open>Socket\<close> (command 2) and \<^verbatim>\<open>SocketExempt\<close> (command 3).\<close>

definition open_socket :: "nat \<Rightarrow> BsdMitmService \<Rightarrow> bsd_env \<Rightarrow> u32 \<Rightarrow> u32 \<Rightarrow> u32 \<Rightarrow> BsdState \<Rightarrow> bsd_reply \<times> BsdState" where
  "open_socket cmd se e domain ty protocol g =
     (let rq = ipc_request cmd [S32 domain, S32 ty, S32 protocol] []; r = ev_real e rq; g = forward se rq g; fd = rr_value r
      in (word_answer r,
          if rr_rc r = 0 \<and> rr_errno r = 0 \<and> 0 \<le> sint fd
          then g\<lparr>bs_socket_info := AList.update fd
            \<lparr>si_type = ty, si_protocol = socket_protocol ty protocol, si_is_proxy = False, si_broadcast = False,
             si_session_id = ms_session_id se\<rparr> (bs_socket_info g)\<rparr>
          else g))"

definition bsd_Socket :: "BsdMitmService \<Rightarrow> bsd_env \<Rightarrow> u32 \<Rightarrow> u32 \<Rightarrow> u32 \<Rightarrow> BsdState \<Rightarrow> bsd_reply \<times> BsdState" where
  "bsd_Socket = open_socket 2"

definition bsd_SocketExempt :: "BsdMitmService \<Rightarrow> bsd_env \<Rightarrow> u32 \<Rightarrow> u32 \<Rightarrow> u32 \<Rightarrow> BsdState \<Rightarrow> bsd_reply \<times> BsdState" where
  "bsd_SocketExempt = open_socket 3"

definition bsd_Close :: "BsdMitmService \<Rightarrow> bsd_env \<Rightarrow> fd \<Rightarrow> BsdState \<Rightarrow> bsd_reply \<times> BsdState" where
  "bsd_Close se e fd g =
     (case map_of (bs_socket_info g) fd of
        None \<Rightarrow> bsd_passthrough_errno (ipc_request 26 [S32 fd] []) se e g
      | Some i \<Rightarrow>
          (case (if si_is_proxy i then pm_CloseProxySocket (bs_manager g) fd else Done (False, bs_manager g)) of
             Deadlock \<Rightarrow> (Hangs, g)
           | Done (ok, m) \<Rightarrow>
               bsd_passthrough_errno (ipc_request 26 [S32 fd] []) se e
                 (g\<lparr>bs_manager := m, bs_socket_info := AList.delete fd (bs_socket_info g)\<rparr>)))"

definition is_proxy_fd :: "BsdState \<Rightarrow> fd \<Rightarrow> bool" where
  "is_proxy_fd g fd = (case map_of (bs_socket_info g) fd of Some i \<Rightarrow> si_is_proxy i | None \<Rightarrow> False)"

definition mark_proxy :: "fd \<Rightarrow> BsdState \<Rightarrow> BsdState" where
  "mark_proxy fd g =
     (case map_of (bs_socket_info g) fd of
        Some i \<Rightarrow> g\<lparr>bs_socket_info := AList.update fd (i\<lparr>si_is_proxy := True\<rparr>) (bs_socket_info g)\<rparr>
      | None \<Rightarrow> g)"

subsection \<open>Bind\<close>

definition is_ldn :: "SockAddrIn \<Rightarrow> bool" where "is_ldn a = IsLdnAddress (bswap32 (sin_addr a))"

text \<open>The port of a bind: an ephemeral one for port 0, else the port itself, reserved.\<close>

definition bind_port :: "ProxySocketManager \<Rightarrow> ProtocolType \<Rightarrow> SockAddrIn \<Rightarrow> SockAddrIn option \<times> ProxySocketManager" where
  "bind_port m protocol a =
     (if GetPort a = 0
      then (case pm_AllocatePort m protocol of
              (ephemeral, m') \<Rightarrow> if ephemeral = 0 then (None, m') else (Some (a\<lparr>sin_port := bswap16 ephemeral\<rparr>), m'))
      else (case pm_ReservePort m (GetPort a) protocol of (ok, m') \<Rightarrow> if ok then (Some a, m') else (None, m')))"

text \<open>The saved options of the socket, and the address to bind: the local LDN address for any address, if it is known.\<close>

definition bind_options :: "SocketInfo \<Rightarrow> fd \<Rightarrow> ProxySocketManager \<Rightarrow> ProxySocketManager" where
  "bind_options i fd m = (if si_broadcast i then pm_update m fd (\<lambda>s. s\<lparr>ps_broadcast := True\<rparr>) else m)"

definition bind_address :: "ProxySocketManager \<Rightarrow> SockAddrIn \<Rightarrow> SockAddrIn" where
  "bind_address m a = (if sin_addr a = 0 \<and> pm_local_ip m \<noteq> 0 then a\<lparr>sin_addr := bswap32 (pm_local_ip m)\<rparr> else a)"

text \<open>The body of \<^verbatim>\<open>Bind\<close> once the socket is found and the address is one to intercept.\<close>

definition bind_request :: "fd \<Rightarrow> byte list \<Rightarrow> bsd_request" where
  "bind_request fd addr = ipc_request 13 [S32 fd] [InAuto addr]"

definition bind_proxy :: "BsdMitmService \<Rightarrow> bsd_env \<Rightarrow> fd \<Rightarrow> SocketInfo \<Rightarrow> byte list \<Rightarrow> SockAddrIn \<Rightarrow> BsdState \<Rightarrow> bsd_reply \<times> BsdState" where
  "bind_proxy se e fd i addr a g =
     (case pm_CreateProxySocket (bs_manager g) (ev_ring e) fd (si_type i) (si_protocol i) of
        (None, m) \<Rightarrow> (error_reply NoMem, g\<lparr>bs_manager := m\<rparr>)
      | (Some fd', m) \<Rightarrow>
          let m = bind_options i fd m
          in case bind_port m (si_protocol i) (bind_address m a) of
               (None, m) \<Rightarrow> (error_reply AddrInUse, g\<lparr>bs_manager := m\<rparr>)
             | (Some bind_addr, m) \<Rightarrow>
                 (case pm_GetProxySocket m fd of
                    None \<Rightarrow> (error_reply NoMem, g\<lparr>bs_manager := m\<rparr>)
                  | Some s \<Rightarrow>
                      (case ps_Bind s bind_addr of
                         (Inl err, s') \<Rightarrow> (error_reply err, g\<lparr>bs_manager := pm_update m fd (\<lambda>_. s')\<rparr>)
                       | (Inr u, s') \<Rightarrow>
                           let m = pm_update m fd (\<lambda>_. s');
                               g = mark_proxy fd (g\<lparr>bs_manager := m\<rparr>);
                               g = g\<lparr>bs_manager := pm_DeliverPendingPackets (bs_manager g) (ev_now e) fd (GetPort bind_addr) (si_protocol i)\<rparr>
                           in (ok_reply, if sin_addr a = 0 then forward se (bind_request fd addr) g else g))))"

definition bsd_Bind :: "BsdMitmService \<Rightarrow> bsd_env \<Rightarrow> fd \<Rightarrow> byte list \<Rightarrow> BsdState \<Rightarrow> bsd_reply \<times> BsdState" where
  "bsd_Bind se e fd addr g =
     (let a = SockAddrIn_of_bytes (take 16 addr)
      in if length addr \<ge> 16 \<and> sin_family a = AF_Inet \<and> (is_ldn a \<or> sin_addr a = 0)
         then (case map_of (bs_socket_info g) fd of
                 Some i \<Rightarrow> bind_proxy se e fd i addr a g
               | None \<Rightarrow> bsd_passthrough_errno (bind_request fd addr) se e g)
         else bsd_passthrough_errno (bind_request fd addr) se e g)"

subsection \<open>Connect\<close>

text \<open>The automatic bind of \<^verbatim>\<open>Connect\<close> and \<^verbatim>\<open>SendTo\<close>: an ephemeral port on the local address.\<close>

definition auto_addr :: "ProxySocketManager \<Rightarrow> u16 \<Rightarrow> SockAddrIn" where
  "auto_addr m ephemeral =
     \<lparr>sin_len = 16, sin_family = AF_Inet, sin_port = bswap16 ephemeral, sin_addr = bswap32 (pm_local_ip m),
      sin_zero = replicate 8 0\<rparr>"

text \<open>The socket \<^verbatim>\<open>Connect\<close> works on: an error, or the manager with a socket for the descriptor.\<close>

definition connect_socket :: "bsd_env \<Rightarrow> fd \<Rightarrow> SocketInfo \<Rightarrow> ProxySocketManager \<Rightarrow> BsdErrno option \<times> ProxySocketManager" where
  "connect_socket e fd i m =
     (case pm_GetProxySocket m fd of
        Some s \<Rightarrow> (None, m)
      | None \<Rightarrow>
          (case pm_CreateProxySocket m (ev_ring e) fd (si_type i) (si_protocol i) of
             (None, m) \<Rightarrow> (Some NoMem, m)
           | (Some fd', m) \<Rightarrow>
               (case pm_AllocatePort m (si_protocol i) of
                  (ephemeral, m) \<Rightarrow>
                    if ephemeral = 0 then (Some AddrInUse, m)
                    else (case pm_GetProxySocket m fd of
                            None \<Rightarrow> (Some NoMem, m)
                          | Some s \<Rightarrow>
                              (case ps_Bind s (auto_addr m ephemeral) of
                                 (Inl err, s') \<Rightarrow> (Some err, pm_ReleasePort (pm_update m fd (\<lambda>_. s')) ephemeral (si_protocol i))
                               | (Inr u, s') \<Rightarrow> (None, pm_update m fd (\<lambda>_. s')))))))"

definition connect_proxy :: "bsd_env \<Rightarrow> fd \<Rightarrow> SocketInfo \<Rightarrow> SockAddrIn \<Rightarrow> BsdState \<Rightarrow> bsd_reply \<times> BsdState" where
  "connect_proxy e fd i a g =
     (case connect_socket e fd i (bs_manager g) of
        (Some err, m) \<Rightarrow> (error_reply err, g\<lparr>bs_manager := m\<rparr>)
      | (None, m) \<Rightarrow>
          (case pm_GetProxySocket m fd of
             None \<Rightarrow> (error_reply NoMem, g\<lparr>bs_manager := m\<rparr>)
           | Some s \<Rightarrow>
               (case ps_Connect s a (pm_Send m (ev_answer e) (connect_msg s a)) (ev_response e) of
                  (result, out, s') \<Rightarrow>
                    let g = g\<lparr>bs_manager := pm_update m fd (\<lambda>_. s'), bs_sent := bs_sent g @ out\<rparr>
                    in case result of Inl err \<Rightarrow> (error_reply err, g) | Inr u \<Rightarrow> (ok_reply, mark_proxy fd g))))"

definition addr_is_ldn :: "byte list \<Rightarrow> bool" where
  "addr_is_ldn addr \<longleftrightarrow> length addr \<ge> 16 \<and>
     (let a = SockAddrIn_of_bytes (take 16 addr) in sin_family a = AF_Inet \<and> is_ldn a)"

definition bsd_Connect :: "BsdMitmService \<Rightarrow> bsd_env \<Rightarrow> fd \<Rightarrow> byte list \<Rightarrow> BsdState \<Rightarrow> bsd_reply \<times> BsdState" where
  "bsd_Connect se e fd addr g =
     (if addr_is_ldn addr
      then (case map_of (bs_socket_info g) fd of
              Some i \<Rightarrow> connect_proxy e fd i (SockAddrIn_of_bytes (take 16 addr)) g
            | None \<Rightarrow> bsd_passthrough_errno (ipc_request 14 [S32 fd] [InAuto addr]) se e g)
      else bsd_passthrough_errno (ipc_request 14 [S32 fd] [InAuto addr]) se e g)"

subsection \<open>Names\<close>

text \<open>An address written to an output buffer of the given size; nothing is written to a buffer that is too small.\<close>

definition out_addr :: "nat \<Rightarrow> SockAddrIn \<Rightarrow> byte list list" where
  "out_addr size_out a = (if size_out \<ge> 16 then [SockAddrIn_to_bytes a] else [])"

definition bsd_GetPeerName :: "BsdMitmService \<Rightarrow> bsd_env \<Rightarrow> fd \<Rightarrow> nat \<Rightarrow> BsdState \<Rightarrow> bsd_reply \<times> BsdState" where
  "bsd_GetPeerName se e fd size_out g =
     (case pm_GetProxySocket (bs_manager g) fd of
        Some s \<Rightarrow>
          (if ps_state s \<noteq> ProxySocketState.Connected then (error_reply NotConn, g)
           else (Reply 0 0 0 (out_addr size_out (ps_remote_addr s)), g))
      | None \<Rightarrow> bsd_passthrough_errno (ipc_request 15 [S32 fd] [OutAuto size_out]) se e g)"

definition bsd_GetSockName :: "BsdMitmService \<Rightarrow> bsd_env \<Rightarrow> fd \<Rightarrow> nat \<Rightarrow> BsdState \<Rightarrow> bsd_reply \<times> BsdState" where
  "bsd_GetSockName se e fd size_out g =
     (case pm_GetProxySocket (bs_manager g) fd of
        Some s \<Rightarrow> (Reply 0 0 0 (out_addr size_out (ps_local_addr s)), g)
      | None \<Rightarrow> bsd_passthrough_errno (ipc_request 16 [S32 fd] [OutAuto size_out]) se e g)"

subsection \<open>Sending\<close>

definition send_reply :: "BsdErrno + nat \<Rightarrow> bsd_reply" where
  "send_reply r = (case r of Inl err \<Rightarrow> error_reply err | Inr n \<Rightarrow> Reply 0 0 (word_of_nat n) [])"

definition proxy_send_to :: "bsd_env \<Rightarrow> ProxySocket \<Rightarrow> byte list \<Rightarrow> SockAddrIn \<Rightarrow> BsdState \<Rightarrow> bsd_reply \<times> BsdState" where
  "proxy_send_to e s data dest g =
     (case ps_SendTo s (Some data) (length data) dest (pm_Send (bs_manager g) (ev_answer e) (data_msg s dest data)) of
        (r, out) \<Rightarrow> (send_reply r, g\<lparr>bs_sent := bs_sent g @ out\<rparr>))"

definition proxy_send :: "bsd_env \<Rightarrow> ProxySocket \<Rightarrow> byte list \<Rightarrow> BsdState \<Rightarrow> bsd_reply \<times> BsdState" where
  "proxy_send e s data g =
     (case ps_Send s (Some data) (length data)
        (pm_Send (bs_manager g) (ev_answer e) (data_msg s (ps_remote_addr s) data)) of
        (r, out) \<Rightarrow> (send_reply r, g\<lparr>bs_sent := bs_sent g @ out\<rparr>))"

text \<open>The common body of \<^verbatim>\<open>Send\<close> (command 10) and \<^verbatim>\<open>Write\<close> (command 24), which has no flags; the proxy socket ignores them.\<close>

definition send_connected :: "bsd_request \<Rightarrow> BsdMitmService \<Rightarrow> bsd_env \<Rightarrow> fd \<Rightarrow> byte list \<Rightarrow> BsdState \<Rightarrow> bsd_reply \<times> BsdState" where
  "send_connected rq se e fd data g =
     (case (if is_proxy_fd g fd then pm_GetProxySocket (bs_manager g) fd else None) of
        Some s \<Rightarrow> proxy_send e s data g
      | None \<Rightarrow> bsd_passthrough rq se e g)"

definition bsd_Send :: "BsdMitmService \<Rightarrow> bsd_env \<Rightarrow> fd \<Rightarrow> u32 \<Rightarrow> byte list \<Rightarrow> BsdState \<Rightarrow> bsd_reply \<times> BsdState" where
  "bsd_Send se e fd flags data g = send_connected (ipc_request 10 [S32 fd, S32 flags] [InAuto data]) se e fd data g"

definition bsd_Write :: "BsdMitmService \<Rightarrow> bsd_env \<Rightarrow> fd \<Rightarrow> byte list \<Rightarrow> BsdState \<Rightarrow> bsd_reply \<times> BsdState" where
  "bsd_Write se e fd data g = send_connected (ipc_request 24 [S32 fd] [InAuto data]) se e fd data g"

text \<open>A socket that sends to an LDN address becomes a proxy socket; the result is a failure of its automatic bind.\<close>

definition sendto_socket :: "bsd_env \<Rightarrow> fd \<Rightarrow> SocketInfo \<Rightarrow> ProxySocketManager \<Rightarrow> BsdErrno option \<times> ProxySocketManager" where
  "sendto_socket e fd i m =
     (case pm_GetProxySocket m fd of
        Some s \<Rightarrow> (None, m)
      | None \<Rightarrow>
          (case pm_CreateProxySocket m (ev_ring e) fd (si_type i) (si_protocol i) of
             (None, m) \<Rightarrow> (None, m)
           | (Some fd', m) \<Rightarrow>
               (case pm_AllocatePort m (si_protocol i) of
                  (ephemeral, m) \<Rightarrow>
                    if ephemeral = 0 then (None, m)
                    else (case pm_GetProxySocket m fd of
                            None \<Rightarrow> (None, m)
                          | Some s \<Rightarrow>
                              (case ps_Bind s (auto_addr m ephemeral) of
                                 (Inl err, s') \<Rightarrow> (Some err, pm_update m fd (\<lambda>_. s'))
                               | (Inr u, s') \<Rightarrow> (None, pm_update m fd (\<lambda>_. s')))))))"

definition sendto_ldn :: "bsd_env \<Rightarrow> fd \<Rightarrow> BsdState \<Rightarrow> BsdErrno option \<times> BsdState" where
  "sendto_ldn e fd g =
     (case map_of (bs_socket_info g) fd of
        Some i \<Rightarrow>
          (if \<not> si_is_proxy i
           then (case sendto_socket e fd i (bs_manager g) of
                   (Some err, m) \<Rightarrow> (Some err, g\<lparr>bs_manager := m\<rparr>)
                 | (None, m) \<Rightarrow> (None, mark_proxy fd (g\<lparr>bs_manager := m\<rparr>)))
           else (None, g))
      | None \<Rightarrow> (None, g))"

text \<open>The second half of \<^verbatim>\<open>SendTo\<close>, once the socket is known to be a proxy socket or not.\<close>

definition sendto_finish :: "BsdMitmService \<Rightarrow> bsd_env \<Rightarrow> fd \<Rightarrow> u32 \<Rightarrow> byte list \<Rightarrow> byte list \<Rightarrow> bool \<Rightarrow> BsdState \<Rightarrow> bsd_reply \<times> BsdState" where
  "sendto_finish se e fd flags data addr is_proxy g =
     (if is_proxy
      then (case pm_GetProxySocket (bs_manager g) fd of
              Some s \<Rightarrow>
                if length addr \<ge> 16 then proxy_send_to e s data (SockAddrIn_of_bytes (take 16 addr)) g
                else (error_reply NetUnreach, g)
            | None \<Rightarrow> (error_reply NetUnreach, g))
      else bsd_passthrough (ipc_request 11 [S32 fd, S32 flags] [InAuto data, InAuto addr]) se e g)"

definition bsd_SendTo :: "BsdMitmService \<Rightarrow> bsd_env \<Rightarrow> fd \<Rightarrow> u32 \<Rightarrow> byte list \<Rightarrow> byte list \<Rightarrow> BsdState \<Rightarrow> bsd_reply \<times> BsdState" where
  "bsd_SendTo se e fd flags data addr g =
     (if addr_is_ldn addr
      then (case sendto_ldn e fd g of
              (Some err, g) \<Rightarrow> (Reply (errno_word err) 0 0 [], g)
            | (None, g) \<Rightarrow> sendto_finish se e fd flags data addr True g)
      else sendto_finish se e fd flags data addr (is_proxy_fd g fd) g)"

subsection \<open>Receiving\<close>

text \<open>The common body of \<^verbatim>\<open>Recv\<close> (command 8) and \<^verbatim>\<open>Read\<close> (command 25), which has no flags.\<close>

definition recv_connected :: "bsd_request \<Rightarrow> BsdMitmService \<Rightarrow> bsd_env \<Rightarrow> fd \<Rightarrow> u32 \<Rightarrow> nat \<Rightarrow> BsdState \<Rightarrow> bsd_reply \<times> BsdState" where
  "recv_connected rq se e fd flags size_out g =
     (case (if is_proxy_fd g fd then pm_GetProxySocket (bs_manager g) fd else None) of
        Some s \<Rightarrow>
          (case ps_Recv s False size_out flags of
             (r, s') \<Rightarrow>
               let g = g\<lparr>bs_manager := pm_update (bs_manager g) fd (\<lambda>_. s')\<rparr>
               in case r of
                    Blocked \<Rightarrow> (Waits, g)
                  | Failed err \<Rightarrow> (error_reply err, g)
                  | Received d src \<Rightarrow> (Reply 0 0 (word_of_nat (length d)) [d], g))
      | None \<Rightarrow> bsd_passthrough rq se e g)"

definition bsd_Recv :: "BsdMitmService \<Rightarrow> bsd_env \<Rightarrow> fd \<Rightarrow> u32 \<Rightarrow> nat \<Rightarrow> BsdState \<Rightarrow> bsd_reply \<times> BsdState" where
  "bsd_Recv se e fd flags size_out g =
     recv_connected (ipc_request 8 [S32 fd, S32 flags] [OutAuto size_out]) se e fd flags size_out g"

definition bsd_Read :: "BsdMitmService \<Rightarrow> bsd_env \<Rightarrow> fd \<Rightarrow> nat \<Rightarrow> BsdState \<Rightarrow> bsd_reply \<times> BsdState" where
  "bsd_Read se e fd size_out g = recv_connected (ipc_request 25 [S32 fd] [OutAuto size_out]) se e fd 0 size_out g"

definition bsd_RecvFrom :: "BsdMitmService \<Rightarrow> bsd_env \<Rightarrow> fd \<Rightarrow> u32 \<Rightarrow> nat \<Rightarrow> nat \<Rightarrow> BsdState \<Rightarrow> bsd_reply \<times> BsdState" where
  "bsd_RecvFrom se e fd flags size_out size_addr g =
     (case (if is_proxy_fd g fd then pm_GetProxySocket (bs_manager g) fd else None) of
        Some s \<Rightarrow>
          (case ps_RecvFrom s False size_out flags of
             (r, s') \<Rightarrow>
               let g = g\<lparr>bs_manager := pm_update (bs_manager g) fd (\<lambda>_. s')\<rparr>
               in case r of
                    Blocked \<Rightarrow> (Waits, g)
                  | Failed err \<Rightarrow> (ReplyFrom 0 (- 1) (errno_word err) 0 [], g)
                  | Received d src \<Rightarrow>
                      let from_addr = (case src of Some a \<Rightarrow> SockAddrIn_to_bytes a | None \<Rightarrow> replicate 16 0)
                      in if size_addr \<ge> 16
                         then (ReplyFrom 0 (word_of_nat (length d)) 0 16 [d, from_addr], g)
                         else (ReplyFrom 0 (word_of_nat (length d)) 0 0 [d], g))
      | None \<Rightarrow>
          let rq = ipc_request 9 [S32 fd, S32 flags] [OutAuto size_out, OutAuto size_addr]; r = ev_real e rq
          in (ReplyFrom (rr_rc r) (rr_value r) (rr_errno r) (rr_addrlen r) (rr_buffers r), forward se rq g))"

subsection \<open>Control\<close>

definition FIONREAD :: u32 where "FIONREAD = 0x4004667F"
definition F_GETFL :: u32 where "F_GETFL = 3"
definition F_SETFL :: u32 where "F_SETFL = 4"
definition O_NONBLOCK :: u32 where "O_NONBLOCK = 0x0004"

definition bsd_Ioctl ::
  "BsdMitmService \<Rightarrow> bsd_env \<Rightarrow> fd \<Rightarrow> u32 \<Rightarrow> u32 \<Rightarrow> byte list \<Rightarrow> nat \<Rightarrow> BsdState \<Rightarrow> bsd_reply \<times> BsdState" where
  "bsd_Ioctl se e fd req bufcount buf_in size_out g =
     (case pm_GetProxySocket (bs_manager g) fd of
        Some s \<Rightarrow>
          (if req = FIONREAD
           then (Reply 0 0 0 (if size_out \<ge> 4 then [put32 (word_of_nat (ps_GetPendingDataSize s))] else []), g)
           else (Reply 0 (errno_word Inval) (- 1) [], g))
      | None \<Rightarrow> bsd_passthrough (ipc_request 19 [S32 fd, S32 req, S32 bufcount] [InAuto buf_in, OutAuto size_out]) se e g)"

definition bsd_Fcntl :: "BsdMitmService \<Rightarrow> bsd_env \<Rightarrow> fd \<Rightarrow> u32 \<Rightarrow> u32 \<Rightarrow> BsdState \<Rightarrow> bsd_reply \<times> BsdState" where
  "bsd_Fcntl se e fd cmd arg g =
     (case pm_GetProxySocket (bs_manager g) fd of
        Some s \<Rightarrow>
          (if cmd = F_GETFL then (Reply 0 0 (if ps_non_blocking s then O_NONBLOCK else 0) [], g)
           else if cmd = F_SETFL
           then (Reply 0 0 0 [],
                 g\<lparr>bs_manager := pm_update (bs_manager g) fd (\<lambda>s. ps_SetNonBlocking s (arg AND O_NONBLOCK \<noteq> 0))\<rparr>)
           else (Reply 0 (errno_word Inval) (- 1) [], g))
      | None \<Rightarrow> bsd_passthrough (ipc_request 20 [S32 fd, S32 cmd, S32 arg] []) se e g)"

text \<open>An empty output buffer is a null pointer.\<close>

definition bsd_GetSockOpt :: "BsdMitmService \<Rightarrow> bsd_env \<Rightarrow> fd \<Rightarrow> u32 \<Rightarrow> u32 \<Rightarrow> nat \<Rightarrow> BsdState \<Rightarrow> bsd_reply \<times> BsdState" where
  "bsd_GetSockOpt se e fd level optname size_out g =
     (case pm_GetProxySocket (bs_manager g) fd of
        Some s \<Rightarrow>
          (case ps_GetSockOpt s level optname (if size_out = 0 then None else Some size_out) of
             Inl err \<Rightarrow> (error_reply err, g)
           | Inr v \<Rightarrow> (Reply 0 0 0 [put32 v], g))
      | None \<Rightarrow> bsd_passthrough_errno (ipc_request 17 [S32 fd, S32 level, S32 optname] [OutAuto size_out]) se e g)"

definition bsd_SetSockOpt :: "BsdMitmService \<Rightarrow> bsd_env \<Rightarrow> fd \<Rightarrow> u32 \<Rightarrow> u32 \<Rightarrow> byte list \<Rightarrow> BsdState \<Rightarrow> bsd_reply \<times> BsdState" where
  "bsd_SetSockOpt se e fd level optname optval g =
     (case pm_GetProxySocket (bs_manager g) fd of
        Some s \<Rightarrow>
          (case ps_SetSockOpt s level optname (Some optval) of
             (r, s') \<Rightarrow>
               (case r of Inl err \<Rightarrow> error_reply err | Inr u \<Rightarrow> ok_reply,
                g\<lparr>bs_manager := pm_update (bs_manager g) fd (\<lambda>_. s')\<rparr>))
      | None \<Rightarrow>
          let g = (if level = SOL_Socket \<and> optname = SO_Broadcast \<and> length optval \<ge> 4
                   then (case map_of (bs_socket_info g) fd of
                           Some i \<Rightarrow> g\<lparr>bs_socket_info :=
                             AList.update fd (i\<lparr>si_broadcast := (get32 (take 4 optval) \<noteq> 0)\<rparr>) (bs_socket_info g)\<rparr>
                         | None \<Rightarrow> g)
                   else g)
          in bsd_passthrough_errno (ipc_request 21 [S32 fd, S32 level, S32 optname] [InAuto optval]) se e g)"

subsection \<open>Calls\<close>

datatype bsd_command =
    CRegister "byte list" u64 u32
  | CRegisterShared "byte list" u64
  | CStartMonitoring u64
  | CSocket u32 u32 u32
  | CSocketExempt u32 u32 u32
  | COpen "byte list"
  | CSysctl "byte list" "byte list" nat "byte list"
  | CRecv fd u32 nat
  | CRecvFrom fd u32 nat nat
  | CSend fd u32 "byte list"
  | CSendTo fd u32 "byte list" "byte list"
  | CAccept fd nat
  | CBind fd "byte list"
  | CConnect fd "byte list"
  | CGetPeerName fd nat
  | CGetSockName fd nat
  | CGetSockOpt fd u32 u32 nat
  | CListen fd u32
  | CIoctl fd u32 u32 "byte list" nat
  | CFcntl fd u32 u32
  | CSetSockOpt fd u32 u32 "byte list"
  | CShutdown fd u32
  | CShutdownAllSockets u64 u32
  | CWrite fd "byte list"
  | CRead fd nat
  | CClose fd
  | CDuplicateSocket fd u64
  | CGetResourceStatistics nat u64
  | CRecvMMsg fd u32 u32 u32 nat
  | CSendMMsg fd u32 u32 "byte list"
  | CEventFd u64 u32
  | CRegisterResourceStatisticsName u64 "byte list"

text \<open>The effect of a command other than the registration on the globals.\<close>

fun bsd_do :: "bsd_command \<Rightarrow> BsdMitmService \<Rightarrow> bsd_env \<Rightarrow> BsdState \<Rightarrow> bsd_reply \<times> BsdState" where
  "bsd_do (CRegister config tmem handle) se e g = (case RegisterClient se e config tmem handle g of (r, se', g') \<Rightarrow> (r, g'))"
| "bsd_do (CRegisterShared config tmem) se e g = (case RegisterClientShared se e config tmem g of (r, se', g') \<Rightarrow> (r, g'))"
| "bsd_do (CStartMonitoring pid) se e g = bsd_StartMonitoring se e pid g"
| "bsd_do (CSocket domain ty protocol) se e g = bsd_Socket se e domain ty protocol g"
| "bsd_do (CSocketExempt domain ty protocol) se e g = bsd_SocketExempt se e domain ty protocol g"
| "bsd_do (COpen path) se e g = bsd_Open se e path g"
| "bsd_do (CSysctl name old n new) se e g = bsd_Sysctl se e name old n new g"
| "bsd_do (CRecv fd flags n) se e g = bsd_Recv se e fd flags n g"
| "bsd_do (CRecvFrom fd flags n k) se e g = bsd_RecvFrom se e fd flags n k g"
| "bsd_do (CSend fd flags d) se e g = bsd_Send se e fd flags d g"
| "bsd_do (CSendTo fd flags d addr) se e g = bsd_SendTo se e fd flags d addr g"
| "bsd_do (CAccept fd n) se e g = bsd_Accept se e fd n g"
| "bsd_do (CBind fd addr) se e g = bsd_Bind se e fd addr g"
| "bsd_do (CConnect fd addr) se e g = bsd_Connect se e fd addr g"
| "bsd_do (CGetPeerName fd n) se e g = bsd_GetPeerName se e fd n g"
| "bsd_do (CGetSockName fd n) se e g = bsd_GetSockName se e fd n g"
| "bsd_do (CGetSockOpt fd level opt n) se e g = bsd_GetSockOpt se e fd level opt n g"
| "bsd_do (CListen fd backlog) se e g = bsd_Listen se e fd backlog g"
| "bsd_do (CIoctl fd req count d n) se e g = bsd_Ioctl se e fd req count d n g"
| "bsd_do (CFcntl fd cmd arg) se e g = bsd_Fcntl se e fd cmd arg g"
| "bsd_do (CSetSockOpt fd level opt v) se e g = bsd_SetSockOpt se e fd level opt v g"
| "bsd_do (CShutdown fd how) se e g = bsd_Shutdown se e fd how g"
| "bsd_do (CShutdownAllSockets pid how) se e g = bsd_ShutdownAllSockets se e pid how g"
| "bsd_do (CWrite fd d) se e g = bsd_Write se e fd d g"
| "bsd_do (CRead fd n) se e g = bsd_Read se e fd n g"
| "bsd_do (CClose fd) se e g = bsd_Close se e fd g"
| "bsd_do (CDuplicateSocket fd pid) se e g = bsd_DuplicateSocket se e fd pid g"
| "bsd_do (CGetResourceStatistics n pid) se e g = bsd_GetResourceStatistics se e n pid g"
| "bsd_do (CRecvMMsg fd vlen flags t n) se e g = bsd_RecvMMsg se e fd vlen flags t n g"
| "bsd_do (CSendMMsg fd vlen flags d) se e g = bsd_SendMMsg se e fd vlen flags d g"
| "bsd_do (CEventFd v flags) se e g = bsd_EventFd se e v flags g"
| "bsd_do (CRegisterResourceStatisticsName pid name) se e g = bsd_RegisterResourceStatisticsName se e pid name g"

definition bsd_call :: "bsd_command \<Rightarrow> BsdMitmService \<Rightarrow> bsd_env \<Rightarrow> BsdState \<Rightarrow> bsd_reply \<times> BsdMitmService \<times> BsdState" where
  "bsd_call c se e g =
     (let se = count_command se
      in case c of
           CRegister config tmem handle \<Rightarrow> RegisterClient se e config tmem handle g
         | CRegisterShared config tmem \<Rightarrow> RegisterClientShared se e config tmem g
         | _ \<Rightarrow> (case bsd_do c se e g of (r, g') \<Rightarrow> (r, se, g')))"

lemmas register_defs = RegisterClient_def RegisterClientShared_def register_session_def

lemma bsd_call_globals: "snd (snd (bsd_call c se e g)) = snd (bsd_do c (count_command se) e g)"
  by (cases c) (simp_all add: bsd_call_def Let_def case_prod_beta)

subsection \<open>The manager behind the commands\<close>

lemma forward_fields [simp]:
  "bs_manager (forward se rq g) = bs_manager g" "bs_socket_info (forward se rq g) = bs_socket_info g"
  "bs_sent (forward se rq g) = bs_sent g" "bs_forwarded (forward se rq g) = bs_forwarded g @ [(ms_session_id se, rq)]"
  by (simp_all add: forward_def)

lemma mark_proxy_fields [simp]:
  "bs_manager (mark_proxy fd g) = bs_manager g" "bs_sent (mark_proxy fd g) = bs_sent g"
  "bs_forwarded (mark_proxy fd g) = bs_forwarded g"
  "map_of (bs_socket_info (mark_proxy fd g)) k =
     (if k = fd then map_option (\<lambda>i. i\<lparr>si_is_proxy := True\<rparr>) (map_of (bs_socket_info g) fd) else map_of (bs_socket_info g) k)"
  by (auto simp: mark_proxy_def update_conv' split: option.split)

lemma passthrough_globals [simp]:
  "snd (bsd_passthrough rq se e g) = forward se rq g" "snd (bsd_passthrough_errno rq se e g) = forward se rq g"
  by (simp_all add: bsd_passthrough_def bsd_passthrough_errno_def)


lemmas passthrough_defs = bsd_passthrough_def bsd_passthrough_errno_def

lemmas forwarder_defs = bsd_StartMonitoring_def bsd_Open_def bsd_Sysctl_def bsd_Accept_def bsd_Listen_def bsd_Shutdown_def
  bsd_ShutdownAllSockets_def bsd_DuplicateSocket_def bsd_GetResourceStatistics_def bsd_RecvMMsg_def bsd_SendMMsg_def bsd_EventFd_def
  bsd_RegisterResourceStatisticsName_def

text \<open>A new socket's receive ring has its shape.\<close>

definition ring_ok :: "bsd_env \<Rightarrow> bool" where
  "ring_ok e \<longleftrightarrow> length (ev_ring e) = 64 \<and> list_all (\<lambda>p. length (rp_data p) = 2000) (ev_ring e)"

lemma ring_ok_new: "ring_ok e \<Longrightarrow> ps_inv (ps_new (ev_ring e) ty protocol)"
  by (simp add: ring_ok_def ps_inv_def ps_new_def ps_consts)

lemma pm_update_const:
  assumes "pm_inv m" "pm_GetProxySocket m fd = Some s" "f s = s'"
  shows "pm_update m fd (\<lambda>_. s') = pm_update m fd f"
proof -
  have "t = s" if "(fd, t) \<in> set (pm_sockets m)" for t
    using that assms(1,2) by (metis map_of_eq_Some_iff option.inject pm_GetProxySocket_def pm_inv_def)
  then have "map (\<lambda>(k, t). (k, if k = fd then s' else t)) (pm_sockets m) =
      map (\<lambda>(k, t). (k, if k = fd then f t else t)) (pm_sockets m)"
    using assms(3) by auto
  then show ?thesis by (simp add: pm_update_def)
qed

lemma proxy_send_manager [simp]:
  "bs_manager (snd (proxy_send_to e s d a g)) = bs_manager g" "bs_manager (snd (proxy_send e s d g)) = bs_manager g"
  by (simp_all add: proxy_send_to_def proxy_send_def split: prod.split)

lemma sendto_finish_manager [simp]: "bs_manager (snd (sendto_finish se e fd flags d addr b g)) = bs_manager g"
  by (simp add: sendto_finish_def split: option.split)

lemma broadcast_as_option: "(\<lambda>s. s\<lparr>ps_broadcast := True\<rparr>) = (\<lambda>s. snd (ps_SetSockOpt s SOL_Socket SO_Broadcast (Some [1, 0, 0, 0])))"
proof -
  have "get32 [1, 0, 0, 0] \<noteq> (0 :: u32)" by code_simp
  then show ?thesis by (simp add: ps_SetSockOpt_def)
qed

lemma pm_update_same [simp]: "pm_update m fd (\<lambda>s. s) = m"
proof -
  have "(\<lambda>(k, s). (k, if k = fd then s else s)) = (\<lambda>x. x :: fd \<times> ProxySocket)" by auto
  then show ?thesis by (simp add: pm_update_def)
qed

lemma created_socket:
  assumes "pm_CreateProxySocket m ring fd ty protocol = (Some k, m')"
  shows "k = fd" "pm_GetProxySocket m' fd = Some (case pm_GetProxySocket m fd of Some s \<Rightarrow> s | None \<Rightarrow> ps_new ring ty protocol)"
    "x \<noteq> fd \<Longrightarrow> pm_GetProxySocket m' x = pm_GetProxySocket m x" "pm_local_ip m' = pm_local_ip m"
    "pm_port_pool m' = pm_port_pool m" "pm_pending_count m' = pm_pending_count m"
  using assms
  by (auto simp: pm_CreateProxySocket_def pm_GetProxySocket_def map_add_def split: if_splits option.splits)

text \<open>
  What the service relies on: a property of the manager that the operations the commands use keep. Every
  command then keeps it.
\<close>

locale manager_contract =
  fixes I :: "ProxySocketManager \<Rightarrow> bool"
  assumes inv: "I m \<Longrightarrow> pm_inv m"
    and create: "I m \<Longrightarrow> ps_inv (ps_new ring ty protocol) \<Longrightarrow> I (snd (pm_CreateProxySocket m ring fd ty protocol))"
    and close: "I m \<Longrightarrow> pm_CloseProxySocket m fd = Done (ok, m') \<Longrightarrow> I m'"
    and allocate: "I m \<Longrightarrow> I (snd (pm_AllocatePort m protocol))"
    and reserve: "I m \<Longrightarrow> I (snd (pm_ReservePort m port protocol))"
    and release: "I m \<Longrightarrow> I (pm_ReleasePort m port protocol)"
    and deliver: "I m \<Longrightarrow> I (pm_DeliverPendingPackets m now fd port protocol)"
    and nonblocking: "I m \<Longrightarrow> I (pm_update m fd (\<lambda>s. ps_SetNonBlocking s b))"
    and bind: "I m \<Longrightarrow> I (pm_update m fd (\<lambda>s. snd (ps_Bind s a)))"
    and connect: "I m \<Longrightarrow> I (pm_update m fd (\<lambda>s. snd (snd (ps_Connect s a sent reply))))"
    and recv: "I m \<Longrightarrow> I (pm_update m fd (\<lambda>s. snd (ps_RecvFrom s null n flags)))"
    and sockopt: "I m \<Longrightarrow> I (pm_update m fd (\<lambda>s. snd (ps_SetSockOpt s level opt val)))"
begin

lemma const:
  assumes "I m" "pm_GetProxySocket m fd = Some s" "f s = s'" "I (pm_update m fd f)"
  shows "I (pm_update m fd (\<lambda>_. s'))"
  using assms(4) pm_update_const [of m fd s f s', OF inv [OF assms(1)] assms(2,3)] by simp

lemma recv_kept:
  assumes "I m" "pm_GetProxySocket m fd = Some s" "ps_Recv s False n flags = (r, s')"
  shows "I (pm_update m fd (\<lambda>_. s'))"
proof (cases "ps_state s = ProxySocketState.Connected")
  case True
  then have "snd (ps_RecvFrom s False n flags) = s'" using assms(3) by (simp add: ps_Recv_def)
  then show ?thesis
    by (rule const [where f = "\<lambda>s. snd (ps_RecvFrom s False n flags)", OF assms(1,2) _ recv [OF assms(1)]])
next
  case False
  then have "s' = s" using assms(3) by (simp add: ps_Recv_def)
  then show ?thesis using pm_update_const [OF inv [OF assms(1)] assms(2), of "\<lambda>s. s" s'] assms(1) by simp
qed

lemma create_kept: "I m \<Longrightarrow> ring_ok e \<Longrightarrow> pm_CreateProxySocket m (ev_ring e) fd ty protocol = (r, m') \<Longrightarrow> I m'"
  using create [of m "ev_ring e" ty protocol fd] ring_ok_new [of e ty protocol] by simp

lemma allocate_kept: "I m \<Longrightarrow> pm_AllocatePort m protocol = (port, m') \<Longrightarrow> I m'"
  using allocate [of m protocol] by simp

lemma bind_port_kept: "I m \<Longrightarrow> bind_port m protocol a = (r, m') \<Longrightarrow> I m'"
  using allocate [of m protocol] reserve [of m "GetPort a" protocol]
  by (auto simp: bind_port_def split: if_splits prod.splits)

lemma bind_kept:
  assumes "I m" "pm_GetProxySocket m fd = Some s" "ps_Bind s a = (r, s')"
  shows "I (pm_update m fd (\<lambda>_. s'))"
  using const [OF assms(1,2), of "\<lambda>s. snd (ps_Bind s a)"] assms(3) bind [OF assms(1)] by simp

lemma bind_options_kept: "I m \<Longrightarrow> I (bind_options i fd m)"
  using sockopt [of m fd SOL_Socket SO_Broadcast "Some [1, 0, 0, 0]"] by (simp add: bind_options_def broadcast_as_option)

lemma bind_proxy_kept:
  assumes "ring_ok e" "I (bs_manager g)"
  shows "I (bs_manager (snd (bind_proxy se e fd i addr a g)))"
proof -
  obtain r m1 where c: "pm_CreateProxySocket (bs_manager g) (ev_ring e) fd (si_type i) (si_protocol i) = (r, m1)"
    by fastforce
  have s1: "I m1" by (rule create_kept [OF assms(2,1) c])
  define m2 where "m2 = bind_options i fd m1"
  have s2: "I m2" unfolding m2_def by (rule bind_options_kept [OF s1])
  obtain rb m3 where p: "bind_port m2 (si_protocol i) (bind_address m2 a) = (rb, m3)" by fastforce
  have s3: "I m3" by (rule bind_port_kept [OF s2 p])
  note unfold = bind_proxy_def c m2_def [symmetric] p Let_def
  show ?thesis
  proof (cases r)
    case None
    then show ?thesis using s1 by (simp add: bind_proxy_def c)
  next
    case (Some k)
    note r = this
    show ?thesis
    proof (cases rb)
      case None
      then show ?thesis using s3 by (simp add: unfold r)
    next
      case (Some b')
      note rb = this
      show ?thesis
      proof (cases "pm_GetProxySocket m3 fd")
        case None
        then show ?thesis using s3 by (simp add: unfold r rb)
      next
        case (Some s)
        obtain rs s' where b: "ps_Bind s b' = (rs, s')" by fastforce
        show ?thesis
          using bind_kept [OF s3 Some b] deliver by (cases rs) (simp_all add: unfold r rb Some b)
      qed
    qed
  qed
qed

lemma connect_socket_kept:
  assumes "ring_ok e" "I m" "connect_socket e fd i m = (r, m')"
  shows "I m'"
proof (cases "pm_GetProxySocket m fd")
  case None
  obtain rc m1 where c: "pm_CreateProxySocket m (ev_ring e) fd (si_type i) (si_protocol i) = (rc, m1)" by fastforce
  obtain port m2 where a: "pm_AllocatePort m1 (si_protocol i) = (port, m2)" by fastforce
  have s1: "I m1" by (rule create_kept [OF assms(2,1) c])
  have s2: "I m2" by (rule allocate_kept [OF s1 a])
  show ?thesis
    using assms(3) s1 s2 bind_kept [OF s2] release
    by (auto simp: connect_socket_def None c a split: option.splits prod.splits sum.splits if_splits)
qed (use assms(2,3) in \<open>simp add: connect_socket_def\<close>)

lemma sendto_socket_kept:
  assumes "ring_ok e" "I m" "sendto_socket e fd i m = (r, m')"
  shows "I m'"
proof (cases "pm_GetProxySocket m fd")
  case None
  obtain rc m1 where c: "pm_CreateProxySocket m (ev_ring e) fd (si_type i) (si_protocol i) = (rc, m1)" by fastforce
  obtain port m2 where a: "pm_AllocatePort m1 (si_protocol i) = (port, m2)" by fastforce
  have s1: "I m1" by (rule create_kept [OF assms(2,1) c])
  have s2: "I m2" by (rule allocate_kept [OF s1 a])
  show ?thesis
    using assms(3) s1 s2 bind_kept [OF s2]
    by (auto simp: sendto_socket_def None c a split: option.splits prod.splits sum.splits if_splits)
qed (use assms(2,3) in \<open>simp add: sendto_socket_def\<close>)

lemma connect_proxy_kept:
  assumes "ring_ok e" "I (bs_manager g)"
  shows "I (bs_manager (snd (connect_proxy e fd i a g)))"
proof -
  obtain r m where c: "connect_socket e fd i (bs_manager g) = (r, m)" by fastforce
  have m: "I m" by (rule connect_socket_kept [OF assms c])
  show ?thesis
  proof (cases r)
    case None
    note r = this
    show ?thesis
    proof (cases "pm_GetProxySocket m fd")
      case (Some s)
      obtain rr out s' where conn: "ps_Connect s a (pm_Send m (ev_answer e) (connect_msg s a)) (ev_response e) = (rr, out, s')"
        using prod_cases3 by blast
      have "I (pm_update m fd (\<lambda>_. s'))"
        using const [OF m Some, of "\<lambda>s'. snd (snd (ps_Connect s' a (pm_Send m (ev_answer e) (connect_msg s a)) (ev_response e)))"]
          connect [OF m] conn by simp
      then show ?thesis by (cases rr) (simp_all add: connect_proxy_def c r Some conn Let_def)
    qed (simp add: connect_proxy_def c r m)
  qed (simp add: connect_proxy_def c m)
qed

lemma sendto_ldn_kept:
  assumes "ring_ok e" "I (bs_manager g)" "sendto_ldn e fd g = (r, g')"
  shows "I (bs_manager g')"
proof (cases "map_of (bs_socket_info g) fd")
  case (Some i)
  obtain r' m where s: "sendto_socket e fd i (bs_manager g) = (r', m)" by fastforce
  show ?thesis
    using assms(2,3) sendto_socket_kept [OF assms(1,2) s] Some s
    by (cases "si_is_proxy i"; cases r') (auto simp: sendto_ldn_def)
qed (use assms(2,3) in \<open>simp add: sendto_ldn_def\<close>)

lemma recv_connected_kept: "I (bs_manager g) \<Longrightarrow> I (bs_manager (snd (recv_connected rq se e fd flags n g)))"
  using recv_kept [of "bs_manager g"] by (auto simp: recv_connected_def Let_def split: option.split prod.split recv_result.split)

lemma bsd_do_kept:
  assumes "ring_ok e" "I (bs_manager g)"
  shows "I (bs_manager (snd (bsd_do c se e g)))"
proof (cases c)
  case (CClose fd)
  then show ?thesis
    using assms(2) close [OF assms(2), of fd] by (auto simp: bsd_Close_def split: option.split locked.split prod.split)
next
  case (CBind fd addr)
  then show ?thesis
    using assms(2) bind_proxy_kept [OF assms] by (auto simp: bsd_Bind_def Let_def split: option.split)
next
  case (CConnect fd addr)
  then show ?thesis
    using assms(2) connect_proxy_kept [OF assms] by (auto simp: bsd_Connect_def split: option.split)
next
  case (CSendTo fd flags d addr)
  then show ?thesis
    using assms(2) sendto_ldn_kept [OF assms] by (simp add: bsd_SendTo_def split: option.split prod.split)
next
  case (CRecv fd flags n)
  then show ?thesis using recv_connected_kept [OF assms(2)] by (simp add: bsd_Recv_def)
next
  case (CRead fd n)
  then show ?thesis using recv_connected_kept [OF assms(2)] by (simp add: bsd_Read_def)
next
  case (CRecvFrom fd flags n k)
  have "I (pm_update (bs_manager g) fd (\<lambda>_. s'))"
    if "pm_GetProxySocket (bs_manager g) fd = Some s" "ps_RecvFrom s False n flags = (r, s')" for s r s'
    using const [OF assms(2) that(1), of "\<lambda>s. snd (ps_RecvFrom s False n flags)"] that(2) recv [OF assms(2)] by simp
  then show ?thesis
    using assms(2) by (auto simp: CRecvFrom bsd_RecvFrom_def Let_def split: option.split prod.split recv_result.split)
next
  case (CFcntl fd cmd arg)
  then show ?thesis
    using assms(2) nonblocking by (auto simp: bsd_Fcntl_def split: option.split)
next
  case (CSetSockOpt fd level opt v)
  have "I (pm_update (bs_manager g) fd (\<lambda>_. s'))"
    if "pm_GetProxySocket (bs_manager g) fd = Some s" "ps_SetSockOpt s level opt (Some v) = (r, s')" for s r s'
    using const [OF assms(2) that(1), of "\<lambda>s. snd (ps_SetSockOpt s level opt (Some v))"] that(2) sockopt [OF assms(2)] by simp
  then show ?thesis
    using assms(2) by (auto simp: CSetSockOpt bsd_SetSockOpt_def Let_def split: option.split prod.split sum.split)
qed (use assms(2) in \<open>auto simp: register_defs forwarder_defs bsd_Socket_def bsd_SocketExempt_def open_socket_def bsd_GetPeerName_def
    bsd_GetSockName_def bsd_Send_def bsd_Write_def send_connected_def
    bsd_Ioctl_def bsd_GetSockOpt_def Let_def split: option.split prod.split sum.split\<close>)

lemma close_all_kept: "close_all fds m = Done m' \<Longrightarrow> I m \<Longrightarrow> I m'"
  by (induction fds m rule: close_all.induct) (auto split: locked.splits prod.splits dest: close)

end

interpretation consistent: manager_contract pm_inv
  by unfold_locales (auto intro: pm_step_inv step_create step_close step_allocate step_reserve step_release step_deliver
      step_nonblocking step_bind step_connect step_recv step_sockopt)

subsection \<open>Nobody listens\<close>

definition no_listener :: "ProxySocketManager \<Rightarrow> bool" where
  "no_listener m \<longleftrightarrow> (\<forall>k s. pm_GetProxySocket m k = Some s \<longrightarrow> ps_state s \<noteq> Listening)"

lemma no_listener_update:
  assumes "no_listener m" "\<And>s. ps_state s \<noteq> Listening \<Longrightarrow> ps_state (f s) \<noteq> Listening"
  shows "no_listener (pm_update m fd f)"
  using assms by (auto simp: no_listener_def pm_GetProxySocket_def)

lemma deliver_state: "ps_state (foldl (\<lambda>t pkt. snd (deliver_step now port protocol pkt t)) s pkts) = ps_state s"
  by (induction pkts arbitrary: s) (auto simp: deliver_step_def ps_IncomingData_def Let_def)

lemma no_listener_deliver:
  assumes "pm_inv m" "no_listener m"
  shows "no_listener (pm_DeliverPendingPackets m now fd port protocol)"
proof (cases "pm_GetProxySocket m fd")
  case None
  then show ?thesis using assms(2) by (simp add: pm_DeliverPendingPackets_def pm_GetProxySocket_def)
next
  case (Some s)
  then show ?thesis
    using assms(2) by (auto simp: no_listener_def DeliverPendingPackets_facts(3) [OF assms(1) Some] deliver_state)
qed

lemma forget_lookup: "pm_GetProxySocket (pm_forget m fd port protocol) k = (if k = fd then None else pm_GetProxySocket m k)"
proof -
  have "pm_sockets (pm_purge m port protocol) = pm_sockets m"
    by (simp add: pm_purge_def split: prod.split)
  moreover have "map_of (filter (\<lambda>(k, t). k \<noteq> fd) xs) k = (if k = fd then None else map_of xs k)" for xs :: "(fd \<times> ProxySocket) list"
    by (induction xs) auto
  ultimately show ?thesis by (simp add: pm_forget_def pm_GetProxySocket_def Let_def)
qed

lemma close_lookup:
  assumes "pm_CloseProxySocket m fd = Done (ok, m')"
  shows "pm_GetProxySocket m' k = (if k = fd then None else pm_GetProxySocket m k)"
  using assms forget_lookup [of m fd] forget_lookup [of "pm_ReleasePort m port protocol" fd for port protocol]
  by (auto simp: pm_CloseProxySocket_def Let_def split: option.splits prod.splits if_splits)
    (auto simp: pm_GetProxySocket_def pm_ReleasePort_def)

definition quiet :: "ProxySocketManager \<Rightarrow> bool" where "quiet m \<longleftrightarrow> pm_inv m \<and> no_listener m"

lemma quiet_update:
  assumes "quiet m" "pm_inv (pm_update m fd f)" "\<And>s. ps_state s \<noteq> Listening \<Longrightarrow> ps_state (f s) \<noteq> Listening"
  shows "quiet (pm_update m fd f)"
  using assms no_listener_update [of m f fd] by (simp add: quiet_def)

lemma quiet_pm: "quiet m \<Longrightarrow> pm_inv m"
  by (simp add: quiet_def)

interpretation quiet: manager_contract quiet
proof unfold_locales
  fix m :: ProxySocketManager and ring ty protocol fd
  assume "quiet m" "ps_inv (ps_new ring ty protocol)"
  then have "pm_inv (snd (pm_CreateProxySocket m ring fd ty protocol))"
    and "no_listener (snd (pm_CreateProxySocket m ring fd ty protocol))"
    by (simp add: quiet_def consistent.create,
        auto simp: quiet_def no_listener_def pm_CreateProxySocket_def pm_GetProxySocket_def ps_new_def
          map_add_def split: option.splits if_splits)
  then show "quiet (snd (pm_CreateProxySocket m ring fd ty protocol))" by (simp add: quiet_def)
next
  fix m m' fd ok
  assume "quiet m" "pm_CloseProxySocket m fd = Done (ok, m')"
  then show "quiet m'"
    using consistent.close close_lookup by (auto simp: quiet_def no_listener_def split: if_splits)
next
  fix m now fd port protocol
  assume "quiet m"
  then show "quiet (pm_DeliverPendingPackets m now fd port protocol)"
    by (simp add: quiet_def consistent.deliver no_listener_deliver)
next
  fix m :: ProxySocketManager and protocol
  assume "quiet m"
  then show "quiet (snd (pm_AllocatePort m protocol))"
    using consistent.allocate by (auto simp: quiet_def no_listener_def pm_AllocatePort_def pm_GetProxySocket_def split: prod.split)
next
  fix m :: ProxySocketManager and port protocol
  assume "quiet m"
  then show "quiet (snd (pm_ReservePort m port protocol))" "quiet (pm_ReleasePort m port protocol)"
    using consistent.reserve consistent.release
    by (auto simp: quiet_def no_listener_def pm_ReservePort_def pm_ReleasePort_def pm_GetProxySocket_def split: prod.split)
next
  fix m fd a sent reply
  assume m: "quiet m"
  show "quiet (pm_update m fd (\<lambda>s. snd (snd (ps_Connect s a sent reply))))"
    by (rule quiet_update [OF m consistent.connect [OF quiet_pm [OF m]]])
      (auto simp: ps_Connect_def ps_HandleConnectResponse_def Let_def split: if_splits option.splits)
next
  fix m fd b
  assume m: "quiet m"
  show "quiet (pm_update m fd (\<lambda>s. ps_SetNonBlocking s b))"
    by (rule quiet_update [OF m consistent.nonblocking [OF quiet_pm [OF m]]]) (simp add: ps_SetNonBlocking_def)
next
  fix m fd a
  assume m: "quiet m"
  show "quiet (pm_update m fd (\<lambda>s. snd (ps_Bind s a)))"
    by (rule quiet_update [OF m consistent.bind [OF quiet_pm [OF m]]]) (simp add: ps_Bind_def)
next
  fix m fd null n flags
  assume m: "quiet m"
  show "quiet (pm_update m fd (\<lambda>s. snd (ps_RecvFrom s null n flags)))"
    by (rule quiet_update [OF m consistent.recv [OF quiet_pm [OF m]]])
      (simp add: ps_RecvFrom_def ps_recv_wakeup_def consume_front_def Let_def)
next
  fix m fd level opt val
  assume m: "quiet m"
  show "quiet (pm_update m fd (\<lambda>s. snd (ps_SetSockOpt s level opt val)))"
    by (rule quiet_update [OF m consistent.sockopt [OF quiet_pm [OF m]]]) (simp add: ps_SetSockOpt_def split: option.split)
qed (simp add: quiet_def)

text \<open>The calls of the LDN side on the manager: routed packets, the local address, the end of a session.\<close>

inductive net_step :: "ProxySocketManager \<Rightarrow> ProxySocketManager \<Rightarrow> bool" where
  net_data: "net_step m (snd (pm_RouteIncomingData m now sip sport dip dport protocol (Some d) (length d)))"
| net_response: "net_step m (snd (pm_RouteConnectResponse m response))"
| net_request: "pm_RouteConnectRequest m request = Done (ok, m') \<Longrightarrow> net_step m m'"
| net_local_ip: "net_step m (pm_SetLocalIp m ip)"
| net_reset: "pm_Reset m = Done m' \<Longrightarrow> net_step m m'"
| net_close_all: "pm_CloseAllProxySockets m = Done m' \<Longrightarrow> net_step m m'"

inductive bsd_step :: "BsdState \<Rightarrow> BsdState \<Rightarrow> bool" where
  bsd_game: "ring_ok e \<Longrightarrow> bsd_step g (snd (snd (bsd_call c se e g)))"
| bsd_mitm: "bsd_step g (snd (ShouldMitm g games shared pid program_id))"
| bsd_session: "bsd_step g (snd (bsd_open g pid))"
| bsd_end: "bsd_close_session se g = Done g' \<Longrightarrow> bsd_step g g'"
| bsd_process: "ResetProcessMitmState g pid = Done g' \<Longrightarrow> bsd_step g g'"
| bsd_cleanup: "bsd_step g (CleanupAbandonedServices g)"
| bsd_net: "net_step (bs_manager g) m \<Longrightarrow> bsd_step g (g\<lparr>bs_manager := m\<rparr>)"

lemma net_step_pm: "net_step m m' \<Longrightarrow> pm_step m m'"
  by (induction rule: net_step.induct)
    (auto intro: step_data step_connect_response step_connect_request step_local_ip step_reset step_close_all)

lemma no_listener_fold:
  assumes "no_listener m" "\<And>s. ps_state (f s) = ps_state s"
  shows "no_listener (foldl (\<lambda>m k. pm_update m k f) m ts)"
  by (rule foldl_inv [where I = no_listener]) (use assms in \<open>auto intro: no_listener_update\<close>)

lemma net_step_quiet:
  assumes "net_step m m'" "quiet m"
  shows "quiet m'"
proof -
  have inv: "pm_inv m" "no_listener m" using assms(2) by (simp_all add: quiet_def)
  have "no_listener m'" using assms(1)
  proof cases
    case (net_data now sip sport dip dport protocol d)
    have "pm_sockets (pm_buffer m now sip sport dip dport protocol (Some d) (length d)) = pm_sockets m"
      by (rule pm_buffer_facts [OF inv(1) order_refl])
    then have "no_listener (pm_buffer m now sip sport dip dport protocol (Some d) (length d))"
      using inv(2) by (simp add: no_listener_def pm_GetProxySocket_def)
    moreover have "no_listener (foldl (\<lambda>m k. pm_update m k (\<lambda>s. ps_IncomingData s (Some d) (length d) (inet_addr sip sport))) m ts)" for ts
      by (rule no_listener_fold [OF inv(2)]) (simp add: ps_IncomingData_def Let_def)
    ultimately show ?thesis using net_data inv(2) by (simp add: pm_RouteIncomingData_def Let_def)
  next
    case (net_response response)
    then show ?thesis
      using inv(2) by (auto simp: pm_RouteConnectResponse_def ps_HandleConnectResponse_def Let_def split: option.split
          intro!: no_listener_update)
  next
    case (net_request request ok)
    then show ?thesis using inv(2) by (simp add: RouteConnectRequest_eq split: if_splits)
  next
    case (net_local_ip ip)
    then show ?thesis using inv(2) by (simp add: no_listener_def pm_SetLocalIp_def pm_GetProxySocket_def Let_def)
  next
    case net_reset
    then show ?thesis by (auto simp: no_listener_def pm_Reset_def pm_GetProxySocket_def split: if_splits)
  next
    case net_close_all
    then show ?thesis by (auto simp: no_listener_def pm_CloseAllProxySockets_def pm_GetProxySocket_def split: if_splits)
  qed
  then show ?thesis using pm_step_inv [OF net_step_pm [OF assms(1)] inv(1)] by (simp add: quiet_def)
qed

lemma bsd_step_quiet:
  assumes "bsd_step g g'" "quiet (bs_manager g)"
  shows "quiet (bs_manager g')"
  using assms(1)
proof cases
  case (bsd_game e c se)
  then show ?thesis using quiet.bsd_do_kept [OF _ assms(2)] by (simp add: bsd_call_globals)
next
  case (bsd_end se)
  then show ?thesis
    using quiet.close_all_kept [OF _ assms(2)]
    by (auto simp: bsd_close_session_def CleanupAbandonedServicesForPid_def Let_def split: locked.splits option.splits)
next
  case (bsd_process pid)
  then show ?thesis
    using quiet.close_all_kept [OF _ assms(2)] by (auto simp: ResetProcessMitmState_def Let_def split: locked.splits)
qed (use assms(2) in \<open>auto simp: ShouldMitm_def count_session_def bsd_open_def CleanupAbandonedServices_def Let_def net_step_quiet
    split: prod.split\<close>)

lemma pm_new_quiet: "length ring = 32 \<Longrightarrow> set ring \<subseteq> {p. length (pk_data p) = 1400} \<Longrightarrow> quiet (pm_new ring)"
  by (simp add: quiet_def no_listener_def pm_GetProxySocket_def pm_new_def pm_inv_def pm_consts pm_pending_def)

subsection \<open>Sockets made on demand\<close>

text \<open>The socket that \<^verbatim>\<open>Connect\<close> and \<^verbatim>\<open>SendTo\<close> make: bound to an ephemeral port of the local address.\<close>

definition auto_socket :: "bsd_env \<Rightarrow> SocketInfo \<Rightarrow> ProxySocketManager \<Rightarrow> u16 \<Rightarrow> ProxySocket" where
  "auto_socket e i m port =
     (ps_new (ev_ring e) (si_type i) (si_protocol i))\<lparr>ps_local_addr := auto_addr m port, ps_state := Bound\<rparr>"

lemma auto_socket_fields [simp]:
  "ps_protocol (auto_socket e i m port) = si_protocol i" "ps_state (auto_socket e i m port) = Bound"
  "ps_type (auto_socket e i m port) = si_type i" "ps_shutdown_write (auto_socket e i m port) = False"
  "GetAddr (ps_local_addr (auto_socket e i m port)) = pm_local_ip m" "GetPort (ps_local_addr (auto_socket e i m port)) = port"
  by (simp_all add: auto_socket_def ps_new_def auto_addr_def GetAddr_def GetPort_def)

lemma auto_bind:
  "ps_Bind (ps_new (ev_ring e) (si_type i) (si_protocol i)) (auto_addr m port) = (Inr (), auto_socket e i m port)"
  by (simp add: ps_Bind_def ps_new_def auto_addr_def auto_socket_def)

lemma auto_allocated:
  assumes "pm_GetProxySocket m fd = None" "pm_CreateProxySocket m ring fd ty protocol = (Some k, m1)"
    "pm_AllocatePort m1 protocol = (port, m2)"
  shows "pm_GetProxySocket m2 fd = Some (ps_new ring ty protocol)" "pm_local_ip m2 = pm_local_ip m"
    "pm_send_callback m2 = pm_send_callback m" "pm_connect_callback m2 = pm_connect_callback m"
    "pm_port_pool m1 = pm_port_pool m"
  using assms by (auto simp: pm_CreateProxySocket_def pm_AllocatePort_def pm_GetProxySocket_def map_add_def
      split: if_splits prod.splits)

lemma connect_socket_new:
  assumes "pm_GetProxySocket m fd = None" "connect_socket e fd i m = (None, m')"
  obtains port where "pm_GetProxySocket m' fd = Some (auto_socket e i m' port)" "port \<noteq> 0"
proof -
  obtain rc m1 where c: "pm_CreateProxySocket m (ev_ring e) fd (si_type i) (si_protocol i) = (rc, m1)" by fastforce
  obtain port m2 where a: "pm_AllocatePort m1 (si_protocol i) = (port, m2)" by fastforce
  from assms c obtain k where k: "rc = Some k" by (cases rc) (auto simp: connect_socket_def)
  note facts = auto_allocated [OF assms(1) c [unfolded k] a]
  have "port \<noteq> 0" and m': "m' = pm_update m2 fd (\<lambda>_. auto_socket e i m2 port)"
    using assms c k a by (auto simp: connect_socket_def facts auto_bind split: if_splits)
  moreover have "auto_socket e i m' port = auto_socket e i m2 port"
    by (simp add: m' auto_socket_def auto_addr_def)
  ultimately show ?thesis using facts(1) by (intro that [of port]) (simp_all add: pm_GetProxySocket_def)
qed

lemma Connect_remote: "ps_Connect s a sent response = (Inr u, out, s') \<Longrightarrow> ps_remote_addr s' = a \<and> ps_protocol s' = ps_protocol s"
  by (auto simp: ps_Connect_def ps_HandleConnectResponse_def Let_def split: if_splits option.splits)

lemma bind_lookup:
  "pm_GetProxySocket (bind_options i fd m) k = None \<longleftrightarrow> pm_GetProxySocket m k = None"
  "bind_port m protocol a = (r, m') \<Longrightarrow> pm_GetProxySocket m' k = pm_GetProxySocket m k"
  by (auto simp: bind_options_def bind_port_def pm_GetProxySocket_def pm_AllocatePort_def pm_ReservePort_def
      split: if_splits prod.splits)

lemma GetPort_sin_addr [simp]: "GetPort (a\<lparr>sin_addr := x\<rparr>) = GetPort a"
  by (simp add: GetPort_def)

lemma error_not_ok [simp]: "error_reply err \<noteq> ok_reply" "ok_reply \<noteq> error_reply err"
proof -
  show "error_reply err \<noteq> ok_reply" by (cases err) (simp_all add: error_reply_def ok_reply_def errno_word_def)
  then show "ok_reply \<noteq> error_reply err" by (rule not_sym)
qed

lemma pm_update_callbacks [simp]:
  "pm_send_callback (pm_update m fd f) = pm_send_callback m" "pm_connect_callback (pm_update m fd f) = pm_connect_callback m"
  by (simp_all add: pm_update_def)

lemma sendto_socket_new:
  assumes "pm_GetProxySocket m fd = None" "length (pm_sockets m) < MAX_PROXY_SOCKETS"
    "pp_AllocatePort (pm_port_pool m) (si_protocol i) = (port, p)" "port \<noteq> 0"
  obtains m' where "sendto_socket e fd i m = (None, m')" "pm_GetProxySocket m' fd = Some (auto_socket e i m port)"
    "pm_send_callback m' = pm_send_callback m"
proof -
  have c: "pm_CreateProxySocket m (ev_ring e) fd (si_type i) (si_protocol i) =
      (Some fd, m\<lparr>pm_sockets := pm_sockets m @ [(fd, ps_new (ev_ring e) (si_type i) (si_protocol i))]\<rparr>)"
    using assms(1,2) by (simp add: pm_CreateProxySocket_def pm_GetProxySocket_def)
  obtain m2 where a: "pm_AllocatePort (m\<lparr>pm_sockets := pm_sockets m @ [(fd, ps_new (ev_ring e) (si_type i) (si_protocol i))]\<rparr>)
      (si_protocol i) = (port, m2)"
    using assms(3) by (simp add: pm_AllocatePort_def)
  note facts = auto_allocated [OF assms(1) c a]
  have "auto_socket e i m2 port = auto_socket e i m port"
    using facts(2) by (simp add: auto_socket_def auto_addr_def)
  then show ?thesis
    using that [of "pm_update m2 fd (\<lambda>_. auto_socket e i m2 port)"] assms(1,4) facts
    by (simp add: sendto_socket_def c a auto_bind pm_GetProxySocket_def)
qed

lemma bound_to_lookup:
  "pm_inv m \<Longrightarrow> bound_to m protocol port a k \<longleftrightarrow> (\<exists>s. pm_GetProxySocket m k = Some s \<and> ps_protocol s = protocol \<and>
     GetPort (ps_local_addr s) = port \<and> GetAddr (ps_local_addr s) = a)"
  by (simp add: bound_to_def pm_inv_def pm_GetProxySocket_def)

text \<open>A successful bind of a new socket to any address, when the local address is known and no packet waits.\<close>

lemma bind_any_socket:
  assumes "bind_proxy se e fd i addr a g = (ok_reply, g')" "pm_GetProxySocket (bs_manager g) fd = None"
    "pm_pending_count (bs_manager g) = 0" "sin_addr a = 0" "pm_local_ip (bs_manager g) \<noteq> 0" "GetPort a \<noteq> 0"
    "map_of (bs_socket_info g) fd = Some i"
  obtains s where "pm_GetProxySocket (bs_manager g') fd = Some (s\<lparr>ps_broadcast := si_broadcast i\<rparr>)"
    "s = (ps_new (ev_ring e) (si_type i) (si_protocol i))\<lparr>ps_local_addr := a\<lparr>sin_addr := bswap32 (pm_local_ip (bs_manager g))\<rparr>, ps_state := Bound\<rparr>"
    "\<And>k. k \<noteq> fd \<Longrightarrow> pm_GetProxySocket (bs_manager g') k = pm_GetProxySocket (bs_manager g) k"
    "pm_local_ip (bs_manager g') = pm_local_ip (bs_manager g)" "is_proxy_fd g' fd"
    "bs_forwarded g' = bs_forwarded g @ [(ms_session_id se, bind_request fd addr)]" "bs_sent g' = bs_sent g"
proof -
  let ?m = "bs_manager g" and ?a = "a\<lparr>sin_addr := bswap32 (pm_local_ip (bs_manager g))\<rparr>"
  let ?new = "ps_new (ev_ring e) (si_type i) (si_protocol i)"
  obtain rc m1 where c: "pm_CreateProxySocket ?m (ev_ring e) fd (si_type i) (si_protocol i) = (rc, m1)" by fastforce
  have k: "rc = Some fd" using assms(1) c created_socket(1) by (cases rc) (auto simp: bind_proxy_def)
  note cr = created_socket [OF c [unfolded k]]
  define m2 where "m2 = bind_options i fd m1"
  have m2: "pm_GetProxySocket m2 fd = Some (?new\<lparr>ps_broadcast := si_broadcast i\<rparr>)" "pm_local_ip m2 = pm_local_ip ?m"
      "pm_pending_count m2 = 0" "x \<noteq> fd \<Longrightarrow> pm_GetProxySocket m2 x = pm_GetProxySocket ?m x" for x
    using cr assms(2,3) by (auto simp: m2_def bind_options_def pm_GetProxySocket_def) (simp add: ps_new_def)
  have adr: "bind_address m2 a = ?a" using assms(4,5) m2(2) by (simp add: bind_address_def)
  obtain ok p where r: "pp_AllocateSpecificPort (pm_port_pool m2) (GetPort a) (si_protocol i) = (ok, p)" by fastforce
  have b: "bind_port m2 (si_protocol i) ?a = (if ok then Some ?a else None, m2\<lparr>pm_port_pool := p\<rparr>)"
    using assms(6) r by (simp add: bind_port_def pm_ReservePort_def)
  note unf = bind_proxy_def c k m2_def [symmetric] adr b Let_def
  have ok: ok using assms(1) by (cases ok) (auto simp: unf)
  let ?s = "?new\<lparr>ps_broadcast := si_broadcast i\<rparr>" and ?m3 = "m2\<lparr>pm_port_pool := p\<rparr>"
  have s: "pm_GetProxySocket ?m3 fd = Some ?s" using m2(1) by (simp add: pm_GetProxySocket_def)
  have fam: "sin_family ?a = AF_Inet" 
    using assms(1) ok s by (simp add: unf ps_Bind_def ps_new_def split: if_splits)
  let ?s' = "?s\<lparr>ps_local_addr := ?a, ps_state := Bound\<rparr>"
  have bnd: "ps_Bind ?s ?a = (Inr (), ?s')" using fam by (simp add: ps_Bind_def ps_new_def)
  have del: "pm_DeliverPendingPackets (pm_update ?m3 fd (\<lambda>_. ?s')) now fd port protocol = pm_update ?m3 fd (\<lambda>_. ?s')" for now port protocol
    using m2(3) s by (simp add: pm_DeliverPendingPackets_def pm_GetProxySocket_def)
  have g': "g' = forward se (bind_request fd addr) (mark_proxy fd (g\<lparr>bs_manager := pm_update ?m3 fd (\<lambda>_. ?s')\<rparr>)\<lparr>bs_manager := pm_update ?m3 fd (\<lambda>_. ?s')\<rparr>)"
    using assms(1,4) ok s bnd del by (simp add: unf)
  show ?thesis
  proof (rule that)
    show "pm_GetProxySocket (bs_manager g') fd = Some (?new\<lparr>ps_local_addr := ?a, ps_state := Bound\<rparr>\<lparr>ps_broadcast := si_broadcast i\<rparr>)"
      using s by (simp add: g' pm_GetProxySocket_def)
    show "is_proxy_fd g' fd" using assms(7) by (simp add: g' is_proxy_fd_def)
    show "pm_GetProxySocket (bs_manager g') k = pm_GetProxySocket (bs_manager g) k" if "k \<noteq> fd" for k
      using m2(4) [OF that] that by (simp add: g' pm_GetProxySocket_def)
  qed (simp_all add: g' m2(2))
qed











text \<open>The sessions of one process: the answers to successive queries.\<close>

fun mitm_answers :: "nat \<Rightarrow> BsdState \<Rightarrow> whitelist \<Rightarrow> SharedState \<Rightarrow> u64 \<Rightarrow> u64 \<Rightarrow> bool list" where
  "mitm_answers 0 g games shared pid program_id = []"
| "mitm_answers (Suc n) g games shared pid program_id =
     (case ShouldMitm g games shared pid program_id of (b, g') \<Rightarrow> b # mitm_answers n g' games shared pid program_id)"

definition wanted :: "whitelist \<Rightarrow> SharedState \<Rightarrow> u64 \<Rightarrow> u64 \<Rightarrow> bool" where
  "wanted games shared pid program_id \<longleftrightarrow> program_id \<noteq> OUR_PROGRAM_ID \<and> 0x0100000000000000 \<le> program_id \<and>
     program_id \<noteq> 0x010028600ebda000 \<and>
     (if ss_ldn_pid shared = 0 then IsGameInWhitelist games program_id else ss_ldn_pid shared = pid)"

lemma count_of_update [simp]: "count_of (AList.update pid n t) pid = n"
  by (simp add: count_of_def update_conv')

lemma ShouldMitm_wanted:
  assumes "wanted games shared pid program_id" "\<forall>p. map_of (bs_pid_program_ids g) pid = Some p \<longrightarrow> p = program_id"
    "ShouldMitm g games shared pid program_id = (b, g')"
  shows "b \<longleftrightarrow> count_of (bs_mitm_pid_count g) pid + 1 \<noteq> 1" "count_of (bs_mitm_pid_count g') pid = count_of (bs_mitm_pid_count g) pid + 1"
    "map_of (bs_pid_program_ids g') pid = Some program_id"
  using assms by (auto simp: wanted_def ShouldMitm_def count_session_def update_conv' not_le Let_def split: if_splits option.splits)

lemma mitm_answers_counted:
  assumes "wanted games shared pid program_id" "\<forall>p. map_of (bs_pid_program_ids g) pid = Some p \<longrightarrow> p = program_id"
  shows "mitm_answers n g games shared pid program_id =
    map (\<lambda>k. count_of (bs_mitm_pid_count g) pid + word_of_nat k \<noteq> 0) [0..<n]"
  using assms(2)
proof (induction n arbitrary: g)
  case (Suc n)
  obtain b g' where s: "ShouldMitm g games shared pid program_id = (b, g')" by fastforce
  note f = ShouldMitm_wanted [OF assms(1) Suc.prems s]
  have "mitm_answers n g' games shared pid program_id =
      map (\<lambda>k. count_of (bs_mitm_pid_count g) pid + word_of_nat k \<noteq> 0) [1..<Suc n]"
    using Suc.IH [of g'] f(2,3) by (simp add: map_Suc_upt [symmetric] add.assoc del: upt_Suc)
  then show ?case using s f(1) by (simp add: upt_conv_Cons del: upt_Suc)
qed simp

text \<open>Two sockets and an environment, for the examples.\<close>

definition sample_env :: bsd_env where
  "sample_env = \<lparr>ev_real = \<lambda>_. \<lparr>rr_rc = 0, rr_errno = 0, rr_value = 0, rr_addrlen = 0, rr_pid_out = 0, rr_buffers = []\<rparr>, ev_answer = \<lambda>_. True,
     ev_ring = blank_ring, ev_now = 0, ev_response = Some \<lparr>pcres_info = \<lparr>pinfo_source_ipv4 = 0, pinfo_source_port = 0, pinfo_dest_ipv4 = 0,
       pinfo_dest_port = 0, pinfo_protocol = 0\<rparr>\<rparr>\<rparr>"

definition sample_info :: "SocketType \<Rightarrow> ProtocolType \<Rightarrow> SocketInfo" where
  "sample_info ty protocol = \<lparr>si_type = ty, si_protocol = protocol, si_is_proxy = False, si_broadcast = False, si_session_id = 1\<rparr>"

definition sample_service :: BsdMitmService where
  "sample_service = \<lparr>ms_client_pid = 9, ms_session_id = 1, ms_command_count = 0, ms_registered = True\<rparr>"

definition sample_state :: BsdState where
  "sample_state = \<lparr>bs_socket_info = [(3, sample_info Sock_Dgram Proto_Udp), (4, sample_info Sock_Stream Proto_Tcp)],
     bs_manager = (pm_new sample_pending)\<lparr>pm_local_ip := 0x0A720001, pm_send_callback := True, pm_connect_callback := True\<rparr>,
     bs_mitm_pid_count = [], bs_active_sessions = [], bs_pid_program_ids = [], bs_abandoned = [], bs_next_session_id = 1,
     bs_forwarded = [], bs_sent = []\<rparr>"

definition sample_addr :: "u32 \<Rightarrow> u16 \<Rightarrow> byte list" where
  "sample_addr ip port = SockAddrIn_to_bytes (inet_addr ip port)"

lemma sample_addr_facts [simp]:
  "length (sample_addr ip port) = 16" "SockAddrIn_of_bytes (sample_addr ip port) = inet_addr ip port"
  "addr_is_ldn (sample_addr ip port) \<longleftrightarrow> IsLdnAddress ip"
proof -
  have "wf_SockAddrIn (inet_addr ip port)" by (simp add: wf_SockAddrIn_def bytes_wf_def inet_addr_def inet_any_def)
  note f = SockAddrIn_wire.len_to [OF this] SockAddrIn_wire.of_to [OF this]
  show "length (sample_addr ip port) = 16" "SockAddrIn_of_bytes (sample_addr ip port) = inet_addr ip port"
    using f by (simp_all add: sample_addr_def)
  then show "addr_is_ldn (sample_addr ip port) \<longleftrightarrow> IsLdnAddress ip"
    by (simp add: addr_is_ldn_def is_ldn_def) (simp add: inet_addr_def inet_any_def)
qed

lemma sample_env_fields:
  "ev_answer sample_env = (\<lambda>_. True)" "ev_ring sample_env = blank_ring" "ev_now sample_env = 0"
  "map_option (\<lambda>r. pinfo_protocol (pcres_info r)) (ev_response sample_env) = Some 0"
  by (simp_all add: sample_env_def)

lemma sample_state_fields:
  "map_of (bs_socket_info sample_state) 3 = Some (sample_info Sock_Dgram Proto_Udp)"
  "map_of (bs_socket_info sample_state) 4 = Some (sample_info Sock_Stream Proto_Tcp)"
  "pm_sockets (bs_manager sample_state) = []" "pm_local_ip (bs_manager sample_state) = 0x0A720001"
  "pm_port_pool (bs_manager sample_state) = pp_new" "bs_sent sample_state = []" "bs_forwarded sample_state = []"
  "pm_send_callback (bs_manager sample_state)" "pm_connect_callback (bs_manager sample_state)"
  "pm_pending_count (bs_manager sample_state) = 0"
  by (simp_all add: sample_state_def pm_new_def)

definition sample_pool :: "ProtocolType \<Rightarrow> EphemeralPortPool" where
  "sample_pool protocol = snd (pp_AllocatePort pp_new protocol)"

lemma sample_allocate: "pp_AllocatePort pp_new protocol = (49152, sample_pool protocol)"
proof -
  have "port_search bits 0 0 16384 = Some 0" if "\<not> bits ! 0" for bits
    using that port_search.simps(2) [of bits 0 0 16383] by (simp add: Let_def)
  then have "port_search (pp_bits pp_new protocol) (pp_hint pp_new protocol) 0 16384 = Some 0"
    by (simp add: pp_bits_def pp_hint_def pp_new_def)
  then show ?thesis by (simp add: sample_pool_def pp_AllocatePort_def IndexToPort_def EPHEMERAL_PORT_MIN_def)
qed

definition sample_bound :: "fd \<Rightarrow> SocketInfo \<Rightarrow> ProxySocketManager" where
  "sample_bound fd i = (bs_manager sample_state)\<lparr>pm_sockets := [(fd, auto_socket sample_env i (bs_manager sample_state) 49152)],
     pm_port_pool := sample_pool (si_protocol i)\<rparr>"

lemma sample_connect: "connect_socket sample_env fd i (bs_manager sample_state) = (None, sample_bound fd i)"
proof -
  have "auto_addr (bs_manager sample_state\<lparr>pm_sockets := s, pm_port_pool := p\<rparr>) q = auto_addr (bs_manager sample_state) q" for s p q
    by (simp add: auto_addr_def)
  moreover have "ps_Bind (ps_new (ev_ring sample_env) (si_type i) (si_protocol i)) a = (Inr (), auto_socket sample_env i m q)"
    if "a = auto_addr m q" for a m q
    using that auto_bind by simp
  ultimately show ?thesis
    by (simp add: connect_socket_def pm_GetProxySocket_def sample_state_fields pm_CreateProxySocket_def pm_consts
      pm_AllocatePort_def sample_allocate sample_bound_def pm_update_def)
qed

subsection \<open>Properties\<close>

text \<open>
  Listening never reaches a proxy socket. Whatever the games call and the LDN side routes, starting from a
  new manager, \<^verbatim>\<open>RouteConnectRequest\<close> finds no listener and drops every incoming TCP connect request:
  \<^verbatim>\<open>Listen\<close>, \<^verbatim>\<open>Accept\<close> and \<^verbatim>\<open>Shutdown\<close> always go to the console's own service, so a
  game cannot accept stream connections over LDN. The registry stays well formed throughout.
\<close>

theorem connect_requests_never_accepted:
  assumes "bsd_step\<^sup>*\<^sup>* g g'" and "bs_manager g = pm_new ring" and "length ring = 32"
    and "set ring \<subseteq> {p. length (pk_data p) = 1400}"
  shows "pm_inv (bs_manager g') \<and> pm_RouteConnectRequest (bs_manager g') request = Done (False, bs_manager g')"
proof -
  have "quiet (bs_manager g')" using assms(1)
  proof (induction rule: rtranclp_induct)
    case base
    then show ?case using pm_new_quiet [OF assms(3,4)] assms(2) by simp
  qed (rule bsd_step_quiet)
  then have inv: "pm_inv (bs_manager g')" "no_listener (bs_manager g')" by (simp_all add: quiet_def)
  have "\<not> list_ex (\<lambda>(k, s). listens_for (pcreq_info request) s) (pm_sockets (bs_manager g'))"
    using inv unfolding no_listener_def pm_GetProxySocket_def listens_for_def pm_inv_def
    by (fastforce simp: list_ex_iff)
  then show ?thesis using inv(1) by (simp add: RouteConnectRequest_eq)
qed

theorem connect_requests_never_accepted_witness:
  "pm_RouteConnectRequest (bs_manager (snd (bsd_open (sample_state\<lparr>bs_manager := pm_new sample_pending\<rparr>) 9)))
       (ProxyConnectRequest_of_bytes (replicate 16 0)) =
     Done (False, bs_manager (snd (bsd_open (sample_state\<lparr>bs_manager := pm_new sample_pending\<rparr>) 9)))"
proof -
  have "bsd_step\<^sup>*\<^sup>* g (snd (bsd_open g 9))" for g using bsd_session by blast
  from connect_requests_never_accepted [OF this, of "sample_state\<lparr>bs_manager := pm_new sample_pending\<rparr>" sample_pending]
  show ?thesis by (simp add: sample_pending_def)
qed

text \<open>
  After a successful stream connect to an LDN address, closing the descriptor never returns: the manager sends the
  disconnect message while it holds its own lock.
\<close>

theorem close_after_connect_hangs:
  assumes "bsd_Connect se e fd addr g = (ok_reply, g')" and "addr_is_ldn addr"
    and "map_of (bs_socket_info g) fd = Some i" and "si_type i = Sock_Stream" and "si_protocol i = Proto_Tcp"
    and "pm_GetProxySocket (bs_manager g) fd = None" and "GetPort (SockAddrIn_of_bytes (take 16 addr)) \<noteq> 0"
  shows "bsd_Close se' e' fd g' = (Hangs, g')"
proof -
  let ?a = "SockAddrIn_of_bytes (take 16 addr)"
  have conn: "connect_proxy e fd i ?a g = (ok_reply, g')" using assms(1-3) by (simp add: bsd_Connect_def)
  obtain r m where c: "connect_socket e fd i (bs_manager g) = (r, m)" by fastforce
  have r: "r = None" using conn by (cases r) (simp_all add: connect_proxy_def c)
  obtain port where s: "pm_GetProxySocket m fd = Some (auto_socket e i m port)"
    using connect_socket_new [OF assms(6) c [unfolded r]] .
  let ?s = "auto_socket e i m port"
  obtain rr out s' where p: "ps_Connect ?s ?a (pm_Send m (ev_answer e) (connect_msg ?s ?a)) (ev_response e) = (rr, out, s')"
    using prod_cases3 by blast
  obtain u where rr: "rr = Inr u"
    using conn by (cases rr) (simp_all add: connect_proxy_def c r s p)
  have g': "g' = mark_proxy fd (g\<lparr>bs_manager := pm_update m fd (\<lambda>_. s'), bs_sent := bs_sent g @ out\<rparr>)"
    using conn by (simp add: connect_proxy_def c r s p rr)
  have "map_of (pm_sockets (bs_manager g')) fd = Some s'"
    using s by (simp add: g' pm_GetProxySocket_def)
  moreover have "fst (ps_Close s') \<noteq> []"
    using Connect_remote [of ?s ?a] p rr assms(5,7) by (simp add: ps_Close_def)
  ultimately have "pm_CloseProxySocket (bs_manager g') fd = Deadlock"
    by (auto simp: pm_CloseProxySocket_def Let_def split: prod.splits)
  moreover have "map_of (bs_socket_info g') fd = Some (i\<lparr>si_is_proxy := True\<rparr>)"
    using assms(3) by (simp add: g')
  ultimately show ?thesis by (simp add: bsd_Close_def)
qed

theorem close_after_connect_hangs_witness:
  "let g = snd (bsd_Connect sample_service sample_env 4 (sample_addr 0x0A720002 80) sample_state)
   in bsd_Close sample_service sample_env 4 g = (Hangs, g)"
proof -
  let ?a = "inet_addr 0x0A720002 80" and ?i = "sample_info Sock_Stream Proto_Tcp"
  have a: "sin_family ?a = AF_Inet" by (simp add: inet_addr_def inet_any_def)
  let ?s = "auto_socket sample_env ?i (bs_manager sample_state) 49152"
  obtain r where r: "ev_response sample_env = Some r" "pinfo_protocol (pcres_info r) = Proto_Unspecified"
    by (simp add: sample_env_def Proto_Unspecified_def)
  have "ps_type ?s = Sock_Stream" "\<not> ps_non_blocking ?s" "ps_state ?s = Bound"
    by (simp_all add: sample_info_def auto_socket_def ps_new_def)
  then have "fst (ps_Connect ?s ?a True (ev_response sample_env)) = Inr ()"
    using a r by (simp add: ps_Connect_def ps_HandleConnectResponse_def Let_def)
  then obtain out s' where conn: "ps_Connect ?s ?a True (ev_response sample_env) = (Inr (), out, s')"
    by (metis prod.collapse)
  have "pm_Send (sample_bound 4 ?i) (ev_answer sample_env) (connect_msg ?s ?a)" "pm_GetProxySocket (sample_bound 4 ?i) 4 = Some ?s"
    by (simp_all add: connect_msg_def sample_bound_def sample_env_fields sample_state_fields pm_GetProxySocket_def)
  then have "fst (bsd_Connect sample_service sample_env 4 (sample_addr 0x0A720002 80) sample_state) = ok_reply"
    by (simp add: bsd_Connect_def sample_state_fields connect_proxy_def sample_connect conn Let_def
        IsLdnAddress_def LDN_NETWORK_MASK_def LDN_NETWORK_BASE_def)
  then obtain g' where c: "bsd_Connect sample_service sample_env 4 (sample_addr 0x0A720002 80) sample_state = (ok_reply, g')"
    by (metis prod.collapse)
  with close_after_connect_hangs [OF c, of ?i sample_service sample_env] show ?thesis
    by (simp add: sample_state_fields pm_GetProxySocket_def IsLdnAddress_def LDN_NETWORK_MASK_def LDN_NETWORK_BASE_def)
      (simp add: sample_info_def)
qed

text \<open>
  A bind that fails because the port is taken leaves its proxy socket behind: the socket is registered before the port is
  reserved, the table of sockets is not updated, and a later close of the
  descriptor does not remove it. The entry keeps one of the 64 places until the session ends.
\<close>

theorem failed_bind_leaks_socket:
  assumes "bsd_Bind se e fd addr g = (error_reply AddrInUse, g')" and "map_of (bs_socket_info g) fd = Some i"
    and "\<not> si_is_proxy i" and "16 \<le> length addr" and "sin_family (SockAddrIn_of_bytes (take 16 addr)) = AF_Inet"
    and "is_ldn (SockAddrIn_of_bytes (take 16 addr)) \<or> sin_addr (SockAddrIn_of_bytes (take 16 addr)) = 0"
    and "bsd_Close se e' fd g' = (r, g'')"
  shows "pm_GetProxySocket (bs_manager g'') fd \<noteq> None \<and> map_of (bs_socket_info g'') fd = None"
proof -
  let ?a = "SockAddrIn_of_bytes (take 16 addr)"
  have b: "bind_proxy se e fd i addr ?a g = (error_reply AddrInUse, g')"
    using assms(1,2,4-6) by (simp add: bsd_Bind_def)
  obtain rc m1 where c: "pm_CreateProxySocket (bs_manager g) (ev_ring e) fd (si_type i) (si_protocol i) = (rc, m1)"
    by fastforce
  obtain k where k: "rc = Some k"
    using b c by (cases rc) (auto simp: bind_proxy_def error_reply_def errno_word_def)
  obtain rb m3 where p: "bind_port (bind_options i fd m1) (si_protocol i) (bind_address (bind_options i fd m1) ?a) = (rb, m3)"
    by fastforce
  obtain s where s: "pm_GetProxySocket m3 fd = Some s"
    using bind_lookup(1) [of i fd m1 fd] bind_lookup(2) [OF p, of fd] created_socket(2) [OF c [unfolded k]] by auto
  have "pm_GetProxySocket (bs_manager g') fd \<noteq> None \<and> bs_socket_info g' = bs_socket_info g"
  proof (cases rb)
    case None
    then show ?thesis using b c k p s by (auto simp: bind_proxy_def)
  next
    case (Some a')
    then show ?thesis
      using b c k p s
      by (auto simp: bind_proxy_def pm_GetProxySocket_def Let_def split: prod.splits sum.splits)
  qed
  then show ?thesis
    using assms(2,3,7) by (auto simp: bsd_Close_def passthrough_defs delete_conv' split: option.splits)
qed

theorem failed_bind_leaks_socket_witness:
  "let m = snd (pm_ReservePort (bs_manager sample_state) 50000 Proto_Udp);
       g = snd (bsd_Bind sample_service sample_env 3 (sample_addr 0 50000) (sample_state\<lparr>bs_manager := m\<rparr>))
   in pm_GetProxySocket (bs_manager (snd (bsd_Close sample_service sample_env 3 g))) 3 \<noteq> None"
proof -
  define m where "m = snd (pm_ReservePort (bs_manager sample_state) 50000 Proto_Udp)"
  have free: "unat (50000 :: u16) = 50000" by simp
  have taken: "pm_ReservePort m' 50000 Proto_Udp = (False, m')" if "pm_port_pool m' = pm_port_pool m" for m'
    using that by (simp add: pm_ReservePort_def m_def sample_state_fields pp_AllocateSpecificPort_def PortToIndex_def
        Port_Pool.EPHEMERAL_PORT_MIN_def EPHEMERAL_PORT_COUNT_def free pp_new_def pp_bits_def pp_set_bits_def Let_def)
  have full: "bind_port m' Proto_Udp a = (None, m')" if "pm_port_pool m' = pm_port_pool m" "GetPort a = 50000" for m' a
    using that taken by (simp add: bind_port_def)
  let ?g = "sample_state\<lparr>bs_manager := m\<rparr>" and ?a = "inet_addr 0 50000"
  have addr: "sin_family ?a = AF_Inet" "sin_addr ?a = 0" by (simp_all add: inet_addr_def inet_any_def)
  have "pm_sockets m = []" by (simp add: m_def pm_ReservePort_def sample_state_fields split: prod.split)
  then have "fst (bsd_Bind sample_service sample_env 3 (sample_addr 0 50000) ?g) = error_reply AddrInUse"
    by (simp add: bsd_Bind_def addr sample_state_fields bind_proxy_def pm_CreateProxySocket_def pm_consts bind_options_def
        sample_info_def full bind_address_def Let_def)
  then obtain g where b: "bsd_Bind sample_service sample_env 3 (sample_addr 0 50000) ?g = (error_reply AddrInUse, g)"
    by (metis prod.collapse)
  obtain r g'' where "bsd_Close sample_service sample_env 3 g = (r, g'')" by fastforce
  with failed_bind_leaks_socket [OF b _ _ _ _ _ this, of "sample_info Sock_Dgram Proto_Udp"]
  show ?thesis by (simp add: b m_def [symmetric] sample_state_fields addr) (simp add: sample_info_def)
qed

text \<open>
  C18: the first datagram to an LDN address turns an ordinary socket into a proxy socket: it is bound to a free
  ephemeral port of the local LDN address, the datagram goes out once with that source and the whole payload,
  nothing goes to the console's own stack, and the game sees the full length, or that the network
  is unreachable if the server connection does not take the message.
\<close>

theorem first_datagram_goes_out:
  assumes "addr_is_ldn addr" and "map_of (bs_socket_info g) fd = Some i" and "\<not> si_is_proxy i"
    and "pm_GetProxySocket (bs_manager g) fd = None" and "length (pm_sockets (bs_manager g)) < 64"
    and "pp_AllocatePort (pm_port_pool (bs_manager g)) (si_protocol i) = (port, p)" and "port \<noteq> 0" and "length d \<le> 2000"
    and "a = SockAddrIn_of_bytes (take 16 addr)"
    and "msg = OutData (pm_local_ip (bs_manager g)) port (GetAddr a) (GetPort a) (si_protocol i) d"
    and "bsd_SendTo se e fd flags d addr g = (r, g')"
  shows "bs_sent g' = bs_sent g @ [msg] \<and> bs_forwarded g' = bs_forwarded g \<and> is_proxy_fd g' fd \<and>
    r = (if pm_send_callback (bs_manager g) \<and> ev_answer e msg then Reply 0 0 (word_of_nat (length d)) [] else error_reply NetUnreach) \<and>
    (\<exists>s. pm_GetProxySocket (bs_manager g') fd = Some s \<and> ps_state s = Bound \<and>
       GetAddr (ps_local_addr s) = pm_local_ip (bs_manager g) \<and> GetPort (ps_local_addr s) = port)"
proof -
  let ?s = "auto_socket e i (bs_manager g) port"
  obtain m where m: "sendto_socket e fd i (bs_manager g) = (None, m)" "pm_GetProxySocket m fd = Some ?s"
      "pm_send_callback m = pm_send_callback (bs_manager g)"
    using sendto_socket_new [OF assms(4) _ assms(6,7)] assms(5) by (metis MAX_PROXY_SOCKETS_def)
  define g1 where "g1 = mark_proxy fd (g\<lparr>bs_manager := m\<rparr>)"
  have "sendto_ldn e fd g = (None, g1)" using assms(2,3) m(1) by (simp add: sendto_ldn_def g1_def)
  then have out: "proxy_send_to e ?s d a g1 = (r, g')"
    using assms(1,9,11) m(2) by (simp add: bsd_SendTo_def sendto_finish_def g1_def addr_is_ldn_def)
  have "data_msg ?s a d = msg" by (simp add: data_msg_def assms(10))
  then have sent: "ps_SendTo ?s (Some d) (length d) a ok = (if \<not> ok then (Inl NetUnreach, [msg]) else (Inr (length d), [msg]))" for ok
    using assms(8) by (simp add: ps_SendTo_def ps_consts)
  have "pm_Send m (ev_answer e) msg \<longleftrightarrow> pm_send_callback (bs_manager g) \<and> ev_answer e msg" by (simp add: assms(10) m(3))
  moreover have "g' = g1\<lparr>bs_sent := bs_sent g @ [msg]\<rparr>"
      "r = send_reply (if pm_Send m (ev_answer e) msg then Inr (length d) else Inl NetUnreach)"
    using out \<open>data_msg ?s a d = msg\<close> by (auto simp: proxy_send_to_def sent g1_def split: if_splits)
  ultimately show ?thesis
    using m(2) assms(2) by (simp add: send_reply_def is_proxy_fd_def) (simp add: g1_def)
qed

theorem first_datagram_goes_out_witness:
  "bs_sent (snd (bsd_SendTo sample_service sample_env 3 0 [1, 2] (sample_addr 0x0A720002 80) sample_state)) =
     [OutData 0x0A720001 49152 0x0A720002 80 Proto_Udp [1, 2]]"
proof -
  obtain r g' where s: "bsd_SendTo sample_service sample_env 3 0 [1, 2] (sample_addr 0x0A720002 80) sample_state = (r, g')"
    by fastforce
  have i: "si_protocol (sample_info Sock_Dgram Proto_Udp) = Proto_Udp" "\<not> si_is_proxy (sample_info Sock_Dgram Proto_Udp)"
    by (simp_all add: sample_info_def)
  have "addr_is_ldn (sample_addr 0x0A720002 80)"
    by (simp add: IsLdnAddress_def LDN_NETWORK_MASK_def LDN_NETWORK_BASE_def)
  from first_datagram_goes_out [OF this sample_state_fields(1) i(2) _ _ _ _ _ refl refl s, of 49152 "sample_pool Proto_Udp"]
  show ?thesis by (simp add: s i sample_state_fields pm_GetProxySocket_def sample_allocate)
qed












text \<open>
  Of the sessions a wanted process opens, the first is left to the console and every later one is
  intercepted, up to the wrap-around of the 32-bit session counter. A process is wanted if
  it is a game and is the one that uses LDN, or if nobody uses LDN and the game is on the whitelist.
\<close>

theorem first_session_left_alone:
  assumes "wanted games shared pid program_id" and "map_of (bs_pid_program_ids g) pid = None"
    and "count_of (bs_mitm_pid_count g) pid = 0" and "n < 2 ^ 32"
  shows "mitm_answers (Suc n) g games shared pid program_id = False # replicate n True"
proof -
  have "word_of_nat k \<noteq> (0 :: u32)" if "k \<in> set [1..<Suc n]" for k
    using that assms(4) by (auto simp: word_of_nat_eq_0_iff dvd_imp_le)
  then have "map (\<lambda>k. word_of_nat k \<noteq> (0 :: u32)) [1..<Suc n] = replicate n True"
    by (intro replicate_eqI) auto
  then show ?thesis
    using mitm_answers_counted [OF assms(1), of g "Suc n"] assms(2,3) by (simp add: upt_conv_Cons del: upt_Suc)
qed

theorem first_session_left_alone_witness:
  "mitm_answers 4 sample_state wl_new (ss_new\<lparr>ss_ldn_pid := 9\<rparr>) 9 0x0100000000001000 = [False, True, True, True]"
proof -
  have "wanted wl_new (ss_new\<lparr>ss_ldn_pid := 9\<rparr>) 9 0x0100000000001000"
    by (simp add: wanted_def OUR_PROGRAM_ID_def)
  note first = first_session_left_alone [OF this, of sample_state 3]
  have "Suc 3 = 4" "replicate 3 True = [True, True, True]" by (simp_all add: numeral_3_eq_3)
  moreover have "bs_pid_program_ids sample_state = []" "bs_mitm_pid_count sample_state = []" by (simp_all add: sample_state_def)
  ultimately show ?thesis using first by (simp add: count_of_def)
qed

text \<open>
  C17: a game that binds a new socket to any address and a port gets the data sent to its LDN address: the packet the receive
  thread routes to that address and port is what the next receive on the descriptor returns, whole, with the sender's address and port,
  and the real service takes part in the bind only.
\<close>

theorem bound_socket_receives:
  assumes "pm_inv (bs_manager g)" and "ring_ok e" and "map_of (bs_socket_info g) fd = Some i"
    and "pm_GetProxySocket (bs_manager g) fd = None" and "pm_pending_count (bs_manager g) = 0"
    and "pm_local_ip (bs_manager g) = ip" and "ip \<noteq> 0" and "\<not> is_broadcast ip"
    and "\<forall>k. \<not> bound_to (bs_manager g) (si_protocol i) port ip k"
    and "16 \<le> length addr" and "a = SockAddrIn_of_bytes (take 16 addr)" and "sin_family a = AF_Inet" and "sin_addr a = 0"
    and "GetPort a = port" and "port \<noteq> 0"
    and "bsd_Bind se e fd addr g = (ok_reply, g')"
    and "sip \<noteq> ip" and "length d \<le> n" and "n \<le> 2000" and "16 \<le> addr_size"
    and "pm_RouteIncomingData (bs_manager g') now sip sport ip port (si_protocol i) (Some d) (length d) = (ok, m)"
    and "bsd_RecvFrom se e' fd 0 n addr_size (g'\<lparr>bs_manager := m\<rparr>) = (r, g'')"
  shows "ok \<and> r = ReplyFrom 0 (word_of_nat (length d)) 0 16 [d, SockAddrIn_to_bytes (inet_addr sip sport)] \<and>
    bs_forwarded g'' = bs_forwarded g @ [(ms_session_id se, bind_request fd addr)] \<and> bs_sent g'' = bs_sent g"
proof -
  have b: "bind_proxy se e fd i addr a g = (ok_reply, g')"
    using assms(3,10-13,16) by (simp add: bsd_Bind_def Let_def)
  obtain s where s: "pm_GetProxySocket (bs_manager g') fd = Some (s\<lparr>ps_broadcast := si_broadcast i\<rparr>)"
    "s = (ps_new (ev_ring e) (si_type i) (si_protocol i))\<lparr>ps_local_addr := a\<lparr>sin_addr := bswap32 ip\<rparr>, ps_state := Bound\<rparr>"
    "\<And>k. k \<noteq> fd \<Longrightarrow> pm_GetProxySocket (bs_manager g') k = pm_GetProxySocket (bs_manager g) k"
    "pm_local_ip (bs_manager g') = ip" "is_proxy_fd g' fd"
    "bs_forwarded g' = bs_forwarded g @ [(ms_session_id se, bind_request fd addr)]" "bs_sent g' = bs_sent g"
    using bind_any_socket [OF b assms(4,5,13) _ _ assms(3)] assms(6,7,14,15) by metis
  let ?s = "s\<lparr>ps_broadcast := si_broadcast i\<rparr>"
  have inv: "pm_inv (bs_manager g')"
    using consistent.bind_proxy_kept [OF assms(2,1), of se fd i addr a] b by simp
  have bound: "bound_to (bs_manager g') (si_protocol i) port ip k \<longleftrightarrow> k = fd" for k
  proof (cases "k = fd")
    case True
    then show ?thesis
      using s(1) assms(14) by (simp add: bound_to_lookup [OF inv]) (simp add: s(2) ps_new_def GetAddr_def)
  next
    case False
    then show ?thesis
      using assms(9) s(3) [OF False] by (simp add: bound_to_lookup [OF inv] bound_to_lookup [OF assms(1)])
  qed
  have "pm_FindAllSocketsByDestination (bs_manager g') ip port (si_protocol i) 8 = [fd]"
    using FindAllSocketsByDestination_spec(3) [OF inv refl assms(8), where port = port and protocol = "si_protocol i"] bound
    by (auto split: list.splits)
  then have m: "m = pm_update (bs_manager g') fd (\<lambda>s. ps_IncomingData s (Some d) (length d) (inet_addr sip sport))" and ok
    using assms(17,21) s(4) by (simp_all add: pm_RouteIncomingData_def Let_def)
  let ?t = "ps_IncomingData ?s (Some d) (length d) (inet_addr sip sport)"
  have t: "pm_GetProxySocket m fd = Some ?t" using s(1) by (simp add: m pm_GetProxySocket_def)
  have si: "ps_inv ?s" "ps_queue ?s = []" "\<not> ps_shutdown_read ?s" "ps_state ?s = Bound" "ps_rx_count ?s = 0"
    using pm_socket_inv [OF inv s(1)] by (simp_all add: s(2) ps_new_def ps_queue_def)
  have q: "ps_queue ?t = [(inet_addr sip sport, d)]"
    using IncomingData_queue [OF si(1), of d "inet_addr sip sport"] si(2,5) assms(18,19) by simp
  have ti: "ps_inv ?t" "ps_rx_count ?t = 1"
    using IncomingData_inv_any [OF si(1)] length_ps_queue [of ?t] q by (simp_all del: length_ps_queue)
  have "ps_RecvFrom ?t False n 0 = consume_front ?t n False" 
    using si ti(2) by (simp add: ps_RecvFrom_def Let_def)
  then have "fst (ps_RecvFrom ?t False n 0) = Received d (Some (inet_addr sip sport))"
    using consume_front_drop [OF ti(1), of n] ti(2) q assms(18) by simp
  then show ?thesis
    using assms(20,22) s(5-7) t \<open>ok\<close> by (auto simp: bsd_RecvFrom_def is_proxy_fd_def split: prod.splits)
qed

theorem bound_socket_receives_witness:
  "let g' = snd (bsd_Bind sample_service sample_env 3 (sample_addr 0 6000) sample_state);
       m = snd (pm_RouteIncomingData (bs_manager g') 0 0x0A720002 7 0x0A720001 6000 Proto_Udp (Some [1, 2]) (length [1 :: byte, 2]))
   in fst (bsd_RecvFrom sample_service sample_env 3 0 100 16 (g'\<lparr>bs_manager := m\<rparr>)) =
        ReplyFrom 0 2 0 16 [[1, 2], sample_addr 0x0A720002 7]"
proof -
  let ?a = "inet_addr 0 6000" and ?i = "sample_info Sock_Dgram Proto_Udp"
  have a: "sin_family ?a = AF_Inet" "sin_addr ?a = 0" by (simp_all add: inet_addr_def inet_any_def)
  have i: "si_protocol ?i = Proto_Udp" by (simp add: sample_info_def)
  have free: "pp_AllocateSpecificPort p 6000 Proto_Udp = (True, p)" for p
    by (simp add: pp_AllocateSpecificPort_def PortToIndex_def EPHEMERAL_PORT_MIN_def Let_def)
  have inv: "pm_inv (bs_manager sample_state)"
    using pm_new_quiet [of sample_pending] by (simp add: sample_state_def sample_pending_def quiet_def pm_inv_def pm_pending_def)
  have "ps_Bind (ps_new r t p) b = (Inr (), (ps_new r t p)\<lparr>ps_local_addr := b, ps_state := Bound\<rparr>)" if "sin_family b = AF_Inet" for r t p b
    using that by (simp add: ps_Bind_def ps_new_def)
  then have "fst (bsd_Bind sample_service sample_env 3 (sample_addr 0 6000) sample_state) = ok_reply"
    by (simp add: bsd_Bind_def a sample_state_fields bind_proxy_def pm_CreateProxySocket_def pm_consts bind_options_def
        sample_info_def bind_port_def pm_ReservePort_def free bind_address_def pm_GetProxySocket_def Let_def)
  then obtain g' where b: "bsd_Bind sample_service sample_env 3 (sample_addr 0 6000) sample_state = (ok_reply, g')"
    by (metis prod.collapse)
  obtain ok m where m: "pm_RouteIncomingData (bs_manager g') 0 0x0A720002 7 0x0A720001 6000 (si_protocol ?i) (Some [1, 2])
      (length [1 :: byte, 2]) = (ok, m)"
    by fastforce
  obtain r g'' where r: "bsd_RecvFrom sample_service sample_env 3 0 100 16 (g'\<lparr>bs_manager := m\<rparr>) = (r, g'')" by fastforce
  have "ring_ok sample_env" by (simp add: ring_ok_def sample_env_fields blank_ring_def list_all_length)
  note recv = bound_socket_receives [OF inv this sample_state_fields(1) _ _ _ _ _ _ _ refl _ _ _ _ b _ _ _ _ m r]
  have "r = ReplyFrom 0 (word_of_nat (length [1 :: byte, 2])) 0 16 [[1, 2], sample_addr 0x0A720002 7]"
    using recv by (simp add: sample_state_fields a is_broadcast_def is_multicast_def bound_to_def pm_GetProxySocket_def sample_addr_def [symmetric])
  then show ?thesis using b m r by (simp add: i)
qed

end
