(* ===== verification/Bsd_Poll.thy ===== *)
theory Bsd_Poll
  imports Bsd_Mitm
begin

unbundle bit_operations_syntax

text \<open>
  The two waiting commands of the interception service, \<^verbatim>\<open>Select\<close> (5) and \<^verbatim>\<open>Poll\<close> (6) of \<^verbatim>\<open>bsd/bsd_mitm_service.cpp\<close>. A
  set of descriptors is its bytes, the poll array the list of its entries. When the call is forwarded,
  other threads run while the real service waits, so the merge of the two answers
  works on the manager as it is then. Shown: the exact answer when a proxy socket is ready or only proxy sockets are asked for.
\<close>

subsection \<open>Descriptor sets\<close>

definition fd_isset :: "nat \<Rightarrow> byte list \<Rightarrow> bool" where
  "fd_isset fd fds = (fd div 8 < length fds \<and> fds ! (fd div 8) AND push_bit (fd mod 8) 1 \<noteq> 0)"

definition fd_set_bit :: "nat \<Rightarrow> byte list \<Rightarrow> byte list" where
  "fd_set_bit fd fds =
     (if fd div 8 < length fds then fds[fd div 8 := fds ! (fd div 8) OR push_bit (fd mod 8) 1] else fds)"

subsection \<open>Select\<close>

record select_sets =
  fs_read :: "byte list"
  fs_write :: "byte list"
  fs_error :: "byte list"

text \<open>The output sets, the count of set bits and which kinds of sockets were seen.\<close>

record select_state =
  sl_sets :: select_sets
  sl_count :: u32
  sl_proxy :: bool
  sl_real :: bool

definition mark_read :: "nat \<Rightarrow> select_state \<Rightarrow> select_state" where
  "mark_read fd st = st\<lparr>sl_sets := (sl_sets st)\<lparr>fs_read := fd_set_bit fd (fs_read (sl_sets st))\<rparr>, sl_count := sl_count st + 1\<rparr>"

definition mark_write :: "nat \<Rightarrow> select_state \<Rightarrow> select_state" where
  "mark_write fd st = st\<lparr>sl_sets := (sl_sets st)\<lparr>fs_write := fd_set_bit fd (fs_write (sl_sets st))\<rparr>, sl_count := sl_count st + 1\<rparr>"

definition mark_error :: "nat \<Rightarrow> select_state \<Rightarrow> select_state" where
  "mark_error fd st = st\<lparr>sl_sets := (sl_sets st)\<lparr>fs_error := fd_set_bit fd (fs_error (sl_sets st))\<rparr>, sl_count := sl_count st + 1\<rparr>"

definition select_socket :: "select_sets \<Rightarrow> nat \<Rightarrow> ProxySocket \<Rightarrow> select_state \<Rightarrow> select_state" where
  "select_socket ins fd s st =
     (let st = (if fd_isset fd (fs_read ins) \<and> ps_HasPendingData s then mark_read fd st else st);
          st = (if fd_isset fd (fs_write ins) then mark_write fd st else st)
      in if fd_isset fd (fs_error ins) \<and> ps_state s = Closed then mark_error fd st else st)"

text \<open>The body of the first loop.\<close>

definition select_scan :: "ProxySocketManager \<Rightarrow> select_sets \<Rightarrow> select_state \<Rightarrow> nat \<Rightarrow> select_state" where
  "select_scan m ins st fd =
     (if \<not> fd_isset fd (fs_read ins) \<and> \<not> fd_isset fd (fs_write ins) \<and> \<not> fd_isset fd (fs_error ins) then st
      else case pm_GetProxySocket m (word_of_nat fd) of
             Some s \<Rightarrow> select_socket ins fd s (st\<lparr>sl_proxy := True\<rparr>)
           | None \<Rightarrow> st\<lparr>sl_real := True\<rparr>)"

text \<open>The body of the loop after the real call.\<close>

definition select_merge :: "ProxySocketManager \<Rightarrow> select_sets \<Rightarrow> select_state \<Rightarrow> nat \<Rightarrow> select_state" where
  "select_merge m ins st fd =
     (case pm_GetProxySocket m (word_of_nat fd) of Some s \<Rightarrow> select_socket ins fd s st | None \<Rightarrow> st)"

text \<open>What the real service left in an output buffer that held the given bytes.\<close>

definition real_buffer :: "real_reply \<Rightarrow> nat \<Rightarrow> byte list \<Rightarrow> byte list" where
  "real_buffer r k old =
     (let b = (if k < length (rr_buffers r) then rr_buffers r ! k else [])
      in take (length old) b @ drop (length b) old)"

definition sets_reply :: "Result \<Rightarrow> u32 \<Rightarrow> select_state \<Rightarrow> bsd_reply" where
  "sets_reply rc errno st = Reply rc errno (sl_count st) [fs_read (sl_sets st), fs_write (sl_sets st), fs_error (sl_sets st)]"

definition select_begin :: "ProxySocketManager \<Rightarrow> u32 \<Rightarrow> select_sets \<Rightarrow> nat \<Rightarrow> nat \<Rightarrow> nat \<Rightarrow> select_state" where
  "select_begin m nfds ins nr nw ne =
     foldl (select_scan m ins)
       \<lparr>sl_sets = \<lparr>fs_read = replicate nr 0, fs_write = replicate nw 0, fs_error = replicate ne 0\<rparr>, sl_count = 0,
        sl_proxy = False, sl_real = False\<rparr> [0..<nat (sint nfds)]"

definition select_end :: "real_reply \<Rightarrow> ProxySocketManager \<Rightarrow> u32 \<Rightarrow> select_sets \<Rightarrow> select_state \<Rightarrow> select_state" where
  "select_end r later nfds ins st =
     (let real = st\<lparr>sl_sets := \<lparr>fs_read = real_buffer r 0 (fs_read (sl_sets st)), fs_write = real_buffer r 1 (fs_write (sl_sets st)),
                     fs_error = real_buffer r 2 (fs_error (sl_sets st))\<rparr>, sl_count := rr_value r\<rparr>
      in if sl_proxy st \<and> rr_rc r = 0 then foldl (select_merge later ins) real [0..<nat (sint nfds)] else real)"

definition bsd_Select ::
  "BsdMitmService \<Rightarrow> bsd_env \<Rightarrow> ProxySocketManager \<Rightarrow> u32 \<Rightarrow> select_sets \<Rightarrow> byte list \<Rightarrow> nat \<Rightarrow> nat \<Rightarrow> nat \<Rightarrow> BsdState \<Rightarrow> bsd_reply \<times> BsdState" where
  "bsd_Select se e later nfds ins timeout nr nw ne g =
     (let st = select_begin (bs_manager g) nfds ins nr nw ne
      in if sl_proxy st \<and> \<not> sl_real st then (sets_reply 0 0 st, g)
         else if sl_proxy st \<and> 0 <s sl_count st then (sets_reply 0 0 st, g)
         else
           let rq = ipc_request 5 [S32 nfds] [InAuto (fs_read ins), InAuto (fs_write ins), InAuto (fs_error ins), InAuto timeout,
                      OutAuto nr, OutAuto nw, OutAuto ne];
               r = ev_real e rq
           in (sets_reply (rr_rc r) (rr_errno r) (select_end r later nfds ins st), forward se rq g))"

subsection \<open>Poll\<close>

definition poll_revents :: "ProxySocket \<Rightarrow> u16 \<Rightarrow> u16" where
  "poll_revents s events =
     (if events AND Poll_In \<noteq> 0 \<and> ps_HasPendingData s then Poll_In else 0) OR
     (if events AND Poll_Out \<noteq> 0 then Poll_Out else 0) OR
     (if ps_state s = Closed then Poll_Hup else 0)"

text \<open>The body of the first loop: a real descriptor's result is cleared.\<close>

definition poll_check :: "ProxySocketManager \<Rightarrow> PollFd \<Rightarrow> PollFd" where
  "poll_check m p = p\<lparr>pf_revents := (case pm_GetProxySocket m (pf_fd p) of Some s \<Rightarrow> poll_revents s (pf_events p) | None \<Rightarrow> 0)\<rparr>"

text \<open>The merge after the real call counts the events of the proxy sockets, not the sockets.\<close>

definition poll_events :: "ProxySocket \<Rightarrow> u16 \<Rightarrow> nat" where
  "poll_events s events =
     (if events AND Poll_In \<noteq> 0 \<and> ps_HasPendingData s then 1 else 0) + (if events AND Poll_Out \<noteq> 0 then 1 else 0) +
     (if ps_state s = Closed then 1 else 0)"

definition poll_merge :: "ProxySocketManager \<Rightarrow> PollFd \<Rightarrow> PollFd" where
  "poll_merge m p = (case pm_GetProxySocket m (pf_fd p) of Some s \<Rightarrow> p\<lparr>pf_revents := poll_revents s (pf_events p)\<rparr> | None \<Rightarrow> p)"

definition poll_merge_count :: "ProxySocketManager \<Rightarrow> PollFd \<Rightarrow> nat" where
  "poll_merge_count m p = (case pm_GetProxySocket m (pf_fd p) of Some s \<Rightarrow> poll_events s (pf_events p) | None \<Rightarrow> 0)"

text \<open>The output buffer after the copy of the input, and the number of entries the loops visit.\<close>

definition poll_buffer :: "byte list \<Rightarrow> byte list \<Rightarrow> byte list" where
  "poll_buffer fds_in out = (if length out \<ge> length fds_in then fds_in @ drop (length fds_in) out else out)"

definition poll_num :: "u32 \<Rightarrow> nat \<Rightarrow> nat" where
  "poll_num nfds out_size = (if sint nfds < 0 then out_size div 8 else min (nat (sint nfds)) (out_size div 8))"

definition poll_array :: "u32 \<Rightarrow> byte list \<Rightarrow> PollFd list" where
  "poll_array nfds buf = array_of 8 PollFd_of_bytes (poll_num nfds (length buf)) buf"

definition poll_write :: "PollFd list \<Rightarrow> byte list \<Rightarrow> byte list" where
  "poll_write fds buf = array_to PollFd_to_bytes fds @ drop (8 * length fds) buf"

definition bsd_Poll ::
  "BsdMitmService \<Rightarrow> bsd_env \<Rightarrow> ProxySocketManager \<Rightarrow> byte list \<Rightarrow> byte list \<Rightarrow> u32 \<Rightarrow> u32 \<Rightarrow> BsdState \<Rightarrow> bsd_reply \<times> BsdState" where
  "bsd_Poll se e later fds_in out nfds timeout g =
     (let buf = poll_buffer fds_in out;
          fds = map (poll_check (bs_manager g)) (poll_array nfds buf);
          buf = poll_write fds buf;
          is_proxy = (\<lambda>p. pm_GetProxySocket (bs_manager g) (pf_fd p) \<noteq> None);
          has_proxy_sockets = list_ex is_proxy fds;
          has_real_sockets = list_ex (\<lambda>p. \<not> is_proxy p) fds;
          ready_count = length (filter (\<lambda>p. pf_revents p \<noteq> 0) fds)
      in if has_proxy_sockets \<and> \<not> has_real_sockets then (Reply 0 0 (word_of_nat ready_count) [buf], g)
         else if has_proxy_sockets \<and> ready_count > 0 then (Reply 0 0 (word_of_nat ready_count) [buf], g)
         else
           let rq = ipc_request 6 [S32 nfds, S32 timeout] [InAuto fds_in, OutAuto (length out)];
               r = ev_real e rq;
               buf = real_buffer r 0 buf;
               fds = poll_array nfds buf;
               merge = has_proxy_sockets \<and> rr_rc r = 0
           in (Reply (rr_rc r) (rr_errno r)
                 (rr_value r + (if merge then word_of_nat (sum_list (map (poll_merge_count later) fds)) else 0))
                 [if merge then poll_write (map (poll_merge later) fds) buf else buf],
               forward se rq g))"

subsection \<open>Sets of bits\<close>

lemma fd_isset_bit: "fd_isset fd fds \<longleftrightarrow> fd div 8 < length fds \<and> bit (fds ! (fd div 8)) (fd mod 8)"
  by (simp add: fd_isset_def bit_iff_and_push_bit_not_eq_0)

lemma length_fd_set_bit [simp]: "length (fd_set_bit fd fds) = length fds"
  by (simp add: fd_set_bit_def)

lemma fd_isset_zero [simp]: "\<not> fd_isset fd (replicate n 0)"
  by (simp add: fd_isset_bit)

lemma fd_isset_set: "fd_isset k (fd_set_bit fd fds) \<longleftrightarrow> fd_isset k fds \<or> k = fd \<and> fd div 8 < length fds"
proof -
  have "bit (x OR push_bit (fd mod 8) 1) n \<longleftrightarrow> bit x n \<or> n = fd mod 8" if "n < 8" for n and x :: byte
    using that by (auto simp: bit_or_iff bit_exp_iff)
  moreover have "k div 8 = fd div 8 \<Longrightarrow> k mod 8 = fd mod 8 \<Longrightarrow> k = fd"
    by (metis div_mult_mod_eq)
  ultimately show ?thesis
    by (auto simp: fd_isset_bit fd_set_bit_def nth_list_update)
qed

text \<open>What a scan makes of one descriptor.\<close>

definition sel_ready_read :: "ProxySocketManager \<Rightarrow> select_sets \<Rightarrow> nat \<Rightarrow> bool" where
  "sel_ready_read m ins fd \<longleftrightarrow> fd_isset fd (fs_read ins) \<and>
     (\<exists>s. pm_GetProxySocket m (word_of_nat fd) = Some s \<and> ps_HasPendingData s)"

definition sel_ready_write :: "ProxySocketManager \<Rightarrow> select_sets \<Rightarrow> nat \<Rightarrow> bool" where
  "sel_ready_write m ins fd \<longleftrightarrow> fd_isset fd (fs_write ins) \<and> pm_GetProxySocket m (word_of_nat fd) \<noteq> None"

definition sel_ready_error :: "ProxySocketManager \<Rightarrow> select_sets \<Rightarrow> nat \<Rightarrow> bool" where
  "sel_ready_error m ins fd \<longleftrightarrow> fd_isset fd (fs_error ins) \<and>
     (\<exists>s. pm_GetProxySocket m (word_of_nat fd) = Some s \<and> ps_state s = Closed)"

lemmas sel_ready_defs = sel_ready_read_def sel_ready_write_def sel_ready_error_def

lemma select_scan_facts:
  "fs_read (sl_sets (select_scan m ins st fd)) = (if sel_ready_read m ins fd then fd_set_bit fd (fs_read (sl_sets st)) else fs_read (sl_sets st))"
  "fs_write (sl_sets (select_scan m ins st fd)) = (if sel_ready_write m ins fd then fd_set_bit fd (fs_write (sl_sets st)) else fs_write (sl_sets st))"
  "fs_error (sl_sets (select_scan m ins st fd)) = (if sel_ready_error m ins fd then fd_set_bit fd (fs_error (sl_sets st)) else fs_error (sl_sets st))"
  "sl_count (select_scan m ins st fd) = sl_count st + of_bool (sel_ready_read m ins fd) + of_bool (sel_ready_write m ins fd) +
     of_bool (sel_ready_error m ins fd)"
  by (auto simp: select_scan_def select_socket_def mark_read_def mark_write_def mark_error_def sel_ready_defs Let_def split: option.split)

lemma select_fold_facts:
  "fd_isset k (fs_read (sl_sets (foldl (select_scan m ins) st fds))) \<longleftrightarrow>
     fd_isset k (fs_read (sl_sets st)) \<or> k \<in> set fds \<and> sel_ready_read m ins k \<and> k div 8 < length (fs_read (sl_sets st))"
  "fd_isset k (fs_write (sl_sets (foldl (select_scan m ins) st fds))) \<longleftrightarrow>
     fd_isset k (fs_write (sl_sets st)) \<or> k \<in> set fds \<and> sel_ready_write m ins k \<and> k div 8 < length (fs_write (sl_sets st))"
  "fd_isset k (fs_error (sl_sets (foldl (select_scan m ins) st fds))) \<longleftrightarrow>
     fd_isset k (fs_error (sl_sets st)) \<or> k \<in> set fds \<and> sel_ready_error m ins k \<and> k div 8 < length (fs_error (sl_sets st))"
  "sl_count (foldl (select_scan m ins) st fds) = sl_count st + word_of_nat (length (filter (sel_ready_read m ins) fds) +
     length (filter (sel_ready_write m ins) fds) + length (filter (sel_ready_error m ins) fds))"
  by (induction fds arbitrary: st) (auto simp: select_scan_facts fd_isset_set)

subsection \<open>Properties\<close>

text \<open>
  When a descriptor of a proxy socket is ready, or only such descriptors are asked for, \<^verbatim>\<open>Select\<close> answers at once and
  without the real service: an output bit is set exactly for a requested descriptor below the limit that has a proxy socket
  with waiting data (read), has a proxy socket (write) or has a closed one (error), real descriptors are reported
  as not ready, and the count is the number of bits.
\<close>

theorem select_reports_ready_proxies:
  assumes "st = select_begin (bs_manager g) nfds ins nr nw ne" and "sl_proxy st" and "\<not> sl_real st \<or> 0 <s sl_count st"
    and "n = nat (sint nfds)" and "bsd_Select se e later nfds ins timeout nr nw ne g = (r, g')"
  shows "\<exists>rd wr er. r = Reply 0 0 (word_of_nat (length (filter (sel_ready_read (bs_manager g) ins) [0..<n]) +
        length (filter (sel_ready_write (bs_manager g) ins) [0..<n]) + length (filter (sel_ready_error (bs_manager g) ins) [0..<n])))
      [rd, wr, er] \<and> g' = g \<and>
    (\<forall>fd. fd_isset fd rd \<longleftrightarrow> fd < min n (8 * nr) \<and> sel_ready_read (bs_manager g) ins fd) \<and>
    (\<forall>fd. fd_isset fd wr \<longleftrightarrow> fd < min n (8 * nw) \<and> sel_ready_write (bs_manager g) ins fd) \<and>
    (\<forall>fd. fd_isset fd er \<longleftrightarrow> fd < min n (8 * ne) \<and> sel_ready_error (bs_manager g) ins fd)"
proof -
  have "r = sets_reply 0 0 st" "g' = g"
    using assms(2,3,5) by (auto simp: bsd_Select_def assms(1) [symmetric] Let_def split: if_splits)
  then show ?thesis
    unfolding sets_reply_def assms(1) select_begin_def assms(4) [symmetric]
    by (auto simp: select_fold_facts div_less_iff_less_mult mult.commute)
qed

definition sample_poll_state :: BsdState where
  "sample_poll_state = sample_state\<lparr>bs_manager := (bs_manager sample_state)\<lparr>pm_sockets := [(3, sample_socket Sock_Dgram Proto_Udp 0 6)]\<rparr>\<rparr>"

lemma sample_sets:
  "fd_isset 0 [8] = False" "fd_isset (Suc 0) [8] = False" "fd_isset 2 [8] = False" "fd_isset 3 [8]" "fd_isset fd [] = False"
  "[0..<4] = [0, 1, 2, 3 :: nat]"
  by (simp_all add: fd_isset_def upt_rec)

lemma sample_poll_socket:
  "pm_GetProxySocket (bs_manager sample_poll_state) 3 = Some (sample_socket Sock_Dgram Proto_Udp 0 6)"
  "ps_rx_count (sample_socket Sock_Dgram Proto_Udp 0 6) = 0" "ps_state (sample_socket Sock_Dgram Proto_Udp 0 6) = Bound"
  by (simp_all add: pm_GetProxySocket_def sample_poll_state_def sample_socket_def ps_new_def)

theorem select_reports_ready_proxies_witness:
  "\<exists>rd wr er. bsd_Select sample_service sample_env (bs_manager sample_state) 4 \<lparr>fs_read = [8], fs_write = [8], fs_error = []\<rparr> [] 1 1 0
       sample_poll_state = (Reply 0 0 1 [rd, wr, er], sample_poll_state) \<and> fd_isset 3 wr \<and> \<not> fd_isset 3 rd"
proof -
  let ?ins = "\<lparr>fs_read = [8], fs_write = [8], fs_error = []\<rparr>" and ?m = "bs_manager sample_poll_state"
  have n: "nat (sint (4 :: u32)) = 4" by simp
  have "sl_proxy (select_begin ?m 4 ?ins 1 1 0)" "\<not> sl_real (select_begin ?m 4 ?ins 1 1 0)"
    by (simp_all add: select_begin_def n sample_sets select_scan_def select_socket_def mark_write_def sample_poll_socket ps_HasPendingData_def)
  moreover have "\<not> sel_ready_read ?m ?ins 3" "sel_ready_write ?m ?ins 3"
    "length (filter (sel_ready_read ?m ?ins) [0..<4]) + length (filter (sel_ready_write ?m ?ins) [0..<4]) +
     length (filter (sel_ready_error ?m ?ins) [0..<4]) = 1"
    by (simp_all add: sample_sets sel_ready_defs sample_poll_socket ps_HasPendingData_def)
  moreover obtain r g' where "bsd_Select sample_service sample_env (bs_manager sample_state) 4 ?ins [] 1 1 0 sample_poll_state = (r, g')"
    by fastforce
  ultimately show ?thesis
    using select_reports_ready_proxies [OF refl _ _ n [symmetric], of sample_poll_state ?ins 1 1 0] by fastforce
qed

text \<open>
  \<^verbatim>\<open>Poll\<close> over proxy sockets only answers at once, whatever the timeout: every entry keeps its descriptor and its
  requested events and gets the events that hold of its socket, entries beyond the count and other bytes of the buffer are unchanged, and
  the count is the number of entries with an event. It is zero, and the game spins, when nothing is ready.
\<close>

theorem poll_proxies_answers_at_once:
  assumes "fds_in = array_to PollFd_to_bytes fds" and "fds \<noteq> []"
    and "\<forall>p \<in> set fds. pm_GetProxySocket (bs_manager g) (pf_fd p) \<noteq> None"
    and "length out = length fds_in" and "nat (sint nfds) = length fds" 
    and "answer = map (poll_check (bs_manager g)) fds"
  shows "bsd_Poll se e later fds_in out nfds timeout g =
      (Reply 0 0 (word_of_nat (length (filter (\<lambda>p. pf_revents p \<noteq> 0) answer))) [array_to PollFd_to_bytes answer], g) \<and>
    (\<forall>i < length fds. pf_fd (answer ! i) = pf_fd (fds ! i) \<and> pf_events (answer ! i) = pf_events (fds ! i) \<and>
       (\<exists>s. pm_GetProxySocket (bs_manager g) (pf_fd (fds ! i)) = Some s \<and>
          pf_revents (answer ! i) = poll_revents s (pf_events (fds ! i))))"
proof -
  have buf: "poll_buffer fds_in out = fds_in" using assms(4) by (simp add: poll_buffer_def)
  have ok: "list_all wf_PollFd fds" by (simp add: list_all_iff wf_PollFd_def)
  have len: "length fds_in = length fds * 8" using PollFd_wire.array_len_to [OF ok] assms(1) by simp
  have arr: "poll_array nfds fds_in = fds"
    using assms(1,2,5) len PollFd_wire.array_of_to [OF ok] by (simp add: poll_array_def poll_num_def split: if_splits)
  have fd: "pf_fd (poll_check m p) = pf_fd p" for m p by (simp add: poll_check_def)
  then have "list_ex (\<lambda>p. pm_GetProxySocket (bs_manager g) (pf_fd p) \<noteq> None) answer"
    "\<not> list_ex (\<lambda>p. pm_GetProxySocket (bs_manager g) (pf_fd p) = None) answer"
    using assms(2,3,6) by (auto simp: list_ex_iff neq_Nil_conv)
  moreover have "poll_write answer fds_in = array_to PollFd_to_bytes answer"
    using len assms(6) by (simp add: poll_write_def)
  ultimately have "bsd_Poll se e later fds_in out nfds timeout g =
      (Reply 0 0 (word_of_nat (length (filter (\<lambda>p. pf_revents p \<noteq> 0) answer))) [array_to PollFd_to_bytes answer], g)"
    unfolding bsd_Poll_def Let_def buf arr assms(6) [symmetric] by simp
  moreover have "\<exists>s. pm_GetProxySocket (bs_manager g) (pf_fd (fds ! i)) = Some s \<and>
      pf_revents (answer ! i) = poll_revents s (pf_events (fds ! i))" if "i < length fds" for i
    using bspec [OF assms(3) nth_mem [OF that]] that by (auto simp: assms(6) poll_check_def)
  ultimately show ?thesis by (simp add: assms(6) fd) (simp add: poll_check_def)
qed

theorem poll_proxies_answers_at_once_witness:
  "bsd_Poll sample_service sample_env (bs_manager sample_state) (PollFd_to_bytes \<lparr>pf_fd = 3, pf_events = Poll_In, pf_revents = 0\<rparr>)
     (replicate 8 7) 1 1000 sample_poll_state =
   (Reply 0 0 0 [PollFd_to_bytes \<lparr>pf_fd = 3, pf_events = Poll_In, pf_revents = 0\<rparr>], sample_poll_state)"
proof -
  let ?p = "\<lparr>pf_fd = 3, pf_events = Poll_In, pf_revents = 0\<rparr>"
  have "poll_check (bs_manager sample_poll_state) ?p = ?p"
    by (simp add: poll_check_def sample_poll_socket poll_revents_def Poll_In_def Poll_Out_def ps_HasPendingData_def)
  moreover have "length (PollFd_to_bytes ?p) = 8" by (rule PollFd_wire.len_to) (simp add: wf_PollFd_def)
  ultimately show ?thesis
    using poll_proxies_answers_at_once [of "PollFd_to_bytes ?p" "[?p]" sample_poll_state "replicate 8 7" 1
        "map (poll_check (bs_manager sample_poll_state)) [?p]" sample_service sample_env "bs_manager sample_state" 1000]
    by (simp add: array_to_def sample_poll_socket)
qed

end
