(* ===== verification/Upnp_Mapper.thy ===== *)
theory Upnp_Mapper
  imports Bsd_Types
begin

unbundle bit_operations_syntax

text \<open>
  The port mapper of \<^verbatim>\<open>p2p/upnp_port_mapper.cpp\<close>. The UPnP library it calls and the console's network service are parameters:
  a record of what each call answers.
\<close>

text \<open>
  What the library answers: the discovery (none, or the result code of \<^verbatim>\<open>UPNP_GetValidIGD\<close> with whether it filled the control URL, and the
  local address), the codes of the mapping calls (zero is success), the external address, and the console's address.
\<close>

record upnp_lib =
  ul_discover :: "(int \<times> bool \<times> string) option"
  ul_add :: "u16 \<Rightarrow> u16 \<Rightarrow> int \<Rightarrow> int"
  ul_delete :: "u16 \<Rightarrow> int"
  ul_external_ip :: "string option"
  ul_nifm :: "u32 option"

record UpnpPortMapper =
  um_control_url :: bool
  um_lan_addr :: string
  um_available :: bool

definition PORT_LEASE_DURATION :: int where "PORT_LEASE_DURATION = 60"

definition um_new :: UpnpPortMapper where
  "um_new = \<lparr>um_control_url = False, um_lan_addr = [], um_available = False\<rparr>"

definition um_Discover :: "upnp_lib \<Rightarrow> UpnpPortMapper \<Rightarrow> bool \<times> UpnpPortMapper" where
  "um_Discover lib u =
     (if um_available u then (True, u)
      else let u = u\<lparr>um_control_url := False\<rparr>
        in case ul_discover lib of
             None \<Rightarrow> (False, u)
           | Some (result, url, lan) \<Rightarrow>
               let u = u\<lparr>um_control_url := url, um_lan_addr := lan\<rparr>
               in if result = 1 \<or> result = 2 then (True, u\<lparr>um_available := True\<rparr>) else (False, u))"

definition um_IsAvailable :: "UpnpPortMapper \<Rightarrow> bool" where "um_IsAvailable u = um_available u"

definition um_AddPortMapping :: "upnp_lib \<Rightarrow> UpnpPortMapper \<Rightarrow> u16 \<Rightarrow> u16 \<Rightarrow> int \<Rightarrow> bool" where
  "um_AddPortMapping lib u internal_port external_port lease_duration =
     (if \<not> um_available u \<or> \<not> um_control_url u then False
      else ul_add lib internal_port external_port lease_duration = 0)"

definition um_DeletePortMapping :: "upnp_lib \<Rightarrow> UpnpPortMapper \<Rightarrow> u16 \<Rightarrow> bool" where
  "um_DeletePortMapping lib u external_port =
     (if \<not> um_available u \<or> \<not> um_control_url u then False
      else let result = ul_delete lib external_port in result = 0 \<or> result = 714)"

definition um_RefreshPortMapping :: "upnp_lib \<Rightarrow> UpnpPortMapper \<Rightarrow> u16 \<Rightarrow> u16 \<Rightarrow> bool" where
  "um_RefreshPortMapping lib u internal_port external_port =
     um_AddPortMapping lib u internal_port external_port PORT_LEASE_DURATION"

definition um_GetExternalIPAddress :: "upnp_lib \<Rightarrow> UpnpPortMapper \<Rightarrow> nat \<Rightarrow> string option" where
  "um_GetExternalIPAddress lib u ip_len =
     (if \<not> um_available u \<or> \<not> um_control_url u \<or> ip_len = 0 then None
      else map_option (take (ip_len - 1)) (ul_external_ip lib))"

definition um_GetLocalIPAddress :: "UpnpPortMapper \<Rightarrow> nat \<Rightarrow> string option" where
  "um_GetLocalIPAddress u ip_len =
     (if \<not> um_available u \<or> ip_len = 0 then None else Some (take (ip_len - 1) (um_lan_addr u)))"

definition um_GetLocalIPv4Nifm :: "upnp_lib \<Rightarrow> u32" where
  "um_GetLocalIPv4Nifm lib = (case ul_nifm lib of Some addr \<Rightarrow> bswap32 addr | None \<Rightarrow> 0)"

text \<open>The conversion \<^verbatim>\<open>%u\<close> of \<^verbatim>\<open>sscanf\<close>: blanks, a sign, digits; the value is taken modulo \<open>2 ^ 32\<close>.\<close>

definition dec_digit :: "char \<Rightarrow> bool" where "dec_digit c \<longleftrightarrow> 48 \<le> (of_char c :: nat) \<and> (of_char c :: nat) \<le> 57"

definition scan_space :: "char \<Rightarrow> bool" where
  "scan_space c \<longleftrightarrow> (of_char c :: nat) = 32 \<or> 9 \<le> (of_char c :: nat) \<and> (of_char c :: nat) \<le> 13"

definition digits_value :: "string \<Rightarrow> nat" where
  "digits_value ds = foldl (\<lambda>n c. 10 * n + (of_char c - 48)) 0 ds"

definition scan_u :: "string \<Rightarrow> (u32 \<times> string) option" where
  "scan_u s =
     (let s = dropWhile scan_space s;
          neg = (s \<noteq> [] \<and> hd s = CHR ''-'');
          s = (if s \<noteq> [] \<and> (hd s = CHR ''-'' \<or> hd s = CHR ''+'') then tl s else s);
          ds = takeWhile dec_digit s
      in if ds = [] then None
         else Some (if neg then - word_of_nat (digits_value ds) else word_of_nat (digits_value ds), dropWhile dec_digit s))"

definition scan_dot :: "string \<Rightarrow> string option" where
  "scan_dot s = (if s \<noteq> [] \<and> hd s = CHR ''.'' then Some (tl s) else None)"

definition scan_dotted :: "string \<Rightarrow> (u32 \<times> u32 \<times> u32 \<times> u32) option" where
  "scan_dotted s =
     Option.bind (scan_u s) (\<lambda>(a, s). Option.bind (scan_dot s) (\<lambda>s.
     Option.bind (scan_u s) (\<lambda>(b, s). Option.bind (scan_dot s) (\<lambda>s.
     Option.bind (scan_u s) (\<lambda>(c, s). Option.bind (scan_dot s) (\<lambda>s.
     Option.bind (scan_u s) (\<lambda>(d, s). Some (a, b, c, d))))))))"

definition um_GetLocalIPv4 :: "upnp_lib \<Rightarrow> UpnpPortMapper \<Rightarrow> u32" where
  "um_GetLocalIPv4 lib u =
     (if \<not> um_available u \<or> um_lan_addr u = [] then um_GetLocalIPv4Nifm lib
      else case scan_dotted (um_lan_addr u) of
             None \<Rightarrow> um_GetLocalIPv4Nifm lib
           | Some (a, b, c, d) \<Rightarrow>
               if a > 255 \<or> b > 255 \<or> c > 255 \<or> d > 255 then um_GetLocalIPv4Nifm lib
               else push_bit 24 a OR push_bit 16 b OR push_bit 8 c OR d)"

definition um_Cleanup :: "UpnpPortMapper \<Rightarrow> UpnpPortMapper" where
  "um_Cleanup u = u\<lparr>um_control_url := False, um_lan_addr := [], um_available := False\<rparr>"

end
