(* ===== verification/P2p_Server.thy ===== *)
theory P2p_Server
  imports Packet_Buffer Upnp_Mapper
begin

unbundle bit_operations_syntax

text \<open>
  The proxy a host runs for its peers, \<^verbatim>\<open>p2p/p2p_proxy_server.cpp\<close>: sessions that authenticate with a token of the master
  server and messages routed between them. Sessions are heap objects owned by \<^verbatim>\<open>unique_ptr\<close> arrays; the model keeps the heap, so that
  freeing an object twice or using it after it was freed is visible (\<open>pw_fault\<close>). The results of system calls are scripts or arguments,
  and what other threads do while a function waits is a list of state changes.
\<close>

definition PRIVATE_PORT_BASE :: u16 where "PRIVATE_PORT_BASE = 39990"
definition PRIVATE_PORT_RANGE :: u16 where "PRIVATE_PORT_RANGE = 10"
definition PUBLIC_PORT_BASE :: u16 where "PUBLIC_PORT_BASE = 39990"
definition PUBLIC_PORT_RANGE :: nat where "PUBLIC_PORT_RANGE = 10"
definition PORT_LEASE_LENGTH :: int where "PORT_LEASE_LENGTH = 60"
definition PORT_LEASE_RENEW :: nat where "PORT_LEASE_RENEW = 50"
definition MAX_PLAYERS :: nat where "MAX_PLAYERS = 8"
definition MAX_ZOMBIE_SESSIONS :: nat where "MAX_ZOMBIE_SESSIONS = 16"
definition MAX_WAITING_TOKENS :: nat where "MAX_WAITING_TOKENS = 16"

type_synonym addr = nat

record P2pProxySession =
  se_socket_fd :: int
  se_remote_ip :: u32
  se_virtual_ip :: u32
  se_connected :: bool
  se_authenticated :: bool
  se_master_closed :: bool
  se_stack_slot :: int
  se_thread_done :: bool

record P2pProxyServer =
  sv_listen_fd :: int
  sv_private_port :: u16
  sv_public_port :: u16
  sv_running :: bool
  sv_disposed :: bool
  sv_lease_thread_running :: bool
  sv_sessions :: "addr option list"
  sv_session_count :: int
  sv_zombies :: "addr option list"
  sv_zombie_count :: nat
  sv_waiting_tokens :: "ExternalProxyToken list"
  sv_broadcast_address :: u32
  sv_master_callback :: bool
  sv_host_virtual_ip :: u32
  sv_host_data_callback :: bool

text \<open>What the host's callback is given.\<close>

record host_data =
  hd_info :: ProxyInfo
  hd_data :: "byte list"

text \<open>
  The world of the proxy: the server, the heap, the pool of thread stacks, the results of the next system calls \<^verbatim>\<open>send\<close>, and
  what was sent to peers, to the master server and to the host, and which descriptors were closed.
\<close>

record p2p_state =
  pw_server :: P2pProxyServer
  pw_heap :: "addr \<Rightarrow> P2pProxySession option"
  pw_next :: addr
  pw_fault :: bool
  pw_stacks :: "bool list"
  pw_sends :: "int list"
  pw_sent :: "(addr \<times> byte list) list"
  pw_master :: "byte list list"
  pw_host :: "host_data list"
  pw_closed :: "int list"

definition sv_new :: "bool \<Rightarrow> P2pProxyServer" where
  "sv_new master =
     \<lparr>sv_listen_fd = - 1, sv_private_port = 0, sv_public_port = 0, sv_running = False, sv_disposed = False,
      sv_lease_thread_running = False, sv_sessions = replicate MAX_PLAYERS None, sv_session_count = 0,
      sv_zombies = replicate MAX_ZOMBIE_SESSIONS None, sv_zombie_count = 0, sv_waiting_tokens = [],
      sv_broadcast_address = 0, sv_master_callback = master, sv_host_virtual_ip = 0, sv_host_data_callback = False\<rparr>"

definition on_server :: "(P2pProxyServer \<Rightarrow> P2pProxyServer) \<Rightarrow> p2p_state \<Rightarrow> p2p_state" where
  "on_server f w = w\<lparr>pw_server := f (pw_server w)\<rparr>"

definition fault :: "p2p_state \<Rightarrow> p2p_state" where "fault w = w\<lparr>pw_fault := True\<rparr>"

text \<open>A write to a session through a pointer.\<close>

definition with_session :: "addr \<Rightarrow> (P2pProxySession \<Rightarrow> P2pProxySession) \<Rightarrow> p2p_state \<Rightarrow> p2p_state" where
  "with_session a f w =
     (case pw_heap w a of Some s \<Rightarrow> w\<lparr>pw_heap := (pw_heap w)(a \<mapsto> f s)\<rparr> | None \<Rightarrow> fault w)"

subsection \<open>Thread stacks\<close>

fun find_free :: "bool list \<Rightarrow> nat option" where
  "find_free [] = None"
| "find_free (b # bs) = (if \<not> b then Some 0 else map_option Suc (find_free bs))"

definition AllocateSessionStackSlot :: "p2p_state \<Rightarrow> int \<times> p2p_state" where
  "AllocateSessionStackSlot w =
     (case find_free (pw_stacks w) of
        Some i \<Rightarrow> (int i, w\<lparr>pw_stacks := (pw_stacks w)[i := True]\<rparr>)
      | None \<Rightarrow> (- 1, w))"

definition ReleaseSessionStackSlot :: "int \<Rightarrow> p2p_state \<Rightarrow> p2p_state" where
  "ReleaseSessionStackSlot slot w =
     (if slot < 0 \<or> slot \<ge> int MAX_PLAYERS then w else w\<lparr>pw_stacks := (pw_stacks w)[nat slot := False]\<rparr>)"

subsection \<open>Session objects\<close>

text \<open>The part of \<^verbatim>\<open>Disconnect\<close> before it calls the server; \<open>True\<close> if it was connected.\<close>

definition session_close :: "addr \<Rightarrow> bool \<Rightarrow> p2p_state \<Rightarrow> bool \<times> p2p_state" where
  "session_close a from_master w =
     (case pw_heap w a of
        None \<Rightarrow> (False, fault w)
      | Some s \<Rightarrow>
          if \<not> se_connected s then (False, w)
          else
            (True, (with_session a (\<lambda>s. s\<lparr>se_connected := False, se_master_closed := from_master, se_socket_fd := - 1\<rparr>) w)
               \<lparr>pw_closed := pw_closed w @ (if se_socket_fd s \<ge> 0 then [se_socket_fd s] else [])\<rparr>))"

text \<open>\<^verbatim>\<open>delete\<close>: the destructor disconnects and returns the stack, then the object is gone.\<close>

definition delete_session :: "addr \<Rightarrow> p2p_state \<Rightarrow> p2p_state" where
  "delete_session a w =
     (case pw_heap w a of
        None \<Rightarrow> fault w
      | Some s \<Rightarrow>
          let w = snd (session_close a True w);
              w = (if se_stack_slot s \<ge> 0 then ReleaseSessionStackSlot (se_stack_slot s) w else w)
          in w\<lparr>pw_heap := (pw_heap w)(a := None)\<rparr>)"

text \<open>\<^verbatim>\<open>unique_ptr::reset\<close> on an element of the zombie array: the new pointer is stored, then the old object is deleted, even if it is the same.\<close>

definition zombie_reset :: "nat \<Rightarrow> addr option \<Rightarrow> p2p_state \<Rightarrow> p2p_state" where
  "zombie_reset i p w =
     (let old = sv_zombies (pw_server w) ! i;
          w = on_server (\<lambda>v. v\<lparr>sv_zombies := (sv_zombies v)[i := p]\<rparr>) w
      in case old of Some a \<Rightarrow> delete_session a w | None \<Rightarrow> w)"

definition session_Send :: "addr \<Rightarrow> byte list \<Rightarrow> p2p_state \<Rightarrow> bool \<times> p2p_state" where
  "session_Send a data w =
     (case pw_heap w a of
        None \<Rightarrow> (False, fault w)
      | Some s \<Rightarrow>
          if \<not> se_connected s \<or> se_socket_fd s < 0 then (False, w)
          else case pw_sends w of
                 [] \<Rightarrow> (False, w)
               | r # rs \<Rightarrow> (r = int (length data), w\<lparr>pw_sends := rs, pw_sent := pw_sent w @ [(a, take (nat r) data)]\<rparr>))"

subsection \<open>Disconnection\<close>

definition encoded_bytes :: "encoded \<Rightarrow> byte list" where
  "encoded_bytes r = (case r of (result, buffer, len) \<Rightarrow> take len buffer)"

definition NotifyMasterDisconnect :: "u32 \<Rightarrow> p2p_state \<Rightarrow> p2p_state" where
  "NotifyMasterDisconnect virtual_ip w =
     (if \<not> sv_master_callback (pw_server w) then w
      else w\<lparr>pw_master := pw_master w @ [encoded_bytes (encode 8 ExternalProxyConnectionState_to_bytes (replicate 256 0)
             PacketId.ExternalProxyState \<lparr>epcs_ip_address = virtual_ip, epcs_connected = 0, epcs_pad = replicate 3 0\<rparr>)]\<rparr>)"

fun find_session :: "addr \<Rightarrow> addr option list \<Rightarrow> nat option" where
  "find_session a [] = None"
| "find_session a (p # ps) = (if p = Some a then Some 0 else map_option Suc (find_session a ps))"

definition detach_session :: "addr \<Rightarrow> p2p_state \<Rightarrow> p2p_state" where
  "detach_session a w =
     (case find_session a (sv_sessions (pw_server w)) of
        None \<Rightarrow> w
      | Some i \<Rightarrow>
          let w = on_server (\<lambda>v. v\<lparr>sv_sessions := (sv_sessions v)[i := None], sv_session_count := sv_session_count v - 1\<rparr>) w
          in case pw_heap w a of
               None \<Rightarrow> fault w
             | Some s \<Rightarrow> if se_authenticated s then NotifyMasterDisconnect (se_virtual_ip s) w else w)"

definition add_zombie :: "addr \<Rightarrow> p2p_state \<Rightarrow> p2p_state" where
  "add_zombie a w =
     (let n = sv_zombie_count (pw_server w)
      in if n < MAX_ZOMBIE_SESSIONS then zombie_reset n (Some a) (on_server (\<lambda>v. v\<lparr>sv_zombie_count := n + 1\<rparr>) w) else w)"

definition OnSessionDisconnected :: "addr \<Rightarrow> p2p_state \<Rightarrow> p2p_state" where
  "OnSessionDisconnected a w = add_zombie a (detach_session a w)"

definition session_Disconnect :: "addr \<Rightarrow> bool \<Rightarrow> p2p_state \<Rightarrow> p2p_state" where
  "session_Disconnect a from_master w =
     (case session_close a from_master w of
        (was_connected, w) \<Rightarrow> if was_connected \<and> \<not> from_master then OnSessionDisconnected a w else w)"

subsection \<open>Reaping\<close>

text \<open>The loop under the lock: what was kept so far, what was taken.\<close>

definition reap_one :: "nat \<times> addr list \<times> p2p_state \<Rightarrow> nat \<Rightarrow> nat \<times> addr list \<times> p2p_state" where
  "reap_one acc i =
     (case acc of (kept, taken, w) \<Rightarrow>
        (case sv_zombies (pw_server w) ! i of
           Some z \<Rightarrow>
             (case pw_heap w z of
                None \<Rightarrow> (kept + 1, taken, zombie_reset kept (Some z) (fault w))
              | Some s \<Rightarrow> if se_thread_done s then (kept, taken @ [z], w) else (kept + 1, taken, zombie_reset kept (Some z) w))
         | None \<Rightarrow> (kept + 1, taken, zombie_reset kept None w)))"

text \<open>Joining the thread reads the session, then it is deleted.\<close>

definition join_delete :: "p2p_state \<Rightarrow> addr \<Rightarrow> p2p_state" where
  "join_delete w z = delete_session z (if pw_heap w z = None then fault w else w)"

definition ReapZombieSessions :: "p2p_state \<Rightarrow> p2p_state" where
  "ReapZombieSessions w =
     (case foldl reap_one (0, [], w) [0..<sv_zombie_count (pw_server w)] of
        (kept, taken, w) \<Rightarrow>
          let w = on_server (\<lambda>v. v\<lparr>sv_zombie_count := kept\<rparr>) w;
              w = foldl (\<lambda>w i. zombie_reset i None w) w [kept..<MAX_ZOMBIE_SESSIONS]
          in foldl join_delete w taken)"

subsection \<open>Tokens\<close>

definition AddWaitingToken :: "ExternalProxyToken \<Rightarrow> p2p_state \<Rightarrow> p2p_state" where
  "AddWaitingToken token =
     on_server (\<lambda>v. v\<lparr>sv_waiting_tokens :=
       (if length (sv_waiting_tokens v) \<ge> MAX_WAITING_TOKENS then tl (sv_waiting_tokens v) else sv_waiting_tokens v) @ [token]\<rparr>)"

definition token_ip :: "ExternalProxyToken \<Rightarrow> u32" where
  "token_ip t =
     push_bit 24 (ucast (ept_physical_ip t ! 0)) OR push_bit 16 (ucast (ept_physical_ip t ! 1)) OR
     push_bit 8 (ucast (ept_physical_ip t ! 2)) OR ucast (ept_physical_ip t ! 3)"

definition token_accepts :: "ExternalProxyToken \<Rightarrow> ExternalProxyConfig \<Rightarrow> u32 \<Rightarrow> bool" where
  "token_accepts t config remote_ip =
     (let is_private = list_all (\<lambda>b. b = 0) (take 16 (ept_physical_ip t));
          ip_match = (is_private \<or> ept_address_family t = 2 \<and> token_ip t = remote_ip);
          token_match = (ept_token t = epc_token config);
          ip_match = (if token_match \<and> \<not> ip_match then True else ip_match)
      in ip_match \<and> token_match)"

definition Configure :: "ProxyConfig \<Rightarrow> P2pProxyServer \<Rightarrow> P2pProxyServer" where
  "Configure config v = v\<lparr>sv_broadcast_address := pcfg_proxy_ip config OR NOT (pcfg_proxy_subnet_mask config)\<rparr>"

fun free_slot :: "addr option list \<Rightarrow> nat option" where
  "free_slot [] = None"
| "free_slot (p # ps) = (if p = None then Some 0 else map_option Suc (free_slot ps))"

definition store_session :: "addr \<Rightarrow> P2pProxyServer \<Rightarrow> P2pProxyServer" where
  "store_session a v =
     (case free_slot (sv_sessions v) of
        Some j \<Rightarrow> v\<lparr>sv_sessions := (sv_sessions v)[j := Some a], sv_session_count := sv_session_count v + 1\<rparr>
      | None \<Rightarrow> v)"

fun find_token :: "(ExternalProxyToken \<Rightarrow> bool) \<Rightarrow> ExternalProxyToken list \<Rightarrow> nat option" where
  "find_token P [] = None"
| "find_token P (t # ts) = (if P t then Some 0 else map_option Suc (find_token P ts))"

text \<open>
  The registration with the token at index \<open>i\<close>. \<^verbatim>\<open>token\<close> is a reference to the array element, and the later tokens are moved down
  before it is read again: it then names the next token, if there is one.
\<close>

definition token_after_removal :: "nat \<Rightarrow> ExternalProxyToken list \<Rightarrow> ExternalProxyToken" where
  "token_after_removal i ts = (if i + 1 < length ts then ts ! (i + 1) else ts ! i)"

definition register_token :: "addr \<Rightarrow> nat \<Rightarrow> p2p_state \<Rightarrow> p2p_state" where
  "register_token a i w =
     (let ts = sv_waiting_tokens (pw_server w);
          w = on_server (\<lambda>v. v\<lparr>sv_waiting_tokens := take i ts @ drop (i + 1) ts\<rparr>) w;
          token = token_after_removal i ts;
          w = with_session a (\<lambda>s. s\<lparr>se_virtual_ip := ept_virtual_ip token, se_authenticated := True\<rparr>) w;
          proxy_config = \<lparr>pcfg_proxy_ip = ept_virtual_ip token, pcfg_proxy_subnet_mask = 0xFFFF0000\<rparr>;
          w = on_server (\<lambda>v. store_session a (if sv_session_count v = 0 then Configure proxy_config v else v)) w
      in snd (session_Send a (encoded_bytes (encode 8 ProxyConfig_to_bytes (replicate 256 0) PacketId.ProxyConfig proxy_config)) w))"

text \<open>The ten attempts, each followed by a wait in which other threads may run.\<close>

fun register_loop :: "nat \<Rightarrow> (p2p_state \<Rightarrow> p2p_state) list \<Rightarrow> addr \<Rightarrow> ExternalProxyConfig \<Rightarrow> u32 \<Rightarrow> p2p_state \<Rightarrow> bool \<times> p2p_state" where
  "register_loop 0 waits a config remote_ip w = (False, w)"
| "register_loop (Suc n) waits a config remote_ip w =
     (case find_token (\<lambda>t. token_accepts t config remote_ip) (sv_waiting_tokens (pw_server w)) of
        Some i \<Rightarrow> (True, register_token a i w)
      | None \<Rightarrow> register_loop n (tl waits) a config remote_ip (case waits of f # fs \<Rightarrow> f w | [] \<Rightarrow> w))"

definition TryRegisterUser :: "(p2p_state \<Rightarrow> p2p_state) list \<Rightarrow> addr \<Rightarrow> ExternalProxyConfig \<Rightarrow> u32 \<Rightarrow> p2p_state \<Rightarrow> bool \<times> p2p_state" where
  "TryRegisterUser waits a config remote_ip w = register_loop 10 waits a config remote_ip w"

subsection \<open>Routing\<close>

definition SetHostVirtualIp :: "u32 \<Rightarrow> p2p_state \<Rightarrow> p2p_state" where
  "SetHostVirtualIp virtual_ip = on_server (\<lambda>v. v\<lparr>sv_host_virtual_ip := virtual_ip\<rparr>)"

definition SetHostDataCallback :: "bool \<Rightarrow> p2p_state \<Rightarrow> p2p_state" where
  "SetHostDataCallback callback = on_server (\<lambda>v. v\<lparr>sv_host_data_callback := callback\<rparr>)"

text \<open>The destination the games use for everyone, \<open>192.168.0.255\<close>, stands for the broadcast address of the network.\<close>

definition map_dest :: "u32 \<Rightarrow> u32 \<Rightarrow> u32" where
  "map_dest broadcast_address dest_ip = (if dest_ip = 0xc0a800ff then broadcast_address else dest_ip)"

fun route_all :: "(addr \<Rightarrow> p2p_state \<Rightarrow> p2p_state) \<Rightarrow> addr option list \<Rightarrow> p2p_state \<Rightarrow> p2p_state" where
  "route_all send_func [] w = w"
| "route_all send_func (None # ps) w = route_all send_func ps w"
| "route_all send_func (Some a # ps) w =
     (case pw_heap w a of
        None \<Rightarrow> route_all send_func ps (fault w)
      | Some s \<Rightarrow> route_all send_func ps (if se_authenticated s then send_func a w else w))"

fun route_first :: "(addr \<Rightarrow> p2p_state \<Rightarrow> p2p_state) \<Rightarrow> u32 \<Rightarrow> addr option list \<Rightarrow> p2p_state \<Rightarrow> p2p_state" where
  "route_first send_func dest_ip [] w = w"
| "route_first send_func dest_ip (None # ps) w = route_first send_func dest_ip ps w"
| "route_first send_func dest_ip (Some a # ps) w =
     (case pw_heap w a of
        None \<Rightarrow> route_first send_func dest_ip ps (fault w)
      | Some s \<Rightarrow>
          if se_authenticated s \<and> se_virtual_ip s = dest_ip then send_func a w
          else route_first send_func dest_ip ps w)"

text \<open>\<^verbatim>\<open>info\<close> is a reference: the result has its new value, which \<^verbatim>\<open>send_func\<close> sees too.\<close>

definition RouteMessage ::
  "addr \<Rightarrow> ProxyInfo \<Rightarrow> (ProxyInfo \<Rightarrow> addr \<Rightarrow> p2p_state \<Rightarrow> p2p_state) \<Rightarrow> p2p_state \<Rightarrow> ProxyInfo \<times> p2p_state" where
  "RouteMessage sender info send_func w =
     (case pw_heap w sender of
        None \<Rightarrow> (info, fault w)
      | Some s \<Rightarrow>
          if pinfo_source_ipv4 info \<noteq> 0 \<and> pinfo_source_ipv4 info \<noteq> se_virtual_ip s then (info, w)
          else
            let dest_ip = map_dest (sv_broadcast_address (pw_server w)) (pinfo_dest_ipv4 info);
                info = info\<lparr>pinfo_source_ipv4 := se_virtual_ip s, pinfo_dest_ipv4 := dest_ip\<rparr>
            in (info,
                if dest_ip = sv_broadcast_address (pw_server w) then route_all (send_func info) (sv_sessions (pw_server w)) w
                else route_first (send_func info) dest_ip (sv_sessions (pw_server w)) w))"

definition HostShouldReceive :: "u32 \<Rightarrow> u32 \<Rightarrow> u32 \<Rightarrow> bool" where
  "HostShouldReceive dest_ip host_vip broadcast_address \<longleftrightarrow>
     (let dest_ip = map_dest broadcast_address dest_ip
      in dest_ip = broadcast_address \<or> host_vip \<noteq> 0 \<and> dest_ip = host_vip)"

definition proxy_data_packet :: "ProxyDataHeader \<Rightarrow> byte list \<Rightarrow> encoded" where
  "proxy_data_packet header data =
     encode_with_data 20 ProxyDataHeader_to_bytes (replicate 4096 0) PacketId.ProxyData header (Some data) (length data)"

definition send_encoded :: "addr \<Rightarrow> encoded \<Rightarrow> p2p_state \<Rightarrow> p2p_state" where
  "send_encoded target e w = snd (session_Send target (encoded_bytes e) w)"

definition HandleProxyData :: "addr \<Rightarrow> ProxyDataHeader \<Rightarrow> byte list \<Rightarrow> p2p_state \<Rightarrow> p2p_state" where
  "HandleProxyData sender header data w =
     (case RouteMessage sender (pdh_info header)
             (\<lambda>info target. send_encoded target (proxy_data_packet (header\<lparr>pdh_info := info\<rparr>) data)) w of
        (info, w) \<Rightarrow>
          if HostShouldReceive (pinfo_dest_ipv4 info) (sv_host_virtual_ip (pw_server w)) (sv_broadcast_address (pw_server w)) \<and>
             sv_host_data_callback (pw_server w)
          then w\<lparr>pw_host := pw_host w @ [\<lparr>hd_info = info, hd_data = data\<rparr>]\<rparr>
          else w)"

definition HandleProxyConnect :: "addr \<Rightarrow> ProxyConnectRequest \<Rightarrow> p2p_state \<Rightarrow> p2p_state" where
  "HandleProxyConnect sender request w =
     snd (RouteMessage sender (pcreq_info request)
       (\<lambda>info target. send_encoded target
          (encode 16 ProxyConnectRequest_to_bytes (replicate 256 0) PacketId.ProxyConnect (request\<lparr>pcreq_info := info\<rparr>))) w)"

definition HandleProxyConnectReply :: "addr \<Rightarrow> ProxyConnectResponse \<Rightarrow> p2p_state \<Rightarrow> p2p_state" where
  "HandleProxyConnectReply sender response w =
     snd (RouteMessage sender (pcres_info response)
       (\<lambda>info target. send_encoded target
          (encode 16 ProxyConnectResponse_to_bytes (replicate 256 0) PacketId.ProxyConnectReply (response\<lparr>pcres_info := info\<rparr>))) w)"

definition HandleProxyDisconnect :: "addr \<Rightarrow> ProxyDisconnectMessage \<Rightarrow> p2p_state \<Rightarrow> p2p_state" where
  "HandleProxyDisconnect sender message w =
     snd (RouteMessage sender (pdisc_info message)
       (\<lambda>info target. send_encoded target
          (encode 20 ProxyDisconnectMessage_to_bytes (replicate 256 0) PacketId.ProxyDisconnect (message\<lparr>pdisc_info := info\<rparr>))) w)"

text \<open>The host's own messages, as far as any session took the packet.\<close>

fun host_all :: "byte list \<Rightarrow> addr option list \<Rightarrow> p2p_state \<Rightarrow> bool \<times> p2p_state" where
  "host_all pkt [] w = (False, w)"
| "host_all pkt (None # ps) w = host_all pkt ps w"
| "host_all pkt (Some a # ps) w =
     (case pw_heap w a of
        None \<Rightarrow> host_all pkt ps (fault w)
      | Some s \<Rightarrow>
          if \<not> se_authenticated s then host_all pkt ps w
          else case session_Send a pkt w of
                 (sent, w) \<Rightarrow> (case host_all pkt ps w of (any_sent, w) \<Rightarrow> (sent \<or> any_sent, w)))"

fun host_first :: "byte list \<Rightarrow> u32 \<Rightarrow> addr option list \<Rightarrow> p2p_state \<Rightarrow> bool \<times> p2p_state" where
  "host_first pkt dest_ip [] w = (False, w)"
| "host_first pkt dest_ip (None # ps) w = host_first pkt dest_ip ps w"
| "host_first pkt dest_ip (Some a # ps) w =
     (case pw_heap w a of
        None \<Rightarrow> host_first pkt dest_ip ps (fault w)
      | Some s \<Rightarrow>
          if se_authenticated s \<and> se_virtual_ip s = dest_ip then session_Send a pkt w
          else host_first pkt dest_ip ps w)"

definition BroadcastFromHost ::
  "ProxyDataHeader \<Rightarrow> byte list \<Rightarrow> p2p_state \<Rightarrow> bool \<times> ProxyDataHeader \<times> p2p_state" where
  "BroadcastFromHost header data w =
     (let v = pw_server w; host = sv_host_virtual_ip v; src = pinfo_source_ipv4 (pdh_info header)
      in if host = 0 then (False, header, w)
         else if src \<noteq> 0 \<and> src \<noteq> host then (False, header, w)
         else
           let dest_ip = map_dest (sv_broadcast_address v) (pinfo_dest_ipv4 (pdh_info header));
               header = header\<lparr>pdh_info := (pdh_info header)\<lparr>pinfo_source_ipv4 := host, pinfo_dest_ipv4 := dest_ip\<rparr>\<rparr>;
               enc = proxy_data_packet header data
           in if fst enc \<noteq> EncodeResult.Success then (False, header, w)
              else case (if dest_ip = sv_broadcast_address v then host_all (encoded_bytes enc) (sv_sessions v) w
                         else host_first (encoded_bytes enc) dest_ip (sv_sessions v) w) of
                     (any_sent, w) \<Rightarrow> (any_sent, header, w))"

subsection \<open>The master server's notices\<close>

text \<open>The sessions with the address, as pointers taken under the lock; a dangling one is read.\<close>

fun victims :: "u32 \<Rightarrow> addr option list \<Rightarrow> p2p_state \<Rightarrow> addr list \<times> p2p_state" where
  "victims virtual_ip [] w = ([], w)"
| "victims virtual_ip (None # ps) w = victims virtual_ip ps w"
| "victims virtual_ip (Some a # ps) w =
     (case pw_heap w a of
        None \<Rightarrow> victims virtual_ip ps (fault w)
      | Some s \<Rightarrow>
          (case victims virtual_ip ps w of
             (vs, w) \<Rightarrow> (if se_virtual_ip s = virtual_ip then a # vs else vs, w)))"

definition HandleExternalProxyStateChange :: "u32 \<Rightarrow> bool \<Rightarrow> p2p_state \<Rightarrow> p2p_state" where
  "HandleExternalProxyStateChange virtual_ip connected w =
     (if connected then w
      else
        let w = on_server (\<lambda>v. v\<lparr>sv_waiting_tokens := List.filter (\<lambda>t. ept_virtual_ip t \<noteq> virtual_ip) (sv_waiting_tokens v)\<rparr>) w
        in case victims virtual_ip (sv_sessions (pw_server w)) w of
             (vs, w) \<Rightarrow> foldl (\<lambda>w a. session_Disconnect a False w) w vs)"

subsection \<open>Sessions\<close>

definition session_new :: "int \<Rightarrow> u32 \<Rightarrow> P2pProxySession" where
  "session_new socket_fd remote_ip =
     \<lparr>se_socket_fd = socket_fd, se_remote_ip = remote_ip, se_virtual_ip = 0, se_connected = True, se_authenticated = False,
      se_master_closed = False, se_stack_slot = - 1, se_thread_done = False\<rparr>"

definition new_session :: "int \<Rightarrow> u32 \<Rightarrow> p2p_state \<Rightarrow> addr \<times> p2p_state" where
  "new_session socket_fd remote_ip w =
     (pw_next w, w\<lparr>pw_heap := (pw_heap w)(pw_next w \<mapsto> session_new socket_fd remote_ip), pw_next := pw_next w + 1\<rparr>)"

text \<open>\<^verbatim>\<open>created\<close> is whether the system made the thread; the first result is whether a receive thread runs.\<close>

definition session_Start :: "bool \<Rightarrow> addr \<Rightarrow> p2p_state \<Rightarrow> bool \<times> p2p_state" where
  "session_Start created a w =
     (case AllocateSessionStackSlot w of
        (slot, w) \<Rightarrow>
          let w = with_session a (\<lambda>s. s\<lparr>se_stack_slot := slot\<rparr>) w
          in if slot < 0 then (False, with_session a (\<lambda>s. s\<lparr>se_connected := False\<rparr>) w) else (created, w))"

definition session_HandleExternalProxy :: "(p2p_state \<Rightarrow> p2p_state) list \<Rightarrow> addr \<Rightarrow> ExternalProxyConfig \<Rightarrow> p2p_state \<Rightarrow> p2p_state" where
  "session_HandleExternalProxy waits a config w =
     (case pw_heap w a of
        None \<Rightarrow> fault w
      | Some s \<Rightarrow>
          (case TryRegisterUser waits a config (se_remote_ip s) w of
             (ok, w) \<Rightarrow> if \<not> ok then session_Disconnect a False w else w))"

text \<open>The handlers of the other messages do nothing before the session is authenticated.\<close>

definition when_authenticated :: "addr \<Rightarrow> (p2p_state \<Rightarrow> p2p_state) \<Rightarrow> p2p_state \<Rightarrow> p2p_state" where
  "when_authenticated a f w =
     (case pw_heap w a of None \<Rightarrow> fault w | Some s \<Rightarrow> if \<not> se_authenticated s then w else f w)"

definition session_HandleProxyData :: "addr \<Rightarrow> ProxyDataHeader \<Rightarrow> byte list \<Rightarrow> p2p_state \<Rightarrow> p2p_state" where
  "session_HandleProxyData a header data = when_authenticated a (HandleProxyData a header data)"

definition session_HandleProxyConnect :: "addr \<Rightarrow> ProxyConnectRequest \<Rightarrow> p2p_state \<Rightarrow> p2p_state" where
  "session_HandleProxyConnect a request = when_authenticated a (HandleProxyConnect a request)"

definition session_HandleProxyConnectReply :: "addr \<Rightarrow> ProxyConnectResponse \<Rightarrow> p2p_state \<Rightarrow> p2p_state" where
  "session_HandleProxyConnectReply a response = when_authenticated a (HandleProxyConnectReply a response)"

definition session_HandleProxyDisconnect :: "addr \<Rightarrow> ProxyDisconnectMessage \<Rightarrow> p2p_state \<Rightarrow> p2p_state" where
  "session_HandleProxyDisconnect a message = when_authenticated a (HandleProxyDisconnect a message)"

text \<open>The signed size of the header, converted to \<^verbatim>\<open>size_t\<close>.\<close>

definition payload_size_t :: "byte list \<Rightarrow> nat" where
  "payload_size_t data = unat (word_of_int (get_payload_size data) :: u64)"

definition session_ProcessData :: "(p2p_state \<Rightarrow> p2p_state) list \<Rightarrow> addr \<Rightarrow> byte list \<Rightarrow> nat \<Rightarrow> p2p_state \<Rightarrow> p2p_state" where
  "session_ProcessData waits a data sz w =
     (if sz < 12 then w
      else let packet_data = get_payload_ptr data; data_size = payload_size_t data in
        case get_packet_type data of
          PacketId.ExternalProxy \<Rightarrow>
            if data_size \<ge> 38 then session_HandleExternalProxy waits a (ExternalProxyConfig_of_bytes (take 38 packet_data)) w else w
        | PacketId.ProxyData \<Rightarrow>
            if data_size \<ge> 20
            then session_HandleProxyData a (ProxyDataHeader_of_bytes (take 20 packet_data)) (slice 20 (data_size - 20) packet_data) w
            else w
        | PacketId.ProxyConnect \<Rightarrow>
            if data_size \<ge> 16 then session_HandleProxyConnect a (ProxyConnectRequest_of_bytes (take 16 packet_data)) w else w
        | PacketId.ProxyConnectReply \<Rightarrow>
            if data_size \<ge> 16 then session_HandleProxyConnectReply a (ProxyConnectResponse_of_bytes (take 16 packet_data)) w else w
        | PacketId.ProxyDisconnect \<Rightarrow>
            if data_size \<ge> 20 then session_HandleProxyDisconnect a (ProxyDisconnectMessage_of_bytes (take 20 packet_data)) w else w
        | _ \<Rightarrow> w)"

definition is_connected :: "addr \<Rightarrow> p2p_state \<Rightarrow> bool \<times> p2p_state" where
  "is_connected a w = (case pw_heap w a of Some s \<Rightarrow> (se_connected s, w) | None \<Rightarrow> (False, fault w))"

text \<open>
  The inner loop of \<^verbatim>\<open>ReceiveLoop\<close>. The receive buffer is touched by the session's own thread only, so the loops carry it; every packet
  taken from it makes it shorter.
\<close>

lemma decode_header_success: "decode_header bs \<noteq> (DecodeResult.Success, None)"
  by (simp add: decode_header_def Let_def)

lemma peek_packet_some:
  assumes "pb_peek_packet b = (Some data, n)"
  shows "12 \<le> n \<and> 12 \<le> m_write_pos b"
  using assms decode_header_success
  by (auto simp: pb_peek_packet_def pb_peek_packet_info_def check_complete_packet_def Let_def
      split: prod.splits BufferResult.splits DecodeResult.splits option.splits if_splits)

lemma consume_shorter: "0 < n \<Longrightarrow> 0 < m_write_pos b \<Longrightarrow> m_write_pos (pb_consume b n) < m_write_pos b"
  by (simp add: pb_consume_def Let_def)

function session_drain ::
  "(p2p_state \<Rightarrow> p2p_state) list \<Rightarrow> addr \<Rightarrow> PacketBuffer \<Rightarrow> p2p_state \<Rightarrow> PacketBuffer \<times> p2p_state" where
  "session_drain waits a b w =
     (case is_connected a w of
        (False, w) \<Rightarrow> (b, w)
      | (True, w) \<Rightarrow>
          (case pb_peek_packet b of
             (None, _) \<Rightarrow>
               (b, if fst (pb_peek_packet_info b) = BufferResult.InvalidPacket then session_Disconnect a False w else w)
           | (Some data, packet_size) \<Rightarrow>
               session_drain waits a (pb_consume b packet_size) (session_ProcessData waits a data packet_size w)))"
  by pat_completeness auto
termination
  by (relation "measure (\<lambda>(waits, a, b, w). m_write_pos b)") (auto dest!: peek_packet_some [OF sym] intro!: consume_shorter)

declare session_drain.simps [simp del]

text \<open>
  What \<^verbatim>\<open>recv\<close> answers. Each answer of a script comes with what other threads did to the state while the call waited; a script that
  ends leaves the thread waiting (the first result is \<open>False\<close>).
\<close>

datatype p2p_recv = Received "byte list" | RecvInterrupted | RecvEnded

definition RECV_BUFFER_SIZE :: nat where "RECV_BUFFER_SIZE = 0x1000"

fun session_receive ::
  "(p2p_state \<Rightarrow> p2p_state) list \<Rightarrow> ((p2p_state \<Rightarrow> p2p_state) \<times> p2p_recv) list \<Rightarrow> addr \<Rightarrow> PacketBuffer \<Rightarrow> p2p_state
    \<Rightarrow> bool \<times> p2p_state" where
  "session_receive waits [] a b w = (case is_connected a w of (connected, w) \<Rightarrow> (\<not> connected, w))"
| "session_receive waits ((others, r) # script) a b w =
     (case is_connected a w of
        (False, w) \<Rightarrow> (True, w)
      | (True, w) \<Rightarrow>
          (case r of
             RecvInterrupted \<Rightarrow> session_receive waits script a b (others w)
           | RecvEnded \<Rightarrow> (True, others w)
           | Received bytes \<Rightarrow>
               (case pb_append b (take RECV_BUFFER_SIZE bytes) of
                  (BufferResult.Success, b) \<Rightarrow>
                    (case session_drain waits a b (others w) of (b, w) \<Rightarrow> session_receive waits script a b w)
                | _ \<Rightarrow> (True, others w))))"

definition session_ReceiveLoop ::
  "(p2p_state \<Rightarrow> p2p_state) list \<Rightarrow> ((p2p_state \<Rightarrow> p2p_state) \<times> p2p_recv) list \<Rightarrow> addr \<Rightarrow> PacketBuffer \<Rightarrow> p2p_state
    \<Rightarrow> bool \<times> p2p_state" where
  "session_ReceiveLoop waits script a b w =
     (case session_receive waits script a b w of
        (ended, w) \<Rightarrow> (ended, if ended then session_Disconnect a False w else w))"

definition SessionRecvThreadEntry ::
  "(p2p_state \<Rightarrow> p2p_state) list \<Rightarrow> ((p2p_state \<Rightarrow> p2p_state) \<times> p2p_recv) list \<Rightarrow> addr \<Rightarrow> PacketBuffer \<Rightarrow> p2p_state
    \<Rightarrow> bool \<times> p2p_state" where
  "SessionRecvThreadEntry waits script a b w =
     (case session_ReceiveLoop waits script a b w of
        (ended, w) \<Rightarrow> (ended, if ended then with_session a (\<lambda>s. s\<lparr>se_thread_done := True\<rparr>) w else w))"

subsection \<open>The server's threads\<close>

text \<open>What \<^verbatim>\<open>poll\<close> and \<^verbatim>\<open>accept\<close> answer: the descriptor and the address in network order, and whether a thread can be made.\<close>

datatype accept_answer = PollTimeout | PollFailed | PollBroken | Accepted int u32 bool

definition accept_client :: "int \<Rightarrow> u32 \<Rightarrow> bool \<Rightarrow> p2p_state \<Rightarrow> p2p_state" where
  "accept_client client_fd s_addr created w =
     (if client_fd < 0 then w
      else if sv_session_count (pw_server w) \<ge> int MAX_PLAYERS then w\<lparr>pw_closed := pw_closed w @ [client_fd]\<rparr>
      else case new_session client_fd (bswap32 s_addr) w of (a, w) \<Rightarrow> snd (session_Start created a w))"

fun AcceptLoop :: "((p2p_state \<Rightarrow> p2p_state) \<times> accept_answer) list \<Rightarrow> p2p_state \<Rightarrow> bool \<times> p2p_state" where
  "AcceptLoop [] w = (if sv_running (pw_server w) then (False, ReapZombieSessions w) else (True, w))"
| "AcceptLoop ((others, r) # script) w =
     (if \<not> sv_running (pw_server w) then (True, w)
      else
        let w = others (ReapZombieSessions w) in
        case r of
          PollTimeout \<Rightarrow> AcceptLoop script w
        | PollFailed \<Rightarrow> AcceptLoop script w
        | PollBroken \<Rightarrow> (True, w)
        | Accepted client_fd s_addr created \<Rightarrow> AcceptLoop script (accept_client client_fd s_addr created w))"

text \<open>
  The ports \<^verbatim>\<open>Start\<close> tries; with the last port \<open>65535\<close> the counter wraps and the loop goes round for ever. \<open>None\<close>
  is not returning.
\<close>

fun bind_first :: "(u16 \<Rightarrow> bool) \<Rightarrow> u16 list \<Rightarrow> u16 option" where
  "bind_first bind [] = None"
| "bind_first bind (p # ps) = (if bind p then Some p else bind_first bind ps)"

definition ports_between :: "u16 \<Rightarrow> u16 \<Rightarrow> u16 list" where
  "ports_between a b = map word_of_nat [unat a..<unat b + 1]"

text \<open>The answers of the system to \<^verbatim>\<open>Start\<close>.\<close>

record start_io =
  si_socket :: int
  si_bind :: "u16 \<Rightarrow> bool"
  si_listen :: bool
  si_thread :: bool

definition server_Start :: "start_io \<Rightarrow> u16 \<Rightarrow> p2p_state \<Rightarrow> (bool \<times> p2p_state) option" where
  "server_Start io port w =
     (if sv_running (pw_server w) then Some (True, w)
      else
        let fd = si_socket io; w = on_server (\<lambda>v. v\<lparr>sv_listen_fd := fd\<rparr>) w;
            shut = (\<lambda>w. (on_server (\<lambda>v. v\<lparr>sv_listen_fd := - 1\<rparr>) w)\<lparr>pw_closed := pw_closed w @ [fd]\<rparr>);
            start_port = (if port \<noteq> 0 then port else PRIVATE_PORT_BASE);
            end_port = (if port \<noteq> 0 then port else PRIVATE_PORT_BASE + PRIVATE_PORT_RANGE - 1)
        in if fd < 0 then Some (False, w)
           else case bind_first (si_bind io) (ports_between start_port end_port) of
                  None \<Rightarrow> if end_port = 0xFFFF then None else Some (False, shut w)
                | Some p \<Rightarrow>
                    let w = on_server (\<lambda>v. v\<lparr>sv_private_port := p\<rparr>) w
                    in if \<not> si_listen io then Some (False, shut w)
                       else if si_thread io then Some (True, on_server (\<lambda>v. v\<lparr>sv_running := True\<rparr>) w)
                       else Some (False, on_server (\<lambda>v. v\<lparr>sv_running := False\<rparr>) w))"

definition IsRunning :: "p2p_state \<Rightarrow> bool" where "IsRunning w = sv_running (pw_server w)"

definition stop_session :: "p2p_state \<Rightarrow> nat \<Rightarrow> p2p_state" where
  "stop_session w i =
     (case sv_sessions (pw_server w) ! i of
        None \<Rightarrow> w
      | Some a \<Rightarrow>
          let w = session_Disconnect a True w;
              w = on_server (\<lambda>v. v\<lparr>sv_sessions := (sv_sessions v)[i := None]\<rparr>) w
          in if sv_zombie_count (pw_server w) < MAX_ZOMBIE_SESSIONS then add_zombie a w else delete_session a w)"

fun stop_reap :: "(p2p_state \<Rightarrow> p2p_state) list \<Rightarrow> p2p_state \<Rightarrow> p2p_state option" where
  "stop_reap waits w =
     (let w = ReapZombieSessions w
      in if sv_zombie_count (pw_server w) = 0 then Some w
         else case waits of [] \<Rightarrow> None | f # fs \<Rightarrow> stop_reap fs (f w))"

text \<open>The part of \<^verbatim>\<open>Stop\<close> under the lock.\<close>

definition stop_locked :: "p2p_state \<Rightarrow> p2p_state" where
  "stop_locked w =
     (let fd = sv_listen_fd (pw_server w);
          w = (on_server (\<lambda>v. v\<lparr>sv_running := False, sv_listen_fd := - 1\<rparr>) w)
                \<lparr>pw_closed := pw_closed w @ (if fd \<ge> 0 then [fd] else [])\<rparr>;
          w = foldl stop_session w [0..<MAX_PLAYERS]
      in on_server (\<lambda>v. v\<lparr>sv_session_count := 0, sv_waiting_tokens := []\<rparr>) w)"

text \<open>\<^verbatim>\<open>accept_end\<close> is what the accept thread does until it ends, \<^verbatim>\<open>waits\<close> what the session threads do in each pause.\<close>

definition server_Stop :: "(p2p_state \<Rightarrow> p2p_state) \<Rightarrow> (p2p_state \<Rightarrow> p2p_state) list \<Rightarrow> p2p_state \<Rightarrow> p2p_state option" where
  "server_Stop accept_end waits w =
     (if \<not> sv_running (pw_server w) then Some w else stop_reap waits (accept_end (stop_locked w)))"

subsection \<open>The public port\<close>

definition StartLeaseRenewal :: "bool \<Rightarrow> P2pProxyServer \<Rightarrow> P2pProxyServer" where
  "StartLeaseRenewal created v = (if sv_lease_thread_running v then v else v\<lparr>sv_lease_thread_running := created\<rparr>)"

fun punch_first :: "(u16 \<Rightarrow> bool) \<Rightarrow> nat \<Rightarrow> nat \<Rightarrow> u16 option" where
  "punch_first add i 0 = None"
| "punch_first add i (Suc n) =
     (let try_port = PUBLIC_PORT_BASE + word_of_nat i in if add try_port then Some try_port else punch_first add (i + 1) n)"

definition NatPunch :: "upnp_lib \<Rightarrow> bool \<Rightarrow> UpnpPortMapper \<Rightarrow> P2pProxyServer \<Rightarrow> u16 \<times> UpnpPortMapper \<times> P2pProxyServer" where
  "NatPunch lib created u v =
     (case um_Discover lib u of
        (False, u) \<Rightarrow> (0, u, v)
      | (True, u) \<Rightarrow>
          (case punch_first (\<lambda>p. um_AddPortMapping lib u (sv_private_port v) p PORT_LEASE_LENGTH) 0 PUBLIC_PORT_RANGE of
             Some p \<Rightarrow> (p, u, StartLeaseRenewal created (v\<lparr>sv_public_port := p\<rparr>))
           | None \<Rightarrow> (0, u, v)))"

text \<open>The first result is the mapping that was deleted at the gateway, if any.\<close>

definition ReleaseNatPunch :: "upnp_lib \<Rightarrow> UpnpPortMapper \<Rightarrow> P2pProxyServer \<Rightarrow> u16 option \<times> P2pProxyServer" where
  "ReleaseNatPunch lib u v =
     (let v = v\<lparr>sv_lease_thread_running := False\<rparr>; p = sv_public_port v
      in if p \<noteq> 0 then (if um_DeletePortMapping lib u p then Some p else None, v\<lparr>sv_public_port := 0\<rparr>) else (None, v))"

text \<open>
  The loop that renews the lease: it sleeps in chunks of 250 ms, and in each one other threads may change the server; the results are the
  renewals, with the ports and whether the gateway accepted. A script that ends leaves the thread asleep.
\<close>

definition renew_chunks :: nat where "renew_chunks = PORT_LEASE_RENEW * 1000 div 250"

function LeaseRenewalLoop ::
  "upnp_lib \<Rightarrow> UpnpPortMapper \<Rightarrow> nat \<Rightarrow> (P2pProxyServer \<Rightarrow> P2pProxyServer) list \<Rightarrow> P2pProxyServer \<Rightarrow> bool \<times> (u16 \<times> u16 \<times> bool) list" where
  "LeaseRenewalLoop lib u waited script v =
     (if \<not> sv_lease_thread_running v \<or> sv_disposed v then (True, [])
      else if waited < renew_chunks
      then (case script of [] \<Rightarrow> (False, []) | f # fs \<Rightarrow> LeaseRenewalLoop lib u (waited + 1) fs (f v))
      else case LeaseRenewalLoop lib u 0 script v of
             (ended, rs) \<Rightarrow>
               (ended, (sv_private_port v, sv_public_port v,
                        um_RefreshPortMapping lib u (sv_private_port v) (sv_public_port v)) # rs))"
  by pat_completeness auto
termination
  by (relation "measure (\<lambda>(lib, u, waited, script, v). 2 * length script + (if waited < renew_chunks then 0 else 1))")
    (auto simp: renew_chunks_def PORT_LEASE_RENEW_def)

declare LeaseRenewalLoop.simps [simp del]

definition server_destroy ::
  "upnp_lib \<Rightarrow> UpnpPortMapper \<Rightarrow> (p2p_state \<Rightarrow> p2p_state) \<Rightarrow> (p2p_state \<Rightarrow> p2p_state) list \<Rightarrow> p2p_state \<Rightarrow> p2p_state option" where
  "server_destroy lib u accept_end waits w =
     map_option (on_server (\<lambda>v. (snd (ReleaseNatPunch lib u v))\<lparr>sv_disposed := True\<rparr>)) (server_Stop accept_end waits w)"

section \<open>Properties of the server\<close>

subsection \<open>The heap\<close>

lemma server_frames [simp]:
  "pw_server (on_server f w) = f (pw_server w)" "pw_heap (on_server f w) = pw_heap w" "pw_fault (on_server f w) = pw_fault w"
  "pw_sent (on_server f w) = pw_sent w" "pw_sends (on_server f w) = pw_sends w" "pw_stacks (on_server f w) = pw_stacks w"
  "pw_server (fault w) = pw_server w" "pw_heap (fault w) = pw_heap w" "pw_fault (fault w)" "pw_stacks (fault w) = pw_stacks w"
  "pw_host (fault w) = pw_host w"
  by (simp_all add: on_server_def fault_def)

lemma with_session_frames [simp]:
  "pw_server (with_session a f w) = pw_server w" "pw_stacks (with_session a f w) = pw_stacks w"
  by (simp_all add: with_session_def split: option.split)

lemma with_session_alive:
  "pw_heap w a = Some s \<Longrightarrow> with_session a f w = w\<lparr>pw_heap := (pw_heap w)(a \<mapsto> f s)\<rparr>"
  by (simp add: with_session_def)

lemma session_close_frames [simp]: "pw_server (snd (session_close a m w)) = pw_server w"
  by (simp add: session_close_def with_session_alive split: option.split)

lemma release_frames [simp]:
  "pw_server (ReleaseSessionStackSlot i w) = pw_server w" "pw_heap (ReleaseSessionStackSlot i w) = pw_heap w"
  "pw_fault (ReleaseSessionStackSlot i w) = pw_fault w" "length (pw_stacks (ReleaseSessionStackSlot i w)) = length (pw_stacks w)"
  by (simp_all add: ReleaseSessionStackSlot_def)

lemma session_close_fault [simp]: "pw_fault (snd (session_close a m w)) \<longleftrightarrow> pw_fault w \<or> pw_heap w a = None"
  by (simp add: session_close_def with_session_alive split: option.split)

lemma delete_session_facts [simp]:
  "pw_server (delete_session a w) = pw_server w" "pw_heap (delete_session a w) = (pw_heap w)(a := None)"
  "pw_fault (delete_session a w) \<longleftrightarrow> pw_fault w \<or> pw_heap w a = None"
  by (auto simp: delete_session_def Let_def session_close_def with_session_alive split: option.split)

lemma zombie_reset_facts [simp]:
  "sv_zombies (pw_server (zombie_reset i p w)) = (sv_zombies (pw_server w))[i := p]"
  "sv_zombie_count (pw_server (zombie_reset i p w)) = sv_zombie_count (pw_server w)"
  "sv_running (pw_server (zombie_reset i p w)) = sv_running (pw_server w)"
  "pw_heap w z = None \<Longrightarrow> pw_heap (zombie_reset i p w) z = None"
  "sv_zombies (pw_server w) ! i = Some z \<Longrightarrow> pw_heap (zombie_reset i p w) z = None"
  by (simp_all add: zombie_reset_def Let_def split: option.split)

lemma zombie_reset_empty: "sv_zombies (pw_server w) ! i = None \<Longrightarrow>
  zombie_reset i p w = on_server (\<lambda>v. v\<lparr>sv_zombies := (sv_zombies v)[i := p]\<rparr>) w"
  by (simp add: zombie_reset_def)

subsection \<open>Reaping frees twice\<close>

text \<open>The first zombie was taken; until something is kept its entry is still there, afterwards it has been freed.\<close>

definition doomed :: "addr \<Rightarrow> nat \<times> addr list \<times> p2p_state \<Rightarrow> bool" where
  "doomed z acc =
     (case acc of (kept, taken, w) \<Rightarrow>
        z \<in> set taken \<and> sv_zombies (pw_server w) \<noteq> [] \<and>
        (if kept = 0 then sv_zombies (pw_server w) ! 0 = Some z else pw_heap w z = None))"

lemma doomed_reset: "doomed z (kept, taken, w) \<Longrightarrow> doomed z (kept + 1, taken, zombie_reset kept p w)"
  by (auto simp: doomed_def split: if_splits)

lemma doomed_fault: "doomed z (kept, taken, fault w) = doomed z (kept, taken, w)"
  by (simp add: doomed_def)

lemma reap_one_doomed: "doomed z acc \<Longrightarrow> doomed z (reap_one acc i)"
proof -
  assume d: "doomed z acc"
  obtain kept taken w where acc: "acc = (kept, taken, w)" by (cases acc)
  have more_taken: "doomed z (kept, taken @ [x], w)" for x using d acc by (simp add: doomed_def)
  show ?thesis
    using d acc more_taken doomed_reset [of z kept taken w] doomed_reset [of z kept taken "fault w"]
    by (auto simp: reap_one_def doomed_fault split: option.split)
qed

lemma reap_loop_doomed: "doomed z acc \<Longrightarrow> doomed z (foldl reap_one acc is)"
  by (induction "is" arbitrary: acc) (simp_all add: reap_one_doomed)

lemma resets_keep_freed: "pw_heap w z = None \<Longrightarrow> pw_heap (foldl (\<lambda>w i. zombie_reset i None w) w is) z = None"
  by (induction "is" arbitrary: w) simp_all

lemma doomed_cleared:
  assumes "doomed z (kept, taken, w)" and "kept \<le> n" and "0 < n"
  shows "pw_heap (foldl (\<lambda>w i. zombie_reset i None w) w [kept..<n]) z = None"
proof (cases "kept = 0")
  case True
  then have "pw_heap (zombie_reset 0 None w) z = None" using assms(1) by (simp add: doomed_def)
  then show ?thesis using True assms(3) by (simp add: upt_conv_Cons resets_keep_freed)
next
  case False
  then show ?thesis using assms(1) by (simp add: doomed_def resets_keep_freed)
qed

lemma join_delete_facts [simp]:
  "pw_heap (join_delete w x) = (pw_heap w)(x := None)" "pw_fault (join_delete w x) \<longleftrightarrow> pw_fault w \<or> pw_heap w x = None"
  by (simp_all add: join_delete_def)

lemma joins_fault:
  "pw_fault w \<or> pw_heap w z = None \<and> z \<in> set zs \<Longrightarrow> pw_fault (foldl join_delete w zs)"
  by (induction zs arbitrary: w) auto

lemma reap_kept_le: "fst (foldl reap_one acc is) \<le> fst acc + length is"
proof (induction "is" arbitrary: acc)
  case (Cons i "is")
  have "fst (reap_one acc i) \<le> fst acc + 1"
    by (cases acc) (auto simp: reap_one_def split: option.split)
  then show ?case using Cons [of "reap_one acc i"] by simp
qed simp

lemma reap_double_free:
  assumes zs: "length (sv_zombies (pw_server w)) = MAX_ZOMBIE_SESSIONS" "sv_zombies (pw_server w) ! 0 = Some z"
    and n: "0 < sv_zombie_count (pw_server w)" "sv_zombie_count (pw_server w) \<le> MAX_ZOMBIE_SESSIONS"
    and alive: "pw_heap w z = Some s" "se_thread_done s"
  shows "pw_fault (ReapZombieSessions w)"
proof -
  let ?n = "sv_zombie_count (pw_server w)"
  have first: "reap_one (0, [], w) 0 = (0, [z], w)" using zs alive by (simp add: reap_one_def)
  have "doomed z (0, [z], w)" using zs by (auto simp: doomed_def MAX_ZOMBIE_SESSIONS_def)
  then have d: "doomed z (foldl reap_one (0, [], w) [0..<?n])"
    using n(1) first by (simp add: upt_conv_Cons reap_loop_doomed)
  obtain kept taken w' where r: "foldl reap_one (0, [], w) [0..<?n] = (kept, taken, w')"
    by (cases "foldl reap_one (0, [], w) [0..<?n]")
  have "doomed z (kept, taken, on_server (\<lambda>v. v\<lparr>sv_zombie_count := kept\<rparr>) w')"
    using d r by (simp add: doomed_def)
  moreover have "kept \<le> MAX_ZOMBIE_SESSIONS"
    using reap_kept_le [of "(0, [], w)" "[0..<?n]"] n(2) r by simp
  ultimately have "pw_heap (foldl (\<lambda>w i. zombie_reset i None w) (on_server (\<lambda>v. v\<lparr>sv_zombie_count := kept\<rparr>) w')
      [kept..<MAX_ZOMBIE_SESSIONS]) z = None"
    by (rule doomed_cleared) (simp add: MAX_ZOMBIE_SESSIONS_def)
  moreover have "z \<in> set taken" using d r by (simp add: doomed_def)
  ultimately show ?thesis by (simp add: ReapZombieSessions_def r joins_fault [of _ z])
qed

lemma notify_frames [simp]:
  "pw_server (NotifyMasterDisconnect ip w) = pw_server w" "pw_heap (NotifyMasterDisconnect ip w) = pw_heap w"
  "pw_fault (NotifyMasterDisconnect ip w) = pw_fault w" "pw_stacks (NotifyMasterDisconnect ip w) = pw_stacks w"
  by (simp_all add: NotifyMasterDisconnect_def)

lemma detach_frames [simp]:
  "pw_heap (detach_session a w) = pw_heap w"
  "sv_zombies (pw_server (detach_session a w)) = sv_zombies (pw_server w)"
  "sv_zombie_count (pw_server (detach_session a w)) = sv_zombie_count (pw_server w)"
  "sv_running (pw_server (detach_session a w)) = sv_running (pw_server w)"
  "pw_stacks (detach_session a w) = pw_stacks w"
  "sv_waiting_tokens (pw_server (detach_session a w)) = sv_waiting_tokens (pw_server w)"
  by (simp_all add: detach_session_def Let_def split: option.split)

lemma detach_fault: "pw_heap w a = Some s \<Longrightarrow> pw_fault (detach_session a w) = pw_fault w"
  by (simp add: detach_session_def Let_def split: option.split)

definition no_zombies :: "P2pProxyServer \<Rightarrow> bool" where
  "no_zombies v \<longleftrightarrow> sv_zombie_count v = 0 \<and> sv_zombies v = replicate MAX_ZOMBIE_SESSIONS None"

lemma disconnect_zombie:
  assumes "no_zombies (pw_server w)" and a: "pw_heap w a = Some s" "se_connected s"
  defines "w' \<equiv> session_Disconnect a False w"
  shows "sv_zombie_count (pw_server w') = 1" "sv_zombies (pw_server w') = Some a # replicate 15 None"
    "\<exists>s'. pw_heap w' a = Some s'" "pw_fault w' = pw_fault w" "sv_running (pw_server w') = sv_running (pw_server w)"
proof -
  define w1 where "w1 = snd (session_close a False w)"
  have c: "session_close a False w = (True, w1)"
    using a by (simp add: w1_def session_close_def)
  have w1: "pw_server w1 = pw_server w" "pw_fault w1 = pw_fault w" "\<exists>s'. pw_heap w1 a = Some s'"
    using a unfolding w1_def by (simp_all add: session_close_def with_session_alive)
  have z: "sv_zombie_count (pw_server w) = 0" "sv_zombies (pw_server w) = replicate MAX_ZOMBIE_SESSIONS None"
    using assms(1) by (simp_all add: no_zombies_def)
  have "w' = on_server (\<lambda>v. v\<lparr>sv_zombies := (sv_zombies v)[0 := Some a]\<rparr>)
      (on_server (\<lambda>v. v\<lparr>sv_zombie_count := 1\<rparr>) (detach_session a w1))"
    unfolding w'_def session_Disconnect_def c OnSessionDisconnected_def add_zombie_def
    by (simp add: zombie_reset_empty z w1 MAX_ZOMBIE_SESSIONS_def)
  then show "sv_zombie_count (pw_server w') = 1" "sv_zombies (pw_server w') = Some a # replicate 15 None"
    "\<exists>s'. pw_heap w' a = Some s'" "pw_fault w' = pw_fault w" "sv_running (pw_server w') = sv_running (pw_server w)"
    using w1 by (auto simp: z MAX_ZOMBIE_SESSIONS_def detach_fault numeral_eq_Suc)
qed

text \<open>
  C40: a peer that leaves makes the host free its session twice. When the connection of a session ends while no other session waits to be
  reaped, its thread ends without a fault; then the next turn of the accept loop reaps it: \<^verbatim>\<open>ReapZombieSessions\<close> takes the pointer with
  \<^verbatim>\<open>get\<close>, lets \<^verbatim>\<open>reset\<close> delete the object and then joins and deletes it again.
\<close>

theorem leaving_peer_freed_twice:
  assumes "no_zombies (pw_server w)" and a: "pw_heap w a = Some s" "se_connected s" and run: "sv_running (pw_server w)"
    and t: "SessionRecvThreadEntry waits ((\<lambda>w. w, RecvEnded) # script) a b w = (ended, w')"
  shows "ended \<and> pw_fault w' = pw_fault w \<and> pw_fault (snd (AcceptLoop [] w'))"
proof -
  define w1 where "w1 = session_Disconnect a False w"
  note z = disconnect_zombie [OF assms(1) a, folded w1_def]
  obtain s' where s': "pw_heap w1 a = Some s'" using z(3) by blast
  have r: "session_receive waits ((\<lambda>w. w, RecvEnded) # script) a b w = (True, w)"
    using a by (simp add: is_connected_def)
  have w': "ended" "w' = with_session a (\<lambda>s. s\<lparr>se_thread_done := True\<rparr>) w1"
    using t unfolding SessionRecvThreadEntry_def session_ReceiveLoop_def r w1_def by simp_all
  have "pw_fault (ReapZombieSessions w')"
    by (rule reap_double_free [where z = a and s = "s'\<lparr>se_thread_done := True\<rparr>"])
      (simp_all add: w' s' with_session_alive z MAX_ZOMBIE_SESSIONS_def)
  then show ?thesis
    using run by (simp add: w' s' with_session_alive z)
qed

text \<open>A running server, with what the system will answer to the next sends, and one client accepted.\<close>

definition p2p_demo :: "int list \<Rightarrow> p2p_state" where
  "p2p_demo sends =
     \<lparr>pw_server = (sv_new True)\<lparr>sv_running := True\<rparr>, pw_heap = (\<lambda>a. None), pw_next = 0, pw_fault = False,
      pw_stacks = replicate MAX_PLAYERS False, pw_sends = sends, pw_sent = [], pw_master = [], pw_host = [], pw_closed = []\<rparr>"

definition p2p_demo1 :: "int list \<Rightarrow> p2p_state" where "p2p_demo1 sends = accept_client 5 0 True (p2p_demo sends)"

lemma demo1_facts:
  "pw_heap (p2p_demo1 ss) = [0 \<mapsto> (session_new 5 0)\<lparr>se_stack_slot := 0\<rparr>]" "pw_server (p2p_demo1 ss) = (sv_new True)\<lparr>sv_running := True\<rparr>"
  "pw_fault (p2p_demo1 ss) = False" "pw_sends (p2p_demo1 ss) = ss" "pw_sent (p2p_demo1 ss) = []"
  by (simp_all add: p2p_demo1_def p2p_demo_def accept_client_def new_session_def session_Start_def AllocateSessionStackSlot_def Let_def
      MAX_PLAYERS_def sv_new_def with_session_def numeral_eq_Suc)

theorem leaving_peer_freed_twice_witness:
  "\<not> pw_fault (snd (SessionRecvThreadEntry [] [(\<lambda>w. w, RecvEnded)] 0 (pb_new []) (p2p_demo1 []))) \<and>
   pw_fault (snd (AcceptLoop [] (snd (SessionRecvThreadEntry [] [(\<lambda>w. w, RecvEnded)] 0 (pb_new []) (p2p_demo1 [])))))"
  using leaving_peer_freed_twice [of "p2p_demo1 []" 0 "(session_new 5 0)\<lparr>se_stack_slot := 0\<rparr>" "[]" "[]" "pb_new []",
      OF _ _ _ _ surjective_pairing]
  by (simp add: demo1_facts no_zombies_def sv_new_def session_new_def)

subsection \<open>Registration\<close>

lemma find_token_Some:
  "find_token P ts = Some i \<longleftrightarrow> i < length ts \<and> P (ts ! i) \<and> (\<forall>j<i. \<not> P (ts ! j))"
proof (induction ts arbitrary: i)
  case (Cons t ts)
  show ?case
  proof (cases i)
    case 0
    then show ?thesis by (auto split: option.splits)
  next
    case (Suc k)
    then show ?thesis using Cons [of k] by (auto simp: All_less_Suc2 split: option.splits)
  qed
qed simp

lemma find_token_None: "find_token P ts = None \<longleftrightarrow> (\<forall>t\<in>set ts. \<not> P t)"
  by (induction ts) auto

text \<open>The comparison of addresses never decides: a token that matches is accepted from anywhere.\<close>

lemma token_accepts_iff: "token_accepts t config ip \<longleftrightarrow> ept_token t = epc_token config"
  by (auto simp: token_accepts_def Let_def)

definition config_packet :: "u32 \<Rightarrow> byte list" where
  "config_packet ip = packet PacketId.ProxyConfig (ProxyConfig_to_bytes \<lparr>pcfg_proxy_ip = ip, pcfg_proxy_subnet_mask = 0xFFFF0000\<rparr>)"

lemma encoded_bytes_encode:
  assumes "length (to_bytes x) = sz" and "12 + sz \<le> n"
  shows "encoded_bytes (encode sz to_bytes (replicate n 0) ty x) = packet ty (to_bytes x)"
  using assms take_memcpy_packet [of "to_bytes x" "replicate n 0" ty] by (simp add: encoded_bytes_def encode_ok)

lemma config_packet_encoded:
  "encoded_bytes (encode 8 ProxyConfig_to_bytes (replicate 256 0) PacketId.ProxyConfig
     \<lparr>pcfg_proxy_ip = ip, pcfg_proxy_subnet_mask = 0xFFFF0000\<rparr>) = config_packet ip"
  unfolding config_packet_def
  by (rule encoded_bytes_encode) (simp_all add: ProxyConfig_wire.len_to wf_ProxyConfig_def)

lemma session_Send_frames [simp]:
  "pw_server (snd (session_Send a d w)) = pw_server w" "pw_heap (snd (session_Send a d w)) = pw_heap w"
  "pw_host (snd (session_Send a d w)) = pw_host w" "pw_stacks (snd (session_Send a d w)) = pw_stacks w"
  by (simp_all add: session_Send_def split: option.split list.split)

lemma session_Send_alive_fault [simp]: "pw_heap w a = Some s \<Longrightarrow> pw_fault (snd (session_Send a d w)) = pw_fault w"
  by (simp add: session_Send_def split: list.split)

text \<open>A session to which the next send goes through whole.\<close>

definition can_send :: "addr \<Rightarrow> p2p_state \<Rightarrow> bool" where
  "can_send a w \<longleftrightarrow> (case pw_heap w a of Some s \<Rightarrow> se_connected s \<and> 0 \<le> se_socket_fd s | None \<Rightarrow> False)"

lemma session_Send_ok:
  "can_send a w \<Longrightarrow> pw_sends w = int (length d) # rs \<Longrightarrow>
     session_Send a d w = (True, w\<lparr>pw_sends := rs, pw_sent := pw_sent w @ [(a, d)]\<rparr>)"
  by (auto simp: can_send_def session_Send_def split: option.splits)

lemma register_token_facts:
  fixes i :: nat
  assumes a: "pw_heap w a = Some s"
  defines "ts \<equiv> sv_waiting_tokens (pw_server w)"
  defines "ip \<equiv> ept_virtual_ip (token_after_removal i ts)"
  defines "w' \<equiv> register_token a i w"
  shows "pw_heap w' = (pw_heap w)(a \<mapsto> s\<lparr>se_virtual_ip := ip, se_authenticated := True\<rparr>)"
    "sv_waiting_tokens (pw_server w') = take i ts @ drop (i + 1) ts"
    "pw_fault w' = pw_fault w"
    "can_send a w \<Longrightarrow> pw_sends w = 20 # rs \<Longrightarrow> pw_sent w' = pw_sent w @ [(a, config_packet ip)]"
    "can_send a w \<Longrightarrow> pw_sends w = 20 # rs \<Longrightarrow> pw_sends w' = rs"
proof -
  define w1 where "w1 = on_server (\<lambda>v. store_session a (if sv_session_count v = 0
      then Configure \<lparr>pcfg_proxy_ip = ip, pcfg_proxy_subnet_mask = 0xFFFF0000\<rparr> v else v))
    (with_session a (\<lambda>s. s\<lparr>se_virtual_ip := ip, se_authenticated := True\<rparr>)
      (on_server (\<lambda>v. v\<lparr>sv_waiting_tokens := take i ts @ drop (i + 1) ts\<rparr>) w))"
  have w': "w' = snd (session_Send a (config_packet ip) w1)"
    unfolding w'_def register_token_def Let_def ts_def [symmetric] ip_def [symmetric] config_packet_encoded w1_def by simp
  have w1: "pw_heap w1 = (pw_heap w)(a \<mapsto> s\<lparr>se_virtual_ip := ip, se_authenticated := True\<rparr>)"
    "sv_waiting_tokens (pw_server w1) = take i ts @ drop (i + 1) ts" "pw_fault w1 = pw_fault w" "pw_sent w1 = pw_sent w"
    "pw_sends w1 = pw_sends w"
    using a by (simp_all add: w1_def with_session_alive store_session_def Configure_def split: option.split)
  show "pw_heap w' = (pw_heap w)(a \<mapsto> s\<lparr>se_virtual_ip := ip, se_authenticated := True\<rparr>)"
    "sv_waiting_tokens (pw_server w') = take i ts @ drop (i + 1) ts" "pw_fault w' = pw_fault w"
    using w1 by (simp_all add: w')
  assume c: "can_send a w" and "pw_sends w = 20 # rs"
  moreover have "can_send a w1" using c a w1(1) by (simp add: can_send_def)
  moreover have "length (config_packet ip) = 20"
    by (simp add: config_packet_def ProxyConfig_wire.len_to wf_ProxyConfig_def)
  ultimately show "pw_sent w' = pw_sent w @ [(a, config_packet ip)]" "pw_sends w' = rs"
    using w1 session_Send_ok [of a w1 "config_packet ip" rs] by (simp_all add: w')
qed

lemma register_at_once:
  assumes "find_token (\<lambda>t. ept_token t = epc_token config) (sv_waiting_tokens (pw_server w)) = Some i"
  shows "TryRegisterUser waits a config remote_ip w = (True, register_token a i w)"
  using assms by (simp add: TryRegisterUser_def numeral_eq_Suc token_accepts_iff)

text \<open>
  C19: who presents a token that is waiting is admitted at once, whatever address it comes from: the first token with these bytes is used
  up, the session is authenticated and is sent the configuration of one address. The address is that of the token presented only if it was the
  last one waiting; otherwise it is the address of the token announced after it.
\<close>

theorem registration_exact:
  assumes a: "pw_heap w a = Some s" "can_send a w" "pw_sends w = 20 # rs"
    and i: "i < length ts" "ept_token (ts ! i) = epc_token config" "\<forall>j<i. ept_token (ts ! j) \<noteq> epc_token config"
    and ts: "sv_waiting_tokens (pw_server w) = ts"
    and r: "TryRegisterUser waits a config remote_ip w = (ok, w')"
  defines "ip \<equiv> ept_virtual_ip (if i + 1 < length ts then ts ! (i + 1) else ts ! i)"
  shows "ok \<and> sv_waiting_tokens (pw_server w') = take i ts @ drop (i + 1) ts \<and>
    pw_heap w' a = Some (s\<lparr>se_virtual_ip := ip, se_authenticated := True\<rparr>) \<and>
    pw_sent w' = pw_sent w @ [(a, config_packet ip)]"
proof -
  have f: "find_token (\<lambda>t. ept_token t = epc_token config) (sv_waiting_tokens (pw_server w)) = Some i"
    using i ts by (simp add: find_token_Some)
  show ?thesis
    using r register_token_facts [OF a(1), where i = i] a ts
    unfolding register_at_once [OF f] ip_def token_after_removal_def by auto
qed

theorem registration_exact_witness:
  "let t = \<lparr>ept_virtual_ip = 7, ept_token = replicate 16 1, ept_physical_ip = replicate 16 9, ept_address_family = 2\<rparr>;
       c = \<lparr>epc_proxy_ip = replicate 16 0, epc_address_family = 2, epc_proxy_port = 0, epc_token = replicate 16 1\<rparr>
   in pw_sent (snd (TryRegisterUser [] 0 c 0 (AddWaitingToken t (p2p_demo1 [20])))) = [(0, config_packet 7)]"
  using registration_exact [where w = "AddWaitingToken \<lparr>ept_virtual_ip = 7, ept_token = replicate 16 1, ept_physical_ip = replicate 16 9,
      ept_address_family = 2\<rparr> (p2p_demo1 [20])" and a = 0 and s = "(session_new 5 0)\<lparr>se_stack_slot := 0\<rparr>" and rs = "[]" and i = 0 and
      config = "\<lparr>epc_proxy_ip = replicate 16 0, epc_address_family = 2, epc_proxy_port = 0, epc_token = replicate 16 1\<rparr>" and
      waits = "[]" and remote_ip = 0, OF _ _ _ _ _ _ refl surjective_pairing]
  by (simp add: AddWaitingToken_def on_server_def demo1_facts can_send_def session_new_def sv_new_def MAX_WAITING_TOKENS_def)

text \<open>
  Two peers that join in the order in which the master server announced them are both given the address of the second: the host's own
  records and the configurations it sends name one virtual address twice, and the first peer's address is lost.
\<close>

theorem two_joins_share_address:
  assumes ts: "sv_waiting_tokens (pw_server w) = [t1, t2]" and dist: "ept_token t1 \<noteq> ept_token t2"
    and a1: "pw_heap w a1 = Some s1" and a2: "pw_heap w a2 = Some s2" and ne: "a1 \<noteq> a2"
    and c: "epc_token c1 = ept_token t1" "epc_token c2 = ept_token t2"
    and r1: "TryRegisterUser waits1 a1 c1 ip1 w = (ok1, w1)" and r2: "TryRegisterUser waits2 a2 c2 ip2 w1 = (ok2, w2)"
  shows "ok1 \<and> ok2 \<and> map_option se_virtual_ip (pw_heap w2 a1) = Some (ept_virtual_ip t2) \<and>
    map_option se_virtual_ip (pw_heap w2 a2) = Some (ept_virtual_ip t2)"
proof -
  have w1: "ok1" "w1 = register_token a1 0 w"
    using r1 register_at_once [of c1 w 0 waits1 a1 ip1] ts c by simp_all
  note f1 = register_token_facts [OF a1, where i = 0, folded w1(2)]
  have ts1: "sv_waiting_tokens (pw_server w1) = [t2]" using f1(2) ts by simp
  have a2': "pw_heap w1 a2 = Some s2" using f1(1) a2 ne by simp
  have w2: "ok2" "w2 = register_token a2 0 w1"
    using r2 register_at_once [of c2 w1 0 waits2 a2 ip2] ts1 c by simp_all
  note f2 = register_token_facts [OF a2', where i = 0, folded w2(2)]
  show ?thesis
    using w1(1) w2(1) f1(1) f2(1) ne ts ts1 by (simp add: token_after_removal_def)
qed

definition p2p_demo2 :: "int list \<Rightarrow> p2p_state" where "p2p_demo2 sends = accept_client 6 0 True (p2p_demo1 sends)"

definition demo_token :: "u32 \<Rightarrow> byte \<Rightarrow> ExternalProxyToken" where
  "demo_token ip b = \<lparr>ept_virtual_ip = ip, ept_token = replicate 16 b, ept_physical_ip = replicate 16 0, ept_address_family = 2\<rparr>"

definition demo_config :: "byte \<Rightarrow> ExternalProxyConfig" where
  "demo_config b = \<lparr>epc_proxy_ip = replicate 16 0, epc_address_family = 2, epc_proxy_port = 0, epc_token = replicate 16 b\<rparr>"

lemma demo2_facts:
  "pw_heap (p2p_demo2 ss) = [0 \<mapsto> (session_new 5 0)\<lparr>se_stack_slot := 0\<rparr>, 1 \<mapsto> (session_new 6 0)\<lparr>se_stack_slot := 1\<rparr>]"
  "pw_server (p2p_demo2 ss) = (sv_new True)\<lparr>sv_running := True\<rparr>"
  by (simp_all add: p2p_demo2_def p2p_demo1_def p2p_demo_def accept_client_def new_session_def session_Start_def
      AllocateSessionStackSlot_def Let_def MAX_PLAYERS_def sv_new_def with_session_def numeral_eq_Suc)

theorem two_joins_share_address_witness:
  "let w = AddWaitingToken (demo_token 8 2) (AddWaitingToken (demo_token 7 1) (p2p_demo2 [20, 20]));
       w1 = snd (TryRegisterUser [] 0 (demo_config 1) 0 w); w2 = snd (TryRegisterUser [] 1 (demo_config 2) 0 w1)
   in map_option se_virtual_ip (pw_heap w2 0) = Some 8 \<and> map_option se_virtual_ip (pw_heap w2 1) = Some 8"
  using two_joins_share_address [where w = "AddWaitingToken (demo_token 8 2) (AddWaitingToken (demo_token 7 1) (p2p_demo2 [20, 20]))"
      and ?t1.0 = "demo_token 7 1" and ?t2.0 = "demo_token 8 2" and ?a1.0 = 0 and ?a2.0 = 1 and ?c1.0 = "demo_config 1" and
      ?c2.0 = "demo_config 2" and ?s1.0 = "(session_new 5 0)\<lparr>se_stack_slot := 0\<rparr>" and ?s2.0 = "(session_new 6 0)\<lparr>se_stack_slot := 1\<rparr>" and
      ?waits1.0 = "[]" and ?waits2.0 = "[]" and ?ip1.0 = 0 and ?ip2.0 = 0, OF _ _ _ _ _ _ _ surjective_pairing surjective_pairing]
  by (simp add: AddWaitingToken_def on_server_def demo2_facts sv_new_def MAX_WAITING_TOKENS_def demo_token_def demo_config_def)

subsection \<open>Routing\<close>

text \<open>The contract of routing: who gets a message for an address.\<close>

definition live_sessions :: "p2p_state \<Rightarrow> bool" where
  "live_sessions w \<longleftrightarrow> list_all (\<lambda>p. case p of None \<Rightarrow> True | Some a \<Rightarrow> pw_heap w a \<noteq> None) (sv_sessions (pw_server w))"

definition has_session :: "(P2pProxySession \<Rightarrow> bool) \<Rightarrow> p2p_state \<Rightarrow> addr \<Rightarrow> bool" where
  "has_session P w a \<longleftrightarrow> (case pw_heap w a of Some s \<Rightarrow> se_authenticated s \<and> P s | None \<Rightarrow> False)"

definition table :: "addr option list \<Rightarrow> addr list" where
  "table ps = map the (List.filter (\<lambda>p. p \<noteq> None) ps)"

definition recipients :: "u32 \<Rightarrow> p2p_state \<Rightarrow> addr list" where
  "recipients dest_ip w =
     (let as = table (sv_sessions (pw_server w))
      in if dest_ip = sv_broadcast_address (pw_server w) then List.filter (has_session (\<lambda>s. True) w) as
         else take 1 (List.filter (has_session (\<lambda>s. se_virtual_ip s = dest_ip) w) as))"

definition keeps_heap :: "(addr \<Rightarrow> p2p_state \<Rightarrow> p2p_state) \<Rightarrow> bool" where
  "keeps_heap f \<longleftrightarrow> (\<forall>a w. pw_heap (f a w) = pw_heap w)"

lemma table_Cons [simp]: "table [] = []" "table (None # ps) = table ps" "table (Some a # ps) = a # table ps"
  by (simp_all add: table_def)

lemma route_all_fold:
  assumes "keeps_heap f" and "\<forall>a\<in>set (table ps). pw_heap w a \<noteq> None"
  shows "route_all f ps w = fold f (List.filter (has_session (\<lambda>s. True) w) (table ps)) w"
  using assms
proof (induction f ps w rule: route_all.induct)
  case (3 g a ps w)
  then show ?case by (auto simp: has_session_def keeps_heap_def)
qed simp_all

lemma route_first_fold:
  assumes "\<forall>a\<in>set (table ps). pw_heap w a \<noteq> None"
  shows "route_first f ip ps w = fold f (take 1 (List.filter (has_session (\<lambda>s. se_virtual_ip s = ip) w) (table ps))) w"
  using assms
proof (induction f ip ps w rule: route_first.induct)
  case (3 g ip a ps w)
  then show ?case by (auto simp: has_session_def)
qed simp_all

lemma live_table: "live_sessions w \<Longrightarrow> a \<in> set (table (sv_sessions (pw_server w))) \<Longrightarrow> pw_heap w a \<noteq> None"
  by (auto simp: live_sessions_def table_def list_all_iff split: option.splits)

lemma route_message_recipients:
  assumes s: "pw_heap w sender = Some s" and src: "pinfo_source_ipv4 info \<in> {0, se_virtual_ip s}" and live: "live_sessions w"
    and k: "\<And>info. keeps_heap (f info)"
  defines "dest_ip \<equiv> map_dest (sv_broadcast_address (pw_server w)) (pinfo_dest_ipv4 info)"
  defines "info' \<equiv> info\<lparr>pinfo_source_ipv4 := se_virtual_ip s, pinfo_dest_ipv4 := dest_ip\<rparr>"
  shows "RouteMessage sender info f w = (info', fold (f info') (recipients dest_ip w) w)"
proof -
  have ok: "\<not> (pinfo_source_ipv4 info \<noteq> 0 \<and> pinfo_source_ipv4 info \<noteq> se_virtual_ip s)" using src by auto
  have al: "\<forall>a\<in>set (table (sv_sessions (pw_server w))). pw_heap w a \<noteq> None" using live_table [OF live] by blast
  show ?thesis
    using ok route_all_fold [OF k al] route_first_fold [OF al]
    unfolding RouteMessage_def Let_def s dest_ip_def [symmetric] info'_def
    by (auto simp: recipients_def Let_def)
qed

lemma send_keeps_heap: "keeps_heap (\<lambda>target. send_encoded target e)"
  by (simp add: keeps_heap_def send_encoded_def)

lemma send_fold_frames:
  "pw_server (fold (\<lambda>target. send_encoded target e) as w) = pw_server w"
  "pw_host (fold (\<lambda>target. send_encoded target e) as w) = pw_host w"
  by (induction as arbitrary: w) (simp_all add: send_encoded_def)

lemma proxy_data_packet_ok:
  assumes "length data \<le> 4064"
  shows "encoded_bytes (proxy_data_packet header data) = packet PacketId.ProxyData (ProxyDataHeader_to_bytes header @ data)"
    "fst (proxy_data_packet header data) = EncodeResult.Success"
proof -
  have l: "length (ProxyDataHeader_to_bytes header) = 20"
    by (rule ProxyDataHeader_wire.len_to) (simp add: wf_ProxyDataHeader_def wf_ProxyInfo_def)
  have e: "proxy_data_packet header data =
      (EncodeResult.Success, memcpy (replicate 4096 0) 0 (packet PacketId.ProxyData (ProxyDataHeader_to_bytes header @ data)), 32 + length data)"
    unfolding proxy_data_packet_def using encode_with_data_ok [of ProxyDataHeader_to_bytes header 20 data "replicate 4096 0"] l assms
    by simp
  show "encoded_bytes (proxy_data_packet header data) = packet PacketId.ProxyData (ProxyDataHeader_to_bytes header @ data)"
    using take_memcpy_packet [of "ProxyDataHeader_to_bytes header @ data" "replicate 4096 0" PacketId.ProxyData] l
    by (simp add: e encoded_bytes_def)
  show "fst (proxy_data_packet header data) = EncodeResult.Success" by (simp add: e)
qed

text \<open>
  C14: game data of an authenticated peer refines the contract of routing. With the peer's own address (or none) as source, the packet,
  with the source filled in and the local broadcast address replaced, is sent to exactly the recipients of its destination in the order of the
  table, and to the host's program when it is for the host or for everyone.
\<close>

theorem data_routed_to_recipients:
  assumes s: "pw_heap w sender = Some s" "se_authenticated s" and live: "live_sessions w"
    and src: "pinfo_source_ipv4 (pdh_info header) \<in> {0, se_virtual_ip s}" and len: "length data \<le> 4064"
  defines "dest_ip \<equiv> map_dest (sv_broadcast_address (pw_server w)) (pinfo_dest_ipv4 (pdh_info header))"
  defines "header' \<equiv> header\<lparr>pdh_info := (pdh_info header)\<lparr>pinfo_source_ipv4 := se_virtual_ip s, pinfo_dest_ipv4 := dest_ip\<rparr>\<rparr>"
  defines "w' \<equiv> fold (\<lambda>target w. snd (session_Send target (packet PacketId.ProxyData (ProxyDataHeader_to_bytes header' @ data)) w))
    (recipients dest_ip w) w"
  shows "session_HandleProxyData sender header data w =
    (if sv_host_data_callback (pw_server w) \<and>
        (dest_ip = sv_broadcast_address (pw_server w) \<or> dest_ip = sv_host_virtual_ip (pw_server w) \<and> dest_ip \<noteq> 0)
     then w'\<lparr>pw_host := pw_host w' @ [\<lparr>hd_info = pdh_info header', hd_data = data\<rparr>]\<rparr> else w')"
proof -
  have w': "fold (\<lambda>target. send_encoded target (proxy_data_packet header' data)) (recipients dest_ip w) w = w'"
    unfolding w'_def send_encoded_def proxy_data_packet_ok [OF len] by simp
  have r: "RouteMessage sender (pdh_info header) (\<lambda>info target. send_encoded target (proxy_data_packet (header\<lparr>pdh_info := info\<rparr>) data)) w =
      (pdh_info header', w')"
    using route_message_recipients [OF s(1) src live, of "\<lambda>info target. send_encoded target (proxy_data_packet (header\<lparr>pdh_info := info\<rparr>) data)",
        OF send_keeps_heap] w'
    unfolding dest_ip_def [symmetric] header'_def by simp
  have v: "pw_server w' = pw_server w"
    using w' send_fold_frames(1) [of "proxy_data_packet header' data" "recipients dest_ip w" w] by simp
  have d: "pinfo_dest_ipv4 (pdh_info header') = dest_ip" by (simp add: header'_def)
  have h: "HostShouldReceive dest_ip (sv_host_virtual_ip (pw_server w)) (sv_broadcast_address (pw_server w)) \<longleftrightarrow>
      dest_ip = sv_broadcast_address (pw_server w) \<or> dest_ip = sv_host_virtual_ip (pw_server w) \<and> dest_ip \<noteq> 0"
    by (auto simp: HostShouldReceive_def map_dest_def dest_ip_def)
  show ?thesis
    unfolding session_HandleProxyData_def when_authenticated_def HandleProxyData_def r using s
    by (simp add: v d h conj_commute)
qed

text \<open>Two peers that have joined, with the addresses 1 and 2 of a network whose broadcast address is 255.\<close>

definition demo_net :: "int list \<Rightarrow> p2p_state" where
  "demo_net sends =
     (p2p_demo sends)\<lparr>pw_server := (sv_new True)\<lparr>sv_running := True, sv_sessions := [Some 0, Some 1, None, None, None, None, None, None],
        sv_session_count := 2, sv_broadcast_address := 255, sv_host_virtual_ip := 3, sv_host_data_callback := True\<rparr>,
      pw_heap := [0 \<mapsto> (session_new 5 0)\<lparr>se_virtual_ip := 1, se_authenticated := True\<rparr>,
                  1 \<mapsto> (session_new 6 0)\<lparr>se_virtual_ip := 2, se_authenticated := True\<rparr>]\<rparr>"

definition demo_header :: "u32 \<Rightarrow> u32 \<Rightarrow> ProxyDataHeader" where
  "demo_header src dest =
     \<lparr>pdh_info = \<lparr>pinfo_source_ipv4 = src, pinfo_source_port = 9, pinfo_dest_ipv4 = dest, pinfo_dest_port = 9, pinfo_protocol = 17\<rparr>,
      pdh_data_length = 1\<rparr>"

theorem data_routed_to_recipients_witness:
  "session_HandleProxyData 0 (demo_header 0 2) [42] (demo_net [33]) =
     snd (session_Send 1 (packet PacketId.ProxyData (ProxyDataHeader_to_bytes (demo_header 1 2) @ [42])) (demo_net [33]))"
  using data_routed_to_recipients [of "demo_net [33]" 0 "(session_new 5 0)\<lparr>se_virtual_ip := 1, se_authenticated := True\<rparr>"
      "demo_header 0 2" "[42]"]
  by (simp add: demo_net_def p2p_demo_def live_sessions_def sv_new_def demo_header_def recipients_def map_dest_def has_session_def
      session_new_def table_def)

text \<open>
  A forged source address stops a message from reaching any peer, yet not from reaching the host: data of an authenticated peer
  with another peer's address as source is not routed, and is handed with that address to the host's program when it is for the host or for
  everyone.
\<close>

theorem forged_source_reaches_host:
  assumes s: "pw_heap w sender = Some s" "se_authenticated s"
    and forged: "pinfo_source_ipv4 (pdh_info header) \<notin> {0, se_virtual_ip s}"
    and cb: "sv_host_data_callback (pw_server w)"
    and dest: "HostShouldReceive (pinfo_dest_ipv4 (pdh_info header)) (sv_host_virtual_ip (pw_server w)) (sv_broadcast_address (pw_server w))"
  shows "session_HandleProxyData sender header data w =
    w\<lparr>pw_host := pw_host w @ [\<lparr>hd_info = pdh_info header, hd_data = data\<rparr>]\<rparr>"
  using assms by (simp add: session_HandleProxyData_def when_authenticated_def HandleProxyData_def RouteMessage_def)

theorem forged_source_reaches_host_witness:
  "session_HandleProxyData 0 (demo_header 2 3) [42] (demo_net []) =
     (demo_net [])\<lparr>pw_host := [\<lparr>hd_info = pdh_info (demo_header 2 3), hd_data = [42]\<rparr>]\<rparr>"
  using forged_source_reaches_host [of "demo_net []" 0 "(session_new 5 0)\<lparr>se_virtual_ip := 1, se_authenticated := True\<rparr>"
      "demo_header 2 3" "[42]"]
  by (simp add: demo_net_def p2p_demo_def sv_new_def demo_header_def HostShouldReceive_def map_dest_def)

subsection \<open>The tables\<close>

definition server_inv :: "p2p_state \<Rightarrow> bool" where
  "server_inv w \<longleftrightarrow>
     length (sv_sessions (pw_server w)) = MAX_PLAYERS \<and>
     sv_session_count (pw_server w) = int (length (table (sv_sessions (pw_server w)))) \<and>
     length (sv_zombies (pw_server w)) = MAX_ZOMBIE_SESSIONS \<and> sv_zombie_count (pw_server w) \<le> MAX_ZOMBIE_SESSIONS \<and>
     length (sv_waiting_tokens (pw_server w)) \<le> MAX_WAITING_TOKENS \<and> length (pw_stacks w) = MAX_PLAYERS"

lemma inv_frame: "server_inv w \<Longrightarrow> pw_server w' = pw_server w \<Longrightarrow> length (pw_stacks w') = length (pw_stacks w) \<Longrightarrow> server_inv w'"
  by (simp add: server_inv_def)

lemma find_session_table: "find_session a ps = Some i \<Longrightarrow> length (table ps) = Suc (length (table (ps[i := None])))"
proof (induction ps arbitrary: i)
  case (Cons p ps)
  show ?case
  proof (cases "p = Some a")
    case False
    then obtain j where "find_session a ps = Some j" "i = Suc j" using Cons.prems by auto
    then show ?thesis using Cons.IH [of j] by (cases p) simp_all
  qed (use Cons in simp)
qed simp

lemma free_slot_table: "free_slot ps = Some j \<Longrightarrow> length (table (ps[j := Some a])) = Suc (length (table ps))"
proof (induction ps arbitrary: j)
  case (Cons p ps)
  show ?case
  proof (cases p)
    case (Some b)
    then obtain k where "free_slot ps = Some k" "j = Suc k" using Cons.prems by auto
    then show ?thesis using Cons.IH [of k] Some by simp
  qed (use Cons in simp)
qed simp

lemma stacks_frames [simp]:
  "length (pw_stacks (snd (session_close a m w))) = length (pw_stacks w)"
  "length (pw_stacks (delete_session a w)) = length (pw_stacks w)"
  by (simp_all add: session_close_def delete_session_def Let_def with_session_alive split: option.split)

lemma delete_inv: "server_inv w \<Longrightarrow> server_inv (delete_session a w)"
  by (erule inv_frame) simp_all

lemma zombie_reset_inv: "server_inv w \<Longrightarrow> server_inv (zombie_reset i p w)"
  unfolding zombie_reset_def Let_def
  by (auto simp: server_inv_def intro: delete_inv split: option.split)

lemma detach_inv: "server_inv w \<Longrightarrow> server_inv (detach_session a w)"
  by (auto simp: server_inv_def detach_session_def Let_def find_session_table split: option.split)

lemma add_zombie_inv: "server_inv w \<Longrightarrow> server_inv (add_zombie a w)"
proof -
  assume i: "server_inv w"
  let ?n = "sv_zombie_count (pw_server w)"
  have "?n < MAX_ZOMBIE_SESSIONS \<Longrightarrow> server_inv (on_server (\<lambda>v. v\<lparr>sv_zombie_count := ?n + 1\<rparr>) w)"
    using i by (simp add: server_inv_def)
  then show ?thesis using i zombie_reset_inv by (simp add: add_zombie_def Let_def)
qed

lemma disconnect_inv: "server_inv w \<Longrightarrow> server_inv (session_Disconnect a m w)"
proof -
  assume i: "server_inv w"
  have "server_inv (snd (session_close a m w))" by (rule inv_frame [OF i]) simp_all
  then show ?thesis
    by (auto simp: session_Disconnect_def OnSessionDisconnected_def intro!: add_zombie_inv detach_inv split: prod.split)
qed

lemma fault_inv [simp]: "server_inv (fault w) = server_inv w"
  by (simp add: server_inv_def)

lemma reap_loop_inv: "server_inv (snd (snd acc)) \<Longrightarrow> server_inv (snd (snd (foldl reap_one acc is)))"
proof (induction "is" arbitrary: acc)
  case (Cons i "is")
  have "server_inv (snd (snd (reap_one acc i)))"
    using Cons.prems zombie_reset_inv by (cases acc) (auto simp: reap_one_def split: option.split)
  then show ?case using Cons.IH by simp
qed simp

lemma fold_server_inv: "(\<And>w x. server_inv w \<Longrightarrow> server_inv (f w x)) \<Longrightarrow> server_inv w \<Longrightarrow> server_inv (foldl f w xs)"
  by (induction xs arbitrary: w) auto

lemma join_delete_inv: "server_inv w \<Longrightarrow> server_inv (join_delete w z)"
  by (simp add: join_delete_def delete_inv)

lemma reap_inv: "server_inv w \<Longrightarrow> server_inv (ReapZombieSessions w)"
proof -
  assume i: "server_inv w"
  obtain kept taken w1 where r: "foldl reap_one (0, [], w) [0..<sv_zombie_count (pw_server w)] = (kept, taken, w1)"
    by (cases "foldl reap_one (0, [], w) [0..<sv_zombie_count (pw_server w)]")
  have "kept \<le> MAX_ZOMBIE_SESSIONS"
    using i reap_kept_le [of "(0, [], w)" "[0..<sv_zombie_count (pw_server w)]"] r by (simp add: server_inv_def)
  moreover have "server_inv w1"
    using i r reap_loop_inv [of "(0, [], w)" "[0..<sv_zombie_count (pw_server w)]"] by simp
  ultimately have "server_inv (on_server (\<lambda>v. v\<lparr>sv_zombie_count := kept\<rparr>) w1)" by (simp add: server_inv_def)
  then show ?thesis
    by (auto simp: ReapZombieSessions_def r intro!: fold_server_inv join_delete_inv zombie_reset_inv)
qed

lemma store_session_inv: "server_inv w \<Longrightarrow> server_inv (on_server (store_session a) w)"
  by (auto simp: server_inv_def store_session_def free_slot_table split: option.split)

lemma register_token_inv: "server_inv w \<Longrightarrow> server_inv (register_token a i w)"
proof -
  assume i: "server_inv w"
  let ?ts = "sv_waiting_tokens (pw_server w)"
  let ?c = "\<lparr>pcfg_proxy_ip = ept_virtual_ip (token_after_removal i ?ts), pcfg_proxy_subnet_mask = 0xFFFF0000\<rparr>"
  define w1 where "w1 = with_session a (\<lambda>s. s\<lparr>se_virtual_ip := ept_virtual_ip (token_after_removal i ?ts), se_authenticated := True\<rparr>)
    (on_server (\<lambda>v. v\<lparr>sv_waiting_tokens := take i ?ts @ drop (i + 1) ?ts\<rparr>) w)"
  define w2 where "w2 = on_server (\<lambda>v. if sv_session_count v = 0 then Configure ?c v else v) w1"
  have "min (length ?ts) i + (length ?ts - Suc i) \<le> length ?ts" by linarith
  then have "server_inv w1" using i unfolding server_inv_def w1_def by simp
  then have "server_inv w2" by (simp add: server_inv_def w2_def Configure_def)
  then have "server_inv (on_server (store_session a) w2)" by (rule store_session_inv)
  moreover have "register_token a i w = snd (session_Send a (config_packet (pcfg_proxy_ip ?c)) (on_server (store_session a) w2))"
    unfolding register_token_def Let_def config_packet_encoded w2_def w1_def on_server_def by simp
  ultimately show ?thesis using inv_frame [of "on_server (store_session a) w2"] by simp
qed

lemma route_all_inv: "(\<And>a w. server_inv w \<Longrightarrow> server_inv (f a w)) \<Longrightarrow> server_inv w \<Longrightarrow> server_inv (route_all f ps w)"
  by (induction f ps w rule: route_all.induct) (auto split: option.split)

lemma route_first_inv: "(\<And>a w. server_inv w \<Longrightarrow> server_inv (f a w)) \<Longrightarrow> server_inv w \<Longrightarrow> server_inv (route_first f ip ps w)"
  by (induction f ip ps w rule: route_first.induct) (auto split: option.split)

lemma route_message_inv:
  assumes "\<And>info a w. server_inv w \<Longrightarrow> server_inv (f info a w)" and "server_inv w"
  shows "server_inv (snd (RouteMessage sender info f w))"
  using assms by (auto simp: RouteMessage_def Let_def intro!: route_all_inv route_first_inv split: option.split)

lemma send_encoded_inv: "server_inv w \<Longrightarrow> server_inv (send_encoded a e w)"
  by (erule inv_frame) (simp_all add: send_encoded_def)

lemma handle_data_inv: "server_inv w \<Longrightarrow> server_inv (HandleProxyData a h d w)"
proof -
  assume i: "server_inv w"
  let ?r = "RouteMessage a (pdh_info h) (\<lambda>info target. send_encoded target (proxy_data_packet (h\<lparr>pdh_info := info\<rparr>) d)) w"
  have "server_inv (snd ?r)" by (intro route_message_inv send_encoded_inv i)
  then show ?thesis by (cases ?r) (simp add: HandleProxyData_def server_inv_def)
qed

lemma handlers_inv:
  assumes "server_inv w"
  shows "server_inv (session_HandleProxyData a h d w)" "server_inv (session_HandleProxyConnect a rq w)"
    "server_inv (session_HandleProxyConnectReply a rp w)" "server_inv (session_HandleProxyDisconnect a m w)"
  using assms unfolding session_HandleProxyData_def session_HandleProxyConnect_def session_HandleProxyConnectReply_def
    session_HandleProxyDisconnect_def when_authenticated_def HandleProxyConnect_def HandleProxyConnectReply_def HandleProxyDisconnect_def
  by (auto intro!: handle_data_inv route_message_inv send_encoded_inv split: option.split)

lemma victims_inv: "server_inv w \<Longrightarrow> server_inv (snd (victims ip ps w))"
  by (induction ip ps w rule: victims.induct) (auto split: option.split prod.split)

lemma state_change_inv: "server_inv w \<Longrightarrow> server_inv (HandleExternalProxyStateChange ip c w)"
proof -
  assume i: "server_inv w"
  let ?w = "on_server (\<lambda>v. v\<lparr>sv_waiting_tokens := List.filter (\<lambda>t. ept_virtual_ip t \<noteq> ip) (sv_waiting_tokens v)\<rparr>) w"
  have "server_inv ?w" using i by (auto simp: server_inv_def intro: order_trans [OF length_filter_le])
  then have "server_inv (snd (victims ip (sv_sessions (pw_server ?w)) ?w))" by (rule victims_inv)
  then show ?thesis
    using i by (auto simp: HandleExternalProxyStateChange_def Let_def intro!: fold_server_inv disconnect_inv split: prod.split)
qed

lemma accept_inv: "server_inv w \<Longrightarrow> server_inv (accept_client fd ip c w)"
  unfolding accept_client_def new_session_def session_Start_def AllocateSessionStackSlot_def Let_def
  by (auto simp: server_inv_def split: option.split)

lemma start_inv: "server_Start io port w = Some (ok, w') \<Longrightarrow> server_inv w \<Longrightarrow> server_inv w'"
  by (auto simp: server_Start_def server_inv_def Let_def split: if_splits option.splits)

text \<open>Stopping empties the table of sessions slot by slot; the count is set at the end.\<close>

definition tables_inv :: "p2p_state \<Rightarrow> bool" where
  "tables_inv w \<longleftrightarrow> length (sv_sessions (pw_server w)) = MAX_PLAYERS \<and> length (sv_zombies (pw_server w)) = MAX_ZOMBIE_SESSIONS \<and>
     sv_zombie_count (pw_server w) \<le> MAX_ZOMBIE_SESSIONS \<and> length (pw_stacks w) = MAX_PLAYERS"

lemma zombie_reset_frames [simp]:
  "sv_sessions (pw_server (zombie_reset i p w)) = sv_sessions (pw_server w)"
  "length (pw_stacks (zombie_reset i p w)) = length (pw_stacks w)"
  by (simp_all add: zombie_reset_def Let_def split: option.split)

lemma disconnect_true_frames [simp]:
  "pw_server (session_Disconnect a True w) = pw_server w" "length (pw_stacks (session_Disconnect a True w)) = length (pw_stacks w)"
  using session_close_frames [of a True w] stacks_frames(1) [of a True w]
  by (cases "session_close a True w"; simp add: session_Disconnect_def)+

lemma stop_session_facts:
  assumes "tables_inv w" "i < MAX_PLAYERS"
  shows "tables_inv (stop_session w i)" "sv_sessions (pw_server (stop_session w i)) = (sv_sessions (pw_server w))[i := None]"
proof -
  have "tables_inv (stop_session w i) \<and> sv_sessions (pw_server (stop_session w i)) = (sv_sessions (pw_server w))[i := None]"
  proof (cases "sv_sessions (pw_server w) ! i")
    case None
    then have "(sv_sessions (pw_server w))[i := None] = sv_sessions (pw_server w)"
      by (metis list_update_id)
    then show ?thesis
      using None assms(1) by (simp add: stop_session_def)
  next
    case (Some a)
    then show ?thesis
      using assms(1) by (simp add: stop_session_def tables_inv_def add_zombie_def Let_def)
  qed
  then show "tables_inv (stop_session w i)" "sv_sessions (pw_server (stop_session w i)) = (sv_sessions (pw_server w))[i := None]"
    by blast+
qed

lemma stop_sessions:
  assumes "tables_inv w" "n \<le> MAX_PLAYERS"
  shows "tables_inv (foldl stop_session w [0..<n]) \<and>
    sv_sessions (pw_server (foldl stop_session w [0..<n])) = replicate n None @ drop n (sv_sessions (pw_server w))"
  using assms(2)
proof (induction n)
  case (Suc n)
  let ?v = "foldl stop_session w [0..<n]"
  have v: "tables_inv ?v" "sv_sessions (pw_server ?v) = replicate n None @ drop n (sv_sessions (pw_server w))"
    using Suc by auto
  have len: "n < length (sv_sessions (pw_server w))"
    using assms(1) Suc.prems by (simp add: tables_inv_def)
  have "(replicate n None @ drop n (sv_sessions (pw_server w)))[n := None] = replicate (Suc n) None @ drop (Suc n) (sv_sessions (pw_server w))"
    using len by (simp add: list_update_append Cons_nth_drop_Suc [symmetric] replicate_append_same [symmetric])
  then show ?case
    using stop_session_facts [OF v(1), of n] Suc.prems v(2) by simp
qed (use assms(1) in simp)

lemma stop_inv: "server_inv w \<Longrightarrow> server_inv (stop_locked w)"
proof -
  assume i: "server_inv w"
  let ?w = "(on_server (\<lambda>v. v\<lparr>sv_running := False, sv_listen_fd := - 1\<rparr>) w)
    \<lparr>pw_closed := pw_closed w @ (if sv_listen_fd (pw_server w) \<ge> 0 then [sv_listen_fd (pw_server w)] else [])\<rparr>"
  have "tables_inv ?w" "length (sv_sessions (pw_server w)) = MAX_PLAYERS"
    using i by (simp_all add: tables_inv_def server_inv_def)
  from stop_sessions [OF this(1), of MAX_PLAYERS] this(2)
  have "tables_inv (foldl stop_session ?w [0..<MAX_PLAYERS])" "sv_sessions (pw_server (foldl stop_session ?w [0..<MAX_PLAYERS])) = replicate MAX_PLAYERS None"
    by simp_all
  then show ?thesis
    by (simp add: stop_locked_def Let_def server_inv_def tables_inv_def table_def)
qed

lemma host_all_Some:
  "snd (host_all p (Some a # ps) w) = (case pw_heap w a of
     None \<Rightarrow> snd (host_all p ps (fault w))
   | Some s \<Rightarrow> if se_authenticated s then snd (host_all p ps (snd (session_Send a p w))) else snd (host_all p ps w))"
  by (simp split: option.split prod.split)

lemma host_all_frames: "pw_server (snd (host_all p ps w)) = pw_server w \<and> pw_stacks (snd (host_all p ps w)) = pw_stacks w"
proof (induction ps arbitrary: w)
  case (Cons x ps)
  then show ?case by (cases x) (simp_all add: host_all_Some del: host_all.simps(3) split: option.split)
qed simp

lemma host_first_frames: "pw_server (snd (host_first p ip ps w)) = pw_server w \<and> pw_stacks (snd (host_first p ip ps w)) = pw_stacks w"
  by (induction p ip ps w rule: host_first.induct) (auto split: option.split)

lemma broadcast_inv: "server_inv w \<Longrightarrow> server_inv (snd (snd (BroadcastFromHost h d w)))"
  by (erule inv_frame)
    (auto simp: BroadcastFromHost_def Let_def host_all_frames host_first_frames split: prod.split dest!: arg_cong [where f = snd])

lemma public_port_inv:
  "server_inv w \<Longrightarrow> server_inv (on_server (\<lambda>v. snd (snd (NatPunch lib created u v))) w)"
  "server_inv w \<Longrightarrow> server_inv (on_server (\<lambda>v. snd (ReleaseNatPunch lib u v)) w)"
  by (auto simp: server_inv_def NatPunch_def ReleaseNatPunch_def StartLeaseRenewal_def Let_def split: prod.split option.split bool.split)

text \<open>
  What the threads of the proxy do, one critical section or message at a time: starting and stopping, the public port, the master server's
  notices, attempts to register, messages of peers and of the host, disconnections, reaping and accepting. The receive loop, the accept loop,
  \<^verbatim>\<open>Stop\<close> and the whole of \<^verbatim>\<open>TryRegisterUser\<close> are sequences of such steps.
\<close>

inductive p2p_step :: "p2p_state \<Rightarrow> p2p_state \<Rightarrow> bool" where
  start: "server_Start io port w = Some (ok, w') \<Longrightarrow> p2p_step w w'"
| stop: "sv_running (pw_server w) \<Longrightarrow> p2p_step w (stop_locked w)"
| nat_punch: "p2p_step w (on_server (\<lambda>v. snd (snd (NatPunch lib created u v))) w)"
| release: "p2p_step w (on_server (\<lambda>v. snd (ReleaseNatPunch lib u v)) w)"
| token: "p2p_step w (AddWaitingToken t w)"
| attempt: "p2p_step w (register_token a i w)"
| message_data: "p2p_step w (session_HandleProxyData a h d w)"
| message_connect: "p2p_step w (session_HandleProxyConnect a rq w)"
| message_reply: "p2p_step w (session_HandleProxyConnectReply a rp w)"
| message_disconnect: "p2p_step w (session_HandleProxyDisconnect a m w)"
| host_message: "p2p_step w (snd (snd (BroadcastFromHost h d w)))"
| disconnect: "p2p_step w (session_Disconnect a from_master w)"
| state_change: "p2p_step w (HandleExternalProxyStateChange ip c w)"
| reap: "p2p_step w (ReapZombieSessions w)"
| accept: "p2p_step w (accept_client fd ip created w)"
| thread_done: "p2p_step w (with_session a (\<lambda>s. s\<lparr>se_thread_done := True\<rparr>) w)"
| bad_access: "p2p_step w (fault w)"
| host_ip: "p2p_step w (SetHostVirtualIp ip w)"
| host_callback: "p2p_step w (SetHostDataCallback cb w)"

abbreviation p2p_steps :: "p2p_state \<Rightarrow> p2p_state \<Rightarrow> bool" where "p2p_steps \<equiv> p2p_step\<^sup>*\<^sup>*"

lemma p2p_step_inv: "p2p_step w w' \<Longrightarrow> server_inv w \<Longrightarrow> server_inv w'"
proof (induction rule: p2p_step.induct)
  case (token w t)
  then show ?case by (auto simp: server_inv_def AddWaitingToken_def MAX_WAITING_TOKENS_def)
next
  case (thread_done w a)
  then show ?case by (rule inv_frame) simp_all
qed (simp_all add: start_inv stop_inv public_port_inv broadcast_inv register_token_inv handlers_inv disconnect_inv state_change_inv reap_inv accept_inv,
  simp_all add: server_inv_def SetHostVirtualIp_def SetHostDataCallback_def)

text \<open>
  The flag for undefined behaviour is never taken back: a state without it has come about without any, and what the definitions make of a
  state with it is of no account.
\<close>

lemma fault_session [simp]:
  "pw_fault w \<Longrightarrow> pw_fault (with_session a f w)" "pw_fault w \<Longrightarrow> pw_fault (zombie_reset i p w)" "pw_fault w \<Longrightarrow> pw_fault (detach_session a w)"
  "pw_fault w \<Longrightarrow> pw_fault (add_zombie a w)" "pw_fault w \<Longrightarrow> pw_fault (snd (session_Send a d w))" "pw_fault w \<Longrightarrow> pw_fault (send_encoded a e w)"
  by (auto simp: with_session_def zombie_reset_def detach_session_def NotifyMasterDisconnect_def add_zombie_def session_Send_def send_encoded_def Let_def
      split: option.split list.split)

lemma fault_disconnect [simp]: "pw_fault w \<Longrightarrow> pw_fault (session_Disconnect a m w)"
  using session_close_fault [of a m w] by (auto simp: session_Disconnect_def OnSessionDisconnected_def simp del: session_close_fault split: prod.split)

lemma fault_fold: "(\<And>w x. pw_fault w \<Longrightarrow> pw_fault (f w x)) \<Longrightarrow> pw_fault w \<Longrightarrow> pw_fault (foldl f w xs)"
  by (induction xs arbitrary: w) auto

lemma fault_reap_loop: "pw_fault (snd (snd acc)) \<Longrightarrow> pw_fault (snd (snd (foldl reap_one acc is)))"
proof (induction "is" arbitrary: acc)
  case (Cons i "is")
  have "pw_fault (snd (snd (reap_one acc i)))"
    using Cons.prems by (cases acc) (auto simp: reap_one_def split: option.split)
  then show ?case using Cons.IH by simp
qed simp

lemma fault_reap: "pw_fault w \<Longrightarrow> pw_fault (ReapZombieSessions w)"
  using fault_reap_loop [of "(0, [], w)" "[0..<sv_zombie_count (pw_server w)]"]
  by (auto simp: ReapZombieSessions_def join_delete_def Let_def intro!: fault_fold split: prod.split)

lemma fault_route_all: "(\<And>a w. pw_fault w \<Longrightarrow> pw_fault (f a w)) \<Longrightarrow> pw_fault w \<Longrightarrow> pw_fault (route_all f ps w)"
  by (induction f ps w rule: route_all.induct) (auto split: option.split)

lemma fault_route_first: "(\<And>a w. pw_fault w \<Longrightarrow> pw_fault (f a w)) \<Longrightarrow> pw_fault w \<Longrightarrow> pw_fault (route_first f ip ps w)"
  by (induction f ip ps w rule: route_first.induct) (auto split: option.split)

lemma fault_route:
  "(\<And>info a w. pw_fault w \<Longrightarrow> pw_fault (f info a w)) \<Longrightarrow> pw_fault w \<Longrightarrow> pw_fault (snd (RouteMessage sender info f w))"
  by (auto simp: RouteMessage_def Let_def intro!: fault_route_all fault_route_first split: option.split)

lemma fault_data: "pw_fault w \<Longrightarrow> pw_fault (HandleProxyData a h d w)"
  using fault_route [of "\<lambda>info target. send_encoded target (proxy_data_packet (h\<lparr>pdh_info := info\<rparr>) d)" w a "pdh_info h"]
  by (auto simp: HandleProxyData_def split: prod.split)

lemma fault_handlers:
  assumes "pw_fault w"
  shows "pw_fault (session_HandleProxyData a h d w)" "pw_fault (session_HandleProxyConnect a rq w)"
    "pw_fault (session_HandleProxyConnectReply a rp w)" "pw_fault (session_HandleProxyDisconnect a m w)"
  using assms unfolding session_HandleProxyData_def session_HandleProxyConnect_def session_HandleProxyConnectReply_def
    session_HandleProxyDisconnect_def when_authenticated_def HandleProxyConnect_def HandleProxyConnectReply_def HandleProxyDisconnect_def
  by (auto intro!: fault_data fault_route split: option.split)

lemma fault_register: "pw_fault w \<Longrightarrow> pw_fault (register_token a i w)"
  by (simp add: register_token_def Let_def)

lemma fault_host_all: "pw_fault w \<Longrightarrow> pw_fault (snd (host_all p ps w))"
proof (induction ps arbitrary: w)
  case (Cons x ps)
  then show ?case by (cases x) (simp_all add: host_all_Some del: host_all.simps(3) split: option.split)
qed simp

lemma fault_host_first: "pw_fault w \<Longrightarrow> pw_fault (snd (host_first p ip ps w))"
  by (induction p ip ps w rule: host_first.induct) (auto split: option.split)

lemma fault_broadcast: "pw_fault w \<Longrightarrow> pw_fault (snd (snd (BroadcastFromHost h d w)))"
  using fault_host_all [of w] fault_host_first [of w]
  by (auto simp: BroadcastFromHost_def Let_def split: prod.split dest!: arg_cong [where f = snd])

lemma fault_victims: "pw_fault w \<Longrightarrow> pw_fault (snd (victims ip ps w))"
  by (induction ip ps w rule: victims.induct) (auto split: option.split prod.split)

lemma fault_state_change: "pw_fault w \<Longrightarrow> pw_fault (HandleExternalProxyStateChange ip c w)"
  using fault_victims [of "on_server (\<lambda>v. v\<lparr>sv_waiting_tokens := List.filter (\<lambda>t. ept_virtual_ip t \<noteq> ip) (sv_waiting_tokens v)\<rparr>) w" ip
      "sv_sessions (pw_server w)"]
  by (auto simp: HandleExternalProxyStateChange_def Let_def intro!: fault_fold split: prod.split)

lemma fault_accept: "pw_fault w \<Longrightarrow> pw_fault (accept_client fd ip c w)"
  unfolding accept_client_def new_session_def session_Start_def AllocateSessionStackSlot_def Let_def
  by (auto split: option.split)

lemma fault_stop: "pw_fault w \<Longrightarrow> pw_fault (stop_locked w)"
  by (auto simp: stop_locked_def stop_session_def Let_def intro!: fault_fold split: option.split)

lemma fault_start: "server_Start io port w = Some (ok, w') \<Longrightarrow> pw_fault w \<Longrightarrow> pw_fault w'"
  by (auto simp: server_Start_def Let_def split: if_splits option.splits)

lemma p2p_step_fault: "p2p_step w w' \<Longrightarrow> pw_fault w \<Longrightarrow> pw_fault w'"
  by (induction rule: p2p_step.induct)
    (simp_all add: fault_start fault_stop fault_register fault_handlers fault_broadcast fault_state_change fault_reap fault_accept
      AddWaitingToken_def SetHostVirtualIp_def SetHostDataCallback_def)

lemma p2p_steps_fault: "p2p_steps w w' \<Longrightarrow> pw_fault w \<Longrightarrow> pw_fault w'"
  by (induction rule: rtranclp_induct) (auto intro: p2p_step_fault)

lemma p2p_steps_inv: "p2p_steps w w' \<Longrightarrow> server_inv w \<Longrightarrow> server_inv w'"
  by (induction rule: rtranclp_induct) (auto intro: p2p_step_inv)

lemma register_loop_steps:
  "\<forall>f\<in>set waits. \<forall>w. p2p_steps w (f w) \<Longrightarrow> p2p_steps w (snd (register_loop n waits a c ip w))"
proof (induction n waits a c ip w rule: register_loop.induct)
  case (2 n waits a c ip w)
  show ?case
  proof (cases "find_token (\<lambda>t. token_accepts t c ip) (sv_waiting_tokens (pw_server w))")
    case None
    have "p2p_steps w (case waits of f # fs \<Rightarrow> f w | [] \<Rightarrow> w)" using 2(2) by (cases waits) simp_all
    moreover have "p2p_steps (case waits of f # fs \<Rightarrow> f w | [] \<Rightarrow> w)
        (snd (register_loop n (tl waits) a c ip (case waits of f # fs \<Rightarrow> f w | [] \<Rightarrow> w)))"
      using 2(1) [OF None] 2(2) by (cases waits) simp_all
    ultimately show ?thesis using None by simp
  qed (auto intro: p2p_step.attempt)
qed simp

lemma process_data_steps:
  assumes "\<forall>f\<in>set waits. \<forall>w. p2p_steps w (f w)"
  shows "p2p_steps w (session_ProcessData waits a data sz w)"
proof -
  have "p2p_steps w (session_HandleExternalProxy waits a c w)" for c
  proof (cases "pw_heap w a")
    case (Some s)
    obtain ok w1 where r: "register_loop 10 waits a c (se_remote_ip s) w = (ok, w1)" by fastforce
    then have "p2p_steps w w1" using register_loop_steps [OF assms, of w 10 a c "se_remote_ip s"] by simp
    then show ?thesis
      using Some r p2p_step.disconnect [of w1 a False]
      by (simp add: session_HandleExternalProxy_def TryRegisterUser_def rtranclp.rtrancl_into_rtrancl)
  qed (auto simp: session_HandleExternalProxy_def intro: p2p_step.bad_access)
  then show ?thesis
    unfolding session_ProcessData_def Let_def
    by (auto intro: p2p_step.intros split: PacketId.split)
qed

lemma is_connected_steps: "p2p_steps w (snd (is_connected a w))"
  by (auto simp: is_connected_def intro: p2p_step.bad_access split: option.split)

lemma drain_steps:
  assumes "\<forall>f\<in>set waits. \<forall>w. p2p_steps w (f w)"
  shows "p2p_steps w (snd (session_drain waits a b w))"
  using assms
proof (induction waits a b w rule: session_drain.induct)
  case (1 waits a b w)
  obtain c w1 where c: "is_connected a w = (c, w1)" by fastforce
  have w1: "p2p_steps w w1" using is_connected_steps [of w a] c by simp
  show ?case
  proof (cases "\<exists>data n. c \<and> pb_peek_packet b = (Some data, n)")
    case True
    then obtain data n where p: "c" "pb_peek_packet b = (Some data, n)" by blast
    have "p2p_steps w1 (session_ProcessData waits a data n w1)" by (rule process_data_steps [OF 1(2)])
    moreover have "p2p_steps (session_ProcessData waits a data n w1)
        (snd (session_drain waits a (pb_consume b n) (session_ProcessData waits a data n w1)))"
      using 1 c p by auto
    ultimately show ?thesis using w1 c p by (subst session_drain.simps) simp
  next
    case False
    then have "snd (session_drain waits a b w) \<in> {w1, session_Disconnect a False w1}"
      using c by (subst session_drain.simps) (auto split: prod.split option.split bool.split)
    then show ?thesis using w1 p2p_step.disconnect [of w1 a False] by (auto intro: rtranclp.rtrancl_into_rtrancl)
  qed
qed

lemma receive_steps:
  assumes "\<forall>f\<in>set waits. \<forall>w. p2p_steps w (f w)" and "\<forall>(f, r)\<in>set script. \<forall>w. p2p_steps w (f w)"
  shows "p2p_steps w (snd (session_receive waits script a b w))"
  using assms
proof (induction waits script a b w rule: session_receive.induct)
  case (1 waits a b w)
  show ?case using is_connected_steps [of w a] by (auto split: prod.split)
next
  case (2 waits others r script a b w)
  obtain c w1 where c: "is_connected a w = (c, w1)" by fastforce
  have w1: "p2p_steps w w1" using is_connected_steps [of w a] c by simp
  then have w2: "p2p_steps w (others w1)" using 2 by (auto intro: rtranclp_trans)
  show ?case
  proof (cases "c \<and> r \<noteq> RecvEnded")
    case False
    then show ?thesis using c w1 w2 by (cases c) auto
  next
    case True
    show ?thesis
    proof (cases r)
      case (Received bytes)
      obtain res b1 where ap: "pb_append b (take RECV_BUFFER_SIZE bytes) = (res, b1)" by fastforce
      obtain b2 w3 where d: "session_drain waits a b1 (others w1) = (b2, w3)" by fastforce
      have "p2p_steps (others w1) w3" using drain_steps [OF 2(3), of "others w1" a b1] d by simp
      then show ?thesis using 2 True Received c ap d w2 by (cases res) (auto intro: rtranclp_trans)
    qed (use 2 True c w2 in \<open>auto intro: rtranclp_trans\<close>)
  qed
qed

lemma thread_steps:
  assumes "\<forall>f\<in>set waits. \<forall>w. p2p_steps w (f w)" and "\<forall>(f, r)\<in>set script. \<forall>w. p2p_steps w (f w)"
  shows "p2p_steps w (snd (SessionRecvThreadEntry waits script a b w))"
proof -
  obtain e w1 where r: "session_receive waits script a b w = (e, w1)" by fastforce
  have "p2p_steps w w1" using receive_steps [OF assms, of w a b] r by simp
  then show ?thesis
    using r p2p_step.disconnect [of w1 a False] p2p_step.thread_done [of "session_Disconnect a False w1" a]
    by (auto simp: SessionRecvThreadEntry_def session_ReceiveLoop_def intro: rtranclp.rtrancl_into_rtrancl)
qed

lemma accept_steps:
  assumes "\<forall>(f, r)\<in>set script. \<forall>w. p2p_steps w (f w)"
  shows "p2p_steps w (snd (AcceptLoop script w))"
  using assms
proof (induction script arbitrary: w)
  case (Cons x script)
  obtain others r where x: "x = (others, r)" by fastforce
  have ih: "p2p_steps v (snd (AcceptLoop script v))" for v using Cons by simp
  have w1: "p2p_steps w (others (ReapZombieSessions w))"
    using Cons.prems x p2p_step.reap [of w] by (auto intro: converse_rtranclp_into_rtranclp)
  have a: "p2p_steps w (accept_client fd ip c (others (ReapZombieSessions w)))" for fd ip c
    using w1 p2p_step.accept by (rule rtranclp.rtrancl_into_rtrancl)
  show ?case
    using x w1 rtranclp_trans [OF w1 ih] rtranclp_trans [OF a ih] by (cases r) (simp_all add: Let_def)
qed (auto intro: p2p_step.reap)

lemma stop_steps:
  assumes "\<And>w. p2p_steps w (accept_end w)" and "\<forall>f\<in>set waits. \<forall>w. p2p_steps w (f w)" and "server_Stop accept_end waits w = Some w'"
  shows "p2p_steps w w'"
proof -
  have reap: "stop_reap waits v = Some w' \<Longrightarrow> p2p_steps v w'" if "\<forall>f\<in>set waits. \<forall>w. p2p_steps w (f w)" for waits v
    using that
  proof (induction waits v rule: stop_reap.induct)
    case (1 waits v)
    have r: "p2p_steps v (ReapZombieSessions v)"
      by (auto intro: p2p_step.reap)
    show ?case
    proof (cases "sv_zombie_count (pw_server (ReapZombieSessions v)) = 0")
      case True
      then show ?thesis using 1(2) r by (simp add: Let_def)
    next
      case False
      then obtain f fs where fs: "waits = f # fs" "stop_reap fs (f (ReapZombieSessions v)) = Some w'"
        using 1(2) by (cases waits) (simp_all add: Let_def)
      have "p2p_steps (f (ReapZombieSessions v)) w'"
        using 1(1) [OF refl False fs(1) fs(2)] 1(3) fs(1) by simp
      then show ?thesis
        using r 1(3) fs(1) by (meson list.set_intros(1) rtranclp_trans)
    qed
  qed
  show ?thesis
  proof (cases "sv_running (pw_server w)")
    case True
    then have "p2p_steps (accept_end (stop_locked w)) w'"
      using assms(3) reap [OF assms(2)] by (simp add: server_Stop_def)
    then show ?thesis
      using assms(1) [of "stop_locked w"] r_into_rtranclp [of p2p_step, OF p2p_step.stop [OF True]] by (meson rtranclp_trans)
  qed (use assms(3) in \<open>simp add: server_Stop_def\<close>)
qed

text \<open>The state of a new server, with every stack of the pool free.\<close>

definition p2p_new :: "bool \<Rightarrow> int list \<Rightarrow> p2p_state" where
  "p2p_new master sends =
     \<lparr>pw_server = sv_new master, pw_heap = (\<lambda>a. None), pw_next = 0, pw_fault = False, pw_stacks = replicate MAX_PLAYERS False,
      pw_sends = sends, pw_sent = [], pw_master = [], pw_host = [], pw_closed = []\<rparr>"

lemma p2p_new_inv: "server_inv (p2p_new m ss)"
  by (simp add: server_inv_def p2p_new_def sv_new_def table_def)

lemma table_le: "length (table ps) \<le> length ps"
  by (simp add: table_def)

text \<open>
  C15: the tables of the host's proxy stay in bounds and its count of sessions right, whatever the order in which it is started and stopped, the
  public port is opened and released, and notices of the master server, registrations, messages of peers and of the host, disconnections, reaping and
  new connections come, as long as nothing undefined has happened, such as the double free of a peer that has left: at most eight sessions and as many as
  counted, at most sixteen ended sessions and sixteen waiting tokens. The threads do nothing else: a run of a receive loop, of the accept loop, of
  \<^verbatim>\<open>Start\<close> or of \<^verbatim>\<open>Stop\<close>, with other threads in between, keeps it too.
\<close>

theorem server_tables_bounded:
  assumes r: "p2p_steps (p2p_new master sends) w"
    and others: "\<forall>f\<in>set waits. \<forall>w. p2p_steps w (f w)" "\<forall>(f, r)\<in>set script. \<forall>w. p2p_steps w (f w)"
      "\<forall>(f, r)\<in>set arrivals. \<forall>w. p2p_steps w (f w)" "\<forall>w. p2p_steps w (accept_end w)"
    and w': "w' \<in> {w, snd (SessionRecvThreadEntry waits script a b w), snd (AcceptLoop arrivals w)} \<or>
      server_Stop accept_end waits w = Some w' \<or> server_Start io port w = Some (ok, w')"
    and defined: "\<not> pw_fault w'"
  shows "sv_session_count (pw_server w') = int (length (table (sv_sessions (pw_server w')))) \<and>
    sv_session_count (pw_server w') \<le> 8 \<and> sv_zombie_count (pw_server w') \<le> length (sv_zombies (pw_server w')) \<and>
    length (sv_zombies (pw_server w')) = 16 \<and> length (sv_waiting_tokens (pw_server w')) \<le> 16 \<and> \<not> pw_fault w"
proof -
  have s: "p2p_steps w w'"
    using w' thread_steps [OF others(1,2), of w a b] accept_steps [OF others(3), of w] stop_steps [OF _ others(1), of accept_end w w'] others(4)
      p2p_step.start [of io port w ok w'] by auto
  then have "p2p_steps (p2p_new master sends) w'" using r by (rule rtranclp_trans [rotated])
  then have "server_inv w'" using p2p_new_inv by (rule p2p_steps_inv)
  then show ?thesis
    using table_le [of "sv_sessions (pw_server w')"] p2p_steps_fault [OF s] defined
    by (auto simp: server_inv_def MAX_PLAYERS_def MAX_WAITING_TOKENS_def MAX_ZOMBIE_SESSIONS_def)
qed

text \<open>A server that is started, accepts a connection and, in the next turn of the accept loop, has its peer registered.\<close>

definition demo_start :: start_io where
  "demo_start = \<lparr>si_socket = 4, si_bind = (\<lambda>p. True), si_listen = True, si_thread = True\<rparr>"

definition demo_started :: p2p_state where
  "demo_started = AddWaitingToken (demo_token 7 1) (snd (the (server_Start demo_start 0 (p2p_new True [20]))))"

lemma demo_started_steps: "p2p_steps (p2p_new True [20]) demo_started"
proof -
  have "server_Start demo_start 0 (p2p_new True [20]) = Some (True, snd (the (server_Start demo_start 0 (p2p_new True [20]))))"
    by (simp add: server_Start_def demo_start_def p2p_new_def sv_new_def ports_between_def PRIVATE_PORT_BASE_def PRIVATE_PORT_RANGE_def Let_def upt_conv_Cons)
  then show ?thesis
    unfolding demo_started_def by (meson p2p_step.start p2p_step.token converse_rtranclp_into_rtranclp r_into_rtranclp)
qed

lemma reap_idle:
  assumes "no_zombies (pw_server w)"
  shows "ReapZombieSessions w = w"
proof -
  have "zombie_reset i None w = w" if "i < MAX_ZOMBIE_SESSIONS" for i
  proof -
    have "sv_zombies (pw_server w) ! i = None" "(sv_zombies (pw_server w))[i := None] = sv_zombies (pw_server w)"
      using assms that by (simp_all add: no_zombies_def list_update_same_conv)
    then show ?thesis
      by (simp add: zombie_reset_empty on_server_def)
  qed
  then have "foldl (\<lambda>w i. zombie_reset i None w) w [0..<n] = w" if "n \<le> MAX_ZOMBIE_SESSIONS" for n
    using that by (induction n) simp_all
  moreover have "on_server (\<lambda>v. v\<lparr>sv_zombie_count := 0\<rparr>) w = w" "sv_zombie_count (pw_server w) = 0"
    using assms by (cases w; cases "pw_server w"; simp add: no_zombies_def on_server_def)+
  ultimately show ?thesis
    by (simp add: ReapZombieSessions_def)
qed

lemma demo_started_eq:
  "demo_started = (p2p_new True [20])\<lparr>pw_server := (sv_new True)\<lparr>sv_listen_fd := 4, sv_private_port := 39990, sv_running := True,
     sv_waiting_tokens := [demo_token 7 1]\<rparr>\<rparr>"
  by (simp add: demo_started_def server_Start_def demo_start_def p2p_new_def sv_new_def ports_between_def PRIVATE_PORT_BASE_def PRIVATE_PORT_RANGE_def
      Let_def upt_conv_Cons AddWaitingToken_def on_server_def MAX_WAITING_TOKENS_def)

lemma register_token_server:
  "pw_server (register_token a i w) = (let ts = sv_waiting_tokens (pw_server w); v = (pw_server w)\<lparr>sv_waiting_tokens := take i ts @ drop (i + 1) ts\<rparr>
     in store_session a (if sv_session_count v = 0
       then Configure \<lparr>pcfg_proxy_ip = ept_virtual_ip (token_after_removal i ts), pcfg_proxy_subnet_mask = 0xFFFF0000\<rparr> v else v))"
  by (simp add: register_token_def Let_def)

lemma demo_started_runs:
  defines "w' \<equiv> snd (AcceptLoop [(\<lambda>w. w, Accepted 5 0 True), (register_token 0 0, PollTimeout)] demo_started)"
  shows "\<not> pw_fault w'" "sv_session_count (pw_server w') = 1"
proof -
  define w1 where "w1 = accept_client 5 0 True demo_started"
  have w1: "pw_server w1 = pw_server demo_started" "pw_heap w1 0 \<noteq> None" "\<not> pw_fault w1"
    by (simp_all add: w1_def accept_client_def new_session_def session_Start_def AllocateSessionStackSlot_def with_session_def demo_started_eq
        p2p_new_def sv_new_def MAX_PLAYERS_def numeral_eq_Suc)
  then obtain s where s: "pw_heap w1 0 = Some s" by blast
  have idle: "no_zombies (pw_server demo_started)" "sv_running (pw_server demo_started)"
    by (simp_all add: demo_started_eq no_zombies_def sv_new_def)
  define w2 where "w2 = register_token 0 0 w1"
  have w2: "\<not> pw_fault w2" "no_zombies (pw_server w2)" "sv_running (pw_server w2)" "sv_session_count (pw_server w2) = 1"
    using w1 by (simp_all add: w2_def register_token_facts(3) [OF s] register_token_server demo_started_eq no_zombies_def sv_new_def store_session_def Configure_def
        MAX_PLAYERS_def numeral_eq_Suc)
  have "w' = w2"
    using idle w1(1) w2(2,3) by (simp add: w'_def reap_idle w1_def [symmetric] w2_def [symmetric])
  then show "\<not> pw_fault w'" "sv_session_count (pw_server w') = 1"
    using w2 by simp_all
qed

theorem server_tables_bounded_witness:
  "let w' = snd (AcceptLoop [(\<lambda>w. w, Accepted 5 0 True), (register_token 0 0, PollTimeout)] demo_started)
   in \<not> pw_fault w' \<and> sv_session_count (pw_server w') = 1 \<and> length (table (sv_sessions (pw_server w'))) = 1 \<and>
     sv_zombie_count (pw_server w') \<le> 16"
proof -
  let ?arr = "[(\<lambda>w. w, Accepted 5 0 True), (register_token 0 0, PollTimeout)]"
  let ?w = "snd (AcceptLoop ?arr demo_started)"
  have run: "\<not> pw_fault ?w \<and> sv_session_count (pw_server ?w) = 1"
    using demo_started_runs by simp
  have "\<forall>(f, r)\<in>set ?arr. \<forall>w. p2p_steps w (f w)"
    by (auto intro: p2p_step.attempt)
  from server_tables_bounded [OF demo_started_steps, of "[]" "[]" ?arr "\<lambda>w. w" ?w, OF _ _ this] run show ?thesis
    by (auto simp: Let_def)
qed

subsection \<open>The lease\<close>

lemma lease_idle:
  assumes "sv_lease_thread_running v" "\<not> sv_disposed v"
  shows "waited \<le> renew_chunks \<Longrightarrow> LeaseRenewalLoop lib u waited (replicate n (\<lambda>v. v)) v =
    (False, replicate ((waited + n) div renew_chunks)
       (sv_private_port v, sv_public_port v, um_RefreshPortMapping lib u (sv_private_port v) (sv_public_port v)))"
proof (induction "2 * n + (if waited < renew_chunks then 0 else 1)" arbitrary: n waited rule: less_induct)
  case less
  have pos: "0 < renew_chunks" by (simp add: renew_chunks_def PORT_LEASE_RENEW_def)
  show ?case
  proof (cases "waited < renew_chunks")
    case True
    then show ?thesis using less assms by (subst LeaseRenewalLoop.simps) (cases n; simp)
  next
    case False
    then have "waited = renew_chunks" using less.prems by simp
    moreover have "(renew_chunks + n) div renew_chunks = Suc (n div renew_chunks)" using pos div_add_self1 [of renew_chunks n] by linarith
    ultimately show ?thesis using less(1) [of n 0] assms pos by (subst LeaseRenewalLoop.simps) simp
  qed
qed

text \<open>
  The public port is renewed before the gateway forgets it: while the lease thread runs undisturbed, \<open>n\<close> pauses of 250 ms bring one
  renewal of the mapping for every 200 of them, that is every 50 seconds of a lease of 60.
\<close>

theorem lease_renewed_in_time:
  assumes "sv_lease_thread_running v" "\<not> sv_disposed v"
  shows "LeaseRenewalLoop lib u 0 (replicate n (\<lambda>v. v)) v =
      (False, replicate (n div 200)
         (sv_private_port v, sv_public_port v, um_RefreshPortMapping lib u (sv_private_port v) (sv_public_port v))) \<and>
    200 * 250 < 1000 * PORT_LEASE_LENGTH"
  using lease_idle [OF assms, of 0 lib u n] by (simp add: renew_chunks_def PORT_LEASE_RENEW_def PORT_LEASE_LENGTH_def)

theorem lease_renewed_in_time_witness:
  "length (snd (LeaseRenewalLoop \<lparr>ul_discover = None, ul_add = (\<lambda>i e l. 0), ul_delete = (\<lambda>e. 0), ul_external_ip = None, ul_nifm = None\<rparr>
     um_new 0 (replicate 400 (\<lambda>v. v)) ((sv_new True)\<lparr>sv_lease_thread_running := True\<rparr>))) = 2"
  using lease_renewed_in_time [of "(sv_new True)\<lparr>sv_lease_thread_running := True\<rparr>"
      "\<lparr>ul_discover = None, ul_add = (\<lambda>i e l. 0), ul_delete = (\<lambda>e. 0), ul_external_ip = None, ul_nifm = None\<rparr>" um_new 400]
  by (simp add: sv_new_def)

lemma punch_first_Some:
  "punch_first add i n = Some p \<Longrightarrow>
     \<exists>k<n. p = PUBLIC_PORT_BASE + word_of_nat (i + k) \<and> add p \<and> (\<forall>j<k. \<not> add (PUBLIC_PORT_BASE + word_of_nat (i + j)))"
proof (induction add i n rule: punch_first.induct)
  case (2 add i n)
  show ?case
  proof (cases "add (PUBLIC_PORT_BASE + word_of_nat i)")
    case True
    then show ?thesis using 2(2) by (intro exI [of _ 0]) (simp add: Let_def)
  next
    case False
    then obtain k where k: "k < n" "p = PUBLIC_PORT_BASE + word_of_nat (i + 1 + k)" "add p"
        "\<forall>j<k. \<not> add (PUBLIC_PORT_BASE + word_of_nat (i + 1 + j))"
      using 2 by (auto simp: Let_def)
    have "\<not> add (PUBLIC_PORT_BASE + word_of_nat (i + j))" if "j < Suc k" for j
      using that k(4) False by (cases j) simp_all
    then show ?thesis using k by (intro exI [of _ "Suc k"]) simp
  qed
qed simp

lemma public_port: "j < 10 \<Longrightarrow> unat (39990 + word_of_nat j :: u16) = 39990 + j"
  by (simp add: unat_word_ariths unat_of_nat)

text \<open>
  A public port that \<^verbatim>\<open>NatPunch\<close> reports is one of the ten of its range, the gateway accepted the mapping of the server's own
  port to it for sixty seconds and refused every lower one, and the server remembers it; the answer zero leaves the server as it was.
\<close>

theorem nat_punch_exact:
  assumes "NatPunch lib created u v = (p, u', v')"
  shows "if p = 0 then v' = v
    else 39990 \<le> p \<and> p \<le> 39999 \<and> um_available u' \<and> ul_add lib (sv_private_port v) p 60 = 0 \<and> sv_public_port v' = p \<and>
      (\<forall>q. 39990 \<le> q \<longrightarrow> q < p \<longrightarrow> ul_add lib (sv_private_port v) q 60 \<noteq> 0)"
proof (cases "p = 0")
  case True
  have "punch_first f 0 PUBLIC_PORT_RANGE \<noteq> Some 0" for f
  proof
    assume "punch_first f 0 PUBLIC_PORT_RANGE = Some 0"
    then obtain k where "k < 10" "39990 + word_of_nat k = (0 :: u16)"
      by (auto dest!: punch_first_Some simp: PUBLIC_PORT_RANGE_def PUBLIC_PORT_BASE_def)
    then show False using public_port [of k] by simp
  qed
  then show ?thesis using assms True by (auto simp: NatPunch_def split: prod.splits bool.splits option.splits)
next
  case False
  let ?add = "\<lambda>p. um_AddPortMapping lib u' (sv_private_port v) p PORT_LEASE_LENGTH"
  have p: "punch_first ?add 0 PUBLIC_PORT_RANGE = Some p" "sv_public_port v' = p"
    using assms False by (auto simp: NatPunch_def StartLeaseRenewal_def split: prod.splits bool.splits option.splits)
  then obtain k where k: "k < 10" "p = 39990 + word_of_nat k" "?add p" "\<forall>j<k. \<not> ?add (39990 + word_of_nat j)"
    using punch_first_Some [OF p(1)] by (auto simp: PUBLIC_PORT_RANGE_def PUBLIC_PORT_BASE_def)
  have avail: "um_available u'" "um_control_url u'" and ok: "ul_add lib (sv_private_port v) p 60 = 0"
    using k(3) by (auto simp: um_AddPortMapping_def PORT_LEASE_LENGTH_def split: if_splits)
  have "ul_add lib (sv_private_port v) q 60 \<noteq> 0" if "39990 \<le> q" "q < p" for q
  proof -
    define j where "j = unat q - 39990"
    have u: "39990 \<le> unat q" "unat q < 39990 + k" using that public_port [OF k(1)] k(2) by (simp_all add: word_le_nat_alt word_less_nat_alt)
    then have "unat q = unat (39990 + word_of_nat j :: u16)" using public_port [of j] k(1) by (simp add: j_def)
    then have "q = 39990 + word_of_nat j" by (simp only: word_unat_eq_iff)
    moreover have "j < k" using u by (simp add: j_def)
    ultimately show ?thesis using k(4) avail by (simp add: um_AddPortMapping_def PORT_LEASE_LENGTH_def)
  qed
  moreover have "39990 \<le> p \<and> p \<le> 39999"
    using public_port [OF k(1)] k(1,2) by (simp add: word_le_nat_alt)
  ultimately show ?thesis using False avail ok p(2) by simp
qed

definition demo_gateway :: upnp_lib where
  "demo_gateway = \<lparr>ul_discover = Some (1, True, []), ul_add = (\<lambda>i e l. if e = 39990 then 718 else 0), ul_delete = (\<lambda>e. 0),
     ul_external_ip = None, ul_nifm = None\<rparr>"

theorem nat_punch_exact_witness:
  "fst (NatPunch demo_gateway True um_new (sv_new True)) = 39991 \<and> ul_add demo_gateway 0 39991 60 = 0"
proof -
  have r: "PUBLIC_PORT_RANGE = Suc (Suc 8)" by (simp add: PUBLIC_PORT_RANGE_def)
  have "punch_first (\<lambda>p. p \<noteq> 39990) 0 PUBLIC_PORT_RANGE = Some 39991"
    unfolding r punch_first.simps Let_def by (simp add: PUBLIC_PORT_BASE_def)
  then have p: "fst (NatPunch demo_gateway True um_new (sv_new True)) = 39991"
    by (simp add: NatPunch_def demo_gateway_def um_Discover_def um_new_def um_AddPortMapping_def)
  obtain u' v' where "NatPunch demo_gateway True um_new (sv_new True) = (39991, u', v')"
    using p by (cases "NatPunch demo_gateway True um_new (sv_new True)") simp
  from nat_punch_exact [OF this] show ?thesis using p by (simp add: sv_new_def)
qed

end
