(* ===== verification/P2p_Client.thy ===== *)
theory P2p_Client
  imports P2p_Server
begin

text \<open>
  The client of another console's proxy, \<^verbatim>\<open>p2p/p2p_proxy_client.cpp\<close>: connecting, presenting the token, waiting for the address, and the
  messages in both directions. What the system answers and what other threads do while the client waits are arguments. The last part puts client
  and server together: a token announced by the master server, presented by the client and answered by the server makes the client ready
  with its address, and game data of one client arrives unchanged at the other.
\<close>

definition CLIENT_RECV_BUFFER_SIZE :: nat where "CLIENT_RECV_BUFFER_SIZE = 0x4000"
definition FAILURE_TIMEOUT_MS :: int where "FAILURE_TIMEOUT_MS = 4000"
definition CONNECT_TIMEOUT_MS :: int where "CONNECT_TIMEOUT_MS = 1500"

text \<open>The client, and with it the results of the next sends, what was sent, the descriptors closed and what the callback was given.\<close>

record P2pProxyClient =
  pc_socket_fd :: int
  pc_connected :: bool
  pc_disposed :: bool
  pc_ready :: bool
  pc_proxy_config :: ProxyConfig
  pc_recv_thread_created :: bool
  pc_recv_thread_running :: bool
  pc_recv_buffer :: PacketBuffer
  pc_packet_callback :: bool
  pc_sends :: "int list"
  pc_sent :: "byte list"
  pc_closed :: "int list"
  pc_delivered :: "(PacketId \<times> byte list) list"

definition pc_new :: "byte list \<Rightarrow> bool \<Rightarrow> int list \<Rightarrow> P2pProxyClient" where
  "pc_new uninitialized callback sends =
     \<lparr>pc_socket_fd = - 1, pc_connected = False, pc_disposed = False, pc_ready = False,
      pc_proxy_config = \<lparr>pcfg_proxy_ip = 0, pcfg_proxy_subnet_mask = 0\<rparr>, pc_recv_thread_created = False, pc_recv_thread_running = False,
      pc_recv_buffer = pb_new uninitialized, pc_packet_callback = callback, pc_sends = sends, pc_sent = [], pc_closed = [], pc_delivered = []\<rparr>"

subsection \<open>Connecting\<close>

datatype connect_result = ConnectDone | ConnectInProgress | ConnectFailed

text \<open>The answers of the system, and what other threads do while \<^verbatim>\<open>Connect\<close> waits in \<^verbatim>\<open>select\<close> without the lock.\<close>

record connect_io =
  ci_socket :: int
  ci_connect :: "byte list \<Rightarrow> u16 \<Rightarrow> connect_result"
  ci_others :: "P2pProxyClient \<Rightarrow> P2pProxyClient"
  ci_select :: int
  ci_so_error :: bool
  ci_thread :: bool

definition close_socket :: "P2pProxyClient \<Rightarrow> P2pProxyClient" where
  "close_socket c = c\<lparr>pc_closed := pc_closed c @ [pc_socket_fd c], pc_socket_fd := - 1\<rparr>"

definition start_receiving :: "bool \<Rightarrow> P2pProxyClient \<Rightarrow> bool \<times> P2pProxyClient" where
  "start_receiving created c =
     (let c = c\<lparr>pc_connected := True, pc_recv_thread_running := True, pc_recv_thread_created := True\<rparr>
      in if created then (True, c)
         else (False, (close_socket c)\<lparr>pc_connected := False, pc_recv_thread_running := False, pc_recv_thread_created := False\<rparr>))"

definition client_Connect :: "connect_io \<Rightarrow> byte list option \<Rightarrow> nat \<Rightarrow> u16 \<Rightarrow> P2pProxyClient \<Rightarrow> bool \<times> P2pProxyClient" where
  "client_Connect io ip_bytes ip_len port c =
     (if pc_connected c then (True, c)
      else case ip_bytes of
        None \<Rightarrow> (False, c)
      | Some ip \<Rightarrow>
          if ip_len < 4 then (False, c)
          else
            let fd = ci_socket io; c = c\<lparr>pc_socket_fd := fd\<rparr>
            in if fd < 0 then (False, c)
               else case ci_connect io (take 4 ip) port of
                      ConnectFailed \<Rightarrow> (False, close_socket c)
                    | ConnectDone \<Rightarrow> start_receiving (ci_thread io) c
                    | ConnectInProgress \<Rightarrow>
                        let c = ci_others io c
                        in if pc_socket_fd c \<noteq> fd then (False, c)
                           else if ci_select io \<le> 0 then (False, close_socket c)
                           else if \<not> ci_so_error io then (False, close_socket c)
                           else start_receiving (ci_thread io) c)"

text \<open>\<^verbatim>\<open>inet_pton\<close>: four decimal numbers up to 255 without leading zeros, separated by dots.\<close>

fun split_dots :: "string \<Rightarrow> string \<Rightarrow> string list" where
  "split_dots cur [] = [cur]"
| "split_dots cur (ch # cs) = (if ch = CHR ''.'' then cur # split_dots [] cs else split_dots (cur @ [ch]) cs)"

definition octet_ok :: "string \<Rightarrow> bool" where
  "octet_ok s \<longleftrightarrow> s \<noteq> [] \<and> list_all dec_digit s \<and> digits_value s \<le> 255 \<and> (hd s = CHR ''0'' \<longrightarrow> length s = 1)"

definition inet_pton :: "string \<Rightarrow> byte list option" where
  "inet_pton s =
     (let parts = split_dots [] s
      in if length parts = 4 \<and> list_all octet_ok parts then Some (map (\<lambda>p. word_of_nat (digits_value p)) parts) else None)"

definition client_Connect_address :: "connect_io \<Rightarrow> string option \<Rightarrow> u16 \<Rightarrow> P2pProxyClient \<Rightarrow> bool \<times> P2pProxyClient" where
  "client_Connect_address io address port c =
     (case address of
        None \<Rightarrow> (False, c)
      | Some s \<Rightarrow> (case inet_pton s of None \<Rightarrow> (False, c) | Some ip \<Rightarrow> client_Connect io (Some ip) 4 port c))"

text \<open>\<^verbatim>\<open>thread_end\<close> is what the receive thread does until it has ended.\<close>

definition client_Disconnect :: "(P2pProxyClient \<Rightarrow> P2pProxyClient) \<Rightarrow> P2pProxyClient \<Rightarrow> P2pProxyClient" where
  "client_Disconnect thread_end c =
     (if \<not> pc_connected c \<and> pc_socket_fd c < 0 then c
      else
        let c = c\<lparr>pc_recv_thread_running := False\<rparr>;
            c = (if pc_socket_fd c \<ge> 0 then close_socket c else c);
            c = (if pc_recv_thread_created c then (thread_end c)\<lparr>pc_recv_thread_created := False\<rparr> else c)
        in c\<lparr>pc_connected := False, pc_ready := False\<rparr>)"

definition client_destroy :: "(P2pProxyClient \<Rightarrow> P2pProxyClient) \<Rightarrow> P2pProxyClient \<Rightarrow> P2pProxyClient" where
  "client_destroy thread_end c = client_Disconnect thread_end (c\<lparr>pc_disposed := True\<rparr>)"

definition client_IsConnected :: "P2pProxyClient \<Rightarrow> bool" where "client_IsConnected c = pc_connected c"

definition client_IsReady :: "P2pProxyClient \<Rightarrow> bool" where "client_IsReady c = pc_ready c"

definition client_GetVirtualIp :: "P2pProxyClient \<Rightarrow> u32" where "client_GetVirtualIp c = pcfg_proxy_ip (pc_proxy_config c)"

subsection \<open>Sending\<close>

text \<open>The call \<^verbatim>\<open>send\<close>: it takes the next result, and the bytes up to it are on the connection.\<close>

definition socket_send :: "byte list \<Rightarrow> P2pProxyClient \<Rightarrow> int \<times> P2pProxyClient" where
  "socket_send data c =
     (case pc_sends c of
        [] \<Rightarrow> (- 1, c)
      | r # rs \<Rightarrow> (r, c\<lparr>pc_sends := rs, pc_sent := pc_sent c @ take (nat r) data\<rparr>))"

definition client_PerformAuth :: "ExternalProxyConfig \<Rightarrow> P2pProxyClient \<Rightarrow> bool \<times> P2pProxyClient" where
  "client_PerformAuth config c =
     (if \<not> pc_connected c then (False, c)
      else
        let pkt = encoded_bytes (encode 38 ExternalProxyConfig_to_bytes (replicate 256 0) PacketId.ExternalProxy config)
        in case socket_send pkt c of (sent, c) \<Rightarrow> (\<not> (sent < 0 \<or> nat sent \<noteq> length pkt), c))"

text \<open>\<^verbatim>\<open>others\<close> is what other threads do until the wait ends.\<close>

definition client_EnsureProxyReady :: "(P2pProxyClient \<Rightarrow> P2pProxyClient) \<Rightarrow> P2pProxyClient \<Rightarrow> bool \<times> P2pProxyClient" where
  "client_EnsureProxyReady others c =
     (if pc_ready c then (True, c)
      else if \<not> pc_connected c then (False, c)
      else let c = others c in (pc_ready c, c))"

definition client_Send :: "byte list \<Rightarrow> P2pProxyClient \<Rightarrow> bool \<times> P2pProxyClient" where
  "client_Send data c =
     (if \<not> pc_connected c \<or> pc_socket_fd c < 0 then (False, c)
      else case socket_send data c of (sent, c) \<Rightarrow> (sent \<ge> 0 \<and> nat sent = length data, c))"

definition client_SendProxyData :: "ProxyDataHeader \<Rightarrow> byte list \<Rightarrow> P2pProxyClient \<Rightarrow> bool \<times> P2pProxyClient" where
  "client_SendProxyData header data c = client_Send (encoded_bytes (proxy_data_packet header data)) c"

definition client_SendProxyConnect :: "ProxyConnectRequest \<Rightarrow> P2pProxyClient \<Rightarrow> bool \<times> P2pProxyClient" where
  "client_SendProxyConnect request =
     client_Send (encoded_bytes (encode 16 ProxyConnectRequest_to_bytes (replicate 256 0) PacketId.ProxyConnect request))"

definition client_SendProxyConnectReply :: "ProxyConnectResponse \<Rightarrow> P2pProxyClient \<Rightarrow> bool \<times> P2pProxyClient" where
  "client_SendProxyConnectReply response =
     client_Send (encoded_bytes (encode 16 ProxyConnectResponse_to_bytes (replicate 256 0) PacketId.ProxyConnectReply response))"

definition client_SendProxyDisconnect :: "ProxyDisconnectMessage \<Rightarrow> P2pProxyClient \<Rightarrow> bool \<times> P2pProxyClient" where
  "client_SendProxyDisconnect message =
     client_Send (encoded_bytes (encode 20 ProxyDisconnectMessage_to_bytes (replicate 256 0) PacketId.ProxyDisconnect message))"

subsection \<open>Receiving\<close>

definition deliver :: "PacketId \<Rightarrow> byte list \<Rightarrow> P2pProxyClient \<Rightarrow> P2pProxyClient" where
  "deliver ty bytes c = (if pc_packet_callback c then c\<lparr>pc_delivered := pc_delivered c @ [(ty, bytes)]\<rparr> else c)"

definition client_HandleProxyConfig :: "ProxyConfig \<Rightarrow> P2pProxyClient \<Rightarrow> P2pProxyClient" where
  "client_HandleProxyConfig config c = c\<lparr>pc_proxy_config := config, pc_ready := True\<rparr>"

definition client_HandleProxyData :: "ProxyDataHeader \<Rightarrow> byte list \<Rightarrow> P2pProxyClient \<Rightarrow> P2pProxyClient" where
  "client_HandleProxyData header data c =
     (if 20 + length data \<le> 4096 then deliver PacketId.ProxyData (ProxyDataHeader_to_bytes header @ data) c else c)"

definition client_HandleProxyConnect :: "ProxyConnectRequest \<Rightarrow> P2pProxyClient \<Rightarrow> P2pProxyClient" where
  "client_HandleProxyConnect request = deliver PacketId.ProxyConnect (ProxyConnectRequest_to_bytes request)"

definition client_HandleProxyConnectReply :: "ProxyConnectResponse \<Rightarrow> P2pProxyClient \<Rightarrow> P2pProxyClient" where
  "client_HandleProxyConnectReply response = deliver PacketId.ProxyConnectReply (ProxyConnectResponse_to_bytes response)"

definition client_HandleProxyDisconnect :: "ProxyDisconnectMessage \<Rightarrow> P2pProxyClient \<Rightarrow> P2pProxyClient" where
  "client_HandleProxyDisconnect message = deliver PacketId.ProxyDisconnect (ProxyDisconnectMessage_to_bytes message)"

definition client_ProcessData :: "byte list \<Rightarrow> nat \<Rightarrow> P2pProxyClient \<Rightarrow> P2pProxyClient" where
  "client_ProcessData data sz c =
     (if sz < 12 then c
      else let packet_data = get_payload_ptr data; data_size = payload_size_t data in
        case get_packet_type data of
          PacketId.ProxyConfig \<Rightarrow>
            if data_size \<ge> 8 then client_HandleProxyConfig (ProxyConfig_of_bytes (take 8 packet_data)) c else c
        | PacketId.ProxyData \<Rightarrow>
            if data_size \<ge> 20
            then client_HandleProxyData (ProxyDataHeader_of_bytes (take 20 packet_data)) (slice 20 (data_size - 20) packet_data) c
            else c
        | PacketId.ProxyConnect \<Rightarrow>
            if data_size \<ge> 16 then client_HandleProxyConnect (ProxyConnectRequest_of_bytes (take 16 packet_data)) c else c
        | PacketId.ProxyConnectReply \<Rightarrow>
            if data_size \<ge> 16 then client_HandleProxyConnectReply (ProxyConnectResponse_of_bytes (take 16 packet_data)) c else c
        | PacketId.ProxyDisconnect \<Rightarrow>
            if data_size \<ge> 20 then client_HandleProxyDisconnect (ProxyDisconnectMessage_of_bytes (take 20 packet_data)) c else c
        | _ \<Rightarrow> c)"

lemmas client_handler_defs = client_HandleProxyConfig_def client_HandleProxyData_def client_HandleProxyConnect_def
  client_HandleProxyConnectReply_def client_HandleProxyDisconnect_def deliver_def

lemma process_frames [simp]:
  "pc_recv_buffer (client_ProcessData data n c) = pc_recv_buffer c"
  "pc_recv_thread_running (client_ProcessData data n c) = pc_recv_thread_running c"
  "pc_disposed (client_ProcessData data n c) = pc_disposed c"
  by (simp_all add: client_ProcessData_def Let_def client_handler_defs split: PacketId.split)

text \<open>The inner loop of \<^verbatim>\<open>ReceiveLoop\<close>; every packet taken makes the buffer shorter.\<close>

function client_drain :: "P2pProxyClient \<Rightarrow> P2pProxyClient" where
  "client_drain c =
     (if pc_recv_thread_running c \<and> \<not> pc_disposed c
      then case pb_peek_packet (pc_recv_buffer c) of
             (None, _) \<Rightarrow>
               if fst (pb_peek_packet_info (pc_recv_buffer c)) = BufferResult.InvalidPacket
               then c\<lparr>pc_recv_thread_running := False\<rparr> else c
           | (Some data, packet_size) \<Rightarrow>
               let c = client_ProcessData data packet_size c
               in client_drain (c\<lparr>pc_recv_buffer := pb_consume (pc_recv_buffer c) packet_size\<rparr>)
      else c)"
  by pat_completeness auto
termination
  by (relation "measure (\<lambda>c. m_write_pos (pc_recv_buffer c))") (auto dest!: peek_packet_some [OF sym] intro!: consume_shorter)

declare client_drain.simps [simp del]

text \<open>The end of the loop, under the lock.\<close>

definition receive_ended :: "P2pProxyClient \<Rightarrow> P2pProxyClient" where
  "receive_ended c =
     (if pc_connected c \<and> \<not> pc_disposed c then c\<lparr>pc_connected := False, pc_ready := False\<rparr> else c)"

text \<open>An interrupted call ends the loop as an error does. The first result is whether the thread has ended.\<close>

fun client_ReceiveLoop :: "((P2pProxyClient \<Rightarrow> P2pProxyClient) \<times> p2p_recv) list \<Rightarrow> P2pProxyClient \<Rightarrow> bool \<times> P2pProxyClient" where
  "client_ReceiveLoop [] c =
     (if pc_recv_thread_running c \<and> \<not> pc_disposed c then (False, c) else (True, receive_ended c))"
| "client_ReceiveLoop ((others, r) # script) c =
     (if \<not> (pc_recv_thread_running c \<and> \<not> pc_disposed c) then (True, receive_ended c)
      else
        let c = others c in
        case r of
          RecvEnded \<Rightarrow> (True, receive_ended c)
        | RecvInterrupted \<Rightarrow> (True, receive_ended c)
        | Received bytes \<Rightarrow>
            (case pb_append (pc_recv_buffer c) (take CLIENT_RECV_BUFFER_SIZE bytes) of
               (BufferResult.Success, b) \<Rightarrow> client_ReceiveLoop script (client_drain (c\<lparr>pc_recv_buffer := b\<rparr>))
             | _ \<Rightarrow> client_ReceiveLoop script (c\<lparr>pc_recv_buffer := pb_reset (pc_recv_buffer c)\<rparr>)))"

section \<open>One packet on either side\<close>

lemma payload_size_t_packet: "length d \<le> MAX_PACKET_SIZE \<Longrightarrow> payload_size_t (packet ty d @ rest) = length d"
  by (simp add: payload_size_t_def get_payload_size_def packet_def make_header_def MAX_PACKET_SIZE_def sint_small unat_of_nat)

lemma payload_ptr_packet: "get_payload_ptr (packet ty d @ rest) = d @ rest"
  unfolding get_payload_ptr_def by (rule drop_packet)

lemma peek_front:
  assumes "pb_inv b" and c: "pb_contents b = packet ty d" and l: "length d \<le> MAX_PACKET_SIZE"
  shows "pb_peek_packet b = (Some (packet ty d @ drop (12 + length d) (m_buffer b)), 12 + length d)"
proof -
  have "pb_contents b = packet ty d @ []" using c by simp
  then have "pb_peek_packet_info b = (BufferResult.Success, 12 + length d)" using front_packet(2) [OF assms(1) _ l] by blast
  moreover have "m_write_pos b = 12 + length d" using length_contents [OF assms(1)] c by simp
  then have "m_buffer b = packet ty d @ drop (12 + length d) (m_buffer b)"
    using c append_take_drop_id [of "12 + length d" "m_buffer b"] by (simp add: pb_contents_def)
  ultimately show ?thesis by (simp add: pb_peek_packet_def)
qed

lemma peek_empty: "pb_inv b \<Longrightarrow> pb_contents b = [] \<Longrightarrow> pb_peek_packet b = (None, 0) \<and> fst (pb_peek_packet_info b) \<noteq> BufferResult.InvalidPacket"
  using length_contents [of b] by (simp add: pb_peek_packet_def pb_peek_packet_info_def)

lemma session_drain_packet:
  fixes waits :: "(p2p_state \<Rightarrow> p2p_state) list"
  assumes b: "pb_inv b" "pb_contents b = packet ty d" "length d \<le> MAX_PACKET_SIZE" and c: "is_connected a w = (True, w)"
  defines "rest \<equiv> drop (12 + length d) (m_buffer b)"
  defines "w' \<equiv> session_ProcessData waits a (packet ty d @ rest) (12 + length d) w"
  shows "session_drain waits a b w = (pb_consume b (12 + length d), snd (is_connected a w'))"
proof -
  have e: "pb_inv (pb_consume b (12 + length d))" "pb_contents (pb_consume b (12 + length d)) = []"
    using b by (simp_all add: pb_consume_inv pb_consume_contents)
  have "session_drain waits a b w = session_drain waits a (pb_consume b (12 + length d)) w'"
    using c peek_front [OF b] by (subst session_drain.simps) (simp add: w'_def rest_def)
  also have "\<dots> = (pb_consume b (12 + length d), snd (is_connected a w'))"
    using peek_empty [OF e] by (subst session_drain.simps) (auto split: prod.split bool.split)
  finally show ?thesis .
qed

lemma client_drain_packet:
  assumes b: "pb_inv (pc_recv_buffer c)" "pb_contents (pc_recv_buffer c) = packet ty d" "length d \<le> MAX_PACKET_SIZE"
    and c: "pc_recv_thread_running c" "\<not> pc_disposed c"
  defines "rest \<equiv> drop (12 + length d) (m_buffer (pc_recv_buffer c))"
  shows "client_drain c = (client_ProcessData (packet ty d @ rest) (12 + length d) c)
    \<lparr>pc_recv_buffer := pb_consume (pc_recv_buffer c) (12 + length d)\<rparr>"
proof -
  let ?b = "pb_consume (pc_recv_buffer c) (12 + length d)"
  let ?c = "(client_ProcessData (packet ty d @ rest) (12 + length d) c)\<lparr>pc_recv_buffer := ?b\<rparr>"
  have e: "pb_inv ?b" "pb_contents ?b = []"
    using b by (simp_all add: pb_consume_inv pb_consume_contents)
  have "client_drain c = client_drain ?c"
    using c peek_front [OF b] by (subst client_drain.simps) (simp add: rest_def)
  also have "\<dots> = ?c"
    using peek_empty [OF e] by (subst client_drain.simps) simp
  finally show ?thesis .
qed

text \<open>An empty buffer of some capacity.\<close>

definition empty_buffer :: "nat \<Rightarrow> PacketBuffer \<Rightarrow> bool" where
  "empty_buffer n b \<longleftrightarrow> pb_inv b \<and> pb_contents b = [] \<and> pb_capacity b = n"

lemma session_receive_packet:
  assumes b: "empty_buffer RECV_BUFFER_SIZE b" and d: "12 + length d \<le> RECV_BUFFER_SIZE" and c: "is_connected a w = (True, w)"
  shows "\<exists>rest. snd (session_receive waits [(\<lambda>w. w, Received (packet ty d))] a b w) =
    snd (is_connected a (snd (is_connected a (session_ProcessData waits a (packet ty d @ rest) (12 + length d) w))))"
proof -
  obtain b' where b': "pb_append b (packet ty d) = (BufferResult.Success, b')" "pb_inv b'" "pb_contents b' = packet ty d"
    using b d pb_append_ok [of b "packet ty d"] by (auto simp: empty_buffer_def)
  have "length d \<le> MAX_PACKET_SIZE" using d by (simp add: RECV_BUFFER_SIZE_def MAX_PACKET_SIZE_def)
  note dr = session_drain_packet [OF b'(2,3) this c, where waits = waits]
  have "take RECV_BUFFER_SIZE (packet ty d) = packet ty d" using d by simp
  then show ?thesis
    by (intro exI [of _ "drop (12 + length d) (m_buffer b')"]) (simp add: c b' dr split: prod.split)
qed

lemma client_receive_packet:
  assumes b: "empty_buffer CLIENT_RECV_BUFFER_SIZE (pc_recv_buffer c)" and d: "12 + length d \<le> CLIENT_RECV_BUFFER_SIZE"
    and c: "pc_recv_thread_running c" "\<not> pc_disposed c"
  shows "\<exists>rest b'. client_ReceiveLoop [(\<lambda>c. c, Received (packet ty d))] c =
    (False, (client_ProcessData (packet ty d @ rest) (12 + length d) (c\<lparr>pc_recv_buffer := b'\<rparr>))\<lparr>pc_recv_buffer := pb_consume b' (12 + length d)\<rparr>)"
proof -
  obtain b' where b': "pb_append (pc_recv_buffer c) (packet ty d) = (BufferResult.Success, b')" "pb_inv b'" "pb_contents b' = packet ty d"
    using b d pb_append_ok [of "pc_recv_buffer c" "packet ty d"] by (auto simp: empty_buffer_def)
  have l: "length d \<le> MAX_PACKET_SIZE" using d by (simp add: CLIENT_RECV_BUFFER_SIZE_def MAX_PACKET_SIZE_def)
  have t: "take CLIENT_RECV_BUFFER_SIZE (packet ty d) = packet ty d" using d by simp
  have dr: "client_drain (c\<lparr>pc_recv_buffer := b'\<rparr>) =
      (client_ProcessData (packet ty d @ drop (12 + length d) (m_buffer b')) (12 + length d) (c\<lparr>pc_recv_buffer := b'\<rparr>))
      \<lparr>pc_recv_buffer := pb_consume b' (12 + length d)\<rparr>"
    using client_drain_packet [of "c\<lparr>pc_recv_buffer := b'\<rparr>" ty d] b' c l by simp
  show ?thesis
    by (intro exI [of _ "drop (12 + length d) (m_buffer b')"] exI [of _ b']) (simp add: c b' t dr)
qed

section \<open>Joining\<close>

lemma type_of_packet: "packet_id_enumerator ty \<Longrightarrow> get_packet_type (packet ty d @ rest) = ty"
  by (simp only: get_packet_type_packet packet_id_cast_byte)

lemmas process_packet = type_of_packet payload_ptr_packet payload_size_t_packet packet_id_enumerator_def MAX_PACKET_SIZE_def Let_def

lemma external_process:
  assumes "wf_ExternalProxyConfig config"
  shows "session_ProcessData waits a (packet PacketId.ExternalProxy (ExternalProxyConfig_to_bytes config) @ rest) 50 w =
    session_HandleExternalProxy waits a config w"
proof -
  have l: "length (ExternalProxyConfig_to_bytes config) = 38" by (rule ExternalProxyConfig_wire.len_to [OF assms])
  then show ?thesis
    by (simp add: session_ProcessData_def process_packet ExternalProxyConfig_wire.of_to [OF assms])
qed

lemma config_process:
  "client_ProcessData (config_packet ip @ rest) 20 c =
    client_HandleProxyConfig \<lparr>pcfg_proxy_ip = ip, pcfg_proxy_subnet_mask = 0xFFFF0000\<rparr> c"
  unfolding config_packet_def
  by (simp add: client_ProcessData_def process_packet ProxyConfig_wire.of_to ProxyConfig_wire.len_to wf_ProxyConfig_def)

lemma perform_auth_ok:
  assumes "pc_connected c" "pc_sends c = 50 # rs" "wf_ExternalProxyConfig config"
  shows "client_PerformAuth config c =
    (True, c\<lparr>pc_sends := rs, pc_sent := pc_sent c @ packet PacketId.ExternalProxy (ExternalProxyConfig_to_bytes config)\<rparr>)"
proof -
  have l: "length (ExternalProxyConfig_to_bytes config) = 38" by (rule ExternalProxyConfig_wire.len_to [OF assms(3)])
  then have "encoded_bytes (encode 38 ExternalProxyConfig_to_bytes (replicate 256 0) PacketId.ExternalProxy config) =
      packet PacketId.ExternalProxy (ExternalProxyConfig_to_bytes config)"
    by (intro encoded_bytes_encode) simp_all
  then show ?thesis using assms l by (simp add: client_PerformAuth_def socket_send_def)
qed

lemma external_registers:
  fixes waits :: "(p2p_state \<Rightarrow> p2p_state) list"
  assumes a: "pw_heap w a = Some s" "can_send a w" "pw_sends w = 20 # rs" and t: "sv_waiting_tokens (pw_server w) = [t]" "ept_token t = epc_token config"
  defines "w' \<equiv> session_HandleExternalProxy waits a config w"
  shows "pw_heap w' a = Some (s\<lparr>se_virtual_ip := ept_virtual_ip t, se_authenticated := True\<rparr>)"
    "pw_sent w' = pw_sent w @ [(a, config_packet (ept_virtual_ip t))]"
proof -
  have "TryRegisterUser waits a config (se_remote_ip s) w = (True, register_token a 0 w)"
    using t by (intro register_at_once) simp
  then have w': "w' = register_token a 0 w" by (simp add: w'_def session_HandleExternalProxy_def a)
  have k: "token_after_removal 0 [t] = t" by (simp add: token_after_removal_def)
  show "pw_heap w' a = Some (s\<lparr>se_virtual_ip := ept_virtual_ip t, se_authenticated := True\<rparr>)"
    using register_token_facts(1) [OF a(1), where i = 0] unfolding w' t k by simp
  show "pw_sent w' = pw_sent w @ [(a, config_packet (ept_virtual_ip t))]"
    using register_token_facts(4) [OF a(1,2,3), where i = 0] unfolding w' t k by simp
qed

text \<open>
  C11: the handshake of a peer with a host succeeds end to end. When the host was announced exactly one token, a client that
  presents it is admitted: the bytes of \<^verbatim>\<open>PerformAuth\<close>, received by the session's thread, register the session under the token's address, and
  the bytes the host sends back make the wait of \<^verbatim>\<open>EnsureProxyReady\<close> succeed with that same address.
\<close>

theorem join_handshake:
  assumes wfc: "wf_ExternalProxyConfig config"
    and c: "pc_connected c" "pc_recv_thread_running c" "\<not> pc_disposed c" "\<not> pc_ready c" "pc_sends c = [50]" "pc_sent c = []"
      "empty_buffer CLIENT_RECV_BUFFER_SIZE (pc_recv_buffer c)"
    and w: "pw_heap w a = Some s" "can_send a w" "pw_sends w = [20]" "pw_sent w = []" "empty_buffer RECV_BUFFER_SIZE b"
    and t: "sv_waiting_tokens (pw_server w) = [t]" "ept_token t = epc_token config"
    and run: "client_PerformAuth config c = (ok, c1)"
      "session_receive waits [(\<lambda>w. w, Received (pc_sent c1))] a b w = (ended, w1)"
      "client_EnsureProxyReady (\<lambda>c. snd (client_ReceiveLoop [(\<lambda>c. c, Received (concat (map snd (pw_sent w1))))] c)) c1 = (ready, c2)"
  shows "ok \<and> ready \<and> client_GetVirtualIp c2 = ept_virtual_ip t \<and>
    pw_heap w1 a = Some (s\<lparr>se_virtual_ip := ept_virtual_ip t, se_authenticated := True\<rparr>)"
proof -
  let ?p = "packet PacketId.ExternalProxy (ExternalProxyConfig_to_bytes config)"
  have c1: "ok" "c1 = c\<lparr>pc_sends := [], pc_sent := ?p\<rparr>"
    using run(1) perform_auth_ok [OF c(1,5) wfc] c(6) by simp_all
  have l: "length (ExternalProxyConfig_to_bytes config) = 38" by (rule ExternalProxyConfig_wire.len_to [OF wfc])
  have conn: "is_connected a w = (True, w)" using w by (simp add: is_connected_def can_send_def)
  define v where "v = session_HandleExternalProxy waits a config w"
  note reg = external_registers [OF w(1,2,3) t, where waits = waits, folded v_def]
  obtain rest where "snd (session_receive waits [(\<lambda>w. w, Received ?p)] a b w) =
      snd (is_connected a (snd (is_connected a (session_ProcessData waits a (?p @ rest) 50 w))))"
    using session_receive_packet [OF w(5) _ conn, of "ExternalProxyConfig_to_bytes config" waits PacketId.ExternalProxy] l
    by (auto simp: RECV_BUFFER_SIZE_def)
  then have w1: "w1 = v"
    using run(2) c1(2) reg(1) by (simp add: external_process [OF wfc, unfolded v_def [symmetric]] is_connected_def v_def [symmetric])
  have bytes: "concat (map snd (pw_sent w1)) = config_packet (ept_virtual_ip t)" using reg(2) w(4) w1 by simp
  obtain r' b' where "client_ReceiveLoop [(\<lambda>c. c, Received (config_packet (ept_virtual_ip t)))] c1 =
      (False, (client_ProcessData (config_packet (ept_virtual_ip t) @ r') 20 (c1\<lparr>pc_recv_buffer := b'\<rparr>))\<lparr>pc_recv_buffer := pb_consume b' 20\<rparr>)"
    using client_receive_packet [of c1 "ProxyConfig_to_bytes \<lparr>pcfg_proxy_ip = ept_virtual_ip t, pcfg_proxy_subnet_mask = 0xFFFF0000\<rparr>" PacketId.ProxyConfig]
      c c1(2) unfolding config_packet_def
    by (auto simp: CLIENT_RECV_BUFFER_SIZE_def ProxyConfig_wire.len_to wf_ProxyConfig_def)
  then have "ready" "pc_proxy_config c2 = \<lparr>pcfg_proxy_ip = ept_virtual_ip t, pcfg_proxy_subnet_mask = 0xFFFF0000\<rparr>"
    using run(3) c c1(2) unfolding bytes by (auto simp: client_EnsureProxyReady_def Let_def config_process client_HandleProxyConfig_def)
  then show ?thesis using c1(1) reg(1) w1 by (simp add: client_GetVirtualIp_def)
qed

definition demo_client :: "int list \<Rightarrow> P2pProxyClient" where
  "demo_client sends =
     (pc_new (replicate 16384 0) True sends)\<lparr>pc_socket_fd := 4, pc_connected := True, pc_recv_thread_created := True, pc_recv_thread_running := True\<rparr>"

lemma demo_client_facts:
  "pc_connected (demo_client ss)" "pc_recv_thread_running (demo_client ss)" "\<not> pc_disposed (demo_client ss)" "\<not> pc_ready (demo_client ss)"
  "pc_sends (demo_client ss) = ss" "pc_sent (demo_client ss) = []" "pc_socket_fd (demo_client ss) = 4" "pc_packet_callback (demo_client ss)"
  "pc_delivered (demo_client ss) = []" "empty_buffer CLIENT_RECV_BUFFER_SIZE (pc_recv_buffer (demo_client ss))"
  by (simp_all add: demo_client_def pc_new_def empty_buffer_def pb_new_inv CLIENT_RECV_BUFFER_SIZE_def)
    (simp add: pb_new_def pb_capacity_def)

lemma empty_demo_buffer: "empty_buffer RECV_BUFFER_SIZE (pb_new (replicate 4096 0))"
  by (simp add: empty_buffer_def pb_new_inv RECV_BUFFER_SIZE_def) (simp add: pb_new_def pb_capacity_def)

theorem join_handshake_witness:
  "let c1 = snd (client_PerformAuth (demo_config 1) (demo_client [50]));
       w1 = snd (session_receive [] [(\<lambda>w. w, Received (pc_sent c1))] 0 (pb_new (replicate 4096 0)) (AddWaitingToken (demo_token 7 1) (p2p_demo1 [20])));
       r = client_EnsureProxyReady (\<lambda>c. snd (client_ReceiveLoop [(\<lambda>c. c, Received (concat (map snd (pw_sent w1))))] c)) c1
   in fst r \<and> client_GetVirtualIp (snd r) = 7"
  using join_handshake [where config = "demo_config 1" and c = "demo_client [50]" and w = "AddWaitingToken (demo_token 7 1) (p2p_demo1 [20])" and
      a = 0 and s = "(session_new 5 0)\<lparr>se_stack_slot := 0\<rparr>" and b = "pb_new (replicate 4096 0)" and t = "demo_token 7 1" and waits = "[]",
      OF _ _ _ _ _ _ _ _ _ _ _ _ empty_demo_buffer _ _ surjective_pairing surjective_pairing surjective_pairing]
  by (simp add: Let_def demo_client_facts AddWaitingToken_def demo1_facts sv_new_def MAX_WAITING_TOKENS_def demo_token_def demo_config_def
      can_send_def session_new_def wf_ExternalProxyConfig_def bytes_wf_def on_server_def)

section \<open>Game data\<close>

lemma header_len: "length (ProxyDataHeader_to_bytes h) = 20"
  by (rule ProxyDataHeader_wire.len_to) (simp add: wf_ProxyDataHeader_def wf_ProxyInfo_def)

lemma header_of: "ProxyDataHeader_of_bytes (ProxyDataHeader_to_bytes h) = h"
  by (rule ProxyDataHeader_wire.of_to) (simp add: wf_ProxyDataHeader_def wf_ProxyInfo_def)

lemma slice_after: "length h = n \<Longrightarrow> slice n (length d) (h @ d @ rest) = d"
  by (simp add: slice_def)

lemma data_process:
  assumes "length data \<le> 4064"
  shows "session_ProcessData waits a (packet PacketId.ProxyData (ProxyDataHeader_to_bytes header @ data) @ rest) (32 + length data) w =
      session_HandleProxyData a header data w"
    "client_ProcessData (packet PacketId.ProxyData (ProxyDataHeader_to_bytes header @ data) @ rest) (32 + length data) c =
      client_HandleProxyData header data c"
  using assms slice_after [OF header_len [of header], of data rest]
  by (simp_all add: session_ProcessData_def client_ProcessData_def process_packet header_len header_of)

lemma send_data_ok:
  assumes "pc_connected c" "0 \<le> pc_socket_fd c" "pc_sends c = int (32 + length data) # rs" "length data \<le> 4064"
  shows "client_SendProxyData header data c =
    (True, c\<lparr>pc_sends := rs, pc_sent := pc_sent c @ packet PacketId.ProxyData (ProxyDataHeader_to_bytes header @ data)\<rparr>)"
proof -
  have n: "nat (int (32 + length data)) = 32 + length data" by simp
  show ?thesis
    using assms unfolding client_SendProxyData_def client_Send_def socket_send_def proxy_data_packet_ok(1) [OF assms(4)]
    by (simp add: header_len n del: of_nat_add)
qed

text \<open>Data that fits into a packet; the rest of the chain.\<close>

lemma data_arrives:
  assumes len: "length data \<le> 4064"
    and c: "pc_connected c" "0 \<le> pc_socket_fd c" "pc_sends c = [int (32 + length data)]" "pc_sent c = []"
    and w: "pw_heap w a1 = Some s1" "se_authenticated s1" "se_connected s1" "live_sessions w" "empty_buffer RECV_BUFFER_SIZE b"
      "pw_sends w = [int (32 + length data)]" "pw_sent w = []"
    and src: "pinfo_source_ipv4 (pdh_info header) \<in> {0, se_virtual_ip s1}"
    and dest: "pinfo_dest_ipv4 (pdh_info header) = ip" "ip \<noteq> 0xc0a800ff" "recipients ip w = [a2]" "can_send a2 w"
    and d: "pc_recv_thread_running d" "\<not> pc_disposed d" "pc_packet_callback d" "empty_buffer CLIENT_RECV_BUFFER_SIZE (pc_recv_buffer d)"
      "pc_delivered d = []"
    and run: "client_SendProxyData header data c = (ok, c1)"
      "session_receive waits [(\<lambda>w. w, Received (pc_sent c1))] a1 b w = (ended, w1)"
      "client_ReceiveLoop [(\<lambda>c. c, Received (concat (map snd (pw_sent w1))))] d = (stopped, d1)"
  shows "ok \<and> map fst (pw_sent w1) = [a2] \<and> pc_delivered d1 =
    [(PacketId.ProxyData, ProxyDataHeader_to_bytes (header\<lparr>pdh_info := (pdh_info header)\<lparr>pinfo_source_ipv4 := se_virtual_ip s1\<rparr>\<rparr>) @ data)]"
proof -
  let ?p = "packet PacketId.ProxyData (ProxyDataHeader_to_bytes header @ data)"
  let ?h = "header\<lparr>pdh_info := (pdh_info header)\<lparr>pinfo_source_ipv4 := se_virtual_ip s1\<rparr>\<rparr>"
  let ?q = "packet PacketId.ProxyData (ProxyDataHeader_to_bytes ?h @ data)"
  have c1: "ok" "pc_sent c1 = ?p" using run(1) c(4) send_data_ok [OF c(1-3) len, of header] by auto
  have conn: "is_connected a1 w = (True, w)" using w by (simp add: is_connected_def)
  have md: "map_dest (sv_broadcast_address (pw_server w)) (pinfo_dest_ipv4 (pdh_info header)) = ip" using dest by (simp add: map_dest_def)
  have hh: "header\<lparr>pdh_info := (pdh_info header)\<lparr>pinfo_source_ipv4 := se_virtual_ip s1, pinfo_dest_ipv4 := ip\<rparr>\<rparr> = ?h"
    using dest(1) by (cases header) auto
  define v where "v = session_HandleProxyData a1 header data w"
  have "pw_sent v = pw_sent (snd (session_Send a2 ?q w)) \<and> pw_heap v = pw_heap w"
    unfolding v_def data_routed_to_recipients [OF w(1,2,4) src len, unfolded md] hh dest(3) by simp
  moreover have "session_Send a2 ?q w = (True, w\<lparr>pw_sends := [], pw_sent := [(a2, ?q)]\<rparr>)"
    using session_Send_ok [OF dest(4), of ?q "[]"] w by (simp add: header_len)
  ultimately have v: "pw_sent v = [(a2, ?q)]" "is_connected a1 v = (True, v)" using w by (simp_all add: is_connected_def)
  obtain rest where "snd (session_receive waits [(\<lambda>w. w, Received ?p)] a1 b w) =
      snd (is_connected a1 (snd (is_connected a1 (session_ProcessData waits a1 (?p @ rest) (32 + length data) w))))"
    using session_receive_packet [OF w(5) _ conn, of "ProxyDataHeader_to_bytes header @ data" waits PacketId.ProxyData] len
    by (auto simp: RECV_BUFFER_SIZE_def header_len)
  then have w1: "w1 = v" using run(2) c1(2) v by (simp add: data_process(1) [OF len] v_def [symmetric])
  obtain r' b' where "client_ReceiveLoop [(\<lambda>c. c, Received ?q)] d =
      (False, (client_ProcessData (?q @ r') (32 + length data) (d\<lparr>pc_recv_buffer := b'\<rparr>))\<lparr>pc_recv_buffer := pb_consume b' (32 + length data)\<rparr>)"
    using client_receive_packet [OF d(4) _ d(1,2), of "ProxyDataHeader_to_bytes ?h @ data" PacketId.ProxyData] len
    by (auto simp: CLIENT_RECV_BUFFER_SIZE_def header_len)
  then have "pc_delivered d1 = [(PacketId.ProxyData, ProxyDataHeader_to_bytes ?h @ data)]"
    using run(3) v(1) w1 d len by (auto simp: data_process(2) [OF len] client_HandleProxyData_def deliver_def)
  then show ?thesis using c1 v w1 by simp
qed

text \<open>
  Data that does not fit is lost without a word. For more than 4064 bytes \<^verbatim>\<open>SendProxyData\<close> does not look at the failure of the encoder and
  sends the empty packet it left; the system takes its zero bytes, and the caller is told that the data was sent.
\<close>

lemma oversized_data_lost:
  assumes "pc_connected c" "0 \<le> pc_socket_fd c" "4064 < length data" "pc_sends c = 0 # rs"
  shows "client_SendProxyData header data c = (True, c\<lparr>pc_sends := rs\<rparr>)"
  using assms by (simp add: client_SendProxyData_def client_Send_def socket_send_def proxy_data_packet_def encode_with_data_def
      encoded_bytes_def header_len)

text \<open>
  C12: game data of one peer arrives unchanged at the other, up to 4064 bytes; more is lost without a word. What a client hands to
  \<^verbatim>\<open>SendProxyData\<close> for the address of another peer, with no source address or its own, is received by the host's thread of its session, routed
  to the session of that peer and given by that peer's client to its callback: the same header with the sender's address as source, and the same
  bytes. The system takes every send whole and hands each packet over in one piece, to receive buffers that are empty. Of data of more than 4064
  bytes nothing is sent, since the failure of the encoder is not looked at, and the caller is told that it was sent.
\<close>

theorem data_end_to_end:
  assumes c: "pc_connected c" "0 \<le> pc_socket_fd c" "pc_sends c = [if length data \<le> 4064 then int (32 + length data) else 0]" "pc_sent c = []"
    and w: "pw_heap w a1 = Some s1" "se_authenticated s1" "se_connected s1" "live_sessions w" "empty_buffer RECV_BUFFER_SIZE b"
      "pw_sends w = [int (32 + length data)]" "pw_sent w = []"
    and src: "pinfo_source_ipv4 (pdh_info header) \<in> {0, se_virtual_ip s1}"
    and dest: "pinfo_dest_ipv4 (pdh_info header) = ip" "ip \<noteq> 0xc0a800ff" "recipients ip w = [a2]" "can_send a2 w"
    and d: "pc_recv_thread_running d" "\<not> pc_disposed d" "pc_packet_callback d" "empty_buffer CLIENT_RECV_BUFFER_SIZE (pc_recv_buffer d)"
      "pc_delivered d = []"
    and run: "client_SendProxyData header data c = (ok, c1)"
      "session_receive waits [(\<lambda>w. w, Received (pc_sent c1))] a1 b w = (ended, w1)"
      "client_ReceiveLoop [(\<lambda>c. c, Received (concat (map snd (pw_sent w1))))] d = (stopped, d1)"
  shows "ok \<and> (if length data \<le> 4064
    then map fst (pw_sent w1) = [a2] \<and> pc_delivered d1 =
      [(PacketId.ProxyData, ProxyDataHeader_to_bytes (header\<lparr>pdh_info := (pdh_info header)\<lparr>pinfo_source_ipv4 := se_virtual_ip s1\<rparr>\<rparr>) @ data)]
    else pc_sent c1 = [])"
proof (cases "length data \<le> 4064")
  case True
  then have "pc_sends c = [int (32 + length data)]"
    using c(3) by simp
  from data_arrives [OF True c(1,2) this c(4) w src dest d run] show ?thesis
    using True by simp
next
  case False
  then show ?thesis
    using run(1) c oversized_data_lost [of c data "[]" header] by auto
qed

theorem data_end_to_end_witness:
  "let c1 = snd (client_SendProxyData (demo_header 0 2) [42] (demo_client [33]));
       w1 = snd (session_receive [] [(\<lambda>w. w, Received (pc_sent c1))] 0 (pb_new (replicate 4096 0)) (demo_net [33]));
       d1 = snd (client_ReceiveLoop [(\<lambda>c. c, Received (concat (map snd (pw_sent w1))))] (demo_client []))
   in pc_delivered d1 = [(PacketId.ProxyData, ProxyDataHeader_to_bytes (demo_header 1 2) @ [42])]"
  using data_end_to_end [where data = "[42]" and c = "demo_client [33]" and w = "demo_net [33]" and ?a1.0 = 0 and ?a2.0 = 1 and ip = 2 and
      ?s1.0 = "(session_new 5 0)\<lparr>se_virtual_ip := 1, se_authenticated := True\<rparr>" and b = "pb_new (replicate 4096 0)" and
      header = "demo_header 0 2" and d = "demo_client []" and waits = "[]",
      OF _ _ _ _ _ _ _ _ empty_demo_buffer _ _ _ _ _ _ _ _ _ _ _ _ surjective_pairing surjective_pairing surjective_pairing]
  by (simp add: Let_def demo_client_facts demo_net_def p2p_demo_def live_sessions_def sv_new_def demo_header_def recipients_def
      has_session_def session_new_def table_def can_send_def)

end
