(* ===== verification/Ldn_Service.thy ===== *)
theory Ldn_Service
  imports Ldn_Client Node_Mapper Proxy_Buffer Network_Timeout Bsd_Mitm P2p_Client
begin

unbundle bit_operations_syntax

text \<open>
  The service a game talks to, \<^verbatim>\<open>ldn/ldn_icommunication.cpp\<close>: the commands of the console's LDN interface over the session client, the
  handlers of the server's packets and the receive thread. The state machine, the session client, the socket manager, the shared state and the
  peer-to-peer proxy are the models of their own theories; this one composes them. What the system answers is the record \<open>ldn_env\<close>, and
  what other threads do while a command waits is an argument. A command that would wait for ever on a lock is \<open>Deadlock\<close>.
\<close>

subsection \<open>Types of the interface\<close>

definition MAKERESULT :: "u32 \<Rightarrow> u32 \<Rightarrow> Result" where "MAKERESULT module description = module OR push_bit 9 description"

definition R_SUCCESS :: Result where "R_SUCCESS = 0"

definition NodeCountMax :: nat where "NodeCountMax = 8"

datatype NodeStateChange = NodeNone | NodeConnect | NodeDisconnect | NodeDisconnectAndConnect

text \<open>\<^verbatim>\<open>DisconnectReason\<close> is the 32-bit value, which may come from the network.\<close>

type_synonym DisconnectReason = u32

definition reason_None :: DisconnectReason where "reason_None = 0"
definition reason_User :: DisconnectReason where "reason_User = 1"
definition reason_SystemRequest :: DisconnectReason where "reason_SystemRequest = 2"
definition reason_Rejected :: DisconnectReason where "reason_Rejected = 5"
definition reason_SignalLost :: DisconnectReason where "reason_SignalLost = 6"

record CreateNetworkConfig =
  cnc_securityConfig :: SecurityConfig
  cnc_userConfig :: UserConfig
  cnc_networkConfig :: Protocol_Types.NetworkConfig

record ConnectNetworkData =
  cnd_securityConfig :: SecurityConfig
  cnd_userConfig :: UserConfig
  cnd_localCommunicationVersion :: u32
  cnd_option :: u32

record CreateNetworkPrivateConfig =
  cnp_securityConfig :: SecurityConfig
  cnp_securityParameter :: SecurityParameter
  cnp_userConfig :: UserConfig
  cnp_networkConfig :: Protocol_Types.NetworkConfig

record ConnectPrivateData =
  cpd_securityConfig :: SecurityConfig
  cpd_securityParameter :: SecurityParameter
  cpd_userConfig :: UserConfig
  cpd_localCommunicationVersion :: u32
  cpd_option :: u32
  cpd_networkConfig :: Protocol_Types.NetworkConfig

definition zero_info :: NetworkInfo where "zero_info = NetworkInfo_of_bytes (replicate 1152 0)"

definition zero_proxy_config :: ProxyConfig where "zero_proxy_config = \<lparr>pcfg_proxy_ip = 0, pcfg_proxy_subnet_mask = 0\<rparr>"

definition zero_external_config :: ExternalProxyConfig where
  "zero_external_config = \<lparr>epc_proxy_ip = replicate 16 0, epc_address_family = 0, epc_proxy_port = 0, epc_token = replicate 16 0\<rparr>"

definition NetworkInfo2NetworkConfig :: "NetworkInfo \<Rightarrow> Protocol_Types.NetworkConfig" where
  "NetworkInfo2NetworkConfig info =
     \<lparr>netc_intent_id = nwid_intent_id (nwi_network_id info), netc_channel = cmn_channel (nwi_common info),
      netc_node_count_max = ldn_node_count_max (nwi_ldn info), netc_reserved1 = 0,
      netc_local_communication_version = node_local_communication_version (ldn_nodes (nwi_ldn info) ! 0),
      netc_reserved2 = replicate 10 0\<rparr>"

definition NetworkInfo2SecurityParameter :: "NetworkInfo \<Rightarrow> SecurityParameter" where
  "NetworkInfo2SecurityParameter info =
     \<lparr>secp_data = ldn_security_parameter (nwi_ldn info), secp_session_id = sid_data (nwid_session_id (nwi_network_id info))\<rparr>"

subsection \<open>State\<close>

definition MAX_SCAN_RESULTS :: nat where "MAX_SCAN_RESULTS = 8"

record ICommunicationService =
  ic_state_machine :: LdnStateMachine
  ic_error_state :: u64
  ic_client_process_id :: u64
  ic_network_info :: NetworkInfo
  ic_disconnect_reason :: DisconnectReason
  ic_ipv4_address :: u32
  ic_subnet_mask :: u32
  ic_server_client :: RyuLdnClient
  ic_server_connected :: bool
  ic_node_mapper :: LdnNodeMapper
  ic_proxy_buffer :: LdnProxyBuffer
  ic_response_event :: bool
  ic_scan_event :: bool
  ic_error_event :: bool
  ic_reject_event :: bool
  ic_handshake_event :: bool
  ic_last_response_id :: PacketId
  ic_scan_results :: "NetworkInfo list"
  ic_advertise_data :: "byte list"
  ic_advertise_data_size :: nat
  ic_game_version :: "byte list"
  ic_network_connected :: bool
  ic_prev_node_connected :: "bool list"
  ic_last_network_error :: NetworkErrorCode
  ic_use_p2p_proxy :: bool
  ic_proxy_config :: ProxyConfig
  ic_external_proxy_config :: ExternalProxyConfig
  ic_p2p_client :: "P2pProxyClient option"
  ic_p2p_server :: "p2p_state option"
  ic_p2p_connect_thread_active :: bool
  ic_p2p_connect_thread_initialized :: bool
  ic_pending_p2p_config :: ExternalProxyConfig
  ic_inactivity_timeout :: NetworkTimeout
  ic_recv_thread_running :: bool
  ic_recv_thread_was_started :: bool
  ic_stack_slot_index :: int
  ic_program_id :: u64
  ic_local_communication_id :: u64
  ic_expected_scene_id :: u16

text \<open>
  The service and what it shares with the rest of the module: whether it is the active one and the current instance (the two global pointers),
  the shared state, the socket interception with its socket manager, the settings with what was written of them, the port mapper, the pools of
  stacks, and whether a proxy server that was stopped had used freed memory.
\<close>

record ldn_world =
  lw_self :: ICommunicationService
  lw_active :: bool
  lw_current :: bool
  lw_shared :: SharedState
  lw_bsd :: BsdState
  lw_config :: Config
  lw_saved :: "file_effect list"
  lw_mapper :: UpnpPortMapper
  lw_stacks :: "bool list"
  lw_p2p_stacks :: "bool list"
  lw_fault :: bool

text \<open>
  The answers of the system: the clock, whether a thread can be made, the file system, the parts of the peer-to-peer proxy, what its threads do
  until they end, and the console's network configuration.
\<close>

record ldn_env =
  le_now :: u64
  le_thread :: bool
  le_file :: file_write
  le_upnp :: upnp_lib
  le_start :: start_io
  le_p2p_sends :: "int list"
  le_accept_end :: "p2p_state \<Rightarrow> p2p_state"
  le_stop_waits :: "(p2p_state \<Rightarrow> p2p_state) list"
  le_client_memory :: "byte list"
  le_client_sends :: "int list"
  le_connect :: connect_io
  le_client_wait :: "P2pProxyClient \<Rightarrow> P2pProxyClient"
  le_client_end :: "P2pProxyClient \<Rightarrow> P2pProxyClient"
  le_connect_end :: "ldn_world \<Rightarrow> ldn_world"
  le_recv_end :: "ldn_world \<Rightarrow> ldn_world"
  le_nifm :: "(u32 \<times> u32) + Result"

definition on_self :: "(ICommunicationService \<Rightarrow> ICommunicationService) \<Rightarrow> ldn_world \<Rightarrow> ldn_world" where
  "on_self f w = w\<lparr>lw_self := f (lw_self w)\<rparr>"

definition on_manager :: "(ProxySocketManager \<Rightarrow> ProxySocketManager) \<Rightarrow> ldn_world \<Rightarrow> ldn_world" where
  "on_manager f w = w\<lparr>lw_bsd := (lw_bsd w)\<lparr>bs_manager := f (bs_manager (lw_bsd w))\<rparr>\<rparr>"

definition on_shared :: "(SharedState \<Rightarrow> SharedState) \<Rightarrow> ldn_world \<Rightarrow> ldn_world" where
  "on_shared f w = w\<lparr>lw_shared := f (lw_shared w)\<rparr>"

definition on_machine :: "(LdnStateMachine \<Rightarrow> StateTransitionResult \<times> LdnStateMachine) \<Rightarrow> ldn_world \<Rightarrow> StateTransitionResult \<times> ldn_world" where
  "on_machine f w =
     (case f (ic_state_machine (lw_self w)) of (r, m) \<Rightarrow> (r, on_self (\<lambda>s. s\<lparr>ic_state_machine := m\<rparr>) w))"

definition ldn_state :: "ldn_world \<Rightarrow> CommState" where "ldn_state w = lsm_state (ic_state_machine (lw_self w))"

definition signal_state :: "ldn_world \<Rightarrow> ldn_world" where
  "signal_state = on_self (\<lambda>s. s\<lparr>ic_state_machine := lsm_SignalStateChange (ic_state_machine s)\<rparr>)"

definition SetLdnState :: "CommState \<Rightarrow> ldn_world \<Rightarrow> ldn_world" where
  "SetLdnState state = on_shared (\<lambda>s. ss_SetLdnState s state)"

fun bind_locked :: "'a locked \<Rightarrow> ('a \<Rightarrow> 'b locked) \<Rightarrow> 'b locked" where
  "bind_locked (Done x) f = f x"
| "bind_locked Deadlock f = Deadlock"

definition IsServerConnected :: "ldn_world \<Rightarrow> bool" where
  "IsServerConnected w \<longleftrightarrow> ic_server_connected (lw_self w) \<and> rc_is_ready (ic_server_client (lw_self w))"

subsection \<open>Events and waiting\<close>

text \<open>
  A wait on two events, the second always the error event, which stays set until it is cleared; the first one clears itself. Other threads run
  until the wait ends. If both are set, the system may report either.
\<close>

datatype signaled = First | Error | TimedOut

definition wait_any ::
  "(ICommunicationService \<Rightarrow> bool) \<Rightarrow> (ICommunicationService \<Rightarrow> ICommunicationService) \<Rightarrow> bool \<Rightarrow> (ldn_world \<Rightarrow> ldn_world) \<Rightarrow> ldn_world
    \<Rightarrow> signaled \<times> ldn_world" where
  "wait_any get clear error_first others w =
     (let w = others w; first = get (lw_self w); err = ic_error_event (lw_self w)
      in if first \<and> \<not> (err \<and> error_first) then (First, on_self clear w)
         else if err then (Error, w)
         else (TimedOut, w))"

definition clear_events :: "ICommunicationService \<Rightarrow> ICommunicationService" where
  "clear_events s = s\<lparr>ic_response_event := False, ic_scan_event := False, ic_error_event := False, ic_reject_event := False,
     ic_handshake_event := False\<rparr>"

text \<open>One turn of the loop of \<^verbatim>\<open>WaitForResponse\<close>: the time since its start in nanoseconds, and what happens during the wait.\<close>

record wait_step =
  ws_elapsed :: int
  ws_others :: "ldn_world \<Rightarrow> ldn_world"
  ws_error_first :: bool

text \<open>A script that ends is time running out.\<close>

fun wait_loop :: "PacketId \<Rightarrow> int \<Rightarrow> wait_step list \<Rightarrow> ldn_world \<Rightarrow> bool \<times> ldn_world" where
  "wait_loop expected_id timeout_ns [] w = (False, w)"
| "wait_loop expected_id timeout_ns (t # ts) w =
     (if timeout_ns - ws_elapsed t \<le> 0 then (False, w)
      else case wait_any ic_response_event (\<lambda>s. s\<lparr>ic_response_event := False\<rparr>) (ws_error_first t) (ws_others t) w of
             (First, w) \<Rightarrow>
               let last_id = ic_last_response_id (lw_self w) in
               if last_id = expected_id then (True, w)
               else if last_id = PacketId.NetworkError then (False, w)
               else if last_id = PacketId.ScanReply \<or> last_id = PacketId.ScanReplyEnd then wait_loop expected_id timeout_ns ts w
               else (False, w)
           | (_, w) \<Rightarrow> (False, w))"

definition WaitForResponse :: "PacketId \<Rightarrow> nat \<Rightarrow> wait_step list \<Rightarrow> ldn_world \<Rightarrow> bool \<times> ldn_world" where
  "WaitForResponse expected_id timeout_ms script w =
     (if expected_id = PacketId.Connected \<and> ic_network_connected (lw_self w) then (True, w)
      else if ic_last_response_id (lw_self w) = expected_id then (True, w)
      else case wait_loop expected_id (int timeout_ms * 1000000) script
                  (on_self (\<lambda>s. s\<lparr>ic_response_event := False, ic_error_event := False\<rparr>) w) of
             (r, w) \<Rightarrow> (r \<or> expected_id = PacketId.Connected \<and> ic_network_connected (lw_self w), w))"

subsection \<open>Packets of the server\<close>

definition fix_ids :: "ICommunicationService \<Rightarrow> NetworkInfo \<Rightarrow> NetworkInfo" where
  "fix_ids s info =
     (let id = nwi_network_id info; intent = nwid_intent_id id;
          intent = (if ic_expected_scene_id s \<noteq> 0 \<and> intent_scene_id intent \<noteq> ic_expected_scene_id s
                    then intent\<lparr>intent_scene_id := ic_expected_scene_id s\<rparr> else intent);
          intent = (if ic_local_communication_id s \<noteq> 0 \<and> intent_local_communication_id intent \<noteq> ic_local_communication_id s
                    then intent\<lparr>intent_local_communication_id := ic_local_communication_id s\<rparr> else intent)
      in info\<lparr>nwi_network_id := id\<lparr>nwid_intent_id := intent\<rparr>\<rparr>)"

fun find_node :: "(NodeInfo \<Rightarrow> bool) \<Rightarrow> nat \<Rightarrow> NodeInfo list \<Rightarrow> u8 option" where
  "find_node P i [] = None"
| "find_node P i (n # ns) = (if P n then Some (word_of_nat i) else find_node P (i + 1) ns)"

definition FindLocalNodeId :: "ICommunicationService \<Rightarrow> u8" where
  "FindLocalNodeId s =
     (let nodes = take NodeCountMax (ldn_nodes (nwi_ldn (ic_network_info s)));
          by_ip = (if ic_ipv4_address s \<noteq> 0
                   then find_node (\<lambda>n. node_is_connected n \<noteq> 0 \<and> node_ipv4_address n = ic_ipv4_address s) 0 nodes else None)
      in case by_ip of
           Some i \<Rightarrow> i
         | None \<Rightarrow>
             (case find_node (\<lambda>n. node_is_connected n \<noteq> 0 \<and>
                     mac_data (node_mac_address n) = mac_data (rc_mac_address (ic_server_client s))) 0 nodes of
                Some i \<Rightarrow> i | None \<Rightarrow> 0xFF))"

definition HandleConnectedPacket :: "byte list \<Rightarrow> ldn_world \<Rightarrow> ldn_world" where
  "HandleConnectedPacket data w =
     (if length data \<ge> 1152 then
        let info = fix_ids (lw_self w) (NetworkInfo_of_bytes (take 1152 data));
            info = (if cmn_channel (nwi_common info) = 0 then info\<lparr>nwi_common := (nwi_common info)\<lparr>cmn_channel := 6\<rparr>\<rparr> else info);
            w = on_self (\<lambda>s. s\<lparr>ic_network_info := info, ic_network_connected := True\<rparr>) w;
            local_node_id = FindLocalNodeId (lw_self w);
            local_ip = node_ipv4_address (ldn_nodes (nwi_ldn info) ! unat local_node_id);
            w = (if local_node_id \<noteq> 0xFF \<and> local_ip \<noteq> 0
                 then on_manager (\<lambda>m. pm_SetLocalIp m local_ip) (on_self (\<lambda>s. s\<lparr>ic_ipv4_address := local_ip\<rparr>) w) else w);
            is_host = (node_is_connected (ldn_nodes (nwi_ldn info) ! 0) \<noteq> 0 \<and> ldn_state w = AccessPointCreated);
            w = on_shared (\<lambda>s. ss_SetSessionInfo s (ldn_node_count (nwi_ldn info)) (ldn_node_count_max (nwi_ldn info)) local_node_id is_host) w
        in signal_state w
      else w)"

definition HandleSyncNetworkPacket :: "byte list \<Rightarrow> ldn_world \<Rightarrow> ldn_world" where
  "HandleSyncNetworkPacket data w =
     (if length data \<ge> 1152 then
        let info = fix_ids (lw_self w) (NetworkInfo_of_bytes (take 1152 data));
            w = on_self (\<lambda>s. s\<lparr>ic_network_info := info\<rparr>) w;
            local_id = FindLocalNodeId (lw_self w);
            w = on_shared (\<lambda>s. ss_SetSessionInfo s (ldn_node_count (nwi_ldn info)) (ldn_node_count_max (nwi_ldn info)) local_id
                  (ldn_state w = AccessPointCreated)) w
        in signal_state w
      else w)"

definition HandleScanReplyPacket :: "byte list \<Rightarrow> ldn_world \<Rightarrow> ldn_world" where
  "HandleScanReplyPacket data w =
     (if length data \<ge> 1152 \<and> length (ic_scan_results (lw_self w)) < MAX_SCAN_RESULTS
      then on_self (\<lambda>s. s\<lparr>ic_scan_results := ic_scan_results s @ [fix_ids s (NetworkInfo_of_bytes (take 1152 data))]\<rparr>) w
      else w)"

text \<open>The setting that turns the peer-to-peer proxy off, saved once.\<close>

definition disable_p2p :: "ldn_env \<Rightarrow> ldn_world \<Rightarrow> ldn_world" where
  "disable_p2p e w =
     (let w = on_self (\<lambda>s. s\<lparr>ic_use_p2p_proxy := False\<rparr>) w
      in if ld_disable_p2p (cf_ldn (lw_config w)) then w
         else let cfg = (lw_config w)\<lparr>cf_ldn := (cf_ldn (lw_config w))\<lparr>ld_disable_p2p := True\<rparr>\<rparr>
              in w\<lparr>lw_config := cfg, lw_saved := lw_saved w @ [snd (save_config (le_file e) cfg)]\<rparr>)"

definition network_error_code :: "byte list \<Rightarrow> u32 option" where
  "network_error_code data = (if length data \<ge> 4 then Some (nerr_error_code (NetworkErrorMessage_of_bytes (take 4 data))) else None)"

definition HandleNetworkErrorPacket :: "ldn_env \<Rightarrow> byte list \<Rightarrow> ldn_world \<Rightarrow> ldn_world" where
  "HandleNetworkErrorPacket e data w =
     (case network_error_code data of
        Some code \<Rightarrow>
          if code = 1 then disable_p2p e w
          else on_self (\<lambda>s. s\<lparr>ic_last_network_error := code, ic_error_event := True\<rparr>) w
      | None \<Rightarrow> on_self (\<lambda>s. s\<lparr>ic_error_event := True\<rparr>) w)"

definition route_data :: "ldn_env \<Rightarrow> ProxyInfo \<Rightarrow> byte list \<Rightarrow> nat \<Rightarrow> ldn_world \<Rightarrow> ldn_world" where
  "route_data e info payload len w =
     (if pinfo_protocol info = Proto_Tcp \<or> pinfo_protocol info = Proto_Udp
      then on_manager (\<lambda>m. snd (pm_RouteIncomingData m (le_now e) (pinfo_source_ipv4 info) (pinfo_source_port info)
             (pinfo_dest_ipv4 info) (pinfo_dest_port info) (pinfo_protocol info) (Some payload) len)) w
      else w)"

definition HandleProxyDataPacket :: "ldn_env \<Rightarrow> byte list \<Rightarrow> ldn_world \<Rightarrow> ldn_world" where
  "HandleProxyDataPacket e data w =
     (if length data \<ge> 20 then
        let header = ProxyDataHeader_of_bytes (take 20 data); payload = drop 20 data
        in if length payload \<ge> unat (pdh_data_length header)
           then route_data e (pdh_info header) payload (unat (pdh_data_length header)) w else w
      else w)"

text \<open>What the threads of the host's proxy hand over: notices for the master server, and data for the host's own sockets.\<close>

definition send_master :: "ldn_world \<Rightarrow> byte list \<Rightarrow> ldn_world" where
  "send_master w data =
     (if IsServerConnected w
      then on_self (\<lambda>s. s\<lparr>ic_server_client := (snd (ryu_send_raw_packet (ic_server_client s) (Some data) (length data)))\<lparr>rc_events := []\<rparr>\<rparr>) w
      else w)"

definition HostP2pInboundDataCallback :: "ldn_env \<Rightarrow> ldn_world \<Rightarrow> host_data \<Rightarrow> ldn_world" where
  "HostP2pInboundDataCallback e w h = route_data e (hd_info h) (hd_data h) (length (hd_data h)) w"

definition flush_p2p :: "ldn_env \<Rightarrow> p2p_state \<Rightarrow> ldn_world \<Rightarrow> ldn_world" where
  "flush_p2p e p w =
     foldl (HostP2pInboundDataCallback e) (foldl send_master (on_self (\<lambda>s. s\<lparr>ic_p2p_server := Some (p\<lparr>pw_master := [], pw_host := []\<rparr>)\<rparr>) w)
       (pw_master p)) (pw_host p)"

definition HandleExternalProxyToken :: "ExternalProxyToken \<Rightarrow> ldn_world \<Rightarrow> ldn_world" where
  "HandleExternalProxyToken token w =
     (case ic_p2p_server (lw_self w) of
        Some p \<Rightarrow> if IsRunning p then on_self (\<lambda>s. s\<lparr>ic_p2p_server := Some (AddWaitingToken token p)\<rparr>) w else w
      | None \<Rightarrow> w)"

text \<open>Connecting to another console's proxy is left to a thread of its own; \<open>le_thread\<close> is whether it could be made.\<close>

definition is_self_proxy :: "ExternalProxyConfig \<Rightarrow> ICommunicationService \<Rightarrow> bool" where
  "is_self_proxy config s \<longleftrightarrow>
     (case ic_p2p_server s of
        Some p \<Rightarrow> IsRunning p \<and> (epc_proxy_port config = sv_public_port (pw_server p) \<or> epc_proxy_port config = sv_private_port (pw_server p))
      | None \<Rightarrow> False)"

definition HandleExternalProxyPacket :: "ldn_env \<Rightarrow> byte list \<Rightarrow> ldn_world \<Rightarrow> ldn_world" where
  "HandleExternalProxyPacket e data w =
     (if length data \<ge> 38 then
        let config = ExternalProxyConfig_of_bytes (take 38 data);
            w = on_self (\<lambda>s. s\<lparr>ic_external_proxy_config := config\<rparr>) w
        in if is_self_proxy config (lw_self w) \<or> \<not> ic_use_p2p_proxy (lw_self w) \<or> \<not> ic_recv_thread_running (lw_self w) then w
           else if ic_p2p_connect_thread_active (lw_self w) then w
           else on_self (\<lambda>s. s\<lparr>ic_pending_p2p_config := config, ic_p2p_connect_thread_active := le_thread e,
                  ic_p2p_connect_thread_initialized := le_thread e\<rparr>) w
      else w)"

definition is_response :: "PacketId \<Rightarrow> byte list \<Rightarrow> bool" where
  "is_response ty data \<longleftrightarrow>
     ty = PacketId.Connected \<or> ty = PacketId.ScanReply \<or> ty = PacketId.ScanReplyEnd \<or> ty = PacketId.RejectReply \<or>
     ty = PacketId.ProxyConnectReply \<or> ty = PacketId.NetworkError \<and> network_error_code data \<noteq> Some 1"

definition dispatch_packet :: "ldn_env \<Rightarrow> PacketId \<Rightarrow> byte list \<Rightarrow> ldn_world \<Rightarrow> ldn_world" where
  "dispatch_packet e ty data w =
     (case ty of
        PacketId.Connected \<Rightarrow> HandleConnectedPacket data w
      | PacketId.SyncNetwork \<Rightarrow> HandleSyncNetworkPacket data w
      | PacketId.Disconnect \<Rightarrow>
          signal_state (on_self (\<lambda>s. s\<lparr>ic_network_connected := False, ic_disconnect_reason := reason_SystemRequest\<rparr>) w)
      | PacketId.Reject \<Rightarrow>
          on_self (\<lambda>s. s\<lparr>ic_disconnect_reason :=
            (if length data \<ge> 8 then rejr_disconnect_reason (RejectRequest_of_bytes (take 8 data)) else reason_Rejected)\<rparr>) w
      | PacketId.RejectReply \<Rightarrow> on_self (\<lambda>s. s\<lparr>ic_reject_event := True\<rparr>) w
      | PacketId.Ping \<Rightarrow>
          if length data \<ge> 2 \<and> ping_requester (PingMessage_of_bytes (take 2 data)) = 0
          then on_self (\<lambda>s. s\<lparr>ic_server_client := (snd (ryu_send_ping_response (ic_server_client s)
                 (ping_id (PingMessage_of_bytes (take 2 data)))))\<lparr>rc_events := []\<rparr>\<rparr>) w
          else w
      | PacketId.NetworkError \<Rightarrow> HandleNetworkErrorPacket e data w
      | PacketId.ScanReply \<Rightarrow> HandleScanReplyPacket data w
      | PacketId.ScanReplyEnd \<Rightarrow> on_self (\<lambda>s. s\<lparr>ic_scan_event := True\<rparr>) w
      | PacketId.ProxyConfig \<Rightarrow>
          if length data \<ge> 8
          then let config = ProxyConfig_of_bytes (take 8 data)
               in on_manager (\<lambda>m. pm_SetLocalIp m (pcfg_proxy_ip config))
                    (on_self (\<lambda>s. s\<lparr>ic_proxy_config := config, ic_ipv4_address := pcfg_proxy_ip config,
                       ic_subnet_mask := pcfg_proxy_subnet_mask config\<rparr>) w)
          else w
      | PacketId.ExternalProxy \<Rightarrow> HandleExternalProxyPacket e data w
      | PacketId.ExternalProxyToken \<Rightarrow>
          if length data \<ge> 40 then HandleExternalProxyToken (ExternalProxyToken_of_bytes (take 40 data)) w else w
      | PacketId.ExternalProxyState \<Rightarrow>
          (case ic_p2p_server (lw_self w) of
             Some p \<Rightarrow>
               if length data \<ge> 8
               then let st = ExternalProxyConnectionState_of_bytes (take 8 data)
                    in flush_p2p e (HandleExternalProxyStateChange (epcs_ip_address st) (epcs_connected st \<noteq> 0) p) w
               else w
           | None \<Rightarrow> w)
      | PacketId.ProxyData \<Rightarrow> HandleProxyDataPacket e data w
      | _ \<Rightarrow> w)"

definition HandleServerPacket :: "ldn_env \<Rightarrow> PacketId \<Rightarrow> byte list \<Rightarrow> ldn_world \<Rightarrow> ldn_world" where
  "HandleServerPacket e ty data w =
     (let w = dispatch_packet e ty data w
      in if is_response ty data then on_self (\<lambda>s. s\<lparr>ic_last_response_id := ty, ic_response_event := True\<rparr>) w else w)"

end
