(* ===== verification/Ldn_Commands.thy ===== *)
theory Ldn_Commands
  imports Ldn_Service
begin

unbundle bit_operations_syntax

text \<open>
  The rest of \<^verbatim>\<open>ldn/ldn_icommunication.cpp\<close>: the callbacks of the session client, the host's and the client's side of the
  peer-to-peer proxy, the connection to the server, the commands of the game and the receive thread. Then what the commands do together:
  which networks a scan returns, what creating a network publishes, that the published state follows the state machine, how a lost
  connection is reported, and the sequences in which the service goes wrong.
\<close>

subsection \<open>Callbacks of the session client\<close>

text \<open>The callbacks run after the step of the client that makes them, in its order.\<close>

fun client_callback :: "ldn_env \<Rightarrow> ldn_world \<Rightarrow> client_event \<Rightarrow> ldn_world" where
  "client_callback e w (StateChanged before after) =
     (if after = ConnectionState.Ready then on_self (\<lambda>s. s\<lparr>ic_handshake_event := True\<rparr>) w else w)"
| "client_callback e w (PacketDelivered ty data) = HandleServerPacket e ty data w"

definition with_client :: "ldn_env \<Rightarrow> (RyuLdnClient \<Rightarrow> 'a \<times> RyuLdnClient) \<Rightarrow> ldn_world \<Rightarrow> 'a \<times> ldn_world" where
  "with_client e f w =
     (case f ((ic_server_client (lw_self w))\<lparr>rc_events := []\<rparr>) of
        (r, c) \<Rightarrow> (r, foldl (client_callback e) (on_self (\<lambda>s. s\<lparr>ic_server_client := c\<lparr>rc_events := []\<rparr>\<rparr>) w) (rc_events c)))"

definition disconnect_client :: "ldn_env \<Rightarrow> ldn_world \<Rightarrow> ldn_world" where
  "disconnect_client e w = snd (with_client e (\<lambda>c. ((), ryu_disconnect c)) w)"

subsection \<open>The peer-to-peer proxy of the host\<close>

text \<open>The pointer is reset after the server was stopped and deleted; its stacks go back to the pool. Not returning from the stop is \<open>Deadlock\<close>.\<close>

definition StopP2pProxyServer :: "ldn_env \<Rightarrow> ldn_world \<Rightarrow> ldn_world locked" where
  "StopP2pProxyServer e w =
     (case ic_p2p_server (lw_self w) of
        None \<Rightarrow> Done w
      | Some p \<Rightarrow>
          let p = on_server (\<lambda>v. snd (ReleaseNatPunch (le_upnp e) (lw_mapper w) v)) p in
          case server_Stop (le_accept_end e) (le_stop_waits e) p of
            None \<Rightarrow> Deadlock
          | Some p \<Rightarrow>
              (case server_destroy (le_upnp e) (lw_mapper w) (le_accept_end e) (le_stop_waits e) p of
                 None \<Rightarrow> Deadlock
               | Some p \<Rightarrow>
                   Done ((on_self (\<lambda>s. s\<lparr>ic_p2p_server := None\<rparr>) (flush_p2p e p w))
                     \<lparr>lw_p2p_stacks := pw_stacks p, lw_fault := (lw_fault w \<or> pw_fault p)\<rparr>)))"

definition kPredictedHostIp :: u32 where "kPredictedHostIp = 0x0A720001"
definition kPredictedSubnetMask :: u32 where "kPredictedSubnetMask = 0xFFFF0000"

definition new_p2p_server :: "ldn_env \<Rightarrow> ldn_world \<Rightarrow> p2p_state" where
  "new_p2p_server e w =
     \<lparr>pw_server = sv_new True, pw_heap = (\<lambda>a. None), pw_next = 0, pw_fault = False, pw_stacks = lw_p2p_stacks w,
      pw_sends = le_p2p_sends e, pw_sent = [], pw_master = [], pw_host = [], pw_closed = []\<rparr>"

definition set_p2p_server :: "p2p_state \<Rightarrow> ldn_world \<Rightarrow> ldn_world" where
  "set_p2p_server p = on_self (\<lambda>s. s\<lparr>ic_p2p_server := Some p\<rparr>)"

definition StartP2pProxyServer :: "ldn_env \<Rightarrow> ldn_world \<Rightarrow> (bool \<times> ldn_world) locked" where
  "StartP2pProxyServer e w =
     bind_locked (StopP2pProxyServer e w) (\<lambda>w.
       if \<not> ic_use_p2p_proxy (lw_self w) then Done (False, w)
       else case server_Start (le_start e) 0 (new_p2p_server e w) of
              None \<Rightarrow> Deadlock
            | Some (False, p) \<Rightarrow> bind_locked (StopP2pProxyServer e (set_p2p_server p w)) (\<lambda>w. Done (False, w))
            | Some (True, p) \<Rightarrow>
                Done (True, set_p2p_server (SetHostDataCallback True (SetHostVirtualIp kPredictedHostIp p)) w))"

subsection \<open>The connection to another console's proxy\<close>

text \<open>What the client's receive thread handed to its callback: only game data is used.\<close>

definition p2p_packet_callback :: "ldn_env \<Rightarrow> ldn_world \<Rightarrow> PacketId \<times> byte list \<Rightarrow> ldn_world" where
  "p2p_packet_callback e w d = (case d of (ty, data) \<Rightarrow> if ty = PacketId.ProxyData then HandleProxyDataPacket e data w else w)"

definition flush_client :: "ldn_env \<Rightarrow> P2pProxyClient \<Rightarrow> ldn_world \<Rightarrow> ldn_world" where
  "flush_client e c w =
     foldl (p2p_packet_callback e) (on_self (\<lambda>s. s\<lparr>ic_p2p_client := Some (c\<lparr>pc_delivered := []\<rparr>)\<rparr>) w) (pc_delivered c)"

text \<open>\<open>in_thread\<close>: the connecting thread itself calls; otherwise it is waited for, and \<open>le_connect_end\<close> is what it does until it ends.\<close>

definition DisconnectP2pProxy :: "ldn_env \<Rightarrow> bool \<Rightarrow> ldn_world \<Rightarrow> ldn_world" where
  "DisconnectP2pProxy e in_thread w =
     (let w = (case ic_p2p_client (lw_self w) of
                 Some c \<Rightarrow> flush_client e (client_Disconnect (le_client_end e) c) w | None \<Rightarrow> w);
          w = (if ic_p2p_connect_thread_initialized (lw_self w) \<and> \<not> in_thread
               then on_self (\<lambda>s. s\<lparr>ic_p2p_connect_thread_initialized := False, ic_p2p_connect_thread_active := False\<rparr>) (le_connect_end e w)
               else w)
      in case ic_p2p_client (lw_self w) of
           Some c \<Rightarrow> on_self (\<lambda>s. s\<lparr>ic_p2p_client := None\<rparr>) (flush_client e (client_destroy (le_client_end e) c) w)
         | None \<Rightarrow> w)"

text \<open>Connecting, presenting the token and waiting for the address, each only after the one before.\<close>

definition p2p_join :: "ldn_env \<Rightarrow> ExternalProxyConfig \<Rightarrow> P2pProxyClient \<Rightarrow> bool \<times> P2pProxyClient" where
  "p2p_join e config c =
     (let connect_port = (if epc_proxy_port config \<noteq> 0 then epc_proxy_port config else 39990) in
      case (if epc_address_family config = 2
            then client_Connect (le_connect e) (Some (epc_proxy_ip config)) 4 connect_port c else (False, c)) of
        (False, c) \<Rightarrow> (False, c)
      | (True, c) \<Rightarrow>
          (case client_PerformAuth config c of
             (False, c) \<Rightarrow> (False, c)
           | (True, c) \<Rightarrow> client_EnsureProxyReady (le_client_wait e) c))"

definition HandleExternalProxyConnect :: "ldn_env \<Rightarrow> ExternalProxyConfig \<Rightarrow> ldn_world \<Rightarrow> ldn_world" where
  "HandleExternalProxyConnect e config w =
     (let w = DisconnectP2pProxy e True w in
      case p2p_join e config (pc_new (le_client_memory e) True (le_client_sends e)) of
        (joined, c) \<Rightarrow>
          let w = flush_client e c w in
          if \<not> joined
          then on_self (\<lambda>s. s\<lparr>ic_error_event := True\<rparr>) (DisconnectP2pProxy e True (disable_p2p e w))
          else if \<not> ic_network_connected (lw_self w) \<and> ldn_state w \<noteq> StationConnected \<and> ldn_state w \<noteq> AccessPointCreated
          then DisconnectP2pProxy e True w
          else
            let cfg = pc_proxy_config c
            in on_manager (\<lambda>m. pm_SetLocalIp m (pcfg_proxy_ip cfg))
                 (on_self (\<lambda>s. s\<lparr>ic_proxy_config := cfg, ic_ipv4_address := pcfg_proxy_ip cfg,
                    ic_subnet_mask := pcfg_proxy_subnet_mask cfg\<rparr>) w))"

definition P2pConnectThreadEntry :: "ldn_env \<Rightarrow> ldn_world \<Rightarrow> ldn_world" where
  "P2pConnectThreadEntry e w =
     on_self (\<lambda>s. s\<lparr>ic_p2p_connect_thread_active := False\<rparr>) (HandleExternalProxyConnect e (ic_pending_p2p_config (lw_self w)) w)"

subsection \<open>Game data of the sockets\<close>

text \<open>The proxy server may have rewritten the addresses of the header, which the later branches use.\<close>

definition is_broadcast_ip :: "u32 \<Rightarrow> bool" where
  "is_broadcast_ip ip \<longleftrightarrow> ip = 0x0A72FFFF \<or> ip = 0xC0A800FF \<or> ip = 0xFFFFFFFF"

definition send_as_host :: "ldn_env \<Rightarrow> ProxyDataHeader \<Rightarrow> byte list \<Rightarrow> ldn_world \<Rightarrow> bool \<times> ProxyDataHeader \<times> ldn_world" where
  "send_as_host e header data w =
     (case ic_p2p_server (lw_self w) of
        None \<Rightarrow> (False, header, w)
      | Some p \<Rightarrow>
          if \<not> IsRunning p then (False, header, w)
          else case BroadcastFromHost header data p of
                 (p2p_sent, header, p) \<Rightarrow>
                   (p2p_sent \<and> \<not> is_broadcast_ip (pinfo_dest_ipv4 (pdh_info header)), header, flush_p2p e p w))"

definition send_as_client :: "ldn_env \<Rightarrow> ProxyDataHeader \<Rightarrow> byte list \<Rightarrow> ldn_world \<Rightarrow> bool \<times> ldn_world" where
  "send_as_client e header data w =
     (case ic_p2p_client (lw_self w) of
        None \<Rightarrow> (False, w)
      | Some c \<Rightarrow>
          if \<not> client_IsReady c then (False, w)
          else case client_SendProxyData header data c of (sent, c) \<Rightarrow> (sent, flush_client e c w))"

definition SendProxyDataToServer :: "ldn_env \<Rightarrow> ProxyDataHeader \<Rightarrow> byte list \<Rightarrow> ldn_world \<Rightarrow> ClientOpResult \<times> ldn_world" where
  "SendProxyDataToServer e header data w =
     (if \<not> IsServerConnected w then (ClientOpResult.NotConnected, w)
      else case send_as_host e header data w of
        (True, _, w) \<Rightarrow> (ClientOpResult.Success, w)
      | (False, header, w) \<Rightarrow>
          (case send_as_client e header data w of
             (True, w) \<Rightarrow> (ClientOpResult.Success, w)
           | (False, w) \<Rightarrow> with_client e (\<lambda>c. ryu_send_proxy_data c header (Some data) (length data) (le_now e)) w))"

definition SendProxyDataCallback ::
  "ldn_env \<Rightarrow> u32 \<Rightarrow> u16 \<Rightarrow> u32 \<Rightarrow> u16 \<Rightarrow> ProtocolType \<Rightarrow> byte list \<Rightarrow> ldn_world \<Rightarrow> bool \<times> ldn_world" where
  "SendProxyDataCallback e source_ip source_port dest_ip dest_port protocol data w =
     (if \<not> lw_active w then (False, w)
      else if protocol \<noteq> Proto_Tcp \<and> protocol \<noteq> Proto_Udp then (False, w)
      else
        let header = \<lparr>pdh_info = \<lparr>pinfo_source_ipv4 = source_ip, pinfo_source_port = source_port, pinfo_dest_ipv4 = dest_ip,
                        pinfo_dest_port = dest_port, pinfo_protocol = protocol\<rparr>, pdh_data_length = word_of_nat (length data)\<rparr>
        in case SendProxyDataToServer e header data w of (result, w) \<Rightarrow> (result = ClientOpResult.Success, w))"

subsection \<open>The connection to the server\<close>

text \<open>What other threads do during a single wait, and which event the system reports if both are set.\<close>

record ldn_wait =
  wt_others :: "ldn_world \<Rightarrow> ldn_world"
  wt_error_first :: bool

definition ConnectToServer :: "ldn_env \<Rightarrow> ldn_wait \<Rightarrow> ldn_world \<Rightarrow> Result \<times> ldn_world" where
  "ConnectToServer e wt w =
     (if ic_server_connected (lw_self w) \<and> rc_is_ready (ic_server_client (lw_self w)) then (R_SUCCESS, w)
      else
        let w = (if ic_server_connected (lw_self w) \<and> \<not> rc_is_ready (ic_server_client (lw_self w))
                 then on_self (\<lambda>s. s\<lparr>ic_server_connected := False\<rparr>) (disconnect_client e w) else w)
        in case with_client e ryu_connect_default w of
             (result, w) \<Rightarrow>
               if result \<noteq> ClientOpResult.Success then (MAKERESULT 0x10 2, w)
               else if \<not> csm_is_connected (rc_machine (ic_server_client (lw_self w))) then (MAKERESULT 0x10 2, w)
               else
                 let w = on_self (\<lambda>s. s\<lparr>ic_handshake_event := False, ic_error_event := False\<rparr>) w in
                 case wait_any ic_handshake_event (\<lambda>s. s\<lparr>ic_handshake_event := False\<rparr>) (wt_error_first wt) (wt_others wt) w of
                   (_, w) \<Rightarrow>
                     if \<not> rc_is_ready (ic_server_client (lw_self w)) then (MAKERESULT 0x10 4, disconnect_client e w)
                     else (R_SUCCESS, on_manager (\<lambda>m. m\<lparr>pm_send_callback := True\<rparr>)
                            ((on_self (\<lambda>s. s\<lparr>ic_server_connected := True\<rparr>) w)\<lparr>lw_active := True\<rparr>)))"

text \<open>The abandoned services of the game's process, then all of them; the socket manager's reset may wait for ever.\<close>

definition reset_sockets :: "ldn_world \<Rightarrow> ldn_world locked" where
  "reset_sockets w =
     bind_locked (pm_Reset (bs_manager (lw_bsd w))) (\<lambda>m.
       let g = (lw_bsd w)\<lparr>bs_manager := m\<rparr>; pid = ic_client_process_id (lw_self w);
           g = (if pid \<noteq> 0 then CleanupAbandonedServicesForPid g pid else g)
       in Done (w\<lparr>lw_bsd := CleanupAbandonedServices g\<rparr>))"

definition drop_connection :: "ldn_env \<Rightarrow> ldn_world \<Rightarrow> ldn_world" where
  "drop_connection e w =
     (if ic_server_connected (lw_self w) then on_self (\<lambda>s. s\<lparr>ic_server_connected := False\<rparr>) (disconnect_client e w) else w)"

definition CleanupSessionResources :: "ldn_env \<Rightarrow> ldn_world \<Rightarrow> ldn_world locked" where
  "CleanupSessionResources e w =
     bind_locked (StopP2pProxyServer e w) (\<lambda>w.
     bind_locked (reset_sockets ((drop_connection e (DisconnectP2pProxy e False w))\<lparr>lw_active := False\<rparr>)) (\<lambda>w.
       Done (on_shared (\<lambda>s. ss_SetLdnPid (ss_SetGameActive s False 0) 0)
         (on_self (\<lambda>s. (clear_events s)
           \<lparr>ic_network_info := zero_info, ic_proxy_config := zero_proxy_config, ic_external_proxy_config := zero_external_config,
            ic_prev_node_connected := replicate NodeCountMax False, ic_advertise_data := replicate 384 0, ic_scan_results := [],
            ic_advertise_data_size := 0, ic_ipv4_address := 0, ic_subnet_mask := 0, ic_network_connected := False,
            ic_node_mapper := nm_Clear (ic_node_mapper s)\<rparr>) w))))"

definition DisconnectFromServer :: "ldn_env \<Rightarrow> ldn_world \<Rightarrow> ldn_world locked" where
  "DisconnectFromServer e w =
     bind_locked (StopP2pProxyServer e w) (\<lambda>w.
     bind_locked (reset_sockets ((DisconnectP2pProxy e False w)\<lparr>lw_active := False\<rparr>)) (\<lambda>w.
       Done (on_self clear_events (drop_connection e w))))"

subsection \<open>Instances\<close>

definition LDN_SESSION_STACK_COUNT :: nat where "LDN_SESSION_STACK_COUNT = 12"

text \<open>Fifty attempts with pauses, in which other threads may release a stack; then the first one is taken, in use or not.\<close>

fun AllocateLdnStackSlot :: "nat \<Rightarrow> (bool list \<Rightarrow> bool list) list \<Rightarrow> bool list \<Rightarrow> int \<times> bool list" where
  "AllocateLdnStackSlot 0 waits used = (0, used[0 := True])"
| "AllocateLdnStackSlot (Suc n) waits used =
     (case find_free used of
        Some i \<Rightarrow> (int i, used[i := True])
      | None \<Rightarrow> (case waits of [] \<Rightarrow> AllocateLdnStackSlot n [] used | f # fs \<Rightarrow> AllocateLdnStackSlot n fs (f used)))"

definition ReleaseLdnStackSlot :: "int \<Rightarrow> bool list \<Rightarrow> bool list" where
  "ReleaseLdnStackSlot slot used = (if slot < 0 \<or> slot \<ge> int LDN_SESSION_STACK_COUNT then used else used[nat slot := False])"

definition release_slot :: "ldn_world \<Rightarrow> ldn_world" where
  "release_slot w =
     (if ic_stack_slot_index (lw_self w) \<ge> 0
      then on_self (\<lambda>s. s\<lparr>ic_stack_slot_index := - 1\<rparr>) (w\<lparr>lw_stacks := ReleaseLdnStackSlot (ic_stack_slot_index (lw_self w)) (lw_stacks w)\<rparr>)
      else w)"

definition finalize_machine :: "ldn_world \<Rightarrow> ldn_world" where
  "finalize_machine w = snd (on_machine lsm_Finalize w)"

definition join_receive_thread :: "ldn_env \<Rightarrow> ldn_world \<Rightarrow> ldn_world" where
  "join_receive_thread e w =
     (if ic_recv_thread_was_started (lw_self w)
      then on_self (\<lambda>s. s\<lparr>ic_recv_thread_was_started := False\<rparr>) (le_recv_end e w) else w)"

definition stop_receiving :: "ldn_env \<Rightarrow> ldn_world \<Rightarrow> ldn_world" where
  "stop_receiving e w = disconnect_client e (on_self (\<lambda>s. s\<lparr>ic_recv_thread_running := False, ic_error_event := True\<rparr>) w)"

text \<open>The settings as the client's configuration reads them.\<close>

definition app_of :: "Config \<Rightarrow> AppConfig" where
  "app_of cfg =
     \<lparr>app_host = map of_char (sv_host (cf_server cfg)), app_port = sv_port (cf_server cfg), app_use_tls = sv_use_tls (cf_server cfg),
      app_connect_timeout_ms = nw_connect_timeout_ms (cf_network cfg), app_ping_interval_ms = nw_ping_interval_ms (cf_network cfg),
      app_reconnect_delay_ms = nw_reconnect_delay_ms (cf_network cfg),
      app_max_reconnect_attempts = nw_max_reconnect_attempts (cf_network cfg),
      app_passphrase = map of_char (ld_passphrase (cf_ldn cfg))\<rparr>"

definition new_service :: "u64 \<Rightarrow> os \<Rightarrow> (nat \<Rightarrow> u32) \<Rightarrow> Config \<Rightarrow> ICommunicationService" where
  "new_service program_id os rnd cfg =
     \<lparr>ic_state_machine = lsm_new, ic_error_state = 0, ic_client_process_id = 0, ic_network_info = zero_info,
      ic_disconnect_reason = reason_None, ic_ipv4_address = 0, ic_subnet_mask = 0,
      ic_server_client = set_state_callback (set_packet_callback (ryu_client_new (client_config_of (app_of cfg)) os rnd) True) True,
      ic_server_connected = False, ic_node_mapper = nm_new, ic_proxy_buffer = px_new, ic_response_event = False, ic_scan_event = False,
      ic_error_event = False, ic_reject_event = False, ic_handshake_event = False, ic_last_response_id = PacketId.Initialize,
      ic_scan_results = [], ic_advertise_data = replicate 384 0, ic_advertise_data_size = 0, ic_game_version = replicate 16 0,
      ic_network_connected = False, ic_prev_node_connected = replicate NodeCountMax False, ic_last_network_error = error_None,
      ic_use_p2p_proxy = (\<not> ld_disable_p2p (cf_ldn cfg)), ic_proxy_config = zero_proxy_config,
      ic_external_proxy_config = zero_external_config, ic_p2p_client = None, ic_p2p_server = None, ic_p2p_connect_thread_active = False,
      ic_p2p_connect_thread_initialized = False, ic_pending_p2p_config = zero_external_config,
      ic_inactivity_timeout = nt_new DEFAULT_IDLE_TIMEOUT_MS True, ic_recv_thread_running = False, ic_recv_thread_was_started = False,
      ic_stack_slot_index = - 1, ic_program_id = program_id, ic_local_communication_id = program_id, ic_expected_scene_id = 0\<rparr>"

text \<open>
  The constructor. If an instance is current, it is the service of the world: it is shut down, and what is left of it is the first result, for
  its destructor still runs later. The client is made before the shutdown, from the settings of that moment.
\<close>

definition shut_down_previous :: "ldn_env \<Rightarrow> ldn_world \<Rightarrow> ldn_world locked" where
  "shut_down_previous e w =
     bind_locked (CleanupSessionResources e (release_slot (join_receive_thread e
       ((stop_receiving e w)\<lparr>lw_active := False, lw_current := False\<rparr>)))) (\<lambda>w. Done (finalize_machine w))"

definition start_service :: "ldn_env \<Rightarrow> (bool list \<Rightarrow> bool list) list \<Rightarrow> ICommunicationService \<Rightarrow> ldn_world \<Rightarrow> ldn_world" where
  "start_service e waits s w =
     (case AllocateLdnStackSlot 50 waits (lw_stacks w) of
        (slot, used) \<Rightarrow>
          w\<lparr>lw_self := s\<lparr>ic_stack_slot_index := slot, ic_recv_thread_running := le_thread e, ic_recv_thread_was_started := le_thread e\<rparr>,
            lw_stacks := used, lw_active := False, lw_current := True\<rparr>)"

definition ICommunicationService_new ::
  "ldn_env \<Rightarrow> (bool list \<Rightarrow> bool list) list \<Rightarrow> u64 \<Rightarrow> os \<Rightarrow> (nat \<Rightarrow> u32) \<Rightarrow> ldn_world \<Rightarrow> (ICommunicationService \<times> ldn_world) locked" where
  "ICommunicationService_new e waits program_id os rnd w =
     (let s = new_service program_id os rnd (lw_config w)
      in bind_locked (if lw_current w then shut_down_previous e w else Done w) (\<lambda>w. Done (lw_self w, start_service e waits s w)))"

text \<open>The destructor; \<open>lw_current\<close> and \<open>lw_active\<close> are whether the global pointers are this instance.\<close>

definition ICommunicationService_destroy :: "ldn_env \<Rightarrow> ldn_world \<Rightarrow> ldn_world locked" where
  "ICommunicationService_destroy e w =
     bind_locked (CleanupSessionResources e (join_receive_thread e (stop_receiving e (w\<lparr>lw_current := False\<rparr>)))) (\<lambda>w.
       Done (release_slot (finalize_machine w)))"

subsection \<open>Starting and ending\<close>

definition ic_Initialize :: "ldn_env \<Rightarrow> u64 \<Rightarrow> ldn_world \<Rightarrow> Result \<times> ldn_world" where
  "ic_Initialize e client_process_id w =
     (case on_machine lsm_Initialize (on_self (\<lambda>s. s\<lparr>ic_client_process_id := client_process_id\<rparr>) w) of
        (result, w) \<Rightarrow>
          if result \<noteq> StateTransitionResult.Success then (MAKERESULT 0x10 1, w)
          else let w = on_self (\<lambda>s. s\<lparr>ic_disconnect_reason := reason_None\<rparr>) w;
                   w = on_shared (\<lambda>s. ss_SetGameActive s True client_process_id) w
               in (R_SUCCESS, on_shared (\<lambda>s. ss_SetLdnPid s client_process_id) (SetLdnState (ldn_state w) w)))"

definition ic_InitializeSystem2 :: "ldn_env \<Rightarrow> u64 \<Rightarrow> u64 \<Rightarrow> ldn_world \<Rightarrow> Result \<times> ldn_world" where
  "ic_InitializeSystem2 e unk client_process_id w = ic_Initialize e client_process_id (on_self (\<lambda>s. s\<lparr>ic_error_state := unk\<rparr>) w)"

definition ic_Finalize :: "ldn_env \<Rightarrow> ldn_world \<Rightarrow> (Result \<times> ldn_world) locked" where
  "ic_Finalize e w =
     bind_locked (CleanupSessionResources e w) (\<lambda>w.
       Done (R_SUCCESS, on_self (\<lambda>s. s\<lparr>ic_client_process_id := 0, ic_error_state := 0\<rparr>) (finalize_machine w)))"

subsection \<open>Queries\<close>

definition ic_GetState :: "ldn_world \<Rightarrow> Result \<times> u32" where
  "ic_GetState w =
     (let s = lw_self w
      in (if ic_error_state s \<noteq> 0 \<and> ic_disconnect_reason s \<noteq> reason_None then MAKERESULT 0x10 (ic_disconnect_reason s) else R_SUCCESS,
          comm_value (ldn_state w)))"

definition ic_GetNetworkInfo :: "ldn_world \<Rightarrow> Result \<times> NetworkInfo" where
  "ic_GetNetworkInfo w = (R_SUCCESS, ic_network_info (lw_self w))"

text \<open>Address and mask are set only on success.\<close>

definition ic_GetIpv4Address :: "ldn_env \<Rightarrow> ldn_world \<Rightarrow> Result \<times> (u32 \<times> u32) option" where
  "ic_GetIpv4Address e w =
     (let s = lw_self w; cfg = ic_proxy_config s
      in if ic_server_connected s \<and> pcfg_proxy_ip cfg \<noteq> 0 then (R_SUCCESS, Some (pcfg_proxy_ip cfg, pcfg_proxy_subnet_mask cfg))
         else case le_nifm e of
                Inl (addr, netmask) \<Rightarrow> (R_SUCCESS, Some (bswap32 addr, bswap32 netmask))
              | Inr rc \<Rightarrow> (rc, None))"

definition ic_GetDisconnectReason :: "ldn_world \<Rightarrow> Result \<times> u32" where
  "ic_GetDisconnectReason w = (R_SUCCESS, ic_disconnect_reason (lw_self w))"

definition ic_GetSecurityParameter :: "ldn_world \<Rightarrow> Result \<times> SecurityParameter" where
  "ic_GetSecurityParameter w = (R_SUCCESS, NetworkInfo2SecurityParameter (ic_network_info (lw_self w)))"

definition ic_GetNetworkConfig :: "ldn_world \<Rightarrow> Result \<times> Protocol_Types.NetworkConfig" where
  "ic_GetNetworkConfig w = (R_SUCCESS, NetworkInfo2NetworkConfig (ic_network_info (lw_self w)))"

text \<open>The changes since the last call, as far as the caller's array reaches.\<close>

definition node_change :: "bool \<Rightarrow> bool \<Rightarrow> NodeStateChange" where
  "node_change prev_connected current_connected =
     (if current_connected \<and> \<not> prev_connected then NodeConnect
      else if \<not> current_connected \<and> prev_connected then NodeDisconnect else NodeNone)"

definition connected_nodes :: "NetworkInfo \<Rightarrow> bool list" where
  "connected_nodes info = map (\<lambda>n. node_is_connected n \<noteq> 0) (take NodeCountMax (ldn_nodes (nwi_ldn info)))"

definition ic_GetNetworkInfoLatestUpdate :: "nat \<Rightarrow> ldn_world \<Rightarrow> Result \<times> NetworkInfo \<times> NodeStateChange list \<times> ldn_world" where
  "ic_GetNetworkInfoLatestUpdate n w =
     (let s = lw_self w; info = ic_network_info s; k = min n NodeCountMax;
          now = take k (connected_nodes info); prev = ic_prev_node_connected s
      in (R_SUCCESS, info, map2 node_change (take k prev) now @ replicate (n - k) NodeNone,
          on_self (\<lambda>s. s\<lparr>ic_prev_node_connected := now @ drop k prev\<rparr>) w))"

subsection \<open>Scanning\<close>

definition ScanFilterFlag_LocalCommunicationId :: u32 where "ScanFilterFlag_LocalCommunicationId = 1"

definition effective_id :: "ldn_world \<Rightarrow> u64 \<Rightarrow> u64" where
  "effective_id w local_comm_id = (if local_comm_id = - 1 \<or> local_comm_id = 0 then ic_local_communication_id (lw_self w) else local_comm_id)"

definition refresh_timeout :: "ldn_env \<Rightarrow> ldn_world \<Rightarrow> ldn_world" where
  "refresh_timeout e = on_self (\<lambda>s. s\<lparr>ic_inactivity_timeout := snd (nt_RefreshTimeout (ic_inactivity_timeout s) (le_now e))\<rparr>)"

definition disable_timeout :: "ldn_world \<Rightarrow> ldn_world" where
  "disable_timeout = on_self (\<lambda>s. s\<lparr>ic_inactivity_timeout := nt_DisableTimeout (ic_inactivity_timeout s)\<rparr>)"

text \<open>The filter of the game has the layout of the protocol's; the fields not copied are zero.\<close>

definition scan_filter :: "ldn_world \<Rightarrow> ScanFilterFull \<Rightarrow> ScanFilterFull" where
  "scan_filter w flt =
     (let intent = nwid_intent_id (scan_network_id flt) in
      \<lparr>scan_network_id = \<lparr>nwid_intent_id = \<lparr>intent_local_communication_id = effective_id w (intent_local_communication_id intent),
           intent_reserved1 = 0, intent_scene_id = intent_scene_id intent, intent_reserved2 = 0\<rparr>,
         nwid_session_id = nwid_session_id (scan_network_id flt)\<rparr>,
       scan_network_type = scan_network_type flt, scan_mac_address = scan_mac_address flt, scan_ssid = scan_ssid flt,
       scan_reserved = replicate 16 0, scan_flag = scan_flag flt OR ScanFilterFlag_LocalCommunicationId\<rparr>)"

text \<open>The networks returned; the caller's array has room for \<open>max_results\<close>.\<close>

definition ic_Scan :: "ldn_env \<Rightarrow> ldn_wait \<Rightarrow> nat \<Rightarrow> u16 \<Rightarrow> ScanFilterFull \<Rightarrow> ldn_world \<Rightarrow> Result \<times> NetworkInfo list \<times> ldn_world" where
  "ic_Scan e wt max_results channel flt w =
     (if \<not> IsServerConnected w then (MAKERESULT 0x10 2, [], w)
      else
        let w = on_self (\<lambda>s. s\<lparr>ic_scan_results := [], ic_scan_event := False, ic_error_event := False,
                  ic_expected_scene_id := intent_scene_id (nwid_intent_id (scan_network_id flt))\<rparr>) w
        in case with_client e (\<lambda>c. ryu_send_scan c (scan_filter w flt)) w of
             (send_result, w) \<Rightarrow>
               if send_result \<noteq> ClientOpResult.Success then (MAKERESULT 0x10 3, [], w)
               else case wait_any ic_scan_event (\<lambda>s. s\<lparr>ic_scan_event := False\<rparr>) (wt_error_first wt) (wt_others wt) w of
                      (Error, w) \<Rightarrow> (MAKERESULT 0x10 5, [], w)
                    | (_, w) \<Rightarrow> (R_SUCCESS, take max_results (ic_scan_results (lw_self w)), refresh_timeout e w))"

definition ic_ScanPrivate ::
  "ldn_env \<Rightarrow> ldn_wait \<Rightarrow> nat \<Rightarrow> u16 \<Rightarrow> ScanFilterFull \<Rightarrow> ldn_world \<Rightarrow> Result \<times> NetworkInfo list \<times> ldn_world" where
  "ic_ScanPrivate = ic_Scan"

subsection \<open>Access point\<close>

definition ic_OpenAccessPoint :: "ldn_env \<Rightarrow> ldn_wait \<Rightarrow> ldn_world \<Rightarrow> Result \<times> ldn_world" where
  "ic_OpenAccessPoint e wt w =
     (case on_machine lsm_OpenAccessPoint w of
        (result, w) \<Rightarrow>
          if result \<noteq> StateTransitionResult.Success then (MAKERESULT 0x10 1, w)
          else case ConnectToServer e wt w of
                 (rc, w) \<Rightarrow> if rc \<noteq> R_SUCCESS then (rc, snd (on_machine lsm_CloseAccessPoint w)) else (R_SUCCESS, SetLdnState AccessPoint w))"

definition ic_CloseAccessPoint :: "ldn_env \<Rightarrow> ldn_world \<Rightarrow> (Result \<times> ldn_world) locked" where
  "ic_CloseAccessPoint e w =
     bind_locked (StopP2pProxyServer e w) (\<lambda>w.
     bind_locked (DisconnectFromServer e w) (\<lambda>w.
       case on_machine lsm_CloseAccessPoint w of
         (result, w) \<Rightarrow>
           if result \<noteq> StateTransitionResult.Success then Done (MAKERESULT 0x10 1, w)
           else Done (R_SUCCESS, SetLdnState Initialized
                  (on_self (\<lambda>s. s\<lparr>ic_network_info := zero_info, ic_network_connected := False\<rparr>) w))))"

definition copy_security :: "SecurityConfig \<Rightarrow> SecurityConfig" where
  "copy_security c = \<lparr>secc_security_mode = secc_security_mode c, secc_passphrase_size = secc_passphrase_size c,
     secc_passphrase = secc_passphrase c\<rparr>"

definition copy_user :: "UserConfig \<Rightarrow> UserConfig" where
  "copy_user c = \<lparr>userc_user_name = userc_user_name c, userc_unknown1 = replicate 15 0\<rparr>"

definition copy_network :: "u64 \<Rightarrow> Protocol_Types.NetworkConfig \<Rightarrow> Protocol_Types.NetworkConfig" where
  "copy_network local_comm_id c =
     \<lparr>netc_intent_id = \<lparr>intent_local_communication_id = local_comm_id, intent_reserved1 = 0,
        intent_scene_id = intent_scene_id (netc_intent_id c), intent_reserved2 = 0\<rparr>,
      netc_channel = netc_channel c, netc_node_count_max = netc_node_count_max c, netc_reserved1 = 0,
      netc_local_communication_version = netc_local_communication_version c, netc_reserved2 = replicate 10 0\<rparr>"

text \<open>The proxy's part of the request: the private address as the bytes of the network order, zero-padded.\<close>

definition no_proxy :: "byte list \<Rightarrow> RyuNetworkConfig" where
  "no_proxy game_version = \<lparr>ryuc_game_version = game_version, ryuc_private_ip = replicate 16 0, ryuc_address_family = 0,
     ryuc_external_proxy_port = 0, ryuc_internal_proxy_port = 0\<rparr>"

definition with_proxy :: "u32 \<Rightarrow> u16 \<Rightarrow> u16 \<Rightarrow> byte list \<Rightarrow> RyuNetworkConfig" where
  "with_proxy local_ip public_port private_port game_version =
     \<lparr>ryuc_game_version = game_version, ryuc_private_ip = put32 (bswap32 local_ip) @ replicate 12 0, ryuc_address_family = 2,
      ryuc_external_proxy_port = (if public_port \<noteq> 0 then public_port else private_port), ryuc_internal_proxy_port = private_port\<rparr>"

definition offer_proxy :: "ldn_env \<Rightarrow> ldn_world \<Rightarrow> (RyuNetworkConfig \<times> ldn_world) locked" where
  "offer_proxy e w =
     bind_locked (if ic_use_p2p_proxy (lw_self w) then StartP2pProxyServer e w else Done (False, w)) (\<lambda>(started, w).
       case (started, ic_p2p_server (lw_self w)) of
         (True, Some p) \<Rightarrow>
           (case NatPunch (le_upnp e) (le_thread e) (lw_mapper w) (pw_server p) of
              (public_port, u, v) \<Rightarrow>
                let w = (set_p2p_server (p\<lparr>pw_server := v\<rparr>) w)\<lparr>lw_mapper := u\<rparr>;
                    local_ip = um_GetLocalIPv4 (le_upnp e) u;
                    local_ip = (if local_ip = 0 then um_GetLocalIPv4Nifm (le_upnp e) else local_ip)
                in Done (with_proxy local_ip public_port (sv_private_port v) (ic_game_version (lw_self w)), w))
       | _ \<Rightarrow> Done (no_proxy (ic_game_version (lw_self w)), w))"

definition predict_address :: "ldn_world \<Rightarrow> ldn_world" where
  "predict_address w =
     (if ic_use_p2p_proxy (lw_self w) \<and> ic_ipv4_address (lw_self w) = 0
      then on_manager (\<lambda>m. pm_SetLocalIp m kPredictedHostIp)
             (on_self (\<lambda>s. s\<lparr>ic_ipv4_address := kPredictedHostIp, ic_subnet_mask := kPredictedSubnetMask,
                ic_proxy_config := \<lparr>pcfg_proxy_ip = kPredictedHostIp, pcfg_proxy_subnet_mask = kPredictedSubnetMask\<rparr>\<rparr>) w)
      else w)"

text \<open>The way out after a failed request: the proxy stopped, the state machine back.\<close>

definition undo_create :: "ldn_env \<Rightarrow> Result \<Rightarrow> ldn_world \<Rightarrow> (Result \<times> ldn_world) locked" where
  "undo_create e rc w = bind_locked (StopP2pProxyServer e w) (\<lambda>w. Done (rc, snd (on_machine lsm_DestroyNetwork w)))"

definition network_created :: "ldn_env \<Rightarrow> ldn_world \<Rightarrow> (Result \<times> ldn_world) locked" where
  "network_created e w =
     bind_locked (if \<not> ic_use_p2p_proxy (lw_self w) then StopP2pProxyServer e w else Done w) (\<lambda>w.
       Done (R_SUCCESS, signal_state (SetLdnState AccessPointCreated
         (disable_timeout (on_self (\<lambda>s. s\<lparr>ic_network_connected := True\<rparr>) (predict_address w))))))"

definition create_request :: "CreateNetworkConfig \<Rightarrow> u64 \<Rightarrow> RyuNetworkConfig \<Rightarrow> CreateAccessPointRequest" where
  "create_request data local_comm_id ryu =
     \<lparr>capr_security_config = copy_security (cnc_securityConfig data), capr_user_config = copy_user (cnc_userConfig data),
      capr_network_config = copy_network local_comm_id (cnc_networkConfig data), capr_ryu_network_config = ryu\<rparr>"

definition send_create :: "ldn_env \<Rightarrow> CreateAccessPointRequest \<Rightarrow> ldn_world \<Rightarrow> ClientOpResult \<times> ldn_world" where
  "send_create e request w =
     (let s = lw_self w; n = ic_advertise_data_size s
      in with_client e (\<lambda>c. ryu_send_create_access_point c request (if n > 0 then Some (take n (ic_advertise_data s)) else None) n) w)"

definition ic_CreateNetwork :: "ldn_env \<Rightarrow> wait_step list \<Rightarrow> CreateNetworkConfig \<Rightarrow> ldn_world \<Rightarrow> (Result \<times> ldn_world) locked" where
  "ic_CreateNetwork e script data w =
     (let local_comm_id = effective_id w (intent_local_communication_id (netc_intent_id (cnc_networkConfig data))) in
      if \<not> IsServerConnected w then Done (MAKERESULT 0x10 2, w)
      else case on_machine lsm_CreateNetwork (disable_timeout w) of
             (result, w) \<Rightarrow>
               if result \<noteq> StateTransitionResult.Success then Done (MAKERESULT 0x10 1, w)
               else bind_locked (offer_proxy e w) (\<lambda>(ryu, w).
                 case send_create e (create_request data local_comm_id ryu) w of
                   (send_result, w) \<Rightarrow>
                     if send_result \<noteq> ClientOpResult.Success then undo_create e (MAKERESULT 0x10 3) w
                     else case WaitForResponse PacketId.Connected 8000 script w of
                            (ok, w) \<Rightarrow> if \<not> ok then undo_create e (MAKERESULT 0x10 5) w else network_created e w))"

definition ic_DestroyNetwork :: "ldn_env \<Rightarrow> ldn_world \<Rightarrow> (Result \<times> ldn_world) locked" where
  "ic_DestroyNetwork e w =
     bind_locked (StopP2pProxyServer e w) (\<lambda>w.
       case on_machine lsm_DestroyNetwork w of
         (result, w) \<Rightarrow>
           if result \<noteq> StateTransitionResult.Success then Done (MAKERESULT 0x10 1, w)
           else Done (R_SUCCESS, SetLdnState AccessPoint (refresh_timeout e
                  (on_self (\<lambda>s. s\<lparr>ic_network_info := zero_info, ic_network_connected := False\<rparr>) w))))"

definition ic_SetAdvertiseData :: "ldn_env \<Rightarrow> byte list \<Rightarrow> ldn_world \<Rightarrow> Result \<times> ldn_world" where
  "ic_SetAdvertiseData e data w =
     (let n = min (length data) 384;
          w = on_self (\<lambda>s. s\<lparr>ic_advertise_data_size := n, ic_advertise_data := memcpy (ic_advertise_data s) 0 (take n data)\<rparr>) w
      in if ic_network_connected (lw_self w)
         then case with_client e (\<lambda>c. ryu_send_set_advertise_data c (Some (ic_advertise_data (lw_self w))) n) w of
                (send_result, w) \<Rightarrow> (if send_result \<noteq> ClientOpResult.Success then MAKERESULT 0x10 3 else R_SUCCESS, w)
         else (R_SUCCESS, w))"

definition ic_SetStationAcceptPolicy :: "ldn_env \<Rightarrow> u8 \<Rightarrow> ldn_world \<Rightarrow> Result \<times> ldn_world" where
  "ic_SetStationAcceptPolicy e policy w =
     (if ic_network_connected (lw_self w)
      then case with_client e (\<lambda>c. ryu_send_set_accept_policy c policy) w of
             (send_result, w) \<Rightarrow> (if send_result \<noteq> ClientOpResult.Success then MAKERESULT 0x10 3 else R_SUCCESS, w)
      else (R_SUCCESS, w))"

subsection \<open>Station\<close>

definition ic_OpenStation :: "ldn_env \<Rightarrow> ldn_wait \<Rightarrow> ldn_world \<Rightarrow> Result \<times> ldn_world" where
  "ic_OpenStation e wt w =
     (case on_machine lsm_OpenStation w of
        (result, w) \<Rightarrow>
          if result \<noteq> StateTransitionResult.Success then (MAKERESULT 0x10 1, w)
          else case ConnectToServer e wt w of
                 (rc, w) \<Rightarrow> if rc \<noteq> R_SUCCESS then (rc, snd (on_machine lsm_CloseStation w)) else (R_SUCCESS, SetLdnState Station w))"

definition ic_CloseStation :: "ldn_world \<Rightarrow> Result \<times> ldn_world" where
  "ic_CloseStation w =
     (case on_machine lsm_CloseStation w of
        (result, w) \<Rightarrow>
          if result \<noteq> StateTransitionResult.Success then (MAKERESULT 0x10 1, w)
          else (R_SUCCESS, SetLdnState Initialized (on_self (\<lambda>s. s\<lparr>ic_network_info := zero_info\<rparr>) w)))"

definition connect_request :: "ConnectNetworkData \<Rightarrow> u64 \<Rightarrow> NetworkInfo \<Rightarrow> ConnectRequest" where
  "connect_request dat local_comm_id data =
     \<lparr>creq_security_config = copy_security (cnd_securityConfig dat), creq_user_config = copy_user (cnd_userConfig dat),
      creq_local_communication_version = cnd_localCommunicationVersion dat, creq_option_unknown = cnd_option dat, creq_padding = 0,
      creq_network_info = data\<lparr>nwi_network_id := (nwi_network_id data)\<lparr>nwid_intent_id :=
        (nwid_intent_id (nwi_network_id data))\<lparr>intent_local_communication_id := local_comm_id\<rparr>\<rparr>\<rparr>\<rparr>"

text \<open>
  Send, wait, and once more if there was no answer and the peer-to-peer proxy is off; \<open>send\<close> is the request. The first result is \<open>None\<close>
  if the first send failed, and otherwise whether the answer came.
\<close>

definition connect_attempts ::
  "ldn_env \<Rightarrow> (RyuLdnClient \<Rightarrow> ClientOpResult \<times> RyuLdnClient) \<Rightarrow> wait_step list \<Rightarrow> wait_step list \<Rightarrow> ldn_world \<Rightarrow> bool option \<times> ldn_world" where
  "connect_attempts e send script script2 w =
     (case with_client e send w of
        (send_result, w) \<Rightarrow>
          if send_result \<noteq> ClientOpResult.Success then (None, w)
          else case WaitForResponse PacketId.Connected 8000 script w of
            (connected_ok, w) \<Rightarrow>
              if connected_ok \<or> ic_use_p2p_proxy (lw_self w) then (Some connected_ok, w)
              else case with_client e send (on_self (\<lambda>s. s\<lparr>ic_error_event := False\<rparr>) w) of
                     (send_result, w) \<Rightarrow>
                       if send_result = ClientOpResult.Success
                       then map_prod Some id (WaitForResponse PacketId.Connected 8000 script2 w) else (Some False, w))"

definition leave_network :: "ldn_world \<Rightarrow> ldn_world" where
  "leave_network w = snd (on_machine lsm_Disconnect w)"

definition ic_Connect ::
  "ldn_env \<Rightarrow> wait_step list \<Rightarrow> wait_step list \<Rightarrow> ConnectNetworkData \<Rightarrow> NetworkInfo \<Rightarrow> ldn_world \<Rightarrow> Result \<times> ldn_world" where
  "ic_Connect e script script2 dat data w =
     (let local_comm_id = effective_id w (intent_local_communication_id (nwid_intent_id (nwi_network_id data))) in
      if \<not> IsServerConnected w then (MAKERESULT 0x10 2, w)
      else case on_machine lsm_Connect w of
        (result, w) \<Rightarrow>
          if result \<noteq> StateTransitionResult.Success then (MAKERESULT 0x10 1, w)
          else case connect_attempts e (\<lambda>c. ryu_send_connect c (connect_request dat local_comm_id data)) script script2 w of
                 (Some True, w) \<Rightarrow>
                   (R_SUCCESS, signal_state (SetLdnState StationConnected
                      (disable_timeout (on_self (\<lambda>s. s\<lparr>ic_network_connected := True\<rparr>) w))))
               | (_, w) \<Rightarrow> (MAKERESULT 0x10 5, leave_network w))"

definition ic_Disconnect :: "ldn_env \<Rightarrow> ldn_world \<Rightarrow> Result \<times> ldn_world" where
  "ic_Disconnect e w =
     (case on_machine lsm_Disconnect (DisconnectP2pProxy e False w) of
        (result, w) \<Rightarrow>
          if result \<noteq> StateTransitionResult.Success then (MAKERESULT 0x10 1, w)
          else
            let w = (if IsServerConnected w \<and> ic_network_connected (lw_self w)
                     then snd (with_client e ryu_send_disconnect_network w) else w)
            in (R_SUCCESS, SetLdnState Station (on_self (\<lambda>s. s\<lparr>ic_network_info := zero_info\<rparr>)
                 (refresh_timeout e (on_self (\<lambda>s. s\<lparr>ic_network_connected := False, ic_disconnect_reason := reason_User\<rparr>) w)))))"

subsection \<open>Private networks\<close>

definition create_private_request :: "CreateNetworkPrivateConfig \<Rightarrow> byte list \<Rightarrow> byte list \<Rightarrow> CreateAccessPointPrivateRequest" where
  "create_private_request data addressList game_version =
     \<lparr>cappr_security_config = copy_security (cnp_securityConfig data), cappr_security_parameter = cnp_securityParameter data,
      cappr_user_config = copy_user (cnp_userConfig data),
      cappr_network_config = copy_network (intent_local_communication_id (netc_intent_id (cnp_networkConfig data))) (cnp_networkConfig data),
      cappr_address_list = AddressList_of_bytes (if length addressList \<ge> 96 then take 96 addressList else replicate 96 0),
      cappr_ryu_network_config = no_proxy game_version\<rparr>"

definition ic_CreateNetworkPrivate ::
  "ldn_env \<Rightarrow> wait_step list \<Rightarrow> CreateNetworkPrivateConfig \<Rightarrow> byte list \<Rightarrow> ldn_world \<Rightarrow> Result \<times> ldn_world" where
  "ic_CreateNetworkPrivate e script data addressList w =
     (if \<not> IsServerConnected w then (MAKERESULT 0x10 2, w)
      else case on_machine lsm_CreateNetwork (disable_timeout w) of
        (result, w) \<Rightarrow>
          if result \<noteq> StateTransitionResult.Success then (MAKERESULT 0x10 1, w)
          else case with_client e (\<lambda>c. ryu_send_create_access_point_private c
                      (create_private_request data addressList (ic_game_version (lw_self w)))) w of
            (send_result, w) \<Rightarrow>
              if send_result \<noteq> ClientOpResult.Success then (MAKERESULT 0x10 3, snd (on_machine lsm_DestroyNetwork w))
              else case WaitForResponse PacketId.Connected 8000 script w of
                     (ok, w) \<Rightarrow>
                       if \<not> ok then (MAKERESULT 0x10 5, snd (on_machine lsm_DestroyNetwork w))
                       else (R_SUCCESS, signal_state (SetLdnState AccessPointCreated w)))"

definition connect_private_request :: "ConnectPrivateData \<Rightarrow> ConnectPrivateRequest" where
  "connect_private_request data =
     \<lparr>cpr_security_config = copy_security (cpd_securityConfig data), cpr_security_parameter = cpd_securityParameter data,
      cpr_user_config = copy_user (cpd_userConfig data), cpr_local_communication_version = cpd_localCommunicationVersion data,
      cpr_option_unknown = cpd_option data,
      cpr_network_config = copy_network (intent_local_communication_id (netc_intent_id (cpd_networkConfig data))) (cpd_networkConfig data)\<rparr>"

definition ic_ConnectPrivate ::
  "ldn_env \<Rightarrow> wait_step list \<Rightarrow> wait_step list \<Rightarrow> ConnectPrivateData \<Rightarrow> ldn_world \<Rightarrow> Result \<times> ldn_world" where
  "ic_ConnectPrivate e script script2 data w =
     (if \<not> IsServerConnected w then (MAKERESULT 0x10 2, w)
      else case on_machine lsm_Connect w of
        (result, w) \<Rightarrow>
          if result \<noteq> StateTransitionResult.Success then (MAKERESULT 0x10 1, w)
          else case connect_attempts e (\<lambda>c. ryu_send_connect_private c (connect_private_request data)) script script2 w of
                 (Some True, w) \<Rightarrow> (R_SUCCESS, signal_state (SetLdnState StationConnected w))
               | (None, w) \<Rightarrow> (MAKERESULT 0x10 3, leave_network w)
               | (Some False, w) \<Rightarrow> (MAKERESULT 0x10 5, leave_network w))"

subsection \<open>Other commands\<close>

definition ConsumeNetworkError :: "ldn_world \<Rightarrow> NetworkErrorCode \<times> ldn_world" where
  "ConsumeNetworkError w = (ic_last_network_error (lw_self w), on_self (\<lambda>s. s\<lparr>ic_last_network_error := error_None\<rparr>) w)"

definition ic_Reject :: "ldn_env \<Rightarrow> ldn_wait \<Rightarrow> u32 \<Rightarrow> ldn_world \<Rightarrow> Result \<times> ldn_world" where
  "ic_Reject e wt nodeId w =
     (if \<not> ic_network_connected (lw_self w) then (MAKERESULT 0x10 2, w)
      else case with_client e (\<lambda>c. ryu_send_reject c nodeId reason_Rejected)
                  (on_self (\<lambda>s. s\<lparr>ic_reject_event := False, ic_error_event := False\<rparr>) w) of
        (send_result, w) \<Rightarrow>
          if send_result \<noteq> ClientOpResult.Success then (MAKERESULT 0x10 3, w)
          else case wait_any ic_reject_event (\<lambda>s. s\<lparr>ic_reject_event := False\<rparr>) (wt_error_first wt) (wt_others wt) w of
                 (First, w) \<Rightarrow>
                   (case ConsumeNetworkError w of (code, w) \<Rightarrow> (if code \<noteq> error_None then MAKERESULT 0x10 4 else R_SUCCESS, w))
               | (_, w) \<Rightarrow> (MAKERESULT 0x10 2, w))"

definition SetGameVersion :: "byte list option \<Rightarrow> ldn_world \<Rightarrow> ldn_world" where
  "SetGameVersion version =
     on_self (\<lambda>s. s\<lparr>ic_game_version := (case version of Some v \<Rightarrow> take 16 v | None \<Rightarrow> replicate 16 0)\<rparr>)"

text \<open>Three commands do nothing: \<^verbatim>\<open>SetWirelessControllerRestriction\<close>, \<^verbatim>\<open>AddAcceptFilterEntry\<close>, \<^verbatim>\<open>ClearAcceptFilter\<close>.\<close>

definition ic_accept_only :: "ldn_world \<Rightarrow> Result \<times> ldn_world" where "ic_accept_only w = (R_SUCCESS, w)"

subsection \<open>The receive thread\<close>

definition OnInactivityTimeout :: "ldn_env \<Rightarrow> ldn_world \<Rightarrow> ldn_world locked" where
  "OnInactivityTimeout e w =
     (if lw_active w \<and> \<not> ic_network_connected (lw_self w) then DisconnectFromServer e w else Done w)"

definition loss_seen :: "ConnectionState \<Rightarrow> ConnectionState \<Rightarrow> bool" where
  "loss_seen prev_tcp_state state \<longleftrightarrow> prev_tcp_state = ConnectionState.Ready \<and>
     (state = ConnectionState.Backoff \<or> state = ConnectionState.Disconnected \<or> state = ConnectionState.Retrying)"

definition report_loss :: "ldn_world \<Rightarrow> ldn_world" where
  "report_loss w =
     (if ldn_state w = StationConnected \<or> ldn_state w = AccessPointCreated
      then let was = ldn_state w;
               w = on_self (\<lambda>s. s\<lparr>ic_server_connected := False, ic_error_event := True, ic_last_network_error := error_None,
                     ic_disconnect_reason := reason_SignalLost, ic_network_connected := False\<rparr>) w;
               w = snd (on_machine (if was = StationConnected then lsm_Disconnect else lsm_DestroyNetwork) w)
           in SetLdnState (ldn_state w) w
      else w)"

text \<open>One turn of the loop with the state seen in the turn before; the inactivity timer runs its callback in this thread.\<close>

definition receive_turn :: "ldn_env \<Rightarrow> ConnectionState \<Rightarrow> ldn_world \<Rightarrow> (ConnectionState \<times> ldn_world) locked" where
  "receive_turn e prev_tcp_state w =
     (let state = rc_state (ic_server_client (lw_self w));
          w = (if loss_seen prev_tcp_state state then report_loss w else w)
      in if state \<noteq> ConnectionState.Connected \<and> state \<noteq> ConnectionState.Handshaking \<and> state \<noteq> ConnectionState.Ready then Done (state, w)
         else
           let w = snd (with_client e (\<lambda>c. ((), update c (le_now e))) w)
           in case nt_CheckTimeout (ic_inactivity_timeout (lw_self w)) (le_now e) of
                (fired, t) \<Rightarrow>
                  let w = on_self (\<lambda>s. s\<lparr>ic_inactivity_timeout := t\<rparr>) w
                  in bind_locked (if fired then OnInactivityTimeout e w else Done w) (\<lambda>w. Done (state, w)))"

text \<open>A script of the turns, each with what other threads do before it; the thread ends when it is told to.\<close>

fun ReceiveThreadFunc :: "(ldn_env \<times> (ldn_world \<Rightarrow> ldn_world)) list \<Rightarrow> ConnectionState \<Rightarrow> ldn_world \<Rightarrow> ldn_world locked" where
  "ReceiveThreadFunc [] prev w = Done w"
| "ReceiveThreadFunc ((e, others) # script) prev w =
     (let w = others w
      in if \<not> ic_recv_thread_running (lw_self w) then Done w
         else bind_locked (receive_turn e prev w) (\<lambda>(prev, w). ReceiveThreadFunc script prev w))"

end
