(* ===== verification/Ldn_Properties.thy ===== *)
theory Ldn_Properties
  imports Ldn_Commands
begin

text \<open>
  What the service promises and where it breaks: the published state, scans, created networks, a lost connection, and instances.
\<close>

subsection \<open>Views of the world\<close>

text \<open>
  The contract of a view of the world that does not depend on the socket manager, the session client and the proxies: what routes game data
  and hands over the messages of the proxies' threads keeps every such view.
\<close>

locale world_view =
  fixes view :: "ldn_world \<Rightarrow> 'v"
  assumes manager: "view (on_manager g w) = view w"
    and session_client: "view (on_self (\<lambda>s. s\<lparr>ic_server_client := c s\<rparr>) w) = view w"
    and proxy_server: "view (on_self (\<lambda>s. s\<lparr>ic_p2p_server := ps\<rparr>) w) = view w"
    and proxy_client: "view (on_self (\<lambda>s. s\<lparr>ic_p2p_client := pc\<rparr>) w) = view w"
begin

lemma over_foldl: "(\<And>w x. view (f w x) = view w) \<Longrightarrow> view (foldl f w xs) = view w"
  by (induction xs arbitrary: w) simp_all

lemma route: "view (route_data e i p n w) = view w"
  by (simp add: route_data_def manager)

lemma proxy_data: "view (HandleProxyDataPacket e d w) = view w"
  by (simp add: HandleProxyDataPacket_def Let_def route)

lemma master: "view (send_master w d) = view w"
  by (simp add: send_master_def session_client)

lemma hand_over_server: "view (flush_p2p e p w) = view w"
  by (simp add: flush_p2p_def over_foldl master route proxy_server HostP2pInboundDataCallback_def)

lemma hand_over_client: "view (flush_client e c w) = view w"
  by (simp add: flush_client_def over_foldl proxy_data proxy_client p2p_packet_callback_def split: prod.split)

end

subsection \<open>The two states\<close>

text \<open>The state of the state machine and the one the rest of the module reads.\<close>

definition states :: "ldn_world \<Rightarrow> CommState \<times> CommState" where
  "states w = (ldn_state w, ss_ldn_state (lw_shared w))"

definition keeps_states :: "(ldn_world \<Rightarrow> ldn_world) \<Rightarrow> bool" where
  "keeps_states f \<longleftrightarrow> (\<forall>w. states (f w) = states w)"

lemma on_self_simps [simp]:
  "lw_self (on_self f w) = f (lw_self w)" "lw_shared (on_self f w) = lw_shared w" "lw_bsd (on_self f w) = lw_bsd w"
  "lw_active (on_self f w) = lw_active w" "lw_config (on_self f w) = lw_config w" "lw_mapper (on_self f w) = lw_mapper w"
  "lw_self (on_manager g w) = lw_self w" "lw_shared (on_manager g w) = lw_shared w" "lw_active (on_manager g w) = lw_active w"
  "lw_self (on_shared h w) = lw_self w" "lw_shared (on_shared h w) = h (lw_shared w)" "lw_bsd (on_shared h w) = lw_bsd w"
  "lw_active (on_shared h w) = lw_active w"
  by (simp_all add: on_self_def on_manager_def on_shared_def)

lemma states_on_self [simp]:
  "(\<And>s. lsm_state (ic_state_machine (f s)) = lsm_state (ic_state_machine s)) \<Longrightarrow> states (on_self f w) = states w"
  by (simp add: states_def ldn_state_def)

lemma states_frames [simp]:
  "states (on_manager g w) = states w" "states (signal_state w) = states w"
  "states (on_shared (\<lambda>s. ss_SetSessionInfo s a b c d) w) = states w"
  "states (w\<lparr>lw_active := x\<rparr>) = states w" "states (w\<lparr>lw_bsd := b'\<rparr>) = states w"
  "states (w\<lparr>lw_config := cf, lw_saved := sv\<rparr>) = states w"
  "states (w\<lparr>lw_mapper := mp\<rparr>) = states w"
  "states (w\<lparr>lw_p2p_stacks := st, lw_fault := ft\<rparr>) = states w"
  "states (w\<lparr>lw_stacks := st\<rparr>) = states w" "states (w\<lparr>lw_current := x\<rparr>) = states w"
  by (simp_all add: states_def ldn_state_def signal_state_def lsm_SignalStateChange_def ss_SetSessionInfo_def)

interpretation both_states: world_view states
  by unfold_locales simp_all

lemmas states_foldl = both_states.over_foldl

lemmas states_handed [simp] = both_states.route both_states.proxy_data both_states.master both_states.hand_over_server both_states.hand_over_client

lemma states_disable [simp]: "states (disable_p2p e w) = states w"
  by (simp add: disable_p2p_def Let_def)

lemma states_connected [simp]: "states (HandleConnectedPacket d w) = states w"
  by (simp add: HandleConnectedPacket_def Let_def)

lemma states_sync [simp]: "states (HandleSyncNetworkPacket d w) = states w"
  by (simp add: HandleSyncNetworkPacket_def Let_def)

lemma states_packets [simp]:
  "states (HandleScanReplyPacket d w) = states w" "states (HandleNetworkErrorPacket e d w) = states w"
  "states (HandleExternalProxyToken tk w) = states w" "states (HandleExternalProxyPacket e d w) = states w"
  by (simp_all add: HandleScanReplyPacket_def HandleNetworkErrorPacket_def HandleExternalProxyToken_def HandleExternalProxyPacket_def Let_def
      split: option.split)

lemma states_dispatch [simp]: "states (dispatch_packet e ty d w) = states w"
  by (cases ty) (simp_all add: dispatch_packet_def Let_def split: option.split)

lemma states_HandleServerPacket [simp]: "states (HandleServerPacket e ty d w) = states w"
  by (simp add: HandleServerPacket_def Let_def)

lemma states_callback [simp]: "states (client_callback e w v) = states w"
  by (cases v) simp_all

lemma states_with_client [simp]: "states (snd (with_client e f w)) = states w"
  by (simp add: with_client_def states_foldl split: prod.split)

lemma with_client_states: "with_client e f w = (r, w') \<Longrightarrow> states w' = states w"
  using states_with_client [of e f w] by simp

lemma states_disconnect_client [simp]: "states (disconnect_client e w) = states w"
  by (simp add: disconnect_client_def)

lemma states_stop: "StopP2pProxyServer e w = Done w' \<Longrightarrow> states w' = states w"
  by (auto simp: StopP2pProxyServer_def Let_def split: option.splits)

lemma states_set_p2p [simp]: "states (set_p2p_server p w) = states w"
  by (simp add: set_p2p_server_def)

lemma bind_locked_Done: "bind_locked m f = Done y \<longleftrightarrow> (\<exists>x. m = Done x \<and> f x = Done y)"
  by (cases m) simp_all

lemma states_start: "StartP2pProxyServer e w = Done (b, w') \<Longrightarrow> states w' = states w"
  by (auto simp: StartP2pProxyServer_def bind_locked_Done dest!: states_stop split: if_splits option.splits prod.splits bool.splits)

text \<open>The environments in which the other threads that a command waits for keep both states.\<close>

definition calm :: "ldn_env \<Rightarrow> bool" where
  "calm e \<longleftrightarrow> keeps_states (le_connect_end e) \<and> keeps_states (le_recv_end e)"

lemma calmD: "calm e \<Longrightarrow> states (le_connect_end e w) = states w" "calm e \<Longrightarrow> states (le_recv_end e w) = states w"
  by (simp_all add: calm_def keeps_states_def)

lemma states_DisconnectP2p [simp]: "calm e \<Longrightarrow> states (DisconnectP2pProxy e t w) = states w"
  by (auto simp: DisconnectP2pProxy_def Let_def calmD split: option.split)

lemma states_p2p_thread [simp]: "calm e \<Longrightarrow> states (P2pConnectThreadEntry e w) = states w"
  by (simp add: P2pConnectThreadEntry_def HandleExternalProxyConnect_def Let_def split: prod.split)

lemma states_send_as_host: "send_as_host e h d w = (b, h', w') \<Longrightarrow> states w' = states w"
  by (auto simp: send_as_host_def split: option.splits prod.splits if_splits)

lemma states_send_as_client: "send_as_client e h d w = (b, w') \<Longrightarrow> states w' = states w"
  by (auto simp: send_as_client_def split: option.splits prod.splits if_splits)

lemma states_SendProxyData: "states (snd (SendProxyDataToServer e h d w)) = states w"
  by (auto simp: SendProxyDataToServer_def split: prod.split bool.split dest!: states_send_as_host states_send_as_client)

lemma states_wait_any: "keeps_states f \<Longrightarrow> (\<And>s. ic_state_machine (g s) = ic_state_machine s) \<Longrightarrow> states (snd (wait_any ev g ef f w)) = states w"
  by (simp add: wait_any_def Let_def keeps_states_def)

lemma states_wait_loop: "list_all (\<lambda>t. keeps_states (ws_others t)) ts \<Longrightarrow> states (snd (wait_loop x n ts w)) = states w"
proof (induction ts arbitrary: w)
  case (Cons t ts)
  define p where "p = wait_any ic_response_event (\<lambda>s. s\<lparr>ic_response_event := False\<rparr>) (ws_error_first t) (ws_others t) w"
  have "states (snd p) = states w" unfolding p_def by (rule states_wait_any) (use Cons.prems in simp_all)
  then show ?case
    using Cons by (cases p) (simp add: p_def [symmetric] Let_def split: signaled.split)
qed simp

lemma states_WaitForResponse:
  "list_all (\<lambda>t. keeps_states (ws_others t)) ts \<Longrightarrow> states (snd (WaitForResponse x n ts w)) = states w"
proof -
  assume ts: "list_all (\<lambda>t. keeps_states (ws_others t)) ts"
  define v where "v = on_self (\<lambda>s. s\<lparr>ic_response_event := False, ic_error_event := False\<rparr>) w"
  have "states v = states w" by (simp add: v_def)
  then show ?thesis
    using states_wait_loop [OF ts, of x "int n * 1000000" v]
    by (auto simp: WaitForResponse_def v_def [symmetric] split: prod.split)
qed

lemma states_ConnectToServer: "keeps_states (wt_others wt) \<Longrightarrow> states (snd (ConnectToServer e wt w)) = states w"
proof -
  assume wt: "keeps_states (wt_others wt)"
  have wa: "states (snd (wait_any ic_handshake_event (\<lambda>s. s\<lparr>ic_handshake_event := False\<rparr>) (wt_error_first wt) (wt_others wt) w')) = states w'" for w'
    by (rule states_wait_any [OF wt]) simp
  show ?thesis
    by (auto simp: ConnectToServer_def Let_def split: prod.split dest!: with_client_states arg_cong [where f = "\<lambda>x. states (snd x)"] simp: wa)
qed

lemma states_reset_sockets: "reset_sockets w = Done w' \<Longrightarrow> states w' = states w"
  by (auto simp: reset_sockets_def bind_locked_Done Let_def)

lemma states_drop [simp]: "states (drop_connection e w) = states w"
  by (simp add: drop_connection_def)

lemma states_DisconnectFromServer: "calm e \<Longrightarrow> DisconnectFromServer e w = Done w' \<Longrightarrow> states w' = states w"
  by (auto simp: DisconnectFromServer_def bind_locked_Done clear_events_def dest!: states_stop states_reset_sockets)

lemma states_on_machine: "states (snd (on_machine f w)) = (lsm_state (snd (f (ic_state_machine (lw_self w)))), snd (states w))"
  by (simp add: on_machine_def states_def ldn_state_def split: prod.split)

lemma on_machine_result: "fst (on_machine f w) = fst (f (ic_state_machine (lw_self w)))"
  by (simp add: on_machine_def split: prod.split)

lemma lsm_next [simp]:
  "lsm_state (snd (lsm_Finalize m)) = CommNone"
  "lsm_state (snd (lsm_OpenAccessPoint m)) = (if lsm_state m = Initialized then AccessPoint else lsm_state m)"
  "lsm_state (snd (lsm_CloseAccessPoint m)) = (if lsm_state m \<in> {AccessPoint, AccessPointCreated} then Initialized else lsm_state m)"
  "lsm_state (snd (lsm_CreateNetwork m)) = (if lsm_state m = AccessPoint then AccessPointCreated else lsm_state m)"
  "lsm_state (snd (lsm_DestroyNetwork m)) = (if lsm_state m = AccessPointCreated then AccessPoint else lsm_state m)"
  "lsm_state (snd (lsm_OpenStation m)) = (if lsm_state m = Initialized then Station else lsm_state m)"
  "lsm_state (snd (lsm_CloseStation m)) = (if lsm_state m \<in> {Station, StationConnected} then Initialized else lsm_state m)"
  "lsm_state (snd (lsm_Connect m)) = (if lsm_state m = Station then StationConnected else lsm_state m)"
  "lsm_state (snd (lsm_Disconnect m)) = (if lsm_state m = StationConnected then Station else lsm_state m)"
  "lsm_state (snd (lsm_Initialize m)) = (if lsm_state m = CommNone then Initialized else lsm_state m)"
  by (simp_all add: lsm_Finalize_def lsm_OpenAccessPoint_def lsm_CloseAccessPoint_def lsm_CreateNetwork_def lsm_DestroyNetwork_def
      lsm_OpenStation_def lsm_CloseStation_def lsm_Connect_def lsm_Disconnect_def lsm_Initialize_def lsm_enter_def lsm_SignalStateChange_def Let_def)

lemma lsm_ok [simp]:
  "fst (lsm_OpenAccessPoint m) = StateTransitionResult.Success \<longleftrightarrow> lsm_state m = Initialized"
  "fst (lsm_CloseAccessPoint m) = StateTransitionResult.Success \<longleftrightarrow> lsm_state m \<in> {AccessPoint, AccessPointCreated}"
  "fst (lsm_CreateNetwork m) = StateTransitionResult.Success \<longleftrightarrow> lsm_state m = AccessPoint"
  "fst (lsm_DestroyNetwork m) = StateTransitionResult.Success \<longleftrightarrow> lsm_state m = AccessPointCreated"
  "fst (lsm_OpenStation m) = StateTransitionResult.Success \<longleftrightarrow> lsm_state m = Initialized"
  "fst (lsm_CloseStation m) = StateTransitionResult.Success \<longleftrightarrow> lsm_state m \<in> {Station, StationConnected}"
  "fst (lsm_Connect m) = StateTransitionResult.Success \<longleftrightarrow> lsm_state m = Station"
  "fst (lsm_Disconnect m) = StateTransitionResult.Success \<longleftrightarrow> lsm_state m = StationConnected"
  "fst (lsm_Initialize m) = StateTransitionResult.Success \<longleftrightarrow> lsm_state m = CommNone"
  by (auto simp: lsm_OpenAccessPoint_def lsm_CloseAccessPoint_def lsm_CreateNetwork_def lsm_DestroyNetwork_def
      lsm_OpenStation_def lsm_CloseStation_def lsm_Connect_def lsm_Disconnect_def lsm_Initialize_def)

text \<open>The outcome of a transition: refused, with both states as they were, or made.\<close>

lemma on_machine_cases:
  assumes "on_machine f w = (r, w')" "\<And>m. fst (f m) = StateTransitionResult.Success \<longleftrightarrow> P (lsm_state m)"
    "\<And>m. lsm_state (snd (f m)) = (if P (lsm_state m) then t else lsm_state m)"
  shows "if r = StateTransitionResult.Success then P (fst (states w)) \<and> states w' = (t, snd (states w)) else states w' = states w"
proof -
  have "states w' = (lsm_state (snd (f (ic_state_machine (lw_self w)))), snd (states w))" "r = fst (f (ic_state_machine (lw_self w)))"
    using states_on_machine [of f w] on_machine_result [of f w] assms(1) by simp_all
  moreover have "lsm_state (ic_state_machine (lw_self w)) = fst (states w)" by (simp add: states_def ldn_state_def)
  ultimately show ?thesis using assms(2,3) by simp
qed

lemma states_SetLdnState [simp]: "states (SetLdnState s w) = (fst (states w), s)"
  by (simp add: states_def ldn_state_def SetLdnState_def ss_SetLdnState_def)

lemma states_timers [simp]: "states (refresh_timeout e w) = states w" "states (disable_timeout w) = states w"
  by (simp_all add: refresh_timeout_def disable_timeout_def)

lemma states_predict [simp]: "states (predict_address w) = states w"
  by (simp add: predict_address_def)

lemma states_game_over [simp]: "states (on_shared (\<lambda>s. ss_SetLdnPid (ss_SetGameActive s False 0) 0) w) = (fst (states w), CommNone)"
  by (simp add: states_def ldn_state_def ss_SetLdnPid_def ss_SetGameActive_def)

lemma states_CleanupSessionResources:
  "calm e \<Longrightarrow> CleanupSessionResources e w = Done w' \<Longrightarrow> states w' = (fst (states w), CommNone)"
  by (auto simp: CleanupSessionResources_def bind_locked_Done clear_events_def dest!: states_stop states_reset_sockets)

subsection \<open>The published state follows the state machine\<close>

definition published :: "ldn_world \<Rightarrow> bool" where
  "published w \<longleftrightarrow> ss_ldn_state (lw_shared w) = ldn_state w"

lemma published_states: "published w \<longleftrightarrow> snd (states w) = fst (states w)"
  by (simp add: published_def states_def)

lemma same_states: "published w \<Longrightarrow> states w' = states w \<Longrightarrow> published w'"
  by (simp add: published_states)

lemma published_Initialize: "published w \<Longrightarrow> published (snd (ic_Initialize e pid w))"
proof -
  assume p: "published w"
  define v where "v = on_self (\<lambda>s. s\<lparr>ic_client_process_id := pid\<rparr>) w"
  obtain r u where u: "on_machine lsm_Initialize v = (r, u)" by fastforce
  have "states v = states w" by (simp add: v_def)
  then have "r \<noteq> StateTransitionResult.Success \<Longrightarrow> states u = states w"
    using on_machine_cases [OF u, of "\<lambda>s. s = CommNone" Initialized] by (auto split: if_splits)
  then show ?thesis
    using p by (auto simp: ic_Initialize_def v_def [symmetric] u Let_def published_def ldn_state_def SetLdnState_def ss_SetLdnState_def
        ss_SetLdnPid_def states_def)
qed

lemma states_finalize_machine [simp]: "states (finalize_machine w) = (CommNone, snd (states w))"
  by (simp add: finalize_machine_def states_on_machine)

lemma published_Finalize: "calm e \<Longrightarrow> ic_Finalize e w = Done (r, w') \<Longrightarrow> published w'"
  by (auto simp: ic_Finalize_def bind_locked_Done published_states dest!: states_CleanupSessionResources)

lemma states_Scan: "keeps_states (wt_others wt) \<Longrightarrow> states (snd (snd (ic_Scan e wt n ch flt w))) = states w"
proof -
  assume wt: "keeps_states (wt_others wt)"
  have wa: "states (snd (wait_any ic_scan_event (\<lambda>s. s\<lparr>ic_scan_event := False\<rparr>) (wt_error_first wt) (wt_others wt) w')) = states w'" for w'
    by (rule states_wait_any [OF wt]) simp
  show ?thesis
    by (auto simp: ic_Scan_def Let_def wa split: prod.split signaled.split
        dest!: with_client_states arg_cong [where f = "\<lambda>x. states (snd x)"])
qed

lemma published_OpenAccessPoint:
  assumes "published w" "keeps_states (wt_others wt)"
  shows "published (snd (ic_OpenAccessPoint e wt w))"
proof -
  obtain r u where u: "on_machine lsm_OpenAccessPoint w = (r, u)" by fastforce
  obtain rc v where v: "ConnectToServer e wt u = (rc, v)" by fastforce
  have "states v = states u" using states_ConnectToServer [OF assms(2), of e u] v by simp
  with on_machine_cases [OF u, of "\<lambda>s. s = Initialized" AccessPoint] assms(1) show ?thesis
    by (auto simp: ic_OpenAccessPoint_def u v published_states states_on_machine split: if_splits)
       (auto simp: states_def ldn_state_def)
qed

lemma published_OpenStation:
  assumes "published w" "keeps_states (wt_others wt)"
  shows "published (snd (ic_OpenStation e wt w))"
proof -
  obtain r u where u: "on_machine lsm_OpenStation w = (r, u)" by fastforce
  obtain rc v where v: "ConnectToServer e wt u = (rc, v)" by fastforce
  have "states v = states u" using states_ConnectToServer [OF assms(2), of e u] v by simp
  with on_machine_cases [OF u, of "\<lambda>s. s = Initialized" Station] assms(1) show ?thesis
    by (auto simp: ic_OpenStation_def u v published_states states_on_machine split: if_splits)
       (auto simp: states_def ldn_state_def)
qed

lemma published_CloseAccessPoint:
  assumes "published w" "calm e" "ic_CloseAccessPoint e w = Done (rc, w')"
  shows "published w'"
proof -
  obtain v x where v: "StopP2pProxyServer e w = Done v" "DisconnectFromServer e v = Done x"
    using assms(3) by (auto simp: ic_CloseAccessPoint_def bind_locked_Done)
  obtain r u where u: "on_machine lsm_CloseAccessPoint x = (r, u)" by fastforce
  have w': "w' = (if r \<noteq> StateTransitionResult.Success then u
      else SetLdnState Initialized (on_self (\<lambda>s. s\<lparr>ic_network_info := zero_info, ic_network_connected := False\<rparr>) u))"
    using assms(3) by (auto simp: ic_CloseAccessPoint_def v u split: if_splits)
  have "states x = states w" using states_stop [OF v(1)] states_DisconnectFromServer [OF assms(2) v(2)] by simp
  with on_machine_cases [OF u, of "\<lambda>s. s \<in> {AccessPoint, AccessPointCreated}" Initialized] assms(1) show ?thesis
    by (auto simp: w' published_states split: if_splits)
qed

lemma states_offer_proxy:
  assumes "offer_proxy e w = Done (ryu, w')"
  shows "states w' = states w"
proof -
  obtain b x where x: "(if ic_use_p2p_proxy (lw_self w) then StartP2pProxyServer e w else Done (False, w)) = Done (b, x)"
    using assms by (auto simp: offer_proxy_def bind_locked_Done)
  then have "states x = states w" by (auto split: if_splits dest: states_start)
  moreover have "states w' = states x"
  proof (cases b)
    case False
    then show ?thesis using assms by (simp add: offer_proxy_def x)
  next
    case True
    then show ?thesis
      using assms by (cases "ic_p2p_server (lw_self x)") (auto simp: offer_proxy_def x Let_def split: prod.splits)
  qed
  ultimately show ?thesis by simp
qed

lemma states_undo_create: "undo_create e rc w = Done (rc', w') \<Longrightarrow>
    states w' = (if fst (states w) = AccessPointCreated then AccessPoint else fst (states w), snd (states w))"
  by (auto simp: undo_create_def bind_locked_Done states_on_machine dest!: states_stop) (auto simp: states_def ldn_state_def)

lemma states_network_created: "network_created e w = Done (rc', w') \<Longrightarrow> states w' = (fst (states w), AccessPointCreated)"
  by (auto simp: network_created_def bind_locked_Done split: if_splits dest!: states_stop)

lemma states_send_create: "send_create e rq w = (r, w') \<Longrightarrow> states w' = states w"
  by (auto simp: send_create_def Let_def dest!: with_client_states)

lemma published_CreateNetwork:
  assumes "published w" "list_all (\<lambda>t. keeps_states (ws_others t)) script" "ic_CreateNetwork e script data w = Done (rc, w')"
  shows "published w'"
proof -
  obtain r u where u: "on_machine lsm_CreateNetwork (disable_timeout w) = (r, u)" by fastforce
  note step = on_machine_cases [OF u, of "\<lambda>s. s = AccessPoint" AccessPointCreated, simplified]
  show ?thesis
  proof (cases "IsServerConnected w \<and> r = StateTransitionResult.Success")
    case False
    then show ?thesis
      using assms(1,3) step by (auto simp: ic_CreateNetwork_def u Let_def published_states split: if_splits)
  next
    case True
    then obtain ryu v where v1: "offer_proxy e u = Done (ryu, v)"
      using assms(3) by (auto simp: ic_CreateNetwork_def u Let_def bind_locked_Done)
    obtain sr x where v2: "send_create e (create_request data
          (effective_id w (intent_local_communication_id (netc_intent_id (cnc_networkConfig data)))) ryu) v = (sr, x)" by fastforce
    obtain ok y where v3: "WaitForResponse PacketId.Connected 8000 script x = (ok, y)" by fastforce
    note v = v1 v2 v3
    have xy: "states x = states u" "states y = states u"
      using v3 states_offer_proxy [OF v(1)] states_send_create [OF v(2)] states_WaitForResponse [OF assms(2), of PacketId.Connected 8000 x] by auto
    have "undo_create e (MAKERESULT 0x10 3) x = Done (rc, w') \<or> undo_create e (MAKERESULT 0x10 5) y = Done (rc, w') \<or>
        network_created e y = Done (rc, w')"
      using assms(3) True by (auto simp: ic_CreateNetwork_def u Let_def v split: if_splits)
    then show ?thesis
      using xy step True assms(1) by (auto simp: published_states dest!: states_undo_create states_network_created)
  qed
qed

lemma published_DestroyNetwork:
  assumes "published w" "ic_DestroyNetwork e w = Done (rc, w')"
  shows "published w'"
proof -
  obtain v where v1: "StopP2pProxyServer e w = Done v"
    using assms(2) by (auto simp: ic_DestroyNetwork_def bind_locked_Done)
  obtain r u where v2: "on_machine lsm_DestroyNetwork v = (r, u)" by fastforce
  note v = v1 v2
  have w': "w' = (if r \<noteq> StateTransitionResult.Success then u
      else SetLdnState AccessPoint (refresh_timeout e (on_self (\<lambda>s. s\<lparr>ic_network_info := zero_info, ic_network_connected := False\<rparr>) u)))"
    using assms(2) by (auto simp: ic_DestroyNetwork_def v split: if_splits)
  with on_machine_cases [OF v(2), of "\<lambda>s. s = AccessPointCreated" AccessPoint] assms(1) states_stop [OF v(1)] show ?thesis
    by (auto simp: w' published_states split: if_splits)
qed

lemma published_CloseStation: "published w \<Longrightarrow> published (snd (ic_CloseStation w))"
proof -
  assume p: "published w"
  obtain r u where u: "on_machine lsm_CloseStation w = (r, u)" by fastforce
  with on_machine_cases [OF u, of "\<lambda>s. s \<in> {Station, StationConnected}" Initialized] p show ?thesis
    by (auto simp: ic_CloseStation_def published_states split: if_splits)
qed

lemma states_connect_attempts:
  assumes "list_all (\<lambda>t. keeps_states (ws_others t)) ts" "list_all (\<lambda>t. keeps_states (ws_others t)) us"
  shows "states (snd (connect_attempts e send ts us w)) = states w"
proof -
  note wait = states_WaitForResponse [OF assms(1), of PacketId.Connected 8000]
  have wait1: "WaitForResponse PacketId.Connected 8000 ts x = (ok, y) \<Longrightarrow> states y = states x" for x ok y
    using wait [of x] by simp
  show ?thesis
    by (auto simp: connect_attempts_def states_WaitForResponse [OF assms(2)] split: prod.split dest!: with_client_states wait1)
qed

lemma states_leave: "states (leave_network w) = (if fst (states w) = StationConnected then Station else fst (states w), snd (states w))"
  by (auto simp: leave_network_def states_on_machine) (auto simp: states_def ldn_state_def)

lemma published_Connect:
  assumes "published w" "list_all (\<lambda>t. keeps_states (ws_others t)) ts" "list_all (\<lambda>t. keeps_states (ws_others t)) us"
  shows "published (snd (ic_Connect e ts us dat data w))"
proof -
  obtain r u where u: "on_machine lsm_Connect w = (r, u)" by fastforce
  define p where "p = connect_attempts e (\<lambda>c. ryu_send_connect c (connect_request dat
      (effective_id w (intent_local_communication_id (nwid_intent_id (nwi_network_id data)))) data)) ts us u"
  have "states (snd p) = states u" by (simp add: p_def states_connect_attempts [OF assms(2,3)])
  with on_machine_cases [OF u, of "\<lambda>s. s = Station" StationConnected] assms(1) show ?thesis
    by (cases p) (auto simp: ic_Connect_def u Let_def p_def [symmetric] published_states states_leave split: if_splits option.split bool.split)
qed

lemma published_ConnectPrivate:
  assumes "published w" "list_all (\<lambda>t. keeps_states (ws_others t)) ts" "list_all (\<lambda>t. keeps_states (ws_others t)) us"
  shows "published (snd (ic_ConnectPrivate e ts us data w))"
proof -
  obtain r u where u: "on_machine lsm_Connect w = (r, u)" by fastforce
  define p where "p = connect_attempts e (\<lambda>c. ryu_send_connect_private c (connect_private_request data)) ts us u"
  have "states (snd p) = states u" by (simp add: p_def states_connect_attempts [OF assms(2,3)])
  with on_machine_cases [OF u, of "\<lambda>s. s = Station" StationConnected] assms(1) show ?thesis
    by (cases p) (auto simp: ic_ConnectPrivate_def u Let_def p_def [symmetric] published_states states_leave split: if_splits option.split bool.split)
qed

lemma published_Disconnect:
  assumes "published w" "calm e"
  shows "published (snd (ic_Disconnect e w))"
proof -
  obtain r u where u: "on_machine lsm_Disconnect (DisconnectP2pProxy e False w) = (r, u)" by fastforce
  with on_machine_cases [OF u, of "\<lambda>s. s = StationConnected" Station] assms show ?thesis
    by (auto simp: ic_Disconnect_def u Let_def published_states split: if_splits)
qed

lemma published_CreateNetworkPrivate:
  assumes "published w" "list_all (\<lambda>t. keeps_states (ws_others t)) script"
  shows "published (snd (ic_CreateNetworkPrivate e script data addrs w))"
proof -
  obtain r u where u: "on_machine lsm_CreateNetwork (disable_timeout w) = (r, u)" by fastforce
  obtain sr x where x: "with_client e (\<lambda>c. ryu_send_create_access_point_private c
      (create_private_request data addrs (ic_game_version (lw_self u)))) u = (sr, x)" by fastforce
  obtain ok y where y: "WaitForResponse PacketId.Connected 8000 script x = (ok, y)" by fastforce
  have "states x = states u" "states y = states u"
    using with_client_states [OF x] states_WaitForResponse [OF assms(2), of PacketId.Connected 8000 x] y by simp_all
  with on_machine_cases [OF u, of "\<lambda>s. s = AccessPoint" AccessPointCreated] assms(1) show ?thesis
    by (auto simp: ic_CreateNetworkPrivate_def u x y published_states states_on_machine split: if_splits)
       (auto simp: states_def ldn_state_def)
qed

lemma states_small_commands:
  "states (snd (ic_SetAdvertiseData e d w)) = states w" "states (snd (ic_SetStationAcceptPolicy e p w)) = states w"
  by (auto simp: ic_SetAdvertiseData_def ic_SetStationAcceptPolicy_def Let_def split: prod.split dest!: with_client_states)

lemma states_Reject: "keeps_states (wt_others wt) \<Longrightarrow> states (snd (ic_Reject e wt n w)) = states w"
proof -
  assume wt: "keeps_states (wt_others wt)"
  have wa: "wait_any ic_reject_event (\<lambda>s. s\<lparr>ic_reject_event := False\<rparr>) (wt_error_first wt) (wt_others wt) x = (r, y) \<Longrightarrow> states y = states x" for x r y
    using states_wait_any [OF wt, of "\<lambda>s. s\<lparr>ic_reject_event := False\<rparr>" ic_reject_event "wt_error_first wt" x] by simp
  show ?thesis
    by (auto simp: ic_Reject_def ConsumeNetworkError_def split: prod.split signaled.split dest!: with_client_states wa)
qed

lemma states_callback_command: "states (snd (SendProxyDataCallback e a b c d p x w)) = states w"
proof -
  have "SendProxyDataToServer e h x w = (r, w') \<Longrightarrow> states w' = states w" for h r w'
    using states_SendProxyData [of e h x w] by simp
  then show ?thesis by (auto simp: SendProxyDataCallback_def Let_def split: prod.split)
qed

lemma states_report_loss:
  "states (report_loss w) =
     (if fst (states w) = StationConnected then (Station, Station)
      else if fst (states w) = AccessPointCreated then (AccessPoint, AccessPoint) else states w)"
proof -
  have ld: "ldn_state x = fst (states x)" for x by (simp add: states_def)
  show ?thesis
    by (auto simp: report_loss_def Let_def ld states_on_machine) (auto simp: states_def ldn_state_def)
qed

lemma published_receive_turn:
  assumes "published w" "calm e" "receive_turn e prev w = Done (st, w')"
  shows "published w'"
proof -
  define w1 where "w1 = (if loss_seen prev (rc_state (ic_server_client (lw_self w))) then report_loss w else w)"
  define w2 where "w2 = snd (with_client e (\<lambda>c. ((), update c (le_now e))) w1)"
  have p: "published w1" using assms(1) by (simp add: w1_def published_states states_report_loss)
  obtain fired t where t: "nt_CheckTimeout (ic_inactivity_timeout (lw_self w2)) (le_now e) = (fired, t)" by fastforce
  define w3 where "w3 = on_self (\<lambda>s. s\<lparr>ic_inactivity_timeout := t\<rparr>) w2"
  have "states w3 = states w1" by (simp add: w2_def w3_def)
  moreover have "w' = w1 \<or> w' = w3 \<or> DisconnectFromServer e w3 = Done w'"
    using assms(3)
    by (auto simp: receive_turn_def w1_def [symmetric] w2_def [symmetric] Let_def t w3_def [symmetric] OnInactivityTimeout_def bind_locked_Done
        split: if_splits)
  ultimately show ?thesis
    using p states_DisconnectFromServer [OF assms(2)] by (metis same_states)
qed

text \<open>The calls of the service: every command of the game, every packet of the server, the sockets' data and the two threads.\<close>

inductive ldn_call :: "ldn_env \<Rightarrow> ldn_world \<Rightarrow> ldn_world \<Rightarrow> bool" for e where
  call_initialize: "ldn_call e w (snd (ic_Initialize e pid w))"
| call_initialize2: "ldn_call e w (snd (ic_InitializeSystem2 e unk pid w))"
| call_finalize: "ic_Finalize e w = Done (rc, w') \<Longrightarrow> ldn_call e w w'"
| call_update: "ldn_call e w (snd (snd (snd (ic_GetNetworkInfoLatestUpdate n w))))"
| call_scan: "keeps_states (wt_others wt) \<Longrightarrow> ldn_call e w (snd (snd (ic_Scan e wt n ch flt w)))"
| call_open_ap: "keeps_states (wt_others wt) \<Longrightarrow> ldn_call e w (snd (ic_OpenAccessPoint e wt w))"
| call_close_ap: "ic_CloseAccessPoint e w = Done (rc, w') \<Longrightarrow> ldn_call e w w'"
| call_create: "list_all (\<lambda>t. keeps_states (ws_others t)) script \<Longrightarrow> ic_CreateNetwork e script data w = Done (rc, w') \<Longrightarrow> ldn_call e w w'"
| call_create_private: "list_all (\<lambda>t. keeps_states (ws_others t)) script \<Longrightarrow> ldn_call e w (snd (ic_CreateNetworkPrivate e script pdata addrs w))"
| call_destroy: "ic_DestroyNetwork e w = Done (rc, w') \<Longrightarrow> ldn_call e w w'"
| call_advertise: "ldn_call e w (snd (ic_SetAdvertiseData e bytes w))"
| call_policy: "ldn_call e w (snd (ic_SetStationAcceptPolicy e policy w))"
| call_open_station: "keeps_states (wt_others wt) \<Longrightarrow> ldn_call e w (snd (ic_OpenStation e wt w))"
| call_close_station: "ldn_call e w (snd (ic_CloseStation w))"
| call_connect: "list_all (\<lambda>t. keeps_states (ws_others t)) ts \<Longrightarrow> list_all (\<lambda>t. keeps_states (ws_others t)) us \<Longrightarrow>
    ldn_call e w (snd (ic_Connect e ts us dat info w))"
| call_connect_private: "list_all (\<lambda>t. keeps_states (ws_others t)) ts \<Longrightarrow> list_all (\<lambda>t. keeps_states (ws_others t)) us \<Longrightarrow>
    ldn_call e w (snd (ic_ConnectPrivate e ts us cdata w))"
| call_disconnect: "ldn_call e w (snd (ic_Disconnect e w))"
| call_reject: "keeps_states (wt_others wt) \<Longrightarrow> ldn_call e w (snd (ic_Reject e wt node w))"
| call_packet: "ldn_call e w (HandleServerPacket e ty bytes w)"
| call_send: "ldn_call e w (snd (SendProxyDataCallback e sip sport dip dport protocol bytes w))"
| call_p2p_thread: "ldn_call e w (P2pConnectThreadEntry e w)"
| call_turn: "receive_turn e prev w = Done (st, w') \<Longrightarrow> ldn_call e w w'"

lemma ldn_call_published: "ldn_call e w w' \<Longrightarrow> calm e \<Longrightarrow> published w \<Longrightarrow> published w'"
proof (induction rule: ldn_call.induct)
  case (call_initialize2 w unk pid)
  have "published (on_self (\<lambda>s. s\<lparr>ic_error_state := unk\<rparr>) w)" using call_initialize2 by (simp add: published_states)
  then show ?case by (simp add: ic_InitializeSystem2_def published_Initialize)
next
  case (call_update w n)
  then show ?case by (simp add: ic_GetNetworkInfoLatestUpdate_def Let_def published_states)
qed (auto intro: published_Initialize published_Finalize published_OpenAccessPoint published_CloseAccessPoint published_CreateNetwork
    published_DestroyNetwork published_OpenStation published_CloseStation published_Connect published_ConnectPrivate published_Disconnect
    published_CreateNetworkPrivate published_receive_turn same_states [OF _ states_Scan] same_states [OF _ states_Reject]
    same_states [OF _ states_small_commands(1)] same_states [OF _ states_small_commands(2)] same_states [OF _ states_HandleServerPacket]
    same_states [OF _ states_callback_command] same_states [OF _ states_p2p_thread])

text \<open>
  C2: After any sequence of commands of the game, packets of the server, data of the sockets and turns of the threads, from a new service or any
  other state in which the two agree, the communication state that the shared state shows to the rest of the module is the state of the service's state machine: every command and
  every lost connection publishes exactly the transition it made, and a refused or failed command publishes none, provided that the threads a
  command waits for do not make a transition of their own in between.
\<close>

theorem published_state_follows:
  assumes "(ldn_call e)\<^sup>*\<^sup>* w w'" "calm e" "ss_ldn_state (lw_shared w) = ldn_state w"
  shows "ss_ldn_state (lw_shared w') = ldn_state w'"
proof -
  have "published w'"
    using assms(1) by (induction rule: rtranclp_induct) (use assms(2,3) in \<open>auto simp: published_def [symmetric] intro: ldn_call_published\<close>)
  then show ?thesis by (simp add: published_def)
qed


text \<open>An example: a service with a client, on a machine where every wait ends at once.\<close>

definition demo_env :: ldn_env where
  "demo_env = \<lparr>le_now = 5000, le_thread = True, le_file = \<lparr>fw_alloc = True, fw_create = True, fw_open = True, fw_write = True\<rparr>,
     le_upnp = demo_gateway, le_start = \<lparr>si_socket = 3, si_bind = (\<lambda>p. True), si_listen = True, si_thread = True\<rparr>, le_p2p_sends = [],
     le_accept_end = id, le_stop_waits = [], le_client_memory = replicate 65536 0, le_client_sends = [],
     le_connect = \<lparr>ci_socket = 4, ci_connect = (\<lambda>ip p. ConnectDone), ci_others = id, ci_select = 1, ci_so_error = True, ci_thread = True\<rparr>,
     le_client_wait = id, le_client_end = id, le_connect_end = id, le_recv_end = id, le_nifm = Inr 1\<rparr>"

subsection \<open>Scanning\<close>

text \<open>Packets of the server, as the receive thread handles them one after the other.\<close>

definition deliver_packets :: "ldn_env \<Rightarrow> (PacketId \<times> byte list) list \<Rightarrow> ldn_world \<Rightarrow> ldn_world" where
  "deliver_packets e ps w = foldl (\<lambda>w p. HandleServerPacket e (fst p) (snd p) w) w ps"

lemma deliver_keeps_states: "keeps_states (deliver_packets e ps)"
  by (simp add: keeps_states_def deliver_packets_def states_foldl)

text \<open>The fields a scan depends on.\<close>

definition scan_view :: "ldn_world \<Rightarrow> NetworkInfo list \<times> u16 \<times> u64 \<times> bool \<times> bool" where
  "scan_view w = (let s = lw_self w in (ic_scan_results s, ic_expected_scene_id s, ic_local_communication_id s, ic_scan_event s, ic_error_event s))"

lemma scan_view_on_self [simp]:
  "(\<And>s. ic_scan_results (f s) = ic_scan_results s \<and> ic_expected_scene_id (f s) = ic_expected_scene_id s \<and>
     ic_local_communication_id (f s) = ic_local_communication_id s \<and> ic_scan_event (f s) = ic_scan_event s \<and>
     ic_error_event (f s) = ic_error_event s) \<Longrightarrow> scan_view (on_self f w) = scan_view w"
  by (simp add: scan_view_def Let_def)

lemma scan_view_frames [simp]:
  "scan_view (on_manager g w) = scan_view w" "scan_view (signal_state w) = scan_view w" "scan_view (on_shared h w) = scan_view w"
  by (simp_all add: scan_view_def signal_state_def Let_def)

interpretation scan_fields: world_view scan_view
  by unfold_locales simp_all

lemmas scan_view_handed [simp] = scan_fields.route scan_fields.proxy_data scan_fields.master scan_fields.hand_over_server

lemma scan_view_packets [simp]:
  "scan_view (HandleConnectedPacket d w) = scan_view w" "scan_view (HandleSyncNetworkPacket d w) = scan_view w"
  "scan_view (HandleExternalProxyToken tk w) = scan_view w" "scan_view (HandleExternalProxyPacket e d w) = scan_view w"
  by (simp_all add: HandleConnectedPacket_def HandleSyncNetworkPacket_def HandleExternalProxyToken_def HandleExternalProxyPacket_def Let_def
      split: option.split)

lemma scan_view_other:
  assumes "ty \<noteq> PacketId.ScanReply" "ty \<noteq> PacketId.ScanReplyEnd" "ty \<noteq> PacketId.NetworkError"
  shows "scan_view (HandleServerPacket e ty d w) = scan_view w"
proof -
  have "scan_view (dispatch_packet e ty d w) = scan_view w"
    using assms by (cases ty) (simp_all add: dispatch_packet_def Let_def split: option.split)
  then show ?thesis by (simp add: HandleServerPacket_def Let_def)
qed

lemma scan_view_reply:
  assumes "scan_view w = (rs, sc, lc, se, er)"
  shows "scan_view (HandleServerPacket e PacketId.ScanReply d w) =
    (if length d \<ge> 1152 \<and> length rs < MAX_SCAN_RESULTS then rs @ [fix_ids (lw_self w) (NetworkInfo_of_bytes (take 1152 d))] else rs,
     sc, lc, se, er)"
  using assms by (auto simp: HandleServerPacket_def Let_def dispatch_packet_def HandleScanReplyPacket_def scan_view_def)

lemma scan_view_end:
  assumes "scan_view w = (rs, sc, lc, se, er)"
  shows "scan_view (HandleServerPacket e PacketId.ScanReplyEnd d w) = (rs, sc, lc, True, er)"
  using assms by (auto simp: HandleServerPacket_def Let_def dispatch_packet_def scan_view_def)

text \<open>The networks the packets report, with the game's identifiers put in.\<close>

definition reported :: "(NetworkInfo \<Rightarrow> NetworkInfo) \<Rightarrow> (PacketId \<times> byte list) list \<Rightarrow> NetworkInfo list" where
  "reported fix ps =
     map (\<lambda>p. fix (NetworkInfo_of_bytes (take 1152 (snd p))))
       (List.filter (\<lambda>p. fst p = PacketId.ScanReply \<and> length (snd p) \<ge> 1152) ps)"

lemma fix_ids_cong:
  "ic_expected_scene_id s = ic_expected_scene_id s' \<Longrightarrow> ic_local_communication_id s = ic_local_communication_id s' \<Longrightarrow> fix_ids s = fix_ids s'"
  by (rule ext) (simp add: fix_ids_def Let_def)

lemma scan_view_deliver:
  assumes "scan_view w = (rs, sc, lc, se, False)" "length rs \<le> MAX_SCAN_RESULTS"
    "PacketId.NetworkError \<notin> fst ` set ps"
  shows "scan_view (deliver_packets e ps w) =
    (take MAX_SCAN_RESULTS (rs @ reported (fix_ids (lw_self w)) ps), sc, lc, se \<or> PacketId.ScanReplyEnd \<in> fst ` set ps, False)"
  using assms
proof (induction ps arbitrary: w rs se)
  case (Cons p ps)
  define v where "v = HandleServerPacket e (fst p) (snd p) w"
  have step: "deliver_packets e (p # ps) w = deliver_packets e ps v" by (simp add: deliver_packets_def v_def)
  have err: "fst p \<noteq> PacketId.NetworkError" "PacketId.NetworkError \<notin> fst ` set ps"
    using Cons.prems(3) by auto
  obtain rs' se' where v: "scan_view v = (rs', sc, lc, se', False)" "length rs' \<le> MAX_SCAN_RESULTS"
      "take MAX_SCAN_RESULTS (rs' @ reported (fix_ids (lw_self w)) ps) = take MAX_SCAN_RESULTS (rs @ reported (fix_ids (lw_self w)) (p # ps))"
      "se' = (se \<or> fst p = PacketId.ScanReplyEnd)"
  proof (cases "fst p = PacketId.ScanReply")
    case True
    show ?thesis
      by (rule that [of "if length (snd p) \<ge> 1152 \<and> length rs < MAX_SCAN_RESULTS
          then rs @ [fix_ids (lw_self w) (NetworkInfo_of_bytes (take 1152 (snd p)))] else rs" se])
        (use True scan_view_reply [OF Cons.prems(1), of e "snd p"] Cons.prems(2) in \<open>auto simp: v_def reported_def take_Cons'\<close>)
  next
    case False
    show ?thesis
    proof (cases "fst p = PacketId.ScanReplyEnd")
      case True
      show ?thesis
        by (rule that) (use True scan_view_end [OF Cons.prems(1), of e "snd p"] Cons.prems(2) in \<open>auto simp: v_def reported_def\<close>)
    next
      case not_end: False
      show ?thesis
        by (rule that) (use False not_end err scan_view_other [of "fst p" e "snd p" w] Cons.prems(1,2) in \<open>auto simp: v_def reported_def\<close>)
    qed
  qed
  have "fix_ids (lw_self v) = fix_ids (lw_self w)"
    by (rule fix_ids_cong) (use Cons.prems(1) v(1) in \<open>simp_all add: scan_view_def Let_def\<close>)
  then show ?case
    using Cons.IH [OF v(1,2) err(2)] v(3,4) by (auto simp: step)
qed (simp add: deliver_packets_def reported_def)

text \<open>
  C4: A scan whose request was sent, and during which the server's packets arrive, among them the end of the scan and no error, succeeds and
  returns exactly the networks these packets report: in the order of arrival, the first eight and at most as many as the game's array holds,
  each with the game's own communication identifier and the scene that was asked for, and without one that is too short.
\<close>

theorem scan_returns_reported:
  assumes "IsServerConnected w" "wt_others wt = deliver_packets e ps"
    and "fst (ryu_send_scan ((ic_server_client (lw_self w))\<lparr>rc_events := []\<rparr>) (scan_filter w flt)) = ClientOpResult.Success"
    and "PacketId.ScanReplyEnd \<in> fst ` set ps" "PacketId.NetworkError \<notin> fst ` set ps"
  shows "fst (ic_Scan e wt n ch flt w) = R_SUCCESS \<and>
    fst (snd (ic_Scan e wt n ch flt w)) = take n (take MAX_SCAN_RESULTS
      (reported (fix_ids ((lw_self w)\<lparr>ic_expected_scene_id := intent_scene_id (nwid_intent_id (scan_network_id flt))\<rparr>)) ps))"
proof -
  define w1 where "w1 = on_self (\<lambda>s. s\<lparr>ic_scan_results := [], ic_scan_event := False, ic_error_event := False,
      ic_expected_scene_id := intent_scene_id (nwid_intent_id (scan_network_id flt))\<rparr>) w"
  define c where "c = snd (ryu_send_scan ((ic_server_client (lw_self w))\<lparr>rc_events := []\<rparr>) (scan_filter w flt))"
  have "rc_events c = []"
    using assms(3) by (auto simp: c_def ryu_send_scan_def rc_send_def Let_def split: prod.splits if_splits)
  moreover have flt: "scan_filter w1 flt = scan_filter w flt" by (simp add: scan_filter_def effective_id_def w1_def Let_def)
  moreover have "ic_server_client (lw_self w1) = ic_server_client (lw_self w)" by (simp add: w1_def)
  ultimately have send: "with_client e (\<lambda>c. ryu_send_scan c (scan_filter w1 flt)) w1 =
      (ClientOpResult.Success, on_self (\<lambda>s. s\<lparr>ic_server_client := c\<lparr>rc_events := []\<rparr>\<rparr>) w1)"
    using assms(3) by (auto simp: with_client_def c_def split: prod.split)
  define w2 where "w2 = on_self (\<lambda>s. s\<lparr>ic_server_client := c\<lparr>rc_events := []\<rparr>\<rparr>) w1"
  have v2: "scan_view w2 = ([], intent_scene_id (nwid_intent_id (scan_network_id flt)), ic_local_communication_id (lw_self w), False, False)"
    by (simp add: w2_def w1_def scan_view_def Let_def)
  have "fix_ids (lw_self w2) = fix_ids ((lw_self w)\<lparr>ic_expected_scene_id := intent_scene_id (nwid_intent_id (scan_network_id flt))\<rparr>)"
    by (rule fix_ids_cong) (simp_all add: w2_def w1_def)
  then have v3: "scan_view (deliver_packets e ps w2) = (take MAX_SCAN_RESULTS
      (reported (fix_ids ((lw_self w)\<lparr>ic_expected_scene_id := intent_scene_id (nwid_intent_id (scan_network_id flt))\<rparr>)) ps),
      intent_scene_id (nwid_intent_id (scan_network_id flt)), ic_local_communication_id (lw_self w), True, False)"
    using scan_view_deliver [OF v2 _ assms(5), of e] assms(4) by simp
  show ?thesis
    using assms(1,2) v3
    by (auto simp: ic_Scan_def w1_def [symmetric] send w2_def [symmetric] wait_any_def Let_def scan_view_def refresh_timeout_def)
qed

subsection \<open>Creating a network\<close>

text \<open>A send that succeeds makes no callback.\<close>

lemma rc_send_quiet: "rc_send lost c send = (ClientOpResult.Success, c') \<Longrightarrow> rc_events c' = rc_events c"
  by (auto simp: rc_send_def Let_def split: if_splits prod.splits)

lemma with_client_sent:
  assumes "rc_send lost ((ic_server_client (lw_self w))\<lparr>rc_events := []\<rparr>) send = (ClientOpResult.Success, c')"
  shows "with_client e (\<lambda>c. rc_send lost c send) w = (ClientOpResult.Success, on_self (\<lambda>s. s\<lparr>ic_server_client := c'\<rparr>) w)"
  using rc_send_quiet [OF assms(1)] assms by (simp add: with_client_def on_self_def)

text \<open>The request without a peer-to-peer proxy, and whether the client can send it.\<close>

definition plain_request :: "CreateNetworkConfig \<Rightarrow> ldn_world \<Rightarrow> CreateAccessPointRequest" where
  "plain_request data w = create_request data (effective_id w (intent_local_communication_id (netc_intent_id (cnc_networkConfig data))))
     (no_proxy (ic_game_version (lw_self w)))"

definition create_sends :: "CreateNetworkConfig \<Rightarrow> ldn_world \<Rightarrow> ClientOpResult \<times> RyuLdnClient" where
  "create_sends data w =
     (let s = lw_self w; n = ic_advertise_data_size s
      in ryu_send_create_access_point ((ic_server_client s)\<lparr>rc_events := []\<rparr>) (plain_request data w)
           (if n > 0 then Some (take n (ic_advertise_data s)) else None) n)"

text \<open>The world in which the answer is waited for.\<close>

definition create_waiting :: "CreateNetworkConfig \<Rightarrow> ldn_world \<Rightarrow> ldn_world" where
  "create_waiting data w =
     on_self (\<lambda>s. s\<lparr>ic_server_client := snd (create_sends data w)\<rparr>) (snd (on_machine lsm_CreateNetwork (disable_timeout w)))"

lemma machine_world: "on_machine f w = (fst (f (ic_state_machine (lw_self w))),
    on_self (\<lambda>s. s\<lparr>ic_state_machine := snd (f (ic_state_machine (lw_self w)))\<rparr>) w)"
  by (simp add: on_machine_def split: prod.split)

lemma create_reaches_wait:
  assumes "IsServerConnected w" "ldn_state w = AccessPoint" "\<not> ic_use_p2p_proxy (lw_self w)"
    "fst (create_sends data w) = ClientOpResult.Success"
  shows "ic_CreateNetwork e script data w =
    (case WaitForResponse PacketId.Connected 8000 script (create_waiting data w) of
       (ok, w) \<Rightarrow> if \<not> ok then undo_create e (MAKERESULT 0x10 5) w else network_created e w)"
proof -
  define u where "u = snd (on_machine lsm_CreateNetwork (disable_timeout w))"
  have r: "on_machine lsm_CreateNetwork (disable_timeout w) = (StateTransitionResult.Success, u)"
    using assms(2) on_machine_result [of lsm_CreateNetwork "disable_timeout w"]
    by (simp add: u_def prod_eq_iff ldn_state_def disable_timeout_def)
  have self: "ic_use_p2p_proxy (lw_self u) = ic_use_p2p_proxy (lw_self w)" "ic_game_version (lw_self u) = ic_game_version (lw_self w)"
      "ic_server_client (lw_self u) = ic_server_client (lw_self w)" "ic_advertise_data (lw_self u) = ic_advertise_data (lw_self w)"
      "ic_advertise_data_size (lw_self u) = ic_advertise_data_size (lw_self w)"
    by (simp_all add: u_def machine_world disable_timeout_def)
  have offer: "offer_proxy e u = Done (no_proxy (ic_game_version (lw_self w)), u)"
    using assms(3) by (simp add: offer_proxy_def self)
  define send where "send = (\<lambda>t. tcp_send_create_access_point t (plain_request data w)
      (if 0 < ic_advertise_data_size (lw_self w) then Some (take (ic_advertise_data_size (lw_self w)) (ic_advertise_data (lw_self w))) else None)
      (ic_advertise_data_size (lw_self w)))"
  have sent: "create_sends data w = rc_send is_lost ((ic_server_client (lw_self u))\<lparr>rc_events := []\<rparr>) send"
    by (simp add: create_sends_def Let_def ryu_send_create_access_point_def send_def self)
  have wait: "create_waiting data w = on_self (\<lambda>s. s\<lparr>ic_server_client := snd (create_sends data w)\<rparr>) u"
    by (simp add: create_waiting_def u_def)
  have "rc_send is_lost ((ic_server_client (lw_self u))\<lparr>rc_events := []\<rparr>) send = (ClientOpResult.Success, snd (create_sends data w))"
    using assms(4) unfolding sent by (simp add: prod_eq_iff)
  from with_client_sent [OF this, of e] have "send_create e (plain_request data w) u = (ClientOpResult.Success, create_waiting data w)"
    unfolding send_create_def Let_def self ryu_send_create_access_point_def send_def wait .
  then show ?thesis
    using assms(1) by (simp add: ic_CreateNetwork_def r offer plain_request_def)
qed




lemma plain_created:
  assumes "\<not> ic_use_p2p_proxy (lw_self w)" "ic_p2p_server (lw_self w) = None"
  shows "network_created e w = Done (R_SUCCESS, signal_state (SetLdnState AccessPointCreated
    (disable_timeout (on_self (\<lambda>s. s\<lparr>ic_network_connected := True\<rparr>) w))))"
  using assms by (simp add: network_created_def StopP2pProxyServer_def predict_address_def)

lemma waiting_fields:
  "ic_last_response_id (lw_self (create_waiting data w)) = ic_last_response_id (lw_self w)"
  "ic_network_connected (lw_self (create_waiting data w)) = ic_network_connected (lw_self w)"
  "ic_network_info (lw_self (create_waiting data w)) = ic_network_info (lw_self w)"
  "ic_use_p2p_proxy (lw_self (create_waiting data w)) = ic_use_p2p_proxy (lw_self w)"
  "ic_p2p_server (lw_self (create_waiting data w)) = ic_p2p_server (lw_self w)"
  "ic_expected_scene_id (lw_self (create_waiting data w)) = ic_expected_scene_id (lw_self w)"
  "ic_local_communication_id (lw_self (create_waiting data w)) = ic_local_communication_id (lw_self w)"
  "ldn_state w = AccessPoint \<Longrightarrow> ldn_state (create_waiting data w) = AccessPointCreated"
  by (simp_all add: create_waiting_def machine_world disable_timeout_def ldn_state_def)


lemma created_fields:
  "ldn_state (signal_state (SetLdnState st (disable_timeout (on_self (\<lambda>s. s\<lparr>ic_network_connected := True\<rparr>) w)))) = ldn_state w"
  "lw_shared (signal_state (SetLdnState st (disable_timeout (on_self (\<lambda>s. s\<lparr>ic_network_connected := True\<rparr>) w)))) =
     ss_SetLdnState (lw_shared w) st"
  "ic_network_info (lw_self (signal_state (SetLdnState st (disable_timeout (on_self (\<lambda>s. s\<lparr>ic_network_connected := True\<rparr>) w))))) =
     ic_network_info (lw_self w)"
  "ic_network_connected (lw_self (signal_state (SetLdnState st (disable_timeout (on_self (\<lambda>s. s\<lparr>ic_network_connected := True\<rparr>) w)))))"
  "lsm_event (ic_state_machine (lw_self (signal_state w'))) = True"
  by (simp_all add: signal_state_def SetLdnState_def disable_timeout_def ldn_state_def lsm_SignalStateChange_def)


text \<open>
  The answer a command waits for may be an old one: the identifier of the last answer is never cleared. After one network was created or joined, or
  while the service still counts as part of one, a request of the same service succeeds at once, whatever the server answers and whether it answers at all: the state becomes that of a created
  network, and the network information stays what it was before the request.
\<close>

theorem stale_answer_accepted:
  assumes "IsServerConnected w" "ldn_state w = AccessPoint" "\<not> ic_use_p2p_proxy (lw_self w)" "ic_p2p_server (lw_self w) = None"
    and "ic_last_response_id (lw_self w) = PacketId.Connected \<or> ic_network_connected (lw_self w)" "fst (create_sends data w) = ClientOpResult.Success"
  shows "\<exists>w'. ic_CreateNetwork e script data w = Done (R_SUCCESS, w') \<and> ldn_state w' = AccessPointCreated \<and>
    ic_network_info (lw_self w') = ic_network_info (lw_self w)"
proof -
  note wf = waiting_fields [where data = data and w = w]
  have "WaitForResponse PacketId.Connected 8000 script (create_waiting data w) = (True, create_waiting data w)"
    using assms(5) by (auto simp: WaitForResponse_def wf)
  then show ?thesis
    using wf(8) [OF assms(2)] assms(3,4)
    by (simp add: create_reaches_wait [OF assms(1-3,6)] plain_created [of "create_waiting data w"] wf created_fields)
qed


subsection \<open>The receive thread\<close>

text \<open>
  C5: When the connection is lost during a network, the turn of the receive thread that sees it reports it, but less than its comment says: the state
  machine goes back to the open access point or station, not to the state without a service, and the shared state with it; the game is woken, the reason
  is a lost signal, a command that waits is released, and the server counts as not connected. The next \<^verbatim>\<open>GetState\<close> of the game is no error, as
  the comment has it, but succeeds with the open state; it is an error only if the service was initialised by a call that set the error flag.
\<close>

theorem lost_connection_reported:
  assumes "loss_seen ConnectionState.Ready (rc_state (ic_server_client (lw_self w)))"
    and "ldn_state w = StationConnected \<or> ldn_state w = AccessPointCreated"
  shows "\<exists>w'. receive_turn e ConnectionState.Ready w = Done (rc_state (ic_server_client (lw_self w)), w') \<and>
    ldn_state w' = (if ldn_state w = StationConnected then Station else AccessPoint) \<and> ss_ldn_state (lw_shared w') = ldn_state w' \<and>
    lsm_event (ic_state_machine (lw_self w')) \<and> ic_disconnect_reason (lw_self w') = reason_SignalLost \<and>
    ic_error_event (lw_self w') \<and> \<not> ic_network_connected (lw_self w') \<and> \<not> IsServerConnected w' \<and>
    ic_GetState w' = (if ic_error_state (lw_self w) = 0 then R_SUCCESS else MAKERESULT 0x10 reason_SignalLost, comm_value (ldn_state w'))"
proof -
  have "receive_turn e ConnectionState.Ready w = Done (rc_state (ic_server_client (lw_self w)), report_loss w)"
    using assms(1) by (auto simp: receive_turn_def Let_def loss_seen_def)
  moreover have "ldn_state (report_loss w) = (if ldn_state w = StationConnected then Station else AccessPoint)"
      "ss_ldn_state (lw_shared (report_loss w)) = ldn_state (report_loss w)"
    using states_report_loss [of w] assms(2) by (auto simp: states_def)
  moreover have "lsm_event (ic_state_machine (lw_self (report_loss w)))" "ic_disconnect_reason (lw_self (report_loss w)) = reason_SignalLost"
      "ic_error_event (lw_self (report_loss w))" "\<not> ic_network_connected (lw_self (report_loss w))" "\<not> IsServerConnected (report_loss w)"
    using assms(2)
    by (auto simp: report_loss_def Let_def machine_world SetLdnState_def IsServerConnected_def ldn_state_def lsm_Disconnect_def
        lsm_DestroyNetwork_def lsm_enter_def lsm_SignalStateChange_def)
  moreover have "ic_error_state (lw_self (report_loss w)) = ic_error_state (lw_self w)"
    by (simp add: report_loss_def Let_def machine_world SetLdnState_def)
  then have "ic_GetState (report_loss w) = (if ic_error_state (lw_self w) = 0 then R_SUCCESS else MAKERESULT 0x10 reason_SignalLost,
      comm_value (ldn_state (report_loss w)))"
    using calculation by (simp add: ic_GetState_def reason_SignalLost_def reason_None_def)
  ultimately show ?thesis by blast
qed

lemma disconnect_packet_state:
  "rc_state c = ConnectionState.Ready \<Longrightarrow> rc_state (handle_packet c PacketId.Disconnect d) = ConnectionState.Disconnecting"
  by (simp add: handle_packet_def next_state_eval)

definition off_line :: "ConnectionState \<Rightarrow> bool" where
  "off_line st \<longleftrightarrow> st \<noteq> ConnectionState.Connected \<and> st \<noteq> ConnectionState.Handshaking \<and> st \<noteq> ConnectionState.Ready"

lemma report_loss_client [simp]: "ic_server_client (lw_self (report_loss w)) = ic_server_client (lw_self w)"
  by (simp add: report_loss_def Let_def machine_world SetLdnState_def)

lemma idle_turn:
  assumes "off_line (rc_state (ic_server_client (lw_self w)))"
  shows "receive_turn e prev w = Done (rc_state (ic_server_client (lw_self w)),
    if loss_seen prev (rc_state (ic_server_client (lw_self w))) then report_loss w else w)"
  using assms by (simp add: receive_turn_def Let_def off_line_def)

text \<open>
  C37: The receive thread never brings a lost connection back: once the session client is waiting to reconnect, retrying, disconnected or
  disconnecting, no turn of the thread steps it any more, however much time passes, so the automatic reconnection that the client would make in
  its next step does not happen. After a disconnect packet of the server, which leaves the client disconnecting, the thread changes nothing at
  all: the game is never told that its network is gone.
\<close>

theorem reconnect_never_runs:
  assumes "off_line (rc_state (ic_server_client (lw_self w)))" "list_all (\<lambda>t. snd t = (\<lambda>w. w)) script"
  shows "\<exists>w'. ReceiveThreadFunc script prev w = Done w' \<and> ic_server_client (lw_self w') = ic_server_client (lw_self w) \<and>
    (rc_state (ic_server_client (lw_self w)) = ConnectionState.Disconnecting \<longrightarrow> w' = w)"
  using assms
proof (induction script arbitrary: prev w)
  case (Cons t script)
  obtain e where t: "t = (e, \<lambda>w. w)" using Cons.prems(2) by (cases t) simp
  define v where "v = (if loss_seen prev (rc_state (ic_server_client (lw_self w))) then report_loss w else w)"
  have v: "ic_server_client (lw_self v) = ic_server_client (lw_self w)"
      "rc_state (ic_server_client (lw_self w)) = ConnectionState.Disconnecting \<longrightarrow> v = w"
    by (simp_all add: v_def loss_seen_def)
  show ?case
  proof (cases "ic_recv_thread_running (lw_self w)")
    case True
    then show ?thesis
      using Cons.IH [of v "rc_state (ic_server_client (lw_self w))"] Cons.prems v idle_turn [OF Cons.prems(1), of e prev, folded v_def]
      by (auto simp: t Let_def)
  qed (simp add: t Let_def)
qed simp

subsection \<open>Instances\<close>

lemma disconnect_client_shape:
  "\<exists>c b. disconnect_client e w = on_self (\<lambda>s. s\<lparr>ic_server_client := c, ic_handshake_event := b \<or> ic_handshake_event s\<rparr>) w"
proof -
  define c where "c = ryu_disconnect ((ic_server_client (lw_self w))\<lparr>rc_events := []\<rparr>)"
  have "rc_events c = [] \<or> (\<exists>a b. rc_events c = [StateChanged a b])"
    by (simp add: c_def ryu_disconnect_def Let_def rc_notify_def rc_fire_def)
  then show ?thesis
  proof (elim disjE exE)
    assume "rc_events c = []"
    then show ?thesis
      by (intro exI [of _ c] exI [of _ False]) (simp add: disconnect_client_def with_client_def c_def [symmetric] on_self_def)
  next
    fix a b assume "rc_events c = [StateChanged a b]"
    then show ?thesis
      by (intro exI [of _ "c\<lparr>rc_events := []\<rparr>"] exI [of _ "b = ConnectionState.Ready"])
        (simp add: disconnect_client_def with_client_def c_def [symmetric] on_self_def)
  qed
qed

text \<open>An instance whose threads and connections are gone.\<close>

definition at_rest :: "ICommunicationService \<Rightarrow> bool" where
  "at_rest s \<longleftrightarrow> ic_p2p_server s = None \<and> ic_p2p_client s = None \<and> \<not> ic_p2p_connect_thread_initialized s \<and>
     \<not> ic_recv_thread_was_started s \<and> \<not> ic_server_connected s \<and> ic_stack_slot_index s < 0"

lemma at_rest_frames [simp]:
  "at_rest (lw_self (disconnect_client e w)) = at_rest (lw_self w)"
proof -
  obtain c b where "disconnect_client e w = on_self (\<lambda>s. s\<lparr>ic_server_client := c, ic_handshake_event := b \<or> ic_handshake_event s\<rparr>) w"
    using disconnect_client_shape by blast
  then show ?thesis by (simp add: at_rest_def)
qed

lemma cleanup_of_rest:
  assumes "at_rest (lw_self w)" "pm_Reset (bs_manager (lw_bsd w)) = Done m"
  shows "\<exists>w'. CleanupSessionResources e w = Done w' \<and> lw_shared w' = ss_SetLdnPid (ss_SetGameActive (lw_shared w) False 0) 0 \<and>
    bs_manager (lw_bsd w') = m \<and> at_rest (lw_self w')"
  using assms
  by (auto simp: CleanupSessionResources_def StopP2pProxyServer_def DisconnectP2pProxy_def drop_connection_def at_rest_def reset_sockets_def Let_def
      CleanupAbandonedServices_def CleanupAbandonedServicesForPid_def clear_events_def)

text \<open>What the shutdown of the proxies leaves alone, and what it resets.\<close>

definition thread_view :: "ldn_world \<Rightarrow> bool \<times> int" where
  "thread_view w = (ic_recv_thread_was_started (lw_self w), ic_stack_slot_index (lw_self w))"

lemma thread_view_on_self [simp]:
  "(\<And>s. ic_recv_thread_was_started (f s) = ic_recv_thread_was_started s \<and> ic_stack_slot_index (f s) = ic_stack_slot_index s) \<Longrightarrow>
   thread_view (on_self f w) = thread_view w"
  by (simp add: thread_view_def)

lemma thread_view_frames [simp]:
  "thread_view (on_manager g w) = thread_view w" "thread_view (on_shared h w) = thread_view w"
  "thread_view (w\<lparr>lw_p2p_stacks := st, lw_fault := ft\<rparr>) = thread_view w" "thread_view (w\<lparr>lw_active := x\<rparr>) = thread_view w"
  "thread_view (w\<lparr>lw_bsd := g'\<rparr>) = thread_view w"
  by (simp_all add: thread_view_def)

interpretation thread_fields: world_view thread_view
  by unfold_locales simp_all

lemmas thread_view_handed [simp] = thread_fields.hand_over_server thread_fields.hand_over_client

lemma thread_view_disconnect [simp]: "thread_view (disconnect_client e w) = thread_view w"
proof -
  obtain c b where "disconnect_client e w = on_self (\<lambda>s. s\<lparr>ic_server_client := c, ic_handshake_event := b \<or> ic_handshake_event s\<rparr>) w"
    using disconnect_client_shape by blast
  then show ?thesis by simp
qed

lemma stop_leaves:
  assumes "StopP2pProxyServer e w = Done w'"
  shows "thread_view w' = thread_view w \<and> ic_p2p_server (lw_self w') = None"
  using assms by (auto simp: StopP2pProxyServer_def Let_def split: option.splits)

definition proxy_view :: "ldn_world \<Rightarrow> p2p_state option \<times> bool \<times> bool" where
  "proxy_view w = (ic_p2p_server (lw_self w), ic_p2p_client (lw_self w) = None, ic_p2p_connect_thread_initialized (lw_self w))"

lemma client_routing_frame:
  "ic_p2p_server (lw_self (foldl (p2p_packet_callback e) w ds)) = ic_p2p_server (lw_self w) \<and>
   ic_p2p_connect_thread_initialized (lw_self (foldl (p2p_packet_callback e) w ds)) = ic_p2p_connect_thread_initialized (lw_self w)"
  by (induction ds arbitrary: w) (simp_all add: p2p_packet_callback_def HandleProxyDataPacket_def route_data_def Let_def split: prod.split)

lemma hand_over_frame:
  "ic_p2p_server (lw_self (flush_client e c w)) = ic_p2p_server (lw_self w) \<and>
   ic_p2p_connect_thread_initialized (lw_self (flush_client e c w)) = ic_p2p_connect_thread_initialized (lw_self w)"
  using client_routing_frame [of e] by (simp add: flush_client_def)

lemma disconnect_p2p_leaves:
  assumes "le_connect_end e = (\<lambda>w. w)"
  shows "thread_view (DisconnectP2pProxy e False w) = thread_view w \<and>
    proxy_view (DisconnectP2pProxy e False w) = (ic_p2p_server (lw_self w), True, False)"
  using assms hand_over_frame [of e]
  by (auto simp: DisconnectP2pProxy_def Let_def proxy_view_def split: option.split)

lemma drop_leaves:
  "thread_view (drop_connection e w) = thread_view w \<and> proxy_view (drop_connection e w) = proxy_view w \<and>
   \<not> ic_server_connected (lw_self (drop_connection e w))"
proof -
  obtain c b where "disconnect_client e w = on_self (\<lambda>s. s\<lparr>ic_server_client := c, ic_handshake_event := b \<or> ic_handshake_event s\<rparr>) w"
    using disconnect_client_shape by blast
  then show ?thesis by (simp add: drop_connection_def proxy_view_def)
qed

lemma cleanup_leaves_rest:
  assumes "CleanupSessionResources e w = Done w'" "thread_view w = (False, i)" "i < 0" "le_connect_end e = (\<lambda>w. w)"
  shows "at_rest (lw_self w')"
proof -
  obtain v where v: "StopP2pProxyServer e w = Done v"
    using assms(1) by (auto simp: CleanupSessionResources_def bind_locked_Done)
  define u where "u = drop_connection e (DisconnectP2pProxy e False v)"
  have "thread_view u = (False, i) \<and> proxy_view u = (None, True, False) \<and> \<not> ic_server_connected (lw_self u)"
    using stop_leaves [OF v] disconnect_p2p_leaves [OF assms(4), of v] drop_leaves [of e "DisconnectP2pProxy e False v"] assms(2)
    by (simp add: u_def)
  then have "at_rest (lw_self u)" using assms(3) by (simp add: at_rest_def thread_view_def proxy_view_def)
  then show ?thesis
    using assms(1)
    by (auto simp: CleanupSessionResources_def v u_def [symmetric] bind_locked_Done reset_sockets_def Let_def clear_events_def at_rest_def)
qed

lemma previous_at_rest:
  assumes "shut_down_previous e w = Done w'" "le_connect_end e = (\<lambda>w. w)" "le_recv_end e = (\<lambda>w. w)"
  shows "at_rest (lw_self w')"
proof -
  define u where "u = release_slot (join_receive_thread e ((stop_receiving e w)\<lparr>lw_active := False, lw_current := False\<rparr>))"
  have "thread_view u = (False, ic_stack_slot_index (lw_self u))" "ic_stack_slot_index (lw_self u) < 0"
    using assms(3) by (simp_all add: u_def release_slot_def join_receive_thread_def thread_view_def)
  moreover obtain v where v: "CleanupSessionResources e u = Done v" "w' = finalize_machine v"
    using assms(1) by (auto simp: shut_down_previous_def u_def [symmetric] bind_locked_Done)
  ultimately have "at_rest (lw_self v)" using cleanup_leaves_rest assms(2) by blast
  then show ?thesis by (simp add: v(2) finalize_machine_def machine_world at_rest_def)
qed

text \<open>
  C38: A new service shuts down the previous instance, whose destructor is then meant to do nothing. It does: whenever it runs later, whatever the
  new service has done in the meantime, it resets the module's shared state (no active game, no process, no communication state) and the socket
  manager, which loses every proxy socket, its address and the callback that sends the game's data.
\<close>

theorem late_destruction_resets_new_service:
  assumes "ICommunicationService_new e waits program os rnd w = Done (old, w1)" "lw_current w"
    and "le_connect_end e = (\<lambda>w. w)" "le_recv_end e = (\<lambda>w. w)" "pm_Reset (bs_manager (lw_bsd w2)) = Done m"
  shows "\<exists>w3. ICommunicationService_destroy e' (w2\<lparr>lw_self := old, lw_active := False, lw_current := False\<rparr>) = Done w3 \<and>
    \<not> ss_game_active (lw_shared w3) \<and> ss_ldn_pid (lw_shared w3) = 0 \<and> ss_ldn_state (lw_shared w3) = CommNone \<and>
    pm_sockets (bs_manager (lw_bsd w3)) = [] \<and> pm_local_ip (bs_manager (lw_bsd w3)) = 0 \<and> \<not> pm_send_callback (bs_manager (lw_bsd w3))"
proof -
  obtain v where "shut_down_previous e w = Done v" "old = lw_self v"
    using assms(1,2) by (auto simp: ICommunicationService_new_def Let_def bind_locked_Done)
  then have rest: "at_rest old" using previous_at_rest assms(3,4) by blast
  define x where "x = join_receive_thread e' (stop_receiving e' (w2\<lparr>lw_self := old, lw_active := False, lw_current := False\<rparr>))"
  obtain c b where shape: "stop_receiving e' (w2\<lparr>lw_self := old, lw_active := False, lw_current := False\<rparr>) =
      on_self (\<lambda>s. s\<lparr>ic_server_client := c, ic_handshake_event := b \<or> ic_handshake_event s\<rparr>)
        (on_self (\<lambda>s. s\<lparr>ic_recv_thread_running := False, ic_error_event := True\<rparr>) (w2\<lparr>lw_self := old, lw_active := False, lw_current := False\<rparr>))"
    using disconnect_client_shape unfolding stop_receiving_def by blast
  have "at_rest (lw_self x)" "lw_bsd x = lw_bsd w2"
    using rest by (simp_all add: x_def shape join_receive_thread_def at_rest_def)
  then obtain y where y: "CleanupSessionResources e' x = Done y" "lw_shared y = ss_SetLdnPid (ss_SetGameActive (lw_shared x) False 0) 0"
      "bs_manager (lw_bsd y) = m" "at_rest (lw_self y)"
    using cleanup_of_rest [of x m e'] assms(5) by auto
  have "ICommunicationService_destroy e' (w2\<lparr>lw_self := old, lw_active := False, lw_current := False\<rparr>) = Done (release_slot (finalize_machine y))"
    using y(1) by (simp add: ICommunicationService_destroy_def x_def)
  moreover have "lw_shared (release_slot (finalize_machine y)) = lw_shared y" "lw_bsd (release_slot (finalize_machine y)) = lw_bsd y"
    by (simp_all add: release_slot_def finalize_machine_def machine_world)
  moreover have "pm_sockets m = []" "pm_local_ip m = 0" "\<not> pm_send_callback m"
    using assms(5) by (auto simp: pm_Reset_def split: if_splits)
  ultimately show ?thesis using y(2,3) by (simp add: ss_SetLdnPid_def ss_SetGameActive_def)
qed


subsection \<open>Game data of the host\<close>

lemma no_sessions_route:
  "host_all pkt (replicate n None) p = (False, p)" "host_first pkt dest (replicate n None) p = (False, p)"
  by (induction n) simp_all

text \<open>
  A broadcast of the host to the address that consoles of the local subnet use, before any peer has joined its proxy, goes to the master server with
  destination zero: the proxy rewrites the header in place with its own broadcast address, which it does not know yet.
\<close>

theorem host_broadcast_loses_destination:
  assumes "IsServerConnected w" "ic_p2p_server (lw_self w) = Some p" "IsRunning p" "ic_p2p_client (lw_self w) = None"
    and "sv_broadcast_address (pw_server p) = 0" "sv_host_virtual_ip (pw_server p) \<noteq> 0" "sv_sessions (pw_server p) = replicate MAX_PLAYERS None"
    and "pinfo_source_ipv4 (pdh_info header) = sv_host_virtual_ip (pw_server p)" "pinfo_dest_ipv4 (pdh_info header) = 0xC0A800FF"
    and "pw_master p = []" "pw_host p = []"
  shows "\<exists>h. pinfo_dest_ipv4 (pdh_info h) = 0 \<and> SendProxyDataToServer e header data w =
    with_client e (\<lambda>c. ryu_send_proxy_data c h (Some data) (length data) (le_now e)) w"
proof -
  define h where "h = header\<lparr>pdh_info := (pdh_info header)\<lparr>pinfo_source_ipv4 := sv_host_virtual_ip (pw_server p), pinfo_dest_ipv4 := 0\<rparr>\<rparr>"
  have "BroadcastFromHost header data p = (False, h, p)"
    using assms(5-9) by (simp add: BroadcastFromHost_def map_dest_def Let_def h_def no_sessions_route)
  moreover have "flush_p2p e p w = w"
    using assms(2,10,11) by (simp add: flush_p2p_def on_self_def)
  ultimately have "SendProxyDataToServer e header data w = with_client e (\<lambda>c. ryu_send_proxy_data c h (Some data) (length data) (le_now e)) w"
    using assms(1-4) by (simp add: SendProxyDataToServer_def send_as_host_def send_as_client_def)
  moreover have "pinfo_dest_ipv4 (pdh_info h) = 0" by (simp add: h_def)
  ultimately show ?thesis by blast
qed

subsection \<open>Examples\<close>

definition demo_world :: "CommState \<Rightarrow> ConnectionState \<Rightarrow> ldn_world" where
  "demo_world st cs =
     \<lparr>lw_self = (new_service 42 (split_os [] 0) (\<lambda>i. 0) get_default_config)
        \<lparr>ic_server_client := busy_client cs [] 0, ic_server_connected := True, ic_state_machine := lsm_new\<lparr>lsm_state := st\<rparr>\<rparr>,
      lw_active = True, lw_current = True, lw_shared = ss_new\<lparr>ss_ldn_state := st\<rparr>, lw_bsd = sample_state, lw_config = get_default_config,
      lw_saved = [], lw_mapper = um_new, lw_stacks = replicate LDN_SESSION_STACK_COUNT False, lw_p2p_stacks = replicate MAX_PLAYERS False,
      lw_fault = False\<rparr>"

lemma demo_fields [simp]:
  "ldn_state (demo_world st cs) = st" "ic_server_client (lw_self (demo_world st cs)) = busy_client cs [] 0"
  "rc_state (busy_client cs [] 0) = cs" "lw_shared (demo_world st cs) = ss_new\<lparr>ss_ldn_state := st\<rparr>"
  "\<not> ic_use_p2p_proxy (lw_self (demo_world st cs))" "ic_p2p_server (lw_self (demo_world st cs)) = None"
  "ic_last_response_id (lw_self (demo_world st cs)) = PacketId.Initialize" "\<not> ic_network_connected (lw_self (demo_world st cs))"
  "ic_advertise_data_size (lw_self (demo_world st cs)) = 0" "ic_game_version (lw_self (demo_world st cs)) = replicate 16 0"
  "ic_local_communication_id (lw_self (demo_world st cs)) = 42" "lw_current (demo_world st cs)" "lw_bsd (demo_world st cs) = sample_state"
  "ic_network_info (lw_self (demo_world st cs)) = zero_info" "IsServerConnected (demo_world st ConnectionState.Ready)"
  by (simp_all add: demo_world_def new_service_def ldn_state_def busy_client_facts get_default_config_def DEFAULT_DISABLE_P2P_def
      IsServerConnected_def rc_is_ready_def csm_is_ready_def busy_client_def rc_state_def)

lemma calm_demo: "calm demo_env"
  by (simp add: calm_def keeps_states_def demo_env_def)

theorem published_state_follows_witness:
  "ss_ldn_state (lw_shared (snd (ic_Initialize demo_env 7 (demo_world CommNone ConnectionState.Ready)))) = Initialized"
proof -
  let ?w = "demo_world CommNone ConnectionState.Ready"
  have "(ldn_call demo_env)\<^sup>*\<^sup>* ?w (snd (ic_Initialize demo_env 7 ?w))" by (blast intro: call_initialize)
  from published_state_follows [OF this calm_demo] have
    "ss_ldn_state (lw_shared (snd (ic_Initialize demo_env 7 ?w))) = ldn_state (snd (ic_Initialize demo_env 7 ?w))" by simp
  moreover have "ldn_state (snd (ic_Initialize demo_env 7 ?w)) = Initialized"
    by (simp add: ic_Initialize_def machine_world lsm_Initialize_def demo_world_def lsm_new_def Let_def ldn_state_def SetLdnState_def
        lsm_enter_def lsm_SignalStateChange_def)
  ultimately show ?thesis by simp
qed

theorem lost_connection_reported_witness:
  "\<exists>w'. receive_turn demo_env ConnectionState.Ready (demo_world AccessPointCreated ConnectionState.Backoff) = Done (ConnectionState.Backoff, w') \<and>
     ldn_state w' = AccessPoint \<and> ic_disconnect_reason (lw_self w') = 6"
  using lost_connection_reported [of "demo_world AccessPointCreated ConnectionState.Backoff" demo_env]
  by (auto simp: loss_seen_def reason_SignalLost_def)

theorem reconnect_never_runs_witness:
  "ReceiveThreadFunc (replicate 3 (demo_env, \<lambda>w. w)) ConnectionState.Ready (demo_world AccessPointCreated ConnectionState.Disconnecting) =
     Done (demo_world AccessPointCreated ConnectionState.Disconnecting)"
  using reconnect_never_runs [of "demo_world AccessPointCreated ConnectionState.Disconnecting" "replicate 3 (demo_env, \<lambda>w. w)"
      ConnectionState.Ready]
  by (auto simp: off_line_def list_all_iff)


definition demo_filter :: ScanFilterFull where "demo_filter = ScanFilterFull_of_bytes (replicate 96 0)"

definition demo_reply :: "byte list" where "demo_reply = replicate 1152 0"

lemma demo_client_ready:
  "tcp_is_connected (rc_tcp (busy_client cs [] 0))" "os_send (sk_os (tc_socket (rc_tcp (busy_client cs [] 0)))) = [Sent 4096, Sent 4096]"
  "length (tc_send_buffer (rc_tcp (busy_client cs [] 0))) = kSendBufferSize"
  by (simp_all add: busy_client_facts example_client_def tcp_is_connected_def sk_is_connected_def sk_new_def split_os_def tcp_new_def)

lemma wf_demo_filter: "wf_ScanFilterFull (scan_filter (demo_world st cs) demo_filter)"
proof -
  have "wf_ScanFilterFull demo_filter" by (simp add: demo_filter_def ScanFilterFull_wire.wf_of)
  then show ?thesis
    by (simp add: wf_ScanFilterFull_def wf_NetworkId_def wf_IntentId_def scan_filter_def Let_def any_value_def bytes_wf_def)
qed

lemma demo_scan_sent:
  "fst (ryu_send_scan ((busy_client ConnectionState.Ready [] 0)\<lparr>rc_events := []\<rparr>) (scan_filter (demo_world st cs) demo_filter)) =
     ClientOpResult.Success"
proof -
  let ?f = "scan_filter (demo_world st cs) demo_filter"
  have "length (ScanFilterFull_to_bytes ?f) = 96" by (rule ScanFilterFull_wire.len_to [OF wf_demo_filter])
  then obtain b where "tcp_send_encoded (rc_tcp (busy_client ConnectionState.Ready [] 0)) (\<lambda>b. encode 96 ScanFilterFull_to_bytes b PacketId.Scan ?f) =
      (ClientResult.Success, b)"
    using tcp_send_struct_accepts [OF demo_client_ready(1,2), of 96 ScanFilterFull_to_bytes ?f ConnectionState.Ready PacketId.Scan]
    by (auto simp: demo_client_ready(3) kSendBufferSize_def)
  then show ?thesis
    by (simp add: ryu_send_scan_def rc_send_def tcp_send_scan_def rc_is_ready_def csm_is_ready_def rc_state_def [symmetric])
qed

theorem scan_returns_reported_witness:
  "fst (ic_Scan demo_env \<lparr>wt_others = deliver_packets demo_env [(PacketId.ScanReply, demo_reply), (PacketId.ScanReplyEnd, [])],
      wt_error_first = True\<rparr> 4 0 demo_filter (demo_world Station ConnectionState.Ready)) = 0 \<and>
   length (fst (snd (ic_Scan demo_env \<lparr>wt_others = deliver_packets demo_env [(PacketId.ScanReply, demo_reply), (PacketId.ScanReplyEnd, [])],
      wt_error_first = True\<rparr> 4 0 demo_filter (demo_world Station ConnectionState.Ready)))) = 1"
proof -
  have "fst (ryu_send_scan ((ic_server_client (lw_self (demo_world Station ConnectionState.Ready)))\<lparr>rc_events := []\<rparr>)
      (scan_filter (demo_world Station ConnectionState.Ready) demo_filter)) = ClientOpResult.Success"
    by (simp add: demo_scan_sent)
  from scan_returns_reported [OF demo_fields(15) _ this, of
      "\<lparr>wt_others = deliver_packets demo_env [(PacketId.ScanReply, demo_reply), (PacketId.ScanReplyEnd, [])], wt_error_first = True\<rparr>"
      demo_env "[(PacketId.ScanReply, demo_reply), (PacketId.ScanReplyEnd, [])]" 4 0]
  show ?thesis by (simp add: R_SUCCESS_def reported_def demo_reply_def MAX_SCAN_RESULTS_def)
qed

definition demo_create :: CreateNetworkConfig where
  "demo_create = \<lparr>cnc_securityConfig = SecurityConfig_of_bytes (replicate 68 0), cnc_userConfig = UserConfig_of_bytes (replicate 48 0),
     cnc_networkConfig = NetworkConfig_of_bytes (replicate 32 0)\<rparr>"

lemma demo_request_length:
  assumes "ic_game_version (lw_self w) = replicate 16 0"
  shows "length (CreateAccessPointRequest_to_bytes (plain_request demo_create w)) = 188"
proof -
  have "wf_SecurityConfig (cnc_securityConfig demo_create)" "wf_UserConfig (cnc_userConfig demo_create)"
    by (simp_all add: demo_create_def SecurityConfig_wire.wf_of UserConfig_wire.wf_of)
  then have "wf_CreateAccessPointRequest (plain_request demo_create w)"
    using assms by (simp add: plain_request_def create_request_def wf_CreateAccessPointRequest_def copy_security_def copy_user_def copy_network_def
        no_proxy_def wf_SecurityConfig_def wf_UserConfig_def wf_NetworkConfig_def wf_IntentId_def wf_RyuNetworkConfig_def bytes_wf_def any_value_def)
  then show ?thesis by (rule CreateAccessPointRequest_wire.len_to)
qed

lemma demo_create_sent:
  assumes "ic_game_version (lw_self w) = replicate 16 0" "ic_advertise_data_size (lw_self w) = 0"
    "ic_server_client (lw_self w) = busy_client ConnectionState.Ready [] 0"
  shows "fst (create_sends demo_create w) = ClientOpResult.Success"
proof -
  define t where "t = rc_tcp (busy_client ConnectionState.Ready [] 0)"
  define p where "p = LdnHeader_to_bytes (make_header PacketId.CreateAccessPoint 188)"
  define q where "q = CreateAccessPointRequest_to_bytes (plain_request demo_create w)"
  define b where "b = memcpy (memcpy (tc_send_buffer t) 0 p) 12 q"
  note ready = demo_client_ready [of ConnectionState.Ready, folded t_def]
  have "length q = 188" by (simp add: q_def demo_request_length [OF assms(1)])
  then have "length b = 2048" using ready(3) by (simp add: b_def p_def kSendBufferSize_def)
  then have "take 200 b \<noteq> [] \<and> length (take 200 b) \<le> 4096" by auto
  then have "sk_send_all (tc_socket t) (take 200 b) =
      (SocketResult.Success, (tc_socket t)\<lparr>sk_os := (sk_os (tc_socket t))\<lparr>os_send := [Sent 4096]\<rparr>, sk_wire := sk_wire (tc_socket t) @ take 200 b\<rparr>)"
    using sk_send_all_accepts [of "tc_socket t" 4096 "[Sent 4096]" "take 200 b"] ready(1,2)
    by (simp add: tcp_is_connected_def sk_is_connected_def)
  then have "fst (tcp_send_create_access_point t (plain_request demo_create w) None 0) = ClientResult.Success"
    using ready(1,3) by (simp add: tcp_send_create_access_point_def tcp_send_with_advertise_def Let_def kSendBufferSize_def p_def [symmetric]
        q_def [symmetric] b_def [symmetric] tcp_send_bytes_def socket_to_client_success)
  then show ?thesis
    using assms by (auto simp: create_sends_def Let_def ryu_send_create_access_point_def rc_send_def rc_is_ready_def csm_is_ready_def
        rc_state_def [symmetric] t_def [symmetric] split: prod.splits)
qed


definition demo_second :: ldn_world where
  "demo_second = on_self (\<lambda>s. s\<lparr>ic_last_response_id := PacketId.Connected\<rparr>) (demo_world AccessPoint ConnectionState.Ready)"

lemma demo_second_fields:
  "IsServerConnected demo_second" "ldn_state demo_second = AccessPoint" "\<not> ic_use_p2p_proxy (lw_self demo_second)"
  "ic_p2p_server (lw_self demo_second) = None" "ic_last_response_id (lw_self demo_second) = PacketId.Connected"
  "ic_network_info (lw_self demo_second) = zero_info"
  using demo_fields(1) [where st = AccessPoint and cs = ConnectionState.Ready] demo_fields(15) [where st = AccessPoint]
  by (simp_all add: demo_second_def IsServerConnected_def ldn_state_def)

theorem stale_answer_accepted_witness:
  "\<exists>w'. ic_CreateNetwork demo_env [] demo_create demo_second = Done (0, w') \<and> ldn_state w' = AccessPointCreated \<and>
     ic_network_info (lw_self w') = zero_info"
proof -
  have "fst (create_sends demo_create demo_second) = ClientOpResult.Success"
    by (rule demo_create_sent) (simp_all add: demo_second_def)
  from stale_answer_accepted [OF demo_second_fields(1-4) disjI1 [OF demo_second_fields(5)] this, of demo_env "[]"] show ?thesis
    by (auto simp: R_SUCCESS_def demo_second_fields)
qed

lemma cleanup_done:
  assumes "ic_p2p_server (lw_self w) = None" "ic_p2p_client (lw_self w) = None" "\<not> ic_p2p_connect_thread_initialized (lw_self w)"
    "pm_Reset (bs_manager (lw_bsd w)) = Done m"
  shows "\<exists>w'. CleanupSessionResources e w = Done w'"
proof -
  obtain c b where "disconnect_client e w = on_self (\<lambda>s. s\<lparr>ic_server_client := c, ic_handshake_event := b \<or> ic_handshake_event s\<rparr>) w"
    using disconnect_client_shape by blast
  then show ?thesis
    using assms by (simp add: CleanupSessionResources_def StopP2pProxyServer_def DisconnectP2pProxy_def Let_def reset_sockets_def drop_connection_def)
qed

theorem late_destruction_resets_new_service_witness:
  "\<exists>old w1 w3. ICommunicationService_new demo_env [] 42 (split_os [] 0) (\<lambda>i. 0) (demo_world StationConnected ConnectionState.Ready) = Done (old, w1) \<and>
     ICommunicationService_destroy demo_env ((demo_world StationConnected ConnectionState.Ready)\<lparr>lw_self := old, lw_active := False,
       lw_current := False\<rparr>) = Done w3 \<and> \<not> ss_game_active (lw_shared w3) \<and> \<not> pm_send_callback (bs_manager (lw_bsd w3))"
proof -
  let ?w = "demo_world StationConnected ConnectionState.Ready"
  have reset: "pm_Reset (bs_manager sample_state) = Done (snd (case pm_Reset (bs_manager sample_state) of Done m \<Rightarrow> ((), m)))"
    by (simp add: pm_Reset_def sample_state_fields)
  have ends: "le_connect_end demo_env = (\<lambda>w. w)" "le_recv_end demo_env = (\<lambda>w. w)" by (simp_all add: demo_env_def id_def)
  obtain c b where shape: "stop_receiving demo_env ?w = on_self (\<lambda>s. s\<lparr>ic_server_client := c, ic_handshake_event := b \<or> ic_handshake_event s\<rparr>)
      (on_self (\<lambda>s. s\<lparr>ic_recv_thread_running := False, ic_error_event := True\<rparr>) ?w)"
    using disconnect_client_shape unfolding stop_receiving_def by blast
  have p2p: "ic_p2p_client (lw_self ?w) = None" "\<not> ic_p2p_connect_thread_initialized (lw_self ?w)"
    by (simp_all add: demo_world_def new_service_def)
  have "\<exists>v. CleanupSessionResources demo_env (release_slot (join_receive_thread demo_env
      ((stop_receiving demo_env ?w)\<lparr>lw_active := False, lw_current := False\<rparr>))) = Done v"
    by (rule cleanup_done [OF _ _ _ trans [OF _ reset]]) (simp_all add: shape join_receive_thread_def release_slot_def ends p2p)
  then have "\<exists>v. shut_down_previous demo_env ?w = Done v" by (auto simp: shut_down_previous_def)
  then obtain old w1 where new: "ICommunicationService_new demo_env [] 42 (split_os [] 0) (\<lambda>i. 0) ?w = Done (old, w1)"
    by (auto simp: ICommunicationService_new_def Let_def)
  from late_destruction_resets_new_service [OF new _ ends, of ?w _ demo_env] reset show ?thesis
    using new by auto
qed

end
