(* ===== verification/Dns_Wrap.thy ===== *)
theory Dns_Wrap
  imports P2p_Client Config_File
begin

unbundle bit_operations_syntax

text \<open>
  The resolver of \<^verbatim>\<open>network/dns_wrap.cpp\<close>, which replaces the system's: building a query, reading a response, one exchange with the
  name server, and the wrapped \<^verbatim>\<open>getaddrinfo\<close> and \<^verbatim>\<open>getnameinfo\<close>. Host names are character lists, packets byte lists; a pointer into
  the response is its offset, and a read outside the response is the result \<open>Fault\<close>. The sockets, the network service and the
  memory allocator are arguments; the records of a result are nodes of a store, linked by their addresses.
\<close>

subsection \<open>Queries\<close>

text \<open>The labels written so far are \<open>out\<close>; the size of the buffer is \<open>n\<close>.\<close>

function encode_labels :: "nat \<Rightarrow> string \<Rightarrow> byte list \<Rightarrow> byte list option" where
  "encode_labels n src out =
     (if src = [] then Some out
      else
        let label = takeWhile (\<lambda>c. c \<noteq> CHR ''.'') src; rest = dropWhile (\<lambda>c. c \<noteq> CHR ''.'') src
        in if label = [] \<or> length label > 63 then None
           else if length out + 1 + length label + 1 > n then None
           else let out = out @ word_of_nat (length label) # map of_char label
             in if rest = [] then Some out else encode_labels n (tl rest) out)"
  by pat_completeness auto
termination
proof (relation "measure (\<lambda>(n, src, out). length src)", goal_cases)
  case (2 n src out label rest out')
  have "length rest \<le> length src" using 2(3) by (simp add: length_dropWhile_le)
  with 2(1) show ?case by (cases src) auto
qed simp

declare encode_labels.simps [simp del]

definition EncodeDnsName :: "nat \<Rightarrow> string \<Rightarrow> byte list option" where
  "EncodeDnsName buf_size hostname =
     (if buf_size = 0 then None
      else case encode_labels buf_size hostname [] of
             None \<Rightarrow> None
           | Some out \<Rightarrow> if length out + 1 > buf_size then None else Some (out @ [0]))"

definition put16_be :: "u16 \<Rightarrow> byte list" where
  "put16_be x = [ucast (drop_bit 8 x AND 0xFF), ucast (x AND 0xFF)]"

definition BuildDnsQuery :: "string \<Rightarrow> u16 \<Rightarrow> nat \<Rightarrow> byte list option" where
  "BuildDnsQuery hostname query_id packet_size =
     (if hostname = [] then None
      else case EncodeDnsName 256 hostname of
             None \<Rightarrow> None
           | Some name \<Rightarrow>
               if 12 + length name + 4 > packet_size then None
               else Some (put16_be query_id @ [0x01, 0x00, 0x00, 0x01, 0x00, 0x00, 0x00, 0x00, 0x00, 0x00] @ name @ [0x00, 0x01, 0x00, 0x01]))"

subsection \<open>Responses\<close>

datatype dns_error = Malformed | EAI_AGAIN | EAI_NONAME | EAI_FAIL

datatype dns_result = Fault | Failed dns_error | Addresses "u32 list"

definition read16 :: "byte list \<Rightarrow> nat \<Rightarrow> u16 option" where
  "read16 r i = (if i + 1 < length r then Some (push_bit 8 (ucast (r ! i)) OR ucast (r ! (i + 1))) else None)"

definition read32 :: "byte list \<Rightarrow> nat \<Rightarrow> u32 option" where
  "read32 r i =
     (if i + 3 < length r
      then Some (push_bit 24 (ucast (r ! i)) OR push_bit 16 (ucast (r ! (i + 1))) OR push_bit 8 (ucast (r ! (i + 2))) OR ucast (r ! (i + 3)))
      else None)"

function SkipDnsName :: "byte list \<Rightarrow> nat \<Rightarrow> nat option" where
  "SkipDnsName r p =
     (if p < length r
      then let label_len = r ! p in
        if label_len AND 0xC0 = 0xC0 then (if p + 2 > length r then None else Some (p + 2))
        else if label_len = 0 then Some (p + 1)
        else if p + 1 + unat label_len > length r then None
        else SkipDnsName r (p + 1 + unat label_len)
      else None)"
  by pat_completeness auto
termination
  by (relation "measure (\<lambda>(r, p). length r - p)") auto

declare SkipDnsName.simps [simp del]

fun skip_questions :: "nat \<Rightarrow> byte list \<Rightarrow> nat \<Rightarrow> nat option" where
  "skip_questions 0 r p = Some p"
| "skip_questions (Suc n) r p =
     (case SkipDnsName r p of
        None \<Rightarrow> None
      | Some p \<Rightarrow> if p + 4 > length r then None else skip_questions n r (p + 4))"

text \<open>The answers still to be read, where the next one starts, and the addresses found so far.\<close>

fun read_answers :: "nat \<Rightarrow> nat \<Rightarrow> byte list \<Rightarrow> nat \<Rightarrow> u32 list \<Rightarrow> dns_result" where
  "read_answers max_ips 0 r p ips = Addresses ips"
| "read_answers max_ips (Suc n) r p ips =
     (if length ips \<ge> max_ips then Addresses ips
      else case SkipDnsName r p of
        None \<Rightarrow> Failed Malformed
      | Some p \<Rightarrow>
          if p + 10 > length r then Failed Malformed
          else case (read16 r p, read16 r (p + 2), read32 r (p + 4), read16 r (p + 8)) of
            (Some rtype, Some rclass, Some rttl, Some rdlength) \<Rightarrow>
              let p = p + 10 in
              if p + unat rdlength > length r then Failed Malformed
              else if rtype = 1 \<and> rclass = 1 \<and> rdlength = 4
              then (case read32 r p of
                      Some ip \<Rightarrow> read_answers max_ips n r (p + unat rdlength) (ips @ [ip])
                    | None \<Rightarrow> Fault)
              else read_answers max_ips n r (p + unat rdlength) ips
          | _ \<Rightarrow> Fault)"

definition finish_answers :: "dns_result \<Rightarrow> dns_result" where
  "finish_answers res = (case res of Addresses [] \<Rightarrow> Failed EAI_NONAME | _ \<Rightarrow> res)"

definition ParseDnsResponse :: "byte list \<Rightarrow> int \<Rightarrow> dns_result" where
  "ParseDnsResponse response max_ips =
     (if length response < 12 \<or> max_ips \<le> 0 then Failed Malformed
      else case (read16 response 2, read16 response 6, read16 response 4) of
        (Some flags, Some ancount, Some qdcount) \<Rightarrow>
          let rcode = flags AND 0x000F in
          if flags AND 0x8000 = 0 then Failed Malformed
          else if flags AND 0x0200 \<noteq> 0 then Failed EAI_AGAIN
          else if rcode = 3 then Failed EAI_NONAME
          else if rcode \<noteq> 0 then Failed EAI_FAIL
          else if ancount = 0 then Failed EAI_NONAME
          else (case skip_questions (unat qdcount) response 12 of
                  None \<Rightarrow> Failed Malformed
                | Some p \<Rightarrow> finish_answers (read_answers (nat max_ips) (unat ancount) response p []))
      | _ \<Rightarrow> Fault)"

subsection \<open>Resolving\<close>

text \<open>The answers of the system: the name servers of the network service, whether a socket was made, and the results of the two calls on it.\<close>

record dns_io =
  di_servers :: "(u32 \<times> u32) option"
  di_socket :: bool
  di_send :: "u32 \<Rightarrow> byte list \<Rightarrow> bool"
  di_recv :: "byte list option"

definition GetDnsServerIp :: "dns_io \<Rightarrow> bool \<times> u32" where
  "GetDnsServerIp io =
     (case di_servers io of
        Some (dns1, dns2) \<Rightarrow> if dns1 \<noteq> 0 then (True, dns1) else if dns2 \<noteq> 0 then (True, dns2) else (False, 0x08080808)
      | None \<Rightarrow> (False, 0x08080808))"

definition ResolveHostnameDns :: "dns_io \<Rightarrow> string \<Rightarrow> int \<Rightarrow> u16 \<Rightarrow> dns_result \<times> u16" where
  "ResolveHostnameDns io hostname max_ips next_query_id =
     (if max_ips \<le> 0 then (Failed EAI_FAIL, next_query_id)
      else
        let dns_ip = snd (GetDnsServerIp io); query_id = next_query_id; next_query_id = next_query_id + 1
        in (case BuildDnsQuery hostname query_id 512 of
              None \<Rightarrow> Failed EAI_FAIL
            | Some query \<Rightarrow>
                if \<not> di_socket io then Failed EAI_FAIL
                else if \<not> di_send io dns_ip query then Failed EAI_AGAIN
                else (case di_recv io of
                        None \<Rightarrow> Failed EAI_AGAIN
                      | Some bytes \<Rightarrow> if bytes = [] then Failed EAI_AGAIN else ParseDnsResponse (take 512 bytes) max_ips),
            next_query_id))"

subsection \<open>The wrapped calls\<close>

datatype gai_error = GAI_SYSTEM | GAI_NONAME | GAI_FAMILY | GAI_MEMORY | GAI_AGAIN | GAI_FAIL | GAI_OVERFLOW | GAI_code1

text \<open>An \<^verbatim>\<open>AddrinfoStorage\<close>: the record and its address, allocated together; the address and the port are numbers in host order.\<close>

record addrinfo =
  ai_family :: int
  ai_socktype :: int
  ai_protocol :: int
  ai_addr :: u32
  ai_port :: u16
  ai_next :: "nat option"

type_synonym ai_heap = "nat \<rightharpoonup> addrinfo"

record gai_hints =
  gh_family :: int
  gh_socktype :: int
  gh_protocol :: int
  gh_passive :: bool

text \<open>\<^verbatim>\<open>std::atoi\<close>: blanks, a sign, digits. A number that is no \<^verbatim>\<open>int\<close> leaves its behaviour open; here it has its value.\<close>

definition atoi :: "string \<Rightarrow> int" where
  "atoi s =
     (let s = dropWhile scan_space s; neg = (s \<noteq> [] \<and> hd s = CHR ''-'');
          s = (if s \<noteq> [] \<and> (hd s = CHR ''-'' \<or> hd s = CHR ''+'') then tl s else s);
          v = int (digits_value (takeWhile dec_digit s))
      in if neg then - v else v)"

definition AF_UNSPEC :: int where "AF_UNSPEC = 0"
definition AF_INET :: int where "AF_INET = 2"

definition make_addrinfo :: "gai_hints option \<Rightarrow> u16 \<Rightarrow> u32 \<Rightarrow> addrinfo" where
  "make_addrinfo hints port addr =
     \<lparr>ai_family = AF_INET, ai_socktype = (case hints of Some h \<Rightarrow> gh_socktype h | None \<Rightarrow> 0),
      ai_protocol = (case hints of Some h \<Rightarrow> gh_protocol h | None \<Rightarrow> 0), ai_addr = addr, ai_port = port, ai_next = None\<rparr>"

text \<open>\<open>None\<close> is a free of memory that is not allocated, or a walk that does not end.\<close>

partial_function (option) freeaddrinfo :: "nat option \<Rightarrow> ai_heap \<Rightarrow> ai_heap option" where
  "freeaddrinfo res h =
     (case res of
        None \<Rightarrow> Some h
      | Some p \<Rightarrow> (case h p of None \<Rightarrow> None | Some ai \<Rightarrow> freeaddrinfo (ai_next ai) (h(p := None))))"

text \<open>The list is built at its tail; \<open>malloc\<close> is the allocator. A failed allocation frees the nodes made before.\<close>

fun link_results ::
  "(ai_heap \<Rightarrow> nat option) \<Rightarrow> (u32 \<Rightarrow> addrinfo) \<Rightarrow> u32 list \<Rightarrow> nat option \<Rightarrow> nat option \<Rightarrow> ai_heap \<Rightarrow>
   ((gai_error + nat option) \<times> ai_heap) option" where
  "link_results malloc mk [] hd0 tail0 h = Some (Inr hd0, h)"
| "link_results malloc mk (ip # ips) hd0 tail0 h =
     (case malloc h of
        None \<Rightarrow>
          (case hd0 of
             None \<Rightarrow> Some (Inl GAI_MEMORY, h)
           | Some _ \<Rightarrow> map_option (\<lambda>h. (Inl GAI_MEMORY, h)) (freeaddrinfo hd0 h))
      | Some a \<Rightarrow>
          let h = h(a \<mapsto> mk ip) in
          (case (hd0, tail0) of
             (None, _) \<Rightarrow> link_results malloc mk ips (Some a) (Some a) h
           | (Some _, Some t) \<Rightarrow>
               (case h t of
                  Some n \<Rightarrow> link_results malloc mk ips hd0 (Some a) (h(t \<mapsto> n\<lparr>ai_next := Some a\<rparr>))
                | None \<Rightarrow> None)
           | (Some _, None) \<Rightarrow> None))"

definition single_result :: "(ai_heap \<Rightarrow> nat option) \<Rightarrow> addrinfo \<Rightarrow> ai_heap \<Rightarrow> (gai_error + nat option) \<times> ai_heap" where
  "single_result malloc ai h = (case malloc h of None \<Rightarrow> (Inl GAI_MEMORY, h) | Some a \<Rightarrow> (Inr (Some a), h(a \<mapsto> ai)))"

text \<open>The parser's \<^verbatim>\<open>-1\<close> comes out as the code 1; the codes of the system's header are positive.\<close>

fun gai_of :: "dns_error \<Rightarrow> gai_error" where
  "gai_of Malformed = GAI_code1"
| "gai_of EAI_AGAIN = GAI_AGAIN"
| "gai_of EAI_NONAME = GAI_NONAME"
| "gai_of EAI_FAIL = GAI_FAIL"

definition numeric_address :: "string \<Rightarrow> u32 option" where
  "numeric_address s =
     (case inet_pton s of
        Some [a, b, c, d] \<Rightarrow> Some (push_bit 24 (ucast a) OR push_bit 16 (ucast b) OR push_bit 8 (ucast c) OR ucast d)
      | _ \<Rightarrow> None)"

text \<open>\<open>res_given\<close> says that the pointer for the result is not null. \<open>None\<close> is a read outside the response or a wrong free.\<close>

definition getaddrinfo ::
  "dns_io \<Rightarrow> (ai_heap \<Rightarrow> nat option) \<Rightarrow> u16 \<Rightarrow> string option \<Rightarrow> string option \<Rightarrow> gai_hints option \<Rightarrow> bool \<Rightarrow> ai_heap \<Rightarrow>
   ((gai_error + nat option) \<times> ai_heap) option" where
  "getaddrinfo io malloc next_id node service hints res_given h =
     (if \<not> res_given then Some (Inl GAI_SYSTEM, h)
      else if node = None \<and> service = None then Some (Inl GAI_NONAME, h)
      else let family = (case hints of Some h \<Rightarrow> gh_family h | None \<Rightarrow> AF_UNSPEC) in
        if family \<noteq> AF_UNSPEC \<and> family \<noteq> AF_INET then Some (Inl GAI_FAMILY, h)
        else
          let port = (case service of Some s \<Rightarrow> word_of_int (atoi s) | None \<Rightarrow> 0); mk = make_addrinfo hints port
          in case node of
               None \<Rightarrow> Some (single_result malloc (mk (if (case hints of Some h \<Rightarrow> gh_passive h | None \<Rightarrow> False) then 0 else 0x7F000001)) h)
             | Some n \<Rightarrow>
                 (case numeric_address n of
                    Some ip \<Rightarrow> Some (single_result malloc (mk ip) h)
                  | None \<Rightarrow>
                      (case fst (ResolveHostnameDns io n 8 next_id) of
                         Fault \<Rightarrow> None
                       | Failed er \<Rightarrow> Some (Inl (gai_of er), h)
                       | Addresses ips \<Rightarrow> link_results malloc mk ips None None h)))"

text \<open>
  A null pointer for a text is the size 0; the text of the port is cut to its buffer, that of the address is refused when it does not fit.
\<close>

definition inet_ntop :: "u32 \<Rightarrow> string" where
  "inet_ntop ip =
     decimal (unat (drop_bit 24 ip)) @ ''.'' @ decimal (unat (drop_bit 16 ip AND 0xFF)) @ ''.'' @
     decimal (unat (drop_bit 8 ip AND 0xFF)) @ ''.'' @ decimal (unat (ip AND 0xFF))"

definition getnameinfo :: "bool \<Rightarrow> int \<Rightarrow> u32 \<Rightarrow> u16 \<Rightarrow> nat \<Rightarrow> nat \<Rightarrow> gai_error + string option \<times> string option" where
  "getnameinfo long_enough fam addr port hostlen servlen =
     (if \<not> long_enough \<or> fam \<noteq> AF_INET then Inl GAI_FAMILY
      else if hostlen > 0 \<and> length (inet_ntop addr) + 1 > hostlen then Inl GAI_OVERFLOW
      else Inr (if hostlen > 0 then Some (inet_ntop addr) else None,
                if servlen > 0 then Some (take (servlen - 1) (decimal (unat port))) else None))"


section \<open>Names on the wire\<close>

text \<open>
  The reference form: the labels of a name between its dots, where a dot at the end adds none, each with its length before it, and a zero at the end.
\<close>

definition dns_labels :: "string \<Rightarrow> string list" where
  "dns_labels host = (let ps = split_dots [] host in if last ps = [] then butlast ps else ps)"

definition label_ok :: "string \<Rightarrow> bool" where
  "label_ok l \<longleftrightarrow> l \<noteq> [] \<and> length l \<le> 63"

definition label_image :: "string \<Rightarrow> byte list" where
  "label_image l = word_of_nat (length l) # map of_char l"

definition dns_wire :: "string list \<Rightarrow> byte list" where
  "dns_wire ls = concat (map label_image ls) @ [0]"

lemma split_dots_not_Nil [simp]: "split_dots cur s \<noteq> []"
  by (induction cur s rule: split_dots.induct) auto

lemma split_dots_nodot: "CHR ''.'' \<notin> set s \<Longrightarrow> split_dots cur s = [cur @ s]"
  by (induction cur s rule: split_dots.induct) auto

lemma split_dots_append: "CHR ''.'' \<notin> set s \<Longrightarrow> split_dots cur (s @ CHR ''.'' # t) = (cur @ s) # split_dots [] t"
  by (induction cur s rule: split_dots.induct) auto

lemma dns_labels_Nil [simp]: "dns_labels [] = []"
  by (simp add: dns_labels_def)

lemma dns_labels_one: "CHR ''.'' \<notin> set s \<Longrightarrow> s \<noteq> [] \<Longrightarrow> dns_labels s = [s]"
  by (simp add: dns_labels_def split_dots_nodot)

lemma dns_labels_more: "CHR ''.'' \<notin> set s \<Longrightarrow> dns_labels (s @ CHR ''.'' # t) = s # dns_labels t"
  by (simp add: dns_labels_def split_dots_append Let_def)

lemma length_label_image [simp]: "length (label_image l) = Suc (length l)"
  by (simp add: label_image_def)

text \<open>The checks of the loop add up to one check of the whole.\<close>

lemma encode_labels_last:
  "CHR ''.'' \<notin> set l \<Longrightarrow> l \<noteq> [] \<Longrightarrow>
   encode_labels n l out = (if length l > 63 \<or> length out + 1 + length l + 1 > n then None else Some (out @ label_image l))"
proof -
  assume l: "CHR ''.'' \<notin> set l" "l \<noteq> []"
  then have "takeWhile (\<lambda>c. c \<noteq> CHR ''.'') l = l"
    by (auto simp: takeWhile_eq_all_conv)
  moreover have "dropWhile (\<lambda>c. c \<noteq> CHR ''.'') l = []"
    using l(1) by auto
  ultimately show ?thesis
    using l(2) by (subst encode_labels.simps) (auto simp only: Let_def label_image_def if_True if_False simp_thms split: if_split)
qed

lemma encode_labels_next:
  "CHR ''.'' \<notin> set l \<Longrightarrow>
   encode_labels n (l @ CHR ''.'' # t) out =
     (if \<not> label_ok l \<or> length out + 1 + length l + 1 > n then None else encode_labels n t (out @ label_image l))"
proof -
  assume "CHR ''.'' \<notin> set l"
  then have "takeWhile (\<lambda>c. c \<noteq> CHR ''.'') (l @ CHR ''.'' # t) = l" "dropWhile (\<lambda>c. c \<noteq> CHR ''.'') (l @ CHR ''.'' # t) = CHR ''.'' # t"
    by (simp_all add: takeWhile_append dropWhile_append)
  then show ?thesis
    by (subst encode_labels.simps) (auto simp: label_ok_def label_image_def Let_def)
qed

lemma encode_labels_spec:
  "encode_labels n src out =
     (if list_all label_ok (dns_labels src) \<and> (dns_labels src = [] \<or> length out + length (concat (map label_image (dns_labels src))) + 1 \<le> n)
      then Some (out @ concat (map label_image (dns_labels src))) else None)"
proof (induction "length src" arbitrary: src out rule: less_induct)
  case less
  consider "src = []" | "src \<noteq> []" "CHR ''.'' \<notin> set src" | l t where "src = l @ CHR ''.'' # t" "CHR ''.'' \<notin> set l"
    by (metis split_list_first)
  then show ?case
  proof cases
    case 1
    then show ?thesis
      by (simp add: encode_labels.simps)
  next
    case 2
    then show ?thesis
      by (simp add: encode_labels_last dns_labels_one label_ok_def)
  next
    case (3 l t)
    with less [of t "out @ label_image l"] show ?thesis
      by (auto simp: encode_labels_next dns_labels_more)
  qed
qed

lemma EncodeDnsName_spec:
  "EncodeDnsName n host =
     (if list_all label_ok (dns_labels host) \<and> length (dns_wire (dns_labels host)) \<le> n then Some (dns_wire (dns_labels host)) else None)"
  by (cases "dns_labels host = []") (auto simp: EncodeDnsName_def encode_labels_spec dns_wire_def)

section \<open>Reading\<close>

text \<open>A name read from inside the response leaves the position inside it.\<close>

lemma SkipDnsName_bound: "SkipDnsName r p = Some q \<Longrightarrow> p < q \<and> q \<le> length r"
proof (induction r p rule: SkipDnsName.induct)
  case (1 r p)
  then show ?case
    by (subst (asm) (2) SkipDnsName.simps) (fastforce simp: Let_def split: if_splits)
qed

lemma read16_inside: "i + 2 \<le> length r \<Longrightarrow> \<exists>w. read16 r i = Some w"
  by (simp add: read16_def)

lemma read32_inside: "i + 4 \<le> length r \<Longrightarrow> \<exists>w. read32 r i = Some w"
  by (simp add: read32_def)

text \<open>What the parser promises of its result: no read was outside, and the addresses fit the array of the caller.\<close>

definition result_ok :: "nat \<Rightarrow> dns_result \<Rightarrow> bool" where
  "result_ok max_ips res = (case res of Fault \<Rightarrow> False | Failed _ \<Rightarrow> True | Addresses ips \<Rightarrow> length ips \<le> max_ips)"

lemma read_answers_ok: "length ips \<le> m \<Longrightarrow> result_ok m (read_answers m n r p ips)"
proof (induction n arbitrary: p ips)
  case (Suc n)
  consider "length ips \<ge> m" | "length ips < m" "SkipDnsName r p = None" | q where "length ips < m" "SkipDnsName r p = Some q" "q + 10 > length r"
    | q where "length ips < m" "SkipDnsName r p = Some q" "q + 10 \<le> length r"
    by (cases "SkipDnsName r p"; fastforce simp: not_le not_less)
  then show ?case
  proof cases
    case (4 q)
    then obtain t c l u where w: "read16 r q = Some t" "read16 r (q + 2) = Some c" "read32 r (q + 4) = Some l" "read16 r (q + 8) = Some u"
      using read16_inside [of q r] read16_inside [of "q + 2" r] read32_inside [of "q + 4" r] read16_inside [of "q + 8" r] by auto
    consider "q + 10 + unat u > length r" | "q + 10 + unat u \<le> length r" "t = 1 \<and> c = 1 \<and> u = 4"
      | "q + 10 + unat u \<le> length r" "\<not> (t = 1 \<and> c = 1 \<and> u = 4)"
      by linarith
    then show ?thesis
    proof cases
      case 2
      then obtain ip where "read32 r (q + 10) = Some ip"
        using read32_inside [of "q + 10" r] by auto
      then show ?thesis
        using 2 4 w Suc.IH by simp
    qed (use 4 w Suc in \<open>auto simp: result_ok_def [of m "Failed Malformed"] Let_def\<close>)
  qed (use Suc.prems in \<open>simp_all add: result_ok_def\<close>)
qed (simp add: result_ok_def)

lemma ParseDnsResponse_ok:
  "case ParseDnsResponse r max_ips of
     Fault \<Rightarrow> False
   | Failed _ \<Rightarrow> True
   | Addresses ips \<Rightarrow> ips \<noteq> [] \<and> int (length ips) \<le> max_ips"
proof (cases "length r < 12 \<or> max_ips \<le> 0")
  case False
  then obtain f a q where w: "read16 r 2 = Some f" "read16 r 6 = Some a" "read16 r 4 = Some q"
    using read16_inside [of 2 r] read16_inside [of 6 r] read16_inside [of 4 r] by auto
  have ok: "result_ok (nat max_ips) (read_answers (nat max_ips) (unat a) r p [])" for p
    by (simp add: read_answers_ok)
  have fin: "case finish_answers res of Fault \<Rightarrow> False | Failed _ \<Rightarrow> True | Addresses ips \<Rightarrow> ips \<noteq> [] \<and> int (length ips) \<le> max_ips"
    if "result_ok (nat max_ips) res" for res
    using that False by (cases res) (auto simp: finish_answers_def result_ok_def split: list.splits)
  show ?thesis
    using False w fin [OF ok] by (simp add: ParseDnsResponse_def Let_def split: option.split)
qed (auto simp: ParseDnsResponse_def)

text \<open>
  The parser of name server responses reads only inside the response, whatever bytes it is given: the read of a response is never the value
  \<open>Fault\<close>. A successful result has at least one address and at most as many as the caller has room for.
\<close>

theorem responses_read_in_bounds:
  "case ParseDnsResponse r max_ips of
     Fault \<Rightarrow> False
   | Failed _ \<Rightarrow> True
   | Addresses ips \<Rightarrow> 0 < length ips \<and> int (length ips) \<le> max_ips"
  using ParseDnsResponse_ok [where r = r and max_ips = max_ips] by (simp split: dns_result.splits)

section \<open>A name server\<close>

text \<open>
  What a name server sends for a query it answers: the identifier and the question of the query, the flags of an answer without error, and one
  record with each address, whose name points to the question.
\<close>

definition put32_be :: "u32 \<Rightarrow> byte list" where
  "put32_be x = put16_be (ucast (drop_bit 16 x)) @ put16_be (ucast x)"

definition a_record :: "u32 \<Rightarrow> u32 \<Rightarrow> byte list" where
  "a_record ttl ip = [0xC0, 0x0C] @ put16_be 1 @ put16_be 1 @ put32_be ttl @ put16_be 4 @ put32_be ip"

definition dns_reply :: "u32 \<Rightarrow> byte list \<Rightarrow> u32 list \<Rightarrow> byte list" where
  "dns_reply ttl query ips =
     take 2 query @ [0x81, 0x80] @ put16_be 1 @ put16_be (word_of_nat (length ips)) @ [0, 0, 0, 0] @ drop 12 query @ concat (map (a_record ttl) ips)"

lemma length_put_be [simp]: "length (put16_be x) = 2" "length (put32_be y) = 4" "length (a_record ttl ip) = 16"
  by (simp_all add: put16_be_def put32_be_def a_record_def)

lemma ucast_low_byte [simp]: "(ucast (x AND 0xFF) :: byte) = ucast (x :: u16)"
proof -
  have m: "(0xFF :: u16) = mask 8"
    by (simp add: mask_eq_exp_minus_1)
  show ?thesis
    unfolding m by (rule bit_word_eqI) (simp add: bit_simps)
qed

lemma join_put16: "push_bit 8 (ucast (ucast (drop_bit 8 x) :: byte)) OR ucast (ucast x :: byte) = (x :: u16)"
  by (rule bit_word_eqI) (auto simp: bit_simps)

lemma read16_put: "read16 (xs @ put16_be x @ ys) (length xs) = Some x"
  by (simp add: read16_def put16_be_def nth_append join_put16)

lemma join_put32:
  "push_bit 24 (ucast (ucast (drop_bit 8 (ucast (drop_bit 16 x) :: u16)) :: byte)) OR push_bit 16 (ucast (ucast (ucast (drop_bit 16 x) :: u16) :: byte)) OR
   push_bit 8 (ucast (ucast (drop_bit 8 (ucast x :: u16)) :: byte)) OR ucast (ucast (ucast x :: u16) :: byte) = (x :: u32)"
  by (rule bit_word_eqI) (auto simp: bit_simps)

lemma read32_put: "read32 (xs @ put32_be x @ ys) (length xs) = Some x"
  by (simp add: read32_def put32_be_def put16_be_def nth_append join_put32)

lemma label_length_byte:
  assumes "label_ok l"
  shows "(word_of_nat (length l) :: byte) AND 0xC0 \<noteq> 0xC0" "(word_of_nat (length l) :: byte) \<noteq> 0" "unat (word_of_nat (length l) :: byte) = length l"
proof -
  show u: "unat (word_of_nat (length l) :: byte) = length l"
    using assms by (simp add: label_ok_def unat_of_nat)
  show "(word_of_nat (length l) :: byte) \<noteq> 0"
    using u assms by (auto simp: label_ok_def)
  have "\<not> bit (word_of_nat (length l) :: byte) 6"
    using assms by (simp add: label_ok_def bit_of_nat_iff bit_iff_odd_drop_bit [of "length l"] drop_bit_eq_div)
  moreover have "bit (0xC0 :: byte) 6"
    by (simp add: bit_iff_odd)
  ultimately show "(word_of_nat (length l) :: byte) AND 0xC0 \<noteq> 0xC0"
    by (metis bit_and_iff)
qed

lemma SkipDnsName_pointer: "SkipDnsName (xs @ 0xC0 # b # ys) (length xs) = Some (length xs + 2)"
  by (simp add: SkipDnsName.simps)

lemma SkipDnsName_wire: "list_all label_ok ls \<Longrightarrow> SkipDnsName (xs @ dns_wire ls @ ys) (length xs) = Some (length xs + length (dns_wire ls))"
proof (induction ls arbitrary: xs)
  case (Cons l ls)
  have "SkipDnsName (xs @ dns_wire (l # ls) @ ys) (length xs) = SkipDnsName ((xs @ label_image l) @ dns_wire ls @ ys) (length (xs @ label_image l))"
    using label_length_byte [of l] Cons.prems
    by (subst SkipDnsName.simps) (simp add: dns_wire_def label_image_def nth_append)
  then show ?case
    using Cons.IH [of "xs @ label_image l"] Cons.prems by (simp add: dns_wire_def)
qed (simp add: SkipDnsName.simps dns_wire_def)


lemma read_a_record:
  assumes r: "r = xs @ a_record ttl ip @ ys" and q: "q = length xs + 2"
  shows "SkipDnsName r (length xs) = Some q" "read16 r q = Some 1" "read16 r (q + 2) = Some 1"
    "read32 r (q + 4) = Some ttl" "read16 r (q + 8) = Some 4" "read32 r (q + 10) = Some ip"
proof -
  let ?a = "xs @ [0xC0, 0x0C]"
  show "SkipDnsName r (length xs) = Some q"
    using SkipDnsName_pointer [of xs] by (simp add: r q a_record_def)
  show "read16 r q = Some 1"
    using read16_put [of ?a] by (simp add: r q a_record_def)
  show "read16 r (q + 2) = Some 1"
    using read16_put [of "?a @ put16_be 1"] by (simp add: r q a_record_def numeral_eq_Suc)
  show "read32 r (q + 4) = Some ttl"
    using read32_put [of "?a @ put16_be 1 @ put16_be 1"] by (simp add: r q a_record_def add.commute [of _ "length xs"])
  show "read16 r (q + 8) = Some 4"
    using read16_put [of "?a @ put16_be 1 @ put16_be 1 @ put32_be ttl"] by (simp add: r q a_record_def add.commute [of _ "length xs"])
  show "read32 r (q + 10) = Some ip"
    using read32_put [of "?a @ put16_be 1 @ put16_be 1 @ put32_be ttl @ put16_be 4"] by (simp add: r q a_record_def add.commute [of _ "length xs"])
qed

lemma read_answers_step:
  "length acc < m \<Longrightarrow> SkipDnsName r p = Some q \<Longrightarrow> read16 r q = Some 1 \<Longrightarrow> read16 r (q + 2) = Some 1 \<Longrightarrow>
   read32 r (q + 4) = Some ttl \<Longrightarrow> read16 r (q + 8) = Some 4 \<Longrightarrow> read32 r (q + 10) = Some ip \<Longrightarrow> q + 14 \<le> length r \<Longrightarrow>
   read_answers m (Suc n) r p acc = read_answers m n r (14 + q) (acc @ [ip])"
  by (simp add: Let_def)

lemma read_answers_records:
  "length acc \<le> m \<Longrightarrow>
   read_answers m (length ips) (xs @ concat (map (a_record ttl) ips)) (length xs) acc = Addresses (take m (acc @ ips))"
proof (induction ips arbitrary: xs acc)
  case (Cons ip ips)
  let ?ys = "concat (map (a_record ttl) ips)"
  show ?case
  proof (cases "length acc < m")
    case True
    have "read_answers m (Suc (length ips)) (xs @ a_record ttl ip @ ?ys) (length xs) acc =
        read_answers m (length ips) (xs @ a_record ttl ip @ ?ys) (14 + (length xs + 2)) (acc @ [ip])"
      using read_answers_step [OF True read_a_record [OF refl refl]] by simp
    with True Cons.IH [of "acc @ [ip]" "xs @ a_record ttl ip"] show ?thesis
      by (simp add: add.commute [of "length xs"])
  next
    case False
    with Cons.prems show ?thesis
      by simp
  qed
qed simp

lemma BuildDnsQuery_form:
  assumes "BuildDnsQuery host qid n = Some q"
  shows "q = put16_be qid @ [0x01, 0x00, 0x00, 0x01, 0x00, 0x00, 0x00, 0x00, 0x00, 0x00] @ dns_wire (dns_labels host) @ [0x00, 0x01, 0x00, 0x01]"
    "list_all label_ok (dns_labels host)"
  using assms by (auto simp: BuildDnsQuery_def EncodeDnsName_spec split: option.splits if_splits)

text \<open>The reply to any query is read as its addresses: neither the identifier nor the question is looked at.\<close>

lemma ParseDnsResponse_reply:
  assumes q: "BuildDnsQuery host qid n = Some q" and ips: "ips \<noteq> []" "length ips < 65536" and m: "0 < max_ips"
  shows "ParseDnsResponse (dns_reply ttl q ips) max_ips = Addresses (take (nat max_ips) ips)"
proof -
  define r where "r = dns_reply ttl q ips"
  let ?w = "dns_wire (dns_labels host)"
  let ?h = "put16_be qid @ put16_be 0x8180 @ put16_be 1 @ put16_be (word_of_nat (length ips)) @ [0, 0, 0, 0]"
  let ?t = "[0x00, 0x01, 0x00, 0x01] @ concat (map (a_record ttl) ips)"
  note f = BuildDnsQuery_form [OF q]
  have h: "put16_be 0x8180 = [0x81, 0x80]"
    by (simp add: put16_be_def)
  have r: "r = ?h @ ?w @ ?t"
    by (simp add: r_def dns_reply_def f(1) h)
  have reads: "read16 r 2 = Some 0x8180" "read16 r 4 = Some 1" "read16 r 6 = Some (word_of_nat (length ips))"
    using read16_put [of "put16_be qid" "0x8180"] read16_put [of "put16_be qid @ put16_be 0x8180" 1]
      read16_put [of "put16_be qid @ put16_be 0x8180 @ put16_be 1" "word_of_nat (length ips)"] by (simp_all add: r)
  have n: "unat (word_of_nat (length ips) :: u16) = length ips"
    using ips(2) by (simp add: unat_of_nat)
  then have nz: "(word_of_nat (length ips) :: u16) \<noteq> 0"
    using ips(1) by auto
  have "SkipDnsName r 12 = Some (12 + length ?w)"
    using SkipDnsName_wire [OF f(2), of ?h ?t] by (simp add: r)
  then have skip: "skip_questions 1 r 12 = Some (16 + length ?w)"
    by (simp add: r)
  define pre where "pre = ?h @ ?w @ [0x00, 0x01, 0x00, 0x01]"
  have "r = pre @ concat (map (a_record ttl) ips)" "16 + length ?w = length pre"
    by (simp_all add: r pre_def)
  then have "read_answers (nat max_ips) (length ips) r (16 + length ?w) [] = Addresses (take (nat max_ips) ips)"
    by (simp add: read_answers_records)
  moreover have "take (nat max_ips) ips \<noteq> []" "\<not> length r < 12"
    using ips(1) m by (simp_all add: r)
  ultimately show ?thesis
    using reads n nz skip m unfolding r_def [symmetric]
    by (simp add: ParseDnsResponse_def finish_answers_def split: list.split)
qed


section \<open>The records of a result\<close>

text \<open>
  The store after a successful call, seen as a whole: the nodes at the addresses of a list, each linked to the next, over the store before.
\<close>

definition chain_head :: "nat list \<Rightarrow> nat option" where
  "chain_head as = (case as of [] \<Rightarrow> None | a # _ \<Rightarrow> Some a)"

fun put_chain :: "(u32 \<Rightarrow> addrinfo) \<Rightarrow> nat list \<Rightarrow> u32 list \<Rightarrow> ai_heap \<Rightarrow> ai_heap" where
  "put_chain mk (a # as) (ip # ips) h =
     (put_chain mk as ips h)(a \<mapsto> (mk ip)\<lparr>ai_next := chain_head as\<rparr>)"
| "put_chain mk _ _ h = h"

definition fresh_for :: "nat list \<Rightarrow> ai_heap \<Rightarrow> bool" where
  "fresh_for as h \<longleftrightarrow> distinct as \<and> (\<forall>a\<in>set as. h a = None)"

text \<open>The allocator never hands out memory in use.\<close>

definition fresh_alloc :: "(ai_heap \<Rightarrow> nat option) \<Rightarrow> bool" where
  "fresh_alloc malloc \<longleftrightarrow> (\<forall>h a. malloc h = Some a \<longrightarrow> h a = None)"

lemma put_chain_outside: "a \<notin> set as \<Longrightarrow> put_chain mk as ips h a = h a"
  by (induction mk as ips h rule: put_chain.induct) auto

lemma put_chain_upd: "a \<notin> set as \<Longrightarrow> (put_chain mk as ips h)(a := v) = put_chain mk as ips (h(a := v))"
  by (induction mk as ips h rule: put_chain.induct) (auto simp: fun_upd_twist)

lemma chain_head_simps [simp]: "chain_head [] = None" "chain_head (a # as) = Some a" "as \<noteq> [] \<Longrightarrow> chain_head (as @ bs) = chain_head as"
  by (auto simp: chain_head_def split: list.split)

lemma ai_next_unchanged: "ai_next n = None \<Longrightarrow> n\<lparr>ai_next := None\<rparr> = n"
  by (cases n) simp

lemma put_chain_snoc:
  assumes "\<And>ip. ai_next (mk ip) = None" "length as = length ips" "as \<noteq> []" "a \<notin> set as" "distinct as"
  shows "\<exists>n. put_chain mk as ips h (last as) = Some n \<and>
    (put_chain mk as ips h)(a \<mapsto> mk ip, last as \<mapsto> n\<lparr>ai_next := Some a\<rparr>) = put_chain mk (as @ [a]) (ips @ [ip]) h"
  using assms(2-)
proof (induction as ips rule: list_induct2')
  case (4 x xs y ys)
  show ?case
  proof (cases "xs = []")
    case True
    with 4 show ?thesis
      by (auto simp: ai_next_unchanged assms(1) fun_upd_twist)
  next
    case False
    then obtain n where n: "put_chain mk xs ys h (last xs) = Some n"
      and P: "(put_chain mk xs ys h)(a \<mapsto> mk ip, last xs \<mapsto> n\<lparr>ai_next := Some a\<rparr>) = put_chain mk (xs @ [a]) (ys @ [ip]) h"
      using 4(1) 4(2-) False by (auto simp del: fun_upd_apply)
    have x: "x \<noteq> last xs" "x \<noteq> a"
      using 4 False by auto
    show ?thesis
      using False n x by (auto simp: P [symmetric] fun_upd_twist)
  qed
qed auto

lemma freeaddrinfo_chain: "fresh_for as h \<Longrightarrow> length as = length ips \<Longrightarrow> freeaddrinfo (chain_head as) (put_chain mk as ips h) = Some h"
proof (induction as ips rule: list_induct2')
  case (4 x xs y ys)
  have "(put_chain mk xs ys h)(x := None) = put_chain mk xs ys h"
    using 4(2) by (simp add: fresh_for_def put_chain_upd fun_upd_idem)
  then have "freeaddrinfo (chain_head (x # xs)) (put_chain mk (x # xs) (y # ys) h) = freeaddrinfo (chain_head xs) (put_chain mk xs ys h)"
    by (subst freeaddrinfo.simps) simp
  also have "\<dots> = Some h"
    using 4 by (simp add: fresh_for_def)
  finally show ?case .
qed (simp_all add: freeaddrinfo.simps)

text \<open>The loop keeps the chain: the nodes made so far are those of a fresh list of addresses over the first store.\<close>

lemma link_results_chain:
  assumes mk: "\<And>ip. ai_next (mk ip) = None" and malloc: "fresh_alloc malloc"
  shows "fresh_for as h \<Longrightarrow> length as = length made \<Longrightarrow>
    link_results malloc mk ips (chain_head as) (if as = [] then None else Some (last as)) (put_chain mk as made h) = Some (Inl GAI_MEMORY, h) \<or>
    (\<exists>bs. fresh_for bs h \<and> length bs = length (made @ ips) \<and>
      link_results malloc mk ips (chain_head as) (if as = [] then None else Some (last as)) (put_chain mk as made h) =
        Some (Inr (chain_head bs), put_chain mk bs (made @ ips) h))"
proof (induction ips arbitrary: as made)
  case Nil
  then show ?case
    by auto
next
  case (Cons ip ips)
  let ?h = "put_chain mk as made h"
  show ?case
  proof (cases "malloc ?h")
    case None
    then show ?thesis
      using freeaddrinfo_chain [OF Cons.prems] Cons.prems(2) by (cases as) auto
  next
    case (Some a)
    then have "?h a = None"
      using malloc by (auto simp: fresh_alloc_def)
    moreover have "a \<notin> set as"
    proof
      assume "a \<in> set as"
      then show False
        using Cons.prems(2) \<open>?h a = None\<close> by (induction as made rule: list_induct2') (auto split: if_splits)
    qed
    ultimately have f: "fresh_for (as @ [a]) h" "length (as @ [a]) = length (made @ [ip])"
      using Cons.prems by (auto simp: fresh_for_def put_chain_outside)
    have "link_results malloc mk (ip # ips) (chain_head as) (if as = [] then None else Some (last as)) ?h =
        link_results malloc mk ips (chain_head (as @ [a])) (Some a) (put_chain mk (as @ [a]) (made @ [ip]) h)"
    proof (cases as)
      case Nil
      then show ?thesis
        using Some Cons.prems(2) by (simp add: ai_next_unchanged mk)
    next
      case (Cons x xs)
      then obtain n where "?h (last as) = Some n"
        "?h(a \<mapsto> mk ip, last as \<mapsto> n\<lparr>ai_next := Some a\<rparr>) = put_chain mk (as @ [a]) (made @ [ip]) h"
        using put_chain_snoc [of mk as made a h ip, OF mk] f \<open>a \<notin> set as\<close> by (auto simp: fresh_for_def)
      then show ?thesis
        using Some Cons \<open>a \<notin> set as\<close> by auto
    qed
    then show ?thesis
      using Cons.IH [OF f] by simp
  qed
qed


lemma make_addrinfo_next [simp]: "ai_next (make_addrinfo hints port ip) = None"
  by (simp add: make_addrinfo_def)

lemma single_result_chain:
  assumes "ai_next n = None" "fresh_alloc malloc"
  shows "single_result malloc n h = (Inl GAI_MEMORY, h) \<or>
    (\<exists>a. fresh_for [a] h \<and> single_result malloc n h = (Inr (chain_head [a]), put_chain (\<lambda>_. n) [a] [ip] h))"
  using assms by (auto simp: single_result_def fresh_alloc_def fresh_for_def ai_next_unchanged split: option.split)

lemma link_results_from_empty:
  assumes "\<And>ip. ai_next (mk ip) = None" "fresh_alloc malloc"
  shows "link_results malloc mk ips None None h = Some (Inl GAI_MEMORY, h) \<or>
    (\<exists>as. fresh_for as h \<and> length as = length ips \<and>
      link_results malloc mk ips None None h = Some (Inr (chain_head as), put_chain mk as ips h))"
  using link_results_chain [where as = "[]" and made = "[]" and ips = ips and h = h, OF assms] by (simp add: fresh_for_def)

text \<open>Both ways to a result in one statement: an error with the store unchanged, or a chain over it that is freed to the store before.\<close>

definition clean_result :: "ai_heap \<Rightarrow> ((gai_error + nat option) \<times> ai_heap) option \<Rightarrow> bool" where
  "clean_result h out =
     (case out of
        None \<Rightarrow> False
      | Some (Inl _, h') \<Rightarrow> h' = h
      | Some (Inr p, h') \<Rightarrow> p \<noteq> None \<and> freeaddrinfo p h' = Some h)"

lemma clean_chain: "fresh_for as h \<Longrightarrow> length as = length ips \<Longrightarrow> as \<noteq> [] \<Longrightarrow> clean_result h (Some (Inr (chain_head as), put_chain mk as ips h))"
  using freeaddrinfo_chain [of as h ips mk] by (cases as) (auto simp: clean_result_def simp del: put_chain.simps)

lemma clean_error [simp]: "clean_result h (Some (Inl e, h))"
  by (simp add: clean_result_def)

lemma clean_single: "ai_next n = None \<Longrightarrow> fresh_alloc malloc \<Longrightarrow> clean_result h (Some (single_result malloc n h))"
  using single_result_chain [of n malloc h 0] clean_chain [of "[_]" h "[0]" "\<lambda>_. n"] by (auto simp del: put_chain.simps)

lemma clean_link:
  assumes "\<And>ip. ai_next (mk ip) = None" "fresh_alloc malloc" "ips \<noteq> []"
  shows "clean_result h (link_results malloc mk ips None None h)"
  using link_results_from_empty [where mk = mk and malloc = malloc and ips = ips and h = h, OF assms(1,2)]
proof
  assume "\<exists>as. fresh_for as h \<and> length as = length ips \<and> link_results malloc mk ips None None h = Some (Inr (chain_head as), put_chain mk as ips h)"
  then obtain as where "fresh_for as h" "length as = length ips" "link_results malloc mk ips None None h = Some (Inr (chain_head as), put_chain mk as ips h)"
    by blast
  with assms(3) clean_chain [of as h ips mk] show ?thesis
    by fastforce
qed simp

definition usable :: "dns_result \<Rightarrow> bool" where
  "usable res = (case res of Fault \<Rightarrow> False | Failed _ \<Rightarrow> True | Addresses ips \<Rightarrow> ips \<noteq> [])"

lemma resolved_usable: "usable (fst (ResolveHostnameDns io host m qid))"
proof -
  have "usable (ParseDnsResponse r m)" for r
    using ParseDnsResponse_ok [where r = r and max_ips = m] by (auto simp: usable_def split: dns_result.splits)
  then show ?thesis
    by (simp add: ResolveHostnameDns_def Let_def usable_def [of "Failed _"] split: option.split)
qed

lemma clean_resolved:
  assumes "fresh_alloc malloc"
  shows "clean_result h
    (case fst (ResolveHostnameDns io n m qid) of
       Fault \<Rightarrow> None
     | Failed er \<Rightarrow> Some (Inl (gai_of er), h)
     | Addresses ips \<Rightarrow> link_results malloc (make_addrinfo hints port) ips None None h)"
  using resolved_usable [of io n m qid] clean_link [where mk = "make_addrinfo hints port", OF make_addrinfo_next assms]
  by (simp add: usable_def split: dns_result.splits)

text \<open>
  C21: with an allocator that hands out only unused memory, the wrapped \<^verbatim>\<open>getaddrinfo\<close> never reads or frees memory that is not its own, for any
  arguments, any answers of the system and any bytes from the network. When it fails, also half way through the list, the memory is as before the call;
  when it succeeds there is a result, and \<^verbatim>\<open>freeaddrinfo\<close> on it ends and gives back exactly the memory that was taken.
\<close>

theorem getaddrinfo_memory_safe:
  assumes "fresh_alloc malloc"
  shows "case getaddrinfo io malloc next_id node service hints res_given h of
      None \<Rightarrow> False
    | Some (Inl _, h') \<Rightarrow> h' = h
    | Some (Inr p, h') \<Rightarrow> p \<noteq> None \<and> freeaddrinfo p h' = Some h"
proof -
  have "clean_result h (getaddrinfo io malloc next_id node service hints res_given h)"
    using clean_single [OF make_addrinfo_next assms, of h] clean_resolved [where h = h and io = io and m = 8 and qid = next_id, OF assms]
    by (cases node) (simp_all add: getaddrinfo_def Let_def split: option.split)
  then show ?thesis
    by (simp add: clean_result_def)
qed


text \<open>A store with two places, and a name server that answers every query it can with one address.\<close>

definition two_cells :: "ai_heap \<Rightarrow> nat option" where
  "two_cells h = (if h 0 = None then Some 0 else if h 1 = None then Some 1 else None)"

lemma two_cells_fresh: "fresh_alloc two_cells"
  by (auto simp: fresh_alloc_def two_cells_def split: if_splits)

definition answering :: "byte list \<Rightarrow> dns_io" where
  "answering reply = \<lparr>di_servers = Some (0, 0x0100A8C0), di_socket = True, di_send = (\<lambda>_ _. True), di_recv = Some reply\<rparr>"

theorem getaddrinfo_memory_safe_witness:
  "fresh_alloc two_cells \<and>
   (case getaddrinfo (answering [1, 2, 3]) two_cells 7 (Some ''host'') (Some ''80'') None True Map.empty of
      None \<Rightarrow> False
    | Some (Inl _, h') \<Rightarrow> h' = Map.empty
    | Some (Inr p, h') \<Rightarrow> p \<noteq> None \<and> freeaddrinfo p h' = Some Map.empty)"
  using two_cells_fresh getaddrinfo_memory_safe [where io = "answering [1, 2, 3]" and next_id = 7 and node = "Some ''host''" and service = "Some ''80''" and hints = None and res_given = True and h = Map.empty,
      OF two_cells_fresh] by blast

lemma dns_reply_length: "length (dns_reply ttl q ips) \<le> n \<Longrightarrow> 16 * length ips \<le> n"
  by (simp add: dns_reply_def length_concat o_def sum_list_triv)

lemma resolve_reply:
  assumes "BuildDnsQuery host qid 512 = Some q" "di_socket io" "di_send io (snd (GetDnsServerIp io)) q"
    and "BuildDnsQuery host2 qid2 512 = Some q2" "di_recv io = Some (dns_reply ttl q2 ips)" "length (dns_reply ttl q2 ips) \<le> 512"
    and "ips \<noteq> []" "0 < m"
  shows "ResolveHostnameDns io host m qid = (Addresses (take (nat m) ips), qid + 1)"
proof -
  have "length ips < 65536"
    using dns_reply_length [OF assms(6)] by simp
  then have "ParseDnsResponse (dns_reply ttl q2 ips) m = Addresses (take (nat m) ips)"
    using ParseDnsResponse_reply [OF assms(4)] assms(7,8) by blast
  moreover from this have "dns_reply ttl q2 ips \<noteq> []"
    by (auto simp: ParseDnsResponse_def)
  ultimately show ?thesis
    using assms by (simp add: ResolveHostnameDns_def Let_def)
qed

text \<open>
  C13: a name is looked up from end to end. When the name server answers the query that was sent with the addresses of the name, \<^verbatim>\<open>getaddrinfo\<close>
  gives the first eight of them, in the order of the answer, each in a record with the port and the hints of the caller, linked into one list over
  otherwise unchanged memory. The only other outcome is that memory runs out, which leaves everything as it was.
\<close>

theorem name_lookup_end_to_end:
  assumes query: "BuildDnsQuery host next_id 512 = Some q" "numeric_address host = None"
    and sent: "di_socket io" "di_send io (snd (GetDnsServerIp io)) q"
    and reply: "di_recv io = Some (dns_reply ttl q ips)" "length (dns_reply ttl q ips) \<le> 512" "ips \<noteq> []"
    and fam: "gh_family hints = AF_UNSPEC \<or> gh_family hints = AF_INET"
    and malloc: "fresh_alloc malloc"
  shows "getaddrinfo io malloc next_id (Some host) (Some service) (Some hints) True h = Some (Inl GAI_MEMORY, h) \<or>
    (\<exists>as. fresh_for as h \<and> length as = length (take 8 ips) \<and>
      getaddrinfo io malloc next_id (Some host) (Some service) (Some hints) True h =
        Some (Inr (chain_head as), put_chain (make_addrinfo (Some hints) (word_of_int (atoi service))) as (take 8 ips) h))"
proof -
  have "getaddrinfo io malloc next_id (Some host) (Some service) (Some hints) True h =
      link_results malloc (make_addrinfo (Some hints) (word_of_int (atoi service))) (take 8 ips) None None h"
    using fam query(2) resolve_reply [OF query(1) sent query(1) reply, of 8] by (auto simp: getaddrinfo_def Let_def AF_UNSPEC_def AF_INET_def)
  then show ?thesis
    using link_results_from_empty [where ips = "take 8 ips" and h = h and mk = "make_addrinfo (Some hints) (word_of_int (atoi service))", OF make_addrinfo_next malloc]
    by simp
qed

definition plain_hints :: gai_hints where
  "plain_hints = \<lparr>gh_family = AF_INET, gh_socktype = 1, gh_protocol = 0, gh_passive = False\<rparr>"

lemma query_host: "BuildDnsQuery ''a.b'' 7 512 = Some [0, 7, 1, 0, 0, 1, 0, 0, 0, 0, 0, 0, 1, 97, 1, 98, 0, 0, 1, 0, 1]"
  by (simp add: BuildDnsQuery_def EncodeDnsName_def encode_labels.simps put16_be_def)

lemma host_not_numeric: "numeric_address ''a.b'' = None"
  by (simp add: numeric_address_def inet_pton_def)

theorem name_lookup_end_to_end_witness:
  "getaddrinfo (answering (dns_reply 60 [0, 7, 1, 0, 0, 1, 0, 0, 0, 0, 0, 0, 1, 97, 1, 98, 0, 0, 1, 0, 1] [0x01020304])) two_cells 7
     (Some ''a.b'') (Some ''80'') (Some plain_hints) True Map.empty =
   Some (Inr (Some 0), [0 \<mapsto> \<lparr>ai_family = 2, ai_socktype = 1, ai_protocol = 0, ai_addr = 0x01020304, ai_port = 80, ai_next = None\<rparr>])"
proof -
  let ?q = "[0, 7, 1, 0, 0, 1, 0, 0, 0, 0, 0, 0, 1, 97, 1, 98, 0, 0, 1, 0, 1] :: byte list"
  let ?g = "getaddrinfo (answering (dns_reply 60 ?q [0x01020304])) two_cells 7 (Some ''a.b'') (Some ''80'') (Some plain_hints) True Map.empty"
  have port: "atoi ''80'' = 80"
    by (simp add: atoi_def scan_space_def dec_digit_def digits_value_def)
  have "?g = Some (Inl GAI_MEMORY, Map.empty) \<or>
      (\<exists>as. fresh_for as Map.empty \<and> length as = length (take 8 [0x01020304 :: u32]) \<and>
        ?g = Some (Inr (chain_head as), put_chain (make_addrinfo (Some plain_hints) (word_of_int (atoi ''80''))) as (take 8 [0x01020304]) Map.empty))"
    by (rule name_lookup_end_to_end [where q = ?q and ttl = 60])
      (simp_all add: query_host host_not_numeric answering_def dns_reply_def put16_be_def plain_hints_def two_cells_fresh)
  moreover have "fst (the ?g) = Inr (Some 0)"
    using resolve_reply [OF query_host _ _ query_host, of "answering (dns_reply 60 ?q [0x01020304])" 60 "[0x01020304]" 8]
    by (simp add: answering_def dns_reply_def put16_be_def getaddrinfo_def plain_hints_def AF_INET_def AF_UNSPEC_def host_not_numeric two_cells_def)
  ultimately show ?thesis
    by (auto simp: port make_addrinfo_def plain_hints_def AF_INET_def length_Suc_conv)
qed

text \<open>
  An answer is not compared with the question. Neither the identifier nor the name of a response is looked at, and the sender is not checked
  either: the answer to a query for another name with another identifier, whoever sends it, is taken as the addresses of the name that was asked for.
\<close>

theorem foreign_answer_accepted:
  assumes "BuildDnsQuery host qid 512 = Some q" "di_socket io" "di_send io (snd (GetDnsServerIp io)) q"
    and "BuildDnsQuery other_host other_qid 512 = Some other_q" "di_recv io = Some (dns_reply ttl other_q ips)"
    and "length (dns_reply ttl other_q ips) \<le> 512" "ips \<noteq> []" "0 < max_ips"
  shows "ResolveHostnameDns io host max_ips qid = (Addresses (take (nat max_ips) ips), qid + 1)"
  using resolve_reply [OF assms] .

theorem foreign_answer_accepted_witness:
  "ResolveHostnameDns (answering (dns_reply 60 [0, 7, 1, 0, 0, 1, 0, 0, 0, 0, 0, 0, 1, 97, 1, 98, 0, 0, 1, 0, 1] [0x06060606])) ''ldn.example'' 8 0x1234 =
   (Addresses [0x06060606], 0x1235)"
proof -
  obtain q where "BuildDnsQuery ''ldn.example'' 0x1234 512 = Some q"
    by (simp add: BuildDnsQuery_def EncodeDnsName_def encode_labels.simps)
  from foreign_answer_accepted [OF this _ _ query_host, of "answering (dns_reply 60 [0, 7, 1, 0, 0, 1, 0, 0, 0, 0, 0, 0, 1, 97, 1, 98, 0, 0, 1, 0, 1] [0x06060606])" 60 "[0x06060606]" 8]
  show ?thesis
    by (simp add: answering_def dns_reply_def put16_be_def)
qed


section \<open>Addresses as text\<close>

lemma decimal_no_leading_zero: "0 < n \<Longrightarrow> hd (decimal n) \<noteq> CHR ''0''"
proof (induction n rule: decimal.induct)
  case (1 n)
  show ?case
  proof (cases "n < 10")
    case True
    have "of_char (char_of (48 + n) :: char) \<noteq> (of_char CHR ''0'' :: nat)"
      using True 1(2) by simp
    then show ?thesis
      using True by (metis decimal_rec(2) list.sel(1))
  next
    case False
    then show ?thesis
      using 1 by (simp add: decimal_rec hd_append)
  qed
qed

lemma dec_digit_is_digit: "is_digit c \<Longrightarrow> dec_digit c"
  by (auto simp: is_digit_def dec_digit_def)

lemma digits_value_decimal: "digits_value (decimal n) = n"
  using decimal_value [of n] by (simp add: digits_value_def digit_value_def)

lemma octet_decimal:
  assumes "n \<le> 255"
  shows "octet_ok (decimal n)"
proof -
  have "list_all dec_digit (decimal n)"
    unfolding list_all_iff using decimal_digits dec_digit_is_digit by blast
  moreover have "hd (decimal n) = CHR ''0'' \<longrightarrow> length (decimal n) = 1"
    using decimal_no_leading_zero [of n] by (cases "n = 0") (simp_all add: decimal.simps [of 0])
  ultimately show ?thesis
    using assms by (simp add: octet_ok_def digits_value_decimal)
qed

lemma decimal_no_dot: "CHR ''.'' \<notin> set (decimal n)"
  using decimal_digits [of "CHR ''.''" n] by (auto simp: is_digit_def)

lemma inet_pton_dots:
  "a \<le> 255 \<Longrightarrow> b \<le> 255 \<Longrightarrow> c \<le> 255 \<Longrightarrow> d \<le> 255 \<Longrightarrow>
   inet_pton (decimal a @ ''.'' @ decimal b @ ''.'' @ decimal c @ ''.'' @ decimal d) = Some [word_of_nat a, word_of_nat b, word_of_nat c, word_of_nat d]"
  by (simp add: inet_pton_def split_dots_append split_dots_nodot decimal_no_dot octet_decimal digits_value_decimal)

text \<open>The four bytes of an address, as numbers.\<close>

lemma unat_low_byte: "unat (x AND 0xFF :: u32) = unat x mod 256"
proof -
  have "(0xFF :: u32) = mask 8"
    by (simp add: mask_eq_exp_minus_1)
  then have "x AND 0xFF = take_bit 8 x"
    by (simp only: take_bit_eq_mask)
  then show ?thesis
    by (simp add: unat_mod_distrib take_bit_eq_mod)
qed

lemma unat_high_byte: "unat (drop_bit 24 ip :: u32) \<le> 255"
proof -
  have "unat ip div 16777216 < 256"
    using unat_u32_bound [of ip] by (simp add: div_less_iff_less_mult)
  then show ?thesis
    unfolding unat_drop_bit_eq by (simp add: drop_bit_eq_div)
qed

lemma byte_of_unat: "(word_of_nat (unat (w :: u32)) :: byte) = ucast w"
  by simp

lemma byte_of_mod: "(word_of_nat (unat (w :: u32) mod 256) :: byte) = ucast w"
proof -
  have "(word_of_nat (m mod 256) :: byte) = word_of_nat m" for m
    by (simp add: word_of_nat_eq_iff take_bit_eq_mod)
  then show ?thesis
    by (simp add: byte_of_unat)
qed

lemma mod_255: "m mod 256 \<le> (255 :: nat)"
  using mod_less_divisor [of 256 m] by linarith

lemma join_octets:
  "push_bit 24 (ucast (ucast (drop_bit 24 x) :: byte)) OR push_bit 16 (ucast (ucast (drop_bit 16 x) :: byte)) OR
   push_bit 8 (ucast (ucast (drop_bit 8 x) :: byte)) OR ucast (ucast x :: byte) = (x :: u32)"
proof (rule bit_word_eqI)
  fix n :: nat
  assume "n < LENGTH(32)"
  then consider "n < 8" | "8 \<le> n \<and> n < 16" | "16 \<le> n \<and> n < 24" | "24 \<le> n \<and> n < 32"
    by fastforce
  then show "bit (push_bit 24 (ucast (ucast (drop_bit 24 x) :: byte)) OR push_bit 16 (ucast (ucast (drop_bit 16 x) :: byte)) OR
      push_bit 8 (ucast (ucast (drop_bit 8 x) :: byte)) OR ucast (ucast x :: byte) :: u32) n = bit x n"
    by cases (auto simp: bit_simps)
qed

lemma inet_ntop_parts:
  "inet_ntop ip = decimal (unat (drop_bit 24 ip)) @ ''.'' @ decimal (unat (drop_bit 16 ip) mod 256) @ ''.'' @
     decimal (unat (drop_bit 8 ip) mod 256) @ ''.'' @ decimal (unat ip mod 256)"
  by (simp add: inet_ntop_def unat_low_byte)

lemma numeric_inet_ntop: "numeric_address (inet_ntop ip) = Some ip"
proof -
  have "inet_pton (inet_ntop ip) = Some [ucast (drop_bit 24 ip), ucast (drop_bit 16 ip), ucast (drop_bit 8 ip), ucast ip]"
    unfolding inet_ntop_parts
    by (subst inet_pton_dots) (simp_all add: unat_high_byte byte_of_unat byte_of_mod mod_255)
  then show ?thesis
    by (simp add: numeric_address_def join_octets)
qed

lemma length_inet_ntop: "length (inet_ntop ip) \<le> 15"
proof -
  have "length (decimal n) \<le> 3" if "n < 256" for n
    using that by (intro length_decimal) auto
  from this [of "unat (drop_bit 24 ip)"] this [of "unat (drop_bit 16 ip) mod 256"] this [of "unat (drop_bit 8 ip) mod 256"] this [of "unat ip mod 256"]
  show ?thesis
    using unat_high_byte [of ip] by (simp add: inet_ntop_parts)
qed

text \<open>
  The text of an address that \<^verbatim>\<open>getnameinfo\<close> writes is read back by \<^verbatim>\<open>getaddrinfo\<close> as the same address, without asking a name server; a
  buffer of 16 characters is always large enough.
\<close>

theorem address_text_roundtrip:
  "getnameinfo True AF_INET ip port 16 0 = Inr (Some (inet_ntop ip), None) \<and>
   getaddrinfo io malloc next_id (Some (inet_ntop ip)) None None True h = Some (single_result malloc (make_addrinfo None 0 ip) h)"
  using length_inet_ntop [of ip] by (simp add: getnameinfo_def getaddrinfo_def numeric_inet_ntop)

end
