(* ===== verification/Debug_Log.thy ===== *)
theory Debug_Log
  imports Ring Config_File
begin

text \<open>
  The logger, \<^verbatim>\<open>debug/log.hpp\<close> and \<^verbatim>\<open>log.cpp\<close> in the build for the console: formatting, the ring of recent messages and the log file that is opened
  when a message comes and closed after a time of silence. A message is the text its format and arguments stand for. The log file is part of the
  state; what the file system answers is an argument of each call, and so is the function that says what a write at an offset leaves in a file.
\<close>

section \<open>Messages\<close>

definition MAX_LOG_MESSAGE_LENGTH :: nat where "MAX_LOG_MESSAGE_LENGTH = 256"
definition MAX_LOG_BUFFER_ENTRIES :: nat where "MAX_LOG_BUFFER_ENTRIES = 64"
definition DEFAULT_LOG_PATH :: string where "DEFAULT_LOG_PATH = ''sdmc:/config/ryu_ldn_nx/ryu_ldn_nx.log''"
definition FILE_IDLE_TIMEOUT_NS :: u64 where "FILE_IDLE_TIMEOUT_NS = 5000000000"

datatype LogLevel = LevelError | LevelWarning | LevelInfo | LevelVerbose

fun level_number :: "LogLevel \<Rightarrow> u32" where
  "level_number LevelError = 0"
| "level_number LevelWarning = 1"
| "level_number LevelInfo = 2"
| "level_number LevelVerbose = 3"

fun log_level_to_string :: "LogLevel \<Rightarrow> string" where
  "log_level_to_string LevelError = ''ERROR''"
| "log_level_to_string LevelWarning = ''WARN''"
| "log_level_to_string LevelInfo = ''INFO''"
| "log_level_to_string LevelVerbose = ''VERBOSE''"

text \<open>The copy stops at a zero character or after \<open>n\<close> characters.\<close>

fun log_strcpy :: "string \<Rightarrow> nat \<Rightarrow> string" where
  "log_strcpy _ 0 = []"
| "log_strcpy [] _ = []"
| "log_strcpy (c # cs) (Suc n) = (if c = CHR 0x00 then [] else c # log_strcpy cs n)"

text \<open>The counter is printed with at least six digits.\<close>

definition get_timestamp :: "u32 \<Rightarrow> string \<times> u32" where
  "get_timestamp s_log_counter =
     (let d = decimal (unat s_log_counter) in (replicate (6 - length d) CHR ''0'' @ d, s_log_counter + 1))"

text \<open>The text left in a buffer of \<open>n\<close> characters, and the counter; the old text stays when there is no buffer.\<close>

definition format_log_message_v :: "nat \<Rightarrow> LogLevel \<Rightarrow> string \<Rightarrow> u32 \<Rightarrow> string option \<times> u32" where
  "format_log_message_v buffer_size level body cnt =
     (if buffer_size = 0 then (None, cnt)
      else
        let (timestamp, cnt) = get_timestamp cnt;
            prefix = ''['' @ timestamp @ ''] ['' @ log_level_to_string level @ ''] ''
        in if length prefix \<ge> buffer_size then (Some (take (buffer_size - 1) prefix), cnt)
           else (Some (prefix @ take (buffer_size - length prefix - 1) body), cnt))"

section \<open>The ring of recent messages\<close>

record LogBuffer =
  lb_messages :: "string list"
  lb_capacity :: nat
  lb_count :: nat
  lb_head :: nat
  lb_tail :: nat

definition lb_new :: LogBuffer where
  "lb_new = \<lparr>lb_messages = replicate MAX_LOG_BUFFER_ENTRIES [], lb_capacity = MAX_LOG_BUFFER_ENTRIES, lb_count = 0, lb_head = 0, lb_tail = 0\<rparr>"

definition lb_clear :: "LogBuffer \<Rightarrow> LogBuffer" where
  "lb_clear b = b\<lparr>lb_count := 0, lb_head := 0, lb_tail := 0\<rparr>"

definition lb_init :: "nat \<Rightarrow> LogBuffer \<Rightarrow> LogBuffer" where
  "lb_init capacity b = lb_clear (b\<lparr>lb_capacity := (if capacity > MAX_LOG_BUFFER_ENTRIES then MAX_LOG_BUFFER_ENTRIES else capacity)\<rparr>)"

definition lb_add :: "LogBuffer \<Rightarrow> string option \<Rightarrow> LogBuffer" where
  "lb_add b message =
     (case message of
        None \<Rightarrow> b
      | Some m \<Rightarrow>
          if lb_capacity b = 0 then b
          else
            let b = b\<lparr>lb_messages := (lb_messages b)[lb_tail b := log_strcpy m (MAX_LOG_MESSAGE_LENGTH - 1)]\<rparr>;
                b = b\<lparr>lb_tail := (lb_tail b + 1) mod lb_capacity b\<rparr>
            in if lb_count b = lb_capacity b then b\<lparr>lb_head := (lb_head b + 1) mod lb_capacity b\<rparr>
               else b\<lparr>lb_count := lb_count b + 1\<rparr>)"

definition lb_get :: "LogBuffer \<Rightarrow> nat \<Rightarrow> string option" where
  "lb_get b index = (if index \<ge> lb_count b then None else Some (lb_messages b ! ((lb_head b + index) mod lb_capacity b)))"

text \<open>The loop of \<^verbatim>\<open>get_all\<close> from message \<open>i\<close> on, with the characters written so far.\<close>

function get_all_loop :: "LogBuffer \<Rightarrow> nat \<Rightarrow> nat \<Rightarrow> string \<Rightarrow> string" where
  "get_all_loop b buffer_size i out =
     (if i < lb_count b \<and> length out < buffer_size - 1
      then case lb_get b i of
             None \<Rightarrow> get_all_loop b buffer_size (i + 1) out
           | Some msg \<Rightarrow>
               let remaining = buffer_size - length out - 1;
                   msg_len = (if length msg > remaining then remaining else length msg);
                   out = out @ take msg_len msg
               in get_all_loop b buffer_size (i + 1) (if length out < buffer_size - 1 then out @ [CHR 0x0A] else out)
      else out)"
  by pat_completeness auto
termination
  by (relation "measure (\<lambda>(b, n, i, out). lb_count b - i)") auto

declare get_all_loop.simps [simp del]

definition lb_get_all :: "LogBuffer \<Rightarrow> nat \<Rightarrow> string option" where
  "lb_get_all b buffer_size = (if buffer_size = 0 then None else Some (get_all_loop b buffer_size 0 []))"

section \<open>The logger\<close>

text \<open>The static counter of the time stamps, the console and the log file are fields next to those of the class.\<close>

record Logger =
  lg_enabled :: bool
  lg_level :: u32
  lg_log_to_file :: bool
  lg_log_path :: string
  lg_buffer :: LogBuffer
  lg_file_open :: bool
  lg_file_offset :: nat
  lg_last_write_tick :: u64
  lg_header_written :: bool
  s_log_counter :: u32
  lg_console :: "string list"
  lg_file :: "string option"
  lg_directories :: "string list"

text \<open>
  The answers of the file system, the clock and its conversion to nanoseconds. \<open>lo_write off data content\<close> is what a write leaves in a file; a failed
  one may leave anything.
\<close>

record log_io =
  lo_create :: bool
  lo_open :: bool
  lo_size :: bool
  lo_write :: "nat \<Rightarrow> string \<Rightarrow> string \<Rightarrow> string"
  lo_tick :: u64
  lo_ticks_to_ns :: "u64 \<Rightarrow> u64"

definition lg_new :: "string option \<Rightarrow> Logger" where
  "lg_new content = \<lparr>lg_enabled = False, lg_level = 1, lg_log_to_file = False, lg_log_path = [], lg_buffer = lb_new, lg_file_open = False, lg_file_offset = 0,
     lg_last_write_tick = 0, lg_header_written = False, s_log_counter = 0, lg_console = [], lg_file = content, lg_directories = []\<rparr>"

definition write_log :: "log_io \<Rightarrow> string \<Rightarrow> Logger \<Rightarrow> Logger" where
  "write_log io data g = g\<lparr>lg_file := map_option (lo_write io (lg_file_offset g) data) (lg_file g), lg_file_offset := lg_file_offset g + length data\<rparr>"

definition close_file :: "Logger \<Rightarrow> Logger" where
  "close_file g = (if lg_file_open g then g\<lparr>lg_file_open := False\<rparr> else g)"

definition LOG_HEADER :: string where
  "LOG_HEADER = [CHR 0x0A] @ ''=== ryu_ldn_nx Log Started ==='' @ [CHR 0x0A]"

text \<open>The part of a path before its last slash.\<close>

definition parent_directory :: "string \<Rightarrow> string option" where
  "parent_directory path = (if CHR ''/'' \<in> set path then Some (rev (tl (dropWhile (\<lambda>c. c \<noteq> CHR ''/'') (rev path)))) else None)"

definition open_file :: "log_io \<Rightarrow> Logger \<Rightarrow> Logger" where
  "open_file io g =
     (if lg_file_open g then g
      else
        let g = (case parent_directory (log_strcpy (lg_log_path g) 255) of
                   None \<Rightarrow> g
                 | Some d \<Rightarrow> g\<lparr>lg_directories := d # lg_directories g\<rparr>);
            g = (if lg_file g = None \<and> lo_create io then g\<lparr>lg_file := Some []\<rparr> else g)
        in if lg_file g \<noteq> None \<and> lo_open io
           then
             let g = g\<lparr>lg_file_open := True\<rparr>;
                 g = (if lo_size io then g\<lparr>lg_file_offset := length (the (lg_file g))\<rparr> else g);
                 g = (if \<not> lg_header_written g then (write_log io LOG_HEADER g)\<lparr>lg_header_written := True\<rparr> else g)
             in g\<lparr>lg_last_write_tick := lo_tick io\<rparr>
           else g)"

definition output_message :: "log_io \<Rightarrow> string \<Rightarrow> Logger \<Rightarrow> Logger" where
  "output_message io message g =
     (let g = g\<lparr>lg_buffer := lb_add (lg_buffer g) (Some message)\<rparr>;
          g = g\<lparr>lg_console := lg_console g @ [message]\<rparr>
      in if lg_log_to_file g
         then
           let g = (if \<not> lg_file_open g then open_file io g else g)
           in if lg_file_open g then (write_log io (message @ [CHR 0x0A]) g)\<lparr>lg_last_write_tick := lo_tick io\<rparr> else g
         else g)"

definition should_log :: "Logger \<Rightarrow> LogLevel \<Rightarrow> bool" where
  "should_log g level = (if \<not> lg_enabled g then False else level_number level \<le> lg_level g)"

definition log_v :: "log_io \<Rightarrow> LogLevel \<Rightarrow> string \<Rightarrow> Logger \<Rightarrow> Logger" where
  "log_v io level body g =
     (if \<not> should_log g level then g
      else case format_log_message_v MAX_LOG_MESSAGE_LENGTH level body (s_log_counter g) of
             (Some message, cnt) \<Rightarrow> output_message io message (g\<lparr>s_log_counter := cnt\<rparr>)
           | (None, cnt) \<Rightarrow> g\<lparr>s_log_counter := cnt\<rparr>)"

definition Logger_log :: "log_io \<Rightarrow> LogLevel \<Rightarrow> string \<Rightarrow> Logger \<Rightarrow> Logger" where
  "Logger_log io level body g = (if \<not> should_log g level then g else log_v io level body g)"

definition Logger_init :: "log_io \<Rightarrow> DebugConfig \<Rightarrow> string option \<Rightarrow> Logger \<Rightarrow> Logger" where
  "Logger_init io config log_path g =
     (let g = g\<lparr>lg_enabled := db_enabled config, lg_level := db_level config, lg_log_to_file := db_log_to_file config\<rparr>;
          g = g\<lparr>lg_log_path := log_strcpy (case log_path of Some p \<Rightarrow> p | None \<Rightarrow> DEFAULT_LOG_PATH) 255\<rparr>;
          g = g\<lparr>lg_buffer := lb_init MAX_LOG_BUFFER_ENTRIES (lg_buffer g)\<rparr>;
          g = close_file g;
          g = g\<lparr>lg_header_written := False\<rparr>
      in if lg_enabled g
         then Logger_log io LevelInfo
                (''Logger initialized (level='' @ decimal (unat (lg_level g)) @ '', file='' @ (if lg_log_to_file g then ''enabled'' else ''disabled'') @ '')'') g
         else g)"

definition check_idle_timeout :: "log_io \<Rightarrow> Logger \<Rightarrow> Logger" where
  "check_idle_timeout io g =
     (if \<not> lg_file_open g then g
      else let elapsed_ns = lo_ticks_to_ns io (lo_tick io - lg_last_write_tick g)
        in if elapsed_ns \<ge> FILE_IDLE_TIMEOUT_NS then close_file g else g)"


section \<open>The ring keeps the latest messages\<close>

definition log_history :: "LogBuffer \<Rightarrow> string list" where
  "log_history b = ring_list (lb_capacity b) (lb_messages b) (lb_head b) (lb_count b)"

definition lb_ok :: "nat \<Rightarrow> LogBuffer \<Rightarrow> bool" where
  "lb_ok c b \<longleftrightarrow> 0 < c \<and> lb_capacity b = c \<and> c \<le> length (lb_messages b) \<and> lb_count b \<le> c \<and> lb_head b < c \<and> lb_tail b = (lb_head b + lb_count b) mod c"

definition clip_message :: "string \<Rightarrow> string" where
  "clip_message m = log_strcpy m (MAX_LOG_MESSAGE_LENGTH - 1)"

definition lb_put :: "LogBuffer \<Rightarrow> string \<Rightarrow> LogBuffer" where
  "lb_put b m = lb_add b (Some m)"

lemma lb_put_room:
  assumes "lb_ok c b" "lb_count b < c"
  shows "lb_ok c (lb_put b m)" "log_history (lb_put b m) = log_history b @ [clip_message m]"
  using assms ring_push [of "lb_count b" c "lb_messages b" "lb_tail b" "lb_head b" "clip_message m"]
  by (auto simp: lb_ok_def lb_put_def lb_add_def log_history_def clip_message_def mod_simps)

lemma lb_put_full:
  assumes "lb_ok c b" "\<not> lb_count b < c"
  shows "lb_ok c (lb_put b m)" "log_history (lb_put b m) = tl (log_history b) @ [clip_message m]"
proof -
  have b: "lb_capacity b = c" "0 < c" "lb_count b = c" "lb_head b < c" "lb_tail b = lb_head b" "c \<le> length (lb_messages b)"
    using assms by (auto simp: lb_ok_def)
  show "lb_ok c (lb_put b m)"
    using b by (auto simp: lb_ok_def lb_put_def lb_add_def mod_simps)
  let ?h = "(lb_head b + 1) mod c"
  have t: "lb_head b = (?h + (c - 1)) mod c"
    using ring_pop_tail [of c "lb_head b" c] b by simp
  have "ring_list c ((lb_messages b)[lb_head b := clip_message m]) ?h (Suc (c - 1)) = ring_list c (lb_messages b) ?h (c - 1) @ [clip_message m]"
    using ring_push [OF _ b(6) t, of "clip_message m"] b(2) by simp
  then show "log_history (lb_put b m) = tl (log_history b) @ [clip_message m]"
    using b ring_pop [of c "lb_head b" c "lb_messages b"]
    by (simp add: log_history_def lb_put_def lb_add_def clip_message_def)
qed

interpretation lb: lossy_buffer c log_history "lb_ok c" clip_message lb_put for c
proof (unfold_locales, goal_cases)
  case (1 s m)
  then show ?case
    using lb_put_room(1) lb_put_full(1) by blast
next
  case (2 s m)
  then show ?case
    using lb_put_room(2) [of c s m] lb_put_full(2) [of c s m] by (auto simp: log_history_def)
qed

lemma lb_init_ok: "length (lb_messages b) = MAX_LOG_BUFFER_ENTRIES \<Longrightarrow> lb_ok MAX_LOG_BUFFER_ENTRIES (lb_init MAX_LOG_BUFFER_ENTRIES b)"
  by (simp add: lb_ok_def lb_init_def lb_clear_def MAX_LOG_BUFFER_ENTRIES_def)

lemma history_init [simp]: "log_history (lb_init c b) = []"
  by (simp add: log_history_def lb_init_def lb_clear_def)

subsection \<open>All messages as one text\<close>

definition text_lines :: "string list \<Rightarrow> string" where
  "text_lines ms = concat (map (\<lambda>m. m @ [CHR 0x0A]) ms)"

lemma text_lines_simps [simp]: "text_lines [] = []" "text_lines (m # ms) = m @ CHR 0x0A # text_lines ms" "text_lines (xs @ ys) = text_lines xs @ text_lines ys"
  by (simp_all add: text_lines_def)

lemma lb_get_history: "lb_get b i = (if i < lb_count b then Some (log_history b ! i) else None)"
  by (auto simp: lb_get_def log_history_def nth_ring_list)

text \<open>One turn of the loop: the message and its end of line when they fit, else what fits of the message.\<close>

lemma get_all_loop_turn:
  assumes "i < lb_count b" "length out < n - 1"
  shows "get_all_loop b n i out =
    get_all_loop b n (i + 1) (if length out + length (log_history b ! i) < n - 1 then out @ log_history b ! i @ [CHR 0x0A]
      else out @ take (n - 1 - length out) (log_history b ! i))"
  using assms by (subst get_all_loop.simps) (auto simp: lb_get_history Let_def not_less)

lemma get_all_loop_stop: "\<not> (i < lb_count b \<and> length out < n - 1) \<Longrightarrow> get_all_loop b n i out = out"
  by (subst get_all_loop.simps) (simp only: if_False)

lemma get_all_loop_text:
  "length out \<le> n - 1 \<Longrightarrow> get_all_loop b n i out = take (n - 1) (out @ text_lines (drop i (log_history b)))"
proof (induction "lb_count b - i" arbitrary: i out)
  case (Suc k)
  have d: "drop i (log_history b) = log_history b ! i # drop (Suc i) (log_history b)"
    using Suc(2) by (intro Cons_nth_drop_Suc [symmetric]) (simp add: log_history_def)
  show ?case
  proof (cases "length out < n - 1")
    case True
    have k: "i < lb_count b" "k = lb_count b - (i + 1)"
      using Suc(2) by simp_all
    show ?thesis
    proof (cases "length out + length (log_history b ! i) < n - 1")
      case fits: True
      then have "get_all_loop b n (i + 1) (out @ log_history b ! i @ [CHR 0x0A]) =
          take (n - 1) ((out @ log_history b ! i @ [CHR 0x0A]) @ text_lines (drop (i + 1) (log_history b)))"
        by (intro Suc(1) [OF k(2)]) simp
      then show ?thesis
        using fits get_all_loop_turn [OF k(1) True] by (simp add: d)
    next
      case False
      then have "get_all_loop b n (i + 1) (out @ take (n - 1 - length out) (log_history b ! i)) = out @ take (n - 1 - length out) (log_history b ! i)"
        using True by (intro get_all_loop_stop) simp
      then show ?thesis
        using False True get_all_loop_turn [OF k(1) True] by (simp add: d)
    qed
  next
    case False
    then show ?thesis
      using get_all_loop_stop [of i b out n] Suc(3) by simp
  qed
next
  case 0
  then show ?case
    using get_all_loop_stop [of i b out n] by (simp add: log_history_def)
qed

lemma lb_get_all_text: "0 < n \<Longrightarrow> lb_get_all b n = Some (take (n - 1) (text_lines (log_history b)))"
  by (simp add: lb_get_all_def get_all_loop_text)


section \<open>The log is complete\<close>

text \<open>
  What happens to a logger over time: messages of any level and the checks of the maintenance thread, each at its own time. \<open>log_lines\<close> are the
  lines that the messages up to a level stand for.
\<close>

datatype log_event = Message LogLevel string u64 | IdleCheck u64

fun log_step :: "log_io \<Rightarrow> Logger \<Rightarrow> log_event \<Rightarrow> Logger" where
  "log_step io g (Message level body t) = Logger_log (io\<lparr>lo_tick := t\<rparr>) level body g"
| "log_step io g (IdleCheck t) = check_idle_timeout (io\<lparr>lo_tick := t\<rparr>) g"

definition log_line :: "LogLevel \<Rightarrow> string \<Rightarrow> u32 \<Rightarrow> string" where
  "log_line level body cnt = the (fst (format_log_message_v MAX_LOG_MESSAGE_LENGTH level body cnt))"

fun log_lines :: "u32 \<Rightarrow> u32 \<Rightarrow> log_event list \<Rightarrow> string list" where
  "log_lines lv cnt [] = []"
| "log_lines lv cnt (Message level body t # es) =
     (if level_number level \<le> lv then log_line level body cnt # log_lines lv (cnt + 1) es else log_lines lv cnt es)"
| "log_lines lv cnt (IdleCheck t # es) = log_lines lv cnt es"

text \<open>A file system that works: files can be made, opened and measured, and a write at the end of a file appends.\<close>

definition working_fs :: "log_io \<Rightarrow> bool" where
  "working_fs io \<longleftrightarrow> lo_create io \<and> lo_open io \<and> lo_size io \<and> (\<forall>data content. lo_write io (length content) data content = content @ data)"

text \<open>The file after some lines: untouched before the first one, then the old text, the header and the lines.\<close>

definition base_text :: "string option \<Rightarrow> string" where
  "base_text old = (case old of None \<Rightarrow> [] | Some c \<Rightarrow> c)"

definition file_after :: "string option \<Rightarrow> string list \<Rightarrow> string option" where
  "file_after old ls = (if ls = [] then old else Some (base_text old @ LOG_HEADER @ text_lines ls))"

definition log_inv :: "string option \<Rightarrow> u32 \<Rightarrow> LogBuffer \<Rightarrow> string list \<Rightarrow> u32 \<Rightarrow> string list \<Rightarrow> Logger \<Rightarrow> bool" where
  "log_inv old lv b0 con0 cnt ls g \<longleftrightarrow>
     lg_enabled g \<and> lg_level g = lv \<and> lg_log_to_file g \<and> s_log_counter g = cnt \<and> lg_file g = file_after old ls \<and>
     (lg_header_written g \<longleftrightarrow> ls \<noteq> []) \<and> (lg_file_open g \<longrightarrow> ls \<noteq> [] \<and> lg_file_offset g = length (the (lg_file g))) \<and>
     lg_console g = con0 @ ls \<and> lg_buffer g = foldl lb_put b0 ls"

lemma format_some: "format_log_message_v MAX_LOG_MESSAGE_LENGTH level body cnt = (Some (log_line level body cnt), cnt + 1)"
  by (simp add: log_line_def format_log_message_v_def get_timestamp_def MAX_LOG_MESSAGE_LENGTH_def Let_def)

lemma write_log_append:
  "working_fs io \<Longrightarrow> lg_file g = Some c \<Longrightarrow> lg_file_offset g = length c \<Longrightarrow>
   write_log io data g = g\<lparr>lg_file := Some (c @ data), lg_file_offset := length (c @ data)\<rparr>"
  by (simp add: write_log_def working_fs_def)

lemma output_message_inv:
  assumes "working_fs io" "log_inv old lv b0 con0 cnt ls g"
  shows "log_inv old lv b0 con0 cnt (ls @ [m]) (output_message io m g)"
proof -
  define g1 where "g1 = g\<lparr>lg_buffer := lb_put (lg_buffer g) m, lg_console := lg_console g @ [m]\<rparr>"
  define g2 where "g2 = (if \<not> lg_file_open g1 then open_file io g1 else g1)"
  let ?c = "base_text old @ LOG_HEADER @ text_lines ls"
  have keep: "lg_enabled g2 = lg_enabled g" "lg_level g2 = lg_level g" "lg_log_to_file g2 = lg_log_to_file g" "s_log_counter g2 = s_log_counter g"
      "lg_console g2 = lg_console g @ [m]" "lg_buffer g2 = lb_put (lg_buffer g) m"
    by (simp_all add: g2_def g1_def open_file_def write_log_def Let_def split: option.splits)
  have f: "lg_file_open g2 \<and> lg_file g2 = Some ?c \<and> lg_file_offset g2 = length ?c \<and> lg_header_written g2"
  proof (cases "lg_file_open g")
    case True
    then show ?thesis
      using assms(2) by (simp add: g2_def g1_def log_inv_def file_after_def)
  next
    case False
    show ?thesis
    proof (cases "ls = []")
      case True
      have "lo_write io 0 LOG_HEADER [] = LOG_HEADER"
        using assms(1) unfolding working_fs_def by (metis append_Nil list.size(3))
      with True False assms show ?thesis
        by (cases old; cases "parent_directory (log_strcpy (lg_log_path g) 255)")
          (simp_all add: g2_def g1_def open_file_def log_inv_def file_after_def base_text_def write_log_append working_fs_def [of io] write_log_def Let_def)
    next
      case ls: False
      with False assms show ?thesis
        by (cases "parent_directory (log_strcpy (lg_log_path g) 255)")
          (simp_all add: g2_def g1_def open_file_def log_inv_def file_after_def working_fs_def [of io] Let_def)
    qed
  qed
  have "output_message io m g =
      (if lg_log_to_file g then if lg_file_open g2 then (write_log io (m @ [CHR 0x0A]) g2)\<lparr>lg_last_write_tick := lo_tick io\<rparr> else g2 else g1)"
    by (simp add: output_message_def g2_def g1_def lb_put_def Let_def)
  with f assms(2) have "output_message io m g = (write_log io (m @ [CHR 0x0A]) g2)\<lparr>lg_last_write_tick := lo_tick io\<rparr>"
    by (simp add: log_inv_def)
  then show ?thesis
    using f keep assms write_log_append [OF assms(1), of g2 ?c] by (simp add: log_inv_def file_after_def)
qed

lemma working_fs_tick [simp]: "working_fs (io\<lparr>lo_tick := t\<rparr>) = working_fs io"
  by (simp add: working_fs_def)

lemma log_inv_counter: "log_inv old lv b0 con0 cnt ls g \<Longrightarrow> log_inv old lv b0 con0 c ls (g\<lparr>s_log_counter := c\<rparr>)"
  by (simp add: log_inv_def)

lemma log_message_inv:
  assumes "working_fs io" "log_inv old lv b0 con0 cnt ls g"
  shows "if level_number level \<le> lv then log_inv old lv b0 con0 (cnt + 1) (ls @ [log_line level body cnt]) (Logger_log io level body g)
    else Logger_log io level body g = g"
proof -
  have "should_log g level = (level_number level \<le> lv)" "s_log_counter g = cnt"
    using assms(2) by (simp_all add: should_log_def log_inv_def)
  then show ?thesis
    using output_message_inv [OF assms(1) log_inv_counter [OF assms(2), of "cnt + 1"]] by (simp add: Logger_log_def log_v_def format_some)
qed

lemma log_run_inv:
  "working_fs io \<Longrightarrow> log_inv old lv b0 con0 cnt ls g \<Longrightarrow>
   \<exists>cnt'. log_inv old lv b0 con0 cnt' (ls @ log_lines lv cnt es) (foldl (log_step io) g es)"
proof (induction es arbitrary: cnt ls g)
  case (Cons e es)
  show ?case
  proof (cases e)
    case (Message level body t)
    then show ?thesis
      using log_message_inv [of "io\<lparr>lo_tick := t\<rparr>", OF _ Cons.prems(2), of level body] Cons
      by (cases "level_number level \<le> lv") force+
  next
    case (IdleCheck t)
    have "log_inv old lv b0 con0 cnt ls (check_idle_timeout (io\<lparr>lo_tick := t\<rparr>) g)"
      using Cons.prems(2) by (simp add: check_idle_timeout_def close_file_def log_inv_def Let_def)
    with IdleCheck Cons show ?thesis
      by simp
  qed
qed auto


text \<open>Lines are C strings of at most 255 characters, so the ring keeps them whole.\<close>

definition zero_free :: "log_event \<Rightarrow> bool" where
  "zero_free e = (case e of Message _ body _ \<Rightarrow> CHR 0x00 \<notin> set body | IdleCheck _ \<Rightarrow> True)"

lemma log_strcpy_id: "CHR 0x00 \<notin> set m \<Longrightarrow> length m \<le> n \<Longrightarrow> log_strcpy m n = m"
  by (induction m n rule: log_strcpy.induct) auto

lemma decimal_zero_free: "CHR 0x00 \<notin> set (decimal n)"
  using decimal_digits [of "CHR 0x00" n] by (auto simp: is_digit_def)

lemma log_line_clip:
  assumes "CHR 0x00 \<notin> set body"
  shows "clip_message (log_line level body cnt) = log_line level body cnt"
proof -
  have "CHR 0x00 \<notin> set (log_level_to_string level)"
    by (cases level) simp_all
  then have "CHR 0x00 \<notin> set (log_line level body cnt)"
    using assms decimal_zero_free [of "unat cnt"]
    by (auto simp: log_line_def format_log_message_v_def get_timestamp_def Let_def MAX_LOG_MESSAGE_LENGTH_def dest!: in_set_takeD)
  moreover have "length (log_line level body cnt) \<le> 255"
    by (auto simp: log_line_def format_log_message_v_def get_timestamp_def Let_def MAX_LOG_MESSAGE_LENGTH_def)
  ultimately show ?thesis
    by (simp add: clip_message_def log_strcpy_id MAX_LOG_MESSAGE_LENGTH_def)
qed

lemma log_lines_clip: "list_all zero_free es \<Longrightarrow> map clip_message (log_lines lv cnt es) = log_lines lv cnt es"
  by (induction lv cnt es rule: log_lines.induct) (auto simp: zero_free_def log_line_clip)

definition init_message :: "DebugConfig \<Rightarrow> string" where
  "init_message cfg = ''Logger initialized (level='' @ decimal (unat (db_level cfg)) @ '', file='' @ (if db_log_to_file cfg then ''enabled'' else ''disabled'') @ '')''"

lemma Logger_init_step:
  assumes "db_enabled cfg" "db_log_to_file cfg"
  shows "\<exists>g0. Logger_init io cfg path (lg_new old) = log_step io g0 (Message LevelInfo (init_message cfg) (lo_tick io)) \<and>
    log_inv old (db_level cfg) (lb_init MAX_LOG_BUFFER_ENTRIES lb_new) [] 0 [] g0"
proof -
  define g0 where "g0 = (lg_new old)\<lparr>lg_enabled := True, lg_level := db_level cfg, lg_log_to_file := True,
    lg_log_path := log_strcpy (case path of Some p \<Rightarrow> p | None \<Rightarrow> DEFAULT_LOG_PATH) 255, lg_buffer := lb_init MAX_LOG_BUFFER_ENTRIES lb_new\<rparr>"
  have "Logger_init io cfg path (lg_new old) = log_step io g0 (Message LevelInfo (init_message cfg) (lo_tick io))"
    using assms by (simp add: Logger_init_def g0_def lg_new_def close_file_def init_message_def)
  moreover have "log_inv old (db_level cfg) (lb_init MAX_LOG_BUFFER_ENTRIES lb_new) [] 0 [] g0"
    by (simp add: g0_def log_inv_def lg_new_def file_after_def)
  ultimately show ?thesis
    by blast
qed

text \<open>
  C25: with a file system that works, no message is lost. Start the logger on any card, then let messages of any level and idle checks of the maintenance
  thread come in any order and at any time: the log file is its old text, the header once, and one line for every message up to the configured
  level, in order, however often the file was closed and opened again in between. The console shows the same lines, and the ring that the overlay
  reads has the latest 64 of them; its text for a buffer of \<open>n\<close> characters is their first \<open>n - 1\<close> characters.
\<close>

theorem log_is_complete:
  fixes old path :: "string option"
  assumes fs: "working_fs io" and cfg: "db_enabled cfg" "db_log_to_file cfg" and es: "list_all zero_free es" and n: "0 < n"
  defines "ls \<equiv> log_lines (db_level cfg) 0 (Message LevelInfo (init_message cfg) (lo_tick io) # es)"
    and "g \<equiv> foldl (log_step io) (Logger_init io cfg path (lg_new old)) es"
  shows "lg_file g = (if ls = [] then old else Some ((case old of None \<Rightarrow> [] | Some c \<Rightarrow> c) @ LOG_HEADER @ text_lines ls)) \<and>
    lg_console g = ls \<and> log_history (lg_buffer g) = drop (length ls - 64) ls \<and>
    lb_get_all (lg_buffer g) n = Some (take (n - 1) (text_lines (drop (length ls - 64) ls)))"
proof -
  let ?b = "lb_init MAX_LOG_BUFFER_ENTRIES lb_new" and ?e = "Message LevelInfo (init_message cfg) (lo_tick io)"
  obtain g0 where g0: "Logger_init io cfg path (lg_new old) = log_step io g0 ?e" "log_inv old (db_level cfg) ?b [] 0 [] g0"
    using Logger_init_step [OF cfg] by blast
  obtain c where "log_inv old (db_level cfg) ?b [] c ls g"
    using log_run_inv [OF fs g0(2), of "?e # es"] g0(1) by (auto simp: g_def ls_def)
  then have inv: "lg_file g = file_after old ls" "lg_console g = ls" "lg_buffer g = foldl lb_put ?b ls"
    by (simp_all add: log_inv_def)
  have "zero_free ?e"
    using decimal_zero_free by (auto simp: zero_free_def init_message_def)
  then have "map clip_message ls = ls"
    unfolding ls_def using es by (intro log_lines_clip) simp
  moreover have "lb_ok MAX_LOG_BUFFER_ENTRIES ?b"
    by (intro lb_init_ok) (simp add: lb_new_def)
  ultimately have "log_history (lg_buffer g) = drop (length ls - 64) ls"
    using lb.put_many [of MAX_LOG_BUFFER_ENTRIES ?b ls] inv(3) by (simp add: MAX_LOG_BUFFER_ENTRIES_def)
  then show ?thesis
    using inv n by (simp add: file_after_def base_text_def lb_get_all_text)
qed

definition good_card :: log_io where
  "good_card = \<lparr>lo_create = True, lo_open = True, lo_size = True, lo_write = (\<lambda>off data content. take off content @ data @ drop (off + length data) content),
     lo_tick = 0, lo_ticks_to_ns = (\<lambda>t. t)\<rparr>"

theorem log_is_complete_witness:
  "lg_file (foldl (log_step good_card) (Logger_init good_card \<lparr>db_enabled = True, db_level = 1, db_log_to_file = True\<rparr> None (lg_new (Some ''x'')))
     [Message LevelError ''boom'' 7, IdleCheck 9000000000, Message LevelVerbose ''detail'' 8, Message LevelWarning ''hm'' 9]) =
   Some (''x'' @ LOG_HEADER @ ''[000000] [ERROR] boom'' @ [CHR 0x0A] @ ''[000001] [WARN] hm'' @ [CHR 0x0A])"
proof -
  let ?cfg = "\<lparr>db_enabled = True, db_level = 1, db_log_to_file = True\<rparr>"
  let ?es = "[Message LevelError ''boom'' 7, IdleCheck 9000000000, Message LevelVerbose ''detail'' 8, Message LevelWarning ''hm'' 9]"
  have d: "decimal 0 = ''0''" "decimal (Suc 0) = ''1''"
    by code_simp+
  have r: "replicate 5 (CHR ''0'') = ''00000''"
    by (simp add: numeral_eq_Suc)
  have ls: "log_lines 1 0 (Message LevelInfo (init_message ?cfg) 0 # ?es) = [''[000000] [ERROR] boom'', ''[000001] [WARN] hm'']"
    by (simp add: log_line_def format_log_message_v_def get_timestamp_def d r MAX_LOG_MESSAGE_LENGTH_def word_le_nat_alt)
  have "working_fs good_card"
    by (simp add: working_fs_def good_card_def)
  then show ?thesis
    using log_is_complete [where io = good_card and cfg = ?cfg and es = ?es and n = 1 and path = None and old = "Some ''x''"] ls by (simp add: zero_free_def good_card_def)
qed

end
