(* ===== verification/Startup.thy ===== *)
theory Startup
  imports Ldn_Commands Debug_Log
begin

text \<open>
  The process of \<^verbatim>\<open>main.cpp\<close> and the factory of \<^verbatim>\<open>ldn/ldn_mitm_service.cpp\<close>: start-up in its two phases over the answers of the system, and the
  server that accepts sessions of games on the two intercepted services. The state puts together the world of the LDN service, the list of
  games, the logger and the settings file.
\<close>

section \<open>The state of the process\<close>

datatype boot_step = ConfigRegistered | ConfigThread | LogThread | LdnRegistered | BsdRegistered | ServerThreads

record sysmodule =
  sy_world :: ldn_world
  sy_games :: whitelist
  sy_logger :: Logger
  sy_card :: "string option"
  sy_ldn_sessions :: u32
  sy_bsd_sessions :: u32
  sy_boot :: "boot_step list"


section \<open>The memory of the socket service\<close>

record SocketInitConfig =
  sc_tcp_tx_buf_size :: u32
  sc_tcp_rx_buf_size :: u32
  sc_tcp_tx_buf_max_size :: u32
  sc_tcp_rx_buf_max_size :: u32
  sc_udp_tx_buf_size :: u32
  sc_udp_rx_buf_size :: u32
  sc_sb_efficiency :: u32
  sc_num_bsd_sessions :: u32

definition LibnxSocketInitConfig :: SocketInitConfig where
  "LibnxSocketInitConfig = \<lparr>sc_tcp_tx_buf_size = 0x800, sc_tcp_rx_buf_size = 0x1000, sc_tcp_tx_buf_max_size = 0x2000, sc_tcp_rx_buf_max_size = 0x2000,
     sc_udp_tx_buf_size = 0x2000, sc_udp_rx_buf_size = 0x2000, sc_sb_efficiency = 4, sc_num_bsd_sessions = 14\<rparr>"

definition MemoryPageSize :: nat where "MemoryPageSize = 0x1000"

definition GetLibnxBsdTransferMemorySize :: "SocketInitConfig \<Rightarrow> nat" where
  "GetLibnxBsdTransferMemorySize c =
     (let tcp_tx = (if sc_tcp_tx_buf_max_size c \<noteq> 0 then sc_tcp_tx_buf_max_size c else sc_tcp_tx_buf_size c);
          tcp_rx = (if sc_tcp_rx_buf_max_size c \<noteq> 0 then sc_tcp_rx_buf_max_size c else sc_tcp_rx_buf_size c);
          total = unat (tcp_tx + tcp_rx + sc_udp_tx_buf_size c + sc_udp_rx_buf_size c)
      in unat (sc_sb_efficiency c) * ((total + MemoryPageSize - 1) div MemoryPageSize * MemoryPageSize))"

section \<open>Start-up\<close>







section \<open>Sessions of games\<close>




definition CreateUserLocalCommunicationService ::
  "ldn_env \<Rightarrow> (bool list \<Rightarrow> bool list) list \<Rightarrow> u64 \<Rightarrow> os \<Rightarrow> (nat \<Rightarrow> u32) \<Rightarrow> sysmodule \<Rightarrow> sysmodule locked" where
  "CreateUserLocalCommunicationService e waits program_id os rnd m =
     (case ICommunicationService_new e waits program_id os rnd (sy_world m) of
        Deadlock \<Rightarrow> Deadlock
      | Done (previous, w) \<Rightarrow> Done (m\<lparr>sy_world := w\<rparr>))"





section \<open>What start-up establishes\<close>




text \<open>No operation of the logger changes its settings.\<close>

definition log_settings :: "Logger \<Rightarrow> bool \<times> u32 \<times> bool" where
  "log_settings g = (lg_enabled g, lg_level g, lg_log_to_file g)"

lemma settings_write [simp]: "log_settings (write_log io d g) = log_settings g"
  by (simp add: write_log_def log_settings_def)

lemma settings_open [simp]: "log_settings (open_file io g) = log_settings g"
  by (simp add: open_file_def log_settings_def write_log_def Let_def split: option.split)

lemma settings_output [simp]: "log_settings (output_message io m g) = log_settings g"
proof -
  have keep: "log_settings (g\<lparr>lg_last_write_tick := t\<rparr>) = log_settings g" "log_settings (g\<lparr>lg_buffer := b\<rparr>) = log_settings g"
      "log_settings (g\<lparr>lg_console := c\<rparr>) = log_settings g" for g t b c
    by (simp_all add: log_settings_def)
  show ?thesis
    by (simp add: output_message_def keep Let_def)
qed





section \<open>Which sessions are intercepted\<close>













section \<open>An example\<close>






end
