(* ===== verification/Overlay.thy ===== *)
theory Overlay
  imports Ldn_Config_Service
begin

text \<open>
  The overlay, \<^verbatim>\<open>overlay/source/main.cpp\<close>: the menu over a running game from which the settings are changed. It talks to the settings service over
  a session that may not be there, and every command may fail. The keyboard for passphrases and the menu items are state machines over the
  service's state; drawing is what the items show. The screen of the network settings, which prints seconds as floating-point numbers, and the colours
  are left out.
\<close>

section \<open>The session with the settings service\<close>

text \<open>The service: its settings and the state it shares with the LDN service. A link says whether there is a session and which commands succeed.\<close>

type_synonym service = "Config \<times> SharedState"

record ipc_link =
  il_open :: bool
  il_works :: "nat \<Rightarrow> bool"

definition ipc_get :: "ipc_link \<Rightarrow> nat \<Rightarrow> 'a \<Rightarrow> 'a option" where
  "ipc_get l cmd v = (if il_works l cmd then Some v else None)"

definition ipc_set :: "ipc_link \<Rightarrow> nat \<Rightarrow> (service \<Rightarrow> service) \<Rightarrow> service \<Rightarrow> service" where
  "ipc_set l cmd f s = (if il_works l cmd then f s else s)"

definition ryuLdnGetPassphrase :: "ipc_link \<Rightarrow> service \<Rightarrow> string option" where
  "ryuLdnGetPassphrase l s = ipc_get l 2 (cstring (take 63 (cs_GetPassphrase (fst s))))"

definition ryuLdnSetPassphrase :: "ipc_link \<Rightarrow> string \<Rightarrow> service \<Rightarrow> service" where
  "ryuLdnSetPassphrase l p s = ipc_set l 3 (\<lambda>s. (cs_SetPassphrase (fst s) (char_array 64 p), snd s)) s"

definition ryuLdnGetServerAddress :: "ipc_link \<Rightarrow> service \<Rightarrow> (string \<times> u16) option" where
  "ryuLdnGetServerAddress l s = ipc_get l 4 (case cs_GetServerAddress (fst s) of (host, port) \<Rightarrow> (cstring (take 63 host), port))"

section \<open>Texts\<close>

definition ConnectionStatusToString :: "u32 \<Rightarrow> string" where
  "ConnectionStatusToString status =
     (if status = 0 then ''Disconnected'' else if status = 1 then ''Connecting...'' else if status = 2 then ''Connected''
      else if status = 3 then ''Ready'' else if status = 4 then ''Error'' else ''Unknown'')"

definition DebugLevelToString :: "u32 \<Rightarrow> string" where
  "DebugLevelToString level =
     (if level = 0 then ''Error'' else if level = 1 then ''Warning'' else if level = 2 then ''Info'' else if level = 3 then ''Verbose'' else ''Unknown'')"

definition ryuLdnStateToString :: "u32 \<Rightarrow> string" where
  "ryuLdnStateToString state =
     (if state = 0 then ''None'' else if state = 1 then ''Initialized'' else if state = 2 then ''Access Point'' else if state = 3 then ''AP Created''
      else if state = 4 then ''Station'' else if state = 5 then ''Connected'' else if state = 6 then ''Error'' else ''Unknown'')"

definition well_formed_passphrase :: "string \<Rightarrow> bool" where
  "well_formed_passphrase p \<longleftrightarrow> length p = 16 \<and> take 8 p = ''Ryujinx-''"

text \<open>The buffer has \<open>n\<close> characters.\<close>

definition FormatPassphraseDisplay :: "string \<Rightarrow> nat \<Rightarrow> string" where
  "FormatPassphraseDisplay p n =
     take (n - 1) (if p = [] then ''(not set)'' else if well_formed_passphrase p then drop 8 p else ''(invalid)'')"

definition GenerateRandomPassphraseOverlay :: "(nat \<Rightarrow> nat) \<Rightarrow> nat \<Rightarrow> string option" where
  "GenerateRandomPassphraseOverlay rand out_size =
     (if out_size < 17 then (if out_size > 0 then Some [] else None)
      else Some (''Ryujinx-'' @ map (\<lambda>i. hex_chars ! (rand i mod 16)) [0..<8]))"

section \<open>The passphrase keyboard\<close>

datatype button = B_Up | B_Down | B_Left | B_Right | B_A | B_B | B_X | B_Y | B_Plus | B_R

text \<open>\<^verbatim>\<open>m_input\<close> up to its terminator; its length is \<^verbatim>\<open>m_inputLen\<close>.\<close>

record HexKeyboardGui =
  hk_cursorX :: nat
  hk_cursorY :: nat
  hk_input :: string

definition hk_new :: "ipc_link \<Rightarrow> service \<Rightarrow> HexKeyboardGui" where
  "hk_new l s =
     (let k = \<lparr>hk_cursorX = 0, hk_cursorY = 0, hk_input = []\<rparr>
      in if il_open l
         then (case ryuLdnGetPassphrase l s of
                 Some current \<Rightarrow> if well_formed_passphrase current then k\<lparr>hk_input := take 8 (drop 8 current)\<rparr> else k
               | None \<Rightarrow> k)
         else k)"

definition GetSelectedChar :: "HexKeyboardGui \<Rightarrow> char" where
  "GetSelectedChar k = hex_chars ! (hk_cursorY k * 4 + hk_cursorX k)"

definition selected_key_text :: "HexKeyboardGui \<Rightarrow> string" where
  "selected_key_text k =
     take 47 ([CHR 0x27, GetSelectedChar k, CHR 0x27] @ '' (row '' @ decimal (hk_cursorY k + 1) @ '', col '' @ decimal (hk_cursorX k + 1) @ '')'')"

definition input_text :: "HexKeyboardGui \<Rightarrow> string" where
  "input_text k =
     (if hk_input k = [] then ''(empty)'' else take 31 (hk_input k @ '' ('' @ decimal (length (hk_input k)) @ ''/8)''))"

definition SavePassphrase :: "ipc_link \<Rightarrow> HexKeyboardGui \<Rightarrow> service \<Rightarrow> service" where
  "SavePassphrase l k s =
     (if \<not> il_open l then s
      else if hk_input k = [] then ryuLdnSetPassphrase l [] s
      else if length (hk_input k) = 8 then ryuLdnSetPassphrase l (take 31 (''Ryujinx-'' @ hk_input k)) s
      else s)"

definition hk_GenerateRandom :: "(nat \<Rightarrow> nat) \<Rightarrow> HexKeyboardGui \<Rightarrow> HexKeyboardGui" where
  "hk_GenerateRandom rand k = k\<lparr>hk_input := map (\<lambda>i. hex_chars ! (rand i mod 16)) [0..<8]\<rparr>"

text \<open>
  One call of \<^verbatim>\<open>handleInput\<close> with the buttons just pressed: whether it was handled, whether the screen is left, and the new states.
\<close>

definition hk_handleInput :: "ipc_link \<Rightarrow> (nat \<Rightarrow> nat) \<Rightarrow> button set \<Rightarrow> HexKeyboardGui \<times> service \<Rightarrow> bool \<times> bool \<times> HexKeyboardGui \<times> service" where
  "hk_handleInput l rand keysDown = (\<lambda>(k, s).
     if B_Up \<in> keysDown then (True, False, k\<lparr>hk_cursorY := (hk_cursorY k + 3) mod 4\<rparr>, s)
     else if B_Down \<in> keysDown then (True, False, k\<lparr>hk_cursorY := (hk_cursorY k + 1) mod 4\<rparr>, s)
     else if B_Left \<in> keysDown then (True, False, k\<lparr>hk_cursorX := (hk_cursorX k + 3) mod 4\<rparr>, s)
     else if B_Right \<in> keysDown then (True, False, k\<lparr>hk_cursorX := (hk_cursorX k + 1) mod 4\<rparr>, s)
     else if B_A \<in> keysDown
     then (True, False, if length (hk_input k) < 8 then k\<lparr>hk_input := hk_input k @ [GetSelectedChar k]\<rparr> else k, s)
     else if B_B \<in> keysDown
     then (if length (hk_input k) > 0 then (True, False, k\<lparr>hk_input := butlast (hk_input k)\<rparr>, s) else (True, True, k, s))
     else if B_X \<in> keysDown then (True, False, k\<lparr>hk_input := []\<rparr>, s)
     else if B_Plus \<in> keysDown then (True, True, k, SavePassphrase l k s)
     else if B_Y \<in> keysDown then (True, False, hk_GenerateRandom rand k, s)
     else (False, False, k, s))"

section \<open>Items of the menu\<close>

datatype InitState = Uninit | InitError | Loaded

definition UpdateStatus :: "InitState \<Rightarrow> ipc_link \<Rightarrow> service \<Rightarrow> string" where
  "UpdateStatus st l s =
     (if st \<noteq> Loaded then ''N/A''
      else if \<not> il_open l then ''N/A''
      else case ipc_get l 1 cs_GetConnectionStatus of None \<Rightarrow> ''Error'' | Some status \<Rightarrow> ConnectionStatusToString status)"

definition UpdateAddress :: "InitState \<Rightarrow> ipc_link \<Rightarrow> service \<Rightarrow> string" where
  "UpdateAddress st l s =
     (if st \<noteq> Loaded then ''N/A''
      else if \<not> il_open l then ''N/A''
      else case ryuLdnGetServerAddress l s of
             None \<Rightarrow> ''Error''
           | Some (host, port) \<Rightarrow> take 95 (host @ '':'' @ decimal (unat port)))"

definition UpdateState :: "ipc_link \<Rightarrow> service \<Rightarrow> string" where
  "UpdateState l s =
     (if \<not> il_open l then ''N/A''
      else case ipc_get l 24 (cs_GetLdnState (snd s)) of None \<Rightarrow> ''Error'' | Some state \<Rightarrow> ryuLdnStateToString state)"

definition UpdateInfo :: "ipc_link \<Rightarrow> service \<Rightarrow> string" where
  "UpdateInfo l s =
     (if \<not> il_open l then ''N/A''
      else case ipc_get l 25 (cs_GetSessionInfo (snd s)) of
             None \<Rightarrow> ''Error''
           | Some info \<Rightarrow>
               if info ! 0 = 0 then ''Not in session''
               else take 47 (decimal (unat (info ! 0)) @ ''/'' @ decimal (unat (info ! 1)) @ '' ('' @ (if info ! 3 \<noteq> 0 then ''Host'' else ''Client'') @ '')''))"

definition UpdateLatency :: "ipc_link \<Rightarrow> service \<Rightarrow> string" where
  "UpdateLatency l s =
     (if \<not> il_open l then ''N/A''
      else case ipc_get l 26 (cs_GetLastRtt (snd s)) of
             None \<Rightarrow> ''Error''
           | Some rtt_ms \<Rightarrow> if rtt_ms = 0 then ''N/A'' else take 15 (decimal (unat rtt_ms) @ '' ms''))"

text \<open>A press on the items that act: whether it was handled, the new text if any, the service and what is written to the card.\<close>

definition SaveConfig_onClick :: "InitState \<Rightarrow> ipc_link \<Rightarrow> file_write \<Rightarrow> button set \<Rightarrow> service \<Rightarrow> bool \<times> string option \<times> file_effect" where
  "SaveConfig_onClick st l fw keys s =
     (if B_A \<in> keys
      then (if st = Loaded \<and> il_open l
            then (case ipc_get l 16 (cs_SaveConfig (fst s) fw) of
                    Some (result, effect) \<Rightarrow> (True, Some (if result = ConfigResult.Success then ''Saved!'' else ''Failed''), effect)
                  | None \<Rightarrow> (True, Some ''Failed'', Untouched))
            else (True, None, Untouched))
      else (False, None, Untouched))"

definition ReloadConfig_onClick :: "InitState \<Rightarrow> ipc_link \<Rightarrow> file_read \<Rightarrow> button set \<Rightarrow> service \<Rightarrow> bool \<times> string option \<times> service" where
  "ReloadConfig_onClick st l fr keys s =
     (if B_A \<in> keys
      then (if st = Loaded \<and> il_open l
            then (case ipc_get l 17 (cs_ReloadConfig (fst s) fr) of
                    Some (result, g) \<Rightarrow> (True, Some (if result = ConfigResult.Success then ''Reloaded!'' else ''Failed''), (g, snd s))
                  | None \<Rightarrow> (True, Some ''Failed'', s))
            else (True, None, s))
      else (False, None, s))"

definition ForceReconnect_onClick :: "ipc_link \<Rightarrow> button set \<Rightarrow> service \<Rightarrow> bool \<times> string option \<times> service" where
  "ForceReconnect_onClick l keys s =
     (if B_A \<in> keys
      then (if il_open l
            then (if il_works l 27 then (True, Some ''Requested!'', (fst s, cs_ForceReconnect (snd s))) else (True, Some ''Failed'', s))
            else (True, None, s))
      else (False, None, s))"

text \<open>A switch of a screen: what it shows when the screen is made, and what changing it does.\<close>

definition toggle_shown :: "bool \<Rightarrow> ipc_link \<Rightarrow> nat \<Rightarrow> (service \<Rightarrow> u32) \<Rightarrow> service \<Rightarrow> bool" where
  "toggle_shown dflt l cmd get s = (case ipc_get l cmd (get s) of Some v \<Rightarrow> v \<noteq> 0 | None \<Rightarrow> dflt)"

definition toggle_changed :: "ipc_link \<Rightarrow> nat \<Rightarrow> (service \<Rightarrow> u32 \<Rightarrow> service) \<Rightarrow> bool \<Rightarrow> service \<Rightarrow> service" where
  "toggle_changed l cmd set_value enabled s = (if il_open l then ipc_set l cmd (\<lambda>s. set_value s (of_flag enabled)) s else s)"


section \<open>Screens\<close>

datatype ui_item = Item string string | Toggle string bool | Category string

definition value_or_blank :: "string \<Rightarrow> string option \<Rightarrow> ui_item" where
  "value_or_blank label v = Item label (case v of Some x \<Rightarrow> x | None \<Rightarrow> [])"

text \<open>The start of every settings screen.\<close>

definition settings_screen :: "InitState \<Rightarrow> ipc_link \<Rightarrow> ui_item list \<Rightarrow> ui_item list" where
  "settings_screen st l items =
     (if st \<noteq> Loaded then [Item ''Not available'' []]
      else if \<not> il_open l then [Item ''Service not available'' []]
      else items)"

definition get_UseTls :: "service \<Rightarrow> u32" where "get_UseTls s = cs_GetUseTls (fst s)"
definition set_UseTls :: "service \<Rightarrow> u32 \<Rightarrow> service" where "set_UseTls s v = (cs_SetUseTls (fst s) v, snd s)"
definition get_LdnEnabled :: "service \<Rightarrow> u32" where "get_LdnEnabled s = cs_GetLdnEnabled (fst s)"
definition set_LdnEnabled :: "service \<Rightarrow> u32 \<Rightarrow> service" where "set_LdnEnabled s v = (cs_SetLdnEnabled (fst s) v, snd s)"
definition get_DisableP2p :: "service \<Rightarrow> u32" where "get_DisableP2p s = cs_GetDisableP2p (fst s)"
definition set_DisableP2p :: "service \<Rightarrow> u32 \<Rightarrow> service" where "set_DisableP2p s v = (cs_SetDisableP2p (fst s) v, snd s)"
definition get_DebugEnabled :: "service \<Rightarrow> u32" where "get_DebugEnabled s = cs_GetDebugEnabled (fst s)"
definition set_DebugEnabled :: "service \<Rightarrow> u32 \<Rightarrow> service" where "set_DebugEnabled s v = (cs_SetDebugEnabled (fst s) v, snd s)"
definition get_LogToFile :: "service \<Rightarrow> u32" where "get_LogToFile s = cs_GetLogToFile (fst s)"
definition set_LogToFile :: "service \<Rightarrow> u32 \<Rightarrow> service" where "set_LogToFile s v = (cs_SetLogToFile (fst s) v, snd s)"

definition ServerSettingsGui_createUI :: "InitState \<Rightarrow> ipc_link \<Rightarrow> service \<Rightarrow> ui_item list" where
  "ServerSettingsGui_createUI st l s =
     settings_screen st l
       [value_or_blank ''Server Address'' (map_option (\<lambda>(host, port). take 95 (host @ '':'' @ decimal (unat port))) (ryuLdnGetServerAddress l s)),
        Toggle ''Use TLS'' (toggle_shown False l 8 get_UseTls s)]"

definition LdnSettingsGui_createUI :: "InitState \<Rightarrow> ipc_link \<Rightarrow> service \<Rightarrow> ui_item list" where
  "LdnSettingsGui_createUI st l s =
     settings_screen st l
       [Toggle ''LDN Enabled'' (toggle_shown True l 6 get_LdnEnabled s),
        Toggle ''Disable P2P (Relay Only)'' (toggle_shown False l 29 get_DisableP2p s),
        Category ''Passphrase'',
        value_or_blank ''Current'' (map_option (\<lambda>p. FormatPassphraseDisplay p 32) (ryuLdnGetPassphrase l s)),
        Item ''Edit Passphrase'' ''>'',
        Item ''Generate Random'' ''Press A'',
        Item ''Clear Passphrase'' ''Match all rooms'']"

definition random_clicked :: "ipc_link \<Rightarrow> (nat \<Rightarrow> nat) \<Rightarrow> button set \<Rightarrow> service \<Rightarrow> bool \<times> service" where
  "random_clicked l rand keys s =
     (if B_A \<in> keys
      then (True, if il_open l then (case GenerateRandomPassphraseOverlay rand 32 of Some p \<Rightarrow> ryuLdnSetPassphrase l p s | None \<Rightarrow> s) else s)
      else (False, s))"

definition clear_clicked :: "ipc_link \<Rightarrow> button set \<Rightarrow> service \<Rightarrow> bool \<times> service" where
  "clear_clicked l keys s = (if B_A \<in> keys then (True, if il_open l then ryuLdnSetPassphrase l [] s else s) else (False, s))"

definition DebugSettingsGui_createUI :: "InitState \<Rightarrow> ipc_link \<Rightarrow> service \<Rightarrow> ui_item list" where
  "DebugSettingsGui_createUI st l s =
     settings_screen st l
       [Toggle ''Debug Enabled'' (toggle_shown False l 10 get_DebugEnabled s),
        value_or_blank ''Debug Level'' (map_option DebugLevelToString (ipc_get l 12 (cs_GetDebugLevel (fst s)))),
        Toggle ''Log to File'' (toggle_shown False l 14 get_LogToFile s)]"

text \<open>The main screen: the texts of its live items, where there is such an item.\<close>

record MainGui =
  mg_gameActive :: bool
  mg_updateCounter :: u32
  mg_status :: "string option"
  mg_server :: "string option"
  mg_ldnState :: "string option"
  mg_sessionInfo :: "string option"
  mg_latency :: "string option"

definition MainGui_new :: "ipc_link \<Rightarrow> service \<Rightarrow> MainGui" where
  "MainGui_new l s =
     \<lparr>mg_gameActive = (il_open l \<and> (case ipc_get l 23 (cs_IsGameActive (snd s)) of Some active \<Rightarrow> active \<noteq> 0 | None \<Rightarrow> False)),
      mg_updateCounter = 0, mg_status = None, mg_server = None, mg_ldnState = None, mg_sessionInfo = None, mg_latency = None\<rparr>"

definition MainGui_createUI :: "InitState \<Rightarrow> ipc_link \<Rightarrow> service \<Rightarrow> MainGui \<Rightarrow> ui_item list \<times> MainGui" where
  "MainGui_createUI st l s g =
     (if st = InitError then ([Item ''ryu_ldn_nx not loaded'' [], Item ''Check sysmodule installation'' []], g)
      else if st = Uninit then ([Item ''Initializing...'' []], g)
      else if mg_gameActive g
      then ([Category ''Runtime (Game Active)'', Item ''LDN State'' (UpdateState l s), Item ''Session'' (UpdateInfo l s), Item ''Latency'' (UpdateLatency l s),
             Item ''Force Reconnect'' ''Press A'', Category ''Status'', Item ''Server Status'' (UpdateStatus st l s), Category ''Config'',
             Item ''Config locked'' ''(game in progress)''],
            g\<lparr>mg_ldnState := Some (UpdateState l s), mg_sessionInfo := Some (UpdateInfo l s), mg_latency := Some (UpdateLatency l s),
              mg_status := Some (UpdateStatus st l s)\<rparr>)
      else ([Category ''Status'', Item ''Server Status'' (UpdateStatus st l s), Category ''Server'', Item ''Server'' (UpdateAddress st l s),
             Category ''Settings'', Item ''Server Settings'' ''>'', Item ''Network Settings'' ''>'', Item ''LDN Settings'' ''>'', Item ''Debug Settings'' ''>'',
             Category ''Config'', Item ''Save Config'' ''Press A'', Item ''Reload Config'' ''Press A''],
            g\<lparr>mg_status := Some (UpdateStatus st l s), mg_server := Some (UpdateAddress st l s)\<rparr>))"

definition refreshed :: "string \<Rightarrow> string option \<Rightarrow> string option" where
  "refreshed new old = map_option (\<lambda>_. new) old"

definition RefreshStatus :: "InitState \<Rightarrow> ipc_link \<Rightarrow> service \<Rightarrow> MainGui \<Rightarrow> MainGui" where
  "RefreshStatus st l s g =
     (if st \<noteq> Loaded then g
      else
        let g = g\<lparr>mg_status := refreshed (UpdateStatus st l s) (mg_status g)\<rparr>
        in if mg_gameActive g
           then g\<lparr>mg_ldnState := refreshed (UpdateState l s) (mg_ldnState g), mg_sessionInfo := refreshed (UpdateInfo l s) (mg_sessionInfo g),
                  mg_latency := refreshed (UpdateLatency l s) (mg_latency g)\<rparr>
           else g\<lparr>mg_server := refreshed (UpdateAddress st l s) (mg_server g)\<rparr>)"

definition MainGui_update :: "InitState \<Rightarrow> ipc_link \<Rightarrow> service \<Rightarrow> MainGui \<Rightarrow> MainGui" where
  "MainGui_update st l s g =
     (let g = g\<lparr>mg_updateCounter := mg_updateCounter g + 1\<rparr>
      in if mg_updateCounter g \<ge> 60 then RefreshStatus st l s (g\<lparr>mg_updateCounter := 0\<rparr>) else g)"

definition MainGui_handleInput :: "InitState \<Rightarrow> ipc_link \<Rightarrow> service \<Rightarrow> button set \<Rightarrow> MainGui \<Rightarrow> bool \<times> MainGui" where
  "MainGui_handleInput st l s keysDown g = (if B_R \<in> keysDown then (True, RefreshStatus st l s g) else (False, g))"

text \<open>The start and the end of the overlay; \<open>found\<close> says whether the service manager knows the service.\<close>

definition initServices :: "bool \<Rightarrow> (nat \<Rightarrow> bool) \<Rightarrow> InitState \<times> string \<times> ipc_link" where
  "initServices found works =
     (let l = \<lparr>il_open = found, il_works = works\<rparr>
      in if \<not> found then (InitError, ''Unknown'', l)
         else (Loaded, (case ipc_get l 0 (cstring (take 31 cs_GetVersion)) of Some v \<Rightarrow> v | None \<Rightarrow> ''Unknown''), l))"

definition exitServices :: "InitState \<Rightarrow> ipc_link \<Rightarrow> ipc_link" where
  "exitServices st l = (if st = Loaded then l\<lparr>il_open := False\<rparr> else l)"

section \<open>Switches\<close>

text \<open>The contract of a switch with its two commands: reading after writing gives what was written.\<close>

locale toggle_setting =
  fixes get :: "service \<Rightarrow> u32" and set_value :: "service \<Rightarrow> u32 \<Rightarrow> service"
  assumes get_set: "get (set_value s v) = of_flag (v \<noteq> 0)"
begin

lemma shown_after_change:
  assumes "il_open l" "il_works l getter" "il_works l setter"
  shows "toggle_shown dflt l getter get (toggle_changed l setter set_value b s) = b"
  using assms by (simp add: toggle_shown_def toggle_changed_def ipc_get_def ipc_set_def get_set of_flag_def)

end

interpretation tls: toggle_setting get_UseTls set_UseTls
  by unfold_locales (simp add: get_UseTls_def set_UseTls_def cs_GetUseTls_def cs_SetUseTls_def)

interpretation ldn_on: toggle_setting get_LdnEnabled set_LdnEnabled
  by unfold_locales (simp add: get_LdnEnabled_def set_LdnEnabled_def cs_GetLdnEnabled_def cs_SetLdnEnabled_def)

interpretation p2p_off: toggle_setting get_DisableP2p set_DisableP2p
  by unfold_locales (simp add: get_DisableP2p_def set_DisableP2p_def cs_GetDisableP2p_def cs_SetDisableP2p_def)

interpretation debug_on: toggle_setting get_DebugEnabled set_DebugEnabled
  by unfold_locales (simp add: get_DebugEnabled_def set_DebugEnabled_def cs_GetDebugEnabled_def cs_SetDebugEnabled_def)

interpretation log_on: toggle_setting get_LogToFile set_LogToFile
  by unfold_locales (simp add: get_LogToFile_def set_LogToFile_def cs_GetLogToFile_def cs_SetLogToFile_def)

lemma switches_stick:
  assumes "il_open l" "\<forall>cmd. il_works l cmd"
  shows "ServerSettingsGui_createUI Loaded l (toggle_changed l 9 set_UseTls b s) ! 1 = Toggle ''Use TLS'' b"
    "LdnSettingsGui_createUI Loaded l (toggle_changed l 7 set_LdnEnabled b s) ! 0 = Toggle ''LDN Enabled'' b"
    "LdnSettingsGui_createUI Loaded l (toggle_changed l 30 set_DisableP2p b s) ! 1 = Toggle ''Disable P2P (Relay Only)'' b"
    "DebugSettingsGui_createUI Loaded l (toggle_changed l 11 set_DebugEnabled b s) ! 0 = Toggle ''Debug Enabled'' b"
    "DebugSettingsGui_createUI Loaded l (toggle_changed l 15 set_LogToFile b s) ! 2 = Toggle ''Log to File'' b"
  using assms
  by (simp_all add: ServerSettingsGui_createUI_def LdnSettingsGui_createUI_def DebugSettingsGui_createUI_def settings_screen_def
      tls.shown_after_change ldn_on.shown_after_change p2p_off.shown_after_change debug_on.shown_after_change log_on.shown_after_change)

section \<open>The keyboard writes only valid passphrases\<close>

definition hex_text :: "string \<Rightarrow> bool" where
  "hex_text t \<longleftrightarrow> length t \<le> 8 \<and> list_all (\<lambda>c. is_digit c \<or> is_hex_lower c) t"

definition hk_ok :: "HexKeyboardGui \<Rightarrow> bool" where
  "hk_ok k \<longleftrightarrow> hk_cursorX k < 4 \<and> hk_cursorY k < 4 \<and> hex_text (hk_input k)"

definition stored_valid :: "service \<Rightarrow> bool" where
  "stored_valid s \<longleftrightarrow> IsValidPassphrase (Some (ld_passphrase (cf_ldn (fst s))))"

lemma hex_char: "i < 16 \<Longrightarrow> is_digit (hex_chars ! i) \<or> is_hex_lower (hex_chars ! i)"
proof -
  assume "i < 16"
  moreover have "list_all (\<lambda>c. is_digit c \<or> is_hex_lower c) hex_chars"
    by (simp add: hex_chars_def is_digit_def is_hex_lower_def)
  ultimately show ?thesis
    by (simp add: list_all_length hex_chars_def)
qed

lemma hex_random: "hex_text (map (\<lambda>i. hex_chars ! (rand i mod 16)) [0..<8])"
  by (simp add: hex_text_def list_all_iff hex_char)

lemma hex_zero_free: "list_all (\<lambda>c. is_digit c \<or> is_hex_lower c) t \<Longrightarrow> CHR 0x00 \<notin> set t"
  by (auto simp: list_all_iff is_digit_def is_hex_lower_def)

text \<open>A passphrase passes through the array of the command unchanged.\<close>

lemma cstring_padded: "CHR 0x00 \<notin> set p \<Longrightarrow> cstring (p @ replicate (Suc n) (CHR 0x00)) = p"
  by (induction p) (auto simp: cstring_def)

lemma char_array_short:
  assumes "CHR 0x00 \<notin> set p" "length p \<le> 63"
  shows "char_array 64 p = p @ replicate (Suc (63 - length p)) (CHR 0x00)"
proof -
  have "safe_strcpy p 63 = p"
    using assms by (simp add: safe_strcpy_def cstring_id)
  moreover have "64 - length p = Suc (63 - length p)"
    using assms(2) by simp
  ultimately show ?thesis
    by (simp add: char_array_def)
qed

lemma stored_passphrase:
  assumes "CHR 0x00 \<notin> set p" "length p \<le> 63"
  shows "ld_passphrase (cf_ldn (cs_SetPassphrase g (char_array 64 p))) = p"
  using assms(2) unfolding char_array_short [OF assms] cs_SetPassphrase_def
  by (simp add: safe_strcpy_def cstring_padded [OF assms(1)] MAX_PASSPHRASE_LENGTH_def del: replicate_Suc)

lemma set_valid:
  assumes "p = [] \<or> (\<exists>t. p = ''Ryujinx-'' @ t \<and> length t = 8 \<and> hex_text t)" "stored_valid s"
  shows "stored_valid (ryuLdnSetPassphrase l p s)"
proof -
  have "CHR 0x00 \<notin> set p" "length p \<le> 63" "IsValidPassphrase (Some p)"
    using assms(1) hex_zero_free by (auto simp: IsValidPassphrase_def hex_text_def)
  then show ?thesis
    using assms(2) stored_passphrase [of p "fst s"] by (simp add: ryuLdnSetPassphrase_def ipc_set_def stored_valid_def)
qed

lemma save_valid: "hk_ok k \<Longrightarrow> stored_valid s \<Longrightarrow> stored_valid (SavePassphrase l k s)"
  by (auto simp: SavePassphrase_def hk_ok_def intro!: set_valid)

text \<open>What every key keeps.\<close>

lemma hk_ok_moves:
  "hk_ok k \<Longrightarrow> hk_ok (k\<lparr>hk_cursorY := n mod 4\<rparr>)" "hk_ok k \<Longrightarrow> hk_ok (k\<lparr>hk_cursorX := n mod 4\<rparr>)" "hk_ok k \<Longrightarrow> hk_ok (k\<lparr>hk_input := []\<rparr>)"
  by (simp_all add: hk_ok_def hex_text_def)

lemma hk_ok_type: "hk_ok k \<Longrightarrow> length (hk_input k) < 8 \<Longrightarrow> hk_ok (k\<lparr>hk_input := hk_input k @ [GetSelectedChar k]\<rparr>)"
  using hex_char [of "hk_cursorY k * 4 + hk_cursorX k"] by (simp add: GetSelectedChar_def hk_ok_def hex_text_def)

lemma hk_ok_delete: "hk_ok k \<Longrightarrow> hk_ok (k\<lparr>hk_input := butlast (hk_input k)\<rparr>)"
  by (auto simp: hk_ok_def hex_text_def list_all_iff dest: in_set_butlastD)

lemma hk_ok_random: "hk_ok k \<Longrightarrow> hk_ok (hk_GenerateRandom rand k)"
  using hex_random [of rand] by (simp add: hk_ok_def hk_GenerateRandom_def)

lemmas hk_ok_keys = hk_ok_moves hk_ok_type hk_ok_delete hk_ok_random save_valid

lemma hk_input_ok:
  assumes "hk_ok k" "stored_valid s"
  shows "hk_ok (fst (snd (snd (hk_handleInput l rand keys (k, s)))))" "stored_valid (snd (snd (snd (hk_handleInput l rand keys (k, s)))))"
  using assms by (simp_all add: hk_handleInput_def hk_ok_keys)


text \<open>A visit to the keyboard: presses of buttons, each with the numbers the random generator has then, until the screen is left.\<close>

fun hk_run :: "ipc_link \<Rightarrow> (button set \<times> (nat \<Rightarrow> nat)) list \<Rightarrow> HexKeyboardGui \<times> service \<Rightarrow> HexKeyboardGui \<times> service" where
  "hk_run l [] ks = ks"
| "hk_run l ((keys, rand) # es) ks =
     (case hk_handleInput l rand keys ks of (handled, back, ks') \<Rightarrow> if back then ks' else hk_run l es ks')"

lemma hk_run_ok: "hk_ok k \<Longrightarrow> stored_valid s \<Longrightarrow> stored_valid (snd (hk_run l es (k, s)))"
proof (induction es arbitrary: k s)
  case (Cons e es)
  obtain keys rand where e: "e = (keys, rand)"
    by fastforce
  obtain h bk k' s' where i: "hk_handleInput l rand keys (k, s) = (h, bk, k', s')"
    by (metis prod_cases4)
  then have "hk_ok k'" "stored_valid s'"
    using hk_input_ok [OF Cons.prems, of l rand keys] by simp_all
  with Cons.IH [of k' s'] e i show ?case
    by simp
qed simp

lemma get_passphrase:
  assumes "CHR 0x00 \<notin> set (ld_passphrase (cf_ldn (fst s)))" "length (ld_passphrase (cf_ldn (fst s))) \<le> 62" "il_works l 2"
  shows "ryuLdnGetPassphrase l s = Some (ld_passphrase (cf_ldn (fst s)))"
proof -
  let ?p = "ld_passphrase (cf_ldn (fst s))"
  have "take 63 (char_array 64 ?p) = ?p @ replicate (Suc (62 - length ?p)) (CHR 0x00)"
    using assms(2) by (subst char_array_short [OF assms(1)]) (simp_all del: replicate_Suc)
  then show ?thesis
    using assms(3) cstring_padded [OF assms(1)] by (simp add: ryuLdnGetPassphrase_def ipc_get_def cs_GetPassphrase_def del: replicate_Suc)
qed

lemma valid_short: "stored_valid s \<Longrightarrow> CHR 0x00 \<notin> set (ld_passphrase (cf_ldn (fst s))) \<and> length (ld_passphrase (cf_ldn (fst s))) \<le> 16"
proof -
  let ?p = "ld_passphrase (cf_ldn (fst s))"
  assume v: "stored_valid s"
  show ?thesis
  proof (cases "?p = []")
    case False
    with v have a: "length ?p = 16" "take 8 ?p = ''Ryujinx-''" "list_all (\<lambda>c. is_digit c \<or> is_hex_lower c) (drop 8 ?p)"
      by (simp_all add: stored_valid_def IsValidPassphrase_def split: if_splits)
    have "set ?p = set ''Ryujinx-'' \<union> set (drop 8 ?p)"
      by (metis a(2) append_take_drop_id set_append)
    then show ?thesis
      using a(1) hex_zero_free [OF a(3)] by simp
  qed simp
qed

lemma hk_new_ok:
  assumes "stored_valid s"
  shows "hk_ok (hk_new l s)"
proof (cases "il_open l \<and> il_works l 2")
  case True
  let ?p = "ld_passphrase (cf_ldn (fst s))"
  have "ryuLdnGetPassphrase l s = Some ?p"
    using valid_short [OF assms] True by (intro get_passphrase) auto
  moreover have "hex_text (take 8 (drop 8 ?p))" if "well_formed_passphrase ?p"
    using assms that by (auto simp: stored_valid_def IsValidPassphrase_def well_formed_passphrase_def hex_text_def split: if_splits)
  ultimately show ?thesis
    using True by (simp add: hk_new_def hk_ok_def hex_text_def Let_def)
next
  case False
  then show ?thesis
    by (auto simp: hk_new_def hk_ok_def hex_text_def ryuLdnGetPassphrase_def ipc_get_def Let_def)
qed

text \<open>
  C31: the overlay keeps the passphrase valid. The settings service stores whatever it is given, but from a valid passphrase (none, or the prefix and eight
  hexadecimal digits), no sequence of button presses on the keyboard, with any random numbers and whichever commands of the service fail, leaves an invalid
  one behind, and neither do the items that make a random passphrase and clear it.
\<close>

theorem overlay_keeps_passphrase_valid:
  assumes "IsValidPassphrase (Some (ld_passphrase (cf_ldn (fst s))))"
  shows "IsValidPassphrase (Some (ld_passphrase (cf_ldn (fst (snd (hk_run l es (hk_new l s, s))))))) \<and>
    IsValidPassphrase (Some (ld_passphrase (cf_ldn (fst (snd (random_clicked l rand keys s)))))) \<and>
    IsValidPassphrase (Some (ld_passphrase (cf_ldn (fst (snd (clear_clicked l keys s))))))"
proof -
  have v: "stored_valid s"
    using assms by (simp add: stored_valid_def)
  have "stored_valid (snd (hk_run l es (hk_new l s, s)))"
    using hk_run_ok [OF hk_new_ok [OF v] v] .
  moreover have "stored_valid (ryuLdnSetPassphrase l (''Ryujinx-'' @ map (\<lambda>i. hex_chars ! (rand i mod 16)) [0..<8]) s)"
    by (rule set_valid [OF _ v]) (metis hex_random length_map length_upt diff_zero)
  then have "stored_valid (snd (random_clicked l rand keys s))"
    using v by (simp add: random_clicked_def GenerateRandomPassphraseOverlay_def del: append.simps upt_rec_numeral)
  moreover have "stored_valid (snd (clear_clicked l keys s))"
    using v by (simp add: clear_clicked_def set_valid)
  ultimately show ?thesis
    by (simp add: stored_valid_def)
qed

section \<open>Every passphrase can be typed\<close>

definition key :: "button \<Rightarrow> button set \<times> (nat \<Rightarrow> nat)" where
  "key b = ({b}, \<lambda>_. 0)"

lemma hk_run_keys:
  "hk_run l (key B_Right # es) (k, s) = hk_run l es (k\<lparr>hk_cursorX := (hk_cursorX k + 1) mod 4\<rparr>, s)"
  "hk_run l (key B_Down # es) (k, s) = hk_run l es (k\<lparr>hk_cursorY := (hk_cursorY k + 1) mod 4\<rparr>, s)"
  "length (hk_input k) < 8 \<Longrightarrow> hk_run l (key B_A # es) (k, s) = hk_run l es (k\<lparr>hk_input := hk_input k @ [GetSelectedChar k]\<rparr>, s)"
  "hk_run l (key B_X # es) (k, s) = hk_run l es (k\<lparr>hk_input := []\<rparr>, s)"
  "hk_run l (key B_Plus # es) (k, s) = (k, SavePassphrase l k s)"
  by (simp_all add: key_def hk_handleInput_def)

lemma hk_run_right:
  "hk_cursorX k < 4 \<Longrightarrow> hk_run l (replicate n (key B_Right) @ es) (k, s) = hk_run l es (k\<lparr>hk_cursorX := (hk_cursorX k + n) mod 4\<rparr>, s)"
  by (induction n arbitrary: k) (simp_all add: hk_run_keys mod_simps)

lemma hk_run_down:
  "hk_cursorY k < 4 \<Longrightarrow> hk_run l (replicate n (key B_Down) @ es) (k, s) = hk_run l es (k\<lparr>hk_cursorY := (hk_cursorY k + n) mod 4\<rparr>, s)"
  by (induction n arbitrary: k) (simp_all add: hk_run_keys mod_simps)

lemma type_digit:
  assumes "hk_cursorX k < 4" "hk_cursorY k < 4" "i < 16" "length (hk_input k) < 8"
  shows "\<exists>bs. length bs \<le> 7 \<and> (\<forall>es. hk_run l (bs @ es) (k, s) =
    hk_run l es (\<lparr>hk_cursorX = i mod 4, hk_cursorY = i div 4, hk_input = hk_input k @ [hex_chars ! i]\<rparr>, s))"
proof -
  let ?n = "(i mod 4 + 4 - hk_cursorX k) mod 4" and ?m = "(i div 4 + 4 - hk_cursorY k) mod 4"
  let ?bs = "replicate ?n (key B_Right) @ replicate ?m (key B_Down) @ [key B_A]"
  have x: "(hk_cursorX k + ?n) mod 4 = i mod 4" "(hk_cursorY k + ?m) mod 4 = i div 4"
    using assms(1-3) by (simp_all add: mod_simps less_mult_imp_div_less)
  have "?n \<le> 3" "?m \<le> 3"
    by (simp_all add: less_Suc_eq_le [symmetric])
  then have "length ?bs \<le> 7"
    by simp
  moreover have "hk_run l (?bs @ es) (k, s) =
      hk_run l es (\<lparr>hk_cursorX = i mod 4, hk_cursorY = i div 4, hk_input = hk_input k @ [hex_chars ! i]\<rparr>, s)" for es
  proof -
    have "hk_run l (?bs @ es) (k, s) = hk_run l (replicate ?m (key B_Down) @ key B_A # es) (k\<lparr>hk_cursorX := i mod 4\<rparr>, s)"
      using hk_run_right [OF assms(1)] by (simp only: append_assoc append_Cons append_Nil x)
    also have "\<dots> = hk_run l (key B_A # es) (k\<lparr>hk_cursorX := i mod 4, hk_cursorY := i div 4\<rparr>, s)"
      using hk_run_down [of "k\<lparr>hk_cursorX := i mod 4\<rparr>"] assms(2) x(2) by simp
    also have "\<dots> = hk_run l es (\<lparr>hk_cursorX = i mod 4, hk_cursorY = i div 4, hk_input = hk_input k @ [hex_chars ! i]\<rparr>, s)"
      using assms(4) by (subst hk_run_keys(3)) (cases k; simp add: GetSelectedChar_def)+
    finally show ?thesis .
  qed
  ultimately show ?thesis
    by blast
qed


lemma type_digits:
  "hk_cursorX k < 4 \<Longrightarrow> hk_cursorY k < 4 \<Longrightarrow> list_all (\<lambda>i. i < 16) ixs \<Longrightarrow> length (hk_input k) + length ixs \<le> 8 \<Longrightarrow>
   \<exists>bs k'. length bs \<le> 7 * length ixs \<and> hk_input k' = hk_input k @ map ((!) hex_chars) ixs \<and> (\<forall>es. hk_run l (bs @ es) (k, s) = hk_run l es (k', s))"
proof (induction ixs arbitrary: k)
  case (Cons i ixs)
  let ?k = "\<lparr>hk_cursorX = i mod 4, hk_cursorY = i div 4, hk_input = hk_input k @ [hex_chars ! i]\<rparr>"
  obtain b1 where b1: "length b1 \<le> 7" "\<And>es. hk_run l (b1 @ es) (k, s) = hk_run l es (?k, s)"
    using type_digit [of k i l s] Cons.prems by auto
  have "hk_cursorX ?k < 4" "hk_cursorY ?k < 4" "list_all (\<lambda>i. i < 16) ixs" "length (hk_input ?k) + length ixs \<le> 8"
    using Cons.prems by auto
  from Cons.IH [OF this] obtain b2 k' where b2: "length b2 \<le> 7 * length ixs" "hk_input k' = hk_input ?k @ map ((!) hex_chars) ixs"
    "\<And>es. hk_run l (b2 @ es) (?k, s) = hk_run l es (k', s)"
    by blast
  show ?case
    using b1 b2 by (intro exI [of _ "b1 @ b2"] exI [of _ k']) simp
qed auto

text \<open>
  C32: every passphrase can be typed. Whatever passphrase is stored when the keyboard opens, valid or not, at most 58 presses save any eight hexadecimal
  digits as the passphrase, while the session to the settings service is open and its commands to read and to set the passphrase work; the rest of the
  settings is as before. A screen of the LDN settings that is opened after that shows them; the one below the keyboard was built before.
\<close>

theorem every_passphrase_can_be_typed:
  assumes "il_open l" "il_works l 2" "il_works l 3" and "length digits = 8" "set digits \<subseteq> set hex_chars"
  shows "\<exists>presses s'. length presses \<le> 58 \<and> snd (hk_run l presses (hk_new l s, s)) = s' \<and>
    s' = ((fst s)\<lparr>cf_ldn := (cf_ldn (fst s))\<lparr>ld_passphrase := ''Ryujinx-'' @ digits\<rparr>\<rparr>, snd s) \<and>
    LdnSettingsGui_createUI Loaded l s' ! 3 = Item ''Current'' digits"
proof -
  let ?p = "''Ryujinx-'' @ digits"
  define s' where "s' = ((fst s)\<lparr>cf_ldn := (cf_ldn (fst s))\<lparr>ld_passphrase := ?p\<rparr>\<rparr>, snd s)"
  define k where "k = hk_new l s"
  have k: "hk_cursorX k < 4" "hk_cursorY k < 4"
    by (simp_all add: k_def hk_new_def Let_def split: option.split)
  have "length hex_chars = 16"
    by (simp add: hex_chars_def)
  then have "\<forall>c\<in>set digits. \<exists>i<16. hex_chars ! i = c"
    using assms(5) by (metis in_set_conv_nth subsetD)
  then obtain f where f: "\<And>c. c \<in> set digits \<Longrightarrow> f c < 16 \<and> hex_chars ! f c = c"
    by metis
  obtain bs k' where bs: "length bs \<le> 56" "hk_input k' = digits" "\<And>es. hk_run l (bs @ es) (k\<lparr>hk_input := []\<rparr>, s) = hk_run l es (k', s)"
    using type_digits [of "k\<lparr>hk_input := []\<rparr>" "map f digits" l s] k f assms(4) by (auto simp: list_all_iff map_idI)
  have zf: "CHR 0x00 \<notin> set ?p"
    using assms(5) by (auto simp: hex_chars_def)
  have "SavePassphrase l k' s = s'"
  proof -
    have "SavePassphrase l k' s = (cs_SetPassphrase (fst s) (char_array 64 ?p), snd s)"
      using assms(1,3,4) bs(2) by (auto simp: SavePassphrase_def ryuLdnSetPassphrase_def ipc_set_def)
    then show ?thesis
      using stored_passphrase [OF zf, of "fst s"] assms(4) by (simp add: s'_def cs_SetPassphrase_def)
  qed
  then have "hk_run l (key B_X # bs @ [key B_Plus]) (k, s) = (k', s')"
    using bs(3) [of "[key B_Plus]"] by (simp only: hk_run_keys)
  moreover have "ryuLdnGetPassphrase l s' = Some ?p"
    using get_passphrase [of s' l] zf assms(2,4) by (simp add: s'_def)
  then have "LdnSettingsGui_createUI Loaded l s' ! 3 = Item ''Current'' digits"
    using assms(1,4) by (simp add: LdnSettingsGui_createUI_def settings_screen_def value_or_blank_def FormatPassphraseDisplay_def well_formed_passphrase_def)
  ultimately show ?thesis
    using bs(1) by (intro exI [of _ "key B_X # bs @ [key B_Plus]"] exI [of _ s']) (simp add: k_def s'_def)
qed

text \<open>
  The overlay never shows a connection. The service answers the question for the connection status with a constant, so whatever the LDN service
  does, a working overlay shows the server as disconnected, at the start and after every refresh, even while it shows the state of a session of several players.
\<close>

theorem status_always_disconnected:
  assumes "il_open l" "il_works l 1"
  shows "UpdateStatus Loaded l s = ''Disconnected'' \<and>
    mg_status (RefreshStatus Loaded l s (snd (MainGui_createUI Loaded l s0 (MainGui_new l s0)))) = Some ''Disconnected''"
proof -
  have "UpdateStatus Loaded l s = ''Disconnected''" for s
    using assms by (simp add: UpdateStatus_def ipc_get_def cs_GetConnectionStatus_def ConnectionStatusToString_def)
  then show ?thesis
    by (simp add: RefreshStatus_def MainGui_createUI_def refreshed_def Let_def)
qed

section \<open>Examples\<close>

definition open_link :: ipc_link where
  "open_link = \<lparr>il_open = True, il_works = (\<lambda>_. True)\<rparr>"

definition busy_service :: service where
  "busy_service = (get_default_config, ss_new\<lparr>ss_game_active := True, ss_ldn_state := StationConnected, ss_node_count := 3, ss_max_nodes := 8\<rparr>)"

lemma default_passphrase: "IsValidPassphrase (Some (ld_passphrase (cf_ldn (fst busy_service))))"
  by (simp add: busy_service_def get_default_config_def IsValidPassphrase_def)

theorem overlay_keeps_passphrase_valid_witness:
  "IsValidPassphrase (Some (ld_passphrase (cf_ldn (fst (snd (hk_run open_link [key B_Y, key B_Plus] (hk_new open_link busy_service, busy_service)))))))"
  using overlay_keeps_passphrase_valid [OF default_passphrase, where l = open_link and es = "[key B_Y, key B_Plus]"] by blast

theorem every_passphrase_can_be_typed_witness:
  "\<exists>presses. length presses \<le> 58 \<and>
     ld_passphrase (cf_ldn (fst (snd (hk_run open_link presses (hk_new open_link busy_service, busy_service))))) = ''Ryujinx-00c0ffee''"
proof -
  have "set ''00c0ffee'' \<subseteq> set hex_chars"
    by (simp add: hex_chars_def)
  then show ?thesis
    using every_passphrase_can_be_typed [of open_link "''00c0ffee''" busy_service] by (fastforce simp: open_link_def)
qed

theorem status_always_disconnected_witness:
  "UpdateStatus Loaded open_link busy_service = ''Disconnected'' \<and> UpdateState open_link busy_service = ''Connected''"
  using status_always_disconnected [of open_link busy_service busy_service]
  by (simp add: open_link_def UpdateState_def ipc_get_def cs_GetLdnState_def busy_service_def ryuLdnStateToString_def)

end
