(* ===== verification/Spec2Isabelle.thy ===== *)
theory Spec2Isabelle
  imports Ldn_Client Send_Queue Ldn_State_Machine Node_Mapper Proxy_Buffer Network_Timeout Proxy_Socket_Manager
    Ldn_Config_Service Game_Whitelist Ldn_Handlers Bsd_Poll P2p_Client Ldn_Properties
    Dns_Wrap Debug_Log Startup Overlay
begin

text \<open>
  A model of \<^verbatim>\<open>ryu_ldn_nx\<close> (under \<^verbatim>\<open>src/sysmodule/source\<close> and \<^verbatim>\<open>src/overlay/source\<close>), the system
  module that lets console games play local wireless over an internet server, with the theorems
  that make it correct.

  \<^bold>\<open>The program.\<close> Games call the LDN service (states in \<^verbatim>\<open>ldn/ldn_state_machine.cpp\<close>, nodes in
  \<^verbatim>\<open>ldn/ldn_node_mapper.cpp\<close>, received packets in \<^verbatim>\<open>ldn/ldn_proxy_buffer.cpp\<close>) and open sockets, which
  \<^verbatim>\<open>bsd/bsd_mitm_service.cpp\<close> redirects to proxy sockets (\<^verbatim>\<open>bsd/proxy_socket.cpp\<close>, kept by \<^verbatim>\<open>bsd/proxy_socket_manager.cpp\<close> with the ports of
  \<^verbatim>\<open>bsd/ephemeral_port_pool.cpp\<close>); the service keeps a session with a server through
  \<^verbatim>\<open>network/client.cpp\<close> (\<^verbatim>\<open>RyuLdnClient\<close>), which is driven by \<^verbatim>\<open>update(now)\<close>. The session client
  owns a connection state machine (\<^verbatim>\<open>network/connection_state.cpp\<close>), a reconnect manager
  (\<^verbatim>\<open>network/reconnect.cpp\<close>) and a packet client (\<^verbatim>\<open>network/tcp_client.cpp\<close>). The packet client
  encodes with \<^verbatim>\<open>protocol/ryu_protocol.hpp\<close>, reassembles the stream in
  \<^verbatim>\<open>protocol/packet_buffer.hpp\<close>, queues game traffic for a background sender thread and sends and
  receives over \<^verbatim>\<open>network/socket.cpp\<close>. Packets that arrive are handed to the application through
  a callback.

  \<^bold>\<open>The theories.\<close>
  \<^item> Prelude: machine integers, little-endian images, slices and \<^verbatim>\<open>memcpy\<close>, and the locale
    \<^verbatim>\<open>wire_struct\<close>: a structure of fixed size whose byte image can be read back.
  \<^item> Protocol_Types: the packed structures of \<^verbatim>\<open>protocol/types.hpp\<close> as records in the order of the
    fields, with the well-formedness of fixed-size arrays. Each one interprets \<^verbatim>\<open>wire_struct\<close>.
  \<^item> Ryu_Protocol: header and packet encoders and decoders with every error result; round trips and
    the exact set of accepted headers.
  \<^item> Packet_Buffer: the array and its write position. The locale \<^verbatim>\<open>stream_buffer\<close> is the contract
    of a byte queue; the class is its interpretation, and every sequence of operations refines the
    abstract queue.
  \<^item> Connection_State: the transition table as written; what a state says of the events before it (the ready state, the retry
    counter, the reported transitions), absence of traps.
  \<^item> Reconnect: the delay schedule on 32-bit words with its overflow guard, jitter, retry limit.
  \<^item> Socket: the wrapper over a script of system results (each call of \<^verbatim>\<open>send\<close>, \<^verbatim>\<open>recv\<close>, \<^verbatim>\<open>poll\<close>,
    \<^verbatim>\<open>connect\<close> takes the next one); what was put on the wire and what is still to be received are
    explicit byte lists.
  \<^item> Tcp_Client: connection, senders, the bounded proxy queue, \<^verbatim>\<open>receive_packet\<close>. The locale
    \<^verbatim>\<open>itcp_client\<close> is the contract of \<^verbatim>\<open>network/itcp_client.hpp\<close> that the session client uses.
  \<^item> Send_Queue: \<^verbatim>\<open>SendThreadLoop\<close> cut at its lock boundaries and interleaved with producers and
    direct senders.
  \<^item> Ldn_Client: the session client: connect, disconnect, \<^verbatim>\<open>update\<close> with the handler of each state,
    handshake, packet dispatch, backoff, all senders. Callbacks are recorded in a list of events.
  \<^item> Ldn_State_Machine: the communication states of a game, method by method, next to the step relation of
    the diagram; a network is active only after the calls that lead there.
  \<^item> Node_Mapper: the table of nodes and its refresh from a network description.
  \<^item> Proxy_Buffer: packet entries over a data ring. The locale \<^verbatim>\<open>packet_fifo\<close> is the contract of a packet queue; the
    class is its interpretation as long as nothing wraps into unread bytes.
  \<^item> Network_Timeout: the inactivity timeout.
  \<^item> Ring: ring queues over a fixed array, their in-place compaction, and the locale \<^verbatim>\<open>lossy_queue\<close>, the contract of
    a bounded queue that drops its oldest element.
  \<^item> Bsd_Types, Port_Pool, Proxy_Socket, Proxy_Socket_Manager: the sockets of games. The port pool interprets the locale
    \<^verbatim>\<open>port_allocator\<close>, the receive queue of a socket interprets \<^verbatim>\<open>lossy_queue\<close>; the manager routes data to
    sockets and keeps packets that arrive before their socket is bound. Its invariant is proved for every sequence of calls.
  \<^item> Bsd_Mitm, Bsd_Poll: the commands of \<^verbatim>\<open>bsd/bsd_mitm_service.cpp\<close>. Which sessions are intercepted, the socket table, and for every
    command the path over a proxy socket and the path to the real service. A forwarded request is recorded with its raw bytes, buffers, process
    and handles, and the real service is a parameter that answers to it; an ordinary call arrives as the game sent it. The locale
    \<^verbatim>\<open>manager_contract\<close> is what the commands rely on: a property of the socket manager that its operations keep. It is interpreted
    twice, for the manager's invariant and for the absence of listeners.
  \<^item> Upnp_Mapper, P2p_Server, P2p_Client: the direct connections between consoles (\<^verbatim>\<open>p2p/upnp_port_mapper.cpp\<close>,
    \<^verbatim>\<open>p2p/p2p_proxy_server.cpp\<close>, \<^verbatim>\<open>p2p/p2p_proxy_client.cpp\<close>). Sessions live on an explicit heap, so that freeing twice
    and reading freed memory are visible; the threads run over scripts of system results with the steps of other threads in between. Routing
    refines a contract of recipients, the tables are bounded over every sequence of steps, starts and stops included, until memory is misused, and the handshake and the game data are
    followed from one console to the other.
  \<^item> Ldn_Service, Ldn_Commands, Ldn_Properties: the service itself, \<^verbatim>\<open>ldn/ldn_icommunication.cpp\<close>. The state \<^verbatim>\<open>ldn_world\<close> puts the models of the
    session client, the state machine, the shared state, the socket interception and the proxies together as the class does; Ldn_Service handles the
    server's packets, Ldn_Commands has the commands of the game, the receive thread, construction and destruction. What other threads do while
    a command waits is an argument, and waiting for ever is the value \<^verbatim>\<open>Deadlock\<close>. The locale \<^verbatim>\<open>world_view\<close> is the contract of a view that
    routing game data does not touch, interpreted three times. The published state follows the state machine over every sequence of calls; scans,
    created networks and lost connections are followed from the packet to what the game reads.
  \<^item> Packet_Dispatcher, Ldn_Handlers: the dispatcher of \<^verbatim>\<open>ldn/ldn_packet_dispatcher.cpp\<close> over an arbitrary state, and the two
    handlers it is made for (\<^verbatim>\<open>ldn/ldn_session_handler.cpp\<close>, \<^verbatim>\<open>ldn/ldn_proxy_handler.cpp\<close>). The locale
    \<^verbatim>\<open>input_invariant\<close> carries an invariant through a run of inputs; three interpretations give the session, its
    reported states and the table of connections.
  \<^item> Config_File: the settings file of \<^verbatim>\<open>config/config.cpp\<close>, parser and printer on character lists, over a script of
    file-system results; a saved configuration reads back as itself.
  \<^item> Config_Manager: \<^verbatim>\<open>config/config_manager.cpp\<close> and the commands of \<^verbatim>\<open>config/config_ipc_service.cpp\<close> on the configuration;
    a manager without unsaved changes agrees with the file, unless the last read of the file failed, which leaves the defaults.
  \<^item> Ldn_Config_Service: the state shared between services (\<^verbatim>\<open>ldn/ldn_shared_state.cpp\<close>) and the commands over it.
  \<^item> Game_Whitelist: the list of title identifiers, read in chunks, sorted and searched.
  \<^item> Dns_Wrap: the resolver of \<^verbatim>\<open>network/dns_wrap.cpp\<close>. A read outside a response is the value \<^verbatim>\<open>Fault\<close>, and the records of a result are
    nodes of an explicit store over an arbitrary allocator, so that leaks and wrong frees are visible. A lookup is followed from the query to the list of
    records, and freeing a result gives back exactly the memory taken.
  \<^item> Debug_Log: the logger of \<^verbatim>\<open>debug/log.cpp\<close>. The ring of recent messages interprets \<^verbatim>\<open>lossy_buffer\<close>, the part of \<^verbatim>\<open>lossy_queue\<close>
    without a reader; the log file is complete over every sequence of messages and idle checks.
  \<^item> Startup: \<^verbatim>\<open>main.cpp\<close> and the LDN service factory \<^verbatim>\<open>ldn/ldn_mitm_service.cpp\<close>: start-up over the card and the system's answers, and which
    sessions of which process are intercepted once a game has opened the LDN service, whatever other processes do, until it is given up or taken over.
  \<^item> Overlay: the menu program \<^verbatim>\<open>src/overlay/source/main.cpp\<close> over the settings service. The locale \<^verbatim>\<open>toggle_setting\<close> is the contract of a switch with its two
    commands, interpreted for the five switches; the passphrase keyboard is a state machine whose visits keep the stored passphrase valid and reach every one.
  \<^item> This theory: properties across components.

  \<^bold>\<open>Time and termination.\<close> The receive loop and the packet loop are bounded by the code itself (a
  deadline per receive, a maximum of packets per call), and the model uses those bounds; the
  liveness theorems (a receive returns, a session is established, all packets are delivered) are
  proved under the named assumption that the system delivers the bytes it holds (\<^verbatim>\<open>delivering\<close>,
  \<^verbatim>\<open>poll_sane\<close>; for a session \<^verbatim>\<open>patient\<close>, which allows any finite number of time-outs and cuts the stream in any way), and each has a
  witness with a concrete system. Time stamps are 64-bit words, with
  the subtraction of the code.

  \<^bold>\<open>Parameters.\<close> The operating system's sockets, the file system, the memory allocator, the random numbers of the identity
  and the TLS library are not part of the repository: the model takes their results as data
  (\<^verbatim>\<open>os\<close>) and no theorem assumes more of them than it states.

  \<^bold>\<open>What the proofs found.\<close> Behaviours that the comments do not intend are proved as properties of the
  code: after a handshake timeout the client never leaves backoff; after an automatic reconnect the handshake is
  not repeated; the head-drop of a full send queue can tear the packet being sent; a wrapped write of the
  proxy buffer can overwrite unread packets; two peers that join are given the same
  address; a peer that leaves is freed twice by the host; a forged source address reaches the host's game; data too large for a packet is
  dropped and reported as sent; closing a connected TCP socket waits for a lock its own caller
  holds; no proxy socket ever listens; a failed bind keeps its proxy socket; a non-blocking connect never completes; a short read of a stream socket loses bytes; the configuration
  manager behind the LDN configuration service is never initialised, so what it is told is never saved; the service accepts an old answer
  for a new request, never steps a client that is waiting to reconnect, does not notice a disconnect packet, and the destructor of a replaced
  instance resets its successor; a failed reload of the settings leaves the defaults; two socket commands forward their arguments in another order than they
  came; the resolver takes any datagram as the answer to its question; the overlay never shows a connection.

  \<^bold>\<open>Not modelled.\<close> The command tables of the IPC framework and the IPC framework itself, drawing, colours and the network screen of the overlay (its
  text depends on the rounding of floating-point numbers), the desktop branches of the file and log functions, TLS, socket options, conversions of
  enumerations to text that only the log uses, and getters without effect. These are input and output, code of other projects, or
  have no state. Callbacks of the session client run after the client's step that makes them, in its order.
\<close>

section \<open>Properties that span components\<close>

text \<open>
  C28: a network description that the server encoded arrives intact: if its packet is the next
  thing in the stream, in pieces of any size, a receive with the client's 2048-byte buffer
  returns a SyncNetwork packet whose payload is the image of the same description.
\<close>

theorem network_info_end_to_end:
  assumes "wf_NetworkInfo info"
    and "encode_network_info out PacketId.SyncNetwork info = (EncodeResult.Success, b, n)"
    and "tcp_inv c" and "tc_stream c = take n b" and "delivering (tc_socket c) t"
  shows "\<exists>p c'. receive_packet c 2048 t = (ClientResult.Success, 1152, Some p, c') \<and>
    rx_type p = PacketId.SyncNetwork \<and> NetworkInfo_of_bytes (rx_payload p) = info"
proof -
  let ?d = "NetworkInfo_to_bytes info"
  have len: "length ?d = 1152"
    by (rule NetworkInfo_wire.len_to [OF assms(1)])
  have fits: "12 + 1152 \<le> length out"
    using assms(2) by (auto simp: encode_network_info_def encode_def get_packet_size_def Let_def split: if_splits)
  have str: "tc_stream c = packet PacketId.SyncNetwork ?d"
    using assms(2,4) fits len take_memcpy_packet [of ?d out PacketId.SyncNetwork]
    by (simp add: encode_network_info_def encode_ok)
  obtain c' where "receive_packet c 2048 t =
      (ClientResult.Success, 1152, Some \<lparr>rx_type = PacketId.SyncNetwork, rx_payload = ?d\<rparr>, c')"
    using receive_packet_live [of c PacketId.SyncNetwork ?d "[]" 2048 "[]" t] assms(3,5) str len
    by (auto simp: message_fits_def packet_id_enumerator_def kRecvBufferSize_def kRecvChunk_def)
  then show ?thesis
    using NetworkInfo_wire.of_to [OF assms(1)] by auto
qed

definition patient_client :: "byte list \<Rightarrow> TcpClient" where
  "patient_client stream = (tcp_new (split_os stream 0))\<lparr>tc_socket := (sk_new ((split_os stream 0)
     \<lparr>os_recv := [Data stream], os_poll := replicate 2000 PollReady\<rparr>))\<lparr>sk_fd := True, sk_connected := True\<rparr>\<rparr>"

theorem network_info_end_to_end_witness:
  "let info = NetworkInfo_of_bytes (replicate 1152 7);
       (r, b, n) = encode_network_info (replicate 2048 0) PacketId.SyncNetwork info
   in \<exists>p c'. receive_packet (patient_client (take n b)) 2048 20 = (ClientResult.Success, 1152, Some p, c') \<and>
        NetworkInfo_of_bytes (rx_payload p) = info"
proof -
  let ?i = "NetworkInfo_of_bytes (replicate 1152 7)"
  have wf: "wf_NetworkInfo ?i"
    by (rule NetworkInfo_wire.wf_of) simp
  define b where "b = memcpy (replicate 2048 0) 0 (packet PacketId.SyncNetwork (NetworkInfo_to_bytes ?i))"
  have e: "encode_network_info (replicate 2048 0) PacketId.SyncNetwork ?i = (EncodeResult.Success, b, 1164)"
    using NetworkInfo_wire.len_to [OF wf] by (simp add: encode_network_info_def encode_ok b_def)
  have len: "length b = 2048"
    using NetworkInfo_wire.len_to [OF wf] by (simp add: b_def)
  have inv: "tcp_inv (patient_client s)" "tc_stream (patient_client s) = s" for s
    using tcp_new_inv [of "split_os s 0"]
    by (simp_all add: patient_client_def tcp_new_def sk_new_def tc_stream_def sk_pending_def tcp_inv_def)
  have "delivering (tc_socket (patient_client (take 1164 b))) 20"
    using len by (auto simp: delivering_def patient_client_def sk_new_def takeWhile_replicate)
  then show ?thesis
    using network_info_end_to_end [OF wf e inv(1) inv(2)] e by fastforce
qed

text \<open>
  the reconnection settings of the configuration file bound what the client waits: with a
  reconnect delay that is not zero and at most about five days (so that ten times it fits in 32
  bits), every delay the client chooses lies between 1 ms and ten times that delay, whatever
  the seed of the jitter and after any number of failures.
\<close>

theorem configured_backoff_bounded:
  assumes "rc_reconnect c = (record_failure ^^ k) (rm_new (cc_reconnect (client_config_of app)))"
    and "0 < app_reconnect_delay_ms app" and "app_reconnect_delay_ms app \<le> 429496729"
  shows "1 \<le> uint (rc_current_backoff_delay_ms (start_backoff c)) \<and>
    uint (rc_current_backoff_delay_ms (start_backoff c)) \<le> 10 * uint (app_reconnect_delay_ms app)"
proof -
  let ?cfg = "cc_reconnect (client_config_of app)"
  have "uint (app_reconnect_delay_ms app) \<le> 429496729"
    using assms(3) by (simp add: word_le_def)
  then have ten: "uint (app_reconnect_delay_ms app * 10) = 10 * uint (app_reconnect_delay_ms app)"
    by (simp add: uint_word_ariths)
  have cfg: "rm_config (rc_reconnect c) = ?cfg"
    by (simp add: assms(1))
  have fields: "max_delay_ms ?cfg = app_reconnect_delay_ms app * 10" "jitter_percent ?cfg = 10"
    by (simp_all add: client_config_of_def)
  have "0 < max_delay_ms (rm_config (rc_reconnect c))" "0 < jitter_percent (rm_config (rc_reconnect c))"
    using assms(2) ten by (simp_all add: cfg fields word_less_def)
  note clamp = jitter_clamped [OF this]
  obtain seed where "rc_current_backoff_delay_ms (start_backoff c) =
      get_next_delay_ms_with_jitter (rc_reconnect c) seed"
    by (simp add: start_backoff_def Let_def)
  then show ?thesis
    using clamp [of seed] by (simp only: cfg fields ten)
qed

definition example_app :: AppConfig where
  "example_app = \<lparr>app_host = [], app_port = 30456, app_use_tls = False, app_connect_timeout_ms = 5000,
     app_ping_interval_ms = 10000, app_reconnect_delay_ms = 3000, app_max_reconnect_attempts = 5,
     app_passphrase = []\<rparr>"

definition retrying_client :: RyuLdnClient where
  "retrying_client = (new_client (split_os [] 0))
     \<lparr>rc_reconnect := (record_failure ^^ 7) (rm_new (cc_reconnect (client_config_of example_app)))\<rparr>"

theorem configured_backoff_bounded_witness:
  "1 \<le> uint (rc_current_backoff_delay_ms (start_backoff retrying_client)) \<and>
   uint (rc_current_backoff_delay_ms (start_backoff retrying_client)) \<le> 30000"
proof -
  have "rc_reconnect retrying_client = (record_failure ^^ 7) (rm_new (cc_reconnect (client_config_of example_app)))"
    by (simp add: retrying_client_def)
  from configured_backoff_bounded [OF this] show ?thesis
    by (simp add: example_app_def)
qed

end
